(* ===== verification/Prelude.thy ===== *)
theory Prelude
  imports Complex_Main "HOL-Library.Product_Lexorder"
begin

text \<open>
  What every component shares: the types for money, dates and times, the values of the
  Python exceptions, the truth tests of the source, and generic lemmas on lists and sums.

  Money is a float in major units in the source. Here it is an exact rational, so the model
  has no binary rounding error; the decimal rounding the source asks for, \<open>flt(x, 2)\<close>, is
  a function of the framework (its rounding rule is a site setting), so every definition that
  rounds takes it as the argument \<open>r2\<close>, and \<open>cents_rounding\<close> states what is relied on.
  A date is its proleptic Gregorian ordinal (\<open>date.toordinal\<close>), a naive datetime is a number of
  microseconds, \<open>86400000000\<close> of them to a day.
\<close>

section \<open>Types\<close>

type_synonym money = rat
type_synonym date = int
type_synonym datetime = int

datatype error =
    InvalidTransition
  | InsufficientCredits
  | WalletDrift
  | ValidationError string
  | QueryDeadlock
  | DuplicateEntry
  | UniqueValidation
  | DoesNotExist
  | ValueError
  | KeyError
  | GatewayTimeout string
  | GatewayError string
  | GatewayUnsupported string
  | SavepointMissing

abbreviation day_us :: int where "day_us \<equiv> 86400000000"
abbreviation hour_us :: int where "hour_us \<equiv> 3600000000"

definition dt_date :: "datetime \<Rightarrow> date" where
  "dt_date t = t div day_us"

definition dt_time :: "datetime \<Rightarrow> int" where
  "dt_time t = t mod day_us"

definition at_midnight :: "date \<Rightarrow> datetime" where
  "at_midnight d = d * day_us"

named_theorems dt_simps \<open>dates and times of day\<close>

lemma dt_split: "t = at_midnight (dt_date t) + dt_time t"
  by (simp add: dt_date_def dt_time_def at_midnight_def)

lemma dt_time_bounds [simp]: "0 \<le> dt_time t" "dt_time t < day_us"
  by (simp_all add: dt_time_def)

lemma dt_date_at_midnight [simp, dt_simps]: "dt_date (at_midnight d) = d"
  by (simp add: dt_date_def at_midnight_def)

lemma dt_time_at_midnight [simp, dt_simps]: "dt_time (at_midnight d) = 0"
  by (simp add: dt_time_def at_midnight_def)

lemma at_midnight_le_iff [simp, dt_simps]: "at_midnight a \<le> at_midnight b \<longleftrightarrow> a \<le> b"
  by (simp add: at_midnight_def)

lemma at_midnight_less_iff [simp, dt_simps]: "at_midnight a < at_midnight b \<longleftrightarrow> a < b"
  by (simp add: at_midnight_def)

lemma dt_date_mono: "s \<le> t \<Longrightarrow> dt_date s \<le> dt_date t"
  by (simp add: dt_date_def zdiv_mono1)

lemma at_midnight_le: "at_midnight d \<le> t \<longleftrightarrow> d \<le> dt_date t"
proof
  assume "at_midnight d \<le> t"
  then show "d \<le> dt_date t" using dt_date_mono [of "at_midnight d" t] by simp
next
  assume "d \<le> dt_date t"
  then have "at_midnight d \<le> at_midnight (dt_date t)" by simp
  also have "\<dots> \<le> t" using dt_split [of t] dt_time_bounds(1) [of t] by linarith
  finally show "at_midnight d \<le> t" .
qed

lemma less_at_midnight: "t < at_midnight d \<longleftrightarrow> dt_date t < d"
  using at_midnight_le [of d t] by linarith

section \<open>Errors as values\<close>

text \<open>A raise leaves every later statement unexecuted: \<open>bindE\<close> is the source's sequencing.\<close>

fun bindE :: "error + 'a \<Rightarrow> ('a \<Rightarrow> error + 'b) \<Rightarrow> error + 'b" where
  "bindE (Inl e) f = Inl e"
| "bindE (Inr x) f = f x"

lemma bindE_Inr: "bindE m f = Inr y \<longleftrightarrow> (\<exists>x. m = Inr x \<and> f x = Inr y)"
  by (cases m) auto

lemma bindE_split:
  "P (bindE m f) \<longleftrightarrow> ((\<forall>e. m = Inl e \<longrightarrow> P (Inl e)) \<and> (\<forall>x. m = Inr x \<longrightarrow> P (f x)))"
  by (cases m) auto

section \<open>Truth of optional strings\<close>

text \<open>\<open>x or y\<close> on a string that may be None: None and the empty string are false.\<close>

definition truthy :: "string option \<Rightarrow> bool" where
  "truthy x = (case x of None \<Rightarrow> False | Some s \<Rightarrow> s \<noteq> [])"

definition or_else :: "string option \<Rightarrow> string \<Rightarrow> string" where
  "or_else x y = (case x of Some s \<Rightarrow> if s = [] then y else s | None \<Rightarrow> y)"

lemma truthy_simps [simp]: "\<not> truthy None" "truthy (Some s) \<longleftrightarrow> s \<noteq> []"
  by (simp_all add: truthy_def)

lemma or_else_simps [simp]: "or_else None y = y" "s \<noteq> [] \<Longrightarrow> or_else (Some s) y = s"
  "or_else (Some []) y = y"
  by (simp_all add: or_else_def)

section \<open>Rounding to the cent\<close>

definition is_cents :: "rat \<Rightarrow> bool" where
  "is_cents x \<longleftrightarrow> x * 100 \<in> \<int>"

definition cents_rounding :: "(rat \<Rightarrow> rat) \<Rightarrow> bool" where
  "cents_rounding r2 \<longleftrightarrow>
     (\<forall>x. is_cents (r2 x)) \<and> (\<forall>x. is_cents x \<longrightarrow> r2 x = x) \<and> (\<forall>x y. x \<le> y \<longrightarrow> r2 x \<le> r2 y)"

text \<open>One function with these laws, for evaluation on concrete inputs: round half up.\<close>

definition half_up :: "rat \<Rightarrow> rat" where
  "half_up x = of_int \<lfloor>x * 100 + 1 / 2\<rfloor> / 100"

lemma is_cents_iff: "is_cents x \<longleftrightarrow> (\<exists>k::int. x = of_int k / 100)"
  by (force simp: is_cents_def Ints_def field_simps)

lemma is_cents_of_int [simp]: "is_cents (of_int k / 100)"
  by (auto simp: is_cents_iff)

lemma is_cents_0 [simp]: "is_cents 0"
  by (simp add: is_cents_def)

lemma is_cents_add [intro]: "is_cents x \<Longrightarrow> is_cents y \<Longrightarrow> is_cents (x + y)"
  by (simp add: is_cents_def distrib_right)

lemma is_cents_diff [intro]: "is_cents x \<Longrightarrow> is_cents y \<Longrightarrow> is_cents (x - y)"
  by (simp add: is_cents_def left_diff_distrib)

lemma cents_rounding_cents [simp]: "cents_rounding r2 \<Longrightarrow> is_cents (r2 x)"
  by (simp add: cents_rounding_def)

lemma cents_rounding_id: "cents_rounding r2 \<Longrightarrow> is_cents x \<Longrightarrow> r2 x = x"
  by (simp add: cents_rounding_def)

lemma cents_rounding_mono: "cents_rounding r2 \<Longrightarrow> x \<le> y \<Longrightarrow> r2 x \<le> r2 y"
  by (simp add: cents_rounding_def)

lemma cents_rounding_0 [simp]: "cents_rounding r2 \<Longrightarrow> r2 0 = 0"
  by (simp add: cents_rounding_id)

lemma cents_rounding_nonneg: "cents_rounding r2 \<Longrightarrow> 0 \<le> x \<Longrightarrow> 0 \<le> r2 x"
  using cents_rounding_mono [of r2 0 x] by simp

lemma cents_rounding_le: "cents_rounding r2 \<Longrightarrow> is_cents y \<Longrightarrow> x \<le> y \<Longrightarrow> r2 x \<le> y"
  using cents_rounding_mono [of r2 x y] by (simp add: cents_rounding_id)

lemma half_up_rounding: "cents_rounding half_up"
proof -
  have "half_up x = x" if "is_cents x" for x
  proof -
    from that obtain k :: int where k: "x = of_int k / 100" by (auto simp: is_cents_iff)
    have "\<lfloor>(of_int k + 1 / 2 :: rat)\<rfloor> = k" by (rule floor_unique) simp_all
    with k show ?thesis by (simp add: half_up_def)
  qed
  then show ?thesis
    by (auto simp: cents_rounding_def half_up_def intro!: divide_right_mono floor_mono)
qed

lemma half_up_id: "is_cents x \<Longrightarrow> half_up x = x"
  by (rule cents_rounding_id [OF half_up_rounding])

lemma is_cents_numeral [simp]: "is_cents (numeral k)" "is_cents 1"
  by (simp_all add: is_cents_def)

lemma half_up_simps [simp]: "half_up 0 = 0" "half_up 1 = 1" "half_up (numeral k) = numeral k"
  by (simp_all add: half_up_id)

section \<open>Lists and sums\<close>

lemma sum_list_nonneg_rat: "(\<And>x. x \<in> set xs \<Longrightarrow> 0 \<le> f x) \<Longrightarrow> 0 \<le> sum_list (map f xs)" for f :: "'a \<Rightarrow> rat"
  by (induction xs) auto

text \<open>The first match of a query with \<open>limit 1\<close>.\<close>

lemma find_Some: "find P xs = Some x \<Longrightarrow> x \<in> set xs \<and> P x"
  by (induction xs) (auto split: if_splits)

lemma find_None: "find P xs = None \<longleftrightarrow> (\<forall>x \<in> set xs. \<not> P x)"
  by (induction xs) auto

lemma find_append: "find P (xs @ ys) = (case find P xs of None \<Rightarrow> find P ys | Some x \<Rightarrow> Some x)"
  by (induction xs) auto

text \<open>\<open>sum(map)\<close> over a filtered list, as an SQL \<open>Sum\<close> with a \<open>where\<close>.\<close>

definition sum_where :: "('a \<Rightarrow> bool) \<Rightarrow> ('a \<Rightarrow> rat) \<Rightarrow> 'a list \<Rightarrow> rat" where
  "sum_where P f xs = sum_list (map f (filter P xs))"

lemma sum_where_Nil [simp]: "sum_where P f [] = 0"
  by (simp add: sum_where_def)

lemma sum_where_append [simp]: "sum_where P f (xs @ ys) = sum_where P f xs + sum_where P f ys"
  by (simp add: sum_where_def)

lemma sum_where_Cons [simp]: "sum_where P f (x # xs) = (if P x then f x else 0) + sum_where P f xs"
  by (simp add: sum_where_def)

section \<open>Numbers as text\<close>

text \<open>The decimal digit of a number below ten.\<close>

definition digit_char :: "int \<Rightarrow> char" where
  "digit_char n = ''0123456789'' ! nat n"

fun nat_str :: "nat \<Rightarrow> string" where
  "nat_str n = (if n < 10 then [digit_char (int n)] else nat_str (n div 10) @ [digit_char (int (n mod 10))])"

end
