(* ===== verification/Calendar.thy ===== *)
theory Calendar
  imports Prelude
begin

text \<open>
  The part of Python's \<open>datetime\<close> the source uses: the year, month and day of an ordinal
  (\<open>datetime._ord2ymd\<close>), \<open>date.replace(day=..)\<close>, the first and the last day of a month. Day arithmetic
  (\<open>add_days\<close>, \<open>timedelta(days=..)\<close>) is addition on ordinals.
\<close>

definition is_leap :: "int \<Rightarrow> bool" where
  "is_leap y \<longleftrightarrow> y mod 4 = 0 \<and> (y mod 100 \<noteq> 0 \<or> y mod 400 = 0)"

definition days_before_year :: "int \<Rightarrow> int" where
  "days_before_year y = (y - 1) * 365 + (y - 1) div 4 - (y - 1) div 100 + (y - 1) div 400"

fun days_in_month :: "int \<Rightarrow> int \<Rightarrow> int" where
  "days_in_month y m =
     (if m = 2 then (if is_leap y then 29 else 28)
      else if m = 4 \<or> m = 6 \<or> m = 9 \<or> m = 11 then 30 else 31)"

definition days_before_month :: "int \<Rightarrow> int \<Rightarrow> int" where
  "days_before_month y m =
     (if m \<le> 1 then 0 else if m = 2 then 31 else
        (if m = 3 then 59 else if m = 4 then 90 else if m = 5 then 120 else if m = 6 then 151
         else if m = 7 then 181 else if m = 8 then 212 else if m = 9 then 243 else if m = 10 then 273
         else if m = 11 then 304 else 334) + (if is_leap y then 1 else 0))"

definition ymd2ord :: "int \<Rightarrow> int \<Rightarrow> int \<Rightarrow> date" where
  "ymd2ord y m d = days_before_year y + days_before_month y m + d"

text \<open>The year of an ordinal and the zero-based day of that year, by cycles of 400, 100, 4 and 1 years.\<close>

definition ord_year :: "date \<Rightarrow> int \<times> int" where
  "ord_year n =
     (let n0 = n - 1; n400 = n0 div 146097; r400 = n0 mod 146097;
          n100 = r400 div 36524; r100 = r400 mod 36524;
          n4 = r100 div 1461; r4 = r100 mod 1461;
          n1 = r4 div 365; r1 = r4 mod 365;
          y = n400 * 400 + n100 * 100 + n4 * 4 + n1 + 1
      in if n1 = 4 \<or> n100 = 4 then (y - 1, 365) else (y, r1))"

text \<open>The month and the day of the month of a zero-based day of year \<open>y\<close>.\<close>

fun month_day :: "int \<Rightarrow> int \<Rightarrow> int \<times> int" where
  "month_day y r =
     (let m = (if r < days_before_month y 2 then 1 else if r < days_before_month y 3 then 2
        else if r < days_before_month y 4 then 3 else if r < days_before_month y 5 then 4
        else if r < days_before_month y 6 then 5 else if r < days_before_month y 7 then 6
        else if r < days_before_month y 8 then 7 else if r < days_before_month y 9 then 8
        else if r < days_before_month y 10 then 9 else if r < days_before_month y 11 then 10
        else if r < days_before_month y 12 then 11 else 12)
      in (m, r - days_before_month y m + 1))"

definition ord2ymd :: "date \<Rightarrow> int \<times> int \<times> int" where
  "ord2ymd n = (let (y, r) = ord_year n; (m, d) = month_day y r in (y, m, d))"

definition year_of :: "date \<Rightarrow> int" where "year_of n = fst (ord2ymd n)"
definition month_of :: "date \<Rightarrow> int" where "month_of n = fst (snd (ord2ymd n))"
definition day_of :: "date \<Rightarrow> int" where "day_of n = snd (snd (ord2ymd n))"

definition replace_day :: "date \<Rightarrow> int \<Rightarrow> error + date" where
  "replace_day n k =
     (if 1 \<le> k \<and> k \<le> days_in_month (year_of n) (month_of n) then Inr (ymd2ord (year_of n) (month_of n) k)
      else Inl ValueError)"

definition first_of_month :: "date \<Rightarrow> date" where
  "first_of_month n = ymd2ord (year_of n) (month_of n) 1"

definition last_of_month :: "date \<Rightarrow> date" where
  "last_of_month n = ymd2ord (year_of n) (month_of n) (days_in_month (year_of n) (month_of n))"

lemma days_in_month_ge_28: "28 \<le> days_in_month y m"
  by simp

lemma days_before_month_1 [simp]: "days_before_month y 1 = 0"
  by (simp add: days_before_month_def)

lemma month_day_bounds:
  assumes "0 \<le> r"
  shows "1 \<le> fst (month_day y r)" "fst (month_day y r) \<le> 12" "1 \<le> snd (month_day y r)"
    "days_before_month y (fst (month_day y r)) + snd (month_day y r) = r + 1"
  using assms by (auto simp: Let_def)

lemma ord_year_day: "0 \<le> snd (ord_year n)"
  by (simp add: ord_year_def Let_def)

lemma days_before_year_cycles:
  assumes "0 \<le> b" "b < 4" "0 \<le> c" "c < 25" "0 \<le> d" "d < 4"
  shows "days_before_year (a * 400 + b * 100 + c * 4 + d + 1) = a * 146097 + b * 36524 + c * 1461 + d * 365"
proof -
  let ?y = "a * 400 + b * 100 + c * 4 + d"
  have "?y div 4 = a * 100 + b * 25 + c" using assms by simp
  moreover have "?y div 100 = a * 4 + b" using assms by simp
  moreover have "?y div 400 = a" using assms by simp
  ultimately show ?thesis by (simp add: days_before_year_def)
qed

lemma div_step:
  fixes y k :: int
  assumes "0 < k"
  shows "y div k = (y - 1) div k + (if y mod k = 0 then 1 else 0)"
proof -
  obtain q r where q: "q = y div k" "r = y mod k" by blast
  have y: "y = k * q + r" by (simp add: q)
  have r: "0 \<le> r" "r < k" using assms by (simp_all add: q)
  show ?thesis
  proof (cases "r = 0")
    case True
    have "y - 1 = k * (q - 1) + (k - 1)" using True by (simp add: y right_diff_distrib)
    then have "(y - 1) div k = q - 1" using assms by (intro int_div_pos_eq [of _ _ _ "k - 1"]) simp_all
    with True q show ?thesis by simp
  next
    case False
    have "y - 1 = k * q + (r - 1)" by (simp add: y)
    then have "(y - 1) div k = q" using False r by (intro int_div_pos_eq [of _ _ _ "r - 1"]) simp_all
    with False q show ?thesis by simp
  qed
qed

lemma leap_days:
  fixes A B C y :: int
  assumes "A' = A + (if p then 1 else 0)" "B' = B + (if q then 1 else 0)" "C' = C + (if r then 1 else 0)"
    and "q \<Longrightarrow> p" "r \<Longrightarrow> q"
  shows "y * 365 + A' - B' + C' = (y - 1) * 365 + A - B + C + (if p \<and> (\<not> q \<or> r) then 366 else 365)"
  using assms(4,5) unfolding assms(1-3) by (cases p; cases q; cases r; simp)

lemma days_before_year_Suc: "days_before_year (y + 1) = days_before_year y + (if is_leap y then 366 else 365)"
proof -
  have dvds: "(4::int) dvd 100" "(100::int) dvd 400" by simp_all
  then have i100: "y mod 100 = 0 \<Longrightarrow> y mod 4 = 0" and i400: "y mod 400 = 0 \<Longrightarrow> y mod 100 = 0"
    using dvd_trans by (simp_all only: mod_eq_0_iff_dvd) blast+
  have next_year: "days_before_year (y + 1) = y * 365 + y div 4 - y div 100 + y div 400"
    by (simp add: days_before_year_def)
  from leap_days [OF div_step [of 4 y] div_step [of 100 y] div_step [of 400 y] i100 i400, of y]
  show ?thesis by (simp only: next_year days_before_year_def [of y] is_leap_def zero_less_numeral)
qed

lemma days_before_year_mono: "x \<le> y \<Longrightarrow> days_before_year x \<le> days_before_year y"
proof (induction y rule: int_ge_induct)
  case (step i)
  then show ?case using days_before_year_Suc [of i] by (auto split: if_splits)
qed simp

lemma days_before_year_less: "x < y \<Longrightarrow> days_before_year x + (if is_leap x then 366 else 365) \<le> days_before_year y"
  using days_before_year_mono [of "x + 1" y] days_before_year_Suc [of x] by simp

text \<open>The year found for an ordinal is the one whose days hold it.\<close>

lemma ord_year_sound: "days_before_year (fst (ord_year n)) + snd (ord_year n) + 1 = n"
proof -
  define n0 a r400 b r100 c r4 d r1 where defs: "n0 = n - 1" "a = n0 div 146097" "r400 = n0 mod 146097"
    "b = r400 div 36524" "r100 = r400 mod 36524" "c = r100 div 1461" "r4 = r100 mod 1461"
    "d = r4 div 365" "r1 = r4 mod 365"
  have sum: "n0 = a * 146097 + r400" "r400 = b * 36524 + r100" "r100 = c * 1461 + r4" "r4 = d * 365 + r1"
    by (simp_all add: defs)
  have bounds: "0 \<le> r400" "r400 < 146097" "0 \<le> r100" "r100 < 36524" "0 \<le> r4" "r4 < 1461" "0 \<le> r1" "r1 < 365"
    by (simp_all add: defs)
  have ranges: "0 \<le> b" "b \<le> 4" "0 \<le> c" "c < 25" "0 \<le> d" "d \<le> 4"
    using sum bounds by linarith+
  have year: "ord_year n = (if d = 4 \<or> b = 4 then (a * 400 + b * 100 + c * 4 + d, 365)
      else (a * 400 + b * 100 + c * 4 + d + 1, r1))"
    by (simp add: ord_year_def Let_def defs)
  consider (plain) "d \<noteq> 4" "b \<noteq> 4" | (fourth) "d = 4" "b \<noteq> 4" | (last) "b = 4" by blast
  then show ?thesis
  proof cases
    case plain
    then have "days_before_year (a * 400 + b * 100 + c * 4 + d + 1) = a * 146097 + b * 36524 + c * 1461 + d * 365"
      using ranges by (intro days_before_year_cycles) auto
    with plain year sum show ?thesis by (simp add: defs(1))
  next
    case fourth
    then have "days_before_year (a * 400 + b * 100 + c * 4 + 3 + 1) = a * 146097 + b * 36524 + c * 1461 + 3 * 365"
      using ranges by (intro days_before_year_cycles) auto
    moreover have "r1 = 0" using fourth sum bounds by linarith
    ultimately show ?thesis using fourth year sum by (simp add: defs(1) ac_simps)
  next
    case last
    have "r100 = 0" using last sum bounds by linarith
    then have "c = 0" "d = 0" "r1 = 0" by (simp_all add: defs)
    have "days_before_year (a * 400 + 3 * 100 + 24 * 4 + 3 + 1) = a * 146097 + 3 * 36524 + 24 * 1461 + 3 * 365"
      by (intro days_before_year_cycles) auto
    with last \<open>c = 0\<close> \<open>d = 0\<close> \<open>r1 = 0\<close> \<open>r100 = 0\<close> year sum show ?thesis by (simp add: defs(1) ac_simps)
  qed
qed

lemma ord2ymd_sound: "ord2ymd n = (y, m, d) \<Longrightarrow> ymd2ord y m d = n"
  using ord_year_sound [of n] month_day_bounds(4) [OF ord_year_day, of "fst (ord_year n)" n]
  by (auto simp: ord2ymd_def ymd2ord_def split_beta simp del: month_day.simps)

lemma ymd_roundtrip: "ymd2ord (year_of n) (month_of n) (day_of n) = n"
  by (rule ord2ymd_sound) (simp add: year_of_def month_of_def day_of_def)

lemma day_of_pos: "1 \<le> day_of n"
  using month_day_bounds(3) [OF ord_year_day, of "fst (ord_year n)" n]
  by (simp add: day_of_def ord2ymd_def split_beta del: month_day.simps)

lemma replace_day_eq: "replace_day n k = Inr d \<Longrightarrow> d = n - day_of n + k"
  using ymd_roundtrip [of n] by (auto simp: replace_day_def ymd2ord_def split: if_splits)

lemma replace_day_ok: "1 \<le> k \<Longrightarrow> k \<le> 28 \<Longrightarrow> replace_day n k = Inr (n - day_of n + k)"
  using ymd_roundtrip [of n] days_in_month_ge_28 [of "year_of n" "month_of n"]
  by (auto simp: replace_day_def ymd2ord_def simp del: days_in_month.simps)

lemma first_of_month_eq: "first_of_month n = n - day_of n + 1"
  using ymd_roundtrip [of n] by (simp add: first_of_month_def ymd2ord_def)

lemma first_of_month_le: "first_of_month n \<le> n"
  using day_of_pos [of n] by (simp add: first_of_month_eq)

end
