(* ===== verification/Settings.thy ===== *)
theory Settings
  imports Calendar
begin

text \<open>
  Billing Settings as the code reads them (\<open>central/billing/settings.py\<close>): every knob through a
  named function, with the overrides a projection puts in front of the stored document
  (\<open>overridden\<close>, a context variable in the source, a map here). Fields that only feed the
  operator alerts and the Raven connection are not modelled.
\<close>

record billing_settings =
  bs_promotional_credit_validity_days :: int
  bs_invoice_due_days :: int
  bs_dunning_retry_interval_days :: int
  bs_billing_details_grace_days :: int
  bs_suspension_day :: int
  bs_terminate_after_days :: int
  bs_payment_log_retention_days :: int
  bs_default_gst_rate :: rat
  bs_grant_welcome_credits :: bool
  bs_welcome_credit_amounts :: "(string \<times> rat) list"
  bs_minimum_invoice_amounts :: "(string \<times> rat) list"
  bs_enable_gateway_fallback :: bool
  bs_overrides :: "string \<Rightarrow> int option"

text \<open>\<open>overridden(**values)\<close>: values that are None are dropped, the rest win over outer overrides.\<close>

definition overridden :: "(string \<times> int option) list \<Rightarrow> billing_settings \<Rightarrow> billing_settings" where
  "overridden vals s = s\<lparr>bs_overrides := bs_overrides s ++
     map_of (rev (map (\<lambda>(k, v). (k, the v)) (filter (\<lambda>(k, v). v \<noteq> None) vals)))\<rparr>"

text \<open>The overridden value of a field, or the stored one.\<close>

definition read_setting :: "string \<Rightarrow> (billing_settings \<Rightarrow> int) \<Rightarrow> billing_settings \<Rightarrow> int" where
  "read_setting field stored s = (case bs_overrides s field of Some v \<Rightarrow> v | None \<Rightarrow> stored s)"

definition DEFAULT_PROMOTIONAL_CREDIT_VALIDITY_DAYS :: int where
  "DEFAULT_PROMOTIONAL_CREDIT_VALIDITY_DAYS = 60"

definition promotional_credit_validity_days :: "billing_settings \<Rightarrow> int" where
  "promotional_credit_validity_days s =
     (let days = read_setting ''promotional_credit_validity_days'' bs_promotional_credit_validity_days s
      in if days = 0 then DEFAULT_PROMOTIONAL_CREDIT_VALIDITY_DAYS else days)"

definition invoice_due_days :: "billing_settings \<Rightarrow> int" where
  "invoice_due_days s = read_setting ''invoice_due_days'' bs_invoice_due_days s"

definition dunning_retry_interval_days :: "billing_settings \<Rightarrow> int" where
  "dunning_retry_interval_days s =
     max 1 (read_setting ''dunning_retry_interval_days'' bs_dunning_retry_interval_days s)"

definition billing_details_grace_days :: "billing_settings \<Rightarrow> int" where
  "billing_details_grace_days s = read_setting ''billing_details_grace_days'' bs_billing_details_grace_days s"

definition suspension_day :: "billing_settings \<Rightarrow> int" where
  "suspension_day s = read_setting ''suspension_day'' bs_suspension_day s"

definition terminate_after_days :: "billing_settings \<Rightarrow> int" where
  "terminate_after_days s = read_setting ''terminate_after_days'' bs_terminate_after_days s"

definition MIN_PAYMENT_LOG_RETENTION_DAYS :: int where
  "MIN_PAYMENT_LOG_RETENTION_DAYS = 180"

definition payment_log_retention_days :: "billing_settings \<Rightarrow> int" where
  "payment_log_retention_days s = max (bs_payment_log_retention_days s) MIN_PAYMENT_LOG_RETENTION_DAYS"

definition minimum_invoice_amount :: "billing_settings \<Rightarrow> string option \<Rightarrow> rat" where
  "minimum_invoice_amount s currency =
     (case find (\<lambda>(c, a). Some c = currency) (bs_minimum_invoice_amounts s) of
        Some (c, a) \<Rightarrow> a | None \<Rightarrow> 0)"

definition welcome_credit_amount :: "billing_settings \<Rightarrow> string \<Rightarrow> rat" where
  "welcome_credit_amount s currency =
     (if \<not> bs_grant_welcome_credits s then 0
      else case find (\<lambda>(c, a). c = currency) (bs_welcome_credit_amounts s) of
        Some (c, a) \<Rightarrow> a | None \<Rightarrow> 0)"

text \<open>
  What saving Billing Settings checks of the dunning ladder and of the minimum invoice amounts
  (\<open>doctype/billing_settings/billing_settings.py\<close>).
\<close>

definition LAST_PAYMENT_DAY :: int where "LAST_PAYMENT_DAY = 10"
definition LAST_SUSPENSION_DAY :: int where "LAST_SUSPENSION_DAY = 28"

definition validate_suspension_day :: "int \<Rightarrow> error + unit" where
  "validate_suspension_day day =
     (if \<not> (LAST_PAYMENT_DAY < day \<and> day \<le> LAST_SUSPENSION_DAY)
      then Inl (ValidationError ''Invalid Dunning Ladder'') else Inr ())"

definition validate_dunning_ladder :: "billing_settings \<Rightarrow> error + unit" where
  "validate_dunning_ladder s =
     (if bs_dunning_retry_interval_days s < 1 then Inl (ValidationError ''Invalid Dunning Ladder'')
      else bindE (validate_suspension_day (bs_suspension_day s)) (\<lambda>_.
        if bs_terminate_after_days s < 1 then Inl (ValidationError ''Invalid Dunning Ladder'')
        else Inr ()))"

definition GATEWAY_MINIMUM_CHARGES :: "(string \<times> rat) list" where
  "GATEWAY_MINIMUM_CHARGES = [(''INR'', 1), (''USD'', 1)]"

definition validate_one_minimum_per_currency :: "billing_settings \<Rightarrow> error + unit" where
  "validate_one_minimum_per_currency s =
     (if \<not> distinct (map fst (bs_minimum_invoice_amounts s)) then Inl (ValidationError ''Duplicate Currency'')
      else if list_ex (\<lambda>(c, a). case map_of GATEWAY_MINIMUM_CHARGES c of None \<Rightarrow> False | Some limit \<Rightarrow> a > limit)
                (bs_minimum_invoice_amounts s) then Inl (ValidationError ''Minimum Too High'')
      else Inr ())"

text \<open>Settings for the examples: the values Billing Settings ships with.\<close>

definition shipped_settings :: billing_settings where
  "shipped_settings = \<lparr>bs_promotional_credit_validity_days = 60, bs_invoice_due_days = 7,
     bs_dunning_retry_interval_days = 2, bs_billing_details_grace_days = 30, bs_suspension_day = 15,
     bs_terminate_after_days = 10, bs_payment_log_retention_days = 180, bs_default_gst_rate = 18,
     bs_grant_welcome_credits = True, bs_welcome_credit_amounts = [(''INR'', 1000), (''USD'', 10)],
     bs_minimum_invoice_amounts = [(''INR'', 1), (''USD'', 1)], bs_enable_gateway_fallback = False,
     bs_overrides = Map.empty\<rparr>"

lemma promotional_credit_validity_days_nonzero: "promotional_credit_validity_days s \<noteq> 0"
  by (simp add: promotional_credit_validity_days_def DEFAULT_PROMOTIONAL_CREDIT_VALIDITY_DAYS_def Let_def)

lemma dunning_retry_interval_days_pos: "1 \<le> dunning_retry_interval_days s"
  by (simp add: dunning_retry_interval_days_def)

lemma payment_log_retention_days_ge: "MIN_PAYMENT_LOG_RETENTION_DAYS \<le> payment_log_retention_days s"
  by (simp add: payment_log_retention_days_def)

end
