(* ===== verification/Profiles.thy ===== *)
theory Profiles
  imports Settings
begin

text \<open>
  Billing Profile: the team's currency, country, GST standing and payment day
  (\<open>doctype/billing_profile/billing_profile.py\<close>), and the dates an invoice gets from it.
  A profile table is a map from the team's name. The fields that only feed the accounting sync
  and the trust tier are not modelled.
\<close>

record billing_profile =
  bp_team :: string
  bp_currency :: "string option"
  bp_country :: "string option"
  bp_legal_name :: "string option"
  bp_address_line1 :: "string option"
  bp_city :: "string option"
  bp_is_internal :: bool
  bp_gstin :: "string option"
  bp_gst_status :: "string option"
  bp_collection_mode :: "string option"
  bp_collection_action_reason :: "string option"
  bp_payment_day :: int
  bp_payment_day_changes :: int
  bp_payment_day_changes_cycle :: "date option"

type_synonym profiles = "string \<Rightarrow> billing_profile option"

section \<open>Text\<close>

text \<open>\<open>str.strip()\<close> on the ASCII white space.\<close>

definition is_space :: "char \<Rightarrow> bool" where
  "is_space c \<longleftrightarrow> c \<in> set [CHR 0x20, CHR 0x09, CHR 0x0A, CHR 0x0B, CHR 0x0C, CHR 0x0D,
     CHR 0x1C, CHR 0x1D, CHR 0x1E, CHR 0x1F]"

definition strip :: "string \<Rightarrow> string" where
  "strip s = rev (dropWhile is_space (rev (dropWhile is_space s)))"

lemma strip_eq_Nil: "strip s = [] \<longleftrightarrow> list_all is_space s"
  by (auto simp: strip_def list_all_iff dropWhile_eq_Nil_conv dest: set_dropWhileD)
    (metis dropWhile_eq_Nil_conv set_takeWhileD takeWhile_dropWhile_id Un_iff set_append)

section \<open>Payment and due dates\<close>

definition DEFAULT_PAYMENT_DAY :: int where "DEFAULT_PAYMENT_DAY = 1"

definition payment_day_or_default :: "profiles \<Rightarrow> string \<Rightarrow> int" where
  "payment_day_or_default ps team = (case ps team of
     None \<Rightarrow> DEFAULT_PAYMENT_DAY
   | Some p \<Rightarrow> if bp_payment_day p = 0 then DEFAULT_PAYMENT_DAY else bp_payment_day p)"

definition get_payment_date :: "profiles \<Rightarrow> string \<Rightarrow> date \<Rightarrow> error + date" where
  "get_payment_date ps team opened_on =
     bindE (replace_day opened_on (payment_day_or_default ps team)) (\<lambda>d. Inr (max opened_on d))"

definition get_due_date_for :: "billing_settings \<Rightarrow> date \<Rightarrow> date \<Rightarrow> date" where
  "get_due_date_for s opened_on payment_date = max (opened_on + invoice_due_days s) payment_date"

definition get_due_date :: "billing_settings \<Rightarrow> profiles \<Rightarrow> string \<Rightarrow> date \<Rightarrow> error + date" where
  "get_due_date s ps team opened_on =
     bindE (get_payment_date ps team opened_on) (\<lambda>pd. Inr (get_due_date_for s opened_on pd))"

section \<open>Billing details\<close>

definition REQUIRED_FIELDS :: "string list" where
  "REQUIRED_FIELDS = [''currency'', ''legal_name'', ''address_line1'', ''city'', ''country'']"

definition required_value :: "billing_profile \<Rightarrow> string \<Rightarrow> string option" where
  "required_value p field =
     (if field = ''currency'' then bp_currency p else if field = ''legal_name'' then bp_legal_name p
      else if field = ''address_line1'' then bp_address_line1 p else if field = ''city'' then bp_city p
      else if field = ''country'' then bp_country p else None)"

definition get_missing_fields_of :: "billing_profile option \<Rightarrow> string list" where
  "get_missing_fields_of profile = (case profile of
     None \<Rightarrow> REQUIRED_FIELDS
   | Some p \<Rightarrow> filter (\<lambda>f. strip (or_else (required_value p f) '''') = []) REQUIRED_FIELDS)"

definition get_missing_fields :: "profiles \<Rightarrow> string \<Rightarrow> string list" where
  "get_missing_fields ps team = get_missing_fields_of (ps team)"

definition field_label :: "string \<Rightarrow> string" where
  "field_label field = (case map_of [(''currency'', ''currency''), (''legal_name'', ''legal name''),
     (''address_line1'', ''address line 1''), (''city'', ''city''), (''country'', ''country'')] field of
     None \<Rightarrow> field | Some l \<Rightarrow> l)"

definition is_complete :: "profiles \<Rightarrow> string \<Rightarrow> bool" where
  "is_complete ps team \<longleftrightarrow> get_missing_fields ps team = []"

definition require_billing_profile :: "profiles \<Rightarrow> string \<Rightarrow> error + unit" where
  "require_billing_profile ps team =
     (if map field_label (get_missing_fields ps team) \<noteq> [] then Inl (ValidationError ''Complete your billing profile'')
      else Inr ())"

section \<open>The payment day\<close>

definition PAYMENT_DAY_CHANGES_PER_CYCLE :: int where "PAYMENT_DAY_CHANGES_PER_CYCLE = 2"

definition changes_this_cycle :: "date \<Rightarrow> billing_profile \<Rightarrow> int" where
  "changes_this_cycle today p = (case bp_payment_day_changes_cycle p of
     None \<Rightarrow> 0
   | Some cycle \<Rightarrow> if cycle \<noteq> first_of_month today then 0 else bp_payment_day_changes p)"

definition get_payment_day_changes_left :: "date \<Rightarrow> billing_profile \<Rightarrow> int" where
  "get_payment_day_changes_left today p = max 0 (PAYMENT_DAY_CHANGES_PER_CYCLE - changes_this_cycle today p)"

definition change_payment_day :: "date \<Rightarrow> int \<Rightarrow> billing_profile \<Rightarrow> error + billing_profile" where
  "change_payment_day today day p =
     (if day = bp_payment_day p then Inr p
      else if get_payment_day_changes_left today p = 0 then Inl (ValidationError ''payment date changes used up'')
      else Inr (p\<lparr>bp_payment_day_changes := changes_this_cycle today p + 1,
                  bp_payment_day_changes_cycle := Some (first_of_month today),
                  bp_payment_day := day\<rparr>))"

definition validate_payment_day :: "billing_profile \<Rightarrow> error + unit" where
  "validate_payment_day p =
     (if \<not> (1 \<le> bp_payment_day p \<and> bp_payment_day p \<le> LAST_PAYMENT_DAY)
      then Inl (ValidationError ''Choose a payment day'') else Inr ())"

definition validate_currency_matches_country :: "billing_profile \<Rightarrow> error + unit" where
  "validate_currency_matches_country p =
     (if \<not> truthy (bp_country p) \<or> \<not> truthy (bp_currency p) then Inr ()
      else if (strip (the (bp_country p)) = ''India'') = (the (bp_currency p) = ''INR'') then Inr ()
      else Inl (ValidationError ''INR is for teams in India''))"

definition lock_country_and_currency_after_invoicing ::
  "bool \<Rightarrow> billing_profile option \<Rightarrow> billing_profile \<Rightarrow> error + unit" where
  "lock_country_and_currency_after_invoicing has_invoice before p = (case before of
     None \<Rightarrow> Inr ()
   | Some b \<Rightarrow>
       if bp_country p = bp_country b \<and> bp_currency p = bp_currency b then Inr ()
       else if \<not> has_invoice then Inr ()
       else Inl (ValidationError ''already been invoiced''))"

section \<open>Lemmas\<close>

lemma get_payment_date_ok:
  assumes "1 \<le> payment_day_or_default ps team" "payment_day_or_default ps team \<le> 28"
  shows "get_payment_date ps team opened_on =
    Inr (max opened_on (first_of_month opened_on + payment_day_or_default ps team - 1))"
  using replace_day_ok [OF assms, of opened_on] by (simp add: get_payment_date_def first_of_month_eq)

lemma get_payment_date_ge: "get_payment_date ps team d = Inr pd \<Longrightarrow> d \<le> pd"
  by (auto simp: get_payment_date_def bindE_Inr)

lemma get_due_date_ge:
  "get_due_date s ps team d = Inr due \<Longrightarrow> get_payment_date ps team d = Inr pd \<Longrightarrow> pd \<le> due"
  by (auto simp: get_due_date_def bindE_Inr get_due_date_for_def)

lemma get_missing_fields_of_Some:
  "f \<in> set (get_missing_fields_of (Some p)) \<longleftrightarrow>
     f \<in> set REQUIRED_FIELDS \<and> list_all is_space (or_else (required_value p f) '''')"
  by (auto simp: get_missing_fields_of_def strip_eq_Nil)

text \<open>A team changes its payment day, each change to another day, within one billing cycle.\<close>

fun change_days :: "date \<Rightarrow> int list \<Rightarrow> billing_profile \<Rightarrow> error + billing_profile" where
  "change_days today [] p = Inr p"
| "change_days today (d # ds) p = bindE (change_payment_day today d p) (change_days today ds)"

lemma change_payment_day_counts:
  assumes "change_payment_day today d p = Inr p'" "d \<noteq> bp_payment_day p"
  shows "changes_this_cycle today p' = changes_this_cycle today p + 1"
    and "changes_this_cycle today p < PAYMENT_DAY_CHANGES_PER_CYCLE"
    and "bp_payment_day p' = d"
  using assms
  by (auto simp: change_payment_day_def changes_this_cycle_def get_payment_day_changes_left_def
      PAYMENT_DAY_CHANGES_PER_CYCLE_def split: if_splits option.splits)

end
