(* ===== verification/States.thy ===== *)
theory States
  imports Prelude
begin

text \<open>
  The single transition authority of billing (\<open>central/billing/states.py\<close>): the ten status
  machines, \<open>transition\<close>, and the derived stream of Billing Events
  (\<open>doctype/billing_event/billing_event.py\<close>).

  A document is the part of it the authority reads: its doctype, name and string fields. The
  database insert of the event appends to a list of events; \<open>occurred_at\<close> and the session user
  come from an \<open>ambient\<close> record.
\<close>

section \<open>State machines\<close>

record state_machine =
  sm_doctype :: string
  sm_field :: string
  sm_edges :: "(string \<times> string list) list"

definition edges_get :: "state_machine \<Rightarrow> string option \<Rightarrow> string list" where
  "edges_get m f = (case f of None \<Rightarrow> [] | Some s \<Rightarrow>
     (case map_of (sm_edges m) s of None \<Rightarrow> [] | Some tos \<Rightarrow> tos))"

definition allows :: "state_machine \<Rightarrow> string option \<Rightarrow> string \<Rightarrow> bool" where
  "allows m from_state to_state \<longleftrightarrow> to_state \<in> set (edges_get m from_state)"

definition machine_states :: "state_machine \<Rightarrow> string set" where
  "machine_states m = set (map fst (sm_edges m)) \<union> set (concat (map snd (sm_edges m)))"

definition INVOICE :: state_machine where
  "INVOICE = \<lparr>sm_doctype = ''Invoice'', sm_field = ''status'', sm_edges =
     [(''Outstanding'', [''Paid'', ''Overdue'', ''Cancelled'', ''Waived'']),
      (''Overdue'', [''Paid'', ''Cancelled'', ''Waived'']),
      (''Paid'', [''Cancelled'']),
      (''Cancelled'', []),
      (''Waived'', [])]\<rparr>"

definition PAYMENT_ATTEMPT :: state_machine where
  "PAYMENT_ATTEMPT = \<lparr>sm_doctype = ''Payment Attempt'', sm_field = ''status'', sm_edges =
     [(''Initiated'', [''Authorised'', ''Captured'', ''Failed'']),
      (''Authorised'', [''Captured'', ''Failed'']),
      (''Captured'', [''Failed'', ''Refunded'']),
      (''Failed'', []),
      (''Refunded'', [])]\<rparr>"

definition SUBSCRIPTION_STANDING :: state_machine where
  "SUBSCRIPTION_STANDING = \<lparr>sm_doctype = ''Subscription'', sm_field = ''account_standing'', sm_edges =
     [(''Current'', [''Past Due'']),
      (''Past Due'', [''Current'', ''Suspended'']),
      (''Suspended'', [''Current''])]\<rparr>"

definition REFUND :: state_machine where
  "REFUND = \<lparr>sm_doctype = ''Refund'', sm_field = ''status'', sm_edges =
     [(''Initiated'', [''Pending'', ''Completed'', ''Failed'']),
      (''Pending'', [''Completed'', ''Failed'']),
      (''Completed'', []),
      (''Failed'', [''Initiated''])]\<rparr>"

definition PAYMENT_METHOD :: state_machine where
  "PAYMENT_METHOD = \<lparr>sm_doctype = ''Payment Method'', sm_field = ''status'', sm_edges =
     [(''Pending Validation'', [''Active'', ''Failed'', ''Cancelled'']),
      (''Active'', [''Paused'', ''Cancelled'', ''Expired'', ''Failed'']),
      (''Paused'', [''Active'', ''Cancelled'', ''Expired'']),
      (''Failed'', []),
      (''Cancelled'', []),
      (''Expired'', [])]\<rparr>"

definition WEBHOOK_EVENT :: state_machine where
  "WEBHOOK_EVENT = \<lparr>sm_doctype = ''Webhook Event'', sm_field = ''status'', sm_edges =
     [(''Received'', [''Processed'', ''Failed'', ''Ignored'']),
      (''Failed'', [''Processed'', ''Ignored'']),
      (''Processed'', []),
      (''Ignored'', [])]\<rparr>"

definition TOP_UP_ORDER :: state_machine where
  "TOP_UP_ORDER = \<lparr>sm_doctype = ''Top-up Order'', sm_field = ''status'', sm_edges =
     [(''Created'', [''Credited'', ''Failed'', ''Expired'']),
      (''Expired'', [''Credited'']),
      (''Credited'', []),
      (''Failed'', [])]\<rparr>"

definition BILLING_RUN :: state_machine where
  "BILLING_RUN = \<lparr>sm_doctype = ''Billing Run'', sm_field = ''status'', sm_edges =
     [(''Drafting'', [''Collecting'', ''Complete'']),
      (''Collecting'', [''Complete'']),
      (''Complete'', [''Collecting''])]\<rparr>"

definition RERATING_RUN :: state_machine where
  "RERATING_RUN = \<lparr>sm_doctype = ''Rerating Run'', sm_field = ''status'', sm_edges =
     [(''Running'', [''Complete'', ''Failed'']),
      (''Complete'', []),
      (''Failed'', [])]\<rparr>"

definition COMMITMENT :: state_machine where
  "COMMITMENT = \<lparr>sm_doctype = ''Commitment'', sm_field = ''status'', sm_edges =
     [(''Active'', [''Completed'', ''Breached'']),
      (''Completed'', []),
      (''Breached'', [])]\<rparr>"

lemmas machine_defs = INVOICE_def PAYMENT_ATTEMPT_def SUBSCRIPTION_STANDING_def REFUND_def
  PAYMENT_METHOD_def WEBHOOK_EVENT_def TOP_UP_ORDER_def BILLING_RUN_def RERATING_RUN_def COMMITMENT_def

lemmas allows_simps = allows_def edges_get_def

definition MACHINES :: "state_machine list" where
  "MACHINES = [INVOICE, PAYMENT_ATTEMPT, SUBSCRIPTION_STANDING, REFUND, PAYMENT_METHOD,
     WEBHOOK_EVENT, TOP_UP_ORDER, BILLING_RUN, RERATING_RUN, COMMITMENT]"

definition machine_for :: "string \<Rightarrow> error + state_machine" where
  "machine_for doctype = (case map_of (map (\<lambda>m. (sm_doctype m, m)) MACHINES) doctype of
     None \<Rightarrow> Inl InvalidTransition | Some m \<Rightarrow> Inr m)"

section \<open>Documents and Billing Events\<close>

record sdoc =
  sd_doctype :: string
  sd_name :: string
  sd_fields :: "string \<Rightarrow> string option"

record billing_event =
  ev_team :: "string option"
  ev_occurred_at :: datetime
  ev_event_type :: string
  ev_category :: string
  ev_outcome :: string
  ev_subject_doctype :: string
  ev_subject :: string
  ev_from_state :: "string option"
  ev_to_state :: "string option"
  ev_amount :: "rat option"
  ev_currency :: "string option"
  ev_actor :: string
  ev_reason :: "string option"
  ev_correlation :: string

record ambient =
  am_now :: datetime
  am_user :: "string option"

definition flow_of :: "string \<Rightarrow> string" where
  "flow_of subject_doctype = (case map_of
     [(''Billing Profile'', ''Billing Profile''), (''Tax Profile'', ''Billing Profile''),
      (''Subscription'', ''Subscription''), (''Invoice'', ''Invoice''), (''Billing Run'', ''Billing Run''),
      (''Payment Attempt'', ''Payment''), (''Refund'', ''Payment''), (''Top-up Order'', ''Payment''),
      (''Payment Method'', ''Payment Method''), (''Credit Ledger Entry'', ''Credit''),
      (''Credit Wallet'', ''Credit''), (''Webhook Event'', ''Webhook'')] subject_doctype of
     None \<Rightarrow> ''Other'' | Some flow \<Rightarrow> flow)"

text \<open>\<open>BillingEvent.before_insert\<close> on the fields it sets.\<close>

definition event_defaults :: "string \<Rightarrow> string option \<Rightarrow> string option \<Rightarrow> string \<times> string" where
  "event_defaults subject_doctype category outcome =
     (or_else category (flow_of subject_doctype), or_else outcome ''Success'')"

definition default_actor :: "ambient \<Rightarrow> string" where
  "default_actor env = or_else (am_user env) ''system''"

text \<open>\<open>str(x)\<close> of a state that may be None, as an f-string writes it.\<close>

definition py_str :: "string option \<Rightarrow> string" where
  "py_str x = (case x of None \<Rightarrow> ''None'' | Some s \<Rightarrow> s)"

definition append_event ::
  "ambient \<Rightarrow> sdoc \<Rightarrow> string option \<Rightarrow> string option \<Rightarrow> string option \<Rightarrow> string option \<Rightarrow> string option
     \<Rightarrow> rat option \<Rightarrow> string option \<Rightarrow> string option \<Rightarrow> string option \<Rightarrow> billing_event list
     \<Rightarrow> billing_event list" where
  "append_event env doc from_state to_state reason actor correlation amount event_type category outcome evs =
     (let (cat, out) = event_defaults (sd_doctype doc) category outcome in
      evs @ [\<lparr>ev_team = sd_fields doc ''team'', ev_occurred_at = am_now env,
        ev_event_type = or_else event_type (sd_doctype doc @ '' '' @ py_str to_state),
        ev_category = cat, ev_outcome = out,
        ev_subject_doctype = sd_doctype doc, ev_subject = sd_name doc,
        ev_from_state = from_state, ev_to_state = to_state, ev_amount = amount,
        ev_currency = sd_fields doc ''currency'', ev_actor = or_else actor (default_actor env),
        ev_reason = reason, ev_correlation = or_else correlation (sd_name doc)\<rparr>])"

text \<open>\<open>transition(doc, to_state, ...)\<close>: the moved document and the extended stream, or the throw.\<close>

definition transition ::
  "ambient \<Rightarrow> sdoc \<Rightarrow> string \<Rightarrow> string option \<Rightarrow> string option \<Rightarrow> string option \<Rightarrow> rat option
     \<Rightarrow> string option \<Rightarrow> billing_event list \<Rightarrow> error + sdoc \<times> billing_event list" where
  "transition env doc to_state reason actor correlation amount event_type evs =
     bindE (machine_for (sd_doctype doc)) (\<lambda>machine.
       let from_state = sd_fields doc (sm_field machine) in
       if from_state = Some to_state then Inr (doc, evs)
       else if \<not> allows machine from_state to_state then Inl InvalidTransition
       else let doc' = doc\<lparr>sd_fields := (sd_fields doc)(sm_field machine \<mapsto> to_state)\<rparr>;
                outcome = (if to_state = ''Failed'' then Some ''Failed'' else None)
            in Inr (doc', append_event env doc' from_state (Some to_state) reason actor correlation amount
                 event_type None outcome evs))"

definition record_event ::
  "ambient \<Rightarrow> sdoc \<Rightarrow> string \<Rightarrow> string option \<Rightarrow> string option \<Rightarrow> string option \<Rightarrow> rat option
     \<Rightarrow> string option \<Rightarrow> string option \<Rightarrow> string option \<Rightarrow> billing_event list \<Rightarrow> billing_event list" where
  "record_event env doc event_type from_state to_state reason amount correlation category outcome evs =
     append_event env doc from_state to_state reason None correlation amount
       (Some event_type) category outcome evs"

definition record_team_event ::
  "ambient \<Rightarrow> string \<Rightarrow> string \<Rightarrow> string \<Rightarrow> string option \<Rightarrow> rat option \<Rightarrow> string option
     \<Rightarrow> billing_event list \<Rightarrow> billing_event list" where
  "record_team_event env team event_type category reason amount outcome evs =
     record_event env \<lparr>sd_doctype = ''Team'', sd_name = team, sd_fields = [''team'' \<mapsto> team]\<rparr>
       event_type None None reason amount None (Some category) outcome evs"

section \<open>Moving a document many times\<close>

text \<open>
  A sequence of requested moves on one document, each made at its own time and by its own
  caller; a refused move raises, its caller gives up, and the document is as it was.
\<close>

fun request_all :: "sdoc \<Rightarrow> (ambient \<times> string) list \<Rightarrow> billing_event list \<Rightarrow> sdoc \<times> billing_event list" where
  "request_all doc [] evs = (doc, evs)"
| "request_all doc ((env, to_state) # rs) evs =
     (case transition env doc to_state None None None None None evs of
        Inl _ \<Rightarrow> request_all doc rs evs
      | Inr (doc', evs') \<Rightarrow> request_all doc' rs evs')"

definition state_of :: "state_machine \<Rightarrow> sdoc \<Rightarrow> string option" where
  "state_of m doc = sd_fields doc (sm_field m)"

text \<open>A run of events that starts at a state, follows the edges and ends at a state.\<close>

fun event_path :: "state_machine \<Rightarrow> string option \<Rightarrow> billing_event list \<Rightarrow> string option \<Rightarrow> bool" where
  "event_path m s [] t \<longleftrightarrow> s = t"
| "event_path m s (e # es) t \<longleftrightarrow>
     ev_from_state e = s \<and> (\<exists>u. ev_to_state e = Some u \<and> allows m s u) \<and> event_path m (ev_to_state e) es t"

lemma event_path_append:
  "event_path m s (es @ fs) t \<longleftrightarrow> (\<exists>u. event_path m s es u \<and> event_path m u fs t)"
  by (induction es arbitrary: s) auto

subsection \<open>One move\<close>

lemma append_event_fields:
  "\<exists>e. append_event env doc f t reason actor correlation amount ty cat out evs = evs @ [e]
     \<and> ev_from_state e = f \<and> ev_to_state e = t \<and> ev_subject_doctype e = sd_doctype doc
     \<and> ev_subject e = sd_name doc \<and> ev_amount e = amount \<and> ev_reason e = reason
     \<and> ev_correlation e = or_else correlation (sd_name doc) \<and> ev_outcome e = or_else out ''Success''"
  by (simp add: append_event_def event_defaults_def)

lemma machine_for_doctype: "machine_for d = Inr m \<Longrightarrow> sm_doctype m = d"
  by (auto simp: machine_for_def MACHINES_def split: option.splits if_splits)

lemma machine_for_own:
  "machine_for ''Invoice'' = Inr INVOICE" "machine_for ''Payment Attempt'' = Inr PAYMENT_ATTEMPT"
  "machine_for ''Subscription'' = Inr SUBSCRIPTION_STANDING" "machine_for ''Refund'' = Inr REFUND"
  "machine_for ''Payment Method'' = Inr PAYMENT_METHOD" "machine_for ''Webhook Event'' = Inr WEBHOOK_EVENT"
  "machine_for ''Top-up Order'' = Inr TOP_UP_ORDER" "machine_for ''Billing Run'' = Inr BILLING_RUN"
  "machine_for ''Rerating Run'' = Inr RERATING_RUN" "machine_for ''Commitment'' = Inr COMMITMENT"
  by (simp_all add: machine_for_def MACHINES_def machine_defs)

lemma transition_cases:
  assumes "transition env doc to_state reason actor correlation amount ty evs = Inr (doc', evs')"
  obtains m where "machine_for (sd_doctype doc) = Inr m"
    and "state_of m doc = Some to_state" and "doc' = doc" and "evs' = evs"
  | m e where "machine_for (sd_doctype doc) = Inr m"
    and "state_of m doc \<noteq> Some to_state" and "allows m (state_of m doc) to_state"
    and "doc' = doc\<lparr>sd_fields := (sd_fields doc)(sm_field m \<mapsto> to_state)\<rparr>" and "evs' = evs @ [e]"
    and "ev_from_state e = state_of m doc" and "ev_to_state e = Some to_state"
    and "ev_subject e = sd_name doc" and "ev_subject_doctype e = sd_doctype doc" and "ev_amount e = amount"
    and "ev_outcome e = (if to_state = ''Failed'' then ''Failed'' else ''Success'')"
  using assms
  by (fastforce simp: transition_def bindE_Inr state_of_def Let_def append_event_def event_defaults_def
      split: if_splits)

lemma transition_keeps:
  assumes "transition env doc to_state reason actor correlation amount ty evs = Inr (doc', evs')"
  shows "sd_doctype doc' = sd_doctype doc" and "sd_name doc' = sd_name doc"
  using assms by (auto elim!: transition_cases)

subsection \<open>Many moves\<close>

lemma request_all_keeps:
  "request_all doc rs evs = (doc', evs') \<Longrightarrow> sd_doctype doc' = sd_doctype doc \<and> sd_name doc' = sd_name doc"
proof (induction doc rs evs rule: request_all.induct)
  case (2 doc env to_state rs evs)
  then show ?case
    by (cases "transition env doc to_state None None None None None evs")
      (auto dest: transition_keeps)
qed simp

lemma request_all_path:
  assumes "machine_for (sd_doctype doc) = Inr m"
    and "request_all doc rs evs = (doc', evs')"
  shows "\<exists>new. evs' = evs @ new \<and> event_path m (state_of m doc) new (state_of m doc')
    \<and> (\<forall>e \<in> set new. ev_subject e = sd_name doc)"
  using assms
proof (induction doc rs evs rule: request_all.induct)
  case (1 doc evs)
  then show ?case by simp
next
  case (2 doc env to_state rs evs)
  show ?case
  proof (cases "transition env doc to_state None None None None None evs")
    case (Inl e)
    with 2 show ?thesis by simp
  next
    case (Inr r)
    obtain doc1 evs1 where r: "r = (doc1, evs1)" by (cases r)
    from Inr have tr: "transition env doc to_state None None None None None evs = Inr (doc1, evs1)"
      by (simp add: r)
    from "2.prems" Inr have rest: "request_all doc1 rs evs1 = (doc', evs')" by (simp add: r)
    note keep = transition_keeps [OF tr]
    from "2.IH"(2) [OF Inr r [symmetric]] keep "2.prems" rest
    obtain new where new: "evs' = evs1 @ new" "event_path m (state_of m doc1) new (state_of m doc')"
      "\<forall>e \<in> set new. ev_subject e = sd_name doc" by auto
    from tr show ?thesis
    proof (cases rule: transition_cases)
      case (1 m')
      with new show ?thesis by auto
    next
      case (2 m' e)
      with "2.prems"(1) have "m' = m" by simp
      with 2 have "state_of m doc1 = Some to_state" by (simp add: state_of_def)
      with 2 new \<open>m' = m\<close> have "evs' = evs @ (e # new) \<and>
        event_path m (state_of m doc) (e # new) (state_of m doc')" by simp
      with new 2 show ?thesis by (metis set_ConsD)
    qed
  qed
qed

section \<open>Sets of states a document never leaves\<close>

text \<open>
  The contract a caller of the authority relies on when it treats a set of states as final:
  every edge out of the set leads back into it. The lemmas lift that to any sequence of
  requested moves. \<open>absorbing_state\<close> is the case of one state with no edge at all.
\<close>

locale closed_states =
  fixes m :: state_machine and S :: "string set"
  assumes owned: "machine_for (sm_doctype m) = Inr m"
    and closed: "s \<in> S \<Longrightarrow> allows m (Some s) t \<Longrightarrow> t \<in> S"
begin

lemma path_stays: "event_path m (Some s) es t \<Longrightarrow> s \<in> S \<Longrightarrow> \<exists>u \<in> S. t = Some u"
proof (induction es arbitrary: s)
  case (Cons e es)
  then obtain u where "ev_to_state e = Some u" "allows m (Some s) u" "event_path m (Some u) es t"
    by auto
  with Cons closed show ?case by blast
qed auto

lemma run_stays:
  assumes "sd_doctype doc = sm_doctype m" "state_of m doc = Some s" "s \<in> S"
    and "request_all doc rs evs = (doc', evs')"
  shows "\<exists>t \<in> S. state_of m doc' = Some t"
  using request_all_path [OF _ assms(4), of m] owned assms path_stays by fastforce

end

locale absorbing_state =
  fixes m :: state_machine and s :: string
  assumes owned_machine: "machine_for (sm_doctype m) = Inr m"
    and no_edge: "\<not> allows m (Some s) t"

sublocale absorbing_state \<subseteq> closed_states m "{s}"
  by unfold_locales (auto simp: owned_machine no_edge)

context absorbing_state
begin

lemma run_frozen:
  assumes "sd_doctype doc = sm_doctype m" "state_of m doc = Some s"
    and "request_all doc rs evs = (doc', evs')"
  shows "state_of m doc' = Some s"
  using run_stays [OF assms(1,2) _ assms(3)] by simp

end

lemmas machine_facts = machine_defs machine_for_own allows_simps

interpretation invoice_settled: closed_states INVOICE "{''Paid'', ''Cancelled'', ''Waived''}"
  by unfold_locales (auto simp: machine_facts)

interpretation invoice_cancelled: absorbing_state INVOICE "''Cancelled''"
  by unfold_locales (simp_all add: machine_facts)

interpretation invoice_waived: absorbing_state INVOICE "''Waived''"
  by unfold_locales (simp_all add: machine_facts)

interpretation attempt_outcome: closed_states PAYMENT_ATTEMPT "{''Captured'', ''Failed'', ''Refunded''}"
  by unfold_locales (auto simp: machine_facts)

interpretation attempt_failed: absorbing_state PAYMENT_ATTEMPT "''Failed''"
  by unfold_locales (simp_all add: machine_facts)

interpretation attempt_refunded: absorbing_state PAYMENT_ATTEMPT "''Refunded''"
  by unfold_locales (simp_all add: machine_facts)

interpretation refund_completed: absorbing_state REFUND "''Completed''"
  by unfold_locales (simp_all add: machine_facts)

interpretation method_gone: closed_states PAYMENT_METHOD "{''Failed'', ''Cancelled'', ''Expired''}"
  by unfold_locales (auto simp: machine_facts)

interpretation event_handled: closed_states WEBHOOK_EVENT "{''Processed'', ''Ignored''}"
  by unfold_locales (auto simp: machine_facts)

interpretation order_credited: absorbing_state TOP_UP_ORDER "''Credited''"
  by unfold_locales (simp_all add: machine_facts)

interpretation rerating_over: closed_states RERATING_RUN "{''Complete'', ''Failed''}"
  by unfold_locales (auto simp: machine_facts)

interpretation commitment_over: closed_states COMMITMENT "{''Completed'', ''Breached''}"
  by unfold_locales (auto simp: machine_facts)

section \<open>Properties\<close>

definition example_env :: ambient where
  "example_env = \<lparr>am_now = 0, am_user = Some ''scheduler''\<rparr>"

definition example_invoice :: sdoc where
  "example_invoice = \<lparr>sd_doctype = ''Invoice'', sd_name = ''INV-1'',
     sd_fields = [''status'' \<mapsto> ''Outstanding'', ''team'' \<mapsto> ''t1'', ''currency'' \<mapsto> ''INR'']\<rparr>"

definition example_subscription :: sdoc where
  "example_subscription = \<lparr>sd_doctype = ''Subscription'', sd_name = ''SUB-1'',
     sd_fields = [''account_standing'' \<mapsto> ''Current'', ''team'' \<mapsto> ''t1'']\<rparr>"

lemmas example_simps = example_env_def example_invoice_def example_subscription_def state_of_def
  transition_def machine_facts append_event_def event_defaults_def flow_of_def default_actor_def
  or_else_def py_str_def Let_def

text \<open>
  Every status change goes through an edge of the machine that owns the document
  and leaves exactly one Billing Event, which names the move; a request for the state the
  document is already in changes nothing and adds no event.
\<close>

theorem transition_authority:
  assumes "machine_for (sd_doctype doc) = Inr m"
    and "transition env doc to_state reason actor correlation amount ty evs = Inr (doc', evs')"
  shows "state_of m doc' = Some to_state
    \<and> (if state_of m doc = Some to_state then doc' = doc \<and> evs' = evs
       else allows m (state_of m doc) to_state
         \<and> (\<exists>e. evs' = evs @ [e] \<and> ev_from_state e = state_of m doc \<and> ev_to_state e = Some to_state
              \<and> ev_subject e = sd_name doc))"
  using assms(2)
proof (cases rule: transition_cases)
  case (1 m')
  with assms(1) show ?thesis by simp
next
  case (2 m' e)
  with assms(1) have "m' = m" by simp
  with 2 show ?thesis by (simp add: state_of_def)
qed

theorem transition_authority_witness:
  "\<exists>doc' evs'. transition example_env example_invoice ''Paid'' None None None None None [] = Inr (doc', evs')
     \<and> state_of INVOICE doc' = Some ''Paid'' \<and> length evs' = 1"
proof -
  have own: "machine_for (sd_doctype example_invoice) = Inr INVOICE"
    by (simp add: example_invoice_def machine_for_own)
  obtain doc' evs' where run:
    "transition example_env example_invoice ''Paid'' None None None None None [] = Inr (doc', evs')"
    by (simp add: example_simps)
  moreover have "state_of INVOICE example_invoice \<noteq> Some ''Paid''"
    by (simp add: example_invoice_def state_of_def INVOICE_def)
  ultimately show ?thesis using transition_authority [OF own run] by auto
qed

text \<open>
  Once an invoice is Paid, Cancelled or Waived, no sequence of requested moves,
  legal or not, makes it Outstanding or Overdue again.
\<close>

theorem settled_invoice_stays_settled:
  assumes "sd_doctype doc = ''Invoice''"
    and "state_of INVOICE doc = Some s" and "s \<in> {''Paid'', ''Cancelled'', ''Waived''}"
    and "request_all doc rs evs = (doc', evs')"
  shows "state_of INVOICE doc' \<noteq> Some ''Outstanding'' \<and> state_of INVOICE doc' \<noteq> Some ''Overdue''"
proof -
  have "sd_doctype doc = sm_doctype INVOICE" using assms(1) by (simp add: INVOICE_def)
  from invoice_settled.run_stays [OF this assms(2,3,4)] show ?thesis by auto
qed

theorem settled_invoice_stays_settled_witness:
  "state_of INVOICE (fst (request_all (example_invoice\<lparr>sd_fields := [''status'' \<mapsto> ''Paid'']\<rparr>)
     [(example_env, ''Outstanding''), (example_env, ''Cancelled''), (example_env, ''Overdue'')] []))
     \<noteq> Some ''Overdue''"
proof -
  let ?doc = "example_invoice\<lparr>sd_fields := [''status'' \<mapsto> ''Paid'']\<rparr>"
  let ?rs = "[(example_env, ''Outstanding''), (example_env, ''Cancelled''), (example_env, ''Overdue'')]"
  have "sd_doctype ?doc = ''Invoice''" by (simp add: example_invoice_def)
  moreover have "state_of INVOICE ?doc = Some ''Paid''" by (simp add: state_of_def INVOICE_def)
  ultimately show ?thesis
    using settled_invoice_stays_settled [of ?doc "''Paid''" ?rs "[]"] by (simp add: prod_eq_iff)
qed

text \<open>
  Property C27: the Billing Event stream is a complete derived record. Whatever moves are
  requested of a document, the events added name that document and form a path of legal edges
  from the status it had to the status it has.
\<close>

theorem event_stream_replays:
  assumes "machine_for (sd_doctype doc) = Inr m"
  shows "\<exists>new. snd (request_all doc rs evs) = evs @ new
    \<and> event_path m (state_of m doc) new (state_of m (fst (request_all doc rs evs)))
    \<and> list_all (\<lambda>e. ev_subject e = sd_name doc) new"
proof -
  obtain doc' evs' where run: "request_all doc rs evs = (doc', evs')" by fastforce
  from request_all_path [OF assms run] show ?thesis unfolding run by (simp add: list_all_iff)
qed

theorem event_stream_replays_witness:
  "\<exists>new. snd (request_all example_invoice [(example_env, ''Overdue''), (example_env, ''Paid'')] []) = new
    \<and> event_path INVOICE (Some ''Outstanding'') new (Some ''Paid'') \<and> length new = 2"
proof -
  let ?rs = "[(example_env, ''Overdue''), (example_env, ''Paid'')]"
  have own: "machine_for (sd_doctype example_invoice) = Inr INVOICE"
    by (simp add: example_invoice_def machine_for_own)
  have from_state: "state_of INVOICE example_invoice = Some ''Outstanding''"
    by (simp add: example_invoice_def state_of_def INVOICE_def)
  have to_state: "state_of INVOICE (fst (request_all example_invoice ?rs [])) = Some ''Paid''"
    and len: "length (snd (request_all example_invoice ?rs [])) = 2"
    by (simp_all add: example_simps)
  from event_stream_replays [OF own, of ?rs "[]"] show ?thesis
    unfolding from_state to_state using len by auto
qed

text \<open>
  A Current subscription is never suspended without the grace step. If any sequence
  of requested moves takes it to Suspended, the stream holds a move to Past Due before the
  last move to Suspended.
\<close>

theorem suspension_needs_grace:
  assumes "sd_doctype doc = ''Subscription''"
    and "state_of SUBSCRIPTION_STANDING doc = Some ''Current''"
    and "request_all doc rs evs = (doc', evs')"
    and "state_of SUBSCRIPTION_STANDING doc' = Some ''Suspended''"
  shows "\<exists>new past_due suspended. evs' = evs @ new @ [past_due, suspended]
    \<and> ev_to_state past_due = Some ''Past Due'' \<and> ev_from_state suspended = Some ''Past Due''
    \<and> ev_to_state suspended = Some ''Suspended''"
proof -
  let ?m = SUBSCRIPTION_STANDING
  have own: "machine_for (sd_doctype doc) = Inr ?m" by (simp add: assms(1) machine_for_own)
  from request_all_path [OF own assms(3)] obtain new
    where new: "evs' = evs @ new" "event_path ?m (Some ''Current'') new (Some ''Suspended'')"
    using assms(2,4) by auto
  then obtain es e where snoc: "new = es @ [e]" by (cases new rule: rev_cases) auto
  with new obtain u where u: "event_path ?m (Some ''Current'') es u" "ev_from_state e = u"
    "ev_to_state e = Some ''Suspended''" "allows ?m u ''Suspended''"
    by (auto simp: event_path_append)
  then have past: "u = Some ''Past Due''"
    by (auto simp: machine_facts split: option.splits if_splits)
  with u obtain fs f where snoc': "es = fs @ [f]" by (cases es rule: rev_cases) auto
  with u past have "ev_to_state f = Some ''Past Due''" by (auto simp: event_path_append)
  with new snoc snoc' u past show ?thesis by auto
qed

theorem suspension_needs_grace_witness:
  "\<exists>new past_due suspended.
     snd (request_all example_subscription
       [(example_env, ''Suspended''), (example_env, ''Past Due''), (example_env, ''Suspended'')] [])
       = new @ [past_due, suspended] \<and> ev_to_state past_due = Some ''Past Due''"
proof -
  let ?rs = "[(example_env, ''Suspended''), (example_env, ''Past Due''), (example_env, ''Suspended'')]"
  obtain doc' evs' where run: "request_all example_subscription ?rs [] = (doc', evs')" by fastforce
  have "state_of SUBSCRIPTION_STANDING (fst (request_all example_subscription ?rs [])) = Some ''Suspended''"
    by (simp add: example_simps)
  then have sus: "state_of SUBSCRIPTION_STANDING doc' = Some ''Suspended''" by (metis run fst_conv)
  have "sd_doctype example_subscription = ''Subscription''"
    and "state_of SUBSCRIPTION_STANDING example_subscription = Some ''Current''"
    by (simp_all add: example_subscription_def state_of_def SUBSCRIPTION_STANDING_def)
  from suspension_needs_grace [OF this run sus] show ?thesis unfolding run by auto
qed

end
