(* ===== verification/Invoices.thy ===== *)
theory Invoices
  imports Profiles States
begin

text \<open>
  The invoice document (\<open>doctype/invoice/invoice.py\<close>): its fields, when it is issued, owed or
  still waiting, and the period key that keeps a team from being billed twice for a period. The
  tax block of an invoice is the record \<open>revenue/tax.py\<close> fills.
\<close>

record tax_block =
  tb_output_tax_type :: string
  tb_output_tax_rate :: rat
  tb_output_tax_amount :: money
  tb_zero_rating_reason :: "string option"
  tb_tds_applicable :: bool
  tb_tds_rate :: rat
  tb_tds_amount :: money
  tb_customer_gstin :: "string option"

record invoice =
  inv_name :: string
  inv_team :: string
  inv_status :: string
  inv_type :: string
  inv_currency :: string
  inv_period_start :: date
  inv_period_end :: date
  inv_period_key :: string
  inv_subtotal :: money
  inv_commitment_discount :: money
  inv_commitment_clawback :: money
  inv_tax :: tax_block
  inv_total :: money
  inv_credit_applied :: money
  inv_advance_applied :: money
  inv_advance_tax_applied :: money
  inv_expected_collection :: money
  inv_amount_paid :: money
  inv_tds_certificate_received :: bool
  inv_due_date :: "date option"
  inv_payment_date :: "date option"
  inv_dunning_starts_on :: "date option"
  inv_suspends_on :: "date option"
  inv_predebit_notified_at :: "datetime option"
  inv_predebit_charge_after :: "datetime option"
  inv_paid_at :: "datetime option"
  inv_hold_reason :: "string option"
  inv_sync_status :: "string option"
  inv_promotional_record :: "string option"
  inv_accounting_invoice :: "string option"
  inv_credit_note :: "string option"

section \<open>Issued, owed, waiting\<close>

definition UNSETTLED :: "string list" where
  "UNSETTLED = [''Outstanding'', ''Overdue'']"

definition is_issued :: "invoice \<Rightarrow> bool" where
  "is_issued iv \<longleftrightarrow> inv_due_date iv \<noteq> None"

definition is_owed :: "invoice \<Rightarrow> bool" where
  "is_owed iv \<longleftrightarrow> inv_status iv \<in> set UNSETTLED \<and> is_issued iv"

definition is_unissued :: "invoice \<Rightarrow> bool" where
  "is_unissued iv \<longleftrightarrow> inv_status iv = ''Outstanding'' \<and> \<not> is_issued iv"

definition mandate_ceiling_amount :: "invoice \<Rightarrow> money" where
  "mandate_ceiling_amount iv = inv_total iv"

section \<open>The period key\<close>

text \<open>\<open>str(date)\<close>: \<open>YYYY-MM-DD\<close>, for the years 1 to 9999 a Python date has.\<close>

definition date_str :: "date \<Rightarrow> string" where
  "date_str n = (let y = year_of n; m = month_of n; d = day_of n in
     [digit_char (y div 1000 mod 10), digit_char (y div 100 mod 10), digit_char (y div 10 mod 10),
      digit_char (y mod 10), CHR ''-'', digit_char (m div 10), digit_char (m mod 10), CHR ''-'',
      digit_char (d div 10), digit_char (d mod 10)])"

definition period_key_for :: "string \<Rightarrow> date \<Rightarrow> date \<Rightarrow> string" where
  "period_key_for team period_start period_end =
     team @ ''|'' @ date_str period_start @ ''|'' @ date_str period_end"

definition set_period_key :: "invoice \<Rightarrow> invoice" where
  "set_period_key iv = iv\<lparr>inv_period_key :=
     (if inv_status iv = ''Cancelled'' then ''Cancelled'' @ ''|'' @ inv_name iv
      else period_key_for (inv_team iv) (inv_period_start iv) (inv_period_end iv))\<rparr>"

section \<open>Moving an invoice through its machine\<close>

text \<open>The part of an invoice \<open>states.transition\<close> reads, and the status it writes back.\<close>

definition sdoc_of_invoice :: "invoice \<Rightarrow> sdoc" where
  "sdoc_of_invoice iv = \<lparr>sd_doctype = ''Invoice'', sd_name = inv_name iv,
     sd_fields = [''status'' \<mapsto> inv_status iv, ''team'' \<mapsto> inv_team iv, ''currency'' \<mapsto> inv_currency iv]\<rparr>"

definition invoice_transition ::
  "ambient \<Rightarrow> invoice \<Rightarrow> string \<Rightarrow> string option \<Rightarrow> string option \<Rightarrow> rat option
     \<Rightarrow> billing_event list \<Rightarrow> error + invoice \<times> billing_event list" where
  "invoice_transition env iv to_state reason actor amount evs =
     bindE (transition env (sdoc_of_invoice iv) to_state reason actor None amount None evs)
       (\<lambda>(doc, evs'). Inr (iv\<lparr>inv_status := the (sd_fields doc ''status'')\<rparr>, evs'))"

definition invoice_event ::
  "ambient \<Rightarrow> invoice \<Rightarrow> string \<Rightarrow> string option \<Rightarrow> rat option \<Rightarrow> billing_event list \<Rightarrow> billing_event list" where
  "invoice_event env iv event_type reason amount evs =
     record_event env (sdoc_of_invoice iv) event_type None None reason amount None None None evs"

section \<open>Lemmas\<close>

lemma invoice_transition_cases:
  assumes "invoice_transition env iv to_state reason actor amount evs = Inr (iv', evs')"
  shows "iv' = iv\<lparr>inv_status := to_state\<rparr>
    \<and> (inv_status iv = to_state \<or> allows INVOICE (Some (inv_status iv)) to_state)
    \<and> (if inv_status iv = to_state then evs' = evs else length evs' = length evs + 1)"
proof -
  from assms obtain doc where
    tr: "transition env (sdoc_of_invoice iv) to_state reason actor None amount None evs = Inr (doc, evs')"
    and iv': "iv' = iv\<lparr>inv_status := the (sd_fields doc ''status'')\<rparr>"
    by (auto simp: invoice_transition_def bindE_Inr)
  have own: "machine_for (sd_doctype (sdoc_of_invoice iv)) = Inr INVOICE"
    by (simp add: sdoc_of_invoice_def machine_for_own)
  have field: "sm_field INVOICE = ''status''" by (simp add: INVOICE_def)
  from tr show ?thesis
  proof (cases rule: transition_cases)
    case (1 m)
    with own field iv' show ?thesis by (auto simp: state_of_def sdoc_of_invoice_def)
  next
    case (2 m e)
    with own field iv' show ?thesis by (auto simp: state_of_def sdoc_of_invoice_def)
  qed
qed

lemma invoice_transition_ok:
  "inv_status iv \<noteq> to_state \<Longrightarrow> allows INVOICE (Some (inv_status iv)) to_state \<Longrightarrow>
   \<exists>evs'. invoice_transition env iv to_state reason actor amount evs = Inr (iv\<lparr>inv_status := to_state\<rparr>, evs')"
  by (simp add: invoice_transition_def transition_def sdoc_of_invoice_def machine_for_own INVOICE_def
      Let_def)

lemma allows_invoice:
  "allows INVOICE (Some s) ''Paid'' \<longleftrightarrow> s \<in> set UNSETTLED"
  "allows INVOICE (Some s) ''Waived'' \<longleftrightarrow> s \<in> set UNSETTLED"
  "allows INVOICE (Some s) ''Overdue'' \<longleftrightarrow> s = ''Outstanding''"
  "allows INVOICE (Some s) ''Cancelled'' \<longleftrightarrow> s \<in> set (''Paid'' # UNSETTLED)"
  by (simp_all add: allows_simps INVOICE_def UNSETTLED_def)

lemma unsettled_simps [simp]:
  "''Outstanding'' \<in> set UNSETTLED" "''Overdue'' \<in> set UNSETTLED" "''Paid'' \<notin> set UNSETTLED"
  "''Cancelled'' \<notin> set UNSETTLED" "''Waived'' \<notin> set UNSETTLED"
  by (simp_all add: UNSETTLED_def)

text \<open>An invoice for the examples: 1000 plus 18 percent GST for June 2026.\<close>

definition example_tax :: tax_block where
  "example_tax = \<lparr>tb_output_tax_type = ''GST'', tb_output_tax_rate = 18, tb_output_tax_amount = 180,
     tb_zero_rating_reason = None, tb_tds_applicable = False, tb_tds_rate = 0, tb_tds_amount = 0,
     tb_customer_gstin = None\<rparr>"

definition june_invoice :: invoice where
  "june_invoice = \<lparr>inv_name = ''INV-1'', inv_team = ''t1'', inv_status = ''Outstanding'',
     inv_type = ''Billable'', inv_currency = ''INR'', inv_period_start = 739768, inv_period_end = 739797,
     inv_period_key = [], inv_subtotal = 1000, inv_commitment_discount = 0, inv_commitment_clawback = 0,
     inv_tax = example_tax, inv_total = 1180, inv_credit_applied = 0, inv_advance_applied = 0,
     inv_advance_tax_applied = 0, inv_expected_collection = 1180, inv_amount_paid = 0,
     inv_tds_certificate_received = False, inv_due_date = None, inv_payment_date = None,
     inv_dunning_starts_on = None, inv_suspends_on = None, inv_predebit_notified_at = None,
     inv_predebit_charge_after = None, inv_paid_at = None, inv_hold_reason = None, inv_sync_status = None,
     inv_promotional_record = None, inv_accounting_invoice = None, inv_credit_note = None\<rparr>"

end
