(* ===== verification/Tax.thy ===== *)
theory Tax
  imports Invoices
begin

text \<open>
  The tax block of an invoice (\<open>central/billing/revenue/tax.py\<close>) and the GSTIN standing it reads
  (\<open>revenue/gst_status.py\<close>). The Tax Profile table is a map from the team.
\<close>

record tax_profile =
  tp_output_tax_type :: "string option"
  tp_output_tax_rate :: rat
  tp_zero_rated :: bool
  tp_zero_rating_reason :: "string option"
  tp_tds_applicable :: bool
  tp_tds_rate :: rat

record tax_env =
  te_settings :: billing_settings
  te_profiles :: profiles
  te_tax_profiles :: "string \<Rightarrow> tax_profile option"

definition LAPSED :: "string list" where
  "LAPSED = [''Inactive'', ''Suspended'', ''Cancelled'', ''Invalid'']"

text \<open>The GSTIN an invoice may carry, and whether the portal last called it lapsed.\<close>

definition standing :: "profiles \<Rightarrow> string \<Rightarrow> string option \<times> bool" where
  "standing ps team = (case ps team of
     None \<Rightarrow> (None, False)
   | Some p \<Rightarrow>
       (let lapsed = (truthy (bp_gstin p) \<and> (case bp_gst_status p of None \<Rightarrow> False | Some s \<Rightarrow> s \<in> set LAPSED))
        in (if lapsed then None else if truthy (bp_gstin p) then bp_gstin p else None, lapsed)))"

definition is_internal_team :: "profiles \<Rightarrow> string \<Rightarrow> bool" where
  "is_internal_team ps team = (case ps team of None \<Rightarrow> False | Some p \<Rightarrow> bp_is_internal p)"

definition is_indian_team :: "profiles \<Rightarrow> string \<Rightarrow> bool" where
  "is_indian_team ps team = (case ps team of
     None \<Rightarrow> False
   | Some p \<Rightarrow> strip (or_else (bp_country p) '''') = ''India'' \<or> bp_currency p = Some ''INR'')"

definition get_country_output_tax :: "tax_env \<Rightarrow> string \<Rightarrow> string \<times> rat" where
  "get_country_output_tax te team =
     (if is_indian_team (te_profiles te) team then (''GST'', bs_default_gst_rate (te_settings te))
      else (''None'', 0))"

definition get_tax_profile :: "tax_env \<Rightarrow> string \<Rightarrow> tax_profile" where
  "get_tax_profile te team = (case te_tax_profiles te team of
     Some p \<Rightarrow> p
   | None \<Rightarrow> (let (ty, rate) = get_country_output_tax te team in
       \<lparr>tp_output_tax_type = Some ty, tp_output_tax_rate = rate, tp_zero_rated = False,
        tp_zero_rating_reason = None, tp_tds_applicable = False, tp_tds_rate = 0\<rparr>))"

definition ZERO_BLOCK :: tax_block where
  "ZERO_BLOCK = \<lparr>tb_output_tax_type = ''None'', tb_output_tax_rate = 0, tb_output_tax_amount = 0,
     tb_zero_rating_reason = None, tb_tds_applicable = False, tb_tds_rate = 0, tb_tds_amount = 0,
     tb_customer_gstin = None\<rparr>"

definition resolve_tax :: "(rat \<Rightarrow> rat) \<Rightarrow> tax_env \<Rightarrow> string \<Rightarrow> money \<Rightarrow> error + tax_block" where
  "resolve_tax r2 te team subtotal =
     (let (gstin, lapsed) = standing (te_profiles te) team;
          block = ZERO_BLOCK\<lparr>tb_customer_gstin := gstin\<rparr>
      in if is_internal_team (te_profiles te) team then Inr block
      else let p = get_tax_profile te team;
               block = block\<lparr>tb_output_tax_type := or_else (tp_output_tax_type p) ''None'',
                             tb_output_tax_rate := tp_output_tax_rate p\<rparr>
      in bindE
           (if tp_zero_rated p \<and> \<not> (lapsed \<and> tp_zero_rating_reason p = Some ''SEZ'')
            then (if \<not> truthy (tp_zero_rating_reason p) then Inl (ValidationError ''no zero-rating reason'')
                  else Inr (block\<lparr>tb_zero_rating_reason := tp_zero_rating_reason p, tb_output_tax_amount := 0\<rparr>))
            else Inr (block\<lparr>tb_output_tax_amount := r2 (subtotal * tb_output_tax_rate block / 100)\<rparr>))
           (\<lambda>block. if tp_tds_applicable p
              then Inr (block\<lparr>tb_tds_applicable := True, tb_tds_rate := tp_tds_rate p,
                              tb_tds_amount := r2 (subtotal * tp_tds_rate p / 100)\<rparr>)
              else Inr block))"

definition is_paid :: "invoice \<Rightarrow> bool" where
  "is_paid iv \<longleftrightarrow>
     (let withheld = tb_tds_amount (inv_tax iv) > 0;
          covered = inv_amount_paid iv \<ge> inv_expected_collection iv
      in covered \<and> (\<not> withheld \<or> inv_tds_certificate_received iv))"

section \<open>Lemmas\<close>

text \<open>Saving a Tax Profile checks these (\<open>TaxProfile.validate\<close>).\<close>

definition validate_tax_profile :: "profiles \<Rightarrow> string \<Rightarrow> tax_profile \<Rightarrow> error + unit" where
  "validate_tax_profile ps team p =
     (if tp_zero_rated p \<and> \<not> truthy (tp_zero_rating_reason p) then Inl (ValidationError ''needs a compliance reason'')
      else if tp_output_tax_type p = Some ''GST'' \<or> tp_zero_rated p \<or> \<not> is_indian_team ps team then Inr ()
      else Inl (ValidationError ''An Indian team must pay GST''))"

definition valid_tax_profiles :: "tax_env \<Rightarrow> bool" where
  "valid_tax_profiles te \<longleftrightarrow> (\<forall>team p. te_tax_profiles te team = Some p \<longrightarrow>
     validate_tax_profile (te_profiles te) team p = Inr () \<and> 0 \<le> tp_output_tax_rate p \<and> 0 \<le> tp_tds_rate p)
     \<and> 0 \<le> bs_default_gst_rate (te_settings te)"

lemma get_tax_profile_valid:
  assumes "valid_tax_profiles te"
  shows "validate_tax_profile (te_profiles te) team (get_tax_profile te team) = Inr ()
    \<and> 0 \<le> tp_output_tax_rate (get_tax_profile te team) \<and> 0 \<le> tp_tds_rate (get_tax_profile te team)"
proof (cases "te_tax_profiles te team")
  case None
  with assms show ?thesis
    by (auto simp: valid_tax_profiles_def get_tax_profile_def get_country_output_tax_def validate_tax_profile_def)
next
  case (Some p)
  with assms show ?thesis by (auto simp: valid_tax_profiles_def get_tax_profile_def)
qed

lemma resolve_tax_total:
  assumes "valid_tax_profiles te"
  shows "\<exists>b. resolve_tax r2 te team subtotal = Inr b"
proof -
  have "tp_zero_rated (get_tax_profile te team) \<Longrightarrow> truthy (tp_zero_rating_reason (get_tax_profile te team))"
    using get_tax_profile_valid [OF assms, of team] by (auto simp: validate_tax_profile_def split: if_splits)
  then show ?thesis by (auto simp: resolve_tax_def Let_def split_beta)
qed

lemma resolve_tax_amounts:
  assumes "valid_tax_profiles te" "cents_rounding r2" "0 \<le> subtotal" "resolve_tax r2 te team subtotal = Inr b"
  shows "0 \<le> tb_output_tax_amount b \<and> 0 \<le> tb_tds_amount b \<and> is_cents (tb_output_tax_amount b) \<and> is_cents (tb_tds_amount b)"
proof -
  have "0 \<le> r2 (subtotal * tp_output_tax_rate (get_tax_profile te team) / 100)"
    "0 \<le> r2 (subtotal * tp_tds_rate (get_tax_profile te team) / 100)"
    using get_tax_profile_valid [OF assms(1), of team] assms(2,3) by (simp_all add: cents_rounding_nonneg)
  with assms(2,4) show ?thesis
    by (auto simp: resolve_tax_def ZERO_BLOCK_def Let_def bindE_Inr split_beta split: if_splits)
qed

section \<open>Properties\<close>

definition example_profile :: billing_profile where
  "example_profile = \<lparr>bp_team = ''t1'', bp_currency = Some ''INR'', bp_country = Some ''India'',
     bp_legal_name = Some ''Acme'', bp_address_line1 = Some ''1 Road'', bp_city = Some ''Pune'',
     bp_is_internal = False, bp_gstin = Some ''27AAPFU0939F1ZV'', bp_gst_status = Some ''Active'',
     bp_collection_mode = Some ''Auto Charge'', bp_collection_action_reason = None,
     bp_payment_day = 5, bp_payment_day_changes = 0, bp_payment_day_changes_cycle = None\<rparr>"

definition example_tax_env :: tax_env where
  "example_tax_env = \<lparr>te_settings = shipped_settings, te_profiles = [''t1'' \<mapsto> example_profile],
     te_tax_profiles = Map.empty\<rparr>"

lemmas example_tax_simps = example_tax_env_def example_profile_def shipped_settings_def
  valid_tax_profiles_def is_indian_team_def is_internal_team_def standing_def get_tax_profile_def
  get_country_output_tax_def strip_def is_space_def resolve_tax_def ZERO_BLOCK_def LAPSED_def

text \<open>
  An Indian team whose tax type is GST is never billed untaxed without a reason. Its
  tax block is GST at the profile's rate on the subtotal, or a zero tax that carries a
  zero-rating reason; and a lapsed GSTIN does not keep the SEZ zero rate.
\<close>

theorem indian_team_taxed_or_reasoned:
  assumes "valid_tax_profiles te" and "is_indian_team (te_profiles te) team"
    and "\<not> is_internal_team (te_profiles te) team"
    and "tp_output_tax_type (get_tax_profile te team) = Some ''GST''"
  shows "\<exists>b. resolve_tax r2 te team subtotal = Inr b \<and> tb_output_tax_type b = ''GST''
    \<and> (if truthy (tb_zero_rating_reason b)
       then tb_output_tax_amount b = 0
         \<and> \<not> (snd (standing (te_profiles te) team) \<and> tb_zero_rating_reason b = Some ''SEZ'')
       else tb_output_tax_amount b = r2 (subtotal * tp_output_tax_rate (get_tax_profile te team) / 100))"
proof -
  let ?p = "get_tax_profile te team"
  have "tp_zero_rated ?p \<Longrightarrow> truthy (tp_zero_rating_reason ?p)"
    using get_tax_profile_valid [OF assms(1), of team]
    by (auto simp: validate_tax_profile_def split: if_splits)
  with assms(3,4) show ?thesis by (auto simp: resolve_tax_def ZERO_BLOCK_def Let_def split_beta)
qed

theorem indian_team_taxed_or_reasoned_witness:
  "\<exists>b. resolve_tax half_up example_tax_env ''t1'' 1000 = Inr b \<and> tb_output_tax_type b = ''GST''
     \<and> tb_output_tax_amount b = 180"
proof -
  have valid: "valid_tax_profiles example_tax_env" by (simp add: example_tax_simps)
  have indian: "is_indian_team (te_profiles example_tax_env) ''t1''" by (simp add: example_tax_simps)
  have charged: "\<not> is_internal_team (te_profiles example_tax_env) ''t1''" by (simp add: example_tax_simps)
  have gst: "get_tax_profile example_tax_env ''t1'' = \<lparr>tp_output_tax_type = Some ''GST'', tp_output_tax_rate = 18,
      tp_zero_rated = False, tp_zero_rating_reason = None, tp_tds_applicable = False, tp_tds_rate = 0\<rparr>"
    by (simp add: example_tax_simps)
  from indian_team_taxed_or_reasoned [OF valid indian charged, of half_up 1000]
  obtain b where b: "resolve_tax half_up example_tax_env ''t1'' 1000 = Inr b" "tb_output_tax_type b = ''GST''"
    by (auto simp: gst)
  moreover have "tb_output_tax_amount b = half_up (1000 * 18 / 100)"
    using b(1) charged by (auto simp: resolve_tax_def gst ZERO_BLOCK_def Let_def split_beta)
  ultimately show ?thesis by auto
qed

text \<open>
  The type check of a Tax Profile stops at the zero-rated flag, so a saved profile may be SEZ
  zero-rated with no tax type and no rate. When its GSTIN lapses, \<open>resolve_tax\<close> leaves the
  zero-rated branch and taxes at that rate: an Indian team is billed no tax and no reason is kept.
\<close>

definition sez_without_rate :: tax_profile where
  "sez_without_rate = \<lparr>tp_output_tax_type = Some ''None'', tp_output_tax_rate = 0, tp_zero_rated = True,
     tp_zero_rating_reason = Some ''SEZ'', tp_tds_applicable = False, tp_tds_rate = 0\<rparr>"

lemma lapsed_sez_billed_untaxed:
  "let te = \<lparr>te_settings = shipped_settings,
       te_profiles = [''t1'' \<mapsto> example_profile\<lparr>bp_gst_status := Some ''Cancelled''\<rparr>],
       te_tax_profiles = [''t1'' \<mapsto> sez_without_rate]\<rparr>
   in validate_tax_profile (te_profiles te) ''t1'' sez_without_rate = Inr ()
     \<and> is_indian_team (te_profiles te) ''t1''
     \<and> (\<exists>b. resolve_tax half_up te ''t1'' 1000 = Inr b \<and> tb_output_tax_amount b = 0
          \<and> tb_zero_rating_reason b = None)"
  by (simp add: Let_def example_tax_simps sez_without_rate_def validate_tax_profile_def)

end
