(* ===== verification/Credits.thy ===== *)
theory Credits
  imports Tax
begin

text \<open>
  The credit ledger (\<open>central/billing/revenue/credits.py\<close>): one wallet row per team and currency,
  whose name is the lock, and an append-only list of ledger entries. An entry's name is its
  position in the list (the source's names are random hashes); its \<open>creation\<close> order is its place
  in the list, oldest first.

  A booking runs under the wallet's row lock, so one attempt is one atomic step. What the database
  may do to an attempt besides running it is its \<open>fate\<close>: pick it as a deadlock victim, or refuse its
  insert on a unique key because another transaction won; both leave the ledger the other
  transactions committed.
\<close>

section \<open>State\<close>

record wallet =
  w_team :: string
  w_currency :: string
  w_balance :: money
  w_last_entry :: "nat option"

datatype ref_name = Doc_name string | Entry_name nat

record booking =
  bk_team :: string
  bk_type :: string
  bk_amount :: money
  bk_currency :: string
  bk_ref_type :: "string option"
  bk_ref_name :: "ref_name option"
  bk_note :: "string option"
  bk_payment_id :: "string option"
  bk_expires_on :: "date option"
  bk_fingerprint :: "string option"
  bk_tax :: money
  bk_paid_in :: bool
  bk_advance_id :: "string option"

record ledger_entry =
  le_name :: nat
  le_booking :: booking
  le_running :: money
  le_created_at :: datetime

record ledger =
  wallets :: "string \<Rightarrow> wallet option"
  entries :: "ledger_entry list"

abbreviation le_team :: "ledger_entry \<Rightarrow> string" where "le_team e \<equiv> bk_team (le_booking e)"
abbreviation le_currency :: "ledger_entry \<Rightarrow> string" where "le_currency e \<equiv> bk_currency (le_booking e)"
abbreviation le_amount :: "ledger_entry \<Rightarrow> money" where "le_amount e \<equiv> bk_amount (le_booking e)"
abbreviation le_type :: "ledger_entry \<Rightarrow> string" where "le_type e \<equiv> bk_type (le_booking e)"
abbreviation le_expires_on :: "ledger_entry \<Rightarrow> date option" where "le_expires_on e \<equiv> bk_expires_on (le_booking e)"
abbreviation le_payment_id :: "ledger_entry \<Rightarrow> string option" where "le_payment_id e \<equiv> bk_payment_id (le_booking e)"
abbreviation le_fingerprint :: "ledger_entry \<Rightarrow> string option" where "le_fingerprint e \<equiv> bk_fingerprint (le_booking e)"

section \<open>The wallet under its lock\<close>

definition wallet_name :: "string \<Rightarrow> string \<Rightarrow> string" where
  "wallet_name team currency = team @ ''-'' @ currency"

definition resolve_currency :: "(string \<Rightarrow> string) \<Rightarrow> string \<Rightarrow> string option \<Rightarrow> string" where
  "resolve_currency team_currency team currency = or_else currency (team_currency team)"

definition ensure_wallet :: "string \<Rightarrow> string \<Rightarrow> ledger \<Rightarrow> ledger" where
  "ensure_wallet team currency l =
     (if wallets l (wallet_name team currency) \<noteq> None then l
      else l\<lparr>wallets := (wallets l)(wallet_name team currency \<mapsto>
        \<lparr>w_team = team, w_currency = currency, w_balance = 0, w_last_entry = None\<rparr>)\<rparr>)"

definition entry_named :: "ledger \<Rightarrow> nat \<Rightarrow> ledger_entry option" where
  "entry_named l n = find (\<lambda>e. le_name e = n) (entries l)"

definition refuse_drifted_wallet :: "ledger \<Rightarrow> money \<Rightarrow> nat option \<Rightarrow> error + unit" where
  "refuse_drifted_wallet l balance last_entry =
     (let expected = (case Option.bind last_entry (entry_named l) of
        Some e \<Rightarrow> le_running e | None \<Rightarrow> 0)
      in if \<bar>balance - expected\<bar> \<le> 1 / 100 then Inr () else Inl WalletDrift)"

definition lock_and_read_balance :: "string \<Rightarrow> string \<Rightarrow> ledger \<Rightarrow> error + money" where
  "lock_and_read_balance team currency l = (case wallets l (wallet_name team currency) of
     None \<Rightarrow> Inr 0
   | Some w \<Rightarrow> bindE (refuse_drifted_wallet l (w_balance w) (w_last_entry w)) (\<lambda>_. Inr (w_balance w)))"

definition lock_team_wallet :: "(string \<Rightarrow> string) \<Rightarrow> string \<Rightarrow> string option \<Rightarrow> ledger \<Rightarrow> error + money \<times> ledger" where
  "lock_team_wallet team_currency team currency l =
     (let cur = resolve_currency team_currency team currency; l = ensure_wallet team cur l
      in bindE (lock_and_read_balance team cur l) (\<lambda>b. Inr (b, l)))"

section \<open>Booking\<close>

definition payment_entry :: "ledger \<Rightarrow> string option \<Rightarrow> ledger_entry option" where
  "payment_entry l pid = (if truthy pid then find (\<lambda>e. le_payment_id e = pid) (entries l) else None)"

text \<open>The insert's unique columns: the gateway payment id and the instrument fingerprint.\<close>

definition breaks_unique_key :: "ledger \<Rightarrow> booking \<Rightarrow> bool" where
  "breaks_unique_key l b \<longleftrightarrow>
     list_ex (\<lambda>e. bk_payment_id b \<noteq> None \<and> le_payment_id e = bk_payment_id b
                \<or> bk_fingerprint b \<noteq> None \<and> le_fingerprint e = bk_fingerprint b) (entries l)"

definition signed_amount :: "booking \<Rightarrow> money" where
  "signed_amount b = (if bk_type b = ''Credit'' then bk_amount b else - bk_amount b)"

definition post_entry :: "datetime \<Rightarrow> booking \<Rightarrow> money \<Rightarrow> ledger \<Rightarrow> error + (ledger_entry \<times> money) \<times> ledger" where
  "post_entry now b balance l =
     (let new_balance = balance + signed_amount b in
      if new_balance < 0 then Inl InsufficientCredits
      else if breaks_unique_key l b then Inl UniqueValidation
      else let entry = \<lparr>le_name = length (entries l), le_booking = b, le_running = new_balance, le_created_at = now\<rparr>;
               name = wallet_name (bk_team b) (bk_currency b)
           in Inr ((entry, new_balance), l\<lparr>entries := entries l @ [entry],
                wallets := (wallets l)(name := map_option
                  (\<lambda>w. w\<lparr>w_balance := new_balance, w_last_entry := Some (le_name entry)\<rparr>) (wallets l name))\<rparr>))"

definition book_entry_once :: "datetime \<Rightarrow> booking \<Rightarrow> ledger \<Rightarrow> error + (ledger_entry \<times> money) \<times> ledger" where
  "book_entry_once now b l =
     (let l = ensure_wallet (bk_team b) (bk_currency b) l in
      bindE (lock_and_read_balance (bk_team b) (bk_currency b) l) (\<lambda>balance.
        case payment_entry l (bk_payment_id b) of
          Some existing \<Rightarrow> Inr ((existing, balance), l)
        | None \<Rightarrow> post_entry now b balance l))"

definition existing_payment_entry :: "string option \<Rightarrow> ledger \<Rightarrow> error + (ledger_entry \<times> money) \<times> ledger" where
  "existing_payment_entry pid l = (case payment_entry l pid of
     None \<Rightarrow> Inl (ValidationError ''Credit booking conflicted but no prior entry found.'')
   | Some entry \<Rightarrow>
       Inr ((entry, case wallets l (wallet_name (le_team entry) (le_currency entry)) of
                      Some w \<Rightarrow> w_balance w | None \<Rightarrow> 0), l))"

text \<open>\<open>Refused_duplicate\<close> is DuplicateEntryError and \<open>Refused_unique\<close> UniqueValidationError, the two
  errors the framework raises for a unique key.\<close>

datatype fate = Runs | Deadlocks ledger | Refused_duplicate ledger | Refused_unique ledger

definition DEADLOCK_RETRIES :: nat where "DEADLOCK_RETRIES = 6"

text \<open>The retry loop with \<open>n\<close> attempts left; an attempt with no fate given runs.\<close>

fun book_attempts ::
  "datetime \<Rightarrow> booking \<Rightarrow> bool \<Rightarrow> nat \<Rightarrow> fate list \<Rightarrow> ledger \<Rightarrow> error + (ledger_entry \<times> money) \<times> ledger" where
  "book_attempts now b retry_deadlock 0 fates l = Inl QueryDeadlock"
| "book_attempts now b retry_deadlock (Suc n) fates l =
     (case fates of
        [] \<Rightarrow> book_entry_once now b l
      | Runs # rest \<Rightarrow> book_entry_once now b l
      | Deadlocks committed # rest \<Rightarrow>
          if \<not> retry_deadlock then Inl QueryDeadlock
          else if n = 0 then Inl QueryDeadlock
          else book_attempts now b retry_deadlock n rest committed
      | Refused_duplicate committed # rest \<Rightarrow> existing_payment_entry (bk_payment_id b) committed
      | Refused_unique committed # rest \<Rightarrow> Inl UniqueValidation)"

text \<open>
  An omitted currency (the empty string) is the team's billing currency, which \<open>tc\<close> gives
  (\<open>entitlements.team_currency\<close>).
\<close>

definition resolved :: "(string \<Rightarrow> string) \<Rightarrow> booking \<Rightarrow> booking" where
  "resolved tc b = b\<lparr>bk_currency := resolve_currency tc (bk_team b) (Some (bk_currency b))\<rparr>"

definition book_entry ::
  "(string \<Rightarrow> string) \<Rightarrow> datetime \<Rightarrow> fate list \<Rightarrow> bool \<Rightarrow> booking \<Rightarrow> ledger
     \<Rightarrow> error + (ledger_entry \<times> money) \<times> ledger" where
  "book_entry tc now fates retry_deadlock b l =
     (if bk_amount b \<le> 0 then Inl (ValidationError ''Credit amount must be positive.'')
      else book_attempts now (resolved tc b) retry_deadlock DEADLOCK_RETRIES fates l)"

section \<open>Credit and debit operations\<close>

definition namespaced_payment_id :: "string option \<Rightarrow> string option \<Rightarrow> string option" where
  "namespaced_payment_id gateway payment_id =
     (if \<not> truthy payment_id then None
      else if truthy gateway then Some (the gateway @ '':'' @ the payment_id) else payment_id)"

definition top_up_gst_rate :: "(rat \<Rightarrow> rat) \<Rightarrow> tax_env \<Rightarrow> string \<Rightarrow> error + rat" where
  "top_up_gst_rate r2 te team = bindE (resolve_tax r2 te team 100) (\<lambda>b. Inr (tb_output_tax_amount b / 100))"

definition top_up_gst :: "(rat \<Rightarrow> rat) \<Rightarrow> tax_env \<Rightarrow> string \<Rightarrow> money \<Rightarrow> error + money" where
  "top_up_gst r2 te team credit = bindE (top_up_gst_rate r2 te team) (\<lambda>rate. Inr (r2 (credit * rate)))"

definition split_top_up :: "(rat \<Rightarrow> rat) \<Rightarrow> tax_env \<Rightarrow> string \<Rightarrow> money \<Rightarrow> error + money \<times> money" where
  "split_top_up r2 te team paid = bindE (top_up_gst_rate r2 te team) (\<lambda>rate.
     let credit = r2 (paid / (1 + rate)) in Inr (credit, r2 (paid - credit)))"

definition top_up_split ::
  "(rat \<Rightarrow> rat) \<Rightarrow> tax_env \<Rightarrow> string \<Rightarrow> money \<Rightarrow> money option \<Rightarrow> error + money \<times> money" where
  "top_up_split r2 te team paid ordered =
     (let ordered = (case ordered of None \<Rightarrow> 0 | Some x \<Rightarrow> x) in
      if 0 < ordered \<and> ordered \<le> paid then Inr (ordered, r2 (paid - ordered))
      else split_top_up r2 te team paid)"

record purchase_request =
  pr_team :: string
  pr_amount :: money
  pr_currency :: string
  pr_payment_method :: "string option"
  pr_reference_name :: "string option"
  pr_note :: "string option"
  pr_payment_id :: "string option"
  pr_gateway :: "string option"
  pr_credit :: "money option"

definition purchase_booking :: "purchase_request \<Rightarrow> money \<Rightarrow> money \<Rightarrow> booking" where
  "purchase_booking p wallet gst =
     \<lparr>bk_team = pr_team p, bk_type = ''Credit'', bk_amount = wallet, bk_currency = pr_currency p,
      bk_ref_type = Some (if truthy (pr_payment_method p) then ''Payment Method'' else ''Top-up''),
      bk_ref_name = map_option Doc_name
        (if truthy (pr_payment_method p) then pr_payment_method p else pr_reference_name p),
      bk_note = Some (or_else (pr_note p) ''Credit top-up''),
      bk_payment_id = namespaced_payment_id (pr_gateway p) (pr_payment_id p),
      bk_expires_on = None, bk_fingerprint = None, bk_tax = gst,
      bk_paid_in = truthy (pr_payment_id p), bk_advance_id = None\<rparr>"

definition purchase ::
  "(rat \<Rightarrow> rat) \<Rightarrow> tax_env \<Rightarrow> (string \<Rightarrow> string) \<Rightarrow> datetime \<Rightarrow> fate list \<Rightarrow> purchase_request \<Rightarrow> ledger
     \<Rightarrow> error + (ledger_entry \<times> money) \<times> ledger" where
  "purchase r2 te tc now fates p l =
     bindE (if truthy (pr_payment_id p) then top_up_split r2 te (pr_team p) (pr_amount p) (pr_credit p)
            else Inr (pr_amount p, 0))
       (\<lambda>(wallet, gst). book_entry tc now fates True (purchase_booking p wallet gst) l)"

definition plain_booking ::
  "string \<Rightarrow> string \<Rightarrow> money \<Rightarrow> string \<Rightarrow> string option \<Rightarrow> string option \<Rightarrow> string option \<Rightarrow> booking" where
  "plain_booking team ty amount currency ref_type ref_name note =
     \<lparr>bk_team = team, bk_type = ty, bk_amount = amount, bk_currency = currency, bk_ref_type = ref_type,
      bk_ref_name = map_option Doc_name ref_name, bk_note = note, bk_payment_id = None,
      bk_expires_on = None, bk_fingerprint = None, bk_tax = 0, bk_paid_in = False, bk_advance_id = None\<rparr>"

definition apply_credit ::
  "(string \<Rightarrow> string) \<Rightarrow> datetime \<Rightarrow> fate list \<Rightarrow> string \<Rightarrow> money \<Rightarrow> string \<Rightarrow> string option \<Rightarrow> string option \<Rightarrow> string option
     \<Rightarrow> ledger \<Rightarrow> error + (ledger_entry \<times> money) \<times> ledger" where
  "apply_credit tc now fates team amount currency ref_type ref_name note l =
     book_entry tc now fates True (plain_booking team ''Debit'' amount currency ref_type ref_name note) l"

definition refund_to_wallet ::
  "(string \<Rightarrow> string) \<Rightarrow> datetime \<Rightarrow> fate list \<Rightarrow> string \<Rightarrow> money \<Rightarrow> string \<Rightarrow> string option \<Rightarrow> string option \<Rightarrow> string option
     \<Rightarrow> ledger \<Rightarrow> error + (ledger_entry \<times> money) \<times> ledger" where
  "refund_to_wallet tc now fates team amount currency ref_type ref_name note l =
     book_entry tc now fates True
       (plain_booking team ''Credit'' amount currency ref_type ref_name (Some (or_else note ''Refund to wallet''))) l"

definition adjust_credits ::
  "(string \<Rightarrow> string) \<Rightarrow> datetime \<Rightarrow> fate list \<Rightarrow> string \<Rightarrow> money \<Rightarrow> string \<Rightarrow> string \<Rightarrow> string option
     \<Rightarrow> ledger \<Rightarrow> error + (ledger_entry \<times> money) \<times> ledger" where
  "adjust_credits tc now fates team amount entry_type currency note l =
     (if entry_type \<notin> set [''Credit'', ''Debit''] then Inl (ValidationError ''entry_type'')
      else book_entry tc now fates True
        (plain_booking team entry_type amount currency (Some ''Admin'') None
           (Some (or_else note ''Admin adjustment''))) l)"

definition promotional_expiry_date :: "billing_settings \<Rightarrow> date \<Rightarrow> date" where
  "promotional_expiry_date s on_date = on_date + promotional_credit_validity_days s"

definition return_credit ::
  "billing_settings \<Rightarrow> (string \<Rightarrow> string) \<Rightarrow> datetime \<Rightarrow> fate list \<Rightarrow> string \<Rightarrow> money \<Rightarrow> string \<Rightarrow> string \<Rightarrow> string \<Rightarrow> string \<Rightarrow> bool
     \<Rightarrow> money \<Rightarrow> string option \<Rightarrow> ledger \<Rightarrow> error + (ledger_entry \<times> money) \<times> ledger" where
  "return_credit s tc now fates team amount currency ref_type ref_name note paid_in tax_amount advance_id l =
     book_entry tc now fates True
       ((plain_booking team ''Credit'' amount currency (Some ref_type) (Some ref_name) (Some note))
          \<lparr>bk_expires_on := (if paid_in then None else Some (promotional_expiry_date s (dt_date now))),
           bk_paid_in := paid_in, bk_tax := tax_amount, bk_advance_id := advance_id\<rparr>) l"

definition grant_promotional_credits ::
  "billing_settings \<Rightarrow> (string \<Rightarrow> string) \<Rightarrow> datetime \<Rightarrow> fate list \<Rightarrow> bool \<Rightarrow> string \<Rightarrow> money \<Rightarrow> string \<Rightarrow> string option \<Rightarrow> date option
     \<Rightarrow> string option \<Rightarrow> ledger \<Rightarrow> error + (ledger_entry \<times> money) \<times> ledger" where
  "grant_promotional_credits s tc now fates retry_deadlock team amount currency note expires_on fingerprint l =
     book_entry tc now fates retry_deadlock
       ((plain_booking team ''Credit'' amount currency (Some ''Promotion'') None
          (Some (or_else note ''Welcome credits'')))
          \<lparr>bk_expires_on := (case expires_on of None \<Rightarrow> Some (promotional_expiry_date s (dt_date now))
                              | Some d \<Rightarrow> Some d),
           bk_fingerprint := fingerprint\<rparr>) l"

section \<open>Reading balances\<close>

definition get_balance :: "(string \<Rightarrow> string) \<Rightarrow> string \<Rightarrow> string option \<Rightarrow> ledger \<Rightarrow> money \<times> string" where
  "get_balance team_currency team currency l =
     (let cur = resolve_currency team_currency team currency in
      (case wallets l (wallet_name team cur) of None \<Rightarrow> 0 | Some w \<Rightarrow> w_balance w, cur))"

definition in_wallet :: "string \<Rightarrow> string \<Rightarrow> ledger_entry \<Rightarrow> bool" where
  "in_wallet team currency e \<longleftrightarrow> le_team e = team \<and> le_currency e = currency"

definition ledger_balance :: "string \<Rightarrow> string \<Rightarrow> ledger \<Rightarrow> money" where
  "ledger_balance team currency l =
     sum_where (in_wallet team currency) (\<lambda>e. signed_amount (le_booking e)) (entries l)"

definition advance_gst_balance :: "(rat \<Rightarrow> rat) \<Rightarrow> invoice list \<Rightarrow> string \<Rightarrow> string \<Rightarrow> ledger \<Rightarrow> money" where
  "advance_gst_balance r2 invoices team currency l =
     (let paid = sum_where (\<lambda>e. in_wallet team currency e \<and> le_type e = ''Credit'') (\<lambda>e. bk_tax (le_booking e)) (entries l);
          used = sum_where (\<lambda>iv. inv_team iv = team \<and> inv_currency iv = currency) inv_advance_tax_applied invoices
      in r2 (paid - used))"

section \<open>Lots and expiry\<close>

definition DATE_MAX :: date where "DATE_MAX = 3652059"

definition lot_key :: "ledger_entry \<Rightarrow> date" where
  "lot_key e = (case le_expires_on e of Some d \<Rightarrow> d | None \<Rightarrow> DATE_MAX)"

text \<open>Draw \<open>unspent\<close> from the lots in their order; each lot with what is left of it.\<close>

fun draw_lots :: "money \<Rightarrow> ledger_entry list \<Rightarrow> (ledger_entry \<times> money) list" where
  "draw_lots unspent [] = []"
| "draw_lots unspent (lot # lots) =
     (let spent = min (le_amount lot) unspent
      in (lot, le_amount lot - spent) # draw_lots (unspent - spent) lots)"

definition wallet_lots :: "string \<Rightarrow> string \<Rightarrow> ledger \<Rightarrow> ledger_entry list" where
  "wallet_lots team currency l =
     sort_key lot_key (filter (\<lambda>e. in_wallet team currency e \<and> le_type e = ''Credit'') (entries l))"

definition debits_total :: "string \<Rightarrow> string \<Rightarrow> ledger \<Rightarrow> money" where
  "debits_total team currency l =
     sum_where (\<lambda>e. in_wallet team currency e \<and> le_type e = ''Debit'') le_amount (entries l)"

definition credit_lots :: "string \<Rightarrow> string \<Rightarrow> ledger \<Rightarrow> (ledger_entry \<times> money) list" where
  "credit_lots team currency l = draw_lots (debits_total team currency l) (wallet_lots team currency l)"

definition expiring_credits :: "date \<Rightarrow> string \<Rightarrow> string \<Rightarrow> ledger \<Rightarrow> (money \<times> date \<times> nat) list" where
  "expiring_credits on_date team currency l =
     map (\<lambda>(lot, remaining). (remaining, the (le_expires_on lot), le_name lot))
       (filter (\<lambda>(lot, remaining). le_expires_on lot \<noteq> None \<and> remaining > 0 \<and> the (le_expires_on lot) > on_date)
          (credit_lots team currency l))"

record expiry =
  ex_entry :: nat
  ex_amount :: money
  ex_grant :: nat

definition expiry_booking :: "string \<Rightarrow> string \<Rightarrow> ledger_entry \<Rightarrow> money \<Rightarrow> booking" where
  "expiry_booking team currency lot remaining =
     (plain_booking team ''Debit'' remaining currency (Some ''Expiry'') None
      (Some (''Promotional credit expired on '' @ date_str (the (le_expires_on lot)))))
       \<lparr>bk_ref_name := Some (Entry_name (le_name lot))\<rparr>"

text \<open>The sweep's loop over the lots as they were read, with the running balance it keeps.\<close>

fun expire_loop ::
  "datetime \<Rightarrow> date \<Rightarrow> string \<Rightarrow> string \<Rightarrow> (ledger_entry \<times> money) list \<Rightarrow> money \<Rightarrow> ledger
     \<Rightarrow> error + expiry list \<times> ledger" where
  "expire_loop now on_date team currency [] balance l = Inr ([], l)"
| "expire_loop now on_date team currency ((lot, remaining) # lots) balance l =
     (case le_expires_on lot of
        None \<Rightarrow> expire_loop now on_date team currency lots balance l
      | Some d \<Rightarrow>
          if remaining \<le> 0 then expire_loop now on_date team currency lots balance l
          else if d > on_date then Inr ([], l)
          else bindE (post_entry now (expiry_booking team currency lot remaining) balance l)
                 (\<lambda>((entry, balance'), l').
                   bindE (expire_loop now on_date team currency lots balance' l') (\<lambda>(xs, l'').
                     Inr (\<lparr>ex_entry = le_name entry, ex_amount = remaining, ex_grant = le_name lot\<rparr> # xs, l''))))"

definition expire_credits_once ::
  "datetime \<Rightarrow> string \<Rightarrow> string \<Rightarrow> date \<Rightarrow> ledger \<Rightarrow> error + expiry list \<times> ledger" where
  "expire_credits_once now team currency on_date l =
     (let l = ensure_wallet team currency l in
      bindE (lock_and_read_balance team currency l) (\<lambda>balance.
        expire_loop now on_date team currency (credit_lots team currency l) balance l))"

text \<open>The retry loop of \<open>expire_credits\<close>, by the number of attempts left.\<close>

fun expire_attempts ::
  "datetime \<Rightarrow> string \<Rightarrow> string \<Rightarrow> date \<Rightarrow> nat \<Rightarrow> fate list \<Rightarrow> ledger \<Rightarrow> error + expiry list \<times> ledger" where
  "expire_attempts now team currency on_date 0 fates l = Inr ([], l)"
| "expire_attempts now team currency on_date (Suc n) fates l =
     (case fates of
        [] \<Rightarrow> expire_credits_once now team currency on_date l
      | Runs # rest \<Rightarrow> expire_credits_once now team currency on_date l
      | Deadlocks committed # rest \<Rightarrow>
          if n = 0 then Inl QueryDeadlock
          else expire_attempts now team currency on_date n rest committed
      | Refused_duplicate committed # rest \<Rightarrow> Inl DuplicateEntry
      | Refused_unique committed # rest \<Rightarrow> Inl UniqueValidation)"

definition expire_credits ::
  "datetime \<Rightarrow> fate list \<Rightarrow> string \<Rightarrow> string \<Rightarrow> date \<Rightarrow> ledger \<Rightarrow> error + expiry list \<times> ledger" where
  "expire_credits now fates team currency on_date l =
     expire_attempts now team currency on_date DEADLOCK_RETRIES fates l"

text \<open>
  The daily job: every wallet that holds a grant past its date, skipping empty ones, each under its
  own savepoint (\<open>platform/jobs.each_isolated\<close>): a wallet that raises is left as it was.
\<close>

definition expired_scopes :: "date \<Rightarrow> ledger \<Rightarrow> (string \<times> string) list" where
  "expired_scopes on_date l =
     remdups (map (\<lambda>e. (le_team e, le_currency e))
       (filter (\<lambda>e. le_type e = ''Credit'' \<and> (case le_expires_on e of None \<Rightarrow> False | Some d \<Rightarrow> d \<le> on_date))
          (entries l)))"

fun expire_wallets ::
  "datetime \<Rightarrow> date \<Rightarrow> (string \<times> string) list \<Rightarrow> ledger \<Rightarrow> expiry list \<times> ledger" where
  "expire_wallets now on_date [] l = ([], l)"
| "expire_wallets now on_date ((team, currency) # rest) l =
     (case expire_credits now [] team currency on_date l of
        Inl e \<Rightarrow> expire_wallets now on_date rest l
      | Inr (xs, l') \<Rightarrow> (let (ys, l'') = expire_wallets now on_date rest l' in (xs @ ys, l'')))"

definition run_credit_expiry :: "datetime \<Rightarrow> date \<Rightarrow> ledger \<Rightarrow> (nat \<times> nat \<times> money) \<times> ledger" where
  "run_credit_expiry now on_date l =
     (let scopes = expired_scopes on_date l;
          funded = filter (\<lambda>(team, currency). case wallets l (wallet_name team currency) of
                     None \<Rightarrow> False | Some w \<Rightarrow> w_balance w > 0) scopes;
          (expiries, l') = expire_wallets now on_date funded l
      in ((length scopes, length expiries, sum_list (map ex_amount expiries)), l'))"

end
