(* ===== verification/Ledger_Invariant.thy ===== *)
theory Ledger_Invariant
  imports Credits
begin

text \<open>
  What every booking keeps true of the credit ledger, and what a booking does to it: wallet names
  are injective, the wallet's balance is the sum of its ledger and what its last entry left,
  balances never go below zero, a gateway payment is booked at most once.
\<close>

section \<open>The invariant\<close>

text \<open>A currency is an ISO code: it has no dash, so the wallet's name can be read back.\<close>

definition valid_currency :: "string \<Rightarrow> bool" where
  "valid_currency c \<longleftrightarrow> CHR ''-'' \<notin> set c"

definition entry_ok :: "ledger \<Rightarrow> ledger_entry \<Rightarrow> bool" where
  "entry_ok l e \<longleftrightarrow> le_type e \<in> {''Credit'', ''Debit''} \<and> le_amount e > 0 \<and> valid_currency (le_currency e)
     \<and> wallets l (wallet_name (le_team e) (le_currency e)) \<noteq> None"

definition wallet_ok :: "ledger \<Rightarrow> string \<Rightarrow> wallet \<Rightarrow> bool" where
  "wallet_ok l n w \<longleftrightarrow> n = wallet_name (w_team w) (w_currency w) \<and> valid_currency (w_currency w)
     \<and> 0 \<le> w_balance w \<and> w_balance w = ledger_balance (w_team w) (w_currency w) l
     \<and> w_balance w = (case w_last_entry w of None \<Rightarrow> 0
                       | Some k \<Rightarrow> (case entry_named l k of None \<Rightarrow> 0 | Some e \<Rightarrow> le_running e))
     \<and> (\<forall>k. w_last_entry w = Some k \<longrightarrow> k < length (entries l))"

definition unique_ids :: "(ledger_entry \<Rightarrow> string option) \<Rightarrow> ledger \<Rightarrow> bool" where
  "unique_ids f l \<longleftrightarrow> distinct (filter (\<lambda>p. p \<noteq> None) (map f (entries l)))"

text \<open>What an entry left is what the entry before it in its account left, and its own amount.\<close>

fun chained :: "money \<Rightarrow> ledger_entry list \<Rightarrow> bool" where
  "chained left [] = True"
| "chained left (e # es) \<longleftrightarrow> le_running e = left + signed_amount (le_booking e) \<and> chained (le_running e) es"

definition ledger_ok :: "ledger \<Rightarrow> bool" where
  "ledger_ok l \<longleftrightarrow> map le_name (entries l) = [0..<length (entries l)]
     \<and> (\<forall>e \<in> set (entries l). entry_ok l e)
     \<and> (\<forall>n w. wallets l n = Some w \<longrightarrow> wallet_ok l n w)
     \<and> unique_ids le_payment_id l \<and> unique_ids le_fingerprint l
     \<and> (\<forall>t c. chained 0 (filter (in_wallet t c) (entries l)))"

lemma chained_snoc:
  "chained left (es @ [e]) \<longleftrightarrow> chained left es
     \<and> le_running e = left + sum_list (map (\<lambda>x. signed_amount (le_booking x)) es) + signed_amount (le_booking e)"
proof (induction es arbitrary: left)
  case (Cons a es)
  show ?case
  proof (cases "le_running a = left + signed_amount (le_booking a)")
    case True
    have "chained left ((a # es) @ [e]) \<longleftrightarrow> chained (le_running a) (es @ [e])" using True by simp
    also have "\<dots> \<longleftrightarrow> chained (le_running a) es
        \<and> le_running e = le_running a + sum_list (map (\<lambda>x. signed_amount (le_booking x)) es) + signed_amount (le_booking e)"
      by (rule Cons.IH)
    finally show ?thesis using True by (simp add: add.assoc)
  qed simp
qed simp

definition booking_ok :: "booking \<Rightarrow> bool" where
  "booking_ok b \<longleftrightarrow> bk_type b \<in> {''Credit'', ''Debit''} \<and> valid_currency (bk_currency b)"

definition wallet_balance :: "string \<Rightarrow> string \<Rightarrow> ledger \<Rightarrow> money" where
  "wallet_balance team currency l =
     (case wallets l (wallet_name team currency) of None \<Rightarrow> 0 | Some w \<Rightarrow> w_balance w)"

definition empty_ledger :: ledger where
  "empty_ledger = \<lparr>wallets = (\<lambda>_. None), entries = []\<rparr>"

lemma empty_ledger_ok: "ledger_ok empty_ledger"
  by (simp add: ledger_ok_def empty_ledger_def unique_ids_def)

section \<open>Wallet names\<close>

lemma wallet_name_suffix:
  assumes "valid_currency c"
  shows "takeWhile (\<lambda>x. x \<noteq> CHR ''-'') (rev (wallet_name t c)) = rev c"
proof -
  have "rev (wallet_name t c) = rev c @ CHR ''-'' # rev t" by (simp add: wallet_name_def)
  moreover have "\<forall>x \<in> set (rev c). x \<noteq> CHR ''-''" using assms by (auto simp: valid_currency_def)
  ultimately show ?thesis by (simp add: takeWhile_append)
qed

lemma wallet_name_inj:
  assumes "valid_currency c" "valid_currency d" "wallet_name t c = wallet_name u d"
  shows "t = u \<and> c = d"
proof -
  have "rev c = rev d"
    using wallet_name_suffix [OF assms(1), of t] wallet_name_suffix [OF assms(2), of u] assms(3) by simp
  then have "c = d" by simp
  with assms(3) show ?thesis by (simp add: wallet_name_def)
qed

lemma wallet_name_eq_iff:
  "valid_currency c \<Longrightarrow> valid_currency d \<Longrightarrow> wallet_name t c = wallet_name u d \<longleftrightarrow> t = u \<and> c = d"
  using wallet_name_inj by blast

section \<open>Reading under the lock\<close>

lemma entry_named_append:
  "n < length (entries l) \<Longrightarrow> map le_name (entries l) = [0..<length (entries l)] \<Longrightarrow>
   entries l' = entries l @ es \<Longrightarrow> entry_named l' n = entry_named l n"
proof -
  assume n: "n < length (entries l)" and names: "map le_name (entries l) = [0..<length (entries l)]"
    and app: "entries l' = entries l @ es"
  have "n \<in> set (map le_name (entries l))" using n names by simp
  then have "find (\<lambda>e. le_name e = n) (entries l) \<noteq> None" by (auto simp: find_None)
  then show ?thesis by (auto simp: entry_named_def app find_append)
qed

lemma ledger_ok_wallet: "ledger_ok l \<Longrightarrow> wallets l n = Some w \<Longrightarrow> wallet_ok l n w"
  by (simp add: ledger_ok_def)

lemma refuse_drifted_ok:
  "wallet_ok l n w \<Longrightarrow> refuse_drifted_wallet l (w_balance w) (w_last_entry w) = Inr ()"
  by (auto simp: refuse_drifted_wallet_def wallet_ok_def split: option.splits)

lemma lock_and_read_ok:
  "ledger_ok l \<Longrightarrow> lock_and_read_balance team currency l = Inr (wallet_balance team currency l)"
  by (auto simp: lock_and_read_balance_def wallet_balance_def
      refuse_drifted_ok [OF ledger_ok_wallet] split: option.splits)

lemma wallet_balance_nonneg: "ledger_ok l \<Longrightarrow> 0 \<le> wallet_balance team currency l"
  by (auto simp: wallet_balance_def wallet_ok_def dest!: ledger_ok_wallet split: option.splits)

lemma ledger_balance_no_wallet:
  assumes "ledger_ok l" "wallets l (wallet_name team currency) = None"
  shows "ledger_balance team currency l = 0"
proof -
  have "\<not> in_wallet team currency e" if "e \<in> set (entries l)" for e
    using assms that by (auto simp: ledger_ok_def entry_ok_def in_wallet_def)
  then have "filter (in_wallet team currency) (entries l) = []" by (simp add: filter_empty_conv)
  then show ?thesis by (simp add: ledger_balance_def sum_where_def)
qed

lemma wallet_balance_ledger:
  assumes "ledger_ok l" "valid_currency currency"
  shows "wallet_balance team currency l = ledger_balance team currency l"
proof (cases "wallets l (wallet_name team currency)")
  case None
  with assms(1) show ?thesis by (simp add: wallet_balance_def ledger_balance_no_wallet)
next
  case (Some w)
  from ledger_ok_wallet [OF assms(1) Some] have ok: "wallet_ok l (wallet_name team currency) w" .
  then have "team = w_team w \<and> currency = w_currency w"
    unfolding wallet_ok_def by (intro wallet_name_inj [OF assms(2)]) auto
  with ok Some show ?thesis by (auto simp: wallet_balance_def wallet_ok_def)
qed

lemma ensure_wallet_entries [simp]: "entries (ensure_wallet team currency l) = entries l"
  by (simp add: ensure_wallet_def)

lemma ensure_wallet_exists [simp]: "wallets (ensure_wallet team currency l) (wallet_name team currency) \<noteq> None"
  by (simp add: ensure_wallet_def)

lemma ensure_wallet_balance [simp]: "wallet_balance t c (ensure_wallet team currency l) = wallet_balance t c l"
  by (simp add: ensure_wallet_def wallet_balance_def)

lemma ensure_wallet_id: "wallets l (wallet_name team currency) \<noteq> None \<Longrightarrow> ensure_wallet team currency l = l"
  by (simp add: ensure_wallet_def)

lemma ledger_balance_entries: "entries l' = entries l \<Longrightarrow> ledger_balance t c l' = ledger_balance t c l"
  by (simp add: ledger_balance_def)

lemma entry_named_entries: "entries l' = entries l \<Longrightarrow> entry_named l' n = entry_named l n"
  by (simp add: entry_named_def)

lemma ensure_wallet_ok:
  assumes ok: "ledger_ok l" and c: "valid_currency currency"
  shows "ledger_ok (ensure_wallet team currency l)"
proof (cases "wallets l (wallet_name team currency) = None")
  case False
  then show ?thesis by (simp add: ensure_wallet_id ok)
next
  case True
  let ?l = "ensure_wallet team currency l"
  have "wallet_ok ?l n w" if "wallets ?l n = Some w" for n w
  proof (cases "n = wallet_name team currency")
    case eq: True
    then have "w = \<lparr>w_team = team, w_currency = currency, w_balance = 0, w_last_entry = None\<rparr>"
      using that True by (simp add: ensure_wallet_def)
    then show ?thesis
      using eq c ledger_balance_no_wallet [OF ok True]
      by (simp add: wallet_ok_def ledger_balance_entries [of ?l l])
  next
    case ne: False
    then have "wallets l n = Some w" using that by (simp add: ensure_wallet_def split: if_splits)
    from ledger_ok_wallet [OF ok this] show ?thesis
      by (simp add: wallet_ok_def ledger_balance_entries [of ?l l] entry_named_entries [of ?l l] cong: option.case_cong)
  qed
  moreover have "\<forall>e \<in> set (entries ?l). entry_ok ?l e"
    using ok by (auto simp: ledger_ok_def entry_ok_def ensure_wallet_def)
  ultimately show ?thesis using ok by (simp add: ledger_ok_def unique_ids_def)
qed

section \<open>Posting an entry\<close>

lemma post_entry_Inr:
  assumes "post_entry now b balance l = Inr ((e, b'), l')"
  shows "b' = balance + signed_amount b" "0 \<le> b'" "\<not> breaks_unique_key l b"
    "e = \<lparr>le_name = length (entries l), le_booking = b, le_running = b', le_created_at = now\<rparr>"
    "entries l' = entries l @ [e]"
    "wallets l' = (wallets l)(wallet_name (bk_team b) (bk_currency b) := map_option
       (\<lambda>w. w\<lparr>w_balance := b', w_last_entry := Some (length (entries l))\<rparr>) (wallets l (wallet_name (bk_team b) (bk_currency b))))"
  using assms by (auto simp: post_entry_def Let_def split: if_splits)

lemma ledger_balance_snoc:
  "entries l' = entries l @ [e] \<Longrightarrow>
   ledger_balance t c l' = ledger_balance t c l + (if in_wallet t c e then signed_amount (le_booking e) else 0)"
  by (simp add: ledger_balance_def)

lemma unique_ids_snoc:
  assumes "unique_ids f l" "entries l' = entries l @ [e]"
    "\<forall>x \<in> set (entries l). f e \<noteq> None \<longrightarrow> f x \<noteq> f e"
  shows "unique_ids f l'"
  using assms by (auto simp: unique_ids_def)

lemma breaks_unique_key_iff:
  "breaks_unique_key l b \<longleftrightarrow> (\<exists>e \<in> set (entries l).
     bk_payment_id b \<noteq> None \<and> le_payment_id e = bk_payment_id b
     \<or> bk_fingerprint b \<noteq> None \<and> le_fingerprint e = bk_fingerprint b)"
  by (simp add: breaks_unique_key_def list_ex_iff)

text \<open>The step every booking and every sweep is made of.\<close>

lemma post_entry_ok:
  assumes ok: "ledger_ok l" and b: "booking_ok b" "bk_amount b > 0"
    and w: "wallets l (wallet_name (bk_team b) (bk_currency b)) \<noteq> None"
    and bal: "balance = wallet_balance (bk_team b) (bk_currency b) l"
    and post: "post_entry now b balance l = Inr ((e, b'), l')"
  shows "ledger_ok l'"
proof -
  let ?n = "wallet_name (bk_team b) (bk_currency b)"
  note P = post_entry_Inr [OF post]
  have c: "valid_currency (bk_currency b)" using b(1) by (simp add: booking_ok_def)
  have names: "map le_name (entries l) = [0..<length (entries l)]" using ok by (simp add: ledger_ok_def)
  have kept: "wallets l' n \<noteq> None \<longleftrightarrow> wallets l n \<noteq> None" for n using P(6) by auto
  have ents: "entry_ok l' x" if "x \<in> set (entries l')" for x
    using that ok b w P(4,5) kept by (auto simp: ledger_ok_def entry_ok_def booking_ok_def)
  have wal: "wallet_ok l' n v" if v: "wallets l' n = Some v" for n v
  proof (cases "n = ?n")
    case True
    then obtain v0 where v0: "wallets l ?n = Some v0" "v = v0\<lparr>w_balance := b', w_last_entry := Some (length (entries l))\<rparr>"
      using v P(6) by auto
    from ledger_ok_wallet [OF ok v0(1)] have o: "wallet_ok l ?n v0" .
    then have "bk_team b = w_team v0 \<and> bk_currency b = w_currency v0"
      unfolding wallet_ok_def by (intro wallet_name_inj [OF c]) auto
    then have tc: "w_team v0 = bk_team b" "w_currency v0 = bk_currency b" by auto
    have bv: "balance = w_balance v0" using bal v0(1) by (simp add: wallet_balance_def)
    have "entry_named l' (length (entries l)) = Some e"
    proof -
      have "length (entries l) \<notin> set (map le_name (entries l))" using names by simp
      then have "find (\<lambda>x. le_name x = length (entries l)) (entries l) = None"
        by (force simp: find_None)
      then show ?thesis using P(4,5) by (simp add: entry_named_def find_append)
    qed
    moreover have "b' = ledger_balance (bk_team b) (bk_currency b) l'"
      using ledger_balance_snoc [OF P(5)] P(1,4) bv o tc by (simp add: in_wallet_def wallet_ok_def)
    ultimately show ?thesis using o v0(2) tc P(2,4,5) True by (simp add: wallet_ok_def)
  next
    case False
    then have v': "wallets l n = Some v" using v P(6) by simp
    from ledger_ok_wallet [OF ok v'] have o: "wallet_ok l n v" .
    have "\<not> (w_team v = bk_team b \<and> w_currency v = bk_currency b)" using o False by (auto simp: wallet_ok_def)
    then have lb: "ledger_balance (w_team v) (w_currency v) l' = ledger_balance (w_team v) (w_currency v) l"
      using ledger_balance_snoc [OF P(5)] P(4) by (auto simp: in_wallet_def)
    have en: "entry_named l' k = entry_named l k" if "w_last_entry v = Some k" for k
      using o that names by (intro entry_named_append [OF _ _ P(5)]) (auto simp: wallet_ok_def)
    show ?thesis using o lb en P(5) by (auto simp: wallet_ok_def split: option.splits)
  qed
  have "unique_ids le_payment_id l'" "unique_ids le_fingerprint l'"
    using ok P(3,4) by (auto intro!: unique_ids_snoc [OF _ P(5)] simp: ledger_ok_def breaks_unique_key_iff)
  moreover have "chained 0 (filter (in_wallet t k) (entries l'))" for t k
  proof -
    have before: "chained 0 (filter (in_wallet t k) (entries l))" using ok by (simp add: ledger_ok_def)
    have "b' = ledger_balance (bk_team b) (bk_currency b) l + signed_amount b"
      using P(1) bal wallet_balance_ledger [OF ok c] by simp
    then show ?thesis using before P(4,5) by (auto simp: chained_snoc ledger_balance_def sum_where_def in_wallet_def)
  qed
  ultimately show ?thesis using ents wal names P(4,5) by (simp add: ledger_ok_def)
qed

lemma post_entry_balance:
  assumes "booking_ok b" "valid_currency c"
    and "wallets l (wallet_name (bk_team b) (bk_currency b)) \<noteq> None"
    and post: "post_entry now b balance l = Inr ((e, b'), l')"
  shows "wallet_balance t c l' =
     (if t = bk_team b \<and> c = bk_currency b then b' else wallet_balance t c l)"
  using assms post_entry_Inr(6) [OF post]
  by (auto simp: wallet_balance_def wallet_name_eq_iff booking_ok_def)

lemma post_entry_wallet_kept:
  "post_entry now b balance l = Inr ((e, b'), l') \<Longrightarrow> wallets l n \<noteq> None \<Longrightarrow> wallets l' n \<noteq> None"
  using post_entry_Inr(6) by fastforce

section \<open>A concrete ledger\<close>

text \<open>A grant of 100 with an expiry, a top-up of 500 and an invoice's draw of 50.\<close>

definition example_grant :: ledger_entry where
  "example_grant = \<lparr>le_name = 0, le_booking = (plain_booking ''t1'' ''Credit'' 100 ''INR'' (Some ''Promotion'') None None)
     \<lparr>bk_expires_on := Some 739000\<rparr>, le_running = 100, le_created_at = 0\<rparr>"

definition example_top_up :: ledger_entry where
  "example_top_up = \<lparr>le_name = 1, le_booking = (plain_booking ''t1'' ''Credit'' 500 ''INR'' (Some ''Top-up'') None None)
     \<lparr>bk_payment_id := Some ''Razorpay:pay_1'', bk_paid_in := True\<rparr>, le_running = 600, le_created_at = 1\<rparr>"

definition example_draw :: ledger_entry where
  "example_draw = \<lparr>le_name = 2, le_booking = plain_booking ''t1'' ''Debit'' 50 ''INR'' (Some ''Invoice'') (Some ''INV-1'') None,
     le_running = 550, le_created_at = 2\<rparr>"

definition example_ledger :: ledger where
  "example_ledger = \<lparr>wallets = [wallet_name ''t1'' ''INR'' \<mapsto>
       \<lparr>w_team = ''t1'', w_currency = ''INR'', w_balance = 550, w_last_entry = Some 2\<rparr>],
     entries = [example_grant, example_top_up, example_draw]\<rparr>"

lemmas example_ledger_simps = example_ledger_def example_grant_def example_top_up_def example_draw_def
  plain_booking_def

lemma example_ledger_ok: "ledger_ok example_ledger"
proof -
  have "\<forall>e \<in> set (entries example_ledger). entry_ok example_ledger e"
    by (simp add: entry_ok_def example_ledger_simps valid_currency_def)
  moreover have "wallet_ok example_ledger n w" if "wallets example_ledger n = Some w" for n w
    using that by (auto simp: example_ledger_simps wallet_ok_def valid_currency_def ledger_balance_def
        in_wallet_def signed_amount_def entry_named_def split: if_splits)
  moreover have "chained 0 (filter (in_wallet t c) (entries example_ledger))" for t c
    by (simp add: example_ledger_simps signed_amount_def in_wallet_def)
  ultimately show ?thesis
    by (simp add: ledger_ok_def unique_ids_def) (simp add: example_ledger_simps upt_rec)
qed

lemma example_balance: "wallet_balance ''t1'' ''INR'' example_ledger = 550"
  by (simp add: wallet_balance_def example_ledger_def)

end
