(* ===== verification/Bookings.thy ===== *)
theory Bookings
  imports Ledger_Invariant
begin

text \<open>
  What one booking of \<open>credits.py\<close> does: the exact effect of \<open>_book_entry\<close>, its retries, the races
  it loses, and the wallet contract (\<open>wallet_store\<close>) that the invoice waterfall relies on.
\<close>

definition example_debit :: booking where
  "example_debit = plain_booking ''t1'' ''Debit'' 50 ''INR'' None None None"

section \<open>One attempt\<close>

lemma book_entry_once_eq:
  assumes "ledger_ok l" "valid_currency (bk_currency b)"
  shows "book_entry_once now b l =
    (case payment_entry l (bk_payment_id b) of
       Some x \<Rightarrow> Inr ((x, wallet_balance (bk_team b) (bk_currency b) l), ensure_wallet (bk_team b) (bk_currency b) l)
     | None \<Rightarrow> post_entry now b (wallet_balance (bk_team b) (bk_currency b) l)
                 (ensure_wallet (bk_team b) (bk_currency b) l))"
  using lock_and_read_ok [OF ensure_wallet_ok [OF assms], of "bk_team b" "bk_currency b" "bk_team b"]
  by (simp add: book_entry_once_def payment_entry_def Let_def)

lemma book_entry_once_ok:
  assumes ok: "ledger_ok l" and b: "booking_ok b" "bk_amount b > 0"
    and run: "book_entry_once now b l = Inr ((e, b'), l')"
  shows "ledger_ok l'"
proof -
  have c: "valid_currency (bk_currency b)" using b by (simp add: booking_ok_def)
  let ?l = "ensure_wallet (bk_team b) (bk_currency b) l"
  have ok': "ledger_ok ?l" by (rule ensure_wallet_ok [OF ok c])
  show ?thesis
  proof (cases "payment_entry l (bk_payment_id b)")
    case None
    with run have "post_entry now b (wallet_balance (bk_team b) (bk_currency b) l) ?l = Inr ((e, b'), l')"
      by (simp add: book_entry_once_eq [OF ok c])
    then show ?thesis by (intro post_entry_ok [OF ok' b]) simp_all
  next
    case (Some x)
    with run ok' show ?thesis by (simp add: book_entry_once_eq [OF ok c])
  qed
qed

section \<open>Retries and lost races\<close>

fun committed_ok :: "fate \<Rightarrow> bool" where
  "committed_ok Runs = True"
| "committed_ok (Deadlocks l) = ledger_ok l"
| "committed_ok (Refused_duplicate l) = ledger_ok l"
| "committed_ok (Refused_unique l) = ledger_ok l"

lemma existing_payment_entry_Inr:
  "existing_payment_entry pid l = Inr ((e, b), l') \<Longrightarrow> l' = l \<and> payment_entry l pid = Some e"
  by (auto simp: existing_payment_entry_def split: option.splits)

lemma book_attempts_ok:
  "ledger_ok l \<Longrightarrow> list_all committed_ok fates \<Longrightarrow> booking_ok b \<Longrightarrow> bk_amount b > 0
   \<Longrightarrow> book_attempts now b rd n fates l = Inr ((e, b'), l') \<Longrightarrow> ledger_ok l'"
proof (induction now b rd n fates l rule: book_attempts.induct)
  case (2 now b rd n fates l)
  then show ?case
    by (auto split: list.splits fate.splits if_splits
        dest: book_entry_once_ok existing_payment_entry_Inr)
qed simp

lemma book_attempts_deadlocks:
  "length ls < n \<Longrightarrow>
   book_attempts now b True n (map Deadlocks ls) l = book_entry_once now b (last (l # ls))"
proof (induction ls arbitrary: n l)
  case Nil
  then show ?case by (cases n) simp_all
next
  case (Cons a ls)
  then obtain m where n: "n = Suc m" "length ls < m" by (cases n) auto
  then show ?case using Cons.IH [of m a] by simp
qed

lemma book_attempts_exhausted:
  "n \<le> length ls \<Longrightarrow> book_attempts now b True n (map Deadlocks ls) l = Inl QueryDeadlock"
proof (induction ls arbitrary: n l)
  case Nil
  then show ?case by (cases n) simp_all
next
  case (Cons a ls)
  then show ?case by (cases n) simp_all
qed

section \<open>The booking operation\<close>

lemma resolved_simps [simp]:
  "bk_team (resolved tc b) = bk_team b" "bk_type (resolved tc b) = bk_type b"
  "bk_amount (resolved tc b) = bk_amount b" "bk_payment_id (resolved tc b) = bk_payment_id b"
  "bk_fingerprint (resolved tc b) = bk_fingerprint b"
  by (simp_all add: resolved_def)

lemma resolved_id: "bk_currency b \<noteq> [] \<Longrightarrow> resolved tc b = b"
  by (simp add: resolved_def resolve_currency_def)

lemma book_entry_plain:
  "bk_amount b > 0 \<Longrightarrow> book_entry tc now [] rd b l = book_entry_once now (resolved tc b) l"
proof -
  assume "bk_amount b > 0"
  then show ?thesis by (simp add: book_entry_def DEADLOCK_RETRIES_def eval_nat_numeral)
qed

lemma book_entry_ok:
  assumes "ledger_ok l" "list_all committed_ok fates" "booking_ok (resolved tc b)"
    and "book_entry tc now fates retry b l = Inr ((e, b'), l')"
  shows "ledger_ok l'"
proof -
  from assms(4) have pos: "bk_amount b > 0"
    and run: "book_attempts now (resolved tc b) retry DEADLOCK_RETRIES fates l = Inr ((e, b'), l')"
    by (auto simp: book_entry_def split: if_splits)
  show ?thesis by (rule book_attempts_ok [OF assms(1,2,3) _ run]) (simp add: pos)
qed

text \<open>A fresh key: neither the payment nor the instrument is on the ledger.\<close>

definition fresh_keys :: "ledger \<Rightarrow> booking \<Rightarrow> bool" where
  "fresh_keys l b \<longleftrightarrow> \<not> breaks_unique_key l b"

lemma fresh_keys_payment: "fresh_keys l b \<Longrightarrow> payment_entry l (bk_payment_id b) = None"
  by (auto simp: fresh_keys_def payment_entry_def breaks_unique_key_iff find_None)

lemma breaks_unique_key_ensure [simp]: "breaks_unique_key (ensure_wallet t c l) b = breaks_unique_key l b"
  by (simp add: breaks_unique_key_def)

lemma post_entry_runs:
  assumes "0 \<le> balance + signed_amount b" "\<not> breaks_unique_key l b"
  obtains e l' where "post_entry now b balance l = Inr ((e, balance + signed_amount b), l')"
    "le_booking e = b" "entries l' = entries l @ [e]"
proof -
  have "\<exists>e l'. post_entry now b balance l = Inr ((e, balance + signed_amount b), l')"
    using assms by (simp add: post_entry_def Let_def)
  then obtain e l' where run: "post_entry now b balance l = Inr ((e, balance + signed_amount b), l')" by blast
  from post_entry_Inr(4,5) [OF run] show thesis using that [OF run] by simp
qed

lemma book_entry_runs:
  assumes ok: "ledger_ok l" and b: "booking_ok (resolved tc b)" "bk_amount b > 0" and fresh: "fresh_keys l b"
    and funds: "0 \<le> wallet_balance (bk_team b) (bk_currency (resolved tc b)) l + signed_amount b"
  obtains e l' where
    "book_entry tc now [] rd b l =
       Inr ((e, wallet_balance (bk_team b) (bk_currency (resolved tc b)) l + signed_amount b), l')"
    "le_booking e = resolved tc b" "entries l' = entries l @ [e]" "ledger_ok l'"
    "\<And>t c. valid_currency c \<Longrightarrow> wallet_balance t c l' = wallet_balance t c l
       + (if t = bk_team b \<and> c = bk_currency (resolved tc b) then signed_amount b else 0)"
proof -
  let ?b = "resolved tc b" and ?c = "bk_currency (resolved tc b)"
  let ?l = "ensure_wallet (bk_team b) ?c l" and ?bal = "wallet_balance (bk_team b) ?c l"
  have c: "valid_currency ?c" using b(1) by (simp add: booking_ok_def)
  have signed: "signed_amount ?b = signed_amount b" by (simp add: signed_amount_def)
  have key: "\<not> breaks_unique_key ?l ?b" using fresh by (simp add: fresh_keys_def breaks_unique_key_def)
  from post_entry_runs [OF _ key, of ?bal now] funds signed obtain e l' where
    P: "post_entry now ?b ?bal ?l = Inr ((e, ?bal + signed_amount b), l')"
      "le_booking e = ?b" "entries l' = entries ?l @ [e]" by metis
  have run: "book_entry tc now [] rd b l = Inr ((e, ?bal + signed_amount b), l')"
    using P(1) fresh_keys_payment [OF fresh]
    by (simp add: book_entry_plain [OF b(2)] book_entry_once_eq [OF ok c])
  have "wallet_balance t d l' = wallet_balance t d l
       + (if t = bk_team b \<and> d = ?c then signed_amount b else 0)" if "valid_currency d" for t d
    using post_entry_balance [OF b(1) that _ P(1), of t] by simp
  moreover have "ledger_ok l'" by (rule book_entry_ok [OF ok _ b(1) run]) simp
  ultimately show thesis using that [OF run P(2)] P(3) by simp
qed

text \<open>
  Property C18: what one booking does. With a fresh key it either appends exactly one entry carrying
  the booking and moves exactly its own wallet by its signed amount, leaving every other wallet's
  balance, or it is refused as InsufficientCredits because the wallet would go below zero.
\<close>

theorem booking_effect:
  assumes "ledger_ok l" "booking_ok (resolved tc b)" "bk_amount b > 0" "fresh_keys l b"
  shows "let c = bk_currency (resolved tc b); new = wallet_balance (bk_team b) c l + signed_amount b in
    if new < 0 then book_entry tc now [] retry b l = Inl InsufficientCredits
    else \<exists>e l'. book_entry tc now [] retry b l = Inr ((e, new), l')
      \<and> entries l' = entries l @ [e] \<and> le_booking e = resolved tc b
      \<and> (\<forall>t d. valid_currency d \<longrightarrow> wallet_balance t d l' =
           (if t = bk_team b \<and> d = c then new else wallet_balance t d l))"
proof (cases "wallet_balance (bk_team b) (bk_currency (resolved tc b)) l + signed_amount b < 0")
  case True
  have c: "valid_currency (bk_currency (resolved tc b))" using assms(2) by (simp add: booking_ok_def)
  have "signed_amount (resolved tc b) = signed_amount b" by (simp add: signed_amount_def)
  with True show ?thesis
    by (simp add: book_entry_plain [OF assms(3)] book_entry_once_eq [OF assms(1) c]
        fresh_keys_payment [OF assms(4)] post_entry_def Let_def)
next
  case False
  then have funds: "0 \<le> wallet_balance (bk_team b) (bk_currency (resolved tc b)) l + signed_amount b" by simp
  obtain e l' where R:
    "book_entry tc now [] retry b l =
       Inr ((e, wallet_balance (bk_team b) (bk_currency (resolved tc b)) l + signed_amount b), l')"
    "le_booking e = resolved tc b" "entries l' = entries l @ [e]"
    "\<And>t d. valid_currency d \<Longrightarrow> wallet_balance t d l' = wallet_balance t d l
       + (if t = bk_team b \<and> d = bk_currency (resolved tc b) then signed_amount b else 0)"
    by (rule book_entry_runs [OF assms funds, of now retry]) (rule that)
  show ?thesis unfolding Let_def if_not_P [OF False]
    by (rule exI [of _ e], rule exI [of _ l']) (simp add: R)
qed

theorem booking_effect_witness:
  "book_entry (\<lambda>_. ''INR'') 5 [] True (plain_booking ''t1'' ''Debit'' 600 [] None None None) example_ledger
     = Inl InsufficientCredits"
proof -
  let ?b = "plain_booking ''t1'' ''Debit'' 600 [] None None None"
  have r: "resolved (\<lambda>_. ''INR'') ?b = plain_booking ''t1'' ''Debit'' 600 ''INR'' None None None"
    by (simp add: resolved_def plain_booking_def resolve_currency_def)
  have b: "booking_ok (resolved (\<lambda>_. ''INR'') ?b)" unfolding r
    by (simp add: booking_ok_def plain_booking_def valid_currency_def)
  have p: "bk_amount ?b > 0" by (simp add: plain_booking_def)
  have f: "fresh_keys example_ledger ?b"
    by (simp add: fresh_keys_def breaks_unique_key_iff plain_booking_def)
  show ?thesis
    using booking_effect [OF example_ledger_ok b p f, of 5 True] example_balance
    unfolding r by (simp add: plain_booking_def signed_amount_def Let_def)
qed

text \<open>
  A wallet deadlock is retried on the ledger the other transaction committed. Up to
  five deadlocks the booking is what one attempt on the last committed ledger gives; from six on,
  and at once for a booking made inside a larger transaction, the deadlock is raised and nothing
  is booked.
\<close>

theorem booking_survives_deadlocks:
  assumes "bk_amount b > 0"
  shows "book_entry tc now (map Deadlocks ls) True b l =
      (if length ls < 6 then book_entry tc now [] True b (last (l # ls)) else Inl QueryDeadlock)
    \<and> (ls \<noteq> [] \<longrightarrow> book_entry tc now (map Deadlocks ls) False b l = Inl QueryDeadlock)"
proof
  have one: "book_attempts now x True 6 [] m = book_entry_once now x m" for x m
    by (simp add: eval_nat_numeral)
  show "book_entry tc now (map Deadlocks ls) True b l =
      (if length ls < 6 then book_entry tc now [] True b (last (l # ls)) else Inl QueryDeadlock)"
    using assms book_attempts_deadlocks [of ls 6 now "resolved tc b" l]
      book_attempts_exhausted [of 6 ls now "resolved tc b" l]
    by (simp add: book_entry_def DEADLOCK_RETRIES_def one)
  show "ls \<noteq> [] \<longrightarrow> book_entry tc now (map Deadlocks ls) False b l = Inl QueryDeadlock"
    using assms by (cases ls) (simp_all add: book_entry_def DEADLOCK_RETRIES_def eval_nat_numeral)
qed

theorem booking_survives_deadlocks_witness:
  "book_entry (\<lambda>_. ''INR'') 5 (map Deadlocks (replicate 6 example_ledger)) True example_debit example_ledger
     = Inl QueryDeadlock
   \<and> book_entry (\<lambda>_. ''INR'') 5 (map Deadlocks (replicate 2 example_ledger)) True example_debit example_ledger
     = book_entry (\<lambda>_. ''INR'') 5 [] True example_debit example_ledger"
proof -
  have p: "bk_amount example_debit > 0" by (simp add: example_debit_def plain_booking_def)
  from booking_survives_deadlocks [OF p, of "\<lambda>_. ''INR''" 5 "replicate 6 example_ledger" example_ledger]
    booking_survives_deadlocks [OF p, of "\<lambda>_. ''INR''" 5 "replicate 2 example_ledger" example_ledger]
  show ?thesis by (simp add: eval_nat_numeral)
qed

end
