(* ===== verification/Top_Ups.thy ===== *)
theory Top_Ups
  imports Bookings
begin

text \<open>
  Top-ups (\<open>credits.purchase\<close> and the GST split around it): a captured payment is credited once
  whichever of the confirm callback, the poll and the webhook arrives first, and the money a
  customer paid is exactly the credit plus the GST kept for later invoices.
\<close>

section \<open>One credit per payment\<close>

lemma payment_entry_append:
  "payment_entry l pid = Some e \<Longrightarrow> entries l' = entries l @ es \<Longrightarrow> payment_entry l' pid = Some e"
  by (auto simp: payment_entry_def find_append split: if_splits)

lemma book_entry_once_records:
  assumes "ledger_ok l" "valid_currency (bk_currency b)" "truthy (bk_payment_id b)"
    and "book_entry_once now b l = Inr ((e, b'), l')"
  shows "payment_entry l' (bk_payment_id b) = Some e"
proof (cases "payment_entry l (bk_payment_id b)")
  case None
  with assms(4) have post: "post_entry now b (wallet_balance (bk_team b) (bk_currency b) l)
      (ensure_wallet (bk_team b) (bk_currency b) l) = Inr ((e, b'), l')"
    by (simp add: book_entry_once_eq [OF assms(1,2)])
  from None assms(3) show ?thesis
    by (simp add: payment_entry_def find_append post_entry_Inr(5) [OF post] post_entry_Inr(4) [OF post])
next
  case (Some x)
  with assms show ?thesis by (auto simp: book_entry_once_eq payment_entry_def)
qed

definition payment_key :: "purchase_request \<Rightarrow> string option" where
  "payment_key p = namespaced_payment_id (pr_gateway p) (pr_payment_id p)"

lemma payment_key_truthy: "truthy (pr_payment_id p) \<Longrightarrow> truthy (payment_key p)"
  by (simp add: payment_key_def namespaced_payment_id_def)

lemma purchase_booking_simps [simp]:
  "bk_team (purchase_booking p w g) = pr_team p" "bk_type (purchase_booking p w g) = ''Credit''"
  "bk_amount (purchase_booking p w g) = w" "bk_currency (purchase_booking p w g) = pr_currency p"
  "bk_payment_id (purchase_booking p w g) = payment_key p" "bk_tax (purchase_booking p w g) = g"
  by (simp_all add: purchase_booking_def payment_key_def)

definition purchase_currency :: "(string \<Rightarrow> string) \<Rightarrow> purchase_request \<Rightarrow> string" where
  "purchase_currency tc p = resolve_currency tc (pr_team p) (Some (pr_currency p))"

lemma resolved_purchase [simp]: "bk_currency (resolved tc (purchase_booking p w g)) = purchase_currency tc p"
  by (simp add: resolved_def purchase_currency_def)

text \<open>The ledger another transaction had committed when an attempt was refused.\<close>

fun committed_ledger :: "fate \<Rightarrow> ledger option" where
  "committed_ledger Runs = None"
| "committed_ledger (Deadlocks l) = Some l"
| "committed_ledger (Refused_duplicate l) = Some l"
| "committed_ledger (Refused_unique l) = Some l"

definition later_ledger :: "ledger \<Rightarrow> ledger \<Rightarrow> bool" where
  "later_ledger l l' \<longleftrightarrow> ledger_ok l' \<and> (\<exists>es. entries l' = entries l @ es)"

definition seen_ledgers :: "fate list \<Rightarrow> ledger \<Rightarrow> ledger set" where
  "seen_ledgers fates l = insert l (\<Union>f \<in> set fates. set_option (committed_ledger f))"

lemma seen_ledgers_simps: "seen_ledgers [] l = {l}" "seen_ledgers (f # fs) l = insert l (set_option (committed_ledger f) \<union> seen_ledgers fs l)"
  by (auto simp: seen_ledgers_def)

definition replayed :: "ledger_entry \<Rightarrow> fate list \<Rightarrow> ledger \<Rightarrow> error + (ledger_entry \<times> money) \<times> ledger \<Rightarrow> bool" where
  "replayed e fates l r \<longleftrightarrow> (case r of
     Inr ((e', b'), l') \<Rightarrow> e' = e \<and> (\<exists>s \<in> seen_ledgers fates l. entries l' = entries s \<and> (\<forall>t c. wallet_balance t c l' = wallet_balance t c s))
   | Inl err \<Rightarrow> err = UniqueValidation \<and> (\<exists>m. Refused_unique m \<in> set fates)
       \<or> err = QueryDeadlock \<and> DEADLOCK_RETRIES \<le> length (filter (\<lambda>f. \<exists>m. f = Deadlocks m) fates))"

lemma replay_once:
  assumes "ledger_ok l" "valid_currency (bk_currency b)" "payment_entry l (bk_payment_id b) = Some e"
  obtains b' l' where "book_entry_once now b l = Inr ((e, b'), l')" "entries l' = entries l"
    "\<forall>t c. wallet_balance t c l' = wallet_balance t c l"
  using assms by (simp add: book_entry_once_eq [OF assms(1,2)])

lemma book_attempts_replay:
  assumes "\<forall>m \<in> seen_ledgers fates l. ledger_ok m \<and> payment_entry m (bk_payment_id b) = Some e" "valid_currency (bk_currency b)"
  shows "(\<exists>b' l' s. book_attempts now b True n fates l = Inr ((e, b'), l') \<and> s \<in> seen_ledgers fates l
       \<and> entries l' = entries s \<and> (\<forall>t c. wallet_balance t c l' = wallet_balance t c s))
   \<or> book_attempts now b True n fates l = Inl UniqueValidation \<and> (\<exists>m. Refused_unique m \<in> set fates)
   \<or> book_attempts now b True n fates l = Inl QueryDeadlock \<and> n \<le> length (filter (\<lambda>f. \<exists>m. f = Deadlocks m) fates)"
  using assms(1)
proof (induction fates arbitrary: n l)
  case Nil
  then have here: "ledger_ok l" "payment_entry l (bk_payment_id b) = Some e" by (simp_all add: seen_ledgers_simps)
  obtain b' l' where "book_entry_once now b l = Inr ((e, b'), l')" "entries l' = entries l"
    "\<forall>t c. wallet_balance t c l' = wallet_balance t c l"
    by (rule replay_once [OF here(1) assms(2) here(2)])
  then show ?case by (cases n) (simp_all add: seen_ledgers_simps)
next
  case (Cons f fates)
  have here: "ledger_ok l" "payment_entry l (bk_payment_id b) = Some e" using Cons.prems by (simp_all add: seen_ledgers_simps)
  show ?case
  proof (cases n)
    case (Suc k)
    show ?thesis
    proof (cases f)
      case Runs
      obtain b' l' where "book_entry_once now b l = Inr ((e, b'), l')" "entries l' = entries l"
        "\<forall>t c. wallet_balance t c l' = wallet_balance t c l"
        by (rule replay_once [OF here(1) assms(2) here(2)])
      with Suc Runs show ?thesis by (intro disjI1 exI [of _ b'] exI [of _ l'] exI [of _ l]) (simp add: seen_ledgers_def)
    next
      case (Deadlocks m)
      with Cons.prems have "\<forall>m' \<in> seen_ledgers fates m. ledger_ok m' \<and> payment_entry m' (bk_payment_id b) = Some e"
        by (auto simp: seen_ledgers_def)
      note IH = Cons.IH [OF this, of k]
      have run: "book_attempts now b True n (f # fates) l = (if k = 0 then Inl QueryDeadlock else book_attempts now b True k fates m)"
        using Suc Deadlocks by simp
      have sub: "seen_ledgers fates m \<subseteq> seen_ledgers (f # fates) l" using Deadlocks by (auto simp: seen_ledgers_def)
      show ?thesis
      proof (cases k)
        case 0
        with Suc Deadlocks run show ?thesis by simp
      next
        case (Suc j)
        with run have run: "book_attempts now b True n (f # fates) l = book_attempts now b True k fates m" by simp
        show ?thesis unfolding run using IH sub Deadlocks \<open>n = Suc k\<close> by fastforce
      qed
    next
      case (Refused_duplicate m)
      with Cons.prems have "payment_entry m (bk_payment_id b) = Some e" by (simp add: seen_ledgers_def)
      with Suc Refused_duplicate show ?thesis
        by (intro disjI1 exI [of _ "case wallets m (wallet_name (le_team e) (le_currency e)) of Some w \<Rightarrow> w_balance w | None \<Rightarrow> 0"] exI [of _ m])
          (simp add: existing_payment_entry_def seen_ledgers_def)
    next
      case (Refused_unique m)
      with Suc show ?thesis by auto
    qed
  qed simp
qed

text \<open>
  Property C9: a captured payment is credited exactly once. After the first booking of a payment, any later booking of the
  same gateway payment, from any caller, with any amount, at any later state of the ledger and
  whatever its attempts meet (deadlocks, a lost insert reported as either unique error), books no
  second entry and moves no wallet. It returns the first entry, except that it raises when the lost
  insert surfaces as UniqueValidationError, or when six attempts have deadlocked.
\<close>

theorem payment_credited_once:
  assumes "ledger_ok l" "truthy (pr_payment_id p)" "valid_currency (purchase_currency tc p)"
    and "purchase r2 te tc now [] p l = Inr ((e, b), l1)"
    and "\<forall>m \<in> seen_ledgers fates l2. later_ledger l1 m"
    and "payment_key q = payment_key p" "truthy (pr_payment_id q)" "valid_currency (purchase_currency tc q)"
    and "top_up_split r2 te (pr_team q) (pr_amount q) (pr_credit q) = Inr (credit, gst)" "credit > 0"
  shows "replayed e fates l2 (purchase r2 te tc now' fates q l2)"
proof -
  from assms(2,4) obtain w g where
    run: "book_entry tc now [] True (purchase_booking p w g) l = Inr ((e, b), l1)"
    by (auto simp: purchase_def bindE_Inr)
  then have "bk_amount (purchase_booking p w g) > 0" by (auto simp: book_entry_def split: if_splits)
  with run have "book_entry_once now (resolved tc (purchase_booking p w g)) l = Inr ((e, b), l1)"
    by (simp add: book_entry_plain)
  from book_entry_once_records [OF assms(1) _ _ this] assms(2,3)
  have "payment_entry l1 (payment_key p) = Some e" by (simp add: payment_key_truthy)
  then have "payment_entry m (payment_key q) = Some e" if "later_ledger l1 m" for m
    using payment_entry_append that unfolding later_ledger_def assms(6) by blast
  with assms(5) have "\<forall>m \<in> seen_ledgers fates l2. ledger_ok m \<and> payment_entry m (bk_payment_id (resolved tc (purchase_booking q credit gst))) = Some e"
    by (auto simp: later_ledger_def)
  from book_attempts_replay [OF this, of now' DEADLOCK_RETRIES] assms(7-10)
  show ?thesis by (auto simp: purchase_def book_entry_def replayed_def)
qed

definition example_purchase :: purchase_request where
  "example_purchase = \<lparr>pr_team = ''t1'', pr_amount = 1180, pr_currency = ''INR'', pr_payment_method = None,
     pr_reference_name = None, pr_note = None, pr_payment_id = Some ''pay_2'', pr_gateway = Some ''Razorpay'',
     pr_credit = Some 1000\<rparr>"

lemma example_purchase_split: "top_up_split half_up te ''t1'' 1180 (Some 1000) = Inr (1000, 180)"
  by (simp add: top_up_split_def)

theorem payment_credited_once_witness:
  "\<exists>e b l1 b' l3. purchase half_up example_tax_env (\<lambda>_. ''INR'') 5 [] example_purchase example_ledger = Inr ((e, b), l1)
    \<and> purchase half_up example_tax_env (\<lambda>_. ''INR'') 6 [Deadlocks l1, Refused_duplicate l1]
        (example_purchase\<lparr>pr_note := Some ''webhook''\<rparr>) l1 = Inr ((e, b'), l3) \<and> entries l3 = entries l1"
proof -
  let ?tc = "\<lambda>_::string. ''INR''" and ?p = "example_purchase"
  have c: "valid_currency (purchase_currency ?tc ?p)"
    by (simp add: valid_currency_def purchase_currency_def resolve_currency_def example_purchase_def)
  have cq: "valid_currency (purchase_currency ?tc (?p\<lparr>pr_note := Some ''webhook''\<rparr>))"
    by (simp add: valid_currency_def purchase_currency_def resolve_currency_def example_purchase_def)
  have ok: "booking_ok (resolved ?tc (purchase_booking ?p 1000 180))" using c by (simp add: booking_ok_def)
  have pos: "bk_amount (purchase_booking ?p 1000 180) > 0" by simp
  have fresh: "fresh_keys example_ledger (purchase_booking ?p 1000 180)"
    by (simp add: fresh_keys_def breaks_unique_key_def example_ledger_simps example_purchase_def
        purchase_booking_def namespaced_payment_id_def)
  have funds: "0 \<le> wallet_balance (bk_team (purchase_booking ?p 1000 180))
      (bk_currency (resolved ?tc (purchase_booking ?p 1000 180))) example_ledger + signed_amount (purchase_booking ?p 1000 180)"
    using wallet_balance_nonneg [OF example_ledger_ok] by (simp add: signed_amount_def add_nonneg_nonneg)
  obtain e b l1 where book: "book_entry ?tc 5 [] True (purchase_booking ?p 1000 180) example_ledger = Inr ((e, b), l1)"
    and ok1: "ledger_ok l1"
    by (rule book_entry_runs [OF example_ledger_ok ok pos fresh funds, of 5 True])
  have run: "purchase half_up example_tax_env ?tc 5 [] ?p example_ledger = Inr ((e, b), l1)"
    using book by (simp add: purchase_def example_purchase_def example_purchase_split)
  have id: "truthy (pr_payment_id ?p)" by (simp add: example_purchase_def)
  have seen: "\<forall>m \<in> seen_ledgers [Deadlocks l1, Refused_duplicate l1] l1. later_ledger l1 m"
    using ok1 by (simp_all add: seen_ledgers_def later_ledger_def)
  have "replayed e [Deadlocks l1, Refused_duplicate l1] l1
      (purchase half_up example_tax_env ?tc 6 [Deadlocks l1, Refused_duplicate l1] (?p\<lparr>pr_note := Some ''webhook''\<rparr>) l1)"
    by (rule payment_credited_once [OF example_ledger_ok id c run seen, of _ 1000 180])
      (use cq in \<open>simp_all add: payment_key_def example_purchase_def example_purchase_split\<close>)
  then have "\<exists>b' l3. purchase half_up example_tax_env ?tc 6 [Deadlocks l1, Refused_duplicate l1] (?p\<lparr>pr_note := Some ''webhook''\<rparr>) l1
      = Inr ((e, b'), l3) \<and> entries l3 = entries l1"
    by (auto simp: replayed_def seen_ledgers_def DEADLOCK_RETRIES_def split: sum.splits prod.splits)
  with run show ?thesis by blast
qed

section \<open>Credit and GST\<close>

lemma top_up_gst_rate_nonneg:
  assumes "cents_rounding r2" "valid_tax_profiles te" "top_up_gst_rate r2 te team = Inr rate"
  shows "0 \<le> rate"
proof -
  from assms(3) obtain b where b: "resolve_tax r2 te team 100 = Inr b" and "rate = tb_output_tax_amount b / 100"
    by (auto simp: top_up_gst_rate_def bindE_Inr)
  moreover have "0 \<le> tb_output_tax_amount b" using resolve_tax_amounts [OF assms(2,1) _ b] by simp
  ultimately show ?thesis by simp
qed

lemma split_top_up_parts:
  assumes "cents_rounding r2" "is_cents paid" "0 \<le> paid" "0 \<le> rate"
    and "top_up_gst_rate r2 te team = Inr rate" "split_top_up r2 te team paid = Inr (credit, gst)"
  shows "credit + gst = paid \<and> 0 \<le> credit \<and> 0 \<le> gst"
proof -
  from assms(5,6) have c: "credit = r2 (paid / (1 + rate))" and g: "gst = r2 (paid - credit)"
    by (auto simp: split_top_up_def Let_def)
  have "is_cents (paid - credit)" using assms(1,2) c by (auto intro: is_cents_diff)
  then have g': "gst = paid - credit" using g cents_rounding_id [OF assms(1)] by simp
  have "paid / (1 + rate) \<le> paid / 1" by (rule divide_left_mono) (use assms(3,4) in simp_all)
  then have "credit \<le> paid" using c cents_rounding_le [OF assms(1,2)] by simp
  moreover have "0 \<le> credit" using c assms(3,4) cents_rounding_nonneg [OF assms(1)] by simp
  ultimately show ?thesis using g' by simp
qed

text \<open>
  A top-up never creates or loses money. However it is split, by the credit the order
  named or at today's rate, the wallet credit and the GST kept are non-negative and add up to what
  the customer paid, and splitting always succeeds.
\<close>

theorem top_up_split_conserves:
  assumes "cents_rounding r2" "valid_tax_profiles te" "is_cents paid" "0 \<le> paid"
    and "\<forall>x. ordered = Some x \<longrightarrow> is_cents x"
  shows "\<exists>credit gst. top_up_split r2 te team paid ordered = Inr (credit, gst)
    \<and> credit + gst = paid \<and> 0 \<le> credit \<and> 0 \<le> gst"
proof (cases "\<exists>x. ordered = Some x \<and> 0 < x \<and> x \<le> paid")
  case True
  then obtain x where x: "ordered = Some x" "0 < x" "x \<le> paid" by blast
  then have "r2 (paid - x) = paid - x" using assms by (auto intro: cents_rounding_id)
  with x show ?thesis by (simp add: top_up_split_def Let_def)
next
  case False
  then have split: "top_up_split r2 te team paid ordered = split_top_up r2 te team paid"
    by (auto simp: top_up_split_def Let_def split: option.splits)
  obtain block where "resolve_tax r2 te team 100 = Inr block"
    using resolve_tax_total [OF assms(2)] by blast
  then have rate: "top_up_gst_rate r2 te team = Inr (tb_output_tax_amount block / 100)"
    by (simp add: top_up_gst_rate_def)
  then obtain credit gst where "split_top_up r2 te team paid = Inr (credit, gst)"
    by (simp add: split_top_up_def Let_def)
  with split_top_up_parts [OF assms(1,3,4) top_up_gst_rate_nonneg [OF assms(1,2) rate] rate this] split
  show ?thesis by auto
qed

theorem top_up_split_conserves_witness:
  "\<exists>credit gst. top_up_split half_up example_tax_env ''t1'' 1180 None = Inr (credit, gst)
    \<and> credit + gst = 1180 \<and> 0 \<le> credit \<and> 0 \<le> gst"
  by (rule top_up_split_conserves [OF half_up_rounding]) (simp_all add: example_tax_simps)

lemma half_up_near: "half_up x - x \<le> 1 / 200" "- 1 / 200 < half_up x - x"
proof -
  have "of_int \<lfloor>x * 100 + 1 / 2\<rfloor> \<le> x * 100 + 1 / 2" by simp
  then show "half_up x - x \<le> 1 / 200" by (simp add: half_up_def field_simps)
  have "x * 100 + 1 / 2 < of_int \<lfloor>x * 100 + 1 / 2\<rfloor> + 1" by linarith
  then show "- 1 / 200 < half_up x - x" by (simp add: half_up_def field_simps)
qed

lemma half_up_unique:
  assumes "is_cents c" "- 1 / 200 \<le> y - c" "y - c < 1 / 200"
  shows "half_up y = c"
proof -
  from assms(1) obtain k :: int where k: "c = of_int k / 100" by (auto simp: is_cents_iff)
  have "\<lfloor>y * 100 + 1 / 2\<rfloor> = k" by (rule floor_unique) (use assms(2,3) k in \<open>simp_all add: field_simps\<close>)
  with k show ?thesis by (simp add: half_up_def)
qed

text \<open>
  Splitting inverts charging. A customer who asked for a credit and paid it with the
  GST on top (\<open>top_up_gst\<close>) is credited exactly what they asked for, even when the order's own
  credit is not known and the split is made at today's rate (rounding half up).
\<close>

theorem split_inverts_gst:
  assumes "valid_tax_profiles te" "is_cents credit" "top_up_gst half_up te team credit = Inr gst"
  shows "split_top_up half_up te team (credit + gst) = Inr (credit, gst)"
proof -
  from assms(3) obtain rate where rate: "top_up_gst_rate half_up te team = Inr rate"
    and gst: "gst = half_up (credit * rate)" by (auto simp: top_up_gst_def bindE_Inr)
  have pos: "0 \<le> rate" by (rule top_up_gst_rate_nonneg [OF half_up_rounding assms(1) rate])
  define d where "d = gst - credit * rate"
  have d: "- 1 / 200 < d" "d \<le> 1 / 200" unfolding d_def gst using half_up_near by auto
  have y: "(credit + gst) / (1 + rate) - credit = d / (1 + rate)"
    using pos by (simp add: d_def field_simps)
  have "half_up ((credit + gst) / (1 + rate)) = credit"
  proof (cases "rate = 0")
    case True
    then have "gst = 0" using gst by simp
    with True assms(2) show ?thesis by (simp add: half_up_id)
  next
    case False
    with pos have "0 < rate" by simp
    then have "d / (1 + rate) < 1 / 200" "- 1 / 200 \<le> d / (1 + rate)"
      using d by (simp_all add: field_simps)
    with y assms(2) show ?thesis by (intro half_up_unique) simp_all
  qed
  moreover have "half_up gst = gst" using gst half_up_rounding by (simp add: half_up_id)
  ultimately show ?thesis using rate by (simp add: split_top_up_def Let_def)
qed

theorem split_inverts_gst_witness:
  "split_top_up half_up example_tax_env ''t1'' (1000 + 180) = Inr (1000, 180)"
  by (rule split_inverts_gst) (simp_all add: example_tax_simps top_up_gst_def top_up_gst_rate_def)

end
