(* ===== verification/Credit_Expiry.thy ===== *)
theory Credit_Expiry
  imports Top_Ups "HOL-Library.Multiset"
begin

text \<open>
  Lots and expiry (\<open>credits.credit_lots\<close> and the sweep below it): the lots of a wallet are its
  credits with what the debits left of each, soonest expiry first; the sweep writes off what is
  left of the grants past their date, and nothing else.
\<close>

section \<open>Drawing debits from lots\<close>

abbreviation remaining_total :: "(ledger_entry \<times> money) list \<Rightarrow> money" where
  "remaining_total lots \<equiv> sum_list (map snd lots)"

lemma draw_lots_fst [simp]: "map fst (draw_lots u lots) = lots"
  by (induction lots arbitrary: u) (simp_all add: Let_def)

lemma draw_lots_length [simp]: "length (draw_lots u lots) = length lots"
  by (induction lots arbitrary: u) (simp_all add: Let_def)

lemma draw_lots_bounds:
  "\<forall>lot \<in> set lots. 0 \<le> le_amount lot \<Longrightarrow> 0 \<le> u \<Longrightarrow> (lot, r) \<in> set (draw_lots u lots)
   \<Longrightarrow> 0 \<le> r \<and> r \<le> le_amount lot"
proof (induction lots arbitrary: u)
  case (Cons x lots)
  then consider "lot = x" "r = le_amount x - min (le_amount x) u"
    | "(lot, r) \<in> set (draw_lots (u - min (le_amount x) u) lots)"
    by (auto simp: Let_def)
  then show ?case
  proof cases
    case 1
    then show ?thesis using Cons.prems by (auto simp: min_def)
  next
    case 2
    then show ?thesis by (intro Cons.IH [of "u - min (le_amount x) u"]) (use Cons.prems in auto)
  qed
qed simp

lemma draw_lots_spent:
  "le_amount lot \<le> u \<Longrightarrow> draw_lots u (lot # lots) = (lot, 0) # draw_lots (u - le_amount lot) lots"
  by (simp add: Let_def)

lemma draw_lots_zero: "\<forall>lot \<in> set lots. 0 \<le> le_amount lot \<Longrightarrow>
  draw_lots 0 lots = map (\<lambda>lot. (lot, le_amount lot)) lots"
  by (induction lots) (auto simp: Let_def)

lemma remaining_total_draw:
  "\<forall>lot \<in> set lots. 0 \<le> le_amount lot \<Longrightarrow> 0 \<le> u \<Longrightarrow> u \<le> sum_list (map le_amount lots)
   \<Longrightarrow> remaining_total (draw_lots u lots) = sum_list (map le_amount lots) - u"
proof (induction lots arbitrary: u)
  case (Cons lot lots)
  have "0 \<le> sum_list (map le_amount lots)" using Cons.prems(1) by (intro sum_list_nonneg_rat) auto
  then have "0 \<le> u - min (le_amount lot) u" "u - min (le_amount lot) u \<le> sum_list (map le_amount lots)"
    using Cons.prems by (auto simp: min_def)
  from Cons.IH [OF _ this] Cons.prems(1) show ?case by (simp add: Let_def)
qed simp

text \<open>A lot is touched only when every lot before it is spent.\<close>

lemma draw_lots_order:
  assumes "\<forall>lot \<in> set lots. 0 \<le> le_amount lot" "0 \<le> u" "i < j" "j < length lots"
    and "snd (draw_lots u lots ! i) > 0"
  shows "snd (draw_lots u lots ! j) = le_amount (lots ! j)"
  using assms
proof (induction lots arbitrary: u i j)
  case (Cons lot lots)
  have u': "0 \<le> u - min (le_amount lot) u" by simp
  obtain j' where j: "j = Suc j'" using Cons.prems(3) by (cases j) auto
  show ?case
  proof (cases i)
    case 0
    then have "u < le_amount lot" using Cons.prems(5) by (auto simp: Let_def min_def split: if_splits)
    then have "draw_lots u (lot # lots) ! j = map (\<lambda>lot. (lot, le_amount lot)) lots ! j'"
      using Cons.prems(1) j by (simp add: Let_def min_def draw_lots_zero)
    then show ?thesis using Cons.prems(4) j by simp
  next
    case (Suc i')
    then show ?thesis using Cons.IH [OF _ u', of i' j'] Cons.prems j by (simp add: Let_def)
  qed
qed simp

text \<open>Spending what is left of a prefix empties it and leaves the rest as it was.\<close>

lemma draw_lots_spend_prefix:
  assumes "\<forall>lot \<in> set (pre @ post). 0 \<le> le_amount lot" "0 \<le> u"
  shows "draw_lots (u + remaining_total (draw_lots u pre)) (pre @ post) =
    map (\<lambda>lot. (lot, 0)) pre @ drop (length pre) (draw_lots u (pre @ post))"
  using assms
proof (induction pre arbitrary: u)
  case (Cons lot pre)
  let ?u = "u - min (le_amount lot) u"
  have a: "0 \<le> le_amount lot" and rest: "\<forall>lot \<in> set (pre @ post). 0 \<le> le_amount lot"
    using Cons.prems(1) by auto
  have nn: "0 \<le> remaining_total (draw_lots ?u pre)"
    using draw_lots_bounds [of pre ?u] rest by (intro sum_list_nonneg_rat) auto
  have total: "u + remaining_total (draw_lots u (lot # pre)) = le_amount lot + ?u + remaining_total (draw_lots ?u pre)"
    by (simp add: Let_def)
  have "draw_lots (le_amount lot + ?u + remaining_total (draw_lots ?u pre)) (lot # (pre @ post)) =
      (lot, 0) # draw_lots (?u + remaining_total (draw_lots ?u pre)) (pre @ post)"
    by (subst draw_lots_spent) (use nn in \<open>simp_all add: add.assoc\<close>)
  then have "draw_lots (u + remaining_total (draw_lots u (lot # pre))) ((lot # pre) @ post) =
      (lot, 0) # draw_lots (?u + remaining_total (draw_lots ?u pre)) (pre @ post)"
    unfolding total append_Cons .
  also have "\<dots> = (lot, 0) # map (\<lambda>lot. (lot, 0)) pre @ drop (length pre) (draw_lots ?u (pre @ post))"
    using Cons.IH [OF rest, of ?u] by simp
  also have "\<dots> = map (\<lambda>lot. (lot, 0)) (lot # pre) @ drop (length (lot # pre)) (draw_lots u ((lot # pre) @ post))"
    by (simp add: Let_def)
  finally show ?case .
qed simp

section \<open>The lots of a wallet\<close>

lemma in_wallet_lots: "lot \<in> set (wallet_lots t c l) \<longleftrightarrow>
  lot \<in> set (entries l) \<and> in_wallet t c lot \<and> le_type lot = ''Credit''"
  by (auto simp: wallet_lots_def)

lemma wallet_lots_amounts: "ledger_ok l \<Longrightarrow> \<forall>lot \<in> set (wallet_lots t c l). 0 \<le> le_amount lot"
  by (fastforce simp: in_wallet_lots ledger_ok_def entry_ok_def)

lemma debits_total_nonneg: "ledger_ok l \<Longrightarrow> 0 \<le> debits_total t c l"
  unfolding debits_total_def sum_where_def
  by (rule sum_list_nonneg_rat) (fastforce simp: ledger_ok_def entry_ok_def)

lemma sum_wallet_lots:
  "sum_list (map le_amount (wallet_lots t c l)) =
     sum_where (\<lambda>e. in_wallet t c e \<and> le_type e = ''Credit'') le_amount (entries l)"
proof -
  have "sum_mset (mset (map le_amount (wallet_lots t c l))) = sum_mset (mset
      (map le_amount (filter (\<lambda>e. in_wallet t c e \<and> le_type e = ''Credit'') (entries l))))"
    by (simp add: wallet_lots_def)
  then show ?thesis by (simp only: sum_mset_sum_list sum_where_def)
qed

lemma credits_minus_debits:
  assumes "\<forall>e \<in> set es. le_type e \<in> {''Credit'', ''Debit''}"
  shows "sum_where (\<lambda>e. in_wallet t c e \<and> le_type e = ''Credit'') le_amount es
     - sum_where (\<lambda>e. in_wallet t c e \<and> le_type e = ''Debit'') le_amount es
     = sum_where (in_wallet t c) (\<lambda>e. signed_amount (le_booking e)) es"
  using assms by (induction es) (auto simp: signed_amount_def)

lemma lots_minus_debits:
  assumes "ledger_ok l" "valid_currency c"
  shows "sum_list (map le_amount (wallet_lots t c l)) - debits_total t c l = wallet_balance t c l"
proof -
  have "\<forall>e \<in> set (entries l). le_type e \<in> {''Credit'', ''Debit''}"
    using assms(1) by (auto simp: ledger_ok_def entry_ok_def)
  from credits_minus_debits [OF this] show ?thesis
    by (simp add: sum_wallet_lots debits_total_def wallet_balance_ledger [OF assms] ledger_balance_def)
qed

lemma credit_lots_total:
  assumes "ledger_ok l" "valid_currency c"
  shows "remaining_total (credit_lots t c l) = wallet_balance t c l"
  unfolding credit_lots_def
  using remaining_total_draw [OF wallet_lots_amounts debits_total_nonneg] lots_minus_debits [OF assms, of t]
    wallet_balance_nonneg [OF assms(1), of t c] assms(1) by simp

text \<open>
  The lots of a wallet account for its whole balance. They add up to it, none is below
  zero or above its grant, they come soonest expiry first, and a grant is touched only when every
  grant that expires before it is fully spent.
\<close>

theorem lots_account_for_balance:
  assumes "ledger_ok l" "valid_currency c"
  shows "sum_list (map snd (credit_lots t c l)) = wallet_balance t c l
    \<and> sorted (map (lot_key \<circ> fst) (credit_lots t c l))
    \<and> (\<forall>(lot, left) \<in> set (credit_lots t c l). 0 \<le> left \<and> left \<le> le_amount lot)
    \<and> (\<forall>i j. i < j \<longrightarrow> j < length (credit_lots t c l) \<longrightarrow> snd (credit_lots t c l ! i) > 0
         \<longrightarrow> snd (credit_lots t c l ! j) = le_amount (fst (credit_lots t c l ! j)))"
proof (intro conjI allI impI)
  note nn = wallet_lots_amounts [OF assms(1)] and d = debits_total_nonneg [OF assms(1)]
  show "sum_list (map snd (credit_lots t c l)) = wallet_balance t c l" by (rule credit_lots_total [OF assms])
  have keys: "map (lot_key \<circ> fst) (draw_lots u lots) = map lot_key lots" for u lots
    by (metis draw_lots_fst map_map)
  show "sorted (map (lot_key \<circ> fst) (credit_lots t c l))" by (simp add: credit_lots_def keys wallet_lots_def)
  show "\<forall>(lot, left) \<in> set (credit_lots t c l). 0 \<le> left \<and> left \<le> le_amount lot"
    using draw_lots_bounds [OF nn d] by (auto simp: credit_lots_def)
  fix i j assume ij: "i < j" "j < length (credit_lots t c l)" "snd (credit_lots t c l ! i) > 0"
  have "fst (draw_lots u lots ! j) = lots ! j" if "j < length lots" for u lots
    by (metis draw_lots_fst draw_lots_length nth_map that)
  with ij show "snd (credit_lots t c l ! j) = le_amount (fst (credit_lots t c l ! j))"
    using draw_lots_order [OF nn d, of i j] by (simp add: credit_lots_def)
qed

theorem lots_account_for_balance_witness:
  "sum_list (map snd (credit_lots ''t1'' ''INR'' example_ledger)) = 550
   \<and> sorted (map (lot_key \<circ> fst) (credit_lots ''t1'' ''INR'' example_ledger))"
  using lots_account_for_balance [OF example_ledger_ok, of "''INR''" "''t1''"] example_balance
  by (simp add: valid_currency_def)

section \<open>The sweep\<close>

definition past_date :: "date \<Rightarrow> ledger_entry \<times> money \<Rightarrow> bool" where
  "past_date on_date p \<longleftrightarrow> (case le_expires_on (fst p) of None \<Rightarrow> False | Some d \<Rightarrow> d \<le> on_date \<and> snd p > 0)"

definition debited :: "string \<Rightarrow> string \<Rightarrow> money \<Rightarrow> ledger \<Rightarrow> ledger \<Rightarrow> bool" where
  "debited t c amount l l' \<longleftrightarrow> ledger_ok l'
     \<and> filter (\<lambda>e. le_type e = ''Credit'') (entries l') = filter (\<lambda>e. le_type e = ''Credit'') (entries l)
     \<and> (\<forall>t' c'. debits_total t' c' l' = debits_total t' c' l + (if t' = t \<and> c' = c then amount else 0))
     \<and> (\<forall>t' c'. valid_currency c' \<longrightarrow>
          wallet_balance t' c' l' = wallet_balance t' c' l - (if t' = t \<and> c' = c then amount else 0))
     \<and> (\<forall>n. wallets l n \<noteq> None \<longrightarrow> wallets l' n \<noteq> None)"

lemma debited_refl: "ledger_ok l \<Longrightarrow> debited t c 0 l l"
  by (simp add: debited_def)

lemma debited_trans: "debited t c a l l' \<Longrightarrow> debited t c b l' l'' \<Longrightarrow> debited t c (a + b) l l''"
  by (auto simp: debited_def)

lemma debited_ensure: "ledger_ok l \<Longrightarrow> valid_currency c \<Longrightarrow> debited t c 0 l (ensure_wallet t c l)"
  by (auto simp: debited_def ensure_wallet_ok debits_total_def) (simp_all add: ensure_wallet_def)

lemma wallet_lots_credits:
  "filter (\<lambda>e. le_type e = ''Credit'') (entries l') = filter (\<lambda>e. le_type e = ''Credit'') (entries l)
   \<Longrightarrow> wallet_lots t c l' = wallet_lots t c l"
proof -
  have split: "filter (\<lambda>e. in_wallet t c e \<and> le_type e = ''Credit'') es =
      filter (in_wallet t c) (filter (\<lambda>e. le_type e = ''Credit'') es)" for es
    by (simp add: conj_commute)
  show "filter (\<lambda>e. le_type e = ''Credit'') (entries l') = filter (\<lambda>e. le_type e = ''Credit'') (entries l)
   \<Longrightarrow> wallet_lots t c l' = wallet_lots t c l"
    unfolding wallet_lots_def split by simp
qed

lemma debited_lots: "debited t c amount l l' \<Longrightarrow> wallet_lots t' c' l' = wallet_lots t' c' l"
  by (rule wallet_lots_credits) (simp add: debited_def)

lemma debited_credit_lots:
  "debited t c amount l l' \<Longrightarrow> \<not> (t' = t \<and> c' = c) \<or> amount = 0 \<Longrightarrow> credit_lots t' c' l' = credit_lots t' c' l"
  unfolding credit_lots_def by (subst debited_lots, assumption) (auto simp: debited_def)

lemma expiry_booking_simps [simp]:
  "bk_team (expiry_booking t c lot r) = t" "bk_currency (expiry_booking t c lot r) = c"
  "bk_type (expiry_booking t c lot r) = ''Debit''" "bk_amount (expiry_booking t c lot r) = r"
  "bk_payment_id (expiry_booking t c lot r) = None" "bk_fingerprint (expiry_booking t c lot r) = None"
  by (simp_all add: expiry_booking_def plain_booking_def)

lemma post_expiry:
  assumes ok: "ledger_ok l" and c: "valid_currency c" and w: "wallets l (wallet_name t c) \<noteq> None"
    and r: "0 < r" "r \<le> wallet_balance t c l"
  obtains e l' where "post_entry now (expiry_booking t c lot r) (wallet_balance t c l) l =
      Inr ((e, wallet_balance t c l - r), l')" "debited t c r l l'"
proof -
  let ?b = "expiry_booking t c lot r"
  have s: "signed_amount ?b = - r" by (simp add: signed_amount_def)
  have key: "\<not> breaks_unique_key l ?b" by (simp add: breaks_unique_key_iff)
  obtain e l' where P: "post_entry now ?b (wallet_balance t c l) l = Inr ((e, wallet_balance t c l + signed_amount ?b), l')"
    "le_booking e = ?b" "entries l' = entries l @ [e]"
    by (rule post_entry_runs [OF _ key, of "wallet_balance t c l" now]) (use r s that in simp_all)
  have b: "booking_ok ?b" using c by (simp add: booking_ok_def)
  have "ledger_ok l'" by (rule post_entry_ok [OF ok b _ _ _ P(1)]) (use r w in simp_all)
  moreover have "wallet_balance t' c' l' = wallet_balance t' c' l - (if t' = t \<and> c' = c then r else 0)"
    if "valid_currency c'" for t' c'
    using post_entry_balance [OF b that _ P(1), of t'] w s by simp
  moreover have "debits_total t' c' l' = debits_total t' c' l + (if t' = t \<and> c' = c then r else 0)" for t' c'
    using P(2,3) by (auto simp: debits_total_def in_wallet_def)
  ultimately have "debited t c r l l'"
    using P(2,3) post_entry_wallet_kept [OF P(1)] by (simp add: debited_def)
  with P(1) s show thesis by (intro that) simp_all
qed

lemma expire_loop_past_date:
  "sorted (map (lot_key \<circ> fst) lots) \<Longrightarrow>
   expire_loop now on_date t c lots b l = expire_loop now on_date t c (filter (past_date on_date) lots) b l"
proof (induction lots arbitrary: b l)
  case (Cons p lots)
  obtain lot r where p: "p = (lot, r)" by force
  from Cons.prems have sorted: "sorted (map (lot_key \<circ> fst) lots)"
    and le: "\<forall>q \<in> set lots. lot_key lot \<le> lot_key (fst q)" using p by (auto simp: comp_def)
  show ?case
  proof (cases "le_expires_on lot")
    case None
    then have "\<not> past_date on_date p" using p by (simp add: past_date_def)
    with None p Cons.IH [OF sorted] show ?thesis by simp
  next
    case (Some d)
    have later: "filter (past_date on_date) lots = []" if "on_date < d"
    proof -
      have "\<not> past_date on_date q" if "q \<in> set lots" for q
        using le that Some \<open>on_date < d\<close> by (fastforce simp: past_date_def lot_key_def split: option.splits)
      then show ?thesis by (simp add: filter_empty_conv)
    qed
    have "past_date on_date p \<longleftrightarrow> d \<le> on_date \<and> 0 < r" using p Some by (simp add: past_date_def)
    with p Some Cons.IH [OF sorted] later show ?thesis by auto
  qed
qed simp

lemma expire_loop_runs:
  assumes "ledger_ok l" "valid_currency c" "wallets l (wallet_name t c) \<noteq> None"
    and "\<forall>p \<in> set lots. past_date on_date p" "remaining_total lots \<le> wallet_balance t c l"
  shows "\<exists>xs l'. expire_loop now on_date t c lots (wallet_balance t c l) l = Inr (xs, l')
    \<and> map (\<lambda>x. (ex_grant x, ex_amount x)) xs = map (\<lambda>(lot, r). (le_name lot, r)) lots
    \<and> debited t c (remaining_total lots) l l'"
  using assms
proof (induction lots arbitrary: l)
  case Nil
  then show ?case by (simp add: debited_refl)
next
  case (Cons p lots)
  obtain lot r where p: "p = (lot, r)" by force
  from Cons.prems(4) p obtain d where d: "le_expires_on lot = Some d" "d \<le> on_date" "0 < r"
    by (auto simp: past_date_def split: option.splits)
  have rest: "0 \<le> remaining_total lots" using Cons.prems(4)
    by (intro sum_list_nonneg_rat) (auto simp: past_date_def split: option.splits)
  then have "r \<le> wallet_balance t c l" using Cons.prems(5) p by simp
  from post_expiry [OF Cons.prems(1-3) d(3) this, of now lot] obtain e l1 where
    post: "post_entry now (expiry_booking t c lot r) (wallet_balance t c l) l = Inr ((e, wallet_balance t c l - r), l1)"
    and deb: "debited t c r l l1" by blast
  have bal: "wallet_balance t c l - r = wallet_balance t c l1" using deb Cons.prems(2) by (simp add: debited_def)
  have "ledger_ok l1" "wallets l1 (wallet_name t c) \<noteq> None" using deb Cons.prems(3) by (simp_all add: debited_def)
  from Cons.IH [OF this(1) Cons.prems(2) this(2)] Cons.prems(4,5) p bal obtain xs l2 where
    "expire_loop now on_date t c lots (wallet_balance t c l1) l1 = Inr (xs, l2)"
    "map (\<lambda>x. (ex_grant x, ex_amount x)) xs = map (\<lambda>(lot, r). (le_name lot, r)) lots"
    "debited t c (remaining_total lots) l1 l2" by auto
  then show ?case using p d post bal debited_trans [OF deb] by auto
qed

definition written_off :: "date \<Rightarrow> ledger_entry \<times> money \<Rightarrow> ledger_entry \<times> money" where
  "written_off on_date p = (if past_date on_date p then (fst p, 0) else p)"

lemma draw_lots_append:
  "draw_lots u (pre @ post) = draw_lots u pre @ drop (length pre) (draw_lots u (pre @ post))"
  by (induction pre arbitrary: u) (simp_all add: Let_def)

text \<open>Debiting what is past its date writes off exactly those grants.\<close>

lemma draw_lots_written_off:
  assumes "sorted (map lot_key lots)" "on_date < DATE_MAX" "\<forall>lot \<in> set lots. 0 \<le> le_amount lot" "0 \<le> u"
  shows "draw_lots (u + remaining_total (filter (past_date on_date) (draw_lots u lots))) lots
    = map (written_off on_date) (draw_lots u lots)"
proof -
  define pre where "pre = takeWhile (\<lambda>e. lot_key e \<le> on_date) lots"
  define post where "post = dropWhile (\<lambda>e. lot_key e \<le> on_date) lots"
  define tail where "tail = drop (length pre) (draw_lots u lots)"
  have lots: "lots = pre @ post" by (simp add: pre_def post_def)
  have draw: "draw_lots u lots = draw_lots u pre @ tail"
    using draw_lots_append [of u pre post] by (simp add: tail_def lots)
  have early: "lot_key e \<le> on_date" if "e \<in> set pre" for e using that by (auto simp: pre_def dest: set_takeWhileD)
  have late: "on_date < lot_key e" if "e \<in> set post" for e
  proof -
    from that have "post \<noteq> []" by auto
    then have "\<not> lot_key (hd post) \<le> on_date" unfolding post_def by (rule hd_dropWhile)
    moreover have "sorted (map lot_key post)" using assms(1) lots by (simp add: sorted_append)
    then have "lot_key (hd post) \<le> lot_key e" using that by (cases post) auto
    ultimately show ?thesis by simp
  qed
  have pre_past: "past_date on_date q \<longleftrightarrow> snd q > 0" if "fst q \<in> set pre" for q
    using early [OF that] assms(2) by (auto simp: past_date_def lot_key_def split: option.splits)
  have "map fst (draw_lots u pre @ tail) = pre @ post" 
    using draw_lots_fst [of u lots] by (simp flip: draw lots)
  then have tail_fst: "map fst tail = post" by simp
  have tail_past: "\<not> past_date on_date q" if "q \<in> set tail" for q
  proof -
    have "fst q \<in> set post" using that tail_fst by (metis image_eqI set_map)
    from late [OF this] show ?thesis by (auto simp: past_date_def lot_key_def split: option.splits)
  qed
  have in_pre: "fst q \<in> set pre \<and> 0 \<le> snd q" if "q \<in> set (draw_lots u pre)" for q
  proof
    show "fst q \<in> set pre" using that draw_lots_fst [of u pre] by (metis image_eqI set_map)
    show "0 \<le> snd q" using draw_lots_bounds [of pre u "fst q" "snd q"] that assms(3,4) lots by simp
  qed
  have "remaining_total (filter (past_date on_date) ps) = remaining_total ps"
    if "\<forall>q \<in> set ps. fst q \<in> set pre \<and> 0 \<le> snd q" for ps :: "(ledger_entry \<times> money) list"
    using that by (induction ps) (auto simp: pre_past)
  with in_pre have "remaining_total (filter (past_date on_date) (draw_lots u pre)) = remaining_total (draw_lots u pre)"
    by blast
  moreover have "filter (past_date on_date) tail = []" using tail_past by (simp add: filter_empty_conv)
  ultimately have "remaining_total (filter (past_date on_date) (draw_lots u lots)) = remaining_total (draw_lots u pre)"
    by (simp add: draw)
  moreover have "draw_lots (u + remaining_total (draw_lots u pre)) lots = map (\<lambda>lot. (lot, 0)) pre @ tail"
    using draw_lots_spend_prefix [of pre post u] assms(3,4) unfolding lots [symmetric] tail_def [symmetric] by blast
  ultimately have "draw_lots (u + remaining_total (filter (past_date on_date) (draw_lots u lots))) lots
      = map (\<lambda>lot. (lot, 0)) pre @ tail" by simp
  also have "\<dots> = map (written_off on_date) (draw_lots u lots)"
  proof -
    have "map (written_off on_date) tail = tail" using tail_past by (simp add: written_off_def map_idI)
    moreover have "map (written_off on_date) (draw_lots u pre) = map (\<lambda>q. (fst q, 0)) (draw_lots u pre)"
      using in_pre pre_past by (fastforce simp: written_off_def prod_eq_iff intro: antisym)
    moreover have "\<dots> = map (\<lambda>lot. (lot, 0)) (map fst (draw_lots u pre))"
      by (simp only: map_map comp_def)
    ultimately show ?thesis by (simp add: draw)
  qed
  finally show ?thesis .
qed

lemma past_total_le:
  "\<forall>p \<in> set lots. 0 \<le> snd p \<Longrightarrow> remaining_total (filter P lots) \<le> remaining_total lots"
  by (induction lots) auto

definition swept :: "date \<Rightarrow> string \<Rightarrow> string \<Rightarrow> ledger \<Rightarrow> (ledger_entry \<times> money) list" where
  "swept on_date t c l = filter (past_date on_date) (credit_lots t c l)"

lemma expire_credits_plain: "expire_credits now [] t c d l = expire_credits_once now t c d l"
  by (simp add: expire_credits_def DEADLOCK_RETRIES_def eval_nat_numeral)

lemma credit_lots_facts:
  assumes "ledger_ok l" "valid_currency c"
  shows "sorted (map (lot_key \<circ> fst) (credit_lots t c l))" "\<forall>p \<in> set (credit_lots t c l). 0 \<le> snd p"
    "remaining_total (swept on_date t c l) \<le> wallet_balance t c l" "0 \<le> remaining_total (swept on_date t c l)"
proof -
  have keys: "map (lot_key \<circ> fst) (draw_lots u lots) = map lot_key lots" for u lots
    by (metis draw_lots_fst map_map)
  then show "sorted (map (lot_key \<circ> fst) (credit_lots t c l))"
    by (simp add: credit_lots_def wallet_lots_def)
  show nn: "\<forall>p \<in> set (credit_lots t c l). 0 \<le> snd p"
    using draw_lots_bounds [OF wallet_lots_amounts [OF assms(1)] debits_total_nonneg [OF assms(1)]]
    by (force simp: credit_lots_def)
  then show "remaining_total (swept on_date t c l) \<le> wallet_balance t c l"
    using past_total_le [OF nn] credit_lots_total [OF assms, of t] by (simp add: swept_def)
  show "0 \<le> remaining_total (swept on_date t c l)"
    using nn by (intro sum_list_nonneg_rat) (simp add: swept_def)
qed

lemma expire_credits_runs:
  assumes ok: "ledger_ok l" and c: "valid_currency c"
  obtains xs l' where "expire_credits now [] t c on_date l = Inr (xs, l')"
    "map (\<lambda>x. (ex_grant x, ex_amount x)) xs = map (\<lambda>(lot, r). (le_name lot, r)) (swept on_date t c l)"
    "debited t c (remaining_total (swept on_date t c l)) l l'" "wallets l' (wallet_name t c) \<noteq> None"
proof -
  let ?l = "ensure_wallet t c l"
  have ok': "ledger_ok ?l" by (rule ensure_wallet_ok [OF ok c])
  have deb0: "debited t c 0 l ?l" by (rule debited_ensure [OF ok c])
  have lots: "credit_lots t c ?l = credit_lots t c l" by (rule debited_credit_lots [OF deb0]) simp
  note facts = credit_lots_facts [OF ok c, where t = t]
  have le: "remaining_total (swept on_date t c l) \<le> wallet_balance t c ?l" using facts(3) by simp
  have "\<forall>p \<in> set (swept on_date t c l). past_date on_date p" by (simp add: swept_def)
  from expire_loop_runs [OF ok' c ensure_wallet_exists this le, of now] obtain xs l' where R:
    "expire_loop now on_date t c (swept on_date t c l) (wallet_balance t c ?l) ?l = Inr (xs, l')"
    "map (\<lambda>x. (ex_grant x, ex_amount x)) xs = map (\<lambda>(lot, r). (le_name lot, r)) (swept on_date t c l)"
    "debited t c (remaining_total (swept on_date t c l)) ?l l'" by blast
  have "expire_credits now [] t c on_date l = Inr (xs, l')"
    using R(1) lock_and_read_ok [OF ok', of t c] expire_loop_past_date [OF facts(1)]
    by (simp add: expire_credits_plain expire_credits_once_def Let_def lots swept_def)
  moreover from debited_trans [OF deb0 R(3)]
  have "debited t c (remaining_total (swept on_date t c l)) l l'" by simp
  moreover have "wallets l' (wallet_name t c) \<noteq> None"
    using R(3) ensure_wallet_exists unfolding debited_def by blast
  ultimately show thesis using that R(2) by blast
qed

lemma debited_written_off:
  assumes ok: "ledger_ok l" and max: "on_date < DATE_MAX"
    and deb: "debited t c (remaining_total (swept on_date t c l)) l l'"
  shows "credit_lots t c l' = map (written_off on_date) (credit_lots t c l)" "swept on_date t c l' = []"
proof -
  have "wallet_lots t c l' = wallet_lots t c l" by (rule debited_lots [OF deb])
  moreover have "debits_total t c l' = debits_total t c l + remaining_total (swept on_date t c l)"
    using deb by (simp add: debited_def)
  moreover have "sorted (map lot_key (wallet_lots t c l))" by (simp add: wallet_lots_def)
  ultimately show lots: "credit_lots t c l' = map (written_off on_date) (credit_lots t c l)"
    using draw_lots_written_off [OF _ max wallet_lots_amounts [OF ok] debits_total_nonneg [OF ok]]
    by (simp add: credit_lots_def swept_def)
  have "\<not> past_date on_date (written_off on_date p)" for p
    by (auto simp: written_off_def past_date_def split: option.splits)
  then show "swept on_date t c l' = []" by (simp add: swept_def lots filter_empty_conv)
qed

lemma expire_credits_nothing:
  assumes "ledger_ok l" "valid_currency c" "wallets l (wallet_name t c) \<noteq> None" "swept on_date t c l = []"
  shows "expire_credits now [] t c on_date l = Inr ([], l)"
  using lock_and_read_ok [OF assms(1), of t c] assms(4)
    expire_loop_past_date [OF credit_lots_facts(1) [OF assms(1,2)]]
  by (simp add: expire_credits_plain expire_credits_once_def ensure_wallet_id [OF assms(3)] swept_def Let_def)


lemma example_credit_lots:
  "credit_lots ''t1'' ''INR'' example_ledger = [(example_grant, 50), (example_top_up, 500)]"
  by (simp add: credit_lots_def wallet_lots_def debits_total_def in_wallet_def lot_key_def DATE_MAX_def
      example_ledger_simps Let_def)


section \<open>The daily job\<close>

lemma swept_past_entry:
  assumes "swept on_date t c l \<noteq> []"
  shows "(t, c) \<in> set (expired_scopes on_date l)"
proof -
  from assms obtain lot r where p: "(lot, r) \<in> set (credit_lots t c l)" "past_date on_date (lot, r)"
    by (auto simp: swept_def filter_empty_conv)
  have "lot \<in> set (map fst (credit_lots t c l))" using p(1) by force
  then have "lot \<in> set (wallet_lots t c l)" by (simp add: credit_lots_def)
  then have "lot \<in> set (entries l)" "le_team lot = t" "le_currency lot = c" "le_type lot = ''Credit''"
    by (auto simp: in_wallet_lots in_wallet_def)
  with p(2) show ?thesis by (force simp: expired_scopes_def past_date_def split: option.splits)
qed

lemma swept_unfunded:
  assumes "ledger_ok l" "valid_currency c" "wallet_balance t c l \<le> 0"
  shows "swept on_date t c l = []"
proof (rule ccontr)
  assume ne: "swept on_date t c l \<noteq> []"
  have "\<forall>p \<in> set (swept on_date t c l). 0 < snd p"
    by (auto simp: swept_def past_date_def split: option.splits)
  moreover obtain p ps where sw: "swept on_date t c l = p # ps" using ne by (auto simp: neq_Nil_conv)
  ultimately have "0 < snd p" "0 \<le> remaining_total ps"
    by (auto intro!: sum_list_nonneg_rat simp: less_imp_le)
  then have "0 < remaining_total (swept on_date t c l)" by (simp add: sw)
  with credit_lots_facts(3) [OF assms(1,2), of on_date t] assms(3) show False by simp
qed

lemma expire_wallets_clears:
  assumes "ledger_ok l" "\<forall>(t, c) \<in> set scopes. valid_currency c" "on_date < DATE_MAX"
    and "expire_wallets now on_date scopes l = (xs, l')"
  shows "ledger_ok l' \<and> (\<forall>t c. swept on_date t c l' = [] \<or> (t, c) \<notin> set scopes \<and> swept on_date t c l' = swept on_date t c l)"
  using assms
proof (induction scopes arbitrary: l xs)
  case (Cons s scopes)
  obtain t c where s: "s = (t, c)" by force
  have c: "valid_currency c" using Cons.prems(2) s by auto
  obtain ys l1 where R: "expire_credits now [] t c on_date l = Inr (ys, l1)"
    and deb: "debited t c (remaining_total (swept on_date t c l)) l l1"
    by (rule expire_credits_runs [OF Cons.prems(1) c])
  obtain zs where rest: "expire_wallets now on_date scopes l1 = (zs, l')"
    using Cons.prems(4) s R by (auto simp: split_beta Let_def prod_eq_iff)
  have ok1: "ledger_ok l1" using deb by (simp add: debited_def)
  have here: "swept on_date t c l1 = []" by (rule debited_written_off(2) [OF Cons.prems(1,3) deb])
  have other: "swept on_date t' c' l1 = swept on_date t' c' l" if "(t', c') \<noteq> (t, c)" for t' c'
    using debited_credit_lots [OF deb, of t' c'] that by (auto simp: swept_def)
  from Cons.IH [OF ok1 _ Cons.prems(3) rest] Cons.prems(2) have
    IH: "ledger_ok l'" "\<And>t' c'. swept on_date t' c' l' = [] \<or>
       (t', c') \<notin> set scopes \<and> swept on_date t' c' l' = swept on_date t' c' l1" by auto
  show ?case
  proof (intro conjI allI)
    fix t' c'
    show "swept on_date t' c' l' = [] \<or> (t', c') \<notin> set (s # scopes) \<and> swept on_date t' c' l' = swept on_date t' c' l"
      using IH(2) [of t' c'] here other [of t' c'] s by (cases "(t', c') = (t, c)") auto
  qed (rule IH(1))
qed simp

text \<open>
  After the daily expiry job no wallet of any team holds unspent promotional credit
  past its date, although the job visits only the wallets with an expired grant and a balance, and
  the ledger is still sound.
\<close>

theorem daily_expiry_leaves_nothing_expired:
  assumes "ledger_ok l" "on_date < DATE_MAX" "run_credit_expiry now on_date l = (counts, l')"
  shows "ledger_ok l' \<and> (\<forall>team currency. valid_currency currency \<longrightarrow>
    (\<forall>(lot, left) \<in> set (credit_lots team currency l'). \<not> past_date on_date (lot, left)))"
proof -
  let ?funded = "filter (\<lambda>(team, currency). case wallets l (wallet_name team currency) of
      None \<Rightarrow> False | Some w \<Rightarrow> w_balance w > 0) (expired_scopes on_date l)"
  from assms(3) obtain xs where run: "expire_wallets now on_date ?funded l = (xs, l')"
    by (auto simp: run_credit_expiry_def Let_def split_beta prod_eq_iff)
  have valid: "valid_currency c" if "(t, c) \<in> set (expired_scopes on_date l)" for t c
    using assms(1) that by (auto simp: expired_scopes_def ledger_ok_def entry_ok_def)
  then have "\<forall>(t, c) \<in> set ?funded. valid_currency c" by auto
  from expire_wallets_clears [OF assms(1) this assms(2) run] have
    ok: "ledger_ok l'" and cleared: "\<And>t c. swept on_date t c l' = [] \<or>
      (t, c) \<notin> set ?funded \<and> swept on_date t c l' = swept on_date t c l" by auto
  have "swept on_date t c l' = []" if c: "valid_currency c" for t c
  proof (rule ccontr)
    assume "swept on_date t c l' \<noteq> []"
    with cleared [of t c] have nf: "(t, c) \<notin> set ?funded" and ne: "swept on_date t c l \<noteq> []" by auto
    from swept_past_entry [OF ne] nf have "wallet_balance t c l \<le> 0"
      by (auto simp: wallet_balance_def split: option.splits)
    with swept_unfunded [OF assms(1) c] ne show False by simp
  qed
  with ok show ?thesis by (auto simp: swept_def filter_empty_conv)
qed

theorem daily_expiry_leaves_nothing_expired_witness:
  "\<exists>counts l'. run_credit_expiry 9 739001 example_ledger = (counts, l') \<and> ledger_ok l'"
proof -
  obtain counts l' where run: "run_credit_expiry 9 739001 example_ledger = (counts, l')"
    by (rule prod.exhaust)
  have d: "739001 < DATE_MAX" by (simp add: DATE_MAX_def)
  from daily_expiry_leaves_nothing_expired [OF example_ledger_ok d run] run show ?thesis by blast
qed

section \<open>Every ledger the program can reach\<close>

inductive ledger_step :: "ledger \<Rightarrow> ledger \<Rightarrow> bool" where
  locked: "lock_team_wallet tc team currency l = Inr (b, l')
     \<Longrightarrow> valid_currency (resolve_currency tc team currency) \<Longrightarrow> ledger_step l l'"
| booked: "book_entry tc now fates retry b l = Inr (r, l') \<Longrightarrow> list_all committed_ok fates
     \<Longrightarrow> booking_ok (resolved tc b) \<Longrightarrow> ledger_step l l'"
| expired: "expire_credits now [] team currency on_date l = Inr (xs, l') \<Longrightarrow> valid_currency currency
     \<Longrightarrow> ledger_step l l'"

inductive_cases ledger_stepE: "ledger_step l l'"

lemma ledger_step_ok: "ledger_step l l' \<Longrightarrow> ledger_ok l \<Longrightarrow> ledger_ok l'"
proof (induction rule: ledger_step.induct)
  case (locked tc team currency l b l')
  then show ?case by (auto simp: lock_team_wallet_def Let_def bindE_Inr ensure_wallet_ok)
next
  case (booked tc now fates retry b l r l')
  then show ?case by (cases r) (auto intro: book_entry_ok)
next
  case (expired now team currency on_date l xs l')
  from expire_credits_runs [OF expired.prems expired.hyps(2), of now team on_date] expired.hyps(1)
  show ?case by (auto simp: debited_def)
qed

text \<open>
  Property C2: in every ledger that bookings, wallet locks and sweeps can reach from the empty one,
  whatever deadlocks and lost races happen on the way, each wallet's balance is the sum of its
  ledger and never negative, no booking is ever held up by a drift, and each gateway payment and
  each instrument is booked at most once.
\<close>

theorem reachable_ledger_sound:
  assumes "ledger_step\<^sup>*\<^sup>* empty_ledger l"
  shows "(\<forall>n w. wallets l n = Some w \<longrightarrow> 0 \<le> w_balance w
      \<and> w_balance w = ledger_balance (w_team w) (w_currency w) l
      \<and> lock_and_read_balance (w_team w) (w_currency w) l = Inr (w_balance w))
    \<and> distinct (filter (\<lambda>p. p \<noteq> None) (map le_payment_id (entries l)))
    \<and> distinct (filter (\<lambda>p. p \<noteq> None) (map le_fingerprint (entries l)))"
proof -
  from assms have ok: "ledger_ok l"
    by (induction rule: rtranclp_induct) (auto intro: empty_ledger_ok ledger_step_ok)
  have "0 \<le> w_balance w \<and> w_balance w = ledger_balance (w_team w) (w_currency w) l
      \<and> lock_and_read_balance (w_team w) (w_currency w) l = Inr (w_balance w)" if "wallets l n = Some w" for n w
    using ledger_ok_wallet [OF ok that] that
    by (simp add: wallet_ok_def lock_and_read_ok [OF ok] wallet_balance_def)
  moreover have "distinct (filter (\<lambda>p. p \<noteq> None) (map le_payment_id (entries l)))"
    "distinct (filter (\<lambda>p. p \<noteq> None) (map le_fingerprint (entries l)))"
    using ok unfolding ledger_ok_def unique_ids_def by blast+
  ultimately show ?thesis by blast
qed

theorem reachable_ledger_sound_witness:
  "\<exists>l w. ledger_step empty_ledger l \<and> wallets l ''t1-INR'' = Some w \<and> w_balance w = 0
    \<and> lock_and_read_balance (w_team w) (w_currency w) l = Inr (w_balance w)"
proof -
  let ?l = "ensure_wallet ''t1'' ''INR'' empty_ledger"
  let ?w = "\<lparr>w_team = ''t1'', w_currency = ''INR'', w_balance = 0, w_last_entry = None\<rparr>"
  have "lock_team_wallet (\<lambda>_. ''INR'') ''t1'' (Some ''INR'') empty_ledger = Inr (0, ?l)"
    by (simp add: lock_team_wallet_def resolve_currency_def ensure_wallet_def empty_ledger_def Let_def
        lock_and_read_balance_def refuse_drifted_wallet_def)
  then have step: "ledger_step empty_ledger ?l"
    by (rule ledger_step.locked) (simp add: resolve_currency_def valid_currency_def)
  have w: "wallets ?l ''t1-INR'' = Some ?w" by (simp add: ensure_wallet_def empty_ledger_def wallet_name_def)
  from step have "ledger_step\<^sup>*\<^sup>* empty_ledger ?l" by (rule r_into_rtranclp)
  note sound = reachable_ledger_sound [OF this, THEN conjunct1, rule_format, OF w]
  show ?thesis
    by (rule exI [of _ ?l], rule exI [of _ ?w]) (intro conjI step w sound [THEN conjunct2, THEN conjunct2], simp)
qed

end
