(* ===== verification/Declines.thy ===== *)
theory Declines
  imports Prelude
begin

text \<open>
  Which declines are final (\<open>payments/decline.py\<close>): the code classes, what may be retried, what
  the customer is told, and the failure columns a record keeps. Messages are kept as their
  untranslated text. Codes are ASCII, so \<open>str.lower\<close> is the ASCII one.
\<close>

section \<open>Codes\<close>

definition lower_char :: "char \<Rightarrow> char" where
  "lower_char c = (if 65 \<le> (of_char c :: nat) \<and> (of_char c :: nat) \<le> 90 then char_of ((of_char c :: nat) + 32) else c)"

definition lower :: "string \<Rightarrow> string" where
  "lower s = map lower_char s"

text \<open>\<open>(code or "").lower()\<close>\<close>

definition code_of :: "string option \<Rightarrow> string" where
  "code_of code = lower (or_else code '''')"

definition REQUEST_REFUSED :: string where "REQUEST_REFUSED = ''request_refused''"

definition TERMINAL_CODES :: "string list" where
  "TERMINAL_CODES = [''card_declined'', ''card_not_supported'', ''authentication_failed'', ''expired_card'',
     ''incorrect_number'', ''incorrect_cvc'', ''order_refused'', REQUEST_REFUSED]"

definition AMBIGUOUS_CODES :: "string list" where
  "AMBIGUOUS_CODES = [''processing'', ''processing_error'', ''timeout'', ''gateway_timeout'',
     ''authentication_abandoned'']"

definition MANDATE_CODES :: "string list" where
  "MANDATE_CODES = [''payment_intent_mandate_invalid'', ''india_recurring_payment_mandate_canceled'',
     ''transaction_not_approved'']"

definition HARD_CODES :: "string list" where
  "HARD_CODES = filter (\<lambda>code. code \<notin> set [''card_declined'', ''order_refused'']) TERMINAL_CODES"

definition HARD_DECLINE_CODES :: "string list" where
  "HARD_DECLINE_CODES = [''lost_card'', ''stolen_card'', ''pickup_card'', ''fraudulent'', ''restricted_card'',
     ''invalid_account'', ''do_not_try_again'', ''revocation_of_authorization'',
     ''revocation_of_all_authorizations'', ''merchant_blacklist'']"

definition is_mandate_failure :: "string option \<Rightarrow> bool" where
  "is_mandate_failure failure_code \<longleftrightarrow> code_of failure_code \<in> set MANDATE_CODES"

definition is_terminal :: "string option \<Rightarrow> bool" where
  "is_terminal failure_code \<longleftrightarrow>
     code_of failure_code \<in> set TERMINAL_CODES \<or> code_of failure_code \<in> set MANDATE_CODES"

definition is_retryable_later :: "string option \<Rightarrow> string option \<Rightarrow> bool" where
  "is_retryable_later failure_code decline_code =
     (let code = code_of failure_code; reason = code_of decline_code in
      if code \<in> set AMBIGUOUS_CODES \<or> code \<in> set HARD_CODES \<or> code \<in> set MANDATE_CODES then False
      else reason \<notin> set HARD_DECLINE_CODES \<and> reason \<notin> set HARD_CODES)"

section \<open>What the customer is told\<close>

definition CUSTOMER_REASON :: "(string \<times> string) list" where
  "CUSTOMER_REASON = [
     (''expired_card'', ''Your card has expired''),
     (''incorrect_number'', ''The card number was wrong''),
     (''incorrect_cvc'', ''The security code was wrong''),
     (''card_declined'', ''Your bank declined the payment''),
     (''insufficient_funds'', ''There wasn't enough balance''),
     (''card_not_supported'', ''Your bank doesn't allow this kind of payment''),
     (''authentication_failed'', ''The bank's verification step didn't complete''),
     (''do_not_honor'', ''Your bank declined the payment''),
     (''payment_intent_mandate_invalid'', ''Your auto-pay approval is no longer valid''),
     (''india_recurring_payment_mandate_canceled'', ''Your auto-pay approval was cancelled''),
     (''transaction_not_approved'', ''Your bank didn't approve the auto-payment''),
     (''check_unfinished'', ''The card check didn't finish'')]"

definition SETUP_REASON :: "(string \<times> string) list" where
  "SETUP_REASON = [(''card_declined'', ''Your bank declined the card''),
     (''do_not_honor'', ''Your bank declined the card'')]"

definition UNRESOLVED :: string where
  "UNRESOLVED = ''We're still confirming this payment with your bank''"

definition customer_reason :: "string option \<Rightarrow> string" where
  "customer_reason failure_code =
     (let code = code_of failure_code in
      if code \<in> set AMBIGUOUS_CODES then UNRESOLVED
      else case map_of CUSTOMER_REASON code of
        Some reason \<Rightarrow> reason
      | None \<Rightarrow> ''We couldn't complete this payment'')"

definition MANDATE_REFUSALS :: "string list" where
  "MANDATE_REFUSALS = [''signature_invalid'', ''order_mismatch'', ''payment_not_authorised'']"

definition setup_reason :: "string option \<Rightarrow> string \<Rightarrow> string" where
  "setup_reason code method_type =
     (let c = code_of code in
      case map_of SETUP_REASON c of
        Some reason \<Rightarrow> reason
      | None \<Rightarrow>
          if map_of CUSTOMER_REASON c \<noteq> None \<or> c \<in> set AMBIGUOUS_CODES then customer_reason (Some c)
          else if method_type = ''Card'' then ''We couldn't add this card''
          else ''We couldn't set up this payment method'')"

definition method_failure_message :: "string option \<Rightarrow> string option \<Rightarrow> string \<Rightarrow> string" where
  "method_failure_message failure_code decline_code method_type =
     (if failure_code \<in> Some ` set MANDATE_REFUSALS
      then ''The mandate authorisation could not be confirmed. Try adding it again.''
      else let code = (if map_of CUSTOMER_REASON (code_of decline_code) \<noteq> None then decline_code else failure_code)
      in setup_reason code method_type @
        (if method_type = ''Card'' then ''. Try another card, or add credit to your account instead.''
         else ''. Try again, or add credit to your account instead.''))"

section \<open>The failure a record keeps\<close>

record failure =
  fl_code :: "string option"
  fl_decline :: "string option"
  fl_reason :: "string option"

definition failure_fields :: "failure \<Rightarrow> failure" where
  "failure_fields f = \<lparr>fl_code = Some (or_else (fl_code f) ''payment_failed''), fl_decline = fl_decline f,
     fl_reason = (let r = take 140 (or_else (fl_reason f) '''') in if r = [] then None else Some r)\<rparr>"

section \<open>Lemmas\<close>

lemmas code_lists = TERMINAL_CODES_def AMBIGUOUS_CODES_def MANDATE_CODES_def HARD_CODES_def
  HARD_DECLINE_CODES_def REQUEST_REFUSED_def

lemma ambiguous_apart:
  assumes "c \<in> set AMBIGUOUS_CODES"
  shows "c \<notin> set TERMINAL_CODES" "c \<notin> set MANDATE_CODES" "map_of CUSTOMER_REASON c = None"
proof -
  have "list_all (\<lambda>c. c \<notin> set TERMINAL_CODES \<and> c \<notin> set MANDATE_CODES \<and> map_of CUSTOMER_REASON c = None) AMBIGUOUS_CODES"
    by (simp add: code_lists CUSTOMER_REASON_def)
  with assms show "c \<notin> set TERMINAL_CODES" "c \<notin> set MANDATE_CODES" "map_of CUSTOMER_REASON c = None"
    by (auto simp: list_all_iff)
qed

lemma hard_terminal: "c \<in> set HARD_CODES \<Longrightarrow> c \<in> set TERMINAL_CODES"
  by (simp add: HARD_CODES_def)

text \<open>
  A failure whose outcome is unknown is never treated as final. An ambiguous code, in
  any letter case, is neither terminal (so no other method is charged on top of it) nor retried on
  a later day, and the customer is told it is unresolved; a code nobody listed is not terminal.
\<close>

theorem unknown_outcome_never_final:
  "(code_of code \<in> set AMBIGUOUS_CODES \<longrightarrow>
      \<not> is_terminal code \<and> \<not> is_retryable_later code decline \<and> customer_reason code = UNRESOLVED)
   \<and> (code_of code \<notin> set (TERMINAL_CODES @ MANDATE_CODES) \<longrightarrow> \<not> is_terminal code)
   \<and> (is_retryable_later code decline \<longrightarrow> code_of code \<notin> set (AMBIGUOUS_CODES @ MANDATE_CODES)
        \<and> (is_terminal code \<longrightarrow> code_of code \<in> {''card_declined'', ''order_refused''}))"
  using ambiguous_apart [of "code_of code"]
  by (auto simp: is_terminal_def is_retryable_later_def customer_reason_def Let_def HARD_CODES_def split: if_splits)

theorem unknown_outcome_never_final_witness:
  "\<not> is_terminal (Some ''Gateway_Timeout'') \<and> customer_reason (Some ''Gateway_Timeout'') = UNRESOLVED"
proof -
  have "code_of (Some ''Gateway_Timeout'') \<in> set AMBIGUOUS_CODES" by code_simp
  with unknown_outcome_never_final [of "Some ''Gateway_Timeout''"] show ?thesis by blast
qed

end
