(* ===== verification/Dunning_Ladder.thy ===== *)
theory Dunning_Ladder
  imports Invoices
begin

text \<open>
  The dunning ladder (\<open>revenue/dunning.py\<close>), the part that is date arithmetic: the suspension date,
  the retry window, the retry and Overdue times, the dated schedule with its order of stages, and
  \<open>defer_dunning\<close>, which moves the ladder of one invoice forward.
\<close>

section \<open>Dates of the ladder\<close>

record window =
  wd_anchor :: date
  wd_retry_until :: date
  wd_suspends_on :: date
  wd_is_deferred :: bool

text \<open>One row of \<open>payment_attempt.get_charge_outcomes\<close>.\<close>

record charge_outcome =
  oc_first_failed_at :: "datetime option"
  oc_in_flight_since :: "datetime option"

record ladder_dates = window +
  ld_first_failed_at :: "datetime option"
  ld_in_flight_since :: "datetime option"
  ld_is_awaiting_charge :: bool

definition get_suspension_date_after :: "billing_settings \<Rightarrow> date \<Rightarrow> date \<Rightarrow> error + date" where
  "get_suspension_date_after s in_month retry_until =
     bindE (replace_day in_month (suspension_day s)) (\<lambda>on_suspension_day.
       if on_suspension_day > retry_until then Inr on_suspension_day
       else let gap = suspension_day s - 1 - invoice_due_days s in Inr (retry_until + max 1 gap))"

definition get_suspension_date :: "billing_settings \<Rightarrow> profiles \<Rightarrow> string \<Rightarrow> date \<Rightarrow> error + date" where
  "get_suspension_date s ps team opened_on =
     bindE (get_due_date s ps team opened_on) (\<lambda>due. get_suspension_date_after s opened_on due)"

definition check_ladder_fields :: "invoice \<Rightarrow> error + unit" where
  "check_ladder_fields iv =
     (if inv_due_date iv = None \<or> inv_payment_date iv = None \<or> inv_suspends_on iv = None
      then Inl (ValidationError ''open invoice without its ladder dates'') else Inr ())"

definition get_window_dates :: "invoice \<Rightarrow> error + window" where
  "get_window_dates iv = bindE (check_ladder_fields iv) (\<lambda>_.
     let due_date = the (inv_due_date iv);
         payment_date = the (inv_payment_date iv);
         anchor = (case inv_dunning_starts_on iv of Some d \<Rightarrow> d | None \<Rightarrow> payment_date);
         shift = max 0 (anchor - payment_date)
     in Inr \<lparr>wd_anchor = anchor, wd_retry_until = due_date + shift,
             wd_suspends_on = the (inv_suspends_on iv), wd_is_deferred = shift > 0\<rparr>)"

definition get_charge_facts :: "window \<Rightarrow> charge_outcome option \<Rightarrow> bool \<Rightarrow> ladder_dates" where
  "get_charge_facts w charge is_chargeable = (case charge of
     None \<Rightarrow> window.extend w \<lparr>ld_first_failed_at = None, ld_in_flight_since = None, ld_is_awaiting_charge = is_chargeable\<rparr>
   | Some c \<Rightarrow> window.extend w \<lparr>ld_first_failed_at = oc_first_failed_at c, ld_in_flight_since = oc_in_flight_since c,
       ld_is_awaiting_charge = (oc_in_flight_since c \<noteq> None \<or> oc_first_failed_at c = None)\<rparr>)"

definition get_opening_ladder_dates :: "billing_settings \<Rightarrow> profiles \<Rightarrow> string \<Rightarrow> date \<Rightarrow> error + ladder_dates" where
  "get_opening_ladder_dates s ps team opened_on =
     bindE (get_payment_date ps team opened_on) (\<lambda>anchor.
     bindE (get_due_date s ps team opened_on) (\<lambda>due.
     bindE (get_suspension_date s ps team opened_on) (\<lambda>susp.
       Inr \<lparr>wd_anchor = anchor, wd_retry_until = due, wd_suspends_on = susp, wd_is_deferred = False,
            ld_first_failed_at = None, ld_in_flight_since = None, ld_is_awaiting_charge = False\<rparr>)))"

text \<open>\<open>defer_dunning\<close> on the stored invoice, today being \<open>today\<close>; True when the anchor moved.\<close>

definition defer_dunning :: "date \<Rightarrow> invoice \<Rightarrow> error + bool \<times> invoice" where
  "defer_dunning today iv =
     (if \<not> is_issued iv then Inr (False, iv)
      else bindE (get_window_dates iv) (\<lambda>dates.
        if wd_anchor dates \<ge> today then Inr (False, iv)
        else let shift = today - wd_anchor dates
             in Inr (True, iv\<lparr>inv_dunning_starts_on := Some today,
                              inv_suspends_on := Some (wd_suspends_on dates + shift)\<rparr>)))"

section \<open>Retries and stages\<close>

text \<open>The \<open>while\<close> loop of \<open>get_interval_retry_dates\<close>, from a retry date on.\<close>

function retry_dates_from :: "int \<Rightarrow> date \<Rightarrow> date \<Rightarrow> date list" where
  "retry_dates_from interval retry_on retry_until =
     (if retry_on \<le> retry_until
      then retry_on # retry_dates_from interval (retry_on + max 1 interval) retry_until else [])"
  by pat_completeness auto
termination
  by (relation "measure (\<lambda>(interval, retry_on, retry_until). nat (retry_until - retry_on + 1))") auto

declare retry_dates_from.simps [simp del]

definition get_interval_retry_dates :: "'a window_scheme \<Rightarrow> int \<Rightarrow> date list" where
  "get_interval_retry_dates dates interval =
     (let interval = max 1 interval
      in retry_dates_from interval (wd_anchor dates + interval) (wd_retry_until dates))"

definition SINGLE_RETRY_HOURS :: int where "SINGLE_RETRY_HOURS = 24"

definition get_retry_times :: "ladder_dates \<Rightarrow> int \<Rightarrow> datetime list" where
  "get_retry_times dates interval =
     (let interval_dates = get_interval_retry_dates dates interval in
      if interval_dates \<noteq> [] then map at_midnight interval_dates
      else if ld_is_awaiting_charge dates then []
      else case ld_first_failed_at dates of
        Some t \<Rightarrow> [t + SINGLE_RETRY_HOURS * hour_us]
      | None \<Rightarrow> [at_midnight (wd_anchor dates + 1)])"

definition get_overdue_time :: "ladder_dates \<Rightarrow> datetime list \<Rightarrow> datetime" where
  "get_overdue_time dates retries =
     (let day_before_suspension = at_midnight (wd_suspends_on dates - 1) in
      if retries \<noteq> [] \<and> ld_in_flight_since dates = None then min (last retries) day_before_suspension
      else day_before_suspension)"

datatype stage = Retry | Overdue | Suspend | Terminate

definition stage_order :: "stage \<Rightarrow> int" where
  "stage_order s = (case s of Retry \<Rightarrow> 0 | Overdue \<Rightarrow> 1 | Suspend \<Rightarrow> 2 | Terminate \<Rightarrow> 3)"

instantiation stage :: linorder
begin

definition less_eq_stage :: "stage \<Rightarrow> stage \<Rightarrow> bool" where
  "less_eq_stage a b \<longleftrightarrow> stage_order a \<le> stage_order b"

definition less_stage :: "stage \<Rightarrow> stage \<Rightarrow> bool" where
  "less_stage a b \<longleftrightarrow> stage_order a < stage_order b"

instance
  by standard (auto simp: less_eq_stage_def less_stage_def stage_order_def split: stage.splits)

end

record stage_row =
  sg_stage :: stage
  sg_attempt :: "nat option"
  sg_at :: datetime
  sg_date :: date
  sg_day :: int

record dunning_policy =
  dp_retry_interval :: int
  dp_terminate_after :: int

definition policy_of :: "billing_settings \<Rightarrow> dunning_policy" where
  "policy_of s = \<lparr>dp_retry_interval = dunning_retry_interval_days s, dp_terminate_after = terminate_after_days s\<rparr>"

definition stage_row_at :: "date \<Rightarrow> stage \<Rightarrow> nat option \<Rightarrow> datetime \<Rightarrow> stage_row" where
  "stage_row_at anchor st attempt t = \<lparr>sg_stage = st, sg_attempt = attempt, sg_at = t, sg_date = dt_date t,
     sg_day = dt_date t - anchor\<rparr>"

definition dunning_schedule :: "ladder_dates \<Rightarrow> dunning_policy \<Rightarrow> stage_row list" where
  "dunning_schedule dates policy =
     (let anchor = wd_anchor dates;
          suspends_on = at_midnight (wd_suspends_on dates);
          retries = get_retry_times dates (dp_retry_interval policy);
          overdue_at = get_overdue_time dates retries;
          kept = filter (\<lambda>t. t \<le> overdue_at) retries;
          stages = map (\<lambda>(n, t). stage_row_at anchor Retry (Some n) t) (zip [1..<Suc (length kept)] kept)
            @ [stage_row_at anchor Overdue None overdue_at,
               stage_row_at anchor Suspend None suspends_on,
               stage_row_at anchor Terminate None (suspends_on + dp_terminate_after policy * day_us)]
      in sort_key (\<lambda>s. (sg_at s, sg_stage s)) stages)"

definition stages_reached :: "stage_row list \<Rightarrow> datetime \<Rightarrow> stage set" where
  "stages_reached schedule now = set (map sg_stage (filter (\<lambda>s. sg_at s \<le> now) schedule))"

definition get_last_payment_day_with_retries :: "billing_settings \<Rightarrow> date \<Rightarrow> int" where
  "get_last_payment_day_with_retries s today =
     (let opened_on = first_of_month today;
          interval = dunning_retry_interval_days s;
          ladder = (\<lambda>day. let payment_date = max opened_on (opened_on + day - 1) in
             \<lparr>wd_anchor = payment_date, wd_retry_until = get_due_date_for s opened_on payment_date,
              wd_suspends_on = 0, wd_is_deferred = False\<rparr>);
          days = filter (\<lambda>day. get_interval_retry_dates (ladder day) interval \<noteq> []) [1..LAST_PAYMENT_DAY]
      in if days = [] then 0 else last days)"

section \<open>The retry window\<close>

lemma retry_dates_from_closed:
  "retry_dates_from interval a u = map (\<lambda>k. a + int k * max 1 interval) [0..<nat ((u - a) div max 1 interval + 1)]"
proof (induction interval a u rule: retry_dates_from.induct)
  case (1 interval a u)
  let ?i = "max 1 interval"
  have pos: "0 < ?i" by simp
  show ?case
  proof (cases "a \<le> u")
    case True
    have "(u - (a + ?i)) div ?i = (u - a) div ?i - 1"
      using div_mult_self1 [of ?i "u - a" "-1"] pos by (simp add: algebra_simps)
    moreover have "0 \<le> (u - a) div ?i" using True pos by (simp add: pos_imp_zdiv_nonneg_iff)
    ultimately have n: "nat ((u - a) div ?i + 1) = Suc (nat ((u - (a + ?i)) div ?i + 1))" by simp
    have "retry_dates_from interval a u = a # map (\<lambda>k. a + ?i + int k * ?i) [0..<nat ((u - (a + ?i)) div ?i + 1)]"
      using 1 [OF True] True by (subst retry_dates_from.simps) simp
    also have "\<dots> = map (\<lambda>k. a + int k * ?i) [0..<nat ((u - a) div ?i + 1)]"
      unfolding n upt_conv_Cons [OF zero_less_Suc] map_Suc_upt [symmetric] by (simp add: algebra_simps)
    finally show ?thesis .
  next
    case False
    then have "(u - a) div ?i < 0" using pos by (simp add: pos_imp_zdiv_neg_iff)
    then show ?thesis using False by (subst retry_dates_from.simps) simp
  qed
qed

lemma interval_retry_dates_eq:
  "get_interval_retry_dates dates interval = map (\<lambda>k. wd_anchor dates + int k * max 1 interval)
     [1..<nat ((wd_retry_until dates - wd_anchor dates) div max 1 interval + 1)]"
proof -
  let ?i = "max 1 interval"
  have "(wd_retry_until dates - (wd_anchor dates + ?i)) div ?i = (wd_retry_until dates - wd_anchor dates) div ?i - 1"
    using div_mult_self1 [of ?i "wd_retry_until dates - wd_anchor dates" "-1"] by (simp add: algebra_simps)
  then have n: "nat ((wd_retry_until dates - (wd_anchor dates + ?i)) div ?i + 1)
      = nat ((wd_retry_until dates - wd_anchor dates) div ?i)" by simp
  have m: "max 1 ?i = ?i" by simp
  have shift: "map (\<lambda>k. a + int k * ?i) [1..<nat (x + 1)] = map (\<lambda>k. a + ?i + int k * ?i) [0..<nat x]" for a x
  proof (cases "0 \<le> x")
    case True
    then have "[1..<nat (x + 1)] = map Suc [0..<nat x]" by (simp add: map_Suc_upt nat_add_distrib)
    then show ?thesis by (simp add: algebra_simps)
  qed simp
  show ?thesis
    unfolding get_interval_retry_dates_def Let_def retry_dates_from_closed m n shift by simp
qed

lemma retry_times_sorted: "sorted (get_retry_times dates interval)"
proof -
  have "sorted (map at_midnight (get_interval_retry_dates dates interval))"
    unfolding interval_retry_dates_eq map_map
    by (rule sorted_wrt_map [THEN iffD2]) (rule sorted_wrt_mono_rel [OF _ sorted_upt], auto simp: mult_right_mono)
  then show ?thesis by (auto simp: get_retry_times_def Let_def split: option.splits)
qed

lemma overdue_time_le: "get_overdue_time dates retries \<le> at_midnight (wd_suspends_on dates - 1)"
  by (simp add: get_overdue_time_def Let_def)

section \<open>The schedule\<close>

definition kept_retries :: "ladder_dates \<Rightarrow> dunning_policy \<Rightarrow> datetime list" where
  "kept_retries dates policy = (let retries = get_retry_times dates (dp_retry_interval policy)
     in filter (\<lambda>t. t \<le> get_overdue_time dates retries) retries)"

abbreviation overdue_time :: "ladder_dates \<Rightarrow> dunning_policy \<Rightarrow> datetime" where
  "overdue_time dates policy \<equiv> get_overdue_time dates (get_retry_times dates (dp_retry_interval policy))"

lemma stage_row_at_simps [simp]:
  "sg_stage (stage_row_at a st n t) = st" "sg_at (stage_row_at a st n t) = t"
  by (simp_all add: stage_row_at_def)

lemma retry_rows:
  "map sg_stage (map (\<lambda>(n, t). stage_row_at a Retry (Some n) t) (zip [1..<Suc (length ts)] ts)) = replicate (length ts) Retry"
  "map sg_at (map (\<lambda>(n, t). stage_row_at a Retry (Some n) t) (zip [1..<Suc (length ts)] ts)) = ts"
proof -
  show "map sg_stage (map (\<lambda>(n, t). stage_row_at a Retry (Some n) t) (zip [1..<Suc (length ts)] ts)) = replicate (length ts) Retry"
    by (rule nth_equalityI) (simp_all add: split_beta del: upt_Suc)
  show "map sg_at (map (\<lambda>(n, t). stage_row_at a Retry (Some n) t) (zip [1..<Suc (length ts)] ts)) = ts"
    by (rule nth_equalityI) (simp_all add: split_beta del: upt_Suc)
qed

text \<open>The stages are listed in the order in which they are due, so sorting leaves them as listed.\<close>

lemma dunning_schedule_eq:
  assumes "1 \<le> dp_terminate_after policy"
  shows "dunning_schedule dates policy =
      map (\<lambda>(n, t). stage_row_at (wd_anchor dates) Retry (Some n) t)
        (zip [1..<Suc (length (kept_retries dates policy))] (kept_retries dates policy))
      @ [stage_row_at (wd_anchor dates) Overdue None (overdue_time dates policy),
         stage_row_at (wd_anchor dates) Suspend None (at_midnight (wd_suspends_on dates)),
         stage_row_at (wd_anchor dates) Terminate None
           (at_midnight (wd_suspends_on dates) + dp_terminate_after policy * day_us)]"
    (is "_ = ?retries @ ?rest")
proof -
  let ?kept = "kept_retries dates policy"
  have kept: "sorted ?kept" "\<forall>t \<in> set ?kept. t \<le> overdue_time dates policy"
    using retry_times_sorted [of dates "dp_retry_interval policy"]
    by (simp_all add: kept_retries_def Let_def sorted_wrt_filter)
  have before: "overdue_time dates policy < at_midnight (wd_suspends_on dates)"
    using overdue_time_le [of dates "get_retry_times dates (dp_retry_interval policy)"]
    by (simp add: at_midnight_def)
  have ats: "map sg_at ?retries = ?kept" by (rule retry_rows)
  have sts: "set (map sg_stage ?retries) \<subseteq> {Retry}" unfolding retry_rows by auto
  have row: "sg_stage r = Retry" "sg_at r \<in> set ?kept" if "r \<in> set ?retries" for r
  proof -
    have "sg_stage r \<in> set (map sg_stage ?retries)" "sg_at r \<in> set (map sg_at ?retries)"
      using that unfolding set_map by (rule imageI)+
    then show "sg_stage r = Retry" "sg_at r \<in> set ?kept" using sts unfolding ats by blast+
  qed
  have "sorted (map (\<lambda>s. (sg_at s, sg_stage s)) ?retries)"
  proof -
    have "map (\<lambda>s. (sg_at s, sg_stage s)) ?retries = map (\<lambda>t. (t, Retry)) (map sg_at ?retries)"
      unfolding map_map by (rule map_cong [OF refl]) (simp only: comp_apply split_beta stage_row_at_simps)
    then have "map (\<lambda>s. (sg_at s, sg_stage s)) ?retries = map (\<lambda>t. (t, Retry)) ?kept" unfolding ats .
    moreover have "sorted (map (\<lambda>t. (t, Retry)) ?kept)"
      unfolding sorted_map by (rule sorted_wrt_mono_rel [OF _ kept(1)]) (simp add: less_eq_prod_def order_le_less)
    ultimately show ?thesis by (simp only:)
  qed
  moreover have "(sg_at r, sg_stage r) \<le> (sg_at q, sg_stage q)" if "r \<in> set ?retries" "q \<in> set ?rest" for r q
  proof -
    have "sg_at r \<le> overdue_time dates policy" using row(2) [OF that(1)] kept(2) by blast
    moreover have "overdue_time dates policy \<le> sg_at q" using that(2) before assms by auto
    moreover have "Retry \<le> st" for st by (cases st) (simp_all add: less_eq_stage_def stage_order_def)
    ultimately show ?thesis unfolding row(1) [OF that(1)] by (auto simp: less_eq_prod_def)
  qed
  moreover have "sorted (map (\<lambda>s. (sg_at s, sg_stage s)) ?rest)"
    using before assms by simp
  ultimately have "sorted (map (\<lambda>s. (sg_at s, sg_stage s)) (?retries @ ?rest))"
    unfolding map_append sorted_append set_map by blast
  then have "sort_key (\<lambda>s. (sg_at s, sg_stage s)) (?retries @ ?rest) = ?retries @ ?rest"
    by (rule sort_key_id_if_sorted)
  moreover have "dunning_schedule dates policy = sort_key (\<lambda>s. (sg_at s, sg_stage s)) (?retries @ ?rest)"
    unfolding dunning_schedule_def kept_retries_def Let_def by (rule refl)
  ultimately show ?thesis by (simp only:)
qed

lemma schedule_stages:
  assumes "1 \<le> dp_terminate_after policy"
  shows "map sg_stage (dunning_schedule dates policy) =
      replicate (length (kept_retries dates policy)) Retry @ [Overdue, Suspend, Terminate]"
    and "map sg_at (dunning_schedule dates policy) = kept_retries dates policy
      @ [overdue_time dates policy, at_midnight (wd_suspends_on dates),
         at_midnight (wd_suspends_on dates) + dp_terminate_after policy * day_us]"
  unfolding dunning_schedule_eq [OF assms] map_append retry_rows by (rule refl | simp)+

text \<open>
  The ladder always escalates in the same order, whatever failed, is in flight or is
  awaited. Its stages are some retries, then Overdue, then suspension, then termination, at
  non-decreasing times; Overdue comes at least a whole day before suspension, so the customer is
  warned in time, and suspension is exactly at the invoice's suspension date.
\<close>

theorem ladder_escalates_in_order:
  assumes "1 \<le> dp_terminate_after policy"
  shows "\<exists>retries overdue_at. map sg_stage (dunning_schedule dates policy) =
        replicate (length retries) Retry @ [Overdue, Suspend, Terminate]
      \<and> map sg_at (dunning_schedule dates policy) = retries @ [overdue_at, at_midnight (wd_suspends_on dates),
          at_midnight (wd_suspends_on dates) + dp_terminate_after policy * day_us]
      \<and> sorted (retries @ [overdue_at]) \<and> overdue_at + day_us \<le> at_midnight (wd_suspends_on dates)"
proof (intro exI conjI)
  show "map sg_stage (dunning_schedule dates policy) =
      replicate (length (kept_retries dates policy)) Retry @ [Overdue, Suspend, Terminate]"
    "map sg_at (dunning_schedule dates policy) = kept_retries dates policy
      @ [overdue_time dates policy, at_midnight (wd_suspends_on dates),
         at_midnight (wd_suspends_on dates) + dp_terminate_after policy * day_us]"
    by (rule schedule_stages [OF assms])+
  show "sorted (kept_retries dates policy @ [overdue_time dates policy])"
    using retry_times_sorted [of dates "dp_retry_interval policy"]
    by (auto simp: kept_retries_def Let_def sorted_append sorted_wrt_filter)
  show "overdue_time dates policy + day_us \<le> at_midnight (wd_suspends_on dates)"
    using overdue_time_le [of dates "get_retry_times dates (dp_retry_interval policy)"]
    by (simp add: at_midnight_def)
qed

definition example_ladder :: ladder_dates where
  "example_ladder = \<lparr>wd_anchor = 739768, wd_retry_until = 739775, wd_suspends_on = 739782, wd_is_deferred = False,
     ld_first_failed_at = None, ld_in_flight_since = None, ld_is_awaiting_charge = False\<rparr>"

theorem ladder_escalates_in_order_witness:
  "map sg_stage (dunning_schedule example_ladder (policy_of shipped_settings)) =
     [Retry, Retry, Retry, Overdue, Suspend, Terminate]"
proof -
  have one: "1 \<le> dp_terminate_after (policy_of shipped_settings)"
    by (simp add: policy_of_def terminate_after_days_def read_setting_def shipped_settings_def)
  from ladder_escalates_in_order [OF one, of example_ladder] obtain retries :: "datetime list" where
    r: "map sg_stage (dunning_schedule example_ladder (policy_of shipped_settings)) =
      replicate (length retries) Retry @ [Overdue, Suspend, Terminate]" by auto
  have i: "dp_retry_interval (policy_of shipped_settings) = 2"
    by (simp add: policy_of_def dunning_retry_interval_days_def read_setting_def shipped_settings_def)
  have "get_interval_retry_dates example_ladder 2 = [739770, 739772, 739774]"
    by (simp add: interval_retry_dates_eq example_ladder_def upt_rec)
  then have "length (kept_retries example_ladder (policy_of shipped_settings)) = 3"
    by (simp add: kept_retries_def get_retry_times_def get_overdue_time_def i example_ladder_def at_midnight_def)
  with schedule_stages(1) [OF one, of example_ladder] show ?thesis by (simp add: eval_nat_numeral)
qed

text \<open>
  The interval retries are exactly every \<open>n\<close>-th day after the anchor that lies in the
  retry window, \<open>n\<close> being the setting but at least one, so the retry loop ends after as many
  rounds as the window has such days and no two retries are closer than \<open>n\<close> days.
\<close>

theorem interval_retries_exact:
  "get_interval_retry_dates dates interval = map (\<lambda>k. wd_anchor dates + int k * max 1 interval)
      [1..<nat ((wd_retry_until dates - wd_anchor dates) div max 1 interval + 1)]
   \<and> (\<forall>d. d \<in> set (get_interval_retry_dates dates interval) \<longrightarrow>
        wd_anchor dates < d \<and> d \<le> wd_retry_until dates)"
proof (intro conjI allI impI)
  show "get_interval_retry_dates dates interval = map (\<lambda>k. wd_anchor dates + int k * max 1 interval)
      [1..<nat ((wd_retry_until dates - wd_anchor dates) div max 1 interval + 1)]"
    by (rule interval_retry_dates_eq)
  fix d assume "d \<in> set (get_interval_retry_dates dates interval)"
  then obtain k where k0: "d = wd_anchor dates + int k * max 1 interval"
    "k \<in> set [1..<nat ((wd_retry_until dates - wd_anchor dates) div max 1 interval + 1)]"
    unfolding interval_retry_dates_eq set_map by blast
  from k0(2) have "1 \<le> k" "k < nat ((wd_retry_until dates - wd_anchor dates) div max 1 interval + 1)" by simp_all
  with k0(1) have k: "d = wd_anchor dates + int k * max 1 interval" "1 \<le> k"
    "int k \<le> (wd_retry_until dates - wd_anchor dates) div max 1 interval"
    by linarith+
  have "0 < int k * max 1 interval" using k(2) by simp
  with k(1) show "wd_anchor dates < d" by simp
  have "int k * max 1 interval \<le> (wd_retry_until dates - wd_anchor dates) div max 1 interval * max 1 interval"
    using k(3) by (intro mult_right_mono) simp_all
  also have "\<dots> \<le> wd_retry_until dates - wd_anchor dates"
    using pos_mod_sign [of "max 1 interval" "wd_retry_until dates - wd_anchor dates"]
      div_mult_mod_eq [of "wd_retry_until dates - wd_anchor dates" "max 1 interval"] by linarith
  finally show "d \<le> wd_retry_until dates" using k(1) by simp
qed

theorem interval_retries_exact_witness:
  "get_interval_retry_dates example_ladder 2 = [739770, 739772, 739774] \<and> 739768 < (739774::date)"
  using interval_retries_exact [of example_ladder 2]
  by (simp add: example_ladder_def upt_rec)

section \<open>When a team is suspended\<close>

lemma get_payment_date_range:
  assumes "1 \<le> payment_day_or_default ps team" "payment_day_or_default ps team \<le> LAST_PAYMENT_DAY"
  shows "get_payment_date ps team d = Inr (max d (first_of_month d + payment_day_or_default ps team - 1))"
  using assms by (intro get_payment_date_ok) (simp_all add: LAST_PAYMENT_DAY_def)

text \<open>
  With the settings and payment day that saving allows, an invoice always gets its
  dates: it is charged on or after it opens, due on or after that, and its team is suspended
  strictly after the due date. The suspension date is the suspension day of the opening month when
  that day is after the due date; a late invoice still gets the gap of a punctual one.
\<close>

theorem suspension_after_due_date:
  assumes "validate_suspension_day (suspension_day s) = Inr ()"
    and "1 \<le> payment_day_or_default ps team" "payment_day_or_default ps team \<le> LAST_PAYMENT_DAY"
  shows "\<exists>dates. get_opening_ladder_dates s ps team opened_on = Inr dates
    \<and> opened_on \<le> wd_anchor dates \<and> wd_anchor dates \<le> wd_retry_until dates
    \<and> wd_retry_until dates < wd_suspends_on dates
    \<and> wd_suspends_on dates = (let day = first_of_month opened_on + suspension_day s - 1 in
        if day > wd_retry_until dates then day
        else wd_retry_until dates + max 1 (suspension_day s - 1 - invoice_due_days s))"
proof -
  have day: "1 \<le> suspension_day s" "suspension_day s \<le> 28"
    using assms(1) by (auto simp: validate_suspension_day_def LAST_PAYMENT_DAY_def LAST_SUSPENSION_DAY_def split: if_splits)
  from replace_day_ok [OF day, of opened_on]
  have on_day: "replace_day opened_on (suspension_day s) = Inr (first_of_month opened_on + suspension_day s - 1)"
    by (simp add: first_of_month_eq)
  note pd = get_payment_date_range [OF assms(2,3), of opened_on]
  show ?thesis
    by (simp add: get_opening_ladder_dates_def get_suspension_date_def get_suspension_date_after_def
        get_due_date_def pd on_day get_due_date_for_def Let_def less_max_iff_disj)
qed

definition example_profiles :: profiles where
  "example_profiles = [''t1'' \<mapsto> \<lparr>bp_team = ''t1'', bp_currency = Some ''INR'', bp_country = Some ''India'',
     bp_legal_name = Some ''Acme'', bp_address_line1 = Some ''1 Road'', bp_city = Some ''Pune'',
     bp_is_internal = False, bp_gstin = None, bp_gst_status = None,
     bp_collection_mode = Some ''Auto Charge'', bp_collection_action_reason = None,
     bp_payment_day = 5, bp_payment_day_changes = 0, bp_payment_day_changes_cycle = None\<rparr>]"

theorem suspension_after_due_date_witness:
  "\<exists>dates. get_opening_ladder_dates shipped_settings example_profiles ''t1'' 739798 = Inr dates
    \<and> wd_retry_until dates < wd_suspends_on dates"
proof -
  have "validate_suspension_day (suspension_day shipped_settings) = Inr ()"
    by (simp add: validate_suspension_day_def suspension_day_def read_setting_def shipped_settings_def
        LAST_PAYMENT_DAY_def LAST_SUSPENSION_DAY_def)
  moreover have "payment_day_or_default example_profiles ''t1'' = 5"
    by (simp add: payment_day_or_default_def example_profiles_def)
  ultimately obtain dates where
    "get_opening_ladder_dates shipped_settings example_profiles ''t1'' 739798 = Inr dates"
    "wd_retry_until dates < wd_suspends_on dates"
    using suspension_after_due_date [of shipped_settings example_profiles "''t1''" 739798]
    by (auto simp: LAST_PAYMENT_DAY_def)
  then show ?thesis by blast
qed

section \<open>Deferring the ladder\<close>

lemma get_window_dates_Inr:
  "get_window_dates iv = Inr w \<longleftrightarrow> (\<exists>due pay susp. inv_due_date iv = Some due \<and> inv_payment_date iv = Some pay
     \<and> inv_suspends_on iv = Some susp
     \<and> w = (let anchor = (case inv_dunning_starts_on iv of Some d \<Rightarrow> d | None \<Rightarrow> pay); shift = max 0 (anchor - pay)
            in \<lparr>wd_anchor = anchor, wd_retry_until = due + shift, wd_suspends_on = susp, wd_is_deferred = shift > 0\<rparr>))"
  by (cases "inv_dunning_starts_on iv") (auto simp: get_window_dates_def check_ladder_fields_def Let_def)

text \<open>
  A failure on our side moves the whole ladder forward and nothing else. Deferring
  never moves the anchor back, moves it to today when it was in the past, shifts the end of the
  retry window and the suspension date by the same number of days, leaves the due date and the
  amounts as they were, and doing it twice on one day is doing it once.
\<close>

theorem defer_shifts_whole_ladder:
  assumes "get_window_dates iv = Inr w" "inv_payment_date iv = Some pay" "pay \<le> wd_anchor w"
  shows "\<exists>moved iv' w'. defer_dunning today iv = Inr (moved, iv') \<and> get_window_dates iv' = Inr w'
    \<and> wd_anchor w' = max (wd_anchor w) today
    \<and> wd_retry_until w' - wd_retry_until w = wd_anchor w' - wd_anchor w
    \<and> wd_suspends_on w' - wd_suspends_on w = wd_anchor w' - wd_anchor w
    \<and> moved = (wd_anchor w < today)
    \<and> iv' = iv\<lparr>inv_dunning_starts_on := inv_dunning_starts_on iv', inv_suspends_on := inv_suspends_on iv'\<rparr>
    \<and> defer_dunning today iv' = Inr (False, iv')"
proof -
  from assms obtain due susp where f: "inv_due_date iv = Some due" "inv_suspends_on iv = Some susp"
    "wd_suspends_on w = susp" "wd_retry_until w = due + (wd_anchor w - pay)"
    by (auto simp: get_window_dates_Inr Let_def)
  show ?thesis
  proof (cases "wd_anchor w < today")
    case False
    with assms f show ?thesis by (auto simp: defer_dunning_def is_issued_def)
  next
    case True
    let ?iv = "iv\<lparr>inv_dunning_starts_on := Some today, inv_suspends_on := Some (susp + (today - wd_anchor w))\<rparr>"
    let ?w = "\<lparr>wd_anchor = today, wd_retry_until = due + (today - pay),
        wd_suspends_on = susp + (today - wd_anchor w), wd_is_deferred = True\<rparr>"
    have run: "defer_dunning today iv = Inr (True, ?iv)"
      using True assms(1) f by (simp add: defer_dunning_def is_issued_def Let_def)
    have win: "get_window_dates ?iv = Inr ?w"
      using True assms(2,3) f by (simp add: get_window_dates_Inr Let_def)
    have again: "defer_dunning today ?iv = Inr (False, ?iv)"
      using f win by (simp add: defer_dunning_def is_issued_def)
    show ?thesis
      by (rule exI [of _ True], rule exI [of _ ?iv], rule exI [of _ ?w]) (use run win again True f(3,4) in simp)
  qed
qed

definition issued_invoice :: invoice where
  "issued_invoice = june_invoice\<lparr>inv_due_date := Some 739808, inv_payment_date := Some 739802,
     inv_dunning_starts_on := Some 739802, inv_suspends_on := Some 739812\<rparr>"

theorem defer_shifts_whole_ladder_witness:
  "\<exists>moved iv' w'. defer_dunning 739805 issued_invoice = Inr (moved, iv') \<and> get_window_dates iv' = Inr w'
    \<and> wd_anchor w' = 739805 \<and> wd_suspends_on w' = 739815"
proof -
  have w: "get_window_dates issued_invoice = Inr \<lparr>wd_anchor = 739802, wd_retry_until = 739808,
      wd_suspends_on = 739812, wd_is_deferred = False\<rparr>"
    by (simp add: get_window_dates_Inr issued_invoice_def)
  have p: "inv_payment_date issued_invoice = Some 739802" by (simp add: issued_invoice_def)
  from defer_shifts_whole_ladder [OF w p, of 739805] show ?thesis by force
qed

end
