(* ===== verification/Invoice_Lines.thy ===== *)
theory Invoice_Lines
  imports Prelude "HOL-Library.AList" "HOL-Library.List_Lexorder" "HOL-Library.Char_ord" "HOL-Library.Multiset"
begin

text \<open>
  The time-weighted line engine (\<open>revenue/invoicing/lines.py\<close>): the rate segments of a subscription
  cut to the billing period, the dates billed by the day and those billed by the hour, and the
  order of the lines. The \<open>derivation\<close> payload that explains a line is left out but for the dates
  it names, which are the field \<open>ln_dates\<close>; \<open>_server_clusters\<close> and \<open>snapshot_regions\<close> are lookups
  given as arguments.
\<close>

section \<open>Data\<close>

record change =
  ch_type :: string
  ch_plan :: string
  ch_rate :: "money option"
  ch_at :: datetime

record subscription_row =
  sb_name :: string
  sb_server :: "string option"
  sb_snapshot :: "string option"
  sb_ip_server :: "string option"

record bounds =
  pb_start :: date
  pb_end :: date
  pb_start_dt :: datetime
  pb_end_excl_dt :: datetime
  pb_day_units :: int
  pb_hour_units :: int

record segment =
  sgm_start :: datetime
  sgm_end :: datetime
  sgm_opened_at :: datetime
  sgm_rate :: money
  sgm_plan :: string
  sgm_server :: "string option"
  sgm_cluster :: string
  sgm_resized_mid_day :: bool
  sgm_opens :: bool
  sgm_closes :: bool

record line =
  ln_resource :: "string option"
  ln_plan :: string
  ln_cluster :: string
  ln_unit :: string
  ln_rate :: money
  ln_days :: "int option"
  ln_hours :: "rat option"
  ln_charge_date :: "date option"
  ln_period_from :: "datetime option"
  ln_period_to :: "datetime option"
  ln_amount :: money
  ln_dates :: "date list"

section \<open>The period and its dates\<close>

definition days_in_period :: "date \<Rightarrow> date \<Rightarrow> int" where
  "days_in_period period_start period_end = period_end - period_start + 1"

definition period_bounds :: "date \<Rightarrow> date \<Rightarrow> bounds" where
  "period_bounds ps pe = (let day_units = days_in_period ps pe in
     \<lparr>pb_start = ps, pb_end = pe, pb_start_dt = at_midnight ps, pb_end_excl_dt = at_midnight (pe + 1),
      pb_day_units = day_units, pb_hour_units = day_units * 24\<rparr>)"

text \<open>The \<open>while\<close> loops over dates: from \<open>d\<close> on, as long as the date begins before \<open>end_dt\<close>, and up to \<open>last\<close>.\<close>

function dates_before :: "date \<Rightarrow> datetime \<Rightarrow> date list" where
  "dates_before d end_dt = (if at_midnight d < end_dt then d # dates_before (d + 1) end_dt else [])"
  by pat_completeness auto
termination
  by (relation "measure (\<lambda>(d, end_dt). nat (end_dt - at_midnight d))") (auto simp: at_midnight_def)

declare dates_before.simps [simp del]

definition dates_touched :: "datetime \<Rightarrow> datetime \<Rightarrow> date list" where
  "dates_touched start_dt end_dt = dates_before (dt_date start_dt) end_dt"

function dates_upto :: "date \<Rightarrow> date \<Rightarrow> date list" where
  "dates_upto d lst = (if d < lst then d # dates_upto (d + 1) lst else [])"
  by pat_completeness auto
termination
  by (relation "measure (\<lambda>(d, lst). nat (lst - d))") auto

declare dates_upto.simps [simp del]

section \<open>Segments\<close>

definition segment_of :: "subscription_row \<Rightarrow> string \<Rightarrow> change \<Rightarrow> change option \<Rightarrow> bounds \<Rightarrow> segment option" where
  "segment_of sub cluster c following b =
     (let opened_at = ch_at c;
          seg_end_dt = (case following of Some f \<Rightarrow> ch_at f | None \<Rightarrow> pb_end_excl_dt b);
          start = max opened_at (pb_start_dt b);
          end_dt = min seg_end_dt (pb_end_excl_dt b)
      in if start \<ge> pb_end_excl_dt b \<or> end_dt \<le> pb_start_dt b then None
      else Some \<lparr>sgm_start = start, sgm_end = end_dt, sgm_opened_at = opened_at, sgm_rate = the (ch_rate c),
        sgm_plan = ch_plan c, sgm_server = sb_server sub, sgm_cluster = cluster,
        sgm_resized_mid_day = (ch_type c = ''Plan Changed'' \<and> start = opened_at \<and> dt_time start \<noteq> 0),
        sgm_opens = (ch_type c = ''Created''),
        sgm_closes = (case following of Some f \<Rightarrow> ch_type f = ''Cancelled'' | None \<Rightarrow> False)\<rparr>)"

fun segments :: "subscription_row \<Rightarrow> string \<Rightarrow> change list \<Rightarrow> bounds \<Rightarrow> segment list" where
  "segments sub cluster [] b = []"
| "segments sub cluster (c # cs) b =
     (if ch_type c = ''Cancelled'' \<or> ch_rate c = None then segments sub cluster cs b
      else case segment_of sub cluster c (case cs of [] \<Rightarrow> None | f # _ \<Rightarrow> Some f) b of
        None \<Rightarrow> segments sub cluster cs b
      | Some seg \<Rightarrow> seg # segments sub cluster cs b)"

definition owned_dates :: "segment \<Rightarrow> bounds \<Rightarrow> date list" where
  "owned_dates s b = dates_upto (max (dt_date (sgm_start s)) (pb_start b)) (min (dt_date (sgm_end s)) (pb_end b + 1))"

definition partial_days :: "segment \<Rightarrow> date list \<Rightarrow> (date \<times> datetime \<times> datetime) list" where
  "partial_days s hourly_dates =
     (let start = sgm_start s; end_dt = sgm_end s;
          out = (if sgm_opens s \<and> dt_time start \<noteq> 0
                 then [(dt_date start, start, min end_dt (at_midnight (dt_date start + 1)))] else []);
          out = (if sgm_closes s \<and> dt_time end_dt \<noteq> 0
                 then AList.update (dt_date end_dt) (max start (at_midnight (dt_date end_dt)), end_dt) out else out)
      in filter (\<lambda>(day, window). day \<notin> set hourly_dates) out)"

section \<open>Lines\<close>

definition hours_between :: "datetime \<Rightarrow> datetime \<Rightarrow> rat" where
  "hours_between lo hi = of_int (hi - lo) / of_int hour_us"

definition daily_line :: "(rat \<Rightarrow> rat) \<Rightarrow> segment \<Rightarrow> int \<Rightarrow> int \<Rightarrow> date list \<Rightarrow> line" where
  "daily_line r2 s days day_units billed_dates =
     \<lparr>ln_resource = sgm_server s, ln_plan = sgm_plan s, ln_cluster = sgm_cluster s, ln_unit = ''day'',
      ln_rate = sgm_rate s, ln_days = Some days, ln_hours = None, ln_charge_date = None,
      ln_period_from = (if billed_dates = [] then None else Some (at_midnight (Min (set billed_dates)))),
      ln_period_to = (if billed_dates = [] then None else Some (at_midnight (Max (set billed_dates) + 1))),
      ln_amount = r2 (of_int days * sgm_rate s / of_int day_units), ln_dates = billed_dates\<rparr>"

definition hourly_line :: "(rat \<Rightarrow> rat) \<Rightarrow> segment \<Rightarrow> rat \<Rightarrow> int \<Rightarrow> date \<Rightarrow> datetime \<times> datetime \<Rightarrow> line" where
  "hourly_line r2 s hours hour_units charge_date window =
     \<lparr>ln_resource = sgm_server s, ln_plan = sgm_plan s, ln_cluster = sgm_cluster s, ln_unit = ''hour'',
      ln_rate = sgm_rate s, ln_days = None, ln_hours = Some (r2 hours), ln_charge_date = Some charge_date,
      ln_period_from = Some (fst window), ln_period_to = Some (snd window),
      ln_amount = r2 (hours * sgm_rate s / of_int hour_units), ln_dates = [charge_date]\<rparr>"

definition partial_day_lines ::
  "(rat \<Rightarrow> rat) \<Rightarrow> segment \<Rightarrow> (date \<times> datetime \<times> datetime) list \<Rightarrow> bounds \<Rightarrow> line list" where
  "partial_day_lines r2 s partial b =
     map (\<lambda>(day, lo, hi). hourly_line r2 s (hours_between lo hi) (pb_hour_units b) day (lo, hi)) partial"

text \<open>The window a segment covers of one date.\<close>

definition window_on :: "segment \<Rightarrow> date \<Rightarrow> datetime \<times> datetime" where
  "window_on s day = (max (sgm_start s) (at_midnight day), min (sgm_end s) (at_midnight (day + 1)))"

definition resize_day_lines :: "(rat \<Rightarrow> rat) \<Rightarrow> segment \<Rightarrow> date list \<Rightarrow> bounds \<Rightarrow> line list" where
  "resize_day_lines r2 s hourly_dates b =
     map (\<lambda>day. let (lo, hi) = window_on s day in hourly_line r2 s (hours_between lo hi) (pb_hour_units b) day (lo, hi))
       (filter (\<lambda>day. day \<in> set hourly_dates \<and> \<not> hours_between (fst (window_on s day)) (snd (window_on s day)) \<le> 0)
          (dates_touched (sgm_start s) (sgm_end s)))"

definition DATETIME_MAX :: datetime where "DATETIME_MAX = 3652060 * day_us - 1"

definition line_key :: "line \<Rightarrow> string \<times> datetime \<times> bool" where
  "line_key x = (or_else (ln_resource x) '''',
     case ln_period_from x of Some t \<Rightarrow> t | None \<Rightarrow> DATETIME_MAX, ln_unit x = ''hour'')"

definition ordered :: "line list \<Rightarrow> line list" where
  "ordered lns = sort_key line_key lns"

definition hourly_dates_of :: "segment list \<Rightarrow> date list" where
  "hourly_dates_of segs = map (\<lambda>s. dt_date (sgm_start s)) (filter sgm_resized_mid_day segs)"

definition billed_dates_of :: "segment \<Rightarrow> date list \<Rightarrow> bounds \<Rightarrow> date list" where
  "billed_dates_of s hourly_dates b =
     filter (\<lambda>d. d \<notin> set hourly_dates \<union> set (map fst (partial_days s hourly_dates))) (owned_dates s b)"

definition segment_lines :: "(rat \<Rightarrow> rat) \<Rightarrow> segment \<Rightarrow> date list \<Rightarrow> bounds \<Rightarrow> line list" where
  "segment_lines r2 s hourly_dates b =
     (let partial = partial_days s hourly_dates;
          billed_dates = billed_dates_of s hourly_dates b
      in (if billed_dates \<noteq> [] then [daily_line r2 s (int (length billed_dates)) (pb_day_units b) billed_dates] else [])
         @ partial_day_lines r2 s partial b
         @ resize_day_lines r2 s hourly_dates b)"

definition subscription_lines ::
  "(rat \<Rightarrow> rat) \<Rightarrow> subscription_row \<Rightarrow> string \<Rightarrow> change list \<Rightarrow> bounds \<Rightarrow> line list" where
  "subscription_lines r2 sub cluster changes b =
     (let segs = segments sub cluster changes b; hourly_dates = hourly_dates_of segs
      in ordered (concat (map (\<lambda>s. segment_lines r2 s hourly_dates b) segs)))"

definition subscription_cluster ::
  "(string \<Rightarrow> string option) \<Rightarrow> (string \<Rightarrow> string option) \<Rightarrow> subscription_row \<Rightarrow> string option" where
  "subscription_cluster servers snapshots sub =
     (let by_server = (if truthy (sb_server sub) then Option.bind (sb_server sub) servers
                       else Option.bind (sb_ip_server sub) servers)
      in if truthy by_server then by_server else
         let by_snapshot = Option.bind (sb_snapshot sub) snapshots in
         if truthy by_snapshot then by_snapshot else None)"

definition team_line_items ::
  "(rat \<Rightarrow> rat) \<Rightarrow> (string \<Rightarrow> string option) \<Rightarrow> (string \<Rightarrow> string option) \<Rightarrow> subscription_row list
     \<Rightarrow> (string \<Rightarrow> change list) \<Rightarrow> date \<Rightarrow> date \<Rightarrow> line list" where
  "team_line_items r2 servers snapshots subs changes ps pe =
     (let b = period_bounds ps pe in
      ordered (concat (map (\<lambda>sub. case subscription_cluster servers snapshots sub of
         None \<Rightarrow> [] | Some cluster \<Rightarrow> subscription_lines r2 sub cluster (changes (sb_name sub)) b) subs)))"

definition compute_line_items ::
  "(rat \<Rightarrow> rat) \<Rightarrow> (string \<Rightarrow> string option) \<Rightarrow> (string \<Rightarrow> string option) \<Rightarrow> subscription_row list
     \<Rightarrow> (string \<Rightarrow> change list) \<Rightarrow> string \<Rightarrow> date \<Rightarrow> date \<Rightarrow> line list" where
  "compute_line_items r2 servers snapshots subs changes cluster ps pe =
     (let b = period_bounds ps pe in
      ordered (concat (map (\<lambda>sub. subscription_lines r2 sub cluster (changes (sb_name sub)) b)
        (filter (\<lambda>sub. subscription_cluster servers snapshots sub = Some cluster) subs))))"

section \<open>Dates, windows and clips\<close>

lemma set_dates_before: "set (dates_before d e) = {x. d \<le> x \<and> at_midnight x < e}"
proof (induction d e rule: dates_before.induct)
  case (1 d e)
  show ?case
  proof (cases "at_midnight d < e")
    case True
    then show ?thesis using 1 by (subst dates_before.simps) (auto simp: at_midnight_def)
  next
    case False
    then show ?thesis by (subst dates_before.simps) (auto simp: at_midnight_def)
  qed
qed

lemma distinct_dates_before: "distinct (dates_before d e)"
proof (induction d e rule: dates_before.induct)
  case (1 d e)
  then show ?case by (subst dates_before.simps) (auto simp: set_dates_before)
qed

lemma set_dates_upto: "set (dates_upto d l) = {d..<l}"
proof (induction d l rule: dates_upto.induct)
  case (1 d l)
  then show ?case by (subst dates_upto.simps) auto
qed

lemma distinct_dates_upto: "distinct (dates_upto d l)"
proof (induction d l rule: dates_upto.induct)
  case (1 d l)
  then show ?case by (subst dates_upto.simps) (auto simp: set_dates_upto)
qed

definition clip :: "segment \<Rightarrow> date \<Rightarrow> int" where
  "clip s d = max 0 (snd (window_on s d) - fst (window_on s d))"

lemma hours_between_le_0: "hours_between lo hi \<le> 0 \<longleftrightarrow> hi \<le> lo"
  by (simp add: hours_between_def divide_le_0_iff)

text \<open>An instant pinned to the segment.\<close>

definition pinned :: "segment \<Rightarrow> datetime \<Rightarrow> datetime" where
  "pinned s t = max (sgm_start s) (min (sgm_end s) t)"

lemma clip_pinned:
  "sgm_start s \<le> sgm_end s \<Longrightarrow> clip s d = pinned s (at_midnight (d + 1)) - pinned s (at_midnight d)"
  by (auto simp: clip_def window_on_def pinned_def at_midnight_def max_def min_def)

lemma sum_clip:
  "sgm_start s \<le> sgm_end s \<Longrightarrow> a \<le> b + 1 \<Longrightarrow>
   sum_list (map (clip s) [a..b]) = pinned s (at_midnight (b + 1)) - pinned s (at_midnight a)"
proof (induction a b rule: upto.induct)
  case (1 i j)
  show ?case
  proof (cases "i \<le> j")
    case True
    then have "sum_list (map (clip s) [i + 1..j]) = pinned s (at_midnight (j + 1)) - pinned s (at_midnight (i + 1))"
      using 1 by auto
    with True show ?thesis by (simp add: upto_rec1 clip_pinned [OF 1(2), of i])
  next
    case False
    with 1 have "i = j + 1" by simp
    then show ?thesis by simp
  qed
qed

lemma sum_clip_all:
  assumes "sgm_start s \<le> sgm_end s"
  shows "sum_list (map (clip s) [dt_date (sgm_start s)..dt_date (sgm_end s)]) = sgm_end s - sgm_start s"
proof -
  have le: "dt_date (sgm_start s) \<le> dt_date (sgm_end s)" by (rule dt_date_mono [OF assms])
  have "at_midnight (dt_date (sgm_start s)) \<le> sgm_start s" by (simp add: at_midnight_le)
  moreover have "sgm_end s < at_midnight (dt_date (sgm_end s) + 1)" by (simp add: less_at_midnight)
  ultimately show ?thesis using le assms by (subst sum_clip) (auto simp: pinned_def)
qed

section \<open>One segment\<close>

text \<open>What the change history guarantees of a segment (proved of \<open>segments\<close> below).\<close>

definition segment_ok :: "segment \<Rightarrow> date list \<Rightarrow> bounds \<Rightarrow> bool" where
  "segment_ok s hourly_dates b \<longleftrightarrow> sgm_start s \<le> sgm_end s
     \<and> pb_start b \<le> dt_date (sgm_start s) \<and> dt_date (sgm_end s) \<le> pb_end b + 1
     \<and> (dt_time (sgm_start s) \<noteq> 0 \<longrightarrow> sgm_opens s \<or> dt_date (sgm_start s) \<in> set hourly_dates)
     \<and> (dt_time (sgm_end s) \<noteq> 0 \<longrightarrow> sgm_closes s \<or> dt_date (sgm_end s) \<in> set hourly_dates)"

text \<open>The time a line bills of one date.\<close>

definition billed_on :: "date \<Rightarrow> line \<Rightarrow> int" where
  "billed_on d x = (if ln_unit x = ''day'' then (if d \<in> set (ln_dates x) then day_us else 0)
     else if ln_charge_date x = Some d then the (ln_period_to x) - the (ln_period_from x) else 0)"

lemma window_at_start: "sgm_start s \<le> sgm_end s \<Longrightarrow>
  window_on s (dt_date (sgm_start s)) = (sgm_start s, min (sgm_end s) (at_midnight (dt_date (sgm_start s) + 1)))"
  using at_midnight_le [of "dt_date (sgm_start s)" "sgm_start s"] by (simp add: window_on_def)

lemma window_at_end: "window_on s (dt_date (sgm_end s)) = (max (sgm_start s) (at_midnight (dt_date (sgm_end s))), sgm_end s)"
  using less_at_midnight [of "sgm_end s" "dt_date (sgm_end s) + 1"] by (simp add: window_on_def)

lemma partial_days_facts:
  assumes "sgm_start s \<le> sgm_end s"
  shows "distinct (map fst (partial_days s hourly_dates))"
    and "\<forall>(day, w) \<in> set (partial_days s hourly_dates). w = window_on s day"
    and "day \<in> set (map fst (partial_days s hourly_dates)) \<longleftrightarrow> day \<notin> set hourly_dates
      \<and> (sgm_opens s \<and> dt_time (sgm_start s) \<noteq> 0 \<and> day = dt_date (sgm_start s)
       \<or> sgm_closes s \<and> dt_time (sgm_end s) \<noteq> 0 \<and> day = dt_date (sgm_end s))"
proof -
  define out where "out = (if sgm_opens s \<and> dt_time (sgm_start s) \<noteq> 0
     then [(dt_date (sgm_start s), window_on s (dt_date (sgm_start s)))] else [])"
  define out' where "out' = (if sgm_closes s \<and> dt_time (sgm_end s) \<noteq> 0
     then AList.update (dt_date (sgm_end s)) (window_on s (dt_date (sgm_end s))) out else out)"
  have eq: "partial_days s hourly_dates = filter (\<lambda>(day, window). day \<notin> set hourly_dates) out'"
    unfolding partial_days_def Let_def out'_def out_def window_at_start [OF assms] window_at_end by simp
  have d: "distinct (map fst out')" by (simp add: out'_def out_def distinct_update)
  then show "distinct (map fst (partial_days s hourly_dates))" unfolding eq by (rule distinct_map_filter)
  have w: "\<forall>(day, w) \<in> set out'. w = window_on s day"
    by (auto simp: out'_def out_def split: if_splits)
  then show "\<forall>(day, w) \<in> set (partial_days s hourly_dates). w = window_on s day" unfolding eq by auto
  have "set (map fst out') = {day. sgm_opens s \<and> dt_time (sgm_start s) \<noteq> 0 \<and> day = dt_date (sgm_start s)
       \<or> sgm_closes s \<and> dt_time (sgm_end s) \<noteq> 0 \<and> day = dt_date (sgm_end s)}"
    by (auto simp: out'_def out_def split: if_splits)
  moreover have "set (map fst (filter (\<lambda>(day, window). day \<notin> set hourly_dates) out'))
      = set (map fst out') - set hourly_dates" by force
  ultimately show "day \<in> set (map fst (partial_days s hourly_dates)) \<longleftrightarrow> day \<notin> set hourly_dates
      \<and> (sgm_opens s \<and> dt_time (sgm_start s) \<noteq> 0 \<and> day = dt_date (sgm_start s)
       \<or> sgm_closes s \<and> dt_time (sgm_end s) \<noteq> 0 \<and> day = dt_date (sgm_end s))"
    unfolding eq by blast
qed

lemma sum_indicator:
  "distinct (map fst xs) \<Longrightarrow> \<forall>(k, w) \<in> set xs. w = g k \<Longrightarrow>
   sum_list (map (\<lambda>(k, w). if k = d then f w else 0) xs) = (if d \<in> set (map fst xs) then f (g d) else (0::int))"
  by (induction xs) (auto simp: image_iff)

lemma sum_indicator_set:
  "distinct xs \<Longrightarrow> sum_list (map (\<lambda>k. if k = d then f k else 0) xs) = (if d \<in> set xs then f d else (0::int))"
  by (induction xs) auto

lemma billed_on_daily: "billed_on d (daily_line r2 s n u ds) = (if d \<in> set ds then day_us else 0)"
  by (simp add: billed_on_def daily_line_def)

lemma billed_on_hourly: "billed_on d (hourly_line r2 s h u day w) = (if day = d then snd w - fst w else 0)"
  by (simp add: billed_on_def hourly_line_def)

lemma billed_on_partial:
  "map (billed_on d) (partial_day_lines r2 s partial b) = map (\<lambda>(k, w). if k = d then snd w - fst w else 0) partial"
  by (auto simp: partial_day_lines_def billed_on_hourly)

lemma billed_on_resize:
  "map (billed_on d) (resize_day_lines r2 s hourly_dates b) =
     map (\<lambda>k. if k = d then snd (window_on s k) - fst (window_on s k) else 0)
       (filter (\<lambda>k. k \<in> set hourly_dates \<and> fst (window_on s k) < snd (window_on s k))
          (dates_touched (sgm_start s) (sgm_end s)))"
  by (simp add: resize_day_lines_def billed_on_hourly Let_def split_beta hours_between_le_0 not_le comp_def)

lemma billed_on_segment:
  assumes "sgm_start s \<le> sgm_end s"
  shows "sum_list (map (billed_on d) (segment_lines r2 s hourly_dates b)) =
      (if d \<in> set (billed_dates_of s hourly_dates b) then day_us else 0)
    + (if d \<in> set (map fst (partial_days s hourly_dates)) then snd (window_on s d) - fst (window_on s d) else 0)
    + (if d \<in> set hourly_dates then clip s d else 0)"
proof -
  note P = partial_days_facts [OF assms, where hourly_dates = hourly_dates]
  have partial: "sum_list (map (billed_on d) (partial_day_lines r2 s (partial_days s hourly_dates) b)) =
      (if d \<in> set (map fst (partial_days s hourly_dates)) then snd (window_on s d) - fst (window_on s d) else 0)"
    unfolding billed_on_partial by (rule sum_indicator [OF P(1,2)])
  have "d \<in> set (dates_touched (sgm_start s) (sgm_end s))" if "fst (window_on s d) < snd (window_on s d)"
  proof -
    have "sgm_start s < at_midnight (d + 1)" "at_midnight d < sgm_end s" using that by (auto simp: window_on_def)
    then show ?thesis by (simp add: dates_touched_def set_dates_before less_at_midnight)
  qed
  then have touched: "d \<in> set hourly_dates \<Longrightarrow> fst (window_on s d) < snd (window_on s d) \<Longrightarrow>
      d \<in> set (filter (\<lambda>k. k \<in> set hourly_dates \<and> fst (window_on s k) < snd (window_on s k))
          (dates_touched (sgm_start s) (sgm_end s)))" by simp
  have resize: "sum_list (map (billed_on d) (resize_day_lines r2 s hourly_dates b)) =
      (if d \<in> set hourly_dates then clip s d else 0)"
    unfolding billed_on_resize
    by (subst sum_indicator_set, simp add: dates_touched_def distinct_dates_before)
      (cases "fst (window_on s d) < snd (window_on s d)", use touched in \<open>auto simp: clip_def\<close>)
  have daily: "sum_list (map (billed_on d) (if billed_dates_of s hourly_dates b \<noteq> []
        then [daily_line r2 s (int (length (billed_dates_of s hourly_dates b))) (pb_day_units b) (billed_dates_of s hourly_dates b)] else []))
      = (if d \<in> set (billed_dates_of s hourly_dates b) then day_us else 0)"
    by (auto simp: billed_on_daily)
  show ?thesis by (simp only: segment_lines_def Let_def map_append sum_list_append partial resize daily add.assoc)
qed

text \<open>Each date is billed for exactly the time the segment covers of it, by the day or by the hour.\<close>

lemma segment_billed_exactly:
  assumes ok: "segment_ok s hourly_dates b"
  shows "sum_list (map (billed_on d) (segment_lines r2 s hourly_dates b)) = clip s d"
proof -
  have le: "sgm_start s \<le> sgm_end s" using ok by (simp add: segment_ok_def)
  note P = partial_days_facts(3) [OF le, where day = d and hourly_dates = hourly_dates]
  have owned: "set (owned_dates s b) = {dt_date (sgm_start s)..<dt_date (sgm_end s)}"
    using ok by (simp add: owned_dates_def set_dates_upto segment_ok_def max_absorb1 min_absorb1)
  have sm: "at_midnight (dt_date (sgm_start s)) \<le> sgm_start s" "sgm_start s < at_midnight (dt_date (sgm_start s) + 1)"
    and em: "at_midnight (dt_date (sgm_end s)) \<le> sgm_end s" "sgm_end s < at_midnight (dt_date (sgm_end s) + 1)"
    by (simp_all add: at_midnight_le less_at_midnight)
  consider (hourly) "d \<in> set hourly_dates"
    | (partial) "d \<notin> set hourly_dates" "d \<in> set (map fst (partial_days s hourly_dates))"
    | (whole) "d \<notin> set hourly_dates" "d \<notin> set (map fst (partial_days s hourly_dates))" by blast
  then show ?thesis
  proof cases
    case hourly
    with P show ?thesis by (simp add: billed_on_segment [OF le] billed_dates_of_def)
  next
    case partial
    then have "d = dt_date (sgm_start s) \<or> d = dt_date (sgm_end s)" using P by blast
    then have "fst (window_on s d) \<le> snd (window_on s d)"
      using le sm em window_at_start [OF le] window_at_end [of s] by auto
    with partial show ?thesis by (simp add: billed_on_segment [OF le] billed_dates_of_def clip_def del: set_map)
  next
    case whole
    have start: "sgm_start s = at_midnight (dt_date (sgm_start s))" if "d = dt_date (sgm_start s)"
      using ok whole P that dt_split [of "sgm_start s"] by (auto simp: segment_ok_def)
    have end_dt: "sgm_end s = at_midnight (dt_date (sgm_end s))" if "d = dt_date (sgm_end s)"
      using ok whole P that dt_split [of "sgm_end s"] by (auto simp: segment_ok_def)
    have "clip s d = (if dt_date (sgm_start s) \<le> d \<and> d < dt_date (sgm_end s) then day_us else 0)"
    proof -
      consider "d < dt_date (sgm_start s)" | "d > dt_date (sgm_end s)" | "d = dt_date (sgm_end s)"
        | "dt_date (sgm_start s) \<le> d" "d < dt_date (sgm_end s)" by linarith
      then show ?thesis
      proof cases
        case 1
        then have "at_midnight (d + 1) \<le> sgm_start s" by (simp add: at_midnight_le)
        with 1 show ?thesis by (simp add: clip_def window_on_def)
      next
        case 2
        then have "sgm_end s \<le> at_midnight d" using less_at_midnight [of "sgm_end s" d] by simp
        with 2 show ?thesis by (simp add: clip_def window_on_def)
      next
        case 3
        then show ?thesis using end_dt by (simp add: clip_def window_on_def)
      next
        case 4
        have "at_midnight (d + 1) \<le> sgm_end s" using 4 by (simp add: at_midnight_le)
        moreover have "sgm_start s \<le> at_midnight d"
          using 4 start less_at_midnight [of "sgm_start s" d] by (cases "d = dt_date (sgm_start s)") auto
        ultimately show ?thesis using 4 by (simp add: clip_def window_on_def at_midnight_def)
      qed
    qed
    with whole owned show ?thesis by (simp add: billed_on_segment [OF le] billed_dates_of_def del: set_map)
  qed
qed

section \<open>The money of one segment\<close>

text \<open>The time a line bills in all.\<close>

definition billed_time :: "line \<Rightarrow> int" where
  "billed_time x = (if ln_unit x = ''day'' then int (length (ln_dates x)) * day_us
     else the (ln_period_to x) - the (ln_period_from x))"

lemma sum_list_indicator:
  "distinct xs \<Longrightarrow> set ds \<subseteq> set xs \<Longrightarrow> distinct ds \<Longrightarrow>
   sum_list (map (\<lambda>d. if d \<in> set ds then c else 0) xs) = int (length ds) * (c::int)"
proof -
  assume d: "distinct xs" "set ds \<subseteq> set xs" "distinct ds"
  have "sum_list (map (\<lambda>d. if d \<in> set ds then c else 0) xs) = (\<Sum>d \<in> set xs. if d \<in> set ds then c else 0)"
    using d(1) by (simp add: sum_list_distinct_conv_sum_set)
  also have "\<dots> = (\<Sum>d \<in> set ds. c)" using d(2) by (simp add: sum.If_cases Int_absorb1)
  finally show ?thesis using d(3) by (simp add: distinct_card)
qed

lemma sum_list_swap:
  "sum_list (map (\<lambda>d. sum_list (map (\<lambda>x. f d x) xs)) ds) = sum_list (map (\<lambda>x. sum_list (map (\<lambda>d. f d x) ds)) xs)"
  for f :: "'a \<Rightarrow> 'b \<Rightarrow> int"
  by (induction ds) (simp_all add: sum_list_addf)

definition well_dated :: "date list \<Rightarrow> line \<Rightarrow> bool" where
  "well_dated ds x \<longleftrightarrow> (if ln_unit x = ''day'' then set (ln_dates x) \<subseteq> set ds \<and> distinct (ln_dates x)
     else \<exists>d. ln_charge_date x = Some d \<and> d \<in> set ds)"

lemma billed_time_sum:
  assumes "distinct ds" "well_dated ds x"
  shows "sum_list (map (\<lambda>d. billed_on d x) ds) = billed_time x"
proof (cases "ln_unit x = ''day''")
  case True
  with assms show ?thesis
    using sum_list_indicator [OF assms(1), of "ln_dates x" day_us]
    by (simp add: billed_on_def billed_time_def well_dated_def)
next
  case False
  with assms obtain d where d: "ln_charge_date x = Some d" "d \<in> set ds" by (auto simp: well_dated_def)
  have "sum_list (map (\<lambda>k. if k = d then billed_time x else 0) ds) = billed_time x"
    using sum_indicator_set [OF assms(1), of d "\<lambda>_. billed_time x"] d(2) by simp
  moreover have "billed_on k x = (if k = d then billed_time x else 0)" for k
    using False d(1) by (auto simp: billed_on_def billed_time_def)
  ultimately show ?thesis by simp
qed

lemma segment_lines_cases:
  assumes "x \<in> set (segment_lines r2 s hourly_dates b)"
  obtains (daily) "x = daily_line r2 s (int (length (billed_dates_of s hourly_dates b))) (pb_day_units b)
      (billed_dates_of s hourly_dates b)"
  | (partial) d w where "(d, w) \<in> set (partial_days s hourly_dates)"
      "x = hourly_line r2 s (hours_between (fst w) (snd w)) (pb_hour_units b) d w"
  | (resize) d w where "d \<in> set (dates_touched (sgm_start s) (sgm_end s))"
      "x = hourly_line r2 s (hours_between (fst w) (snd w)) (pb_hour_units b) d w"
proof -
  have pl: "partial_day_lines r2 s (partial_days s hourly_dates) b =
      map (\<lambda>(d, w). hourly_line r2 s (hours_between (fst w) (snd w)) (pb_hour_units b) d w) (partial_days s hourly_dates)"
    unfolding partial_day_lines_def by (rule map_cong [OF refl]) (simp add: split_beta)
  have rl: "resize_day_lines r2 s hourly_dates b =
      map (\<lambda>d. hourly_line r2 s (hours_between (fst (window_on s d)) (snd (window_on s d))) (pb_hour_units b) d (window_on s d))
       (filter (\<lambda>day. day \<in> set hourly_dates \<and> \<not> hours_between (fst (window_on s day)) (snd (window_on s day)) \<le> 0)
          (dates_touched (sgm_start s) (sgm_end s)))"
    unfolding resize_day_lines_def by (rule map_cong [OF refl]) (simp add: split_beta Let_def)
  have "x \<in> set (if billed_dates_of s hourly_dates b \<noteq> []
        then [daily_line r2 s (int (length (billed_dates_of s hourly_dates b))) (pb_day_units b) (billed_dates_of s hourly_dates b)] else [])
     \<or> x \<in> set (partial_day_lines r2 s (partial_days s hourly_dates) b) \<or> x \<in> set (resize_day_lines r2 s hourly_dates b)"
    using assms unfolding segment_lines_def Let_def set_append by blast
  then show thesis
  proof (elim disjE)
    assume "x \<in> set (partial_day_lines r2 s (partial_days s hourly_dates) b)"
    then obtain d w where "(d, w) \<in> set (partial_days s hourly_dates)"
      "x = hourly_line r2 s (hours_between (fst w) (snd w)) (pb_hour_units b) d w" unfolding pl by auto
    then show thesis by (rule partial)
  next
    assume "x \<in> set (resize_day_lines r2 s hourly_dates b)"
    then obtain d where "d \<in> set (dates_touched (sgm_start s) (sgm_end s))"
      "x = hourly_line r2 s (hours_between (fst (window_on s d)) (snd (window_on s d))) (pb_hour_units b) d (window_on s d)"
      unfolding rl by auto
    then show thesis by (rule resize)
  qed (intro daily, simp split: if_splits)
qed

lemma segment_lines_dated:
  assumes ok: "segment_ok s hourly_dates b" and x: "x \<in> set (segment_lines r2 s hourly_dates b)"
  shows "well_dated [dt_date (sgm_start s)..dt_date (sgm_end s)] x"
proof -
  have le: "sgm_start s \<le> sgm_end s" using ok by (simp add: segment_ok_def)
  note P = partial_days_facts(3) [OF le, where hourly_dates = hourly_dates]
  have owned: "set (owned_dates s b) = {dt_date (sgm_start s)..<dt_date (sgm_end s)}"
    using ok by (simp add: owned_dates_def set_dates_upto segment_ok_def max_absorb1 min_absorb1)
  have lee: "dt_date (sgm_start s) \<le> dt_date (sgm_end s)" by (rule dt_date_mono [OF le])
  from x show ?thesis
  proof (cases rule: segment_lines_cases)
    case daily
    then show ?thesis using owned
      by (auto simp: well_dated_def daily_line_def billed_dates_of_def owned_dates_def distinct_dates_upto)
  next
    case (partial d w)
    then have "d \<in> set (map fst (partial_days s hourly_dates))" by force
    with P [of d] have "d = dt_date (sgm_start s) \<or> d = dt_date (sgm_end s)" by blast
    with partial(2) lee show ?thesis by (auto simp: well_dated_def hourly_line_def)
  next
    case (resize d w)
    have "d \<le> dt_date (sgm_end s)" if "at_midnight d < sgm_end s"
      using that at_midnight_le [of d "sgm_end s"] by simp
    with resize show ?thesis by (auto simp: well_dated_def hourly_line_def dates_touched_def set_dates_before)
  qed
qed

lemma segment_time_exact:
  assumes ok: "segment_ok s hourly_dates b"
  shows "sum_list (map billed_time (segment_lines r2 s hourly_dates b)) = sgm_end s - sgm_start s"
proof -
  let ?ds = "[dt_date (sgm_start s)..dt_date (sgm_end s)]" and ?ls = "segment_lines r2 s hourly_dates b"
  have "sum_list (map billed_time ?ls) = sum_list (map (\<lambda>x. sum_list (map (\<lambda>d. billed_on d x) ?ds)) ?ls)"
    by (intro arg_cong [of _ _ sum_list] map_cong refl
        billed_time_sum [OF distinct_upto segment_lines_dated [OF ok], symmetric])
  also have "\<dots> = sum_list (map (\<lambda>d. sum_list (map (\<lambda>x. billed_on d x) ?ls)) ?ds)" by (rule sum_list_swap [symmetric])
  also have "\<dots> = sum_list (map (clip s) ?ds)" using segment_billed_exactly [OF ok] by simp
  also have "\<dots> = sgm_end s - sgm_start s" using ok by (intro sum_clip_all) (simp add: segment_ok_def)
  finally show ?thesis .
qed

text \<open>Every line's amount is its time at the segment's rate per period, before rounding.\<close>

definition priced :: "segment \<Rightarrow> bounds \<Rightarrow> int \<Rightarrow> rat" where
  "priced s b t = of_int t * sgm_rate s / of_int (pb_day_units b * day_us)"

lemma segment_lines_priced:
  assumes "pb_hour_units b = pb_day_units b * 24" "x \<in> set (segment_lines r2 s hourly_dates b)"
  shows "ln_amount x = r2 (priced s b (billed_time x))"
  using assms(2)
  by (cases rule: segment_lines_cases)
    (simp_all add: daily_line_def hourly_line_def billed_time_def priced_def hours_between_def assms(1) field_simps)

lemma priced_sum: "sum_list (map (\<lambda>x. priced s b (f x)) xs) = priced s b (sum_list (map f xs))"
  by (induction xs) (simp_all add: priced_def add_divide_distrib distrib_right)

lemma segment_amount_exact:
  assumes "segment_ok s hourly_dates b" "pb_hour_units b = pb_day_units b * 24"
  shows "sum_list (map ln_amount (segment_lines (\<lambda>x. x) s hourly_dates b)) = priced s b (sgm_end s - sgm_start s)"
proof -
  have "sum_list (map ln_amount (segment_lines (\<lambda>x. x) s hourly_dates b))
      = sum_list (map (\<lambda>x. priced s b (billed_time x)) (segment_lines (\<lambda>x. x) s hourly_dates b))"
    by (intro arg_cong [of _ _ sum_list] map_cong refl segment_lines_priced [OF assms(2)])
  then show ?thesis by (simp add: priced_sum segment_time_exact [OF assms(1)])
qed

section \<open>Well-formed histories\<close>

text \<open>
  The history of one subscription in \<open>effective_at\<close> order: it is created, its plan changes any
  number of times, it is cancelled, and it may be created again; every rate is locked.
\<close>

fun changes_ok :: "bool \<Rightarrow> change list \<Rightarrow> bool" where
  "changes_ok live [] = True"
| "changes_ok live (c # cs) =
     ((if ch_type c = ''Created'' then \<not> live \<and> ch_rate c \<noteq> None \<and> changes_ok True cs
       else if ch_type c = ''Plan Changed'' then live \<and> ch_rate c \<noteq> None \<and> changes_ok True cs
       else ch_type c = ''Cancelled'' \<and> live \<and> changes_ok False cs)
      \<and> (case cs of [] \<Rightarrow> True | f # _ \<Rightarrow> ch_at c \<le> ch_at f))"

lemma hourly_dates_mono: "set segs \<subseteq> set segs' \<Longrightarrow> set (hourly_dates_of segs) \<subseteq> set (hourly_dates_of segs')"
  by (auto simp: hourly_dates_of_def)

lemma segment_ok_mono: "segment_ok s h b \<Longrightarrow> set h \<subseteq> set h' \<Longrightarrow> segment_ok s h' b"
  unfolding segment_ok_def by blast

lemma segment_of_SomeD:
  assumes "segment_of sub cluster c fol b = Some s" "b = period_bounds ps pe"
  shows "sgm_start s = max (ch_at c) (at_midnight ps)"
    and "sgm_end s = min (case fol of Some f \<Rightarrow> ch_at f | None \<Rightarrow> at_midnight (pe + 1)) (at_midnight (pe + 1))"
    and "sgm_start s < at_midnight (pe + 1)" "at_midnight ps < sgm_end s"
    and "sgm_resized_mid_day s = (ch_type c = ''Plan Changed'' \<and> sgm_start s = ch_at c \<and> dt_time (sgm_start s) \<noteq> 0)"
    and "sgm_opens s = (ch_type c = ''Created'')"
    and "sgm_closes s = (case fol of Some f \<Rightarrow> ch_type f = ''Cancelled'' | None \<Rightarrow> False)"
    and "sgm_rate s = the (ch_rate c)"
proof -
  have b: "pb_start_dt b = at_midnight ps" "pb_end_excl_dt b = at_midnight (pe + 1)"
    using assms(2) by (simp_all add: period_bounds_def Let_def)
  let ?start = "max (ch_at c) (at_midnight ps)"
  let ?stop = "min (case fol of Some f \<Rightarrow> ch_at f | None \<Rightarrow> at_midnight (pe + 1)) (at_midnight (pe + 1))"
  have "\<not> (?start \<ge> at_midnight (pe + 1) \<or> ?stop \<le> at_midnight ps)"
    using assms(1) unfolding segment_of_def Let_def b by (metis option.distinct(1))
  moreover from this have "s = \<lparr>sgm_start = ?start, sgm_end = ?stop, sgm_opened_at = ch_at c, sgm_rate = the (ch_rate c),
        sgm_plan = ch_plan c, sgm_server = sb_server sub, sgm_cluster = cluster,
        sgm_resized_mid_day = (ch_type c = ''Plan Changed'' \<and> ?start = ch_at c \<and> dt_time ?start \<noteq> 0),
        sgm_opens = (ch_type c = ''Created''),
        sgm_closes = (case fol of Some f \<Rightarrow> ch_type f = ''Cancelled'' | None \<Rightarrow> False)\<rparr>"
    using assms(1) unfolding segment_of_def Let_def b by (metis option.inject)
  ultimately show "sgm_start s = max (ch_at c) (at_midnight ps)"
    and "sgm_end s = min (case fol of Some f \<Rightarrow> ch_at f | None \<Rightarrow> at_midnight (pe + 1)) (at_midnight (pe + 1))"
    and "sgm_start s < at_midnight (pe + 1)" "at_midnight ps < sgm_end s"
    and "sgm_resized_mid_day s = (ch_type c = ''Plan Changed'' \<and> sgm_start s = ch_at c \<and> dt_time (sgm_start s) \<noteq> 0)"
    and "sgm_opens s = (ch_type c = ''Created'')"
    and "sgm_closes s = (case fol of Some f \<Rightarrow> ch_type f = ''Cancelled'' | None \<Rightarrow> False)"
    and "sgm_rate s = the (ch_rate c)"
    by (simp_all only: segment.simps not_le de_Morgan_disj)
qed

lemma plan_change_in_period:
  assumes "changes_ok True (f # cs)" "ch_type f = ''Plan Changed''" "b = period_bounds ps pe" "ps \<le> pe"
    and "at_midnight ps < ch_at f" "ch_at f < at_midnight (pe + 1)" "dt_time (ch_at f) \<noteq> 0"
  shows "dt_date (ch_at f) \<in> set (hourly_dates_of (segments sub cluster (f # cs) b))"
proof -
  define fol where "fol = (case cs of [] \<Rightarrow> None | g # _ \<Rightarrow> Some g)"
  have "ch_at f \<le> (case fol of Some g \<Rightarrow> ch_at g | None \<Rightarrow> at_midnight (pe + 1))"
    using assms(1,6) by (auto simp: fol_def split: list.splits)
  then have "\<exists>s. segment_of sub cluster f fol b = Some s \<and> sgm_resized_mid_day s \<and> sgm_start s = ch_at f"
    using assms(2-7) by (cases fol) (simp_all add: segment_of_def period_bounds_def Let_def)
  then obtain s where s: "segment_of sub cluster f fol b = Some s" and r: "sgm_resized_mid_day s"
    "sgm_start s = ch_at f" by blast
  have "s \<in> set (segments sub cluster (f # cs) b)" using assms(1,2) s by (auto simp: fol_def)
  with r show ?thesis by (force simp: hourly_dates_of_def)
qed

lemma segments_ok:
  assumes "changes_ok live cs" "ps \<le> pe" "b = period_bounds ps pe" "s \<in> set (segments sub cluster cs b)"
  shows "segment_ok s (hourly_dates_of (segments sub cluster cs b)) b"
  using assms
proof (induction cs arbitrary: live)
  case (Cons c cs)
  have P: "pb_start_dt b = at_midnight ps" "pb_end_excl_dt b = at_midnight (pe + 1)" "pb_start b = ps" "pb_end b = pe"
    using Cons.prems(3) by (simp_all add: period_bounds_def Let_def)
  obtain live' where rest: "changes_ok live' cs" using Cons.prems(1) by (auto split: if_splits)
  define fol where "fol = (case cs of [] \<Rightarrow> None | f # _ \<Rightarrow> Some f)"
  let ?segs = "segments sub cluster (c # cs) b"
  have sub: "set (segments sub cluster cs b) \<subseteq> set ?segs" by (auto split: option.splits)
  show ?case
  proof (cases "s \<in> set (segments sub cluster cs b)")
    case True
    from Cons.IH [OF rest Cons.prems(2,3) True] hourly_dates_mono [OF sub]
    show ?thesis by (rule segment_ok_mono)
  next
    case False
    with Cons.prems(4) have live_c: "ch_type c \<noteq> ''Cancelled''" "ch_rate c \<noteq> None"
      and seg: "segment_of sub cluster c fol b = Some s"
      by (auto simp: fol_def split: if_splits option.splits)
    note S = segment_of_SomeD [OF seg Cons.prems(3)]
    have s_in: "s \<in> set ?segs" by (rule Cons.prems(4))
    have le: "sgm_start s \<le> sgm_end s"
      using S(1-4) Cons.prems(1) by (auto simp: fol_def split: list.splits)
    have ps: "ps \<le> dt_date (sgm_start s)" using S(1) by (simp add: at_midnight_le [symmetric])
    have pe: "dt_date (sgm_end s) \<le> pe + 1" using S(2) dt_date_mono [of "sgm_end s" "at_midnight (pe + 1)"] by simp
    have start: "sgm_opens s \<or> dt_date (sgm_start s) \<in> set (hourly_dates_of ?segs)" if t: "dt_time (sgm_start s) \<noteq> 0"
    proof -
      have "sgm_start s = ch_at c" using S(1) t by (auto simp: max_def split: if_splits)
      then have "sgm_opens s \<or> sgm_resized_mid_day s"
        using S(5,6) t live_c Cons.prems(1) by (auto split: if_splits)
      with s_in show ?thesis by (force simp: hourly_dates_of_def)
    qed
    have end_dt: "sgm_closes s \<or> dt_date (sgm_end s) \<in> set (hourly_dates_of ?segs)" if t: "dt_time (sgm_end s) \<noteq> 0"
    proof -
      obtain f cs' where f: "cs = f # cs'" "sgm_end s = ch_at f" "ch_at f < at_midnight (pe + 1)"
      proof (cases cs)
        case Nil
        with S(2) t show ?thesis by (simp add: fol_def)
      next
        case (Cons f cs')
        have "sgm_end s \<noteq> at_midnight (pe + 1)" using t by auto
        with S(2) Cons show ?thesis by (intro that [OF Cons]) (auto simp: fol_def min_def split: if_splits)
      qed
      have "changes_ok True cs" using Cons.prems(1) live_c by (auto split: if_splits)
      then have "ch_type f = ''Cancelled'' \<or> ch_type f = ''Plan Changed''" using f(1) by (auto split: if_splits)
      moreover have "ch_type f = ''Plan Changed'' \<Longrightarrow> dt_date (ch_at f) \<in> set (hourly_dates_of (segments sub cluster cs b))"
        using plan_change_in_period [OF _ _ Cons.prems(3,2)] f \<open>changes_ok True cs\<close> S(4) t by simp
      ultimately show ?thesis using S(7) f hourly_dates_mono [OF sub] by (auto simp: fol_def)
    qed
    show ?thesis using le ps pe start end_dt by (simp add: segment_ok_def P)
  qed
qed simp

section \<open>One subscription\<close>

definition pinned_to_day :: "date \<Rightarrow> datetime \<Rightarrow> datetime" where
  "pinned_to_day d t = max (at_midnight d) (min t (at_midnight (d + 1)))"

lemma pinned_to_day_bounds:
  "pinned_to_day d t \<le> at_midnight (d + 1)" "at_midnight d \<le> pinned_to_day d t"
  by (auto simp: pinned_to_day_def at_midnight_def)

lemma clip_le:
  "sgm_start s \<le> sgm_end s \<Longrightarrow> t \<le> sgm_start s \<Longrightarrow> sgm_end s \<le> t' \<Longrightarrow> clip s d \<le> pinned_to_day d t' - pinned_to_day d t"
  by (auto simp: clip_def window_on_def pinned_to_day_def at_midnight_def max_def min_def)

text \<open>The segments of a subscription do not overlap, so no date is billed beyond a whole day.\<close>

lemma sum_clip_le:
  assumes "changes_ok live cs" "ps \<le> pe" "b = period_bounds ps pe"
    and "case cs of [] \<Rightarrow> True | c # _ \<Rightarrow> t \<le> ch_at c"
  shows "sum_list (map (\<lambda>s. clip s d) (segments sub cluster cs b)) \<le> at_midnight (d + 1) - pinned_to_day d t"
  using assms
proof (induction cs arbitrary: live t)
  case Nil
  then show ?case by (simp add: pinned_to_day_bounds)
next
  case (Cons c cs)
  obtain live' where rest: "changes_ok live' cs" using Cons.prems(1) by (auto split: if_splits)
  have t: "t \<le> ch_at c" using Cons.prems(4) by simp
  define t' where "t' = (case cs of [] \<Rightarrow> max t (at_midnight (pe + 1)) | f # _ \<Rightarrow> ch_at f)"
  define fol where "fol = (case cs of [] \<Rightarrow> None | f # _ \<Rightarrow> Some f)"
  have tt': "t \<le> t'" using Cons.prems(1) t by (auto simp: t'_def split: list.splits)
  have IH: "sum_list (map (\<lambda>s. clip s d) (segments sub cluster cs b)) \<le> at_midnight (d + 1) - pinned_to_day d t'"
    by (rule Cons.IH [OF rest Cons.prems(2,3)]) (simp add: t'_def split: list.splits)
  have mono: "pinned_to_day d t \<le> pinned_to_day d t'" using tt' by (auto simp: pinned_to_day_def)
  show ?case
  proof (cases "ch_type c = ''Cancelled'' \<or> ch_rate c = None \<or> segment_of sub cluster c fol b = None")
    case True
    then have "segments sub cluster (c # cs) b = segments sub cluster cs b" by (auto simp: fol_def)
    with IH mono show ?thesis by simp
  next
    case False
    then obtain s where seg: "segment_of sub cluster c fol b = Some s" by auto
    have segs: "segments sub cluster (c # cs) b = s # segments sub cluster cs b"
      using False seg by (auto simp: fol_def)
    note S = segment_of_SomeD [OF seg Cons.prems(3)]
    have "sgm_start s \<le> sgm_end s" using S(1-4) Cons.prems(1) by (auto simp: fol_def split: list.splits)
    moreover have "t \<le> sgm_start s" using S(1) t by simp
    moreover have "sgm_end s \<le> t'" using S(2) by (auto simp: t'_def fol_def split: list.splits)
    ultimately have "clip s d \<le> pinned_to_day d t' - pinned_to_day d t" by (rule clip_le)
    with IH show ?thesis unfolding segs by simp
  qed
qed

lemma sum_list_sort_key: "sum_list (map f (sort_key k xs)) = (sum_list (map f xs) :: 'b::comm_monoid_add)"
proof -
  have "sum_mset (mset (map f (sort_key k xs))) = sum_mset (mset (map f xs))" by simp
  then show ?thesis by (simp only: sum_mset_sum_list)
qed

lemma sum_list_concat_map:
  "sum_list (map f (concat (map g xs))) = (sum_list (map (\<lambda>x. sum_list (map f (g x))) xs) :: 'b::comm_monoid_add)"
  by (induction xs) simp_all

section \<open>The rate in force\<close>

text \<open>
  What a subscription owes, said of the change history alone: the rate locked at an instant is the
  one of the latest change made by then, none before the first change or while cancelled.
\<close>

definition locked_rate :: "change \<Rightarrow> money option" where
  "locked_rate c = (if ch_type c = ''Cancelled'' then None else ch_rate c)"

definition rate_at :: "change list \<Rightarrow> datetime \<Rightarrow> money option" where
  "rate_at cs t = (let made = filter (\<lambda>c. ch_at c \<le> t) cs in if made = [] then None else locked_rate (last made))"

definition owed_rate :: "money option \<Rightarrow> money" where
  "owed_rate r = (case r of Some x \<Rightarrow> x | None \<Rightarrow> 0)"

definition period_instants :: "date \<Rightarrow> date \<Rightarrow> datetime set" where
  "period_instants ps pe = {at_midnight ps..<at_midnight (pe + 1)}"

lemma rate_at_Nil [simp]: "rate_at [] t = None"
  by (simp add: rate_at_def)

lemma changes_ok_sorted:
  "changes_ok live (c # cs) \<Longrightarrow> f \<in> set cs \<Longrightarrow> ch_at c \<le> ch_at f"
proof (induction cs arbitrary: live c)
  case (Cons g cs)
  obtain live' where "changes_ok live' (g # cs)" and "ch_at c \<le> ch_at g"
    using Cons.prems(1) by (auto simp del: changes_ok.simps(2) simp: changes_ok.simps(2) [of live c] split: if_splits)
  moreover from this(1) have "ch_at g \<le> ch_at f" if "f \<in> set cs" using Cons.IH that by blast
  ultimately show ?case using Cons.prems(2) by (metis order.trans set_ConsD)
qed simp

text \<open>A change sets the rate from its own time to the next change's; the later ones say the rest.\<close>

lemma rate_at_Cons:
  assumes "changes_ok live (c # cs)"
  shows "rate_at (c # cs) t = (if cs \<noteq> [] \<and> ch_at (hd cs) \<le> t then rate_at cs t
      else if ch_at c \<le> t then locked_rate c else None)"
    and "cs \<noteq> [] \<Longrightarrow> t < ch_at (hd cs) \<Longrightarrow> rate_at cs t = None"
proof -
  obtain live' where rest: "changes_ok live' cs" using assms by (auto split: if_splits)
  have hd: "filter (\<lambda>c. ch_at c \<le> t) cs = []" if "cs = [] \<or> t < ch_at (hd cs)"
  proof (cases cs)
    case (Cons f gs)
    then have "ch_at f \<le> ch_at g" if "g \<in> set gs" for g using changes_ok_sorted rest that by blast
    with Cons that show ?thesis by (force simp: filter_empty_conv)
  qed simp
  show "rate_at (c # cs) t = (if cs \<noteq> [] \<and> ch_at (hd cs) \<le> t then rate_at cs t
      else if ch_at c \<le> t then locked_rate c else None)"
  proof (cases "cs \<noteq> [] \<and> ch_at (hd cs) \<le> t")
    case True
    then obtain f gs where f: "cs = f # gs" "ch_at f \<le> t" by (cases cs) auto
    then have "filter (\<lambda>c. ch_at c \<le> t) cs \<noteq> []" by simp
    with True show ?thesis by (simp add: rate_at_def Let_def)
  next
    case False
    with hd have "filter (\<lambda>c. ch_at c \<le> t) cs = []" by auto
    with False show ?thesis by (auto simp: rate_at_def)
  qed
  show "cs \<noteq> [] \<Longrightarrow> t < ch_at (hd cs) \<Longrightarrow> rate_at cs t = None" using hd by (simp add: rate_at_def)
qed

lemma sum_interval_indicator:
  "(\<Sum>t\<in>{a..<e}. if lo \<le> t \<and> t < hi then c else 0) = of_int (max 0 (min e hi - max a lo)) * (c :: 'z::comm_ring_1)"
  for a e lo hi :: int
proof -
  have "{a..<e} \<inter> {t. lo \<le> t \<and> t < hi} = {max a lo..<min e hi}" by auto
  then have "(\<Sum>t\<in>{a..<e}. if lo \<le> t \<and> t < hi then c else 0) = of_nat (nat (min e hi - max a lo)) * c"
    by (simp add: sum.If_cases)
  moreover have "(of_nat (nat k) :: 'z) = of_int (max 0 k)" for k :: int
    by (metis max.commute of_int_of_nat_eq int_nat_eq max_def)
  ultimately show ?thesis by simp
qed

lemma sum_rate_cut:
  assumes ok: "changes_ok live (c # cs)" and f: "f None = 0"
  defines "fol \<equiv> (case cs of [] \<Rightarrow> None | g # _ \<Rightarrow> Some g)"
  shows "(\<Sum>t\<in>{a..<e}. f (rate_at (c # cs) t)) =
      of_int (max 0 (min e (case fol of Some g \<Rightarrow> ch_at g | None \<Rightarrow> e) - max a (ch_at c))) * f (locked_rate c)
      + (\<Sum>t\<in>{a..<e}. f (rate_at cs t) :: 'z::comm_ring_1)"
proof -
  note R = rate_at_Cons [OF ok]
  define nxt where "nxt = (case fol of Some g \<Rightarrow> ch_at g | None \<Rightarrow> e)"
  have split: "f (rate_at (c # cs) t) = (if ch_at c \<le> t \<and> t < nxt then f (locked_rate c) else 0) + f (rate_at cs t)"
    if "t < e" for t
  proof (cases cs)
    case Nil
    then show ?thesis using that f R(1) [of t] by (simp add: nxt_def fol_def)
  next
    case (Cons g gs)
    then have nxt: "nxt = ch_at g" "ch_at c \<le> ch_at g" using ok by (auto simp: nxt_def fol_def)
    show ?thesis
    proof (cases "ch_at g \<le> t")
      case True
      then show ?thesis using R(1) [of t] by (simp add: Cons nxt(1))
    next
      case False
      then have "rate_at cs t = None" using R(2) Cons by simp
      with False show ?thesis using f R(1) [of t] by (simp add: Cons nxt(1))
    qed
  qed
  have "(\<Sum>t\<in>{a..<e}. f (rate_at (c # cs) t))
      = (\<Sum>t\<in>{a..<e}. (if ch_at c \<le> t \<and> t < nxt then f (locked_rate c) else 0) + f (rate_at cs t))"
    by (intro sum.cong refl split) simp
  then show ?thesis by (simp only: sum.distrib sum_interval_indicator nxt_def)
qed

text \<open>The segments cut the instants of the period by the rate in force, each instant once.\<close>

lemma segments_follow_rate:
  assumes "changes_ok live cs" "b = period_bounds ps pe" "f None = (0 :: 'z::comm_ring_1)"
    and "at_midnight ps \<le> a" "e \<le> at_midnight (pe + 1)"
  shows "sum_list (map (\<lambda>s. of_int (max 0 (min e (sgm_end s) - max a (sgm_start s))) * f (Some (sgm_rate s)))
      (segments sub cluster cs b)) = (\<Sum>t\<in>{a..<e}. f (rate_at cs t))"
  using assms(1)
proof (induction cs arbitrary: live)
  case Nil
  then show ?case using assms(3) by simp
next
  case (Cons c cs)
  obtain live' where rest: "changes_ok live' cs" using Cons.prems by (auto split: if_splits)
  define fol where "fol = (case cs of [] \<Rightarrow> None | g # _ \<Rightarrow> Some g)"
  note IH = Cons.IH [OF rest] and cut = sum_rate_cut [OF Cons.prems, where f = f and a = a and e = e, OF assms(3), folded fol_def]
  have b: "pb_start_dt b = at_midnight ps" "pb_end_excl_dt b = at_midnight (pe + 1)"
    using assms(2) by (simp_all add: period_bounds_def Let_def)
  consider (unlocked) "locked_rate c = None" | (out) "segment_of sub cluster c fol b = None"
    | (seg) s r where "ch_type c \<noteq> ''Cancelled''" "ch_rate c = Some r" "segment_of sub cluster c fol b = Some s"
    by (cases "locked_rate c"; cases "segment_of sub cluster c fol b") (auto simp: locked_rate_def split: if_splits)
  then show ?case
  proof cases
    case unlocked
    then have "segments sub cluster (c # cs) b = segments sub cluster cs b" by (auto simp: locked_rate_def split: if_splits)
    with IH cut unlocked assms(3) show ?thesis by simp
  next
    case out
    then have "segments sub cluster (c # cs) b = segments sub cluster cs b" by (simp add: fol_def)
    moreover have "min e (case fol of Some g \<Rightarrow> ch_at g | None \<Rightarrow> e) - max a (ch_at c) \<le> 0"
      using out assms(4,5) by (cases fol) (auto simp: segment_of_def Let_def b at_midnight_def split: if_splits)
    ultimately show ?thesis using IH cut by simp
  next
    case (seg s r)
    note S = segment_of_SomeD [OF seg(3) assms(2)]
    have segs: "segments sub cluster (c # cs) b = s # segments sub cluster cs b"
      using seg by (simp add: fol_def)
    have "max 0 (min e (sgm_end s) - max a (sgm_start s))
        = max 0 (min e (case fol of Some g \<Rightarrow> ch_at g | None \<Rightarrow> e) - max a (ch_at c))"
    proof (cases fol)
      case (Some g)
      have "min e (min (ch_at g) (at_midnight (pe + 1))) = min e (ch_at g)" using assms(5) by simp
      moreover have "max a (max (ch_at c) (at_midnight ps)) = max a (ch_at c)" using assms(4) by simp
      ultimately show ?thesis unfolding S(1,2) Some by simp
    qed (use assms(4,5) in \<open>simp add: S(1,2)\<close>)
    moreover have "locked_rate c = Some (sgm_rate s)" using seg(1,2) S(8) by (simp add: locked_rate_def)
    ultimately show ?thesis using IH cut unfolding segs by simp
  qed
qed

lemma sum_lines:
  "sum_list (map f (subscription_lines r2 sub cluster cs b))
    = (sum_list (map (\<lambda>s. sum_list (map f (segment_lines r2 s (hourly_dates_of (segments sub cluster cs b)) b)))
        (segments sub cluster cs b)) :: 'z::comm_monoid_add)"
  by (simp add: subscription_lines_def Let_def ordered_def sum_list_sort_key sum_list_concat_map)

lemma segment_lines_rate: "x \<in> set (segment_lines r2 s hourly_dates b) \<Longrightarrow> ln_rate x = sgm_rate s"
  by (elim segment_lines_cases) (simp_all add: daily_line_def hourly_line_def)

lemma segments_inside:
  assumes "s \<in> set (segments sub cluster cs b)" "b = period_bounds ps pe"
  shows "at_midnight ps \<le> sgm_start s" "sgm_end s \<le> at_midnight (pe + 1)"
proof -
  obtain c fol where "segment_of sub cluster c fol b = Some s"
    using assms(1) by (induction sub cluster cs b rule: segments.induct) (auto split: if_splits option.splits)
  from segment_of_SomeD(1,2) [OF this assms(2)]
  show "at_midnight ps \<le> sgm_start s" "sgm_end s \<le> at_midnight (pe + 1)" by simp_all
qed

lemma subscription_lines_priced:
  assumes "b = period_bounds ps pe" "x \<in> set (subscription_lines r2 sub cluster cs b)"
  shows "ln_amount x = r2 (of_int (billed_time x) * ln_rate x / of_int ((pe - ps + 1) * day_us))"
proof -
  have units: "pb_hour_units b = pb_day_units b * 24" "pb_day_units b = pe - ps + 1"
    using assms(1) by (simp_all add: period_bounds_def Let_def days_in_period_def)
  obtain s where "x \<in> set (segment_lines r2 s (hourly_dates_of (segments sub cluster cs b)) b)"
    using assms(2) by (auto simp: subscription_lines_def Let_def ordered_def)
  from segment_lines_priced [OF units(1) this] segment_lines_rate [OF this]
  show ?thesis by (simp add: priced_def units(2))
qed

text \<open>The time billed of a date at one rate, and at any.\<close>

lemma billed_at_rate:
  assumes ok: "changes_ok False cs" "ps \<le> pe" "b = period_bounds ps pe" and f: "f None = (0::int)"
  shows "sum_list (map (\<lambda>x. billed_on d x * f (Some (ln_rate x))) (subscription_lines r2 sub cluster cs b))
    = (\<Sum>t\<in>period_instants ps pe \<inter> {at_midnight d..<at_midnight (d + 1)}. f (rate_at cs t))"
proof -
  let ?segs = "segments sub cluster cs b" and ?a = "max (at_midnight ps) (at_midnight d)"
    and ?e = "min (at_midnight (pe + 1)) (at_midnight (d + 1))"
  have seg: "sum_list (map (\<lambda>x. billed_on d x * f (Some (ln_rate x))) (segment_lines r2 s (hourly_dates_of ?segs) b))
      = of_int (max 0 (min ?e (sgm_end s) - max ?a (sgm_start s))) * f (Some (sgm_rate s))" if s: "s \<in> set ?segs" for s
  proof -
    note S = segments_inside [OF s ok(3)]
    have "sum_list (map (\<lambda>x. billed_on d x * f (Some (ln_rate x))) (segment_lines r2 s (hourly_dates_of ?segs) b))
        = sum_list (map (\<lambda>x. billed_on d x * f (Some (sgm_rate s))) (segment_lines r2 s (hourly_dates_of ?segs) b))"
      by (intro arg_cong [of _ _ sum_list] map_cong refl) (simp add: segment_lines_rate)
    also have "\<dots> = clip s d * f (Some (sgm_rate s))"
      by (simp add: sum_list_mult_const segment_billed_exactly [OF segments_ok [OF ok s]])
    also have "clip s d = max 0 (min ?e (sgm_end s) - max ?a (sgm_start s))"
    proof -
      have "x \<le> p \<Longrightarrow> min (min p m) x = min x m" "q \<le> y \<Longrightarrow> max (max q m) y = max y m" for p q m x y :: int by auto
      from this(1) [OF S(2)] this(2) [OF S(1)] show ?thesis by (simp only: clip_def window_on_def fst_conv snd_conv)
    qed
    finally show ?thesis by simp
  qed
  have "period_instants ps pe \<inter> {at_midnight d..<at_midnight (d + 1)} = {?a..<?e}"
    by (auto simp: period_instants_def)
  moreover have "sum_list (map (\<lambda>x. billed_on d x * f (Some (ln_rate x))) (subscription_lines r2 sub cluster cs b))
      = sum_list (map (\<lambda>s. of_int (max 0 (min ?e (sgm_end s) - max ?a (sgm_start s))) * f (Some (sgm_rate s))) ?segs)"
    unfolding sum_lines by (intro arg_cong [of _ _ sum_list] map_cong refl seg)
  ultimately show ?thesis by (simp only: segments_follow_rate [where f = f, OF ok(1,3) f max.cobounded1 min.cobounded1])
qed

lemma amounts_at_rate:
  assumes "changes_ok False cs" "ps \<le> pe" "b = period_bounds ps pe"
  shows "sum_list (map ln_amount (subscription_lines (\<lambda>x. x) sub cluster cs b))
      = (\<Sum>t\<in>period_instants ps pe. owed_rate (rate_at cs t)) / of_int ((pe - ps + 1) * day_us)"
proof -
  let ?segs = "segments sub cluster cs b" and ?N = "of_int ((pe - ps + 1) * day_us) :: rat"
  let ?cut = "\<lambda>s. of_int (max 0 (min (at_midnight (pe + 1)) (sgm_end s) - max (at_midnight ps) (sgm_start s))) :: rat"
  have units: "pb_hour_units b = pb_day_units b * 24" "pb_day_units b = pe - ps + 1"
    using assms(3) by (simp_all add: period_bounds_def Let_def days_in_period_def)
  have seg: "sum_list (map ln_amount (segment_lines (\<lambda>x. x) s (hourly_dates_of ?segs) b))
      = ?cut s * owed_rate (Some (sgm_rate s)) * inverse ?N" if s: "s \<in> set ?segs" for s
  proof -
    note S = segments_inside [OF s assms(3)]
    have "sgm_start s \<le> sgm_end s" using segments_ok [OF assms s] by (simp add: segment_ok_def)
    then have "max 0 (min (at_midnight (pe + 1)) (sgm_end s) - max (at_midnight ps) (sgm_start s)) = sgm_end s - sgm_start s"
      by (simp add: S)
    then show ?thesis
      using segment_amount_exact [OF segments_ok [OF assms s] units(1)] by (simp add: priced_def units(2) divide_inverse owed_rate_def)
  qed
  have "sum_list (map ln_amount (subscription_lines (\<lambda>x. x) sub cluster cs b))
      = sum_list (map (\<lambda>s. ?cut s * owed_rate (Some (sgm_rate s)) * inverse ?N) ?segs)"
    unfolding sum_lines by (intro arg_cong [of _ _ sum_list] map_cong refl seg)
  also have "\<dots> = (\<Sum>t\<in>period_instants ps pe. owed_rate (rate_at cs t)) * inverse ?N"
    unfolding sum_list_mult_const period_instants_def
    by (subst segments_follow_rate [where f = owed_rate, OF assms(1,3)]) (simp_all add: owed_rate_def)
  finally show "sum_list (map ln_amount (subscription_lines (\<lambda>x. x) sub cluster cs b))
      = (\<Sum>t\<in>period_instants ps pe. owed_rate (rate_at cs t)) / ?N" by (simp add: divide_inverse)
qed

lemma card_sum: "finite A \<Longrightarrow> int (card {t \<in> A. P t}) = (\<Sum>t\<in>A. if P t then 1 else 0)"
  by (simp add: sum.If_cases Int_def)

text \<open>
  Property C10: a subscription is billed for exactly the time it ran, at the rate locked when it ran.
  For any well-formed change history, the time the lines bill of a date at a rate is the number of
  instants (microseconds) of that date, inside the period, at which that was the rate the history
  had locked; at whatever rate, it is the instants at which the subscription ran, at most a whole
  day. A line's amount is its time at its rate, by the share of the period, rounded; and before
  rounding the amounts add up to the locked rate over all the instants of the period.
\<close>

theorem period_billed_exactly:
  assumes "changes_ok False cs" "ps \<le> pe" "b = period_bounds ps pe"
  shows "(\<forall>d. (\<forall>r. sum_list (map (billed_on d) (filter (\<lambda>x. ln_rate x = r) (subscription_lines r2 sub cluster cs b)))
          = int (card {t \<in> period_instants ps pe. dt_date t = d \<and> rate_at cs t = Some r}))
      \<and> sum_list (map (billed_on d) (subscription_lines r2 sub cluster cs b))
          = int (card {t \<in> period_instants ps pe. dt_date t = d \<and> rate_at cs t \<noteq> None})
      \<and> sum_list (map (billed_on d) (subscription_lines r2 sub cluster cs b)) \<le> day_us)
    \<and> map ln_amount (subscription_lines r2 sub cluster cs b)
      = map (\<lambda>x. r2 (of_int (billed_time x) * ln_rate x / of_int ((pe - ps + 1) * day_us)))
          (subscription_lines r2 sub cluster cs b)
    \<and> sum_list (map ln_amount (subscription_lines (\<lambda>x. x) sub cluster cs b))
      = (\<Sum>t\<in>period_instants ps pe. owed_rate (rate_at cs t)) / of_int ((pe - ps + 1) * day_us)"
proof (intro conjI allI)
  let ?lines = "subscription_lines r2 sub cluster cs b" and ?segs = "segments sub cluster cs b"
  have day: "{t \<in> period_instants ps pe. dt_date t = d \<and> Q t} = {t \<in> period_instants ps pe \<inter> {at_midnight d..<at_midnight (d + 1)}. Q t}"
    for Q d by (auto simp: at_midnight_le less_at_midnight)
  have finite: "finite (period_instants ps pe)" by (simp add: period_instants_def)
  fix d
  show "sum_list (map (billed_on d) (filter (\<lambda>x. ln_rate x = r) ?lines))
      = int (card {t \<in> period_instants ps pe. dt_date t = d \<and> rate_at cs t = Some r})" for r
  proof -
    have "sum_list (map (billed_on d) (filter (\<lambda>x. ln_rate x = r) ?lines))
        = sum_list (map (\<lambda>x. billed_on d x * (if Some (ln_rate x) = Some r then 1 else 0)) ?lines)"
      by (simp add: sum_list_map_filter' if_distrib cong: if_cong)
    also have "\<dots> = (\<Sum>t\<in>period_instants ps pe \<inter> {at_midnight d..<at_midnight (d + 1)}. if rate_at cs t = Some r then 1 else 0)"
      by (rule billed_at_rate [OF assms]) simp
    finally show ?thesis unfolding day by (subst card_sum) (simp_all add: finite)
  qed
  have "sum_list (map (\<lambda>x. billed_on d x * (if Some (ln_rate x) \<noteq> None then 1 else 0)) ?lines)
      = (\<Sum>t\<in>period_instants ps pe \<inter> {at_midnight d..<at_midnight (d + 1)}. if rate_at cs t \<noteq> None then 1 else 0)"
    by (rule billed_at_rate [OF assms]) simp
  then show ran: "sum_list (map (billed_on d) ?lines)
      = int (card {t \<in> period_instants ps pe. dt_date t = d \<and> rate_at cs t \<noteq> None})"
    unfolding day by (subst card_sum) (simp_all add: finite)
  have "card {t \<in> period_instants ps pe. dt_date t = d \<and> rate_at cs t \<noteq> None} \<le> card {at_midnight d..<at_midnight (d + 1)}"
    unfolding day by (rule card_mono) auto
  then show "sum_list (map (billed_on d) ?lines) \<le> day_us" unfolding ran by (simp add: at_midnight_def)
next
  show "map ln_amount (subscription_lines r2 sub cluster cs b)
      = map (\<lambda>x. r2 (of_int (billed_time x) * ln_rate x / of_int ((pe - ps + 1) * day_us)))
          (subscription_lines r2 sub cluster cs b)"
    by (rule map_cong [OF refl subscription_lines_priced [OF assms(3)]])
qed (rule amounts_at_rate [OF assms])

text \<open>A server created on June 3rd at 06:00, resized on June 10th at 12:00, cancelled on June 20th at 18:00.\<close>

definition example_changes :: "change list" where
  "example_changes = [
     \<lparr>ch_type = ''Created'', ch_plan = ''small'', ch_rate = Some 3000, ch_at = at_midnight 739770 + 6 * hour_us\<rparr>,
     \<lparr>ch_type = ''Plan Changed'', ch_plan = ''large'', ch_rate = Some 6000, ch_at = at_midnight 739777 + 12 * hour_us\<rparr>,
     \<lparr>ch_type = ''Cancelled'', ch_plan = ''large'', ch_rate = None, ch_at = at_midnight 739787 + 18 * hour_us\<rparr>]"

definition example_subscription_row :: subscription_row where
  "example_subscription_row = \<lparr>sb_name = ''sub-1'', sb_server = Some ''vm-1'', sb_snapshot = None, sb_ip_server = None\<rparr>"

theorem period_billed_exactly_witness:
  "sum_list (map (billed_on 739777) (filter (\<lambda>x. ln_rate x = 6000)
      (subscription_lines half_up example_subscription_row ''mumbai'' example_changes (period_bounds 739768 739797))))
    = 12 * hour_us"
proof -
  have ok: "changes_ok False example_changes" by (simp add: example_changes_def at_midnight_def)
  have "{t \<in> period_instants 739768 739797. dt_date t = 739777 \<and> rate_at example_changes t = Some 6000}
      = {at_midnight 739777 + 12 * hour_us..<at_midnight 739778}"
  proof (intro set_eqI)
    fix t
    have "dt_date t = 739777 \<longleftrightarrow> at_midnight 739777 \<le> t \<and> t < at_midnight 739778"
      by (auto simp: at_midnight_le less_at_midnight)
    then show "t \<in> {t \<in> period_instants 739768 739797. dt_date t = 739777 \<and> rate_at example_changes t = Some 6000}
        \<longleftrightarrow> t \<in> {at_midnight 739777 + 12 * hour_us..<at_midnight 739778}"
      by (auto simp: period_instants_def rate_at_def example_changes_def locked_rate_def at_midnight_def Let_def)
  qed
  then show ?thesis
    using period_billed_exactly [OF ok _ refl, of 739768 739797 half_up example_subscription_row "''mumbai''"]
    by (simp add: at_midnight_def)
qed

end
