(* ===== verification/Payment_Data.thy ===== *)
theory Payment_Data
  imports Declines Credits
begin

text \<open>
  What the payment components share: the documents they read and write as records, the database as
  one record \<open>world\<close>, and the payment gateways as functions. A table is a list in creation order;
  \<open>get_doc\<close> finds the row by its name, saving a document replaces its row. Row locks
  (\<open>for_update\<close>) make each operation that takes them one atomic step.

  An operation returns a pair: its value or the exception that left it, and the world. The world
  beside an exception is what is committed at that point: the writes up to the last commit the
  operation made (\<open>_persist\<close>), and none of its own when it made none, since the caller rolls back
  (\<open>platform/jobs.each_isolated\<close>).

  Gateways are code that cannot be read here: an \<open>adapter\<close> record gives the answer to each call, and
  no theorem assumes anything about the answers. Random document names come from \<open>pe_hash\<close>, the
  idempotency hash is \<open>pe_key\<close>.
\<close>

section \<open>Documents\<close>

record attempt =
  at_name :: string
  at_invoice :: string
  at_team :: string
  at_gateway :: string
  at_method :: "string option"
  at_amount :: money
  at_currency :: string
  at_key :: string
  at_retry :: nat
  at_status :: string
  at_txn :: "string option"
  at_order :: "string option"
  at_resolved_by :: "string option"
  at_initiated_at :: datetime
  at_hold_until :: "datetime option"
  at_completed_at :: "datetime option"
  at_failure :: failure
  at_creation :: datetime

record payment_method =
  pm_name :: string
  pm_team :: string
  pm_gateway :: string
  pm_status :: string
  pm_priority :: int
  pm_reauth_required :: bool
  pm_customer :: "string option"
  pm_currency :: "string option"
  pm_setup_reference :: "string option"
  pm_failure :: failure
  pm_creation :: datetime

record refund =
  rf_name :: string
  rf_attempt :: string
  rf_invoice :: string
  rf_team :: string
  rf_amount :: money
  rf_currency :: string
  rf_destination :: string
  rf_late_capture :: bool
  rf_partial :: bool
  rf_net_amount :: money
  rf_tax_amount :: money
  rf_promotional_amount :: money
  rf_retries :: nat
  rf_status :: string
  rf_gateway_id :: "string option"
  rf_reason :: "string option"
  rf_completed_at :: "datetime option"
  rf_credit_note :: "string option"
  rf_payment_record :: "string option"
  rf_advance :: "string option"
  rf_promotional_record :: "string option"

record verified_payment =
  vp_id :: string
  vp_captured :: bool
  vp_amount :: money
  vp_currency :: string
  vp_order :: "string option"
  vp_receipt :: "string option"

record dispute =
  dp_id :: string
  dp_payment :: string
  dp_amount :: money
  dp_reason :: string
  dp_status :: string

text \<open>
  Of a stored webhook, the last fields are what the adapter reads out of its body: the payment
  (\<open>payment_from_event\<close>), the detail of a decline (\<open>_extract_failure\<close>), the dispute
  (\<open>dispute_from_event\<close>), and the id and status of a refund (\<open>refund_from_event\<close>).
\<close>

record webhook_event =
  we_name :: string
  we_gateway :: string
  we_event_id :: string
  we_type :: string
  we_status :: string
  we_attempt :: "string option"
  we_method :: "string option"
  we_processed_at :: "datetime option"
  we_retry_count :: int
  we_creation :: datetime
  we_payment :: "verified_payment option"
  we_decline :: "failure option"
  we_dispute :: "dispute option"
  we_refund :: "(string \<times> string) option"

record top_up =
  tu_name :: string
  tu_team :: string
  tu_gateway :: string
  tu_status :: string
  tu_currency :: string
  tu_credit :: money
  tu_total :: money
  tu_order :: "string option"
  tu_payment :: "string option"
  tu_entry :: "nat option"
  tu_failed_attempts :: int
  tu_last_failed_at :: "datetime option"
  tu_failure :: failure
  tu_creation :: datetime

record gateway_currency =
  gc_gateway :: string
  gc_currency :: string
  gc_is_default :: bool
  gc_max_silent_charge :: money
  gc_predebit_notice :: bool

record notice =
  nt_team :: string
  nt_event :: string
  nt_reference :: string

section \<open>The database\<close>

record world =
  pw_ledger :: ledger
  pw_profiles :: profiles
  pw_invoices :: "invoice list"
  pw_attempts :: "attempt list"
  pw_methods :: "payment_method list"
  pw_refunds :: "refund list"
  pw_webhooks :: "webhook_event list"
  pw_top_ups :: "top_up list"
  pw_events :: "billing_event list"
  pw_notices :: "notice list"
  pw_reviews :: "(string \<times> string) list"
  pw_sync_queue :: "string list"
  pw_step_queue :: "string list"
  pw_serial :: nat

definition find_invoice :: "world \<Rightarrow> string \<Rightarrow> invoice option" where
  "find_invoice w n = find (\<lambda>iv. inv_name iv = n) (pw_invoices w)"

definition find_attempt :: "world \<Rightarrow> string \<Rightarrow> attempt option" where
  "find_attempt w n = find (\<lambda>a. at_name a = n) (pw_attempts w)"

definition find_method :: "world \<Rightarrow> string \<Rightarrow> payment_method option" where
  "find_method w n = find (\<lambda>m. pm_name m = n) (pw_methods w)"

definition put_invoice :: "invoice \<Rightarrow> world \<Rightarrow> world" where
  "put_invoice iv w = w\<lparr>pw_invoices := map (\<lambda>x. if inv_name x = inv_name iv then iv else x) (pw_invoices w)\<rparr>"

definition put_attempt :: "attempt \<Rightarrow> world \<Rightarrow> world" where
  "put_attempt a w = w\<lparr>pw_attempts := map (\<lambda>x. if at_name x = at_name a then a else x) (pw_attempts w)\<rparr>"

definition put_method :: "payment_method \<Rightarrow> world \<Rightarrow> world" where
  "put_method m w = w\<lparr>pw_methods := map (\<lambda>x. if pm_name x = pm_name m then m else x) (pw_methods w)\<rparr>"

definition put_refund :: "refund \<Rightarrow> world \<Rightarrow> world" where
  "put_refund r w = w\<lparr>pw_refunds := map (\<lambda>x. if rf_name x = rf_name r then r else x) (pw_refunds w)\<rparr>"

definition put_webhook :: "webhook_event \<Rightarrow> world \<Rightarrow> world" where
  "put_webhook e w = w\<lparr>pw_webhooks := map (\<lambda>x. if we_name x = we_name e then e else x) (pw_webhooks w)\<rparr>"

definition put_top_up :: "top_up \<Rightarrow> world \<Rightarrow> world" where
  "put_top_up t w = w\<lparr>pw_top_ups := map (\<lambda>x. if tu_name x = tu_name t then t else x) (pw_top_ups w)\<rparr>"

definition notify :: "string \<Rightarrow> string \<Rightarrow> string \<Rightarrow> world \<Rightarrow> world" where
  "notify team event reference w =
     w\<lparr>pw_notices := pw_notices w @ [\<lparr>nt_team = team, nt_event = event, nt_reference = reference\<rparr>]\<rparr>"

text \<open>An Error Log row or a comment an operator reads: the document and what is wrong with it.\<close>

definition review :: "string \<Rightarrow> string \<Rightarrow> world \<Rightarrow> world" where
  "review name what w = w\<lparr>pw_reviews := pw_reviews w @ [(name, what)]\<rparr>"

section \<open>Gateways\<close>

record charge_input =
  ci_amount :: money
  ci_currency :: string
  ci_customer :: "string option"
  ci_invoice :: string
  ci_order :: "string option"

record payment_result =
  ps_success :: bool
  ps_txn :: "string option"
  ps_failure :: failure
  ps_hold_until :: "datetime option"

record refund_result =
  rr_status :: string
  rr_gateway_id :: "string option"

definition rr_success :: "refund_result \<Rightarrow> bool" where
  "rr_success r \<longleftrightarrow> rr_status r \<noteq> ''Failed''"

record adapter =
  ad_off_session :: bool
  ad_prepare :: "charge_input \<Rightarrow> string \<Rightarrow> error + string option"
  ad_charge :: "charge_input \<Rightarrow> payment_method \<Rightarrow> string \<Rightarrow> error + payment_result"
  ad_create_order :: "money \<Rightarrow> string \<Rightarrow> string \<Rightarrow> error + string"
  ad_status :: "string \<Rightarrow> error + string option"
  ad_find_order :: "string \<Rightarrow> error + verified_payment option"
  ad_refund :: "attempt \<Rightarrow> money \<Rightarrow> string \<Rightarrow> string \<Rightarrow> error + refund_result"
  ad_refund_status :: "string \<Rightarrow> error + string"
  ad_verify_signature :: "string option \<Rightarrow> string option \<Rightarrow> string option \<Rightarrow> bool"
  ad_verify_payment :: "string option \<Rightarrow> error + verified_payment option"

definition upper_char :: "char \<Rightarrow> char" where
  "upper_char c = (if 97 \<le> (of_char c :: nat) \<and> (of_char c :: nat) \<le> 122 then char_of ((of_char c :: nat) - 32) else c)"

definition upper :: "string \<Rightarrow> string" where
  "upper s = map upper_char s"

definition is_enough_for :: "(rat \<Rightarrow> rat) \<Rightarrow> verified_payment \<Rightarrow> money \<Rightarrow> string \<Rightarrow> bool" where
  "is_enough_for r2 p amount currency \<longleftrightarrow>
     vp_captured p \<and> upper (vp_currency p) = upper currency \<and> r2 (vp_amount p) + 5 / 1000 \<ge> r2 amount"

section \<open>What does not change during an operation\<close>

text \<open>
  \<open>pe_profile_ok\<close> says whether saving a Billing Profile passes its validation, \<open>pe_team_cap\<close> is the
  trust-tier cap of \<open>catalog/entitlements.py\<close>, \<open>pe_team_currency\<close> its \<open>team_currency\<close>.
  \<open>pe_awaiting_records\<close> and \<open>pe_awaiting_check\<close> say whether a team waits for its accounting records or
  for the check of its GSTIN, \<open>pe_asked_recently\<close> whether the details of an invoice were asked for in
  the last week.
\<close>

record pay_env =
  pe_ambient :: ambient
  pe_settings :: billing_settings
  pe_r2 :: "rat \<Rightarrow> rat"
  pe_tax_profiles :: "string \<Rightarrow> tax_profile option"
  pe_team_currency :: "string \<Rightarrow> string"
  pe_team_cap :: "string \<Rightarrow> money"
  pe_profile_ok :: "billing_profile \<Rightarrow> bool"
  pe_awaiting_records :: "string \<Rightarrow> bool"
  pe_awaiting_check :: "string \<Rightarrow> bool"
  pe_asked_recently :: "string \<Rightarrow> bool"
  pe_gateways :: "(string \<times> bool) list"
  pe_rows :: "gateway_currency list"
  pe_adapters :: "string \<Rightarrow> adapter option"
  pe_hash :: "nat \<Rightarrow> string"
  pe_key :: "string \<Rightarrow> nat \<Rightarrow> string"

abbreviation pe_now :: "pay_env \<Rightarrow> datetime" where "pe_now env \<equiv> am_now (pe_ambient env)"

definition tax_env_of :: "pay_env \<Rightarrow> world \<Rightarrow> tax_env" where
  "tax_env_of env w = \<lparr>te_settings = pe_settings env, te_profiles = pw_profiles w, te_tax_profiles = pe_tax_profiles env\<rparr>"

text \<open>\<open>get_adapter(frappe.get_doc("Payment Gateway", gateway))\<close>; a gateway is named after its adapter.\<close>

definition adapter_for :: "pay_env \<Rightarrow> string \<Rightarrow> error + adapter" where
  "adapter_for env gateway =
     (if map_of (pe_gateways env) gateway = None then Inl DoesNotExist
      else case pe_adapters env gateway of
        None \<Rightarrow> Inl (ValidationError ''No GatewayAdapter registered'')
      | Some a \<Rightarrow> Inr a)"

definition adapter_key_of :: "pay_env \<Rightarrow> string \<Rightarrow> string option" where
  "adapter_key_of env gateway = (if map_of (pe_gateways env) gateway = None then None else Some gateway)"

definition resolve_gateway_for_currency :: "pay_env \<Rightarrow> string \<Rightarrow> error + string" where
  "resolve_gateway_for_currency env currency =
     (case find (\<lambda>g. map_of (pe_gateways env) (gc_gateway g) = Some True)
             (filter (\<lambda>g. gc_currency g = currency \<and> gc_is_default g) (pe_rows env)) of
        Some g \<Rightarrow> Inr (gc_gateway g)
      | None \<Rightarrow> Inl (ValidationError ''GatewayNotFound''))"

section \<open>Moving the documents through their machines\<close>

definition sdoc_of :: "string \<Rightarrow> string \<Rightarrow> string \<Rightarrow> string \<Rightarrow> string option \<Rightarrow> sdoc" where
  "sdoc_of doctype name team status currency = \<lparr>sd_doctype = doctype, sd_name = name,
     sd_fields = [''status'' \<mapsto> status, ''team'' \<mapsto> team](''currency'' := currency)\<rparr>"

definition sdoc_of_attempt :: "attempt \<Rightarrow> sdoc" where
  "sdoc_of_attempt a = sdoc_of ''Payment Attempt'' (at_name a) (at_team a) (at_status a) (Some (at_currency a))"

definition move_attempt ::
  "ambient \<Rightarrow> attempt \<Rightarrow> string \<Rightarrow> string option \<Rightarrow> string option \<Rightarrow> money option \<Rightarrow> billing_event list
     \<Rightarrow> error + attempt \<times> billing_event list" where
  "move_attempt env a to_state reason actor amount evs =
     bindE (transition env (sdoc_of_attempt a) to_state reason actor (Some (at_invoice a)) amount None evs)
       (\<lambda>(doc, evs'). Inr (a\<lparr>at_status := the (sd_fields doc ''status'')\<rparr>, evs'))"

definition attempt_transition ::
  "ambient \<Rightarrow> attempt \<Rightarrow> string \<Rightarrow> string option \<Rightarrow> string option \<Rightarrow> billing_event list
     \<Rightarrow> error + attempt \<times> billing_event list" where
  "attempt_transition env a to_state reason actor evs = move_attempt env a to_state reason actor None evs"

definition top_up_transition ::
  "ambient \<Rightarrow> top_up \<Rightarrow> string \<Rightarrow> string option \<Rightarrow> string \<Rightarrow> money option \<Rightarrow> billing_event list
     \<Rightarrow> error + top_up \<times> billing_event list" where
  "top_up_transition env t to_state reason actor amount evs =
     bindE (transition env (sdoc_of ''Top-up Order'' (tu_name t) (tu_team t) (tu_status t) (Some (tu_currency t)))
              to_state reason (Some actor) (Some (tu_team t)) amount None evs)
       (\<lambda>(doc, evs'). Inr (t\<lparr>tu_status := the (sd_fields doc ''status'')\<rparr>, evs'))"

definition method_transition ::
  "ambient \<Rightarrow> payment_method \<Rightarrow> string \<Rightarrow> string option \<Rightarrow> string option \<Rightarrow> billing_event list
     \<Rightarrow> error + payment_method \<times> billing_event list" where
  "method_transition env m to_state reason actor evs =
     bindE (transition env (sdoc_of ''Payment Method'' (pm_name m) (pm_team m) (pm_status m) None)
              to_state reason actor None None None evs)
       (\<lambda>(doc, evs'). Inr (m\<lparr>pm_status := the (sd_fields doc ''status'')\<rparr>, evs'))"

definition refund_transition ::
  "ambient \<Rightarrow> refund \<Rightarrow> string \<Rightarrow> string option \<Rightarrow> billing_event list \<Rightarrow> error + refund \<times> billing_event list" where
  "refund_transition env r to_state actor evs =
     bindE (transition env (sdoc_of ''Refund'' (rf_name r) (rf_team r) (rf_status r) (Some (rf_currency r)))
              to_state None actor (Some (rf_invoice r)) (Some (rf_amount r)) None evs)
       (\<lambda>(doc, evs'). Inr (r\<lparr>rf_status := the (sd_fields doc ''status'')\<rparr>, evs'))"

definition webhook_transition ::
  "ambient \<Rightarrow> webhook_event \<Rightarrow> string \<Rightarrow> billing_event list \<Rightarrow> error + webhook_event \<times> billing_event list" where
  "webhook_transition env e to_state evs =
     bindE (transition env \<lparr>sd_doctype = ''Webhook Event'', sd_name = we_name e, sd_fields = [''status'' \<mapsto> we_status e]\<rparr>
              to_state None (Some ''webhook'') (Some (we_event_id e)) None None evs)
       (\<lambda>(doc, evs'). Inr (e\<lparr>we_status := the (sd_fields doc ''status'')\<rparr>, evs'))"

section \<open>Lemmas\<close>

lemma find_replace:
  "find (\<lambda>x. f x = n) (map (\<lambda>x. if f x = f a then a else x) xs) =
     (if n = f a then map_option (\<lambda>_. a) (find (\<lambda>x. f x = n) xs) else find (\<lambda>x. f x = n) xs)"
  by (induction xs) auto

lemma find_invoice_put [simp]:
  "find_invoice (put_invoice iv w) n = (if n = inv_name iv then map_option (\<lambda>_. iv) (find_invoice w n) else find_invoice w n)"
  by (simp add: find_invoice_def put_invoice_def find_replace)

lemma find_attempt_put [simp]:
  "find_attempt (put_attempt a w) n = (if n = at_name a then map_option (\<lambda>_. a) (find_attempt w n) else find_attempt w n)"
  by (simp add: find_attempt_def put_attempt_def find_replace)

lemma find_method_put [simp]:
  "find_method (put_method m w) n = (if n = pm_name m then map_option (\<lambda>_. m) (find_method w n) else find_method w n)"
  by (simp add: find_method_def put_method_def find_replace)

lemma find_invoice_name: "find_invoice w n = Some iv \<Longrightarrow> inv_name iv = n"
  unfolding find_invoice_def by (drule find_Some) simp

lemma find_attempt_name: "find_attempt w n = Some a \<Longrightarrow> at_name a = n"
  unfolding find_attempt_def by (drule find_Some) simp

lemma find_method_name: "find_method w n = Some m \<Longrightarrow> pm_name m = n"
  unfolding find_method_def by (drule find_Some) simp

text \<open>What saving one document leaves alone.\<close>

lemma put_attempt_frame [simp]:
  "pw_serial (put_attempt a w) = pw_serial w" "pw_invoices (put_attempt a w) = pw_invoices w"
  "pw_ledger (put_attempt a w) = pw_ledger w" "pw_refunds (put_attempt a w) = pw_refunds w"
  "pw_methods (put_attempt a w) = pw_methods w" "pw_profiles (put_attempt a w) = pw_profiles w"
  "pw_events (put_attempt a w) = pw_events w" "pw_webhooks (put_attempt a w) = pw_webhooks w"
  by (simp_all add: put_attempt_def)

lemma put_invoice_frame [simp]:
  "pw_serial (put_invoice iv w) = pw_serial w" "pw_attempts (put_invoice iv w) = pw_attempts w"
  "pw_ledger (put_invoice iv w) = pw_ledger w" "pw_refunds (put_invoice iv w) = pw_refunds w"
  "pw_methods (put_invoice iv w) = pw_methods w" "pw_profiles (put_invoice iv w) = pw_profiles w"
  "pw_events (put_invoice iv w) = pw_events w" "pw_webhooks (put_invoice iv w) = pw_webhooks w"
  by (simp_all add: put_invoice_def)

lemma put_method_frame [simp]:
  "pw_serial (put_method m w) = pw_serial w" "pw_attempts (put_method m w) = pw_attempts w"
  "pw_ledger (put_method m w) = pw_ledger w" "pw_refunds (put_method m w) = pw_refunds w"
  "pw_invoices (put_method m w) = pw_invoices w" "pw_profiles (put_method m w) = pw_profiles w"
  by (simp_all add: put_method_def)

lemma notify_frame [simp]:
  "pw_serial (notify t e r w) = pw_serial w" "pw_attempts (notify t e r w) = pw_attempts w"
  "pw_ledger (notify t e r w) = pw_ledger w" "pw_refunds (notify t e r w) = pw_refunds w"
  "pw_invoices (notify t e r w) = pw_invoices w" "pw_profiles (notify t e r w) = pw_profiles w"
  "pw_methods (notify t e r w) = pw_methods w" "pw_events (notify t e r w) = pw_events w"
  "pw_webhooks (notify t e r w) = pw_webhooks w"
  by (simp_all add: notify_def)

lemma review_frame [simp]:
  "pw_serial (review n m w) = pw_serial w" "pw_attempts (review n m w) = pw_attempts w"
  "pw_ledger (review n m w) = pw_ledger w" "pw_refunds (review n m w) = pw_refunds w"
  "pw_invoices (review n m w) = pw_invoices w" "pw_profiles (review n m w) = pw_profiles w"
  "pw_methods (review n m w) = pw_methods w" "pw_events (review n m w) = pw_events w"
  "pw_webhooks (review n m w) = pw_webhooks w"
  by (simp_all add: review_def)

lemma find_attempt_cong: "pw_attempts w' = pw_attempts w \<Longrightarrow> find_attempt w' n = find_attempt w n"
  by (simp add: find_attempt_def)

lemma find_invoice_cong: "pw_invoices w' = pw_invoices w \<Longrightarrow> find_invoice w' n = find_invoice w n"
  by (simp add: find_invoice_def)

lemma tax_env_of_cong: "pw_profiles w' = pw_profiles w \<Longrightarrow> tax_env_of env w' = tax_env_of env w"
  by (simp add: tax_env_of_def)

text \<open>A transition that succeeds writes the status it was asked for.\<close>

lemma transition_status:
  assumes "transition env (sdoc_of dt n t st c) to_state reason actor corr amount ty evs = Inr (doc, evs')"
    and "machine_for dt = Inr m" and "sm_field m = ''status''"
  shows "sd_fields doc ''status'' = Some to_state \<and> (st = to_state \<or> allows m (Some st) to_state)"
  using assms by (auto elim!: transition_cases simp: state_of_def sdoc_of_def)

lemma move_attempt_Inr:
  assumes "move_attempt env a to_state reason actor amount evs = Inr (a', evs')"
  shows "a' = a\<lparr>at_status := to_state\<rparr>"
    and "at_status a = to_state \<or> allows PAYMENT_ATTEMPT (Some (at_status a)) to_state"
  using assms transition_status [where dt = "''Payment Attempt''" and m = PAYMENT_ATTEMPT]
  by (fastforce simp: move_attempt_def sdoc_of_attempt_def bindE_Inr machine_for_own PAYMENT_ATTEMPT_def)+

lemmas attempt_transition_Inr = move_attempt_Inr [where amount = None, folded attempt_transition_def]

lemma top_up_transition_Inr:
  assumes "top_up_transition env t to_state reason actor amount evs = Inr (t', evs')"
  shows "t' = t\<lparr>tu_status := to_state\<rparr>"
    and "tu_status t = to_state \<or> allows TOP_UP_ORDER (Some (tu_status t)) to_state"
  using assms transition_status [where dt = "''Top-up Order''" and m = TOP_UP_ORDER]
  by (fastforce simp: top_up_transition_def bindE_Inr machine_for_own TOP_UP_ORDER_def)+

lemma method_transition_Inr:
  assumes "method_transition env m to_state reason actor evs = Inr (m', evs')"
  shows "m' = m\<lparr>pm_status := to_state\<rparr>"
  using assms transition_status [where dt = "''Payment Method''" and m = PAYMENT_METHOD]
  by (fastforce simp: method_transition_def bindE_Inr machine_for_own PAYMENT_METHOD_def)

lemma refund_transition_Inr:
  assumes "refund_transition env r to_state actor evs = Inr (r', evs')"
  shows "r' = r\<lparr>rf_status := to_state\<rparr>"
  using assms transition_status [where dt = "''Refund''" and m = REFUND]
  by (fastforce simp: refund_transition_def bindE_Inr machine_for_own REFUND_def)

end
