(* ===== verification/Rails.thy ===== *)
theory Rails
  imports Payment_Data
begin

text \<open>
  The rail a team is charged through: what a gateway may do in a currency
  (\<open>gateways/capabilities.py\<close>), the team's ordered methods (\<open>payments/collection.py\<close>) and the
  collection mode with its silent-debit threshold (\<open>payments/collection_mode.py\<close>).
\<close>

section \<open>Capabilities\<close>

definition INR_SILENT_CEILING :: money where "INR_SILENT_CEILING = 15000"

definition currency_row :: "pay_env \<Rightarrow> string \<Rightarrow> string \<Rightarrow> gateway_currency option" where
  "currency_row env gateway currency =
     find (\<lambda>g. gc_gateway g = gateway \<and> gc_currency g = currency) (pe_rows env)"

definition is_regulated_currency :: "string \<Rightarrow> bool" where
  "is_regulated_currency currency \<longleftrightarrow> currency = ''INR''"

definition regulatory_ceiling :: "string \<Rightarrow> money option" where
  "regulatory_ceiling currency = (if is_regulated_currency currency then Some INR_SILENT_CEILING else None)"

definition silent_charge_ceiling :: "pay_env \<Rightarrow> string \<Rightarrow> string \<Rightarrow> money option" where
  "silent_charge_ceiling env gateway currency =
     (let configured = (case currency_row env gateway currency of Some r \<Rightarrow> gc_max_silent_charge r | None \<Rightarrow> 0);
          statutory = regulatory_ceiling currency
      in if configured = 0 then statutory
      else case statutory of Some s \<Rightarrow> Some (min configured s) | None \<Rightarrow> Some configured)"

definition requires_predebit_notice :: "pay_env \<Rightarrow> string \<Rightarrow> string \<Rightarrow> bool" where
  "requires_predebit_notice env gateway currency =
     (case currency_row env gateway currency of Some r \<Rightarrow> gc_predebit_notice r | None \<Rightarrow> False)"

definition SELF_NOTIFYING_GATEWAYS :: "string list" where
  "SELF_NOTIFYING_GATEWAYS = [''Stripe'']"

definition self_notifies :: "string \<Rightarrow> bool" where
  "self_notifies gateway \<longleftrightarrow> gateway \<in> set SELF_NOTIFYING_GATEWAYS"

definition is_hosted_card_setup_allowed :: "string \<Rightarrow> string \<Rightarrow> bool" where
  "is_hosted_card_setup_allowed adapter_key currency \<longleftrightarrow>
     \<not> (adapter_key = ''Stripe'' \<and> is_regulated_currency currency)"

definition can_charge_silently :: "pay_env \<Rightarrow> adapter \<Rightarrow> string \<Rightarrow> money \<Rightarrow> string \<Rightarrow> bool" where
  "can_charge_silently env adapter gateway amount currency =
     (if \<not> ad_off_session adapter then False
      else case silent_charge_ceiling env gateway currency of None \<Rightarrow> True | Some c \<Rightarrow> amount \<le> c)"

section \<open>The team's methods\<close>

definition ordered_methods :: "string \<Rightarrow> world \<Rightarrow> payment_method list" where
  "ordered_methods team w = sort_key (\<lambda>m. (pm_priority m, pm_creation m))
     (filter (\<lambda>m. pm_team m = team \<and> pm_status m = ''Active'' \<and> \<not> pm_reauth_required m) (pw_methods w))"

definition has_chargeable_method :: "string \<Rightarrow> world \<Rightarrow> bool" where
  "has_chargeable_method team w \<longleftrightarrow>
     filter (\<lambda>m. pm_team m = team \<and> pm_status m = ''Active'' \<and> \<not> pm_reauth_required m) (pw_methods w) \<noteq> []"

section \<open>Collection mode\<close>

definition CUSTOMER_CHOOSABLE :: "string list" where
  "CUSTOMER_CHOOSABLE = [''Manual Checkout'', ''Prepaid'']"

definition RETURNABLE :: "string list" where "RETURNABLE = [''Auto Charge'']"

definition DEBIT_HELD_MODES :: "string list" where
  "DEBIT_HELD_MODES = [''Manual Checkout'', ''Action Required'']"

definition collection_mode :: "string \<Rightarrow> world \<Rightarrow> string option" where
  "collection_mode team w = Option.bind (pw_profiles w team) bp_collection_mode"

definition is_debit_allowed :: "string \<Rightarrow> world \<Rightarrow> bool" where
  "is_debit_allowed team w \<longleftrightarrow> collection_mode team w \<notin> Some ` set DEBIT_HELD_MODES"

definition get_teams_with_retry_rail :: "string list \<Rightarrow> world \<Rightarrow> string list" where
  "get_teams_with_retry_rail teams w = filter (\<lambda>t. is_debit_allowed t w \<and> has_chargeable_method t w) teams"

definition default_gateway :: "pay_env \<Rightarrow> string \<Rightarrow> string option" where
  "default_gateway env currency =
     (case resolve_gateway_for_currency env currency of Inl e \<Rightarrow> None | Inr g \<Rightarrow> Some g)"

definition team_rail :: "pay_env \<Rightarrow> string \<Rightarrow> world \<Rightarrow> string option \<times> string option" where
  "team_rail env team w = (case Option.bind (pw_profiles w team) bp_currency of
     None \<Rightarrow> (None, None)
   | Some currency \<Rightarrow>
       if currency = '''' then (None, None)
       else (case ordered_methods team w of
               m # ms \<Rightarrow> if pm_gateway m = '''' then default_gateway env currency else Some (pm_gateway m)
             | [] \<Rightarrow> default_gateway env currency, Some currency))"

definition gateway_ceiling :: "pay_env \<Rightarrow> string \<Rightarrow> world \<Rightarrow> money option" where
  "gateway_ceiling env team w = (case team_rail env team w of
     (_, None) \<Rightarrow> None
   | (None, Some currency) \<Rightarrow> regulatory_ceiling currency
   | (Some gateway, Some currency) \<Rightarrow> silent_charge_ceiling env gateway currency)"

definition silent_threshold :: "pay_env \<Rightarrow> string \<Rightarrow> world \<Rightarrow> money option" where
  "silent_threshold env team w =
     (let cap = pe_team_cap env team in case gateway_ceiling env team w of
        None \<Rightarrow> if cap \<noteq> 0 then Some cap else None
      | Some limit \<Rightarrow> if cap \<noteq> 0 then Some (min limit cap) else Some limit)"

text \<open>\<open>profile.save()\<close> with these two fields changed.\<close>

definition save_mode :: "pay_env \<Rightarrow> billing_profile \<Rightarrow> string \<Rightarrow> string option \<Rightarrow> world \<Rightarrow> (error + unit) \<times> world" where
  "save_mode env p mode reason w =
     (let p' = p\<lparr>bp_collection_mode := Some mode, bp_collection_action_reason := reason\<rparr> in
      if pe_profile_ok env p' then (Inr (), w\<lparr>pw_profiles := (pw_profiles w)(bp_team p \<mapsto> p')\<rparr>)
      else (Inl (ValidationError ''Billing Profile''), w))"

definition trip :: "pay_env \<Rightarrow> string \<Rightarrow> string \<Rightarrow> world \<Rightarrow> (error + unit) \<times> world" where
  "trip env team reason w = (case pw_profiles w team of
     None \<Rightarrow> (Inl DoesNotExist, w)
   | Some p \<Rightarrow>
       if bp_collection_mode p = Some ''Action Required'' then (Inr (), w)
       else case save_mode env p ''Action Required'' (Some reason) w of
         (Inl e, w') \<Rightarrow> (Inl e, w')
       | (Inr _, w') \<Rightarrow> (Inr (), notify team ''Action Required'' team w'))"

definition trip_auto_charge :: "pay_env \<Rightarrow> string \<Rightarrow> string \<Rightarrow> world \<Rightarrow> (error + unit) \<times> world" where
  "trip_auto_charge env team reason w =
     (if collection_mode team w = Some ''Auto Charge'' then trip env team reason w else (Inr (), w))"

record collection_status =
  cs_mode :: string
  cs_action_required :: bool
  cs_reason :: "string option"
  cs_threshold :: "money option"
  cs_can_return_to_auto :: bool

definition collection_status_of :: "pay_env \<Rightarrow> string \<Rightarrow> world \<Rightarrow> collection_status" where
  "collection_status_of env team w =
     (let mode = or_else (collection_mode team w) ''Prepaid'' in
      \<lparr>cs_mode = mode, cs_action_required = (mode = ''Action Required''),
       cs_reason = Option.bind (pw_profiles w team) bp_collection_action_reason,
       cs_threshold = silent_threshold env team w, cs_can_return_to_auto = has_chargeable_method team w\<rparr>)"

definition evaluate ::
  "pay_env \<Rightarrow> string \<Rightarrow> money option \<Rightarrow> string \<Rightarrow> world \<Rightarrow> (error + collection_status) \<times> world" where
  "evaluate env team projected reason w =
     (let crosses = (case (projected, silent_threshold env team w) of
            (Some amount, Some threshold) \<Rightarrow> amount \<ge> threshold | _ \<Rightarrow> False)
      in case (if collection_mode team w = Some ''Auto Charge'' \<and> crosses then trip env team reason w else (Inr (), w)) of
           (Inl e, w') \<Rightarrow> (Inl e, w')
         | (Inr _, w') \<Rightarrow> (Inr (collection_status_of env team w'), w'))"

definition choose_mode :: "pay_env \<Rightarrow> string \<Rightarrow> string \<Rightarrow> world \<Rightarrow> (error + collection_status) \<times> world" where
  "choose_mode env team mode w =
     (if mode \<in> set RETURNABLE \<and> \<not> has_chargeable_method team w
      then (Inl (ValidationError ''Add a card or UPI mandate before switching to automatic payments.''), w)
      else if mode \<notin> set RETURNABLE \<and> mode \<notin> set CUSTOMER_CHOOSABLE
      then (Inl (ValidationError ''Pick one of Manual Checkout, Prepaid, Auto Charge.''), w)
      else case pw_profiles w team of
        None \<Rightarrow> (Inl DoesNotExist, w)
      | Some p \<Rightarrow> (case save_mode env p mode None w of
          (Inl e, w') \<Rightarrow> (Inl e, w')
        | (Inr _, w') \<Rightarrow> (Inr (collection_status_of env team w'), w')))"

text \<open>\<open>save_as_system\<close>: a profile that fails its validation is logged and left as it was.\<close>

definition start_auto_charge :: "pay_env \<Rightarrow> string \<Rightarrow> world \<Rightarrow> world" where
  "start_auto_charge env team w =
     (if collection_mode team w \<noteq> Some ''Prepaid'' then w
      else if length (filter (\<lambda>m. pm_team m = team \<and> pm_status m = ''Active'') (pw_methods w)) \<noteq> 1 then w
      else case pw_profiles w team of
        None \<Rightarrow> w
      | Some p \<Rightarrow> (case save_mode env p ''Auto Charge'' None w of
          (Inl e, w') \<Rightarrow> review team ''Billing Profile not saved'' w'
        | (Inr _, w') \<Rightarrow> w'))"

section \<open>Lemmas\<close>

text \<open>Setting the mode leaves everything but the profile and the notices.\<close>

definition same_money :: "world \<Rightarrow> world \<Rightarrow> bool" where
  "same_money w w' \<longleftrightarrow> pw_ledger w' = pw_ledger w \<and> pw_invoices w' = pw_invoices w
     \<and> pw_attempts w' = pw_attempts w \<and> pw_methods w' = pw_methods w \<and> pw_refunds w' = pw_refunds w
     \<and> pw_serial w' = pw_serial w"

lemma same_money_refl [simp]: "same_money w w"
  by (simp add: same_money_def)

lemma same_money_trans: "same_money w w' \<Longrightarrow> same_money w' w'' \<Longrightarrow> same_money w w''"
  by (simp add: same_money_def)

lemma trip_money: "same_money w (snd (trip env team reason w))"
  by (auto simp: trip_def save_mode_def notify_def same_money_def Let_def split: option.splits)

lemma trip_auto_charge_money: "same_money w (snd (trip_auto_charge env team reason w))"
  by (simp add: trip_auto_charge_def trip_money)

lemma evaluate_money: "same_money w (snd (evaluate env team projected reason w))"
  using trip_money [of w env team reason]
  by (auto simp: evaluate_def Let_def split: prod.splits sum.splits)

text \<open>A rupee debit is bounded by the regulation on every rail, whatever an administrator entered.\<close>

lemma ceiling_INR:
  "\<exists>c. silent_charge_ceiling env gateway ''INR'' = Some c \<and> c \<le> INR_SILENT_CEILING"
  by (auto simp: silent_charge_ceiling_def regulatory_ceiling_def is_regulated_currency_def Let_def)

lemma can_charge_silently_INR:
  "can_charge_silently env adapter gateway amount ''INR'' \<Longrightarrow> amount \<le> INR_SILENT_CEILING"
  using ceiling_INR [of env gateway] by (auto simp: can_charge_silently_def split: if_splits)

end
