(* ===== verification/Charges.thy ===== *)
theory Charges
  imports Rails Dunning_Ladder
begin

text \<open>
  Charging an invoice (\<open>payments/charges.py\<close> and \<open>doctype/payment_attempt/payment_attempt.py\<close>): the
  claim of an attempt under the invoice lock, the gateway call and the record of its answer, and the
  order a customer pays on-session. Nothing here marks an invoice Paid.
\<close>

section \<open>Payment attempts\<close>

definition is_in_flight :: "attempt \<Rightarrow> bool" where
  "is_in_flight a \<longleftrightarrow> at_status a \<in> {''Initiated'', ''Authorised''}
     \<or> at_status a = ''Captured'' \<and> at_completed_at a = None"

definition is_held_by_gateway :: "attempt \<Rightarrow> datetime \<Rightarrow> bool" where
  "is_held_by_gateway a now = (case at_hold_until a of None \<Rightarrow> False | Some t \<Rightarrow> now < t)"

definition min_time :: "datetime list \<Rightarrow> datetime option" where
  "min_time ts = (if ts = [] then None else Some (Min (set ts)))"

definition get_charge_outcome :: "string \<Rightarrow> attempt list \<Rightarrow> Dunning_Ladder.charge_outcome option" where
  "get_charge_outcome invoice attempts =
     (let rows = filter (\<lambda>a. at_invoice a = invoice) attempts in
      if rows = [] then None
      else Some \<lparr>oc_first_failed_at = min_time (map (\<lambda>a. case at_completed_at a of Some t \<Rightarrow> t | None \<Rightarrow> at_creation a)
                   (filter (\<lambda>a. at_status a = ''Failed'') rows)),
                oc_in_flight_since = min_time (map at_creation (filter is_in_flight rows))\<rparr>)"

definition attempts_for :: "string \<Rightarrow> world \<Rightarrow> attempt list" where
  "attempts_for invoice w = filter (\<lambda>a. at_invoice a = invoice) (pw_attempts w)"

definition in_flight_attempt :: "string \<Rightarrow> world \<Rightarrow> string option" where
  "in_flight_attempt invoice w = map_option at_name (find is_in_flight (attempts_for invoice w))"

definition unsettled_capture :: "string \<Rightarrow> world \<Rightarrow> string option" where
  "unsettled_capture invoice w =
     map_option at_name (find (\<lambda>a. is_in_flight a \<and> at_status a = ''Captured'') (attempts_for invoice w))"

text \<open>The insert of a new attempt: its name and key, and the unique column that may refuse it.\<close>

definition insert_attempt :: "pay_env \<Rightarrow> attempt \<Rightarrow> world \<Rightarrow> error + string \<times> world" where
  "insert_attempt env a w =
     (let key = pe_key env (at_invoice a) (at_retry a);
          name = pe_hash env (pw_serial w)
      in if list_ex (\<lambda>x. at_key x = key) (pw_attempts w) then Inl UniqueValidation
      else Inr (name, w\<lparr>pw_attempts := pw_attempts w @
             [a\<lparr>at_name := name, at_key := key, at_creation := pe_now env\<rparr>],
           pw_serial := Suc (pw_serial w)\<rparr>))"

section \<open>What a charge answers\<close>

record pay_result =
  py_charged :: bool
  py_reason :: "string option"
  py_attempt :: "string option"
  py_status :: "string option"
  py_failure_code :: "string option"
  py_hold_until :: "datetime option"

definition not_charged :: "string \<Rightarrow> string option \<Rightarrow> pay_result" where
  "not_charged reason attempt = \<lparr>py_charged = False, py_reason = Some reason, py_attempt = attempt,
     py_status = None, py_failure_code = None, py_hold_until = None\<rparr>"

datatype claim = Claimed string | Not_claimed pay_result

section \<open>The claim\<close>

definition resolve_method ::
  "pay_env \<Rightarrow> invoice \<Rightarrow> string option \<Rightarrow> string option \<Rightarrow> world \<Rightarrow> error + string \<times> string" where
  "resolve_method env iv payment_method gateway w =
     (if truthy payment_method \<and> truthy gateway then Inr (the payment_method, the gateway)
      else let m = (case ordered_methods (inv_team iv) w of [] \<Rightarrow> None | x # xs \<Rightarrow> Some x);
               method_name = (if truthy payment_method then payment_method else map_option pm_name m);
               gateway_name = (if truthy gateway then gateway else map_option pm_gateway m);
               gateway_name = (if \<not> truthy gateway_name \<and> inv_currency iv \<noteq> ''''
                 then (case resolve_gateway_for_currency env (inv_currency iv) of
                         Inr g \<Rightarrow> Some g | Inl e \<Rightarrow> gateway_name)
                 else gateway_name)
      in if \<not> truthy method_name \<or> \<not> truthy gateway_name
         then Inl (ValidationError ''No payment method/gateway resolved'')
         else Inr (the method_name, the gateway_name))"

definition new_attempt ::
  "pay_env \<Rightarrow> invoice \<Rightarrow> string \<Rightarrow> string option \<Rightarrow> world \<Rightarrow> attempt" where
  "new_attempt env iv gateway method w =
     \<lparr>at_name = '''', at_invoice = inv_name iv, at_team = inv_team iv, at_gateway = gateway, at_method = method,
      at_amount = inv_expected_collection iv, at_currency = inv_currency iv, at_key = '''',
      at_retry = length (attempts_for (inv_name iv) w), at_status = ''Initiated'', at_txn = None, at_order = None,
      at_resolved_by = None, at_initiated_at = pe_now env, at_hold_until = None, at_completed_at = None,
      at_failure = \<lparr>fl_code = None, fl_decline = None, fl_reason = None\<rparr>, at_creation = pe_now env\<rparr>"

definition claim_attempt ::
  "pay_env \<Rightarrow> string \<Rightarrow> string option \<Rightarrow> string option \<Rightarrow> world \<Rightarrow> (error + claim) \<times> world" where
  "claim_attempt env invoice payment_method gateway w =
     (case find_invoice w invoice of None \<Rightarrow> (Inl DoesNotExist, w) | Some iv \<Rightarrow>
      if inv_status iv \<notin> set UNSETTLED then (Inr (Not_claimed (not_charged ''not_open'' None)), w)
      else if \<not> is_issued iv then (Inr (Not_claimed (not_charged ''not_issued'' None)), w)
      else if inv_expected_collection iv \<le> 0 then (Inr (Not_claimed (not_charged ''nothing_due'' None)), w)
      else case in_flight_attempt invoice w of
        Some a \<Rightarrow> (Inr (Not_claimed (not_charged ''attempt_in_flight'' (Some a))), w)
      | None \<Rightarrow> (case resolve_method env iv payment_method gateway w of Inl e \<Rightarrow> (Inl e, w)
      | Inr (method_name, gateway_name) \<Rightarrow> (case adapter_for env gateway_name of Inl e \<Rightarrow> (Inl e, w)
      | Inr adapter \<Rightarrow>
          if \<not> can_charge_silently env adapter gateway_name (inv_expected_collection iv) (inv_currency iv)
          then (case trip_auto_charge env (inv_team iv) ''invoice_over_threshold'' w of
                  (Inl e, w') \<Rightarrow> (Inl e, w)
                | (Inr _, w') \<Rightarrow> (Inr (Not_claimed (not_charged ''action_required'' None)), w'))
          else let a = new_attempt env iv gateway_name (Some method_name) w in
            (case insert_attempt env a w of
               Inr (name, w') \<Rightarrow> (Inr (Claimed name), w')
             | Inl e \<Rightarrow> (Inr (Not_claimed (not_charged ''attempt_in_flight''
                 (map_option at_name (find (\<lambda>x. at_retry x = at_retry a) (attempts_for invoice w))))), w)))))"

section \<open>The charge\<close>

definition stamp_failure :: "failure \<Rightarrow> attempt \<Rightarrow> attempt" where
  "stamp_failure f a = a\<lparr>at_failure := failure_fields f\<rparr>"

definition retire_method_if_mandate_failed ::
  "pay_env \<Rightarrow> attempt \<Rightarrow> string option \<Rightarrow> world \<Rightarrow> (error + unit) \<times> world" where
  "retire_method_if_mandate_failed env a failure_code w =
     (if \<not> is_mandate_failure failure_code \<or> \<not> truthy (at_method a) then (Inr (), w)
      else case find_method w (the (at_method a)) of None \<Rightarrow> (Inl DoesNotExist, w)
      | Some m \<Rightarrow>
          if pm_status m = ''Cancelled'' then (Inr (), w)
          else (case method_transition (pe_ambient env) m ''Cancelled''
                   (Some (''mandate failure: '' @ py_str failure_code)) (Some ''gateway'') (pw_events w) of
                  Inl e \<Rightarrow> (Inl e, w)
                | Inr (m', evs) \<Rightarrow>
                    trip env (at_team a) ''mandate_failed''
                      (put_method (m'\<lparr>pm_reauth_required := True\<rparr>) (w\<lparr>pw_events := evs\<rparr>))))"

definition record_result :: "pay_env \<Rightarrow> attempt \<Rightarrow> payment_result \<Rightarrow> world \<Rightarrow> (error + pay_result) \<times> world" where
  "record_result env a r w =
     (let a = a\<lparr>at_txn := ps_txn r\<rparr> in
      if ps_hold_until r \<noteq> None
      then (let a = a\<lparr>at_hold_until := ps_hold_until r\<rparr> in
            (Inr ((not_charged ''gateway_hold'' (Some (at_name a)))\<lparr>py_status := Some (at_status a), py_hold_until := ps_hold_until r\<rparr>),
             put_attempt a w))
      else if ps_success r
      then (case attempt_transition (pe_ambient env) a ''Captured'' None (Some ''gateway'') (pw_events w) of
              Inl e \<Rightarrow> (Inl e, w)
            | Inr (a', evs) \<Rightarrow>
                (Inr \<lparr>py_charged = True, py_reason = None, py_attempt = Some (at_name a'), py_status = Some (at_status a'),
                     py_failure_code = fl_code (ps_failure r), py_hold_until = None\<rparr>,
                 put_attempt a' (w\<lparr>pw_events := evs\<rparr>)))
      else let a = stamp_failure (ps_failure r) a in
        (case attempt_transition (pe_ambient env) a ''Failed'' (fl_code (at_failure a)) (Some ''gateway'') (pw_events w) of
           Inl e \<Rightarrow> (Inl e, w)
         | Inr (a', evs) \<Rightarrow>
             let a'' = a'\<lparr>at_completed_at := Some (pe_now env)\<rparr> in
             (case retire_method_if_mandate_failed env a'' (fl_code (ps_failure r)) (w\<lparr>pw_events := evs\<rparr>) of
                (Inl e, w') \<Rightarrow> (Inl e, w)
              | (Inr _, w') \<Rightarrow>
                  (Inr \<lparr>py_charged = False, py_reason = None, py_attempt = Some (at_name a''), py_status = Some (at_status a''),
                       py_failure_code = fl_code (ps_failure r), py_hold_until = None\<rparr>,
                   put_attempt a'' w'))))"

text \<open>A transient fault: the attempt stays Initiated and the dunning ladder of its invoice moves forward.\<close>

definition defer_attempt :: "pay_env \<Rightarrow> attempt \<Rightarrow> string \<Rightarrow> world \<Rightarrow> (error + pay_result) \<times> world" where
  "defer_attempt env a e w =
     (let a = a\<lparr>at_failure := (at_failure a)\<lparr>fl_reason := Some (take 140 e)\<rparr>\<rparr> in
      case find_invoice w (at_invoice a) of None \<Rightarrow> (Inl DoesNotExist, w)
      | Some iv \<Rightarrow> (case defer_dunning (dt_date (pe_now env)) iv of
          Inl err \<Rightarrow> (Inl err, w)
        | Inr (_, iv') \<Rightarrow> (Inr (not_charged ''timeout'' (Some (at_name a))), put_invoice iv' (put_attempt a w))))"

definition charge_input_of :: "attempt \<Rightarrow> payment_method \<Rightarrow> charge_input" where
  "charge_input_of a m = \<lparr>ci_amount = at_amount a, ci_currency = at_currency a, ci_customer = pm_customer m,
     ci_invoice = at_invoice a, ci_order = at_order a\<rparr>"

definition order_refused :: "string \<Rightarrow> payment_result" where
  "order_refused e = \<lparr>ps_success = False, ps_txn = None,
     ps_failure = \<lparr>fl_code = Some ''order_refused'', fl_decline = None, fl_reason = Some e\<rparr>, ps_hold_until = None\<rparr>"

definition send_charge ::
  "pay_env \<Rightarrow> adapter \<Rightarrow> payment_method \<Rightarrow> charge_input \<Rightarrow> attempt \<Rightarrow> world \<Rightarrow> (error + pay_result) \<times> world" where
  "send_charge env adapter m input a w =
     (case ad_charge adapter input m (at_key a) of
        Inl (GatewayTimeout e) \<Rightarrow> defer_attempt env a e w
      | Inl e \<Rightarrow> (Inl e, w)
      | Inr r \<Rightarrow> record_result env a r w)"

definition charge_claimed_attempt :: "pay_env \<Rightarrow> string \<Rightarrow> world \<Rightarrow> (error + pay_result) \<times> world" where
  "charge_claimed_attempt env name w =
     (case find_attempt w name of None \<Rightarrow> (Inl DoesNotExist, w) | Some a \<Rightarrow>
     (case Option.bind (at_method a) (find_method w) of None \<Rightarrow> (Inl DoesNotExist, w) | Some m \<Rightarrow>
     (case adapter_for env (at_gateway a) of Inl e \<Rightarrow> (Inl e, w) | Inr adapter \<Rightarrow>
      let input = charge_input_of a m in
      if truthy (at_order a) then send_charge env adapter m input a w
      else case ad_prepare adapter input name of
        Inl (GatewayTimeout e) \<Rightarrow> defer_attempt env a e w
      | Inl (GatewayError e) \<Rightarrow> record_result env a (order_refused e) w
      | Inl (GatewayUnsupported e) \<Rightarrow> record_result env a (order_refused e) w
      | Inl e \<Rightarrow> (Inl e, w)
      | Inr order \<Rightarrow>
          if truthy order
          then (let a' = a\<lparr>at_order := order\<rparr> in
                send_charge env adapter m (input\<lparr>ci_order := order\<rparr>) a' (put_attempt a' w))
          else send_charge env adapter m (input\<lparr>ci_order := order\<rparr>) a w)))"

definition pay_invoice ::
  "pay_env \<Rightarrow> string \<Rightarrow> string option \<Rightarrow> string option \<Rightarrow> world \<Rightarrow> (error + pay_result) \<times> world" where
  "pay_invoice env invoice payment_method gateway w =
     (case claim_attempt env invoice payment_method gateway w of
        (Inl e, w') \<Rightarrow> (Inl e, w')
      | (Inr (Not_claimed r), w') \<Rightarrow> (Inr r, w')
      | (Inr (Claimed name), w') \<Rightarrow> charge_claimed_attempt env name w')"

definition resume_attempt :: "pay_env \<Rightarrow> string \<Rightarrow> world \<Rightarrow> (error + pay_result) \<times> world" where
  "resume_attempt env name w =
     (case find_attempt w name of None \<Rightarrow> (Inl DoesNotExist, w)
      | Some a \<Rightarrow>
          if at_status a \<noteq> ''Initiated'' \<or> truthy (at_txn a) \<or> \<not> truthy (at_method a)
          then (Inr (not_charged ''not_resumable'' (Some name)), w)
          else charge_claimed_attempt env name w)"

section \<open>On-session checkout\<close>

datatype order_claim = Created string | Not_created string "string option"

definition claim_on_session_attempt ::
  "pay_env \<Rightarrow> string \<Rightarrow> string option \<Rightarrow> world \<Rightarrow> (error + order_claim) \<times> world" where
  "claim_on_session_attempt env invoice gateway w =
     (case find_invoice w invoice of None \<Rightarrow> (Inl DoesNotExist, w) | Some iv \<Rightarrow>
      if inv_status iv \<notin> set UNSETTLED then (Inr (Not_created ''not_open'' None), w)
      else if \<not> is_issued iv then (Inr (Not_created ''not_issued'' None), w)
      else if inv_expected_collection iv \<le> 0 then (Inr (Not_created ''nothing_due'' None), w)
      else case in_flight_attempt invoice w of
        Some a \<Rightarrow> (Inr (Not_created ''attempt_in_flight'' (Some a)), w)
      | None \<Rightarrow> (case (if truthy gateway then Inr (the gateway) else resolve_gateway_for_currency env (inv_currency iv)) of
          Inl e \<Rightarrow> (Inl e, w)
        | Inr g \<Rightarrow> (case insert_attempt env (new_attempt env iv g None w) w of
            Inl e \<Rightarrow> (Inl e, w)
          | Inr (name, w') \<Rightarrow> (Inr (Created name), w'))))"

definition fail_unopened_order :: "pay_env \<Rightarrow> attempt \<Rightarrow> string \<Rightarrow> world \<Rightarrow> (error + unit) \<times> world" where
  "fail_unopened_order env a e w =
     (case attempt_transition (pe_ambient env) a ''Failed'' (Some ''order not created'') (Some ''gateway'') (pw_events w) of
        Inl err \<Rightarrow> (Inl err, w)
      | Inr (a', evs) \<Rightarrow>
          (Inr (), put_attempt (stamp_failure \<lparr>fl_code = Some ''order_not_created'', fl_decline = None, fl_reason = Some e\<rparr> a')
             (w\<lparr>pw_events := evs\<rparr>)))"

text \<open>\<open>str(e)\<close> of the errors a gateway call raises.\<close>

definition error_text :: "error \<Rightarrow> string" where
  "error_text e = (case e of GatewayTimeout s \<Rightarrow> s | GatewayError s \<Rightarrow> s | GatewayUnsupported s \<Rightarrow> s | ValidationError s \<Rightarrow> s | _ \<Rightarrow> '''')"

definition create_invoice_payment_order ::
  "pay_env \<Rightarrow> string \<Rightarrow> string option \<Rightarrow> world \<Rightarrow> (error + order_claim) \<times> world" where
  "create_invoice_payment_order env invoice gateway w =
     (case claim_on_session_attempt env invoice gateway w of
        (Inr (Created name), w1) \<Rightarrow>
          (case find_attempt w1 name of None \<Rightarrow> (Inl DoesNotExist, w1) | Some a \<Rightarrow>
           if map_of (pe_gateways env) (at_gateway a) = None then (Inl DoesNotExist, w1)
           else (case bindE (adapter_for env (at_gateway a))
                        (\<lambda>adapter. ad_create_order adapter (at_amount a) (at_currency a) name) of
                   Inl e \<Rightarrow> (case fail_unopened_order env a (error_text e) w1 of
                       (Inl err, w2) \<Rightarrow> (Inl err, w2) | (Inr _, w2) \<Rightarrow> (Inl e, w2))
                 | Inr order \<Rightarrow> (Inr (Created name), put_attempt (a\<lparr>at_order := Some order\<rparr>) w1)))
      | r \<Rightarrow> r)"

end
