(* ===== verification/Attempt_Log.thy ===== *)
theory Attempt_Log
  imports Charges
begin

text \<open>
  The abstract log of payment attempts: a charge is claimed on an unsettled invoice that has none in
  flight, advances towards an outcome, and may be dropped once it failed and its invoice is settled.
  The payment operations only ever take these steps (the simulation lemmas), and the log keeps its
  invariant: distinct names, at most one charge in flight per invoice, and for an unsettled invoice
  the retry numbers 0, 1, 2, ... so that no idempotency key is used twice.
\<close>

section \<open>The log and its steps\<close>

definition is_closed :: "world \<Rightarrow> string \<Rightarrow> bool" where
  "is_closed w n \<longleftrightarrow> (case find_invoice w n of None \<Rightarrow> True | Some iv \<Rightarrow> inv_status iv \<notin> set UNSETTLED)"

definition same_charge :: "attempt \<Rightarrow> attempt \<Rightarrow> bool" where
  "same_charge a b \<longleftrightarrow> at_name b = at_name a \<and> at_invoice b = at_invoice a \<and> at_retry b = at_retry a
     \<and> at_key b = at_key a \<and> at_method b = at_method a \<and> at_gateway b = at_gateway a
     \<and> at_amount b = at_amount a \<and> at_currency b = at_currency a \<and> at_team b = at_team a
     \<and> at_creation b = at_creation a"

definition stays_closed :: "world \<Rightarrow> world \<Rightarrow> bool" where
  "stays_closed w w' \<longleftrightarrow> (\<forall>n. is_closed w n \<longrightarrow> is_closed w' n)"

inductive move :: "pay_env \<Rightarrow> world \<Rightarrow> world \<Rightarrow> bool" for env where
  frame: "pw_attempts w' = pw_attempts w \<Longrightarrow> pw_serial w \<le> pw_serial w' \<Longrightarrow> stays_closed w w' \<Longrightarrow> move env w w'"
| advance: "find_attempt w (at_name a) = Some a \<Longrightarrow> same_charge a a' \<Longrightarrow> (is_in_flight a' \<longrightarrow> is_in_flight a) \<Longrightarrow>
    move env w (put_attempt a' w)"
| claim: "in_flight_attempt (at_invoice a) w = None \<Longrightarrow> \<not> is_closed w (at_invoice a) \<Longrightarrow>
    at_retry a = length (attempts_for (at_invoice a) w) \<Longrightarrow> insert_attempt env a w = Inr (name, w') \<Longrightarrow>
    move env w w'"
| drop: "find_attempt w (at_name a) = Some a \<Longrightarrow> at_status a = ''Failed'' \<Longrightarrow> is_closed w (at_invoice a) \<Longrightarrow>
    move env w (w\<lparr>pw_attempts := filter (\<lambda>x. at_name x \<noteq> at_name a) (pw_attempts w)\<rparr>)"

abbreviation moves :: "pay_env \<Rightarrow> world \<Rightarrow> world \<Rightarrow> bool" where
  "moves env \<equiv> (move env)\<^sup>*\<^sup>*"

definition log_ok :: "pay_env \<Rightarrow> world \<Rightarrow> bool" where
  "log_ok env w \<longleftrightarrow> distinct (map at_name (pw_attempts w))
     \<and> (\<forall>a \<in> set (pw_attempts w). \<forall>k \<ge> pw_serial w. at_name a \<noteq> pe_hash env k)
     \<and> (\<forall>n. length (filter is_in_flight (attempts_for n w)) \<le> 1)
     \<and> (\<forall>a \<in> set (pw_attempts w). at_key a = pe_key env (at_invoice a) (at_retry a))
     \<and> (\<forall>n. \<not> is_closed w n \<longrightarrow> map at_retry (attempts_for n w) = [0..<length (attempts_for n w)])"

text \<open>What the random names and the hash of the key are relied on for: they do not collide.\<close>

definition good_names :: "pay_env \<Rightarrow> bool" where
  "good_names env \<longleftrightarrow> inj (pe_hash env) \<and> (\<forall>n k n' k'. pe_key env n k = pe_key env n' k' \<longrightarrow> n = n' \<and> k = k')"

section \<open>The invariant\<close>

lemma log_okI:
  assumes "distinct (map at_name (pw_attempts w))"
    and "\<And>a k. a \<in> set (pw_attempts w) \<Longrightarrow> pw_serial w \<le> k \<Longrightarrow> at_name a \<noteq> pe_hash env k"
    and "\<And>n. length (filter is_in_flight (attempts_for n w)) \<le> 1"
    and "\<And>a. a \<in> set (pw_attempts w) \<Longrightarrow> at_key a = pe_key env (at_invoice a) (at_retry a)"
    and "\<And>n. \<not> is_closed w n \<Longrightarrow> map at_retry (attempts_for n w) = [0..<length (attempts_for n w)]"
  shows "log_ok env w"
  unfolding log_ok_def using assms by blast

lemma log_okD:
  assumes "log_ok env w"
  shows "distinct (map at_name (pw_attempts w))"
    and "a \<in> set (pw_attempts w) \<Longrightarrow> pw_serial w \<le> k \<Longrightarrow> at_name a \<noteq> pe_hash env k"
    and "length (filter is_in_flight (attempts_for n w)) \<le> 1"
    and "a \<in> set (pw_attempts w) \<Longrightarrow> at_key a = pe_key env (at_invoice a) (at_retry a)"
    and "\<not> is_closed w n \<Longrightarrow> map at_retry (attempts_for n w) = [0..<length (attempts_for n w)]"
  using assms unfolding log_ok_def by blast+

lemma find_attempt_in: "find_attempt w n = Some a \<Longrightarrow> a \<in> set (pw_attempts w) \<and> at_name a = n"
  unfolding find_attempt_def by (drule find_Some) simp

lemma find_attempt_distinct:
  assumes "distinct (map at_name (pw_attempts w))" "a \<in> set (pw_attempts w)"
  shows "find_attempt w (at_name a) = Some a"
proof -
  have "find_attempt w (at_name a) \<noteq> None" using assms(2) by (auto simp: find_attempt_def find_None)
  then obtain b where b: "find_attempt w (at_name a) = Some b" by blast
  with find_attempt_in [OF b] assms have "b = a" by (auto simp: distinct_map inj_on_def)
  with b show ?thesis by simp
qed

lemma length_filter_mono: "(\<And>x. P x \<Longrightarrow> Q x) \<Longrightarrow> length (filter P xs) \<le> length (filter Q xs)"
  by (induction xs) auto

lemma is_closed_put_attempt [simp]: "is_closed (put_attempt a w) n = is_closed w n"
  by (simp add: is_closed_def find_invoice_def)

lemma replace_eq:
  assumes "distinct (map at_name xs)" "a \<in> set xs" "same_charge a a'"
  shows "map at_name (map (\<lambda>x. if at_name x = at_name a' then a' else x) xs) = map at_name xs"
    and "\<exists>ys zs. xs = ys @ a # zs \<and> map (\<lambda>x. if at_name x = at_name a' then a' else x) xs = ys @ a' # zs"
proof -
  from assms(3) have n: "at_name a' = at_name a" by (simp add: same_charge_def)
  show "map at_name (map (\<lambda>x. if at_name x = at_name a' then a' else x) xs) = map at_name xs"
    by (simp add: n)
  from assms(2) obtain ys zs where xs: "xs = ys @ a # zs" by (auto simp: in_set_conv_decomp)
  with assms(1) have "at_name a \<notin> at_name ` set ys" "at_name a \<notin> at_name ` set zs" by auto
  then have "map (\<lambda>x. if at_name x = at_name a' then a' else x) ys = ys"
    "map (\<lambda>x. if at_name x = at_name a' then a' else x) zs = zs"
    by (auto simp: n intro!: map_idI) (metis image_eqI)+
  with xs n show "\<exists>ys zs. xs = ys @ a # zs \<and> map (\<lambda>x. if at_name x = at_name a' then a' else x) xs = ys @ a' # zs"
    by auto
qed

lemma advance_ok:
  assumes ok: "log_ok env w" and a: "find_attempt w (at_name a) = Some a" and same: "same_charge a a'"
    and fl: "is_in_flight a' \<longrightarrow> is_in_flight a"
  shows "log_ok env (put_attempt a' w)"
proof -
  let ?xs = "pw_attempts w"
  have dist: "distinct (map at_name ?xs)" using ok by (simp add: log_ok_def)
  have mem: "a \<in> set ?xs" using find_attempt_in [OF a] by simp
  obtain ys zs where xs: "?xs = ys @ a # zs"
    and xs': "pw_attempts (put_attempt a' w) = ys @ a' # zs"
    using replace_eq(2) [OF dist mem same] by (auto simp: put_attempt_def)
  have eqs: "at_name a' = at_name a" "at_invoice a' = at_invoice a" "at_retry a' = at_retry a" "at_key a' = at_key a"
    using same by (simp_all add: same_charge_def)
  have one: "length (filter is_in_flight (attempts_for n (put_attempt a' w))) \<le> 1" for n
  proof -
    have "length (filter is_in_flight (attempts_for n w)) \<le> 1" using ok by (simp add: log_ok_def)
    then show ?thesis unfolding attempts_for_def xs xs' using fl eqs(2) by (auto split: if_splits)
  qed
  have retry: "map at_retry (attempts_for n (put_attempt a' w)) = map at_retry (attempts_for n w)" for n
    unfolding attempts_for_def xs xs' by (simp add: eqs)
  have len: "length (attempts_for n (put_attempt a' w)) = length (attempts_for n w)" for n
    unfolding attempts_for_def xs xs' by (simp add: eqs)
  show ?thesis
  proof (rule log_okI)
    show "distinct (map at_name (pw_attempts (put_attempt a' w)))" using dist by (simp add: xs xs' eqs)
  next
    fix x k assume "x \<in> set (pw_attempts (put_attempt a' w))" "pw_serial (put_attempt a' w) \<le> k"
    then show "at_name x \<noteq> pe_hash env k" using log_okD(2) [OF ok, of _ k] by (auto simp: xs xs' eqs)
  next
    fix x assume "x \<in> set (pw_attempts (put_attempt a' w))"
    then show "at_key x = pe_key env (at_invoice x) (at_retry x)" using log_okD(4) [OF ok] by (auto simp: xs xs' eqs)
  next
    fix n assume "\<not> is_closed (put_attempt a' w) n"
    then show "map at_retry (attempts_for n (put_attempt a' w)) = [0..<length (attempts_for n (put_attempt a' w))]"
      using log_okD(5) [OF ok, of n] by (simp add: retry len)
  qed (rule one)
qed

lemma claim_ok:
  assumes names: "good_names env" and ok: "log_ok env w" and free: "in_flight_attempt (at_invoice a) w = None"
    and retry: "at_retry a = length (attempts_for (at_invoice a) w)"
    and ins: "insert_attempt env a w = Inr (name, w')"
  shows "log_ok env w'"
proof -
  define b where "b = a\<lparr>at_name := pe_hash env (pw_serial w), at_key := pe_key env (at_invoice a) (at_retry a),
    at_creation := pe_now env\<rparr>"
  have w': "w' = w\<lparr>pw_attempts := pw_attempts w @ [b], pw_serial := Suc (pw_serial w)\<rparr>"
    using ins by (auto simp: insert_attempt_def b_def Let_def split: if_splits)
  have inv: "find_invoice w' n = find_invoice w n" for n by (simp add: w' find_invoice_def)
  then have cl: "is_closed w' n = is_closed w n" for n by (simp add: is_closed_def)
  have att: "attempts_for n w' = attempts_for n w @ (if at_invoice a = n then [b] else [])" for n
    by (simp add: attempts_for_def w' b_def)
  have none: "filter is_in_flight (attempts_for (at_invoice a) w) = []"
    using free by (auto simp: in_flight_attempt_def find_None filter_empty_conv)
  have one: "length (filter is_in_flight (attempts_for n w')) \<le> 1" for n
  proof (cases "at_invoice a = n")
    case True then show ?thesis using none by (auto simp: att)
  next
    case False then show ?thesis using log_okD(3) [OF ok, of n] by (simp add: att)
  qed
  have "at_name x \<noteq> pe_hash env (pw_serial w)" if "x \<in> set (pw_attempts w)" for x
    using log_okD(2) [OF ok that] by simp
  then have dist: "distinct (map at_name (pw_attempts w'))"
    using log_okD(1) [OF ok] by (auto simp: w' b_def) (metis)
  have fresh: "at_name x \<noteq> pe_hash env k" if "x \<in> set (pw_attempts w')" "k \<ge> pw_serial w'" for x k
  proof -
    have "pe_hash env (pw_serial w) \<noteq> pe_hash env k"
      using names that(2) by (auto simp: good_names_def w' inj_eq)
    then show ?thesis using log_okD(2) [OF ok, of x k] that by (auto simp: w' b_def)
  qed
  have nums: "map at_retry (attempts_for n w') = [0..<length (attempts_for n w')]" if "\<not> is_closed w n" for n
  proof -
    have "map at_retry (attempts_for n w) = [0..<length (attempts_for n w)]" by (rule log_okD(5) [OF ok that])
    then show ?thesis using retry by (auto simp: att b_def)
  qed
  have keys: "at_key x = pe_key env (at_invoice x) (at_retry x)" if "x \<in> set (pw_attempts w')" for x
    using log_okD(4) [OF ok, of x] that by (auto simp: w' b_def)
  show ?thesis by (rule log_okI [OF dist fresh one keys]) (simp_all add: nums cl)
qed

lemma drop_ok:
  assumes ok: "log_ok env w" and cl: "is_closed w (at_invoice a)" and a: "find_attempt w (at_name a) = Some a"
  shows "log_ok env (w\<lparr>pw_attempts := filter (\<lambda>x. at_name x \<noteq> at_name a) (pw_attempts w)\<rparr>)"
proof -
  let ?w = "w\<lparr>pw_attempts := filter (\<lambda>x. at_name x \<noteq> at_name a) (pw_attempts w)\<rparr>"
  have cl': "is_closed ?w n = is_closed w n" for n by (simp add: is_closed_def find_invoice_def)
  have att: "attempts_for n ?w = filter (\<lambda>x. at_name x \<noteq> at_name a) (attempts_for n w)" for n
    unfolding attempts_for_def by simp (rule filter_cong, auto)
  have one: "length (filter is_in_flight (attempts_for n ?w)) \<le> 1" for n
  proof -
    have "length (filter is_in_flight (attempts_for n ?w)) \<le> length (filter is_in_flight (attempts_for n w))"
      unfolding att filter_filter by (rule length_filter_mono) simp
    also have "\<dots> \<le> 1" by (rule log_okD(3) [OF ok])
    finally show ?thesis .
  qed
  have keep: "attempts_for n ?w = attempts_for n w" if "\<not> is_closed w n" for n
  proof -
    have "at_name x \<noteq> at_name a" if x: "x \<in> set (attempts_for n w)" for x
    proof
      assume "at_name x = at_name a"
      moreover have "x \<in> set (pw_attempts w)" "at_invoice x = n" using x by (auto simp: attempts_for_def)
      ultimately have "find_attempt w (at_name a) = Some x"
        using find_attempt_distinct [OF log_okD(1) [OF ok], of x] by simp
      with a have "x = a" by simp
      with cl \<open>\<not> is_closed w n\<close> \<open>at_invoice x = n\<close> show False by simp
    qed
    then show ?thesis by (simp add: att)
  qed
  have dist: "distinct (map at_name (pw_attempts ?w))"
    using log_okD(1) [OF ok] by (simp add: distinct_map_filter)
  show ?thesis
  proof (rule log_okI [OF dist _ one])
    fix x k assume "x \<in> set (pw_attempts ?w)" "pw_serial ?w \<le> k"
    then show "at_name x \<noteq> pe_hash env k" using log_okD(2) [OF ok, of x k] by simp
  next
    fix x assume "x \<in> set (pw_attempts ?w)"
    then show "at_key x = pe_key env (at_invoice x) (at_retry x)" using log_okD(4) [OF ok, of x] by simp
  next
    fix n assume "\<not> is_closed ?w n"
    then have "\<not> is_closed w n" unfolding cl' .
    then show "map at_retry (attempts_for n ?w) = [0..<length (attempts_for n ?w)]"
      unfolding keep [OF \<open>\<not> is_closed w n\<close>] by (rule log_okD(5) [OF ok])
  qed
qed

lemma frame_ok:
  assumes "log_ok env w" "pw_attempts w' = pw_attempts w" "pw_serial w \<le> pw_serial w'" "stays_closed w w'"
  shows "log_ok env w'"
proof -
  have att: "attempts_for n w' = attempts_for n w" for n by (simp add: attempts_for_def assms)
  show ?thesis
  proof (rule log_okI)
    fix a k assume "a \<in> set (pw_attempts w')" "pw_serial w' \<le> k"
    then show "at_name a \<noteq> pe_hash env k" using log_okD(2) [OF assms(1), of a k] assms(2,3) by simp
  next
    fix n assume "\<not> is_closed w' n"
    then have "\<not> is_closed w n" using assms(4) by (auto simp: stays_closed_def)
    then show "map at_retry (attempts_for n w') = [0..<length (attempts_for n w')]"
      unfolding att by (rule log_okD(5) [OF assms(1)])
  qed (use log_okD [OF assms(1)] in \<open>simp_all add: att assms(2)\<close>)
qed

lemma move_ok: "move env w w' \<Longrightarrow> good_names env \<Longrightarrow> log_ok env w \<Longrightarrow> log_ok env w'"
  by (induction rule: move.induct) (blast intro: frame_ok advance_ok claim_ok drop_ok)+

lemma moves_ok: "moves env w w' \<Longrightarrow> good_names env \<Longrightarrow> log_ok env w \<Longrightarrow> log_ok env w'"
  by (induction rule: rtranclp_induct) (auto intro: move_ok)

end
