(* ===== verification/Charge_Safety.thy ===== *)
theory Charge_Safety
  imports Attempt_Log
begin

text \<open>
  What the charge path of \<open>Charges\<close> keeps true: every operation is a run of steps of the abstract
  attempt log, it never settles an invoice or moves credit, a debit respects the silent-charge
  ceiling, and a charge that breaks off leaves the attempt on record.
\<close>

section \<open>Steps of the log\<close>

text \<open>A copy of an attempt that stands for the row stored under its name.\<close>

definition stands :: "attempt \<Rightarrow> world \<Rightarrow> bool" where
  "stands a w \<longleftrightarrow> (\<exists>b. find_attempt w (at_name a) = Some b \<and> same_charge b a \<and> (is_in_flight a \<longrightarrow> is_in_flight b))"

lemma same_charge_refl [simp]: "same_charge a a"
  by (simp add: same_charge_def)

lemma same_charge_trans: "same_charge a b \<Longrightarrow> same_charge b c \<Longrightarrow> same_charge a c"
  by (simp add: same_charge_def)

lemma same_charge_updates [simp]:
  "same_charge a (a\<lparr>at_status := s\<rparr>)" "same_charge a (a\<lparr>at_txn := t\<rparr>)" "same_charge a (a\<lparr>at_order := t\<rparr>)"
  "same_charge a (a\<lparr>at_hold_until := h\<rparr>)" "same_charge a (a\<lparr>at_completed_at := h\<rparr>)"
  "same_charge a (a\<lparr>at_failure := f\<rparr>)" "same_charge a (stamp_failure f' a)" "same_charge a (a\<lparr>at_resolved_by := t\<rparr>)"
  by (simp_all add: same_charge_def stamp_failure_def)

lemma stands_found: "find_attempt w n = Some a \<Longrightarrow> stands a w"
  by (simp add: stands_def find_attempt_name)

lemma stands_mono:
  assumes "stands a w" "same_charge a a'" "is_in_flight a' \<Longrightarrow> is_in_flight a"
  shows "stands a' w"
proof -
  from assms(1) obtain b where b: "find_attempt w (at_name a) = Some b" "same_charge b a" "is_in_flight a \<longrightarrow> is_in_flight b"
    unfolding stands_def by blast
  have "at_name a' = at_name a" using assms(2) by (simp add: same_charge_def)
  with b assms(3) same_charge_trans [OF b(2) assms(2)] show ?thesis unfolding stands_def by auto
qed

lemma stands_cong: "pw_attempts w' = pw_attempts w \<Longrightarrow> stands a w' = stands a w"
  by (simp add: stands_def find_attempt_def)

lemma stands_put [simp]: "stands a w \<Longrightarrow> stands a (put_attempt a w)"
  unfolding stands_def by auto

lemma put_move: 
  assumes "stands a w"
  shows "moves env w (put_attempt a w)"
proof -
  from assms obtain b where b: "find_attempt w (at_name a) = Some b" "same_charge b a" "is_in_flight a \<longrightarrow> is_in_flight b"
    unfolding stands_def by blast
  have "at_name b = at_name a" by (rule find_attempt_name [OF b(1)])
  with b have "move env w (put_attempt a w)" by (intro move.advance) simp_all
  then show ?thesis by (rule r_into_rtranclp)
qed

text \<open>Steps that leave the attempts and the statuses of the invoices.\<close>

definition same_statuses :: "world \<Rightarrow> world \<Rightarrow> bool" where
  "same_statuses w w' \<longleftrightarrow> (\<forall>n. map_option inv_status (find_invoice w' n) = map_option inv_status (find_invoice w n))"

lemma same_statuses_cong: "pw_invoices w' = pw_invoices w \<Longrightarrow> same_statuses w w'"
  by (simp add: same_statuses_def find_invoice_def)

lemma same_statuses_closed: "same_statuses w w' \<Longrightarrow> is_closed w' n = is_closed w n"
  unfolding same_statuses_def is_closed_def
  by (drule spec [of _ n]) (auto split: option.splits)

lemma frame_move:
  "pw_attempts w' = pw_attempts w \<Longrightarrow> pw_serial w \<le> pw_serial w' \<Longrightarrow> same_statuses w w' \<Longrightarrow> moves env w w'"
  by (auto intro!: r_into_rtranclp move.frame simp: stays_closed_def same_statuses_closed)

lemma same_money_move: "same_money w w' \<Longrightarrow> moves env w w'"
  by (rule frame_move) (simp_all add: same_money_def same_statuses_cong)

lemma moves_trans: "moves env w w' \<Longrightarrow> moves env w' w'' \<Longrightarrow> moves env w w''"
  by (rule rtranclp_trans)

lemma in_flight_move:
  assumes "move_attempt env a to_state reason actor amount evs = Inr (a', evs')"
  shows "is_in_flight a' \<Longrightarrow> is_in_flight a" and "same_charge a a'"
proof -
  note f = move_attempt_Inr [OF assms]
  show "same_charge a a'" by (simp add: f(1))
  assume "is_in_flight a'"
  with f show "is_in_flight a"
    by (auto simp: is_in_flight_def allows_def edges_get_def PAYMENT_ATTEMPT_def split: if_splits option.splits)
qed

lemmas in_flight_transition = in_flight_move [where amount = None, folded attempt_transition_def]

section \<open>Recording an answer\<close>

lemma retire_money:
  "retire_method_if_mandate_failed env a code w = (res, w') \<Longrightarrow>
   pw_ledger w' = pw_ledger w \<and> pw_invoices w' = pw_invoices w \<and> pw_attempts w' = pw_attempts w
   \<and> pw_refunds w' = pw_refunds w \<and> pw_serial w' = pw_serial w"
proof -
  assume r: "retire_method_if_mandate_failed env a code w = (res, w')"
  have trip: "pw_ledger w2 = pw_ledger w1 \<and> pw_invoices w2 = pw_invoices w1 \<and> pw_attempts w2 = pw_attempts w1
     \<and> pw_refunds w2 = pw_refunds w1 \<and> pw_serial w2 = pw_serial w1"
    if "trip env t reason w1 = (res', w2)" for t reason w1 w2 res'
    using trip_money [of w1 env t reason] that by (simp add: same_money_def)
  consider (kept) "w' = w" | m evs where "trip env (at_team a) ''mandate_failed'' (put_method m (w\<lparr>pw_events := evs\<rparr>)) = (res, w')"
    using r unfolding retire_method_if_mandate_failed_def
    by (force split: if_splits option.splits sum.splits prod.splits)
  then show ?thesis
  proof cases
    case (2 m evs)
    from trip [OF this] show ?thesis by simp
  qed simp
qed

text \<open>Only the attempt, the events, the team's methods and its collection mode change.\<close>

definition only_charges :: "world \<Rightarrow> world \<Rightarrow> bool" where
  "only_charges w w' \<longleftrightarrow> pw_ledger w' = pw_ledger w \<and> pw_refunds w' = pw_refunds w
     \<and> map (\<lambda>iv. iv\<lparr>inv_dunning_starts_on := None, inv_suspends_on := None\<rparr>) (pw_invoices w')
       = map (\<lambda>iv. iv\<lparr>inv_dunning_starts_on := None, inv_suspends_on := None\<rparr>) (pw_invoices w)"

lemma only_charges_refl [simp]: "only_charges w w"
  by (simp add: only_charges_def)

lemma only_charges_trans: "only_charges w w' \<Longrightarrow> only_charges w' w'' \<Longrightarrow> only_charges w w''"
  by (simp add: only_charges_def)

lemma only_charges_eqI:
  "pw_ledger w' = pw_ledger w \<Longrightarrow> pw_refunds w' = pw_refunds w \<Longrightarrow> pw_invoices w' = pw_invoices w \<Longrightarrow> only_charges w w'"
  by (simp add: only_charges_def)

lemma saved_transition:
  assumes st: "stands a w" and t: "attempt_transition env' a to_state reason actor (pw_events w) = Inr (a', evs)"
  shows "moves env w (put_attempt a' (w\<lparr>pw_events := evs\<rparr>)) \<and> only_charges w (put_attempt a' (w\<lparr>pw_events := evs\<rparr>))
    \<and> stands a' (put_attempt a' (w\<lparr>pw_events := evs\<rparr>))"
proof -
  let ?v = "w\<lparr>pw_events := evs\<rparr>"
  have "stands a' w" by (rule stands_mono [OF st in_flight_transition(2) [OF t]]) (rule in_flight_transition(1) [OF t])
  then have sv: "stands a' ?v" by (subst stands_cong) simp_all
  have "moves env w ?v" by (rule frame_move) (simp_all add: same_statuses_cong)
  then have "moves env w (put_attempt a' ?v)" by (rule moves_trans) (rule put_move [OF sv])
  moreover have "only_charges w (put_attempt a' ?v)" by (rule only_charges_eqI) simp_all
  ultimately show ?thesis using stands_put [OF sv] by blast
qed

lemma record_hold:
  assumes "stands a w" "ps_hold_until r \<noteq> None" "record_result env a r w = (res, w')"
  shows "moves env w w' \<and> only_charges w w'"
proof -
  let ?b = "a\<lparr>at_txn := ps_txn r\<rparr>\<lparr>at_hold_until := ps_hold_until r\<rparr>"
  have w': "w' = put_attempt ?b w" using assms(2,3) by (simp add: record_result_def Let_def)
  have "same_charge a ?b" by (simp add: same_charge_def)
  then have "stands ?b w" by (rule stands_mono [OF assms(1)]) (simp add: is_in_flight_def)
  then have "moves env w w'" unfolding w' by (rule put_move)
  moreover have "only_charges w w'" unfolding w' by (rule only_charges_eqI) simp_all
  ultimately show ?thesis by blast
qed

lemma record_success:
  assumes "stands a w" "ps_hold_until r = None" "ps_success r" "record_result env a r w = (res, w')"
  shows "moves env w w' \<and> only_charges w w'"
proof -
  let ?a = "a\<lparr>at_txn := ps_txn r\<rparr>"
  have st: "stands ?a w" by (rule stands_mono [OF assms(1)]) (simp_all add: is_in_flight_def)
  show ?thesis
  proof (cases "attempt_transition (pe_ambient env) ?a ''Captured'' None (Some ''gateway'') (pw_events w)")
    case (Inl e)
    with assms have "w' = w" by (simp add: record_result_def Let_def)
    then show ?thesis by simp
  next
    case (Inr p)
    obtain a' evs where t: "attempt_transition (pe_ambient env) ?a ''Captured'' None (Some ''gateway'') (pw_events w) = Inr (a', evs)"
      using Inr by (cases p) auto
    with assms have w': "w' = put_attempt a' (w\<lparr>pw_events := evs\<rparr>)"
      by (simp add: record_result_def Let_def)
    show ?thesis using saved_transition [OF st t, of env] unfolding w' by blast
  qed
qed

lemma record_failure:
  assumes "stands a w" "ps_hold_until r = None" "\<not> ps_success r" "record_result env a r w = (res, w')"
  shows "moves env w w' \<and> only_charges w w'"
proof -
  let ?b = "stamp_failure (ps_failure r) (a\<lparr>at_txn := ps_txn r\<rparr>)"
  have sb: "same_charge a ?b" by (simp add: same_charge_def stamp_failure_def)
  show ?thesis
  proof (cases "attempt_transition (pe_ambient env) ?b ''Failed'' (fl_code (at_failure ?b)) (Some ''gateway'') (pw_events w)")
    case (Inl e)
    with assms have "w' = w" by (simp add: record_result_def Let_def)
    then show ?thesis by simp
  next
    case (Inr p)
    obtain a' evs where t: "attempt_transition (pe_ambient env) ?b ''Failed'' (fl_code (at_failure ?b)) (Some ''gateway'') (pw_events w) = Inr (a', evs)"
      using Inr by (cases p) auto
    let ?c = "a'\<lparr>at_completed_at := Some (pe_now env)\<rparr>"
    obtain res2 w2 where rt: "retire_method_if_mandate_failed env ?c (fl_code (ps_failure r)) (w\<lparr>pw_events := evs\<rparr>) = (res2, w2)"
      by fastforce
    note same = retire_money [OF rt]
    have failed: "\<not> is_in_flight ?c" using attempt_transition_Inr(1) [OF t] by (simp add: is_in_flight_def)
    have ch: "same_charge ?b ?c" using attempt_transition_Inr(1) [OF t] by (simp add: same_charge_def)
    have "stands ?c w"
      by (rule stands_mono [OF assms(1) same_charge_trans [OF sb ch]]) (simp add: failed)
    then have sc: "stands ?c w2" using same by (subst stands_cong) simp_all
    have m1: "moves env w w2" using same by (intro frame_move same_statuses_cong) simp_all
    have m: "moves env w (put_attempt ?c w2)" by (rule moves_trans [OF m1 put_move [OF sc]])
    have o: "only_charges w (put_attempt ?c w2)" using same by (intro only_charges_eqI) simp_all
    show ?thesis
    proof (cases res2)
      case (Inl e)
      with assms t rt have "w' = w" by (simp add: record_result_def Let_def)
      then show ?thesis by simp
    next
      case (Inr u)
      with assms t rt have "w' = put_attempt ?c w2" by (simp add: record_result_def Let_def)
      with m o show ?thesis by simp
    qed
  qed
qed

lemma record_result_effect:
  assumes "stands a w" "record_result env a r w = (res, w')"
  shows "moves env w w' \<and> only_charges w w'"
  using assms record_hold record_success record_failure by (cases "ps_hold_until r = None"; cases "ps_success r") metis+

lemma defer_dunning_keeps:
  assumes "defer_dunning today iv = Inr (b, iv')"
  shows "iv'\<lparr>inv_dunning_starts_on := None, inv_suspends_on := None\<rparr> = iv\<lparr>inv_dunning_starts_on := None, inv_suspends_on := None\<rparr>"
  using assms by (auto simp: defer_dunning_def bindE_Inr Let_def split: if_splits)

lemma invoice_core:
  assumes "iv'\<lparr>inv_dunning_starts_on := None, inv_suspends_on := None\<rparr> = iv\<lparr>inv_dunning_starts_on := None, inv_suspends_on := None\<rparr>"
  shows "inv_name iv' = inv_name iv" "inv_status iv' = inv_status iv" "inv_team iv' = inv_team iv"
proof -
  have "inv_name (iv'\<lparr>inv_dunning_starts_on := None, inv_suspends_on := None\<rparr>) = inv_name (iv\<lparr>inv_dunning_starts_on := None, inv_suspends_on := None\<rparr>)"
    "inv_status (iv'\<lparr>inv_dunning_starts_on := None, inv_suspends_on := None\<rparr>) = inv_status (iv\<lparr>inv_dunning_starts_on := None, inv_suspends_on := None\<rparr>)"
    "inv_team (iv'\<lparr>inv_dunning_starts_on := None, inv_suspends_on := None\<rparr>) = inv_team (iv\<lparr>inv_dunning_starts_on := None, inv_suspends_on := None\<rparr>)"
    by (simp_all only: assms)
  then show "inv_name iv' = inv_name iv" "inv_status iv' = inv_status iv" "inv_team iv' = inv_team iv" by simp_all
qed

lemma map_put_invoice:
  assumes "find_invoice w (inv_name iv) = Some iv"
    and "f iv' = f iv" "inv_name iv' = inv_name iv" and "distinct (map inv_name (pw_invoices w))"
  shows "map f (pw_invoices (put_invoice iv' w)) = map f (pw_invoices w)"
proof -
  have iv: "iv \<in> set (pw_invoices w)"
    using assms(1) unfolding find_invoice_def by (blast dest: find_Some)
  have "x = iv" if "x \<in> set (pw_invoices w)" "inv_name x = inv_name iv" for x
    using that iv assms(4) by (auto simp: distinct_map inj_on_def)
  then show ?thesis using assms(2,3) by (auto simp: put_invoice_def)
qed

definition one_row_each :: "world \<Rightarrow> bool" where
  "one_row_each w \<longleftrightarrow> distinct (map inv_name (pw_invoices w))"

lemma only_charges_rows: "only_charges w w' \<Longrightarrow> one_row_each w \<Longrightarrow> one_row_each w'"
proof -
  assume o: "only_charges w w'" and d: "one_row_each w"
  let ?f = "\<lambda>iv::invoice. iv\<lparr>inv_dunning_starts_on := None, inv_suspends_on := None\<rparr>"
  have names: "map inv_name (map ?f xs) = map inv_name xs" for xs by simp
  have "map inv_name (pw_invoices w') = map inv_name (pw_invoices w)"
    using o names [of "pw_invoices w'"] names [of "pw_invoices w"] by (simp add: only_charges_def)
  with d show ?thesis by (simp add: one_row_each_def)
qed

lemma defer_attempt_effect:
  assumes st: "stands a w" and rows: "one_row_each w" and d: "defer_attempt env a e w = (res, w')"
  shows "moves env w w' \<and> only_charges w w'"
proof -
  let ?a = "a\<lparr>at_failure := (at_failure a)\<lparr>fl_reason := Some (take 140 e)\<rparr>\<rparr>"
  have sa: "stands ?a w" by (rule stands_mono [OF st]) (simp_all add: is_in_flight_def)
  consider "w' = w"
    | iv b iv' where "find_invoice w (at_invoice a) = Some iv" "defer_dunning (dt_date (pe_now env)) iv = Inr (b, iv')"
        "w' = put_invoice iv' (put_attempt ?a w)"
  proof (cases "find_invoice w (at_invoice a)")
    case None
    then have "w' = w" using d by (simp add: defer_attempt_def Let_def)
    then show thesis by (rule that(1))
  next
    case (Some iv)
    show thesis
    proof (cases "defer_dunning (dt_date (pe_now env)) iv")
      case (Inl err)
      then have "w' = w" using d Some by (simp add: defer_attempt_def Let_def)
      then show thesis by (rule that(1))
    next
      case (Inr p)
      obtain b iv' where p: "p = (b, iv')" by (cases p)
      have "w' = put_invoice iv' (put_attempt ?a w)" using d Some Inr by (simp add: defer_attempt_def Let_def p)
      with Some Inr show thesis unfolding p by (rule that(2))
    qed
  qed
  then show ?thesis
  proof cases
    case (2 iv b iv')
    let ?v = "put_attempt ?a w"
    note core = defer_dunning_keeps [OF 2(2)]
    note names = invoice_core [OF core]
    have iv: "find_invoice w (inv_name iv) = Some iv" using 2(1) find_invoice_name [OF 2(1)] by simp
    have fi: "find_invoice ?v n = find_invoice w n" for n by (simp add: find_invoice_def)
    have "same_statuses ?v w'"
      unfolding same_statuses_def 2(3)
    proof
      fix n
      show "map_option inv_status (find_invoice (put_invoice iv' ?v) n) = map_option inv_status (find_invoice ?v n)"
        by (cases "n = inv_name iv") (simp_all add: names fi iv)
    qed
    then have "moves env ?v w'" by (intro frame_move) (simp_all add: 2(3))
    with put_move [OF sa] have m: "moves env w w'" by (rule moves_trans)
    have fv: "find_invoice ?v (inv_name iv) = Some iv" by (simp only: fi iv)
    have "map (\<lambda>iv. iv\<lparr>inv_dunning_starts_on := None, inv_suspends_on := None\<rparr>) (pw_invoices w')
        = map (\<lambda>iv. iv\<lparr>inv_dunning_starts_on := None, inv_suspends_on := None\<rparr>) (pw_invoices ?v)"
      unfolding 2(3) by (rule map_put_invoice [OF fv core names(1)]) (use rows in \<open>simp add: one_row_each_def\<close>)
    then have "only_charges w w'" by (simp add: only_charges_def 2(3))
    with m show ?thesis by blast
  qed simp
qed

section \<open>Charging\<close>

lemma send_charge_effect:
  assumes "stands a w" "one_row_each w" "send_charge env adapter m input a w = (res, w')"
  shows "moves env w w' \<and> only_charges w w'"
proof -
  from assms(3) consider "w' = w" | e where "defer_attempt env a e w = (res, w')" | r where "record_result env a r w = (res, w')"
    unfolding send_charge_def by (auto split: sum.splits error.splits)
  then show ?thesis
    by cases (use assms defer_attempt_effect record_result_effect in \<open>auto\<close>)
qed

lemma charge_claimed_effect:
  assumes rows: "one_row_each w" and c: "charge_claimed_attempt env name w = (res, w')"
  shows "moves env w w' \<and> only_charges w w'"
proof -
  consider (same) "w' = w"
    | (send) a m adapter input where "stands a w" "send_charge env adapter m input a w = (res, w')"
    | (stored) a m adapter input where "stands a w" "send_charge env adapter m input a (put_attempt a w) = (res, w')"
    | (deferred) a e where "stands a w" "defer_attempt env a e w = (res, w')"
    | (refused) a r where "stands a w" "record_result env a r w = (res, w')"
  proof -
    show thesis
    proof (cases "find_attempt w name")
      case None
      with c show thesis by (intro same) (simp add: charge_claimed_attempt_def)
    next
      case (Some a)
      note sa = stands_found [OF Some]
      have so: "stands (a\<lparr>at_order := order\<rparr>) w" for order
        by (rule stands_mono [OF sa]) (simp_all add: is_in_flight_def)
      show thesis
      proof (cases "Option.bind (at_method a) (find_method w)")
        case None
        with c Some show thesis by (intro same) (simp add: charge_claimed_attempt_def)
      next
        case m: (Some m)
        show thesis
        proof (cases "adapter_for env (at_gateway a)")
          case (Inl e)
          with c Some m show thesis by (intro same) (simp add: charge_claimed_attempt_def)
        next
          case ad: (Inr adapter)
          note c' = c [unfolded charge_claimed_attempt_def, simplified Some m ad option.case sum.case Let_def]
          show thesis
          proof (cases "truthy (at_order a)")
            case True
            with c' show thesis by (intro send [OF sa]) simp
          next
            case False
            show thesis
            proof (cases "ad_prepare adapter (charge_input_of a m) name")
              case (Inl e)
              with c' False show thesis
                by (cases e) (auto intro: same deferred [OF sa] refused [OF sa])
            next
              case (Inr order)
              with c' False show thesis
                by (cases "truthy order") (auto intro: send [OF sa] stored [OF so])
            qed
          qed
        qed
      qed
    qed
  qed
  then show ?thesis
  proof cases
    case (stored a m adapter input)
    have o: "only_charges w (put_attempt a w)" by (rule only_charges_eqI) simp_all
    have "moves env (put_attempt a w) w' \<and> only_charges (put_attempt a w) w'"
      by (rule send_charge_effect [OF _ only_charges_rows [OF o rows] stored(2)]) (use stored(1) in simp)
    with put_move [OF stored(1)] o show ?thesis by (blast intro: moves_trans only_charges_trans)
  qed (use rows send_charge_effect defer_attempt_effect record_result_effect in auto)
qed

lemma insert_attempt_Inr:
  assumes "insert_attempt env a w = Inr (name, w')"
  shows "name = pe_hash env (pw_serial w)"
    and "w' = w\<lparr>pw_attempts := pw_attempts w @ [a\<lparr>at_name := name, at_key := pe_key env (at_invoice a) (at_retry a),
             at_creation := pe_now env\<rparr>], pw_serial := Suc (pw_serial w)\<rparr>"
    and "\<forall>x \<in> set (pw_attempts w). at_key x \<noteq> pe_key env (at_invoice a) (at_retry a)"
  using assms by (auto simp: insert_attempt_def Let_def list_ex_iff split: if_splits)

lemma insert_attempt_money:
  assumes "insert_attempt env a w = Inr (name, w')"
  shows "only_charges w w'"
  by (rule only_charges_eqI) (simp_all add: insert_attempt_Inr(2) [OF assms])

lemma claim_attempt_cases:
  assumes "claim_attempt env invoice pm gw w = (res, w')"
  obtains (claimed) iv g m adapter name where "res = Inr (Claimed name)" "find_invoice w invoice = Some iv"
      "inv_name iv = invoice" "is_owed iv" "0 < inv_expected_collection iv" "in_flight_attempt invoice w = None"
      "resolve_method env iv pm gw w = Inr (m, g)" "adapter_for env g = Inr adapter"
      "can_charge_silently env adapter g (inv_expected_collection iv) (inv_currency iv)"
      "insert_attempt env (new_attempt env iv g (Some m) w) w = Inr (name, w')"
  | (refused) r where "res = Inr (Not_claimed r)" "same_money w w'"
  | (raised) e where "res = Inl e" "w' = w"
proof (cases "find_invoice w invoice")
  case None
  with assms have "res = Inl DoesNotExist" "w' = w" by (simp_all add: claim_attempt_def)
  then show thesis by (rule raised)
next
  case (Some iv)
  note c = assms [unfolded claim_attempt_def Some, simplified option.case]
  show thesis
  proof (cases "is_owed iv \<and> 0 < inv_expected_collection iv")
    case False
    with c show thesis by (auto simp: is_owed_def split: if_splits intro: refused)
  next
    case owed: True
    then have c1: "(case in_flight_attempt invoice w of
        Some a \<Rightarrow> (Inr (Not_claimed (not_charged ''attempt_in_flight'' (Some a))), w)
      | None \<Rightarrow> (case resolve_method env iv pm gw w of Inl e \<Rightarrow> (Inl e, w)
      | Inr (method_name, gateway_name) \<Rightarrow> (case adapter_for env gateway_name of Inl e \<Rightarrow> (Inl e, w)
      | Inr adapter \<Rightarrow>
          if \<not> can_charge_silently env adapter gateway_name (inv_expected_collection iv) (inv_currency iv)
          then (case trip_auto_charge env (inv_team iv) ''invoice_over_threshold'' w of
                  (Inl e, w') \<Rightarrow> (Inl e, w)
                | (Inr _, w') \<Rightarrow> (Inr (Not_claimed (not_charged ''action_required'' None)), w'))
          else let a = new_attempt env iv gateway_name (Some method_name) w in
            (case insert_attempt env a w of
               Inr (name, w') \<Rightarrow> (Inr (Claimed name), w')
             | Inl e \<Rightarrow> (Inr (Not_claimed (not_charged ''attempt_in_flight''
                 (map_option at_name (find (\<lambda>x. at_retry x = at_retry a) (attempts_for invoice w))))), w))))) = (res, w')"
      using c by (auto simp: is_owed_def not_le)
    show thesis
    proof (cases "in_flight_attempt invoice w")
      case (Some a)
      with c1 have "res = Inr (Not_claimed (not_charged ''attempt_in_flight'' (Some a)))" "w' = w" by simp_all
      with refused show thesis by simp
    next
      case free: None
      show thesis
      proof (cases "resolve_method env iv pm gw w")
        case (Inl e)
        with c1 free have "res = Inl e" "w' = w" by simp_all
        then show thesis by (rule raised)
      next
        case (Inr p)
        obtain m g where rm: "resolve_method env iv pm gw w = Inr (m, g)" using Inr by (cases p) auto
        show thesis
        proof (cases "adapter_for env g")
          case (Inl e)
          with c1 free rm have "res = Inl e" "w' = w" by simp_all
          then show thesis by (rule raised)
        next
          case ad: (Inr adapter)
          show thesis
          proof (cases "can_charge_silently env adapter g (inv_expected_collection iv) (inv_currency iv)")
            case False
            obtain res2 w2 where t: "trip_auto_charge env (inv_team iv) ''invoice_over_threshold'' w = (res2, w2)" by fastforce
            have "same_money w w2" using trip_auto_charge_money [of w env "inv_team iv" "''invoice_over_threshold''"] t by simp
            with c1 free rm ad False t show thesis by (cases res2) (auto intro: refused raised)
          next
            case silent: True
            show thesis
            proof (cases "insert_attempt env (new_attempt env iv g (Some m) w) w")
              case (Inl e)
              with c1 free rm ad silent have "\<exists>r. res = Inr (Not_claimed r)" "w' = w" by (auto simp add: Let_def)
              with refused show thesis by auto
            next
              case (Inr p)
              obtain name w2 where p: "p = (name, w2)" by (cases p)
              with c1 free rm ad silent Inr have "res = Inr (Claimed name)" "w' = w2" by (simp_all add: Let_def)
              with claimed Some find_invoice_name [OF Some] owed free rm ad silent Inr p show thesis by blast
            qed
          qed
        qed
      qed
    qed
  qed
qed

lemma claim_move:
  assumes "find_invoice w invoice = Some iv" "is_owed iv" "in_flight_attempt invoice w = None"
    and "insert_attempt env (new_attempt env iv g m w) w = Inr (name, w')"
  shows "moves env w w'"
proof -
  have n: "inv_name iv = invoice" by (rule find_invoice_name [OF assms(1)])
  have "move env w w'"
    by (rule move.claim [OF _ _ _ assms(4)])
      (use assms n in \<open>simp_all add: new_attempt_def is_closed_def is_owed_def\<close>)
  then show ?thesis by (rule r_into_rtranclp)
qed

lemma only_charges_same_money: "same_money w w' \<Longrightarrow> only_charges w w'"
  by (rule only_charges_eqI) (simp_all add: same_money_def)

lemma claim_attempt_effect:
  assumes "claim_attempt env invoice pm gw w = (res, w')"
  shows "moves env w w' \<and> only_charges w w'"
  using assms
proof (cases rule: claim_attempt_cases)
  case (claimed iv g m adapter name)
  with claim_move insert_attempt_money show ?thesis by blast
next
  case (refused r)
  then show ?thesis by (simp add: same_money_move only_charges_same_money)
qed simp

lemma pay_invoice_effect:
  assumes rows: "one_row_each w" and p: "pay_invoice env invoice pm gw w = (res, w')"
  shows "moves env w w' \<and> only_charges w w'"
proof -
  obtain res1 w1 where c: "claim_attempt env invoice pm gw w = (res1, w1)" by fastforce
  note e1 = claim_attempt_effect [OF c]
  show ?thesis
  proof (cases "\<exists>name. res1 = Inr (Claimed name)")
    case True
    then obtain name where "res1 = Inr (Claimed name)" by blast
    with p c have "charge_claimed_attempt env name w1 = (res, w')" by (simp add: pay_invoice_def)
    from charge_claimed_effect [OF only_charges_rows [OF _ rows] this] e1
    show ?thesis by (blast intro: moves_trans only_charges_trans)
  next
    case False
    with p c have "w' = w1" by (auto simp: pay_invoice_def split: sum.splits claim.splits)
    with e1 show ?thesis by simp
  qed
qed

lemma resume_attempt_effect:
  assumes "one_row_each w" "resume_attempt env name w = (res, w')"
  shows "moves env w w' \<and> only_charges w w'"
  using assms charge_claimed_effect by (auto simp: resume_attempt_def split: option.splits if_splits)

section \<open>On-session orders\<close>

lemma claim_on_session_cases:
  assumes "claim_on_session_attempt env invoice gateway w = (res, w')"
  obtains (created) iv g name where "res = Inr (Created name)" "find_invoice w invoice = Some iv" "is_owed iv"
      "0 < inv_expected_collection iv" "in_flight_attempt invoice w = None"
      "insert_attempt env (new_attempt env iv g None w) w = Inr (name, w')"
  | (refused) "\<forall>name. res \<noteq> Inr (Created name)" "w' = w"
proof (cases "find_invoice w invoice")
  case None
  with assms refused show thesis by (auto simp: claim_on_session_attempt_def)
next
  case (Some iv)
  note c = assms [unfolded claim_on_session_attempt_def Some, simplified option.case]
  show thesis
  proof (cases "is_owed iv \<and> 0 < inv_expected_collection iv \<and> in_flight_attempt invoice w = None")
    case False
    with c refused show thesis by (auto simp: is_owed_def split: if_splits option.splits)
  next
    case ok: True
    then have nc: "inv_status iv \<in> set UNSETTLED" "is_issued iv" "\<not> inv_expected_collection iv \<le> 0"
      "in_flight_attempt invoice w = None" by (auto simp: is_owed_def)
    let ?g = "if truthy gateway then Inr (the gateway) else resolve_gateway_for_currency env (inv_currency iv)"
    show thesis
    proof (cases ?g)
      case (Inl e)
      with c nc refused show thesis by auto
    next
      case (Inr g)
      show thesis
      proof (cases "insert_attempt env (new_attempt env iv g None w) w")
        case (Inl e)
        with c nc \<open>?g = Inr g\<close> refused show thesis by auto
      next
        case ins: (Inr p)
        obtain name w2 where p: "p = (name, w2)" by (cases p)
        with c nc Inr ins have "res = Inr (Created name)" "w' = w2" by auto
        with created Some ok ins p show thesis by blast
      qed
    qed
  qed
qed

lemma claim_on_session_effect:
  assumes "claim_on_session_attempt env invoice gateway w = (res, w')"
  shows "moves env w w' \<and> only_charges w w'"
  using assms
proof (cases rule: claim_on_session_cases)
  case (created iv g name)
  with claim_move insert_attempt_money show ?thesis by blast
qed simp

lemma fail_unopened_effect:
  assumes "stands a w" "fail_unopened_order env a e w = (res, w')"
  shows "moves env w w' \<and> only_charges w w'"
proof (cases "attempt_transition (pe_ambient env) a ''Failed'' (Some ''order not created'') (Some ''gateway'') (pw_events w)")
  case (Inl err)
  with assms(2) show ?thesis by (simp add: fail_unopened_order_def)
next
  case (Inr p)
  obtain a' evs where t: "attempt_transition (pe_ambient env) a ''Failed'' (Some ''order not created'') (Some ''gateway'') (pw_events w) = Inr (a', evs)"
    using Inr by (cases p) auto
  let ?b = "stamp_failure \<lparr>fl_code = Some ''order_not_created'', fl_decline = None, fl_reason = Some e\<rparr> a'"
  let ?v = "w\<lparr>pw_events := evs\<rparr>"
  have w': "w' = put_attempt ?b ?v" using assms(2) t by (simp add: fail_unopened_order_def)
  have "same_charge a ?b" using attempt_transition_Inr(1) [OF t] by (simp add: same_charge_def stamp_failure_def)
  moreover have "\<not> is_in_flight ?b" using attempt_transition_Inr(1) [OF t] by (simp add: is_in_flight_def stamp_failure_def)
  ultimately have "stands ?b w" using stands_mono [OF assms(1)] by blast
  then have "stands ?b ?v" by (subst stands_cong) simp_all
  from put_move [OF this] have "moves env ?v w'" by (simp add: w')
  moreover have "moves env w ?v" by (rule frame_move) (simp_all add: same_statuses_cong)
  moreover have "only_charges w w'" by (rule only_charges_eqI) (simp_all add: w')
  ultimately show ?thesis by (blast intro: moves_trans)
qed

lemma create_order_effect:
  assumes "create_invoice_payment_order env invoice gateway w = (res, w')"
  shows "moves env w w' \<and> only_charges w w'"
proof -
  obtain res1 w1 where c: "claim_on_session_attempt env invoice gateway w = (res1, w1)" by fastforce
  note e1 = claim_on_session_effect [OF c]
  show ?thesis
  proof (cases "\<exists>name. res1 = Inr (Created name)")
    case False
    with assms c have "w' = w1"
      by (auto simp: create_invoice_payment_order_def split: sum.splits order_claim.splits)
    with e1 show ?thesis by simp
  next
    case True
    then obtain name where res1: "res1 = Inr (Created name)" by blast
    note d = assms [unfolded create_invoice_payment_order_def c res1, simplified]
    show ?thesis
    proof (cases "find_attempt w1 name")
      case None
      with d e1 show ?thesis by simp
    next
      case (Some a)
      note sa = stands_found [OF Some]
      have so: "stands (a\<lparr>at_order := order\<rparr>) w1" for order
        by (rule stands_mono [OF sa]) (simp_all add: is_in_flight_def)
      have stored: "moves env w1 (put_attempt (a\<lparr>at_order := order\<rparr>) w1) \<and> only_charges w1 (put_attempt (a\<lparr>at_order := order\<rparr>) w1)" for order
        using put_move [OF so [of order]] by (auto intro: only_charges_eqI)
      have "w' = w1 \<or> (\<exists>e res. fail_unopened_order env a e w1 = (res, w')) \<or> (\<exists>order. w' = put_attempt (a\<lparr>at_order := order\<rparr>) w1)"
        using d Some by (auto split: if_splits sum.splits prod.splits)
      with stored fail_unopened_effect [OF sa] have "moves env w1 w' \<and> only_charges w1 w'" by auto
      with e1 show ?thesis by (blast intro: moves_trans only_charges_trans)
    qed
  qed
qed

section \<open>Charges that break off\<close>

lemma record_result_Inl: "record_result env a r w = (Inl e, w') \<Longrightarrow> w' = w"
  unfolding record_result_def Let_def by (auto split: if_splits sum.splits prod.splits)

lemma defer_attempt_Inl: "defer_attempt env a e w = (Inl err, w') \<Longrightarrow> w' = w"
  unfolding defer_attempt_def Let_def by (auto split: option.splits sum.splits prod.splits)

lemma send_charge_Inl: "send_charge env adapter m input a w = (Inl e, w') \<Longrightarrow> w' = w"
  unfolding send_charge_def
  by (auto split: sum.splits error.splits dest: record_result_Inl defer_attempt_Inl)

lemma charge_claimed_Inl:
  assumes "charge_claimed_attempt env name w = (Inl e, w')" "find_attempt w name = Some a"
  shows "w' = w \<or> (\<exists>order. w' = put_attempt (a\<lparr>at_order := order\<rparr>) w)"
proof (cases "Option.bind (at_method a) (find_method w)")
  case None
  with assms show ?thesis by (simp add: charge_claimed_attempt_def)
next
  case m: (Some m)
  show ?thesis
  proof (cases "adapter_for env (at_gateway a)")
    case (Inl e)
    with assms m show ?thesis by (simp add: charge_claimed_attempt_def)
  next
    case (Inr adapter)
    with assms m show ?thesis
      by (auto simp: charge_claimed_attempt_def Let_def split: if_splits sum.splits error.splits
          dest: send_charge_Inl record_result_Inl defer_attempt_Inl)
  qed
qed

end
