(* ===== verification/Payment_Example.thy ===== *)
theory Payment_Example
  imports Charge_Safety Ledger_Invariant
begin

text \<open>
  A small concrete world for the witnesses of the payment properties: one Indian team with two
  cards on Stripe, one issued invoice of 1180 rupees, and a gateway whose answers are set per
  example.
\<close>

definition stripe_rows :: "gateway_currency list" where
  "stripe_rows = [\<lparr>gc_gateway = ''Stripe'', gc_currency = ''INR'', gc_is_default = True,
     gc_max_silent_charge = 0, gc_predebit_notice = False\<rparr>]"

definition answers :: "error + payment_result \<Rightarrow> adapter" where
  "answers r = \<lparr>ad_off_session = True, ad_prepare = (\<lambda>_ _. Inr None), ad_charge = (\<lambda>_ _ _. r),
     ad_create_order = (\<lambda>_ _ _. Inr ''order_1''), ad_status = (\<lambda>_. Inr (Some ''succeeded'')),
     ad_find_order = (\<lambda>_. Inr None), ad_refund = (\<lambda>_ _ _ _. Inr \<lparr>rr_status = ''Completed'', rr_gateway_id = Some ''re_1''\<rparr>),
     ad_refund_status = (\<lambda>_. Inr ''Completed''),
     ad_verify_signature = (\<lambda>_ _ _. True), ad_verify_payment = (\<lambda>_. Inr None)\<rparr>"

definition approved :: payment_result where
  "approved = \<lparr>ps_success = True, ps_txn = Some ''pi_1'', ps_failure = \<lparr>fl_code = None, fl_decline = None, fl_reason = None\<rparr>,
     ps_hold_until = None\<rparr>"

definition declined :: payment_result where
  "declined = \<lparr>ps_success = False, ps_txn = Some ''pi_1'',
     ps_failure = \<lparr>fl_code = Some ''card_declined'', fl_decline = None, fl_reason = Some ''declined''\<rparr>, ps_hold_until = None\<rparr>"

definition pay_env_with :: "error + payment_result \<Rightarrow> pay_env" where
  "pay_env_with r = \<lparr>pe_ambient = \<lparr>am_now = at_midnight 739810, am_user = None\<rparr>, pe_settings = shipped_settings,
     pe_r2 = half_up, pe_tax_profiles = Map.empty, pe_team_currency = (\<lambda>_. ''INR''), pe_team_cap = (\<lambda>_. 0),
     pe_profile_ok = (\<lambda>_. True), pe_awaiting_records = (\<lambda>_. False), pe_awaiting_check = (\<lambda>_. False),
     pe_asked_recently = (\<lambda>_. False), pe_gateways = [(''Stripe'', True)], pe_rows = stripe_rows,
     pe_adapters = [''Stripe'' \<mapsto> answers r], pe_hash = (\<lambda>k. replicate k (CHR ''a'')),
     pe_key = (\<lambda>n k. replicate k (CHR ''0'') @ CHR ''1'' # n)\<rparr>"

definition due_invoice :: invoice where
  "due_invoice = june_invoice\<lparr>inv_due_date := Some 739805, inv_payment_date := Some 739802,
     inv_dunning_starts_on := Some 739802, inv_suspends_on := Some 739812\<rparr>"

definition saved_card :: "string \<Rightarrow> int \<Rightarrow> payment_method" where
  "saved_card name priority = \<lparr>pm_name = name, pm_team = ''t1'', pm_gateway = ''Stripe'', pm_status = ''Active'',
     pm_priority = priority, pm_reauth_required = False, pm_customer = Some ''cus_1'', pm_currency = Some ''INR'',
     pm_setup_reference = None, pm_failure = \<lparr>fl_code = None, fl_decline = None, fl_reason = None\<rparr>, pm_creation = 0\<rparr>"

definition due_world :: world where
  "due_world = \<lparr>pw_ledger = empty_ledger, pw_profiles = example_profiles, pw_invoices = [due_invoice],
     pw_attempts = [], pw_methods = [saved_card ''backup'' 2, saved_card ''main'' 1], pw_refunds = [], pw_webhooks = [], pw_top_ups = [],
     pw_events = [], pw_notices = [], pw_reviews = [], pw_sync_queue = [], pw_step_queue = [], pw_serial = 0\<rparr>"

lemmas example_defs = stripe_rows_def answers_def approved_def declined_def pay_env_with_def due_invoice_def
  june_invoice_def saved_card_def due_world_def

lemma key_inj: "replicate k (CHR ''0'') @ CHR ''1'' # n = replicate k' (CHR ''0'') @ CHR ''1'' # n' \<Longrightarrow> n = n' \<and> k = k'"
proof (induction k arbitrary: k')
  case 0
  then show ?case by (cases k') auto
next
  case (Suc k)
  then show ?case by (cases k') auto
qed

lemma replicate_inj: "inj (\<lambda>k. replicate k (CHR ''a''))"
proof (rule injI)
  fix j k assume "replicate j (CHR ''a'') = replicate k (CHR ''a'')"
  then have "length (replicate j (CHR ''a'')) = length (replicate k (CHR ''a''))" by (rule arg_cong)
  then show "j = k" by simp
qed

lemma good_example: "good_names (pay_env_with r)"
  unfolding good_names_def
proof (intro conjI allI impI)
  show "inj (pe_hash (pay_env_with r))" using replicate_inj by (simp add: pay_env_with_def)
next
  fix n n' :: string and k k' :: nat
  assume "pe_key (pay_env_with r) n k = pe_key (pay_env_with r) n' k'"
  then have "replicate k (CHR ''0'') @ CHR ''1'' # n = replicate k' (CHR ''0'') @ CHR ''1'' # n'"
    by (simp add: pay_env_with_def)
  from key_inj [OF this] show "n = n'" "k = k'" by simp_all
qed

lemma due_world_log: "log_ok env due_world"
  by (rule log_okI) (simp_all add: due_world_def attempts_for_def)

lemma due_world_rows: "one_row_each due_world"
  by (simp add: one_row_each_def due_world_def)

text \<open>The fields of the example, and what the reads of the claim answer.\<close>

lemma due_invoice_fields [simp]:
  "inv_name due_invoice = ''INV-1''" "inv_status due_invoice = ''Outstanding''"
  "inv_expected_collection due_invoice = 1180" "inv_currency due_invoice = ''INR''" "inv_team due_invoice = ''t1''"
  "inv_due_date due_invoice = Some 739805" "inv_payment_date due_invoice = Some 739802"
  "inv_dunning_starts_on due_invoice = Some 739802" "inv_suspends_on due_invoice = Some 739812"
  "inv_type due_invoice = ''Billable''" "inv_predebit_charge_after due_invoice = None"
  by (simp_all add: due_invoice_def june_invoice_def)

lemma due_world_fields [simp]:
  "pw_invoices due_world = [due_invoice]" "pw_attempts due_world = []" "pw_ledger due_world = empty_ledger"
  "pw_methods due_world = [saved_card ''backup'' 2, saved_card ''main'' 1]" "pw_serial due_world = 0"
  "pw_profiles due_world = example_profiles" "pw_refunds due_world = []" "pw_events due_world = []"
  by (simp_all add: due_world_def)

lemma due_world_reads [simp]:
  "find_invoice due_world ''INV-1'' = Some due_invoice" "in_flight_attempt ''INV-1'' due_world = None"
  "attempts_for ''INV-1'' due_world = []" "is_owed due_invoice" "is_issued due_invoice"
  by (simp_all add: find_invoice_def in_flight_attempt_def attempts_for_def is_owed_def is_issued_def UNSETTLED_def)

lemma answers_fields [simp]:
  "ad_prepare (answers r) i n = Inr None" "ad_charge (answers r) i m k = r" "ad_off_session (answers r)"
  "ad_create_order (answers r) x c n = Inr ''order_1''"
  "ad_refund (answers r) a x s k = Inr \<lparr>rr_status = ''Completed'', rr_gateway_id = Some ''re_1''\<rparr>"
  by (simp_all add: answers_def)

lemma due_world_adapter: "adapter_for (pay_env_with r) ''Stripe'' = Inr (answers r)"
  by (simp add: adapter_for_def pay_env_with_def)

lemma due_world_silent: "can_charge_silently (pay_env_with r) (answers r) ''Stripe'' 1180 ''INR''"
  by (simp add: can_charge_silently_def answers_def silent_charge_ceiling_def currency_row_def pay_env_with_def
      stripe_rows_def regulatory_ceiling_def is_regulated_currency_def INR_SILENT_CEILING_def)

end
