(* ===== verification/Charge_Properties.thy ===== *)
theory Charge_Properties
  imports Payment_Example
begin

text \<open>
  The properties of the charge path: who may be charged and for what, that a charge never settles,
  that a broken charge stays on record, and that a claim is always granted when it should be.
\<close>

lemma in_flight_unique:
  assumes ok: "log_ok env w" and a: "a \<in> set (attempts_for n w)" "is_in_flight a"
  shows "in_flight_attempt n w = Some (at_name a)"
proof -
  have len: "length (filter is_in_flight (attempts_for n w)) \<le> 1" by (rule log_okD(3) [OF ok])
  have "find is_in_flight (attempts_for n w) \<noteq> None" using a by (auto simp: find_None)
  then obtain b where b: "find is_in_flight (attempts_for n w) = Some b" by blast
  then have "b \<in> set (attempts_for n w) \<and> is_in_flight b" by (rule find_Some)
  with a have m: "a \<in> set (filter is_in_flight (attempts_for n w))" "b \<in> set (filter is_in_flight (attempts_for n w))" by simp_all
  have "b = a"
  proof (cases "filter is_in_flight (attempts_for n w)")
    case (Cons x xs)
    with len have "filter is_in_flight (attempts_for n w) = [x]" by simp
    with m show ?thesis by (simp del: set_filter)
  qed (use m in simp)
  with b show ?thesis by (simp add: in_flight_attempt_def)
qed

text \<open>
  A charge never settles an invoice. Whatever the gateway answers, however it fails,
  paying an invoice, resuming an attempt and opening an on-session order leave the credit ledger and
  the refunds as they were, and change nothing on any invoice but the two dates of its dunning ladder;
  in particular no invoice changes its status or the amount it collects.
\<close>

theorem charging_never_settles:
  assumes "one_row_each w"
    and "w' \<in> {snd (pay_invoice env invoice method gateway w), snd (resume_attempt env name w),
               snd (create_invoice_payment_order env invoice gateway w)}"
  shows "pw_ledger w' = pw_ledger w \<and> pw_refunds w' = pw_refunds w
    \<and> map (\<lambda>iv. iv\<lparr>inv_dunning_starts_on := None, inv_suspends_on := None\<rparr>) (pw_invoices w')
      = map (\<lambda>iv. iv\<lparr>inv_dunning_starts_on := None, inv_suspends_on := None\<rparr>) (pw_invoices w)"
proof -
  have "only_charges w w'"
    using assms pay_invoice_effect [OF assms(1) surjective_pairing] resume_attempt_effect [OF assms(1) surjective_pairing]
      create_order_effect [OF surjective_pairing] by auto
  then show ?thesis by (simp add: only_charges_def)
qed

text \<open>
  An attempt is claimed only for what is due and only where a debit is allowed. When a
  claim is granted the invoice is unsettled, issued and has an amount due, no charge of it is in
  flight, the gateway may pull the amount off-session (in rupees never more than 15000), and exactly
  one attempt is added: Initiated, for the whole amount due, with the key of this invoice and the
  next retry number, a key no other attempt has.
\<close>

theorem claim_only_what_is_due:
  assumes "claim_attempt env invoice method gateway w = (Inr (Claimed name), w')"
  shows "\<exists>iv a. find_invoice w invoice = Some iv \<and> is_owed iv \<and> 0 < inv_expected_collection iv
    \<and> in_flight_attempt invoice w = None
    \<and> (inv_currency iv = ''INR'' \<longrightarrow> inv_expected_collection iv \<le> 15000)
    \<and> pw_attempts w' = pw_attempts w @ [a] \<and> at_name a = name \<and> at_status a = ''Initiated''
    \<and> at_invoice a = invoice \<and> at_amount a = inv_expected_collection iv \<and> at_currency a = inv_currency iv
    \<and> at_key a = pe_key env invoice (length (attempts_for invoice w))
    \<and> at_key a \<notin> at_key ` set (pw_attempts w)"
  using assms
proof (cases rule: claim_attempt_cases)
  case (claimed iv g m adapter name')
  note ins = insert_attempt_Inr [OF claimed(10)]
  have "inv_currency iv = ''INR'' \<longrightarrow> inv_expected_collection iv \<le> 15000"
    using can_charge_silently_INR [of env adapter g "inv_expected_collection iv"] claimed(9)
    by (auto simp: INR_SILENT_CEILING_def)
  with claimed ins show ?thesis by (auto simp: new_attempt_def)
qed simp_all

lemma example_claim:
  "claim_attempt (pay_env_with r) ''INV-1'' (Some ''main'') (Some ''Stripe'') due_world =
     (Inr (Claimed []), due_world\<lparr>pw_attempts := [(new_attempt (pay_env_with r) due_invoice ''Stripe'' (Some ''main'') due_world)
        \<lparr>at_name := [], at_key := pe_key (pay_env_with r) ''INV-1'' 0, at_creation := pe_now (pay_env_with r)\<rparr>],
        pw_serial := 1\<rparr>)"
proof -
  have "insert_attempt (pay_env_with r) (new_attempt (pay_env_with r) due_invoice ''Stripe'' (Some ''main'') due_world) due_world
    = Inr ([], due_world\<lparr>pw_attempts := [(new_attempt (pay_env_with r) due_invoice ''Stripe'' (Some ''main'') due_world)
        \<lparr>at_name := [], at_key := pe_key (pay_env_with r) ''INV-1'' 0, at_creation := pe_now (pay_env_with r)\<rparr>],
        pw_serial := 1\<rparr>)"
    by (simp add: insert_attempt_def new_attempt_def Let_def) (simp add: pay_env_with_def)
  moreover have "inv_status due_invoice \<in> set UNSETTLED" "is_issued due_invoice"
    by (simp_all add: UNSETTLED_def)
  ultimately show ?thesis
    by (simp add: claim_attempt_def due_world_reads resolve_method_def due_world_adapter due_world_silent Let_def)
qed

theorem claim_only_what_is_due_witness:
  "\<exists>iv a. find_invoice due_world ''INV-1'' = Some iv
    \<and> pw_attempts (snd (claim_attempt (pay_env_with (Inr approved)) ''INV-1'' (Some ''main'') (Some ''Stripe'') due_world)) = [a]
    \<and> at_amount a = inv_expected_collection iv"
  using claim_only_what_is_due [OF example_claim [of "Inr approved"]] unfolding example_claim
  by (auto simp: due_world_def)

theorem charging_never_settles_witness:
  "pw_ledger (snd (pay_invoice (pay_env_with (Inr approved)) ''INV-1'' (Some ''main'') (Some ''Stripe'') due_world)) = empty_ledger"
  using charging_never_settles [OF due_world_rows, of
      "snd (pay_invoice (pay_env_with (Inr approved)) ''INV-1'' (Some ''main'') (Some ''Stripe'') due_world)"
      "pay_env_with (Inr approved)" "''INV-1''" "Some ''main''" "Some ''Stripe''"]
  by (simp add: due_world_def)

text \<open>
  Property C28: a charge that breaks off stays on record. When paying an invoice raises after the
  attempt was claimed (the gateway raised an error nobody mapped, the method or its gateway is gone),
  the attempt of this charge is stored, still Initiated, no invoice changed, and every later payment
  of the invoice is refused because that attempt is in flight, until somebody resolves it.
\<close>

theorem broken_charge_stays_on_record:
  assumes names: "good_names env" and ok: "log_ok env w"
    and p: "pay_invoice env invoice method gateway w = (Inl e, w')" and claimed: "pw_attempts w' \<noteq> pw_attempts w"
  shows "\<exists>a. a \<in> set (pw_attempts w') \<and> at_invoice a = invoice \<and> at_status a = ''Initiated''
    \<and> pw_invoices w' = pw_invoices w
    \<and> (\<forall>env' method' gateway'. pay_invoice env' invoice method' gateway' w' =
         (Inr (not_charged ''attempt_in_flight'' (Some (at_name a))), w'))"
proof -
  obtain res1 w1 where c: "claim_attempt env invoice method gateway w = (res1, w1)" by fastforce
  from c show ?thesis
  proof (cases rule: claim_attempt_cases)
    case (claimed iv g m adapter name)
    note ins = insert_attempt_Inr [OF claimed(10)]
    define b where "b = (new_attempt env iv g (Some m) w)\<lparr>at_name := name,
      at_key := pe_key env invoice (length (attempts_for invoice w)), at_creation := pe_now env\<rparr>"
    have w1: "pw_attempts w1 = pw_attempts w @ [b]" "pw_invoices w1 = pw_invoices w"
      using ins(2) claimed(3) by (simp_all add: b_def new_attempt_def)
    have bf: "at_name b = name" "at_status b = ''Initiated''" "at_invoice b = invoice"
      using claimed(3) by (simp_all add: b_def new_attempt_def)
    have ok1: "log_ok env w1" using moves_ok [OF _ names ok] claim_attempt_effect [OF c] by blast
    have fb: "find_attempt w1 name = Some b"
      using find_attempt_distinct [OF log_okD(1) [OF ok1], of b] by (simp add: w1 bf)
    have "charge_claimed_attempt env name w1 = (Inl e, w')" using p c claimed(1) by (simp add: pay_invoice_def)
    from charge_claimed_Inl [OF this fb] obtain a where
      a: "find_attempt w' name = Some a" "at_invoice a = invoice" "at_status a = ''Initiated''" "at_name a = name"
      and inv: "pw_invoices w' = pw_invoices w" and ok': "log_ok env w'"
    proof (elim disjE exE)
      assume "w' = w1" with that fb bf w1 ok1 show thesis by simp
    next
      fix order assume w': "w' = put_attempt (b\<lparr>at_order := order\<rparr>) w1"
      have "log_ok env w'" unfolding w'
        by (rule advance_ok [OF ok1, of b]) (simp_all add: fb bf is_in_flight_def)
      with that fb bf w1 w' show thesis by simp
    qed
    have a_in: "a \<in> set (pw_attempts w')" using find_attempt_in [OF a(1)] by simp
    then have fl: "in_flight_attempt invoice w' = Some (at_name a)"
      using in_flight_unique [OF ok', of a invoice] a by (simp add: attempts_for_def is_in_flight_def)
    have "find_invoice w' invoice = Some iv" using claimed(2) inv by (simp add: find_invoice_def)
    then have "pay_invoice env' invoice m' g' w' = (Inr (not_charged ''attempt_in_flight'' (Some (at_name a))), w')" for env' m' g'
      using claimed(4,5) fl by (simp add: pay_invoice_def claim_attempt_def is_owed_def)
    with a_in a inv show ?thesis by blast
  next
    case (refused r)
    with p c show ?thesis by (simp add: pay_invoice_def)
  next
    case (raised e')
    with p c claimed show ?thesis by (simp add: pay_invoice_def)
  qed
qed

lemma example_charge:
  "\<exists>w'. pay_invoice (pay_env_with (Inl e)) ''INV-1'' (Some ''main'') (Some ''Stripe'') due_world = (Inl DoesNotExist, w')
     \<and> pw_attempts w' \<noteq> []" if "e = DoesNotExist"
proof -
  let ?w = "snd (claim_attempt (pay_env_with (Inl e)) ''INV-1'' (Some ''main'') (Some ''Stripe'') due_world)"
  have "find_method ?w ''main'' = Some (saved_card ''main'' 1)"
    by (simp add: example_claim find_method_def saved_card_def)
  then have "charge_claimed_attempt (pay_env_with (Inl e)) [] ?w = (Inl DoesNotExist, ?w)"
    using that
    by (simp add: example_claim charge_claimed_attempt_def find_attempt_def new_attempt_def due_world_adapter
        send_charge_def Let_def)
  then show ?thesis by (simp add: pay_invoice_def example_claim)
qed

theorem broken_charge_stays_on_record_witness:
  "\<exists>w' a. pay_invoice (pay_env_with (Inl DoesNotExist)) ''INV-1'' (Some ''main'') (Some ''Stripe'') due_world = (Inl DoesNotExist, w')
     \<and> a \<in> set (pw_attempts w') \<and> at_status a = ''Initiated''"
proof -
  obtain w' where w': "pay_invoice (pay_env_with (Inl DoesNotExist)) ''INV-1'' (Some ''main'') (Some ''Stripe'') due_world = (Inl DoesNotExist, w')"
    "pw_attempts w' \<noteq> pw_attempts due_world"
    using example_charge by auto
  from broken_charge_stays_on_record [OF good_example due_world_log w'] w'(1) show ?thesis by blast
qed

text \<open>
  A chargeable invoice can always be claimed. With an amount due on an issued,
  unsettled invoice, nothing in flight, and a method on a gateway that may pull the amount, the claim
  is granted: the retry number it takes gives a key no earlier attempt has, whatever attempts were
  pruned from the log.
\<close>

theorem chargeable_invoice_is_claimed:
  assumes names: "good_names env" and ok: "log_ok env w"
    and iv: "find_invoice w invoice = Some iv" "is_owed iv" "0 < inv_expected_collection iv"
    and free: "in_flight_attempt invoice w = None"
    and rail: "resolve_method env iv method gateway w = Inr (m, g)" "adapter_for env g = Inr adapter"
      "can_charge_silently env adapter g (inv_expected_collection iv) (inv_currency iv)"
  shows "\<exists>w'. claim_attempt env invoice method gateway w = (Inr (Claimed (pe_hash env (pw_serial w))), w')"
proof -
  let ?a = "new_attempt env iv g (Some m) w"
  have n: "inv_name iv = invoice" by (rule find_invoice_name [OF iv(1)])
  have open_inv: "\<not> is_closed w invoice" using iv by (simp add: is_closed_def is_owed_def)
  have "at_key x \<noteq> pe_key env invoice (length (attempts_for invoice w))" if x: "x \<in> set (pw_attempts w)" for x
  proof
    assume "at_key x = pe_key env invoice (length (attempts_for invoice w))"
    then have "at_invoice x = invoice" "at_retry x = length (attempts_for invoice w)"
      using names log_okD(4) [OF ok x] unfolding good_names_def by metis+
    moreover from this x have "x \<in> set (attempts_for invoice w)" by (simp add: attempts_for_def)
    then have "at_retry x \<in> set (map at_retry (attempts_for invoice w))" by simp
    ultimately show False unfolding log_okD(5) [OF ok open_inv] by simp
  qed
  then have "\<not> list_ex (\<lambda>x. at_key x = pe_key env (at_invoice ?a) (at_retry ?a)) (pw_attempts w)"
    by (auto simp: list_ex_iff new_attempt_def n)
  then obtain w' where "insert_attempt env ?a w = Inr (pe_hash env (pw_serial w), w')"
    by (simp add: insert_attempt_def Let_def)
  with iv free rail show ?thesis by (simp add: claim_attempt_def is_owed_def Let_def)
qed

theorem chargeable_invoice_is_claimed_witness:
  "\<exists>w'. claim_attempt (pay_env_with (Inr approved)) ''INV-1'' (Some ''main'') (Some ''Stripe'') due_world = (Inr (Claimed []), w')"
  using chargeable_invoice_is_claimed [OF good_example [of "Inr approved"] due_world_log due_world_reads(1,4) _ due_world_reads(2),
      of "Some ''main''" "Some ''Stripe''" "''main''" "''Stripe''" "answers (Inr approved)"]
  by (simp add: resolve_method_def due_world_adapter due_world_silent) (simp add: pay_env_with_def)

end
