(* ===== verification/Settlement.thy ===== *)
theory Settlement
  imports Charges
begin

text \<open>
  Settling an invoice with a captured payment (\<open>payments/charges.py\<close>: \<open>_mark_invoice_paid\<close>,
  \<open>settle_checkout_attempt\<close>), the refund of a late capture (\<open>payments/refunds.py\<close>), and crediting a
  top-up (\<open>doctype/top_up_order/top_up_order.py\<close>). The wallet bookings run without a deadlock; what
  a deadlock does to one is the subject of \<open>Bookings\<close>.
\<close>

section \<open>Refunds\<close>

definition insert_refund ::
  "pay_env \<Rightarrow> attempt \<Rightarrow> money \<Rightarrow> string \<Rightarrow> string option \<Rightarrow> bool \<Rightarrow> world \<Rightarrow> refund \<times> world" where
  "insert_refund env a amount destination reason late_capture w =
     (let r = \<lparr>rf_name = pe_hash env (pw_serial w), rf_attempt = at_name a, rf_invoice = at_invoice a,
        rf_team = at_team a, rf_amount = amount, rf_currency = at_currency a, rf_destination = destination,
        rf_late_capture = late_capture, rf_partial = False, rf_net_amount = 0, rf_tax_amount = 0,
        rf_promotional_amount = 0, rf_retries = 0, rf_status = ''Initiated'', rf_gateway_id = None, rf_reason = reason,
        rf_completed_at = None, rf_credit_note = None, rf_payment_record = None, rf_advance = None,
        rf_promotional_record = None\<rparr>
      in (r, w\<lparr>pw_refunds := pw_refunds w @ [r], pw_serial := Suc (pw_serial w)\<rparr>))"

text \<open>\<open>Refund.on_update\<close>, of a save that changed the status: a late capture that is back is announced.\<close>

definition save_refund :: "refund \<Rightarrow> world \<Rightarrow> world" where
  "save_refund r w =
     (if rf_late_capture r \<and> rf_status r = ''Completed''
      then notify (rf_team r) ''Payment Refunded'' (rf_name r) (put_refund r w) else put_refund r w)"

definition refund_to_wallet_step :: "pay_env \<Rightarrow> refund \<Rightarrow> attempt \<Rightarrow> world \<Rightarrow> error + refund \<times> world" where
  "refund_to_wallet_step env r a w =
     bindE (refund_to_wallet (pe_team_currency env) (pe_now env) [] (at_team a) (rf_amount r)
              (if at_currency a = '''' then ''INR'' else at_currency a) (Some ''Refund'') (Some (rf_name r))
              (Some (or_else (rf_reason r) (''Overcharge refund for '' @ at_invoice a))) (pw_ledger w))
       (\<lambda>(_, l').
     bindE (refund_transition (pe_ambient env) r ''Completed'' (am_user (pe_ambient env)) (pw_events w))
       (\<lambda>(r', evs). let r'' = r'\<lparr>rf_completed_at := Some (pe_now env)\<rparr>
         in Inr (r'', save_refund r'' (w\<lparr>pw_ledger := l', pw_events := evs\<rparr>))))"

definition refund_to_source_step :: "pay_env \<Rightarrow> refund \<Rightarrow> attempt \<Rightarrow> string option \<Rightarrow> world \<Rightarrow> error + refund \<times> world" where
  "refund_to_source_step env r a reason w =
     bindE (adapter_for env (at_gateway a)) (\<lambda>adapter.
     bindE (ad_refund adapter a (rf_amount r) (or_else reason '''') (rf_name r)) (\<lambda>result.
     let r = r\<lparr>rf_gateway_id := rr_gateway_id result\<rparr> in
     bindE (refund_transition (pe_ambient env) r (if rr_success result then ''Completed'' else ''Failed'')
              (am_user (pe_ambient env)) (pw_events w)) (\<lambda>(r', evs).
     if \<not> rr_success result then Inr (r', save_refund r' (w\<lparr>pw_events := evs\<rparr>))
     else let r'' = r'\<lparr>rf_completed_at := Some (pe_now env)\<rparr> in
       if rf_amount r \<ge> at_amount a
       then bindE (move_attempt (pe_ambient env) a ''Refunded'' None (am_user (pe_ambient env)) (Some (rf_amount r)) evs)
              (\<lambda>(a', evs'). Inr (r'', save_refund r'' (put_attempt a' (w\<lparr>pw_events := evs'\<rparr>))))
       else Inr (r'', save_refund r'' (w\<lparr>pw_events := evs\<rparr>)))))"

definition issue_refund ::
  "pay_env \<Rightarrow> string \<Rightarrow> money option \<Rightarrow> string \<Rightarrow> string option \<Rightarrow> bool \<Rightarrow> world \<Rightarrow> error + refund \<times> world" where
  "issue_refund env name amount destination reason late_capture w =
     (case find_attempt w name of None \<Rightarrow> Inl DoesNotExist | Some a \<Rightarrow>
      if at_status a \<notin> {''Captured'', ''Refunded''}
      then Inl (ValidationError ''Only a captured charge can be refunded.'')
      else let amount = (case amount of None \<Rightarrow> at_amount a | Some x \<Rightarrow> if x = 0 then at_amount a else x) in
      if amount \<le> 0 \<or> amount > at_amount a
      then Inl (ValidationError ''Refund amount must be > 0 and <= the captured amount.'')
      else let (r, w1) = insert_refund env a amount destination reason late_capture w in
        if destination = ''Wallet'' then refund_to_wallet_step env r a w1
        else refund_to_source_step env r a reason w1)"

definition late_captured_attempts :: "string \<Rightarrow> world \<Rightarrow> string list" where
  "late_captured_attempts invoice w =
     map rf_attempt (filter (\<lambda>r. rf_invoice r = invoice \<and> rf_late_capture r) (pw_refunds w))"

definition full_dispute :: "pay_env \<Rightarrow> string \<Rightarrow> string option \<Rightarrow> world \<Rightarrow> error + refund \<times> world" where
  "full_dispute env name reason w = issue_refund env name None ''Source'' reason False w"

definition partial_overcharge ::
  "pay_env \<Rightarrow> string \<Rightarrow> money \<Rightarrow> string option \<Rightarrow> bool \<Rightarrow> world \<Rightarrow> error + refund \<times> world" where
  "partial_overcharge env name amount reason to_source w =
     issue_refund env name (Some amount) (if to_source then ''Source'' else ''Wallet'') reason False w"

section \<open>A captured payment meets its invoice\<close>

definition wallet_purchase ::
  "pay_env \<Rightarrow> string \<Rightarrow> money \<Rightarrow> string \<Rightarrow> string \<Rightarrow> string \<Rightarrow> string \<Rightarrow> string option \<Rightarrow> money option \<Rightarrow> world
     \<Rightarrow> error + ledger_entry \<times> world" where
  "wallet_purchase env team amount currency reference note payment_id adapter_key credit w =
     bindE (purchase (pe_r2 env) (tax_env_of env w) (pe_team_currency env) (pe_now env) []
              \<lparr>pr_team = team, pr_amount = amount, pr_currency = currency, pr_payment_method = None,
               pr_reference_name = Some reference, pr_note = Some note, pr_payment_id = Some payment_id,
               pr_gateway = adapter_key, pr_credit = credit\<rparr> (pw_ledger w))
       (\<lambda>((entry, _), l'). Inr (entry, w\<lparr>pw_ledger := l'\<rparr>))"

definition unsettled_reason :: "invoice \<Rightarrow> money \<Rightarrow> string \<Rightarrow> money \<Rightarrow> string option" where
  "unsettled_reason iv amount currency due =
     (if inv_status iv \<notin> set UNSETTLED then Some (''landed on a '' @ inv_status iv @ '' invoice'')
      else if upper currency \<noteq> upper (inv_currency iv) \<or> amount + 5 / 1000 < due then Some ''did not cover it''
      else None)"

definition to_wallet ::
  "pay_env \<Rightarrow> invoice \<Rightarrow> money \<Rightarrow> string \<Rightarrow> string option \<Rightarrow> string option \<Rightarrow> string \<Rightarrow> world \<Rightarrow> error + world" where
  "to_wallet env iv amount currency payment_id adapter_key why w =
     (if \<not> truthy payment_id \<or> amount \<le> 0 then Inr (review (inv_name iv) why w)
      else bindE (wallet_purchase env (inv_team iv) amount currency (the payment_id)
                    (''Payment for '' @ inv_name iv @ '' that '' @ why) (the payment_id) adapter_key None w)
             (\<lambda>(_, w'). Inr (review (inv_name iv) why w')))"

definition refund_late_capture :: "pay_env \<Rightarrow> invoice \<Rightarrow> string \<Rightarrow> world \<Rightarrow> error + world" where
  "refund_late_capture env iv name w =
     bindE (issue_refund env name None ''Source'' (Some (inv_name iv @ '' was already paid'')) True w)
       (\<lambda>(r, w'). Inr (review (inv_name iv)
          (if rf_status r = ''Completed'' then ''refunded to its source'' else ''could not be refunded'') w'))"

text \<open>\<open>f"{payment_id}:surplus"\<close>: an id that is None is written out as None.\<close>

definition surplus_id :: "string option \<Rightarrow> string" where
  "surplus_id payment_id = py_str payment_id @ '':surplus''"

definition pay_off :: "pay_env \<Rightarrow> invoice \<Rightarrow> money \<Rightarrow> world \<Rightarrow> error + world" where
  "pay_off env iv paid w =
     bindE (invoice_transition (pe_ambient env) (iv\<lparr>inv_amount_paid := paid, inv_paid_at := Some (pe_now env)\<rparr>) ''Paid''
              (Some ''gateway capture settled'') (Some ''webhook'') (Some paid) (pw_events w))
       (\<lambda>(iv', evs). Inr (let w' = notify (inv_team iv) ''Payment Success'' (inv_name iv) (put_invoice iv' (w\<lparr>pw_events := evs\<rparr>))
          in w'\<lparr>pw_sync_queue := pw_sync_queue w' @ [inv_name iv]\<rparr>))"

definition mark_invoice_paid ::
  "pay_env \<Rightarrow> attempt \<Rightarrow> money \<Rightarrow> string \<Rightarrow> string option \<Rightarrow> string option \<Rightarrow> world \<Rightarrow> error + bool \<times> world" where
  "mark_invoice_paid env a amount currency payment_id adapter_key w =
     (case find_invoice w (at_invoice a) of None \<Rightarrow> Inl DoesNotExist | Some iv \<Rightarrow>
      let due = inv_expected_collection iv in
      if inv_status iv = ''Paid'' then bindE (refund_late_capture env iv (at_name a) w) (\<lambda>w'. Inr (False, w'))
      else case unsettled_reason iv amount currency due of
        Some why \<Rightarrow> bindE (to_wallet env iv amount currency payment_id adapter_key why w) (\<lambda>w'. Inr (False, w'))
      | None \<Rightarrow>
          let surplus = pe_r2 env (amount - due) in
          bindE (if surplus > 0
                 then to_wallet env iv surplus currency (Some (surplus_id payment_id)) adapter_key ''paid above what was due'' w
                 else Inr w)
            (\<lambda>w1. bindE (pay_off env iv (amount - max surplus 0) w1) (\<lambda>w2. Inr (True, w2))))"

definition settle_invoice :: "pay_env \<Rightarrow> attempt \<Rightarrow> verified_payment option \<Rightarrow> world \<Rightarrow> error + bool \<times> world" where
  "settle_invoice env a payment w =
     (case payment of
        Some p \<Rightarrow> mark_invoice_paid env a (vp_amount p) (vp_currency p) (Some (vp_id p)) (adapter_key_of env (at_gateway a)) w
      | None \<Rightarrow> mark_invoice_paid env a (at_amount a) (at_currency a) (at_txn a) (adapter_key_of env (at_gateway a)) w)"

definition TERMINAL_ATTEMPT :: "string list" where
  "TERMINAL_ATTEMPT = [''Captured'', ''Failed'', ''Refunded'']"

text \<open>Capture an attempt, save it, then settle its invoice: what the checkout, the webhook and the
  reconciliation each do, with their own name for who did it.\<close>

definition capture_and_settle ::
  "pay_env \<Rightarrow> attempt \<Rightarrow> string \<Rightarrow> string option \<Rightarrow> verified_payment option \<Rightarrow> world \<Rightarrow> error + bool \<times> world" where
  "capture_and_settle env a actor resolved_by payment w =
     bindE (attempt_transition (pe_ambient env) a ''Captured'' None (Some actor) (pw_events w)) (\<lambda>(a', evs).
       let a'' = a'\<lparr>at_completed_at := Some (pe_now env),
                    at_resolved_by := (if resolved_by = None then at_resolved_by a' else resolved_by)\<rparr>
       in settle_invoice env a'' payment (put_attempt a'' (w\<lparr>pw_events := evs\<rparr>)))"

definition settle_checkout_attempt ::
  "pay_env \<Rightarrow> string \<Rightarrow> verified_payment \<Rightarrow> world \<Rightarrow> error + (string \<times> bool option) \<times> world" where
  "settle_checkout_attempt env name p w =
     (case find_attempt w name of None \<Rightarrow> Inl DoesNotExist | Some a \<Rightarrow>
      if \<not> (truthy (at_order a) \<and> vp_order p = at_order a \<and> is_enough_for (pe_r2 env) p (at_amount a) (at_currency a))
      then Inl (ValidationError ''Payment confirmation failed.'')
      else if at_status a \<in> set TERMINAL_ATTEMPT then Inr ((at_status a, None), w)
      else bindE (capture_and_settle env (a\<lparr>at_txn := Some (vp_id p)\<rparr>) ''gateway'' None (Some p) w)
             (\<lambda>(settled, w'). Inr ((case find_attempt w' name of Some a' \<Rightarrow> at_status a' | None \<Rightarrow> ''Captured'', Some settled), w')))"

definition confirm_invoice_payment ::
  "pay_env \<Rightarrow> string \<Rightarrow> string option \<Rightarrow> string option \<Rightarrow> string option \<Rightarrow> world \<Rightarrow> error + (string \<times> bool option) \<times> world" where
  "confirm_invoice_payment env name order_id payment_id signature w =
     (case find_attempt w name of None \<Rightarrow> Inl DoesNotExist | Some a \<Rightarrow>
      bindE (adapter_for env (at_gateway a)) (\<lambda>adapter.
      bindE (if ad_verify_signature adapter order_id payment_id signature then ad_verify_payment adapter payment_id else Inr None)
        (\<lambda>payment. case payment of
           None \<Rightarrow> Inl (ValidationError ''Payment confirmation failed.'')
         | Some p \<Rightarrow> settle_checkout_attempt env (at_name a) p w)))"

section \<open>Top-up orders\<close>

definition top_up_for_payment :: "verified_payment \<Rightarrow> string \<Rightarrow> world \<Rightarrow> top_up option" where
  "top_up_for_payment p gateway w =
     (case (if truthy (vp_order p) then find (\<lambda>t. tu_gateway t = gateway \<and> tu_order t = vp_order p) (pw_top_ups w) else None) of
        Some t \<Rightarrow> Some t
      | None \<Rightarrow> if truthy (vp_receipt p) then find (\<lambda>t. tu_name t = the (vp_receipt p) \<and> tu_gateway t = gateway) (pw_top_ups w)
               else None)"

definition DECLINED_EVENT :: string where "DECLINED_EVENT = ''Top-up Order Declined''"

definition has_declined_event :: "top_up \<Rightarrow> string \<Rightarrow> world \<Rightarrow> bool" where
  "has_declined_event t gateway_event_id w \<longleftrightarrow>
     list_ex (\<lambda>e. ev_subject_doctype e = ''Top-up Order'' \<and> ev_subject e = tu_name t
       \<and> ev_event_type e = DECLINED_EVENT \<and> ev_correlation e = gateway_event_id) (pw_events w)"

definition record_decline :: "pay_env \<Rightarrow> top_up \<Rightarrow> failure \<Rightarrow> string \<Rightarrow> world \<Rightarrow> world" where
  "record_decline env t f gateway_event_id w =
     (if has_declined_event t gateway_event_id w then w
      else let t' = t\<lparr>tu_failed_attempts := tu_failed_attempts t + 1, tu_last_failed_at := Some (pe_now env),
                      tu_failure := failure_fields f\<rparr>;
               evs = record_event (pe_ambient env) (sdoc_of ''Top-up Order'' (tu_name t') (tu_team t') (tu_status t') (Some (tu_currency t')))
                       DECLINED_EVENT None None (fl_code (tu_failure t')) None (Some gateway_event_id) None (Some ''Failed'') (pw_events w)
      in put_top_up t' (w\<lparr>pw_events := evs\<rparr>))"

definition require_covering :: "(rat \<Rightarrow> rat) \<Rightarrow> top_up \<Rightarrow> verified_payment \<Rightarrow> error + unit" where
  "require_covering r2 t p =
     (if vp_order p \<noteq> tu_order t \<and> vp_receipt p \<noteq> Some (tu_name t) then Inl (ValidationError ''PaymentDoesNotCover'')
      else if \<not> is_enough_for r2 p (tu_total t) (tu_currency t) then Inl (ValidationError ''PaymentDoesNotCover'')
      else Inr ())"

definition credit_surplus :: "pay_env \<Rightarrow> top_up \<Rightarrow> verified_payment \<Rightarrow> string option \<Rightarrow> world \<Rightarrow> error + world" where
  "credit_surplus env t p adapter_key w =
     (let surplus = pe_r2 env (vp_amount p - tu_total t) in
      if surplus \<le> 0 then Inr w
      else bindE (wallet_purchase env (tu_team t) surplus (tu_currency t) (vp_id p)
                    (''Payment for top-up '' @ tu_name t @ '' above its total'') (vp_id p @ '':surplus'') adapter_key None w)
             (\<lambda>(_, w'). Inr (review (tu_name t) ''paid above the total; credited to the wallet'' w')))"

text \<open>\<open>credit_wallet\<close> on the order as it is stored: the ledger entry and the world.\<close>

definition credit_wallet :: "pay_env \<Rightarrow> top_up \<Rightarrow> verified_payment \<Rightarrow> world \<Rightarrow> error + nat option \<times> world" where
  "credit_wallet env t p w =
     (if tu_status t = ''Credited'' then Inr (tu_entry t, w)
      else bindE (require_covering (pe_r2 env) t p) (\<lambda>_.
        let key = adapter_key_of env (tu_gateway t) in
        bindE (wallet_purchase env (tu_team t) (tu_total t) (tu_currency t) (vp_id p) (''Wallet top-up ('' @ vp_id p @ '')'')
                 (vp_id p) key (if tu_credit t = 0 then None else Some (tu_credit t)) w) (\<lambda>(entry, w1).
        bindE (credit_surplus env t p key w1) (\<lambda>w2.
        bindE (top_up_transition (pe_ambient env) t ''Credited'' None ''gateway'' (Some (tu_total t)) (pw_events w2)) (\<lambda>(t', evs).
          Inr (Some (le_name entry),
               put_top_up (t'\<lparr>tu_payment := Some (vp_id p), tu_entry := Some (le_name entry)\<rparr>) (w2\<lparr>pw_events := evs\<rparr>)))))))"

definition expire_top_up :: "pay_env \<Rightarrow> top_up \<Rightarrow> world \<Rightarrow> error + world" where
  "expire_top_up env t w =
     bindE (top_up_transition (pe_ambient env) t ''Expired'' None ''reconciliation'' None (pw_events w))
       (\<lambda>(t', evs). Inr (put_top_up t' (w\<lparr>pw_events := evs\<rparr>)))"

definition fail_top_up :: "pay_env \<Rightarrow> top_up \<Rightarrow> string \<Rightarrow> world \<Rightarrow> error + world" where
  "fail_top_up env t reason w =
     bindE (top_up_transition (pe_ambient env) t ''Failed'' (Some reason) ''reconciliation'' None (pw_events w))
       (\<lambda>(t', evs). Inr (put_top_up (t'\<lparr>tu_failure := (tu_failure t')\<lparr>fl_reason := Some reason\<rparr>\<rparr>) (w\<lparr>pw_events := evs\<rparr>)))"

end
