(* ===== verification/Settlement_Safety.thy ===== *)
theory Settlement_Safety
  imports Settlement Top_Ups Charge_Safety
begin

text \<open>
  What settling does: the wallet booking of a captured payment, where the money of a capture goes,
  and that settlement only takes steps of the attempt log.
\<close>

section \<open>A payment booked into the wallet\<close>

text \<open>Credit and GST of the entries a step added to the ledger.\<close>

definition booked_since :: "ledger \<Rightarrow> ledger \<Rightarrow> money" where
  "booked_since l l' = sum_list (map (\<lambda>e. le_amount e + bk_tax (le_booking e)) (drop (length (entries l)) (entries l')))"

lemma booked_since_same [simp]: "entries l' = entries l \<Longrightarrow> booked_since l l' = 0"
  by (simp add: booked_since_def)

lemma booked_since_snoc: "entries l' = entries l @ [e] \<Longrightarrow> booked_since l l' = le_amount e + bk_tax (le_booking e)"
  by (simp add: booked_since_def)

definition unbooked :: "ledger \<Rightarrow> string option \<Rightarrow> string \<Rightarrow> bool" where
  "unbooked l adapter_key payment_id \<longleftrightarrow> payment_entry l (namespaced_payment_id adapter_key (Some payment_id)) = None"

text \<open>
  What the ledger gains: at most one entry, a Credit of this team in this currency that comes to the
  amount with its GST, and no other wallet moves.
\<close>

definition wallet_gains :: "string \<Rightarrow> string \<Rightarrow> money \<Rightarrow> ledger \<Rightarrow> ledger \<Rightarrow> bool" where
  "wallet_gains team currency amount l l' \<longleftrightarrow> (\<exists>es. entries l' = entries l @ es \<and> length es = (if amount = 0 then 0 else 1)
     \<and> (\<forall>e \<in> set es. le_team e = team \<and> le_currency e = currency \<and> le_type e = ''Credit''
          \<and> le_amount e + bk_tax (le_booking e) = amount)
     \<and> (\<forall>t d. valid_currency d \<longrightarrow> wallet_balance t d l' = wallet_balance t d l
          + (if t = team \<and> d = currency then sum_list (map le_amount es) else 0)))"

lemma wallet_gains_same [simp]: "wallet_gains team currency 0 l l"
  by (simp add: wallet_gains_def)

lemma purchase_first:
  assumes ok: "ledger_ok l" and cents: "cents_rounding r2" "is_cents (pr_amount p)" "0 \<le> pr_amount p"
    and ordered: "\<forall>x. pr_credit p = Some x \<longrightarrow> is_cents x" and tax: "valid_tax_profiles te"
    and cur: "valid_currency (pr_currency p)" "pr_currency p \<noteq> []"
    and pid: "pr_payment_id p = Some pid" "pid \<noteq> []" and fresh: "unbooked l (pr_gateway p) pid"
    and run: "purchase r2 te tc now [] p l = Inr ((e, b'), l')"
  shows "entries l' = entries l @ [e]" and "le_amount e + bk_tax (le_booking e) = pr_amount p"
    and "le_team e = pr_team p" and "le_currency e = pr_currency p" and "ledger_ok l'"
    and "le_payment_id e = namespaced_payment_id (pr_gateway p) (Some pid)" and "le_type e = ''Credit''"
    and "valid_currency d \<Longrightarrow> wallet_balance t d l' = wallet_balance t d l + (if t = pr_team p \<and> d = pr_currency p then le_amount e else 0)"
proof -
  obtain credit gst where s: "top_up_split r2 te (pr_team p) (pr_amount p) (pr_credit p) = Inr (credit, gst)"
    "credit + gst = pr_amount p"
    using top_up_split_conserves [OF cents(1) tax cents(2,3) ordered] by blast
  let ?b = "purchase_booking p credit gst"
  have be: "book_entry tc now [] True ?b l = Inr ((e, b'), l')" using run s pid by (simp add: purchase_def)
  then have pos: "0 < bk_amount ?b" by (auto simp: book_entry_def split: if_splits)
  have r: "resolved tc ?b = ?b" by (rule resolved_id) (simp add: cur)
  have once: "book_entry_once now ?b l = Inr ((e, b'), l')" using be book_entry_plain [OF pos] by (simp add: r)
  have c: "valid_currency (bk_currency ?b)" by (simp add: cur)
  have none: "payment_entry l (payment_key p) = None" using fresh pid by (simp add: unbooked_def payment_key_def)
  have post: "post_entry now ?b (wallet_balance (bk_team ?b) (bk_currency ?b) l)
      (ensure_wallet (bk_team ?b) (bk_currency ?b) l) = Inr ((e, b'), l')"
    using once by (simp add: book_entry_once_eq [OF ok c] none)
  note P = post_entry_Inr [OF post]
  show "entries l' = entries l @ [e]" using P(5) by simp
  show "le_amount e + bk_tax (le_booking e) = pr_amount p" "le_team e = pr_team p" "le_currency e = pr_currency p"
    "le_type e = ''Credit''" using P(4) s(2) by simp_all
  show "le_payment_id e = namespaced_payment_id (pr_gateway p) (Some pid)" using P(4) pid by (simp add: payment_key_def)
  have bok: "booking_ok ?b" by (simp add: booking_ok_def cur)
  show "ledger_ok l'" by (rule book_entry_once_ok [OF ok bok pos once])
  show "valid_currency d \<Longrightarrow> wallet_balance t d l' = wallet_balance t d l + (if t = pr_team p \<and> d = pr_currency p then le_amount e else 0)"
    using post_entry_balance [OF bok _ _ post, of d t] P by (auto simp: signed_amount_def)
qed

lemma wallet_purchase_first:
  assumes "ledger_ok (pw_ledger w)" "cents_rounding (pe_r2 env)" "is_cents amount" "0 \<le> amount"
    and "\<forall>x. credit = Some x \<longrightarrow> is_cents x" "valid_tax_profiles (tax_env_of env w)" "valid_currency currency" "currency \<noteq> []"
    and "payment_id \<noteq> []" "unbooked (pw_ledger w) key payment_id"
    and run: "wallet_purchase env team amount currency reference note payment_id key credit w = Inr (e, w')"
  shows "booked_since (pw_ledger w) (pw_ledger w') = amount" and "ledger_ok (pw_ledger w')"
    and "entries (pw_ledger w') = entries (pw_ledger w) @ [e]"
    and "le_payment_id e = namespaced_payment_id key (Some payment_id)" and "le_team e = team"
    and "w' = w\<lparr>pw_ledger := pw_ledger w'\<rparr>" and "0 < amount \<Longrightarrow> wallet_gains team currency amount (pw_ledger w) (pw_ledger w')"
proof -
  let ?p = "\<lparr>pr_team = team, pr_amount = amount, pr_currency = currency, pr_payment_method = None,
     pr_reference_name = Some reference, pr_note = Some note, pr_payment_id = Some payment_id,
     pr_gateway = key, pr_credit = credit\<rparr>"
  obtain b' l' where p: "purchase (pe_r2 env) (tax_env_of env w) (pe_team_currency env) (pe_now env) [] ?p (pw_ledger w) = Inr ((e, b'), l')"
    and w': "w' = w\<lparr>pw_ledger := l'\<rparr>"
    using run by (auto simp: wallet_purchase_def bindE_Inr)
  note F = purchase_first [OF assms(1,2) _ _ _ assms(6) _ _ _ _ _ p, of payment_id, simplified, OF assms(3,4,5,7,8,9,10)]
  have F1: "entries l' = entries (pw_ledger w) @ [e]" "le_amount e + bk_tax (le_booking e) = amount" "le_team e = team" "ledger_ok l'"
    "le_payment_id e = namespaced_payment_id key (Some payment_id)" "le_currency e = currency" "le_type e = ''Credit''"
    "\<And>d t. valid_currency d \<Longrightarrow> wallet_balance t d l' = wallet_balance t d (pw_ledger w) + (if t = team \<and> d = currency then le_amount e else 0)"
    using F assms(5) by auto
  show "0 < amount \<Longrightarrow> wallet_gains team currency amount (pw_ledger w) (pw_ledger w')"
    unfolding wallet_gains_def using F1 by (intro exI [of _ "[e]"]) (simp add: w')
  show "booked_since (pw_ledger w) (pw_ledger w') = amount" using booked_since_snoc [OF F1(1)] F1(2) by (simp add: w')
  show "ledger_ok (pw_ledger w')" "entries (pw_ledger w') = entries (pw_ledger w) @ [e]" "le_team e = team"
    "le_payment_id e = namespaced_payment_id key (Some payment_id)" "w' = w\<lparr>pw_ledger := pw_ledger w'\<rparr>"
    using F1 by (simp_all add: w')
qed

section \<open>The refund of a late capture\<close>

definition refunds_fresh :: "pay_env \<Rightarrow> world \<Rightarrow> bool" where
  "refunds_fresh env w \<longleftrightarrow> (\<forall>r \<in> set (pw_refunds w). rf_name r \<noteq> pe_hash env (pw_serial w))"

lemma put_refund_frame [simp]:
  "pw_attempts (put_refund r w) = pw_attempts w" "pw_serial (put_refund r w) = pw_serial w"
  "pw_ledger (put_refund r w) = pw_ledger w" "pw_invoices (put_refund r w) = pw_invoices w"
  by (simp_all add: put_refund_def)

lemma put_refund_last:
  assumes "pw_refunds w = rs @ [r]" "\<forall>x \<in> set rs. rf_name x \<noteq> rf_name r" "rf_name r' = rf_name r"
  shows "pw_refunds (put_refund r' w) = rs @ [r']"
  using assms by (auto simp: put_refund_def intro!: map_idI)

lemma save_refund_frame [simp]:
  "pw_attempts (save_refund r w) = pw_attempts w" "pw_serial (save_refund r w) = pw_serial w"
  "pw_ledger (save_refund r w) = pw_ledger w" "pw_invoices (save_refund r w) = pw_invoices w"
  "pw_refunds (save_refund r w) = pw_refunds (put_refund r w)"
  by (simp_all add: save_refund_def)

lemma source_step_cases:
  assumes run: "refund_to_source_step env r a reason w = Inr (r2, w2)"
  obtains (kept) st gid fin evs where "r2 = r\<lparr>rf_gateway_id := gid, rf_status := st, rf_completed_at := fin\<rparr>"
      "w2 = save_refund r2 (w\<lparr>pw_events := evs\<rparr>)"
  | (full) gid evs a' where "r2 = r\<lparr>rf_gateway_id := gid, rf_status := ''Completed'', rf_completed_at := Some (pe_now env)\<rparr>"
      "w2 = save_refund r2 (put_attempt a' (w\<lparr>pw_events := evs\<rparr>))" "a' = a\<lparr>at_status := ''Refunded''\<rparr>"
      "rf_amount r \<ge> at_amount a"
proof -
  obtain adapter where ad1: "adapter_for env (at_gateway a) = Inr adapter"
    using run by (cases "adapter_for env (at_gateway a)") (simp_all add: refund_to_source_step_def)
  obtain result where ad2: "ad_refund adapter a (rf_amount r) (or_else reason '''') (rf_name r) = Inr result"
    using run by (cases "ad_refund adapter a (rf_amount r) (or_else reason '''') (rf_name r)") (simp_all add: refund_to_source_step_def ad1)
  let ?r = "r\<lparr>rf_gateway_id := rr_gateway_id result\<rparr>"
  let ?to = "if rr_success result then ''Completed'' else ''Failed''"
  note run1 = run [unfolded refund_to_source_step_def ad1 bindE.simps ad2 Let_def]
  obtain p where t0: "refund_transition (pe_ambient env) ?r ?to (am_user (pe_ambient env)) (pw_events w) = Inr p"
    using run1 by (cases "refund_transition (pe_ambient env) ?r ?to (am_user (pe_ambient env)) (pw_events w)") simp_all
  obtain r' evs where p: "p = (r', evs)" by (cases p)
  note t = t0 [unfolded p]
  have r': "r' = ?r\<lparr>rf_status := ?to\<rparr>" by (rule refund_transition_Inr [OF t])
  note run2 = run1 [unfolded t bindE.simps prod.case]
  show thesis
  proof (cases "rr_success result")
    case False
    have "r' = r2 \<and> save_refund r' (w\<lparr>pw_events := evs\<rparr>) = w2"
      by (rule run2 [unfolded if_P [OF False] sum.inject prod.inject])
    then have r2: "r2 = r'" and w2: "w2 = save_refund r' (w\<lparr>pw_events := evs\<rparr>)" by auto
    show thesis
      by (rule kept [where gid = "rr_gateway_id result" and st = "''Failed''" and fin = "rf_completed_at r" and evs = evs]) (simp_all add: r2 w2 r' False)
  next
    case ok: True
    let ?rc = "r'\<lparr>rf_completed_at := Some (pe_now env)\<rparr>"
    show thesis
    proof (cases "rf_amount r \<ge> at_amount a")
      case False
      have "(?rc, save_refund ?rc (w\<lparr>pw_events := evs\<rparr>)) = (r2, w2)" using run2 False ok by (simp del: prod.inject)
      note eq = this [symmetric, unfolded prod.inject]
      note r2 = conjunct1 [OF eq] and w2 = conjunct2 [OF eq]
      show thesis
        by (rule kept [where gid = "rr_gateway_id result" and st = "''Completed''" and fin = "Some (pe_now env)" and evs = evs]) (simp_all add: r2 w2 r' ok)
    next
      case True
      let ?m = "move_attempt (pe_ambient env) a ''Refunded'' None (am_user (pe_ambient env)) (Some (rf_amount r)) evs"
      obtain q where q0: "?m = Inr q" using run2 True ok by (cases ?m) simp_all
      obtain a' evs' where q: "q = (a', evs')" by (cases q)
      have a': "a' = a\<lparr>at_status := ''Refunded''\<rparr>" using move_attempt_Inr(1) q0 unfolding q by blast
      have "(?rc, save_refund ?rc (put_attempt a' (w\<lparr>pw_events := evs'\<rparr>))) = (r2, w2)"
        using run2 True ok q0 q by (simp del: prod.inject)
      note eq = this [symmetric, unfolded prod.inject]
      note r2 = conjunct1 [OF eq] and w2 = conjunct2 [OF eq]
      show thesis
        by (rule full [where gid = "rr_gateway_id result" and a' = a' and evs = evs']) (simp_all add: r2 w2 r' ok a' True)
    qed
  qed
qed

text \<open>A refund to the source: one Refund row more, and at most the attempt of the charge changes.\<close>

lemma source_step:
  assumes run: "refund_to_source_step env r a reason w = Inr (r2, w2)"
    and rows: "pw_refunds w = rs @ [r]" "\<forall>x \<in> set rs. rf_name x \<noteq> rf_name r"
  shows "rf_amount r2 = rf_amount r \<and> rf_attempt r2 = rf_attempt r \<and> rf_late_capture r2 = rf_late_capture r
    \<and> rf_destination r2 = rf_destination r \<and> pw_refunds w2 = rs @ [r2] \<and> pw_ledger w2 = pw_ledger w
    \<and> pw_invoices w2 = pw_invoices w \<and> pw_serial w2 = pw_serial w
    \<and> (pw_attempts w2 = pw_attempts w \<or> pw_attempts w2 = pw_attempts (put_attempt (a\<lparr>at_status := ''Refunded''\<rparr>) w))"
  using run
proof (cases rule: source_step_cases)
  case (kept st gid fin evs)
  have "pw_refunds w2 = rs @ [r2]"
    unfolding kept(2) save_refund_frame by (rule put_refund_last [of _ rs r]) (use rows in \<open>simp_all add: kept(1)\<close>)
  then show ?thesis unfolding kept(2) by (simp add: kept(1))
next
  case (full gid evs a')
  have "pw_refunds w2 = rs @ [r2]"
    unfolding full(2) save_refund_frame by (rule put_refund_last [of _ rs r]) (use rows in \<open>simp_all add: full(1)\<close>)
  then show ?thesis unfolding full(2) by (simp add: full(1,3)) (simp add: put_attempt_def)
qed

lemma issue_source_refund:
  assumes run: "issue_refund env name None ''Source'' reason late w = Inr (r, w')" and fresh: "refunds_fresh env w"
  obtains a where "find_attempt w name = Some a" "at_status a \<in> {''Captured'', ''Refunded''}"
    "rf_amount r = at_amount a" "rf_attempt r = at_name a" "rf_late_capture r = late" "rf_destination r = ''Source''"
    "pw_refunds w' = pw_refunds w @ [r]" "pw_ledger w' = pw_ledger w" "pw_invoices w' = pw_invoices w"
    "pw_serial w \<le> pw_serial w'"
    "pw_attempts w' = pw_attempts w \<or> pw_attempts w' = pw_attempts (put_attempt (a\<lparr>at_status := ''Refunded''\<rparr>) w)"
proof (cases "find_attempt w name")
  case None
  with run show thesis by (simp add: issue_refund_def)
next
  case (Some a)
  obtain r0 w1 where ins: "insert_refund env a (at_amount a) ''Source'' reason late w = (r0, w1)" by fastforce
  have st: "at_status a \<in> {''Captured'', ''Refunded''}" using run Some by (auto simp: issue_refund_def split: if_splits)
  have step: "refund_to_source_step env r0 a reason w1 = Inr (r, w')"
    using run Some ins by (auto simp: issue_refund_def Let_def split: if_splits)
  have w1: "pw_refunds w1 = pw_refunds w @ [r0]" "pw_attempts w1 = pw_attempts w" "pw_ledger w1 = pw_ledger w"
    "pw_invoices w1 = pw_invoices w" "pw_serial w1 = Suc (pw_serial w)" "rf_name r0 = pe_hash env (pw_serial w)"
    "rf_amount r0 = at_amount a" "rf_attempt r0 = at_name a" "rf_late_capture r0 = late" "rf_destination r0 = ''Source''"
    using ins by (auto simp: insert_refund_def Let_def)
  have nf: "\<forall>x \<in> set (pw_refunds w). rf_name x \<noteq> rf_name r0" using fresh by (simp add: refunds_fresh_def w1)
  note S = source_step [OF step w1(1) nf]
  have put: "pw_attempts (put_attempt a' w1) = pw_attempts (put_attempt a' w)" for a' by (simp add: put_attempt_def w1)
  show thesis
    by (rule that [OF Some st]) (use S w1 put in auto)
qed


section \<open>The wallet of a payment that does not settle\<close>

text \<open>What the money side of a settlement rests on: a sound ledger, a currency, tax profiles, and an
  amount in whole cents that was not booked before.\<close>

definition payable :: "pay_env \<Rightarrow> world \<Rightarrow> string \<Rightarrow> bool" where
  "payable env w currency \<longleftrightarrow> ledger_ok (pw_ledger w) \<and> cents_rounding (pe_r2 env) \<and> valid_tax_profiles (tax_env_of env w)
     \<and> valid_currency currency \<and> currency \<noteq> []"

lemma wallet_purchase_frame:
  "wallet_purchase env team amount currency reference note payment_id key credit w = Inr (e, w') \<Longrightarrow>
   w' = w\<lparr>pw_ledger := pw_ledger w'\<rparr>"
  by (auto simp: wallet_purchase_def bindE_Inr)

lemma to_wallet_frame:
  assumes "to_wallet env iv amount currency payment_id key why w = Inr w'"
  shows "pw_attempts w' = pw_attempts w \<and> pw_invoices w' = pw_invoices w \<and> pw_refunds w' = pw_refunds w
    \<and> pw_serial w' = pw_serial w \<and> pw_top_ups w' = pw_top_ups w \<and> pw_events w' = pw_events w"
proof (cases "\<not> truthy payment_id \<or> amount \<le> 0")
  case True
  with assms show ?thesis by (auto simp: to_wallet_def review_def)
next
  case False
  with assms obtain e v where p: "wallet_purchase env (inv_team iv) amount currency (the payment_id)
        (''Payment for '' @ inv_name iv @ '' that '' @ why) (the payment_id) key None w = Inr (e, v)"
    and w': "w' = review (inv_name iv) why v"
    by (auto simp: to_wallet_def bindE_Inr)
  show ?thesis
    by (subst wallet_purchase_frame [OF p, THEN arg_cong [where f = "review (inv_name iv) why"], folded w'])+
       (simp add: review_def)
qed

lemma to_wallet_books:
  assumes pay: "payable env w currency" and amount: "is_cents amount" "0 < amount"
    and pid: "pid \<noteq> []" "unbooked (pw_ledger w) key pid"
    and run: "to_wallet env iv amount currency (Some pid) key why w = Inr w'"
  shows "booked_since (pw_ledger w) (pw_ledger w') = amount" "wallet_gains (inv_team iv) currency amount (pw_ledger w) (pw_ledger w')"
proof -
  obtain e v where p: "wallet_purchase env (inv_team iv) amount currency pid
        (''Payment for '' @ inv_name iv @ '' that '' @ why) pid key None w = Inr (e, v)"
    and w': "w' = review (inv_name iv) why v"
    using run amount(2) pid(1) by (auto simp: to_wallet_def bindE_Inr)
  have "booked_since (pw_ledger w) (pw_ledger v) = amount"
    by (rule wallet_purchase_first(1) [OF _ _ amount(1) _ _ _ _ _ pid p])
       (use pay amount(2) in \<open>simp_all add: payable_def\<close>)
  then show "booked_since (pw_ledger w) (pw_ledger w') = amount" by (simp add: w')
  have "wallet_gains (inv_team iv) currency amount (pw_ledger w) (pw_ledger v)"
    by (rule wallet_purchase_first(7) [OF _ _ amount(1) _ _ _ _ _ pid p])
       (use pay amount(2) in \<open>simp_all add: payable_def\<close>)
  then show "wallet_gains (inv_team iv) currency amount (pw_ledger w) (pw_ledger w')" by (simp add: w')
qed

section \<open>Settling the invoice\<close>

lemma pay_off_effect:
  assumes run: "pay_off env iv paid w = Inr w'" and iv: "find_invoice w (inv_name iv) = Some iv"
  shows "pw_attempts w' = pw_attempts w \<and> pw_refunds w' = pw_refunds w \<and> pw_serial w' = pw_serial w
    \<and> pw_ledger w' = pw_ledger w \<and> inv_status iv \<in> set (''Paid'' # UNSETTLED)"
    and "\<exists>iv'. find_invoice w' (inv_name iv) = Some iv' \<and> inv_status iv' = ''Paid'' \<and> inv_amount_paid iv' = paid"
    and "n \<noteq> inv_name iv \<Longrightarrow> find_invoice w' n = find_invoice w n"
proof -
  let ?iv = "iv\<lparr>inv_amount_paid := paid, inv_paid_at := Some (pe_now env)\<rparr>"
  obtain iv' evs where t: "invoice_transition (pe_ambient env) ?iv ''Paid'' (Some ''gateway capture settled'')
      (Some ''webhook'') (Some paid) (pw_events w) = Inr (iv', evs)"
    and w': "w' = (let v = notify (inv_team iv) ''Payment Success'' (inv_name iv) (put_invoice iv' (w\<lparr>pw_events := evs\<rparr>))
          in v\<lparr>pw_sync_queue := pw_sync_queue v @ [inv_name iv]\<rparr>)"
    using run by (auto simp: pay_off_def bindE_Inr)
  note T = invoice_transition_cases [OF t]
  have iv': "iv' = ?iv\<lparr>inv_status := ''Paid''\<rparr>" using T by simp
  have f: "find_invoice w' m = find_invoice (put_invoice iv' w) m" for m
    by (simp add: w' Let_def find_invoice_def put_invoice_def)
  show "pw_attempts w' = pw_attempts w \<and> pw_refunds w' = pw_refunds w \<and> pw_serial w' = pw_serial w
    \<and> pw_ledger w' = pw_ledger w \<and> inv_status iv \<in> set (''Paid'' # UNSETTLED)"
    using T by (auto simp: w' Let_def allows_invoice)
  show "\<exists>iv'. find_invoice w' (inv_name iv) = Some iv' \<and> inv_status iv' = ''Paid'' \<and> inv_amount_paid iv' = paid"
    using iv by (simp add: f iv')
  show "n \<noteq> inv_name iv \<Longrightarrow> find_invoice w' n = find_invoice w n" by (simp add: f iv')
qed

lemma pay_off_closed:
  assumes run: "pay_off env iv paid w = Inr w'" and iv: "find_invoice w (inv_name iv) = Some iv"
  shows "stays_closed w w'"
  unfolding stays_closed_def
proof (intro allI impI)
  fix n assume c: "is_closed w n"
  note E = pay_off_effect [OF run iv]
  show "is_closed w' n"
  proof (cases "n = inv_name iv")
    case True with E(2) show ?thesis by (auto simp: is_closed_def)
  next
    case False with E(3) [OF False] c show ?thesis by (simp add: is_closed_def)
  qed
qed

lemma mark_paid_cases [consumes 1, case_names late wallet settle]:
  assumes run: "mark_invoice_paid env a amount currency payment_id key w = Inr (settled, w')"
  obtains (late) iv v r where "find_invoice w (at_invoice a) = Some iv" "inv_status iv = ''Paid''" "\<not> settled"
      "issue_refund env (at_name a) None ''Source'' (Some (inv_name iv @ '' was already paid'')) True w = Inr (r, v)"
      "w' = review (inv_name iv) (if rf_status r = ''Completed'' then ''refunded to its source'' else ''could not be refunded'') v"
  | (wallet) iv why where "find_invoice w (at_invoice a) = Some iv" "inv_status iv \<noteq> ''Paid''" "\<not> settled"
      "unsettled_reason iv amount currency (inv_expected_collection iv) = Some why"
      "to_wallet env iv amount currency payment_id key why w = Inr w'"
  | (settle) iv surplus w1 where "find_invoice w (at_invoice a) = Some iv" "inv_status iv \<noteq> ''Paid''" "settled"
      "unsettled_reason iv amount currency (inv_expected_collection iv) = None"
      "surplus = pe_r2 env (amount - inv_expected_collection iv)"
      "(if surplus > 0 then to_wallet env iv surplus currency (Some (surplus_id payment_id)) key ''paid above what was due'' w
        else Inr w) = Inr w1"
      "pay_off env iv (amount - max surplus 0) w1 = Inr w'"
proof (cases "find_invoice w (at_invoice a)")
  case None
  with run show thesis by (simp add: mark_invoice_paid_def)
next
  case (Some iv)
  note run1 = run [unfolded mark_invoice_paid_def Some option.case Let_def]
  show thesis
  proof (cases "inv_status iv = ''Paid''")
    case True
    note run2 = run1 [unfolded if_P [OF True]]
    obtain v r where i: "issue_refund env (at_name a) None ''Source'' (Some (inv_name iv @ '' was already paid'')) True w = Inr (r, v)"
      and rest: "settled = False" "w' = review (inv_name iv) (if rf_status r = ''Completed'' then ''refunded to its source'' else ''could not be refunded'') v"
      using run2 unfolding refund_late_capture_def bindE_Inr by auto
    show thesis by (rule late [OF Some True _ i]) (simp_all add: rest)
  next
    case False
    note run2 = run1 [unfolded if_not_P [OF False]]
    show thesis
    proof (cases "unsettled_reason iv amount currency (inv_expected_collection iv)")
      case why: (Some why)
      from run2 have "settled = False" "to_wallet env iv amount currency payment_id key why w = Inr w'"
        unfolding why option.case bindE_Inr by auto
      then show thesis by (intro wallet [OF Some False _ why]) simp_all
    next
      case None
      let ?s = "pe_r2 env (amount - inv_expected_collection iv)"
      from run2 obtain w1 where "(if ?s > 0 then to_wallet env iv ?s currency (Some (surplus_id payment_id)) key ''paid above what was due'' w
          else Inr w) = Inr w1" "pay_off env iv (amount - max ?s 0) w1 = Inr w'" "settled = True"
        unfolding None option.case bindE_Inr by blast
      then show thesis by (intro settle [OF Some False _ None refl]) simp_all
    qed
  qed
qed


section \<open>Settlement in the attempt log\<close>

lemma frame_moves:
  "pw_attempts w' = pw_attempts w \<Longrightarrow> pw_serial w \<le> pw_serial w' \<Longrightarrow> stays_closed w w' \<Longrightarrow> moves env w w'"
  by (rule r_into_rtranclp) (rule move.frame)

lemma stays_closed_cong: "pw_invoices w' = pw_invoices w \<Longrightarrow> stays_closed w w'"
  by (simp add: stays_closed_def is_closed_def find_invoice_def)

lemma wallet_step_frame:
  assumes "refund_to_wallet_step env r a w = Inr (r2, w2)"
  shows "pw_attempts w2 = pw_attempts w \<and> pw_invoices w2 = pw_invoices w \<and> pw_serial w2 = pw_serial w"
proof -
  obtain l' evs r' where "w2 = save_refund r' (w\<lparr>pw_ledger := l', pw_events := evs\<rparr>)"
    using assms by (auto simp: refund_to_wallet_step_def bindE_Inr Let_def)
  then show ?thesis by simp
qed

lemma issue_refund_moves:
  assumes run: "issue_refund env name amount destination reason late w = Inr (r, w')"
  shows "moves env w w' \<and> pw_invoices w' = pw_invoices w"
proof (cases "find_attempt w name")
  case None with run show ?thesis by (simp add: issue_refund_def)
next
  case (Some a)
  obtain m r0 w1 where ins: "insert_refund env a m destination reason late w = (r0, w1)"
    and step: "(if destination = ''Wallet'' then refund_to_wallet_step env r0 a w1 else refund_to_source_step env r0 a reason w1) = Inr (r, w')"
  proof -
    let ?m = "case amount of None \<Rightarrow> at_amount a | Some x \<Rightarrow> if x = 0 then at_amount a else x"
    obtain r0 w1 where "insert_refund env a ?m destination reason late w = (r0, w1)" by fastforce
    with run Some show thesis by (intro that [of ?m r0 w1]) (auto simp: issue_refund_def Let_def split: if_splits)
  qed
  have w1: "pw_attempts w1 = pw_attempts w" "pw_invoices w1 = pw_invoices w" "pw_serial w1 = Suc (pw_serial w)"
    using ins by (auto simp: insert_refund_def Let_def)
  have rejoin: "moves env v w' \<and> pw_invoices w' = pw_invoices w"
    if "pw_attempts w' = pw_attempts v" "pw_invoices v = pw_invoices w" "pw_serial v \<le> pw_serial w'" "pw_invoices w' = pw_invoices w" for v
    using that by (auto intro!: frame_moves stays_closed_cong)
  show ?thesis
  proof (cases "destination = ''Wallet''")
    case True
    with step wallet_step_frame [of env r0 a w1 r w'] w1 show ?thesis by (intro rejoin) simp_all
  next
    case False
    with step have "refund_to_source_step env r0 a reason w1 = Inr (r, w')" by simp
    then show ?thesis
    proof (cases rule: source_step_cases)
      case (kept st gid fin evs)
      with w1 show ?thesis by (intro rejoin) simp_all
    next
      case (full gid evs a')
      have st: "stands a' w" by (rule stands_mono [OF stands_found [OF Some]]) (simp_all add: full(3) is_in_flight_def)
      have "pw_attempts w' = pw_attempts (put_attempt a' w)" unfolding full(2) by (simp add: put_attempt_def w1)
      then have "moves env (put_attempt a' w) w' \<and> pw_invoices w' = pw_invoices w"
        by (intro rejoin) (simp_all add: full(2) w1)
      with put_move [OF st] show ?thesis by (blast intro: moves_trans)
    qed
  qed
qed

lemma mark_paid_moves:
  assumes run: "mark_invoice_paid env a amount currency payment_id key w = Inr (settled, w')"
  shows "moves env w w'"
  using run
proof (cases rule: mark_paid_cases)
  case (late iv v r)
  have "moves env v w'" unfolding late(5) by (intro frame_moves stays_closed_cong) simp_all
  with issue_refund_moves [OF late(4)] show ?thesis by (blast intro: moves_trans)
next
  case (wallet iv why)
  show ?thesis using to_wallet_frame [OF wallet(5)] by (intro frame_moves stays_closed_cong) simp_all
next
  case (settle iv surplus w1)
  have f: "pw_attempts w1 = pw_attempts w \<and> pw_invoices w1 = pw_invoices w \<and> pw_serial w1 = pw_serial w"
    using settle(6) to_wallet_frame by (cases "surplus > 0") (force simp: review_def)+
  have n: "at_invoice a = inv_name iv" using find_invoice_name [OF settle(1)] by simp
  have iv: "find_invoice w1 (inv_name iv) = Some iv" using settle(1) f n by (simp add: find_invoice_def)
  note E = pay_off_effect(1) [OF settle(7) iv] and C = pay_off_closed [OF settle(7) iv]
  have "moves env w w1" using f by (intro frame_moves stays_closed_cong) simp_all
  moreover have "moves env w1 w'" using E C by (intro frame_moves) simp_all
  ultimately show ?thesis by (rule moves_trans)
qed

lemma capture_and_settle_cases:
  assumes run: "capture_and_settle env a actor resolved_by payment w = Inr (settled, w')"
  obtains b evs where "same_charge a b" "at_status b = ''Captured''" "at_completed_at b = Some (pe_now env)" "at_txn b = at_txn a" "at_order b = at_order a"
    "settle_invoice env b payment (put_attempt b (w\<lparr>pw_events := evs\<rparr>)) = Inr (settled, w')"
proof -
  let ?t = "attempt_transition (pe_ambient env) a ''Captured'' None (Some actor) (pw_events w)"
  obtain p where t0: "?t = Inr p" using run unfolding capture_and_settle_def by (cases ?t) simp_all
  obtain a' evs where p: "p = (a', evs)" by (cases p)
  note t = t0 [unfolded p]
  let ?b = "a'\<lparr>at_completed_at := Some (pe_now env), at_resolved_by := (if resolved_by = None then at_resolved_by a' else resolved_by)\<rparr>"
  have s: "settle_invoice env ?b payment (put_attempt ?b (w\<lparr>pw_events := evs\<rparr>)) = Inr (settled, w')"
    using run unfolding capture_and_settle_def t bindE.simps prod.case Let_def .
  have a': "a' = a\<lparr>at_status := ''Captured''\<rparr>" by (rule attempt_transition_Inr(1) [OF t])
  show thesis by (rule that [OF _ _ _ _ _ s]) (simp_all add: a' same_charge_def)
qed

lemma capture_and_settle_moves:
  assumes st: "stands a w"
    and run: "capture_and_settle env a actor resolved_by payment w = Inr (settled, w')"
  shows "moves env w w'"
  using run
proof (cases rule: capture_and_settle_cases)
  case (1 b evs)
  let ?w = "w\<lparr>pw_events := evs\<rparr>"
  have "stands b w" by (rule stands_mono [OF st 1(1)]) (use 1(2,3) in \<open>simp add: is_in_flight_def\<close>)
  then have st': "stands b ?w" by (simp add: stands_def find_attempt_def)
  have first: "moves env w ?w" by (intro frame_moves stays_closed_cong) simp_all
  have last: "moves env (put_attempt b ?w) w'"
  proof (cases payment)
    case None
    show ?thesis by (rule mark_paid_moves [OF 1(6) [unfolded settle_invoice_def None option.case]])
  next
    case (Some p)
    show ?thesis by (rule mark_paid_moves [OF 1(6) [unfolded settle_invoice_def Some option.case]])
  qed
  show ?thesis by (rule moves_trans [OF moves_trans [OF first put_move [OF st']] last])
qed

lemma mark_paid_attempt:
  assumes run: "mark_invoice_paid env a amount currency payment_id key w = Inr (settled, w')" and fresh: "refunds_fresh env w"
    and b: "find_attempt w (at_name a) = Some b"
  shows "\<exists>b'. find_attempt w' (at_name a) = Some b' \<and> (b' = b \<or> b' = b\<lparr>at_status := ''Refunded''\<rparr>)"
  using run
proof (cases rule: mark_paid_cases)
  case (late iv v r)
  from late(4) fresh show ?thesis
  proof (cases rule: issue_source_refund)
    case (1 c)
    have [simp]: "find_attempt w' n = find_attempt v n" for n unfolding late(5) by (simp add: find_attempt_def)
    have c: "c = b" "at_name b = at_name a" using 1(1) b find_attempt_name [OF b] by simp_all
    from 1(11) show ?thesis
    proof
      assume "pw_attempts v = pw_attempts w"
      then have "find_attempt v n = find_attempt w n" for n by (simp add: find_attempt_def)
      with b show ?thesis by simp
    next
      assume "pw_attempts v = pw_attempts (put_attempt (c\<lparr>at_status := ''Refunded''\<rparr>) w)"
      then have "find_attempt v n = find_attempt (put_attempt (c\<lparr>at_status := ''Refunded''\<rparr>) w) n" for n
        by (simp add: find_attempt_def)
      with b c show ?thesis by simp
    qed
  qed
next
  case (wallet iv why)
  with to_wallet_frame [OF wallet(5)] b show ?thesis by (simp add: find_attempt_def)
next
  case (settle iv surplus w1)
  have f: "pw_attempts w1 = pw_attempts w \<and> pw_invoices w1 = pw_invoices w"
    using settle(6) to_wallet_frame by (cases "surplus > 0") (force simp: review_def)+
  have n: "at_invoice a = inv_name iv" using find_invoice_name [OF settle(1)] by simp
  have iv: "find_invoice w1 (inv_name iv) = Some iv" using settle(1) f n by (simp add: find_invoice_def)
  show ?thesis using pay_off_effect(1) [OF settle(7) iv] f b by (simp add: find_attempt_def)
qed


section \<open>Crediting a top-up\<close>

lemma credit_surplus_frame:
  assumes "credit_surplus env t p key w = Inr w'"
  shows "pw_top_ups w' = pw_top_ups w \<and> pw_attempts w' = pw_attempts w \<and> pw_invoices w' = pw_invoices w
    \<and> pw_serial w' = pw_serial w \<and> pw_profiles w' = pw_profiles w"
proof (cases "pe_r2 env (vp_amount p - tu_total t) \<le> 0")
  case True with assms show ?thesis by (simp add: credit_surplus_def)
next
  case False
  let ?s = "pe_r2 env (vp_amount p - tu_total t)"
  let ?buy = "wallet_purchase env (tu_team t) ?s (tu_currency t) (vp_id p) (''Payment for top-up '' @ tu_name t @ '' above its total'')
      (vp_id p @ '':surplus'') key None w"
  from assms False obtain e v where p: "?buy = Inr (e, v)" and w': "review (tu_name t) ''paid above the total; credited to the wallet'' v = w'"
    by (auto simp: credit_surplus_def bindE_Inr)
  show ?thesis unfolding w' [symmetric]
    by (subst (1 2 3 4 5) wallet_purchase_frame [OF p]) (simp add: review_def)
qed

lemma credit_wallet_cases [consumes 1, case_names already credited]:
  assumes run: "credit_wallet env t p w = Inr (e, w')"
  obtains (already) "tu_status t = ''Credited''" "e = tu_entry t" "w' = w"
  | (credited) entry w1 w2 evs t' where "tu_status t \<noteq> ''Credited''" "require_covering (pe_r2 env) t p = Inr ()"
      "wallet_purchase env (tu_team t) (tu_total t) (tu_currency t) (vp_id p) (''Wallet top-up ('' @ vp_id p @ '')'')
         (vp_id p) (adapter_key_of env (tu_gateway t)) (if tu_credit t = 0 then None else Some (tu_credit t)) w = Inr (entry, w1)"
      "credit_surplus env t p (adapter_key_of env (tu_gateway t)) w1 = Inr w2"
      "t' = t\<lparr>tu_status := ''Credited'', tu_payment := Some (vp_id p), tu_entry := Some (le_name entry)\<rparr>"
      "e = Some (le_name entry)" "w' = put_top_up t' (w2\<lparr>pw_events := evs\<rparr>)"
proof (cases "tu_status t = ''Credited''")
  case True
  from run True have "(tu_entry t, w) = (e, w')" unfolding credit_wallet_def by (simp del: prod.inject)
  note eq = this [unfolded prod.inject]
  show thesis by (rule already [OF True conjunct1 [OF eq, symmetric] conjunct2 [OF eq, symmetric]])
next
  case False
  note run1 = run [unfolded credit_wallet_def if_not_P [OF False] Let_def]
  obtain u where "require_covering (pe_r2 env) t p = Inr u" using run1 by (cases "require_covering (pe_r2 env) t p") simp_all
  then have cover: "require_covering (pe_r2 env) t p = Inr ()" by simp
  note run2 = run1 [unfolded cover bindE.simps]
  let ?buy = "wallet_purchase env (tu_team t) (tu_total t) (tu_currency t) (vp_id p) (''Wallet top-up ('' @ vp_id p @ '')'')
         (vp_id p) (adapter_key_of env (tu_gateway t)) (if tu_credit t = 0 then None else Some (tu_credit t)) w"
  obtain q where q: "?buy = Inr q" using run2 by (cases ?buy) simp_all
  obtain entry w1 where qq: "q = (entry, w1)" by (cases q)
  note buy = q [unfolded qq]
  note run3 = run2 [unfolded buy bindE.simps prod.case]
  obtain w2 where s: "credit_surplus env t p (adapter_key_of env (tu_gateway t)) w1 = Inr w2"
    using run3 by (cases "credit_surplus env t p (adapter_key_of env (tu_gateway t)) w1") simp_all
  note run4 = run3 [unfolded s bindE.simps]
  let ?tr = "top_up_transition (pe_ambient env) t ''Credited'' None ''gateway'' (Some (tu_total t)) (pw_events w2)"
  obtain x where x: "?tr = Inr x" using run4 by (cases ?tr) simp_all
  obtain t1 evs where xx: "x = (t1, evs)" by (cases x)
  note tr = x [unfolded xx]
  have t1: "t1 = t\<lparr>tu_status := ''Credited''\<rparr>" by (rule top_up_transition_Inr(1) [OF tr])
  note eq = run4 [unfolded tr bindE.simps prod.case t1, unfolded sum.inject prod.inject]
  show thesis
    by (rule credited [where evs = evs, OF False cover buy s refl conjunct1 [OF eq, symmetric]]) (use conjunct2 [OF eq] in simp)
qed

lemma find_top_up_put:
  "find (\<lambda>x. tu_name x = n) (pw_top_ups (put_top_up t w)) =
     (if n = tu_name t then map_option (\<lambda>_. t) (find (\<lambda>x. tu_name x = n) (pw_top_ups w)) else find (\<lambda>x. tu_name x = n) (pw_top_ups w))"
  by (simp add: put_top_up_def find_replace)

end
