(* ===== verification/Settlement_Properties.thy ===== *)
theory Settlement_Properties
  imports Settlement_Safety Payment_Example
begin

text \<open>
  The properties of settlement: where the money of a capture goes, that a checkout settles once, and
  that a top-up is credited once and in full.
\<close>

section \<open>A capture is accounted for\<close>

lemma surplus_cents:
  assumes "cents_rounding r2" "is_cents amount" "is_cents due"
  shows "r2 (amount - due) = amount - due"
  by (rule cents_rounding_id [OF assms(1)]) (rule is_cents_diff [OF assms(2,3)])

text \<open>
  Property C3: every captured rupee is accounted for. On an invoice already Paid the capture is
  refunded to its source: exactly one late-capture Refund row of this attempt is added, for its whole
  amount, no invoice and no wallet changes. On any other invoice the captured amount is split with
  nothing lost: what the invoice records as paid plus what the ledger gains (one Credit entry of the
  invoice's team in the currency paid, credit and GST together; no other wallet moves) is the captured amount.
  It settles exactly when the invoice is unsettled, the currency is the invoice's and the amount covers
  what is due to half a cent; then the invoice is Paid and records the amount due (or what was
  captured, when that is less), and no other invoice changes; otherwise no invoice changes and all of
  it goes to the team's wallet.
\<close>

theorem capture_accounted_for:
  assumes iv: "find_invoice w (at_invoice a) = Some iv" "is_cents (inv_expected_collection iv)"
    and pay: "payable env w currency" "is_cents amount" "0 < amount" "refunds_fresh env w"
    and pid: "pid \<noteq> []" "unbooked (pw_ledger w) key pid" "unbooked (pw_ledger w) key (surplus_id (Some pid))"
    and run: "mark_invoice_paid env a amount currency (Some pid) key w = Inr (settled, w')"
  shows "if inv_status iv = ''Paid''
    then \<not> settled \<and> pw_invoices w' = pw_invoices w \<and> pw_ledger w' = pw_ledger w
      \<and> (\<exists>r b. pw_refunds w' = pw_refunds w @ [r] \<and> find_attempt w (at_name a) = Some b \<and> rf_attempt r = at_name a
          \<and> rf_late_capture r \<and> rf_destination r = ''Source'' \<and> rf_amount r = at_amount b)
    else pw_refunds w' = pw_refunds w
      \<and> (settled \<longleftrightarrow> inv_status iv \<in> set UNSETTLED \<and> upper currency = upper (inv_currency iv)
           \<and> inv_expected_collection iv \<le> amount + 5 / 1000)
      \<and> (if settled
         then (\<exists>iv'. find_invoice w' (at_invoice a) = Some iv' \<and> inv_status iv' = ''Paid''
             \<and> inv_amount_paid iv' = min amount (inv_expected_collection iv)
             \<and> wallet_gains (inv_team iv) currency (amount - inv_amount_paid iv') (pw_ledger w) (pw_ledger w'))
           \<and> (\<forall>n. n \<noteq> at_invoice a \<longrightarrow> find_invoice w' n = find_invoice w n)
         else pw_invoices w' = pw_invoices w \<and> wallet_gains (inv_team iv) currency amount (pw_ledger w) (pw_ledger w'))"
  using run
proof (cases rule: mark_paid_cases)
  case (late iv' v r)
  with iv have [simp]: "iv' = iv" by simp
  from late(4) pay(4) show ?thesis
  proof (cases rule: issue_source_refund)
    case (1 b)
    with late(2,3) find_attempt_name [of w "at_name a" b] show ?thesis unfolding late(5) by auto
  qed
next
  case (wallet iv' why)
  with iv have same [simp]: "iv' = iv" by simp
  have books: "wallet_gains (inv_team iv') currency amount (pw_ledger w) (pw_ledger w')"
    by (rule to_wallet_books(2) [OF pay(1,2,3) pid(1,2) wallet(5)])
  have "\<not> (inv_status iv \<in> set UNSETTLED \<and> upper currency = upper (inv_currency iv) \<and> inv_expected_collection iv \<le> amount + 5 / 1000)"
    using wallet(4) by (auto simp: unsettled_reason_def split: if_splits)
  then show ?thesis using wallet(2,3) to_wallet_frame [OF wallet(5)] books by simp
next
  case (settle iv' surplus w1)
  with iv have same: "iv' = iv" by simp
  let ?due = "inv_expected_collection iv"
  have s: "surplus = amount - ?due"
    using settle(5) surplus_cents [OF _ pay(2) iv(2)] pay(1) by (simp add: same payable_def)
  have ok: "inv_status iv \<in> set UNSETTLED \<and> upper currency = upper (inv_currency iv) \<and> ?due \<le> amount + 5 / 1000"
    using settle(4) by (auto simp: unsettled_reason_def same split: if_splits)
  have w1: "pw_attempts w1 = pw_attempts w \<and> pw_invoices w1 = pw_invoices w \<and> pw_refunds w1 = pw_refunds w
      \<and> wallet_gains (inv_team iv) currency (max surplus 0) (pw_ledger w) (pw_ledger w1)"
  proof (cases "surplus > 0")
    case True
    have tw: "to_wallet env iv' surplus currency (Some (surplus_id (Some pid))) key ''paid above what was due'' w = Inr w1"
      using settle(6) True by simp
    have "is_cents surplus" unfolding s by (rule is_cents_diff [OF pay(2) iv(2)])
    from to_wallet_books(2) [OF pay(1) this True _ pid(3) tw] to_wallet_frame [OF tw] True
    show ?thesis by (simp add: surplus_id_def same)
  qed (use settle(6) in simp)
  have n: "at_invoice a = inv_name iv" using find_invoice_name [OF iv(1)] by simp
  have "find_invoice w1 (inv_name iv') = Some iv'" using iv(1) w1 n by (simp add: same find_invoice_def)
  note E = pay_off_effect(1,2) [OF settle(7) this]
  have others: "find_invoice w' m = find_invoice w m" if "m \<noteq> at_invoice a" for m
  proof -
    have "find_invoice w' m = find_invoice w1 m"
      using pay_off_effect(3) [OF settle(7) \<open>find_invoice w1 (inv_name iv') = Some iv'\<close>] that by (simp add: n same)
    with w1 show ?thesis by (simp add: find_invoice_def)
  qed
  have "inv_status iv \<noteq> ''Paid''" using settle(2) by (simp add: same)
  moreover have "amount - max surplus 0 = min amount ?due" unfolding s by (simp add: max_def min_def)
  moreover have "amount - min amount ?due = max surplus 0" unfolding s by (simp add: max_def min_def)
  moreover have "wallet_gains (inv_team iv) currency (max surplus 0) (pw_ledger w) (pw_ledger w')" using E w1 by simp
  ultimately show ?thesis using E w1 ok settle(3) n others by (auto simp: same)
qed

lemma due_world_payable: "payable (pay_env_with r) due_world ''INR''"
  by (simp add: payable_def empty_ledger_ok pay_env_with_def half_up_rounding valid_tax_profiles_def tax_env_of_def valid_currency_def shipped_settings_def)


lemma example_settled:
  assumes "at_invoice a = ''INV-1''" "find_invoice w ''INV-1'' = Some due_invoice"
  shows "\<exists>w'. mark_invoice_paid (pay_env_with r) a 1180 ''INR'' (Some ''pay_1'') (Some ''Stripe'') w = Inr (True, w')"
proof -
  let ?env = "pay_env_with r"
  let ?iv = "due_invoice\<lparr>inv_amount_paid := 1180, inv_paid_at := Some (pe_now ?env)\<rparr>"
  obtain evs where "invoice_transition (pe_ambient ?env) ?iv ''Paid'' (Some ''gateway capture settled'') (Some ''webhook'')
      (Some 1180) (pw_events w) = Inr (?iv\<lparr>inv_status := ''Paid''\<rparr>, evs)"
    using invoice_transition_ok [of ?iv "''Paid''"] by (fastforce simp: allows_invoice)
  moreover have "pe_r2 ?env 0 = 0" by (simp add: pay_env_with_def)
  ultimately show ?thesis
    using assms by (simp add: mark_invoice_paid_def unsettled_reason_def pay_off_def Let_def)
qed

theorem capture_accounted_for_witness:
  "\<exists>w' iv'. mark_invoice_paid (pay_env_with (Inr approved)) (new_attempt (pay_env_with (Inr approved)) due_invoice ''Stripe'' None due_world)
       1180 ''INR'' (Some ''pay_1'') (Some ''Stripe'') due_world = Inr (True, w')
     \<and> find_invoice w' ''INV-1'' = Some iv' \<and> inv_status iv' = ''Paid'' \<and> inv_amount_paid iv' = 1180"
proof -
  let ?env = "pay_env_with (Inr approved)" and ?a = "new_attempt (pay_env_with (Inr approved)) due_invoice ''Stripe'' None due_world"
  have inv: "at_invoice ?a = ''INV-1''" by (simp add: new_attempt_def)
  from example_settled [OF inv due_world_reads(1), of "Inr approved"]
  obtain w' where run: "mark_invoice_paid ?env ?a 1180 ''INR'' (Some ''pay_1'') (Some ''Stripe'') due_world = Inr (True, w')" ..
  have fresh: "unbooked (pw_ledger due_world) (Some ''Stripe'') p" for p
    by (simp add: unbooked_def payment_entry_def empty_ledger_def)
  have "refunds_fresh ?env due_world" by (simp add: refunds_fresh_def)
  from capture_accounted_for [OF _ _ due_world_payable _ _ this _ fresh fresh run, of due_invoice]
  show ?thesis using run inv by auto
qed

section \<open>A checkout settles once\<close>

text \<open>
  A checkout settles once. Whatever a confirmed payment did, running the settlement of
  the same payment again (the customer's return and the webhook both arrive) answers with the final
  status of the attempt and changes nothing: no second booking, refund or event.
\<close>

theorem checkout_settles_once:
  assumes fresh: "refunds_fresh env w" and run: "settle_checkout_attempt env name p w = Inr (res, w')"
    and same: "pe_r2 env' = pe_r2 env"
  shows "\<exists>st. st \<in> set TERMINAL_ATTEMPT \<and> settle_checkout_attempt env' name p w' = Inr ((st, None), w')"
proof -
  obtain a where a: "find_attempt w name = Some a" using run by (auto simp: settle_checkout_attempt_def split: option.splits)
  have good: "truthy (at_order a) \<and> vp_order p = at_order a \<and> is_enough_for (pe_r2 env) p (at_amount a) (at_currency a)"
    using run a by (auto simp: settle_checkout_attempt_def split: if_splits)
  have again: ?thesis if "find_attempt w' name = Some b" "same_charge a b" "at_order b = at_order a" "at_status b \<in> set TERMINAL_ATTEMPT" for b
    using that good same by (simp add: settle_checkout_attempt_def same_charge_def)
  show ?thesis
  proof (cases "at_status a \<in> set TERMINAL_ATTEMPT")
    case True
    with run a good have "w' = w" by (simp add: settle_checkout_attempt_def)
    with a True show ?thesis by (intro again [of a]) simp_all
  next
    case False
    with run a good obtain s where cs: "capture_and_settle env (a\<lparr>at_txn := Some (vp_id p)\<rparr>) ''gateway'' None (Some p) w = Inr (s, w')"
      by (auto simp: settle_checkout_attempt_def bindE_Inr)
    from cs show ?thesis
    proof (cases rule: capture_and_settle_cases)
      case (1 b evs)
      let ?w = "put_attempt b (w\<lparr>pw_events := evs\<rparr>)"
      have n: "at_name b = name" using 1(1) find_attempt_name [OF a] by (simp add: same_charge_def)
      have "find_attempt (w\<lparr>pw_events := evs\<rparr>) name = Some a" using a by (simp add: find_attempt_def)
      then have b: "find_attempt ?w (at_name b) = Some b" using n by simp
      have fresh': "refunds_fresh env ?w" using fresh by (simp add: refunds_fresh_def)
      note settle = 1(6) [unfolded settle_invoice_def option.case]
      obtain b' where b': "find_attempt w' name = Some b'" "b' = b \<or> b' = b\<lparr>at_status := ''Refunded''\<rparr>"
        using mark_paid_attempt [OF settle fresh' b] n by blast
      have sc: "same_charge a b" using 1(1) by (simp add: same_charge_def)
      show ?thesis
        by (rule again [OF b'(1)]) (use b'(2) sc 1(2,5) in \<open>auto simp: TERMINAL_ATTEMPT_def same_charge_def\<close>)
    qed
  qed
qed

definition paying_attempt :: attempt where
  "paying_attempt = (new_attempt (pay_env_with (Inr approved)) due_invoice ''Stripe'' None due_world)
     \<lparr>at_name := ''PA-1'', at_order := Some ''order_1''\<rparr>"

definition full_payment :: verified_payment where
  "full_payment = \<lparr>vp_id = ''pay_1'', vp_captured = True, vp_amount = 1180, vp_currency = ''INR'',
     vp_order = Some ''order_1'', vp_receipt = None\<rparr>"

lemma attempt_transition_ok:
  "at_status a \<noteq> to_state \<Longrightarrow> allows PAYMENT_ATTEMPT (Some (at_status a)) to_state \<Longrightarrow>
   \<exists>evs'. attempt_transition env a to_state reason actor evs = Inr (a\<lparr>at_status := to_state\<rparr>, evs')"
  by (simp add: attempt_transition_def move_attempt_def transition_def sdoc_of_attempt_def sdoc_of_def machine_for_own
      PAYMENT_ATTEMPT_def Let_def)

lemma paying_fields [simp]:
  "at_invoice paying_attempt = ''INV-1''" "at_status paying_attempt = ''Initiated''" "at_gateway paying_attempt = ''Stripe''"
  "at_order paying_attempt = Some ''order_1''" "at_amount paying_attempt = 1180" "at_currency paying_attempt = ''INR''"
  "at_name paying_attempt = ''PA-1''"
  by (simp_all add: paying_attempt_def new_attempt_def)

lemma example_checkout:
  "\<exists>res w'. settle_checkout_attempt (pay_env_with (Inr approved)) ''PA-1'' full_payment
     (due_world\<lparr>pw_attempts := [paying_attempt]\<rparr>) = Inr ((res, Some True), w')"
proof -
  let ?env = "pay_env_with (Inr approved)" and ?w = "due_world\<lparr>pw_attempts := [paying_attempt]\<rparr>"
  let ?a = "paying_attempt\<lparr>at_txn := Some ''pay_1''\<rparr>"
  obtain evs where t: "attempt_transition (pe_ambient ?env) ?a ''Captured'' None (Some ''gateway'') (pw_events ?w) = Inr (?a\<lparr>at_status := ''Captured''\<rparr>, evs)"
    using attempt_transition_ok [of ?a "''Captured''"] by (fastforce simp: allows_simps PAYMENT_ATTEMPT_def)
  let ?b = "(?a\<lparr>at_status := ''Captured''\<rparr>)\<lparr>at_completed_at := Some (pe_now ?env), at_resolved_by := at_resolved_by paying_attempt\<rparr>"
  let ?v = "put_attempt ?b (?w\<lparr>pw_events := evs\<rparr>)"
  have inv: "find_invoice ?v ''INV-1'' = Some due_invoice" by (simp add: find_invoice_def)
  obtain w' where "mark_invoice_paid ?env ?b 1180 ''INR'' (Some ''pay_1'') (Some ''Stripe'') ?v = Inr (True, w')"
    using example_settled [OF _ inv, of ?b] by auto
  moreover have "adapter_key_of ?env ''Stripe'' = Some ''Stripe''" by (simp add: adapter_key_of_def pay_env_with_def)
  ultimately have "capture_and_settle ?env ?a ''gateway'' None (Some full_payment) ?w = Inr (True, w')"
    by (simp add: capture_and_settle_def t [simplified] settle_invoice_def full_payment_def Let_def)
  moreover have "find_attempt ?w ''PA-1'' = Some paying_attempt" by (simp add: find_attempt_def)
  ultimately show ?thesis
    by (simp add: settle_checkout_attempt_def full_payment_def is_enough_for_def TERMINAL_ATTEMPT_def)
qed

theorem checkout_settles_once_witness:
  "\<exists>res w' st. settle_checkout_attempt (pay_env_with (Inr approved)) ''PA-1'' full_payment
       (due_world\<lparr>pw_attempts := [paying_attempt]\<rparr>) = Inr ((res, Some True), w')
     \<and> settle_checkout_attempt (pay_env_with (Inr approved)) ''PA-1'' full_payment w' = Inr ((st, None), w')"
proof -
  let ?env = "pay_env_with (Inr approved)" and ?w = "due_world\<lparr>pw_attempts := [paying_attempt]\<rparr>"
  have "refunds_fresh ?env ?w" by (simp add: refunds_fresh_def)
  with example_checkout checkout_settles_once [of ?env ?w _ _ _ _ ?env] show ?thesis by blast
qed


section \<open>A top-up is credited once, and in full\<close>

text \<open>
  A top-up is credited once. After a payment was credited, the order is Credited and
  names its ledger entry, and crediting it again, with this or any other payment, answers with that
  entry and changes nothing.
\<close>

theorem top_up_credited_once:
  assumes row: "find (\<lambda>x. tu_name x = tu_name t) (pw_top_ups w) = Some t" and run: "credit_wallet env t p w = Inr (e, w')"
  shows "\<exists>t'. find (\<lambda>x. tu_name x = tu_name t) (pw_top_ups w') = Some t' \<and> tu_status t' = ''Credited'' \<and> tu_entry t' = e
    \<and> credit_wallet env' t' p' w' = Inr (e, w')"
  using run
proof (cases rule: credit_wallet_cases)
  case already
  with row show ?thesis by (intro exI [of _ t]) (simp add: credit_wallet_def)
next
  case (credited entry w1 w2 evs t')
  have "pw_top_ups w2 = pw_top_ups w1" using credit_surplus_frame [OF credited(4)] by simp
  also have "pw_top_ups w1 = pw_top_ups w" by (subst wallet_purchase_frame [OF credited(3)]) simp
  finally have "pw_top_ups (w2\<lparr>pw_events := evs\<rparr>) = pw_top_ups w" by simp
  then have "find (\<lambda>x. tu_name x = tu_name t) (pw_top_ups w') = Some t'"
    using row unfolding credited(7) find_top_up_put by (simp add: credited(5))
  then show ?thesis by (intro exI [of _ t']) (simp add: credited(5,6) credit_wallet_def)
qed

lemma other_payment_key: "pid \<noteq> [] \<Longrightarrow> namespaced_payment_id key (Some pid) \<noteq> namespaced_payment_id key (Some (pid @ '':surplus''))"
  by (simp add: namespaced_payment_id_def)

lemma unbooked_after:
  assumes "entries l' = entries l @ [e]" "le_payment_id e = namespaced_payment_id key (Some pid)" "pid \<noteq> []"
    and "unbooked l key (pid @ '':surplus'')"
  shows "unbooked l' key (pid @ '':surplus'')"
  using assms other_payment_key [of pid key] by (auto simp: unbooked_def payment_entry_def find_append split: if_splits)

lemma cents_gap: "is_cents x \<Longrightarrow> is_cents y \<Longrightarrow> y \<le> x + 5 / 1000 \<Longrightarrow> y \<le> x"
proof -
  assume "is_cents x" "is_cents y" and le: "y \<le> x + 5 / 1000"
  then obtain j k :: int where jk: "x = of_int j / 100" "y = of_int k / 100" by (auto simp: is_cents_iff)
  with le have "(of_int k :: rat) < of_int (j + 1)" by (simp add: field_simps)
  then have "k \<le> j" by linarith
  then show ?thesis by (simp add: jk divide_right_mono)
qed

text \<open>
  A top-up books everything the customer paid. When the payment was not booked before,
  the entries its credit adds to the ledger, credit and GST together, come to the amount of the
  payment: the total of the order as the top-up, the rest, if the customer paid more, as a surplus.
\<close>

theorem top_up_books_whole_payment:
  assumes run: "credit_wallet env t p w = Inr (e, w')" and status: "tu_status t \<noteq> ''Credited''"
    and pay: "payable env w (tu_currency t)" "is_cents (vp_amount p)" "is_cents (tu_total t)" "0 \<le> tu_total t" "is_cents (tu_credit t)"
    and pid: "vp_id p \<noteq> []" "unbooked (pw_ledger w) (adapter_key_of env (tu_gateway t)) (vp_id p)"
      "unbooked (pw_ledger w) (adapter_key_of env (tu_gateway t)) (vp_id p @ '':surplus'')"
  shows "booked_since (pw_ledger w) (pw_ledger w') = vp_amount p \<and> tu_total t \<le> vp_amount p"
  using run
proof (cases rule: credit_wallet_cases)
  case already with status show ?thesis by simp
next
  case (credited entry w1 w2 evs t')
  let ?key = "adapter_key_of env (tu_gateway t)"
  have P: "ledger_ok (pw_ledger w)" "cents_rounding (pe_r2 env)" "valid_tax_profiles (tax_env_of env w)"
    "valid_currency (tu_currency t)" "tu_currency t \<noteq> []"
    using pay(1) by (simp_all add: payable_def)
  have "\<forall>x. (if tu_credit t = 0 then None else Some (tu_credit t)) = Some x \<longrightarrow> is_cents x" using pay(5) by simp
  note buy = wallet_purchase_first [OF P(1,2) pay(3,4) this P(3,4,5) pid(1,2) credited(3)]
  have "tu_total t \<le> vp_amount p + 5 / 1000"
    using credited(2) pay(2,3) P(2)
    by (simp add: require_covering_def is_enough_for_def cents_rounding_id split: if_splits)
  then have covers: "tu_total t \<le> vp_amount p" by (rule cents_gap [OF pay(2,3)])
  let ?s = "vp_amount p - tu_total t"
  have s: "pe_r2 env ?s = ?s" by (rule surplus_cents [OF P(2) pay(2,3)])
  have last: "booked_since (pw_ledger w1) (pw_ledger w2) = ?s \<and> (\<exists>es. entries (pw_ledger w2) = entries (pw_ledger w1) @ es)"
  proof (cases "?s = 0")
    case True
    then have "w2 = w1" using credited(4) [unfolded credit_surplus_def s Let_def] by simp
    with True show ?thesis by simp
  next
    case False
    with covers have pos: "0 < ?s" by simp
    obtain e2 v where p: "wallet_purchase env (tu_team t) ?s (tu_currency t) (vp_id p) (''Payment for top-up '' @ tu_name t @ '' above its total'')
      (vp_id p @ '':surplus'') ?key None w1 = Inr (e2, v)" and w2: "w2 = review (tu_name t) ''paid above the total; credited to the wallet'' v"
      using credited(4) pos by (auto simp: credit_surplus_def s bindE_Inr)
    have te: "tax_env_of env w1 = tax_env_of env w" by (subst buy(6)) (simp add: tax_env_of_def)
    have un: "unbooked (pw_ledger w1) ?key (vp_id p @ '':surplus'')" by (rule unbooked_after [OF buy(3,4) pid(1,3)])
    have c: "is_cents ?s" by (rule is_cents_diff [OF pay(2,3)])
    note B = wallet_purchase_first [OF buy(2) P(2) c less_imp_le [OF pos] _ P(3) [folded te] P(4,5) _ un p]
    show ?thesis using B(1,3) by (simp add: w2)
  qed
  then obtain es where es: "entries (pw_ledger w2) = entries (pw_ledger w1) @ es" by blast
  have "booked_since (pw_ledger w) (pw_ledger w2) = booked_since (pw_ledger w) (pw_ledger w1) + booked_since (pw_ledger w1) (pw_ledger w2)"
    by (simp add: booked_since_def es buy(3))
  moreover have "pw_ledger w' = pw_ledger w2" unfolding credited(7) by (simp add: put_top_up_def)
  ultimately show ?thesis using last buy(1) covers by simp
qed


definition pending_top_up :: top_up where
  "pending_top_up = \<lparr>tu_name = ''TU-1'', tu_team = ''t1'', tu_gateway = ''Stripe'', tu_status = ''Created'',
     tu_currency = ''INR'', tu_credit = 1000, tu_total = 1180, tu_order = Some ''order_1'', tu_payment = None,
     tu_entry = None, tu_failed_attempts = 0, tu_last_failed_at = None,
     tu_failure = \<lparr>fl_code = None, fl_decline = None, fl_reason = None\<rparr>, tu_creation = 0\<rparr>"

lemma top_up_transition_ok:
  "tu_status t \<noteq> to_state \<Longrightarrow> allows TOP_UP_ORDER (Some (tu_status t)) to_state \<Longrightarrow>
   \<exists>evs'. top_up_transition env t to_state reason actor amount evs = Inr (t\<lparr>tu_status := to_state\<rparr>, evs')"
  by (simp add: top_up_transition_def transition_def sdoc_of_def machine_for_own TOP_UP_ORDER_def Let_def)

lemma example_wallet_purchase:
  "\<exists>e w'. wallet_purchase (pay_env_with r) ''t1'' 1180 ''INR'' ''pay_1'' note ''pay_1'' (Some ''Stripe'') (Some 1000)
     (due_world\<lparr>pw_top_ups := ts\<rparr>) = Inr (e, w')"
proof -
  let ?env = "pay_env_with r" and ?w = "due_world\<lparr>pw_top_ups := ts\<rparr>"
  let ?p = "\<lparr>pr_team = ''t1'', pr_amount = 1180, pr_currency = ''INR'', pr_payment_method = None,
     pr_reference_name = Some ''pay_1'', pr_note = Some note, pr_payment_id = Some ''pay_1'',
     pr_gateway = Some ''Stripe'', pr_credit = Some 1000\<rparr>"
  let ?b = "purchase_booking ?p 1000 180"
  have tc: "pe_team_currency ?env = (\<lambda>_. ''INR'')" and now: "pe_r2 ?env = half_up" by (simp_all add: pay_env_with_def)
  have ok: "booking_ok (resolved (pe_team_currency ?env) ?b)"
    by (simp add: booking_ok_def valid_currency_def purchase_currency_def resolve_currency_def)
  have pos: "bk_amount ?b > 0" by simp
  have fresh: "fresh_keys empty_ledger ?b"
    by (simp add: fresh_keys_def breaks_unique_key_def empty_ledger_def)
  have funds: "0 \<le> wallet_balance (bk_team ?b) (bk_currency (resolved (pe_team_currency ?env) ?b)) empty_ledger + signed_amount ?b"
    using wallet_balance_nonneg [OF empty_ledger_ok] by (simp add: signed_amount_def add_nonneg_nonneg)
  obtain e l1 b where book: "book_entry (pe_team_currency ?env) (pe_now ?env) [] True ?b empty_ledger = Inr ((e, b), l1)"
    using book_entry_runs [OF empty_ledger_ok ok pos fresh funds, of "pe_now ?env" True] by metis
  then have "purchase half_up (tax_env_of ?env ?w) (pe_team_currency ?env) (pe_now ?env) [] ?p empty_ledger = Inr ((e, b), l1)"
    by (simp add: purchase_def example_purchase_split)
  then show ?thesis by (simp add: wallet_purchase_def now)
qed

lemma example_credit:
  "\<exists>e w'. credit_wallet (pay_env_with r) pending_top_up full_payment (due_world\<lparr>pw_top_ups := [pending_top_up]\<rparr>) = Inr (e, w')"
proof -
  let ?env = "pay_env_with r" and ?w = "due_world\<lparr>pw_top_ups := [pending_top_up]\<rparr>"
  obtain e w1 where buy: "wallet_purchase ?env ''t1'' 1180 ''INR'' ''pay_1'' (''Wallet top-up ('' @ ''pay_1'' @ '')'') ''pay_1''
      (Some ''Stripe'') (Some 1000) ?w = Inr (e, w1)"
    using example_wallet_purchase by blast
  have cover: "require_covering (pe_r2 ?env) pending_top_up full_payment = Inr ()"
    by (simp add: require_covering_def pending_top_up_def full_payment_def is_enough_for_def pay_env_with_def)
  have no_surplus: "credit_surplus ?env pending_top_up full_payment key v = Inr v" for key v
    by (simp add: credit_surplus_def pending_top_up_def full_payment_def) (simp add: pay_env_with_def)
  obtain evs where tr: "top_up_transition (pe_ambient ?env) pending_top_up ''Credited'' None ''gateway'' (Some 1180) (pw_events w1)
      = Inr (pending_top_up\<lparr>tu_status := ''Credited''\<rparr>, evs)"
  proof -
    have "tu_status pending_top_up \<noteq> ''Credited''" "allows TOP_UP_ORDER (Some (tu_status pending_top_up)) ''Credited''"
      by (simp_all add: pending_top_up_def allows_simps TOP_UP_ORDER_def)
    then show thesis using top_up_transition_ok that by blast
  qed
  have key: "adapter_key_of ?env ''Stripe'' = Some ''Stripe''" by (simp add: adapter_key_of_def pay_env_with_def)
  have f: "tu_status pending_top_up = ''Created''" "tu_team pending_top_up = ''t1''" "tu_total pending_top_up = 1180"
    "tu_currency pending_top_up = ''INR''" "tu_credit pending_top_up = 1000" "tu_gateway pending_top_up = ''Stripe''"
    "vp_id full_payment = ''pay_1''" by (simp_all add: pending_top_up_def full_payment_def)
  show ?thesis using buy tr unfolding credit_wallet_def Let_def cover bindE.simps f key by (simp add: no_surplus)
qed

theorem top_up_credited_once_witness:
  "\<exists>e w' t'. credit_wallet (pay_env_with (Inr approved)) pending_top_up full_payment (due_world\<lparr>pw_top_ups := [pending_top_up]\<rparr>) = Inr (e, w')
    \<and> pw_top_ups w' = [t'] \<and> credit_wallet (pay_env_with (Inr approved)) t' full_payment w' = Inr (e, w')"
proof -
  obtain e w' where run: "credit_wallet (pay_env_with (Inr approved)) pending_top_up full_payment (due_world\<lparr>pw_top_ups := [pending_top_up]\<rparr>) = Inr (e, w')"
    using example_credit by blast
  obtain t' where t': "find (\<lambda>x. tu_name x = tu_name pending_top_up) (pw_top_ups w') = Some t'"
    "credit_wallet (pay_env_with (Inr approved)) t' full_payment w' = Inr (e, w')"
    using top_up_credited_once [OF _ run, of "pay_env_with (Inr approved)" full_payment] by auto
  have "length (pw_top_ups w') = 1" using run
  proof (cases rule: credit_wallet_cases)
    case (credited entry w1 w2 evs t1)
    have "pw_top_ups w2 = pw_top_ups w1" using credit_surplus_frame [OF credited(4)] by simp
    also have "pw_top_ups w1 = [pending_top_up]" by (subst wallet_purchase_frame [OF credited(3)]) simp
    finally show ?thesis by (simp add: credited(7) put_top_up_def)
  qed simp
  then obtain x where "pw_top_ups w' = [x]" by (auto simp: length_Suc_conv)
  with t'(1) have "pw_top_ups w' = [t']" by (auto split: if_splits)
  with run t'(2) show ?thesis by blast
qed

theorem top_up_books_whole_payment_witness:
  "\<exists>e w'. credit_wallet (pay_env_with (Inr approved)) pending_top_up full_payment (due_world\<lparr>pw_top_ups := [pending_top_up]\<rparr>) = Inr (e, w')
    \<and> booked_since empty_ledger (pw_ledger w') = 1180"
proof -
  let ?w = "due_world\<lparr>pw_top_ups := [pending_top_up]\<rparr>"
  obtain e w' where run: "credit_wallet (pay_env_with (Inr approved)) pending_top_up full_payment ?w = Inr (e, w')"
    using example_credit by blast
  have "payable (pay_env_with (Inr approved)) ?w (tu_currency pending_top_up)"
    using due_world_payable by (simp add: payable_def tax_env_of_def pending_top_up_def)
  from top_up_books_whole_payment [OF run _ this] run show ?thesis
    by (simp add: pending_top_up_def full_payment_def unbooked_def payment_entry_def empty_ledger_def)
qed

end
