(* ===== verification/Collection.thy ===== *)
theory Collection
  imports Charges "HOL-Library.Monad_Syntax"
begin

text \<open>
  Collecting an invoice off-session: the jobs that run one item at a time (\<open>platform/jobs.py\<close>), the
  pre-debit notice of an e-mandate (\<open>payments/emandate.py\<close>), and the rotation through a team's
  payment methods (\<open>payments/collection.py\<close>). The \<open>while True\<close> of \<open>collect_invoice\<close> is a partial
  function: None is a run that never ends.
\<close>

section \<open>Items of a job\<close>

text \<open>
  \<open>each_isolated\<close>: each item runs and commits on its own; an item that raises leaves what it had
  committed and an Error Log row naming it, and the next item runs.
\<close>

fun each_isolated ::
  "string \<Rightarrow> (string \<Rightarrow> world \<Rightarrow> ((error + 'a) \<times> world) option) \<Rightarrow> string list \<Rightarrow> world \<Rightarrow> ((string \<times> 'a) list \<times> world) option" where
  "each_isolated job work [] w = Some ([], w)"
| "each_isolated job work (name # names) w = (case work name w of
     None \<Rightarrow> None
   | Some (Inl e, w') \<Rightarrow> each_isolated job work names (review name (job @ '' failed'') w')
   | Some (Inr x, w') \<Rightarrow>
       map_option (\<lambda>(xs, w''). ((name, x) # xs, w'')) (each_isolated job work names w'))"

definition clock :: "pay_env \<Rightarrow> datetime option \<Rightarrow> datetime" where
  "clock env now = (case now of Some t \<Rightarrow> t | None \<Rightarrow> pe_now env)"

section \<open>The payment date\<close>

definition payment_starts_at :: "invoice \<Rightarrow> error + datetime" where
  "payment_starts_at iv = (case inv_payment_date iv of
     None \<Rightarrow> Inl (ValidationError ''Invoice is open but has no payment date.'')
   | Some d \<Rightarrow> Inr (at_midnight d))"

section \<open>The pre-debit notice\<close>

definition PREDEBIT_NOTICE_HOURS :: int where "PREDEBIT_NOTICE_HOURS = 24"

datatype predebit = Charge_now | Wait | Rotate_rail

datatype notice_outcome = Notice_skipped string | Notified datetime

definition is_notice_required :: "pay_env \<Rightarrow> invoice \<Rightarrow> string option \<Rightarrow> world \<Rightarrow> bool" where
  "is_notice_required env iv gateway w =
     (let (rail, currency) = (if truthy gateway then (gateway, Some (inv_currency iv)) else team_rail env (inv_team iv) w)
      in truthy rail \<and> truthy currency \<and> requires_predebit_notice env (the rail) (the currency))"

definition get_notice_skip_reason :: "pay_env \<Rightarrow> invoice \<Rightarrow> string option \<Rightarrow> world \<Rightarrow> string option" where
  "get_notice_skip_reason env iv gateway w =
     (if \<not> is_debit_allowed (inv_team iv) w then Some ''debit_not_allowed''
      else if \<not> is_notice_required env iv gateway w then Some ''no_notice_required''
      else if inv_type iv \<noteq> ''Billable'' \<or> \<not> is_owed iv then Some ''not_collectable''
      else if inv_expected_collection iv \<le> 0 then Some ''nothing_due''
      else if inv_predebit_notified_at iv \<noteq> None then Some ''already_notified''
      else None)"

definition arm_debit :: "datetime \<Rightarrow> datetime \<Rightarrow> invoice \<Rightarrow> invoice" where
  "arm_debit now charge_after iv =
     iv\<lparr>inv_predebit_notified_at := Some now, inv_predebit_charge_after := Some charge_after\<rparr>"

definition schedule_predebit ::
  "pay_env \<Rightarrow> string \<Rightarrow> datetime option \<Rightarrow> string option \<Rightarrow> world \<Rightarrow> (error + notice_outcome) \<times> world" where
  "schedule_predebit env invoice now gateway w =
     (case find_invoice w invoice of None \<Rightarrow> (Inl DoesNotExist, w) | Some iv \<Rightarrow>
      case get_notice_skip_reason env iv gateway w of Some reason \<Rightarrow> (Inr (Notice_skipped reason), w)
      | None \<Rightarrow> (case payment_starts_at iv of Inl e \<Rightarrow> (Inl e, w) | Inr starts_at \<Rightarrow>
          let now_dt = clock env now in
          if now_dt < starts_at - PREDEBIT_NOTICE_HOURS * hour_us
          then (Inr (Notice_skipped ''before_payment_date''), w)
          else (case evaluate env (inv_team iv) (Some (inv_expected_collection iv)) ''invoice_over_threshold'' w of
              (Inl e, w') \<Rightarrow> (Inl e, w)
            | (Inr st, w') \<Rightarrow>
                if cs_action_required st then (Inr (Notice_skipped ''over_threshold''), w')
                else let charge_after = max (now_dt + PREDEBIT_NOTICE_HOURS * hour_us) starts_at in
                  (Inr (Notified charge_after),
                   notify (inv_team iv) ''Pre-debit Notice'' invoice (put_invoice (arm_debit now_dt charge_after iv) w')))))"

definition await_predebit ::
  "pay_env \<Rightarrow> string \<Rightarrow> string \<Rightarrow> datetime option \<Rightarrow> world \<Rightarrow> (error + predebit \<times> notice_outcome option) \<times> world" where
  "await_predebit env invoice gateway now w =
     (case find_invoice w invoice of None \<Rightarrow> (Inl DoesNotExist, w) | Some iv \<Rightarrow>
      let now_dt = clock env now in
      if \<not> is_notice_required env iv (Some gateway) w
         \<or> (case inv_predebit_charge_after iv of Some t \<Rightarrow> now_dt \<ge> t | None \<Rightarrow> False)
      then (Inr (Charge_now, None), w)
      else (case schedule_predebit env invoice (Some now_dt) (Some gateway) w of
          (Inl e, w') \<Rightarrow> (Inl e, w')
        | (Inr (Notified t), w') \<Rightarrow> (Inr (Wait, Some (Notified t)), w')
        | (Inr (Notice_skipped s), w') \<Rightarrow>
            (Inr (if s \<in> {''already_notified'', ''before_payment_date''} then Wait else Rotate_rail,
                  Some (Notice_skipped s)), w')))"

section \<open>The next method\<close>

definition attempts_of :: "string \<Rightarrow> world \<Rightarrow> string list" where
  "attempts_of invoice w = map at_name (attempts_for invoice w)"

definition failed_methods_for :: "string \<Rightarrow> string list option \<Rightarrow> world \<Rightarrow> string option list" where
  "failed_methods_for invoice earlier w =
     map at_method (filter (\<lambda>a. at_status a = ''Failed''
       \<and> (case earlier of None \<Rightarrow> True | Some names \<Rightarrow> at_name a \<notin> set names
            \<or> \<not> is_retryable_later (fl_code (at_failure a)) (fl_decline (at_failure a))))
       (attempts_for invoice w))"

definition next_method_for :: "string \<Rightarrow> string \<Rightarrow> string list option \<Rightarrow> string list \<Rightarrow> world \<Rightarrow> payment_method option" where
  "next_method_for invoice team earlier skip w =
     (let passed_over = set (failed_methods_for invoice earlier w) \<union> Some ` set skip
      in find (\<lambda>m. Some (pm_name m) \<notin> passed_over) (ordered_methods team w))"

definition ask_for_another_method :: "invoice \<Rightarrow> world \<Rightarrow> world" where
  "ask_for_another_method iv w =
     (if list_ex (\<lambda>a. at_status a = ''Failed'') (attempts_for (inv_name iv) w)
      then notify (inv_team iv) ''Add Payment Method'' (inv_name iv) w else w)"

definition is_before_payment_date :: "pay_env \<Rightarrow> invoice \<Rightarrow> string \<Rightarrow> datetime option \<Rightarrow> world \<Rightarrow> error + bool" where
  "is_before_payment_date env iv gateway now w =
     bindE (payment_starts_at iv) (\<lambda>starts_at.
       Inr (clock env now < starts_at \<and> \<not> is_notice_required env iv (Some gateway) w))"

section \<open>Collecting an invoice\<close>

datatype collect_outcome =
    Not_collected string "string option"
  | Awaiting_window notice_outcome
  | Charge_result pay_result

datatype collect_step = Stop collect_outcome | Rotate "string list"

definition charge_next_method ::
  "pay_env \<Rightarrow> invoice \<Rightarrow> string list option \<Rightarrow> string list \<Rightarrow> datetime option \<Rightarrow> world \<Rightarrow> (error + collect_step) \<times> world" where
  "charge_next_method env iv earlier skipped now w =
     (case in_flight_attempt (inv_name iv) w of
        Some a \<Rightarrow> (Inr (Stop (Not_collected ''attempt_in_flight'' (Some a))), w)
      | None \<Rightarrow> (case next_method_for (inv_name iv) (inv_team iv) earlier skipped w of
          None \<Rightarrow> (Inr (Stop (Not_collected ''no_method'' None)), ask_for_another_method iv w)
        | Some m \<Rightarrow> (case is_before_payment_date env iv (pm_gateway m) now w of
            Inl e \<Rightarrow> (Inl e, w)
          | Inr before \<Rightarrow>
              if before then (Inr (Stop (Not_collected ''before_payment_date'' None)), w)
              else (case await_predebit env (inv_name iv) (pm_gateway m) now w of
                  (Inl e, w') \<Rightarrow> (Inl e, w')
                | (Inr (predebit, notice), w') \<Rightarrow>
                    if predebit = Wait then (Inr (Stop (Awaiting_window (the notice))), w')
                    else if predebit = Rotate_rail then (Inr (Rotate (pm_name m # skipped)), w')
                    else (case pay_invoice env (inv_name iv) (Some (pm_name m)) (Some (pm_gateway m)) w' of
                        (Inl e, w'') \<Rightarrow> (Inl e, w'')
                      | (Inr r, w'') \<Rightarrow>
                          if py_status r \<noteq> Some ''Failed'' then (Inr (Stop (Charge_result r)), w'')
                          else if \<not> is_terminal (py_failure_code r)
                          then (Inr (Stop (Not_collected ''ambiguous_failure'' (py_attempt r))), w'')
                          else (Inr (Rotate skipped), w''))))))"

text \<open>
  A step that raises undoes what the run wrote since its last commit. The only commits are those of
  \<open>pay_invoice\<close>, which follow the insert of an attempt, so a step committed when it took a name.
\<close>

definition committed :: "world \<Rightarrow> world \<Rightarrow> world \<Rightarrow> world" where
  "committed base w w' = (if pw_serial w' = pw_serial w then base else w')"

partial_function (option) collect_loop ::
  "pay_env \<Rightarrow> invoice \<Rightarrow> string list option \<Rightarrow> datetime option \<Rightarrow> string list \<Rightarrow> world \<Rightarrow> world
     \<Rightarrow> ((error + collect_outcome) \<times> world) option" where
  "collect_loop env iv earlier now skipped base w =
     (case charge_next_method env iv earlier skipped now w of
        (res, w') \<Rightarrow> (case res of
          Inl e \<Rightarrow> Some (Inl e, committed base w w')
        | Inr step \<Rightarrow> (case step of
            Stop outcome \<Rightarrow> Some (Inr outcome, w')
          | Rotate skipped' \<Rightarrow> collect_loop env iv earlier now skipped' (committed base w w') w')))"

definition collect_invoice ::
  "pay_env \<Rightarrow> string \<Rightarrow> bool \<Rightarrow> datetime option \<Rightarrow> world \<Rightarrow> ((error + collect_outcome) \<times> world) option" where
  "collect_invoice env invoice new_round now w =
     (case find_invoice w invoice of None \<Rightarrow> Some (Inl DoesNotExist, w) | Some iv \<Rightarrow>
      if is_internal_team (pw_profiles w) (inv_team iv) then Some (Inr (Not_collected ''internal_team'' None), w)
      else collect_loop env iv (if new_round then Some (attempts_of invoice w) else None) now [] w w)"

section \<open>The jobs\<close>

definition is_collectable :: "invoice \<Rightarrow> bool" where
  "is_collectable iv \<longleftrightarrow> is_owed iv \<and> inv_type iv = ''Billable'' \<and> inv_expected_collection iv > 0"

definition get_debited_in_window :: "invoice list \<Rightarrow> world \<Rightarrow> string list" where
  "get_debited_in_window invoices w =
     map inv_name (filter (\<lambda>iv. list_ex (\<lambda>a. at_creation a \<ge> the (inv_predebit_charge_after iv)) (attempts_for (inv_name iv) w)) invoices)"

definition charge_due :: "pay_env \<Rightarrow> datetime option \<Rightarrow> world \<Rightarrow> ((string \<times> collect_outcome) list \<times> world) option" where
  "charge_due env now w =
     (let now_dt = clock env now;
          due = filter (\<lambda>iv. is_collectable iv \<and> (case inv_predebit_charge_after iv of Some t \<Rightarrow> t \<le> now_dt | None \<Rightarrow> False)) (pw_invoices w);
          debited = get_debited_in_window due w;
          auto = map inv_name (filter (\<lambda>iv. inv_name iv \<notin> set debited \<and> is_debit_allowed (inv_team iv) w) due)
      in each_isolated ''E-mandate debit'' (\<lambda>name. collect_invoice env name False (Some now_dt)) auto w)"

definition run_emandate_cycle ::
  "pay_env \<Rightarrow> datetime option \<Rightarrow> world \<Rightarrow> ((string \<times> notice_outcome) list \<times> (string \<times> collect_outcome) list \<times> world) option" where
  "run_emandate_cycle env now w =
     (let pending = map inv_name (filter (\<lambda>iv. is_collectable iv \<and> inv_predebit_notified_at iv = None) (pw_invoices w))
      in do {
        (notified, w1) \<leftarrow> each_isolated ''Pre-debit notice'' (\<lambda>name v. Some (schedule_predebit env name now None v)) pending w;
        (charged, w2) \<leftarrow> charge_due env now w1;
        Some (notified, charged, w2)
      })"

definition collect_first_charges :: "pay_env \<Rightarrow> datetime \<Rightarrow> world \<Rightarrow> ((string \<times> collect_outcome) list \<times> world) option" where
  "collect_first_charges env now_dt w =
     (let waiting = map inv_name (filter (\<lambda>iv. is_collectable iv
            \<and> (case inv_payment_date iv of Some d \<Rightarrow> d \<le> dt_date now_dt + 1 | None \<Rightarrow> False)) (pw_invoices w));
          tried = map at_invoice (filter (\<lambda>a. at_invoice a \<in> set waiting) (pw_attempts w))
      in each_isolated ''Collect on payment date'' (\<lambda>name. collect_invoice env name False (Some now_dt))
           (filter (\<lambda>name. name \<notin> set tried) waiting) w)"

end
