(* ===== verification/Collection_Safety.thy ===== *)
theory Collection_Safety
  imports Collection Charge_Safety
begin

text \<open>
  What the rotation through a team's methods keeps: a run ends, it adds attempts and changes no older
  one, it tries each method at most once, and it moves on only from a final decline.
\<close>

section \<open>Methods are only retired\<close>

definition method_names :: "string \<Rightarrow> world \<Rightarrow> string set" where
  "method_names team w = pm_name ` set (ordered_methods team w)"

definition methods_retire :: "world \<Rightarrow> world \<Rightarrow> bool" where
  "methods_retire w w' \<longleftrightarrow> map pm_name (pw_methods w') = map pm_name (pw_methods w)
     \<and> (\<forall>team. method_names team w' \<subseteq> method_names team w)
     \<and> pm_gateway ` set (pw_methods w') \<subseteq> pm_gateway ` set (pw_methods w)"

lemma method_names_eq: "method_names team w =
    pm_name ` {m \<in> set (pw_methods w). pm_team m = team \<and> pm_status m = ''Active'' \<and> \<not> pm_reauth_required m}"
  by (simp add: method_names_def ordered_methods_def)

lemma methods_retire_refl [simp]: "methods_retire w w"
  by (simp add: methods_retire_def)

lemma methods_retire_trans: "methods_retire w w' \<Longrightarrow> methods_retire w' w'' \<Longrightarrow> methods_retire w w''"
  unfolding methods_retire_def by (metis subset_trans)

lemma methods_retire_eqI: "pw_methods w' = pw_methods w \<Longrightarrow> methods_retire w w'"
  by (simp add: methods_retire_def method_names_eq)

lemma methods_retire_put:
  assumes "pm_status m = ''Cancelled''" "pm_gateway m \<in> pm_gateway ` set (pw_methods w)"
  shows "methods_retire w (put_method m w)"
proof -
  have "map pm_name (pw_methods (put_method m w)) = map pm_name (pw_methods w)" by (simp add: put_method_def)
  moreover have "method_names team (put_method m w) \<subseteq> method_names team w" for team
    using assms by (auto simp: method_names_eq put_method_def split: if_splits)
  moreover have "pm_gateway ` set (pw_methods (put_method m w)) \<subseteq> pm_gateway ` set (pw_methods w)"
    using assms(2) by (auto simp: put_method_def)
  ultimately show ?thesis by (simp add: methods_retire_def)
qed

lemma trip_methods: "pw_methods (snd (trip env team reason w)) = pw_methods w"
  using trip_money [of w env team reason] by (simp add: same_money_def)

lemma retire_methods:
  assumes "retire_method_if_mandate_failed env a code w = (res, w')"
  shows "methods_retire w w'"
proof -
  consider "w' = w" | m evs where "pm_status m = ''Cancelled''" "pm_gateway m \<in> pm_gateway ` set (pw_methods w)"
      "trip env (at_team a) ''mandate_failed'' (put_method m (w\<lparr>pw_events := evs\<rparr>)) = (res, w')"
  proof (cases "\<not> is_mandate_failure code \<or> \<not> truthy (at_method a)")
    case True
    with assms that(1) show thesis by (auto simp: retire_method_if_mandate_failed_def)
  next
    case False
    note r = assms [unfolded retire_method_if_mandate_failed_def if_not_P [OF False]]
    show thesis
    proof (cases "find_method w (the (at_method a))")
      case None with r that(1) show thesis by simp
    next
      case (Some m)
      show thesis
      proof (cases "pm_status m = ''Cancelled''")
        case True with r Some that(1) show thesis by simp
      next
        case active: False
        let ?t = "method_transition (pe_ambient env) m ''Cancelled'' (Some (''mandate failure: '' @ py_str code)) (Some ''gateway'') (pw_events w)"
        show thesis
        proof (cases ?t)
          case (Inl e) with r Some active that(1) show thesis by simp
        next
          case (Inr p)
          obtain m' evs where p: "p = (m', evs)" by (cases p)
          have m': "pm_status m' = ''Cancelled''" "pm_gateway m' = pm_gateway m" using method_transition_Inr [OF Inr [unfolded p]] by simp_all
          have "m \<in> set (pw_methods w)" using Some by (auto simp: find_method_def dest: find_Some)
          with r Some active Inr p m' show thesis
            by (intro that(2) [of "m'\<lparr>pm_reauth_required := True\<rparr>" evs]) simp_all
        qed
      qed
    qed
  qed
  then show ?thesis
  proof cases
    case (2 m evs)
    have "pw_methods w' = pw_methods (put_method m (w\<lparr>pw_events := evs\<rparr>))"
      using trip_methods [of env "at_team a" "''mandate_failed''" "put_method m (w\<lparr>pw_events := evs\<rparr>)"] 2(3) by simp
    also have "\<dots> = pw_methods (put_method m w)" by (simp add: put_method_def)
    finally have "methods_retire (put_method m w) w'" by (rule methods_retire_eqI)
    with methods_retire_put [OF 2(1,2)] show ?thesis by (rule methods_retire_trans)
  qed simp
qed

section \<open>A charge writes one row\<close>

definition writes_row :: "attempt \<Rightarrow> world \<Rightarrow> world \<Rightarrow> bool" where
  "writes_row a w w' \<longleftrightarrow> methods_retire w w' \<and> pw_serial w' = pw_serial w
     \<and> (pw_attempts w' = pw_attempts w \<or> (\<exists>b. same_charge a b \<and> pw_attempts w' = pw_attempts (put_attempt b w)))"

text \<open>An answer that is a failure is on the row, with a code that is final when the answer's is.\<close>

definition fails_row :: "attempt \<Rightarrow> world \<Rightarrow> (error + pay_result) \<Rightarrow> world \<Rightarrow> bool" where
  "fails_row a w res w' \<longleftrightarrow> (\<forall>r. res = Inr r \<and> py_status r = Some ''Failed'' \<longrightarrow>
     (\<exists>b. same_charge a b \<and> at_status b = ''Failed'' \<and> pw_attempts w' = pw_attempts (put_attempt b w)
        \<and> (is_terminal (py_failure_code r) \<longrightarrow> is_terminal (fl_code (at_failure b)))))"

lemma writes_row_refl [simp]: "writes_row a w w"
  by (simp add: writes_row_def)

lemma put_attempt_twice:
  "at_name b = at_name a \<Longrightarrow> pw_attempts v = pw_attempts (put_attempt a w) \<Longrightarrow>
   pw_attempts (put_attempt b v) = pw_attempts (put_attempt b w)"
  by (simp add: put_attempt_def)

lemma put_attempt_cong: "pw_attempts v = pw_attempts w \<Longrightarrow> pw_attempts (put_attempt b v) = pw_attempts (put_attempt b w)"
  by (simp add: put_attempt_def)

lemma writes_row_put: "same_charge a b \<Longrightarrow> pw_methods w' = pw_methods w \<Longrightarrow> pw_serial w' = pw_serial w \<Longrightarrow>
    pw_attempts w' = pw_attempts (put_attempt b w) \<Longrightarrow> writes_row a w w'"
  by (auto simp: writes_row_def methods_retire_eqI)

lemma terminal_code: "is_terminal c \<Longrightarrow> is_terminal (fl_code (failure_fields f))" if "fl_code f = c"
proof -
  assume t: "is_terminal c"
  then have "truthy c" by (cases c) (auto simp: is_terminal_def code_of_def lower_def code_lists)
  with that t show ?thesis by (cases c) (simp_all add: failure_fields_def)
qed

lemma record_result_row:
  assumes init: "at_status a = ''Initiated''" and run: "record_result env a r w = (res, w')"
  shows "writes_row a w w' \<and> fails_row a w res w'"
proof -
  let ?a = "a\<lparr>at_txn := ps_txn r\<rparr>"
  consider (hold) "ps_hold_until r \<noteq> None" | (success) "ps_hold_until r = None" "ps_success r"
    | (failure) "ps_hold_until r = None" "\<not> ps_success r" by blast
  then show ?thesis
  proof cases
    case hold
    let ?b = "?a\<lparr>at_hold_until := ps_hold_until r\<rparr>"
    have w': "w' = put_attempt ?b w" and st: "\<forall>x. res = Inr x \<longrightarrow> py_status x = Some ''Initiated''"
      using run hold init by (auto simp: record_result_def Let_def)
    have "writes_row a w w'" by (rule writes_row_put [of _ ?b]) (simp_all add: w' put_method_def same_charge_def put_attempt_def)
    with st show ?thesis by (auto simp: fails_row_def)
  next
    case success
    let ?t = "attempt_transition (pe_ambient env) ?a ''Captured'' None (Some ''gateway'') (pw_events w)"
    show ?thesis
    proof (cases ?t)
      case (Inl e)
      with run success show ?thesis by (auto simp: record_result_def Let_def fails_row_def)
    next
      case (Inr p)
      obtain b evs where p: "p = (b, evs)" by (cases p)
      have b: "b = ?a\<lparr>at_status := ''Captured''\<rparr>" by (rule attempt_transition_Inr(1) [OF Inr [unfolded p]])
      have w': "w' = put_attempt b (w\<lparr>pw_events := evs\<rparr>)" and st: "\<forall>x. res = Inr x \<longrightarrow> py_status x = Some ''Captured''"
        using run success Inr p b by (auto simp: record_result_def Let_def)
      have "writes_row a w w'" by (rule writes_row_put [of _ b]) (simp_all add: w' b same_charge_def put_attempt_def)
      with st show ?thesis by (auto simp: fails_row_def)
    qed
  next
    case failure
    let ?b = "stamp_failure (ps_failure r) ?a"
    let ?t = "attempt_transition (pe_ambient env) ?b ''Failed'' (fl_code (at_failure ?b)) (Some ''gateway'') (pw_events w)"
    show ?thesis
    proof (cases ?t)
      case (Inl e)
      with run failure show ?thesis by (auto simp: record_result_def Let_def fails_row_def)
    next
      case (Inr p)
      obtain b evs where p: "p = (b, evs)" by (cases p)
      have b: "b = ?b\<lparr>at_status := ''Failed''\<rparr>" by (rule attempt_transition_Inr(1) [OF Inr [unfolded p]])
      let ?c = "b\<lparr>at_completed_at := Some (pe_now env)\<rparr>"
      obtain res2 w2 where rt: "retire_method_if_mandate_failed env ?c (fl_code (ps_failure r)) (w\<lparr>pw_events := evs\<rparr>) = (res2, w2)"
        by fastforce
      have same: "pw_attempts w2 = pw_attempts w" "pw_serial w2 = pw_serial w" using retire_money [OF rt] by simp_all
      have "methods_retire w (w\<lparr>pw_events := evs\<rparr>)" by (rule methods_retire_eqI) simp
      then have mr: "methods_retire w w2" using retire_methods [OF rt] by (rule methods_retire_trans)
      have sc: "same_charge a ?c" by (simp add: b same_charge_def stamp_failure_def)
      show ?thesis
      proof (cases res2)
        case e: (Inl e)
        with run failure Inr p rt have "w' = w" "\<forall>x. res \<noteq> Inr x" by (auto simp: record_result_def Let_def)
        then show ?thesis by (simp add: fails_row_def)
      next
        case u: (Inr u)
        have w': "w' = put_attempt ?c w2" and st: "\<forall>x. res = Inr x \<longrightarrow> py_failure_code x = fl_code (ps_failure r)"
          using run failure Inr p rt u by (auto simp: record_result_def Let_def)
        have "methods_retire w2 w'" by (rule methods_retire_eqI) (simp add: w')
        with mr have m: "methods_retire w w'" by (rule methods_retire_trans)
        have rows: "pw_attempts w' = pw_attempts (put_attempt ?c w)" unfolding w' by (rule put_attempt_cong [OF same(1)])
        have "fl_code (at_failure ?c) = fl_code (failure_fields (ps_failure r))" by (simp add: b stamp_failure_def)
        then have code: "is_terminal (fl_code (ps_failure r)) \<Longrightarrow> is_terminal (fl_code (at_failure ?c))"
          using terminal_code [OF refl] by simp
        have status: "at_status ?c = ''Failed''" by (simp add: b)
        have "writes_row a w w'" using m sc rows same(2) by (auto simp: writes_row_def w')
        moreover have "fails_row a w res w'"
          unfolding fails_row_def using sc status rows code st by (intro allI impI exI [of _ ?c]) auto
        ultimately show ?thesis by blast
      qed
    qed
  qed
qed


lemma claim_status:
  assumes "claim_attempt env invoice pm gw w = (Inr (Not_claimed r), w')"
  shows "py_status r = None"
proof -
  have "\<exists>s x. r = not_charged s x"
    using assms unfolding claim_attempt_def by (auto simp: Let_def split: option.splits if_splits sum.splits prod.splits)
  then show ?thesis by (auto simp: not_charged_def)
qed

definition charges_row :: "attempt \<Rightarrow> world \<Rightarrow> (error + pay_result) \<Rightarrow> world \<Rightarrow> bool" where
  "charges_row a w res w' \<longleftrightarrow> writes_row a w w' \<and> fails_row a w res w'"

lemma charges_row_same: "(\<And>r. res = Inr r \<Longrightarrow> py_status r \<noteq> Some ''Failed'') \<Longrightarrow> charges_row a w res w"
  by (auto simp: charges_row_def fails_row_def)

lemma defer_attempt_row:
  assumes run: "defer_attempt env a e w = (res, w')"
  shows "charges_row a w res w'"
proof (cases "find_invoice w (at_invoice a)")
  case None
  with run show ?thesis by (auto simp: defer_attempt_def Let_def intro: charges_row_same)
next
  case (Some iv)
  show ?thesis
  proof (cases "defer_dunning (dt_date (pe_now env)) iv")
    case (Inl err)
    with run Some show ?thesis by (auto simp: defer_attempt_def Let_def intro: charges_row_same)
  next
    case (Inr p)
    let ?a = "a\<lparr>at_failure := (at_failure a)\<lparr>fl_reason := Some (take 140 e)\<rparr>\<rparr>"
    obtain b iv' where p: "p = (b, iv')" by (cases p)
    have w': "w' = put_invoice iv' (put_attempt ?a w)" and res: "res = Inr (not_charged ''timeout'' (Some (at_name a)))"
      using run Some Inr p by (simp_all add: defer_attempt_def Let_def)
    have "writes_row a w w'" by (rule writes_row_put [of _ ?a]) (simp_all add: w' put_attempt_def same_charge_def)
    with res show ?thesis by (simp add: charges_row_def fails_row_def not_charged_def)
  qed
qed

lemma send_charge_row:
  assumes "at_status a = ''Initiated''" "send_charge env adapter m input a w = (res, w')"
  shows "charges_row a w res w'"
proof -
  from assms(2) consider e where "w' = w" "res = Inl e" | e where "defer_attempt env a e w = (res, w')"
    | r where "record_result env a r w = (res, w')"
    unfolding send_charge_def by (auto split: sum.splits error.splits)
  then show ?thesis
  proof cases
    case (1 e) then show ?thesis by (auto intro: charges_row_same)
  next
    case (2 e) then show ?thesis by (rule defer_attempt_row)
  next
    case (3 r) then show ?thesis unfolding charges_row_def by (rule record_result_row [OF assms(1)])
  qed
qed

lemma charges_row_stored:
  assumes "charges_row b (put_attempt b w) res w'" "same_charge a b"
  shows "charges_row a w res w'"
proof -
  let ?v = "put_attempt b w"
  have n: "at_name c = at_name b" if "same_charge b c" for c using that by (simp add: same_charge_def)
  have put: "pw_attempts (put_attempt c ?v) = pw_attempts (put_attempt c w)" if "same_charge b c" for c
    by (rule put_attempt_twice [OF n [OF that] refl])
  have sc: "same_charge a c" if "same_charge b c" for c by (rule same_charge_trans [OF assms(2) that])
  have mr: "methods_retire w ?v" by (rule methods_retire_eqI) simp
  have w: "writes_row b ?v w'" and f: "fails_row b ?v res w'" using assms(1) by (simp_all add: charges_row_def)
  have m: "methods_retire w w'" using w methods_retire_trans [OF mr] by (simp add: writes_row_def)
  from w have "pw_attempts w' = pw_attempts ?v \<or> (\<exists>c. same_charge b c \<and> pw_attempts w' = pw_attempts (put_attempt c ?v))"
    by (simp add: writes_row_def)
  then have "\<exists>c. same_charge a c \<and> pw_attempts w' = pw_attempts (put_attempt c w)"
  proof
    assume "pw_attempts w' = pw_attempts ?v" with assms(2) show ?thesis by blast
  next
    assume "\<exists>c. same_charge b c \<and> pw_attempts w' = pw_attempts (put_attempt c ?v)"
    then obtain c where "same_charge b c" "pw_attempts w' = pw_attempts (put_attempt c ?v)" by blast
    with sc put show ?thesis by (intro exI [of _ c]) simp
  qed
  then have "writes_row a w w'" using w m by (simp add: writes_row_def)
  moreover have "fails_row a w res w'"
    unfolding fails_row_def
  proof (intro allI impI)
    fix r assume "res = Inr r \<and> py_status r = Some ''Failed''"
    with f obtain c where c: "same_charge b c" "at_status c = ''Failed''" "pw_attempts w' = pw_attempts (put_attempt c ?v)"
      "is_terminal (py_failure_code r) \<longrightarrow> is_terminal (fl_code (at_failure c))"
      unfolding fails_row_def by blast
    with sc put show "\<exists>b. same_charge a b \<and> at_status b = ''Failed'' \<and> pw_attempts w' = pw_attempts (put_attempt b w)
        \<and> (is_terminal (py_failure_code r) \<longrightarrow> is_terminal (fl_code (at_failure b)))" by auto
  qed
  ultimately show ?thesis by (simp add: charges_row_def)
qed

lemma charge_claimed_row:
  assumes a: "find_attempt w name = Some a" "at_status a = ''Initiated''"
    and c: "charge_claimed_attempt env name w = (res, w')"
  shows "charges_row a w res w'"
proof (cases "Option.bind (at_method a) (find_method w)")
  case None
  with c a show ?thesis by (auto simp: charge_claimed_attempt_def intro: charges_row_same)
next
  case m: (Some m)
  show ?thesis
  proof (cases "adapter_for env (at_gateway a)")
    case (Inl e)
    with c a m show ?thesis by (auto simp: charge_claimed_attempt_def intro: charges_row_same)
  next
    case ad: (Inr adapter)
    note c' = c [unfolded charge_claimed_attempt_def, simplified a(1) m ad option.case sum.case Let_def]
    show ?thesis
    proof (cases "truthy (at_order a)")
      case True
      with c' show ?thesis by (intro send_charge_row [OF a(2)]) simp
    next
      case False
      show ?thesis
      proof (cases "ad_prepare adapter (charge_input_of a m) name")
        case (Inl e)
        have rr: "record_result env a r w = (res, w') \<Longrightarrow> charges_row a w res w'" for r
          unfolding charges_row_def by (rule record_result_row [OF a(2)])
        from Inl c' False show ?thesis
          by (cases e) (auto intro: charges_row_same defer_attempt_row rr)
      next
        case (Inr order)
        show ?thesis
        proof (cases "truthy order")
          case True
          let ?b = "a\<lparr>at_order := order\<rparr>"
          have "send_charge env adapter m ((charge_input_of a m)\<lparr>ci_order := order\<rparr>) ?b (put_attempt ?b w) = (res, w')"
            using c' False Inr True by simp
          then have "charges_row ?b (put_attempt ?b w) res w'" by (rule send_charge_row [rotated]) (simp add: a(2))
          then show ?thesis by (rule charges_row_stored) simp
        next
          case no: False
          with c' False Inr show ?thesis by (intro send_charge_row [OF a(2)]) simp
        qed
      qed
    qed
  qed
qed

section \<open>Paying adds one attempt\<close>

text \<open>What a charge of one method adds: nothing, or one attempt of that method.\<close>

definition adds_attempt :: "pay_env \<Rightarrow> string \<Rightarrow> string \<Rightarrow> world \<Rightarrow> (error + pay_result) \<Rightarrow> world \<Rightarrow> bool" where
  "adds_attempt env invoice m w res w' \<longleftrightarrow>
     (pw_attempts w' = pw_attempts w \<and> pw_serial w' = pw_serial w \<and> (\<forall>r. res = Inr r \<longrightarrow> py_status r \<noteq> Some ''Failed''))
     \<or> (\<exists>a. pw_attempts w' = pw_attempts w @ [a] \<and> pw_serial w' = Suc (pw_serial w) \<and> at_name a = pe_hash env (pw_serial w)
          \<and> at_invoice a = invoice \<and> at_method a = Some m
          \<and> (\<forall>r. res = Inr r \<and> py_status r = Some ''Failed'' \<longrightarrow> at_status a = ''Failed''
               \<and> (is_terminal (py_failure_code r) \<longrightarrow> is_terminal (fl_code (at_failure a)))))"

lemma resolve_named: "m \<noteq> [] \<Longrightarrow> resolve_method env iv (Some m) gw w = Inr (m', g) \<Longrightarrow> m' = m"
  by (auto simp: resolve_method_def Let_def split: if_splits)

lemma put_last:
  assumes "pw_attempts v = xs @ [a]" "at_name b = at_name a" "\<forall>x \<in> set xs. at_name x \<noteq> at_name a"
  shows "pw_attempts (put_attempt b v) = xs @ [b]"
  using assms by (auto simp: put_attempt_def intro!: map_idI)

lemma trip_auto_methods: "pw_methods (snd (trip_auto_charge env team reason w)) = pw_methods w"
  using trip_auto_charge_money [of w env team reason] by (simp add: same_money_def)

lemma pay_invoice_adds:
  assumes names: "good_names env" and ok: "log_ok env w" and m: "m \<noteq> []"
    and p: "pay_invoice env invoice (Some m) gw w = (res, w')"
  shows "adds_attempt env invoice m w res w' \<and> methods_retire w w'
    \<and> (truthy gw \<longrightarrow> (\<forall>a \<in> set (pw_attempts w') - set (pw_attempts w). at_gateway a = the gw))"
proof -
  obtain res1 w1 where c: "claim_attempt env invoice (Some m) gw w = (res1, w1)" by fastforce
  from c show ?thesis
  proof (cases rule: claim_attempt_cases)
    case (claimed iv g m' adapter name)
    have m': "m' = m" by (rule resolve_named [OF m claimed(7)])
    define b where "b = (new_attempt env iv g (Some m') w)\<lparr>at_name := name,
      at_key := pe_key env invoice (length (attempts_for invoice w)), at_creation := pe_now env\<rparr>"
    note ins = insert_attempt_Inr [OF claimed(10)]
    have w1: "pw_attempts w1 = pw_attempts w @ [b]" "pw_serial w1 = Suc (pw_serial w)" "pw_methods w1 = pw_methods w"
      using ins(2) claimed(3) by (simp_all add: b_def new_attempt_def)
    have bf: "at_name b = pe_hash env (pw_serial w)" "at_name b = name" "at_status b = ''Initiated''" "at_invoice b = invoice" "at_method b = Some m"
      using claimed(3) ins(1) m' by (simp_all add: b_def new_attempt_def)
    have fresh: "\<forall>x \<in> set (pw_attempts w). at_name x \<noteq> at_name b" using log_okD(2) [OF ok] by (auto simp: bf(1))
    have ok1: "log_ok env w1" using moves_ok [OF _ names ok] claim_attempt_effect [OF c] by blast
    have fb: "find_attempt w1 name = Some b"
      using find_attempt_distinct [OF log_okD(1) [OF ok1], of b] by (simp add: w1 bf(2))
    have cc: "charge_claimed_attempt env name w1 = (res, w')" using p c claimed(1) by (simp add: pay_invoice_def)
    note row = charge_claimed_row [OF fb bf(3) cc, unfolded charges_row_def]
    have put: "pw_attempts (put_attempt x w1) = pw_attempts w @ [x]" if "same_charge b x" for x
      by (rule put_last [OF w1(1) _ fresh]) (use that in \<open>simp add: same_charge_def\<close>)
    have mr: "methods_retire w w'"
      using row methods_retire_trans [OF methods_retire_eqI [OF w1(3)]] by (simp add: writes_row_def)
    have serial: "pw_serial w' = Suc (pw_serial w)" using row w1(2) by (simp add: writes_row_def)
    have "adds_attempt env invoice m w res w'"
    proof (cases "\<exists>r. res = Inr r \<and> py_status r = Some ''Failed''")
      case True
      then obtain r where r: "res = Inr r" "py_status r = Some ''Failed''" by blast
      with row obtain x where x: "same_charge b x" "at_status x = ''Failed''" "pw_attempts w' = pw_attempts (put_attempt x w1)"
        "is_terminal (py_failure_code r) \<longrightarrow> is_terminal (fl_code (at_failure x))"
        unfolding fails_row_def by blast
      then show ?thesis unfolding adds_attempt_def using bf serial r
        by (intro disjI2 exI [of _ x]) (simp add: put same_charge_def)
    next
      case False
      from row have "pw_attempts w' = pw_attempts w1 \<or> (\<exists>x. same_charge b x \<and> pw_attempts w' = pw_attempts (put_attempt x w1))"
        by (simp add: writes_row_def)
      then obtain x where x: "same_charge b x" "pw_attempts w' = pw_attempts w @ [x]"
        using put w1(1) by (metis same_charge_refl)
      then show ?thesis unfolding adds_attempt_def using bf serial False
        by (intro disjI2 exI [of _ x]) (auto simp: same_charge_def)
    qed
    moreover have "at_gateway a = the gw" if "truthy gw" "a \<in> set (pw_attempts w') - set (pw_attempts w)" for a
    proof -
      have g: "at_gateway b = the gw" using claimed(7) that(1) m by (auto simp: b_def new_attempt_def resolve_method_def)
      from row have "pw_attempts w' = pw_attempts w1 \<or> (\<exists>x. same_charge b x \<and> pw_attempts w' = pw_attempts (put_attempt x w1))"
        by (simp add: writes_row_def)
      then obtain x where "same_charge b x" "pw_attempts w' = pw_attempts w @ [x]" using put w1(1) by (metis same_charge_refl)
      with that(2) g show ?thesis by (auto simp: same_charge_def)
    qed
    ultimately show ?thesis using mr by blast
  next
    case (refused r)
    then have "w' = w1" "res = Inr r" using p c by (simp_all add: pay_invoice_def)
    with refused(2) have same: "same_money w w'" by simp
    have "py_status r = None" by (rule claim_status [OF c [unfolded refused(1)]])
    with same \<open>res = Inr r\<close> show ?thesis by (simp add: adds_attempt_def same_money_def methods_retire_eqI)
  next
    case (raised e)
    with p c have "w' = w" "res = Inl e" by (simp_all add: pay_invoice_def)
    then show ?thesis by (simp add: adds_attempt_def)
  qed
qed


section \<open>Steps of a run\<close>

definition collects :: "pay_env \<Rightarrow> world \<Rightarrow> world \<Rightarrow> bool" where
  "collects env w w' \<longleftrightarrow> moves env w w' \<and> pw_ledger w' = pw_ledger w \<and> pw_refunds w' = pw_refunds w
     \<and> same_statuses w w' \<and> map inv_name (pw_invoices w') = map inv_name (pw_invoices w)"

lemma same_statuses_refl [simp]: "same_statuses w w"
  by (simp add: same_statuses_def)

lemma same_statuses_trans: "same_statuses w w' \<Longrightarrow> same_statuses w' w'' \<Longrightarrow> same_statuses w w''"
  by (simp add: same_statuses_def)

lemma collects_refl [simp]: "collects env w w"
  by (simp add: collects_def)

lemma collects_trans: "collects env w w' \<Longrightarrow> collects env w' w'' \<Longrightarrow> collects env w w''"
  unfolding collects_def by (auto intro: moves_trans same_statuses_trans)

lemma collects_rows: "collects env w w' \<Longrightarrow> one_row_each w \<Longrightarrow> one_row_each w'"
  by (simp add: collects_def one_row_each_def)

lemma find_status: "map_option inv_status (find (\<lambda>iv. inv_name iv = n) xs) =
    map_option snd (find (\<lambda>p. fst p = n) (map (\<lambda>iv. (inv_name iv, inv_status iv)) xs))"
  by (induction xs) auto

lemma only_charges_collects:
  assumes "only_charges w w'" "moves env w w'"
  shows "collects env w w'"
proof -
  let ?f = "\<lambda>iv::invoice. iv\<lparr>inv_dunning_starts_on := None, inv_suspends_on := None\<rparr>"
  have m: "map ?f (pw_invoices w') = map ?f (pw_invoices w)" using assms(1) by (simp add: only_charges_def)
  have pair: "map (\<lambda>iv. (inv_name iv, inv_status iv)) xs = map (\<lambda>iv. (inv_name iv, inv_status iv)) (map ?f xs)" for xs by simp
  have name: "map inv_name xs = map inv_name (map ?f xs)" for xs by simp
  have "same_statuses w w'"
    unfolding same_statuses_def find_invoice_def find_status pair [of "pw_invoices w'"] pair [of "pw_invoices w"] m by simp
  moreover have "map inv_name (pw_invoices w') = map inv_name (pw_invoices w)"
    unfolding name [of "pw_invoices w'"] name [of "pw_invoices w"] m by simp
  ultimately show ?thesis using assms by (simp add: collects_def only_charges_def)
qed

lemma same_money_collects: "same_money w w' \<Longrightarrow> collects env w w'"
  by (rule only_charges_collects [OF only_charges_same_money same_money_move])

text \<open>A step that writes no attempt: a notice, the debit window of an invoice, the collection mode.\<close>

definition no_attempt :: "pay_env \<Rightarrow> world \<Rightarrow> world \<Rightarrow> bool" where
  "no_attempt env w w' \<longleftrightarrow> collects env w w' \<and> pw_attempts w' = pw_attempts w \<and> pw_serial w' = pw_serial w \<and> pw_methods w' = pw_methods w"

lemma no_attempt_refl [simp]: "no_attempt env w w"
  by (simp add: no_attempt_def)

lemma same_money_no_attempt: "same_money w w' \<Longrightarrow> no_attempt env w w'"
  by (simp add: no_attempt_def same_money_collects) (simp add: same_money_def)

lemma notify_no_attempt: "no_attempt env w w' \<Longrightarrow> no_attempt env w (notify t e r w')"
proof -
  assume n: "no_attempt env w w'"
  have "same_money w' (notify t e r w')" by (simp add: same_money_def)
  from same_money_no_attempt [OF this, of env] n show ?thesis by (auto simp: no_attempt_def intro: collects_trans)
qed

lemma arm_debit_no_attempt:
  assumes iv: "find_invoice w (inv_name iv) = Some iv"
  shows "no_attempt env w (put_invoice (arm_debit now t iv) w)"
proof -
  let ?w = "put_invoice (arm_debit now t iv) w"
  have f: "inv_name (arm_debit now t iv) = inv_name iv" "inv_status (arm_debit now t iv) = inv_status iv" by (simp_all add: arm_debit_def)
  have s: "same_statuses w ?w" unfolding same_statuses_def by (auto simp: f iv)
  have "map inv_name (pw_invoices ?w) = map inv_name (pw_invoices w)" by (auto simp: put_invoice_def f)
  then show ?thesis using s by (simp add: no_attempt_def collects_def frame_move)
qed

lemma schedule_predebit_no_attempt:
  assumes "schedule_predebit env invoice now gateway w = (res, w')"
  shows "no_attempt env w w'"
proof (cases "find_invoice w invoice")
  case None with assms show ?thesis by (simp add: schedule_predebit_def)
next
  case (Some iv)
  show ?thesis
  proof (cases "get_notice_skip_reason env iv gateway w")
    case reason: (Some r) with assms Some show ?thesis by (simp add: schedule_predebit_def)
  next
    case go: None
    show ?thesis
    proof (cases "payment_starts_at iv")
      case (Inl e) with assms Some go show ?thesis by (simp add: schedule_predebit_def)
    next
      case (Inr s)
      obtain r w1 where ev: "evaluate env (inv_team iv) (Some (inv_expected_collection iv)) ''invoice_over_threshold'' w = (r, w1)" by fastforce
      have m: "same_money w w1" using evaluate_money [of w env "inv_team iv" "Some (inv_expected_collection iv)" "''invoice_over_threshold''"] ev by simp
      have n: "inv_name iv = invoice" by (rule find_invoice_name [OF Some])
      have "find_invoice w1 (inv_name iv) = Some iv" using Some n m by (simp add: same_money_def find_invoice_def)
      note arm = arm_debit_no_attempt [OF this, of env]
      have "no_attempt env w (put_invoice (arm_debit now' t iv) w1)" for now' t
        using same_money_no_attempt [OF m, of env] arm by (auto simp: no_attempt_def intro: collects_trans)
      note all = this notify_no_attempt [OF this] same_money_no_attempt [OF m, of env]
      show ?thesis
        using assms Some go Inr ev same_money_no_attempt [OF m, of env] unfolding schedule_predebit_def
        by (cases r) (auto simp: Let_def all(1,2) split: if_splits)
    qed
  qed
qed

text \<open>A notice that is skipped leaves the invoices.\<close>

lemma skipped_notice_invoices:
  assumes "schedule_predebit env invoice now gateway w = (Inr (Notice_skipped x), w')"
  shows "pw_invoices w' = pw_invoices w"
proof (cases "find_invoice w invoice")
  case None with assms show ?thesis by (simp add: schedule_predebit_def)
next
  case (Some iv)
  have "same_money w (snd (evaluate env (inv_team iv) (Some (inv_expected_collection iv)) ''invoice_over_threshold'' w))"
    by (rule evaluate_money)
  with assms Some show ?thesis unfolding schedule_predebit_def same_money_def
    by (auto simp: Let_def split: option.splits sum.splits if_splits prod.splits)
qed

lemma rotated_rail_invoices:
  assumes "await_predebit env invoice gateway now w = (Inr (Rotate_rail, n), w')"
  shows "pw_invoices w' = pw_invoices w"
proof -
  obtain r v where s: "schedule_predebit env invoice (Some (clock env now)) (Some gateway) w = (r, v)" by fastforce
  have "v = w' \<and> (\<exists>x. r = Inr (Notice_skipped x))"
    using assms s by (auto simp: await_predebit_def Let_def split: option.splits if_splits sum.splits notice_outcome.splits)
  then show ?thesis using s skipped_notice_invoices by blast
qed

lemma await_predebit_no_attempt:
  assumes "await_predebit env invoice gateway now w = (res, w')"
  shows "no_attempt env w w'" "res = Inr (Charge_now, x) \<Longrightarrow> w' = w"
proof -
  have "no_attempt env w w' \<and> (res = Inr (Charge_now, x) \<longrightarrow> w' = w)"
  proof (cases "find_invoice w invoice")
    case None with assms show ?thesis by (simp add: await_predebit_def)
  next
    case (Some iv)
    show ?thesis
    proof (cases "\<not> is_notice_required env iv (Some gateway) w
         \<or> (case inv_predebit_charge_after iv of Some t \<Rightarrow> clock env now \<ge> t | None \<Rightarrow> False)")
      case True with assms Some show ?thesis by (simp add: await_predebit_def Let_def)
    next
      case False
      obtain r w1 where s: "schedule_predebit env invoice (Some (clock env now)) (Some gateway) w = (r, w1)" by fastforce
      have "w1 = w' \<and> res \<noteq> Inr (Charge_now, x)"
        using assms unfolding await_predebit_def Some option.case Let_def if_not_P [OF False] s
        by (auto split: sum.splits notice_outcome.splits if_splits)
      with schedule_predebit_no_attempt [OF s] show ?thesis by simp
    qed
  qed
  then show "no_attempt env w w'" "res = Inr (Charge_now, x) \<Longrightarrow> w' = w" by auto
qed


lemma charge_next_cases [consumes 1, case_names stopped skipped charged]:
  assumes run: "charge_next_method env iv earlier skipped now w = (res, w')"
  obtains (stopped) "no_attempt env w w'" "\<forall>s. res \<noteq> Inr (Rotate s)"
  | (skipped) m where "next_method_for (inv_name iv) (inv_team iv) earlier skipped w = Some m"
      "res = Inr (Rotate (pm_name m # skipped))" "no_attempt env w w'" "pw_invoices w' = pw_invoices w"
  | (charged) m r n where "next_method_for (inv_name iv) (inv_team iv) earlier skipped w = Some m"
      "pay_invoice env (inv_name iv) (Some (pm_name m)) (Some (pm_gateway m)) w = (r, w')"
      "\<And>s. res = Inr (Rotate s) \<Longrightarrow> s = skipped \<and> (\<exists>x. r = Inr x \<and> py_status x = Some ''Failed'' \<and> is_terminal (py_failure_code x))"
      "await_predebit env (inv_name iv) (pm_gateway m) now w = (Inr (Charge_now, n), w)"
proof (cases "in_flight_attempt (inv_name iv) w")
  case (Some a) with run show thesis by (intro stopped) (auto simp: charge_next_method_def)
next
  case free: None
  note run1 = run [unfolded charge_next_method_def free option.case]
  show thesis
  proof (cases "next_method_for (inv_name iv) (inv_team iv) earlier skipped w")
    case None
    have "no_attempt env w (ask_for_another_method iv w)"
      by (simp add: ask_for_another_method_def notify_no_attempt)
    with run1 None show thesis by (intro stopped) auto
  next
    case m: (Some m)
    show thesis
    proof (cases "is_before_payment_date env iv (pm_gateway m) now w")
      case (Inl e) with run1 m show thesis by (intro stopped) auto
    next
      case before: (Inr before)
      show thesis
      proof (cases before)
        case True with run1 m before show thesis by (intro stopped) auto
      next
        case False
        obtain r1 w1 where aw: "await_predebit env (inv_name iv) (pm_gateway m) now w = (r1, w1)" by fastforce
        note na = await_predebit_no_attempt [OF aw]
        note run2 = run1 [unfolded m option.case before sum.case if_not_P [OF False] aw prod.case]
        show thesis
        proof (cases r1)
          case (Inl e) with run2 na(1) show thesis by (intro stopped) auto
        next
          case (Inr p)
          obtain predebit notice where p: "p = (predebit, notice)" by (cases p)
          note run3 = run2 [unfolded Inr p sum.case prod.case]
          show thesis
          proof (cases predebit)
            case Wait with run3 na(1) show thesis by (intro stopped) auto
          next
            case Rotate_rail
            then have "pw_invoices w1 = pw_invoices w" using aw Inr p rotated_rail_invoices by blast
            with Rotate_rail run3 na(1) show thesis by (intro skipped [OF m]) auto
          next
            case Charge_now
            then have now: "r1 = Inr (Charge_now, notice)" using Inr p by simp
            then have w1: "w1 = w" by (rule na(2))
            obtain r w2 where pay: "pay_invoice env (inv_name iv) (Some (pm_name m)) (Some (pm_gateway m)) w = (r, w2)" by fastforce
            note run4 = run3 [unfolded Charge_now w1 pay, simplified]
            have w': "w2 = w'" using run4 by (cases r) (auto split: if_splits)
            show thesis
              by (rule charged [OF m pay [unfolded w']])
                (use run4 aw now w1 in \<open>auto split: sum.splits if_splits\<close>)
          qed
        qed
      qed
    qed
  qed
qed

section \<open>A run of the loop\<close>

definition passed_over :: "string \<Rightarrow> string list option \<Rightarrow> string list \<Rightarrow> world \<Rightarrow> string set" where
  "passed_over invoice earlier skipped w = {n. Some n \<in> set (failed_methods_for invoice earlier w)} \<union> set skipped"

definition untried :: "invoice \<Rightarrow> string list option \<Rightarrow> string list \<Rightarrow> world \<Rightarrow> string set" where
  "untried iv earlier skipped w = method_names (inv_team iv) w - passed_over (inv_name iv) earlier skipped w"

lemma finite_untried [simp]: "finite (untried iv earlier skipped w)"
  by (simp add: untried_def method_names_def)

lemma next_method_untried:
  "next_method_for (inv_name iv) (inv_team iv) earlier skipped w = Some m \<Longrightarrow>
   pm_name m \<in> untried iv earlier skipped w \<and> m \<in> set (ordered_methods (inv_team iv) w)"
  unfolding next_method_for_def Let_def
  by (drule find_Some) (auto simp: untried_def passed_over_def method_names_def)

lemma untried_no_attempt:
  "no_attempt env w w' \<Longrightarrow> untried iv earlier skipped w' = untried iv earlier skipped w"
  by (simp add: no_attempt_def untried_def passed_over_def failed_methods_for_def attempts_for_def method_names_eq)

lemma untried_skip: "untried iv earlier (m # skipped) w = untried iv earlier skipped w - {m}"
  by (auto simp: untried_def passed_over_def)

lemma untried_charged:
  assumes "pw_attempts w' = pw_attempts w @ [a]" "at_invoice a = inv_name iv" "at_status a = ''Failed''" "at_method a = Some m"
    and "\<forall>names. earlier = Some names \<longrightarrow> at_name a \<notin> set names" "methods_retire w w'"
  shows "untried iv earlier skipped w' \<subseteq> untried iv earlier skipped w - {m}"
proof -
  have "set (failed_methods_for (inv_name iv) earlier w') = insert (Some m) (set (failed_methods_for (inv_name iv) earlier w))"
    using assms(1-5) by (auto simp: failed_methods_for_def attempts_for_def split: option.splits)
  then show ?thesis using assms(6) by (auto simp: untried_def passed_over_def methods_retire_def)
qed

text \<open>What a run adds: attempts on methods it had not tried, one each, all but the last a final decline.\<close>

definition rotation :: "invoice \<Rightarrow> string set \<Rightarrow> attempt list \<Rightarrow> bool" where
  "rotation iv names new \<longleftrightarrow> distinct (map at_method new)
     \<and> (\<forall>a \<in> set new. at_invoice a = inv_name iv \<and> at_method a \<in> Some ` names)
     \<and> (\<forall>a \<in> set (butlast new). at_status a = ''Failed'' \<and> is_terminal (fl_code (at_failure a)))"

lemma rotation_Nil [simp]: "rotation iv names []"
  by (simp add: rotation_def)

lemma rotation_single: "at_invoice a = inv_name iv \<Longrightarrow> at_method a = Some m \<Longrightarrow> m \<in> names \<Longrightarrow> rotation iv names [a]"
  by (simp add: rotation_def)

lemma rotation_mono: "rotation iv names new \<Longrightarrow> names \<subseteq> names' \<Longrightarrow> rotation iv names' new"
  unfolding rotation_def by blast

lemma rotation_Cons:
  assumes "rotation iv (names - {m}) new" "at_invoice a = inv_name iv" "at_method a = Some m" "m \<in> names"
    and "at_status a = ''Failed''" "is_terminal (fl_code (at_failure a))"
  shows "rotation iv names (a # new)"
  using assms unfolding rotation_def by (cases new) auto

definition run_ok :: "pay_env \<Rightarrow> string list option \<Rightarrow> world \<Rightarrow> bool" where
  "run_ok env earlier w \<longleftrightarrow> log_ok env w \<and> one_row_each w \<and> [] \<notin> pm_name ` set (pw_methods w)
     \<and> (\<forall>names. earlier = Some names \<longrightarrow> (\<forall>n \<in> set names. \<forall>k \<ge> pw_serial w. n \<noteq> pe_hash env k))"

lemma run_ok_step:
  assumes "run_ok env earlier w" "good_names env" "collects env w w'" "methods_retire w w'" "pw_serial w \<le> pw_serial w'"
  shows "run_ok env earlier w'"
proof -
  have "log_ok env w'" using assms(1-3) moves_ok by (auto simp: run_ok_def collects_def)
  moreover have "one_row_each w'" using assms(1,3) collects_rows by (auto simp: run_ok_def)
  moreover have "pm_name ` set (pw_methods w') = pm_name ` set (pw_methods w)"
    using assms(4) unfolding methods_retire_def by (metis list.set_map)
  ultimately show ?thesis using assms(1,5) unfolding run_ok_def by (auto dest: le_trans)
qed


lemma collect_loop_step:
  "charge_next_method env iv earlier skipped now w = (res, w') \<Longrightarrow>
   collect_loop env iv earlier now skipped base w = (case res of
       Inl e \<Rightarrow> Some (Inl e, committed base w w')
     | Inr (Stop outcome) \<Rightarrow> Some (Inr outcome, w')
     | Inr (Rotate skipped') \<Rightarrow> collect_loop env iv earlier now skipped' (committed base w w') w')"
  by (subst collect_loop.simps) (simp split: sum.split collect_step.split)

definition loop_ends :: "pay_env \<Rightarrow> invoice \<Rightarrow> string list option \<Rightarrow> datetime option \<Rightarrow> world \<Rightarrow> string list \<Rightarrow> world \<Rightarrow> world \<Rightarrow> bool" where
  "loop_ends env iv earlier now w0 skipped base w \<longleftrightarrow> (\<exists>res w' new.
     collect_loop env iv earlier now skipped base w = Some (res, w') \<and> collects env w0 w'
     \<and> pw_attempts w' = pw_attempts w @ new \<and> rotation iv (untried iv earlier skipped w) new)"

lemma loop_endsI:
  "collect_loop env iv earlier now skipped base w = Some (res, w') \<Longrightarrow> collects env w0 w' \<Longrightarrow>
   pw_attempts w' = pw_attempts w @ new \<Longrightarrow> rotation iv (untried iv earlier skipped w) new \<Longrightarrow>
   loop_ends env iv earlier now w0 skipped base w"
  unfolding loop_ends_def by blast

lemma collect_loop_ends:
  assumes names: "good_names env"
  shows "run_ok env earlier w \<Longrightarrow> collects env w0 w \<Longrightarrow> collects env w0 base \<Longrightarrow> pw_attempts base = pw_attempts w \<Longrightarrow>
    loop_ends env iv earlier now w0 skipped base w"
proof (induction "card (untried iv earlier skipped w)" arbitrary: skipped base w rule: less_induct)
  case (less skipped w base)
  obtain res w' where step: "charge_next_method env iv earlier skipped now w = (res, w')" by fastforce
  note loop = collect_loop_step [OF step, of base]
  from step show ?case
  proof (cases rule: charge_next_cases)
    case stopped
    have c: "collects env w0 w'" using stopped(1) less.prems(2) by (auto simp: no_attempt_def intro: collects_trans)
    have same: "pw_serial w' = pw_serial w" "pw_attempts w' = pw_attempts w" using stopped(1) by (simp_all add: no_attempt_def)
    obtain res' where "collect_loop env iv earlier now skipped base w = Some (res', base) \<or> collect_loop env iv earlier now skipped base w = Some (res', w')"
      using stopped(2) loop by (auto simp: committed_def same split: sum.splits collect_step.splits)
    then show ?thesis
      using c less.prems(3,4) same by (auto intro: loop_endsI [where new = "[]"])
  next
    case (skipped m)
    have c: "collects env w w'" and same: "pw_attempts w' = pw_attempts w" "pw_methods w' = pw_methods w" "pw_serial w' = pw_serial w"
      using skipped(3) by (simp_all add: no_attempt_def)
    note un = untried_no_attempt [OF skipped(3), of iv earlier]
    let ?u = "untried iv earlier skipped w"
    have smaller: "card (untried iv earlier (pm_name m # skipped) w') < card ?u"
      unfolding un untried_skip by (rule card_Diff1_less) (use next_method_untried [OF skipped(1)] in simp_all)
    have "loop_ends env iv earlier now w0 (pm_name m # skipped) base w'"
      by (rule less.hyps [OF smaller])
        (use less.prems names same c in \<open>auto intro: run_ok_step methods_retire_eqI collects_trans\<close>)
    then obtain res' w'' new where r: "collect_loop env iv earlier now (pm_name m # skipped) base w' = Some (res', w'')"
      "collects env w0 w''" "pw_attempts w'' = pw_attempts w' @ new" "rotation iv (?u - {pm_name m}) new"
      unfolding loop_ends_def un untried_skip by blast
    have "committed base w w' = base" by (simp add: committed_def same)
    with r skipped(2) loop show ?thesis
      by (intro loop_endsI [where new = new]) (auto simp: same intro: rotation_mono)
  next
    case (charged m r n)
    have ok: "log_ok env w" "one_row_each w" using less.prems(1) by (simp_all add: run_ok_def)
    have m: "pm_name m \<in> untried iv earlier skipped w" using next_method_untried [OF charged(1)] by simp
    have "m \<in> set (pw_methods w)" using next_method_untried [OF charged(1)] by (simp add: ordered_methods_def)
    then have nonempty: "pm_name m \<noteq> []" using less.prems(1) unfolding run_ok_def by (metis image_eqI)
    from pay_invoice_adds [OF names ok(1) nonempty charged(2)]
    have adds: "adds_attempt env (inv_name iv) (pm_name m) w r w'" and mr: "methods_retire w w'" by blast+
    have cw: "collects env w w'"
      using pay_invoice_effect [OF ok(2) charged(2)] by (blast intro: only_charges_collects)
    with less.prems(2) have c: "collects env w0 w'" by (blast intro: collects_trans)
    from adds show ?thesis
      unfolding adds_attempt_def
    proof (elim disjE exE conjE)
      assume same: "pw_attempts w' = pw_attempts w" "pw_serial w' = pw_serial w" and nf: "\<forall>x. r = Inr x \<longrightarrow> py_status x \<noteq> Some ''Failed''"
      then have "\<forall>s. res \<noteq> Inr (Rotate s)" using charged(3) by blast
      then obtain res' where "collect_loop env iv earlier now skipped base w = Some (res', base) \<or> collect_loop env iv earlier now skipped base w = Some (res', w')"
        using loop by (auto simp: committed_def same split: sum.splits collect_step.splits)
      then show ?thesis using c less.prems(3,4) same by (auto intro: loop_endsI [where new = "[]"])
    next
      fix a assume a: "pw_attempts w' = pw_attempts w @ [a]" "pw_serial w' = Suc (pw_serial w)" "at_name a = pe_hash env (pw_serial w)"
        "at_invoice a = inv_name iv" "at_method a = Some (pm_name m)"
        and failed: "\<forall>x. r = Inr x \<and> py_status x = Some ''Failed'' \<longrightarrow> at_status a = ''Failed''
               \<and> (is_terminal (py_failure_code x) \<longrightarrow> is_terminal (fl_code (at_failure a)))"
      have com: "committed base w w' = w'" by (simp add: committed_def a(2))
      show ?thesis
      proof (cases "\<exists>s. res = Inr (Rotate s)")
        case False
        then obtain res' where "collect_loop env iv earlier now skipped base w = Some (res', w')"
          using loop by (auto simp: com split: sum.splits collect_step.splits)
        then show ?thesis by (rule loop_endsI [OF _ c a(1) rotation_single [OF a(4,5) m]])
      next
        case True
        then have res: "res = Inr (Rotate skipped)" using charged(3) by blast
        obtain x where x: "r = Inr x" "py_status x = Some ''Failed''" "is_terminal (py_failure_code x)"
          using charged(3) True by blast
        have fin: "at_status a = ''Failed''" "is_terminal (fl_code (at_failure a))" using failed x by blast+
        have fresh: "\<forall>names. earlier = Some names \<longrightarrow> at_name a \<notin> set names"
          using less.prems(1) a(3) unfolding run_ok_def by auto
        note un = untried_charged [OF a(1,4) fin(1) a(5) fresh mr, of skipped]
        let ?u = "untried iv earlier skipped w"
        have "card (untried iv earlier skipped w') \<le> card (?u - {pm_name m})" by (rule card_mono) (use un in simp_all)
        also have "\<dots> < card ?u" by (rule card_Diff1_less) (use m in simp_all)
        finally have smaller: "card (untried iv earlier skipped w') < card ?u" .
        have ok': "run_ok env earlier w'" by (rule run_ok_step [OF less.prems(1) names cw mr]) (simp add: a(2))
        have "loop_ends env iv earlier now w0 skipped w' w'" by (rule less.hyps [OF smaller ok' c c refl])
        then obtain res' w'' new where r: "collect_loop env iv earlier now skipped w' w' = Some (res', w'')"
          "collects env w0 w''" "pw_attempts w'' = pw_attempts w' @ new" "rotation iv (untried iv earlier skipped w') new"
          unfolding loop_ends_def by blast
        have "rotation iv (?u - {pm_name m}) new" by (rule rotation_mono [OF r(4) un])
        from rotation_Cons [OF this a(4,5) m fin] r(1-3) show ?thesis
          by (intro loop_endsI [where new = "a # new"]) (simp_all add: loop res com a(1))
      qed
    qed
  qed
qed

end
