(* ===== verification/Collection_Frames.thy ===== *)
theory Collection_Frames
  imports Collection_Safety
begin

text \<open>
  What every run of the collection keeps: a fact of the books that a notice, the arming of a debit and
  a charge keep is kept by the rotation and by each collection of an invoice. The interface between
  the collection and the operations it calls.
\<close>

locale collection_invariant =
  fixes env :: pay_env and P :: "world \<Rightarrow> bool"
  assumes pay: "\<lbrakk>pay_invoice env invoice pm gw w = (x, w'); P w\<rbrakk> \<Longrightarrow> P w'"
    and predebit: "\<lbrakk>schedule_predebit env invoice now gw w = (r, w'); P w\<rbrakk> \<Longrightarrow> P w'"
    and message: "P w \<Longrightarrow> P (notify t e n w)"
begin

lemma await_keeps: "await_predebit env invoice gateway now w = (res, w') \<Longrightarrow> P w \<Longrightarrow> P w'"
proof -
  assume aw: "await_predebit env invoice gateway now w = (res, w')" and ok: "P w"
  obtain r v where s: "schedule_predebit env invoice (Some (clock env now)) (Some gateway) w = (r, v)" by fastforce
  have "w' = w \<or> w' = v"
    using aw s by (auto simp: await_predebit_def Let_def split: option.splits if_splits sum.splits notice_outcome.splits)
  then show ?thesis using predebit [OF s ok] ok by auto
qed

lemma next_keeps:
  assumes step: "charge_next_method env iv earlier skipped now w = (res, w')" and ok: "P w"
  shows "P w'"
proof -
  consider "w' = w" | "w' = ask_for_another_method iv w"
    | r m v where "await_predebit env (inv_name iv) (pm_gateway (m :: payment_method)) now w = (r, v)"
      "w' = v \<or> (\<exists>x. pay_invoice env (inv_name iv) (Some (pm_name m)) (Some (pm_gateway m)) v = (x, w'))"
  proof (cases "in_flight_attempt (inv_name iv) w")
    case (Some a) with step that(1) show thesis by (simp add: charge_next_method_def)
  next
    case free: None
    show thesis
    proof (cases "next_method_for (inv_name iv) (inv_team iv) earlier skipped w")
      case None with step free that(2) show thesis by (simp add: charge_next_method_def)
    next
      case m: (Some m)
      show thesis
      proof (cases "is_before_payment_date env iv (pm_gateway m) now w")
        case (Inl e) with step free m that(1) show thesis by (simp add: charge_next_method_def)
      next
        case before: (Inr b)
        obtain r v where aw: "await_predebit env (inv_name iv) (pm_gateway m) now w = (r, v)" by fastforce
        obtain x u where pay: "pay_invoice env (inv_name iv) (Some (pm_name m)) (Some (pm_gateway m)) v = (x, u)" by fastforce
        have "w' = w \<or> w' = v \<or> w' = u"
          using step free m before aw pay by (auto simp: charge_next_method_def split: if_splits sum.splits)
        then show thesis using that(1) that(3) [OF aw] pay by blast
      qed
    qed
  qed
  then show ?thesis
  proof cases
    case 1 with ok show ?thesis by simp
  next
    case 2 with ok message show ?thesis by (simp add: ask_for_another_method_def)
  next
    case (3 r m v)
    have v: "P v" by (rule await_keeps [OF 3(1) ok])
    from 3(2) show ?thesis using v pay by blast
  qed
qed

lemma loop_keeps: "collect_loop env iv earlier now skipped base w = Some y \<Longrightarrow> P w \<longrightarrow> P base \<longrightarrow> P (snd y)"
proof -
  have "collect_loop e iv earlier now skipped base w = Some y \<Longrightarrow> e = env \<longrightarrow> P w \<longrightarrow> P base \<longrightarrow> P (snd y)" for e
  proof (induction rule: collect_loop.raw_induct [rotated, consumes 1, case_names step])
    case (step loop e iv earlier now skipped base w y)
    obtain r v where step_eq: "charge_next_method e iv earlier skipped now w = (r, v)" by fastforce
    note run = step(2) [unfolded step_eq prod.case]
    show ?case
    proof (intro impI)
      assume e: "e = env" and ok: "P w" "P base"
      note v = next_keeps [OF step_eq [unfolded e] ok(1)]
      have base: "P (committed base w v)" using v ok(2) by (simp add: committed_def)
      show "P (snd y)"
      proof (cases r)
        case (Inl err)
        with run base show ?thesis by auto
      next
        case (Inr s)
        show ?thesis
        proof (cases s)
          case (Stop out) with run Inr v show ?thesis by auto
        next
          case (Rotate sk)
          with run Inr have "loop e iv earlier now sk (committed base w v) v = Some y" by simp
          from step(1) [OF this] e v base show ?thesis by blast
        qed
      qed
    qed
  qed
  then show "collect_loop env iv earlier now skipped base w = Some y \<Longrightarrow> P w \<longrightarrow> P base \<longrightarrow> P (snd y)" by blast
qed

lemma collect_keeps:
  assumes run: "collect_invoice env invoice new_round now w = Some (res, w')" and ok: "P w"
  shows "P w'"
proof (cases "find_invoice w invoice")
  case None with run ok show ?thesis by (simp add: collect_invoice_def)
next
  case (Some iv)
  show ?thesis
  proof (cases "is_internal_team (pw_profiles w) (inv_team iv)")
    case True with run Some ok show ?thesis by (simp add: collect_invoice_def)
  next
    case False
    with run Some have "collect_loop env iv (if new_round then Some (attempts_of invoice w) else None) now [] w w = Some (res, w')"
      by (simp add: collect_invoice_def)
    from loop_keeps [OF this] ok show ?thesis by simp
  qed
qed

end

section \<open>The bills stay as issued\<close>

text \<open>What an invoice says, without the dates a collection may move.\<close>

definition bill :: "invoice \<Rightarrow> invoice" where
  "bill iv = iv\<lparr>inv_dunning_starts_on := None, inv_suspends_on := None, inv_predebit_notified_at := None,
     inv_predebit_charge_after := None\<rparr>"

definition same_bills :: "world \<Rightarrow> world \<Rightarrow> bool" where
  "same_bills w w' \<longleftrightarrow> map bill (pw_invoices w') = map bill (pw_invoices w) \<and> pw_ledger w' = pw_ledger w
     \<and> pw_refunds w' = pw_refunds w"

lemma bill_eq:
  assumes "bill iv' = bill iv"
  shows "inv_name iv' = inv_name iv" "inv_status iv' = inv_status iv" "inv_due_date iv' = inv_due_date iv"
    "inv_credit_applied iv' = inv_credit_applied iv" "inv_advance_applied iv' = inv_advance_applied iv"
    "inv_advance_tax_applied iv' = inv_advance_tax_applied iv" "inv_expected_collection iv' = inv_expected_collection iv"
    "inv_total iv' = inv_total iv" "inv_tax iv' = inv_tax iv" "inv_team iv' = inv_team iv" "inv_currency iv' = inv_currency iv"
    "inv_type iv' = inv_type iv"
proof -
  note [simp] = bill_def
  from arg_cong [OF assms, of inv_name] show "inv_name iv' = inv_name iv" by simp
  from arg_cong [OF assms, of inv_status] show "inv_status iv' = inv_status iv" by simp
  from arg_cong [OF assms, of inv_due_date] show "inv_due_date iv' = inv_due_date iv" by simp
  from arg_cong [OF assms, of inv_credit_applied] show "inv_credit_applied iv' = inv_credit_applied iv" by simp
  from arg_cong [OF assms, of inv_advance_applied] show "inv_advance_applied iv' = inv_advance_applied iv" by simp
  from arg_cong [OF assms, of inv_advance_tax_applied] show "inv_advance_tax_applied iv' = inv_advance_tax_applied iv" by simp
  from arg_cong [OF assms, of inv_expected_collection] show "inv_expected_collection iv' = inv_expected_collection iv" by simp
  from arg_cong [OF assms, of inv_total] show "inv_total iv' = inv_total iv" by simp
  from arg_cong [OF assms, of inv_tax] show "inv_tax iv' = inv_tax iv" by simp
  from arg_cong [OF assms, of inv_team] show "inv_team iv' = inv_team iv" by simp
  from arg_cong [OF assms, of inv_currency] show "inv_currency iv' = inv_currency iv" by simp
  from arg_cong [OF assms, of inv_type] show "inv_type iv' = inv_type iv" by simp
qed

lemma same_bills_find:
  assumes "same_bills w w'"
  shows "map_option bill (find_invoice w' n) = map_option bill (find_invoice w n)"
proof -
  have "map_option bill (find (\<lambda>iv. inv_name iv = n) xs) = find (\<lambda>iv. inv_name iv = n) (map bill xs)" for xs
    by (induction xs) (auto simp: bill_def)
  with assms show ?thesis by (simp add: same_bills_def find_invoice_def)
qed

lemma same_bills_refl [simp]: "same_bills w w"
  by (simp add: same_bills_def)

lemma same_bills_trans: "same_bills w w' \<Longrightarrow> same_bills w' w'' \<Longrightarrow> same_bills w w''"
  by (simp add: same_bills_def)

lemma only_charges_bills:
  assumes "only_charges w w'"
  shows "same_bills w w'"
proof -
  let ?f = "\<lambda>iv::invoice. iv\<lparr>inv_dunning_starts_on := None, inv_suspends_on := None\<rparr>"
  have b: "map bill xs = map bill (map ?f xs)" for xs by (simp add: bill_def)
  from assms have "map ?f (pw_invoices w') = map ?f (pw_invoices w)" by (simp add: only_charges_def)
  then show ?thesis using assms unfolding same_bills_def b [of "pw_invoices w'"] b [of "pw_invoices w"] by (simp add: only_charges_def)
qed

lemma arm_debit_bills: "one_row_each w \<Longrightarrow> find_invoice w (inv_name iv) = Some iv \<Longrightarrow> same_bills w (put_invoice (arm_debit now t iv) w)"
proof -
  assume rows: "one_row_each w" and iv: "find_invoice w (inv_name iv) = Some iv"
  have "bill x = bill (arm_debit now t iv)" if "x \<in> set (pw_invoices w)" "inv_name x = inv_name iv" for x
  proof -
    have "iv \<in> set (pw_invoices w)" using iv by (auto simp: find_invoice_def find_Some_iff in_set_conv_nth)
    then have "x = iv" using rows that by (auto simp: one_row_each_def distinct_map dest: inj_onD)
    then show ?thesis by (simp add: bill_def arm_debit_def)
  qed
  then show ?thesis by (auto simp: same_bills_def put_invoice_def arm_debit_def)
qed

section \<open>A notice\<close>

lemma schedule_predebit_cases [consumes 1, case_names idle armed]:
  assumes run: "schedule_predebit env invoice now gateway w = (res, w')"
  obtains (idle) "same_money w w'"
  | (armed) iv s w1 where "find_invoice w invoice = Some iv" "inv_name iv = invoice" "payment_starts_at iv = Inr s" "same_money w w1"
      "w' = notify (inv_team iv) ''Pre-debit Notice'' invoice
         (put_invoice (arm_debit (clock env now) (max (clock env now + PREDEBIT_NOTICE_HOURS * hour_us) s) iv) w1)"
proof (cases "find_invoice w invoice")
  case None with run idle show thesis by (simp add: schedule_predebit_def)
next
  case (Some iv)
  show thesis
  proof (cases "get_notice_skip_reason env iv gateway w")
    case reason: (Some r) with run Some idle show thesis by (simp add: schedule_predebit_def)
  next
    case go: None
    show thesis
    proof (cases "payment_starts_at iv")
      case (Inl e) with run Some go idle show thesis by (simp add: schedule_predebit_def)
    next
      case (Inr s)
      obtain r w1 where ev: "evaluate env (inv_team iv) (Some (inv_expected_collection iv)) ''invoice_over_threshold'' w = (r, w1)" by fastforce
      have m: "same_money w w1" using evaluate_money [of w env "inv_team iv" "Some (inv_expected_collection iv)" "''invoice_over_threshold''"] ev by simp
      have "w' = w \<or> w' = w1 \<or> w' = notify (inv_team iv) ''Pre-debit Notice'' invoice
          (put_invoice (arm_debit (clock env now) (max (clock env now + PREDEBIT_NOTICE_HOURS * hour_us) s) iv) w1)"
        using run Some go Inr ev unfolding schedule_predebit_def by (cases r) (auto simp: Let_def split: if_splits)
      with idle m armed [OF Some find_invoice_name [OF Some] Inr m] show thesis by auto
    qed
  qed
qed

text \<open>The collection of an invoice leaves every bill, the ledger and the refunds as they were.\<close>

definition bills_kept :: "world \<Rightarrow> world \<Rightarrow> bool" where
  "bills_kept w w' \<longleftrightarrow> one_row_each w' \<and> same_bills w w'"

lemma pay_bills: "pay_invoice env invoice pm gw w = (x, w') \<Longrightarrow> one_row_each w \<Longrightarrow> one_row_each w' \<and> same_bills w w'"
  using pay_invoice_effect only_charges_rows only_charges_bills by blast

lemma schedule_bills:
  assumes run: "schedule_predebit env invoice now gw w = (r, w')" and rows: "one_row_each w"
  shows "one_row_each w' \<and> same_bills w w'"
proof -
  have rows': "one_row_each w'" using schedule_predebit_no_attempt [OF run] collects_rows rows unfolding no_attempt_def by blast
  from run have "same_bills w w'"
  proof (cases rule: schedule_predebit_cases)
    case idle
    then show ?thesis by (simp add: same_bills_def same_money_def)
  next
    case (armed iv s w1)
    have w1: "one_row_each w1" "find_invoice w1 (inv_name iv) = Some iv" "same_bills w w1"
      using armed(1,2,4) rows by (simp_all add: same_money_def one_row_each_def find_invoice_def same_bills_def)
    note arm = arm_debit_bills [OF w1(1,2)]
    have "same_bills v (notify t e n v)" for v t e n by (simp add: same_bills_def)
    with arm w1(3) show ?thesis unfolding armed(5) by (blast intro: same_bills_trans)
  qed
  with rows' show ?thesis by blast
qed

interpretation bills: collection_invariant env "bills_kept v" for env v
proof
  show "bills_kept v w'" if "pay_invoice env invoice pm gw w = (x, w')" "bills_kept v w" for invoice pm gw w x w'
    using pay_bills [OF that(1)] that(2) by (auto simp: bills_kept_def intro: same_bills_trans)
  show "bills_kept v w'" if "schedule_predebit env invoice now gw w = (r, w')" "bills_kept v w" for invoice now gw w r w'
    using schedule_bills [OF that(1)] that(2) by (auto simp: bills_kept_def intro: same_bills_trans)
  show "bills_kept v (notify t e n w)" if "bills_kept v w" for t e n w
    using that by (simp add: bills_kept_def same_bills_def one_row_each_def)
qed

lemma collect_invoice_bills:
  assumes "collect_invoice env invoice new_round now w = Some (res, w')" "one_row_each w"
  shows "one_row_each w'" "same_bills w w'"
  using bills.collect_keeps [OF assms(1), of w] assms(2) by (simp_all add: bills_kept_def)

end
