(* ===== verification/Collection_Properties.thy ===== *)
theory Collection_Properties
  imports Collection_Frames Payment_Example
begin

text \<open>
  The properties of off-session collection: a run ends, it rotates safely, and no debit is made
  before the payment date or the end of its pre-debit notice.
\<close>

section \<open>Rotation\<close>

definition collection_ok :: "pay_env \<Rightarrow> world \<Rightarrow> bool" where
  "collection_ok env w \<longleftrightarrow> good_names env \<and> log_ok env w \<and> one_row_each w \<and> [] \<notin> pm_name ` set (pw_methods w)"

lemma collect_invoice_ends:
  assumes ok: "collection_ok env w"
  shows "\<exists>res w' new. collect_invoice env invoice new_round now w = Some (res, w') \<and> collects env w w'
    \<and> pw_attempts w' = pw_attempts w @ new
    \<and> (new = [] \<or> (\<exists>iv. find_invoice w invoice = Some iv \<and> inv_name iv = invoice
        \<and> rotation iv (untried iv (if new_round then Some (attempts_of invoice w) else None) [] w) new))"
proof (cases "find_invoice w invoice")
  case None then show ?thesis by (auto simp: collect_invoice_def)
next
  case (Some iv)
  let ?earlier = "if new_round then Some (attempts_of invoice w) else None"
  have run: "run_ok env ?earlier w"
    using ok log_okD(2) [of env w] by (auto simp: run_ok_def collection_ok_def attempts_of_def attempts_for_def)
  have "loop_ends env iv ?earlier now w [] w w"
    by (rule collect_loop_ends [OF _ run]) (use ok in \<open>simp_all add: collection_ok_def\<close>)
  then obtain res w' new where r: "collect_loop env iv ?earlier now [] w w = Some (res, w')" "collects env w w'"
    "pw_attempts w' = pw_attempts w @ new" "rotation iv (untried iv ?earlier [] w) new"
    unfolding loop_ends_def by blast
  show ?thesis
  proof (cases "is_internal_team (pw_profiles w) (inv_team iv)")
    case True with Some show ?thesis by (auto simp: collect_invoice_def)
  next
    case False
    then have "collect_invoice env invoice new_round now w = Some (res, w')" using Some r(1) by (simp add: collect_invoice_def)
    with r Some find_invoice_name [OF Some] show ?thesis by blast
  qed
qed

text \<open>
  The rotation ends. From every state of the books the \<open>while True\<close> of
  \<open>collect_invoice\<close> returns or raises after finitely many steps, whatever the gateways answer.
\<close>

theorem collection_ends:
  assumes "collection_ok env w"
  shows "\<exists>res w'. collect_invoice env invoice new_round now w = Some (res, w')"
  using collect_invoice_ends [OF assms] by blast


lemma due_world_collection: "collection_ok (pay_env_with r) due_world"
  using good_example due_world_log due_world_rows by (simp add: collection_ok_def saved_card_def)

theorem collection_ends_witness:
  "\<exists>res w'. collect_invoice (pay_env_with (Inr declined)) ''INV-1'' False None due_world = Some (res, w')"
  by (rule collection_ends [OF due_world_collection])



section \<open>The debit window\<close>

definition window_ok :: "invoice \<Rightarrow> bool" where
  "window_ok iv \<longleftrightarrow> (\<forall>t. inv_predebit_charge_after iv = Some t \<longrightarrow> (\<exists>n d. inv_predebit_notified_at iv = Some n
     \<and> inv_payment_date iv = Some d \<and> n + 24 * hour_us \<le> t \<and> at_midnight d \<le> t))"

definition windows_ok :: "world \<Rightarrow> bool" where
  "windows_ok w \<longleftrightarrow> (\<forall>iv \<in> set (pw_invoices w). window_ok iv)"

lemma windows_found: "windows_ok w \<Longrightarrow> find_invoice w n = Some iv \<Longrightarrow> window_ok iv"
  unfolding windows_ok_def find_invoice_def by (blast dest: find_Some)

lemma windows_cong: "pw_invoices w' = pw_invoices w \<Longrightarrow> windows_ok w' = windows_ok w"
  by (simp add: windows_ok_def)

lemma windows_only_charges:
  assumes "only_charges w w'" "windows_ok w"
  shows "windows_ok w'"
proof -
  let ?f = "\<lambda>iv::invoice. iv\<lparr>inv_dunning_starts_on := None, inv_suspends_on := None\<rparr>"
  have f: "window_ok (?f iv) = window_ok iv" for iv by (simp add: window_ok_def)
  have m: "?f ` set (pw_invoices w') = ?f ` set (pw_invoices w)"
    using assms(1) unfolding only_charges_def by (metis list.set_map)
  have all: "windows_ok v \<longleftrightarrow> (\<forall>x \<in> ?f ` set (pw_invoices v). window_ok x)" for v by (simp add: windows_ok_def f)
  from assms(2) show ?thesis unfolding all m .
qed

lemma arm_window: "payment_starts_at iv = Inr s \<Longrightarrow> window_ok (arm_debit now (max (now + PREDEBIT_NOTICE_HOURS * hour_us) s) iv)"
  by (auto simp: window_ok_def arm_debit_def payment_starts_at_def PREDEBIT_NOTICE_HOURS_def split: option.splits)

lemma schedule_predebit_windows:
  assumes run: "schedule_predebit env invoice now gateway w = (res, w')" and ok: "windows_ok w"
  shows "windows_ok w'"
  using run
proof (cases rule: schedule_predebit_cases)
  case idle with ok show ?thesis by (simp add: windows_ok_def same_money_def)
next
  case (armed iv s w1)
  have "pw_invoices w1 = pw_invoices w" using armed(4) by (simp add: same_money_def)
  then show ?thesis using ok arm_window [OF armed(3)] by (auto simp: armed(5) windows_ok_def put_invoice_def)
qed

text \<open>Before the payment date a step writes no attempt.\<close>

lemma early_step:
  assumes early: "payment_starts_at iv = Inr s" "clock env now < s"
    and iv: "find_invoice w (inv_name iv) = Some iv" "window_ok iv"
    and step: "charge_next_method env iv earlier skipped now w = (res, w')"
  shows "no_attempt env w w'" "res = Inr (Rotate sk) \<Longrightarrow> pw_invoices w' = pw_invoices w
    \<and> (\<exists>m. next_method_for (inv_name iv) (inv_team iv) earlier skipped w = Some m \<and> sk = pm_name m # skipped)"
proof -
  have "no_attempt env w w' \<and> (res = Inr (Rotate sk) \<longrightarrow> pw_invoices w' = pw_invoices w
    \<and> (\<exists>m. next_method_for (inv_name iv) (inv_team iv) earlier skipped w = Some m \<and> sk = pm_name m # skipped))"
  proof (cases "in_flight_attempt (inv_name iv) w")
    case (Some a) with step show ?thesis by (auto simp: charge_next_method_def)
  next
    case free: None
    show ?thesis
    proof (cases "next_method_for (inv_name iv) (inv_team iv) earlier skipped w")
      case None
      have "no_attempt env w (ask_for_another_method iv w)" by (simp add: ask_for_another_method_def notify_no_attempt)
      with step free None show ?thesis by (auto simp: charge_next_method_def)
    next
      case m: (Some m)
      show ?thesis
      proof (cases "is_notice_required env iv (Some (pm_gateway m)) w")
        case False
        with step free m early show ?thesis by (auto simp: charge_next_method_def is_before_payment_date_def)
      next
        case True
        obtain r w1 where aw: "await_predebit env (inv_name iv) (pm_gateway m) now w = (r, w1)" by fastforce
        have closed_window: "\<not> (case inv_predebit_charge_after iv of Some t \<Rightarrow> clock env now \<ge> t | None \<Rightarrow> False)"
          using iv(2) early by (auto simp: window_ok_def payment_starts_at_def split: option.splits)
        obtain r2 w2 where s: "schedule_predebit env (inv_name iv) (Some (clock env now)) (Some (pm_gateway m)) w = (r2, w2)" by fastforce
        have r: "w1 = w2" "\<forall>n. r \<noteq> Inr (Charge_now, n)" "\<forall>n. r = Inr (Rotate_rail, n) \<longrightarrow> (\<exists>x. r2 = Inr (Notice_skipped x))"
          using aw True closed_window iv(1) s by (auto simp: await_predebit_def Let_def split: sum.splits notice_outcome.splits if_splits)
        have na: "no_attempt env w w1" using schedule_predebit_no_attempt [OF s] r(1) by simp
        have skip: "pw_invoices w2 = pw_invoices w" if "r2 = Inr (Notice_skipped x)" for x
          using s that by (auto intro: skipped_notice_invoices)
        have last: "w' = w1 \<and> (\<forall>sk. res = Inr (Rotate sk) \<longrightarrow> sk = pm_name m # skipped \<and> (\<exists>n. r = Inr (Rotate_rail, n)))"
        proof (cases r)
          case (Inl e)
          with step free m early aw True show ?thesis by (auto simp: charge_next_method_def is_before_payment_date_def)
        next
          case (Inr p)
          obtain predebit n where p: "p = (predebit, n)" by (cases p)
          with r(2) Inr have "predebit = Wait \<or> predebit = Rotate_rail" by (cases predebit) auto
          with step free m early aw True Inr p show ?thesis
            by (auto simp: charge_next_method_def is_before_payment_date_def)
        qed
        have "pw_invoices w' = pw_invoices w \<and> sk = pm_name m # skipped" if "res = Inr (Rotate sk)"
        proof -
          from last that obtain n where n: "r = Inr (Rotate_rail, n)" "sk = pm_name m # skipped" by blast
          then obtain x where "r2 = Inr (Notice_skipped x)" using r(3) by blast
          from skip [OF this] last r(1) n show ?thesis by simp
        qed
        with last na m show ?thesis by simp
      qed
    qed
  qed
  then show "no_attempt env w w'" "res = Inr (Rotate sk) \<Longrightarrow> pw_invoices w' = pw_invoices w
    \<and> (\<exists>m. next_method_for (inv_name iv) (inv_team iv) earlier skipped w = Some m \<and> sk = pm_name m # skipped)" by auto
qed


lemma early_loop:
  assumes early: "payment_starts_at iv = Inr s" "clock env now < s" and win: "window_ok iv"
  shows "collect_loop env iv earlier now skipped base w = Some (res, w') \<Longrightarrow> find_invoice w (inv_name iv) = Some iv \<Longrightarrow>
    pw_attempts base = pw_attempts w \<Longrightarrow> pw_attempts w' = pw_attempts w"
proof (induction "card (untried iv earlier skipped w)" arbitrary: skipped base w rule: less_induct)
  case (less skipped w base)
  obtain r v where step: "charge_next_method env iv earlier skipped now w = (r, v)" by fastforce
  note E = early_step [OF early less.prems(2) win step]
  have same: "pw_attempts v = pw_attempts w" "pw_serial v = pw_serial w" using E(1) by (simp_all add: no_attempt_def)
  note run = less.prems(1) [unfolded collect_loop_step [OF step]]
  show ?case
  proof (cases "\<exists>sk. r = Inr (Rotate sk)")
    case False
    with run same less.prems(3) show ?thesis by (auto simp: committed_def split: sum.splits collect_step.splits)
  next
    case True
    then obtain sk where r: "r = Inr (Rotate sk)" by blast
    have iv: "find_invoice v (inv_name iv) = Some iv" using E(2) [OF r] less.prems(2) by (simp add: find_invoice_def)
    have loop: "collect_loop env iv earlier now sk base v = Some (res, w')" using run r by (simp add: committed_def same)
    obtain m where m: "next_method_for (inv_name iv) (inv_team iv) earlier skipped w = Some m" "sk = pm_name m # skipped"
      using E(2) [OF r] by blast
    have "card (untried iv earlier sk v) < card (untried iv earlier skipped w)"
      unfolding untried_no_attempt [OF E(1)] m(2) untried_skip
      by (rule card_Diff1_less) (use next_method_untried [OF m(1)] in simp_all)
    from less.hyps [OF this loop iv] same less.prems(3) show ?thesis by simp
  qed
qed

lemma window_keeps_24h: "window_ok iv \<Longrightarrow> inv_predebit_charge_after iv = Some t \<Longrightarrow>
    \<exists>n d. inv_predebit_notified_at iv = Some n \<and> inv_payment_date iv = Some d \<and> n + 24 * hour_us \<le> t \<and> at_midnight d \<le> t"
  by (simp add: window_ok_def)

text \<open>
  No debit before the payment date. A run of the collection made before the start of an
  invoice's payment date adds no payment attempt, on any rail: a rail without a notice waits, a rail
  with one has a debit window that never opens earlier.
\<close>

theorem no_debit_before_payment_date:
  assumes ok: "windows_ok w" and iv: "find_invoice w invoice = Some iv" and early: "inv_payment_date iv = Some d" "clock env now < at_midnight d"
    and run: "collect_invoice env invoice new_round now w = Some (res, w')"
  shows "pw_attempts w' = pw_attempts w"
proof (cases "is_internal_team (pw_profiles w) (inv_team iv)")
  case True with run iv show ?thesis by (simp add: collect_invoice_def)
next
  case False
  let ?earlier = "if new_round then Some (attempts_of invoice w) else None"
  have loop: "collect_loop env iv ?earlier now [] w w = Some (res, w')" using run iv False by (simp add: collect_invoice_def)
  have s: "payment_starts_at iv = Inr (at_midnight d)" by (simp add: payment_starts_at_def early(1))
  have iv': "find_invoice w (inv_name iv) = Some iv" using iv find_invoice_name [OF iv] by simp
  show ?thesis by (rule early_loop [OF s early(2) windows_found [OF ok iv] loop iv' refl])
qed

theorem no_debit_before_payment_date_witness:
  "\<exists>res w'. collect_invoice (pay_env_with (Inr approved)) ''INV-1'' False (Some 0) due_world = Some (res, w') \<and> pw_attempts w' = []"
proof -
  obtain res w' where run: "collect_invoice (pay_env_with (Inr approved)) ''INV-1'' False (Some 0) due_world = Some (res, w')"
    using collection_ends [OF due_world_collection] by blast
  have ok: "windows_ok due_world" by (simp add: windows_ok_def window_ok_def)
  have "clock (pay_env_with (Inr approved)) (Some 0) < at_midnight 739802" by (simp add: clock_def at_midnight_def)
  from no_debit_before_payment_date [OF ok due_world_reads(1) due_invoice_fields(7) this run] run show ?thesis by auto
qed


section \<open>The pre-debit notice\<close>

text \<open>Steps of the collection, each at its own time and with its own gateways' answers.\<close>

inductive collection_step :: "world \<Rightarrow> world \<Rightarrow> bool" where
  notice: "schedule_predebit env invoice now gateway w = (res, w') \<Longrightarrow> collection_step w w'"
| collect: "collect_invoice env invoice new_round now w = Some (res, w') \<Longrightarrow> collection_step w w'"
| pay: "pay_invoice env invoice pm gw w = (res, w') \<Longrightarrow> collection_step w w'"

definition books_ok :: "world \<Rightarrow> bool" where
  "books_ok w \<longleftrightarrow> windows_ok w \<and> one_row_each w"

lemma pay_books: "pay_invoice env invoice pm gw w = (res, w') \<Longrightarrow> books_ok w \<Longrightarrow> books_ok w'"
  unfolding books_ok_def using pay_invoice_effect windows_only_charges only_charges_rows by blast

lemma schedule_books: "schedule_predebit env invoice now gateway w = (res, w') \<Longrightarrow> books_ok w \<Longrightarrow> books_ok w'"
  using schedule_predebit_windows schedule_predebit_no_attempt collects_rows unfolding books_ok_def no_attempt_def by blast

lemma notify_books: "books_ok w \<Longrightarrow> books_ok (notify t e n w)"
  by (simp add: books_ok_def windows_ok_def one_row_each_def)

interpretation books: collection_invariant env books_ok for env
  by unfold_locales (blast intro: pay_books schedule_books notify_books)+

lemma collection_step_books: "collection_step w w' \<Longrightarrow> books_ok w \<Longrightarrow> books_ok w'"
  by (induction rule: collection_step.induct) (auto intro: schedule_books pay_books books.collect_keeps)

text \<open>The debits a run adds: each on a rail whose notice, where it owes one, has run its time.\<close>

definition noticed :: "pay_env \<Rightarrow> datetime option \<Rightarrow> invoice \<Rightarrow> attempt \<Rightarrow> bool" where
  "noticed env now iv a \<longleftrightarrow> (requires_predebit_notice env (at_gateway a) (inv_currency iv)
     \<longrightarrow> (\<exists>t. inv_predebit_charge_after iv = Some t \<and> t \<le> clock env now))"

abbreviation undated :: "invoice \<Rightarrow> invoice" where
  "undated iv \<equiv> iv\<lparr>inv_dunning_starts_on := None, inv_suspends_on := None\<rparr>"

lemma only_charges_found:
  "only_charges w w' \<Longrightarrow> map_option undated (find_invoice w' n) = map_option undated (find_invoice w n)"
proof -
  assume c: "only_charges w w'"
  have find: "map_option undated (find_invoice v n) = find (\<lambda>iv. inv_name iv = n) (map undated (pw_invoices v))" for v
  proof -
    have "find (\<lambda>iv. inv_name iv = n) (map undated xs) = map_option undated (find (\<lambda>iv. inv_name iv = n) xs)" for xs
      by (induction xs) simp_all
    then show ?thesis by (simp add: find_invoice_def)
  qed
  from c show ?thesis unfolding find by (simp add: only_charges_def)
qed

lemma undated_eq:
  assumes "undated x = undated iv"
  shows "inv_predebit_charge_after x = inv_predebit_charge_after iv" "inv_currency x = inv_currency iv"
proof -
  have "inv_predebit_charge_after (undated x) = inv_predebit_charge_after (undated iv)"
    "inv_currency (undated x) = inv_currency (undated iv)" by (simp_all only: assms)
  then show "inv_predebit_charge_after x = inv_predebit_charge_after iv" "inv_currency x = inv_currency iv" by simp_all
qed

text \<open>A method is charged only after \<open>await_predebit\<close> let it.\<close>

lemma charge_noticed:
  assumes ready: "await_predebit env (inv_name iv) (pm_gateway m) now w = (Inr (Charge_now, n), w)"
    and iv: "map_option undated (find_invoice w (inv_name iv)) = Some (undated iv)" "inv_currency iv \<noteq> []"
    and gw: "at_gateway a = pm_gateway m" "pm_gateway m \<noteq> []"
  shows "noticed env now iv a"
proof -
  obtain x where x: "find_invoice w (inv_name iv) = Some x" "undated x = undated iv" using iv(1) by auto
  note fields = undated_eq [OF x(2)]
  obtain r v where s: "schedule_predebit env (inv_name iv) (Some (clock env now)) (Some (pm_gateway m)) w = (r, v)" by fastforce
  have "\<not> is_notice_required env x (Some (pm_gateway m)) w
      \<or> (\<exists>t. inv_predebit_charge_after x = Some t \<and> t \<le> clock env now)"
    using ready x(1) s by (auto simp: await_predebit_def Let_def split: if_splits option.splits sum.splits notice_outcome.splits)
  with fields iv(2) gw show ?thesis by (auto simp: noticed_def is_notice_required_def)
qed

text \<open>A charge that failed for good: the rotation goes on with fewer methods left.\<close>

lemma charged_rotates:
  assumes names: "good_names env" and ok: "run_ok env earlier w"
    and m: "next_method_for (inv_name iv) (inv_team iv) earlier skipped w = Some m"
    and pay: "pay_invoice env (inv_name iv) (Some (pm_name m)) (Some (pm_gateway m)) w = (Inr y, v)"
    and failed: "py_status y = Some ''Failed''"
  shows "card (untried iv earlier skipped v) < card (untried iv earlier skipped w)" "run_ok env earlier v"
    "pw_serial v = Suc (pw_serial w)"
proof -
  have log: "log_ok env w" "one_row_each w" using ok by (simp_all add: run_ok_def)
  note un_m = next_method_untried [OF m]
  then have "pm_name m \<noteq> []" using ok unfolding run_ok_def ordered_methods_def by (auto simp: image_iff)
  from pay_invoice_adds [OF names log(1) this pay]
  have adds: "adds_attempt env (inv_name iv) (pm_name m) w (Inr y) v" and mr: "methods_retire w v" by blast+
  from adds failed obtain b where b: "pw_attempts v = pw_attempts w @ [b]" "pw_serial v = Suc (pw_serial w)"
    "at_name b = pe_hash env (pw_serial w)" "at_invoice b = inv_name iv" "at_method b = Some (pm_name m)" "at_status b = ''Failed''"
    unfolding adds_attempt_def by blast
  have fresh: "\<forall>names. earlier = Some names \<longrightarrow> at_name b \<notin> set names" using ok b(3) unfolding run_ok_def by auto
  note un = untried_charged [OF b(1,4,6,5) fresh mr, of skipped]
  have "card (untried iv earlier skipped v) \<le> card (untried iv earlier skipped w - {pm_name m})"
    by (rule card_mono) (use un in simp_all)
  also have "\<dots> < card (untried iv earlier skipped w)" by (rule card_Diff1_less) (use un_m in simp_all)
  finally show "card (untried iv earlier skipped v) < card (untried iv earlier skipped w)" .
  have "collects env w v" using pay_invoice_effect [OF log(2) pay] by (blast intro: only_charges_collects)
  then show "run_ok env earlier v" by (rule run_ok_step [OF ok names _ mr]) (simp add: b(2))
  show "pw_serial v = Suc (pw_serial w)" by (rule b(2))
qed

lemma loop_noticed:
  assumes names: "good_names env" and cur: "inv_currency iv \<noteq> []"
  shows "run_ok env earlier w \<Longrightarrow> [] \<notin> pm_gateway ` set (pw_methods w) \<Longrightarrow> pw_attempts base = pw_attempts w \<Longrightarrow>
    map_option undated (find_invoice w (inv_name iv)) = Some (undated iv) \<Longrightarrow>
    collect_loop env iv earlier now skipped base w = Some (res, w') \<Longrightarrow>
    a \<in> set (pw_attempts w') - set (pw_attempts w) \<Longrightarrow> noticed env now iv a"
proof (induction "card (untried iv earlier skipped w)" arbitrary: skipped base w rule: less_induct)
  case (less skipped w base)
  obtain r v where step: "charge_next_method env iv earlier skipped now w = (r, v)" by fastforce
  note run = less.prems(5) [unfolded collect_loop_step [OF step]]
  from step show ?case
  proof (cases rule: charge_next_cases)
    case stopped
    then have "pw_attempts v = pw_attempts w" by (simp add: no_attempt_def)
    then have "pw_attempts w' = pw_attempts w"
      using run stopped(2) less.prems(3) by (auto simp: committed_def split: sum.splits collect_step.splits if_splits)
    with less.prems(6) show ?thesis by simp
  next
    case (skipped m)
    have same: "pw_attempts v = pw_attempts w" "pw_methods v = pw_methods w" "pw_serial v = pw_serial w" "collects env w v"
      using skipped(3) by (simp_all add: no_attempt_def)
    have "card (untried iv earlier (pm_name m # skipped) v) < card (untried iv earlier skipped w)"
      unfolding untried_no_attempt [OF skipped(3)] untried_skip
      by (rule card_Diff1_less) (use next_method_untried [OF skipped(1)] in simp_all)
    moreover have "run_ok env earlier v"
      by (rule run_ok_step [OF less.prems(1) names same(4)]) (simp_all add: same methods_retire_eqI)
    moreover have "collect_loop env iv earlier now (pm_name m # skipped) base v = Some (res, w')"
      using run skipped(2) by (simp add: committed_def same)
    ultimately show ?thesis
      using less.hyps less.prems(2,3,4,6) same skipped(4) by (simp add: find_invoice_def)
  next
    case (charged m x n)
    have ok: "log_ok env w" "one_row_each w" using less.prems(1) by (simp_all add: run_ok_def)
    have mem: "m \<in> set (pw_methods w)" using next_method_untried [OF charged(1)] by (simp add: ordered_methods_def)
    then have m: "pm_name m \<noteq> []" "pm_gateway m \<noteq> []" using less.prems(1,2) unfolding run_ok_def by (metis image_eqI)+
    from pay_invoice_adds [OF names ok(1) m(1) charged(2)] m(2)
    have adds: "adds_attempt env (inv_name iv) (pm_name m) w x v" and mr: "methods_retire w v"
      and gw: "\<forall>a \<in> set (pw_attempts v) - set (pw_attempts w). at_gateway a = pm_gateway m" by auto
    have only: "only_charges w v" using pay_invoice_effect [OF ok(2) charged(2)] by blast
    have first: "noticed env now iv a" if "a \<in> set (pw_attempts v) - set (pw_attempts w)"
      using charge_noticed [OF charged(4) less.prems(4) cur _ m(2)] gw that by blast
    show ?thesis
    proof (cases "a \<in> set (pw_attempts v)")
      case True
      with first less.prems(6) show ?thesis by blast
    next
      case False
      have "\<exists>sk. r = Inr (Rotate sk)"
      proof (rule ccontr)
        assume "\<nexists>sk. r = Inr (Rotate sk)"
        then have "w' = v \<or> w' = base"
          using run by (auto simp: committed_def split: sum.splits collect_step.splits if_splits)
        with False less.prems(3,6) show False by auto
      qed
      with charged(3) obtain y where r: "r = Inr (Rotate skipped)" and y: "x = Inr y" "py_status y = Some ''Failed''" by blast
      note next_step = charged_rotates [OF names less.prems(1) charged(1) charged(2) [unfolded y(1)] y(2)]
      show ?thesis
      proof (rule less.hyps [OF next_step(1), of v])
        show "run_ok env earlier v" by (rule next_step(2))
        show "[] \<notin> pm_gateway ` set (pw_methods v)" using mr less.prems(2) unfolding methods_retire_def by blast
        show "map_option undated (find_invoice v (inv_name iv)) = Some (undated iv)"
          using only_charges_found [OF only] less.prems(4) by simp
        show "collect_loop env iv earlier now skipped v v = Some (res, w')"
          using run next_step(3) by (simp add: r committed_def)
        show "a \<in> set (pw_attempts w') - set (pw_attempts v)" using False less.prems(6) by blast
      qed simp
    qed
  qed
qed

text \<open>
  Property C29: a debit waits for its notice. After any sequence of notices, charges and runs of the
  collection, at whatever times, from books where no debit window is open yet: an attempt that a run of
  the collection adds on a gateway that owes a pre-debit notice in the invoice's currency is made at
  least 24 hours after the notice was sent, and not before the payment date has begun. (A charge the
  customer asks for, \<open>pay_invoice\<close> of the dashboard, is not a run and waits for none.)
\<close>

theorem debit_waits_for_notice:
  assumes start: "one_row_each w0" "\<forall>iv \<in> set (pw_invoices w0). inv_predebit_charge_after iv = None"
    and steps: "collection_step\<^sup>*\<^sup>* w0 w"
    and ok: "collection_ok env w" "[] \<notin> pm_gateway ` set (pw_methods w)"
    and iv: "find_invoice w invoice = Some iv" "inv_currency iv \<noteq> []"
    and run: "collect_invoice env invoice new_round now w = Some (res, w')"
    and debit: "a \<in> set (pw_attempts w') - set (pw_attempts w)" "requires_predebit_notice env (at_gateway a) (inv_currency iv)"
  shows "\<exists>n d. inv_predebit_notified_at iv = Some n \<and> n + 24 * hour_us \<le> clock env now
    \<and> inv_payment_date iv = Some d \<and> at_midnight d \<le> clock env now"
proof -
  have "books_ok w0" using start by (simp add: books_ok_def windows_ok_def window_ok_def)
  with steps have "books_ok w" by (induction rule: rtranclp_induct) (auto intro: collection_step_books)
  then have win: "window_ok iv" using windows_found [OF _ iv(1)] by (simp add: books_ok_def)
  let ?earlier = "if new_round then Some (attempts_of invoice w) else None"
  have run_ok: "run_ok env ?earlier w"
    using ok(1) log_okD(2) [of env w] by (auto simp: run_ok_def collection_ok_def attempts_of_def attempts_for_def)
  have "collect_loop env iv ?earlier now [] w w = Some (res, w')"
    using run iv(1) debit(1) by (auto simp: collect_invoice_def split: if_splits)
  from loop_noticed [OF _ iv(2) run_ok ok(2) refl _ this debit(1)] ok(1) iv(1) find_invoice_name [OF iv(1)]
  have "noticed env now iv a" by (simp add: collection_ok_def)
  with debit(2) obtain t where "inv_predebit_charge_after iv = Some t" "t \<le> clock env now" by (auto simp: noticed_def)
  with window_keeps_24h [OF win] show ?thesis by force
qed

definition notice_env :: pay_env where
  "notice_env = (pay_env_with (Inr approved))\<lparr>pe_rows := [\<lparr>gc_gateway = ''Stripe'', gc_currency = ''INR'', gc_is_default = True,
     gc_max_silent_charge = 0, gc_predebit_notice = True\<rparr>]\<rparr>"

lemma example_notice_required:
  "inv_currency iv = ''INR'' \<Longrightarrow> is_notice_required notice_env iv (Some ''Stripe'') w"
  by (simp add: is_notice_required_def notice_env_def requires_predebit_notice_def currency_row_def)

lemma example_notice:
  defines "w \<equiv> due_world\<lparr>pw_invoices := [arm_debit (at_midnight 739801) (at_midnight 739802) due_invoice],
     pw_notices := [\<lparr>nt_team = ''t1'', nt_event = ''Pre-debit Notice'', nt_reference = ''INV-1''\<rparr>]\<rparr>"
  shows "schedule_predebit notice_env ''INV-1'' (Some (at_midnight 739801)) (Some ''Stripe'') due_world
    = (Inr (Notified (at_midnight 739802)), w)"
proof -
  let ?now = "at_midnight 739801"
  have skip: "get_notice_skip_reason notice_env due_invoice (Some ''Stripe'') due_world = None"
    by (simp add: get_notice_skip_reason_def example_notice_required is_debit_allowed_def collection_mode_def
        example_profiles_def DEBIT_HELD_MODES_def) (simp add: due_invoice_def june_invoice_def)
  have thr: "silent_threshold notice_env ''t1'' due_world = Some 15000"
    by (simp add: silent_threshold_def gateway_ceiling_def team_rail_def example_profiles_def ordered_methods_def saved_card_def
        silent_charge_ceiling_def regulatory_ceiling_def is_regulated_currency_def INR_SILENT_CEILING_def
        currency_row_def notice_env_def pay_env_with_def)
  have ev: "\<exists>st. evaluate notice_env ''t1'' (Some 1180) ''invoice_over_threshold'' due_world = (Inr st, due_world) \<and> \<not> cs_action_required st"
    by (simp add: evaluate_def thr collection_status_of_def collection_mode_def example_profiles_def)
  have start: "payment_starts_at due_invoice = Inr (at_midnight 739802)" by (simp add: payment_starts_at_def)
  have t: "at_midnight 739801 + PREDEBIT_NOTICE_HOURS * hour_us = at_midnight 739802"
    "at_midnight 739802 - PREDEBIT_NOTICE_HOURS * hour_us = at_midnight 739801"
    by (simp_all add: PREDEBIT_NOTICE_HOURS_def at_midnight_def)
  have none: "pw_notices due_world = []" by (simp add: due_world_def)
  show ?thesis
    using ev unfolding w_def
    by (auto simp: schedule_predebit_def skip start Let_def t none notify_def put_invoice_def clock_def arm_debit_def)
qed

text \<open>The notice of June 30th opens the window on July 1st; a run of July 2nd debits the card.\<close>

definition noticed_invoice :: invoice where
  "noticed_invoice = arm_debit (at_midnight 739801) (at_midnight 739802) due_invoice"

definition noticed_world :: world where
  "noticed_world = due_world\<lparr>pw_invoices := [noticed_invoice],
     pw_notices := [\<lparr>nt_team = ''t1'', nt_event = ''Pre-debit Notice'', nt_reference = ''INV-1''\<rparr>]\<rparr>"

lemma example_debit:
  "\<exists>res w'. collect_invoice notice_env ''INV-1'' False (Some (at_midnight 739803)) noticed_world = Some (res, w')
    \<and> map at_gateway (pw_attempts w') = [''Stripe'']"
proof -
  let ?now = "Some (at_midnight 739803)"
  obtain res w' where step: "charge_next_method notice_env noticed_invoice None [] ?now noticed_world = (res, w')" by fastforce
  have "(case fst (charge_next_method notice_env noticed_invoice None [] ?now noticed_world) of Inr (Stop _) \<Rightarrow> True | _ \<Rightarrow> False)
      \<and> map at_gateway (pw_attempts (snd (charge_next_method notice_env noticed_invoice None [] ?now noticed_world))) = [''Stripe'']"
    by code_simp
  then obtain outcome where out: "res = Inr (Stop outcome)" "map at_gateway (pw_attempts w') = [''Stripe'']"
    unfolding step by (auto split: sum.splits collect_step.splits)
  have "find_invoice noticed_world ''INV-1'' = Some noticed_invoice" "\<not> is_internal_team (pw_profiles noticed_world) (inv_team noticed_invoice)"
    by code_simp+
  then have "collect_invoice notice_env ''INV-1'' False ?now noticed_world = Some (Inr outcome, w')"
    using collect_loop_step [OF step] by (simp add: collect_invoice_def out(1))
  with out(2) show ?thesis by (intro exI conjI)
qed

theorem debit_waits_for_notice_witness:
  "\<exists>res w' n. collect_invoice notice_env ''INV-1'' False (Some (at_midnight 739803)) noticed_world = Some (res, w')
    \<and> map at_gateway (pw_attempts w') = [''Stripe'']
    \<and> inv_predebit_notified_at noticed_invoice = Some n \<and> n + 24 * hour_us \<le> at_midnight 739803"
proof -
  let ?now = "Some (at_midnight 739803)"
  have "collection_step due_world noticed_world"
    unfolding noticed_world_def noticed_invoice_def by (rule collection_step.notice [OF example_notice])
  then have steps: "collection_step\<^sup>*\<^sup>* due_world noticed_world" by (rule r_into_rtranclp)
  have fields: "pw_attempts noticed_world = []" "pw_methods noticed_world = [saved_card ''backup'' 2, saved_card ''main'' 1]"
    "inv_currency noticed_invoice = ''INR''" "find_invoice noticed_world ''INV-1'' = Some noticed_invoice"
    by (simp_all add: noticed_world_def noticed_invoice_def arm_debit_def find_invoice_def)
  have "good_names notice_env" using good_example by (simp add: notice_env_def good_names_def)
  moreover have "log_ok notice_env noticed_world" by (rule log_okI) (simp_all add: fields(1) attempts_for_def noticed_world_def)
  moreover have "one_row_each noticed_world" by (simp add: one_row_each_def noticed_world_def)
  ultimately have ok: "collection_ok notice_env noticed_world" "[] \<notin> pm_gateway ` set (pw_methods noticed_world)"
    by (simp_all add: collection_ok_def fields(2) saved_card_def)
  obtain res w' where run: "collect_invoice notice_env ''INV-1'' False ?now noticed_world = Some (res, w')"
    "map at_gateway (pw_attempts w') = [''Stripe'']" using example_debit by (elim exE conjE)
  then obtain a where a: "a \<in> set (pw_attempts w') - set (pw_attempts noticed_world)" "at_gateway a = ''Stripe''"
    by (auto simp: fields(1))
  have "requires_predebit_notice notice_env (at_gateway a) (inv_currency noticed_invoice)"
    by (simp add: a(2) fields(3) notice_env_def requires_predebit_notice_def currency_row_def)
  from debit_waits_for_notice [OF due_world_rows _ steps ok fields(4) _ run(1) a(1) this] run fields(3)
  show ?thesis by (auto simp: clock_def)
qed

end
