(* ===== verification/Webhooks.thy ===== *)
theory Webhooks
  imports Settlement Collection
begin

text \<open>
  Signed gateway events (\<open>payments/webhooks.py\<close>) and how a charge event moves its attempt, its invoice
  or its top-up (\<open>payments/charges.py\<close>: \<open>apply_webhook\<close>). The events of disputes, refunds, mandates
  and payment methods go to handlers that are arguments here. Verifying the signature and parsing the
  body are the adapter's; an event arrives as the record its adapter made of it. A gateway id names one
  row, so a lookup by id takes the first.
\<close>

section \<open>Kinds of events\<close>

definition AUTHORISED_EVENTS :: "string list" where
  "AUTHORISED_EVENTS = [''payment_intent.amount_capturable_updated'', ''payment.authorized'', ''charge.authorized'',
     ''PAYMENT.CAPTURE.PENDING'']"

definition SUCCESS_EVENTS :: "string list" where
  "SUCCESS_EVENTS = [''payment_intent.succeeded'', ''charge.succeeded'', ''payment.captured'', ''PAYMENT.CAPTURE.COMPLETED'']"

definition FAILURE_EVENTS :: "string list" where
  "FAILURE_EVENTS = [''payment_intent.payment_failed'', ''payment_intent.canceled'', ''charge.failed'', ''payment.failed'',
     ''PAYMENT.CAPTURE.DENIED'']"

definition REFUND_EVENTS :: "string list" where
  "REFUND_EVENTS = [''charge.refund.updated'', ''refund.failed'', ''refund.processed'', ''PAYMENT.CAPTURE.REFUNDED'']"

definition DISPUTE_EVENTS :: "string list" where
  "DISPUTE_EVENTS = [''charge.dispute.created'', ''charge.dispute.closed'', ''payment.dispute.created'', ''payment.dispute.won'',
     ''payment.dispute.lost'', ''payment.dispute.closed'', ''CUSTOMER.DISPUTE.CREATED'', ''CUSTOMER.DISPUTE.RESOLVED'']"

definition is_dispute :: "string \<Rightarrow> bool" where
  "is_dispute event_type \<longleftrightarrow> event_type \<in> set DISPUTE_EVENTS"

datatype webhook_result =
    Authorised_noted
  | Charge_failed "collect_outcome option"
  | Charge_settled bool
  | Duplicate
  | Topup_declined
  | Topup_credited "nat option"
  | Setup_declined string
  | Other_handled
  | Unhandled string

section \<open>Applying a charge event\<close>

definition find_webhook :: "world \<Rightarrow> string \<Rightarrow> webhook_event option" where
  "find_webhook w n = find (\<lambda>e. we_name e = n) (pw_webhooks w)"

definition mark_event :: "pay_env \<Rightarrow> webhook_event \<Rightarrow> string \<Rightarrow> world \<Rightarrow> error + world" where
  "mark_event env e status w =
     bindE (webhook_transition (pe_ambient env) e status (pw_events w))
       (\<lambda>(e', evs). Inr (put_webhook (e'\<lparr>we_processed_at := Some (pe_now env)\<rparr>) (w\<lparr>pw_events := evs\<rparr>)))"

definition marked :: "pay_env \<Rightarrow> webhook_event \<Rightarrow> string \<Rightarrow> webhook_result \<Rightarrow> world \<Rightarrow> error + webhook_result \<times> world" where
  "marked env e status r w = bindE (mark_event env e status w) (\<lambda>w'. Inr (r, w'))"

text \<open>An operation that commits nothing on its own: its exception leaves the world it started with.\<close>

definition atomic :: "(world \<Rightarrow> error + 'a \<times> world) \<Rightarrow> world \<Rightarrow> (error + 'a) \<times> world" where
  "atomic f w = (case f w of Inl e \<Rightarrow> (Inl e, w) | Inr (x, w') \<Rightarrow> (Inr x, w'))"

definition attempt_for_payment :: "verified_payment \<Rightarrow> string \<Rightarrow> world \<Rightarrow> string option" where
  "attempt_for_payment p gateway w =
     (let by = (\<lambda>P. map_option at_name (find (\<lambda>a. P a \<and> at_gateway a = gateway) (pw_attempts w)))
      in case by (\<lambda>a. at_txn a = Some (vp_id p)) of Some n \<Rightarrow> Some n
       | None \<Rightarrow> (case (if truthy (vp_order p) then by (\<lambda>a. at_order a = vp_order p) else None) of Some n \<Rightarrow> Some n
       | None \<Rightarrow> if truthy (vp_receipt p) then by (\<lambda>a. Some (at_name a) = vp_receipt p) else None))"

definition fail_attempt :: "pay_env \<Rightarrow> attempt \<Rightarrow> failure \<Rightarrow> world \<Rightarrow> error + world" where
  "fail_attempt env a decline w =
     (let a1 = stamp_failure decline a in
      bindE (attempt_transition (pe_ambient env) a1 ''Failed'' (fl_reason (at_failure a1)) (Some ''webhook'') (pw_events w))
        (\<lambda>(a2, evs). Inr (notify (at_team a) ''Payment Failure'' (at_invoice a)
           (put_attempt (a2\<lparr>at_completed_at := Some (pe_now env)\<rparr>) (w\<lparr>pw_events := evs\<rparr>)))))"

definition apply_attempt_failure ::
  "pay_env \<Rightarrow> webhook_event \<Rightarrow> attempt \<Rightarrow> failure \<Rightarrow> world \<Rightarrow> ((error + webhook_result) \<times> world) option" where
  "apply_attempt_failure env e a decline w =
     (let inv_status = map_option inv_status (find_invoice w (at_invoice a)) in
      if inv_status \<noteq> Some ''Paid'' \<and> at_status a \<notin> {''Failed'', ''Refunded''}
      then (case fail_attempt env a decline w of Inl err \<Rightarrow> Some (Inl err, w)
        | Inr w1 \<Rightarrow>
            if inv_status \<in> Some ` set UNSETTLED
            then (case collect_invoice env (at_invoice a) False None w1 of
                None \<Rightarrow> None
              | Some (Inl err, w2) \<Rightarrow> Some (Inl err, committed w w1 w2)
              | Some (Inr outcome, w2) \<Rightarrow>
                  (case marked env e ''Processed'' (Charge_failed (Some outcome)) w2 of
                     Inl err \<Rightarrow> Some (Inl err, committed w w1 w2) | Inr (r, w3) \<Rightarrow> Some (Inr r, w3)))
            else (case marked env e ''Processed'' (Charge_failed None) w1 of
                     Inl err \<Rightarrow> Some (Inl err, w) | Inr (r, w3) \<Rightarrow> Some (Inr r, w3)))
      else Some (atomic (marked env e ''Processed'' (Charge_failed None)) w))"

definition apply_authorised :: "pay_env \<Rightarrow> webhook_event \<Rightarrow> attempt \<Rightarrow> world \<Rightarrow> error + webhook_result \<times> world" where
  "apply_authorised env e a w =
     bindE (if at_status a = ''Initiated''
            then bindE (attempt_transition (pe_ambient env) a ''Authorised'' None (Some ''webhook'') (pw_events w))
                   (\<lambda>(a', evs). Inr (put_attempt a' (w\<lparr>pw_events := evs\<rparr>)))
            else Inr w)
       (marked env e ''Processed'' Authorised_noted)"

definition apply_capture ::
  "pay_env \<Rightarrow> webhook_event \<Rightarrow> attempt \<Rightarrow> verified_payment \<Rightarrow> world \<Rightarrow> error + webhook_result \<times> world" where
  "apply_capture env e a p w =
     (if at_status a \<in> {''Captured'', ''Refunded''} \<and> at_completed_at a \<noteq> None
      then marked env e ''Processed'' Duplicate w
      else bindE (capture_and_settle env (a\<lparr>at_txn := Some (vp_id p)\<rparr>) ''webhook'' (Some ''Webhook'') (Some p) w)
             (\<lambda>(settled, w'). marked env e ''Processed'' (Charge_settled settled) w'))"

definition apply_attempt_event ::
  "pay_env \<Rightarrow> webhook_event \<Rightarrow> string \<Rightarrow> verified_payment \<Rightarrow> bool \<Rightarrow> failure option \<Rightarrow> world
     \<Rightarrow> ((error + webhook_result) \<times> world) option" where
  "apply_attempt_event env e name p is_authorised decline w =
     (case find_attempt w name of None \<Rightarrow> Some (Inl DoesNotExist, w) | Some a \<Rightarrow>
      let e = e\<lparr>we_attempt := Some name\<rparr> in
      if is_authorised then Some (atomic (apply_authorised env e a) w)
      else case decline of
        Some d \<Rightarrow> apply_attempt_failure env e a d w
      | None \<Rightarrow> Some (atomic (apply_capture env e a p) w))"

definition apply_topup_event ::
  "pay_env \<Rightarrow> webhook_event \<Rightarrow> top_up \<Rightarrow> verified_payment \<Rightarrow> bool \<Rightarrow> failure option \<Rightarrow> world
     \<Rightarrow> error + webhook_result \<times> world" where
  "apply_topup_event env e t p is_success decline w =
     (case decline of
        Some d \<Rightarrow> marked env e ''Processed'' Topup_declined (record_decline env t d (we_event_id e) w)
      | None \<Rightarrow>
          if \<not> is_success then marked env e ''Ignored'' (Unhandled ''topup_not_captured'') w
          else bindE (credit_wallet env t p w) (\<lambda>(entry, w'). marked env e ''Processed'' (Topup_credited entry) w'))"

text \<open>\<open>payments.note_setup_payment_failure\<close>: the setup whose authorisation payment was declined.\<close>

definition note_setup_payment_failure ::
  "pay_env \<Rightarrow> string \<Rightarrow> string option \<Rightarrow> failure \<Rightarrow> world \<Rightarrow> string option \<times> world" where
  "note_setup_payment_failure env gateway order_id decline w =
     (case (if \<not> truthy order_id then None
            else find (\<lambda>m. pm_gateway m = gateway \<and> pm_setup_reference m = order_id \<and> pm_status m = ''Pending Validation'') (pw_methods w)) of
        None \<Rightarrow> (None, w)
      | Some m \<Rightarrow>
          let m' = m\<lparr>pm_failure := failure_fields decline\<rparr>;
              evs = record_event (pe_ambient env) (sdoc_of ''Payment Method'' (pm_name m) (pm_team m) (pm_status m) None)
                      ''Payment Method Setup Failed'' None None (fl_code (pm_failure m')) None None None (Some ''Failed'') (pw_events w)
          in (Some (pm_name m), put_method m' (w\<lparr>pw_events := evs\<rparr>)))"

definition apply_unmatched_event ::
  "pay_env \<Rightarrow> webhook_event \<Rightarrow> verified_payment \<Rightarrow> failure option \<Rightarrow> world \<Rightarrow> error + webhook_result \<times> world" where
  "apply_unmatched_event env e p decline w =
     (case (case decline of None \<Rightarrow> (None, w)
            | Some d \<Rightarrow> note_setup_payment_failure env (we_gateway e) (vp_order p) d w) of
        (Some m, w') \<Rightarrow> marked env (e\<lparr>we_method := Some m\<rparr>) ''Processed'' (Setup_declined m) w'
      | (None, w') \<Rightarrow> marked env e ''Ignored'' (Unhandled ''no_matching_attempt'') w')"

text \<open>The handlers of the events this model leaves out; a handler answers with the world it leaves.\<close>

record handlers =
  hd_dispute :: "webhook_event \<Rightarrow> world \<Rightarrow> error + (webhook_event \<times> bool) \<times> world"
  hd_refund :: "string \<Rightarrow> world \<Rightarrow> error + webhook_result \<times> world"
  hd_mandate :: "string \<Rightarrow> world \<Rightarrow> error + webhook_result \<times> world"
  hd_method :: "string \<Rightarrow> world \<Rightarrow> error + webhook_result \<times> world"

definition no_failure :: failure where
  "no_failure = \<lparr>fl_code = None, fl_decline = None, fl_reason = None\<rparr>"

definition apply_webhook :: "pay_env \<Rightarrow> handlers \<Rightarrow> string \<Rightarrow> world \<Rightarrow> ((error + webhook_result) \<times> world) option" where
  "apply_webhook env hs name w =
     (case find_webhook w name of None \<Rightarrow> Some (Inl DoesNotExist, w) | Some e \<Rightarrow>
      if is_dispute (we_type e)
      then Some (atomic (\<lambda>w. bindE (hd_dispute hs e w) (\<lambda>((e', handled), w').
             marked env e' (if handled then ''Processed'' else ''Ignored'') (if handled then Other_handled else Unhandled ''dispute'') w')) w)
      else
        let is_authorised = we_type e \<in> set AUTHORISED_EVENTS;
            is_success = we_type e \<in> set SUCCESS_EVENTS;
            is_failure = we_type e \<in> set FAILURE_EVENTS
        in case we_payment e of
          None \<Rightarrow> Some (atomic (marked env e ''Ignored'' (Unhandled ''not_a_charge_event'')) w)
        | Some p \<Rightarrow>
            if \<not> (is_authorised \<or> is_success \<or> is_failure)
            then Some (atomic (marked env e ''Ignored'' (Unhandled ''not_a_charge_event'')) w)
            else let decline = (if is_failure then Some (case we_decline e of Some d \<Rightarrow> d | None \<Rightarrow> no_failure) else None) in
              (case top_up_for_payment p (we_gateway e) w of
                 Some t \<Rightarrow> Some (atomic (apply_topup_event env e t p is_success decline) w)
               | None \<Rightarrow> (case attempt_for_payment p (we_gateway e) w of
                   None \<Rightarrow> Some (atomic (apply_unmatched_event env e p decline) w)
                 | Some n \<Rightarrow> apply_attempt_event env e n p is_authorised decline w)))"

section \<open>Storing and handling an event\<close>

text \<open>The unique event id refuses a second row, also for the request that lost the race.\<close>

definition store_event :: "pay_env \<Rightarrow> webhook_event \<Rightarrow> world \<Rightarrow> string option \<times> world" where
  "store_event env e w =
     (if list_ex (\<lambda>x. we_event_id x = we_event_id e) (pw_webhooks w) then (None, w)
      else let name = pe_hash env (pw_serial w) in
        (Some name, w\<lparr>pw_webhooks := pw_webhooks w @
           [e\<lparr>we_name := name, we_status := ''Received'', we_attempt := None, we_method := None, we_processed_at := None,
              we_retry_count := 0, we_creation := pe_now env\<rparr>], pw_serial := Suc (pw_serial w)\<rparr>))"

definition starts_with :: "string \<Rightarrow> string \<Rightarrow> bool" where
  "starts_with p s \<longleftrightarrow> take (length p) s = p"

definition dispatch :: "pay_env \<Rightarrow> handlers \<Rightarrow> string \<Rightarrow> world \<Rightarrow> ((error + webhook_result) \<times> world) option" where
  "dispatch env hs name w =
     (let event_type = (case find_webhook w name of Some e \<Rightarrow> we_type e | None \<Rightarrow> '''') in
      if event_type \<in> set REFUND_EVENTS then Some (atomic (hd_refund hs name) w)
      else if starts_with ''mandate.'' event_type then Some (atomic (hd_mandate hs name) w)
      else if starts_with ''payment_method.'' event_type \<or> starts_with ''setup_intent.'' event_type
      then Some (atomic (hd_method hs name) w)
      else apply_webhook env hs name w)"

definition mark_failed :: "pay_env \<Rightarrow> string \<Rightarrow> world \<Rightarrow> error + world" where
  "mark_failed env name w =
     (case find_webhook w name of None \<Rightarrow> Inl DoesNotExist | Some e \<Rightarrow>
      bindE (if we_status e = ''Received'' then webhook_transition (pe_ambient env) e ''Failed'' (pw_events w) else Inr (e, pw_events w))
        (\<lambda>(e', evs). Inr (put_webhook (e'\<lparr>we_retry_count := we_retry_count e' + 1\<rparr>) (w\<lparr>pw_events := evs\<rparr>))))"

text \<open>
  \<open>handle_webhook_event\<close>, run as its own job: the value is the result, or None when the event was
  applied before or has just failed. The savepoint the failure path rolls back to is gone when the
  handler committed part of its work; the rollback itself then raises.
\<close>

definition handle_webhook_event ::
  "pay_env \<Rightarrow> handlers \<Rightarrow> string \<Rightarrow> world \<Rightarrow> ((error + webhook_result option) \<times> world) option" where
  "handle_webhook_event env hs name w =
     (if map_option we_status (find_webhook w name) \<notin> {Some ''Received'', Some ''Failed''} then Some (Inr None, w)
      else case dispatch env hs name w of
        None \<Rightarrow> None
      | Some (Inr r, w') \<Rightarrow> Some (Inr (Some r), w')
      | Some (Inl e, w') \<Rightarrow>
          if pw_serial w' \<noteq> pw_serial w then Some (Inl SavepointMissing, w')
          else (case mark_failed env name w of
              Inl err \<Rightarrow> Some (Inl err, w)
            | Inr w'' \<Rightarrow> Some (Inr None, review name ''Webhook Event failed'' w'')))"

definition MAX_TRIES :: int where "MAX_TRIES = 5"
definition STALE_RECEIVED_MINUTES :: int where "STALE_RECEIVED_MINUTES = 15"
definition RETRY_BATCH :: nat where "RETRY_BATCH = 200"

definition retry_failed_webhooks :: "pay_env \<Rightarrow> world \<Rightarrow> string list" where
  "retry_failed_webhooks env w =
     (let stale = pe_now env - STALE_RECEIVED_MINUTES * 60000000;
          oldest = (\<lambda>P. take RETRY_BATCH (map we_name (sort_key we_creation (filter P (pw_webhooks w)))))
      in oldest (\<lambda>e. we_status e = ''Failed'' \<and> we_retry_count e < MAX_TRIES)
         @ oldest (\<lambda>e. we_status e = ''Received'' \<and> we_creation e < stale))"

section \<open>Log retention\<close>

definition prune_payment_attempts :: "datetime \<Rightarrow> world \<Rightarrow> nat \<times> world" where
  "prune_payment_attempts cutoff w =
     (let keep = map rf_attempt (pw_refunds w);
          drop = (\<lambda>a. at_status a = ''Failed'' \<and> at_creation a < cutoff \<and> at_name a \<notin> set keep
            \<and> map_option inv_status (find_invoice w (at_invoice a)) \<notin> Some ` set UNSETTLED)
      in (length (filter drop (pw_attempts w)), w\<lparr>pw_attempts := filter (\<lambda>a. \<not> drop a) (pw_attempts w)\<rparr>))"

definition prune_webhook_events :: "datetime \<Rightarrow> world \<Rightarrow> nat \<times> world" where
  "prune_webhook_events cutoff w =
     (let stale = (\<lambda>e. we_status e \<in> {''Processed'', ''Ignored''} \<and> we_creation e < cutoff)
      in (length (filter stale (pw_webhooks w)), w\<lparr>pw_webhooks := filter (\<lambda>e. \<not> stale e) (pw_webhooks w)\<rparr>))"

definition cleanup_payment_logs :: "pay_env \<Rightarrow> datetime option \<Rightarrow> world \<Rightarrow> (nat \<times> nat) \<times> world" where
  "cleanup_payment_logs env now w =
     (let cutoff = clock env now - payment_log_retention_days (pe_settings env) * day_us;
          (attempts, w1) = prune_payment_attempts cutoff w;
          (events, w2) = prune_webhook_events cutoff w1
      in ((attempts, events), w2))"

end
