(* ===== verification/Lifecycle.thy ===== *)
theory Lifecycle
  imports Collection Dunning_Ladder Ledger_Invariant
begin

text \<open>
  Opening, settling, cancelling and waiving one invoice (\<open>revenue/invoicing/lifecycle.py\<close>): the draft
  waits while something is missing, its tax is read again, the wallet pays first, and the rest goes to
  the payment methods. Bookings run without a deadlock (\<open>Bookings\<close> has those). Whether the records of a
  team are still being made, whether its GSTIN is being checked and whether its details were asked for
  in the last week are read from the environment.
\<close>

section \<open>The wallet pays first\<close>

record draw =
  dr_wallet :: money
  dr_advance :: money
  dr_gst :: money

text \<open>
  The loop of \<open>_draw_wallet\<close> over the lots, what is left of each beside it: what is still owed, and
  what the wallet, its paid-in part and the GST paid in advance have covered so far.
\<close>

fun draw_loop ::
  "rat \<Rightarrow> money \<Rightarrow> (ledger_entry \<times> money) list \<Rightarrow> money \<Rightarrow> draw \<Rightarrow> money \<times> draw" where
  "draw_loop gst_per_net gst_left [] owed d = (owed, d)"
| "draw_loop gst_per_net gst_left ((lot, remaining) # lots) owed d =
     (if owed \<le> 5 / 1000 then (owed, d)
      else if remaining \<le> 0 then draw_loop gst_per_net gst_left lots owed d
      else if bk_paid_in (le_booking lot) \<and> gst_per_net \<noteq> 0
      then let net = min remaining (owed / (1 + gst_per_net));
               tax = min (net * gst_per_net) (max (gst_left - dr_gst d) 0)
           in draw_loop gst_per_net gst_left lots (owed - net - tax)
                \<lparr>dr_wallet = dr_wallet d + net, dr_advance = dr_advance d + net, dr_gst = dr_gst d + tax\<rparr>
      else let used = min remaining owed
           in draw_loop gst_per_net gst_left lots (owed - used)
                (d\<lparr>dr_wallet := dr_wallet d + used,
                   dr_advance := (if bk_paid_in (le_booking lot) then dr_advance d + used else dr_advance d)\<rparr>))"

definition no_draw :: draw where
  "no_draw = \<lparr>dr_wallet = 0, dr_advance = 0, dr_gst = 0\<rparr>"

definition gst_rate_of :: "money \<Rightarrow> money \<Rightarrow> rat" where
  "gst_rate_of collectable gst_due =
     (let net_due = collectable - gst_due in if gst_due \<noteq> 0 \<and> net_due > 0 then gst_due / net_due else 0)"

definition draw_wallet :: "pay_env \<Rightarrow> invoice \<Rightarrow> money \<Rightarrow> money \<Rightarrow> world \<Rightarrow> error + draw \<times> world" where
  "draw_wallet env iv collectable gst_due w =
     bindE (lock_team_wallet (pe_team_currency env) (inv_team iv) (Some (inv_currency iv)) (pw_ledger w)) (\<lambda>(_, l).
     let r2 = pe_r2 env;
         gst_left = advance_gst_balance r2 (pw_invoices w) (inv_team iv) (inv_currency iv) l;
         (owed, d) = draw_loop (gst_rate_of collectable gst_due) gst_left (credit_lots (inv_team iv) (inv_currency iv) l)
                       collectable no_draw
     in Inr (\<lparr>dr_wallet = r2 (dr_wallet d), dr_advance = r2 (dr_advance d), dr_gst = r2 (dr_gst d)\<rparr>, w\<lparr>pw_ledger := l\<rparr>))"

text \<open>\<open>_apply_draw\<close>: the booking, and the fields of the invoice in memory.\<close>

definition apply_draw :: "pay_env \<Rightarrow> invoice \<Rightarrow> draw \<Rightarrow> world \<Rightarrow> error + invoice \<times> world" where
  "apply_draw env iv d w =
     bindE (if dr_wallet d > 0
            then bindE (apply_credit (pe_team_currency env) (pe_now env) [] (inv_team iv) (dr_wallet d) (inv_currency iv)
                          (Some ''Invoice'') (Some (inv_name iv)) (Some (''Credit applied to '' @ inv_name iv)) (pw_ledger w))
                   (\<lambda>(_, l). Inr (w\<lparr>pw_ledger := l\<rparr>))
            else Inr w)
       (\<lambda>w'. Inr (iv\<lparr>inv_credit_applied := inv_credit_applied iv + dr_wallet d,
                    inv_advance_applied := inv_advance_applied iv + dr_advance d,
                    inv_advance_tax_applied := inv_advance_tax_applied iv + dr_gst d\<rparr>, w'))"

text \<open>Saving an invoice runs its \<open>validate\<close>, which derives the period key.\<close>

definition save_invoice :: "invoice \<Rightarrow> world \<Rightarrow> world" where
  "save_invoice iv w = put_invoice (set_period_key iv) w"

definition settle_paid_by_credit :: "pay_env \<Rightarrow> invoice \<Rightarrow> string \<Rightarrow> money \<Rightarrow> world \<Rightarrow> error + world" where
  "settle_paid_by_credit env iv reason applied w =
     bindE (invoice_transition (pe_ambient env) (iv\<lparr>inv_paid_at := Some (pe_now env)\<rparr>) ''Paid'' (Some reason)
              (Some ''scheduler'') (Some applied) (pw_events w))
       (\<lambda>(iv', evs). let w' = save_invoice iv' (w\<lparr>pw_events := evs\<rparr>)
         in Inr (w'\<lparr>pw_sync_queue := pw_sync_queue w' @ [inv_name iv]\<rparr>))"

definition collectable_of :: "invoice \<Rightarrow> money" where
  "collectable_of iv = inv_total iv - tb_tds_amount (inv_tax iv)"

definition gst_still_due :: "invoice \<Rightarrow> money \<Rightarrow> money" where
  "gst_still_due iv due =
     (let collectable = collectable_of iv
      in if collectable \<le> 0 then 0 else tb_output_tax_amount (inv_tax iv) * due / collectable)"

section \<open>What a draft waits for\<close>

definition retax :: "pay_env \<Rightarrow> invoice \<Rightarrow> world \<Rightarrow> error + invoice" where
  "retax env iv w =
     (let base = pe_r2 env (inv_subtotal iv - inv_commitment_discount iv + inv_commitment_clawback iv)
      in bindE (resolve_tax (pe_r2 env) (tax_env_of env w) (inv_team iv) base) (\<lambda>block.
           Inr (iv\<lparr>inv_tax := block, inv_total := pe_r2 env (base + tb_output_tax_amount block), inv_hold_reason := None\<rparr>)))"

definition HOLD_KEYS :: "(string \<times> string) list" where
  "HOLD_KEYS = [(''Billing Details'', ''billing_details''), (''Accounting Sync'', ''accounting_sync''),
     (''GSTIN Check'', ''gstin_check'')]"

definition hold_for_billing_details :: "pay_env \<Rightarrow> invoice \<Rightarrow> world \<Rightarrow> bool \<times> world" where
  "hold_for_billing_details env iv w =
     (if map field_label (get_missing_fields (pw_profiles w) (inv_team iv)) = [] then (False, w)
      else if pe_asked_recently env (inv_name iv) then (True, w)
      else (True, notify (inv_team iv) ''Billing Details Required'' (inv_name iv) w))"

definition hold_reason :: "pay_env \<Rightarrow> invoice \<Rightarrow> world \<Rightarrow> string option \<times> world" where
  "hold_reason env iv w =
     (let (missing, w') = hold_for_billing_details env iv w in
      (if missing then Some ''Billing Details''
       else if pe_awaiting_records env (inv_team iv) then Some ''Accounting Sync''
       else if pe_awaiting_check env (inv_team iv) then Some ''GSTIN Check'' else None, w'))"

definition mark_held :: "pay_env \<Rightarrow> invoice \<Rightarrow> string \<Rightarrow> world \<Rightarrow> world" where
  "mark_held env iv hold w =
     (if inv_hold_reason iv = Some hold then w
      else let w' = put_invoice (iv\<lparr>inv_hold_reason := Some hold\<rparr>) w
           in w'\<lparr>pw_events := invoice_event (pe_ambient env) iv ''Invoice Held'' (Some hold) (Some (inv_total iv)) (pw_events w')\<rparr>)"

section \<open>Opening an invoice\<close>

datatype open_result =
    Not_claimed
  | Held string
  | Waived_internal money
  | Cost_report
  | Paid_by_credit money
  | Collecting money money "collect_outcome option"

definition waive_internal :: "pay_env \<Rightarrow> invoice \<Rightarrow> world \<Rightarrow> error + open_result \<times> world" where
  "waive_internal env iv w =
     bindE (retax env iv w) (\<lambda>iv1.
     bindE (invoice_transition (pe_ambient env)
              (iv1\<lparr>inv_credit_applied := 0, inv_expected_collection := 0, inv_sync_status := Some ''Not Required''\<rparr>) ''Waived''
              (Some ''internal team'') (Some ''scheduler'') (Some (inv_total iv1)) (pw_events w))
       (\<lambda>(iv2, evs). Inr (Waived_internal (inv_total iv2), save_invoice iv2 (w\<lparr>pw_events := evs\<rparr>))))"

definition open_cost_report :: "pay_env \<Rightarrow> invoice \<Rightarrow> world \<Rightarrow> world" where
  "open_cost_report env iv w =
     (let iv' = iv\<lparr>inv_credit_applied := 0, inv_expected_collection := 0, inv_due_date := Some (dt_date (pe_now env))\<rparr>
      in save_invoice iv' (w\<lparr>pw_events := invoice_event (pe_ambient env) iv' ''Invoice Issued'' (Some ''cost report recorded'') None (pw_events w)\<rparr>))"

text \<open>The dates of an invoice opened today.\<close>

definition dated :: "pay_env \<Rightarrow> world \<Rightarrow> invoice \<Rightarrow> error + invoice" where
  "dated env w iv =
     (let today = dt_date (pe_now env); team = inv_team iv; ps = pw_profiles w; s = pe_settings env in
      bindE (get_payment_date ps team today) (\<lambda>pd.
      bindE (get_due_date s ps team today) (\<lambda>due.
      bindE (get_suspension_date s ps team today) (\<lambda>susp.
        Inr (iv\<lparr>inv_payment_date := Some pd, inv_due_date := Some due, inv_dunning_starts_on := Some pd,
               inv_suspends_on := Some susp\<rparr>)))))"

text \<open>The first leg: what the wallet pays, what is left to charge, and the dates.\<close>

definition draw_and_date :: "pay_env \<Rightarrow> invoice \<Rightarrow> world \<Rightarrow> error + (invoice \<times> draw) \<times> world" where
  "draw_and_date env iv w =
     (let collectable = collectable_of iv in
      bindE (if collectable > 0 then draw_wallet env iv collectable (tb_output_tax_amount (inv_tax iv)) w else Inr (no_draw, w))
        (\<lambda>(d, w1).
      bindE (apply_draw env iv d w1) (\<lambda>(iv1, w2).
      bindE (dated env w2 (iv1\<lparr>inv_expected_collection := pe_r2 env (collectable - dr_wallet d - dr_gst d)\<rparr>))
        (\<lambda>iv2. Inr ((iv2, d), w2)))))"

definition issue_invoice :: "pay_env \<Rightarrow> invoice \<Rightarrow> world \<Rightarrow> world" where
  "issue_invoice env iv w =
     save_invoice iv (w\<lparr>pw_events := invoice_event (pe_ambient env) iv ''Invoice Issued'' (Some ''collection started'')
       (Some (inv_expected_collection iv)) (pw_events w)\<rparr>)"

definition notify_payment_scheduled :: "string \<Rightarrow> world \<Rightarrow> world" where
  "notify_payment_scheduled invoice w =
     (case find_invoice w invoice of None \<Rightarrow> w
      | Some iv \<Rightarrow> if inv_status iv = ''Outstanding'' then notify (inv_team iv) ''Payment Scheduled'' invoice w else w)"

text \<open>
  From the issued invoice on. The first commit is that of a charge, so an exception of the first
  collection step leaves the invoice unissued unless an attempt was claimed before it.
\<close>

definition start_collection ::
  "pay_env \<Rightarrow> invoice \<Rightarrow> draw \<Rightarrow> bool \<Rightarrow> world \<Rightarrow> world \<Rightarrow> ((error + open_result) \<times> world) option" where
  "start_collection env iv d collect base w =
     (if \<not> collect
      then Some (Inr (Collecting (dr_wallet d) (inv_expected_collection iv) None), notify_payment_scheduled (inv_name iv) w)
      else case collect_invoice env (inv_name iv) False None w of
        None \<Rightarrow> None
      | Some (Inl e, w') \<Rightarrow> Some (Inl e, committed base w w')
      | Some (Inr outcome, w') \<Rightarrow>
          Some (Inr (Collecting (dr_wallet d) (inv_expected_collection iv) (Some outcome)), notify_payment_scheduled (inv_name iv) w'))"

definition open_billable :: "pay_env \<Rightarrow> invoice \<Rightarrow> bool \<Rightarrow> world \<Rightarrow> world \<Rightarrow> ((error + open_result) \<times> world) option" where
  "open_billable env iv collect base w =
     (case draw_and_date env iv w of Inl e \<Rightarrow> Some (Inl e, base)
      | Inr ((iv', d), w') \<Rightarrow>
          if inv_expected_collection iv' \<le> 0
          then (case settle_paid_by_credit env iv' ''credits covered in full'' (dr_wallet d) w' of
              Inl e \<Rightarrow> Some (Inl e, base) | Inr w'' \<Rightarrow> Some (Inr (Paid_by_credit (dr_wallet d)), w''))
          else start_collection env iv' d collect base (issue_invoice env iv' w'))"

definition open_and_collect :: "pay_env \<Rightarrow> string \<Rightarrow> bool \<Rightarrow> world \<Rightarrow> ((error + open_result) \<times> world) option" where
  "open_and_collect env invoice collect w =
     (case find_invoice w invoice of None \<Rightarrow> Some (Inr Not_claimed, w) | Some iv \<Rightarrow>
      if \<not> is_unissued iv then Some (Inr Not_claimed, w)
      else if inv_type iv = ''Cost Report'' then Some (Inr Cost_report, open_cost_report env iv w)
      else if inv_type iv \<noteq> ''Billable'' then open_billable env iv collect w w
      else if is_internal_team (pw_profiles w) (inv_team iv)
      then Some (case waive_internal env iv w of Inl e \<Rightarrow> (Inl e, w) | Inr (r, w') \<Rightarrow> (Inr r, w'))
      else case hold_reason env iv w of
        (Some hold, w1) \<Rightarrow> Some (Inr (Held (the (map_of HOLD_KEYS hold))), mark_held env iv hold w1)
      | (None, w1) \<Rightarrow>
          (case retax env iv w1 of Inl e \<Rightarrow> Some (Inl e, w) | Inr iv' \<Rightarrow> open_billable env iv' collect w w1))"

section \<open>Credit that came later\<close>

definition settle_with_credit :: "pay_env \<Rightarrow> string \<Rightarrow> world \<Rightarrow> error + money \<times> world" where
  "settle_with_credit env invoice w =
     (case find_invoice w invoice of None \<Rightarrow> Inl DoesNotExist | Some iv \<Rightarrow>
      let due = inv_expected_collection iv in
      if \<not> is_owed iv \<or> due \<le> 0 \<or> unsettled_capture invoice w \<noteq> None then Inr (0, w)
      else bindE (draw_wallet env iv due (gst_still_due iv due) w) (\<lambda>(d, w1).
        if dr_wallet d \<le> 0 \<or> pe_r2 env (due - dr_wallet d - dr_gst d) > 0 then Inr (0, w1)
        else bindE (apply_draw env iv d w1) (\<lambda>(iv', w2).
             bindE (settle_paid_by_credit env (iv'\<lparr>inv_expected_collection := 0\<rparr>) ''credit added later covered it'' (dr_wallet d) w2)
               (\<lambda>w3. Inr (dr_wallet d, w3)))))"

fun settle_each :: "pay_env \<Rightarrow> string list \<Rightarrow> world \<Rightarrow> error + (string \<times> money) list \<times> world" where
  "settle_each env [] w = Inr ([], w)"
| "settle_each env (n # ns) w =
     bindE (settle_with_credit env n w) (\<lambda>(x, w'). bindE (settle_each env ns w') (\<lambda>(xs, w''). Inr ((n, x) # xs, w'')))"

definition settle_with_new_credit :: "pay_env \<Rightarrow> string \<Rightarrow> world \<Rightarrow> error + (string \<times> money) list \<times> world" where
  "settle_with_new_credit env team w =
     settle_each env (map inv_name (sort_key inv_period_start (filter (\<lambda>iv. is_owed iv \<and> inv_team iv = team
        \<and> inv_type iv = ''Billable'' \<and> inv_expected_collection iv > 0) (pw_invoices w)))) w"

definition held_drafts :: "pay_env \<Rightarrow> string option \<Rightarrow> date option \<Rightarrow> nat option \<Rightarrow> world \<Rightarrow> invoice list" where
  "held_drafts env team held_before limit w =
     (let by = (case held_before of Some d \<Rightarrow> d | None \<Rightarrow> dt_date (pe_now env));
          rows = sort_key inv_period_end (filter (\<lambda>iv. is_unissued iv \<and> inv_type iv = ''Billable'' \<and> inv_period_end iv \<le> by
                   \<and> (truthy team \<longrightarrow> Some (inv_team iv) = team)) (pw_invoices w))
      in case limit of None \<Rightarrow> rows | Some n \<Rightarrow> if n = 0 then rows else take n rows)"

section \<open>Cancelling and waiving\<close>

definition give_back_wallet :: "pay_env \<Rightarrow> invoice \<Rightarrow> world \<Rightarrow> error + world" where
  "give_back_wallet env iv w =
     (let paid_in = inv_advance_applied iv;
          promotional = pe_r2 env (inv_credit_applied iv - paid_in);
          note = ''Returned from cancelled invoice '' @ inv_name iv;
          give = (\<lambda>amount is_paid_in tax w.
             bindE (return_credit (pe_settings env) (pe_team_currency env) (pe_now env) [] (inv_team iv) amount (inv_currency iv)
                      ''Invoice'' (inv_name iv) note is_paid_in tax None (pw_ledger w))
               (\<lambda>(_, l). Inr (w\<lparr>pw_ledger := l\<rparr>)))
      in bindE (if paid_in > 0 then give paid_in True (inv_advance_tax_applied iv) w else Inr w) (\<lambda>w1.
           if promotional > 0 then give promotional False 0 w1 else Inr w1))"

text \<open>An attempt that is on its way to the money, or has it.\<close>

definition has_live_payment :: "string \<Rightarrow> world \<Rightarrow> bool" where
  "has_live_payment invoice w \<longleftrightarrow>
     list_ex (\<lambda>a. at_status a \<in> {''Initiated'', ''Authorised'', ''Captured''}) (attempts_for invoice w)"

definition cancel_invoice :: "pay_env \<Rightarrow> string \<Rightarrow> string option \<Rightarrow> world \<Rightarrow> error + world" where
  "cancel_invoice env invoice reason w =
     (case find_invoice w invoice of None \<Rightarrow> Inl DoesNotExist | Some iv \<Rightarrow>
      if inv_status iv = ''Paid'' then Inl (ValidationError ''A paid invoice cannot be cancelled on its own.'')
      else if inv_status iv = ''Cancelled'' then Inr w
      else if has_live_payment invoice w then Inl (ValidationError ''A payment for this invoice is under way or taken.'')
      else bindE (invoice_transition (pe_ambient env) iv ''Cancelled'' reason (am_user (pe_ambient env)) None (pw_events w))
        (\<lambda>(iv', evs). bindE (give_back_wallet env iv' (save_invoice iv' (w\<lparr>pw_events := evs\<rparr>)))
          (\<lambda>w'. Inr (if truthy reason then review invoice (''Cancelled: '' @ the reason) w' else w'))))"

text \<open>One round of the loop of \<open>waive_for_internal_team\<close>: True when it waived the invoice.\<close>

definition waive_one :: "pay_env \<Rightarrow> string \<Rightarrow> world \<Rightarrow> error + bool \<times> world" where
  "waive_one env invoice w =
     (case find_invoice w invoice of None \<Rightarrow> Inl DoesNotExist | Some iv \<Rightarrow>
      if inv_status iv \<notin> set UNSETTLED \<or> has_live_payment invoice w then Inr (False, w)
      else bindE (invoice_transition (pe_ambient env) (iv\<lparr>inv_sync_status := Some ''Not Required''\<rparr>) ''Waived''
                    (Some ''team marked internal'') (am_user (pe_ambient env)) (Some (inv_total iv)) (pw_events w))
        (\<lambda>(iv', evs). bindE (give_back_wallet env iv' (save_invoice iv' (w\<lparr>pw_events := evs\<rparr>))) (\<lambda>w'. Inr (True, w'))))"

fun waive_each :: "pay_env \<Rightarrow> string list \<Rightarrow> world \<Rightarrow> error + string list \<times> world" where
  "waive_each env [] w = Inr ([], w)"
| "waive_each env (n # ns) w =
     bindE (waive_one env n w) (\<lambda>(waived, w'). bindE (waive_each env ns w') (\<lambda>(xs, w''). Inr (if waived then n # xs else xs, w'')))"

definition waive_for_internal_team :: "pay_env \<Rightarrow> string \<Rightarrow> world \<Rightarrow> error + string list \<times> world" where
  "waive_for_internal_team env team w =
     waive_each env (map inv_name (filter (\<lambda>iv. is_owed iv \<and> inv_team iv = team) (pw_invoices w))) w"

definition waive_unless_wallet_drifted :: "pay_env \<Rightarrow> string \<Rightarrow> world \<Rightarrow> error + string list \<times> world" where
  "waive_unless_wallet_drifted env team w =
     (case waive_for_internal_team env team w of
        Inl e \<Rightarrow> if e = WalletDrift then Inr ([], review team ''Unpaid invoices of the internal team were not waived'' w) else Inl e
      | Inr r \<Rightarrow> Inr r)"

fun waive_teams :: "pay_env \<Rightarrow> string list \<Rightarrow> world \<Rightarrow> error + string list \<times> world" where
  "waive_teams env [] w = Inr ([], w)"
| "waive_teams env (t # ts) w =
     bindE (waive_unless_wallet_drifted env t w) (\<lambda>(xs, w'). bindE (waive_teams env ts w') (\<lambda>(ys, w''). Inr (xs @ ys, w'')))"

definition settle_internal_teams :: "pay_env \<Rightarrow> world \<Rightarrow> error + string list \<times> world" where
  "settle_internal_teams env w =
     waive_teams env (remdups (map inv_team (filter (\<lambda>iv. is_owed iv \<and> is_internal_team (pw_profiles w) (inv_team iv)) (pw_invoices w)))) w"

end
