(* ===== verification/Wallet_Store.thy ===== *)
theory Wallet_Store
  imports Bookings
begin

text \<open>
  The interface the invoice lifecycle and the refunds use of the credit ledger: money is taken out of
  an account or refused whole, money is put in, and no other account moves. The laws are discharged
  once on the ledger of \<open>revenue/credits.py\<close>; what clients need of a sequence of bookings follows from
  the laws alone.
\<close>

locale wallet_store =
  fixes sound :: "'w \<Rightarrow> bool" and account :: "'k \<Rightarrow> bool" and balance :: "'k \<Rightarrow> 'w \<Rightarrow> money"
    and take_out :: "'k \<Rightarrow> money \<Rightarrow> 'w \<Rightarrow> error + 'w" and put_in :: "'k \<Rightarrow> 'p \<Rightarrow> money \<Rightarrow> 'w \<Rightarrow> error + 'w"
  assumes take_ok: "\<lbrakk>sound w; account k; 0 < x; x \<le> balance k w\<rbrakk> \<Longrightarrow> \<exists>w'. take_out k x w = Inr w' \<and> sound w'
      \<and> (\<forall>k'. account k' \<longrightarrow> balance k' w' = balance k' w - (if k' = k then x else 0))"
    and take_refused: "\<lbrakk>sound w; account k; 0 < x; balance k w < x\<rbrakk> \<Longrightarrow> take_out k x w = Inl InsufficientCredits"
    and put_ok: "\<lbrakk>sound w; account k; 0 < x\<rbrakk> \<Longrightarrow> \<exists>w'. put_in k p x w = Inr w' \<and> sound w'
      \<and> (\<forall>k'. account k' \<longrightarrow> balance k' w' = balance k' w + (if k' = k then x else 0))"
begin

text \<open>A booking of nothing is left out by the callers.\<close>

definition take_some :: "'k \<Rightarrow> money \<Rightarrow> 'w \<Rightarrow> error + 'w" where
  "take_some k x w = (if x > 0 then take_out k x w else Inr w)"

definition put_some :: "'k \<Rightarrow> 'p \<Rightarrow> money \<Rightarrow> 'w \<Rightarrow> error + 'w" where
  "put_some k p x w = (if x > 0 then put_in k p x w else Inr w)"

lemma take_some_ok:
  assumes "sound w" "account k" "0 \<le> x" "x \<le> balance k w"
  shows "\<exists>w'. take_some k x w = Inr w' \<and> sound w'
    \<and> (\<forall>k'. account k' \<longrightarrow> balance k' w' = balance k' w - (if k' = k then x else 0))"
  using take_ok [OF assms(1,2) _ assms(4)] assms(1,3) by (cases "x > 0") (auto simp: take_some_def)

lemma put_some_ok:
  assumes "sound w" "account k" "0 \<le> x"
  shows "\<exists>w'. put_some k p x w = Inr w' \<and> sound w'
    \<and> (\<forall>k'. account k' \<longrightarrow> balance k' w' = balance k' w + (if k' = k then x else 0))"
  using put_ok [OF assms(1,2), of x p] assms(1,3) by (cases "x > 0") (auto simp: put_some_def)

text \<open>Two parts put back one after the other.\<close>

lemma put_parts:
  assumes "sound w" "account k" "0 \<le> x" "0 \<le> y"
  shows "\<exists>w'. bindE (put_some k p x w) (put_some k q y) = Inr w' \<and> sound w'
    \<and> (\<forall>k'. account k' \<longrightarrow> balance k' w' = balance k' w + (if k' = k then x + y else 0))"
proof -
  from put_some_ok [OF assms(1-3), of p] obtain v where v: "put_some k p x w = Inr v" "sound v"
    "\<forall>k'. account k' \<longrightarrow> balance k' v = balance k' w + (if k' = k then x else 0)" by blast
  from put_some_ok [OF v(2) assms(2,4), of q] obtain w' where "put_some k q y v = Inr w'" "sound w'"
    "\<forall>k'. account k' \<longrightarrow> balance k' w' = balance k' v + (if k' = k then y else 0)" by blast
  with v show ?thesis by auto
qed

text \<open>What was taken out and put back in two parts leaves every balance as it was.\<close>

lemma take_then_put:
  assumes "sound w" "account k" "0 \<le> x" "0 \<le> y" "x + y \<le> balance k w" "take_some k (x + y) w = Inr v"
  shows "\<exists>w'. bindE (put_some k p x v) (put_some k q y) = Inr w' \<and> sound w'
    \<and> (\<forall>k'. account k' \<longrightarrow> balance k' w' = balance k' w)"
proof -
  from take_some_ok [OF assms(1,2) _ assms(5)] assms(3,4,6) have "sound v"
    and b: "\<forall>k'. account k' \<longrightarrow> balance k' v = balance k' w - (if k' = k then x + y else 0)" by auto
  from put_parts [OF this(1) assms(2-4), of p q] b show ?thesis by auto
qed

end

section \<open>The ledger is a wallet store\<close>

definition ledger_account :: "string \<times> string \<Rightarrow> bool" where
  "ledger_account k \<longleftrightarrow> valid_currency (snd k) \<and> snd k \<noteq> []"

definition account_balance :: "string \<times> string \<Rightarrow> ledger \<Rightarrow> money" where
  "account_balance k l = wallet_balance (fst k) (snd k) l"

definition spend :: "(string \<Rightarrow> string) \<Rightarrow> datetime \<Rightarrow> string option \<Rightarrow> string option \<Rightarrow> string option
    \<Rightarrow> string \<times> string \<Rightarrow> money \<Rightarrow> ledger \<Rightarrow> error + ledger" where
  "spend tc now ref_type ref_name note k amount l =
     bindE (apply_credit tc now [] (fst k) amount (snd k) ref_type ref_name note l) (\<lambda>(_, l'). Inr l')"

text \<open>The kind of credit given back: whether it was paid in, and the GST paid with it.\<close>

definition give_back :: "billing_settings \<Rightarrow> (string \<Rightarrow> string) \<Rightarrow> datetime \<Rightarrow> string \<Rightarrow> string \<Rightarrow> string \<Rightarrow> string option
    \<Rightarrow> string \<times> string \<Rightarrow> bool \<times> money \<Rightarrow> money \<Rightarrow> ledger \<Rightarrow> error + ledger" where
  "give_back s tc now ref_type ref_name note advance_id k p amount l =
     bindE (return_credit s tc now [] (fst k) amount (snd k) ref_type ref_name note (fst p) (snd p) advance_id l) (\<lambda>(_, l'). Inr l')"

lemma named_currency: "c \<noteq> [] \<Longrightarrow> resolve_currency tc t (Some c) = c"
  by (simp add: resolve_currency_def)

lemma keyless_fresh: "bk_payment_id b = None \<Longrightarrow> bk_fingerprint b = None \<Longrightarrow> fresh_keys l b"
  by (simp add: fresh_keys_def breaks_unique_key_def list_ex_iff)

lemma plain_booking_simps [simp]:
  "bk_amount (plain_booking t ty x c r n m) = x" "bk_team (plain_booking t ty x c r n m) = t"
  "bk_type (plain_booking t ty x c r n m) = ty" "bk_currency (plain_booking t ty x c r n m) = c"
  "bk_payment_id (plain_booking t ty x c r n m) = None" "bk_fingerprint (plain_booking t ty x c r n m) = None"
  by (simp_all add: plain_booking_def)

text \<open>A booking with no payment id and no fingerprint, on an account whose currency is named.\<close>

lemma keyless_booking:
  assumes ok: "ledger_ok l" and k: "ledger_account k" "bk_team b = fst k" "bk_currency b = snd k"
    and b: "bk_type b \<in> {''Credit'', ''Debit''}" "bk_amount b > 0" "bk_payment_id b = None" "bk_fingerprint b = None"
  shows "if account_balance k l + signed_amount b < 0 then book_entry tc now [] rd b l = Inl InsufficientCredits
    else \<exists>e l'. book_entry tc now [] rd b l = Inr (e, l') \<and> ledger_ok l'
      \<and> (\<forall>k'. ledger_account k' \<longrightarrow> account_balance k' l' = account_balance k' l + (if k' = k then signed_amount b else 0))"
proof -
  have c: "bk_currency (resolved tc b) = snd k" using k by (simp add: resolved_def named_currency ledger_account_def)
  have bok: "booking_ok (resolved tc b)" using b(1) k(1) c by (auto simp: booking_ok_def ledger_account_def)
  have fresh: "fresh_keys l b" by (rule keyless_fresh [OF b(3,4)])
  have c': "valid_currency (bk_currency (resolved tc b))" using bok by (simp add: booking_ok_def)
  have signed: "signed_amount (resolved tc b) = signed_amount b" by (simp add: signed_amount_def)
  show ?thesis
  proof (cases "account_balance k l + signed_amount b < 0")
    case True
    then have "wallet_balance (bk_team b) (bk_currency (resolved tc b)) l + signed_amount b < 0"
      by (simp add: account_balance_def k(2) c)
    then have "book_entry tc now [] rd b l = Inl InsufficientCredits"
      by (simp add: book_entry_plain [OF b(2)] book_entry_once_eq [OF ok c'] fresh_keys_payment [OF fresh]
          post_entry_def Let_def signed)
    with True show ?thesis by simp
  next
    case False
    then have funds: "0 \<le> wallet_balance (bk_team b) (bk_currency (resolved tc b)) l + signed_amount b"
      by (simp add: account_balance_def k(2) c)
    obtain e l' where R: "book_entry tc now [] rd b l =
        Inr ((e, wallet_balance (bk_team b) (bk_currency (resolved tc b)) l + signed_amount b), l')" "ledger_ok l'"
      "\<And>t d. valid_currency d \<Longrightarrow> wallet_balance t d l' = wallet_balance t d l
         + (if t = bk_team b \<and> d = bk_currency (resolved tc b) then signed_amount b else 0)"
      by (rule book_entry_runs [OF ok bok b(2) fresh funds, of now rd]) (rule that)
    have "account_balance k' l' = account_balance k' l + (if k' = k then signed_amount b else 0)" if "ledger_account k'" for k'
      using R(3) [of "snd k'" "fst k'"] that k(2) c
      by (cases k, cases k') (auto simp: account_balance_def ledger_account_def)
    with False R(1,2) show ?thesis by auto
  qed
qed

lemma spend_outcome:
  assumes "ledger_ok l" "ledger_account k" "0 < x"
  shows "if account_balance k l < x then spend tc now rt rn nt k x l = Inl InsufficientCredits
    else \<exists>l'. spend tc now rt rn nt k x l = Inr l' \<and> ledger_ok l'
      \<and> (\<forall>k'. ledger_account k' \<longrightarrow> account_balance k' l' = account_balance k' l - (if k' = k then x else 0))"
  using keyless_booking [OF assms(1,2), of "plain_booking (fst k) ''Debit'' x (snd k) rt rn nt" tc now True] assms(3)
  by (auto simp: spend_def apply_credit_def signed_amount_def split: if_splits)

lemma give_back_outcome:
  assumes "ledger_ok l" "ledger_account k" "0 < x"
  shows "\<exists>l'. give_back s tc now rt rn nt aid k p x l = Inr l' \<and> ledger_ok l'
    \<and> (\<forall>k'. ledger_account k' \<longrightarrow> account_balance k' l' = account_balance k' l + (if k' = k then x else 0))"
proof -
  let ?b = "(plain_booking (fst k) ''Credit'' x (snd k) (Some rt) (Some rn) (Some nt))
    \<lparr>bk_expires_on := (if fst p then None else Some (promotional_expiry_date s (dt_date now))),
     bk_paid_in := fst p, bk_tax := snd p, bk_advance_id := aid\<rparr>"
  have "\<not> account_balance k l + x < 0"
    using wallet_balance_nonneg [OF assms(1)] assms(3) by (simp add: account_balance_def not_less add_nonneg_nonneg less_imp_le)
  with keyless_booking [OF assms(1,2), of ?b tc now True] assms(3) show ?thesis
    by (auto simp: give_back_def return_credit_def signed_amount_def plain_booking_def)
qed

interpretation ledger_store: wallet_store ledger_ok ledger_account account_balance "spend tc now rt rn nt"
    "give_back s tc now grt grn gnt aid"
  for tc now rt rn nt s grt grn gnt aid
proof
  fix l k x assume "ledger_ok l" "ledger_account k" "0 < x" "x \<le> account_balance k l"
  then show "\<exists>l'. spend tc now rt rn nt k x l = Inr l' \<and> ledger_ok l'
      \<and> (\<forall>k'. ledger_account k' \<longrightarrow> account_balance k' l' = account_balance k' l - (if k' = k then x else 0))"
    using spend_outcome [of l k x tc now rt rn nt] by (simp add: not_less)
next
  fix l k x assume "ledger_ok l" "ledger_account k" "0 < x" "account_balance k l < x"
  then show "spend tc now rt rn nt k x l = Inl InsufficientCredits"
    using spend_outcome [of l k x tc now rt rn nt] by simp
next
  fix l k x p assume "ledger_ok l" "ledger_account k" "0 < (x :: money)"
  then show "\<exists>l'. give_back s tc now grt grn gnt aid k p x l = Inr l' \<and> ledger_ok l'
      \<and> (\<forall>k'. ledger_account k' \<longrightarrow> account_balance k' l' = account_balance k' l + (if k' = k then x else 0))"
    by (rule give_back_outcome)
qed

end
