(* ===== verification/Lifecycle_Safety.thy ===== *)
theory Lifecycle_Safety
  imports Lifecycle Wallet_Store Credit_Expiry Collection_Frames
begin

text \<open>
  What a draw on the wallet can take, what opening an invoice books, and what cancelling gives back,
  with the ledger used only through the laws of \<open>wallet_store\<close>.
\<close>

section \<open>The draw\<close>

lemma draw_loop_spec:
  assumes "draw_loop rate left lots owed d = (owed', d')" "0 \<le> rate" "0 \<le> owed" "\<forall>(lot, r) \<in> set lots. 0 \<le> r"
  shows "dr_wallet d' + dr_gst d' + owed' = dr_wallet d + dr_gst d + owed \<and> 0 \<le> owed'
    \<and> dr_wallet d \<le> dr_wallet d' \<and> dr_wallet d' \<le> dr_wallet d + sum_list (map snd lots)
    \<and> dr_advance d \<le> dr_advance d' \<and> dr_advance d' - dr_advance d \<le> dr_wallet d' - dr_wallet d
    \<and> dr_gst d \<le> dr_gst d' \<and> (dr_gst d' \<le> max (dr_gst d) left)"
  using assms
proof (induction rate left lots owed d rule: draw_loop.induct)
  case (1 rate left owed d)
  then show ?case by simp
next
  case (2 rate left lot remaining lots owed d)
  have rest: "\<forall>(lot, r) \<in> set lots. 0 \<le> r" and rem: "0 \<le> remaining" using 2(7) by auto
  have sums: "0 \<le> sum_list (map snd lots)" using rest by (intro sum_list_nonneg) auto
  show ?case
  proof (cases "owed \<le> 5 / 1000")
    case True
    with 2(4,6) sums rem show ?thesis by simp
  next
    case owed: False
    show ?thesis
    proof (cases "remaining \<le> 0")
      case True
      with owed 2(4) have "draw_loop rate left lots owed d = (owed', d')" by simp
      from 2(1) [OF owed True this 2(5,6) rest] rem show ?thesis by simp
    next
      case False
      show ?thesis
      proof (cases "bk_paid_in (le_booking lot) \<and> rate \<noteq> 0")
        case True
        define net where "net = min remaining (owed / (1 + rate))"
        define tax where "tax = min (net * rate) (max (left - dr_gst d) 0)"
        let ?d = "\<lparr>dr_wallet = dr_wallet d + net, dr_advance = dr_advance d + net, dr_gst = dr_gst d + tax\<rparr>"
        have run: "draw_loop rate left lots (owed - net - tax) ?d = (owed', d')"
          using 2(4) owed False True by (simp add: net_def tax_def Let_def)
        have "net \<le> owed / (1 + rate)" by (simp add: net_def)
        then have "net * (1 + rate) \<le> owed" using 2(5) by (simp add: pos_le_divide_eq)
        moreover have "0 \<le> net" "net \<le> remaining" using False 2(5,6) by (auto simp: net_def)
        ultimately have net: "0 \<le> net" "net \<le> remaining" "net * (1 + rate) \<le> owed" by blast+
        have tax: "0 \<le> tax" "tax \<le> net * rate" "tax \<le> max (left - dr_gst d) 0" using net(1) 2(5) by (auto simp: tax_def)
        have "net * (1 + rate) = net + net * rate" by (simp add: algebra_simps)
        with net(3) tax(2) have o: "0 \<le> owed - net - tax" by linarith
        from 2(2) [OF owed False True net_def tax_def run 2(5) o rest] net tax show ?thesis by auto
      next
        case other: False
        let ?used = "min remaining owed"
        let ?d = "d\<lparr>dr_wallet := dr_wallet d + ?used, dr_advance := (if bk_paid_in (le_booking lot) then dr_advance d + ?used else dr_advance d)\<rparr>"
        have run: "draw_loop rate left lots (owed - ?used) ?d = (owed', d')"
          using 2(4) owed False other by (simp add: Let_def)
        have "0 \<le> ?used" "?used \<le> remaining" "0 \<le> owed - ?used" using False 2(6) by auto
        with 2(3) [OF owed False other refl run 2(5) _ rest] show ?thesis by (auto split: if_splits)
      qed
    qed
  qed
qed

lemma gst_rate_nonneg: "0 \<le> gst_due \<Longrightarrow> 0 \<le> gst_rate_of c gst_due"
  by (simp add: gst_rate_of_def Let_def)

lemma cents_rounding_near:
  assumes "cents_rounding r2"
  shows "r2 x < x + 1 / 100" "x - 1 / 100 < r2 x"
proof -
  let ?lo = "of_int \<lfloor>100 * x\<rfloor> / 100 :: rat" and ?hi = "of_int \<lceil>100 * x\<rceil> / 100 :: rat"
  have cents: "is_cents ?lo" "is_cents ?hi" by (auto simp: is_cents_iff)
  have lo: "?lo \<le> x" "x - 1 / 100 < ?lo" by linarith+
  have hi: "x \<le> ?hi" "?hi < x + 1 / 100" by linarith+
  show "r2 x < x + 1 / 100" using cents_rounding_le [OF assms cents(2) hi(1)] hi(2) by linarith
  show "x - 1 / 100 < r2 x" using cents_rounding_mono [OF assms lo(1)] cents_rounding_id [OF assms cents(1)] lo(2) by linarith
qed

text \<open>Cents that are less than two hundredths apart differ by at most one.\<close>

lemma cents_step:
  assumes "is_cents a" "is_cents b" "a < b + 2 / 100"
  shows "a \<le> b + 1 / 100"
proof -
  from assms(1,2) obtain i j :: int where ij: "a = of_int i / 100" "b = of_int j / 100" by (auto simp: is_cents_iff)
  from assms(3) have "(of_int i :: rat) < of_int (j + 2)" by (simp add: ij field_simps)
  then have "i \<le> j + 1" by linarith
  then have "(of_int i :: rat) \<le> of_int (j + 1)" by linarith
  then show ?thesis by (simp add: ij field_simps)
qed

text \<open>What the draw of an invoice relies on: sound books, the currency of the invoice and whole cents.\<close>

definition drawable :: "pay_env \<Rightarrow> invoice \<Rightarrow> world \<Rightarrow> bool" where
  "drawable env iv w \<longleftrightarrow> ledger_ok (pw_ledger w) \<and> cents_rounding (pe_r2 env)
     \<and> ledger_account (inv_team iv, inv_currency iv) \<and> is_cents (account_balance (inv_team iv, inv_currency iv) (pw_ledger w))"

lemma draw_wallet_Inr:
  assumes ok: "drawable env iv w" and c: "is_cents c" "0 \<le> c" and g: "0 \<le> g"
  shows "\<exists>d l. draw_wallet env iv c g w = Inr (d, w\<lparr>pw_ledger := l\<rparr>) \<and> ledger_ok l \<and> entries l = entries (pw_ledger w)
    \<and> (\<forall>k. ledger_account k \<longrightarrow> account_balance k l = account_balance k (pw_ledger w))
    \<and> is_cents (dr_wallet d) \<and> is_cents (dr_gst d)
    \<and> 0 \<le> dr_advance d \<and> dr_advance d \<le> dr_wallet d \<and> dr_wallet d \<le> account_balance (inv_team iv, inv_currency iv) (pw_ledger w)
    \<and> 0 \<le> dr_gst d \<and> dr_gst d \<le> max (advance_gst_balance (pe_r2 env) (pw_invoices w) (inv_team iv) (inv_currency iv) l) 0
    \<and> dr_wallet d + dr_gst d \<le> c + 1 / 100"
proof -
  let ?t = "inv_team iv" and ?cur = "inv_currency iv" and ?r2 = "pe_r2 env" and ?led = "pw_ledger w"
  let ?l = "ensure_wallet ?t ?cur ?led"
  have ok0: "ledger_ok ?led" and r2: "cents_rounding ?r2" and acc: "valid_currency ?cur" "?cur \<noteq> []"
    and bal: "is_cents (wallet_balance ?t ?cur ?led)"
    using ok by (simp_all add: drawable_def ledger_account_def account_balance_def)
  have okl: "ledger_ok ?l" by (rule ensure_wallet_ok [OF ok0 acc(1)])
  define left where "left = advance_gst_balance ?r2 (pw_invoices w) ?t ?cur ?l"
  obtain owed d where run: "draw_loop (gst_rate_of c g) left (credit_lots ?t ?cur ?l) c no_draw = (owed, d)" by fastforce
  have lots: "sum_list (map snd (credit_lots ?t ?cur ?l)) = wallet_balance ?t ?cur ?led"
    "\<forall>(lot, r) \<in> set (credit_lots ?t ?cur ?l). 0 \<le> r"
    using credit_lots_total [OF okl acc(1), of ?t] credit_lots_facts(2) [OF okl acc(1), of ?t] by auto
  note spec = draw_loop_spec [OF run gst_rate_nonneg [OF g] c(2) lots(2)]
  have lock: "lock_team_wallet (pe_team_currency env) ?t (Some ?cur) ?led = Inr (wallet_balance ?t ?cur ?led, ?l)"
    using lock_and_read_ok [OF okl] by (simp add: lock_team_wallet_def named_currency [OF acc(2)] Let_def)
  let ?d = "\<lparr>dr_wallet = ?r2 (dr_wallet d), dr_advance = ?r2 (dr_advance d), dr_gst = ?r2 (dr_gst d)\<rparr>"
  have "draw_wallet env iv c g w = Inr (?d, w\<lparr>pw_ledger := ?l\<rparr>)"
    using run by (simp add: draw_wallet_def lock Let_def left_def)
  moreover have raw: "0 \<le> dr_advance d" "dr_advance d \<le> dr_wallet d" "dr_wallet d \<le> wallet_balance ?t ?cur ?led"
    "0 \<le> dr_gst d" "dr_gst d \<le> max left 0" "dr_wallet d + dr_gst d \<le> c"
    using spec lots(1) by (auto simp: no_draw_def)
  moreover have "?r2 (dr_wallet d) \<le> wallet_balance ?t ?cur ?led" by (rule cents_rounding_le [OF r2 bal raw(3)])
  moreover have "?r2 (dr_gst d) \<le> max left 0"
    by (rule cents_rounding_le [OF r2 _ raw(5)]) (simp add: left_def advance_gst_balance_def Let_def r2 max_def)
  moreover have "?r2 (dr_wallet d) + ?r2 (dr_gst d) \<le> c + 1 / 100"
    using cents_rounding_near(1) [OF r2, of "dr_wallet d"] cents_rounding_near(1) [OF r2, of "dr_gst d"] raw(6)
    by (intro cents_step) (simp_all add: r2 c(1) is_cents_add)
  ultimately show ?thesis
    using okl r2 cents_rounding_mono [OF r2 raw(2)]
    by (intro exI [of _ ?d] exI [of _ ?l]) (simp add: account_balance_def left_def cents_rounding_nonneg)
qed

section \<open>The draw booked and dated\<close>

abbreviation account_of :: "invoice \<Rightarrow> string \<times> string" where
  "account_of iv \<equiv> (inv_team iv, inv_currency iv)"

definition moved :: "string \<times> string \<Rightarrow> money \<Rightarrow> world \<Rightarrow> world \<Rightarrow> bool" where
  "moved k x w w' \<longleftrightarrow> ledger_ok (pw_ledger w') \<and> (\<forall>k'. ledger_account k' \<longrightarrow>
     account_balance k' (pw_ledger w') = account_balance k' (pw_ledger w) + (if k' = k then x else 0))"

definition with_draw :: "draw \<Rightarrow> invoice \<Rightarrow> invoice" where
  "with_draw d iv = iv\<lparr>inv_credit_applied := inv_credit_applied iv + dr_wallet d,
     inv_advance_applied := inv_advance_applied iv + dr_advance d,
     inv_advance_tax_applied := inv_advance_tax_applied iv + dr_gst d\<rparr>"

lemma apply_draw_eq:
  "apply_draw env iv d w =
     bindE (ledger_store.take_some (pe_team_currency env) (pe_now env) (Some ''Invoice'') (Some (inv_name iv))
              (Some (''Credit applied to '' @ inv_name iv)) (account_of iv) (dr_wallet d) (pw_ledger w))
       (\<lambda>l. Inr (with_draw d iv, w\<lparr>pw_ledger := l\<rparr>))"
  by (cases "apply_credit (pe_team_currency env) (pe_now env) [] (inv_team iv) (dr_wallet d) (inv_currency iv)
       (Some ''Invoice'') (Some (inv_name iv)) (Some (''Credit applied to '' @ inv_name iv)) (pw_ledger w)")
    (auto simp: apply_draw_def ledger_store.take_some_def spend_def with_draw_def)

lemma draw_books:
  assumes "drawable env iv w" "is_cents c" "0 \<le> c" "0 \<le> g"
  shows "\<exists>d l l'. draw_wallet env iv c g w = Inr (d, w\<lparr>pw_ledger := l\<rparr>) \<and> entries l = entries (pw_ledger w)
    \<and> moved (account_of iv) 0 w (w\<lparr>pw_ledger := l\<rparr>)
    \<and> apply_draw env iv d (w\<lparr>pw_ledger := l\<rparr>) = Inr (with_draw d iv, w\<lparr>pw_ledger := l'\<rparr>)
    \<and> moved (account_of iv) (- dr_wallet d) w (w\<lparr>pw_ledger := l'\<rparr>)
    \<and> is_cents (dr_wallet d) \<and> is_cents (dr_gst d)
    \<and> 0 \<le> dr_advance d \<and> dr_advance d \<le> dr_wallet d \<and> dr_wallet d \<le> account_balance (account_of iv) (pw_ledger w)
    \<and> 0 \<le> dr_gst d \<and> dr_gst d \<le> max (advance_gst_balance (pe_r2 env) (pw_invoices w) (inv_team iv) (inv_currency iv) l) 0
    \<and> dr_wallet d + dr_gst d \<le> c + 1 / 100"
proof -
  from draw_wallet_Inr [OF assms] obtain d l where D: "draw_wallet env iv c g w = Inr (d, w\<lparr>pw_ledger := l\<rparr>)"
    "ledger_ok l" "entries l = entries (pw_ledger w)" "\<forall>k. ledger_account k \<longrightarrow> account_balance k l = account_balance k (pw_ledger w)"
    "is_cents (dr_wallet d)" "is_cents (dr_gst d)" "0 \<le> dr_advance d" "dr_advance d \<le> dr_wallet d"
    "dr_wallet d \<le> account_balance (account_of iv) (pw_ledger w)" "0 \<le> dr_gst d"
    "dr_gst d \<le> max (advance_gst_balance (pe_r2 env) (pw_invoices w) (inv_team iv) (inv_currency iv) l) 0"
    "dr_wallet d + dr_gst d \<le> c + 1 / 100" by blast
  have acc: "ledger_account (account_of iv)" using assms(1) by (simp add: drawable_def)
  have "0 \<le> dr_wallet d" "dr_wallet d \<le> account_balance (account_of iv) l" using D(4,7-9) acc by auto
  from ledger_store.take_some_ok [OF D(2) acc this, of "pe_team_currency env" "pe_now env" "Some ''Invoice''" "Some (inv_name iv)"
      "Some (''Credit applied to '' @ inv_name iv)"]
  obtain l' where L: "apply_draw env iv d (w\<lparr>pw_ledger := l\<rparr>) = Inr (with_draw d iv, w\<lparr>pw_ledger := l'\<rparr>)" "ledger_ok l'"
    "\<forall>k'. ledger_account k' \<longrightarrow> account_balance k' l' = account_balance k' l - (if k' = account_of iv then dr_wallet d else 0)"
    by (auto simp: apply_draw_eq)
  show ?thesis
    by (rule exI [of _ d], rule exI [of _ l], rule exI [of _ l']) (use D L in \<open>auto simp: moved_def\<close>)
qed

lemma dated_Inr:
  "dated env w iv = Inr iv' \<Longrightarrow> \<exists>pd due susp. iv' = iv\<lparr>inv_payment_date := Some pd, inv_due_date := Some due,
     inv_dunning_starts_on := Some pd, inv_suspends_on := Some susp\<rparr>"
  by (auto simp: dated_def Let_def bindE_Inr)

text \<open>What is left to charge after a draw, and that the parts add up.\<close>

lemma draw_and_date_Inr:
  assumes ok: "drawable env iv w" and cents: "is_cents (inv_total iv)" "is_cents (tb_tds_amount (inv_tax iv))"
    and tax: "0 \<le> tb_output_tax_amount (inv_tax iv)"
    and run: "draw_and_date env iv w = Inr ((iv', d), w')"
  obtains l pd due susp where "w' = w\<lparr>pw_ledger := l\<rparr>" "moved (account_of iv) (- dr_wallet d) w w'"
    "iv' = (with_draw d iv)\<lparr>inv_expected_collection := collectable_of iv - dr_wallet d - dr_gst d, inv_payment_date := Some pd,
       inv_due_date := Some due, inv_dunning_starts_on := Some pd, inv_suspends_on := Some susp\<rparr>"
    "0 < dr_wallet d \<longrightarrow> inv_expected_collection iv' \<ge> - 1 / 100"
proof -
  let ?c = "collectable_of iv"
  have c: "is_cents ?c" using cents by (simp add: collectable_of_def is_cents_diff)
  have r2: "cents_rounding (pe_r2 env)" using ok by (simp add: drawable_def)
  have "\<exists>d' l l'. (if ?c > 0 then draw_wallet env iv ?c (tb_output_tax_amount (inv_tax iv)) w else Inr (no_draw, w)) = Inr (d', w\<lparr>pw_ledger := l\<rparr>)
      \<and> apply_draw env iv d' (w\<lparr>pw_ledger := l\<rparr>) = Inr (with_draw d' iv, w\<lparr>pw_ledger := l'\<rparr>)
      \<and> moved (account_of iv) (- dr_wallet d') w (w\<lparr>pw_ledger := l'\<rparr>) \<and> is_cents (dr_wallet d') \<and> is_cents (dr_gst d')
      \<and> (0 < dr_wallet d' \<longrightarrow> dr_wallet d' + dr_gst d' \<le> ?c + 1 / 100)"
  proof (cases "?c > 0")
    case True
    with draw_books [OF ok c _ tax] show ?thesis by auto
  next
    case False
    have "apply_draw env iv no_draw w = Inr (with_draw no_draw iv, w)" by (simp add: apply_draw_def no_draw_def with_draw_def)
    with False ok show ?thesis
      by (intro exI [of _ no_draw] exI [of _ "pw_ledger w"]) (auto simp: moved_def drawable_def no_draw_def)
  qed
  then obtain d' l l' where D: "(if ?c > 0 then draw_wallet env iv ?c (tb_output_tax_amount (inv_tax iv)) w else Inr (no_draw, w)) = Inr (d', w\<lparr>pw_ledger := l\<rparr>)"
    "apply_draw env iv d' (w\<lparr>pw_ledger := l\<rparr>) = Inr (with_draw d' iv, w\<lparr>pw_ledger := l'\<rparr>)"
    "moved (account_of iv) (- dr_wallet d') w (w\<lparr>pw_ledger := l'\<rparr>)" "is_cents (dr_wallet d')" "is_cents (dr_gst d')"
    "0 < dr_wallet d' \<longrightarrow> dr_wallet d' + dr_gst d' \<le> ?c + 1 / 100" by blast
  have rest: "pe_r2 env (?c - dr_wallet d' - dr_gst d') = ?c - dr_wallet d' - dr_gst d'"
    by (rule cents_rounding_id [OF r2]) (intro is_cents_diff c D(4,5))
  from run obtain iv2 where "d = d'" "w' = w\<lparr>pw_ledger := l'\<rparr>" "iv' = iv2"
    and dt: "dated env (w\<lparr>pw_ledger := l'\<rparr>) ((with_draw d' iv)\<lparr>inv_expected_collection := ?c - dr_wallet d' - dr_gst d'\<rparr>) = Inr iv2"
    unfolding draw_and_date_def Let_def D(1) bindE.simps prod.case D(2) rest by (auto simp: bindE_Inr)
  from dated_Inr [OF dt] obtain pd due susp where iv2: "iv2 = (with_draw d' iv)\<lparr>inv_expected_collection := ?c - dr_wallet d' - dr_gst d',
      inv_payment_date := Some pd, inv_due_date := Some due, inv_dunning_starts_on := Some pd, inv_suspends_on := Some susp\<rparr>" by auto
  show thesis
    by (rule that [where l = l' and pd = pd and due = due and susp = susp]) (use D(3,6) iv2 \<open>d = d'\<close> \<open>w' = _\<close> \<open>iv' = iv2\<close> in auto)
qed

section \<open>What an invoice drew goes back\<close>

lemma bindE_assoc: "bindE (bindE m f) g = bindE m (\<lambda>x. bindE (f x) g)"
  by (cases m) simp_all

lemma give_back_eq:
  "give_back_wallet env iv w =
     (let note = ''Returned from cancelled invoice '' @ inv_name iv;
          put = ledger_store.put_some (pe_settings env) (pe_team_currency env) (pe_now env) ''Invoice'' (inv_name iv) note None (account_of iv)
      in bindE (bindE (put (True, inv_advance_tax_applied iv) (inv_advance_applied iv) (pw_ledger w))
                  (put (False, 0) (pe_r2 env (inv_credit_applied iv - inv_advance_applied iv))))
           (\<lambda>l. Inr (w\<lparr>pw_ledger := l\<rparr>)))"
  by (simp add: give_back_wallet_def ledger_store.put_some_def give_back_def Let_def bindE_assoc split_def)

text \<open>The credit fields of an invoice as a draw leaves them.\<close>

definition credit_fields_ok :: "invoice \<Rightarrow> bool" where
  "credit_fields_ok iv \<longleftrightarrow> 0 \<le> inv_advance_applied iv \<and> inv_advance_applied iv \<le> inv_credit_applied iv
     \<and> is_cents (inv_advance_applied iv) \<and> is_cents (inv_credit_applied iv)"

lemma give_back_moves:
  assumes "ledger_ok (pw_ledger w)" "cents_rounding (pe_r2 env)" "ledger_account (account_of iv)" "credit_fields_ok iv"
  shows "\<exists>l. give_back_wallet env iv w = Inr (w\<lparr>pw_ledger := l\<rparr>) \<and> moved (account_of iv) (inv_credit_applied iv) w (w\<lparr>pw_ledger := l\<rparr>)"
proof -
  have r: "pe_r2 env (inv_credit_applied iv - inv_advance_applied iv) = inv_credit_applied iv - inv_advance_applied iv"
    using assms(4) by (intro cents_rounding_id [OF assms(2)]) (auto simp: credit_fields_ok_def)
  have "0 \<le> inv_advance_applied iv" "0 \<le> inv_credit_applied iv - inv_advance_applied iv" using assms(4) by (simp_all add: credit_fields_ok_def)
  from ledger_store.put_parts [OF assms(1,3) this, of "pe_settings env" "pe_team_currency env" "pe_now env" "''Invoice''" "inv_name iv"
      "''Returned from cancelled invoice '' @ inv_name iv" None "(True, inv_advance_tax_applied iv)" "(False, 0)"]
  show ?thesis unfolding give_back_eq Let_def r by (auto simp: moved_def)
qed

lemma save_invoice_frame [simp]:
  "pw_ledger (save_invoice iv w) = pw_ledger w" "pw_attempts (save_invoice iv w) = pw_attempts w"
  "pw_refunds (save_invoice iv w) = pw_refunds w" "pw_profiles (save_invoice iv w) = pw_profiles w"
  by (simp_all add: save_invoice_def)

lemma save_invoice_rows: "map inv_name (pw_invoices (save_invoice iv w)) = map inv_name (pw_invoices w)"
  by (auto simp: save_invoice_def put_invoice_def set_period_key_def)

lemma find_save [simp]:
  "find_invoice (save_invoice iv w) n = (if n = inv_name iv then map_option (\<lambda>_. set_period_key iv) (find_invoice w n) else find_invoice w n)"
  by (simp add: save_invoice_def find_invoice_put set_period_key_def)

lemma set_period_key_fields [simp]:
  "inv_name (set_period_key iv) = inv_name iv" "inv_status (set_period_key iv) = inv_status iv"
  "inv_team (set_period_key iv) = inv_team iv" "inv_currency (set_period_key iv) = inv_currency iv"
  "inv_credit_applied (set_period_key iv) = inv_credit_applied iv" "inv_advance_tax_applied (set_period_key iv) = inv_advance_tax_applied iv"
  "inv_expected_collection (set_period_key iv) = inv_expected_collection iv" "inv_total (set_period_key iv) = inv_total iv"
  "inv_tax (set_period_key iv) = inv_tax iv" "inv_due_date (set_period_key iv) = inv_due_date iv" "inv_type (set_period_key iv) = inv_type iv"
  "inv_advance_applied (set_period_key iv) = inv_advance_applied iv"
  by (simp_all add: set_period_key_def)

lemma ledger_read [simp]: "find_invoice (w\<lparr>pw_ledger := l\<rparr>) n = find_invoice w n" "find_invoice (w\<lparr>pw_events := evs\<rparr>) n = find_invoice w n"
  "find_invoice (w\<lparr>pw_sync_queue := q\<rparr>) n = find_invoice w n"
  by (simp_all add: find_invoice_def)

lemma moved_cong:
  "pw_ledger v = pw_ledger w \<Longrightarrow> pw_ledger v' = pw_ledger w' \<Longrightarrow> moved k x v v' \<longleftrightarrow> moved k x w w'"
  by (simp add: moved_def)

lemma settle_paid_Inr:
  assumes "settle_paid_by_credit env iv reason x w = Inr w'" and iv: "find_invoice w (inv_name iv) \<noteq> None"
  shows "find_invoice w' (inv_name iv) = Some (set_period_key (iv\<lparr>inv_paid_at := Some (pe_now env), inv_status := ''Paid''\<rparr>))"
    and "pw_ledger w' = pw_ledger w"
proof -
  from assms obtain iv' evs where tr: "invoice_transition (pe_ambient env) (iv\<lparr>inv_paid_at := Some (pe_now env)\<rparr>) ''Paid'' (Some reason)
      (Some ''scheduler'') (Some x) (pw_events w) = Inr (iv', evs)"
    and w': "w' = (let w1 = save_invoice iv' (w\<lparr>pw_events := evs\<rparr>) in w1\<lparr>pw_sync_queue := pw_sync_queue w1 @ [inv_name iv]\<rparr>)"
    by (auto simp: settle_paid_by_credit_def bindE_Inr Let_def)
  have iv': "iv' = iv\<lparr>inv_paid_at := Some (pe_now env), inv_status := ''Paid''\<rparr>" using invoice_transition_cases [OF tr] by simp
  show "find_invoice w' (inv_name iv) = Some (set_period_key (iv\<lparr>inv_paid_at := Some (pe_now env), inv_status := ''Paid''\<rparr>))"
    using iv by (auto simp: w' iv' Let_def)
  show "pw_ledger w' = pw_ledger w" by (simp add: w' Let_def)
qed

section \<open>What opening did\<close>

lemma hold_none: "hold_reason env iv w = (None, w1) \<Longrightarrow> w1 = w"
  by (auto simp: hold_reason_def hold_for_billing_details_def Let_def split: if_splits)

lemma retax_Inr:
  assumes "retax env iv w = Inr iv'"
  shows "\<exists>block total. iv' = iv\<lparr>inv_tax := block, inv_total := total, inv_hold_reason := None\<rparr>
    \<and> resolve_tax (pe_r2 env) (tax_env_of env w) (inv_team iv)
        (pe_r2 env (inv_subtotal iv - inv_commitment_discount iv + inv_commitment_clawback iv)) = Inr block
    \<and> total = pe_r2 env (pe_r2 env (inv_subtotal iv - inv_commitment_discount iv + inv_commitment_clawback iv) + tb_output_tax_amount block)"
  using assms by (auto simp: retax_def Let_def bindE_Inr)

lemma start_collection_bills:
  assumes rows: "one_row_each w" and run: "start_collection env iv d collect base w = Some (Inr r, w')"
  shows "same_bills w w'" "\<exists>out. r = Collecting (dr_wallet d) (inv_expected_collection iv) out"
proof -
  have n: "same_bills v (notify_payment_scheduled x v)" for v x
    by (simp add: same_bills_def notify_payment_scheduled_def split: option.splits)
  have "same_bills w w' \<and> (\<exists>out. r = Collecting (dr_wallet d) (inv_expected_collection iv) out)"
  proof (cases collect)
    case False with run n show ?thesis by (auto simp: start_collection_def)
  next
    case True
    with run obtain out w1 where c: "collect_invoice env (inv_name iv) False None w = Some (Inr out, w1)"
      "r = Collecting (dr_wallet d) (inv_expected_collection iv) (Some out)" "w' = notify_payment_scheduled (inv_name iv) w1"
      by (auto simp: start_collection_def split: option.splits sum.splits)
    from collect_invoice_bills(2) [OF c(1) rows] n c(2,3) show ?thesis by (auto intro: same_bills_trans)
  qed
  then show "same_bills w w'" "\<exists>out. r = Collecting (dr_wallet d) (inv_expected_collection iv) out" by auto
qed

definition settles :: "open_result \<Rightarrow> bool" where
  "settles r \<longleftrightarrow> (case r of Paid_by_credit x \<Rightarrow> True | _ \<Rightarrow> False)"

definition collecting :: "open_result \<Rightarrow> bool" where
  "collecting r \<longleftrightarrow> (case r of Collecting x y z \<Rightarrow> True | _ \<Rightarrow> False)"

lemma result_kinds [simp]:
  "settles (Paid_by_credit x)" "\<not> settles (Collecting x y z)" "collecting (Collecting x y z)" "\<not> collecting (Paid_by_credit x)"
  "\<not> settles Not_claimed" "\<not> collecting Not_claimed" "\<not> settles (Held h)" "\<not> collecting (Held h)"
  "\<not> settles (Waived_internal x)" "\<not> collecting (Waived_internal x)" "\<not> settles Cost_report" "\<not> collecting Cost_report"
  by (simp_all add: settles_def collecting_def)

lemma open_billable_cases:
  assumes run: "open_billable env iv collect base w = Some (Inr r, w')"
  obtains (paid) iv' d w1 where "draw_and_date env iv w = Inr ((iv', d), w1)" "inv_expected_collection iv' \<le> 0"
      "settle_paid_by_credit env iv' ''credits covered in full'' (dr_wallet d) w1 = Inr w'" "r = Paid_by_credit (dr_wallet d)"
  | (charged) iv' d w1 where "draw_and_date env iv w = Inr ((iv', d), w1)" "0 < inv_expected_collection iv'"
      "start_collection env iv' d collect base (issue_invoice env iv' w1) = Some (Inr r, w')"
proof (cases "draw_and_date env iv w")
  case (Inl e) with run show thesis by (simp add: open_billable_def)
next
  case (Inr p)
  obtain iv' d w1 where p: "p = ((iv', d), w1)" by (cases p) auto
  show thesis
  proof (cases "inv_expected_collection iv' \<le> 0")
    case True
    with run Inr p paid [OF Inr [unfolded p]] show thesis by (auto simp: open_billable_def split: sum.splits)
  next
    case False
    with run Inr p charged [OF Inr [unfolded p]] show thesis by (auto simp: open_billable_def)
  qed
qed

lemma open_claimed:
  assumes iv: "find_invoice w invoice = Some iv" "inv_type iv = ''Billable''"
    and run: "open_and_collect env invoice collect w = Some (Inr r, w')" and r: "settles r \<or> collecting r"
  obtains iv1 where "is_unissued iv" "retax env iv w = Inr iv1" "open_billable env iv1 collect w w = Some (Inr r, w')"
    "\<not> is_internal_team (pw_profiles w) (inv_team iv)" "fst (hold_reason env iv w) = None"
proof (cases "is_unissued iv")
  case False with assms show thesis by (auto simp: open_and_collect_def)
next
  case unissued: True
  show thesis
  proof (cases "is_internal_team (pw_profiles w) (inv_team iv)")
    case True
    with run iv unissued r show thesis by (auto simp: open_and_collect_def waive_internal_def bindE_Inr split: sum.splits)
  next
    case False
    obtain h w1 where h: "hold_reason env iv w = (h, w1)" by fastforce
    show thesis
    proof (cases h)
      case (Some x) with run iv unissued False h r show thesis by (auto simp: open_and_collect_def)
    next
      case None
      then have w1: "w1 = w" using h hold_none by simp
      from run iv unissued False h None w1 obtain iv1 where "retax env iv w = Inr iv1" "open_billable env iv1 collect w w = Some (Inr r, w')"
        by (auto simp: open_and_collect_def split: sum.splits)
      with that unissued False h None show thesis by simp
    qed
  qed
qed

lemma draw_and_date_frame:
  assumes "draw_and_date env iv w = Inr ((iv', d), w')"
  shows "pw_invoices w' = pw_invoices w" "is_issued iv'" "inv_name iv' = inv_name iv"
proof -
  have dw: "pw_invoices v' = pw_invoices v" if "draw_wallet env iv c g v = Inr (x, v')" for c g v v' x
    using that by (auto simp: draw_wallet_def bindE_Inr Let_def split_beta)
  have ad: "pw_invoices v' = pw_invoices v \<and> inv_name iv2 = inv_name iv" if "apply_draw env iv x v = Inr (iv2, v')" for x iv2 v v'
    using that by (auto simp: apply_draw_def bindE_Inr split: if_splits)
  from assms obtain d0 w1 iv1 w2 iv2 where s:
    "(if collectable_of iv > 0 then draw_wallet env iv (collectable_of iv) (tb_output_tax_amount (inv_tax iv)) w else Inr (no_draw, w)) = Inr (d0, w1)"
    "apply_draw env iv d0 w1 = Inr (iv1, w2)" "w' = w2" "iv' = iv2"
    "dated env w2 (iv1\<lparr>inv_expected_collection := pe_r2 env (collectable_of iv - dr_wallet d0 - dr_gst d0)\<rparr>) = Inr iv2"
    unfolding draw_and_date_def Let_def by (auto simp: bindE_Inr)
  have "pw_invoices w1 = pw_invoices w" using s(1) dw by (auto split: if_splits)
  with ad [OF s(2)] dated_Inr [OF s(5)] s(3,4)
  show "pw_invoices w' = pw_invoices w" "is_issued iv'" "inv_name iv' = inv_name iv" by (auto simp: is_issued_def)
qed

text \<open>A result that claimed the invoice.\<close>

definition claims :: "open_result \<Rightarrow> bool" where
  "claims r \<longleftrightarrow> (case r of Not_claimed \<Rightarrow> False | Held h \<Rightarrow> False | _ \<Rightarrow> True)"

lemma open_billable_issued:
  assumes run: "open_billable env iv collect base w = Some (Inr r, w')" and rows: "one_row_each w" and iv: "find_invoice w (inv_name iv) \<noteq> None"
  shows "\<exists>iv'. find_invoice w' (inv_name iv) = Some iv' \<and> is_issued iv'"
  using run
proof (cases rule: open_billable_cases)
  case (paid iv' d w1)
  note F = draw_and_date_frame [OF paid(1)]
  have "find_invoice w1 (inv_name iv') \<noteq> None" using iv F(1,3) by (simp add: find_invoice_def)
  from settle_paid_Inr(1) [OF paid(3) this] F show ?thesis by (simp add: is_issued_def)
next
  case (charged iv' d w1)
  note F = draw_and_date_frame [OF charged(1)]
  let ?w = "issue_invoice env iv' w1"
  have rows': "one_row_each ?w" using rows save_invoice_rows F(1) by (simp add: issue_invoice_def one_row_each_def)
  have "find_invoice w1 (inv_name iv) \<noteq> None" using iv F(1) by (simp add: find_invoice_def)
  then have "find_invoice ?w (inv_name iv) = Some (set_period_key iv')" using F(3) by (auto simp: issue_invoice_def)
  with same_bills_find [OF start_collection_bills(1) [OF rows' charged(3)], of "inv_name iv"] obtain iv2 where
    "find_invoice w' (inv_name iv) = Some iv2" "bill iv2 = bill (set_period_key iv')" by auto
  with bill_eq(3) [OF this(2)] F(2) show ?thesis by (auto simp: is_issued_def)
qed

lemma hold_frame:
  "hold_reason env iv w = (h, w1) \<Longrightarrow> pw_ledger w1 = pw_ledger w \<and> pw_attempts w1 = pw_attempts w \<and> pw_refunds w1 = pw_refunds w"
  by (auto simp: hold_reason_def hold_for_billing_details_def Let_def split: if_splits)

end
