(* ===== verification/Lifecycle_Properties.thy ===== *)
theory Lifecycle_Properties
  imports Lifecycle_Safety Payment_Example
begin

text \<open>
  The properties of an invoice's lifecycle: the wallet is never overdrawn and the parts of an opened
  invoice add up, an invoice is opened once, credit that comes later pays in full or not at all, and a
  cancelled invoice gives back exactly what it drew, once.
\<close>

section \<open>The draw\<close>

text \<open>
  A draw stays within the wallet. For a bill in whole cents the wallet is read and booked
  without an error: it pays no more than its balance, of which the paid-in part is no more, it uses no
  more prepaid GST than is unused, together they pass the bill by one cent of rounding at most, and the
  books show exactly that amount leaving exactly that wallet.
\<close>

theorem draw_stays_within_wallet:
  assumes "drawable env iv w" "is_cents c" "0 \<le> c" "0 \<le> g"
  shows "\<exists>d l l'. draw_wallet env iv c g w = Inr (d, w\<lparr>pw_ledger := l\<rparr>)
    \<and> apply_draw env iv d (w\<lparr>pw_ledger := l\<rparr>) = Inr (with_draw d iv, w\<lparr>pw_ledger := l'\<rparr>)
    \<and> 0 \<le> dr_advance d \<and> dr_advance d \<le> dr_wallet d \<and> dr_wallet d \<le> account_balance (account_of iv) (pw_ledger w)
    \<and> 0 \<le> dr_gst d \<and> dr_gst d \<le> max (advance_gst_balance (pe_r2 env) (pw_invoices w) (inv_team iv) (inv_currency iv) l) 0
    \<and> dr_wallet d + dr_gst d \<le> c + 1 / 100
    \<and> moved (account_of iv) (- dr_wallet d) w (w\<lparr>pw_ledger := l'\<rparr>)"
  using draw_books [OF assms] by blast

section \<open>Opening\<close>

text \<open>
  Property C7: an opened invoice adds up. When opening a bill settles it or starts its collection, the
  invoice is issued, what the wallet paid, the GST paid in advance and what is left to charge add up to
  the total less the tax withheld, exactly that credit left exactly that wallet whatever the collection
  then did, and the invoice is Paid when nothing is left to charge and Outstanding otherwise.
\<close>

theorem opened_invoice_adds_up:
  assumes books: "drawable env iv w" "valid_tax_profiles (tax_env_of env w)" "one_row_each w"
    and iv: "find_invoice w invoice = Some iv" "inv_type iv = ''Billable''"
    and fresh: "inv_credit_applied iv = 0" "inv_advance_tax_applied iv = 0"
      "0 \<le> inv_subtotal iv - inv_commitment_discount iv + inv_commitment_clawback iv"
    and run: "open_and_collect env invoice collect w = Some (Inr r, w')" and r: "settles r \<or> collecting r"
  shows "\<exists>iv'. find_invoice w' invoice = Some iv' \<and> is_issued iv'
    \<and> inv_credit_applied iv' + inv_advance_tax_applied iv' + inv_expected_collection iv' = collectable_of iv'
    \<and> moved (account_of iv) (- inv_credit_applied iv') w w'
    \<and> (settles r \<longleftrightarrow> inv_expected_collection iv' \<le> 0) \<and> inv_status iv' = (if settles r then ''Paid'' else ''Outstanding'')"
proof -
  from open_claimed [OF iv run r] obtain iv1 where o: "is_unissued iv" "retax env iv w = Inr iv1"
    "open_billable env iv1 collect w w = Some (Inr r, w')" by blast
  from retax_Inr [OF o(2)] obtain block total where iv1: "iv1 = iv\<lparr>inv_tax := block, inv_total := total, inv_hold_reason := None\<rparr>"
    and tax: "resolve_tax (pe_r2 env) (tax_env_of env w) (inv_team iv)
        (pe_r2 env (inv_subtotal iv - inv_commitment_discount iv + inv_commitment_clawback iv)) = Inr block"
    and total: "is_cents total" using books(1) by (auto simp: drawable_def)
  have r2: "cents_rounding (pe_r2 env)" using books(1) by (simp add: drawable_def)
  note amounts = resolve_tax_amounts [OF books(2) r2 cents_rounding_nonneg [OF r2 fresh(3)] tax]
  have name: "inv_name iv = invoice" by (rule find_invoice_name [OF iv(1)])
  have ok1: "drawable env iv1 w" using books(1) by (simp add: drawable_def iv1)
  have effect: "\<exists>l. w1 = w\<lparr>pw_ledger := l\<rparr> \<and> moved (account_of iv) (- inv_credit_applied iv2) w w1 \<and> is_issued iv2
      \<and> inv_credit_applied iv2 + inv_advance_tax_applied iv2 + inv_expected_collection iv2 = collectable_of iv2
      \<and> inv_name iv2 = invoice \<and> inv_status iv2 = ''Outstanding''"
    if run: "draw_and_date env iv1 w = Inr ((iv2, d), w1)" for iv2 d w1
  proof -
    have cents: "is_cents (inv_total iv1)" "is_cents (tb_tds_amount (inv_tax iv1))" "0 \<le> tb_output_tax_amount (inv_tax iv1)"
      using total amounts by (simp_all add: iv1)
    show ?thesis
    proof (rule draw_and_date_Inr [OF ok1 cents run])
      fix l pd due susp assume D: "w1 = w\<lparr>pw_ledger := l\<rparr>" "moved (account_of iv1) (- dr_wallet d) w w1"
        "iv2 = (with_draw d iv1)\<lparr>inv_expected_collection := collectable_of iv1 - dr_wallet d - dr_gst d, inv_payment_date := Some pd,
           inv_due_date := Some due, inv_dunning_starts_on := Some pd, inv_suspends_on := Some susp\<rparr>"
      have f: "inv_credit_applied iv2 = dr_wallet d" "inv_advance_tax_applied iv2 = dr_gst d" "collectable_of iv2 = collectable_of iv1"
        "inv_expected_collection iv2 = collectable_of iv1 - dr_wallet d - dr_gst d" "inv_name iv2 = invoice" "is_issued iv2"
        "inv_status iv2 = ''Outstanding''" "account_of iv1 = account_of iv"
        using o(1) name fresh(1,2) by (simp_all add: D(3) with_draw_def iv1 is_issued_def is_unissued_def collectable_of_def)
      show ?thesis using D(1,2) f by auto
    qed
  qed
  from o(3) show ?thesis
  proof (cases rule: open_billable_cases)
    case (paid iv2 d w1)
    from effect [OF paid(1)] obtain l where E: "w1 = w\<lparr>pw_ledger := l\<rparr>" "moved (account_of iv) (- inv_credit_applied iv2) w w1" "is_issued iv2"
      "inv_credit_applied iv2 + inv_advance_tax_applied iv2 + inv_expected_collection iv2 = collectable_of iv2" "inv_name iv2 = invoice" by blast
    have "find_invoice w1 (inv_name iv2) \<noteq> None" using iv(1) E(1,5) by simp
    note P = settle_paid_Inr [OF paid(3) this]
    let ?iv = "set_period_key (iv2\<lparr>inv_paid_at := Some (pe_now env), inv_status := ''Paid''\<rparr>)"
    have "moved (account_of iv) (- inv_credit_applied iv2) w w'" using E(2) by (simp add: moved_def P(2))
    then show ?thesis using E(3,4) P(1) paid(2,4)
      by (intro exI [of _ ?iv]) (simp add: E(5) is_issued_def collectable_of_def)
  next
    case (charged iv2 d w1)
    from effect [OF charged(1)] obtain l where E: "w1 = w\<lparr>pw_ledger := l\<rparr>" "moved (account_of iv) (- inv_credit_applied iv2) w w1" "is_issued iv2"
      "inv_credit_applied iv2 + inv_advance_tax_applied iv2 + inv_expected_collection iv2 = collectable_of iv2" "inv_name iv2 = invoice"
      "inv_status iv2 = ''Outstanding''" by blast
    let ?w = "issue_invoice env iv2 w1"
    have rows: "one_row_each ?w"
      using books(3) save_invoice_rows by (simp add: E(1) issue_invoice_def one_row_each_def)
    note C = start_collection_bills [OF rows charged(3)]
    have "find_invoice ?w invoice = Some (set_period_key iv2)" using iv(1) E(1,5) by (simp add: issue_invoice_def)
    with same_bills_find [OF C(1), of invoice] obtain iv' where iv': "find_invoice w' invoice = Some iv'" "bill iv' = bill (set_period_key iv2)"
      by auto
    note fields = bill_eq [OF iv'(2)]
    have "pw_ledger w' = pw_ledger w1" using C(1) by (simp add: same_bills_def issue_invoice_def)
    then have "moved (account_of iv) (- inv_credit_applied iv2) w w'" using E(2) by (simp add: moved_def)
    moreover have "\<not> settles r" using C(2) by auto
    ultimately show ?thesis using iv'(1) fields E(3,4,6) charged(2)
      by (intro exI [of _ iv']) (simp add: is_issued_def collectable_of_def)
  qed
qed

text \<open>
  An invoice is opened once. When a run claimed an invoice, by waiving it, recording it,
  settling it or starting its collection, every later run finds it claimed and changes nothing. A run
  that claimed nothing, because the invoice was opened before or waits for something, moved no money.
\<close>

theorem opening_claims_once:
  assumes rows: "one_row_each w" and run: "open_and_collect env invoice collect w = Some (Inr r, w')"
  shows "if claims r then \<forall>env' collect'. open_and_collect env' invoice collect' w' = Some (Inr Not_claimed, w')
    else pw_ledger w' = pw_ledger w \<and> pw_attempts w' = pw_attempts w \<and> pw_refunds w' = pw_refunds w"
proof (cases "find_invoice w invoice")
  case None
  with run show ?thesis by (auto simp: open_and_collect_def claims_def)
next
  case iv: (Some iv)
  have name: "inv_name iv = invoice" by (rule find_invoice_name [OF iv])
  have done_once: "?thesis" if "\<exists>iv'. find_invoice w' invoice = Some iv' \<and> \<not> is_unissued iv'" "claims r"
    using that by (auto simp: open_and_collect_def)
  have billed: ?thesis if "open_billable env iv1 collect w w = Some (Inr r, w')" "inv_name iv1 = invoice" for iv1
  proof -
    have "claims r" using that(1) start_collection_bills(2)
      by (cases rule: open_billable_cases) (auto simp: claims_def start_collection_def split: if_splits option.splits sum.splits)
    moreover have "find_invoice w (inv_name iv1) \<noteq> None" using iv that(2) by simp
    ultimately show ?thesis using open_billable_issued [OF that(1) rows] that(2) by (intro done_once) (auto simp: is_unissued_def)
  qed
  show ?thesis
  proof (cases "is_unissued iv")
    case False with run iv show ?thesis by (auto simp: open_and_collect_def claims_def)
  next
    case fresh: True
    consider (report) "inv_type iv = ''Cost Report''" | (other) "inv_type iv \<notin> {''Cost Report'', ''Billable''}"
      | (internal) "inv_type iv = ''Billable''" "is_internal_team (pw_profiles w) (inv_team iv)"
      | (billable) "inv_type iv = ''Billable''" "\<not> is_internal_team (pw_profiles w) (inv_team iv)" by auto
    then show ?thesis
    proof cases
      case report
      with run iv fresh name show ?thesis
        by (intro done_once) (auto simp: open_and_collect_def open_cost_report_def claims_def Let_def is_unissued_def is_issued_def)
    next
      case other
      with run iv fresh billed [OF _ name] show ?thesis by (simp add: open_and_collect_def)
    next
      case internal
      with run iv fresh obtain iv1 iv2 evs where W: "retax env iv w = Inr iv1"
        "invoice_transition (pe_ambient env) (iv1\<lparr>inv_credit_applied := 0, inv_expected_collection := 0, inv_sync_status := Some ''Not Required''\<rparr>)
           ''Waived'' (Some ''internal team'') (Some ''scheduler'') (Some (inv_total iv1)) (pw_events w) = Inr (iv2, evs)"
        "r = Waived_internal (inv_total iv2)" "w' = save_invoice iv2 (w\<lparr>pw_events := evs\<rparr>)"
        by (auto simp: open_and_collect_def waive_internal_def bindE_Inr split: sum.splits)
      have "inv_name iv2 = invoice" "inv_status iv2 = ''Waived''"
        using invoice_transition_cases [OF W(2)] retax_Inr [OF W(1)] name by auto
      with iv W(3,4) show ?thesis by (intro done_once) (auto simp: claims_def is_unissued_def)
    next
      case billable
      obtain h w1 where h: "hold_reason env iv w = (h, w1)" by fastforce
      show ?thesis
      proof (cases h)
        case (Some x)
        with run iv fresh billable h have "r = Held (the (map_of HOLD_KEYS x))" "w' = mark_held env iv x w1"
          by (auto simp: open_and_collect_def)
        with hold_frame [OF h] show ?thesis by (simp add: claims_def mark_held_def Let_def)
      next
        case None
        with h have "w1 = w" using hold_none by simp
        with run iv fresh billable h None obtain iv1 where "retax env iv w = Inr iv1" "open_billable env iv1 collect w w = Some (Inr r, w')"
          by (auto simp: open_and_collect_def split: sum.splits)
        with billed [of iv1] retax_Inr name show ?thesis by force
      qed
    qed
  qed
qed

section \<open>Credit that comes later\<close>

text \<open>
  Credit that comes later pays in full or not at all. Settling an owed invoice with the
  wallet either leaves the invoice and the ledger's entries as they were, or makes it Paid with nothing
  left to collect, the wallet short by exactly the amount reported, and that amount with the GST paid
  in advance covering what was due to the cent.
\<close>

theorem later_credit_pays_in_full:
  assumes books: "drawable env iv w" and iv: "find_invoice w invoice = Some iv" "is_cents (inv_expected_collection iv)"
    and tax: "0 \<le> tb_output_tax_amount (inv_tax iv)"
    and run: "settle_with_credit env invoice w = Inr (x, w')"
  shows "if x = 0 then pw_invoices w' = pw_invoices w \<and> entries (pw_ledger w') = entries (pw_ledger w)
    else \<exists>iv'. find_invoice w' invoice = Some iv' \<and> inv_status iv' = ''Paid'' \<and> inv_expected_collection iv' = 0
      \<and> 0 < x \<and> inv_credit_applied iv' = inv_credit_applied iv + x \<and> moved (account_of iv) (- x) w w'
      \<and> inv_expected_collection iv \<le> x + (inv_advance_tax_applied iv' - inv_advance_tax_applied iv)"
proof -
  let ?due = "inv_expected_collection iv"
  show ?thesis
  proof (cases "\<not> is_owed iv \<or> ?due \<le> 0 \<or> unsettled_capture invoice w \<noteq> None")
    case True
    with run iv show ?thesis by (simp add: settle_with_credit_def)
  next
    case False
    have g: "0 \<le> gst_still_due iv ?due" using False tax by (simp add: gst_still_due_def Let_def)
    have due: "0 \<le> ?due" using False by simp
    from draw_books [OF books iv(2) due g] obtain d l l' where D:
      "draw_wallet env iv ?due (gst_still_due iv ?due) w = Inr (d, w\<lparr>pw_ledger := l\<rparr>)" "entries l = entries (pw_ledger w)"
      "apply_draw env iv d (w\<lparr>pw_ledger := l\<rparr>) = Inr (with_draw d iv, w\<lparr>pw_ledger := l'\<rparr>)"
      "moved (account_of iv) (- dr_wallet d) w (w\<lparr>pw_ledger := l'\<rparr>)" "is_cents (dr_wallet d)" "is_cents (dr_gst d)" by blast
    have r2: "pe_r2 env (?due - dr_wallet d - dr_gst d) = ?due - dr_wallet d - dr_gst d"
      using books iv(2) D(5,6) by (intro cents_rounding_id) (auto simp: drawable_def)
    show ?thesis
    proof (cases "dr_wallet d \<le> 0 \<or> ?due - dr_wallet d - dr_gst d > 0")
      case True
      with run iv(1) False D(1,2) show ?thesis by (auto simp: settle_with_credit_def r2)
    next
      case pays: False
      let ?iv = "(with_draw d iv)\<lparr>inv_expected_collection := 0\<rparr>"
      have "bindE (settle_paid_by_credit env ?iv ''credit added later covered it'' (dr_wallet d) (w\<lparr>pw_ledger := l'\<rparr>))
          (\<lambda>w3. Inr (dr_wallet d, w3)) = Inr (x, w')"
        using run unfolding settle_with_credit_def iv(1) option.case Let_def if_not_P [OF False] D(1,3) bindE.simps prod.case r2 if_not_P [OF pays] .
      then have s: "settle_paid_by_credit env ?iv ''credit added later covered it'' (dr_wallet d) (w\<lparr>pw_ledger := l'\<rparr>) = Inr w'"
        "x = dr_wallet d" by (auto simp: bindE_Inr)
      have n: "inv_name ?iv = invoice" using find_invoice_name [OF iv(1)] by (simp add: with_draw_def)
      have "find_invoice (w\<lparr>pw_ledger := l'\<rparr>) (inv_name ?iv) \<noteq> None" using iv(1) unfolding n by simp
      note P = settle_paid_Inr [OF s(1) this]
      have "moved (account_of iv) (- x) w w'" using D(4) P(2) s(2) by (simp add: moved_def)
      moreover have "0 < x" "?due \<le> x + dr_gst d" using pays s(2) by auto
      ultimately show ?thesis using P(1) unfolding n by (simp add: with_draw_def s(2) algebra_simps)
    qed
  qed
qed

section \<open>Cancelling\<close>

text \<open>
  Property C30: a cancelled invoice gives back what it drew, once. An owed invoice with no payment under
  way can be cancelled: it is then Cancelled, its wallet has exactly the credit it drew back, no other
  wallet moved, and cancelling it again changes nothing.
\<close>

theorem cancel_gives_back_once:
  assumes iv: "find_invoice w invoice = Some iv" "inv_status iv \<in> set UNSETTLED" "\<not> has_live_payment invoice w"
    and books: "ledger_ok (pw_ledger w)" "cents_rounding (pe_r2 env)" "ledger_account (account_of iv)" "credit_fields_ok iv"
  shows "\<exists>w' iv'. cancel_invoice env invoice reason w = Inr w' \<and> find_invoice w' invoice = Some iv' \<and> inv_status iv' = ''Cancelled''
    \<and> moved (account_of iv) (inv_credit_applied iv) w w'
    \<and> (\<forall>env' reason'. cancel_invoice env' invoice reason' w' = Inr w')"
proof -
  have s: "inv_status iv \<noteq> ''Cancelled''" "inv_status iv \<noteq> ''Paid''" using iv(2) by (auto simp: UNSETTLED_def)
  have "allows INVOICE (Some (inv_status iv)) ''Cancelled''" using iv(2) by (auto simp: allows_invoice)
  from invoice_transition_ok [OF s(1) this, of "pe_ambient env" reason "am_user (pe_ambient env)" None "pw_events w"]
  obtain evs where tr: "invoice_transition (pe_ambient env) iv ''Cancelled'' reason (am_user (pe_ambient env)) None (pw_events w)
      = Inr (iv\<lparr>inv_status := ''Cancelled''\<rparr>, evs)" by blast
  let ?iv = "iv\<lparr>inv_status := ''Cancelled''\<rparr>"
  let ?w = "save_invoice ?iv (w\<lparr>pw_events := evs\<rparr>)"
  have n: "inv_name iv = invoice" by (rule find_invoice_name [OF iv(1)])
  have "ledger_ok (pw_ledger ?w)" "ledger_account (account_of ?iv)" "credit_fields_ok ?iv"
    using books by (simp_all add: credit_fields_ok_def)
  from give_back_moves [OF this(1) books(2) this(2,3)] obtain l where g: "give_back_wallet env ?iv ?w = Inr (?w\<lparr>pw_ledger := l\<rparr>)"
    "moved (account_of iv) (inv_credit_applied iv) ?w (?w\<lparr>pw_ledger := l\<rparr>)" by auto
  define w' where "w' = (if truthy reason then review invoice (''Cancelled: '' @ the reason) (?w\<lparr>pw_ledger := l\<rparr>) else ?w\<lparr>pw_ledger := l\<rparr>)"
  have run: "cancel_invoice env invoice reason w = Inr w'"
    unfolding cancel_invoice_def iv(1) option.case if_not_P [OF s(1)] if_not_P [OF s(2)] if_not_P [OF iv(3)] tr bindE.simps prod.case g(1)
    by (simp add: w'_def)
  have found: "find_invoice w' invoice = Some (set_period_key ?iv)"
    using iv(1) n by (simp add: w'_def find_invoice_def [of "review _ _ _"] find_invoice_def [symmetric])
  have m: "moved (account_of iv) (inv_credit_applied iv) w w'" using g(2) by (simp add: moved_def w'_def)
  have again: "cancel_invoice env' invoice reason' w' = Inr w'" for env' reason' by (simp add: cancel_invoice_def found)
  show ?thesis by (intro exI [of _ w'] exI [of _ "set_period_key ?iv"]) (simp add: run found m again)
qed

section \<open>Examples\<close>

text \<open>The example world with the wallet of \<open>example_ledger\<close>: 550 rupees, 500 of them paid in.\<close>

definition credit_world :: "invoice \<Rightarrow> world" where
  "credit_world iv = due_world\<lparr>pw_ledger := example_ledger, pw_invoices := [iv]\<rparr>"

definition draft_invoice :: invoice where
  "draft_invoice = june_invoice\<lparr>inv_expected_collection := 0\<rparr>"

lemma credit_world_reads [simp]:
  "pw_ledger (credit_world iv) = example_ledger" "pw_invoices (credit_world iv) = [iv]" "pw_profiles (credit_world iv) = example_profiles"
  "pw_attempts (credit_world iv) = []" "pw_events (credit_world iv) = []"
  "inv_name iv = ''INV-1'' \<Longrightarrow> find_invoice (credit_world iv) ''INV-1'' = Some iv" "one_row_each (credit_world iv)"
  by (simp_all add: credit_world_def find_invoice_def one_row_each_def)

lemma credit_world_drawable:
  assumes "inv_team iv = ''t1''" "inv_currency iv = ''INR''"
  shows "drawable (pay_env_with r) iv (credit_world iv')"
  using assms by (simp add: drawable_def example_ledger_ok ledger_account_def valid_currency_def account_balance_def example_balance
      pay_env_with_def half_up_rounding)

theorem draw_stays_within_wallet_witness:
  "\<exists>d w'. draw_wallet (pay_env_with (Inr approved)) due_invoice 1180 180 (credit_world due_invoice) = Inr (d, w') \<and> dr_wallet d \<le> 550"
  using draw_stays_within_wallet [OF credit_world_drawable [of due_invoice "Inr approved" due_invoice], of 1180 180]
  by (auto simp: account_balance_def example_balance)

lemma example_retax: "retax (pay_env_with r) draft_invoice (credit_world draft_invoice) =
    Inr (draft_invoice\<lparr>inv_tax := example_tax, inv_hold_reason := None\<rparr>)"
  by (simp add: retax_def resolve_tax_def draft_invoice_def june_invoice_def pay_env_with_def tax_env_of_def standing_def example_profiles_def
      is_internal_team_def get_tax_profile_def get_country_output_tax_def is_indian_team_def ZERO_BLOCK_def Let_def example_tax_def
      shipped_settings_def half_up_id)

lemma example_dated:
  assumes "inv_team iv = ''t1''" "pw_profiles w = example_profiles"
  shows "\<exists>iv'. dated (pay_env_with r) w iv = Inr iv'"
  using assms by (simp add: dated_def get_payment_date_def get_due_date_def get_suspension_date_def get_suspension_date_after_def
      payment_day_or_default_def example_profiles_def replace_day_ok pay_env_with_def shipped_settings_def suspension_day_def read_setting_def overridden_def Let_def)

lemma example_draw_and_date:
  "\<exists>iv' d w1. draw_and_date (pay_env_with r) (draft_invoice\<lparr>inv_tax := example_tax, inv_hold_reason := None\<rparr>) (credit_world draft_invoice) = Inr ((iv', d), w1)
    \<and> 0 < inv_expected_collection iv'"
proof -
  let ?iv = "draft_invoice\<lparr>inv_tax := example_tax, inv_hold_reason := None\<rparr>" and ?w = "credit_world draft_invoice" and ?env = "pay_env_with r"
  have c: "collectable_of ?iv = 1180" "tb_output_tax_amount (inv_tax ?iv) = 180"
    by (simp_all add: collectable_of_def draft_invoice_def june_invoice_def example_tax_def)
  have t: "inv_team ?iv = ''t1''" "inv_currency ?iv = ''INR''" by (simp_all add: draft_invoice_def june_invoice_def)
  have "drawable ?env ?iv ?w" by (rule credit_world_drawable) (simp_all add: draft_invoice_def june_invoice_def)
  note books = draw_books [OF this, of 1180 180]
  have unused: "advance_gst_balance (pe_r2 ?env) (pw_invoices ?w) ''t1'' ''INR'' l = 0" if "entries l = entries example_ledger" for l
    using that by (simp add: advance_gst_balance_def example_ledger_simps draft_invoice_def june_invoice_def pay_env_with_def half_up_id Let_def)
  from books obtain d l l' where D: "draw_wallet ?env ?iv 1180 180 ?w = Inr (d, ?w\<lparr>pw_ledger := l\<rparr>)"
    "apply_draw ?env ?iv d (?w\<lparr>pw_ledger := l\<rparr>) = Inr (with_draw d ?iv, ?w\<lparr>pw_ledger := l'\<rparr>)" "entries l = entries example_ledger"
    "dr_wallet d \<le> 550" "dr_gst d \<le> max (advance_gst_balance (pe_r2 ?env) (pw_invoices ?w) ''t1'' ''INR'' l) 0"
    by (auto simp: t account_balance_def example_balance)
  have "dr_gst d \<le> 0" using D(3,5) unused by simp
  then have "0 < half_up (1180 - dr_wallet d - dr_gst d)"
    using cents_rounding_mono [OF half_up_rounding, of 630 "1180 - dr_wallet d - dr_gst d"] D(4) half_up_id [of 630] by simp
  moreover have "\<exists>iv'. dated ?env (?w\<lparr>pw_ledger := l'\<rparr>) ((with_draw d ?iv)\<lparr>inv_expected_collection := pe_r2 ?env (1180 - dr_wallet d - dr_gst d)\<rparr>) = Inr iv'"
    by (rule example_dated) (simp_all add: with_draw_def draft_invoice_def june_invoice_def)
  then obtain iv' where iv': "dated ?env (?w\<lparr>pw_ledger := l'\<rparr>) ((with_draw d ?iv)\<lparr>inv_expected_collection := pe_r2 ?env (1180 - dr_wallet d - dr_gst d)\<rparr>) = Inr iv'"
    by blast
  moreover have "inv_expected_collection iv' = half_up (1180 - dr_wallet d - dr_gst d)"
    using dated_Inr [OF iv'] by (auto simp: pay_env_with_def)
  moreover have "draw_and_date ?env ?iv ?w = Inr ((iv', d), ?w\<lparr>pw_ledger := l'\<rparr>)"
    unfolding draw_and_date_def Let_def c by (simp add: D(1,2) iv')
  ultimately show ?thesis by auto
qed

lemma example_open:
  "\<exists>r w'. open_and_collect (pay_env_with (Inr approved)) ''INV-1'' False (credit_world draft_invoice) = Some (Inr r, w') \<and> collecting r"
proof -
  let ?iv = "draft_invoice\<lparr>inv_tax := example_tax, inv_hold_reason := None\<rparr>" and ?w = "credit_world draft_invoice"
    and ?env = "pay_env_with (Inr approved)"
  have f: "find_invoice ?w ''INV-1'' = Some draft_invoice" "is_unissued draft_invoice" "inv_type draft_invoice = ''Billable''"
    "inv_team draft_invoice = ''t1''"
    by (simp_all add: draft_invoice_def june_invoice_def is_unissued_def is_issued_def)
  have h: "hold_reason ?env draft_invoice ?w = (None, ?w)"
    by (simp add: hold_reason_def hold_for_billing_details_def f(4) get_missing_fields_def get_missing_fields_of_def example_profiles_def
        REQUIRED_FIELDS_def required_value_def strip_eq_Nil pay_env_with_def is_space_def Let_def)
  have ni: "\<not> is_internal_team (pw_profiles ?w) (inv_team draft_invoice)" by (simp add: f(4) is_internal_team_def example_profiles_def)
  obtain iv' d w1 where D: "draw_and_date ?env ?iv ?w = Inr ((iv', d), w1)" "0 < inv_expected_collection iv'"
    using example_draw_and_date by blast
  have "\<not> inv_expected_collection iv' \<le> 0" using D(2) by simp
  then show ?thesis
    unfolding open_and_collect_def f(1) option.case f(3) using f(2) ni
    by (simp add: h example_retax open_billable_def D(1) start_collection_def)
qed

lemma draft_fields:
  "find_invoice (credit_world draft_invoice) ''INV-1'' = Some draft_invoice" "inv_type draft_invoice = ''Billable''"
  "inv_credit_applied draft_invoice = 0" "inv_advance_tax_applied draft_invoice = 0"
  "0 \<le> inv_subtotal draft_invoice - inv_commitment_discount draft_invoice + inv_commitment_clawback draft_invoice"
  "drawable (pay_env_with r) draft_invoice (credit_world draft_invoice)"
  "valid_tax_profiles (tax_env_of (pay_env_with r) (credit_world draft_invoice))"
proof -
  show "drawable (pay_env_with r) draft_invoice (credit_world draft_invoice)"
    by (rule credit_world_drawable) (simp_all add: draft_invoice_def june_invoice_def)
qed (simp_all add: draft_invoice_def june_invoice_def valid_tax_profiles_def tax_env_of_def pay_env_with_def shipped_settings_def)

theorem opened_invoice_adds_up_witness:
  "\<exists>r w' iv'. open_and_collect (pay_env_with (Inr approved)) ''INV-1'' False (credit_world draft_invoice) = Some (Inr r, w')
    \<and> find_invoice w' ''INV-1'' = Some iv' \<and> inv_status iv' = ''Outstanding''
    \<and> inv_credit_applied iv' + inv_advance_tax_applied iv' + inv_expected_collection iv' = collectable_of iv'"
proof -
  obtain r w' where run: "open_and_collect (pay_env_with (Inr approved)) ''INV-1'' False (credit_world draft_invoice) = Some (Inr r, w')"
    and r: "collecting r" using example_open by blast
  from r have "settles r \<or> collecting r" "\<not> settles r" by (auto simp: collecting_def settles_def split: open_result.splits)
  with opened_invoice_adds_up [OF draft_fields(6,7) _ draft_fields(1-5) run] run show ?thesis by auto
qed

theorem opening_claims_once_witness:
  "\<exists>r w'. open_and_collect (pay_env_with (Inr approved)) ''INV-1'' False (credit_world draft_invoice) = Some (Inr r, w')
    \<and> open_and_collect (pay_env_with (Inr declined)) ''INV-1'' True w' = Some (Inr Not_claimed, w')"
proof -
  obtain r w' where run: "open_and_collect (pay_env_with (Inr approved)) ''INV-1'' False (credit_world draft_invoice) = Some (Inr r, w')"
    and r: "collecting r" using example_open by blast
  from r have "claims r" by (auto simp: collecting_def claims_def split: open_result.splits)
  with opening_claims_once [OF _ run] run show ?thesis by auto
qed

text \<open>An owed invoice of 300 rupees, which the wallet covers.\<close>

definition small_invoice :: invoice where
  "small_invoice = due_invoice\<lparr>inv_tax := ZERO_BLOCK, inv_total := 300, inv_expected_collection := 300\<rparr>"

lemma example_small_draw:
  "draw_wallet (pay_env_with r) small_invoice 300 0 (credit_world small_invoice) =
     Inr (\<lparr>dr_wallet = 300, dr_advance = 250, dr_gst = 0\<rparr>, credit_world small_invoice)"
proof -
  have ensure: "ensure_wallet ''t1'' ''INR'' example_ledger = example_ledger"
    by (rule ensure_wallet_id) (simp add: example_ledger_def)
  have t: "inv_team small_invoice = ''t1''" "inv_currency small_invoice = ''INR''" by (simp_all add: small_invoice_def)
  have same: "(credit_world small_invoice)\<lparr>pw_ledger := example_ledger\<rparr> = credit_world small_invoice" by (simp add: credit_world_def)
  have lots: "bk_paid_in (le_booking example_top_up)" "\<not> bk_paid_in (le_booking example_grant)" by (simp_all add: example_ledger_simps)
  show ?thesis
    by (simp add: draw_wallet_def lock_team_wallet_def t named_currency ensure lock_and_read_ok [OF example_ledger_ok] Let_def
        example_credit_lots gst_rate_of_def no_draw_def lots same) (simp add: pay_env_with_def half_up_id)
qed

theorem later_credit_pays_in_full_witness:
  "\<exists>w' iv'. settle_with_credit (pay_env_with (Inr approved)) ''INV-1'' (credit_world small_invoice) = Inr (300, w')
    \<and> find_invoice w' ''INV-1'' = Some iv' \<and> inv_status iv' = ''Paid''"
proof -
  let ?env = "pay_env_with (Inr approved)" and ?w = "credit_world small_invoice"
  let ?d = "\<lparr>dr_wallet = 300, dr_advance = 250, dr_gst = 0\<rparr> :: draw"
  have d: "drawable ?env small_invoice ?w" by (rule credit_world_drawable) (simp_all add: small_invoice_def)
  have found: "find_invoice ?w ''INV-1'' = Some small_invoice" by (simp add: small_invoice_def)
  have due: "inv_expected_collection small_invoice = 300" "is_owed small_invoice" "gst_still_due small_invoice 300 = 0"
    "inv_status small_invoice = ''Outstanding''" "inv_name small_invoice = ''INV-1''"
    by (simp_all add: small_invoice_def is_owed_def is_issued_def gst_still_due_def ZERO_BLOCK_def Let_def)
  from draw_books [OF d, of 300 0] example_small_draw obtain l' where
    a: "apply_draw ?env small_invoice ?d ?w = Inr (with_draw ?d small_invoice, ?w\<lparr>pw_ledger := l'\<rparr>)"
    by (auto simp: credit_world_def)
  let ?iv = "(with_draw ?d small_invoice)\<lparr>inv_expected_collection := 0, inv_paid_at := Some (pe_now ?env)\<rparr>"
  have "\<exists>evs. invoice_transition (pe_ambient ?env) ?iv ''Paid'' (Some ''credit added later covered it'') (Some ''scheduler'') (Some 300)
      (pw_events (?w\<lparr>pw_ledger := l'\<rparr>)) = Inr (?iv\<lparr>inv_status := ''Paid''\<rparr>, evs)"
    by (rule invoice_transition_ok) (simp_all add: with_draw_def due allows_invoice)
  then obtain evs where tr: "invoice_transition (pe_ambient ?env) ?iv ''Paid'' (Some ''credit added later covered it'') (Some ''scheduler'') (Some 300)
      (pw_events (?w\<lparr>pw_ledger := l'\<rparr>)) = Inr (?iv\<lparr>inv_status := ''Paid''\<rparr>, evs)" by blast
  then obtain w1 where paid: "settle_paid_by_credit ?env ((with_draw ?d small_invoice)\<lparr>inv_expected_collection := 0\<rparr>)
      ''credit added later covered it'' 300 (?w\<lparr>pw_ledger := l'\<rparr>) = Inr w1" by (simp add: settle_paid_by_credit_def Let_def)
  have r2: "pe_r2 ?env 0 = 0" by (simp add: pay_env_with_def half_up_id)
  have run: "settle_with_credit ?env ''INV-1'' ?w = Inr (300, w1)"
    by (simp add: settle_with_credit_def found due example_small_draw unsettled_capture_def attempts_for_def a paid r2 Let_def)
  have "0 \<le> tb_output_tax_amount (inv_tax small_invoice)" by (simp add: small_invoice_def ZERO_BLOCK_def)
  with later_credit_pays_in_full [OF d found _ _ run] run due show ?thesis by auto
qed

text \<open>The invoice that drew 200 rupees, 100 of them paid in.\<close>

definition drawn_invoice :: invoice where
  "drawn_invoice = due_invoice\<lparr>inv_credit_applied := 200, inv_advance_applied := 100\<rparr>"

theorem cancel_gives_back_once_witness:
  "\<exists>w'. cancel_invoice (pay_env_with (Inr approved)) ''INV-1'' None (credit_world drawn_invoice) = Inr w'
    \<and> account_balance (''t1'', ''INR'') (pw_ledger w') = 750"
proof -
  have f: "find_invoice (credit_world drawn_invoice) ''INV-1'' = Some drawn_invoice" "inv_status drawn_invoice \<in> set UNSETTLED"
    "\<not> has_live_payment ''INV-1'' (credit_world drawn_invoice)" "ledger_account (account_of drawn_invoice)" "credit_fields_ok drawn_invoice"
    by (simp_all add: drawn_invoice_def has_live_payment_def attempts_for_def ledger_account_def valid_currency_def credit_fields_ok_def)
  have "ledger_ok (pw_ledger (credit_world drawn_invoice))" "cents_rounding (pe_r2 (pay_env_with (Inr approved)))"
    by (simp_all add: example_ledger_ok pay_env_with_def half_up_rounding)
  from cancel_gives_back_once [OF f(1-3) this f(4,5), of None] obtain w' where
    "cancel_invoice (pay_env_with (Inr approved)) ''INV-1'' None (credit_world drawn_invoice) = Inr w'"
    "moved (account_of drawn_invoice) (inv_credit_applied drawn_invoice) (credit_world drawn_invoice) w'" by blast
  then show ?thesis
    by (simp add: moved_def drawn_invoice_def ledger_account_def valid_currency_def)
      (simp add: account_balance_def example_balance)
qed

end
