(* ===== verification/Corrections.thy ===== *)
theory Corrections
  imports Webhooks Lifecycle
begin

text \<open>
  Cancelling a paid invoice with its refunds, partial refunds, the chain of jobs that carries them out
  (\<open>payments/corrections.py\<close>), and what a card dispute does (\<open>payments/disputes.py\<close>). The accounting
  system is an external service: its connection is a record of functions, one per document the code
  finds or makes there. A refund with no payment attempt has the empty name.
\<close>

section \<open>What can still be given back\<close>

definition UNDER_WAY :: string where "UNDER_WAY = ''Initiated''"

definition refunds_of :: "string \<Rightarrow> world \<Rightarrow> refund list" where
  "refunds_of invoice w = filter (\<lambda>r. rf_invoice r = invoice) (pw_refunds w)"

definition counts_as_given :: "string \<Rightarrow> refund \<Rightarrow> bool" where
  "counts_as_given invoice r \<longleftrightarrow> rf_invoice r = invoice \<and> rf_partial r \<and> rf_status r \<noteq> ''Failed''"

definition refundable :: "(rat \<Rightarrow> rat) \<Rightarrow> invoice \<Rightarrow> world \<Rightarrow> money" where
  "refundable r2 iv w = r2 (inv_total iv - sum_where (counts_as_given (inv_name iv)) rf_amount (pw_refunds w))"

definition captured_attempts :: "string \<Rightarrow> world \<Rightarrow> attempt list" where
  "captured_attempts invoice w =
     filter (\<lambda>a. at_status a = ''Captured'' \<and> at_name a \<notin> set (late_captured_attempts invoice w)) (attempts_for invoice w)"

definition charges_with_room :: "string \<Rightarrow> world \<Rightarrow> (string \<times> money) list" where
  "charges_with_room invoice w =
     map (\<lambda>a. (at_name a, at_amount a - sum_where (\<lambda>r. rf_attempt r = at_name a \<and> rf_status r \<noteq> ''Failed'') rf_amount (pw_refunds w)))
       (captured_attempts invoice w)"

definition charge_with_room :: "string \<Rightarrow> money \<Rightarrow> world \<Rightarrow> error + string" where
  "charge_with_room invoice amount w =
     (case find (\<lambda>(name, room). room + 5 / 1000 \<ge> amount) (charges_with_room invoice w) of
        Some (name, room) \<Rightarrow> Inr name
      | None \<Rightarrow> Inl (ValidationError ''No card or UPI charge on this invoice can refund it.''))"

definition card_refundable :: "string \<Rightarrow> world \<Rightarrow> money" where
  "card_refundable invoice w =
     (case map snd (charges_with_room invoice w) of [] \<Rightarrow> 0 | x # xs \<Rightarrow> fold max xs x)"

definition partly_refunded :: "string \<Rightarrow> world \<Rightarrow> bool" where
  "partly_refunded invoice w \<longleftrightarrow> list_ex (counts_as_given invoice) (pw_refunds w)"

definition promotional_part :: "(rat \<Rightarrow> rat) \<Rightarrow> invoice \<Rightarrow> money" where
  "promotional_part r2 iv = r2 (inv_credit_applied iv - inv_advance_applied iv)"

definition money_left :: "(rat \<Rightarrow> rat) \<Rightarrow> invoice \<Rightarrow> world \<Rightarrow> money" where
  "money_left r2 iv w =
     max 0 (r2 (inv_total iv - promotional_part r2 iv
       - sum_where (counts_as_given (inv_name iv)) (\<lambda>r. rf_net_amount r + rf_tax_amount r) (pw_refunds w)))"

text \<open>An amount as net and GST at the invoice's own rate.\<close>

definition split_amount :: "(rat \<Rightarrow> rat) \<Rightarrow> invoice \<Rightarrow> money \<Rightarrow> money \<times> money" where
  "split_amount r2 iv amount =
     (let gst = tb_output_tax_amount (inv_tax iv); base = inv_total iv - gst;
          rate = (if base > 0 then gst / base else 0);
          net = r2 (amount / (1 + rate))
      in (net, r2 (amount - net)))"

definition split_money_and_promotional :: "(rat \<Rightarrow> rat) \<Rightarrow> invoice \<Rightarrow> money \<Rightarrow> string \<Rightarrow> world \<Rightarrow> money \<times> money \<times> money" where
  "split_money_and_promotional r2 iv amount destination w =
     (let promotional = (if destination = ''Wallet'' \<and> \<not> truthy (inv_promotional_record iv)
                         then max 0 (r2 (amount - money_left r2 iv w)) else 0);
          (net, tax) = split_amount r2 iv (amount - promotional)
      in (net, tax, promotional))"

text \<open>GST allows a credit note until 30 November after the financial year of the invoice.\<close>

definition CREDIT_NOTE_DEADLINE :: "int \<times> int" where "CREDIT_NOTE_DEADLINE = (11, 30)"

definition check_credit_note_deadline :: "pay_env \<Rightarrow> invoice \<Rightarrow> error + unit" where
  "check_credit_note_deadline env iv =
     (if tb_output_tax_amount (inv_tax iv) = 0 then Inr ()
      else let issued = (case inv_paid_at iv of Some t \<Rightarrow> dt_date t | None \<Rightarrow> inv_period_end iv);
               year_end = (if month_of issued > 3 then year_of issued + 1 else year_of issued);
               deadline = ymd2ord year_end (fst CREDIT_NOTE_DEADLINE) (snd CREDIT_NOTE_DEADLINE)
      in if dt_date (pe_now env) > deadline
         then Inl (ValidationError ''A credit note for this invoice is past its date.'') else Inr ())"

section \<open>Booking what goes back\<close>

definition enqueue_steps :: "string \<Rightarrow> world \<Rightarrow> world" where
  "enqueue_steps invoice w = w\<lparr>pw_step_queue := pw_step_queue w @ [invoice]\<rparr>"

definition new_refund :: "pay_env \<Rightarrow> invoice \<Rightarrow> string \<Rightarrow> money \<Rightarrow> string \<Rightarrow> world \<Rightarrow> refund" where
  "new_refund env iv destination amount reason w =
     \<lparr>rf_name = pe_hash env (pw_serial w), rf_attempt = '''', rf_invoice = inv_name iv, rf_team = inv_team iv,
      rf_amount = pe_r2 env amount, rf_currency = inv_currency iv, rf_destination = destination,
      rf_late_capture = False, rf_partial = False, rf_net_amount = 0, rf_tax_amount = 0, rf_promotional_amount = 0,
      rf_retries = 0, rf_status = UNDER_WAY, rf_gateway_id = None, rf_reason = Some reason, rf_completed_at = None,
      rf_credit_note = None, rf_payment_record = None, rf_advance = None, rf_promotional_record = None\<rparr>"

definition book_refund :: "refund \<Rightarrow> world \<Rightarrow> world" where
  "book_refund r w = w\<lparr>pw_refunds := pw_refunds w @ [r], pw_serial := Suc (pw_serial w)\<rparr>"

text \<open>A lost chargeback: its id and the payment it took back.\<close>

type_synonym lost_dispute = "string \<times> string"

definition book_charge_refund :: "pay_env \<Rightarrow> invoice \<Rightarrow> string \<Rightarrow> lost_dispute option \<Rightarrow> attempt \<Rightarrow> world \<Rightarrow> world" where
  "book_charge_refund env iv reason dispute a w =
     (let lost = (case dispute of Some (_, payment_id) \<Rightarrow> at_txn a = Some payment_id | None \<Rightarrow> False)
      in book_refund ((new_refund env iv (if lost then ''Dispute'' else ''Source'') (at_amount a) reason w)
           \<lparr>rf_attempt := at_name a, rf_gateway_id := (if lost then map_option fst dispute else None)\<rparr>) w)"

definition cancel_and_refund :: "pay_env \<Rightarrow> string \<Rightarrow> string \<Rightarrow> lost_dispute option \<Rightarrow> world \<Rightarrow> error + world" where
  "cancel_and_refund env invoice reason dispute w =
     (case find_invoice w invoice of None \<Rightarrow> Inl DoesNotExist | Some iv \<Rightarrow>
      if inv_status iv \<noteq> ''Paid'' then Inl (ValidationError ''Only a paid invoice can be cancelled and refunded.'')
      else bindE (check_credit_note_deadline env iv) (\<lambda>_.
      if partly_refunded invoice w then Inl (ValidationError ''Part of this invoice is already refunded.'')
      else let w1 = fold (book_charge_refund env iv reason dispute) (captured_attempts invoice w) w;
               wallet = inv_credit_applied iv + inv_advance_tax_applied iv;
               w2 = (if wallet > 0 then book_refund (new_refund env iv ''Wallet'' wallet reason w1) w1 else w1)
      in bindE (invoice_transition (pe_ambient env) iv ''Cancelled'' (Some reason) (am_user (pe_ambient env)) None (pw_events w2))
           (\<lambda>(iv', evs). Inr (enqueue_steps invoice (review invoice (''Cancelled and refunded: '' @ reason)
              (save_invoice iv' (w2\<lparr>pw_events := evs\<rparr>)))))))"

definition refund_part ::
  "pay_env \<Rightarrow> string \<Rightarrow> money \<Rightarrow> string \<Rightarrow> string \<Rightarrow> lost_dispute option \<Rightarrow> world \<Rightarrow> error + world" where
  "refund_part env invoice amount reason destination dispute w =
     (case find_invoice w invoice of None \<Rightarrow> Inl DoesNotExist | Some iv \<Rightarrow>
      let r2 = pe_r2 env; amount = r2 amount in
      if inv_status iv \<noteq> ''Paid'' then Inl (ValidationError ''Only a paid invoice can be refunded.'')
      else bindE (check_credit_note_deadline env iv) (\<lambda>_.
      if amount \<le> 0 \<or> amount \<ge> refundable r2 iv w + 5 / 1000
      then Inl (ValidationError ''Refund less than what is left of this invoice.'')
      else bindE (case dispute of
               Some (dispute_id, payment_id) \<Rightarrow>
                 Inr (''Dispute'', (case find (\<lambda>a. at_txn a = Some payment_id) (pw_attempts w) of Some a \<Rightarrow> at_name a | None \<Rightarrow> ''''), Some dispute_id)
             | None \<Rightarrow>
                 if destination = ''Source'' then bindE (charge_with_room invoice amount w) (\<lambda>n. Inr (destination, n, None))
                 else if destination \<noteq> ''Wallet'' then Inl (ValidationError ''A refund goes to the wallet or to the card or UPI that paid.'')
                 else Inr (destination, '''', None))
        (\<lambda>(destination, attempt, gateway_id).
           let (net, tax, promotional) = split_money_and_promotional r2 iv amount destination w;
               r = (new_refund env iv destination amount reason w)\<lparr>rf_partial := True, rf_attempt := attempt, rf_gateway_id := gateway_id,
                      rf_net_amount := net, rf_tax_amount := tax, rf_promotional_amount := promotional\<rparr>
           in Inr (enqueue_steps invoice (review invoice (''Refunded to the '' @ destination @ '': '' @ reason) (book_refund r w))))))"

text \<open>The loop of \<open>retry_failed_refunds\<close> over the failed refunds, with what is left of the invoice.\<close>

fun retry_each :: "pay_env \<Rightarrow> string \<Rightarrow> refund list \<Rightarrow> money \<Rightarrow> world \<Rightarrow> error + world" where
  "retry_each env invoice [] left w = Inr w"
| "retry_each env invoice (r # rs) left w =
     (if rf_partial r \<and> rf_amount r > left + 5 / 1000 then Inl (ValidationError ''This refund cannot be retried.'')
      else bindE (transition (pe_ambient env)
               (sdoc_of ''Refund'' (rf_name r) (rf_team r) (rf_status r) (Some (rf_currency r)))
               UNDER_WAY None (am_user (pe_ambient env)) (Some invoice) None None (pw_events w))
        (\<lambda>(doc, evs). retry_each env invoice rs (if rf_partial r then left - rf_amount r else left)
           (save_refund (r\<lparr>rf_retries := Suc (rf_retries r), rf_status := the (sd_fields doc ''status'')\<rparr>) (w\<lparr>pw_events := evs\<rparr>))))"

definition failed_source_refunds :: "string \<Rightarrow> world \<Rightarrow> refund list" where
  "failed_source_refunds invoice w =
     filter (\<lambda>r. rf_status r = ''Failed'' \<and> rf_destination r = ''Source'') (refunds_of invoice w)"

definition retry_failed_refunds :: "pay_env \<Rightarrow> string \<Rightarrow> world \<Rightarrow> error + nat \<times> world" where
  "retry_failed_refunds env invoice w =
     (case find_invoice w invoice of None \<Rightarrow> Inl DoesNotExist | Some iv \<Rightarrow>
      let failed = failed_source_refunds invoice w in
      bindE (retry_each env invoice failed (refundable (pe_r2 env) iv w) w)
        (\<lambda>w'. Inr (length failed, if failed \<noteq> [] then enqueue_steps invoice w' else w')))"

section \<open>Carrying a refund out\<close>

definition finish_refund :: "pay_env \<Rightarrow> refund \<Rightarrow> string \<Rightarrow> world \<Rightarrow> error + world" where
  "finish_refund env r status w =
     bindE (refund_transition (pe_ambient env) r status (Some ''refund'') (pw_events w))
       (\<lambda>(r', evs). Inr (save_refund (r'\<lparr>rf_completed_at := Some (pe_now env)\<rparr>) (w\<lparr>pw_events := evs\<rparr>)))"

definition mark_refunded :: "pay_env \<Rightarrow> refund \<Rightarrow> string \<Rightarrow> world \<Rightarrow> error + world" where
  "mark_refunded env r actor w =
     (case find_attempt w (rf_attempt r) of None \<Rightarrow> Inl DoesNotExist | Some a \<Rightarrow>
      if sum_where (\<lambda>x. rf_attempt x = at_name a \<and> rf_status x = ''Completed'') rf_amount (pw_refunds w) + 5 / 1000 \<ge> at_amount a
      then bindE (move_attempt (pe_ambient env) a ''Refunded'' None (Some actor) (Some (rf_amount r)) (pw_events w))
             (\<lambda>(a', evs). Inr (put_attempt a' (w\<lparr>pw_events := evs\<rparr>)))
      else Inr w)"

datatype refund_outcome = Settled_refund | Flagged | Unchanged

definition failed_text :: "refund \<Rightarrow> string" where
  "failed_text r = ''The gateway failed refund '' @ rf_name r @ '' ('' @ py_str (rf_gateway_id r) @ '') after it reported it as completed.''"

definition flag_failed_after_completion :: "refund \<Rightarrow> world \<Rightarrow> refund_outcome \<times> world" where
  "flag_failed_after_completion r w =
     (if (rf_invoice r, failed_text r) \<in> set (pw_reviews w) then (Unchanged, w)
      else (Flagged, review (rf_invoice r) ''Refund failed after completion'' (review (rf_invoice r) (failed_text r) w)))"

definition settle_gateway_refund :: "pay_env \<Rightarrow> refund \<Rightarrow> string \<Rightarrow> world \<Rightarrow> error + refund_outcome \<times> world" where
  "settle_gateway_refund env r status w =
     (if rf_status r = ''Completed'' \<and> status = ''Failed'' then Inr (flag_failed_after_completion r w)
      else if rf_status r \<in> {''Completed'', ''Failed''} \<or> status = ''Pending'' then Inr (Unchanged, w)
      else bindE (finish_refund env r (if status = ''Completed'' then ''Completed'' else ''Failed'') w) (\<lambda>w1.
        case find_invoice w1 (rf_invoice r) of None \<Rightarrow> Inl DoesNotExist | Some iv \<Rightarrow>
          if status = ''Completed'' then bindE (mark_refunded env r ''refund'' w1) (\<lambda>w2. Inr (Settled_refund, w2))
          else Inr (Settled_refund, review (rf_invoice r) ''Refund failed'' w1)))"

text \<open>A booking of credit that goes back to the wallet with a partial refund.\<close>

definition return_part ::
  "pay_env \<Rightarrow> invoice \<Rightarrow> refund \<Rightarrow> money \<Rightarrow> string \<Rightarrow> bool \<Rightarrow> money \<Rightarrow> world \<Rightarrow> error + world" where
  "return_part env iv r amount note paid_in tax w =
     (if amount = 0 then Inr w
      else bindE (return_credit (pe_settings env) (pe_team_currency env) (pe_now env) [] (inv_team iv) amount (inv_currency iv)
                    ''Refund'' (rf_name r) note paid_in tax None (pw_ledger w))
             (\<lambda>(_, l). Inr (w\<lparr>pw_ledger := l\<rparr>)))"

definition refund_key :: "refund \<Rightarrow> string" where
  "refund_key r = (if rf_retries r = 0 then rf_name r else rf_name r @ ''-'' @ nat_str (rf_retries r))"

text \<open>The gateway's answer to a refund: accepted but not paid out, or settled.\<close>

definition answer_refund :: "pay_env \<Rightarrow> refund \<Rightarrow> refund_result \<Rightarrow> world \<Rightarrow> error + world" where
  "answer_refund env r result w =
     (let r' = r\<lparr>rf_gateway_id := rr_gateway_id result\<rparr> in
      if rr_status result = ''Pending''
      then bindE (refund_transition (pe_ambient env) r' ''Pending'' (Some ''refund'') (pw_events w))
             (\<lambda>(r'', evs). Inr (save_refund r'' (w\<lparr>pw_events := evs\<rparr>)))
      else bindE (settle_gateway_refund env r' (rr_status result) w) (\<lambda>(_, w'). Inr w'))"

definition settle_part :: "pay_env \<Rightarrow> invoice \<Rightarrow> refund \<Rightarrow> world \<Rightarrow> error + world" where
  "settle_part env iv r w =
     (if rf_destination r = ''Wallet'' \<and> rf_partial r
      then bindE (return_part env iv r (rf_net_amount r) (''Refund on invoice '' @ inv_name iv) True (rf_tax_amount r) w) (\<lambda>w1.
           bindE (return_part env iv r (rf_promotional_amount r) (''Promotional credit back from invoice '' @ inv_name iv) False 0 w1) (\<lambda>w2.
           finish_refund env r ''Completed'' w2))
      else if rf_destination r = ''Wallet''
      then bindE (give_back_wallet env iv w) (finish_refund env r ''Completed'')
      else if rf_destination r = ''Dispute''
      then bindE (finish_refund env r ''Completed'' w) (mark_refunded env r ''dispute'')
      else (case find_attempt w (rf_attempt r) of None \<Rightarrow> Inl DoesNotExist | Some a \<Rightarrow>
           bindE (adapter_for env (at_gateway a)) (\<lambda>adapter.
           bindE (ad_refund adapter a (rf_amount r) (or_else (rf_reason r) '''') (refund_key r)) (\<lambda>result.
             answer_refund env r result w))))"

section \<open>The accounting system\<close>

text \<open>Each function finds the document or makes it, and answers with its name; the note's total is read back.\<close>

record accounting =
  ac_enabled :: bool
  ac_credit_note :: "invoice \<Rightarrow> error + string"
  ac_partial_note :: "invoice \<Rightarrow> refund \<Rightarrow> error + string"
  ac_note_total :: "string option \<Rightarrow> error + money"
  ac_payment_out :: "invoice \<Rightarrow> refund \<Rightarrow> money \<Rightarrow> error + string"
  ac_advance_again :: "invoice \<Rightarrow> refund \<Rightarrow> money \<Rightarrow> error + string"
  ac_promotional_return :: "invoice \<Rightarrow> money \<Rightarrow> error + string"

definition money_to_record :: "(rat \<Rightarrow> rat) \<Rightarrow> invoice \<Rightarrow> refund \<Rightarrow> money" where
  "money_to_record r2 iv r =
     (if rf_partial r then r2 (rf_net_amount r + rf_tax_amount r)
      else if rf_destination r \<noteq> ''Wallet'' then rf_amount r
      else inv_advance_applied iv + inv_advance_tax_applied iv)"

definition is_partial_credit_note_due :: "refund \<Rightarrow> bool" where
  "is_partial_credit_note_due r \<longleftrightarrow> rf_partial r \<and> rf_status r = ''Completed'' \<and> \<not> truthy (rf_credit_note r) \<and> rf_net_amount r \<noteq> 0"

definition is_promotional_reversal_due :: "invoice \<Rightarrow> refund \<Rightarrow> bool" where
  "is_promotional_reversal_due iv r \<longleftrightarrow> \<not> rf_partial r \<and> rf_destination r = ''Wallet'' \<and> rf_status r = ''Completed''
     \<and> truthy (inv_promotional_record iv) \<and> \<not> truthy (rf_promotional_record r)"

datatype correction_step =
    Settle_part refund
  | Partial_credit_note refund
  | Full_credit_note
  | Record_payment refund
  | Reverse_promotional refund

definition credit_note_step :: "invoice \<Rightarrow> refund list \<Rightarrow> correction_step option" where
  "credit_note_step iv rs = (case find is_partial_credit_note_due rs of
     Some r \<Rightarrow> Some (Partial_credit_note r)
   | None \<Rightarrow> if list_ex (\<lambda>r. \<not> rf_partial r) rs \<and> \<not> truthy (inv_credit_note iv) then Some Full_credit_note else None)"

definition payment_out_step :: "(rat \<Rightarrow> rat) \<Rightarrow> invoice \<Rightarrow> refund list \<Rightarrow> correction_step option" where
  "payment_out_step r2 iv rs =
     (case find (\<lambda>r. rf_status r = ''Completed'' \<and> \<not> truthy (rf_payment_record r) \<and> money_to_record r2 iv r \<noteq> 0) rs of
        Some r \<Rightarrow> Some (Record_payment r)
      | None \<Rightarrow> map_option Reverse_promotional (find (is_promotional_reversal_due iv) rs))"

definition next_step :: "(rat \<Rightarrow> rat) \<Rightarrow> invoice \<Rightarrow> bool \<Rightarrow> world \<Rightarrow> correction_step option" where
  "next_step r2 iv accounting w =
     (let rs = refunds_of (inv_name iv) w in
      case find (\<lambda>r. rf_status r = UNDER_WAY) rs of
        Some r \<Rightarrow> Some (Settle_part r)
      | None \<Rightarrow>
          if \<not> (accounting \<and> truthy (inv_accounting_invoice iv)) then None
          else let booked = filter (\<lambda>r. \<not> rf_late_capture r) rs in
            (case credit_note_step iv booked of Some s \<Rightarrow> Some s | None \<Rightarrow> payment_out_step r2 iv booked))"

text \<open>\<open>_advance_again\<close> marks the credit that came back as backed by the new advance.\<close>

definition backs_advance :: "invoice \<Rightarrow> refund \<Rightarrow> ledger_entry \<Rightarrow> bool" where
  "backs_advance iv r e \<longleftrightarrow> bk_paid_in (le_booking e) \<and> le_type e = ''Credit''
     \<and> bk_ref_type (le_booking e) = Some (if rf_partial r then ''Refund'' else ''Invoice'')
     \<and> bk_ref_name (le_booking e) = Some (Doc_name (if rf_partial r then rf_name r else inv_name iv))"

definition link_advance :: "invoice \<Rightarrow> refund \<Rightarrow> string \<Rightarrow> ledger \<Rightarrow> ledger" where
  "link_advance iv r advance l = l\<lparr>entries := map (\<lambda>e.
     if backs_advance iv r e then e\<lparr>le_booking := (le_booking e)\<lparr>bk_advance_id := Some advance\<rparr>\<rparr> else e) (entries l)\<rparr>"

definition record_payment :: "pay_env \<Rightarrow> accounting \<Rightarrow> invoice \<Rightarrow> refund \<Rightarrow> world \<Rightarrow> error + world" where
  "record_payment env ac iv r w =
     bindE (if rf_partial r then bindE (ac_note_total ac (rf_credit_note r))
              (\<lambda>t. Inr (if \<bar>t\<bar> \<noteq> 0 then \<bar>t\<bar> else money_to_record (pe_r2 env) iv r))
            else Inr (money_to_record (pe_r2 env) iv r)) (\<lambda>amount.
     bindE (ac_payment_out ac iv r amount) (\<lambda>payment.
     if rf_destination r \<noteq> ''Wallet'' then Inr (put_refund (r\<lparr>rf_payment_record := Some payment\<rparr>) w)
     else bindE (ac_advance_again ac iv r amount) (\<lambda>advance.
       Inr (put_refund (r\<lparr>rf_payment_record := Some payment, rf_advance := Some advance\<rparr>)
              (w\<lparr>pw_ledger := link_advance iv r advance (pw_ledger w)\<rparr>)))))"

definition take_step :: "pay_env \<Rightarrow> accounting \<Rightarrow> invoice \<Rightarrow> correction_step \<Rightarrow> world \<Rightarrow> error + world" where
  "take_step env ac iv s w = (case s of
     Settle_part r \<Rightarrow> settle_part env iv r w
   | Partial_credit_note r \<Rightarrow> bindE (ac_partial_note ac iv r) (\<lambda>n. Inr (put_refund (r\<lparr>rf_credit_note := Some n\<rparr>) w))
   | Full_credit_note \<Rightarrow> bindE (ac_credit_note ac iv) (\<lambda>n. Inr (put_invoice (iv\<lparr>inv_credit_note := Some n\<rparr>) w))
   | Record_payment r \<Rightarrow> record_payment env ac iv r w
   | Reverse_promotional r \<Rightarrow> bindE (ac_promotional_return ac iv (promotional_part (pe_r2 env) iv))
       (\<lambda>n. Inr (put_refund (r\<lparr>rf_promotional_record := Some n\<rparr>) w)))"

text \<open>The job: nothing while another run of the same invoice holds the lock.\<close>

definition run_cancellation :: "pay_env \<Rightarrow> accounting \<Rightarrow> bool \<Rightarrow> string \<Rightarrow> world \<Rightarrow> error + world" where
  "run_cancellation env ac got_lock invoice w =
     (if \<not> got_lock then Inr w
      else case find_invoice w invoice of None \<Rightarrow> Inl DoesNotExist | Some iv \<Rightarrow>
        (case next_step (pe_r2 env) iv (ac_enabled ac) w of
           None \<Rightarrow> Inr w
         | Some s \<Rightarrow> bindE (take_step env ac iv s w) (\<lambda>w'. Inr (enqueue_steps invoice w'))))"

section \<open>Events of refunds and disputes\<close>

definition refund_with_id :: "string \<Rightarrow> world \<Rightarrow> refund option" where
  "refund_with_id gateway_id w = find (\<lambda>r. rf_gateway_id r = Some gateway_id) (pw_refunds w)"

definition apply_refund_event :: "pay_env \<Rightarrow> string \<Rightarrow> world \<Rightarrow> error + webhook_result \<times> world" where
  "apply_refund_event env name w =
     (case find_webhook w name of None \<Rightarrow> Inl DoesNotExist | Some e \<Rightarrow>
      (case Option.bind (we_refund e) (\<lambda>(i, status). map_option (\<lambda>r. (r, status)) (refund_with_id i w)) of
         None \<Rightarrow> marked env e ''Ignored'' (Unhandled ''no_matching_refund'') w
       | Some (r, status) \<Rightarrow>
           bindE (settle_gateway_refund env r status w) (\<lambda>(_, w').
             marked env e ''Processed'' Other_handled (enqueue_steps (rf_invoice r) w'))))"

text \<open>\<open>_flag\<close>: money the gateway took back that has no correction here, left to an operator.\<close>

definition apply_dispute :: "pay_env \<Rightarrow> webhook_event \<Rightarrow> world \<Rightarrow> error + (webhook_event \<times> bool) \<times> world" where
  "apply_dispute env e w =
     (case Option.bind (we_dispute e) (\<lambda>d. if dp_payment d = '''' then None else map_option (\<lambda>a. (d, a))
         (find (\<lambda>a. at_txn a = Some (dp_payment d) \<and> at_gateway a = we_gateway e) (pw_attempts w))) of
        None \<Rightarrow> Inr ((e, False), w)
      | Some (d, a) \<Rightarrow>
          let e' = e\<lparr>we_attempt := Some (at_name a)\<rparr> in
          (case find_invoice w (at_invoice a) of None \<Rightarrow> Inl DoesNotExist | Some iv \<Rightarrow>
           if dp_status d = ''open'' then Inr ((e', True), review (inv_name iv) (''Card dispute '' @ dp_id d @ '' opened'') w)
           else if dp_status d \<noteq> ''lost'' then Inr ((e', True), review (inv_name iv) (''Card dispute '' @ dp_id d @ '' closed'') w)
           else if inv_status iv \<noteq> ''Paid'' \<or> at_name a \<in> set (late_captured_attempts (inv_name iv) w)
           then Inr ((e', True), review (inv_name iv) ''Dispute needs review'' (review (inv_name iv) (''Card dispute '' @ dp_id d @ '' lost'') w))
           else if dp_amount d + 5 / 1000 < at_amount a
           then bindE (refund_part env (inv_name iv) (dp_amount d) (''Card dispute lost for part of the charge ('' @ dp_reason d @ '')'')
                         ''Wallet'' (Some (dp_id d, dp_payment d)) w) (\<lambda>w'. Inr ((e', True), w'))
           else bindE (cancel_and_refund env (inv_name iv) (''Card dispute lost ('' @ dp_reason d @ '')'') (Some (dp_id d, dp_payment d)) w)
                  (\<lambda>w'. Inr ((e', True), w'))))"

text \<open>The handlers of \<open>Webhooks\<close> with the two modelled here.\<close>

definition correction_handlers :: "pay_env \<Rightarrow> handlers \<Rightarrow> handlers" where
  "correction_handlers env hs = hs\<lparr>hd_dispute := apply_dispute env, hd_refund := apply_refund_event env\<rparr>"

end
