(* ===== verification/Corrections_Safety.thy ===== *)
theory Corrections_Safety
  imports Corrections Lifecycle_Safety Settlement_Safety
begin

text \<open>
  What the corrections keep: carrying refunds out never changes what was promised back, booking and
  retrying never promise more of an invoice than it has, and the chain of jobs makes progress with
  every step.
\<close>

section \<open>What was promised back\<close>

definition given :: "string \<Rightarrow> world \<Rightarrow> money" where
  "given invoice w = sum_where (counts_as_given invoice) rf_amount (pw_refunds w)"

text \<open>The later state of a refund: the same part of the same invoice, and a failed one stays failed.\<close>

definition same_part :: "refund \<Rightarrow> refund \<Rightarrow> bool" where
  "same_part r r' \<longleftrightarrow> rf_name r' = rf_name r \<and> rf_invoice r' = rf_invoice r \<and> rf_partial r' = rf_partial r
     \<and> rf_amount r' = rf_amount r \<and> (rf_status r = ''Failed'' \<longrightarrow> rf_status r' = ''Failed'')"

lemma same_part_refl [simp]: "same_part r r"
  by (simp add: same_part_def)

lemma same_part_trans: "same_part a b \<Longrightarrow> same_part b c \<Longrightarrow> same_part a c"
  by (simp add: same_part_def)

definition bills_of :: "world \<Rightarrow> (string \<times> money) list" where
  "bills_of w = map (\<lambda>iv. (inv_name iv, inv_total iv)) (pw_invoices w)"

definition carries_out :: "world \<Rightarrow> world \<Rightarrow> bool" where
  "carries_out w w' \<longleftrightarrow> list_all2 same_part (pw_refunds w) (pw_refunds w') \<and> bills_of w' = bills_of w \<and> pw_serial w' = pw_serial w"

lemma carries_out_eqI: "pw_refunds w' = pw_refunds w \<Longrightarrow> bills_of w' = bills_of w \<Longrightarrow> pw_serial w' = pw_serial w \<Longrightarrow> carries_out w w'"
  by (simp add: carries_out_def list.rel_refl)

lemma carries_out_refl [simp]: "carries_out w w"
  by (rule carries_out_eqI) simp_all

lemma carries_out_trans:
  assumes "carries_out a b" "carries_out b c"
  shows "carries_out a c"
proof -
  have "list_all2 same_part (pw_refunds a) (pw_refunds c)"
    using assms unfolding carries_out_def by (elim conjE) (rule list_all2_trans [OF same_part_trans])
  with assms show ?thesis by (simp add: carries_out_def)
qed

lemma bills_put_invoice: "find_invoice w (inv_name iv) = Some iv0 \<Longrightarrow> inv_total iv = inv_total iv0 \<Longrightarrow> one_row_each w \<Longrightarrow>
    bills_of (put_invoice iv w) = bills_of w"
proof -
  assume iv: "find_invoice w (inv_name iv) = Some iv0" "inv_total iv = inv_total iv0" and rows: "one_row_each w"
  have "inv_total x = inv_total iv" if "x \<in> set (pw_invoices w)" "inv_name x = inv_name iv" for x
  proof -
    have "iv0 \<in> set (pw_invoices w)" "inv_name iv0 = inv_name iv" using iv(1) find_Some [of _ _ iv0] by (auto simp: find_invoice_def)
    then have "x = iv0" using rows that inj_onD [of inv_name "set (pw_invoices w)" x iv0] by (auto simp: one_row_each_def distinct_map)
    then show ?thesis using iv(2) by simp
  qed
  then show ?thesis by (auto simp: bills_of_def put_invoice_def)
qed

lemma put_same_part:
  assumes "distinct (map rf_name (pw_refunds w))" "r0 \<in> set (pw_refunds w)" "same_part r0 r"
  shows "list_all2 same_part (pw_refunds w) (pw_refunds (put_refund r w))"
proof -
  have "same_part x (if rf_name x = rf_name r then r else x)" if "x \<in> set (pw_refunds w)" for x
  proof (cases "rf_name x = rf_name r")
    case True
    then have "rf_name x = rf_name r0" using assms(3) by (simp add: same_part_def)
    then have "x = r0" using assms(1,2) that inj_onD [of rf_name "set (pw_refunds w)" x r0] by (auto simp: distinct_map)
    with True assms(3) show ?thesis by simp
  qed simp
  then show ?thesis by (simp add: put_refund_def list.rel_map list_all2_same)
qed

lemma save_carries_out:
  assumes "distinct (map rf_name (pw_refunds w))" "r0 \<in> set (pw_refunds w)" "same_part r0 r"
  shows "carries_out w (save_refund r w)" "carries_out w (put_refund r w)"
  using put_same_part [OF assms] by (simp_all add: carries_out_def bills_of_def)

abbreviation named_once :: "world \<Rightarrow> bool" where
  "named_once w \<equiv> distinct (map rf_name (pw_refunds w))"

text \<open>Settling a refund moves its row on, out of the work, and leaves the rest.\<close>

definition moved_on :: "refund \<Rightarrow> refund \<Rightarrow> bool" where
  "moved_on r r' \<longleftrightarrow> rf_name r' = rf_name r \<and> rf_invoice r' = rf_invoice r \<and> rf_partial r' = rf_partial r
     \<and> rf_amount r' = rf_amount r \<and> rf_credit_note r' = rf_credit_note r \<and> rf_payment_record r' = rf_payment_record r
     \<and> rf_promotional_record r' = rf_promotional_record r \<and> rf_status r' \<noteq> UNDER_WAY"

definition same_tables :: "world \<Rightarrow> world \<Rightarrow> bool" where
  "same_tables w w' \<longleftrightarrow> pw_refunds w' = pw_refunds w \<and> pw_invoices w' = pw_invoices w \<and> pw_serial w' = pw_serial w"

definition settles_row :: "refund \<Rightarrow> world \<Rightarrow> world \<Rightarrow> bool" where
  "settles_row r w w' \<longleftrightarrow> (\<exists>r'. moved_on r r' \<and> same_tables (put_refund r' w) w')"

lemma same_tables_carries_out: "same_tables w w' \<Longrightarrow> carries_out w w'"
  by (rule carries_out_eqI) (simp_all add: same_tables_def bills_of_def)

lemma same_tables_intros [simp]:
  "same_tables w w" "same_tables w (review n t w)" "same_tables w (enqueue_steps n w)" "same_tables w (w\<lparr>pw_events := evs\<rparr>)"
  "same_tables w (w\<lparr>pw_ledger := l\<rparr>)" "same_tables w (put_attempt a w)" "same_tables w (put_webhook e w)"
  "same_tables (put_refund r w) (save_refund r w)"
  by (simp_all add: same_tables_def review_def enqueue_steps_def put_attempt_def put_webhook_def)

lemma same_tables_trans: "same_tables a b \<Longrightarrow> same_tables b c \<Longrightarrow> same_tables a c"
  by (simp add: same_tables_def)

lemma same_tables_put: "same_tables w w' \<Longrightarrow> same_tables (put_refund r w) (put_refund r w')"
  by (simp add: same_tables_def put_refund_def)

lemma settles_row_before: "same_tables w v \<Longrightarrow> settles_row r v w' \<Longrightarrow> settles_row r w w'"
  unfolding settles_row_def by (blast intro: same_tables_trans same_tables_put)

lemma settles_row_after: "settles_row r w v \<Longrightarrow> same_tables v w' \<Longrightarrow> settles_row r w w'"
  unfolding settles_row_def by (blast intro: same_tables_trans)

lemma settles_row_carries_out:
  assumes "settles_row r w w'" "named_once w" "r0 \<in> set (pw_refunds w)" "same_part r0 r" "rf_status r0 \<noteq> ''Failed''"
  shows "carries_out w w'"
proof -
  from assms(1) obtain r' where r': "moved_on r r'" "same_tables (put_refund r' w) w'" by (auto simp: settles_row_def)
  have "same_part r0 r'" using r'(1) assms(4,5) by (simp add: same_part_def moved_on_def)
  from carries_out_trans [OF save_carries_out(2) [OF assms(2,3) this] same_tables_carries_out [OF r'(2)]] show ?thesis .
qed

lemma finish_settles:
  assumes run: "finish_refund env r status w = Inr w'" and st: "status \<noteq> UNDER_WAY"
  shows "settles_row r w w'"
proof -
  from run obtain r' evs where t: "refund_transition (pe_ambient env) r status (Some ''refund'') (pw_events w) = Inr (r', evs)"
    "w' = save_refund (r'\<lparr>rf_completed_at := Some (pe_now env)\<rparr>) (w\<lparr>pw_events := evs\<rparr>)" by (auto simp: finish_refund_def bindE_Inr)
  have "moved_on r (r'\<lparr>rf_completed_at := Some (pe_now env)\<rparr>)" using refund_transition_Inr [OF t(1)] st by (simp add: moved_on_def)
  then have "settles_row r (w\<lparr>pw_events := evs\<rparr>) w'" unfolding settles_row_def t(2) by (blast intro: same_tables_intros)
  then show ?thesis by (rule settles_row_before [rotated]) simp
qed

lemma mark_refunded_frame: "mark_refunded env r actor w = Inr w' \<Longrightarrow> same_tables w w'"
  by (auto simp: mark_refunded_def bindE_Inr same_tables_def put_attempt_def split: option.splits if_splits)

lemma review_carries_out [simp]: "carries_out w (review n t w)" "carries_out w (enqueue_steps n w)"
  by (rule same_tables_carries_out, simp)+

lemma settle_gateway_cases:
  assumes run: "settle_gateway_refund env r status w = Inr (out, w')"
  shows "same_tables w w' \<and> (rf_status r \<in> {''Completed'', ''Failed''} \<or> status = ''Pending'')
    \<or> settles_row r w w' \<and> rf_status r \<noteq> ''Failed''"
proof (cases "rf_status r = ''Completed'' \<and> status = ''Failed''")
  case True
  have rev: "same_tables w (review n t (review n' t' w))" for n t n' t' by (simp add: same_tables_def review_def)
  from True run show ?thesis by (auto simp: settle_gateway_refund_def flag_failed_after_completion_def rev split: if_splits)
next
  case False
  show ?thesis
  proof (cases "rf_status r \<in> {''Completed'', ''Failed''} \<or> status = ''Pending''")
    case True
    with False run show ?thesis unfolding settle_gateway_refund_def if_not_P [OF False] by auto
  next
    case go: False
    let ?st = "if status = ''Completed'' then ''Completed'' else ''Failed''"
    from run obtain w1 iv where w1: "finish_refund env r ?st w = Inr w1" "find_invoice w1 (rf_invoice r) = Some iv"
      and rest: "(if status = ''Completed'' then bindE (mark_refunded env r ''refund'' w1) (\<lambda>w2. Inr (Settled_refund, w2))
                  else Inr (Settled_refund, review (rf_invoice r) ''Refund failed'' w1)) = Inr (out, w')"
      unfolding settle_gateway_refund_def if_not_P [OF False] if_not_P [OF go] by (auto simp: bindE_Inr split: option.splits)
    have "settles_row r w w1" by (rule finish_settles [OF w1(1)]) (simp add: UNDER_WAY_def)
    moreover have "same_tables w1 w'" using rest mark_refunded_frame by (auto simp: bindE_Inr split: if_splits)
    ultimately have "settles_row r w w'" by (rule settles_row_after)
    with go show ?thesis by simp
  qed
qed

lemma carries_out_named: "carries_out w w' \<Longrightarrow> named_once w' = named_once w"
proof -
  assume "carries_out w w'"
  then have "list_all2 (\<lambda>r r'. rf_name r = rf_name r') (pw_refunds w) (pw_refunds w')"
    unfolding carries_out_def by (auto intro: list_all2_mono simp: same_part_def)
  then have "map rf_name (pw_refunds w) = map rf_name (pw_refunds w')" by (induction rule: list_all2_induct) auto
  then show ?thesis by simp
qed

lemma return_part_frame: "return_part env iv r x note p tax w = Inr w' \<Longrightarrow> same_tables w w'"
  by (auto simp: return_part_def bindE_Inr split: if_splits)

lemma give_back_frame: "give_back_wallet env iv w = Inr w' \<Longrightarrow> same_tables w w'"
  by (auto simp: give_back_eq Let_def bindE_Inr)

lemma answer_settles:
  assumes go: "answer_refund env r result w = Inr w'" and r: "rf_status r = UNDER_WAY"
  shows "settles_row r w w'"
proof -
  let ?r = "r\<lparr>rf_gateway_id := rr_gateway_id result\<rparr>"
  have same: "settles_row ?r w w' \<Longrightarrow> settles_row r w w'" by (simp add: settles_row_def moved_on_def)
  show ?thesis
  proof (cases "rr_status result = ''Pending''")
    case True
    with go obtain r2 evs where t: "refund_transition (pe_ambient env) ?r ''Pending'' (Some ''refund'') (pw_events w) = Inr (r2, evs)"
      "w' = save_refund r2 (w\<lparr>pw_events := evs\<rparr>)" by (auto simp: answer_refund_def Let_def bindE_Inr)
    have "moved_on r r2" using refund_transition_Inr [OF t(1)] by (simp add: moved_on_def UNDER_WAY_def)
    then have "settles_row r (w\<lparr>pw_events := evs\<rparr>) w'" unfolding settles_row_def t(2) by (blast intro: same_tables_intros)
    then show ?thesis by (rule settles_row_before [rotated]) simp
  next
    case False
    with go obtain out where "settle_gateway_refund env ?r (rr_status result) w = Inr (out, w')" by (auto simp: answer_refund_def Let_def bindE_Inr)
    from settle_gateway_cases [OF this] r False same show ?thesis by (auto simp: UNDER_WAY_def)
  qed
qed

lemma settle_part_settles:
  assumes run: "settle_part env iv r w = Inr w'" and r: "rf_status r = UNDER_WAY"
  shows "settles_row r w w'"
proof -
  have fin: "settles_row r w v'" if "finish_refund env r ''Completed'' v = Inr v'" "same_tables w v" for v v'
    by (rule settles_row_before [OF that(2) finish_settles [OF that(1)]]) (simp add: UNDER_WAY_def)
  consider (part) "rf_destination r = ''Wallet''" "rf_partial r" | (wallet) "rf_destination r = ''Wallet''" "\<not> rf_partial r"
    | (dispute) "rf_destination r = ''Dispute''" | (source) "rf_destination r \<notin> {''Wallet'', ''Dispute''}" by auto
  then show ?thesis
  proof cases
    case part
    with run obtain w1 w2 where s: "return_part env iv r (rf_net_amount r) (''Refund on invoice '' @ inv_name iv) True (rf_tax_amount r) w = Inr w1"
      "return_part env iv r (rf_promotional_amount r) (''Promotional credit back from invoice '' @ inv_name iv) False 0 w1 = Inr w2"
      "finish_refund env r ''Completed'' w2 = Inr w'" by (auto simp: settle_part_def bindE_Inr)
    show ?thesis by (rule fin [OF s(3) same_tables_trans [OF return_part_frame [OF s(1)] return_part_frame [OF s(2)]]])
  next
    case wallet
    with run obtain w1 where "give_back_wallet env iv w = Inr w1" "finish_refund env r ''Completed'' w1 = Inr w'"
      by (auto simp: settle_part_def bindE_Inr)
    with give_back_frame fin show ?thesis by blast
  next
    case dispute
    with run obtain w1 where "finish_refund env r ''Completed'' w = Inr w1" "mark_refunded env r ''dispute'' w1 = Inr w'"
      by (auto simp: settle_part_def bindE_Inr)
    with fin mark_refunded_frame settles_row_after same_tables_intros(1) show ?thesis by blast
  next
    case source
    with run obtain result where "answer_refund env r result w = Inr w'"
      unfolding settle_part_def by (auto simp: bindE_Inr split: option.splits)
    from answer_settles [OF this r] show ?thesis .
  qed
qed

section \<open>The books of what goes back\<close>

text \<open>
  Refunds have distinct names, also from the names still to come; partial refunds are of whole,
  non-negative cents; and no invoice promises back more than its total.
\<close>

definition corrections_ok :: "(nat \<Rightarrow> string) \<Rightarrow> world \<Rightarrow> bool" where
  "corrections_ok h w \<longleftrightarrow> named_once w \<and> one_row_each w
     \<and> (\<forall>r \<in> set (pw_refunds w). \<forall>k \<ge> pw_serial w. rf_name r \<noteq> h k)
     \<and> (\<forall>r \<in> set (pw_refunds w). rf_partial r \<longrightarrow> 0 \<le> rf_amount r \<and> is_cents (rf_amount r))
     \<and> (\<forall>(n, cap) \<in> set (bills_of w). is_cents cap \<and> given n w \<le> cap)"

lemma corrections_okD:
  assumes "corrections_ok h w"
  shows "named_once w" "one_row_each w" "r \<in> set (pw_refunds w) \<Longrightarrow> pw_serial w \<le> k \<Longrightarrow> rf_name r \<noteq> h k"
    "r \<in> set (pw_refunds w) \<Longrightarrow> rf_partial r \<Longrightarrow> 0 \<le> rf_amount r \<and> is_cents (rf_amount r)"
    "(n, cap) \<in> set (bills_of w) \<Longrightarrow> is_cents cap \<and> given n w \<le> cap"
  using assms unfolding corrections_ok_def by blast+

lemma bills_of_found: "find_invoice w n = Some iv \<Longrightarrow> (n, inv_total iv) \<in> set (bills_of w)"
  using find_Some [of _ "pw_invoices w" iv] by (force simp: find_invoice_def bills_of_def)

lemma bills_rows: "bills_of w' = bills_of w \<Longrightarrow> one_row_each w' = one_row_each w"
proof -
  have "map inv_name (pw_invoices v) = map fst (bills_of v)" for v by (simp add: bills_of_def)
  then show "bills_of w' = bills_of w \<Longrightarrow> one_row_each w' = one_row_each w" by (simp add: one_row_each_def)
qed

lemma given_mono:
  assumes "list_all2 same_part rs rs'" "\<forall>r \<in> set rs. rf_partial r \<longrightarrow> 0 \<le> rf_amount r"
  shows "sum_where (counts_as_given n) rf_amount rs' \<le> sum_where (counts_as_given n) rf_amount rs"
  using assms by (induction rule: list_all2_induct) (auto simp: same_part_def counts_as_given_def)

lemma part_fields:
  assumes "list_all2 same_part rs rs'" "r' \<in> set rs'"
  obtains r where "r \<in> set rs" "same_part r r'"
proof -
  from assms(2) obtain i where i: "i < length rs'" "r' = rs' ! i" by (auto simp: in_set_conv_nth)
  with assms(1) have "rs ! i \<in> set rs" "same_part (rs ! i) r'" by (auto simp: list_all2_conv_all_nth)
  then show thesis by (rule that)
qed

lemma carries_out_ok:
  assumes c: "carries_out w w'" and ok: "corrections_ok h w"
  shows "corrections_ok h w'"
proof -
  have l: "list_all2 same_part (pw_refunds w) (pw_refunds w')" and b: "bills_of w' = bills_of w" and s: "pw_serial w' = pw_serial w"
    using c by (simp_all add: carries_out_def)
  have row: "\<exists>r \<in> set (pw_refunds w). same_part r r'" if "r' \<in> set (pw_refunds w')" for r'
    using part_fields [OF l that] by blast
  have "given n w' \<le> given n w" for n
    unfolding given_def by (rule given_mono [OF l]) (use corrections_okD(4) [OF ok] in blast)
  then have totals: "is_cents cap \<and> given n w' \<le> cap" if "(n, cap) \<in> set (bills_of w')" for n cap
    using corrections_okD(5) [OF ok] that b by (metis order_trans)
  have "rf_name r' \<noteq> h k" if "r' \<in> set (pw_refunds w')" "pw_serial w' \<le> k" for r' k
  proof -
    from row [OF that(1)] obtain r where "r \<in> set (pw_refunds w)" "rf_name r' = rf_name r" by (auto simp: same_part_def)
    with corrections_okD(3) [OF ok, of r k] that(2) s show ?thesis by simp
  qed
  moreover have "0 \<le> rf_amount r' \<and> is_cents (rf_amount r')" if "r' \<in> set (pw_refunds w')" "rf_partial r'" for r'
    using row [OF that(1)] corrections_okD(4) [OF ok] that(2) by (auto simp: same_part_def)
  ultimately show ?thesis
    using totals carries_out_named [OF c] bills_rows [OF b] corrections_okD(1,2) [OF ok] unfolding corrections_ok_def by blast
qed

text \<open>A new refund, with a fresh name; a partial one within what is left.\<close>

lemma book_refund_ok:
  assumes ok: "corrections_ok h w" and h: "inj h" and name: "rf_name r = h (pw_serial w)"
    and part: "rf_partial r \<Longrightarrow> 0 \<le> rf_amount r \<and> is_cents (rf_amount r) \<and> rf_status r = UNDER_WAY
      \<and> (\<forall>cap. (rf_invoice r, cap) \<in> set (bills_of w) \<longrightarrow> given (rf_invoice r) w + rf_amount r \<le> cap)"
  shows "corrections_ok h (book_refund r w)"
proof -
  let ?w = "book_refund r w"
  have f: "pw_refunds ?w = pw_refunds w @ [r]" "pw_serial ?w = Suc (pw_serial w)" "bills_of ?w = bills_of w"
    by (simp_all add: book_refund_def bills_of_def)
  have g: "given n ?w = given n w + (if counts_as_given n r then rf_amount r else 0)" for n by (simp add: given_def f(1))
  have "rf_name x \<noteq> rf_name r" if "x \<in> set (pw_refunds w)" for x
    using corrections_okD(3) [OF ok that, of "pw_serial w"] name by simp
  then have "named_once ?w" using corrections_okD(1) [OF ok] by (force simp: f(1))
  moreover have "one_row_each ?w" using corrections_okD(2) [OF ok] bills_rows [OF f(3)] by simp
  moreover have "rf_name x \<noteq> h k" if "x \<in> set (pw_refunds ?w)" "pw_serial ?w \<le> k" for x k
    using that corrections_okD(3) [OF ok, of x k] name injD [OF h, of "pw_serial w" k] by (auto simp: f)
  moreover have "0 \<le> rf_amount x \<and> is_cents (rf_amount x)" if "x \<in> set (pw_refunds ?w)" "rf_partial x" for x
    using that corrections_okD(4) [OF ok] part by (auto simp: f(1))
  moreover have "is_cents cap \<and> given n ?w \<le> cap" if "(n, cap) \<in> set (bills_of ?w)" for n cap
    using that corrections_okD(5) [OF ok, of n cap] part unfolding g f(3) by (auto simp: counts_as_given_def)
  ultimately show ?thesis unfolding corrections_ok_def by blast
qed

lemma cents_within:
  assumes "is_cents a" "is_cents b" "a \<le> b + 5 / 1000"
  shows "a \<le> b"
proof -
  from assms(1,2) obtain i j :: int where ij: "a = of_int i / 100" "b = of_int j / 100" by (auto simp: is_cents_iff)
  from assms(3) have "(of_int (2 * i) :: rat) \<le> of_int (2 * j + 1)" by (simp add: ij field_simps)
  then have "2 * i \<le> 2 * j + 1" by (simp only: of_int_le_iff)
  then have "i \<le> j" by linarith
  then show ?thesis by (simp add: ij divide_right_mono)
qed

lemma given_cents: "corrections_ok h w \<Longrightarrow> is_cents (given n w)"
proof -
  assume ok: "corrections_ok h w"
  have "is_cents (sum_where (counts_as_given n) rf_amount rs)" if "\<forall>r \<in> set rs. rf_partial r \<longrightarrow> is_cents (rf_amount r)" for rs
    using that by (induction rs) (auto simp: counts_as_given_def)
  then show ?thesis unfolding given_def using corrections_okD(4) [OF ok] by blast
qed

text \<open>What is left of an invoice is exactly its total less what was promised back.\<close>

lemma refundable_eq:
  assumes ok: "corrections_ok h w" and r2: "cents_rounding r2" and iv: "find_invoice w n = Some iv"
  shows "refundable r2 iv w = inv_total iv - given n w" "is_cents (refundable r2 iv w)"
proof -
  have n: "inv_name iv = n" by (rule find_invoice_name [OF iv])
  have "is_cents (inv_total iv)" using corrections_okD(5) [OF ok bills_of_found [OF iv]] by simp
  then have c: "is_cents (inv_total iv - given n w)" using given_cents [OF ok] by (rule is_cents_diff)
  show "refundable r2 iv w = inv_total iv - given n w" unfolding refundable_def n given_def [symmetric] by (rule cents_rounding_id [OF r2 c])
  with c show "is_cents (refundable r2 iv w)" by simp
qed

lemma bills_unique: "one_row_each w \<Longrightarrow> (n, a) \<in> set (bills_of w) \<Longrightarrow> (n, b) \<in> set (bills_of w) \<Longrightarrow> a = b"
  by (rule eq_key_imp_eq_value [of "bills_of w" n]) (simp_all add: bills_of_def one_row_each_def o_def)

lemma refund_part_ok:
  assumes run: "refund_part env invoice amount reason destination dispute w = Inr w'" and ok: "corrections_ok (pe_hash env) w"
    and env: "cents_rounding (pe_r2 env)" "inj (pe_hash env)"
  shows "corrections_ok (pe_hash env) w'"
proof -
  let ?r2 = "pe_r2 env" let ?x = "?r2 amount"
  from run obtain iv where iv: "find_invoice w invoice = Some iv" by (auto simp: refund_part_def split: option.splits)
  have n: "inv_name iv = invoice" by (rule find_invoice_name [OF iv])
  from run iv obtain dest attempt gid net tax promo where x: "0 < ?x" "?x < refundable ?r2 iv w + 5 / 1000"
    and w': "w' = enqueue_steps invoice (review invoice (''Refunded to the '' @ dest @ '': '' @ reason)
       (book_refund ((new_refund env iv dest ?x reason w)\<lparr>rf_partial := True, rf_attempt := attempt, rf_gateway_id := gid,
          rf_net_amount := net, rf_tax_amount := tax, rf_promotional_amount := promo\<rparr>) w))"
    unfolding refund_part_def Let_def by (auto simp: bindE_Inr split_beta split: if_splits)
  define r where "r = (new_refund env iv dest ?x reason w)\<lparr>rf_partial := True, rf_attempt := attempt, rf_gateway_id := gid,
          rf_net_amount := net, rf_tax_amount := tax, rf_promotional_amount := promo\<rparr>"
  have rx: "rf_amount r = ?x" "rf_invoice r = invoice" "rf_status r = UNDER_WAY" "rf_name r = pe_hash env (pw_serial w)"
    using cents_rounding_id [OF env(1) cents_rounding_cents [OF env(1)]] by (simp_all add: r_def new_refund_def n)
  have "?x \<le> inv_total iv - given invoice w"
    using cents_within [OF cents_rounding_cents [OF env(1)] refundable_eq(2) [OF ok env(1) iv] less_imp_le [OF x(2)]] refundable_eq(1) [OF ok env(1) iv] by simp
  then have "given invoice w + ?x \<le> cap" if "(invoice, cap) \<in> set (bills_of w)" for cap
    using bills_unique [OF corrections_okD(2) [OF ok] that bills_of_found [OF iv]] by simp
  then have "corrections_ok (pe_hash env) (book_refund r w)"
    using x(1) by (intro book_refund_ok [OF ok env(2) rx(4)]) (auto simp: rx env(1))
  from carries_out_ok [OF review_carries_out(1) this] show ?thesis
    unfolding w' r_def [symmetric] by (blast intro: carries_out_ok [OF review_carries_out(2)])
qed

lemma fold_books_ok:
  assumes "corrections_ok (pe_hash env) w" "inj (pe_hash env)"
  shows "corrections_ok (pe_hash env) (fold (book_charge_refund env iv reason dispute) as w)"
    and "pw_invoices (fold (book_charge_refund env iv reason dispute) as w) = pw_invoices w"
proof -
  have step: "corrections_ok (pe_hash env) (book_charge_refund env iv reason dispute a v) \<and> pw_invoices (book_charge_refund env iv reason dispute a v) = pw_invoices v"
    if "corrections_ok (pe_hash env) v" for a v
  proof
    show "corrections_ok (pe_hash env) (book_charge_refund env iv reason dispute a v)"
      unfolding book_charge_refund_def Let_def by (rule book_refund_ok [OF that assms(2)]) (simp_all add: new_refund_def)
  qed (simp add: book_charge_refund_def book_refund_def Let_def)
  show "corrections_ok (pe_hash env) (fold (book_charge_refund env iv reason dispute) as w)"
    "pw_invoices (fold (book_charge_refund env iv reason dispute) as w) = pw_invoices w"
    using assms(1) by (induction as arbitrary: w) (simp_all add: step)
qed

lemma cancel_and_refund_ok:
  assumes run: "cancel_and_refund env invoice reason dispute w = Inr w'" and ok: "corrections_ok (pe_hash env) w" and h: "inj (pe_hash env)"
  shows "corrections_ok (pe_hash env) w'"
proof -
  from run obtain iv where iv: "find_invoice w invoice = Some iv" by (auto simp: cancel_and_refund_def split: option.splits)
  define w1 where "w1 = fold (book_charge_refund env iv reason dispute) (captured_attempts invoice w) w"
  define w2 where "w2 = (if inv_credit_applied iv + inv_advance_tax_applied iv > 0
    then book_refund (new_refund env iv ''Wallet'' (inv_credit_applied iv + inv_advance_tax_applied iv) reason w1) w1 else w1)"
  from run iv obtain iv' evs where tr: "invoice_transition (pe_ambient env) iv ''Cancelled'' (Some reason) (am_user (pe_ambient env)) None (pw_events w2) = Inr (iv', evs)"
    and w': "w' = enqueue_steps invoice (review invoice (''Cancelled and refunded: '' @ reason) (save_invoice iv' (w2\<lparr>pw_events := evs\<rparr>)))"
    unfolding cancel_and_refund_def Let_def by (auto simp: bindE_Inr w1_def w2_def split: if_splits)
  note F = fold_books_ok [OF ok h, of iv reason dispute "captured_attempts invoice w", folded w1_def]
  have ok2: "corrections_ok (pe_hash env) w2"
    unfolding w2_def by (auto intro!: F(1) book_refund_ok [OF F(1) h] simp: new_refund_def)
  have "pw_invoices w2 = pw_invoices w" by (simp add: w2_def F(2) book_refund_def)
  then have found: "find_invoice (w2\<lparr>pw_events := evs\<rparr>) (inv_name (set_period_key iv')) = Some iv" "inv_total (set_period_key iv') = inv_total iv"
    using iv find_invoice_name [OF iv] invoice_transition_cases [OF tr] by (simp_all add: find_invoice_def)
  have rows: "one_row_each (w2\<lparr>pw_events := evs\<rparr>)" using corrections_okD(2) [OF ok2] by (simp add: one_row_each_def)
  have "carries_out w2 (save_invoice iv' (w2\<lparr>pw_events := evs\<rparr>))"
    unfolding save_invoice_def by (rule carries_out_eqI) (simp_all add: bills_put_invoice [OF found rows], simp add: bills_of_def)
  from carries_out_trans [OF carries_out_trans [OF this review_carries_out(1)] review_carries_out(2)] ok2 show ?thesis
    unfolding w' by (blast intro: carries_out_ok)
qed

section \<open>Retrying\<close>

lemma swap_row:
  assumes "named_once w" "r \<in> set (pw_refunds w)" "rf_name r' = rf_name r"
  obtains as bs where "pw_refunds w = as @ r # bs" "pw_refunds (put_refund r' w) = as @ r' # bs"
proof -
  obtain as bs where l: "pw_refunds w = as @ r # bs" using split_list [OF assms(2)] by blast
  have "rf_name r' \<notin> rf_name ` (set as \<union> set bs)" using assms(1,3) by (simp add: l image_Un)
  then have "rf_name x \<noteq> rf_name r'" if "x \<in> set as \<union> set bs" for x
    using imageI [OF that, of rf_name] by metis
  then have "map (\<lambda>x. if rf_name x = rf_name r' then r' else x) xs = xs" if "set xs \<subseteq> set as \<union> set bs" for xs
    using that by (intro map_idI) auto
  then have "pw_refunds (put_refund r' w) = as @ r' # bs" by (simp add: put_refund_def l assms(3))
  with l show thesis by (rule that)
qed

text \<open>Moving a failed refund back to work promises its part again.\<close>

lemma revive_given:
  assumes "named_once w" "r0 \<in> set (pw_refunds w)" "rf_status r0 = ''Failed''" "rf_name r = rf_name r0"
  shows "given n (put_refund r w) = given n w + (if counts_as_given n r then rf_amount r else 0)"
proof -
  from swap_row [OF assms(1,2,4)] obtain as bs where "pw_refunds w = as @ r0 # bs" "pw_refunds (put_refund r w) = as @ r # bs"
    by blast
  with assms(3) show ?thesis by (simp add: given_def counts_as_given_def)
qed

lemma revive_ok:
  assumes ok: "corrections_ok h w" and r0: "r0 \<in> set (pw_refunds w)" "rf_status r0 = ''Failed''"
    and r: "rf_name r = rf_name r0" "rf_partial r = rf_partial r0" "rf_amount r = rf_amount r0" "rf_invoice r = rf_invoice r0"
    and room: "rf_partial r \<Longrightarrow> (\<forall>cap. (rf_invoice r, cap) \<in> set (bills_of w) \<longrightarrow> given (rf_invoice r) w + rf_amount r \<le> cap)"
  shows "corrections_ok h (put_refund r w)"
proof -
  let ?w = "put_refund r w"
  note g = revive_given [OF corrections_okD(1) [OF ok] r0 r(1)]
  have b: "bills_of ?w = bills_of w" by (simp add: bills_of_def)
  have row: "\<exists>y \<in> set (pw_refunds w). rf_name x = rf_name y \<and> rf_partial x = rf_partial y \<and> rf_amount x = rf_amount y"
    if "x \<in> set (pw_refunds ?w)" for x using that r0(1) r by (auto simp: put_refund_def split: if_splits)
  have "map rf_name (pw_refunds ?w) = map rf_name (pw_refunds w)" by (simp add: put_refund_def)
  then have "named_once ?w" using corrections_okD(1) [OF ok] by simp
  moreover have "rf_name x \<noteq> h k" if "x \<in> set (pw_refunds ?w)" "pw_serial ?w \<le> k" for x k
    using row [OF that(1)] corrections_okD(3) [OF ok, of _ k] that(2) by fastforce
  moreover have "0 \<le> rf_amount x \<and> is_cents (rf_amount x)" if "x \<in> set (pw_refunds ?w)" "rf_partial x" for x
    using row [OF that(1)] corrections_okD(4) [OF ok] that(2) by auto
  moreover have "is_cents cap \<and> given n ?w \<le> cap" if "(n, cap) \<in> set (bills_of ?w)" for n cap
    using that corrections_okD(5) [OF ok, of n cap] room unfolding g b by (auto simp: counts_as_given_def)
  ultimately show ?thesis using bills_rows [OF b] corrections_okD(2) [OF ok] unfolding corrections_ok_def by blast
qed

text \<open>The failed refunds the loop still has to take, as they stand in the table.\<close>

definition to_retry :: "string \<Rightarrow> refund list \<Rightarrow> world \<Rightarrow> bool" where
  "to_retry invoice rs w \<longleftrightarrow> distinct (map rf_name rs)
     \<and> (\<forall>r \<in> set rs. r \<in> set (pw_refunds w) \<and> rf_status r = ''Failed'' \<and> rf_invoice r = invoice)"

lemma retry_each_ok:
  assumes "retry_each env invoice rs left w = Inr w'" "corrections_ok h w" "to_retry invoice rs w" "is_cents left"
    and "\<forall>cap. (invoice, cap) \<in> set (bills_of w) \<longrightarrow> given invoice w + left \<le> cap"
  shows "corrections_ok h w'"
  using assms
proof (induction env invoice rs left w rule: retry_each.induct)
  case (2 env invoice r rs left w)
  have room: "rf_partial r \<Longrightarrow> rf_amount r \<le> left + 5 / 1000" using "2.prems"(1) by (auto split: if_splits)
  with "2.prems"(1) obtain doc evs where t: "transition (pe_ambient env) (sdoc_of ''Refund'' (rf_name r) (rf_team r) (rf_status r) (Some (rf_currency r)))
      UNDER_WAY None (am_user (pe_ambient env)) (Some invoice) None None (pw_events w) = Inr (doc, evs)"
    and rest: "retry_each env invoice rs (if rf_partial r then left - rf_amount r else left)
      (save_refund (r\<lparr>rf_retries := Suc (rf_retries r), rf_status := the (sd_fields doc ''status'')\<rparr>) (w\<lparr>pw_events := evs\<rparr>)) = Inr w'"
    by (auto simp: bindE_Inr split: if_splits)
  let ?r = "r\<lparr>rf_retries := Suc (rf_retries r), rf_status := the (sd_fields doc ''status'')\<rparr>" and ?v = "w\<lparr>pw_events := evs\<rparr>"
  let ?left = "if rf_partial r then left - rf_amount r else left"
  from "2.prems"(3) have r: "r \<in> set (pw_refunds w)" "rf_status r = ''Failed''" "rf_invoice r = invoice" by (auto simp: to_retry_def)
  have v: "corrections_ok h ?v" "given n ?v = given n w" "bills_of ?v = bills_of w" for n
    using carries_out_ok [OF carries_out_eqI "2.prems"(2), of ?v] by (simp_all add: bills_of_def given_def)
  have fits: "rf_partial r \<Longrightarrow> rf_amount r \<le> left"
    using cents_within [OF _ "2.prems"(4) room] corrections_okD(4) [OF "2.prems"(2) r(1)] by simp
  have within: "given invoice w + rf_amount r \<le> cap" if "(invoice, cap) \<in> set (bills_of w)" "rf_partial r" for cap
    using "2.prems"(5) that(1) fits [OF that(2)] by force
  have put: "corrections_ok h (put_refund ?r ?v)"
    by (rule revive_ok [OF v(1), of r]) (auto simp: r v within)
  have g: "given invoice (put_refund ?r ?v) = given invoice w + (if counts_as_given invoice ?r then rf_amount r else 0)"
    using revive_given [of ?v r ?r invoice] corrections_okD(1) [OF v(1)] r by (simp add: v(2))
  have same: "corrections_ok h (save_refund ?r ?v)" "given invoice (save_refund ?r ?v) = given invoice (put_refund ?r ?v)"
    "bills_of (save_refund ?r ?v) = bills_of w"
    using carries_out_ok [OF carries_out_eqI put, of "save_refund ?r ?v"] by (simp_all add: bills_of_def given_def)
  have others: "to_retry invoice rs (save_refund ?r ?v)"
    using "2.prems"(3) by (auto simp: to_retry_def put_refund_def image_iff intro!: bexI [rotated])
  have "given invoice (save_refund ?r ?v) + ?left \<le> cap" if "(invoice, cap) \<in> set (bills_of (save_refund ?r ?v))" for cap
    using "2.prems"(5) that corrections_okD(4) [OF "2.prems"(2) r(1)] unfolding same(2,3) g by (auto simp: counts_as_given_def)
  moreover have "is_cents ?left" using "2.prems"(4) corrections_okD(4) [OF "2.prems"(2) r(1)] by auto
  moreover have "\<not> (rf_partial r \<and> rf_amount r > left + 5 / 1000)" using room by auto
  ultimately show ?case using "2.IH" t rest same(1) others by fastforce
qed simp

lemma retry_failed_ok:
  assumes run: "retry_failed_refunds env invoice w = Inr (n, w')" and ok: "corrections_ok h w" and r2: "cents_rounding (pe_r2 env)"
  shows "corrections_ok h w'"
proof -
  from run obtain iv v where iv: "find_invoice w invoice = Some iv"
    and go: "retry_each env invoice (failed_source_refunds invoice w) (refundable (pe_r2 env) iv w) w = Inr v"
    and w': "w' = v \<or> w' = enqueue_steps invoice v"
    by (auto simp: retry_failed_refunds_def bindE_Inr Let_def split: option.splits if_splits)
  note left = refundable_eq [OF ok r2 iv]
  have "to_retry invoice (failed_source_refunds invoice w) w"
    using corrections_okD(1) [OF ok] by (auto simp: to_retry_def failed_source_refunds_def refunds_of_def distinct_map_filter)
  moreover have "\<forall>cap. (invoice, cap) \<in> set (bills_of w) \<longrightarrow> given invoice w + refundable (pe_r2 env) iv w \<le> cap"
    using bills_unique [OF corrections_okD(2) [OF ok] _ bills_of_found [OF iv]] by (simp add: left(1))
  ultimately have "corrections_ok h v" using retry_each_ok [OF go ok] left(2) by blast
  with w' show ?thesis by (auto intro: carries_out_ok [OF review_carries_out(2)])
qed

section \<open>The chain of jobs and the events\<close>

text \<open>What the chain still has to do for a refund: carry it out, and its three documents.\<close>

definition due :: "refund \<Rightarrow> nat" where
  "due r = of_bool (rf_status r = UNDER_WAY) + of_bool (\<not> truthy (rf_credit_note r))
     + of_bool (\<not> truthy (rf_payment_record r)) + of_bool (\<not> truthy (rf_promotional_record r))"

definition names_documents :: "accounting \<Rightarrow> bool" where
  "names_documents ac \<longleftrightarrow> (\<forall>iv. ac_credit_note ac iv \<noteq> Inr []) \<and> (\<forall>iv r. ac_partial_note ac iv r \<noteq> Inr [])
     \<and> (\<forall>iv r x. ac_payment_out ac iv r x \<noteq> Inr []) \<and> (\<forall>iv x. ac_promotional_return ac iv x \<noteq> Inr [])"

text \<open>A step of the chain is about a refund of the table that still needs it.\<close>

fun step_refund :: "correction_step \<Rightarrow> refund option" where
  "step_refund (Settle_part r) = Some r"
| "step_refund (Partial_credit_note r) = Some r"
| "step_refund Full_credit_note = None"
| "step_refund (Record_payment r) = Some r"
| "step_refund (Reverse_promotional r) = Some r"

fun step_due :: "invoice \<Rightarrow> correction_step \<Rightarrow> bool" where
  "step_due iv (Settle_part r) = (rf_status r = UNDER_WAY)"
| "step_due iv (Partial_credit_note r) = (\<not> truthy (rf_credit_note r))"
| "step_due iv Full_credit_note = (\<not> truthy (inv_credit_note iv))"
| "step_due iv (Record_payment r) = (\<not> truthy (rf_payment_record r))"
| "step_due iv (Reverse_promotional r) = (\<not> truthy (rf_promotional_record r))"

lemma find_filter_in: "find P (filter Q xs) = Some x \<Longrightarrow> x \<in> set xs"
  using find_Some [of P "filter Q xs" x] by simp

lemma next_step_due:
  assumes "next_step r2 iv acc w = Some s"
  shows "step_due iv s" "step_refund s = Some r \<Longrightarrow> r \<in> set (pw_refunds w) \<and> rf_invoice r = inv_name iv"
proof -
  let ?rs = "refunds_of (inv_name iv) w" and ?bs = "filter (\<lambda>r. \<not> rf_late_capture r) (refunds_of (inv_name iv) w)"
  consider (settle) r where "s = Settle_part r" "find (\<lambda>r. rf_status r = UNDER_WAY) ?rs = Some r"
    | (part_note) r where "s = Partial_credit_note r" "find is_partial_credit_note_due ?bs = Some r"
    | (full) "s = Full_credit_note" "\<not> truthy (inv_credit_note iv)"
    | (pay) r where "s = Record_payment r"
        "find (\<lambda>r. rf_status r = ''Completed'' \<and> \<not> truthy (rf_payment_record r) \<and> money_to_record r2 iv r \<noteq> 0) ?bs = Some r"
    | (promo) r where "s = Reverse_promotional r" "find (is_promotional_reversal_due iv) ?bs = Some r"
    using assms unfolding next_step_def credit_note_step_def payment_out_step_def Let_def
    by (auto split: option.splits if_splits)
  then have "step_due iv s \<and> (\<forall>r. step_refund s = Some r \<longrightarrow> r \<in> set ?rs)"
  proof cases
    case settle then show ?thesis using find_Some [OF settle(2)] by simp
  next
    case part_note then show ?thesis using find_Some [OF part_note(2)] by (simp add: is_partial_credit_note_due_def)
  next
    case pay then show ?thesis using find_Some [OF pay(2)] by simp
  next
    case promo then show ?thesis using find_Some [OF promo(2)] by (simp add: is_promotional_reversal_due_def)
  qed simp
  then show "step_due iv s" "step_refund s = Some r \<Longrightarrow> r \<in> set (pw_refunds w) \<and> rf_invoice r = inv_name iv"
    by (auto simp: refunds_of_def)
qed

lemma moved_on_due: "moved_on r r' \<Longrightarrow> rf_status r = UNDER_WAY \<Longrightarrow> due r' < due r"
  by (simp add: moved_on_def due_def)

lemma moved_on_same_part: "moved_on r r' \<Longrightarrow> rf_status r \<noteq> ''Failed'' \<Longrightarrow> same_part r r'"
  by (simp add: moved_on_def same_part_def)

lemma truthy_Some [simp]: "truthy (Some n) \<longleftrightarrow> n \<noteq> []"
  by (simp add: truthy_def)

lemma take_step_serves:
  assumes run: "take_step env ac iv s w = Inr w'" and s: "step_due iv s" "step_refund s = Some r"
  shows "\<exists>r'. same_part r r' \<and> (names_documents ac \<longrightarrow> due r' < due r) \<and> same_tables (put_refund r' w) w'"
proof (cases s)
  case (Settle_part r1)
  with run s have "settles_row r w w'" "rf_status r = UNDER_WAY" using settle_part_settles by (auto simp: take_step_def)
  then show ?thesis unfolding settles_row_def using moved_on_due moved_on_same_part by (fastforce simp: UNDER_WAY_def)
next
  case (Partial_credit_note r1)
  with run s obtain n where n: "ac_partial_note ac iv r = Inr n" "w' = put_refund (r\<lparr>rf_credit_note := Some n\<rparr>) w"
    by (auto simp: take_step_def bindE_Inr)
  show ?thesis by (rule exI [of _ "r\<lparr>rf_credit_note := Some n\<rparr>"]) (use n s Partial_credit_note in \<open>auto simp: same_part_def due_def names_documents_def\<close>)
next
  case (Record_payment r1)
  with run s have "record_payment env ac iv r w = Inr w'" by (simp add: take_step_def)
  then obtain x n adv l where n: "ac_payment_out ac iv r x = Inr n"
    "w' = put_refund (r\<lparr>rf_payment_record := Some n, rf_advance := adv\<rparr>) (w\<lparr>pw_ledger := l\<rparr>)"
    unfolding record_payment_def
    by (auto simp: bindE_Inr split: if_splits intro: that [where adv = "rf_advance r" and l = "pw_ledger w"])
  show ?thesis by (rule exI [of _ "r\<lparr>rf_payment_record := Some n, rf_advance := adv\<rparr>"])
      (use n s Record_payment in \<open>auto simp: same_part_def due_def names_documents_def same_tables_put\<close>)
next
  case (Reverse_promotional r1)
  with run s obtain x n where n: "ac_promotional_return ac iv x = Inr n" "w' = put_refund (r\<lparr>rf_promotional_record := Some n\<rparr>) w"
    by (auto simp: take_step_def bindE_Inr)
  show ?thesis by (rule exI [of _ "r\<lparr>rf_promotional_record := Some n\<rparr>"]) (use n s Reverse_promotional in \<open>auto simp: same_part_def due_def names_documents_def\<close>)
qed (use s in simp)

text \<open>The one step without a refund: the invoice's own credit note.\<close>

lemma take_step_full:
  assumes "take_step env ac iv s w = Inr w'" "step_refund s = None"
  obtains n where "ac_credit_note ac iv = Inr n" "w' = put_invoice (iv\<lparr>inv_credit_note := Some n\<rparr>) w"
  using assms by (cases s) (auto simp: take_step_def bindE_Inr)

lemma put_invoice_refunds [simp]: "pw_refunds (put_invoice iv w) = pw_refunds w" "pw_serial (put_invoice iv w) = pw_serial w"
  by (simp_all add: put_invoice_def)

lemma run_cancellation_ok:
  assumes run: "run_cancellation env ac got_lock n w = Inr w'" and ok: "corrections_ok h w"
  shows "corrections_ok h w'"
proof -
  note D = corrections_okD(1,2) [OF ok]
  consider "w' = w" | iv s v where "find_invoice w n = Some iv" "next_step (pe_r2 env) iv (ac_enabled ac) w = Some s"
      "take_step env ac iv s w = Inr v" "w' = enqueue_steps n v"
    using run by (auto simp: run_cancellation_def bindE_Inr split: if_splits option.splits)
  then show ?thesis
  proof cases
    case (2 iv s v)
    note due = next_step_due [OF 2(2)]
    have "carries_out w v"
    proof (cases "step_refund s")
      case None
      have n: "inv_name iv = n" by (rule find_invoice_name [OF 2(1)])
      from take_step_full [OF 2(3) None] obtain m where "v = put_invoice (iv\<lparr>inv_credit_note := Some m\<rparr>) w" by blast
      then show ?thesis using bills_put_invoice [of w "iv\<lparr>inv_credit_note := Some m\<rparr>" iv] 2(1) D(2) n by (intro carries_out_eqI) simp_all
    next
      case (Some r)
      from take_step_serves [OF 2(3) due(1) Some] obtain r' where r': "same_part r r'" "same_tables (put_refund r' w) v" by blast
      have "r \<in> set (pw_refunds w)" using due(2) [OF Some] by simp
      from carries_out_trans [OF save_carries_out(2) [OF D(1) this r'(1)] same_tables_carries_out [OF r'(2)]] show ?thesis .
    qed
    then have "carries_out w w'" unfolding 2(4) by (rule carries_out_trans) simp
    then show ?thesis using ok by (rule carries_out_ok)
  qed (use ok in simp)
qed

lemma apply_refund_event_ok:
  assumes run: "apply_refund_event env name w = Inr (res, w')" and ok: "corrections_ok h w"
  shows "corrections_ok h w'"
proof -
  have mark: "same_tables v v'" if "marked env e st x v = Inr (y, v')" for e st x v y v'
    using that by (auto simp: marked_def mark_event_def bindE_Inr Let_def same_tables_def put_webhook_def)
  from run obtain e where e: "find_webhook w name = Some e" by (auto simp: apply_refund_event_def split: option.splits)
  show ?thesis
  proof (cases "Option.bind (we_refund e) (\<lambda>(i, status). map_option (\<lambda>r. (r, status)) (refund_with_id i w))")
    case None
    with run e have "same_tables w w'" by (auto simp: apply_refund_event_def intro: mark)
    then show ?thesis using ok same_tables_carries_out carries_out_ok by blast
  next
    case (Some rs)
    then obtain r status i where r: "rs = (r, status)" "refund_with_id i w = Some r" by (auto split: option.splits simp: bind_eq_Some_conv)
    with run e Some obtain out v where v: "settle_gateway_refund env r status w = Inr (out, v)"
      "marked env e ''Processed'' Other_handled (enqueue_steps (rf_invoice r) v) = Inr (res, w')"
      by (auto simp: apply_refund_event_def bindE_Inr)
    have "r \<in> set (pw_refunds w)" using find_Some r(2) by (fastforce simp: refund_with_id_def)
    with settle_gateway_cases [OF v(1)] have "carries_out w v"
      using same_tables_carries_out settles_row_carries_out [OF _ corrections_okD(1) [OF ok] _ same_part_refl] by blast
    then have "carries_out w w'"
      by (rule carries_out_trans) (rule carries_out_trans [OF review_carries_out(2) same_tables_carries_out [OF mark [OF v(2)]]])
    then show ?thesis using ok by (rule carries_out_ok)
  qed
qed

lemma apply_dispute_ok:
  assumes run: "apply_dispute env e w = Inr (out, w')" and ok: "corrections_ok (pe_hash env) w"
    and env: "cents_rounding (pe_r2 env)" "inj (pe_hash env)"
  shows "corrections_ok (pe_hash env) w'"
proof -
  have rev: "corrections_ok (pe_hash env) (review n t w)" "corrections_ok (pe_hash env) (review m t' (review n t w))" for n t m t'
    by (intro carries_out_ok [OF review_carries_out(1)] ok)+
  show ?thesis
    using run ok rev refund_part_ok [OF _ ok env] cancel_and_refund_ok [OF _ ok env(2)]
    unfolding apply_dispute_def by (auto simp: bindE_Inr Let_def split: option.splits if_splits)
qed

text \<open>How many steps the chain of an invoice can still take.\<close>

definition work_left :: "string \<Rightarrow> world \<Rightarrow> nat" where
  "work_left n w = sum_list (map due (refunds_of n w))
     + (case find_invoice w n of None \<Rightarrow> 0 | Some iv \<Rightarrow> of_bool (\<not> truthy (inv_credit_note iv)))"

lemma work_left_cong: "same_tables w w' \<Longrightarrow> work_left n w' = work_left n w"
  by (simp add: work_left_def same_tables_def refunds_of_def find_invoice_def)

lemma put_refund_work:
  assumes "named_once w" "r \<in> set (pw_refunds w)" "rf_invoice r = n" "same_part r r'" "due r' < due r"
  shows "work_left n (put_refund r' w) < work_left n w"
proof -
  have "rf_name r' = rf_name r" "rf_invoice r' = n" using assms(3,4) by (simp_all add: same_part_def)
  moreover from swap_row [OF assms(1,2) this(1)] obtain as bs where "pw_refunds w = as @ r # bs" "pw_refunds (put_refund r' w) = as @ r' # bs"
    by blast
  ultimately show ?thesis using assms(3,5) by (simp add: work_left_def refunds_of_def find_invoice_def)
qed

lemma find_put_invoice: "find_invoice w (inv_name iv) = Some iv0 \<Longrightarrow> find_invoice (put_invoice iv w) (inv_name iv) = Some iv"
proof -
  have "find (\<lambda>x. inv_name x = inv_name iv) (map (\<lambda>x. if inv_name x = inv_name iv then iv else x) ivs) = Some iv"
    if "find (\<lambda>x. inv_name x = inv_name iv) ivs = Some iv0" for ivs using that by (induction ivs) (auto split: if_splits)
  then show "find_invoice w (inv_name iv) = Some iv0 \<Longrightarrow> find_invoice (put_invoice iv w) (inv_name iv) = Some iv"
    by (simp add: find_invoice_def put_invoice_def)
qed

lemma take_step_work:
  assumes run: "take_step env ac iv s w = Inr v" and s: "next_step r2 iv acc w = Some s" and iv: "find_invoice w n = Some iv"
    and names: "named_once w" and ac: "names_documents ac"
  shows "work_left n v < work_left n w"
proof (cases "step_refund s")
  case None
  have n: "inv_name iv = n" by (rule find_invoice_name [OF iv])
  have missing: "\<not> truthy (inv_credit_note iv)" using next_step_due(1) [OF s] None by (cases s) simp_all
  from take_step_full [OF run None] obtain m where m: "ac_credit_note ac iv = Inr m" "v = put_invoice (iv\<lparr>inv_credit_note := Some m\<rparr>) w" .
  from m(1) ac have "m \<noteq> []" by (auto simp: names_documents_def)
  moreover have "find_invoice v n = Some (iv\<lparr>inv_credit_note := Some m\<rparr>)"
    using find_put_invoice [of w "iv\<lparr>inv_credit_note := Some m\<rparr>"] iv n by (simp add: m(2))
  ultimately show ?thesis using missing iv by (simp add: work_left_def m(2) refunds_of_def)
next
  case (Some r)
  note row = next_step_due(2) [OF s Some]
  from take_step_serves [OF run next_step_due(1) [OF s] Some] ac obtain r' where
    r': "same_part r r'" "due r' < due r" "same_tables (put_refund r' w) v" by blast
  show ?thesis using put_refund_work [OF names _ _ r'(1,2)] row find_invoice_name [OF iv] by (simp add: work_left_cong [OF r'(3)])
qed

end
