(* ===== verification/Corrections_Properties.thy ===== *)
theory Corrections_Properties
  imports Corrections_Safety Lifecycle_Properties
begin

text \<open>
  The properties of the corrections: an invoice never gives back in parts more than its total, and
  the chain of jobs that carries a correction out comes to an end with nothing left under way.
\<close>

section \<open>Partial refunds\<close>

text \<open>
  Everything that changes what is promised back: an operator's correction, a retry, a job of the
  chain, the event of a refund and of a dispute, each at its own time and with its own answers.
\<close>

inductive correction :: "(rat \<Rightarrow> rat) \<Rightarrow> (nat \<Rightarrow> string) \<Rightarrow> world \<Rightarrow> world \<Rightarrow> bool" for r2 h where
  part: "refund_part env n x reason dest dispute w = Inr w' \<Longrightarrow> pe_r2 env = r2 \<Longrightarrow> pe_hash env = h \<Longrightarrow> correction r2 h w w'"
| cancel: "cancel_and_refund env n reason dispute w = Inr w' \<Longrightarrow> pe_r2 env = r2 \<Longrightarrow> pe_hash env = h \<Longrightarrow> correction r2 h w w'"
| retry: "retry_failed_refunds env n w = Inr (k, w') \<Longrightarrow> pe_r2 env = r2 \<Longrightarrow> pe_hash env = h \<Longrightarrow> correction r2 h w w'"
| job: "run_cancellation env ac got_lock n w = Inr w' \<Longrightarrow> pe_r2 env = r2 \<Longrightarrow> pe_hash env = h \<Longrightarrow> correction r2 h w w'"
| refund_event: "apply_refund_event env e w = Inr (res, w') \<Longrightarrow> pe_r2 env = r2 \<Longrightarrow> pe_hash env = h \<Longrightarrow> correction r2 h w w'"
| dispute: "apply_dispute env ev w = Inr (out, w') \<Longrightarrow> pe_r2 env = r2 \<Longrightarrow> pe_hash env = h \<Longrightarrow> correction r2 h w w'"

lemma correction_ok:
  assumes "correction r2 h w w'" "corrections_ok h w" "cents_rounding r2" "inj h"
  shows "corrections_ok h w'"
  using assms(1)
proof cases
  case (part env n x reason dest dispute) with refund_part_ok [OF part(1)] assms(2-4) show ?thesis by simp
next
  case (cancel env n reason dispute) with cancel_and_refund_ok [OF cancel(1)] assms(2-4) show ?thesis by simp
next
  case (retry env n k) with retry_failed_ok [OF retry(1) assms(2)] assms(3) show ?thesis by simp
next
  case (job env ac got_lock n) from run_cancellation_ok [OF job(1) assms(2)] show ?thesis .
next
  case (refund_event env e res) from apply_refund_event_ok [OF refund_event(1) assms(2)] show ?thesis .
next
  case (dispute env ev out) with apply_dispute_ok [OF dispute(1)] assms(2-4) show ?thesis by simp
qed

lemma corrections_ok_reachable: "(correction r2 h)\<^sup>*\<^sup>* w w' \<Longrightarrow> corrections_ok h w \<Longrightarrow> cents_rounding r2 \<Longrightarrow> inj h \<Longrightarrow> corrections_ok h w'"
  by (induction rule: rtranclp_induct) (auto intro: correction_ok)

text \<open>
  Property C4: however operators, retries, jobs, refund events and disputes interleave, the partial refunds of
  an invoice that have not failed never add up to more than its total, and what \<open>refundable\<close> still offers is
  exactly the difference, never negative.
\<close>

theorem partial_refunds_within_total:
  assumes "(correction r2 h)\<^sup>*\<^sup>* w w'" and "corrections_ok h w" and "cents_rounding r2" and "inj h"
    and iv: "find_invoice w' n = Some iv"
  shows "given n w' \<le> inv_total iv \<and> refundable r2 iv w' = inv_total iv - given n w'"
proof
  have ok: "corrections_ok h w'" by (rule corrections_ok_reachable [OF assms(1-4)])
  show "given n w' \<le> inv_total iv" using corrections_okD(5) [OF ok bills_of_found [OF iv]] by simp
  show "refundable r2 iv w' = inv_total iv - given n w'" by (rule refundable_eq(1) [OF ok assms(3) iv])
qed

section \<open>The chain of jobs\<close>

text \<open>
  The jobs of one invoice, each enqueued by the one before, each at its own time; None when there are fewer
  times than jobs.
\<close>

fun run_chain :: "pay_env list \<Rightarrow> accounting \<Rightarrow> string \<Rightarrow> world \<Rightarrow> (error + world) option" where
  "run_chain [] ac n w = None"
| "run_chain (env # envs) ac n w =
     (case find_invoice w n of None \<Rightarrow> Some (Inl DoesNotExist) | Some iv \<Rightarrow>
      if next_step (pe_r2 env) iv (ac_enabled ac) w = None then Some (Inr w)
      else case run_cancellation env ac True n w of Inl e \<Rightarrow> Some (Inl e) | Inr w' \<Rightarrow> run_chain envs ac n w')"

definition nothing_left :: "(rat \<Rightarrow> rat) \<Rightarrow> accounting \<Rightarrow> string \<Rightarrow> world \<Rightarrow> bool" where
  "nothing_left r2 ac n w \<longleftrightarrow> (\<forall>r \<in> set (refunds_of n w). rf_status r \<noteq> ''Initiated'')
     \<and> (\<exists>iv. find_invoice w n = Some iv \<and> next_step r2 iv (ac_enabled ac) w = None)"

lemma next_step_None:
  assumes "next_step r2 iv acc w = None"
  shows "\<forall>r \<in> set (refunds_of (inv_name iv) w). rf_status r \<noteq> ''Initiated''"
  using assms by (auto simp: next_step_def Let_def UNDER_WAY_def find_None_iff split: option.splits)

lemma run_job:
  assumes "run_cancellation env ac True n w = Inr w'" "find_invoice w n = Some iv" "next_step (pe_r2 env) iv (ac_enabled ac) w \<noteq> None"
    "named_once w" "names_documents ac" "corrections_ok h w"
  shows "work_left n w' < work_left n w" "corrections_ok h w'"
proof -
  from assms(3) obtain s where s: "next_step (pe_r2 env) iv (ac_enabled ac) w = Some s" by auto
  with assms(1,2) obtain v where v: "take_step env ac iv s w = Inr v" "w' = enqueue_steps n v"
    by (auto simp: run_cancellation_def bindE_Inr)
  show "work_left n w' < work_left n w"
    using take_step_work [OF v(1) s assms(2,4,5)] work_left_cong [OF same_tables_intros(3), of n n v] by (simp add: v(2))
  show "corrections_ok h w'" by (rule run_cancellation_ok [OF assms(1,6)])
qed

text \<open>
  Property C12: the chain of jobs that carries an invoice's corrections out ends within \<open>work_left\<close> steps, four for
  each refund and one for the credit note. Unless a step raised, it ends with no refund under way and nothing due in the accounting system.
\<close>

theorem correction_chain_ends:
  assumes ok: "corrections_ok h w" and ac: "names_documents ac"
    and envs: "work_left n w < length envs" "pe_r2 ` set envs \<subseteq> {r2}"
  shows "run_chain envs ac n w \<noteq> None \<and> (\<forall>w'. run_chain envs ac n w = Some (Inr w') \<longrightarrow> nothing_left r2 ac n w')"
  using ok envs
proof (induction envs arbitrary: w)
  case (Cons env envs)
  have r2: "pe_r2 env = r2" using Cons.prems(3) by simp
  show ?case
  proof (cases "find_invoice w n")
    case (Some iv)
    show ?thesis
    proof (cases "next_step r2 iv (ac_enabled ac) w = None")
      case True
      with next_step_None [OF True] Some find_invoice_name [OF Some] show ?thesis by (auto simp: r2 nothing_left_def)
    next
      case False
      show ?thesis
      proof (cases "run_cancellation env ac True n w")
        case (Inr v)
        note job = run_job [OF Inr Some _ corrections_okD(1) [OF Cons.prems(1)] ac Cons.prems(1)]
        have "work_left n v < length envs" using job(1) False Cons.prems(2) r2 by simp
        with Cons.IH [OF job(2)] Cons.prems(3) False have "run_chain envs ac n v \<noteq> None
            \<and> (\<forall>w'. run_chain envs ac n v = Some (Inr w') \<longrightarrow> nothing_left r2 ac n w')" by (simp add: r2)
        then show ?thesis using Some False Inr by (auto simp: r2)
      qed (simp add: Some False r2)
    qed
  qed simp
qed simp

section \<open>Examples\<close>

definition paid_invoice :: invoice where
  "paid_invoice = due_invoice\<lparr>inv_status := ''Paid'', inv_tax := ZERO_BLOCK, inv_total := 1000, inv_paid_at := Some (at_midnight 739806)\<rparr>"

definition paid_world :: world where "paid_world = due_world\<lparr>pw_invoices := [paid_invoice]\<rparr>"

definition no_accounting :: accounting where
  "no_accounting = \<lparr>ac_enabled = False, ac_credit_note = (\<lambda>_. Inl DoesNotExist), ac_partial_note = (\<lambda>_ _. Inl DoesNotExist),
     ac_note_total = (\<lambda>_. Inl DoesNotExist), ac_payment_out = (\<lambda>_ _ _. Inl DoesNotExist), ac_advance_again = (\<lambda>_ _ _. Inl DoesNotExist),
     ac_promotional_return = (\<lambda>_ _. Inl DoesNotExist)\<rparr>"

lemma paid_world_ok: "corrections_ok (pe_hash (pay_env_with r)) paid_world"
  by (simp add: corrections_ok_def paid_world_def one_row_each_def bills_of_def given_def paid_invoice_def)

lemma paid_found: "find_invoice paid_world ''INV-1'' = Some paid_invoice"
  by (simp add: find_invoice_def paid_world_def paid_invoice_def)

lemma paid_fields [simp]: "inv_name paid_invoice = ''INV-1''" "inv_status paid_invoice = ''Paid''" "inv_total paid_invoice = 1000"
  "inv_tax paid_invoice = ZERO_BLOCK"
  by (simp_all add: paid_invoice_def)

lemma example_part:
  "\<exists>w'. refund_part (pay_env_with r) ''INV-1'' 400 ''goodwill'' ''Wallet'' None paid_world = Inr w' \<and> given ''INV-1'' w' = 400
    \<and> find_invoice w' ''INV-1'' = Some paid_invoice"
proof -
  have r: "refundable (pe_r2 (pay_env_with r)) paid_invoice paid_world = 1000" "pe_r2 (pay_env_with r) 400 = 400"
    by (simp_all add: refundable_def paid_world_def pay_env_with_def half_up_id)
  obtain net tax promo where s: "split_money_and_promotional (pe_r2 (pay_env_with r)) paid_invoice 400 ''Wallet'' paid_world = (net, tax, promo)"
    by (metis prod_cases3)
  show ?thesis
    unfolding refund_part_def Let_def r(2) paid_found
    by (simp add: r s check_credit_note_deadline_def ZERO_BLOCK_def)
      (simp add: given_def counts_as_given_def book_refund_def new_refund_def review_def enqueue_steps_def paid_world_def find_invoice_def r UNDER_WAY_def)
qed

theorem partial_refunds_within_total_witness:
  "\<exists>w'. refund_part (pay_env_with (Inr approved)) ''INV-1'' 400 ''goodwill'' ''Wallet'' None paid_world = Inr w'
    \<and> given ''INV-1'' w' = 400 \<and> given ''INV-1'' w' \<le> inv_total paid_invoice
    \<and> refundable half_up paid_invoice w' = inv_total paid_invoice - given ''INV-1'' w'"
proof -
  let ?env = "pay_env_with (Inr approved)"
  obtain w' where w': "refund_part ?env ''INV-1'' 400 ''goodwill'' ''Wallet'' None paid_world = Inr w'" "given ''INV-1'' w' = 400"
    "find_invoice w' ''INV-1'' = Some paid_invoice" using example_part by blast
  have "correction half_up (pe_hash ?env) paid_world w'" by (rule correction.part [OF w'(1)]) (simp_all add: pay_env_with_def)
  then have "(correction half_up (pe_hash ?env))\<^sup>*\<^sup>* paid_world w'" by (rule r_into_rtranclp)
  moreover have "inj (pe_hash ?env)" using replicate_inj by (simp add: pay_env_with_def)
  ultimately show ?thesis using partial_refunds_within_total [OF _ paid_world_ok half_up_rounding _ w'(3)] w'(1,2) by blast
qed

text \<open>Part of a card charge on its way back through the gateway.\<close>

definition card_charge :: attempt where
  "card_charge = (new_attempt (pay_env_with (Inr approved)) paid_invoice ''Stripe'' (Some ''main'') paid_world)
     \<lparr>at_name := ''a1'', at_status := ''Captured''\<rparr>"

definition card_part :: refund where
  "card_part = (new_refund (pay_env_with (Inr approved)) paid_invoice ''Source'' 400 ''goodwill'' paid_world)
     \<lparr>rf_name := ''r1'', rf_attempt := ''a1'', rf_partial := True\<rparr>"

definition refunding_world :: world where
  "refunding_world = paid_world\<lparr>pw_attempts := [card_charge], pw_refunds := [card_part], pw_serial := 9\<rparr>"

lemma card_part_fields [simp]:
  "rf_name card_part = ''r1''" "rf_attempt card_part = ''a1''" "rf_invoice card_part = ''INV-1''" "rf_status card_part = ''Initiated''"
  "rf_destination card_part = ''Source''" "rf_amount card_part = 400" "rf_partial card_part" "\<not> rf_late_capture card_part"
  "at_name card_charge = ''a1''" "at_gateway card_charge = ''Stripe''" "at_amount card_charge = 1180" "rf_currency card_part = ''INR''"
  by (simp_all add: card_part_def new_refund_def card_charge_def new_attempt_def UNDER_WAY_def pay_env_with_def half_up_id)
    (simp_all add: paid_invoice_def)

lemma refunding_fields [simp]:
  "pw_attempts refunding_world = [card_charge]" "pw_refunds refunding_world = [card_part]" "pw_invoices refunding_world = [paid_invoice]"
  by (simp_all add: refunding_world_def paid_world_def)

lemma refunding_world_ok: "corrections_ok (pe_hash (pay_env_with r)) refunding_world"
proof -
  have fresh: "''r1'' \<noteq> replicate k (CHR ''a'')" for k by (cases k) auto
  have "is_cents (400::rat)" "is_cents (1000::rat)" by (rule is_cents_numeral)+
  then show ?thesis
    by (simp add: corrections_ok_def one_row_each_def bills_of_def given_def counts_as_given_def)
      (simp add: refunding_world_def pay_env_with_def fresh)
qed

lemma refund_goes_out:
  "\<exists>w'. run_cancellation (pay_env_with (Inr approved)) no_accounting True ''INV-1'' refunding_world = Inr w'
     \<and> pw_refunds w' = [card_part\<lparr>rf_gateway_id := Some ''re_1'', rf_status := ''Completed'', rf_completed_at := Some (at_midnight 739810)\<rparr>]
     \<and> pw_invoices w' = [paid_invoice]"
proof -
  let ?env = "pay_env_with (Inr approved)" and ?r = "card_part\<lparr>rf_gateway_id := Some ''re_1''\<rparr>"
  have f: "find_invoice refunding_world ''INV-1'' = Some paid_invoice" "find_attempt refunding_world ''a1'' = Some card_charge"
    "next_step (pe_r2 ?env) paid_invoice (ac_enabled no_accounting) refunding_world = Some (Settle_part card_part)"
    by (simp_all add: find_invoice_def find_attempt_def next_step_def refunds_of_def UNDER_WAY_def)
  obtain evs where t: "refund_transition (pe_ambient ?env) ?r ''Completed'' (Some ''refund'') (pw_events refunding_world)
      = Inr (?r\<lparr>rf_status := ''Completed''\<rparr>, evs)"
    by (simp add: refund_transition_def transition_def sdoc_of_def machine_for_own REFUND_def allows_simps Let_def)
  have now: "pe_now ?env = at_midnight 739810" by (simp add: pay_env_with_def)
  show ?thesis
    by (simp add: run_cancellation_def f take_step_def settle_part_def due_world_adapter answer_refund_def settle_gateway_refund_def
        finish_refund_def t save_refund_def put_refund_def find_invoice_def mark_refunded_def find_attempt_def enqueue_steps_def now)
qed

theorem correction_chain_ends_witness:
  "\<exists>w'. run_chain (replicate 6 (pay_env_with (Inr approved))) no_accounting ''INV-1'' refunding_world = Some (Inr w')
    \<and> nothing_left half_up no_accounting ''INV-1'' w' \<and> map rf_status (pw_refunds w') = [''Completed'']"
proof -
  let ?env = "pay_env_with (Inr approved)" let ?envs = "replicate 6 ?env"
  have ac: "names_documents no_accounting" by (simp add: names_documents_def no_accounting_def)
  from refund_goes_out obtain w' where w': "run_cancellation ?env no_accounting True ''INV-1'' refunding_world = Inr w'"
    "map rf_status (pw_refunds w') = [''Completed'']" "pw_invoices w' = [paid_invoice]" by fastforce
  have first: "next_step (pe_r2 ?env) paid_invoice (ac_enabled no_accounting) refunding_world = Some (Settle_part card_part)"
    by (simp add: next_step_def refunds_of_def UNDER_WAY_def)
  have last: "next_step (pe_r2 ?env) paid_invoice (ac_enabled no_accounting) w' = None"
    using w'(2) by (auto simp: next_step_def Let_def refunds_of_def UNDER_WAY_def no_accounting_def find_None_iff split: option.splits)
  have run: "run_chain ?envs no_accounting ''INV-1'' refunding_world = Some (Inr w')"
    using first last w'(1,3) by (simp add: numeral_eq_Suc find_invoice_def)
  have envs: "work_left ''INV-1'' refunding_world < length ?envs" "pe_r2 ` set ?envs \<subseteq> {half_up}"
    by (simp_all add: work_left_def refunds_of_def find_invoice_def pay_env_with_def due_def)
  from correction_chain_ends [OF refunding_world_ok ac envs] run have end_state: "nothing_left half_up no_accounting ''INV-1'' w'" by blast
  show ?thesis by (rule exI [of _ w']) (rule conjI [OF run conjI [OF end_state w'(2)]])
qed

end
