(* ===== verification/Reconciliation.thy ===== *)
theory Reconciliation
  imports Corrections
begin

text \<open>
  The daily scan that asks the gateways about charges, top-ups and refunds nobody told us the end of
  (\<open>payments/reconciliation.py\<close>). Each item is one atomic step of a job; the charge that is re-sent
  commits its own answer.
\<close>

section \<open>What the gateway answers\<close>

definition AMBIGUOUS :: "string list" where "AMBIGUOUS = [''Initiated'', ''Authorised'']"

definition GATEWAY_SUCCESS :: "string list" where
  "GATEWAY_SUCCESS = [''succeeded'', ''captured'', ''paid'', ''completed'']"

definition GATEWAY_FAILED :: "string list" where
  "GATEWAY_FAILED = [''failed'', ''canceled'', ''cancelled'', ''declined'', ''denied'', ''expired'', ''voided'',
     ''requires_payment_method'']"

definition UNSETTLED_INVOICE :: "string list" where "UNSETTLED_INVOICE = [''Outstanding'', ''Overdue'']"

definition GRACE_MINUTES :: int where "GRACE_MINUTES = 30"
definition ALERT_AFTER_HOURS :: int where "ALERT_AFTER_HOURS = 24"
definition CHECKOUT_OPEN_HOURS :: int where "CHECKOUT_OPEN_HOURS = 24"
definition TOP_UP_EXPIRES_HOURS :: int where "TOP_UP_EXPIRES_HOURS = 7 * 24"
definition KEY_REPLAY_HOURS :: int where "KEY_REPLAY_HOURS = 24"
definition COMPLETED_REFUND_RECHECK_DAYS :: int where "COMPLETED_REFUND_RECHECK_DAYS = 30"

text \<open>\<open>(_adapter(gateway).get_transaction_status(id) or "").lower()\<close>.\<close>

definition gateway_status :: "pay_env \<Rightarrow> string \<Rightarrow> string \<Rightarrow> error + string" where
  "gateway_status env gateway txn =
     bindE (adapter_for env gateway) (\<lambda>adapter. bindE (ad_status adapter txn) (\<lambda>s. Inr (lower (or_else s ''''))))"

text \<open>\<open>_find_order_payment\<close>: a gateway that cannot look an order up reports nothing.\<close>

definition find_order_payment :: "pay_env \<Rightarrow> string \<Rightarrow> string option \<Rightarrow> error + verified_payment option" where
  "find_order_payment env gateway order_id =
     (if \<not> truthy order_id then Inr None
      else case bindE (adapter_for env gateway) (\<lambda>adapter. ad_find_order adapter (the order_id)) of
        Inl (GatewayUnsupported e) \<Rightarrow> Inr None | r \<Rightarrow> r)"

definition aged :: "datetime \<Rightarrow> attempt \<Rightarrow> int \<Rightarrow> bool" where
  "aged now a hours \<longleftrightarrow> now - at_initiated_at a \<ge> hours * hour_us"

datatype reconciled =
    Skipped string
  | Resolved string
  | Replayed string
  | Unresolved string bool

section \<open>One attempt\<close>

definition alert_ops :: "attempt \<Rightarrow> string \<Rightarrow> world \<Rightarrow> world" where
  "alert_ops a status w =
     (let w1 = review (at_name a) (''Reconciliation: unresolved attempt; gateway reports '' @ status) w
      in if at_invoice a = '''' \<or> find_invoice w (at_invoice a) = None then w1
         else review (at_invoice a) (''Reconciliation could not resolve attempt '' @ at_name a @ '' (gateway: '' @ status @ '').'') w1)"

definition resolve_paid :: "pay_env \<Rightarrow> attempt \<Rightarrow> verified_payment option \<Rightarrow> world \<Rightarrow> error + world" where
  "resolve_paid env a payment w =
     bindE (capture_and_settle env a ''reconciliation'' (Some ''Reconciliation'') payment w) (\<lambda>(_, w'). Inr w')"

definition resolve_failed :: "pay_env \<Rightarrow> attempt \<Rightarrow> string \<Rightarrow> string \<Rightarrow> world \<Rightarrow> error + world" where
  "resolve_failed env a failure_code reason w =
     bindE (attempt_transition (pe_ambient env) a ''Failed'' (Some failure_code) (Some ''reconciliation'') (pw_events w))
       (\<lambda>(a', evs). Inr (put_attempt (stamp_failure \<lparr>fl_code = Some failure_code, fl_decline = None, fl_reason = Some reason\<rparr>
           (a'\<lparr>at_completed_at := Some (pe_now env), at_resolved_by := Some ''Reconciliation''\<rparr>)) (w\<lparr>pw_events := evs\<rparr>)))"

definition resolve_checkout :: "pay_env \<Rightarrow> attempt \<Rightarrow> bool \<Rightarrow> world \<Rightarrow> error + reconciled \<times> world" where
  "resolve_checkout env a open_too_long w =
     bindE (find_order_payment env (at_gateway a) (at_order a)) (\<lambda>payment. case payment of
       Some p \<Rightarrow> bindE (resolve_paid env (a\<lparr>at_txn := Some (vp_id p)\<rparr>) (Some p) w) (\<lambda>w'. Inr (Resolved ''paid'', w'))
     | None \<Rightarrow>
         if \<not> open_too_long then Inr (Unresolved ''awaiting_payer'' False, w)
         else bindE (resolve_failed env a ''checkout_abandoned'' ''The payer never completed the checkout.'' w)
                (\<lambda>w'. Inr (Resolved ''Failed'', w')))"

text \<open>
  An attempt nobody answered for is re-sent with its own key while the gateway still remembers the key,
  and after that left to an operator.
\<close>

definition resolve_unanswered :: "pay_env \<Rightarrow> attempt \<Rightarrow> datetime option \<Rightarrow> world \<Rightarrow> (error + reconciled) \<times> world" where
  "resolve_unanswered env a now w =
     (let now_dt = clock env now in
      if \<not> truthy (at_method a) then atomic (resolve_checkout env a (aged now_dt a CHECKOUT_OPEN_HOURS)) w
      else if aged now_dt a KEY_REPLAY_HOURS
      then (Inr (Unresolved ''unanswered'' True), alert_ops a ''no transaction id, too old to re-send safely'' w)
      else (case resume_attempt env (at_name a) w of
          (Inl e, w1) \<Rightarrow> (Inl e, w1)
        | (Inr _, w1) \<Rightarrow> (case find_attempt w1 (at_name a) of
              None \<Rightarrow> (Inr (Replayed ''''), w1)
            | Some b \<Rightarrow>
                if at_status b = ''Captured''
                then atomic (\<lambda>w. bindE (resolve_paid env b None w) (\<lambda>w'. Inr (Replayed (at_status b), w'))) w1
                else (Inr (Replayed (at_status b)), w1))))"

definition reconcile_attempt :: "pay_env \<Rightarrow> string \<Rightarrow> datetime option \<Rightarrow> world \<Rightarrow> (error + reconciled) \<times> world" where
  "reconcile_attempt env name now w =
     (case find_attempt w name of None \<Rightarrow> (Inl DoesNotExist, w) | Some a \<Rightarrow>
      if at_status a \<notin> set AMBIGUOUS then (Inr (Skipped ''already_terminal''), w)
      else if is_held_by_gateway a (clock env now) then (Inr (Skipped ''gateway_hold''), w)
      else if \<not> truthy (at_txn a) then resolve_unanswered env a now w
      else atomic (\<lambda>w. bindE (gateway_status env (at_gateway a) (the (at_txn a))) (\<lambda>status.
        if status \<in> set GATEWAY_SUCCESS
        then bindE (resolve_paid env a None w) (\<lambda>w'. Inr (Resolved ''paid'', w'))
        else if status \<in> set GATEWAY_FAILED
        then bindE (resolve_failed env a (''gateway_'' @ status) (''The gateway reports the payment as '' @ status @ ''.'') w)
               (\<lambda>w'. Inr (Resolved ''Failed'', w'))
        else if aged (clock env now) a ALERT_AFTER_HOURS
        then Inr (Unresolved status True, alert_ops a status w)
        else Inr (Unresolved status False, w))) w)"

text \<open>A captured attempt whose invoice never heard of it.\<close>

definition reconcile_captured_attempt :: "pay_env \<Rightarrow> string \<Rightarrow> datetime option \<Rightarrow> world \<Rightarrow> error + reconciled \<times> world" where
  "reconcile_captured_attempt env name now w =
     (case find_attempt w name of None \<Rightarrow> Inl DoesNotExist | Some a \<Rightarrow>
      if at_status a \<noteq> ''Captured'' then Inr (Skipped ''not_captured'', w)
      else if map_option inv_status (find_invoice w (at_invoice a)) \<notin> Some ` set UNSETTLED_INVOICE
      then Inr (Skipped ''invoice_settled'', w)
      else bindE (if truthy (at_txn a) then gateway_status env (at_gateway a) (the (at_txn a)) else Inr '''') (\<lambda>status.
        if status \<notin> set GATEWAY_SUCCESS
        then Inr (if aged (clock env now) a ALERT_AFTER_HOURS
                  then (Unresolved status True, alert_ops a (if status = '''' then ''unknown'' else status) w)
                  else (Unresolved status False, w))
        else bindE (settle_invoice env a None w) (\<lambda>(settled, w1). Inr (Resolved ''paid'',
          if at_completed_at a = None \<or> \<not> truthy (at_resolved_by a)
          then put_attempt (a\<lparr>at_completed_at := Some (case at_completed_at a of Some t \<Rightarrow> t | None \<Rightarrow> pe_now env),
                  at_resolved_by := Some (or_else (at_resolved_by a) ''Reconciliation'')\<rparr>) w1
          else w1))))"

definition captured_unsettled_attempts :: "datetime \<Rightarrow> world \<Rightarrow> string list" where
  "captured_unsettled_attempts cutoff w =
     map at_name (filter (\<lambda>a. at_status a = ''Captured'' \<and> at_initiated_at a \<le> cutoff
       \<and> map_option inv_status (find_invoice w (at_invoice a)) \<in> Some ` set UNSETTLED_INVOICE) (pw_attempts w))"

section \<open>Top-ups\<close>

definition credit_top_up :: "pay_env \<Rightarrow> top_up \<Rightarrow> verified_payment \<Rightarrow> world \<Rightarrow> error + reconciled option \<times> world" where
  "credit_top_up env t p w =
     (case credit_wallet env t p w of
        Inr (_, w') \<Rightarrow> Inr (Some (Resolved ''credited''), w')
      | Inl e \<Rightarrow>
          if e = ValidationError ''PaymentDoesNotCover''
          then bindE (fail_top_up env t (''Payment '' @ vp_id p @ '' of '' @ vp_currency p @ '' does not cover it.'') w)
                 (\<lambda>w'. Inr (Some (Resolved ''payment_does_not_cover''), w'))
          else Inl e)"

definition reconcile_top_up_order :: "pay_env \<Rightarrow> string \<Rightarrow> datetime \<Rightarrow> world \<Rightarrow> error + reconciled option \<times> world" where
  "reconcile_top_up_order env name now w =
     (case find (\<lambda>t. tu_name t = name) (pw_top_ups w) of None \<Rightarrow> Inl DoesNotExist | Some t \<Rightarrow>
      bindE (find_order_payment env (tu_gateway t) (tu_order t)) (\<lambda>payment. case payment of
        Some p \<Rightarrow> credit_top_up env t p w
      | None \<Rightarrow>
          if now - tu_creation t \<ge> TOP_UP_EXPIRES_HOURS * hour_us
          then bindE (expire_top_up env t w) (\<lambda>w'. Inr (Some (Resolved ''expired''), w'))
          else Inr (None, w)))"

definition reconcile_top_up_orders :: "pay_env \<Rightarrow> datetime option \<Rightarrow> world \<Rightarrow> ((string \<times> reconciled option) list \<times> world) option" where
  "reconcile_top_up_orders env now w =
     (let now_dt = clock env now;
          orders = map tu_name (filter (\<lambda>t. tu_status t = ''Created'' \<and> truthy (tu_order t)
            \<and> tu_creation t \<le> now_dt - GRACE_MINUTES * 60000000) (pw_top_ups w))
      in map_option (\<lambda>(rs, w'). (filter (\<lambda>(_, r). r \<noteq> None) rs, w'))
           (each_isolated ''Top-up reconciliation'' (\<lambda>name v. Some (atomic (reconcile_top_up_order env name now_dt) v)) orders w))"

section \<open>Refunds\<close>

definition reconcile_refund :: "pay_env \<Rightarrow> string \<Rightarrow> world \<Rightarrow> error + string \<times> world" where
  "reconcile_refund env name w =
     (case find (\<lambda>r. rf_name r = name) (pw_refunds w) of None \<Rightarrow> Inl DoesNotExist | Some r \<Rightarrow>
      case bindE (case find_attempt w (rf_attempt r) of None \<Rightarrow> Inl DoesNotExist | Some a \<Rightarrow> adapter_for env (at_gateway a))
             (\<lambda>adapter. ad_refund_status adapter (or_else (rf_gateway_id r) '''')) of
        Inl (GatewayUnsupported e) \<Rightarrow> Inr (''unsupported'', w)
      | Inl e \<Rightarrow> Inl e
      | Inr status \<Rightarrow>
          if status = ''Pending'' then Inr (status, w)
          else bindE (settle_gateway_refund env r status w) (\<lambda>(outcome, w'). Inr (status,
                 if outcome = Settled_refund then enqueue_steps (rf_invoice r) w' else w')))"

definition reconcile_pending_refunds :: "pay_env \<Rightarrow> world \<Rightarrow> ((string \<times> string) list \<times> world) option" where
  "reconcile_pending_refunds env w =
     each_isolated ''Refund reconciliation'' (\<lambda>name v. Some (atomic (reconcile_refund env name) v))
       (map rf_name (filter (\<lambda>r. rf_status r = ''Pending'' \<and> truthy (rf_gateway_id r)) (pw_refunds w))) w"

definition recheck_completed_refunds :: "pay_env \<Rightarrow> datetime option \<Rightarrow> world \<Rightarrow> ((string \<times> string) list \<times> world) option" where
  "recheck_completed_refunds env now w =
     (let since = clock env now - COMPLETED_REFUND_RECHECK_DAYS * day_us
      in each_isolated ''Refund recheck'' (\<lambda>name v. Some (atomic (reconcile_refund env name) v))
           (map rf_name (filter (\<lambda>r. rf_status r = ''Completed'' \<and> (case rf_completed_at r of Some t \<Rightarrow> t \<ge> since | None \<Rightarrow> False)
              \<and> rf_destination r = ''Source'' \<and> truthy (rf_gateway_id r)) (pw_refunds w))) w)"

section \<open>The scan\<close>

definition run_reconciliation :: "pay_env \<Rightarrow> datetime option \<Rightarrow> world \<Rightarrow> world option" where
  "run_reconciliation env now w =
     (let now_dt = clock env now; cutoff = now_dt - GRACE_MINUTES * 60000000;
          stuck = map at_name (filter (\<lambda>a. at_status a \<in> set AMBIGUOUS \<and> at_initiated_at a \<le> cutoff) (pw_attempts w))
      in do {
        (_, w1) \<leftarrow> each_isolated ''Reconciliation'' (\<lambda>name v. Some (reconcile_attempt env name (Some now_dt) v)) stuck w;
        (_, w2) \<leftarrow> each_isolated ''Reconciliation'' (\<lambda>name v. Some (atomic (reconcile_captured_attempt env name (Some now_dt)) v))
                    (captured_unsettled_attempts cutoff w1) w1;
        (_, w3) \<leftarrow> reconcile_top_up_orders env (Some now_dt) w2;
        (_, w4) \<leftarrow> reconcile_pending_refunds env w3;
        Some w4
      })"

end
