(* ===== verification/Payment_Steps.thy ===== *)
theory Payment_Steps
  imports Reconciliation Corrections_Safety Collection_Frames
begin

text \<open>
  Every operation of the payment system as a run of the abstract attempt log: charging, checkout, the
  collection, gateway events, reconciliation, corrections, the invoice lifecycle and the pruning of
  logs. Each keeps the invoices' rows and takes only steps of the log, so that what the log promises
  holds however the operations interleave.
\<close>

section \<open>Traces of the log\<close>

definition traced :: "pay_env \<Rightarrow> world \<Rightarrow> world \<Rightarrow> bool" where
  "traced env w w' \<longleftrightarrow> moves env w w' \<and> map inv_name (pw_invoices w') = map inv_name (pw_invoices w)"

lemma traced_refl [simp]: "traced env w w"
  by (simp add: traced_def)

lemma traced_trans: "traced env a b \<Longrightarrow> traced env b c \<Longrightarrow> traced env a c"
  by (auto simp: traced_def intro: moves_trans)

text \<open>Nothing about attempts or invoices changes.\<close>

definition aside :: "world \<Rightarrow> world \<Rightarrow> bool" where
  "aside w w' \<longleftrightarrow> pw_attempts w' = pw_attempts w \<and> pw_invoices w' = pw_invoices w \<and> pw_serial w \<le> pw_serial w'"

lemma aside_refl [simp]: "aside w w"
  by (simp add: aside_def)

lemma aside_trans: "aside a b \<Longrightarrow> aside b c \<Longrightarrow> aside a c"
  by (simp add: aside_def)

lemma aside_frames [simp]:
  "aside v (review n t w) = aside v w" "aside v (notify t e n w) = aside v w" "aside v (w\<lparr>pw_events := evs\<rparr>) = aside v w"
  "aside v (w\<lparr>pw_ledger := l\<rparr>) = aside v w" "aside v (put_refund r w) = aside v w" "aside v (save_refund r w) = aside v w"
  "aside v (put_webhook we w) = aside v w" "aside v (put_top_up tu w) = aside v w" "aside v (put_method m w) = aside v w"
  "aside v (enqueue_steps n w) = aside v w" "aside v (w\<lparr>pw_sync_queue := q\<rparr>) = aside v w"
  by (simp_all add: aside_def review_def notify_def put_refund_def put_webhook_def put_top_up_def put_method_def
      enqueue_steps_def save_refund_def)

lemma aside_book [simp]: "aside v w \<Longrightarrow> aside v (book_refund r w)"
  by (simp add: aside_def book_refund_def)

lemma aside_traced: "aside w w' \<Longrightarrow> traced env w w'"
  by (auto simp: aside_def traced_def intro: frame_moves stays_closed_cong)

lemma traced_notify [simp]: "traced env w (notify t e n w)"
  by (rule aside_traced) simp

lemma aside_stands: "aside w w' \<Longrightarrow> stands a w' = stands a w"
  by (simp add: aside_def stands_def find_attempt_def)

lemma aside_found: "aside w w' \<Longrightarrow> find_invoice w' n = find_invoice w n"
  by (simp add: aside_def find_invoice_def)

lemma put_traced: "stands a w \<Longrightarrow> traced env w (put_attempt a w)"
  by (simp add: traced_def put_move)

text \<open>Saving an invoice that is found, and never opening it again.\<close>

lemma put_invoice_traced:
  assumes "find_invoice w (inv_name iv) = Some iv0" "inv_status iv0 \<notin> set UNSETTLED \<Longrightarrow> inv_status iv \<notin> set UNSETTLED"
  shows "traced env w (put_invoice iv w)"
proof -
  have "stays_closed w (put_invoice iv w)" using assms by (auto simp: stays_closed_def is_closed_def)
  moreover have "map inv_name (pw_invoices (put_invoice iv w)) = map inv_name (pw_invoices w)" by (simp add: put_invoice_def)
  moreover have "moves env w (put_invoice iv w)" by (rule frame_moves [OF _ _ calculation(1)]) simp_all
  ultimately show ?thesis by (simp add: traced_def)
qed

lemma save_invoice_traced:
  assumes "find_invoice w (inv_name iv) = Some iv0" "inv_status iv0 \<notin> set UNSETTLED \<Longrightarrow> inv_status iv \<notin> set UNSETTLED"
  shows "traced env w (save_invoice iv w)"
  using put_invoice_traced [of w "set_period_key iv" iv0 env] assms unfolding save_invoice_def by simp

lemma invoice_transition_closed:
  assumes "invoice_transition env iv to_state reason actor amount evs = Inr (iv', evs')" "to_state \<notin> set UNSETTLED"
  shows "inv_name iv' = inv_name iv" "inv_status iv' \<notin> set UNSETTLED"
  using invoice_transition_cases [OF assms(1)] assms(2) by auto

section \<open>Charging and collecting\<close>

lemma only_charges_names: "only_charges w w' \<Longrightarrow> map inv_name (pw_invoices w') = map inv_name (pw_invoices w)"
proof -
  let ?f = "\<lambda>iv. iv\<lparr>inv_dunning_starts_on := None, inv_suspends_on := None\<rparr>"
  assume "only_charges w w'"
  then have "map inv_name (map ?f (pw_invoices w')) = map inv_name (map ?f (pw_invoices w))" by (simp add: only_charges_def)
  then show ?thesis by (simp add: o_def)
qed

lemma charges_traced: "moves env w w' \<and> only_charges w w' \<Longrightarrow> traced env w w'"
  by (simp add: traced_def only_charges_names)

definition trace_ok :: "pay_env \<Rightarrow> world \<Rightarrow> world \<Rightarrow> bool" where
  "trace_ok env v w \<longleftrightarrow> traced env v w \<and> one_row_each w"

lemma traced_rows: "traced env w w' \<Longrightarrow> one_row_each w' = one_row_each w"
  by (simp add: traced_def one_row_each_def)

lemma same_money_traced: "same_money w w' \<Longrightarrow> traced env w w'"
  by (rule aside_traced) (simp add: aside_def same_money_def)

lemma schedule_traced:
  assumes "schedule_predebit env invoice now gw w = (r, w')"
  shows "traced env w w'"
  using assms
proof (cases rule: schedule_predebit_cases)
  case (armed iv s w1)
  let ?iv = "arm_debit (clock env now) (max (clock env now + PREDEBIT_NOTICE_HOURS * hour_us) s) iv"
  have "find_invoice w1 (inv_name ?iv) = Some iv" using armed(1,2,4) by (simp add: arm_debit_def find_invoice_def same_money_def)
  then have "traced env w1 (put_invoice ?iv w1)" by (rule put_invoice_traced) (simp add: arm_debit_def)
  then show ?thesis unfolding armed(5)
    by (blast intro: traced_trans same_money_traced [OF armed(4)] traced_notify)
qed (rule same_money_traced)

lemma trace_ok_step: "trace_ok env v w \<Longrightarrow> traced env w w' \<Longrightarrow> trace_ok env v w'"
  using traced_trans traced_rows by (auto simp: trace_ok_def)

lemma pay_traced: "pay_invoice env invoice pm gw w = (x, w') \<Longrightarrow> one_row_each w \<Longrightarrow> traced env w w'"
  by (rule charges_traced) (rule pay_invoice_effect)

interpretation trace: collection_invariant env "trace_ok env v" for env v
proof
  show "trace_ok env v w'" if "pay_invoice env invoice pm gw w = (x, w')" "trace_ok env v w" for invoice pm gw w x w'
    by (rule trace_ok_step [OF that(2) pay_traced [OF that(1)]]) (use that(2) in \<open>simp add: trace_ok_def\<close>)
  show "trace_ok env v w'" if "schedule_predebit env invoice now gw w = (r, w')" "trace_ok env v w" for invoice now gw w r w'
    by (rule trace_ok_step [OF that(2) schedule_traced [OF that(1)]])
  show "trace_ok env v (notify t e n w)" if "trace_ok env v w" for t e n w
    by (rule trace_ok_step [OF that traced_notify])
qed

lemma collect_traced:
  assumes "collect_invoice env invoice new_round now w = Some (res, w')" "one_row_each w"
  shows "traced env w w'"
  using trace.collect_keeps [OF assms(1), of w] assms(2) by (simp add: trace_ok_def)

section \<open>Settling\<close>

lemma issue_refund_traced: "issue_refund env name amount destination reason late w = Inr (r, w') \<Longrightarrow> traced env w w'"
  using issue_refund_moves by (simp add: traced_def)

lemma pay_off_names:
  assumes run: "pay_off env iv paid w = Inr w'"
  shows "map inv_name (pw_invoices w') = map inv_name (pw_invoices w)"
  using run by (auto simp: pay_off_def bindE_Inr Let_def put_invoice_def)

text \<open>An invoice that is not Paid: the attempts stay as they are.\<close>

lemma mark_open_attempts:
  assumes run: "mark_invoice_paid env a amount currency payment_id key w = Inr (settled, w')"
    and iv: "find_invoice w (at_invoice a) = Some iv" "inv_status iv \<noteq> ''Paid''"
  shows "pw_attempts w' = pw_attempts w"
  using run
proof (cases rule: mark_paid_cases)
  case (late iv' v r) with iv show ?thesis by simp
next
  case (wallet iv' why) from to_wallet_frame [OF wallet(5)] show ?thesis by simp
next
  case (settle iv' surplus w1)
  have w1: "pw_attempts w1 = pw_attempts w \<and> pw_invoices w1 = pw_invoices w"
    using settle(6) to_wallet_frame by (cases "surplus > 0") (force simp: review_def)+
  have "find_invoice w1 (inv_name iv') = Some iv'" using settle(1) w1 find_invoice_name [OF settle(1)] by (simp add: find_invoice_def)
  with pay_off_effect(1) [OF settle(7)] w1 show ?thesis by simp
qed

lemma mark_paid_traced:
  assumes run: "mark_invoice_paid env a amount currency payment_id key w = Inr (settled, w')"
  shows "traced env w w'"
proof -
  have "map inv_name (pw_invoices w') = map inv_name (pw_invoices w)"
    using run
  proof (cases rule: mark_paid_cases)
    case (late iv v r) from issue_refund_moves [OF late(4)] show ?thesis by (simp add: late(5))
  next
    case (wallet iv why) from to_wallet_frame [OF wallet(5)] show ?thesis by simp
  next
    case (settle iv surplus w1)
    have "pw_invoices w1 = pw_invoices w" using settle(6) to_wallet_frame by (cases "surplus > 0") (force simp: review_def)+
    with pay_off_names [OF settle(7)] show ?thesis by simp
  qed
  with mark_paid_moves [OF run] show ?thesis by (simp add: traced_def)
qed

lemma settle_invoice_traced: "settle_invoice env a payment w = Inr (settled, w') \<Longrightarrow> traced env w w'"
  unfolding settle_invoice_def by (cases payment) (auto intro: mark_paid_traced)

lemma capture_traced:
  assumes "stands a w" "capture_and_settle env a actor resolved_by payment w = Inr (settled, w')"
  shows "traced env w w'"
  using assms(2)
proof (cases rule: capture_and_settle_cases)
  case (1 b evs)
  have "map inv_name (pw_invoices w') = map inv_name (pw_invoices (put_attempt b (w\<lparr>pw_events := evs\<rparr>)))"
    using settle_invoice_traced [OF 1(6)] by (simp add: traced_def)
  with capture_and_settle_moves [OF assms] show ?thesis by (simp add: traced_def)
qed

lemma found_stands: "find_attempt w n = Some a \<Longrightarrow> stands (a\<lparr>at_txn := t\<rparr>) w"
  by (rule stands_mono [OF stands_found]) (simp_all add: is_in_flight_def)

lemma checkout_traced: "settle_checkout_attempt env name p w = Inr (x, w') \<Longrightarrow> traced env w w'"
  by (auto simp: settle_checkout_attempt_def bindE_Inr split: option.splits if_splits intro: capture_traced found_stands)

lemma confirm_traced: "confirm_invoice_payment env name order_id payment_id signature w = Inr (x, w') \<Longrightarrow> traced env w w'"
  by (auto simp: confirm_invoice_payment_def bindE_Inr split: option.splits if_splits intro: checkout_traced)

lemma credit_wallet_aside:
  assumes "credit_wallet env t p w = Inr (e, w')"
  shows "aside w w'"
  using assms
proof (cases rule: credit_wallet_cases)
  case (credited entry w1 w2 evs t')
  have "aside w w1" by (subst wallet_purchase_frame [OF credited(3)]) simp
  moreover have "aside w1 w2" using credit_surplus_frame [OF credited(4)] by (simp add: aside_def)
  moreover have "aside w2 w'" unfolding credited(7) by (simp add: aside_def put_top_up_def)
  ultimately show ?thesis by (blast intro: aside_trans)
qed simp

section \<open>Corrections\<close>

lemma found_put_traced:
  assumes "find_attempt w n = Some a" "same_charge a b" "is_in_flight b \<Longrightarrow> is_in_flight a"
  shows "traced env w (put_attempt b (w\<lparr>pw_events := evs\<rparr>))"
proof -
  have "stands b w" by (rule stands_mono [OF stands_found [OF assms(1)] assms(2,3)])
  then have "stands b (w\<lparr>pw_events := evs\<rparr>)" by (simp add: stands_def find_attempt_def)
  have "aside w (w\<lparr>pw_events := evs\<rparr>)" by simp
  from traced_trans [OF aside_traced [OF this] put_traced [OF \<open>stands b (w\<lparr>pw_events := evs\<rparr>)\<close>]] show ?thesis .
qed

lemma mark_refunded_traced:
  assumes "mark_refunded env r actor w = Inr w'"
  shows "traced env w w'"
proof -
  from assms obtain a where a: "find_attempt w (rf_attempt r) = Some a" by (auto simp: mark_refunded_def split: option.splits)
  show ?thesis
  proof (cases "sum_where (\<lambda>x. rf_attempt x = at_name a \<and> rf_status x = ''Completed'') rf_amount (pw_refunds w) + 5 / 1000 \<ge> at_amount a")
    case True
    with assms a obtain a' evs where t: "move_attempt (pe_ambient env) a ''Refunded'' None (Some actor) (Some (rf_amount r)) (pw_events w) = Inr (a', evs)"
      "w' = put_attempt a' (w\<lparr>pw_events := evs\<rparr>)" by (auto simp: mark_refunded_def bindE_Inr)
    have "a' = a\<lparr>at_status := ''Refunded''\<rparr>" by (rule move_attempt_Inr(1) [OF t(1)])
    then show ?thesis unfolding t(2) by (intro found_put_traced [OF a]) (simp_all add: is_in_flight_def)
  qed (use assms a in \<open>simp add: mark_refunded_def\<close>)
qed

lemma finish_aside: "finish_refund env r status w = Inr w' \<Longrightarrow> aside w w'"
  by (auto simp: finish_refund_def bindE_Inr)

lemma settle_gateway_traced:
  assumes run: "settle_gateway_refund env r status w = Inr (out, w')"
  shows "traced env w w'"
proof -
  from run consider "aside w w'" | st w1 where "finish_refund env r st w = Inr w1" "mark_refunded env r ''refund'' w1 = Inr w'"
    | st w1 where "finish_refund env r st w = Inr w1" "w' = review (rf_invoice r) ''Refund failed'' w1"
    unfolding settle_gateway_refund_def flag_failed_after_completion_def
    by (auto simp: bindE_Inr split: option.splits if_splits)
  then show ?thesis
  proof cases
    case (2 st w1) from traced_trans [OF aside_traced [OF finish_aside [OF 2(1)]] mark_refunded_traced [OF 2(2)]] show ?thesis .
  next
    case (3 st w1) with finish_aside [OF 3(1)] show ?thesis by (intro aside_traced) simp
  qed (rule aside_traced)
qed

lemma return_part_aside: "return_part env iv r x note p tax w = Inr w' \<Longrightarrow> aside w w'"
  by (auto simp: return_part_def bindE_Inr split: if_splits)

lemma give_back_aside: "give_back_wallet env iv w = Inr w' \<Longrightarrow> aside w w'"
  by (auto simp: give_back_eq Let_def bindE_Inr)

lemma settle_part_traced:
  assumes run: "settle_part env iv r w = Inr w'"
  shows "traced env w w'"
proof -
  have pend: "traced env w v" if "answer_refund env r' result w = Inr v" for r' result v
  proof (cases "rr_status result = ''Pending''")
    case True
    with that show ?thesis by (intro aside_traced) (auto simp: answer_refund_def Let_def bindE_Inr)
  next
    case False
    with that show ?thesis by (auto simp: answer_refund_def Let_def bindE_Inr intro: settle_gateway_traced)
  qed
  from run consider w1 w2 where "aside w w1" "aside w1 w2" "finish_refund env r ''Completed'' w2 = Inr w'"
    | w1 where "finish_refund env r ''Completed'' w = Inr w1" "mark_refunded env r ''dispute'' w1 = Inr w'"
    | result where "answer_refund env r result w = Inr w'"
    unfolding settle_part_def
    by (auto simp: bindE_Inr split: if_splits option.splits dest!: return_part_aside give_back_aside) (metis aside_refl)+
  then show ?thesis
  proof cases
    case (1 w1 w2) from aside_traced [OF aside_trans [OF aside_trans [OF 1(1,2)] finish_aside [OF 1(3)]]] show ?thesis .
  next
    case (2 w1) from traced_trans [OF aside_traced [OF finish_aside [OF 2(1)]] mark_refunded_traced [OF 2(2)]] show ?thesis .
  qed (rule pend)
qed

lemma record_payment_aside: "record_payment env ac iv r w = Inr w' \<Longrightarrow> aside w w'"
  unfolding record_payment_def by (auto simp: bindE_Inr split: if_splits)

lemma run_cancellation_traced:
  assumes run: "run_cancellation env ac got_lock n w = Inr w'"
  shows "traced env w w'"
proof -
  have step: "traced env w v" if iv: "find_invoice w n = Some iv" and go: "take_step env ac iv s w = Inr v" for iv s v
  proof (cases s)
    case Full_credit_note
    with go obtain m where "v = put_invoice (iv\<lparr>inv_credit_note := Some m\<rparr>) w" by (auto simp: take_step_def bindE_Inr)
    then show ?thesis using put_invoice_traced [of w "iv\<lparr>inv_credit_note := Some m\<rparr>" iv env] iv find_invoice_name [OF iv] by simp
  qed (use go in \<open>auto simp: take_step_def bindE_Inr intro: settle_part_traced aside_traced record_payment_aside\<close>)
  from run consider "w' = w" | iv s v where "find_invoice w n = Some iv" "take_step env ac iv s w = Inr v" "w' = enqueue_steps n v"
    by (auto simp: run_cancellation_def bindE_Inr split: if_splits option.splits)
  then show ?thesis
  proof cases
    case (2 iv s v)
    have "aside v w'" by (simp add: 2(3))
    from traced_trans [OF step [OF 2(1,2)] aside_traced [OF this]] show ?thesis .
  qed simp
qed

lemma refund_part_aside:
  assumes "refund_part env n x reason dest dispute w = Inr w'"
  shows "aside w w'"
proof -
  from assms obtain r t where "w' = enqueue_steps n (review n t (book_refund r w))"
    unfolding refund_part_def Let_def by (auto simp: bindE_Inr split_def split: option.splits if_splits)
  then show ?thesis by simp
qed

lemma fold_books_aside: "aside w (fold (book_charge_refund env iv reason dispute) as w)"
proof (induction as arbitrary: w)
  case (Cons a as)
  have "aside w (book_charge_refund env iv reason dispute a w)" unfolding book_charge_refund_def Let_def by simp
  with Cons show ?case by (simp add: aside_trans)
qed simp

lemma cancel_and_refund_traced:
  assumes run: "cancel_and_refund env n reason dispute w = Inr w'"
  shows "traced env w w'"
proof -
  from run obtain iv where iv: "find_invoice w n = Some iv" by (auto simp: cancel_and_refund_def split: option.splits)
  define w1 where "w1 = fold (book_charge_refund env iv reason dispute) (captured_attempts n w) w"
  define w2 where "w2 = (if inv_credit_applied iv + inv_advance_tax_applied iv > 0
    then book_refund (new_refund env iv ''Wallet'' (inv_credit_applied iv + inv_advance_tax_applied iv) reason w1) w1 else w1)"
  from run iv obtain iv' evs where tr: "invoice_transition (pe_ambient env) iv ''Cancelled'' (Some reason) (am_user (pe_ambient env)) None (pw_events w2) = Inr (iv', evs)"
    and w': "w' = enqueue_steps n (review n (''Cancelled and refunded: '' @ reason) (save_invoice iv' (w2\<lparr>pw_events := evs\<rparr>)))"
    unfolding cancel_and_refund_def Let_def by (auto simp: bindE_Inr w1_def w2_def split: if_splits)
  have a: "aside w w2"
    using fold_books_aside [of w env iv reason dispute "captured_attempts n w", folded w1_def]
    unfolding w2_def by simp
  note closed = invoice_transition_closed [OF tr]
  have "find_invoice (w2\<lparr>pw_events := evs\<rparr>) (inv_name iv') = Some iv"
    using closed(1) iv find_invoice_name [OF iv] aside_found [OF a] by (simp add: find_invoice_def)
  then have "traced env (w2\<lparr>pw_events := evs\<rparr>) (save_invoice iv' (w2\<lparr>pw_events := evs\<rparr>))"
    by (rule save_invoice_traced) (use closed(2) in \<open>simp add: UNSETTLED_def\<close>)
  moreover have "aside w (w2\<lparr>pw_events := evs\<rparr>)" using a by simp
  moreover have "aside (save_invoice iv' (w2\<lparr>pw_events := evs\<rparr>)) w'" by (simp add: w')
  ultimately show ?thesis by (blast intro: traced_trans aside_traced)
qed

lemma retry_each_aside: "retry_each env n rs left w = Inr w' \<Longrightarrow> aside w w'"
proof (induction env n rs left w rule: retry_each.induct)
  case (2 env n r rs left w)
  from "2.prems" obtain doc evs where t: "transition (pe_ambient env) (sdoc_of ''Refund'' (rf_name r) (rf_team r) (rf_status r) (Some (rf_currency r)))
      UNDER_WAY None (am_user (pe_ambient env)) (Some n) None None (pw_events w) = Inr (doc, evs)"
    and room: "\<not> (rf_partial r \<and> rf_amount r > left + 5 / 1000)"
    and rest: "retry_each env n rs (if rf_partial r then left - rf_amount r else left)
      (save_refund (r\<lparr>rf_retries := Suc (rf_retries r), rf_status := the (sd_fields doc ''status'')\<rparr>) (w\<lparr>pw_events := evs\<rparr>)) = Inr w'"
    by (auto simp: bindE_Inr split: if_splits)
  from "2.IH" [OF room rest] have "aside (save_refund (r\<lparr>rf_retries := Suc (rf_retries r), rf_status := the (sd_fields doc ''status'')\<rparr>)
    (w\<lparr>pw_events := evs\<rparr>)) w'" by blast
  then show ?case by (rule aside_trans [rotated]) simp
qed simp

lemma retry_failed_aside: "retry_failed_refunds env n w = Inr (k, w') \<Longrightarrow> aside w w'"
  by (auto simp: retry_failed_refunds_def bindE_Inr Let_def dest!: retry_each_aside split: option.splits if_splits)

lemma marked_aside: "marked env e status r w = Inr (x, w') \<Longrightarrow> aside w w'"
  by (auto simp: marked_def mark_event_def bindE_Inr)

lemma refund_event_traced:
  assumes run: "apply_refund_event env name w = Inr (res, w')"
  shows "traced env w w'"
proof -
  from run consider e where "marked env e ''Ignored'' (Unhandled ''no_matching_refund'') w = Inr (res, w')"
    | e r status out v where "settle_gateway_refund env r status w = Inr (out, v)"
        "marked env e ''Processed'' Other_handled (enqueue_steps (rf_invoice r) v) = Inr (res, w')"
    by (auto simp: apply_refund_event_def bindE_Inr split: option.splits)
  then show ?thesis
  proof cases
    case (1 e) from aside_traced [OF marked_aside [OF 1]] show ?thesis .
  next
    case (2 e r status out v)
    have "aside v w'" using marked_aside [OF 2(2)] by (rule aside_trans [rotated]) simp
    from traced_trans [OF settle_gateway_traced [OF 2(1)] aside_traced [OF this]] show ?thesis .
  qed
qed

lemma dispute_traced:
  assumes run: "apply_dispute env e w = Inr (out, w')"
  shows "traced env w w'"
proof -
  have rev: "traced env w (review n t w)" "traced env w (review m t' (review n t w))" for n t m t'
    by (rule aside_traced, simp)+
  show ?thesis
    using run rev cancel_and_refund_traced aside_traced [OF refund_part_aside]
    unfolding apply_dispute_def by (auto simp: bindE_Inr Let_def split: option.splits if_splits)
qed

section \<open>Gateway events\<close>

lemma atomic_traced:
  assumes "\<And>x v. f w = Inr (x, v) \<Longrightarrow> traced env w v" "atomic f w = (r, w')"
  shows "traced env w w'"
  using assms by (cases "f w") (auto simp: atomic_def split: prod.splits)

lemma fail_attempt_traced:
  assumes run: "fail_attempt env a decline w = Inr w'" and a: "find_attempt w n = Some a"
  shows "traced env w w'"
proof -
  from run obtain a2 evs where t: "attempt_transition (pe_ambient env) (stamp_failure decline a) ''Failed''
      (fl_reason (at_failure (stamp_failure decline a))) (Some ''webhook'') (pw_events w) = Inr (a2, evs)"
    "w' = notify (at_team a) ''Payment Failure'' (at_invoice a) (put_attempt (a2\<lparr>at_completed_at := Some (pe_now env)\<rparr>) (w\<lparr>pw_events := evs\<rparr>))"
    by (auto simp: fail_attempt_def Let_def bindE_Inr)
  have a2: "a2 = (stamp_failure decline a)\<lparr>at_status := ''Failed''\<rparr>" by (rule attempt_transition_Inr(1) [OF t(1)])
  have "traced env w (put_attempt (a2\<lparr>at_completed_at := Some (pe_now env)\<rparr>) (w\<lparr>pw_events := evs\<rparr>))"
    by (rule found_put_traced [OF a]) (simp_all add: a2 stamp_failure_def is_in_flight_def same_charge_def)
  then show ?thesis unfolding t(2) by (rule traced_trans) simp
qed

lemma marked_traced: "marked env e status r w = Inr (x, w') \<Longrightarrow> traced env w w'"
  by (rule aside_traced [OF marked_aside])

lemma committed_cases: "committed base w w' = base \<or> committed base w w' = w'"
  by (simp add: committed_def)

lemma attempt_failure_traced:
  assumes run: "apply_attempt_failure env e a decline w = Some (res, w')" and a: "find_attempt w n = Some a" and rows: "one_row_each w"
  shows "traced env w w'"
proof (cases "map_option inv_status (find_invoice w (at_invoice a)) \<noteq> Some ''Paid'' \<and> at_status a \<notin> {''Failed'', ''Refunded''}")
  case False
  then have "apply_attempt_failure env e a decline w = Some (atomic (marked env e ''Processed'' (Charge_failed None)) w)"
    unfolding apply_attempt_failure_def Let_def by (rule if_not_P)
  with run have "atomic (marked env e ''Processed'' (Charge_failed None)) w = (res, w')" by simp
  then show ?thesis by (rule atomic_traced [rotated]) (rule marked_traced)
next
  case go: True
  show ?thesis
  proof (cases "fail_attempt env a decline w")
    case (Inl err) with run go show ?thesis by (simp add: apply_attempt_failure_def)
  next
    case (Inr w1)
    note t1 = fail_attempt_traced [OF Inr a]
    have rows1: "one_row_each w1" using rows traced_rows [OF t1] by simp
    have mark: "traced env w v" if "marked env e st r u = Inr (y, v)" "traced env w u" for st r u y v
      using marked_traced [OF that(1)] that(2) by (rule traced_trans [rotated])
    show ?thesis
    proof (cases "map_option inv_status (find_invoice w (at_invoice a)) \<in> Some ` set UNSETTLED")
      case False
      with run go Inr have "(case marked env e ''Processed'' (Charge_failed None) w1 of
          Inl err \<Rightarrow> Some (Inl err, w) | Inr (r, w3) \<Rightarrow> Some (Inr r, w3)) = Some (res, w')"
        unfolding apply_attempt_failure_def Let_def by auto
      then show ?thesis using mark [OF _ t1] by (auto split: sum.splits)
    next
      case True
      with run go Inr have "(case collect_invoice env (at_invoice a) False None w1 of
                None \<Rightarrow> None
              | Some (Inl err, w2) \<Rightarrow> Some (Inl err, committed w w1 w2)
              | Some (Inr outcome, w2) \<Rightarrow>
                  (case marked env e ''Processed'' (Charge_failed (Some outcome)) w2 of
                     Inl err \<Rightarrow> Some (Inl err, committed w w1 w2) | Inr (r, w3) \<Rightarrow> Some (Inr r, w3))) = Some (res, w')"
        unfolding apply_attempt_failure_def Let_def by auto
      then obtain x w2 where c: "collect_invoice env (at_invoice a) False None w1 = Some (x, w2)"
        and end_state: "w' = committed w w1 w2 \<or> (\<exists>o' y. marked env e ''Processed'' o' w2 = Inr (y, w'))"
        by (auto split: option.splits sum.splits prod.splits)
      have t2: "traced env w w2" by (rule traced_trans [OF t1 collect_traced [OF c rows1]])
      from end_state show ?thesis using committed_cases [of w w1 w2] t2 mark by auto
    qed
  qed
qed

lemma authorised_traced:
  assumes run: "apply_authorised env e a w = Inr (x, w')" and a: "find_attempt w n = Some a"
  shows "traced env w w'"
proof -
  from run obtain v where v: "marked env e ''Processed'' Authorised_noted v = Inr (x, w')"
    and first: "(if at_status a = ''Initiated''
       then bindE (attempt_transition (pe_ambient env) a ''Authorised'' None (Some ''webhook'') (pw_events w))
              (\<lambda>(a', evs). Inr (put_attempt a' (w\<lparr>pw_events := evs\<rparr>)))
       else Inr w) = Inr v"
    by (auto simp: apply_authorised_def bindE_Inr)
  have "traced env w v"
  proof (cases "at_status a = ''Initiated''")
    case True
    with first obtain a' evs where t: "attempt_transition (pe_ambient env) a ''Authorised'' None (Some ''webhook'') (pw_events w) = Inr (a', evs)"
      "v = put_attempt a' (w\<lparr>pw_events := evs\<rparr>)" by (auto simp: bindE_Inr)
    have "a' = a\<lparr>at_status := ''Authorised''\<rparr>" by (rule attempt_transition_Inr(1) [OF t(1)])
    with True show ?thesis unfolding t(2) by (intro found_put_traced [OF a]) (simp_all add: is_in_flight_def)
  qed (use first in simp)
  from traced_trans [OF this marked_traced [OF v]] show ?thesis .
qed

lemma apply_capture_traced:
  assumes run: "apply_capture env e a p w = Inr (x, w')" and a: "find_attempt w n = Some a"
  shows "traced env w w'"
proof -
  from run consider "marked env e ''Processed'' Duplicate w = Inr (x, w')"
    | s v where "capture_and_settle env (a\<lparr>at_txn := Some (vp_id p)\<rparr>) ''webhook'' (Some ''Webhook'') (Some p) w = Inr (s, v)"
        "marked env e ''Processed'' (Charge_settled s) v = Inr (x, w')"
    by (auto simp: apply_capture_def bindE_Inr split: if_splits)
  then show ?thesis
  proof cases
    case (2 s v) from traced_trans [OF capture_traced [OF found_stands [OF a] 2(1)] marked_traced [OF 2(2)]] show ?thesis .
  qed (rule marked_traced)
qed

lemma attempt_event_traced:
  assumes run: "apply_attempt_event env e name p is_authorised decline w = Some (res, w')" and rows: "one_row_each w"
  shows "traced env w w'"
proof (cases "find_attempt w name")
  case None with run show ?thesis by (simp add: apply_attempt_event_def)
next
  case (Some a)
  let ?e = "e\<lparr>we_attempt := Some name\<rparr>"
  from run Some consider "atomic (apply_authorised env ?e a) w = (res, w')"
    | d where "apply_attempt_failure env ?e a d w = Some (res, w')"
    | "atomic (apply_capture env ?e a p) w = (res, w')"
    unfolding apply_attempt_event_def by (auto simp: Let_def split: if_splits option.splits)
  then show ?thesis
  proof cases
    case 1 then show ?thesis by (rule atomic_traced [rotated]) (rule authorised_traced [OF _ Some])
  next
    case (2 d) show ?thesis by (rule attempt_failure_traced [OF 2 Some rows])
  next
    case 3 then show ?thesis by (rule atomic_traced [rotated]) (rule apply_capture_traced [OF _ Some])
  qed
qed

lemma record_decline_aside [simp]: "aside v (record_decline env t d g w) = aside v w"
  by (simp add: record_decline_def Let_def)

lemma topup_event_traced:
  assumes run: "apply_topup_event env e t p is_success decline w = Inr (x, w')"
  shows "traced env w w'"
proof -
  have mark: "traced env w v" if "marked env e st r u = Inr (y, v)" "aside w u" for st r u y v
    by (rule aside_traced [OF aside_trans [OF that(2) marked_aside [OF that(1)]]])
  show ?thesis
    using run mark credit_wallet_aside unfolding apply_topup_event_def
    by (auto simp: bindE_Inr split: option.splits if_splits)
qed

lemma unmatched_traced:
  assumes run: "apply_unmatched_event env e p decline w = Inr (x, w')"
  shows "traced env w w'"
proof -
  obtain m v where m: "(case decline of None \<Rightarrow> (None, w)
      | Some d \<Rightarrow> note_setup_payment_failure env (we_gateway e) (vp_order p) d w) = (m, v)" by fastforce
  have "aside w v" using m by (auto simp: note_setup_payment_failure_def Let_def split: option.splits)
  moreover have "aside v w'" using run m by (auto simp: apply_unmatched_event_def split: option.splits dest!: marked_aside)
  ultimately show ?thesis by (blast intro: aside_traced aside_trans)
qed

text \<open>The events of mandates and payment methods, which other components apply.\<close>

definition leaves_charges :: "pay_env \<Rightarrow> handlers \<Rightarrow> bool" where
  "leaves_charges env hs \<longleftrightarrow> (\<forall>n w x w'. hd_mandate hs n w = Inr (x, w') \<longrightarrow> aside w w')
     \<and> (\<forall>n w x w'. hd_method hs n w = Inr (x, w') \<longrightarrow> aside w w')"

lemma dispute_event_traced:
  assumes "bindE (apply_dispute env e w) (\<lambda>((e', handled), w').
     marked env e' (if handled then ''Processed'' else ''Ignored'') (if handled then Other_handled else Unhandled ''dispute'') w') = Inr (x, v)"
  shows "traced env w v"
  using assms by (auto simp: bindE_Inr intro: traced_trans [OF dispute_traced marked_traced])

lemma apply_webhook_traced:
  assumes run: "apply_webhook env (correction_handlers env hs) name w = Some (res, w')" and rows: "one_row_each w"
  shows "traced env w w'"
proof (cases "find_webhook w name")
  case None with run show ?thesis by (simp add: apply_webhook_def)
next
  case e: (Some e)
  note run1 = run [unfolded apply_webhook_def e option.case correction_handlers_def Let_def, simplified]
  have ignored: "traced env w w'" if "atomic (marked env e ''Ignored'' r) w = (res, w')" for r
    using that by (rule atomic_traced [rotated]) (rule marked_traced)
  show ?thesis
  proof (cases "is_dispute (we_type e)")
    case True
    with run1 have "atomic (\<lambda>w. bindE (apply_dispute env e w) (\<lambda>((e', handled), w').
       marked env e' (if handled then ''Processed'' else ''Ignored'') (if handled then Other_handled else Unhandled ''dispute'') w')) w = (res, w')"
      by simp
    then show ?thesis by (rule atomic_traced [rotated]) (rule dispute_event_traced)
  next
    case False
    show ?thesis
    proof (cases "we_payment e")
      case None with run1 False ignored show ?thesis by simp
    next
      case p: (Some p)
      let ?known = "we_type e \<in> set AUTHORISED_EVENTS \<or> we_type e \<in> set SUCCESS_EVENTS \<or> we_type e \<in> set FAILURE_EVENTS"
      show ?thesis
      proof (cases ?known)
        case unknown: False with run1 False p ignored show ?thesis by auto
      next
        case True
        let ?d = "if we_type e \<in> set FAILURE_EVENTS then Some (case we_decline e of Some d \<Rightarrow> d | None \<Rightarrow> no_failure) else None"
        show ?thesis
        proof (cases "top_up_for_payment p (we_gateway e) w")
          case (Some t)
          with run1 False p True have "atomic (apply_topup_event env e t p (we_type e \<in> set SUCCESS_EVENTS) ?d) w = (res, w')" by auto
          then show ?thesis by (rule atomic_traced [rotated]) (rule topup_event_traced)
        next
          case no_top_up: None
          show ?thesis
          proof (cases "attempt_for_payment p (we_gateway e) w")
            case None
            with run1 False p True no_top_up have "atomic (apply_unmatched_event env e p ?d) w = (res, w')" by auto
            then show ?thesis by (rule atomic_traced [rotated]) (rule unmatched_traced)
          next
            case (Some n)
            with run1 False p True no_top_up
            have "apply_attempt_event env e n p (we_type e \<in> set AUTHORISED_EVENTS) ?d w = Some (res, w')" by auto
            then show ?thesis using rows by (rule attempt_event_traced)
          qed
        qed
      qed
    qed
  qed
qed

lemma dispatch_traced:
  assumes run: "dispatch env (correction_handlers env hs) name w = Some (res, w')" and rows: "one_row_each w" and hs: "leaves_charges env hs"
  shows "traced env w w'"
proof -
  have refund: "traced env w w'" if "atomic (apply_refund_event env name) w = (res, w')"
    using that by (rule atomic_traced [rotated]) (rule refund_event_traced)
  have mandate: "traced env w w'" if "atomic (hd_mandate hs name) w = (res, w')"
    using that by (rule atomic_traced [rotated]) (use hs in \<open>auto simp: leaves_charges_def intro: aside_traced\<close>)
  have card: "traced env w w'" if "atomic (hd_method hs name) w = (res, w')"
    using that by (rule atomic_traced [rotated]) (use hs in \<open>auto simp: leaves_charges_def intro: aside_traced\<close>)
  have fields: "hd_refund (correction_handlers env hs) = apply_refund_event env" "hd_mandate (correction_handlers env hs) = hd_mandate hs"
    "hd_method (correction_handlers env hs) = hd_method hs" by (simp_all add: correction_handlers_def)
  show ?thesis
    using run refund mandate card apply_webhook_traced [OF _ rows] unfolding dispatch_def Let_def fields
    by (auto split: if_splits)
qed

lemma mark_failed_aside: "mark_failed env name w = Inr w' \<Longrightarrow> aside w w'"
  by (auto simp: mark_failed_def bindE_Inr split: option.splits)

lemma webhook_traced:
  assumes run: "handle_webhook_event env (correction_handlers env hs) name w = Some (res, w')"
    and rows: "one_row_each w" and hs: "leaves_charges env hs"
  shows "traced env w w'"
proof (cases "map_option we_status (find_webhook w name) \<in> {Some ''Received'', Some ''Failed''}")
  case False
  with run show ?thesis unfolding handle_webhook_event_def by simp
next
  case True
  then have go: "\<not> map_option we_status (find_webhook w name) \<notin> {Some ''Received'', Some ''Failed''}" by simp
  note run1 = run [unfolded handle_webhook_event_def if_not_P [OF go]]
  obtain r v where d: "dispatch env (correction_handlers env hs) name w = Some (r, v)"
    using run1 by (cases "dispatch env (correction_handlers env hs) name w") auto
  note t = dispatch_traced [OF d rows hs]
  have "w' = v \<or> w' = w \<or> (\<exists>u. mark_failed env name w = Inr u \<and> w' = review name ''Webhook Event failed'' u)"
    using run1 d by (auto split: sum.splits if_splits)
  then show ?thesis using t mark_failed_aside by (auto intro: aside_traced)
qed

section \<open>Reconciliation\<close>

lemma resolve_paid_traced: "stands a w \<Longrightarrow> resolve_paid env a payment w = Inr w' \<Longrightarrow> traced env w w'"
  by (auto simp: resolve_paid_def bindE_Inr intro: capture_traced)

lemma resolve_failed_traced:
  assumes run: "resolve_failed env a code reason w = Inr w'" and a: "find_attempt w n = Some a"
  shows "traced env w w'"
proof -
  from run obtain a' evs where t: "attempt_transition (pe_ambient env) a ''Failed'' (Some code) (Some ''reconciliation'') (pw_events w) = Inr (a', evs)"
    "w' = put_attempt (stamp_failure \<lparr>fl_code = Some code, fl_decline = None, fl_reason = Some reason\<rparr>
           (a'\<lparr>at_completed_at := Some (pe_now env), at_resolved_by := Some ''Reconciliation''\<rparr>)) (w\<lparr>pw_events := evs\<rparr>)"
    by (auto simp: resolve_failed_def bindE_Inr)
  have "a' = a\<lparr>at_status := ''Failed''\<rparr>" by (rule attempt_transition_Inr(1) [OF t(1)])
  then show ?thesis unfolding t(2) by (intro found_put_traced [OF a]) (simp_all add: stamp_failure_def is_in_flight_def same_charge_def)
qed

lemma alert_aside [simp]: "aside v (alert_ops a s w) = aside v w"
  by (simp add: alert_ops_def Let_def)

lemma resolve_checkout_traced:
  assumes "resolve_checkout env a b w = Inr (x, w')" and a: "find_attempt w n = Some a"
  shows "traced env w w'"
  using assms(1) resolve_paid_traced [OF found_stands [OF a]] resolve_failed_traced [OF _ a]
  by (auto simp: resolve_checkout_def bindE_Inr split: option.splits if_splits)

lemma resolve_unanswered_traced:
  assumes run: "resolve_unanswered env a now w = (res, w')" and a: "find_attempt w n = Some a" and rows: "one_row_each w"
  shows "traced env w w'"
proof (cases "truthy (at_method a)")
  case False
  with run have "atomic (resolve_checkout env a (aged (clock env now) a CHECKOUT_OPEN_HOURS)) w = (res, w')" by (simp add: resolve_unanswered_def)
  then show ?thesis by (rule atomic_traced [rotated]) (rule resolve_checkout_traced [OF _ a])
next
  case True
  show ?thesis
  proof (cases "aged (clock env now) a KEY_REPLAY_HOURS")
    case old: True with run True show ?thesis by (auto simp: resolve_unanswered_def Let_def intro!: aside_traced)
  next
    case young: False
    obtain r w1 where r: "resume_attempt env (at_name a) w = (r, w1)" by fastforce
    have t1: "traced env w w1" by (rule charges_traced [OF resume_attempt_effect [OF rows r]])
    show ?thesis
    proof (cases "\<exists>b. find_attempt w1 (at_name a) = Some b \<and> at_status b = ''Captured'' \<and> (\<exists>y. r = Inr y)")
      case False
      with run True young r have "w' = w1" by (auto simp: resolve_unanswered_def Let_def split: sum.splits option.splits if_splits)
      with t1 show ?thesis by simp
    next
      case cap: True
      then obtain b y where b: "find_attempt w1 (at_name a) = Some b" "at_status b = ''Captured''" "r = Inr y" by blast
      with run True young r have at: "atomic (\<lambda>w. bindE (resolve_paid env b None w) (\<lambda>w'. Inr (Replayed (at_status b), w'))) w1 = (res, w')"
        by (simp add: resolve_unanswered_def Let_def)
      have "traced env w1 w'"
        by (rule atomic_traced [OF _ at]) (auto simp: bindE_Inr intro: resolve_paid_traced [OF stands_found [OF b(1)]])
      with t1 show ?thesis by (rule traced_trans)
    qed
  qed
qed

lemma reconcile_attempt_traced:
  assumes run: "reconcile_attempt env name now w = (res, w')" and rows: "one_row_each w"
  shows "traced env w w'"
proof (cases "find_attempt w name")
  case None with run show ?thesis by (simp add: reconcile_attempt_def)
next
  case (Some a)
  note run1 = run [unfolded reconcile_attempt_def Some option.case]
  show ?thesis
  proof (cases "at_status a \<notin> set AMBIGUOUS \<or> is_held_by_gateway a (clock env now)")
    case True with run1 show ?thesis by (auto split: if_splits)
  next
    case False
    show ?thesis
    proof (cases "truthy (at_txn a)")
      case no_txn: False
      from run1 False no_txn have "resolve_unanswered env a now w = (res, w')" by simp
      from resolve_unanswered_traced [OF this Some rows] show ?thesis .
    next
      case True
      have paid: "traced env w v" if "resolve_paid env a None w = Inr v" for v by (rule resolve_paid_traced [OF stands_found [OF Some] that])
      have failed: "traced env w v" if "resolve_failed env a c x w = Inr v" for v c x by (rule resolve_failed_traced [OF that Some])
      have alert: "traced env w (alert_ops a s w)" for s by (rule aside_traced) simp
      have at: "atomic (\<lambda>w. bindE (gateway_status env (at_gateway a) (the (at_txn a))) (\<lambda>status.
        if status \<in> set GATEWAY_SUCCESS
        then bindE (resolve_paid env a None w) (\<lambda>w'. Inr (Resolved ''paid'', w'))
        else if status \<in> set GATEWAY_FAILED
        then bindE (resolve_failed env a (''gateway_'' @ status) (''The gateway reports the payment as '' @ status @ ''.'') w)
               (\<lambda>w'. Inr (Resolved ''Failed'', w'))
        else if aged (clock env now) a ALERT_AFTER_HOURS
        then Inr (Unresolved status True, alert_ops a status w)
        else Inr (Unresolved status False, w))) w = (res, w')"
        using run1 False True by (simp del: append.simps)
      show ?thesis by (rule atomic_traced [OF _ at]) (auto simp: bindE_Inr intro: paid failed alert split: if_splits)
    qed
  qed
qed

lemma captured_traced:
  assumes run: "reconcile_captured_attempt env name now w = Inr (x, w')"
  shows "traced env w w'"
proof (cases "find_attempt w name")
  case None with run show ?thesis by (simp add: reconcile_captured_attempt_def)
next
  case a: (Some a)
  have n: "at_name a = name" by (rule find_attempt_name [OF a])
  show ?thesis
  proof (cases "at_status a = ''Captured'' \<and> map_option inv_status (find_invoice w (at_invoice a)) \<in> Some ` set UNSETTLED_INVOICE")
    case False
    with run a show ?thesis by (auto simp: reconcile_captured_attempt_def split: if_splits)
  next
    case True
    then obtain iv where iv: "find_invoice w (at_invoice a) = Some iv" "inv_status iv \<noteq> ''Paid''" by (auto simp: UNSETTLED_INVOICE_def)
    let ?b = "a\<lparr>at_completed_at := Some (case at_completed_at a of Some t \<Rightarrow> t | None \<Rightarrow> pe_now env),
                  at_resolved_by := Some (or_else (at_resolved_by a) ''Reconciliation'')\<rparr>"
    from run a True consider s where "w' = alert_ops a s w" | "w' = w" | s w1 where "settle_invoice env a None w = Inr (s, w1)" "w' = w1 \<or> w' = put_attempt ?b w1"
      by (auto simp: reconcile_captured_attempt_def bindE_Inr split: if_splits)
    then show ?thesis
    proof cases
      case (1 s) then show ?thesis by (intro aside_traced) simp
    next
      case (3 s w1)
      have t1: "traced env w w1" by (rule settle_invoice_traced [OF 3(1)])
      have "pw_attempts w1 = pw_attempts w" by (rule mark_open_attempts [OF 3(1) [unfolded settle_invoice_def option.case] iv])
      then have "find_attempt w1 name = Some a" using a by (simp add: find_attempt_def)
      then have "stands ?b w1" by (rule stands_mono [OF stands_found]) (use True in \<open>simp_all add: same_charge_def is_in_flight_def\<close>)
      from traced_trans [OF t1 put_traced [OF this]] t1 3(2) show ?thesis by auto
    qed simp
  qed
qed

lemma top_up_traced:
  assumes run: "reconcile_top_up_order env name now w = Inr (x, w')"
  shows "traced env w w'"
proof -
  have credit: "aside w v" if "credit_top_up env t p w = Inr (y, v)" for t p y v
    using that by (auto simp: credit_top_up_def fail_top_up_def bindE_Inr split: sum.splits if_splits dest: credit_wallet_aside)
  have "aside w w'"
    using run credit by (auto simp: reconcile_top_up_order_def expire_top_up_def bindE_Inr split: option.splits if_splits)
  then show ?thesis by (rule aside_traced)
qed

lemma reconcile_refund_traced:
  assumes run: "reconcile_refund env name w = Inr (x, w')"
  shows "traced env w w'"
proof -
  from run consider "w' = w" | r st out v where "settle_gateway_refund env r st w = Inr (out, v)" "w' = v \<or> w' = enqueue_steps (rf_invoice r) v"
    by (auto simp: reconcile_refund_def bindE_Inr split: option.splits sum.splits error.splits if_splits)
  then show ?thesis
  proof cases
    case (2 r st out v)
    have "aside v w'" using 2(2) by auto
    from traced_trans [OF settle_gateway_traced [OF 2(1)] aside_traced [OF this]] show ?thesis .
  qed simp
qed

section \<open>The lifecycle of an invoice and the pruning of logs\<close>

lemma closing_traced:
  assumes tr: "invoice_transition am iv st reason actor amount evs = Inr (iv', evs')" "st \<notin> set UNSETTLED"
    and iv: "find_invoice w (inv_name iv) = Some iv0" and a: "aside w v"
  shows "traced env w (save_invoice iv' v)"
proof -
  note closed = invoice_transition_closed [OF tr]
  have "find_invoice v (inv_name iv') = Some iv0" using iv closed(1) aside_found [OF a] by simp
  then have "traced env v (save_invoice iv' v)" by (rule save_invoice_traced) (use closed(2) in simp)
  with aside_traced [OF a] show ?thesis by (rule traced_trans)
qed

lemma cancel_traced:
  assumes run: "cancel_invoice env n reason w = Inr w'"
  shows "traced env w w'"
proof -
  from run obtain iv where iv: "find_invoice w n = Some iv" by (auto simp: cancel_invoice_def split: option.splits)
  have nm: "find_invoice w (inv_name iv) = Some iv" using iv find_invoice_name [OF iv] by simp
  from run iv consider "w' = w" | iv' evs v where
      "invoice_transition (pe_ambient env) iv ''Cancelled'' reason (am_user (pe_ambient env)) None (pw_events w) = Inr (iv', evs)"
      "give_back_wallet env iv' (save_invoice iv' (w\<lparr>pw_events := evs\<rparr>)) = Inr v" "w' = v \<or> w' = review n (''Cancelled: '' @ the reason) v"
    by (auto simp: cancel_invoice_def bindE_Inr split: if_splits)
  then show ?thesis
  proof cases
    case (2 iv' evs v)
    have "traced env w (save_invoice iv' (w\<lparr>pw_events := evs\<rparr>))" by (rule closing_traced [OF 2(1) _ nm]) (simp_all add: UNSETTLED_def)
    moreover have "aside (save_invoice iv' (w\<lparr>pw_events := evs\<rparr>)) w'" using give_back_aside [OF 2(2)] 2(3) by auto
    ultimately show ?thesis by (blast intro: traced_trans aside_traced)
  qed simp
qed

lemma waive_one_traced:
  assumes run: "waive_one env n w = Inr (x, w')"
  shows "traced env w w'"
proof -
  from run obtain iv where iv: "find_invoice w n = Some iv" by (auto simp: waive_one_def split: option.splits)
  let ?iv = "iv\<lparr>inv_sync_status := Some ''Not Required''\<rparr>"
  have nm: "find_invoice w (inv_name ?iv) = Some iv" using iv find_invoice_name [OF iv] by simp
  from run iv consider "w' = w" | iv' evs where
      "invoice_transition (pe_ambient env) ?iv ''Waived'' (Some ''team marked internal'') (am_user (pe_ambient env)) (Some (inv_total iv)) (pw_events w) = Inr (iv', evs)"
      "give_back_wallet env iv' (save_invoice iv' (w\<lparr>pw_events := evs\<rparr>)) = Inr w'"
    by (auto simp: waive_one_def bindE_Inr split: if_splits)
  then show ?thesis
  proof cases
    case (2 iv' evs)
    have "traced env w (save_invoice iv' (w\<lparr>pw_events := evs\<rparr>))" by (rule closing_traced [OF 2(1) _ nm]) (simp_all add: UNSETTLED_def)
    from traced_trans [OF this aside_traced [OF give_back_aside [OF 2(2)]]] show ?thesis .
  qed simp
qed

lemma open_save_traced:
  assumes "find_invoice w (inv_name iv) = Some iv0" "inv_status iv0 \<in> set UNSETTLED" "aside w v"
  shows "traced env w (save_invoice iv v)"
proof -
  have "find_invoice v (inv_name iv) = Some iv0" using assms(1) aside_found [OF assms(3)] by simp
  then have "traced env v (save_invoice iv v)" by (rule save_invoice_traced) (use assms(2) in simp)
  with aside_traced [OF assms(3)] show ?thesis by (rule traced_trans)
qed

lemma settle_by_credit_traced:
  assumes run: "settle_paid_by_credit env iv reason x v = Inr w'" and iv: "find_invoice w (inv_name iv) = Some iv0"
    "inv_status iv0 \<in> set UNSETTLED" and a: "aside w v"
  shows "traced env w w'"
proof -
  from run obtain iv' evs where tr: "invoice_transition (pe_ambient env) (iv\<lparr>inv_paid_at := Some (pe_now env)\<rparr>) ''Paid'' (Some reason)
      (Some ''scheduler'') (Some x) (pw_events v) = Inr (iv', evs)"
    and w': "w' = (let w1 = save_invoice iv' (v\<lparr>pw_events := evs\<rparr>) in w1\<lparr>pw_sync_queue := pw_sync_queue w1 @ [inv_name iv]\<rparr>)"
    by (auto simp: settle_paid_by_credit_def bindE_Inr Let_def)
  have n: "inv_name iv' = inv_name iv" using invoice_transition_cases [OF tr] by auto
  have "traced env w (save_invoice iv' (v\<lparr>pw_events := evs\<rparr>))" by (rule open_save_traced [OF _ iv(2)]) (use iv(1) n a in simp_all)
  moreover have "aside (save_invoice iv' (v\<lparr>pw_events := evs\<rparr>)) w'" by (simp add: w' Let_def)
  ultimately show ?thesis by (blast intro: traced_trans aside_traced)
qed

lemma draw_wallet_aside: "draw_wallet env iv c g w = Inr (d, w') \<Longrightarrow> aside w w'"
  by (auto simp: draw_wallet_def bindE_Inr Let_def split_def split: if_splits)

lemma apply_draw_aside: "apply_draw env iv d w = Inr (iv', w') \<Longrightarrow> aside w w' \<and> inv_name iv' = inv_name iv"
  by (auto simp: apply_draw_def bindE_Inr split: if_splits)

lemma draw_and_date_aside:
  assumes "draw_and_date env iv w = Inr ((iv', d), w')"
  shows "aside w w'"
proof -
  from assms obtain w1 iv1 where "aside w w1" "apply_draw env iv d w1 = Inr (iv1, w')"
    unfolding draw_and_date_def Let_def
    by (auto simp: bindE_Inr split: if_splits dest: draw_wallet_aside intro: that [OF aside_refl])
  with apply_draw_aside show ?thesis by (blast intro: aside_trans)
qed

lemma settle_with_credit_traced:
  assumes run: "settle_with_credit env n w = Inr (x, w')"
  shows "traced env w w'"
proof -
  from run obtain iv where iv: "find_invoice w n = Some iv" by (auto simp: settle_with_credit_def split: option.splits)
  have n: "inv_name iv = n" by (rule find_invoice_name [OF iv])
  show ?thesis
  proof (cases "\<not> is_owed iv \<or> inv_expected_collection iv \<le> 0 \<or> unsettled_capture n w \<noteq> None")
    case True with run iv show ?thesis by (auto simp: settle_with_credit_def)
  next
    case False
    then have u: "inv_status iv \<in> set UNSETTLED" by (simp add: is_owed_def)
    from run iv False obtain d w1 where d: "draw_wallet env iv (inv_expected_collection iv) (gst_still_due iv (inv_expected_collection iv)) w = Inr (d, w1)"
      and rest: "(if dr_wallet d \<le> 0 \<or> pe_r2 env (inv_expected_collection iv - dr_wallet d - dr_gst d) > 0 then Inr (0, w1)
        else bindE (apply_draw env iv d w1) (\<lambda>(iv', w2).
             bindE (settle_paid_by_credit env (iv'\<lparr>inv_expected_collection := 0\<rparr>) ''credit added later covered it'' (dr_wallet d) w2)
               (\<lambda>w3. Inr (dr_wallet d, w3)))) = Inr (x, w')"
      by (auto simp: settle_with_credit_def Let_def bindE_Inr)
    note a1 = draw_wallet_aside [OF d]
    from rest consider "w' = w1" | iv' w2 where "apply_draw env iv d w1 = Inr (iv', w2)"
        "settle_paid_by_credit env (iv'\<lparr>inv_expected_collection := 0\<rparr>) ''credit added later covered it'' (dr_wallet d) w2 = Inr w'"
      by (auto simp: bindE_Inr split: if_splits)
    then show ?thesis
    proof cases
      case 1 with a1 show ?thesis by (simp add: aside_traced)
    next
      case (2 iv' w2)
      note a2 = apply_draw_aside [OF 2(1)]
      show ?thesis
        by (rule settle_by_credit_traced [OF 2(2) _ u]) (use iv n a1 a2 in \<open>auto intro: aside_trans\<close>)
    qed
  qed
qed

lemma start_collection_traced:
  assumes run: "start_collection env iv d collect base v = Some (res, w')" and t: "traced env base v" and rows: "one_row_each base"
  shows "traced env base w'"
proof -
  have ntf: "aside u (notify_payment_scheduled n u)" for n u by (simp add: notify_payment_scheduled_def split: option.splits)
  have rows': "one_row_each v" using rows traced_rows [OF t] by simp
  from run consider "w' = notify_payment_scheduled (inv_name iv) v"
    | x u where "collect_invoice env (inv_name iv) False None v = Some (x, u)" "w' = committed base v u \<or> w' = notify_payment_scheduled (inv_name iv) u"
    by (auto simp: start_collection_def split: if_splits option.splits sum.splits prod.splits)
  then show ?thesis
  proof cases
    case 1 then show ?thesis using traced_trans [OF t aside_traced [OF ntf]] by simp
  next
    case (2 x u)
    have u: "traced env base u" by (rule traced_trans [OF t collect_traced [OF 2(1) rows']])
    from 2(2) committed_cases [of base v u] u traced_trans [OF u aside_traced [OF ntf]] show ?thesis by auto
  qed
qed

lemma open_billable_traced:
  assumes run: "open_billable env iv collect base w = Some (res, w')" and iv: "find_invoice w (inv_name iv) = Some iv0"
    "inv_status iv0 \<in> set UNSETTLED" and t: "aside base w" and rows: "one_row_each base"
  shows "traced env base w'"
proof (cases "draw_and_date env iv w")
  case (Inl e) with run show ?thesis by (simp add: open_billable_def)
next
  case (Inr q)
  then obtain iv' d v where D: "draw_and_date env iv w = Inr ((iv', d), v)" by (metis surj_pair)
  note n = draw_and_date_frame(3) [OF D] and a = draw_and_date_aside [OF D]
  have found: "find_invoice w (inv_name iv') = Some iv0" using iv(1) n by simp
  show ?thesis
  proof (cases "inv_expected_collection iv' \<le> 0")
    case True
    with run D consider "w' = base" | x where "settle_paid_by_credit env iv' ''credits covered in full'' x v = Inr w'"
      by (auto simp: open_billable_def split: sum.splits)
    then show ?thesis
    proof cases
      case (2 x) from traced_trans [OF aside_traced [OF t] settle_by_credit_traced [OF 2 found iv(2) a]] show ?thesis .
    qed simp
  next
    case False
    with run D have s: "start_collection env iv' d collect base (issue_invoice env iv' v) = Some (res, w')" by (simp add: open_billable_def)
    have "traced env w (issue_invoice env iv' v)" unfolding issue_invoice_def by (rule open_save_traced [OF found iv(2)]) (simp add: a)
    from start_collection_traced [OF s traced_trans [OF aside_traced [OF t] this] rows] show ?thesis .
  qed
qed

lemma open_traced:
  assumes run: "open_and_collect env n collect w = Some (res, w')" and rows: "one_row_each w"
  shows "traced env w w'"
proof (cases "find_invoice w n")
  case None with run show ?thesis by (simp add: open_and_collect_def)
next
  case (Some iv)
  have nm: "inv_name iv = n" by (rule find_invoice_name [OF Some])
  note run1 = run [unfolded open_and_collect_def Some option.case]
  show ?thesis
  proof (cases "is_unissued iv")
    case False with run1 show ?thesis by simp
  next
    case True
    then have u: "inv_status iv \<in> set UNSETTLED" by (simp add: is_unissued_def UNSETTLED_def)
    obtain h w1 where h: "hold_reason env iv w = (h, w1)" by fastforce
    have a1: "aside w w1" using h by (auto simp: hold_reason_def hold_for_billing_details_def Let_def split: if_splits)
    have held: "traced env w (mark_held env iv x w1)" for x
    proof -
      have "find_invoice w1 (inv_name iv) = Some iv" using Some nm aside_found [OF a1] by simp
      then have "traced env w1 (put_invoice (iv\<lparr>inv_hold_reason := Some x\<rparr>) w1)"
        using put_invoice_traced [of w1 "iv\<lparr>inv_hold_reason := Some x\<rparr>" iv env] u by simp
      then have "traced env w1 (mark_held env iv x w1)"
        unfolding mark_held_def Let_def by (auto intro: traced_trans [OF _ aside_traced])
      with aside_traced [OF a1] show ?thesis by (rule traced_trans)
    qed
    have waived: "traced env w v" if "waive_internal env iv w = Inr (r, v)" for r v
    proof -
      from that obtain iv1 iv2 evs where "retax env iv w = Inr iv1" and v: "v = save_invoice iv2 (w\<lparr>pw_events := evs\<rparr>)"
        and tr: "invoice_transition (pe_ambient env) (iv1\<lparr>inv_credit_applied := 0, inv_expected_collection := 0, inv_sync_status := Some ''Not Required''\<rparr>) ''Waived''
              (Some ''internal team'') (Some ''scheduler'') (Some (inv_total iv1)) (pw_events w) = Inr (iv2, evs)"
        by (auto simp: waive_internal_def bindE_Inr)
      have "inv_name iv2 = n" using invoice_transition_cases [OF tr] retax_Inr [OF \<open>retax env iv w = Inr iv1\<close>] nm by auto
      with Some u show ?thesis unfolding v by (intro open_save_traced) simp_all
    qed
    have report: "traced env w (open_cost_report env iv w)"
      unfolding open_cost_report_def Let_def by (rule open_save_traced) (use Some nm u in simp_all)
    have bill: "traced env w w'" if "open_billable env iv collect w w = Some (res, w')"
      by (rule open_billable_traced [OF that _ u aside_refl rows]) (use Some nm in simp)
    have later: "traced env w w'" if "retax env iv w1 = Inr iv'" "open_billable env iv' collect w w1 = Some (res, w')" for iv'
    proof (rule open_billable_traced [OF that(2) _ u a1 rows])
      have "inv_name iv' = n" using retax_Inr [OF that(1)] nm by auto
      with Some aside_found [OF a1] show "find_invoice w1 (inv_name iv') = Some iv" by simp
    qed
    show ?thesis
      using run1 True held waived report bill later h
      by (auto split: if_splits sum.splits option.splits prod.splits)
  qed
qed

text \<open>Pruning drops failed attempts of invoices that are settled.\<close>

lemma keep_ok:
  assumes ok: "log_ok env w" and gone: "\<And>a. a \<in> set (pw_attempts w) \<Longrightarrow> \<not> P a \<Longrightarrow> is_closed w (at_invoice a)"
  shows "log_ok env (w\<lparr>pw_attempts := filter P (pw_attempts w)\<rparr>)"
proof -
  let ?w = "w\<lparr>pw_attempts := filter P (pw_attempts w)\<rparr>"
  have att: "attempts_for n ?w = filter P (attempts_for n w)" for n
    unfolding attempts_for_def by simp (rule filter_cong, auto)
  have keep: "attempts_for n ?w = attempts_for n w" if "\<not> is_closed w n" for n
    unfolding att by (rule filter_True) (use that gone in \<open>auto simp: attempts_for_def\<close>)
  show ?thesis
  proof (rule log_okI)
    show "distinct (map at_name (pw_attempts ?w))" using log_okD(1) [OF ok] by (simp add: distinct_map_filter)
    fix n
    have "length (filter is_in_flight (filter P (attempts_for n w))) \<le> length (filter is_in_flight (attempts_for n w))"
      unfolding filter_filter by (rule length_filter_mono) simp
    with log_okD(3) [OF ok, of n] show "length (filter is_in_flight (attempts_for n ?w)) \<le> 1" unfolding att by simp
  next
    fix n assume "\<not> is_closed ?w n"
    then have "\<not> is_closed w n" by (simp add: is_closed_def find_invoice_def)
    then show "map at_retry (attempts_for n ?w) = [0..<length (attempts_for n ?w)]"
      using log_okD(5) [OF ok] by (simp add: keep)
  qed (use log_okD(2,4) [OF ok] in auto)
qed

lemma cleanup_ok:
  assumes run: "cleanup_payment_logs env now w = (x, w')" and ok: "log_ok env w"
  shows "log_ok env w' \<and> pw_invoices w' = pw_invoices w"
proof -
  define cutoff where "cutoff = clock env now - payment_log_retention_days (pe_settings env) * day_us"
  have w': "aside (snd (prune_payment_attempts cutoff w)) w'"
    using run by (auto simp: cleanup_payment_logs_def prune_webhook_events_def Let_def split_def aside_def cutoff_def)
  have "log_ok env (snd (prune_payment_attempts cutoff w))"
    unfolding prune_payment_attempts_def Let_def snd_conv
    by (rule keep_ok [OF ok]) (auto simp: is_closed_def split: option.splits)
  moreover have "pw_invoices (snd (prune_payment_attempts cutoff w)) = pw_invoices w" by (simp add: prune_payment_attempts_def Let_def)
  moreover have "log_ok env w'" if "log_ok env v" "aside v w'" for v
    using that by (intro frame_ok [OF that(1)] stays_closed_cong) (simp_all add: aside_def)
  ultimately show ?thesis using w' by (simp add: aside_def)
qed

section \<open>All payment operations\<close>

text \<open>
  The names and idempotency keys come from the same sources \<open>h\<close> and \<open>key\<close> throughout; the time, the settings,
  the gateways and their answers may differ in each step.
\<close>

definition draws_from :: "(nat \<Rightarrow> string) \<Rightarrow> (string \<Rightarrow> nat \<Rightarrow> string) \<Rightarrow> pay_env \<Rightarrow> bool" where
  "draws_from h key env \<longleftrightarrow> pe_hash env = h \<and> pe_key env = key"

inductive payment_step :: "(nat \<Rightarrow> string) \<Rightarrow> (string \<Rightarrow> nat \<Rightarrow> string) \<Rightarrow> world \<Rightarrow> world \<Rightarrow> bool" for h key where
  pay: "draws_from h key env \<Longrightarrow> pay_invoice env n pm gw w = (res, w') \<Longrightarrow> payment_step h key w w'"
| resume: "draws_from h key env \<Longrightarrow> resume_attempt env a w = (res, w') \<Longrightarrow> payment_step h key w w'"
| order: "draws_from h key env \<Longrightarrow> create_invoice_payment_order env n gw w = (res, w') \<Longrightarrow> payment_step h key w w'"
| confirm: "draws_from h key env \<Longrightarrow> confirm_invoice_payment env a order_id payment_id sig w = Inr (x, w') \<Longrightarrow> payment_step h key w w'"
| collect: "draws_from h key env \<Longrightarrow> collect_invoice env n new_round now w = Some (res, w') \<Longrightarrow> payment_step h key w w'"
| notice: "draws_from h key env \<Longrightarrow> schedule_predebit env n now gw w = (res, w') \<Longrightarrow> payment_step h key w w'"
| event: "draws_from h key env \<Longrightarrow> leaves_charges env hs \<Longrightarrow>
    handle_webhook_event env (correction_handlers env hs) e w = Some (res, w') \<Longrightarrow> payment_step h key w w'"
| reconcile: "draws_from h key env \<Longrightarrow> reconcile_attempt env a now w = (res, w') \<Longrightarrow> payment_step h key w w'"
| reconcile_captured: "draws_from h key env \<Longrightarrow> reconcile_captured_attempt env a now w = Inr (x, w') \<Longrightarrow> payment_step h key w w'"
| reconcile_top_up: "draws_from h key env \<Longrightarrow> reconcile_top_up_order env t time w = Inr (x', w') \<Longrightarrow> payment_step h key w w'"
| reconcile_refund: "draws_from h key env \<Longrightarrow> reconcile_refund env r w = Inr (y, w') \<Longrightarrow> payment_step h key w w'"
| refund: "draws_from h key env \<Longrightarrow> issue_refund env a amount dest reason late w = Inr (r', w') \<Longrightarrow> payment_step h key w w'"
| part: "draws_from h key env \<Longrightarrow> refund_part env n x'' reason' dest dispute w = Inr w' \<Longrightarrow> payment_step h key w w'"
| cancel_paid: "draws_from h key env \<Longrightarrow> cancel_and_refund env n reason' dispute w = Inr w' \<Longrightarrow> payment_step h key w w'"
| retry: "draws_from h key env \<Longrightarrow> retry_failed_refunds env n w = Inr (k, w') \<Longrightarrow> payment_step h key w w'"
| job: "draws_from h key env \<Longrightarrow> run_cancellation env ac got_lock n w = Inr w' \<Longrightarrow> payment_step h key w w'"
| open_invoice: "draws_from h key env \<Longrightarrow> open_and_collect env n now_too w = Some (out, w') \<Longrightarrow> payment_step h key w w'"
| credit: "draws_from h key env \<Longrightarrow> settle_with_credit env n w = Inr (m, w') \<Longrightarrow> payment_step h key w w'"
| cancel: "draws_from h key env \<Longrightarrow> cancel_invoice env n reason w = Inr w' \<Longrightarrow> payment_step h key w w'"
| waive: "draws_from h key env \<Longrightarrow> waive_one env n w = Inr (b, w') \<Longrightarrow> payment_step h key w w'"
| prune: "draws_from h key env \<Longrightarrow> cleanup_payment_logs env now w = (counts, w') \<Longrightarrow> payment_step h key w w'"

text \<open>Every step but the pruning is a trace of the log.\<close>

lemma payment_step_cases:
  assumes "payment_step h key w w'" "one_row_each w"
  shows "\<exists>env. draws_from h key env \<and> (traced env w w' \<or> (\<exists>now x. cleanup_payment_logs env now w = (x, w')))"
  using assms
proof cases
  case (pay env n pm gw res) with pay_traced [OF pay(2)] assms(2) show ?thesis by blast
next
  case (resume env a res) with charges_traced [OF resume_attempt_effect [OF assms(2) resume(2)]] show ?thesis by blast
next
  case (order env n gw res) with charges_traced [OF create_order_effect [OF order(2)]] show ?thesis by blast
next
  case (collect env n r now res) with collect_traced [OF collect(2) assms(2)] show ?thesis by blast
next
  case (event env hs e res) with webhook_traced [OF event(3) assms(2) event(2)] show ?thesis by blast
next
  case (reconcile env a now res) with reconcile_attempt_traced [OF reconcile(2) assms(2)] show ?thesis by blast
next
  case (open_invoice env n c out) with open_traced [OF open_invoice(2) assms(2)] show ?thesis by blast
qed (blast dest: confirm_traced schedule_traced captured_traced top_up_traced reconcile_refund_traced issue_refund_traced
    refund_part_aside retry_failed_aside cancel_and_refund_traced run_cancellation_traced settle_with_credit_traced
    cancel_traced waive_one_traced intro: aside_traced)+

definition log_sound :: "(nat \<Rightarrow> string) \<Rightarrow> (string \<Rightarrow> nat \<Rightarrow> string) \<Rightarrow> world \<Rightarrow> bool" where
  "log_sound h key w \<longleftrightarrow> one_row_each w \<and> (\<forall>env. draws_from h key env \<longrightarrow> log_ok env w)"

lemma log_ok_cong: "draws_from h key env \<Longrightarrow> draws_from h key env' \<Longrightarrow> log_ok env w = log_ok env' w"
  by (simp add: draws_from_def log_ok_def)

lemma good_names_cong: "draws_from h key env \<Longrightarrow> draws_from h key env' \<Longrightarrow> good_names env = good_names env'"
  by (simp add: draws_from_def good_names_def)

lemma payment_step_sound:
  assumes step: "payment_step h key w w'" and ok: "log_sound h key w" and names: "\<And>env. draws_from h key env \<Longrightarrow> good_names env"
  shows "log_sound h key w'"
proof -
  from payment_step_cases [OF step] ok obtain env where env: "draws_from h key env"
    and run: "traced env w w' \<or> (\<exists>now x. cleanup_payment_logs env now w = (x, w'))" by (auto simp: log_sound_def)
  have "log_ok env w" "one_row_each w" using ok env by (simp_all add: log_sound_def)
  from run have "log_ok env w' \<and> one_row_each w'"
  proof
    assume t: "traced env w w'"
    with moves_ok [OF _ names [OF env] \<open>log_ok env w\<close>] traced_rows [OF t] \<open>one_row_each w\<close> show ?thesis by (simp add: traced_def)
  next
    assume "\<exists>now x. cleanup_payment_logs env now w = (x, w')"
    then obtain now x where "cleanup_payment_logs env now w = (x, w')" by blast
    from cleanup_ok [OF this \<open>log_ok env w\<close>] \<open>one_row_each w\<close> show ?thesis by (simp add: one_row_each_def)
  qed
  then show ?thesis using log_ok_cong [OF env] by (auto simp: log_sound_def)
qed

end
