(* ===== verification/Payment_Properties.thy ===== *)
theory Payment_Properties
  imports Payment_Steps Charge_Properties
begin

text \<open>What holds however the operations of the payment system interleave.\<close>



end
