(* ===== verification/Catalog.thy ===== *)
theory Catalog
  imports Profiles "HOL-Library.AList"
begin

text \<open>
  The catalog: rate rows per region and currency and how one is resolved (\<open>catalog/pricing.py\<close>,
  \<open>doctype/catalog_rate/catalog_rate.py\<close>), the plan families and plans with the checks a plan is
  saved under (\<open>doctype/plan_category\<close>, \<open>doctype/plan\<close>), the metered plan of a resource type
  (\<open>revenue/metering.py\<close>), and the shape rules of a composed server (\<open>catalog/composition.py\<close>).

  A table is a list of rows in the order the database returns them. The rounding to six digits
  of a percentage override is the framework's and the argument \<open>r6\<close>. A table is
  keyed by its name column: \<open>insert\<close> of a taken name is \<open>DuplicateEntry\<close>.
\<close>

section \<open>Rates\<close>

record rate_row =
  cr_name :: string
  cr_doctype :: string
  cr_for :: string
  cr_cluster :: "string option"
  cr_currency :: string
  cr_rate :: money

record rate_override =
  ro_doctype :: string
  ro_for :: "string option"
  ro_cluster :: "string option"
  ro_currency :: "string option"
  ro_rate :: "money option"
  ro_percent :: "rat option"

definition or_none :: "string option \<Rightarrow> string option" where
  "or_none x = (case x of None \<Rightarrow> None | Some s \<Rightarrow> if strip s = [] then None else Some (strip s))"

definition reprice :: "(rat \<Rightarrow> rat) \<Rightarrow> rate_override \<Rightarrow> rate_row \<Rightarrow> rate_row" where
  "reprice r6 ov row =
     (if truthy (ro_cluster ov) \<and> cr_cluster row \<noteq> ro_cluster ov then row
      else if truthy (ro_currency ov) \<and> Some (cr_currency row) \<noteq> ro_currency ov then row
      else case ro_rate ov of
        Some rate \<Rightarrow> row\<lparr>cr_rate := rate\<rparr>
      | None \<Rightarrow> (case ro_percent ov of
          None \<Rightarrow> row
        | Some p \<Rightarrow> if p = 0 then row else row\<lparr>cr_rate := r6 (cr_rate row * (1 + p / 100))\<rparr>))"

fun apply_overrides :: "(rat \<Rightarrow> rat) \<Rightarrow> rate_override list \<Rightarrow> string \<Rightarrow> string \<Rightarrow> rate_row list \<Rightarrow> rate_row list" where
  "apply_overrides r6 [] priced_doctype priced_for rows = rows"
| "apply_overrides r6 (ov # ovs) priced_doctype priced_for rows =
     apply_overrides r6 ovs priced_doctype priced_for
       (if ro_doctype ov \<noteq> priced_doctype then rows
        else if truthy (ro_for ov) \<and> ro_for ov \<noteq> Some priced_for then rows
        else map (reprice r6 ov) rows)"

definition get_catalog_rates ::
  "(rat \<Rightarrow> rat) \<Rightarrow> rate_override list \<Rightarrow> rate_row list \<Rightarrow> string \<Rightarrow> string \<Rightarrow> rate_row list" where
  "get_catalog_rates r6 ovs rates priced_doctype priced_for =
     apply_overrides r6 ovs priced_doctype priced_for
       (filter (\<lambda>r. cr_doctype r = priced_doctype \<and> cr_for r = priced_for) rates)"

definition resolve_rate :: "rate_row list \<Rightarrow> string \<Rightarrow> string option \<Rightarrow> money option" where
  "resolve_rate rate_rows currency cluster =
     (let in_currency = filter (\<lambda>r. cr_currency r = currency) rate_rows;
          regional = filter (\<lambda>r. cr_cluster r = cluster) in_currency
      in if truthy cluster \<and> regional \<noteq> [] then Some (cr_rate (hd regional))
      else map_option cr_rate (find (\<lambda>r. \<not> truthy (cr_cluster r)) in_currency))"

text \<open>\<open>CatalogRate.autoname\<close>: the row's parts joined by a dash, the blank ones left out.\<close>

fun join_with :: "string \<Rightarrow> string list \<Rightarrow> string" where
  "join_with sep [] = []"
| "join_with sep [x] = x"
| "join_with sep (x # y # zs) = x @ sep @ join_with sep (y # zs)"

definition rate_autoname :: "string \<Rightarrow> string option \<Rightarrow> string \<Rightarrow> string" where
  "rate_autoname priced_for cluster currency =
     join_with ''-'' (filter (\<lambda>p. p \<noteq> [])
       [priced_for, (case or_none cluster of None \<Rightarrow> [] | Some c \<Rightarrow> c), currency])"

definition rate_validate :: "rate_row \<Rightarrow> error + rate_row" where
  "rate_validate r =
     (if cr_doctype r \<notin> {''Plan'', ''Resource Type''} then Inl (ValidationError ''Priced Doctype'')
      else Inr (if or_none (cr_cluster r) = None then r\<lparr>cr_cluster := None\<rparr> else r))"

definition insert_rate :: "rate_row \<Rightarrow> rate_row list \<Rightarrow> error + rate_row list" where
  "insert_rate row rates =
     (let row = row\<lparr>cr_name := rate_autoname (cr_for row) (cr_cluster row) (cr_currency row)\<rparr> in
      bindE (rate_validate row) (\<lambda>row.
        if cr_name row \<in> cr_name ` set rates then Inl DuplicateEntry else Inr (rates @ [row])))"

definition set_catalog_rate ::
  "string \<Rightarrow> string \<Rightarrow> string \<Rightarrow> money \<Rightarrow> string option \<Rightarrow> rate_row list
     \<Rightarrow> error + (string \<times> bool) \<times> rate_row list" where
  "set_catalog_rate priced_doctype priced_for currency rate cluster rates =
     (let cluster = or_none cluster in
      case find (\<lambda>r. cr_doctype r = priced_doctype \<and> cr_for r = priced_for \<and> cr_currency r = currency
                   \<and> cr_cluster r = cluster) rates of
        Some old \<Rightarrow> Inr ((cr_name old, False),
          map (\<lambda>r. if cr_name r = cr_name old then r\<lparr>cr_rate := rate\<rparr> else r) rates)
      | None \<Rightarrow> bindE (insert_rate \<lparr>cr_name = [], cr_doctype = priced_doctype, cr_for = priced_for,
            cr_cluster = cluster, cr_currency = currency, cr_rate = rate\<rparr> rates)
          (\<lambda>rates'. Inr ((cr_name (last rates'), True), rates')))"

fun insert_rates :: "string \<Rightarrow> string \<Rightarrow> (string option \<times> string \<times> money) list \<Rightarrow> rate_row list \<Rightarrow> error + rate_row list" where
  "insert_rates priced_doctype priced_for [] rates = Inr rates"
| "insert_rates priced_doctype priced_for ((cluster, currency, rate) # rows) rates =
     bindE (insert_rate \<lparr>cr_name = [], cr_doctype = priced_doctype, cr_for = priced_for,
         cr_cluster = or_none cluster, cr_currency = currency, cr_rate = rate\<rparr> rates)
       (insert_rates priced_doctype priced_for rows)"

definition set_catalog_rates ::
  "string \<Rightarrow> string \<Rightarrow> (string option \<times> string \<times> money) list \<Rightarrow> rate_row list \<Rightarrow> error + rate_row list" where
  "set_catalog_rates priced_doctype priced_for rows rates =
     insert_rates priced_doctype priced_for rows
       (filter (\<lambda>r. \<not> (cr_doctype r = priced_doctype \<and> cr_for r = priced_for)) rates)"

section \<open>Plans and their families\<close>

record plan_include =
  pi_type :: string
  pi_quantity :: rat

record plan_category =
  pc_name :: string
  pc_billing_type :: string
  pc_pricing_mode :: "string option"
  pc_settlement_mode :: "string option"
  pc_reporting_mode :: "string option"
  pc_provision_target :: "string option"
  pc_allowed :: "string list"

record plan =
  pl_name :: string
  pl_category :: string
  pl_sub_category :: "string option"
  pl_active :: bool
  pl_includes :: "plan_include list"

text \<open>An optimisation profile, a \<open>Plan Sub-Category\<close>: the allowed vCPU steps are already parsed.\<close>

record shape_profile =
  sp_name :: string
  sp_category :: string
  sp_ram_ratio :: rat
  sp_vcpu_steps :: "rat list"
  sp_disk_min :: rat
  sp_disk_max :: rat

record catalog =
  ct_rates :: "rate_row list"
  ct_overrides :: "rate_override list"
  ct_categories :: "plan_category list"
  ct_plans :: "plan list"
  ct_profiles :: "shape_profile list"

definition find_category :: "catalog \<Rightarrow> string \<Rightarrow> plan_category option" where
  "find_category ct name = find (\<lambda>c. pc_name c = name) (ct_categories ct)"

definition find_plan :: "catalog \<Rightarrow> string \<Rightarrow> plan option" where
  "find_plan ct name = find (\<lambda>p. pl_name p = name) (ct_plans ct)"

definition category_validate :: "plan_category \<Rightarrow> plan_category" where
  "category_validate c = (if pc_billing_type c \<noteq> ''Metered''
     then c\<lparr>pc_settlement_mode := None, pc_reporting_mode := None\<rparr> else c)"

definition metered_categories :: "catalog \<Rightarrow> string set" where
  "metered_categories ct = pc_name ` set (filter (\<lambda>c. pc_billing_type c = ''Metered'') (ct_categories ct))"

definition is_metered_single_resource :: "catalog \<Rightarrow> plan \<Rightarrow> bool" where
  "is_metered_single_resource ct p \<longleftrightarrow> length (pl_includes p) = 1 \<and> pl_category p \<noteq> []
     \<and> (case find_category ct (pl_category p) of None \<Rightarrow> False | Some c \<Rightarrow> pc_billing_type c = ''Metered'')"

text \<open>A plan that prices resource type \<open>rt\<close> alone, which is what metering looks for.\<close>

definition covers :: "catalog \<Rightarrow> string \<Rightarrow> plan \<Rightarrow> bool" where
  "covers ct rt p \<longleftrightarrow> pl_category p \<in> metered_categories ct \<and> pl_active p \<and> map pi_type (pl_includes p) = [rt]"

definition validate_unique_metered_resource :: "catalog \<Rightarrow> plan \<Rightarrow> bool" where
  "validate_unique_metered_resource ct p \<longleftrightarrow> \<not> pl_active p \<or> \<not> is_metered_single_resource ct p
     \<or> (\<forall>q \<in> set (ct_plans ct). pl_name q \<noteq> pl_name p \<longrightarrow> \<not> covers ct (pi_type (hd (pl_includes p))) q)"

definition validate_plan_sub_category :: "catalog \<Rightarrow> plan \<Rightarrow> bool" where
  "validate_plan_sub_category ct p \<longleftrightarrow> \<not> truthy (pl_sub_category p)
     \<or> map_option sp_category (find (\<lambda>s. Some (sp_name s) = pl_sub_category p) (ct_profiles ct)) = Some (pl_category p)"

definition validate_includes_against_category :: "catalog \<Rightarrow> plan \<Rightarrow> bool" where
  "validate_includes_against_category ct p \<longleftrightarrow> pl_category p = []
     \<or> (case find_category ct (pl_category p) of None \<Rightarrow> True | Some c \<Rightarrow>
          pc_allowed c = [] \<or> (\<forall>i \<in> set (pl_includes p). pi_type i \<in> set (pc_allowed c)))"

definition plan_validate :: "catalog \<Rightarrow> plan \<Rightarrow> error option" where
  "plan_validate ct p =
     (if pl_includes p = [] then Some (ValidationError ''must include at least one resource'')
      else if \<not> validate_plan_sub_category ct p then Some (ValidationError ''Sub-Category'')
      else if \<not> validate_includes_against_category ct p then Some (ValidationError ''not allowed in category'')
      else if \<not> validate_unique_metered_resource ct p then Some (ValidationError ''already prices resource type'')
      else None)"

definition plan_save :: "catalog \<Rightarrow> plan \<Rightarrow> error + catalog" where
  "plan_save ct p = (case plan_validate ct p of
     Some e \<Rightarrow> Inl e
   | None \<Rightarrow> Inr (ct\<lparr>ct_plans := (if pl_name p \<in> pl_name ` set (ct_plans ct)
        then map (\<lambda>q. if pl_name q = pl_name p then p else q) (ct_plans ct) else ct_plans ct @ [p])\<rparr>))"

definition get_rate :: "(rat \<Rightarrow> rat) \<Rightarrow> catalog \<Rightarrow> string \<Rightarrow> string \<Rightarrow> string option \<Rightarrow> money option" where
  "get_rate r6 ct plan currency cluster =
     resolve_rate (get_catalog_rates r6 (ct_overrides ct) (ct_rates ct) ''Plan'' plan) currency cluster"

section \<open>The metered plan of a resource type\<close>

definition metered_mode :: "catalog \<Rightarrow> string \<Rightarrow> string option" where
  "metered_mode ct category =
     Option.bind (find (\<lambda>c. pc_billing_type c = ''Metered'' \<and> pc_name c = category) (ct_categories ct)) pc_pricing_mode"

definition metered_plan_for :: "catalog \<Rightarrow> string \<Rightarrow> (string \<times> string option) option" where
  "metered_plan_for ct resource_type =
     map_option (\<lambda>p. (pl_name p, metered_mode ct (pl_category p))) (find (covers ct resource_type) (ct_plans ct))"

definition family_of_plan :: "catalog \<Rightarrow> string \<Rightarrow> plan_category option" where
  "family_of_plan ct plan = Option.bind (find_plan ct plan) (\<lambda>p. find_category ct (pl_category p))"

definition reporting_mode_for :: "catalog \<Rightarrow> string \<Rightarrow> string" where
  "reporting_mode_for ct resource_type = (case metered_plan_for ct resource_type of
     None \<Rightarrow> ''Authoritative''
   | Some (plan, _) \<Rightarrow> or_else (Option.bind (family_of_plan ct plan) pc_reporting_mode) ''Authoritative'')"

definition settlement_from_plan :: "catalog \<Rightarrow> (string \<times> string option) option \<Rightarrow> string" where
  "settlement_from_plan ct p = (case p of
     None \<Rightarrow> ''Postpaid Overage''
   | Some (plan, _) \<Rightarrow> or_else (Option.bind (family_of_plan ct plan) pc_settlement_mode) ''Postpaid Overage'')"

section \<open>Composed shapes\<close>

definition composition_quantities :: "plan_include list \<Rightarrow> (string \<times> rat) list" where
  "composition_quantities rows =
     foldl (\<lambda>out row. AList.update (pi_type row) ((case map_of out (pi_type row) of None \<Rightarrow> 0 | Some q \<Rightarrow> q) + pi_quantity row) out) [] rows"

definition quantity_of :: "(string \<times> rat) list \<Rightarrow> string \<Rightarrow> rat" where
  "quantity_of qty resource_type = (case map_of qty resource_type of None \<Rightarrow> 0 | Some q \<Rightarrow> q)"

definition SHAPE_RESOURCES :: "string list" where
  "SHAPE_RESOURCES = [''Compute'', ''Memory'', ''Disk'']"

fun shape_rows_from :: "string list \<Rightarrow> plan_include list \<Rightarrow> error + string list" where
  "shape_rows_from seen [] = Inr seen"
| "shape_rows_from seen (row # rows) =
     (if pi_type row \<notin> set SHAPE_RESOURCES \<or> pi_type row \<in> set seen
      then Inl (ValidationError ''one CPU, one memory and one disk size'')
      else if pi_quantity row \<le> 0 then Inl (ValidationError ''must be greater than zero'')
      else shape_rows_from (pi_type row # seen) rows)"

definition validate_shape_rows :: "plan_include list \<Rightarrow> error option" where
  "validate_shape_rows rows = (case shape_rows_from [] rows of
     Inl e \<Rightarrow> Some e
   | Inr seen \<Rightarrow> if set seen \<noteq> set SHAPE_RESOURCES
       then Some (ValidationError ''Choose a CPU, memory and disk size'') else None)"

definition validate_composition :: "catalog \<Rightarrow> string \<Rightarrow> plan_include list \<Rightarrow> error option" where
  "validate_composition ct sub_category rows =
     (case find (\<lambda>s. sp_name s = sub_category) (ct_profiles ct) of
        None \<Rightarrow> Some (ValidationError ''Unknown optimisation profile'')
      | Some profile \<Rightarrow> (case validate_shape_rows rows of Some e \<Rightarrow> Some e | None \<Rightarrow>
          let qty = composition_quantities rows;
              vcpu = quantity_of qty ''Compute''; ram = quantity_of qty ''Memory''; disk = quantity_of qty ''Disk''
          in if sp_vcpu_steps profile \<noteq> [] \<and> vcpu \<notin> set (sp_vcpu_steps profile)
             then Some (ValidationError ''not an allowed step'')
             else if sp_ram_ratio profile \<noteq> 0 \<and> ram \<noteq> vcpu * sp_ram_ratio profile
             then Some (ValidationError ''requires RAM'')
             else if sp_disk_min profile \<noteq> 0 \<and> disk < sp_disk_min profile
             then Some (ValidationError ''below the minimum'')
             else if sp_disk_max profile \<noteq> 0 \<and> disk > sp_disk_max profile
             then Some (ValidationError ''exceeds the maximum'')
             else None))"

definition resolve_component_rate ::
  "(rat \<Rightarrow> rat) \<Rightarrow> catalog \<Rightarrow> string \<Rightarrow> string \<Rightarrow> string option \<Rightarrow> money option" where
  "resolve_component_rate r6 ct resource_type currency cluster =
     resolve_rate (get_catalog_rates r6 (ct_overrides ct) (ct_rates ct) ''Resource Type'' resource_type) currency cluster"

fun config_rate_from ::
  "(rat \<Rightarrow> rat) \<Rightarrow> catalog \<Rightarrow> string \<Rightarrow> string option \<Rightarrow> money \<Rightarrow> plan_include list \<Rightarrow> money option" where
  "config_rate_from r6 ct currency cluster total_so_far [] = Some total_so_far"
| "config_rate_from r6 ct currency cluster total_so_far (row # rows) =
     (case resolve_component_rate r6 ct (pi_type row) currency cluster of
        None \<Rightarrow> None
      | Some rate \<Rightarrow> if pi_quantity row \<le> 0 then None
          else config_rate_from r6 ct currency cluster (total_so_far + pi_quantity row * rate) rows)"

definition resolve_config_rate ::
  "(rat \<Rightarrow> rat) \<Rightarrow> catalog \<Rightarrow> plan_include list \<Rightarrow> string \<Rightarrow> string option \<Rightarrow> money option" where
  "resolve_config_rate r6 ct rows currency cluster = config_rate_from r6 ct currency cluster 0 rows"

section \<open>One metered plan per resource type\<close>

definition catalog_wf :: "catalog \<Rightarrow> bool" where
  "catalog_wf ct \<longleftrightarrow> distinct (map pc_name (ct_categories ct)) \<and> [] \<notin> pc_name ` set (ct_categories ct)
     \<and> distinct (map pl_name (ct_plans ct))
     \<and> (\<forall>p \<in> set (ct_plans ct). \<forall>q \<in> set (ct_plans ct). \<forall>rt. covers ct rt p \<longrightarrow> covers ct rt q \<longrightarrow> p = q)"

lemma find_unique_key:
  assumes "distinct (map f xs)" and "x \<in> set xs"
  shows "find (\<lambda>y. f y = f x) xs = Some x"
  using assms by (induction xs) (auto simp: image_iff)

lemma find_only:
  assumes "x \<in> set xs" and "P x" and "\<And>y. y \<in> set xs \<Longrightarrow> P y \<Longrightarrow> y = x"
  shows "find P xs = Some x"
proof (cases "find P xs")
  case None
  with assms(1,2) show ?thesis unfolding find_None by blast
next
  case (Some y)
  from find_Some [OF Some] have "y = x" using assms(3) by blast
  with Some show ?thesis by simp
qed

lemma covers_metered:
  assumes "catalog_wf ct" and "covers ct rt p"
  shows "is_metered_single_resource ct p" and "pl_active p" and "pi_type (hd (pl_includes p)) = rt"
proof -
  from assms(2) have cat: "pl_category p \<in> metered_categories ct" and act: "pl_active p"
    and inc: "map pi_type (pl_includes p) = [rt]" by (simp_all add: covers_def)
  from cat obtain c where c: "c \<in> set (ct_categories ct)" "pc_billing_type c = ''Metered''" "pl_category p = pc_name c"
    unfolding metered_categories_def by force
  from assms(1) have names: "distinct (map pc_name (ct_categories ct))" "[] \<notin> pc_name ` set (ct_categories ct)"
    by (simp_all add: catalog_wf_def)
  have "find_category ct (pl_category p) = Some c"
    unfolding find_category_def c(3) by (rule find_unique_key [OF names(1) c(1)])
  moreover have "pl_category p \<noteq> []" using names(2) c(1) c(3) by (metis imageI)
  moreover from inc have "length (pl_includes p) = 1" by (metis length_Cons list.size(3) length_map One_nat_def)
  ultimately show "is_metered_single_resource ct p"
    using c(2) by (simp add: is_metered_single_resource_def)
  from inc show "pi_type (hd (pl_includes p)) = rt" by (cases "pl_includes p") simp_all
  show "pl_active p" by (rule act)
qed

lemma covers_plans [simp]: "covers (ct\<lparr>ct_plans := ps\<rparr>) rt p \<longleftrightarrow> covers ct rt p"
  by (simp add: covers_def metered_categories_def)

lemma is_metered_plans [simp]: "is_metered_single_resource (ct\<lparr>ct_plans := ps\<rparr>) p \<longleftrightarrow> is_metered_single_resource ct p"
  by (simp add: is_metered_single_resource_def find_category_def)

lemma plan_save_set:
  assumes "plan_save ct p = Inr ct'"
  shows "\<exists>ps. ct' = ct\<lparr>ct_plans := ps\<rparr> \<and> set ps \<subseteq> insert p {q \<in> set (ct_plans ct). pl_name q \<noteq> pl_name p}
    \<and> p \<in> set ps \<and> (distinct (map pl_name (ct_plans ct)) \<longrightarrow> distinct (map pl_name ps))"
proof -
  let ?new = "if pl_name p \<in> pl_name ` set (ct_plans ct)
        then map (\<lambda>q. if pl_name q = pl_name p then p else q) (ct_plans ct) else ct_plans ct @ [p]"
  from assms have "ct' = ct\<lparr>ct_plans := ?new\<rparr>"
    by (auto simp: plan_save_def split: option.splits)
  moreover have "map pl_name (map (\<lambda>q. if pl_name q = pl_name p then p else q) (ct_plans ct)) = map pl_name (ct_plans ct)"
    by simp
  ultimately show ?thesis by (intro exI [of _ ?new]) (auto simp: image_iff simp del: map_map)
qed

lemma plan_save_wf:
  assumes wf: "catalog_wf ct" and save: "plan_save ct p = Inr ct'"
  shows "catalog_wf ct'"
proof -
  from plan_save_set [OF save] obtain ps where ps: "ct' = ct\<lparr>ct_plans := ps\<rparr>"
    "set ps \<subseteq> insert p {q \<in> set (ct_plans ct). pl_name q \<noteq> pl_name p}" "distinct (map pl_name ps)"
    using wf by (auto simp: catalog_wf_def)
  from save have valid: "validate_unique_metered_resource ct p"
    by (auto simp: plan_save_def plan_validate_def split: option.splits if_splits)
  have clash: False if "covers ct rt p" "q \<in> set (ct_plans ct)" "pl_name q \<noteq> pl_name p" "covers ct rt q" for rt q
    using valid covers_metered [OF wf that(1)] that(2-4) by (simp add: validate_unique_metered_resource_def)
  have old: "q = r" if "q \<in> set (ct_plans ct)" "r \<in> set (ct_plans ct)" "covers ct rt q" "covers ct rt r" for q r rt
    using wf that by (simp add: catalog_wf_def)
  have one: "q = r" if "q \<in> set ps" "r \<in> set ps" "covers ct rt q" "covers ct rt r" for q r rt
  proof -
    from ps(2) that(1) have q: "q = p \<or> q \<in> set (ct_plans ct) \<and> pl_name q \<noteq> pl_name p" by blast
    from ps(2) that(2) have r: "r = p \<or> r \<in> set (ct_plans ct) \<and> pl_name r \<noteq> pl_name p" by blast
    from q r show ?thesis
      using clash [of rt q] clash [of rt r] old [of q r rt] that(3,4) by (elim disjE) simp_all
  qed
  have "\<forall>q \<in> set ps. \<forall>r \<in> set ps. \<forall>rt. covers ct rt q \<longrightarrow> covers ct rt r \<longrightarrow> q = r"
    using one by blast
  with wf ps(1,3) show ?thesis by (simp add: catalog_wf_def)
qed

lemma metered_plan_for_covers:
  assumes "catalog_wf ct" and "q \<in> set (ct_plans ct)" and "covers ct rt q"
  shows "metered_plan_for ct rt = Some (pl_name q, metered_mode ct (pl_category q))"
proof -
  have "find (covers ct rt) (ct_plans ct) = Some q"
    using assms by (intro find_only) (auto simp: catalog_wf_def)
  then show ?thesis by (simp add: metered_plan_for_def)
qed


section \<open>Publishing one rate\<close>

definition rate_key :: "rate_row \<Rightarrow> string \<times> string \<times> string option \<times> string" where
  "rate_key r = (cr_doctype r, cr_for r, cr_cluster r, cr_currency r)"

definition rates_wf :: "rate_row list \<Rightarrow> bool" where
  "rates_wf rates \<longleftrightarrow> distinct (map cr_name rates)
     \<and> (\<forall>r \<in> set rates. cr_name r = rate_autoname (cr_for r) (cr_cluster r) (cr_currency r)
          \<and> or_none (cr_cluster r) = cr_cluster r)"

lemma or_none_idem [simp]: "or_none (or_none x) = or_none x"
proof -
  have "strip (strip s) = strip s" for s
  proof -
    let ?d = "dropWhile is_space s"
    have head: "strip s \<noteq> [] \<Longrightarrow> \<not> is_space (hd (strip s))"
    proof -
      assume ne: "strip s \<noteq> []"
      obtain pre where pre: "?d = strip s @ pre"
        unfolding strip_def using takeWhile_dropWhile_id [of is_space "rev ?d"] by (metis rev_append rev_rev_ident)
      with ne have "hd ?d = hd (strip s)" by simp
      moreover from ne pre have "?d \<noteq> []" by auto
      ultimately show ?thesis by (metis hd_dropWhile)
    qed
    have "dropWhile is_space (strip s) = strip s"
      using head by (cases "strip s") auto
    then have "strip (strip s) = rev (dropWhile is_space (rev (strip s)))" by (simp add: strip_def)
    also have "\<dots> = strip s" by (simp add: strip_def dropWhile_idem)
    finally show ?thesis .
  qed
  then show ?thesis by (auto simp: or_none_def split: option.splits if_splits)
qed

lemma find_filter: "find P (filter Q xs) = find (\<lambda>x. Q x \<and> P x) xs"
  by (induction xs) auto

lemma hd_filter: "filter P xs \<noteq> [] \<Longrightarrow> Some (hd (filter P xs)) = find P xs"
  by (induction xs) auto

lemma resolve_rate_find:
  "resolve_rate rows cur cl =
    (case (if truthy cl then find (\<lambda>r. cr_currency r = cur \<and> cr_cluster r = cl) rows else None) of
       Some r \<Rightarrow> Some (cr_rate r)
     | None \<Rightarrow> map_option cr_rate (find (\<lambda>r. cr_currency r = cur \<and> \<not> truthy (cr_cluster r)) rows))"
proof -
  let ?reg = "filter (\<lambda>r. cr_cluster r = cl) (filter (\<lambda>r. cr_currency r = cur) rows)"
  have none: "?reg = [] \<longleftrightarrow> find (\<lambda>r. cr_currency r = cur \<and> cr_cluster r = cl) rows = None"
    by (auto simp: find_None filter_empty_conv)
  have some: "?reg \<noteq> [] \<Longrightarrow> find (\<lambda>r. cr_currency r = cur \<and> cr_cluster r = cl) rows = Some (hd ?reg)"
    using hd_filter [of "\<lambda>r. cr_cluster r = cl" "filter (\<lambda>r. cr_currency r = cur) rows"] by (simp add: find_filter)
  show ?thesis
    using none some unfolding resolve_rate_def Let_def find_filter by (cases "truthy cl"; cases "?reg = []") auto
qed

lemma rates_wf_key:
  assumes "rates_wf rates" "r \<in> set rates" "r' \<in> set rates" "rate_key r = rate_key r'"
  shows "r = r'"
proof -
  from assms have "cr_name r = cr_name r'" by (simp add: rates_wf_def rate_key_def)
  with assms show ?thesis unfolding rates_wf_def by (metis distinct_map inj_on_def)
qed

text \<open>What publishing does to a query on the key: only queries that match the new row see a difference.\<close>

lemma set_catalog_rate_find:
  assumes wf: "rates_wf rates"
    and set: "set_catalog_rate dt pf cur rate cl rates = Inr (res, rates')"
  shows "rates_wf rates'
    \<and> (\<forall>Q. \<not> Q (dt, pf, or_none cl, cur) \<longrightarrow> find (\<lambda>r. Q (rate_key r)) rates' = find (\<lambda>r. Q (rate_key r)) rates)
    \<and> map_option cr_rate (find (\<lambda>r. rate_key r = (dt, pf, or_none cl, cur)) rates') = Some rate"
proof -
  let ?k = "(dt, pf, or_none cl, cur)"
  let ?is = "\<lambda>r. cr_doctype r = dt \<and> cr_for r = pf \<and> cr_currency r = cur \<and> cr_cluster r = or_none cl"
  have is_key: "?is r \<longleftrightarrow> rate_key r = ?k" for r by (auto simp: rate_key_def)
  show ?thesis
  proof (cases "find ?is rates")
    case (Some old)
    then have old: "old \<in> set rates" "rate_key old = ?k" using find_Some [OF Some] is_key by auto
    let ?f = "\<lambda>r. if cr_name r = cr_name old then r\<lparr>cr_rate := rate\<rparr> else r"
    from set Some have rates': "rates' = map ?f rates" by (simp add: set_catalog_rate_def Let_def)
    have inj: "r = old" if "r \<in> set rates" "cr_name r = cr_name old" for r
      using wf that old(1) unfolding rates_wf_def by (metis distinct_map inj_on_def)
    have names: "map cr_name rates' = map cr_name rates" by (simp add: rates')
    have "rates_wf rates'" using wf unfolding rates_wf_def names by (auto simp: rates')
    moreover have "find (\<lambda>r. Q (rate_key r)) (map ?f xs) = find (\<lambda>r. Q (rate_key r)) xs"
      if "\<not> Q ?k" "set xs \<subseteq> set rates" for Q xs
      using that(2)
    proof (induction xs)
      case (Cons r xs)
      then have IH: "find (\<lambda>r. Q (rate_key r)) (map ?f xs) = find (\<lambda>r. Q (rate_key r)) xs" and r: "r \<in> set rates" by auto
      show ?case
      proof (cases "cr_name r = cr_name old")
        case True
        with inj [OF r] old(2) have "rate_key r = ?k" "rate_key (r\<lparr>cr_rate := rate\<rparr>) = ?k"
          by (simp_all add: rate_key_def)
        with True that(1) IH show ?thesis by simp
      qed (use IH in simp)
    qed simp
    moreover have "find (\<lambda>r. rate_key r = ?k) rates' = Some (old\<lparr>cr_rate := rate\<rparr>)"
    proof (rule find_only)
      show "old\<lparr>cr_rate := rate\<rparr> \<in> set rates'" using old(1) by (force simp: rates')
      show "rate_key (old\<lparr>cr_rate := rate\<rparr>) = ?k" using old(2) by (simp add: rate_key_def)
      fix y assume "y \<in> set rates'" and key: "rate_key y = ?k"
      then obtain r where r: "r \<in> set rates" "y = ?f r" by (auto simp: rates')
      then have "rate_key r = ?k" using key by (simp add: rate_key_def split: if_splits)
      with rates_wf_key [OF wf r(1) old(1)] old(2) r(2) show "y = old\<lparr>cr_rate := rate\<rparr>" by simp
    qed
    ultimately show ?thesis by (auto simp: rates')
  next
    case None
    then have new: "rate_key r \<noteq> ?k" if "r \<in> set rates" for r using that is_key by (auto simp: find_None)
    let ?row = "\<lparr>cr_name = rate_autoname pf (or_none cl) cur, cr_doctype = dt, cr_for = pf,
            cr_cluster = or_none cl, cr_currency = cur, cr_rate = rate\<rparr>"
    from set None have "rates' = rates @ [?row] \<and> cr_name ?row \<notin> cr_name ` set rates"
      unfolding set_catalog_rate_def insert_rate_def rate_validate_def Let_def
      using or_none_idem [of cl] by (cases "or_none cl") (auto simp: bindE_Inr split: if_splits)
    then have rates': "rates' = rates @ [?row]" "cr_name ?row \<notin> cr_name ` set rates" by simp_all
    have row_key: "rate_key ?row = ?k" by (simp add: rate_key_def)
    have "rates_wf rates'" using wf rates' by (auto simp: rates_wf_def)
    moreover have "find (\<lambda>r. rate_key r = ?k) rates = None" using new by (auto simp: find_None)
    ultimately show ?thesis using row_key by (auto simp: rates'(1) find_append split: option.splits)
  qed
qed

lemma catalog_rates_of: "get_catalog_rates r6 [] rates dt pf = filter (\<lambda>r. cr_doctype r = dt \<and> cr_for r = pf) rates"
  by (simp add: get_catalog_rates_def)

text \<open>A price as a function of two queries on the key.\<close>

lemma resolve_catalog:
  "resolve_rate (get_catalog_rates r6 [] rates dt pf) cur cl =
    (case (if truthy cl then find (\<lambda>r. rate_key r = (dt, pf, cl, cur)) rates else None) of
       Some r \<Rightarrow> Some (cr_rate r)
     | None \<Rightarrow> map_option cr_rate
         (find (\<lambda>r. (\<lambda>(d, p, c, u). d = dt \<and> p = pf \<and> u = cur \<and> \<not> truthy c) (rate_key r)) rates))"
proof -
  have reg: "(\<lambda>r. rate_key r = (dt, pf, cl, cur)) = (\<lambda>x. (cr_doctype x = dt \<and> cr_for x = pf) \<and> cr_currency x = cur \<and> cr_cluster x = cl)"
    by (auto simp: rate_key_def)
  have glob: "(\<lambda>r. (\<lambda>(d, p, c, u). d = dt \<and> p = pf \<and> u = cur \<and> \<not> truthy c) (rate_key r))
      = (\<lambda>x. (cr_doctype x = dt \<and> cr_for x = pf) \<and> cr_currency x = cur \<and> \<not> truthy (cr_cluster x))"
    by (auto simp: rate_key_def)
  show ?thesis unfolding catalog_rates_of resolve_rate_find find_filter reg glob ..
qed

end
