(* ===== verification/Entitlements.thy ===== *)
theory Entitlements
  imports Profiles
begin

text \<open>
  Trust tiers (\<open>catalog/entitlements.py\<close>): the ladder of levels, the level a team's paid history
  earns in its currency, the spend cap that follows, and the entitlement token whose per-cluster
  slices may not add up to more than the cap. The level linked on a Billing Profile and the
  operator's override are the record \<open>tier_profile\<close>. The signature of a token is not modelled.
\<close>

record threshold =
  th_max_spend :: money
  th_min_cumulative_paid :: money

record tier_level =
  tl_name :: string
  tl_tier :: string
  tl_sequence :: int
  tl_is_default :: bool
  tl_max_resource_count :: int
  tl_min_paid_invoices :: int
  tl_thresholds :: "string \<Rightarrow> threshold option"

record tier_profile =
  tp_currency :: "string option"
  tp_trust_tier_level :: "string option"
  tp_trust_tier :: "string option"
  tp_manual_override :: bool
  tp_override_max_spend :: money
  tp_promoted_at :: "datetime option"
  tp_promotion_basis :: "string option"

type_synonym tier_profiles = "string \<Rightarrow> tier_profile option"

record caps =
  cap_tier :: "string option"
  cap_currency :: string
  cap_max_spend :: money
  cap_max_resource_count :: int

definition team_currency :: "tier_profiles \<Rightarrow> string \<Rightarrow> string" where
  "team_currency ps team = or_else (Option.bind (ps team) tp_currency) ''INR''"

definition threshold_for :: "tier_level \<Rightarrow> string \<Rightarrow> threshold option" where
  "threshold_for level currency = tl_thresholds level currency"

definition cap_for :: "tier_level \<Rightarrow> string \<Rightarrow> money" where
  "cap_for level currency = (case threshold_for level currency of None \<Rightarrow> 0 | Some row \<Rightarrow> th_max_spend row)"

definition get_ladder :: "tier_level list \<Rightarrow> tier_level list" where
  "get_ladder table = sort_key tl_sequence table"

text \<open>Python's \<open>min\<close> and \<open>max\<close> with a key: the first of the extreme ones.\<close>

fun first_min :: "('a \<Rightarrow> int) \<Rightarrow> 'a list \<Rightarrow> 'a option" where
  "first_min f [] = None"
| "first_min f (x # xs) = (case first_min f xs of
     None \<Rightarrow> Some x | Some y \<Rightarrow> if f x \<le> f y then Some x else Some y)"

definition first_max :: "('a \<Rightarrow> int) \<Rightarrow> 'a list \<Rightarrow> 'a option" where
  "first_max f xs = first_min (\<lambda>x. - f x) xs"

definition entry_tier :: "tier_level list \<Rightarrow> tier_level option" where
  "entry_tier levels =
     (let defaults = filter tl_is_default levels; pool = (if defaults = [] then levels else defaults)
      in first_min tl_sequence pool)"

definition qualifies :: "int \<Rightarrow> money \<Rightarrow> string \<Rightarrow> tier_level \<Rightarrow> bool" where
  "qualifies paid_invoice_count cumulative_paid currency level =
     (case threshold_for level currency of
        None \<Rightarrow> False
      | Some row \<Rightarrow> tl_min_paid_invoices level \<le> paid_invoice_count \<and> th_min_cumulative_paid row \<le> cumulative_paid)"

definition evaluate_tier :: "int \<Rightarrow> money \<Rightarrow> string \<Rightarrow> tier_level list \<Rightarrow> tier_level option" where
  "evaluate_tier paid_invoice_count cumulative_paid currency levels =
     (let qualifying = filter (qualifies paid_invoice_count cumulative_paid currency) levels
      in if qualifying = [] then entry_tier levels else first_max tl_sequence qualifying)"

definition get_team_caps :: "tier_level list \<Rightarrow> tier_profiles \<Rightarrow> string \<Rightarrow> caps" where
  "get_team_caps table ps team =
     (let currency = team_currency ps team;
          level_name = Option.bind (ps team) tp_trust_tier_level;
          level = (if truthy level_name then find (\<lambda>l. Some (tl_name l) = level_name) (get_ladder table) else None);
          override = (case ps team of None \<Rightarrow> 0
            | Some p \<Rightarrow> if tp_manual_override p then tp_override_max_spend p else 0)
      in case level of
           None \<Rightarrow> \<lparr>cap_tier = None, cap_currency = currency, cap_max_spend = override, cap_max_resource_count = 0\<rparr>
         | Some l \<Rightarrow> \<lparr>cap_tier = Some (tl_tier l), cap_currency = currency,
              cap_max_spend = (if override \<noteq> 0 then override else cap_for l currency),
              cap_max_resource_count = tl_max_resource_count l\<rparr>)"

definition blank_profile :: tier_profile where
  "blank_profile = \<lparr>tp_currency = None, tp_trust_tier_level = None, tp_trust_tier = None,
     tp_manual_override = False, tp_override_max_spend = 0, tp_promoted_at = None, tp_promotion_basis = None\<rparr>"

definition tier_profile_for :: "tier_profiles \<Rightarrow> string \<Rightarrow> tier_profile" where
  "tier_profile_for ps team = (case ps team of Some p \<Rightarrow> p | None \<Rightarrow> blank_profile)"

text \<open>
  Saving the profile: a tier or cap changed by an operator needs a new reason and pins the profile
  (\<open>pin_tier_set_by_hand\<close>); the tier's name follows its level and an unpinned profile has no cap of
  its own (\<open>sync_tier_fields\<close>); a change is logged and the mandates are held to the new cap
  (\<open>apply_tier_change\<close>, of which the log is kept here).
\<close>

record tier_change =
  tc_team :: string
  tc_from :: "string option"
  tc_to :: "string option"
  tc_reason :: "string option"
  tc_amount :: money

definition tier_fields :: "tier_profile \<Rightarrow> string option \<times> money" where
  "tier_fields p = (tp_trust_tier_level p, tp_override_max_spend p)"

definition pin_tier_set_by_hand ::
  "datetime \<Rightarrow> bool \<Rightarrow> tier_profile option \<Rightarrow> tier_profile \<Rightarrow> error + tier_profile" where
  "pin_tier_set_by_hand now set_by_system before p = (case before of
     None \<Rightarrow> Inr p
   | Some b \<Rightarrow>
       if set_by_system \<or> tier_fields p = tier_fields b then Inr p
       else if tp_promotion_basis p = tp_promotion_basis b \<or> strip (or_else (tp_promotion_basis p) []) = []
         then Inl (ValidationError ''Tier Change Reason'')
       else Inr (p\<lparr>tp_manual_override := True, tp_promoted_at := Some now\<rparr>))"

definition sync_tier_fields :: "tier_level list \<Rightarrow> tier_profile \<Rightarrow> tier_profile" where
  "sync_tier_fields table p =
     p\<lparr>tp_trust_tier := (if truthy (tp_trust_tier_level p)
          then map_option tl_tier (find (\<lambda>l. Some (tl_name l) = tp_trust_tier_level p) table) else None),
       tp_override_max_spend := (if tp_manual_override p then tp_override_max_spend p else 0)\<rparr>"

definition log_tier_change ::
  "string \<Rightarrow> tier_profile option \<Rightarrow> tier_profile \<Rightarrow> tier_change list \<Rightarrow> tier_change list" where
  "log_tier_change team before p entries = (case before of
     None \<Rightarrow> entries
   | Some b \<Rightarrow>
       if tier_fields p = tier_fields b \<and> tp_manual_override p = tp_manual_override b then entries
       else entries @ [\<lparr>tc_team = team, tc_from = tp_trust_tier_level b, tc_to = tp_trust_tier_level p,
              tc_reason = tp_promotion_basis p, tc_amount = tp_override_max_spend p\<rparr>])"

record tier_store =
  ts_profiles :: tier_profiles
  ts_log :: "tier_change list"

definition save_tier ::
  "datetime \<Rightarrow> tier_level list \<Rightarrow> bool \<Rightarrow> string \<Rightarrow> tier_profile \<Rightarrow> tier_store \<Rightarrow> error + tier_store" where
  "save_tier now table set_by_system team p st =
     (let before = ts_profiles st team in
      bindE (pin_tier_set_by_hand now set_by_system before p) (\<lambda>p.
        let p = sync_tier_fields table p in
        Inr \<lparr>ts_profiles = (ts_profiles st)(team \<mapsto> p), ts_log = log_tier_change team before p (ts_log st)\<rparr>))"

text \<open>
  The promotion of the monthly run. With no ladder seeded there is no target and the code reads
  an attribute of None: the whole result is None. The wording of the basis is an argument.
\<close>

definition recompute_trust_tier ::
  "datetime \<Rightarrow> (int \<Rightarrow> money \<Rightarrow> tier_level \<Rightarrow> string) \<Rightarrow> tier_level list \<Rightarrow> string \<Rightarrow> int \<Rightarrow> money \<Rightarrow> tier_store
     \<Rightarrow> (error + tier_store) option" where
  "recompute_trust_tier now basis table team paid_invoice_count cumulative_paid st =
     (let target = evaluate_tier paid_invoice_count cumulative_paid (team_currency (ts_profiles st) team) (get_ladder table);
          profile = tier_profile_for (ts_profiles st) team
      in if tp_manual_override profile then Some (Inr st)
         else case target of
           None \<Rightarrow> None
         | Some t \<Rightarrow>
             let promoted = or_else (tp_trust_tier profile) [] \<noteq> tl_tier t;
                 profile = profile\<lparr>tp_trust_tier_level := Some (tl_name t)\<rparr>;
                 profile = (if promoted then profile\<lparr>tp_promoted_at := Some now,
                   tp_promotion_basis := Some (basis paid_invoice_count cumulative_paid t)\<rparr> else profile)
             in Some (save_tier now table True team profile st))"

record entitlement_token =
  tk_team :: string
  tk_slices :: "(string \<times> money) list"
  tk_suspend :: bool
  tk_terminate :: bool
  tk_issued_at :: datetime
  tk_expires_at :: datetime

definition issue_token ::
  "datetime \<Rightarrow> tier_level list \<Rightarrow> tier_profiles \<Rightarrow> string \<Rightarrow> (string \<times> money) list \<Rightarrow> int \<Rightarrow> bool \<Rightarrow> bool
     \<Rightarrow> entitlement_token list \<Rightarrow> error + entitlement_token list" where
  "issue_token now table ps team cluster_slices lifetime_hours suspend terminate tokens =
     (if sum_list (map snd cluster_slices) > cap_max_spend (get_team_caps table ps team)
      then Inl (ValidationError ''Cluster slices exceed team cap'')
      else Inr (tokens @ [\<lparr>tk_team = team, tk_slices = cluster_slices, tk_suspend = suspend,
             tk_terminate = terminate, tk_issued_at = now, tk_expires_at = now + lifetime_hours * hour_us\<rparr>]))"

section \<open>Lemmas\<close>

lemma first_min_Some:
  assumes "first_min f xs = Some x"
  shows "x \<in> set xs \<and> (\<forall>y \<in> set xs. f x \<le> f y)"
  using assms
proof (induction xs arbitrary: x)
  case (Cons a xs)
  show ?case
  proof (cases "first_min f xs")
    case None
    with Cons.prems have "x = a" by simp
    moreover from None have "xs = []" by (cases xs) (auto split: option.splits if_splits)
    ultimately show ?thesis by simp
  next
    case (Some y)
    from Cons.IH [OF Some] Cons.prems Some show ?thesis by (cases "f a \<le> f y") fastforce+
  qed
qed simp

lemma first_min_None: "first_min f xs = None \<longleftrightarrow> xs = []"
  by (cases xs) (auto split: option.splits if_splits)

lemma first_max_Some:
  "first_max f xs = Some x \<Longrightarrow> x \<in> set xs \<and> (\<forall>y \<in> set xs. f y \<le> f x)"
  using first_min_Some [of "\<lambda>x. - f x" xs x] by (auto simp: first_max_def)

lemma evaluate_tier_None: "evaluate_tier n paid cur levels = None \<longleftrightarrow> levels = []"
proof (cases "filter (qualifies n paid cur) levels = []")
  case True
  then show ?thesis by (auto simp: evaluate_tier_def entry_tier_def Let_def first_min_None)
next
  case False
  then show ?thesis by (auto simp: evaluate_tier_def Let_def first_max_def first_min_None)
qed

lemma qualifies_mono: "qualifies n paid cur l \<Longrightarrow> n \<le> n' \<Longrightarrow> paid \<le> paid' \<Longrightarrow> qualifies n' paid' cur l"
  by (auto simp: qualifies_def split: option.splits)

text \<open>The level is the highest one the history qualifies for, or the entry level when there is none.\<close>

lemma evaluate_tier_highest:
  assumes "evaluate_tier n paid cur levels = Some t"
  shows "t \<in> set levels
    \<and> (if \<exists>l \<in> set levels. qualifies n paid cur l
       then qualifies n paid cur t \<and> (\<forall>l \<in> set levels. qualifies n paid cur l \<longrightarrow> tl_sequence l \<le> tl_sequence t)
       else entry_tier levels = Some t)"
proof (cases "filter (qualifies n paid cur) levels = []")
  case True
  then have none: "\<not> (\<exists>l \<in> set levels. qualifies n paid cur l)" by (auto simp: filter_empty_conv)
  from True assms have entry: "entry_tier levels = Some t" by (simp add: evaluate_tier_def)
  then have "t \<in> set levels"
    using first_min_Some [of tl_sequence "if filter tl_is_default levels = [] then levels else filter tl_is_default levels" t]
    by (auto simp: entry_tier_def Let_def split: if_splits)
  with none entry show ?thesis by auto
next
  case False
  then have "first_max tl_sequence (filter (qualifies n paid cur) levels) = Some t"
    using assms by (simp add: evaluate_tier_def)
  from first_max_Some [OF this] show ?thesis by auto
qed


text \<open>The monthly promotion of an unpinned team lands on the level its history earns.\<close>

lemma recompute_follows_history:
  assumes names: "distinct (map tl_name table)" and named: "[] \<notin> tl_name ` set table"
    and free: "\<not> tp_manual_override (tier_profile_for (ts_profiles st) team)"
    and re: "recompute_trust_tier now basis table team n paid st = Some (Inr st')"
  shows "\<exists>t. evaluate_tier n paid (team_currency (ts_profiles st) team) (get_ladder table) = Some t
    \<and> cap_max_spend (get_team_caps table (ts_profiles st') team) = cap_for t (team_currency (ts_profiles st) team)
    \<and> cap_tier (get_team_caps table (ts_profiles st') team) = Some (tl_tier t)
    \<and> (\<forall>other. other \<noteq> team \<longrightarrow> ts_profiles st' other = ts_profiles st other)"
proof -
  let ?cur = "team_currency (ts_profiles st) team"
  let ?p = "tier_profile_for (ts_profiles st) team"
  from re free obtain t where t: "evaluate_tier n paid ?cur (get_ladder table) = Some t"
    by (auto simp: recompute_trust_tier_def Let_def split: option.splits)
  obtain q where q: "save_tier now table True team q st = Inr st'"
    "tp_trust_tier_level q = Some (tl_name t)" "tp_currency q = tp_currency ?p" "\<not> tp_manual_override q"
    using re free t unfolding recompute_trust_tier_def Let_def
    by (cases "or_else (tp_trust_tier ?p) [] \<noteq> tl_tier t") (auto split: if_splits)
  have st': "ts_profiles st' = (ts_profiles st)(team \<mapsto> sync_tier_fields table q)"
    using q(1) by (auto simp: save_tier_def pin_tier_set_by_hand_def bindE_Inr Let_def split: option.splits)
  have mem: "t \<in> set table" using evaluate_tier_highest [OF t] by (simp add: get_ladder_def)
  have find: "find (\<lambda>l. Some (tl_name l) = Some (tl_name t)) (get_ladder table) = Some t"
  proof (cases "find (\<lambda>l. Some (tl_name l) = Some (tl_name t)) (get_ladder table)")
    case None
    with mem show ?thesis unfolding find_None by (auto simp: get_ladder_def)
  next
    case (Some u)
    from find_Some [OF this] have "u \<in> set table" "tl_name u = tl_name t" by (auto simp: get_ladder_def)
    with mem names have "u = t" by (metis distinct_map inj_on_def)
    with Some show ?thesis by simp
  qed
  have cur: "team_currency (ts_profiles st') team = ?cur"
    using q(3) by (simp add: st' team_currency_def sync_tier_fields_def tier_profile_for_def blank_profile_def
        split: option.splits)
  have ne: "tl_name t \<noteq> []" using named mem by (metis imageI)
  have "get_team_caps table (ts_profiles st') team
      = \<lparr>cap_tier = Some (tl_tier t), cap_currency = ?cur, cap_max_spend = cap_for t ?cur,
         cap_max_resource_count = tl_max_resource_count t\<rparr>"
    unfolding get_team_caps_def cur Let_def using q(2,4) ne find
    by (simp add: st' sync_tier_fields_def)
  with t st' show ?thesis by simp
qed

text \<open>A tier or cap an operator set is not moved by any later promotion.\<close>

fun recompute_all ::
  "(int \<Rightarrow> money \<Rightarrow> tier_level \<Rightarrow> string) \<Rightarrow> tier_level list \<Rightarrow> string \<Rightarrow> (datetime \<times> int \<times> money) list \<Rightarrow> tier_store
     \<Rightarrow> (error + tier_store) option" where
  "recompute_all basis table team [] st = Some (Inr st)"
| "recompute_all basis table team ((now, n, paid) # runs) st =
     (case recompute_trust_tier now basis table team n paid st of
        Some (Inr st') \<Rightarrow> recompute_all basis table team runs st' | other \<Rightarrow> other)"

lemma recompute_all_pinned:
  "tp_manual_override (tier_profile_for (ts_profiles st) team) \<Longrightarrow> recompute_all basis table team runs st = Some (Inr st)"
proof (induction runs)
  case (Cons r runs)
  obtain now n paid where r: "r = (now, n, paid)" by (cases r)
  have "recompute_trust_tier now basis table team n paid st = Some (Inr st)"
    using Cons.prems by (simp add: recompute_trust_tier_def)
  with Cons r show ?case by simp
qed simp

lemma save_by_hand_pins:
  assumes "save_tier now table False team p st = Inr st'" and "ts_profiles st team = Some b"
    and "tier_fields p \<noteq> tier_fields b"
  shows "tp_manual_override (tier_profile_for (ts_profiles st') team)
    \<and> tp_override_max_spend (tier_profile_for (ts_profiles st') team) = tp_override_max_spend p
    \<and> tp_trust_tier_level (tier_profile_for (ts_profiles st') team) = tp_trust_tier_level p
    \<and> length (ts_log st') = length (ts_log st) + 1"
  using assms
  by (auto simp: save_tier_def pin_tier_set_by_hand_def sync_tier_fields_def log_tier_change_def tier_fields_def
      tier_profile_for_def bindE_Inr Let_def split: if_splits)

end
