(* ===== verification/Subscriptions.thy ===== *)
theory Subscriptions
  imports Catalog Entitlements Tax States
begin

text \<open>
  The subscription contract (\<open>catalog/subscriptions.py\<close>, \<open>doctype/subscription\<close>,
  \<open>doctype/subscription_change\<close>): the append-only change log whose open segment is the price lock,
  the run rate and the headroom a team has left, the account standing with the servers dunning
  stops and starts, plan changes and resizes, and the subscriptions a server's own life cycle
  opens and closes (\<open>infrastructure/doctype/virtual_machine\<close>, \<open>catalog/public_ips.py\<close>,
  \<open>catalog/snapshots.py\<close>).

  Tables are lists in creation order; \<open>get_all\<close> without an order reads the newest first. The
  payment gate and the power commands of \<open>central/resource_actions.py\<close> and \<open>central/api/servers.py\<close>
  are functions of the environment, and so are the wording of a composed shape and the names a
  row gets. The queue that carries a resize to the region is not modelled: a resize here is what
  is done once the shape is confirmed.
\<close>

section \<open>State\<close>

record subscription =
  su_name :: string
  su_team :: string
  su_server :: "string option"
  su_subject :: "string option"
  su_snapshot :: "string option"
  su_ip_server :: "string option"
  su_cluster :: "string option"
  su_mode :: string
  su_plan :: "string option"
  su_sub_category :: "string option"
  su_includes :: "plan_include list"
  su_standing :: string
  su_enabled :: bool
  su_stopped_for_nonpayment :: bool
  su_start_date :: "date option"
  su_project :: "string option"
  su_payment_method :: "string option"

record sub_change =
  sc_subscription :: string
  sc_type :: string
  sc_old :: "string option"
  sc_new :: "string option"
  sc_rate :: "money option"
  sc_currency :: "string option"
  sc_at :: datetime
  sc_by :: string

record server =
  sv_name :: string
  sv_team :: string
  sv_region :: "string option"
  sv_status :: string
  sv_plan :: "string option"
  sv_vcpus :: rat
  sv_memory_mb :: rat
  sv_disk_gb :: rat

record project =
  pj_name :: string
  pj_team :: string
  pj_enabled :: bool
  pj_spending_limit :: money

record estate =
  es_subs :: "subscription list"
  es_changes :: "sub_change list"
  es_servers :: "server list"
  es_projects :: "project list"
  es_events :: "billing_event list"
  es_commands :: "(string \<times> string) list"

record sub_env =
  se_ambient :: ambient
  se_r6 :: "rat \<Rightarrow> rat"
  se_catalog :: catalog
  se_levels :: "tier_level list"
  se_tiers :: tier_profiles
  se_profiles :: profiles
  se_composed_label :: "subscription \<Rightarrow> string"
  se_payment_gate :: "string \<Rightarrow> money \<Rightarrow> error option"
  se_staging_trial :: "string \<Rightarrow> bool"
  se_command_accepted :: "string \<Rightarrow> string \<Rightarrow> bool"
  se_control_server :: "string \<Rightarrow> string \<Rightarrow> error option"
  se_billing_deferred :: "string \<Rightarrow> bool"

abbreviation se_now :: "sub_env \<Rightarrow> datetime" where
  "se_now env \<equiv> am_now (se_ambient env)"

definition session_user :: "sub_env \<Rightarrow> string" where
  "session_user env = or_else (am_user (se_ambient env)) ''Guest''"

definition find_sub :: "estate \<Rightarrow> string \<Rightarrow> subscription option" where
  "find_sub es name = find (\<lambda>s. su_name s = name) (es_subs es)"

definition put_sub :: "subscription \<Rightarrow> estate \<Rightarrow> estate" where
  "put_sub s es = es\<lparr>es_subs := map (\<lambda>x. if su_name x = su_name s then s else x) (es_subs es)\<rparr>"

definition find_server :: "estate \<Rightarrow> string \<Rightarrow> server option" where
  "find_server es name = find (\<lambda>v. sv_name v = name) (es_servers es)"

definition server_of :: "estate \<Rightarrow> string option \<Rightarrow> server option" where
  "server_of es name = (if truthy name then Option.bind name (find_server es) else None)"

definition team_money :: "sub_env \<Rightarrow> string \<Rightarrow> string option" where
  "team_money env team = Option.bind (se_profiles env team) bp_currency"

section \<open>The change log and its open segments\<close>

definition append_change :: "sub_change \<Rightarrow> estate \<Rightarrow> error + estate" where
  "append_change c es =
     (if (case sc_rate c of None \<Rightarrow> 0 | Some r \<Rightarrow> r) < 0 then Inl (ValidationError ''A subscription rate cannot be negative'')
      else Inr (es\<lparr>es_changes := es_changes es @ [c]\<rparr>))"

definition record_change ::
  "sub_env \<Rightarrow> string \<Rightarrow> string \<Rightarrow> string option \<Rightarrow> string option \<Rightarrow> string option \<Rightarrow> estate \<Rightarrow> error + estate" where
  "record_change env subscription change_type old_value new_value changed_by es =
     append_change \<lparr>sc_subscription = subscription, sc_type = change_type, sc_old = old_value, sc_new = new_value,
       sc_rate = None, sc_currency = None, sc_at = se_now env, sc_by = or_else changed_by (session_user env)\<rparr> es"

definition SEGMENT_CHANGE_TYPES :: "string list" where
  "SEGMENT_CHANGE_TYPES = [''Created'', ''Plan Changed'', ''Cancelled'']"

text \<open>\<open>order by effective_at desc, creation desc\<close>, the first row: the latest, the later written of two.\<close>

fun latest_of :: "sub_change list \<Rightarrow> sub_change option" where
  "latest_of [] = None"
| "latest_of (c # cs) = (case latest_of cs of
     None \<Rightarrow> Some c | Some d \<Rightarrow> if sc_at d < sc_at c then Some c else Some d)"

definition latest_segment :: "estate \<Rightarrow> string \<Rightarrow> sub_change option" where
  "latest_segment es name =
     latest_of (filter (\<lambda>c. sc_subscription c = name \<and> sc_type c \<in> set SEGMENT_CHANGE_TYPES) (es_changes es))"

definition rate_of_change :: "sub_change \<Rightarrow> money" where
  "rate_of_change c = (case sc_rate c of None \<Rightarrow> 0 | Some r \<Rightarrow> r)"

record active_segment =
  as_subscription :: string
  as_team :: string
  as_plan :: "string option"
  as_resource_id :: "string option"
  as_cluster :: "string option"
  as_currency :: "string option"
  as_rate :: money

definition or_opt :: "string option \<Rightarrow> string option \<Rightarrow> string option" where
  "or_opt x y = (if truthy x then x else y)"

definition segment_of_sub :: "estate \<Rightarrow> subscription \<Rightarrow> active_segment option" where
  "segment_of_sub es s = (case latest_segment es (su_name s) of
     None \<Rightarrow> None
   | Some c \<Rightarrow> if sc_type c = ''Cancelled'' then None
       else Some \<lparr>as_subscription = su_name s, as_team = su_team s, as_plan = su_plan s,
         as_resource_id = or_opt (su_server s) (su_subject s),
         as_cluster = or_opt (Option.bind (server_of es (su_server s)) sv_region) (su_cluster s),
         as_currency = sc_currency c, as_rate = rate_of_change c\<rparr>)"

definition active_segments :: "(subscription \<Rightarrow> bool) \<Rightarrow> estate \<Rightarrow> active_segment list" where
  "active_segments P es = List.map_filter (segment_of_sub es) (filter P (rev (es_subs es)))"

definition active_segment_for_resource :: "estate \<Rightarrow> string \<Rightarrow> active_segment option" where
  "active_segment_for_resource es resource_id =
     (let segs = active_segments (\<lambda>s. su_server s = Some resource_id) es;
          segs = (if segs = [] then active_segments (\<lambda>s. su_subject s = Some resource_id) es else segs)
      in case segs of [] \<Rightarrow> None | s # _ \<Rightarrow> Some s)"

definition current_segment_rate :: "estate \<Rightarrow> string \<Rightarrow> money" where
  "current_segment_rate es subscription = (case latest_segment es subscription of
     None \<Rightarrow> 0 | Some c \<Rightarrow> if sc_type c = ''Cancelled'' then 0 else rate_of_change c)"

text \<open>\<open>get_team_currency\<close> falls back on the currency of a segment the team already runs.\<close>

definition get_team_currency :: "sub_env \<Rightarrow> estate \<Rightarrow> string \<Rightarrow> string" where
  "get_team_currency env es team =
     (if truthy (team_money env team) then the (team_money env team)
      else case find truthy (map as_currency (active_segments (\<lambda>s. su_team s = team) es)) of
        Some (Some c) \<Rightarrow> c | _ \<Rightarrow> ''INR'')"

section \<open>Run rate and headroom\<close>

definition team_run_rate :: "estate \<Rightarrow> string \<Rightarrow> string option \<Rightarrow> money" where
  "team_run_rate es team exclude =
     sum_where (\<lambda>g. Some (as_subscription g) \<noteq> exclude) as_rate
       (active_segments (\<lambda>s. su_team s = team \<and> su_enabled s) es)"

text \<open>The same sum from the subscription rows and their latest changes, both read under a lock.\<close>

definition locked_team_run_rate :: "estate \<Rightarrow> string \<Rightarrow> string option \<Rightarrow> money" where
  "locked_team_run_rate es team exclude =
     (let names = map su_name (filter (\<lambda>s. su_team s = team \<and> su_enabled s) (es_subs es));
          latest = List.map_filter (latest_segment es) (filter (\<lambda>n. Some n \<noteq> exclude) names)
      in sum_where (\<lambda>c. sc_type c \<noteq> ''Cancelled'') rate_of_change latest)"

definition remaining_headroom :: "sub_env \<Rightarrow> estate \<Rightarrow> string \<Rightarrow> string option \<Rightarrow> bool \<Rightarrow> money" where
  "remaining_headroom env es team exclude for_update =
     (let cap = cap_max_spend (get_team_caps (se_levels env) (se_tiers env) team);
          running = (if for_update then locked_team_run_rate es team exclude else team_run_rate es team exclude)
      in max 0 (cap - running))"

definition enforce_headroom ::
  "sub_env \<Rightarrow> estate \<Rightarrow> string \<Rightarrow> money option \<Rightarrow> string option \<Rightarrow> bool \<Rightarrow> error option" where
  "enforce_headroom env es team new_rate exclude for_update = (case new_rate of
     None \<Rightarrow> Some (ValidationError ''This configuration cannot be priced in your currency'')
   | Some rate \<Rightarrow>
       if is_internal_team (se_profiles env) team then None
       else if rate > remaining_headroom env es team exclude for_update
         then Some (ValidationError ''exceeds your remaining headroom'') else None)"

definition project_run_rate :: "estate \<Rightarrow> string \<Rightarrow> string \<Rightarrow> string option \<Rightarrow> money" where
  "project_run_rate es team project exclude =
     sum_where (\<lambda>g. Some (as_subscription g) \<noteq> exclude) as_rate
       (active_segments (\<lambda>s. su_team s = team \<and> su_project s = Some project \<and> su_enabled s) es)"

definition find_project :: "estate \<Rightarrow> string \<Rightarrow> project option" where
  "find_project es name = find (\<lambda>p. pj_name p = name) (es_projects es)"

definition enforce_project_headroom ::
  "estate \<Rightarrow> string \<Rightarrow> string option \<Rightarrow> money option \<Rightarrow> string option \<Rightarrow> error option" where
  "enforce_project_headroom es team project new_rate exclude =
     (if \<not> truthy project then None else
      let limit = (case find_project es (the project) of None \<Rightarrow> 0 | Some p \<Rightarrow> pj_spending_limit p) in
      if limit = 0 then None else
      case new_rate of
        None \<Rightarrow> Some (ValidationError ''This configuration cannot be priced in your currency'')
      | Some rate \<Rightarrow> if rate > max 0 (limit - project_run_rate es team (the project) exclude)
          then Some (ValidationError ''would exceed its spending limit'') else None)"


section \<open>The document: insert and save\<close>

definition rate_in :: "sub_env \<Rightarrow> string \<Rightarrow> string option \<Rightarrow> string option \<Rightarrow> money option" where
  "rate_in env plan currency cluster =
     Option.bind currency (\<lambda>cur. get_rate (se_r6 env) (se_catalog env) plan cur cluster)"

definition config_rate_in :: "sub_env \<Rightarrow> plan_include list \<Rightarrow> string option \<Rightarrow> string option \<Rightarrow> money option" where
  "config_rate_in env rows currency cluster = (case currency of
     None \<Rightarrow> if rows = [] then Some 0 else None
   | Some cur \<Rightarrow> resolve_config_rate (se_r6 env) (se_catalog env) rows cur cluster)"

definition resolve_rate_snapshot :: "sub_env \<Rightarrow> estate \<Rightarrow> subscription \<Rightarrow> money option \<times> string option" where
  "resolve_rate_snapshot env es s =
     (let currency = team_money env (su_team s);
          cluster = or_opt (Option.bind (server_of es (su_server s)) sv_region) (su_cluster s)
      in if \<not> truthy currency then (None, None)
         else if su_mode s = ''Composed'' then (config_rate_in env (su_includes s) currency cluster, currency)
         else if \<not> truthy (su_plan s) then (None, None)
         else (rate_in env (the (su_plan s)) currency cluster, currency))"

definition segment_label :: "sub_env \<Rightarrow> subscription \<Rightarrow> string option" where
  "segment_label env s =
     (if truthy (su_snapshot s) \<or> truthy (su_ip_server s) \<or> su_mode s = ''Composed''
      then Some (se_composed_label env s) else su_plan s)"

definition same_quantities :: "plan_include list \<Rightarrow> plan_include list \<Rightarrow> bool" where
  "same_quantities xs ys =
     (let a = composition_quantities xs; b = composition_quantities ys
      in list_all (\<lambda>k. map_of a k = map_of b k) (map fst a @ map fst b))"

definition billing_segment_changed :: "subscription \<Rightarrow> subscription \<Rightarrow> bool" where
  "billing_segment_changed before s \<longleftrightarrow> su_plan s \<noteq> su_plan before \<or> su_mode s \<noteq> su_mode before
     \<or> su_sub_category s \<noteq> su_sub_category before \<or> \<not> same_quantities (su_includes before) (su_includes s)"

definition duplicate_subscription :: "estate \<Rightarrow> subscription \<Rightarrow> bool" where
  "duplicate_subscription es s \<longleftrightarrow> su_enabled s \<and> su_team s \<noteq> [] \<and> truthy (su_server s)
     \<and> (\<exists>x \<in> set (es_subs es). su_name x \<noteq> su_name s \<and> su_team x = su_team s
          \<and> su_server x = su_server s \<and> su_enabled x)"

definition duplicate_service_subject :: "estate \<Rightarrow> subscription \<Rightarrow> bool" where
  "duplicate_service_subject es s \<longleftrightarrow> su_enabled s \<and> truthy (su_subject s)
     \<and> (\<exists>x \<in> set (es_subs es). su_name x \<noteq> su_name s \<and> su_subject x = su_subject s \<and> su_enabled x)"

definition validate_project :: "sub_env \<Rightarrow> estate \<Rightarrow> subscription option \<Rightarrow> subscription \<Rightarrow> error option" where
  "validate_project env es before s =
     (if \<not> truthy (su_project s) then None else
      case find_project es (the (su_project s)) of
        None \<Rightarrow> None
      | Some p \<Rightarrow>
          if pj_team p \<noteq> su_team s then Some (ValidationError ''Project belongs to another team'')
          else if \<not> pj_enabled p then Some (ValidationError ''Project is disabled'')
          else if before = None \<or> map_option su_project before \<noteq> Some (su_project s)
          then let rate = (case fst (resolve_rate_snapshot env es s) of None \<Rightarrow> 0 | Some r \<Rightarrow> r)
               in enforce_project_headroom es (su_team s) (su_project s) (Some rate)
                    (if before = None then None else Some (su_name s))
          else None)"

definition validate_sub :: "sub_env \<Rightarrow> estate \<Rightarrow> subscription option \<Rightarrow> subscription \<Rightarrow> error option" where
  "validate_sub env es before s =
     (if duplicate_subscription es s then Some DuplicateEntry
      else if duplicate_service_subject es s then Some DuplicateEntry
      else validate_project env es before s)"

definition sdoc_of_sub :: "subscription \<Rightarrow> sdoc" where
  "sdoc_of_sub s = \<lparr>sd_doctype = ''Subscription'', sd_name = su_name s,
     sd_fields = [''account_standing'' \<mapsto> su_standing s, ''team'' \<mapsto> su_team s]\<rparr>"

definition sub_event :: "sub_env \<Rightarrow> subscription \<Rightarrow> string \<Rightarrow> estate \<Rightarrow> estate" where
  "sub_event env s event_type es = es\<lparr>es_events :=
     record_event (se_ambient env) (sdoc_of_sub s) event_type None None (su_plan s) None None None None (es_events es)\<rparr>"

definition opening_time :: "sub_env \<Rightarrow> subscription \<Rightarrow> datetime" where
  "opening_time env s = (case su_start_date s of
     None \<Rightarrow> se_now env
   | Some d \<Rightarrow> if d = dt_date (se_now env) then se_now env else at_midnight d)"

definition insert_sub ::
  "sub_env \<Rightarrow> (money option \<times> string option) option \<Rightarrow> subscription \<Rightarrow> estate \<Rightarrow> error + estate" where
  "insert_sub env opening_quote s es =
     (if su_name s \<in> su_name ` set (es_subs es) then Inl DuplicateEntry else
      case validate_sub env es None s of Some e \<Rightarrow> Inl e | None \<Rightarrow>
        let es = es\<lparr>es_subs := es_subs es @ [s]\<rparr>;
            (rate, currency) = (case opening_quote of Some q \<Rightarrow> q | None \<Rightarrow> resolve_rate_snapshot env es s)
        in bindE (append_change \<lparr>sc_subscription = su_name s, sc_type = ''Created'', sc_old = None,
               sc_new = segment_label env s, sc_rate = rate, sc_currency = currency,
               sc_at = opening_time env s, sc_by = session_user env\<rparr> es)
             (\<lambda>es. Inr (sub_event env s ''Subscription Created'' es)))"

definition log_plan_change ::
  "sub_env \<Rightarrow> (money option \<times> string option) option \<Rightarrow> string option \<Rightarrow> subscription \<Rightarrow> subscription \<Rightarrow> estate
     \<Rightarrow> error + estate" where
  "log_plan_change env locked_rate_override changed_by before s es =
     (let (rate, currency) = (case locked_rate_override of Some q \<Rightarrow> q | None \<Rightarrow> resolve_rate_snapshot env es s)
      in append_change \<lparr>sc_subscription = su_name s, sc_type = ''Plan Changed'', sc_old = segment_label env before,
           sc_new = segment_label env s, sc_rate = rate, sc_currency = currency, sc_at = se_now env,
           sc_by = or_else changed_by (session_user env)\<rparr> es)"

definition record_change_event :: "sub_env \<Rightarrow> subscription \<Rightarrow> subscription \<Rightarrow> estate \<Rightarrow> estate" where
  "record_change_event env before s es =
     (if su_enabled s \<noteq> su_enabled before
      then sub_event env s (if su_enabled s then ''Subscription Enabled'' else ''Subscription Disabled'') es
      else if su_plan s \<noteq> su_plan before then sub_event env s ''Subscription Plan Changed'' es else es)"

definition save_sub ::
  "sub_env \<Rightarrow> (money option \<times> string option) option \<Rightarrow> string option \<Rightarrow> subscription \<Rightarrow> estate \<Rightarrow> error + estate" where
  "save_sub env locked_rate_override changed_by s es = (case find_sub es (su_name s) of
     None \<Rightarrow> Inl DoesNotExist
   | Some before \<Rightarrow> (case validate_sub env es (Some before) s of Some e \<Rightarrow> Inl e | None \<Rightarrow>
       let es = put_sub s es in
       bindE (if billing_segment_changed before s
              then log_plan_change env locked_rate_override changed_by before s es else Inr es)
         (\<lambda>es. Inr (record_change_event env before s es))))"

section \<open>Opening a subscription\<close>

definition blank_sub :: "string \<Rightarrow> string \<Rightarrow> subscription" where
  "blank_sub name team = \<lparr>su_name = name, su_team = team, su_server = None, su_subject = None, su_snapshot = None,
     su_ip_server = None, su_cluster = None, su_mode = ''Preset'', su_plan = None, su_sub_category = None,
     su_includes = [], su_standing = ''Current'', su_enabled = False, su_stopped_for_nonpayment = False,
     su_start_date = None, su_project = None, su_payment_method = None\<rparr>"

definition server_shape :: "plan_include list \<Rightarrow> rat \<times> rat \<times> rat" where
  "server_shape rows =
     (let qty = composition_quantities rows
      in (quantity_of qty ''Compute'', of_int \<lfloor>quantity_of qty ''Memory'' * 1024\<rfloor>, of_int \<lfloor>quantity_of qty ''Disk''\<rfloor>))"

definition pending_server :: "string \<Rightarrow> string \<Rightarrow> string \<Rightarrow> string option \<Rightarrow> plan_include list \<Rightarrow> server" where
  "pending_server resource_id team cluster plan rows =
     (let (vcpus, memory, disk) = (if rows = [] then (0, 0, 0) else server_shape rows)
      in \<lparr>sv_name = resource_id, sv_team = team, sv_region = Some cluster, sv_status = ''Pending'', sv_plan = plan,
          sv_vcpus = vcpus, sv_memory_mb = memory, sv_disk_gb = disk\<rparr>)"

text \<open>The contract a server is opened with; \<open>enabled\<close> is left at its default, which is off.\<close>

definition create_subscription ::
  "sub_env \<Rightarrow> string \<Rightarrow> string \<Rightarrow> string \<Rightarrow> string \<Rightarrow> string option \<Rightarrow> date option \<Rightarrow> string \<Rightarrow> plan_include list
     \<Rightarrow> string option \<Rightarrow> (money option \<times> string option) option \<Rightarrow> estate \<Rightarrow> error + estate" where
  "create_subscription env name team cluster resource_id plan start_date pricing_mode rows sub_category opening_quote es =
     (let es = (if find_server es resource_id = None
          then es\<lparr>es_servers := es_servers es @ [pending_server resource_id team cluster plan rows]\<rparr> else es)
      in insert_sub env opening_quote ((blank_sub name team)\<lparr>su_server := Some resource_id, su_mode := pricing_mode,
           su_plan := plan, su_sub_category := sub_category, su_includes := rows,
           su_start_date := Some (case start_date of Some d \<Rightarrow> d | None \<Rightarrow> dt_date (se_now env))\<rparr>) es)"

definition provision_composed_subscription ::
  "sub_env \<Rightarrow> string \<Rightarrow> string \<Rightarrow> string \<Rightarrow> string \<Rightarrow> plan_include list \<Rightarrow> string \<Rightarrow> date option \<Rightarrow> estate \<Rightarrow> error + estate" where
  "provision_composed_subscription env name team cluster resource_id rows sub_category start_date es =
     (case validate_composition (se_catalog env) sub_category rows of Some e \<Rightarrow> Inl e | None \<Rightarrow>
      case enforce_headroom env es team (config_rate_in env rows (team_money env team) (Some cluster)) None True of
        Some e \<Rightarrow> Inl e
      | None \<Rightarrow> create_subscription env name team cluster resource_id None start_date ''Composed'' rows
          (Some sub_category) None es)"

definition provision_subscription ::
  "sub_env \<Rightarrow> string \<Rightarrow> string \<Rightarrow> string \<Rightarrow> string \<Rightarrow> string \<Rightarrow> date option \<Rightarrow> estate \<Rightarrow> error + estate" where
  "provision_subscription env name team cluster resource_id plan start_date es =
     create_subscription env name team cluster resource_id (Some plan) start_date ''Preset'' [] None None es"

text \<open>A paid creation carries the rate quoted before the region was asked, and runs once per server.\<close>

definition create_server_subscription ::
  "sub_env \<Rightarrow> string \<Rightarrow> string \<Rightarrow> string \<Rightarrow> string \<Rightarrow> string option \<Rightarrow> plan_include list \<Rightarrow> string option
     \<Rightarrow> money \<times> string \<Rightarrow> estate \<Rightarrow> error + estate" where
  "create_server_subscription env name team region resource_id plan rows sub_category quote es =
     (if \<exists>s \<in> set (es_subs es). su_team s = team \<and> su_server s = Some resource_id then Inr es
      else create_subscription env name team region resource_id plan None
        (if truthy plan then ''Preset'' else ''Composed'') (if truthy plan then [] else rows) sub_category
        (Some (Some (fst quote), Some (snd quote))) es)"


section \<open>Changing what is billed\<close>

definition change_plan :: "sub_env \<Rightarrow> string \<Rightarrow> string \<Rightarrow> string option \<Rightarrow> estate \<Rightarrow> error + estate" where
  "change_plan env subscription new_plan changed_by es = (case find_sub es subscription of
     None \<Rightarrow> Inl DoesNotExist
   | Some s \<Rightarrow>
       if su_mode s \<noteq> ''Composed'' \<and> su_plan s = Some new_plan then Inr es
       else save_sub env None changed_by
         (s\<lparr>su_mode := ''Preset'', su_plan := Some new_plan, su_sub_category := None, su_includes := []\<rparr>) es)"

definition require_a_way_to_pay :: "sub_env \<Rightarrow> string \<Rightarrow> money \<Rightarrow> error option" where
  "require_a_way_to_pay env team added_rate =
     (if is_internal_team (se_profiles env) team \<or> se_staging_trial env team then None
      else se_payment_gate env team added_rate)"

definition require_a_way_to_pay_for_more ::
  "sub_env \<Rightarrow> estate \<Rightarrow> string \<Rightarrow> string option \<Rightarrow> money option \<Rightarrow> error option" where
  "require_a_way_to_pay_for_more env es team subscription new_rate =
     (let segs = (case subscription of None \<Rightarrow> [] | Some n \<Rightarrow> active_segments (\<lambda>s. su_name s = n) es);
          increase = (case new_rate of None \<Rightarrow> 0 | Some r \<Rightarrow> r) - (case segs of [] \<Rightarrow> 0 | g # _ \<Rightarrow> as_rate g)
      in if increase > 0 then require_a_way_to_pay env team increase else None)"

definition assert_service_plan :: "sub_env \<Rightarrow> string \<Rightarrow> error + string" where
  "assert_service_plan env plan = (case find_plan (se_catalog env) plan of
     None \<Rightarrow> Inl (ValidationError ''Unknown plan'')
   | Some p \<Rightarrow>
       if pl_category p = [] then Inl (ValidationError ''Unknown plan'')
       else if Option.bind (find_category (se_catalog env) (pl_category p)) pc_provision_target = Some ''Server''
       then Inl (ValidationError ''provisions a server'') else Inr (pl_category p))"

definition require_sellable_service_plan ::
  "sub_env \<Rightarrow> string \<Rightarrow> string \<Rightarrow> string option \<Rightarrow> bool \<Rightarrow> error + money" where
  "require_sellable_service_plan env team plan cluster allow_unlisted =
     (if \<not> allow_unlisted \<and> (case find_plan (se_catalog env) plan of None \<Rightarrow> True | Some p \<Rightarrow> \<not> pl_active p)
      then Inl (ValidationError ''This plan is no longer offered'')
      else case rate_in env plan (team_money env team) cluster of
        None \<Rightarrow> Inl (ValidationError ''This plan has no price'') | Some rate \<Rightarrow> Inr rate)"

text \<open>The subject of a team's service is a digest of team, family and cluster: the argument \<open>digest\<close>.\<close>

definition service_subject_id :: "(string \<Rightarrow> string) \<Rightarrow> string \<Rightarrow> string \<Rightarrow> string option \<Rightarrow> string" where
  "service_subject_id digest team category cluster =
     ''svc-'' @ digest (team @ ''|'' @ category @ ''|'' @ or_else cluster [])"

datatype service_outcome = Reused string | Upgraded string | Opened string

definition provision_service_subscription ::
  "sub_env \<Rightarrow> (string \<Rightarrow> string) \<Rightarrow> string \<Rightarrow> string \<Rightarrow> string \<Rightarrow> string option \<Rightarrow> date option \<Rightarrow> string option \<Rightarrow> bool \<Rightarrow> estate
     \<Rightarrow> error + service_outcome \<times> estate" where
  "provision_service_subscription env digest name team plan cluster start_date changed_by allow_unlisted es =
     bindE (assert_service_plan env plan) (\<lambda>category.
       let subject = service_subject_id digest team category cluster;
           existing = find (\<lambda>s. su_subject s = Some subject \<and> su_enabled s) (rev (es_subs es))
       in if map_option su_plan existing = Some (Some plan) then Inr (Reused (su_name (the existing)), es)
          else bindE (require_sellable_service_plan env team plan cluster allow_unlisted) (\<lambda>rate.
            case require_a_way_to_pay_for_more env es team (map_option su_name existing) (Some rate) of
              Some e \<Rightarrow> Inl e
            | None \<Rightarrow> (case existing of
                Some x \<Rightarrow> bindE (change_plan env (su_name x) plan changed_by es) (\<lambda>es. Inr (Upgraded (su_name x), es))
              | None \<Rightarrow> bindE (insert_sub env None ((blank_sub name team)\<lparr>su_subject := Some subject, su_cluster := cluster,
                    su_plan := Some plan, su_enabled := True,
                    su_start_date := Some (case start_date of Some d \<Rightarrow> d | None \<Rightarrow> dt_date (se_now env))\<rparr>) es)
                  (\<lambda>es. Inr (Opened name, es)))))"

section \<open>Resizing\<close>

definition is_resizable :: "estate \<Rightarrow> subscription \<Rightarrow> bool" where
  "is_resizable es s \<longleftrightarrow> (case latest_segment es (su_name s) of None \<Rightarrow> False | Some c \<Rightarrow> sc_type c \<noteq> ''Cancelled'')
     \<and> map_option sv_status (server_of es (su_server s)) \<noteq> Some ''Terminated''"

definition plan_rows :: "sub_env \<Rightarrow> string \<Rightarrow> plan_include list" where
  "plan_rows env plan = (case find_plan (se_catalog env) plan of None \<Rightarrow> [] | Some p \<Rightarrow> pl_includes p)"

definition plan_disk :: "sub_env \<Rightarrow> string \<Rightarrow> rat" where
  "plan_disk env plan = (case server_shape (plan_rows env plan) of (_, _, disk) \<Rightarrow> disk)"

text \<open>The preset's rows with the disk the customer chose, when that is not the preset's own.\<close>

definition resize_disk_choice ::
  "sub_env \<Rightarrow> string option \<Rightarrow> plan_include list \<Rightarrow> string option \<Rightarrow> rat option
     \<Rightarrow> string option \<times> plan_include list \<times> string option" where
  "resize_disk_choice env plan rows sub_category disk_gigabytes =
     (if \<not> truthy plan \<or> disk_gigabytes = None then (plan, rows, sub_category)
      else if the disk_gigabytes = plan_disk env (the plan) then (plan, rows, sub_category)
      else let kept = filter (\<lambda>r. pi_type r \<noteq> ''Disk'') (plan_rows env (the plan));
               profile = Option.bind (find_plan (se_catalog env) (the plan)) pl_sub_category
           in (None, kept @ [\<lparr>pi_type = ''Disk'', pi_quantity = the disk_gigabytes\<rparr>], or_opt profile sub_category))"

definition preset_plus_disk_rate :: "sub_env \<Rightarrow> estate \<Rightarrow> subscription \<Rightarrow> string \<Rightarrow> rat \<Rightarrow> money option" where
  "preset_plus_disk_rate env es s plan disk_gigabytes =
     (let currency = team_money env (su_team s); cluster = Option.bind (server_of es (su_server s)) sv_region
      in case rate_in env plan currency cluster of
           None \<Rightarrow> None
         | Some base \<Rightarrow>
             let extra = max 0 (disk_gigabytes - plan_disk env plan) in
             if extra = 0 then Some base
             else Some (base + extra * (case Option.bind currency (\<lambda>cur. resolve_component_rate (se_r6 env) (se_catalog env)
                 ''Disk'' cur cluster) of None \<Rightarrow> 0 | Some r \<Rightarrow> r)))"

definition guard_disk_shrink :: "estate \<Rightarrow> string \<Rightarrow> rat \<Rightarrow> error option" where
  "guard_disk_shrink es server_id new_disk =
     (if new_disk < (case find_server es server_id of None \<Rightarrow> 0 | Some v \<Rightarrow> sv_disk_gb v)
      then Some (ValidationError ''Disk cannot shrink'') else None)"

definition find_shape_profile :: "sub_env \<Rightarrow> string \<Rightarrow> shape_profile option" where
  "find_shape_profile env name = find (\<lambda>s. sp_name s = name) (ct_profiles (se_catalog env))"

definition validate_resize_disk :: "sub_env \<Rightarrow> estate \<Rightarrow> string \<Rightarrow> string \<Rightarrow> rat \<Rightarrow> error option" where
  "validate_resize_disk env es profile server_id new_disk =
     (case guard_disk_shrink es server_id (of_int \<lfloor>new_disk\<rfloor>) of Some e \<Rightarrow> Some e | None \<Rightarrow>
      let disk_max = (case find_shape_profile env profile of None \<Rightarrow> 0 | Some s \<Rightarrow> sp_disk_max s) in
      if disk_max \<noteq> 0 \<and> new_disk > disk_max then Some (ValidationError ''exceeds the maximum'') else None)"

definition kept_disk_at_profile_minimum :: "sub_env \<Rightarrow> string \<Rightarrow> plan_include list \<Rightarrow> plan_include list" where
  "kept_disk_at_profile_minimum env profile rows =
     (let disk_min = (case find_shape_profile env profile of None \<Rightarrow> 0 | Some s \<Rightarrow> sp_disk_min s) in
      if disk_min = 0 \<or> disk_min \<le> quantity_of (composition_quantities rows) ''Disk'' then rows
      else map (\<lambda>r. if pi_type r = ''Disk'' then r\<lparr>pi_quantity := disk_min\<rparr> else r) rows)"

definition validate_resize_shape ::
  "sub_env \<Rightarrow> estate \<Rightarrow> string \<Rightarrow> plan_include list \<Rightarrow> string option \<Rightarrow> string option \<Rightarrow> error option" where
  "validate_resize_shape env es profile rows server_id preset_plan =
     (if \<not> truthy server_id then validate_composition (se_catalog env) profile rows else
      let (vcpus, memory_mb, disk_gb) = (case find_server es (the server_id) of
            None \<Rightarrow> (0, 0, 0) | Some v \<Rightarrow> (sv_vcpus v, sv_memory_mb v, sv_disk_gb v));
          qty = composition_quantities rows;
          new_disk = quantity_of qty ''Disk'';
          same_compute = (quantity_of qty ''Compute'' = vcpus \<and> quantity_of qty ''Memory'' = memory_mb / 1024)
      in if truthy preset_plan \<or> same_compute then validate_resize_disk env es profile (the server_id) new_disk
         else validate_composition (se_catalog env) profile
           (if new_disk = disk_gb then kept_disk_at_profile_minimum env profile rows else rows))"

definition resize_composed_subscription ::
  "sub_env \<Rightarrow> string \<Rightarrow> plan_include list \<Rightarrow> string option \<Rightarrow> string option \<Rightarrow> money option \<Rightarrow> string option \<Rightarrow> estate
     \<Rightarrow> error + estate" where
  "resize_composed_subscription env subscription rows sub_category changed_by override_rate preset_plan es =
     (case find_sub es subscription of None \<Rightarrow> Inl DoesNotExist | Some s \<Rightarrow>
      if \<not> is_resizable es s then Inr es
      else if \<not> truthy (or_opt sub_category (su_sub_category s))
        then Inl (ValidationError ''A composed config needs an optimisation profile'')
      else let profile = the (or_opt sub_category (su_sub_category s)) in
      case (if truthy preset_plan then None else validate_shape_rows rows) of Some e \<Rightarrow> Inl e | None \<Rightarrow>
      case validate_resize_shape env es profile rows (su_server s) preset_plan of Some e \<Rightarrow> Inl e | None \<Rightarrow>
      let currency = team_money env (su_team s);
          region = Option.bind (server_of es (su_server s)) sv_region;
          new_rate = (case override_rate of Some r \<Rightarrow> Some r | None \<Rightarrow> config_rate_in env rows currency region)
      in case enforce_headroom env es (su_team s) new_rate (Some subscription) False of Some e \<Rightarrow> Inl e | None \<Rightarrow>
      if su_mode s = ''Composed'' \<and> same_quantities (su_includes s) rows then Inr es
      else save_sub env (case override_rate of Some r \<Rightarrow> Some (Some r, currency) | None \<Rightarrow> None) changed_by
        (s\<lparr>su_mode := ''Composed'', su_plan := None, su_sub_category := Some profile, su_includes := rows\<rparr>) es)"

definition resize_to_plan :: "sub_env \<Rightarrow> string \<Rightarrow> string \<Rightarrow> string option \<Rightarrow> estate \<Rightarrow> error + estate" where
  "resize_to_plan env subscription new_plan changed_by es =
     (case find_sub es subscription of None \<Rightarrow> Inl DoesNotExist | Some s \<Rightarrow>
      if \<not> is_resizable es s then Inr es
      else if su_mode s = ''Preset'' \<and> su_plan s = Some new_plan then Inr es
      else let region = Option.bind (server_of es (su_server s)) sv_region;
               new_rate = rate_in env new_plan (team_money env (su_team s)) region
      in case enforce_headroom env es (su_team s) new_rate (Some subscription) False of Some e \<Rightarrow> Inl e | None \<Rightarrow>
         change_plan env subscription new_plan changed_by es)"

section \<open>Ending, pausing and the payment method\<close>

definition cancel_subscription :: "sub_env \<Rightarrow> string \<Rightarrow> string option \<Rightarrow> estate \<Rightarrow> error + estate" where
  "cancel_subscription env subscription changed_by es =
     bindE (record_change env subscription ''Cancelled'' None None changed_by es)
       (\<lambda>es. if find_sub es subscription = None then Inl DoesNotExist else Inr es)"

definition set_enabled :: "sub_env \<Rightarrow> string \<Rightarrow> bool \<Rightarrow> estate \<Rightarrow> error + estate" where
  "set_enabled env subscription on es = (case find_sub es subscription of
     None \<Rightarrow> Inl DoesNotExist | Some s \<Rightarrow> save_sub env None None (s\<lparr>su_enabled := on\<rparr>) es)"

definition end_subscription :: "sub_env \<Rightarrow> string \<Rightarrow> string option \<Rightarrow> estate \<Rightarrow> error + estate" where
  "end_subscription env subscription changed_by es =
     bindE (cancel_subscription env subscription changed_by es) (set_enabled env subscription False)"

definition change_payment_method ::
  "sub_env \<Rightarrow> string \<Rightarrow> string option \<Rightarrow> string option \<Rightarrow> estate \<Rightarrow> error + estate" where
  "change_payment_method env subscription new_method changed_by es = (case find_sub es subscription of
     None \<Rightarrow> Inl DoesNotExist
   | Some s \<Rightarrow> bindE (save_sub env None None (s\<lparr>su_payment_method := new_method\<rparr>) es)
       (record_change env subscription ''Payment Method Changed'' (su_payment_method s) new_method changed_by))"

definition action_from :: "string \<Rightarrow> string list" where
  "action_from action = (if action = ''stop'' then [''Running'']
     else if action = ''start'' then [''Stopped'', ''Paused'', ''Failed''] else [])"

definition control_subscription_server :: "sub_env \<Rightarrow> subscription \<Rightarrow> string \<Rightarrow> estate \<Rightarrow> error + estate" where
  "control_subscription_server env s action es = (case server_of es (su_server s) of
     None \<Rightarrow> Inr es
   | Some v \<Rightarrow>
       if sv_status v \<notin> set (action_from action) then Inr es
       else case se_control_server env action (sv_name v) of
         Some e \<Rightarrow> Inl e | None \<Rightarrow> Inr (es\<lparr>es_commands := es_commands es @ [(action, sv_name v)]\<rparr>))"

definition pause_billing :: "sub_env \<Rightarrow> string \<Rightarrow> string option \<Rightarrow> estate \<Rightarrow> error + estate" where
  "pause_billing env subscription changed_by es = (case find_sub es subscription of
     None \<Rightarrow> Inl DoesNotExist
   | Some s \<Rightarrow> if \<not> su_enabled s then Inr es
       else bindE (save_sub env None None (s\<lparr>su_enabled := False\<rparr>) es) (\<lambda>es.
            bindE (record_change env subscription ''Paused'' (Some ''1'') (Some ''0'') changed_by es) (\<lambda>es.
              control_subscription_server env s ''stop'' es)))"

definition resume_billing :: "sub_env \<Rightarrow> string \<Rightarrow> string option \<Rightarrow> estate \<Rightarrow> error + estate" where
  "resume_billing env subscription changed_by es = (case find_sub es subscription of
     None \<Rightarrow> Inl DoesNotExist
   | Some s \<Rightarrow> if su_enabled s then Inr es
       else bindE (save_sub env None None (s\<lparr>su_enabled := True\<rparr>) es) (\<lambda>es.
            bindE (record_change env subscription ''Resumed'' (Some ''0'') (Some ''1'') changed_by es) (\<lambda>es.
              control_subscription_server env s ''start'' es)))"

section \<open>Account standing\<close>

definition standing_change_type :: "string \<Rightarrow> string option" where
  "standing_change_type new_standing = map_of
     [(''Past Due'', ''Past Due''), (''Suspended'', ''Suspended''), (''Current'', ''Reactivated'')] new_standing"

definition set_standing ::
  "sub_env \<Rightarrow> string \<Rightarrow> string \<Rightarrow> string option \<Rightarrow> string option \<Rightarrow> estate \<Rightarrow> error + estate" where
  "set_standing env subscription new_standing changed_by reason es = (case find_sub es subscription of
     None \<Rightarrow> Inl DoesNotExist
   | Some s \<Rightarrow>
       if su_standing s = new_standing then Inr es
       else bindE (transition (se_ambient env) (sdoc_of_sub s) new_standing reason changed_by None None None (es_events es))
         (\<lambda>(doc, evs). bindE (save_sub env None None (s\<lparr>su_standing := the (sd_fields doc ''account_standing'')\<rparr>)
             (es\<lparr>es_events := evs\<rparr>))
           (\<lambda>es. case standing_change_type new_standing of
              None \<Rightarrow> Inl ValueError
            | Some change_type \<Rightarrow>
                record_change env subscription change_type (Some (su_standing s)) (Some new_standing) changed_by es)))"

fun set_standings :: "sub_env \<Rightarrow> string \<Rightarrow> string list \<Rightarrow> estate \<Rightarrow> error + estate" where
  "set_standings env new_standing [] es = Inr es"
| "set_standings env new_standing (name # names) es =
     bindE (set_standing env name new_standing (Some ''dunning'') None es) (set_standings env new_standing names)"

definition mark_past_due :: "sub_env \<Rightarrow> string \<Rightarrow> estate \<Rightarrow> error + string list \<times> estate" where
  "mark_past_due env team es =
     (let moved = map su_name (filter (\<lambda>s. su_team s = team \<and> su_standing s = ''Current'') (rev (es_subs es)))
      in bindE (set_standings env ''Past Due'' moved es) (\<lambda>es. Inr (moved, es)))"

text \<open>\<open>frappe.ValidationError\<close> and its subclasses, which is what the loop over a team contains.\<close>

definition is_validation_error :: "error \<Rightarrow> bool" where
  "is_validation_error e \<longleftrightarrow> (case e of ValidationError _ \<Rightarrow> True | InvalidTransition \<Rightarrow> True | DoesNotExist \<Rightarrow> True
     | _ \<Rightarrow> False)"

definition queue_power_for_billing :: "sub_env \<Rightarrow> subscription \<Rightarrow> string \<Rightarrow> estate \<Rightarrow> bool \<times> estate" where
  "queue_power_for_billing env s action es = (case server_of es (su_server s) of
     None \<Rightarrow> (False, es)
   | Some v \<Rightarrow>
       if sv_status v \<notin> set (action_from action) then (False, es)
       else if se_command_accepted env action (sv_name v)
         then (True, es\<lparr>es_commands := es_commands es @ [(action, sv_name v)]\<rparr>) else (False, es))"

definition flag_stopped :: "string \<Rightarrow> bool \<Rightarrow> estate \<Rightarrow> estate" where
  "flag_stopped name on es = es\<lparr>es_subs :=
     map (\<lambda>x. if su_name x = name then x\<lparr>su_stopped_for_nonpayment := on\<rparr> else x) (es_subs es)\<rparr>"

definition suspend_one :: "sub_env \<Rightarrow> subscription \<Rightarrow> estate \<Rightarrow> error + string option \<times> estate" where
  "suspend_one env s es =
     (case bindE (if su_standing s = ''Current'' then set_standing env (su_name s) ''Past Due'' (Some ''dunning'') None es
                  else Inr es)
        (set_standing env (su_name s) ''Suspended'' (Some ''dunning'') (Some ''unpaid invoice'')) of
        Inl e \<Rightarrow> if is_validation_error e then Inr (None, es) else Inl e
      | Inr es' \<Rightarrow> (let (queued, es'') = queue_power_for_billing env s ''stop'' es'
          in Inr (Some (su_name s), if queued then flag_stopped (su_name s) True es'' else es'')))"

fun suspend_each :: "sub_env \<Rightarrow> subscription list \<Rightarrow> estate \<Rightarrow> error + string list \<times> estate" where
  "suspend_each env [] es = Inr ([], es)"
| "suspend_each env (s # subs) es =
     bindE (suspend_one env s es) (\<lambda>(name, es). bindE (suspend_each env subs es)
       (\<lambda>(names, es). Inr (case name of None \<Rightarrow> names | Some n \<Rightarrow> n # names, es)))"

definition suspend_for_nonpayment :: "sub_env \<Rightarrow> string \<Rightarrow> estate \<Rightarrow> error + string list \<times> estate" where
  "suspend_for_nonpayment env team es =
     suspend_each env (filter (\<lambda>s. su_team s = team \<and> su_standing s \<noteq> ''Suspended'') (rev (es_subs es))) es"

definition restore_one :: "sub_env \<Rightarrow> subscription \<Rightarrow> estate \<Rightarrow> error + estate" where
  "restore_one env s es =
     bindE (set_standing env (su_name s) ''Current'' (Some ''payment'') (Some ''invoice settled'') es) (\<lambda>es.
       Inr (if su_stopped_for_nonpayment s
            then snd (queue_power_for_billing env s ''start'' (flag_stopped (su_name s) False es)) else es))"

fun restore_each :: "sub_env \<Rightarrow> subscription list \<Rightarrow> estate \<Rightarrow> error + string list \<times> estate" where
  "restore_each env [] es = Inr ([], es)"
| "restore_each env (s # subs) es =
     bindE (restore_one env s es) (\<lambda>es. bindE (restore_each env subs es) (\<lambda>(names, es). Inr (su_name s # names, es)))"

definition restore_after_payment :: "sub_env \<Rightarrow> string \<Rightarrow> estate \<Rightarrow> error + string list \<times> estate" where
  "restore_after_payment env team es =
     restore_each env (filter (\<lambda>s. su_team s = team \<and> su_standing s \<in> {''Past Due'', ''Suspended''}) (rev (es_subs es))) es"

section \<open>What the life of a server opens and closes\<close>

definition ensure_subscription_enabled :: "sub_env \<Rightarrow> string \<Rightarrow> server \<Rightarrow> estate \<Rightarrow> error + estate" where
  "ensure_subscription_enabled env name v es =
     (if se_billing_deferred env (sv_name v) then Inr es else
      case find (\<lambda>s. su_team s = sv_team v \<and> su_server s = Some (sv_name v)) (rev (es_subs es)) of
        None \<Rightarrow> insert_sub env None ((blank_sub name (sv_team v))\<lparr>su_server := Some (sv_name v),
          su_plan := sv_plan v, su_enabled := True\<rparr>) es
      | Some s \<Rightarrow>
          bindE (if su_enabled s then Inr es else save_sub env None None (s\<lparr>su_enabled := True\<rparr>) es) (\<lambda>es.
            if su_plan s \<noteq> sv_plan v
            then save_sub env None None (s\<lparr>su_enabled := True, su_plan := sv_plan v\<rparr>) es else Inr es))"

definition disable_active_subscription :: "sub_env \<Rightarrow> server \<Rightarrow> estate \<Rightarrow> error + estate" where
  "disable_active_subscription env v es =
     (case find (\<lambda>s. su_team s = sv_team v \<and> su_server s = Some (sv_name v) \<and> su_enabled s) (rev (es_subs es)) of
        None \<Rightarrow> Inr es | Some s \<Rightarrow> end_subscription env (su_name s) None es)"

definition sync_subscription_on_status_change :: "sub_env \<Rightarrow> string \<Rightarrow> server \<Rightarrow> estate \<Rightarrow> error + estate" where
  "sync_subscription_on_status_change env name v es =
     (if sv_status v = ''Running'' then ensure_subscription_enabled env name v es
      else if sv_status v = ''Terminated'' then disable_active_subscription env v es else Inr es)"

definition backfill_server :: "sub_env \<Rightarrow> string \<Rightarrow> string \<Rightarrow> estate \<Rightarrow> error + estate" where
  "backfill_server env name server_id es =
     (if \<exists>s \<in> set (es_subs es). su_server s = Some server_id \<and> su_enabled s then Inr es
      else if se_billing_deferred env server_id then Inr es
      else case find_server es server_id of
        None \<Rightarrow> Inl DoesNotExist
      | Some v \<Rightarrow> insert_sub env None ((blank_sub name (sv_team v))\<lparr>su_server := Some (sv_name v),
          su_plan := sv_plan v, su_enabled := True\<rparr>) es)"

text \<open>A snapshot and a public address are billed by a composed contract of one row, at the quoted rate.\<close>

definition single_row_rate :: "sub_env \<Rightarrow> estate \<Rightarrow> string \<Rightarrow> string \<Rightarrow> string \<Rightarrow> money option \<times> string" where
  "single_row_rate env es resource team region =
     (let currency = get_team_currency env es team
      in (resolve_component_rate (se_r6 env) (se_catalog env) resource currency (Some region), currency))"

definition open_snapshot_subscription ::
  "sub_env \<Rightarrow> string \<Rightarrow> string \<Rightarrow> string \<Rightarrow> string \<Rightarrow> rat \<Rightarrow> estate \<Rightarrow> error + estate" where
  "open_snapshot_subscription env name team snapshot region size_gib es =
     (case single_row_rate env es ''Snapshot'' team region of
        (None, _) \<Rightarrow> Inl (ValidationError ''Snapshot storage has no price'')
      | (Some rate, currency) \<Rightarrow> insert_sub env (Some (Some (rate * size_gib), Some currency))
          ((blank_sub name team)\<lparr>su_snapshot := Some snapshot, su_mode := ''Composed'',
            su_includes := [\<lparr>pi_type = ''Snapshot'', pi_quantity = size_gib\<rparr>], su_enabled := True\<rparr>) es)"

definition open_public_ipv4_subscription :: "sub_env \<Rightarrow> string \<Rightarrow> server \<Rightarrow> estate \<Rightarrow> error + estate" where
  "open_public_ipv4_subscription env name v es =
     (case single_row_rate env es ''IP'' (sv_team v) (or_else (sv_region v) []) of
        (None, _) \<Rightarrow> Inr es
      | (Some rate, currency) \<Rightarrow> insert_sub env (Some (Some rate, Some currency))
          ((blank_sub name (sv_team v))\<lparr>su_ip_server := Some (sv_name v), su_mode := ''Composed'',
            su_includes := [\<lparr>pi_type = ''IP'', pi_quantity = 1\<rparr>], su_enabled := True\<rparr>) es)"

end
