(* ===== verification/Subscription_Facts.thy ===== *)
theory Subscription_Facts
  imports Subscriptions
begin

text \<open>
  Facts of the subscription contract: what a save and a standing change write and what they leave
  alone, the run rate as a sum over the subscriptions, and the effect of appending a change on the
  open segments.
\<close>

definition estate_wf :: "estate \<Rightarrow> bool" where
  "estate_wf es \<longleftrightarrow> distinct (map su_name (es_subs es))"

named_theorems estate_simps \<open>how the tables move\<close>

lemma find_sub_Some: "find_sub es n = Some s \<Longrightarrow> s \<in> set (es_subs es) \<and> su_name s = n"
  unfolding find_sub_def by (drule find_Some) simp

lemma find_sub_wf: "estate_wf es \<Longrightarrow> s \<in> set (es_subs es) \<Longrightarrow> find_sub es (su_name s) = Some s"
  unfolding find_sub_def estate_wf_def by (rule find_unique_key)

lemma put_sub_tables [simp, estate_simps]:
  "es_changes (put_sub s es) = es_changes es" "es_servers (put_sub s es) = es_servers es"
  "es_projects (put_sub s es) = es_projects es" "es_events (put_sub s es) = es_events es"
  "es_commands (put_sub s es) = es_commands es"
  by (simp_all add: put_sub_def)

lemma put_sub_names [simp]: "map su_name (es_subs (put_sub s es)) = map su_name (es_subs es)"
  by (simp add: put_sub_def)

lemma put_sub_wf [simp]: "estate_wf (put_sub s es) \<longleftrightarrow> estate_wf es"
  by (simp add: estate_wf_def)

lemma sub_event_tables [simp, estate_simps]:
  "es_subs (sub_event env s t es) = es_subs es" "es_changes (sub_event env s t es) = es_changes es"
  "es_servers (sub_event env s t es) = es_servers es" "es_projects (sub_event env s t es) = es_projects es"
  "es_commands (sub_event env s t es) = es_commands es"
  by (simp_all add: sub_event_def)

lemma record_change_event_tables [simp, estate_simps]:
  "es_subs (record_change_event env b s es) = es_subs es" "es_changes (record_change_event env b s es) = es_changes es"
  "es_servers (record_change_event env b s es) = es_servers es"
  "es_projects (record_change_event env b s es) = es_projects es"
  "es_commands (record_change_event env b s es) = es_commands es"
  by (simp_all add: record_change_event_def)

lemma append_change_Inr:
  "append_change c es = Inr es' \<longleftrightarrow> 0 \<le> rate_of_change c \<and> es' = es\<lparr>es_changes := es_changes es @ [c]\<rparr>"
  by (auto simp: append_change_def rate_of_change_def)

lemma record_change_Inr [simp]:
  "record_change env n t old new by_whom es = Inr (es\<lparr>es_changes := es_changes es @ [
     \<lparr>sc_subscription = n, sc_type = t, sc_old = old, sc_new = new, sc_rate = None, sc_currency = None,
      sc_at = se_now env, sc_by = or_else by_whom (session_user env)\<rparr>]\<rparr>)"
  by (simp add: record_change_def append_change_def)

text \<open>The change a save writes: none, or the one re-lock of the price.\<close>

definition relock_of ::
  "sub_env \<Rightarrow> (money option \<times> string option) option \<Rightarrow> string option \<Rightarrow> subscription \<Rightarrow> subscription \<Rightarrow> estate \<Rightarrow> sub_change" where
  "relock_of env override changed_by before s es =
     (let (rate, currency) = (case override of Some q \<Rightarrow> q | None \<Rightarrow> resolve_rate_snapshot env es s)
      in \<lparr>sc_subscription = su_name s, sc_type = ''Plan Changed'', sc_old = segment_label env before,
           sc_new = segment_label env s, sc_rate = rate, sc_currency = currency, sc_at = se_now env,
           sc_by = or_else changed_by (session_user env)\<rparr>)"

lemma log_plan_change_relock:
  "log_plan_change env override changed_by before s es = append_change (relock_of env override changed_by before s es) es"
  by (simp add: log_plan_change_def relock_of_def Let_def split: prod.split)

lemma resolve_rate_snapshot_servers:
  "es_servers es = es_servers es2 \<Longrightarrow> resolve_rate_snapshot env es s = resolve_rate_snapshot env es2 s"
  by (simp add: resolve_rate_snapshot_def server_of_def find_server_def)

lemma save_sub_Inr:
  assumes "save_sub env override changed_by s es = Inr es'"
  obtains before where "find_sub es (su_name s) = Some before" and "validate_sub env es (Some before) s = None"
    and "es_subs es' = es_subs (put_sub s es)" and "es_servers es' = es_servers es"
    and "es_projects es' = es_projects es" and "es_commands es' = es_commands es"
    and "es_changes es' = es_changes es @ (if billing_segment_changed before s
           then [relock_of env override changed_by before s es] else [])"
    and "billing_segment_changed before s \<Longrightarrow> 0 \<le> rate_of_change (relock_of env override changed_by before s es)"
proof -
  from assms obtain before where b: "find_sub es (su_name s) = Some before"
    and v: "validate_sub env es (Some before) s = None"
    by (auto simp: save_sub_def split: option.splits)
  have relock: "relock_of env override changed_by before s (put_sub s es) = relock_of env override changed_by before s es"
    using resolve_rate_snapshot_servers [of "put_sub s es" es env s] by (cases override) (simp_all add: relock_of_def)
  show thesis
  proof (cases "billing_segment_changed before s")
    case True
    with assms b v relock have "0 \<le> rate_of_change (relock_of env override changed_by before s es)"
      and "es' = record_change_event env before s ((put_sub s es)\<lparr>es_changes :=
             es_changes es @ [relock_of env override changed_by before s es]\<rparr>)"
      by (auto simp: save_sub_def log_plan_change_relock append_change_Inr bindE_Inr Let_def)
    then show thesis using True by (intro that [OF b v]) simp_all
  next
    case False
    with assms b v have "es' = record_change_event env before s (put_sub s es)"
      by (auto simp: save_sub_def Let_def)
    then show thesis using False by (intro that [OF b v]) simp_all
  qed
qed

section \<open>Open segments\<close>

lemma latest_of_None: "latest_of cs = None \<longleftrightarrow> cs = []"
  by (cases cs) (auto split: option.splits if_splits)

lemma latest_of_snoc:
  "\<forall>d \<in> set cs. sc_at d \<le> sc_at c \<Longrightarrow> latest_of (cs @ [c]) = Some c"
  by (induction cs) auto

lemma latest_of_mem: "latest_of cs = Some c \<Longrightarrow> c \<in> set cs"
  by (induction cs arbitrary: c) (auto split: option.splits if_splits)

lemma latest_segment_append_other:
  "es_changes es' = es_changes es @ cs \<Longrightarrow>
   \<forall>c \<in> set cs. sc_subscription c \<noteq> n \<or> sc_type c \<notin> set SEGMENT_CHANGE_TYPES \<Longrightarrow>
   latest_segment es' n = latest_segment es n"
  by (simp add: latest_segment_def filter_empty_conv)

lemma latest_segment_append_own:
  assumes "es_changes es' = es_changes es @ [c]" and "sc_subscription c = n" "sc_type c \<in> set SEGMENT_CHANGE_TYPES"
    and "\<forall>d \<in> set (es_changes es). sc_subscription d = n \<longrightarrow> sc_at d \<le> sc_at c"
  shows "latest_segment es' n = Some c"
  using assms by (auto simp: latest_segment_def intro!: latest_of_snoc)

lemma current_rate_segment:
  "current_segment_rate es n = (case latest_segment es n of None \<Rightarrow> 0 | Some c \<Rightarrow>
     if sc_type c = ''Cancelled'' then 0 else rate_of_change c)"
  by (rule current_segment_rate_def)

text \<open>The run rate as a sum over the enabled subscriptions of the team.\<close>

definition counted :: "string \<Rightarrow> string option \<Rightarrow> subscription \<Rightarrow> bool" where
  "counted team exclude s \<longleftrightarrow> su_team s = team \<and> su_enabled s \<and> Some (su_name s) \<noteq> exclude"

lemma sum_where_map_filter:
  assumes "\<And>x. x \<in> set xs \<Longrightarrow> (case f x of None \<Rightarrow> 0 | Some y \<Rightarrow> if Q y then g y else 0) = (if R x then h x else 0)"
  shows "sum_where Q g (List.map_filter f xs) = sum_where R h xs"
  using assms
proof (induction xs)
  case (Cons x xs)
  then have "sum_where Q g (List.map_filter f xs) = sum_where R h xs" by simp
  with Cons.prems [of x] show ?case by (cases "f x") (auto simp: map_filter_simps)
qed (simp add: map_filter_simps)

lemma sum_where_filter: "sum_where Q g (filter P xs) = sum_where (\<lambda>x. P x \<and> Q x) g xs"
  by (induction xs) auto

lemma sum_where_rev: "sum_where Q g (rev xs) = sum_where Q g xs"
  by (induction xs) auto

lemma sum_where_cong:
  "(\<And>x. x \<in> set xs \<Longrightarrow> (if P x then f x else 0) = (if Q x then g x else 0)) \<Longrightarrow> sum_where P f xs = sum_where Q g xs"
  by (induction xs) auto

lemma team_run_rate_sum:
  "team_run_rate es team exclude = sum_where (counted team exclude) (\<lambda>s. current_segment_rate es (su_name s)) (es_subs es)"
proof -
  have "team_run_rate es team exclude
      = sum_where (\<lambda>s. Some (su_name s) \<noteq> exclude) (\<lambda>s. current_segment_rate es (su_name s))
          (filter (\<lambda>s. su_team s = team \<and> su_enabled s) (rev (es_subs es)))"
    unfolding team_run_rate_def active_segments_def
    by (rule sum_where_map_filter) (auto simp: segment_of_sub_def current_segment_rate_def split: option.splits)
  also have "\<dots> = sum_where (counted team exclude) (\<lambda>s. current_segment_rate es (su_name s)) (es_subs es)"
    unfolding sum_where_filter sum_where_rev [symmetric, of _ _ "es_subs es"]
    by (rule sum_where_cong) (auto simp: counted_def)
  finally show ?thesis .
qed

lemma locked_team_run_rate_sum:
  "locked_team_run_rate es team exclude = sum_where (counted team exclude) (\<lambda>s. current_segment_rate es (su_name s)) (es_subs es)"
proof -
  let ?names = "map su_name (filter (\<lambda>s. su_team s = team \<and> su_enabled s) (es_subs es))"
  have "locked_team_run_rate es team exclude
      = sum_where (\<lambda>_. True) (current_segment_rate es) (filter (\<lambda>n. Some n \<noteq> exclude) ?names)"
    unfolding locked_team_run_rate_def Let_def
    by (rule sum_where_map_filter) (auto simp: current_segment_rate_def split: option.splits)
  also have "\<dots> = sum_where (\<lambda>n. Some n \<noteq> exclude) (current_segment_rate es) ?names"
    unfolding sum_where_filter by (rule sum_where_cong) auto
  also have "\<dots> = sum_where (\<lambda>s. Some (su_name s) \<noteq> exclude) (\<lambda>s. current_segment_rate es (su_name s))
      (filter (\<lambda>s. su_team s = team \<and> su_enabled s) (es_subs es))"
    by (simp add: sum_where_def filter_map comp_def)
  also have "\<dots> = sum_where (counted team exclude) (\<lambda>s. current_segment_rate es (su_name s)) (es_subs es)"
    unfolding sum_where_filter by (rule sum_where_cong) (auto simp: counted_def)
  finally show ?thesis .
qed

text \<open>The rate of one subscription against the rest.\<close>

lemma run_rate_split:
  assumes wf: "estate_wf es" and s: "s \<in> set (es_subs es)" "su_team s = team" "su_enabled s"
  shows "team_run_rate es team None = team_run_rate es team (Some (su_name s)) + current_segment_rate es (su_name s)"
proof -
  have "distinct (map su_name xs) \<Longrightarrow> s \<in> set xs \<Longrightarrow>
      sum_where (counted team None) r xs = sum_where (counted team (Some (su_name s))) r xs + r s" for r :: "subscription \<Rightarrow> rat" and xs
  proof (induction xs)
    case (Cons x xs)
    show ?case
    proof (cases "x = s")
      case True
      have "sum_where (counted team None) r xs = sum_where (counted team (Some (su_name s))) r xs"
        using Cons.prems(1) True by (intro sum_where_cong) (auto simp: counted_def image_iff)
      moreover have "counted team None s" "\<not> counted team (Some (su_name s)) s" using s(2,3) by (simp_all add: counted_def)
      ultimately show ?thesis using True by simp
    next
      case False
      with Cons.prems have "su_name x \<noteq> su_name s" "s \<in> set xs" by auto
      then have "counted team None x = counted team (Some (su_name s)) x" by (simp add: counted_def)
      with Cons \<open>s \<in> set xs\<close> show ?thesis by simp
    qed
  qed simp
  with wf s(1) show ?thesis unfolding team_run_rate_sum estate_wf_def by blast
qed


section \<open>Account standing\<close>

lemma standing_transition:
  assumes "transition env (sdoc_of_sub s) to_state reason actor None None None evs = Inr (doc, evs')"
    and "su_standing s \<noteq> to_state"
  shows "sd_fields doc ''account_standing'' = Some to_state
    \<and> allows SUBSCRIPTION_STANDING (Some (su_standing s)) to_state"
  using assms
  by (auto simp: transition_def sdoc_of_sub_def machine_for_own SUBSCRIPTION_STANDING_def bindE_Inr Let_def split: if_splits)

lemma standing_same_segment [simp]: "\<not> billing_segment_changed s (s\<lparr>su_standing := x\<rparr>)"
  by (simp add: billing_segment_changed_def same_quantities_def list_all_iff)

lemma standing_same_validation:
  "validate_sub env es (Some s) (s\<lparr>su_standing := x\<rparr>) = validate_sub env es (Some s) s"
proof -
  have dup: "duplicate_subscription es (s\<lparr>su_standing := x\<rparr>) = duplicate_subscription es s"
    "duplicate_service_subject es (s\<lparr>su_standing := x\<rparr>) = duplicate_service_subject es s"
    by (simp_all add: duplicate_subscription_def duplicate_service_subject_def)
  have proj: "validate_project env es (Some s) (s\<lparr>su_standing := x\<rparr>) = validate_project env es (Some s) s"
    by (cases "find_project es (the (su_project s))") (simp_all add: validate_project_def)
  show ?thesis unfolding validate_sub_def dup proj ..
qed

lemma events_same_validation:
  "validate_sub env (es\<lparr>es_events := evs\<rparr>) (Some s) s = validate_sub env es (Some s) s"
proof -
  have dup: "duplicate_subscription (es\<lparr>es_events := evs\<rparr>) s = duplicate_subscription es s"
    "duplicate_service_subject (es\<lparr>es_events := evs\<rparr>) s = duplicate_service_subject es s"
    by (simp_all add: duplicate_subscription_def duplicate_service_subject_def)
  have proj: "validate_project env (es\<lparr>es_events := evs\<rparr>) (Some s) s = validate_project env es (Some s) s"
    by (cases "find_project es (the (su_project s))") (simp_all add: validate_project_def find_project_def)
  show ?thesis unfolding validate_sub_def dup proj ..
qed

text \<open>A save that only moves the standing: refused exactly when the row itself no longer validates.\<close>

lemma set_standing_Inr:
  assumes run: "set_standing env n x by_whom reason es = Inr es'" and find: "find_sub es n = Some s"
    and new: "su_standing s \<noteq> x"
  shows "allows SUBSCRIPTION_STANDING (Some (su_standing s)) x"
    and "validate_sub env es (Some s) s = None"
    and "es_subs es' = es_subs (put_sub (s\<lparr>su_standing := x\<rparr>) es)"
    and "es_servers es' = es_servers es" and "es_projects es' = es_projects es" and "es_commands es' = es_commands es"
    and "\<exists>c. es_changes es' = es_changes es @ [c] \<and> sc_type c \<notin> set SEGMENT_CHANGE_TYPES"
proof -
  from run find new obtain doc evs es1 t where
    tr: "transition (se_ambient env) (sdoc_of_sub s) x reason by_whom None None None (es_events es) = Inr (doc, evs)"
    and save: "save_sub env None None (s\<lparr>su_standing := the (sd_fields doc ''account_standing'')\<rparr>) (es\<lparr>es_events := evs\<rparr>) = Inr es1"
    and t: "standing_change_type x = Some t"
    and rec: "record_change env n t (Some (su_standing s)) (Some x) by_whom es1 = Inr es'"
    by (auto simp: set_standing_def bindE_Inr split: option.splits)
  from standing_transition [OF tr new] have st: "sd_fields doc ''account_standing'' = Some x"
    and al: "allows SUBSCRIPTION_STANDING (Some (su_standing s)) x" by auto
  from save [unfolded st option.sel] obtain before where b: "find_sub (es\<lparr>es_events := evs\<rparr>) (su_name s) = Some before"
    and v: "validate_sub env (es\<lparr>es_events := evs\<rparr>) (Some before) (s\<lparr>su_standing := x\<rparr>) = None"
    and es1: "es_subs es1 = es_subs (put_sub (s\<lparr>su_standing := x\<rparr>) (es\<lparr>es_events := evs\<rparr>))"
      "es_servers es1 = es_servers es" "es_projects es1 = es_projects es" "es_commands es1 = es_commands es"
      "es_changes es1 = es_changes es @ (if billing_segment_changed before (s\<lparr>su_standing := x\<rparr>)
         then [relock_of env None None before (s\<lparr>su_standing := x\<rparr>) (es\<lparr>es_events := evs\<rparr>)] else [])"
    by (elim save_sub_Inr) simp
  have "before = s" using b find find_sub_Some [OF find] by (simp add: find_sub_def)
  show "validate_sub env es (Some s) s = None"
    using v by (simp only: \<open>before = s\<close> standing_same_validation events_same_validation)
  show "allows SUBSCRIPTION_STANDING (Some (su_standing s)) x" by (rule al)
  show "es_subs es' = es_subs (put_sub (s\<lparr>su_standing := x\<rparr>) es)"
    using rec es1(1) by (auto simp: put_sub_def)
  show "es_servers es' = es_servers es" "es_projects es' = es_projects es" "es_commands es' = es_commands es"
    using rec es1(2-4) by auto
  have "t \<in> {''Past Due'', ''Suspended'', ''Reactivated''}"
    using t by (auto simp: standing_change_type_def split: if_splits)
  then show "\<exists>c. es_changes es' = es_changes es @ [c] \<and> sc_type c \<notin> set SEGMENT_CHANGE_TYPES"
    using rec es1(5) \<open>before = s\<close> by (auto simp: SEGMENT_CHANGE_TYPES_def)
qed

text \<open>A subscription whose row no longer validates cannot be moved by anyone.\<close>

lemma set_standing_refused:
  assumes find: "find_sub es n = Some s" and new: "su_standing s \<noteq> x"
    and bad: "validate_sub env es (Some s) s = Some e"
  shows "\<exists>err. set_standing env n x by_whom reason es = Inl err \<and> err \<in> {InvalidTransition, e}"
proof (cases "set_standing env n x by_whom reason es")
  case (Inr es')
  with set_standing_Inr(2) [OF Inr find new] bad show ?thesis by simp
next
  case (Inl err)
  note name = find_sub_Some [OF find]
  show ?thesis
  proof (cases "allows SUBSCRIPTION_STANDING (Some (su_standing s)) x")
    case False
    with Inl find new show ?thesis
      by (auto simp: set_standing_def transition_def sdoc_of_sub_def machine_for_own SUBSCRIPTION_STANDING_def Let_def)
  next
    case True
    have same: "validate_sub env (es\<lparr>es_events := evs\<rparr>) (Some s) (s\<lparr>su_standing := x\<rparr>) = Some e" for evs
      using bad by (simp only: standing_same_validation events_same_validation)
    have found: "find_sub (es\<lparr>es_events := evs\<rparr>) n = Some s" for evs using find by (simp add: find_sub_def)
    from True Inl find new name same found show ?thesis
      by (auto simp: set_standing_def transition_def sdoc_of_sub_def machine_for_own SUBSCRIPTION_STANDING_def Let_def
          save_sub_def)
  qed
qed

end
