(* ===== verification/Standing_Properties.thy ===== *)
theory Standing_Properties
  imports Subscription_Facts
begin

text \<open>
  A whole team's standing: what suspending it for an unpaid invoice and restoring it after payment
  do to every subscription and server of the team, and when a subscription escapes both.
\<close>

definition stop_commands :: "sub_env \<Rightarrow> estate \<Rightarrow> string \<Rightarrow> subscription \<Rightarrow> (string \<times> string) list" where
  "stop_commands env es action s = (case server_of es (su_server s) of
     None \<Rightarrow> []
   | Some v \<Rightarrow> if sv_status v \<in> set (action_from action) \<and> se_command_accepted env action (sv_name v)
       then [(action, sv_name v)] else [])"

lemma stop_commands_server:
  "(a, v) \<in> set (stop_commands env es action s) \<Longrightarrow> a = action \<and> su_server s = Some v"
  by (cases "su_server s")
    (auto simp: stop_commands_def server_of_def find_server_def dest!: find_Some [OF sym] find_Some
      split: option.splits if_splits)

lemma stop_commands_cong: "es_servers es = es_servers es2 \<Longrightarrow> stop_commands env es a s = stop_commands env es2 a s"
  by (cases "su_server s") (simp_all add: stop_commands_def server_of_def find_server_def)

lemma queue_power_commands:
  "queue_power_for_billing env s action es =
     (stop_commands env es action s \<noteq> [], es\<lparr>es_commands := es_commands es @ stop_commands env es action s\<rparr>)"
  by (auto simp: queue_power_for_billing_def stop_commands_def split: option.splits)

section \<open>One subscription\<close>

definition suspended :: "sub_env \<Rightarrow> estate \<Rightarrow> subscription \<Rightarrow> subscription" where
  "suspended env es s = s\<lparr>su_standing := ''Suspended'',
     su_stopped_for_nonpayment := su_stopped_for_nonpayment s \<or> stop_commands env es ''stop'' s \<noteq> []\<rparr>"

definition restored :: "subscription \<Rightarrow> subscription" where
  "restored s = s\<lparr>su_standing := ''Current'', su_stopped_for_nonpayment := False\<rparr>"

definition swap_sub :: "subscription \<Rightarrow> subscription list \<Rightarrow> subscription list" where
  "swap_sub s' xs = map (\<lambda>x. if su_name x = su_name s' then s' else x) xs"

lemma put_sub_swap: "es_subs (put_sub s es) = swap_sub s (es_subs es)"
  by (simp add: put_sub_def swap_sub_def)

lemma swap_sub_twice: "su_name a = su_name b \<Longrightarrow> swap_sub b (swap_sub a xs) = swap_sub b xs"
  by (simp add: swap_sub_def)

lemma flag_swap:
  "su_name s' = n \<Longrightarrow> map (\<lambda>x. if su_name x = n then x\<lparr>su_stopped_for_nonpayment := b\<rparr> else x) (swap_sub s' xs)
     = swap_sub (s'\<lparr>su_stopped_for_nonpayment := b\<rparr>) xs"
  by (simp add: swap_sub_def)

lemma find_sub_swap:
  assumes "estate_wf es" "s \<in> set (es_subs es)" "es_subs es' = swap_sub s' (es_subs es)" "su_name s' = su_name s"
  shows "find_sub es' (su_name s) = Some s'"
proof -
  have wf: "estate_wf es'" using assms(1,3) by (simp add: estate_wf_def swap_sub_def comp_def if_distrib cong: if_cong)
  have "s' \<in> set (es_subs es')" using assms(2-4) by (force simp: swap_sub_def)
  from find_sub_wf [OF wf this] show ?thesis using assms(4) by simp
qed

lemma suspend_one_effect:
  assumes wf: "estate_wf es" and s: "s \<in> set (es_subs es)" and st: "su_standing s \<noteq> ''Suspended''"
    and run: "suspend_one env s es = Inr (r, es')"
  shows "r = None \<and> es' = es
    \<or> r = Some (su_name s) \<and> es_subs es' = swap_sub (suspended env es s) (es_subs es)
      \<and> es_servers es' = es_servers es \<and> es_projects es' = es_projects es
      \<and> es_commands es' = es_commands es @ stop_commands env es ''stop'' s"
proof -
  let ?m = "bindE (if su_standing s = ''Current'' then set_standing env (su_name s) ''Past Due'' (Some ''dunning'') None es
                  else Inr es) (set_standing env (su_name s) ''Suspended'' (Some ''dunning'') (Some ''unpaid invoice''))"
  have find: "find_sub es (su_name s) = Some s" by (rule find_sub_wf [OF wf s])
  show ?thesis
  proof (cases ?m)
    case (Inl e)
    with run show ?thesis by (simp add: suspend_one_def split: if_splits)
  next
    case (Inr es2)
    obtain es1 s1 where es1: "es_subs es1 = swap_sub s1 (es_subs es)" "s1 = s\<lparr>su_standing := su_standing s1\<rparr>"
      "su_standing s1 \<noteq> ''Suspended''" "es_servers es1 = es_servers es" "es_projects es1 = es_projects es"
      "es_commands es1 = es_commands es"
      and two: "set_standing env (su_name s) ''Suspended'' (Some ''dunning'') (Some ''unpaid invoice'') es1 = Inr es2"
    proof (cases "su_standing s = ''Current''")
      case True
      with Inr obtain es1 where one: "set_standing env (su_name s) ''Past Due'' (Some ''dunning'') None es = Inr es1"
        and two: "set_standing env (su_name s) ''Suspended'' (Some ''dunning'') (Some ''unpaid invoice'') es1 = Inr es2"
        by (auto simp: bindE_Inr)
      have "su_standing s \<noteq> ''Past Due''" using True by simp
      note eff1 = set_standing_Inr [OF one find this]
      show ?thesis
        by (rule that [of es1 "s\<lparr>su_standing := ''Past Due''\<rparr>", OF _ _ _ _ _ _ two])
          (simp_all add: eff1(3-6) put_sub_swap)
    next
      case False
      have "swap_sub s (es_subs es) = es_subs es"
        using wf s unfolding swap_sub_def estate_wf_def by (intro map_idI) (metis distinct_map inj_onD)
      with False Inr st show ?thesis by (intro that [of es s]) simp_all
    qed
    have name1: "su_name s1 = su_name s" by (subst es1(2)) simp
    have find1: "find_sub es1 (su_name s) = Some s1" by (rule find_sub_swap [OF wf s es1(1) name1])
    note eff = set_standing_Inr [OF two find1 es1(3)]
    have sus: "s1\<lparr>su_standing := ''Suspended''\<rparr> = s\<lparr>su_standing := ''Suspended''\<rparr>" by (subst es1(2)) simp
    have subs2: "es_subs es2 = swap_sub (s\<lparr>su_standing := ''Suspended''\<rparr>) (es_subs es)"
      using eff(3) name1 unfolding sus put_sub_swap es1(1) by (simp add: swap_sub_twice)
    have cmds: "stop_commands env es2 ''stop'' s = stop_commands env es ''stop'' s"
      by (rule stop_commands_cong) (simp add: eff(4) es1(4))
    let ?es3 = "es2\<lparr>es_commands := es_commands es2 @ stop_commands env es ''stop'' s\<rparr>"
    have "r = Some (su_name s) \<and> es' = (if stop_commands env es ''stop'' s \<noteq> [] then flag_stopped (su_name s) True ?es3 else ?es3)"
      using run Inr by (simp add: suspend_one_def queue_power_commands cmds)
    moreover have "map (\<lambda>x. if su_name x = su_name s then x\<lparr>su_stopped_for_nonpayment := True\<rparr> else x) (es_subs es2)
        = swap_sub (s\<lparr>su_standing := ''Suspended'', su_stopped_for_nonpayment := True\<rparr>) (es_subs es)"
      unfolding subs2 by (subst flag_swap) simp_all
    ultimately show ?thesis
      using subs2 eff(4-6) es1(4-6) by (auto simp: flag_stopped_def suspended_def)
  qed
qed

lemma restore_one_effect:
  assumes wf: "estate_wf es" and s: "s \<in> set (es_subs es)" and st: "su_standing s \<noteq> ''Current''"
    and run: "restore_one env s es = Inr es'"
  shows "es_subs es' = swap_sub (restored s) (es_subs es)
    \<and> es_servers es' = es_servers es \<and> es_projects es' = es_projects es
    \<and> es_commands es' = es_commands es @ (if su_stopped_for_nonpayment s then stop_commands env es ''start'' s else [])"
proof -
  have find: "find_sub es (su_name s) = Some s" by (rule find_sub_wf [OF wf s])
  from run obtain es1 where one: "set_standing env (su_name s) ''Current'' (Some ''payment'') (Some ''invoice settled'') es = Inr es1"
    and es': "es' = (if su_stopped_for_nonpayment s
            then snd (queue_power_for_billing env s ''start'' (flag_stopped (su_name s) False es1)) else es1)"
    by (auto simp: restore_one_def bindE_Inr)
  note eff = set_standing_Inr [OF one find st]
  have cmds: "stop_commands env (flag_stopped (su_name s) False es1) ''start'' s = stop_commands env es ''start'' s"
    by (rule stop_commands_cong) (simp add: flag_stopped_def eff(4))
  have flag: "es_subs (flag_stopped (su_name s) False es1) = swap_sub (restored s) (es_subs es)"
    unfolding flag_stopped_def using eff(3) by (simp add: put_sub_swap flag_swap restored_def)
  show ?thesis
  proof (cases "su_stopped_for_nonpayment s")
    case True
    with es' cmds flag eff(4-6) show ?thesis by (simp add: queue_power_commands) (simp add: flag_stopped_def)
  next
    case False
    then have "s\<lparr>su_standing := ''Current''\<rparr> = restored s" by (cases s) (simp add: restored_def)
    with False es' eff(3-6) show ?thesis by (simp add: put_sub_swap)
  qed
qed


section \<open>A team\<close>

text \<open>
  The rows of a team that a loop reads are the rows of the table when their turn comes, because
  each turn rewrites its own row only. \<open>swap_all\<close> is the table after a list of rewritten rows.
\<close>

definition swap_all :: "(subscription \<Rightarrow> subscription) \<Rightarrow> subscription list \<Rightarrow> subscription list \<Rightarrow> subscription list" where
  "swap_all f changed xs = map (\<lambda>x. if x \<in> set changed then f x else x) xs"

lemma distinct_swap: "su_name s' = su_name s \<Longrightarrow> map su_name (swap_sub s' xs) = map su_name xs"
  by (induction xs) (auto simp: swap_sub_def)

lemma swap_sub_own:
  assumes "distinct (map su_name xs)" "s \<in> set xs" "su_name s' = su_name s"
  shows "swap_sub s' xs = map (\<lambda>x. if x = s then s' else x) xs"
  unfolding swap_sub_def using assms
  by (intro map_cong refl) (auto dest: inj_onD simp: distinct_map)

lemma swap_step:
  assumes wf: "estate_wf es" and s: "s \<in> set (es_subs es)" and name: "su_name s' = su_name s"
    and subs: "es_subs es1 = swap_sub s' (es_subs es)"
  shows "estate_wf es1" and "\<And>x. x \<in> set (es_subs es) \<Longrightarrow> x \<noteq> s \<Longrightarrow> x \<in> set (es_subs es1)"
    and "s' = f s \<Longrightarrow> s \<notin> set xs \<Longrightarrow> s' \<notin> set xs \<Longrightarrow>
      swap_all f xs (es_subs es1) = swap_all f (s # xs) (es_subs es)"
proof -
  from wf have d: "distinct (map su_name (es_subs es))" by (simp add: estate_wf_def)
  note own = swap_sub_own [OF d s name]
  show "estate_wf es1" using d name by (simp add: estate_wf_def subs distinct_swap)
  show "x \<in> set (es_subs es) \<Longrightarrow> x \<noteq> s \<Longrightarrow> x \<in> set (es_subs es1)" for x
    unfolding subs own by force
  show "s' = f s \<Longrightarrow> s \<notin> set xs \<Longrightarrow> s' \<notin> set xs \<Longrightarrow>
      swap_all f xs (es_subs es1) = swap_all f (s # xs) (es_subs es)"
    unfolding subs own swap_all_def by auto
qed

lemma names_apart:
  assumes "distinct (map su_name (s # ss))" and "su_name s' = su_name s" and "x \<in> set ss"
  shows "x \<noteq> s'" and "x \<noteq> s"
proof -
  have "su_name x \<noteq> su_name s" using assms(1,3) by (metis distinct.simps(2) image_eqI image_set list.simps(9))
  then show "x \<noteq> s'" "x \<noteq> s" using assms(2) by auto
qed

lemma restore_each_effect:
  assumes "estate_wf es" "distinct (map su_name subs)" "set subs \<subseteq> set (es_subs es)"
    and "\<forall>s \<in> set subs. su_standing s \<noteq> ''Current''" and "restore_each env subs es = Inr (names, es')"
  shows "names = map su_name subs \<and> es_subs es' = swap_all restored subs (es_subs es)
    \<and> es_servers es' = es_servers es
    \<and> es_commands es' = es_commands es
        @ concat (map (stop_commands env es ''start'') (filter su_stopped_for_nonpayment subs))"
  using assms
proof (induction subs arbitrary: es names)
  case Nil
  then show ?case by (simp add: swap_all_def)
next
  case (Cons s subs)
  from Cons.prems(5) obtain es1 names1 where one: "restore_one env s es = Inr es1"
    and rest: "restore_each env subs es1 = Inr (names1, es')" and names: "names = su_name s # names1"
    by (auto simp: bindE_Inr)
  from Cons.prems have s: "s \<in> set (es_subs es)" and st: "su_standing s \<noteq> ''Current''" by auto
  from restore_one_effect [OF Cons.prems(1) s st one]
  have subs1: "es_subs es1 = swap_sub (restored s) (es_subs es)" and servers: "es_servers es1 = es_servers es"
    and cmds: "es_commands es1 = es_commands es @ (if su_stopped_for_nonpayment s then stop_commands env es ''start'' s else [])"
    by auto
  have name: "su_name (restored s) = su_name s" by (simp add: restored_def)
  note step = swap_step [OF Cons.prems(1) s name subs1]
  note apart = names_apart [OF Cons.prems(2) name]
  have sub: "set subs \<subseteq> set (es_subs es1)" using Cons.prems(3) step(2) apart(2) by auto
  from Cons.IH [OF step(1) _ sub _ rest] Cons.prems(2,4)
  have IH: "names1 = map su_name subs" "es_subs es' = swap_all restored subs (es_subs es1)" "es_servers es' = es_servers es1"
    "es_commands es' = es_commands es1
       @ concat (map (stop_commands env es1 ''start'') (filter su_stopped_for_nonpayment subs))" by auto
  have "stop_commands env es1 ''start'' = stop_commands env es ''start''"
    by (rule ext) (rule stop_commands_cong [OF servers])
  moreover have "swap_all restored subs (es_subs es1) = swap_all restored (s # subs) (es_subs es)"
    using apart by (intro step(3)) auto
  ultimately show ?case using IH names servers cmds by simp
qed

lemma suspend_each_effect:
  assumes "estate_wf es" "distinct (map su_name subs)" "set subs \<subseteq> set (es_subs es)"
    and "\<forall>s \<in> set subs. su_standing s \<noteq> ''Suspended''" and "suspend_each env subs es = Inr (names, es')"
  shows "\<exists>moved. set moved \<subseteq> set subs \<and> names = map su_name moved
    \<and> es_subs es' = swap_all (suspended env es) moved (es_subs es)
    \<and> es_servers es' = es_servers es
    \<and> es_commands es' = es_commands es @ concat (map (stop_commands env es ''stop'') moved)"
  using assms
proof (induction subs arbitrary: es names)
  case Nil
  then show ?case by (simp add: swap_all_def)
next
  case (Cons s subs)
  from Cons.prems(5) obtain r es1 names1 where one: "suspend_one env s es = Inr (r, es1)"
    and rest: "suspend_each env subs es1 = Inr (names1, es')"
    and names: "names = (case r of None \<Rightarrow> names1 | Some n \<Rightarrow> n # names1)"
    by (auto simp: bindE_Inr)
  from Cons.prems have s: "s \<in> set (es_subs es)" and st: "su_standing s \<noteq> ''Suspended''" by auto
  from suspend_one_effect [OF Cons.prems(1) s st one] show ?case
  proof (elim disjE conjE)
    assume r: "r = None" and es1: "es1 = es"
    from Cons.IH [OF Cons.prems(1) _ _ _ rest [unfolded es1]] Cons.prems(2-4) names r
    show ?thesis by auto
  next
    assume r: "r = Some (su_name s)" and subs1: "es_subs es1 = swap_sub (suspended env es s) (es_subs es)"
      and servers: "es_servers es1 = es_servers es"
      and cmds: "es_commands es1 = es_commands es @ stop_commands env es ''stop'' s"
    have name: "su_name (suspended env es s) = su_name s" by (simp add: suspended_def)
    note step = swap_step [OF Cons.prems(1) s name subs1]
    note apart = names_apart [OF Cons.prems(2) name]
    have sub: "set subs \<subseteq> set (es_subs es1)" using Cons.prems(3) step(2) apart(2) by auto
    from Cons.IH [OF step(1) _ sub _ rest] Cons.prems(2,4)
    obtain moved where IH: "set moved \<subseteq> set subs" "names1 = map su_name moved"
      "es_subs es' = swap_all (suspended env es1) moved (es_subs es1)" "es_servers es' = es_servers es1"
      "es_commands es' = es_commands es1 @ concat (map (stop_commands env es1 ''stop'') moved)" by auto
    have same: "stop_commands env es1 ''stop'' = stop_commands env es ''stop''"
      by (rule ext) (rule stop_commands_cong [OF servers])
    have same2: "suspended env es1 = suspended env es" by (rule ext) (simp add: suspended_def same)
    have "swap_all (suspended env es) moved (es_subs es1) = swap_all (suspended env es) (s # moved) (es_subs es)"
      using apart IH(1) by (intro step(3)) auto
    then show ?thesis
      using IH names r servers cmds same same2 by (intro exI [of _ "s # moved"]) auto
  qed
qed


definition standings_valid :: "estate \<Rightarrow> bool" where
  "standings_valid es \<longleftrightarrow> (\<forall>s \<in> set (es_subs es). su_standing s \<in> {''Current'', ''Past Due'', ''Suspended''})"

lemma distinct_rev_filter:
  assumes "estate_wf es"
  shows "distinct (map su_name (filter P (rev (es_subs es))))"
proof -
  have "distinct (map su_name (rev (es_subs es)))" using assms by (simp add: estate_wf_def flip: rev_map)
  then show ?thesis by (rule distinct_map_filter)
qed

lemma suspend_for_nonpayment_effect:
  assumes "estate_wf es" and "suspend_for_nonpayment env team es = Inr (names, es')"
  obtains moved where "\<forall>s \<in> set moved. s \<in> set (es_subs es) \<and> su_team s = team \<and> su_standing s \<noteq> ''Suspended''"
    and "names = map su_name moved" and "es_subs es' = swap_all (suspended env es) moved (es_subs es)"
    and "es_commands es' = es_commands es @ concat (map (stop_commands env es ''stop'') moved)"
proof -
  let ?subs = "filter (\<lambda>s. su_team s = team \<and> su_standing s \<noteq> ''Suspended'') (rev (es_subs es))"
  have "distinct (map su_name ?subs)" by (rule distinct_rev_filter [OF assms(1)])
  moreover have "set ?subs \<subseteq> set (es_subs es)" and standing: "\<forall>s \<in> set ?subs. su_standing s \<noteq> ''Suspended''" by simp_all
  ultimately have "\<exists>moved. set moved \<subseteq> set ?subs \<and> names = map su_name moved
    \<and> es_subs es' = swap_all (suspended env es) moved (es_subs es) \<and> es_servers es' = es_servers es
    \<and> es_commands es' = es_commands es @ concat (map (stop_commands env es ''stop'') moved)"
    using assms(2) unfolding suspend_for_nonpayment_def by (intro suspend_each_effect [OF assms(1)])
  then obtain moved where m: "set moved \<subseteq> set ?subs" "names = map su_name moved"
    "es_subs es' = swap_all (suspended env es) moved (es_subs es)"
    "es_commands es' = es_commands es @ concat (map (stop_commands env es ''stop'') moved)" by (elim exE conjE)
  from m(1) have "\<forall>s \<in> set moved. s \<in> set (es_subs es) \<and> su_team s = team \<and> su_standing s \<noteq> ''Suspended''"
    unfolding set_filter set_rev by blast
  then show thesis by (rule that [OF _ m(2-4)])
qed

lemma restore_after_payment_effect:
  assumes "estate_wf es" and "restore_after_payment env team es = Inr (names, es')"
  defines "due \<equiv> filter (\<lambda>s. su_team s = team \<and> su_standing s \<in> {''Past Due'', ''Suspended''}) (rev (es_subs es))"
  shows "es_subs es' = swap_all restored due (es_subs es) \<and> names = map su_name due
    \<and> es_commands es' = es_commands es
        @ concat (map (stop_commands env es ''start'') (filter su_stopped_for_nonpayment due))"
proof -
  have "distinct (map su_name due)" unfolding due_def by (rule distinct_rev_filter [OF assms(1)])
  moreover have "restore_each env due es = Inr (names, es')"
    using assms(2) unfolding restore_after_payment_def due_def .
  moreover have "set due \<subseteq> set (es_subs es)" and "\<forall>s \<in> set due. su_standing s \<noteq> ''Current''" by (auto simp: due_def)
  ultimately have "names = map su_name due \<and> es_subs es' = swap_all restored due (es_subs es) \<and> es_servers es' = es_servers es
    \<and> es_commands es' = es_commands es
        @ concat (map (stop_commands env es ''start'') (filter su_stopped_for_nonpayment due))"
    by (intro restore_each_effect [OF assms(1)])
  then show ?thesis by (elim conjE) (intro conjI)
qed

text \<open>
  Property C11: dunning and payment give back what they took. After a team is suspended for an
  unpaid invoice and later restored by the payment, whatever the region did to its servers in between,
  every subscription of the team is Current with no stop flag, every server that is started is one
  dunning itself had stopped (a server the customer stopped stays stopped), and no other team's
  subscription has moved.
\<close>

theorem nonpayment_round_trip:
  assumes wf: "estate_wf es" and valid: "standings_valid es"
    and clean: "\<forall>s \<in> set (es_subs es). su_team s = team \<longrightarrow> \<not> su_stopped_for_nonpayment s"
    and suspend: "suspend_for_nonpayment env team es = Inr (names1, es1)"
    and later: "es_subs es2 = es_subs es1"
    and restore: "restore_after_payment env2 team es2 = Inr (names2, es3)"
  shows "(\<forall>s \<in> set (es_subs es3). su_team s = team \<longrightarrow> su_standing s = ''Current'' \<and> \<not> su_stopped_for_nonpayment s)
    \<and> (\<forall>a v. (a, v) \<in> set (drop (length (es_commands es2)) (es_commands es3)) \<longrightarrow>
         a = ''start'' \<and> (''stop'', v) \<in> set (drop (length (es_commands es)) (es_commands es1)))
    \<and> filter (\<lambda>s. su_team s \<noteq> team) (es_subs es3) = filter (\<lambda>s. su_team s \<noteq> team) (es_subs es)"
proof -
  obtain moved where moved: "\<forall>s \<in> set moved. s \<in> set (es_subs es) \<and> su_team s = team \<and> su_standing s \<noteq> ''Suspended''"
    and subs1: "es_subs es1 = swap_all (suspended env es) moved (es_subs es)"
    and cmds1: "es_commands es1 = es_commands es @ concat (map (stop_commands env es ''stop'') moved)"
    by (rule suspend_for_nonpayment_effect [OF wf suspend]) blast
  have names: "map su_name (swap_all (suspended env es) moved (es_subs es)) = map su_name (es_subs es)"
    by (simp add: swap_all_def suspended_def)
  have wf2: "estate_wf es2" using wf names by (simp add: estate_wf_def later subs1)
  let ?due = "filter (\<lambda>s. su_team s = team \<and> su_standing s \<in> {''Past Due'', ''Suspended''}) (rev (es_subs es2))"
  from restore_after_payment_effect [OF wf2 restore]
  have subs3: "es_subs es3 = swap_all restored ?due (es_subs es2)"
    and cmds3: "es_commands es3 = es_commands es2
       @ concat (map (stop_commands env2 es2 ''start'') (filter su_stopped_for_nonpayment ?due))" by auto
  have mid: "\<exists>s \<in> set (es_subs es). x = (if s \<in> set moved then suspended env es s else s)" if "x \<in> set (es_subs es2)" for x
    using that by (auto simp: later subs1 swap_all_def)
  have one: "su_standing s = ''Current'' \<and> \<not> su_stopped_for_nonpayment s" if "s \<in> set (es_subs es3)" "su_team s = team" for s
  proof -
    from that(1) obtain x where x: "x \<in> set (es_subs es2)" "s = (if x \<in> set ?due then restored x else x)"
      by (auto simp: subs3 swap_all_def)
    show ?thesis
    proof (cases "x \<in> set ?due")
      case True
      with x show ?thesis by (simp add: restored_def)
    next
      case False
      with x that(2) have sx: "s = x" "su_standing x \<notin> {''Past Due'', ''Suspended''}" by auto
      from mid [OF x(1)] obtain y where y: "y \<in> set (es_subs es)" "x = (if y \<in> set moved then suspended env es y else y)" by blast
      with sx(2) have "y \<notin> set moved" by (auto simp: suspended_def)
      with y sx that(2) valid clean show ?thesis by (auto simp: standings_valid_def)
    qed
  qed
  have two: "a = ''start'' \<and> (''stop'', v) \<in> set (drop (length (es_commands es)) (es_commands es1))"
    if "(a, v) \<in> set (drop (length (es_commands es2)) (es_commands es3))" for a v
  proof -
    from that obtain x where x: "x \<in> set (es_subs es2)" "su_team x = team" "su_stopped_for_nonpayment x"
      "(a, v) \<in> set (stop_commands env2 es2 ''start'' x)" by (auto simp: cmds3)
    from stop_commands_server [OF x(4)] have av: "a = ''start''" "su_server x = Some v" by auto
    from mid [OF x(1)] obtain y where y: "y \<in> set (es_subs es)" "x = (if y \<in> set moved then suspended env es y else y)" by blast
    have team: "su_team y = team" using x(2) y(2) by (simp add: suspended_def split: if_splits)
    with x(3) y clean have m: "y \<in> set moved" and ne: "stop_commands env es ''stop'' y \<noteq> []"
      by (auto simp: suspended_def split: if_splits)
    from ne obtain a' v' where c: "(a', v') \<in> set (stop_commands env es ''stop'' y)" by (cases "stop_commands env es ''stop'' y") auto
    from stop_commands_server [OF c] av(2) y(2) m have "a' = ''stop''" "v' = v" by (auto simp: suspended_def)
    with c m have "(''stop'', v) \<in> set (concat (map (stop_commands env es ''stop'') moved))" by auto
    with av(1) cmds1 show ?thesis by simp
  qed
  have "filter (\<lambda>s. su_team s \<noteq> team) (swap_all f ch xs) = filter (\<lambda>s. su_team s \<noteq> team) xs"
    if "\<And>s. s \<in> set ch \<Longrightarrow> su_team s = team \<and> su_team (f s) = team" for f ch xs
    using that by (induction xs) (auto simp: swap_all_def)
  note others = this
  have "filter (\<lambda>s. su_team s \<noteq> team) (es_subs es3) = filter (\<lambda>s. su_team s \<noteq> team) (es_subs es2)"
    unfolding subs3 by (rule others) (simp add: restored_def)
  also have "\<dots> = filter (\<lambda>s. su_team s \<noteq> team) (es_subs es)"
    unfolding later subs1 by (rule others) (use moved in \<open>simp add: suspended_def\<close>)
  finally have rest: "filter (\<lambda>s. su_team s \<noteq> team) (es_subs es3) = filter (\<lambda>s. su_team s \<noteq> team) (es_subs es)" .
  show ?thesis
    by (rule conjI, intro ballI impI, rule one, assumption+, rule conjI, intro allI impI, rule two, assumption, rule rest)
qed


section \<open>A disabled project\<close>

text \<open>
  Every save of a subscription checks its project again, a standing change too. A subscription left in
  a project that was disabled after it was tagged is therefore skipped by the suspension of its team, and
  the restore of its team after payment raises.
\<close>

definition in_disabled_project :: "estate \<Rightarrow> subscription \<Rightarrow> bool" where
  "in_disabled_project es s \<longleftrightarrow> truthy (su_project s)
     \<and> (\<exists>p. find_project es (the (su_project s)) = Some p \<and> pj_team p = su_team s \<and> \<not> pj_enabled p)"

lemma disabled_project_invalid:
  assumes "in_disabled_project es s" and "\<not> duplicate_subscription es s" and "\<not> duplicate_service_subject es s"
  shows "validate_sub env es before s = Some (ValidationError ''Project is disabled'')"
proof -
  from assms(1) obtain p where "find_project es (the (su_project s)) = Some p" "pj_team p = su_team s" "\<not> pj_enabled p"
    "truthy (su_project s)" by (auto simp: in_disabled_project_def)
  with assms(2,3) show ?thesis by (simp add: validate_sub_def validate_project_def)
qed

lemma suspend_one_skips:
  assumes wf: "estate_wf es" and s: "s \<in> set (es_subs es)" and st: "su_standing s \<noteq> ''Suspended''"
    and bad: "validate_sub env es (Some s) s = Some (ValidationError why)"
  shows "suspend_one env s es = Inr (None, es)"
proof -
  have find: "find_sub es (su_name s) = Some s" by (rule find_sub_wf [OF wf s])
  let ?first = "if su_standing s = ''Current'' then ''Past Due'' else ''Suspended''"
  have ne: "su_standing s \<noteq> ?first" using st by simp
  have "\<exists>err. bindE (if su_standing s = ''Current'' then set_standing env (su_name s) ''Past Due'' (Some ''dunning'') None es
                  else Inr es) (set_standing env (su_name s) ''Suspended'' (Some ''dunning'') (Some ''unpaid invoice'')) = Inl err
      \<and> err \<in> {InvalidTransition, ValidationError why}"
    using set_standing_refused [OF find ne bad, of "Some ''dunning''" "if su_standing s = ''Current'' then None else Some ''unpaid invoice''"]
    by (cases "su_standing s = ''Current''") auto
  then show ?thesis by (auto simp: suspend_one_def is_validation_error_def)
qed

definition stuck :: "estate \<Rightarrow> subscription \<Rightarrow> bool" where
  "stuck es s \<longleftrightarrow> estate_wf es \<and> s \<in> set (es_subs es) \<and> in_disabled_project es s
     \<and> \<not> duplicate_subscription es s \<and> \<not> duplicate_service_subject es s"

lemma stuck_step:
  assumes stuck: "stuck es s" and x: "x \<in> set (es_subs es)" "x \<noteq> s"
    and subs: "es_subs es1 = swap_sub x' (es_subs es)" and projects: "es_projects es1 = es_projects es"
    and same: "su_name x' = su_name x" "su_team x' = su_team x" "su_server x' = su_server x"
      "su_subject x' = su_subject x" "su_enabled x' = su_enabled x"
  shows "stuck es1 s"
proof -
  from stuck have wf: "estate_wf es" and s: "s \<in> set (es_subs es)" by (simp_all add: stuck_def)
  note step = swap_step [OF wf x(1) same(1) subs]
  have own: "es_subs es1 = map (\<lambda>y. if y = x then x' else y) (es_subs es)"
    using swap_sub_own [OF _ x(1) same(1)] wf by (simp add: subs estate_wf_def)
  have old: "\<exists>y \<in> set (es_subs es). su_name y = su_name z \<and> su_team y = su_team z \<and> su_server y = su_server z
      \<and> su_subject y = su_subject z \<and> su_enabled y = su_enabled z" if "z \<in> set (es_subs es1)" for z
  proof -
    from that obtain y where "y \<in> set (es_subs es)" "z = (if y = x then x' else y)" by (auto simp: own)
    then show ?thesis using same by (intro bexI [of _ y]) auto
  qed
  have "\<not> duplicate_subscription es1 s"
  proof
    assume "duplicate_subscription es1 s"
    then obtain z where z: "z \<in> set (es_subs es1)" "su_name z \<noteq> su_name s" "su_team z = su_team s"
      "su_server z = su_server s" "su_enabled z" and own: "su_enabled s" "su_team s \<noteq> []" "truthy (su_server s)"
      unfolding duplicate_subscription_def by blast
    from old [OF z(1)] z(2-5) own have "duplicate_subscription es s" unfolding duplicate_subscription_def by metis
    with stuck show False by (simp add: stuck_def)
  qed
  moreover have "\<not> duplicate_service_subject es1 s"
  proof
    assume "duplicate_service_subject es1 s"
    then obtain z where z: "z \<in> set (es_subs es1)" "su_name z \<noteq> su_name s" "su_subject z = su_subject s"
      "su_enabled z" and own: "su_enabled s" "truthy (su_subject s)"
      unfolding duplicate_service_subject_def by blast
    from old [OF z(1)] z(2-4) own have "duplicate_service_subject es s" unfolding duplicate_service_subject_def by metis
    with stuck show False by (simp add: stuck_def)
  qed
  moreover have "in_disabled_project es1 s"
    using stuck by (simp add: stuck_def in_disabled_project_def find_project_def projects)
  ultimately show ?thesis using step(1) step(2) [OF s] x(2) by (simp add: stuck_def)
qed

lemma stuck_invalid:
  "stuck es s \<Longrightarrow> validate_sub env es before s = Some (ValidationError ''Project is disabled'')"
  by (simp add: stuck_def disabled_project_invalid)

lemma restore_one_stuck:
  assumes "stuck es s" and "su_standing s \<noteq> ''Current''"
  shows "\<exists>err. restore_one env s es = Inl err"
proof -
  have find: "find_sub es (su_name s) = Some s" using assms(1) by (simp add: stuck_def find_sub_wf)
  from set_standing_refused [OF find assms(2) stuck_invalid [OF assms(1)], of env "Some ''payment''" "Some ''invoice settled''"]
  show ?thesis by (auto simp: restore_one_def)
qed

lemma restore_each_stuck:
  "stuck es s \<Longrightarrow> s \<in> set subs \<Longrightarrow> distinct (map su_name subs) \<Longrightarrow> set subs \<subseteq> set (es_subs es) \<Longrightarrow>
   \<forall>x \<in> set subs. su_standing x \<noteq> ''Current'' \<Longrightarrow> \<exists>err. restore_each env subs es = Inl err"
proof (induction subs arbitrary: es)
  case (Cons x subs)
  show ?case
  proof (cases "restore_one env x es")
    case (Inl e)
    then show ?thesis by simp
  next
    case (Inr es1)
    have x: "x \<in> set (es_subs es)" and st: "su_standing x \<noteq> ''Current''" using Cons.prems(4,5) by auto
    have "x \<noteq> s"
    proof
      assume "x = s"
      with st restore_one_stuck [OF Cons.prems(1), of env] Inr show False by auto
    qed
    with Cons.prems(2) have s: "s \<in> set subs" by simp
    have wf: "estate_wf es" using Cons.prems(1) by (simp add: stuck_def)
    from restore_one_effect [OF wf x st Inr] have subs1: "es_subs es1 = swap_sub (restored x) (es_subs es)"
      and projects: "es_projects es1 = es_projects es" by auto
    have stuck1: "stuck es1 s"
      by (rule stuck_step [OF Cons.prems(1) x \<open>x \<noteq> s\<close> subs1 projects]) (simp_all add: restored_def)
    have name: "su_name (restored x) = su_name x" by (simp add: restored_def)
    have sub: "set subs \<subseteq> set (es_subs es1)"
      using Cons.prems(4) swap_step(2) [OF wf x name subs1] names_apart(2) [OF Cons.prems(3) name] by auto
    from Cons.IH [OF stuck1 s _ sub] Cons.prems(3,5) Inr show ?thesis by auto
  qed
qed simp

lemma suspend_each_stuck:
  "stuck es s \<Longrightarrow> distinct (map su_name subs) \<Longrightarrow> set subs \<subseteq> set (es_subs es) \<Longrightarrow>
   \<forall>x \<in> set subs. su_standing x \<noteq> ''Suspended'' \<Longrightarrow> suspend_each env subs es = Inr (names, es') \<Longrightarrow>
   s \<in> set (es_subs es') \<and> su_name s \<notin> set names"
proof (induction subs arbitrary: es names)
  case (Cons x subs)
  from Cons.prems(5) obtain r es1 names1 where one: "suspend_one env x es = Inr (r, es1)"
    and rest: "suspend_each env subs es1 = Inr (names1, es')"
    and names: "names = (case r of None \<Rightarrow> names1 | Some n \<Rightarrow> n # names1)"
    by (auto simp: bindE_Inr)
  have x: "x \<in> set (es_subs es)" and st: "su_standing x \<noteq> ''Suspended''" using Cons.prems(3,4) by auto
  have wf: "estate_wf es" and s: "s \<in> set (es_subs es)" using Cons.prems(1) by (simp_all add: stuck_def)
  have tail: "distinct (map su_name subs)" "\<forall>y \<in> set subs. su_standing y \<noteq> ''Suspended''" using Cons.prems(2,4) by auto
  from suspend_one_effect [OF wf x st one] show ?case
  proof (elim disjE conjE)
    assume "r = None" "es1 = es"
    with Cons.IH [OF Cons.prems(1) tail(1) _ tail(2)] rest Cons.prems(3) names show ?thesis by simp
  next
    assume r: "r = Some (su_name x)" and subs1: "es_subs es1 = swap_sub (suspended env es x) (es_subs es)"
      and projects: "es_projects es1 = es_projects es"
    have "x \<noteq> s"
    proof
      assume "x = s"
      with suspend_one_skips [OF wf x st] stuck_invalid [OF Cons.prems(1), of env "Some s"] one r show False by simp
    qed
    then have ne: "su_name s \<noteq> su_name x" using wf s x unfolding estate_wf_def by (metis distinct_map inj_onD)
    have stuck1: "stuck es1 s"
      by (rule stuck_step [OF Cons.prems(1) x \<open>x \<noteq> s\<close> subs1 projects]) (simp_all add: suspended_def)
    have name: "su_name (suspended env es x) = su_name x" by (simp add: suspended_def)
    have sub: "set subs \<subseteq> set (es_subs es1)"
      using Cons.prems(3) swap_step(2) [OF wf x name subs1] names_apart(2) [OF Cons.prems(2) name] by auto
    from Cons.IH [OF stuck1 tail(1) sub tail(2) rest] names r ne show ?thesis by simp
  qed
qed (simp add: stuck_def)

text \<open>
  A subscription tagged into a project that has since been disabled escapes the
  account-standing machine, because every save checks the project again. When its team is suspended
  for an unpaid invoice it is skipped: its row is as it was and it is not among the suspended. When its
  team is restored after payment while it is behind, the refusal is not contained and the whole restore raises.
\<close>

theorem disabled_project_escapes_standing:
  assumes stuck: "stuck es s" and team: "su_team s = team"
  shows "(\<forall>names es'. suspend_for_nonpayment env team es = Inr (names, es') \<longrightarrow>
        s \<in> set (es_subs es') \<and> su_name s \<notin> set names)
    \<and> (su_standing s \<in> {''Past Due'', ''Suspended''} \<longrightarrow> (\<exists>err. restore_after_payment env team es = Inl err))"
proof (intro conjI allI impI)
  have wf: "estate_wf es" and s: "s \<in> set (es_subs es)" using stuck by (simp_all add: stuck_def)
  fix names es' assume "suspend_for_nonpayment env team es = Inr (names, es')"
  from this [unfolded suspend_for_nonpayment_def]
  have "s \<in> set (es_subs es') \<and> su_name s \<notin> set names"
    by (rule suspend_each_stuck [OF stuck distinct_rev_filter [OF wf], rotated 2]) simp_all
  then show "s \<in> set (es_subs es')" "su_name s \<notin> set names" by simp_all
next
  have wf: "estate_wf es" and s: "s \<in> set (es_subs es)" using stuck by (simp_all add: stuck_def)
  assume behind: "su_standing s \<in> {''Past Due'', ''Suspended''}"
  show "\<exists>err. restore_after_payment env team es = Inl err"
    unfolding restore_after_payment_def
    using s team behind by (intro restore_each_stuck [OF stuck _ distinct_rev_filter [OF wf]]) auto
qed


section \<open>Examples\<close>

text \<open>A team with two servers, one running and one the customer stopped, and a row in a disabled project.\<close>

definition example_catalog :: catalog where
  "example_catalog = \<lparr>ct_rates = [], ct_overrides = [], ct_categories = [], ct_plans = [], ct_profiles = []\<rparr>"

definition example_sub_env :: sub_env where
  "example_sub_env = \<lparr>se_ambient = \<lparr>am_now = 0, am_user = None\<rparr>, se_r6 = id, se_catalog = example_catalog,
     se_levels = [], se_tiers = Map.empty, se_profiles = Map.empty, se_composed_label = (\<lambda>_. []),
     se_payment_gate = (\<lambda>_ _. None), se_staging_trial = (\<lambda>_. False), se_command_accepted = (\<lambda>_ _. True),
     se_control_server = (\<lambda>_ _. None), se_billing_deferred = (\<lambda>_. False)\<rparr>"

definition example_server :: "string \<Rightarrow> string \<Rightarrow> server" where
  "example_server name status = \<lparr>sv_name = name, sv_team = ''t'', sv_region = Some ''r'', sv_status = status,
     sv_plan = Some ''p'', sv_vcpus = 1, sv_memory_mb = 1024, sv_disk_gb = 10\<rparr>"

definition sub_on :: "string \<Rightarrow> string \<Rightarrow> subscription" where
  "sub_on name v = (blank_sub name ''t'')\<lparr>su_server := Some v, su_plan := Some ''p'', su_enabled := True\<rparr>"

definition example_estate :: estate where
  "example_estate = \<lparr>es_subs = [sub_on ''a'' ''v1'', sub_on ''b'' ''v2''], es_changes = [],
     es_servers = [example_server ''v1'' ''Running'', example_server ''v2'' ''Stopped''],
     es_projects = [], es_events = [], es_commands = []\<rparr>"

definition shared_estate :: estate where
  "shared_estate = example_estate\<lparr>es_subs :=
       [(sub_on ''a'' ''v1'')\<lparr>su_project := Some ''q'', su_standing := ''Past Due''\<rparr>, sub_on ''b'' ''v2''],
     es_projects := [\<lparr>pj_name = ''q'', pj_team = ''t'', pj_enabled = False, pj_spending_limit = 0\<rparr>]\<rparr>"

lemmas standing_examples = example_catalog_def example_sub_env_def example_server_def sub_on_def example_estate_def
  shared_estate_def blank_sub_def estate_wf_def

definition after_suspension :: estate where
  "after_suspension = (case suspend_for_nonpayment example_sub_env ''t'' example_estate of Inr (_, es) \<Rightarrow> es | Inl _ \<Rightarrow> example_estate)"

lemma example_suspends:
  "suspend_for_nonpayment example_sub_env ''t'' example_estate = Inr ([''b'', ''a''], after_suspension)"
  by code_simp


definition region_stopped :: estate where
  "region_stopped = after_suspension\<lparr>es_servers := [example_server ''v1'' ''Stopped'', example_server ''v2'' ''Stopped'']\<rparr>"

definition after_payment :: estate where
  "after_payment = (case restore_after_payment example_sub_env ''t'' region_stopped of Inr (_, es) \<Rightarrow> es | Inl _ \<Rightarrow> region_stopped)"

lemma example_restores:
  "restore_after_payment example_sub_env ''t'' region_stopped = Inr ([''b'', ''a''], after_payment)"
  by code_simp

lemma example_commands: "es_commands after_suspension = [(''stop'', ''v1'')]"
  "drop (length (es_commands region_stopped)) (es_commands after_payment) = [(''start'', ''v1'')]"
  by code_simp+

lemma example_estate_ok: "estate_wf example_estate" "standings_valid example_estate"
  "\<forall>s \<in> set (es_subs example_estate). su_team s = ''t'' \<longrightarrow> \<not> su_stopped_for_nonpayment s"
  "es_subs region_stopped = es_subs after_suspension"
  by (simp_all add: standing_examples standings_valid_def region_stopped_def)

theorem nonpayment_round_trip_witness:
  "(''start'', ''v1'') \<in> set (drop (length (es_commands region_stopped)) (es_commands after_payment))
    \<and> (''start'', ''v2'') \<notin> set (drop (length (es_commands region_stopped)) (es_commands after_payment))
    \<and> su_standing ` set (filter (\<lambda>s. su_team s = ''t'') (es_subs after_payment)) \<subseteq> {''Current''}"
proof -
  note trip = nonpayment_round_trip [OF example_estate_ok(1,2,3) example_suspends example_estate_ok(4) example_restores]
  have "(''stop'', ''v2'') \<notin> set (drop (length (es_commands example_estate)) (es_commands after_suspension))"
    by (simp add: example_commands standing_examples)
  with trip have "(''start'', ''v2'') \<notin> set (drop (length (es_commands region_stopped)) (es_commands after_payment))" by blast
  moreover from trip have "su_standing ` set (filter (\<lambda>s. su_team s = ''t'') (es_subs after_payment)) \<subseteq> {''Current''}" by auto
  ultimately show ?thesis by (simp add: example_commands)
qed

definition shared_after :: "string list \<times> estate" where
  "shared_after = (case suspend_for_nonpayment example_sub_env ''t'' shared_estate of
     Inr r \<Rightarrow> r | Inl _ \<Rightarrow> ([], shared_estate))"

lemma shared_suspends: "suspend_for_nonpayment example_sub_env ''t'' shared_estate = Inr (fst shared_after, snd shared_after)"
  by code_simp

theorem disabled_project_escapes_standing_witness:
  "''a'' \<notin> set (fst shared_after) \<and> (\<exists>err. restore_after_payment example_sub_env ''t'' shared_estate = Inl err)"
proof -
  let ?s = "(sub_on ''a'' ''v1'')\<lparr>su_project := Some ''q'', su_standing := ''Past Due''\<rparr>"
  have stuck: "stuck shared_estate ?s"
    by (simp add: stuck_def standing_examples in_disabled_project_def find_project_def
        duplicate_subscription_def duplicate_service_subject_def)
  have fields: "su_team ?s = ''t''" "su_name ?s = ''a''" "su_standing ?s = ''Past Due''" by (simp_all add: standing_examples)
  note escape = disabled_project_escapes_standing [OF stuck fields(1), of example_sub_env]
  from conjunct1 [OF escape] have "''a'' \<notin> set (fst shared_after)"
    using shared_suspends unfolding fields(2) by blast
  moreover from conjunct2 [OF escape] have "\<exists>err. restore_after_payment example_sub_env ''t'' shared_estate = Inl err"
    unfolding fields(3) by simp
  ultimately show ?thesis by (rule conjI)
qed

end
