(* ===== verification/Headroom_Properties.thy ===== *)
theory Headroom_Properties
  imports Subscription_Facts
begin

text \<open>
  The spend a team runs against its cap: the locked reading equals the plain one, a resize that is
  let through keeps the team within its cap, and the composed provision does not, because the
  contract it opens is not yet enabled and so not yet counted.
\<close>

section \<open>Two readings of one sum\<close>

text \<open>
  The run rate read under row locks by a caller about to provision is the run rate shown
  everywhere else, for every team and every excluded subscription: locking changes when the rows are
  read, never what they add up to, so both headroom checks decide alike.
\<close>

theorem locked_run_rate_agrees:
  "locked_team_run_rate es team exclude = team_run_rate es team exclude
    \<and> enforce_headroom env es team rate exclude True = enforce_headroom env es team rate exclude False"
  by (simp add: team_run_rate_sum locked_team_run_rate_sum enforce_headroom_def remaining_headroom_def split: option.split)

section \<open>A resize within the cap\<close>

definition not_dated_ahead :: "sub_env \<Rightarrow> estate \<Rightarrow> string \<Rightarrow> bool" where
  "not_dated_ahead env es n \<longleftrightarrow> (\<forall>c \<in> set (es_changes es). sc_subscription c = n \<longrightarrow> sc_at c \<le> se_now env)"

lemma same_quantities_refl [simp]: "same_quantities xs xs"
  by (simp add: same_quantities_def list_all_iff)

lemma rate_after_relock:
  assumes save: "save_sub env override by_whom s' es = Inr es'" and wf: "estate_wf es"
    and s: "s \<in> set (es_subs es)" and name: "su_name s' = su_name s" and team: "su_team s' = su_team s"
    and enabled: "su_enabled s" "su_enabled s'"
    and changed: "billing_segment_changed s s'" and past: "not_dated_ahead env es (su_name s)"
  shows "team_run_rate es' (su_team s) None = team_run_rate es (su_team s) (Some (su_name s))
    + rate_of_change (relock_of env override by_whom s s' es)"
proof -
  let ?c = "relock_of env override by_whom s s' es"
  from save obtain before where b: "find_sub es (su_name s') = Some before"
    and subs: "es_subs es' = es_subs (put_sub s' es)"
    and changes: "es_changes es' = es_changes es @ (if billing_segment_changed before s'
           then [relock_of env override by_whom before s' es] else [])"
    by (elim save_sub_Inr)
  have "before = s" using b find_sub_wf [OF wf s] by (simp add: name)
  with changes changed have changes: "es_changes es' = es_changes es @ [?c]" by simp
  have c: "sc_subscription ?c = su_name s" "sc_type ?c = ''Plan Changed''" "sc_at ?c = se_now env"
    by (simp_all add: relock_of_def Let_def name split: prod.split)
  have own: "current_segment_rate es' (su_name s) = rate_of_change ?c"
  proof -
    have "latest_segment es' (su_name s) = Some ?c"
      using past c by (intro latest_segment_append_own [OF changes]) (auto simp: not_dated_ahead_def SEGMENT_CHANGE_TYPES_def)
    then show ?thesis by (simp add: current_segment_rate_def c)
  qed
  have other: "current_segment_rate es' n = current_segment_rate es n" if "n \<noteq> su_name s" for n
  proof -
    have "latest_segment es' n = latest_segment es n"
      using that c(1) by (intro latest_segment_append_other [OF changes]) auto
    then show ?thesis by (simp add: current_segment_rate_def)
  qed
  have wf': "estate_wf es'" using wf by (simp add: estate_wf_def subs)
  have mem: "s' \<in> set (es_subs es')" using s name by (force simp: subs put_sub_def)
  have "team_run_rate es' (su_team s) None
      = team_run_rate es' (su_team s) (Some (su_name s)) + current_segment_rate es' (su_name s)"
    using run_rate_split [OF wf' mem] enabled(2) team name by simp
  moreover have "team_run_rate es' (su_team s) (Some (su_name s)) = team_run_rate es (su_team s) (Some (su_name s))"
  proof -
    have "sum_where (counted (su_team s) (Some (su_name s))) (\<lambda>x. current_segment_rate es' (su_name x))
           (map (\<lambda>x. if su_name x = su_name s' then s' else x) xs)
        = sum_where (counted (su_team s) (Some (su_name s))) (\<lambda>x. current_segment_rate es (su_name x)) xs" for xs
      by (induction xs) (auto simp: counted_def name other)
    then show ?thesis unfolding team_run_rate_sum subs put_sub_def by simp
  qed
  ultimately show ?thesis using own by simp
qed

lemma headroom_bound:
  assumes "enforce_headroom env es team (Some rate) exclude locked = None" and "\<not> is_internal_team (se_profiles env) team"
  shows "team_run_rate es team exclude + rate
    \<le> max (cap_max_spend (get_team_caps (se_levels env) (se_tiers env) team)) (team_run_rate es team exclude)"
proof -
  have "remaining_headroom env es team exclude locked
      = max 0 (cap_max_spend (get_team_caps (se_levels env) (se_tiers env) team) - team_run_rate es team exclude)"
    by (simp add: remaining_headroom_def Let_def locked_team_run_rate_sum team_run_rate_sum)
  moreover have "rate \<le> remaining_headroom env es team exclude locked"
    using assms by (simp add: enforce_headroom_def split: if_splits)
  ultimately show ?thesis by linarith
qed

definition spend_cap :: "sub_env \<Rightarrow> string \<Rightarrow> money" where
  "spend_cap env team = cap_max_spend (get_team_caps (se_levels env) (se_tiers env) team)"

lemma nonneg_current_rate:
  "\<forall>c \<in> set (es_changes es). 0 \<le> rate_of_change c \<Longrightarrow> 0 \<le> current_segment_rate es n"
  using latest_of_mem by (fastforce simp: current_segment_rate_def latest_segment_def split: option.split)

lemma relock_override: "rate_of_change (relock_of env (Some (Some r, cur)) by_whom b s es) = r"
  by (simp add: relock_of_def rate_of_change_def)

lemma relock_composed:
  assumes "su_mode s = ''Composed''" and "truthy (team_money env (su_team s))"
    and "truthy (Option.bind (server_of es (su_server s)) sv_region)"
    and "config_rate_in env (su_includes s) (team_money env (su_team s)) (Option.bind (server_of es (su_server s)) sv_region) = Some r"
  shows "rate_of_change (relock_of env None by_whom b s es) = r"
  using assms by (simp add: relock_of_def rate_of_change_def resolve_rate_snapshot_def or_opt_def)

lemma relock_preset:
  assumes "su_mode s = ''Preset''" and "su_plan s = Some p" "p \<noteq> []" and "truthy (team_money env (su_team s))"
    and "truthy (Option.bind (server_of es (su_server s)) sv_region)"
    and "rate_in env p (team_money env (su_team s)) (Option.bind (server_of es (su_server s)) sv_region) = Some r"
  shows "rate_of_change (relock_of env None by_whom b s es) = r"
  using assms by (simp add: relock_of_def rate_of_change_def resolve_rate_snapshot_def or_opt_def)

lemma change_plan_cases:
  assumes "change_plan env n p by_whom es = Inr es'" and "find_sub es n = Some s"
  shows "es' = es \<or> save_sub env None by_whom
      (s\<lparr>su_mode := ''Preset'', su_plan := Some p, su_sub_category := None, su_includes := []\<rparr>) es = Inr es'"
  using assms unfolding change_plan_def by (simp split: if_splits)

lemma resize_to_plan_cases:
  assumes run: "resize_to_plan env n p by_whom es = Inr es'" and s: "find_sub es n = Some s"
  shows "es' = es \<or> enforce_headroom env es (su_team s) (rate_in env p (team_money env (su_team s))
        (Option.bind (server_of es (su_server s)) sv_region)) (Some n) False = None
    \<and> \<not> (su_mode s = ''Preset'' \<and> su_plan s = Some p)
    \<and> save_sub env None by_whom
        (s\<lparr>su_mode := ''Preset'', su_plan := Some p, su_sub_category := None, su_includes := []\<rparr>) es = Inr es'"
proof (cases "is_resizable es s \<and> \<not> (su_mode s = ''Preset'' \<and> su_plan s = Some p)")
  case False
  with run s show ?thesis unfolding resize_to_plan_def by (auto split: if_splits)
next
  case True
  let ?room = "enforce_headroom env es (su_team s) (rate_in env p (team_money env (su_team s))
        (Option.bind (server_of es (su_server s)) sv_region)) (Some n) False"
  have room: "?room = None" and change: "change_plan env n p by_whom es = Inr es'"
    using run s True unfolding resize_to_plan_def Let_def by (cases ?room; simp)+
  from change_plan_cases [OF change s] room True show ?thesis by blast
qed

text \<open>
  Property C15: a resize never takes a team past its spend cap. When a composed resize or a move onto a
  preset of an enabled subscription on a server goes through, the team's run rate after it is within
  the trust-tier cap, or no higher than it was when the cap had been lowered under the team before. Internal teams,
  which the code holds to no cap, are exempt; the team has a currency, the server a region, and no change is dated ahead.
\<close>

theorem resize_within_cap:
  assumes wf: "estate_wf es" and s: "find_sub es n = Some s" and enabled: "su_enabled s"
    and rates: "\<forall>c \<in> set (es_changes es). 0 \<le> rate_of_change c" and past: "not_dated_ahead env es n"
    and team: "\<not> is_internal_team (se_profiles env) (su_team s)" and money: "truthy (team_money env (su_team s))"
    and region: "truthy (Option.bind (server_of es (su_server s)) sv_region)"
    and resize: "resize_composed_subscription env n rows sub_category by_whom override preset es = Inr es'
      \<or> p \<noteq> [] \<and> resize_to_plan env n p by_whom es = Inr es'"
  shows "team_run_rate es' (su_team s) None \<le> max (spend_cap env (su_team s)) (team_run_rate es (su_team s) None)"
proof -
  from find_sub_Some [OF s] have mem: "s \<in> set (es_subs es)" and name: "su_name s = n" by auto
  have split: "team_run_rate es (su_team s) None = team_run_rate es (su_team s) (Some n) + current_segment_rate es n"
    using run_rate_split [OF wf mem _ enabled] name by simp
  have below: "team_run_rate es (su_team s) (Some n) \<le> team_run_rate es (su_team s) None"
    using split nonneg_current_rate [OF rates, of n] by simp
  have bound: ?thesis
    if save: "save_sub env ov by_whom s' es = Inr es'" and s': "su_name s' = n" "su_team s' = su_team s" "su_enabled s'"
      and changed: "billing_segment_changed s s'" and rate: "rate_of_change (relock_of env ov by_whom s s' es) = r"
      and room: "enforce_headroom env es (su_team s) (Some r) (Some n) False = None" for ov s' r
  proof -
    have "team_run_rate es' (su_team s) None = team_run_rate es (su_team s) (Some n) + r"
      using rate_after_relock [OF save wf mem _ s'(2) enabled s'(3) changed] s'(1) name past rate by simp
    also have "\<dots> \<le> max (spend_cap env (su_team s)) (team_run_rate es (su_team s) (Some n))"
      using headroom_bound [OF room team] by (simp add: spend_cap_def)
    finally show ?thesis using below by linarith
  qed
  from resize show ?thesis
  proof (elim disjE conjE)
    assume run: "resize_composed_subscription env n rows sub_category by_whom override preset es = Inr es'"
    let ?region = "Option.bind (server_of es (su_server s)) sv_region"
    let ?rate = "case override of Some r \<Rightarrow> Some r | None \<Rightarrow> config_rate_in env rows (team_money env (su_team s)) ?region"
    from run s consider "es' = es"
      | (saved) profile where "enforce_headroom env es (su_team s) ?rate (Some n) False = None"
        "\<not> (su_mode s = ''Composed'' \<and> same_quantities (su_includes s) rows)"
        "save_sub env (case override of Some r \<Rightarrow> Some (Some r, team_money env (su_team s)) | None \<Rightarrow> None) by_whom
        (s\<lparr>su_mode := ''Composed'', su_plan := None, su_sub_category := Some profile, su_includes := rows\<rparr>) es = Inr es'"
      unfolding resize_composed_subscription_def Let_def
      by (auto split: option.splits if_splits)
    then show ?thesis
    proof cases
      case 1
      then show ?thesis by simp
    next
      case saved
      let ?s' = "s\<lparr>su_mode := ''Composed'', su_plan := None, su_sub_category := Some profile, su_includes := rows\<rparr>"
      from saved(1) obtain r where r: "?rate = Some r" by (cases ?rate) (auto simp: enforce_headroom_def)
      have changed: "billing_segment_changed s ?s'" using saved(2) by (auto simp: billing_segment_changed_def)
      have "rate_of_change (relock_of env (case override of Some r \<Rightarrow> Some (Some r, team_money env (su_team s)) | None \<Rightarrow> None)
          by_whom s ?s' es) = r"
      proof (cases override)
        case None
        with r show ?thesis using money region by (auto intro!: relock_composed)
      next
        case (Some q)
        with r show ?thesis by (simp add: relock_override)
      qed
      with saved(1) r show ?thesis using name enabled changed by (intro bound [OF saved(3)]) simp_all
    qed
  next
    assume p: "p \<noteq> []" and run: "resize_to_plan env n p by_whom es = Inr es'"
    let ?region = "Option.bind (server_of es (su_server s)) sv_region"
    let ?s' = "s\<lparr>su_mode := ''Preset'', su_plan := Some p, su_sub_category := None, su_includes := []\<rparr>"
    from resize_to_plan_cases [OF run s] show ?thesis
    proof (elim disjE conjE)
      assume "es' = es"
      then show ?thesis by simp
    next
      assume saved: "enforce_headroom env es (su_team s) (rate_in env p (team_money env (su_team s)) ?region) (Some n) False = None"
        "\<not> (su_mode s = ''Preset'' \<and> su_plan s = Some p)" "save_sub env None by_whom ?s' es = Inr es'"
      from saved(1) obtain r where r: "rate_in env p (team_money env (su_team s)) ?region = Some r"
        by (cases "rate_in env p (team_money env (su_team s)) ?region") (auto simp: enforce_headroom_def)
      have changed: "billing_segment_changed s ?s'" using saved(2) by (auto simp: billing_segment_changed_def)
      have "rate_of_change (relock_of env None by_whom s ?s' es) = r"
        using r p money region by (intro relock_preset [where p = p]) simp_all
      with saved(1) r show ?thesis using name enabled changed by (intro bound [OF saved(3)]) simp_all
    qed
  qed
qed


section \<open>A composed provision is not counted\<close>

lemma insert_sub_Inr:
  assumes "insert_sub env quote s es = Inr es'"
  obtains c where "su_name s \<notin> su_name ` set (es_subs es)" and "es_subs es' = es_subs es @ [s]"
    and "es_changes es' = es_changes es @ [c]" and "sc_subscription c = su_name s" and "sc_type c = ''Created''"
    and "es_servers es' = es_servers es"
  using assms
  by (auto simp: insert_sub_def append_change_Inr bindE_Inr Let_def split: if_splits option.splits prod.splits)

lemma run_rate_after_insert:
  assumes ins: "insert_sub env quote s es = Inr es'" and off: "\<not> su_enabled s"
  shows "team_run_rate es' team exclude = team_run_rate es team exclude"
proof -
  from ins obtain c where new: "su_name s \<notin> su_name ` set (es_subs es)" and subs: "es_subs es' = es_subs es @ [s]"
    and changes: "es_changes es' = es_changes es @ [c]" and c: "sc_subscription c = su_name s"
    by (elim insert_sub_Inr)
  have "current_segment_rate es' (su_name x) = current_segment_rate es (su_name x)" if "x \<in> set (es_subs es)" for x
  proof -
    from that new c have "sc_subscription c \<noteq> su_name x" by (metis imageI)
    then have "latest_segment es' (su_name x) = latest_segment es (su_name x)"
      by (intro latest_segment_append_other [OF changes]) simp
    then show ?thesis by (simp add: current_segment_rate_def)
  qed
  then have "sum_where (counted team exclude) (\<lambda>x. current_segment_rate es' (su_name x)) (es_subs es)
      = sum_where (counted team exclude) (\<lambda>x. current_segment_rate es (su_name x)) (es_subs es)"
    by (intro sum_where_cong) simp
  with off show ?thesis by (simp add: team_run_rate_sum subs counted_def)
qed

text \<open>
  Property C16: a composed configuration that is provisioned does not use up the headroom it was
  checked against. The contract is opened with its flag off, and the run rate counts enabled
  contracts only, so after any provision the team's run rate and remaining headroom are what they were
  before, although the new contract's segment is open at its full rate.
\<close>

theorem provision_leaves_headroom:
  assumes run: "provision_composed_subscription env name team cluster resource_id rows profile start es = Inr es'"
    and priced: "config_rate_in env rows (team_money env team) (Some cluster) = Some rate"
  shows "(\<forall>t exclude. team_run_rate es' t exclude = team_run_rate es t exclude)
    \<and> remaining_headroom env es' team None True = remaining_headroom env es team None True
    \<and> (is_internal_team (se_profiles env) team \<or> rate \<le> remaining_headroom env es' team None True)"
proof -
  from run have room: "enforce_headroom env es team (Some rate) None True = None"
    and create: "create_subscription env name team cluster resource_id None start ''Composed'' rows (Some profile) None es = Inr es'"
    by (auto simp: provision_composed_subscription_def priced split: option.splits)
  define es1 where "es1 = (if find_server es resource_id = None
          then es\<lparr>es_servers := es_servers es @ [pending_server resource_id team cluster None rows]\<rparr> else es)"
  have ins: "\<exists>s. insert_sub env None s es1 = Inr es' \<and> \<not> su_enabled s"
    using create unfolding create_subscription_def Let_def es1_def [symmetric]
    by (intro exI conjI, assumption) (simp add: blank_sub_def)
  have same: "team_run_rate es1 t exclude = team_run_rate es t exclude" for t exclude
    by (simp add: es1_def team_run_rate_sum current_segment_rate_def latest_segment_def)
  have rates: "team_run_rate es' t exclude = team_run_rate es t exclude" for t exclude
    using ins run_rate_after_insert same by metis
  then have "remaining_headroom env es' team None True = remaining_headroom env es team None True"
    by (simp add: remaining_headroom_def locked_team_run_rate_sum flip: team_run_rate_sum)
  with rates room show ?thesis by (auto simp: enforce_headroom_def split: if_splits)
qed

section \<open>Examples\<close>

definition card_row :: "string \<Rightarrow> string \<Rightarrow> money \<Rightarrow> rate_row" where
  "card_row doctype priced_for rate = \<lparr>cr_name = rate_autoname priced_for None ''INR'', cr_doctype = doctype,
     cr_for = priced_for, cr_cluster = None, cr_currency = ''INR'', cr_rate = rate\<rparr>"

definition card_catalog :: catalog where
  "card_catalog = \<lparr>ct_rates = [card_row ''Plan'' ''p'' 10, card_row ''Plan'' ''q'' 20,
       card_row ''Resource Type'' ''Compute'' 10, card_row ''Resource Type'' ''Memory'' 2, card_row ''Resource Type'' ''Disk'' 1],
     ct_overrides = [], ct_categories = [], ct_plans = [],
     ct_profiles = [\<lparr>sp_name = ''General'', sp_category = ''VM'', sp_ram_ratio = 4, sp_vcpu_steps = [1, 2],
       sp_disk_min = 0, sp_disk_max = 0\<rparr>]\<rparr>"

definition capped_env :: sub_env where
  "capped_env = \<lparr>se_ambient = \<lparr>am_now = 0, am_user = None\<rparr>, se_r6 = id, se_catalog = card_catalog,
     se_levels = [], se_tiers = [''t'' \<mapsto> blank_profile\<lparr>tp_manual_override := True, tp_override_max_spend := 25\<rparr>],
     se_profiles = [''t'' \<mapsto> \<lparr>bp_team = ''t'', bp_currency = Some ''INR'', bp_country = Some ''India'', bp_legal_name = None,
       bp_address_line1 = None, bp_city = None, bp_is_internal = False, bp_gstin = None, bp_gst_status = None,
       bp_collection_mode = None, bp_collection_action_reason = None, bp_payment_day = 1, bp_payment_day_changes = 0,
       bp_payment_day_changes_cycle = None\<rparr>],
     se_composed_label = (\<lambda>_. []), se_payment_gate = (\<lambda>_ _. None), se_staging_trial = (\<lambda>_. False),
     se_command_accepted = (\<lambda>_ _. True), se_control_server = (\<lambda>_ _. None), se_billing_deferred = (\<lambda>_. False)\<rparr>"

definition running_estate :: estate where
  "running_estate = \<lparr>es_subs = [(blank_sub ''a'' ''t'')\<lparr>su_server := Some ''v1'', su_plan := Some ''p'', su_enabled := True\<rparr>],
     es_changes = [\<lparr>sc_subscription = ''a'', sc_type = ''Created'', sc_old = None, sc_new = Some ''p'', sc_rate = Some 10,
       sc_currency = Some ''INR'', sc_at = -1, sc_by = ''x''\<rparr>],
     es_servers = [\<lparr>sv_name = ''v1'', sv_team = ''t'', sv_region = Some ''r'', sv_status = ''Running'', sv_plan = Some ''p'',
       sv_vcpus = 1, sv_memory_mb = 1024, sv_disk_gb = 10\<rparr>],
     es_projects = [], es_events = [], es_commands = []\<rparr>"

definition resized_estate :: estate where
  "resized_estate = (case resize_to_plan capped_env ''a'' ''q'' None running_estate of Inr es \<Rightarrow> es | Inl _ \<Rightarrow> running_estate)"

lemma example_resizes: "resize_to_plan capped_env ''a'' ''q'' None running_estate = Inr resized_estate"
  by code_simp

theorem resize_within_cap_witness:
  "team_run_rate resized_estate ''t'' None \<le> 25 \<and> team_run_rate resized_estate ''t'' None = 20"
proof -
  let ?s = "(blank_sub ''a'' ''t'')\<lparr>su_server := Some ''v1'', su_plan := Some ''p'', su_enabled := True\<rparr>"
  note defs = running_estate_def capped_env_def blank_sub_def find_sub_def estate_wf_def rate_of_change_def not_dated_ahead_def
    is_internal_team_def team_money_def server_of_def find_server_def
  have "team_run_rate resized_estate (su_team ?s) None
      \<le> max (spend_cap capped_env (su_team ?s)) (team_run_rate running_estate (su_team ?s) None)"
    by (rule resize_within_cap [where n = "''a''" and p = "''q''" and by_whom = None, OF _ _ _ _ _ _ _ _ disjI2])
      (simp_all add: example_resizes, simp_all add: defs)
  moreover have "su_team ?s = ''t''" by (simp add: blank_sub_def)
  moreover have "spend_cap capped_env ''t'' = 25" "team_run_rate running_estate ''t'' None = 10"
    "team_run_rate resized_estate ''t'' None = 20" by code_simp+
  ultimately show ?thesis by simp
qed

definition small_shape :: "plan_include list" where
  "small_shape = [\<lparr>pi_type = ''Compute'', pi_quantity = 1\<rparr>, \<lparr>pi_type = ''Memory'', pi_quantity = 4\<rparr>,
     \<lparr>pi_type = ''Disk'', pi_quantity = 2\<rparr>]"

definition provision_small :: "string \<Rightarrow> estate \<Rightarrow> error + estate" where
  "provision_small name es = provision_composed_subscription capped_env name ''t'' ''r'' (''res-'' @ name) small_shape ''General'' None es"

definition empty_estate :: estate where
  "empty_estate = \<lparr>es_subs = [], es_changes = [], es_servers = [], es_projects = [], es_events = [], es_commands = []\<rparr>"

definition provisioned_estate :: estate where
  "provisioned_estate = (case provision_small ''x'' empty_estate of Inr es \<Rightarrow> es | Inl _ \<Rightarrow> empty_estate)"

lemma example_provisions: "provision_small ''x'' empty_estate = Inr provisioned_estate"
  by code_simp

lemma small_rate: "config_rate_in capped_env small_shape (team_money capped_env ''t'') (Some ''r'') = Some 20"
  by code_simp

theorem provision_leaves_headroom_witness:
  "remaining_headroom capped_env provisioned_estate ''t'' None True = 25
    \<and> current_segment_rate provisioned_estate ''x'' = 20"
proof -
  have "remaining_headroom capped_env provisioned_estate ''t'' None True
      = remaining_headroom capped_env empty_estate ''t'' None True"
    using provision_leaves_headroom [OF example_provisions [unfolded provision_small_def] small_rate] by (elim conjE)
  moreover have "remaining_headroom capped_env empty_estate ''t'' None True = 25"
    "current_segment_rate provisioned_estate ''x'' = 20" by code_simp+
  ultimately show ?thesis by simp
qed

text \<open>Two such provisions in a row, each within the cap of 25, leave the team running 40 a month.\<close>

lemma headroom_spent_twice:
  "(case bindE (provision_small ''x'' empty_estate) (provision_small ''y'') of Inl _ \<Rightarrow> False
     | Inr es \<Rightarrow> current_segment_rate es ''x'' + current_segment_rate es ''y'' = 40 \<and> team_run_rate es ''t'' None = 0)"
  by code_simp

end
