(* ===== verification/Metering.thy ===== *)
theory Metering
  imports Subscriptions Invoices
begin

text \<open>
  Metered usage (\<open>revenue/metering.py\<close>) and the daily storage reading
  (\<open>revenue/storage_usage.py\<close>): one rollup per resource, meter and period, the terms it is
  stamped with at first receipt, a correction of the terms as a new version of the row, a report that
  replaces or accumulates, and the line a rollup is billed by.

  Two first reports of one period race for the unique key. What other transactions commit meanwhile is
  the argument \<open>rival\<close>: for each attempt, the table an insert meets and the table the next read
  sees (a winner may still roll back). Within one attempt the row is read under a lock.
\<close>

section \<open>Rollups\<close>

record rollup =
  ur_name :: string
  ur_resource :: string
  ur_team :: "string option"
  ur_cluster :: "string option"
  ur_type :: string
  ur_period_start :: "datetime option"
  ur_quantity :: rat
  ur_unit :: string
  ur_currency :: "string option"
  ur_locked_allowance :: rat
  ur_locked_rate :: money
  ur_key :: string
  ur_sequence :: int
  ur_superseded_by :: "string option"

record meter =
  mt_key :: "string option"
  mt_resource :: string
  mt_type :: string
  mt_team :: "string option"
  mt_cluster :: "string option"
  mt_currency :: "string option"
  mt_period_start :: "datetime option"
  mt_quantity :: rat
  mt_unit :: string
  mt_sequence :: int

record terms =
  tm_team :: "string option"
  tm_cluster :: "string option"
  tm_currency :: "string option"
  tm_allowance :: rat
  tm_rate :: money

type_synonym rollups = "rollup list"

definition find_rollup :: "rollups \<Rightarrow> string \<Rightarrow> rollup option" where
  "find_rollup rs name = find (\<lambda>r. ur_name r = name) rs"

definition rollup_by_key :: "rollups \<Rightarrow> string \<Rightarrow> rollup option" where
  "rollup_by_key rs key = find (\<lambda>r. ur_key r = key) rs"

definition update_rollup :: "string \<Rightarrow> (rollup \<Rightarrow> rollup) \<Rightarrow> rollups \<Rightarrow> rollups" where
  "update_rollup name f rs = map (\<lambda>r. if ur_name r = name then f r else r) rs"

text \<open>
  A conflict on the unique \<open>idempotency_key\<close> surfaces in one of two ways: the framework's own check
  before the insert raises \<open>UniqueValidationError\<close>, and a write that reaches the database first
  raises \<open>DuplicateEntryError\<close>. Which one is the framework's choice, an argument of the insert; a
  taken name (the primary key) is always a \<open>DuplicateEntryError\<close>.
\<close>

datatype conflict = Pre_insert_check | At_database

definition conflict_error :: "conflict \<Rightarrow> error" where
  "conflict_error how = (case how of Pre_insert_check \<Rightarrow> UniqueValidation | At_database \<Rightarrow> DuplicateEntry)"

definition insert_rollup_row :: "conflict \<Rightarrow> rollup \<Rightarrow> rollups \<Rightarrow> error + rollups" where
  "insert_rollup_row how r rs =
     (if ur_key r \<in> ur_key ` set rs then Inl (conflict_error how)
      else if ur_name r \<in> ur_name ` set rs then Inl DuplicateEntry
      else Inr (rs @ [r]))"

section \<open>Terms\<close>

definition locked_terms :: "sub_env \<Rightarrow> estate \<Rightarrow> string \<Rightarrow> string \<Rightarrow> terms option" where
  "locked_terms env es resource_id resource_type =
     (case active_segment_for_resource es resource_id of
        None \<Rightarrow> None
      | Some g \<Rightarrow>
          let allowance = (if truthy (as_plan g) then
                (case find (\<lambda>i. pi_type i = resource_type) (plan_rows env (the (as_plan g))) of
                   None \<Rightarrow> 0 | Some i \<Rightarrow> pi_quantity i) else 0);
              rate = (case metered_plan_for (se_catalog env) resource_type of
                None \<Rightarrow> 0
              | Some (plan, _) \<Rightarrow> (case rate_in env plan (as_currency g) (as_cluster g) of None \<Rightarrow> 0 | Some r \<Rightarrow> r))
          in Some \<lparr>tm_team = Some (as_team g), tm_cluster = as_cluster g, tm_currency = as_currency g,
               tm_allowance = allowance, tm_rate = rate\<rparr>)"

definition resolve_terms :: "sub_env \<Rightarrow> estate \<Rightarrow> meter \<Rightarrow> terms option" where
  "resolve_terms env es m =
     (if map_option snd (metered_plan_for (se_catalog env) (mt_type m)) = Some (Some ''Live'')
      then Some \<lparr>tm_team = mt_team m, tm_cluster = mt_cluster m, tm_currency = mt_currency m,
             tm_allowance = 0, tm_rate = 0\<rparr>
      else locked_terms env es (mt_resource m) (mt_type m))"

section \<open>The supersede chain\<close>

function live_from :: "rollups \<Rightarrow> string list \<Rightarrow> string \<Rightarrow> string" where
  "live_from rs seen name =
     (case Option.bind (find_rollup rs name) ur_superseded_by of
        None \<Rightarrow> name
      | Some nxt \<Rightarrow> if nxt = [] \<or> nxt \<in> set seen then name else live_from rs (nxt # seen) nxt)"
  by pat_completeness auto
termination
proof (relation "measure (\<lambda>(rs, seen, name). card (set (List.map_filter ur_superseded_by rs) - set seen))", goal_cases)
  case (2 rs seen name nxt)
  then obtain r where "r \<in> set rs" "ur_superseded_by r = Some nxt"
    using find_Some by (force simp: find_rollup_def split: Option.bind_splits)
  then have "nxt \<in> set (List.map_filter ur_superseded_by rs)" by (force simp: List.map_filter_def)
  with 2 have "set (List.map_filter ur_superseded_by rs) - set (nxt # seen)
      \<subset> set (List.map_filter ur_superseded_by rs) - set seen" by auto
  then show ?case by (auto intro: psubset_card_mono)
qed simp

declare live_from.simps [simp del]

definition live_rollup :: "rollups \<Rightarrow> string \<Rightarrow> string" where
  "live_rollup rs name = live_from rs [name] name"

section \<open>Correcting the terms\<close>

definition is_digit :: "char \<Rightarrow> bool" where
  "is_digit c \<longleftrightarrow> c \<in> set ''0123456789''"

fun digits_value :: "nat \<Rightarrow> string \<Rightarrow> nat" where
  "digits_value n [] = n"
| "digits_value n (c # cs) = digits_value (10 * n + (of_char c - 48)) cs"

text \<open>The text after the last \<open>::v\<close>, or the whole key when there is none (\<open>rpartition\<close>).\<close>

fun last_part :: "string \<Rightarrow> string option" where
  "last_part [] = None"
| "last_part (c # cs) = (case last_part cs of
     Some t \<Rightarrow> Some t
   | None \<Rightarrow> if take 3 (c # cs) = ''::v'' then Some (drop 3 (c # cs)) else None)"

definition version_of :: "string \<Rightarrow> nat" where
  "version_of key =
     (let tail = (case last_part key of None \<Rightarrow> key | Some t \<Rightarrow> t)
      in if tail \<noteq> [] \<and> list_all is_digit tail then digits_value 0 tail else 0)"

text \<open>The corrector catches neither error of a conflict; the model raises the pre-insert check's.\<close>

definition override_terms ::
  "string \<Rightarrow> string \<Rightarrow> money option \<Rightarrow> rat option \<Rightarrow> rollups \<Rightarrow> error + string \<times> rollups" where
  "override_terms new_name rollup rate allowance rs =
     (let name = live_rollup rs rollup in
      case find_rollup rs name of None \<Rightarrow> Inl DoesNotExist | Some old \<Rightarrow>
      if rate = None \<and> allowance = None then Inl (ValidationError ''Nothing to correct'')
      else bindE (insert_rollup_row Pre_insert_check (old\<lparr>ur_name := new_name,
             ur_locked_rate := (case rate of None \<Rightarrow> ur_locked_rate old | Some r \<Rightarrow> r),
             ur_locked_allowance := (case allowance of None \<Rightarrow> ur_locked_allowance old | Some a \<Rightarrow> a),
             ur_superseded_by := None,
             ur_key := ur_key old @ ''::v'' @ nat_str (version_of (ur_key old) + 1)\<rparr>) rs)
        (\<lambda>rs. Inr (new_name, update_rollup name (\<lambda>r. r\<lparr>ur_superseded_by := Some new_name\<rparr>) rs)))"

declare nat_str.simps [simp del]

section \<open>Taking a report in\<close>

definition INGEST_RACE_RETRIES :: nat where "INGEST_RACE_RETRIES = 3"

definition apply_report :: "rollup \<Rightarrow> string \<Rightarrow> rat \<Rightarrow> int \<Rightarrow> bool \<Rightarrow> rollups \<Rightarrow> error + rollups" where
  "apply_report existing mode qty seq refuse_lower rs =
     (if mode = ''Incremental'' then
        (if seq \<le> ur_sequence existing then Inr rs
         else Inr (update_rollup (ur_name existing)
                (\<lambda>r. r\<lparr>ur_quantity := ur_quantity existing + qty, ur_sequence := seq\<rparr>) rs))
      else if refuse_lower \<and> qty < ur_quantity existing
        then Inl (ValidationError ''A usage total for this period can only increase'')
      else Inr (update_rollup (ur_name existing) (\<lambda>r. r\<lparr>ur_quantity := qty\<rparr>) rs))"

definition new_rollup :: "string \<Rightarrow> meter \<Rightarrow> terms \<Rightarrow> rat \<Rightarrow> int \<Rightarrow> string \<Rightarrow> rollup" where
  "new_rollup name m t qty seq key =
     \<lparr>ur_name = name, ur_resource = mt_resource m, ur_team = tm_team t, ur_cluster = tm_cluster t,
      ur_type = mt_type m, ur_period_start = mt_period_start m, ur_quantity = qty, ur_unit = mt_unit m,
      ur_currency = tm_currency t, ur_locked_allowance = tm_allowance t, ur_locked_rate = tm_rate t,
      ur_key = key, ur_sequence = seq, ur_superseded_by = None\<rparr>"

fun ingest_attempts ::
  "nat \<Rightarrow> sub_env \<Rightarrow> estate \<Rightarrow> (nat \<Rightarrow> rollups \<Rightarrow> rollups \<times> rollups \<times> conflict) \<Rightarrow> string \<Rightarrow> meter \<Rightarrow> string \<Rightarrow> string \<Rightarrow> bool \<Rightarrow> rollups
     \<Rightarrow> error + string option \<times> rollups" where
  "ingest_attempts 0 env es rival name m key mode refuse_lower rs = Inr (None, rs)"
| "ingest_attempts (Suc n) env es rival name m key mode refuse_lower rs =
     (case rollup_by_key rs key of
        Some existing \<Rightarrow>
          let target = (if truthy (ur_superseded_by existing) then find_rollup rs (live_rollup rs (ur_name existing))
                        else Some existing) in
          (case target of
             None \<Rightarrow> Inl ValueError
           | Some t \<Rightarrow> bindE (apply_report t mode (mt_quantity m) (mt_sequence m) refuse_lower rs)
               (\<lambda>rs. Inr (Some key, rs)))
      | None \<Rightarrow> (case resolve_terms env es m of
          None \<Rightarrow> Inr (None, rs)
        | Some t \<Rightarrow>
            let (met, after, how) = rival n rs in
            (case insert_rollup_row how (new_rollup name m t (mt_quantity m) (mt_sequence m) key) met of
               Inr rs \<Rightarrow> Inr (Some key, rs)
             | Inl DuplicateEntry \<Rightarrow> ingest_attempts n env es rival name m key mode refuse_lower after
             | Inl e \<Rightarrow> Inl e)))"

definition ingest_rollup ::
  "sub_env \<Rightarrow> estate \<Rightarrow> (nat \<Rightarrow> rollups \<Rightarrow> rollups \<times> rollups \<times> conflict) \<Rightarrow> string \<Rightarrow> meter \<Rightarrow> bool \<Rightarrow> rollups
     \<Rightarrow> error + string option \<times> rollups" where
  "ingest_rollup env es rival name m refuse_lower rs =
     (if \<not> truthy (mt_key m) then Inr (None, rs)
      else ingest_attempts INGEST_RACE_RETRIES env es rival name m (the (mt_key m))
        (reporting_mode_for (se_catalog env) (mt_type m)) refuse_lower rs)"

text \<open>No other transaction meets this one.\<close>

definition alone :: "nat \<Rightarrow> rollups \<Rightarrow> rollups \<times> rollups \<times> conflict" where
  "alone n rs = (rs, rs, At_database)"

section \<open>Lines\<close>

record metered_line =
  ml_resource :: string
  ml_cluster :: "string option"
  ml_type :: string
  ml_unit :: string
  ml_quantity :: rat
  ml_rate :: money
  ml_amount :: money

definition in_period :: "date \<Rightarrow> date \<Rightarrow> rollup \<Rightarrow> bool" where
  "in_period period_start period_end r = (case ur_period_start r of
     None \<Rightarrow> True | Some t \<Rightarrow> at_midnight period_start \<le> t \<and> t < at_midnight (period_end + 1))"

definition billable_rollups :: "string \<Rightarrow> string list \<Rightarrow> date \<Rightarrow> date \<Rightarrow> rollups \<Rightarrow> rollups" where
  "billable_rollups team clusters period_start period_end rs =
     filter (\<lambda>r. ur_team r = Some team \<and> ur_cluster r \<in> Some ` set clusters \<and> ur_superseded_by r = None
       \<and> in_period period_start period_end r) rs"

datatype metered = Nothing_due | Unpriced | Billed metered_line

definition metered_line_of :: "(rat \<Rightarrow> rat) \<Rightarrow> sub_env \<Rightarrow> rollup \<Rightarrow> metered" where
  "metered_line_of r2 env r =
     (let plan = metered_plan_for (se_catalog env) (ur_type r);
          live = (map_option snd plan = Some (Some ''Live''));
          resolved = (if live then rate_in env (fst (the plan)) (ur_currency r) (ur_cluster r) else Some (ur_locked_rate r));
          allowance = (if live then 0 else ur_locked_allowance r);
          billable_qty = max 0 (ur_quantity r - allowance)
      in if settlement_from_plan (se_catalog env) plan = ''Prepaid Pack'' then Nothing_due
         else if billable_qty \<le> 0 then Nothing_due
         else case resolved of
           None \<Rightarrow> Unpriced
         | Some rate \<Rightarrow> if rate = 0 \<and> plan = None then Unpriced
             else Billed \<lparr>ml_resource = ur_resource r, ml_cluster = ur_cluster r, ml_type = ur_type r,
               ml_unit = ur_unit r, ml_quantity = billable_qty, ml_rate = rate, ml_amount = r2 (billable_qty * rate)\<rparr>)"

fun billed_lines :: "metered list \<Rightarrow> metered_line list" where
  "billed_lines [] = []"
| "billed_lines (Billed l # ms) = l # billed_lines ms"
| "billed_lines (_ # ms) = billed_lines ms"

definition metered_lines ::
  "(rat \<Rightarrow> rat) \<Rightarrow> sub_env \<Rightarrow> string \<Rightarrow> string list \<Rightarrow> date \<Rightarrow> date \<Rightarrow> rollups \<Rightarrow> error + metered_line list" where
  "metered_lines r2 env team clusters period_start period_end rs =
     (let results = map (metered_line_of r2 env) (billable_rollups team clusters period_start period_end rs)
      in if clusters = [] then Inr []
         else if Unpriced \<in> set results then Inl (ValidationError ''unpriced metered usage'')
         else Inr (billed_lines results))"

section \<open>Storage\<close>

text \<open>
  A storage subscription's key for a month, and the days of the month it has been billed for. The
  buckets' sizes come from their region; None is a region that does not answer.
\<close>

definition storage_key :: "string \<Rightarrow> date \<Rightarrow> string" where
  "storage_key subject month_start = ''storage::'' @ subject @ ''::'' @ take 7 (date_str month_start)"

definition days_billed :: "rollups \<Rightarrow> string \<Rightarrow> date option \<Rightarrow> date \<Rightarrow> int" where
  "days_billed rs key start_date month_start = (case rollup_by_key rs key of
     Some r \<Rightarrow> (case find_rollup rs (live_rollup rs (ur_name r)) of None \<Rightarrow> 0 | Some l \<Rightarrow> ur_sequence l)
   | None \<Rightarrow> (let started = (case start_date of None \<Rightarrow> month_start | Some d \<Rightarrow> d)
       in if started \<ge> month_start then day_of started - 1 else 0))"

definition BYTES_PER_GIB :: rat where "BYTES_PER_GIB = 1024 ^ 3"

definition storage_meter :: "sub_env \<Rightarrow> estate \<Rightarrow> subscription \<Rightarrow> rat list \<Rightarrow> string \<Rightarrow> int \<Rightarrow> date \<Rightarrow> meter" where
  "storage_meter env es s used_bytes key new_days today =
     \<lparr>mt_key = Some key, mt_resource = or_else (su_subject s) [], mt_type = ''Storage'', mt_team = Some (su_team s),
      mt_cluster = su_cluster s, mt_currency = Some (get_team_currency env es (su_team s)),
      mt_period_start = Some (at_midnight (first_of_month today)),
      mt_quantity = sum_list used_bytes / BYTES_PER_GIB * of_int new_days
        / of_int (days_in_month (year_of today) (month_of today)),
      mt_unit = ''GB'', mt_sequence = day_of today\<rparr>"

definition record_subscription_usage ::
  "sub_env \<Rightarrow> estate \<Rightarrow> (nat \<Rightarrow> rollups \<Rightarrow> rollups \<times> rollups \<times> conflict) \<Rightarrow> string \<Rightarrow> string \<Rightarrow> rat list option \<Rightarrow> date \<Rightarrow> rollups
     \<Rightarrow> error + string option \<times> rollups" where
  "record_subscription_usage env es rival name subscription reading today rs =
     (case find_sub es subscription of None \<Rightarrow> Inl ValueError | Some s \<Rightarrow>
      let month_start = first_of_month today;
          key = storage_key (or_else (su_subject s) []) month_start;
          new_days = day_of today - days_billed rs key (su_start_date s) month_start
      in if new_days \<le> 0 then Inr (Some key, rs)
         else case reading of
           None \<Rightarrow> Inl (GatewayError ''unreachable region'')
         | Some used_bytes \<Rightarrow>
             ingest_rollup env es rival name (storage_meter env es s used_bytes key new_days today) False rs)"

fun record_storage_usage ::
  "sub_env \<Rightarrow> estate \<Rightarrow> (nat \<Rightarrow> rollups \<Rightarrow> rollups \<times> rollups \<times> conflict) \<Rightarrow> date \<Rightarrow> (string \<times> string \<times> rat list option) list \<Rightarrow> rollups
     \<Rightarrow> (nat \<times> nat) \<times> rollups" where
  "record_storage_usage env es rival today [] rs = ((0, 0), rs)"
| "record_storage_usage env es rival today ((name, subscription, reading) # subs) rs =
     (case record_subscription_usage env es rival name subscription reading today rs of
        Inl e \<Rightarrow> (let ((recorded, failed), rs') = record_storage_usage env es rival today subs rs
                  in ((recorded, failed + 1), rs'))
      | Inr (_, rs1) \<Rightarrow> (let ((recorded, failed), rs') = record_storage_usage env es rival today subs rs1
                  in ((recorded + 1, failed), rs')))"

end
