(* ===== verification/Metering_Properties.thy ===== *)
theory Metering_Properties
  imports Metering
begin

text \<open>
  What metering promises: the supersede chain of a key always ends in one live row, a correction of
  terms moves no usage, reports and corrections in any order count every batch once, and the storage
  reading bills each day of a month once.
\<close>

section \<open>Chains\<close>

text \<open>A superseded row points at a row written later, so every chain ends.\<close>

fun forward :: "rollups \<Rightarrow> bool" where
  "forward [] = True"
| "forward (r # rs) = ((case ur_superseded_by r of None \<Rightarrow> True | Some n \<Rightarrow> n \<noteq> [] \<and> n \<in> ur_name ` set rs) \<and> forward rs)"

definition rollups_wf :: "rollups \<Rightarrow> bool" where
  "rollups_wf rs \<longleftrightarrow> distinct (map ur_name rs) \<and> distinct (map ur_key rs) \<and> forward rs"

lemma forward_append:
  "forward (xs @ ys) \<Longrightarrow> forward ys"
  by (induction xs) auto

lemma find_rollup_at:
  "distinct (map ur_name (xs @ r # ys)) \<Longrightarrow> find_rollup (xs @ r # ys) (ur_name r) = Some r"
  unfolding find_rollup_def by (rule find_unique_key) auto

lemma find_rollup_Some: "find_rollup rs n = Some r \<Longrightarrow> r \<in> set rs \<and> ur_name r = n"
  unfolding find_rollup_def by (drule find_Some) simp

lemma find_rollup_mem: "rollups_wf rs \<Longrightarrow> r \<in> set rs \<Longrightarrow> find_rollup rs (ur_name r) = Some r"
  unfolding find_rollup_def rollups_wf_def by (intro find_unique_key) auto

text \<open>From a row the walk goes to the row it points at, or stays.\<close>

lemma live_from_step:
  assumes "distinct (map ur_name (xs @ r # ys))" "forward (xs @ r # ys)" "set seen \<subseteq> ur_name ` set (xs @ [r])"
  shows "live_from (xs @ r # ys) seen (ur_name r) =
    (case ur_superseded_by r of None \<Rightarrow> ur_name r | Some n \<Rightarrow> live_from (xs @ r # ys) (n # seen) n)"
proof (cases "ur_superseded_by r")
  case None
  then show ?thesis by (subst live_from.simps) (simp add: find_rollup_at [OF assms(1)])
next
  case (Some n)
  from forward_append [OF assms(2)] Some have n: "n \<noteq> []" "n \<in> ur_name ` set ys" by simp_all
  moreover have "ur_name ` set (xs @ [r]) \<inter> ur_name ` set ys = {}" using assms(1) by auto
  ultimately have "n \<notin> set seen" using assms(3) by blast
  with n Some show ?thesis by (subst live_from.simps) (simp add: find_rollup_at [OF assms(1)])
qed

lemma live_from_live:
  assumes "distinct (map ur_name (xs @ r # ys))" "forward (xs @ r # ys)" "set seen \<subseteq> ur_name ` set (xs @ [r])"
  shows "\<exists>l \<in> set (r # ys). live_from (xs @ r # ys) seen (ur_name r) = ur_name l \<and> ur_superseded_by l = None"
  using assms
proof (induction "length ys" arbitrary: xs r ys seen rule: less_induct)
  case less
  show ?case
  proof (cases "ur_superseded_by r")
    case None
    with live_from_step [OF less.prems] show ?thesis by auto
  next
    case (Some n)
    with forward_append [OF less.prems(2)] obtain m where m: "m \<in> set ys" "n = ur_name m" by auto
    then obtain us vs where ys: "ys = us @ m # vs" by (auto dest: split_list)
    have eq: "xs @ r # ys = (xs @ r # us) @ m # vs" by (simp add: ys)
    have "set (n # seen) \<subseteq> ur_name ` set ((xs @ r # us) @ [m])" using less.prems(3) m(2) by auto
    from less.hyps [of vs "xs @ r # us" m, OF _ less.prems(1,2) [unfolded eq] this]
    obtain l where l: "l \<in> set (m # vs)" "ur_superseded_by l = None"
      "live_from (xs @ r # ys) (n # seen) n = ur_name l"
      by (auto simp: eq m(2) ys)
    have "live_from (xs @ r # ys) seen (ur_name r) = live_from (xs @ r # ys) (n # seen) n"
      using live_from_step [OF less.prems] Some by simp
    with l show ?thesis by (auto simp: ys)
  qed
qed

lemma live_rollup_row:
  assumes wf: "rollups_wf rs" and r: "r \<in> set rs"
  obtains l where "l \<in> set rs" and "live_rollup rs (ur_name r) = ur_name l" and "ur_superseded_by l = None"
    and "find_rollup rs (live_rollup rs (ur_name r)) = Some l"
proof -
  from r obtain xs ys where rs: "rs = xs @ r # ys" by (auto dest: split_list)
  from wf live_from_live [of xs r ys "[ur_name r]"]
  obtain l where l: "l \<in> set rs" "live_rollup rs (ur_name r) = ur_name l" "ur_superseded_by l = None"
    by (auto simp: rollups_wf_def rs live_rollup_def)
  with find_rollup_mem [OF wf l(1)] show thesis by (intro that) auto
qed

lemma live_rollup_self:
  "find_rollup rs n = Some r \<Longrightarrow> ur_superseded_by r = None \<Longrightarrow> live_rollup rs n = n"
  unfolding live_rollup_def by (subst live_from.simps) simp

section \<open>Rewriting rows\<close>

lemma update_rollup_keeps:
  assumes "\<And>r. ur_name (f r) = ur_name r"
  shows "map ur_name (update_rollup n f rs) = map ur_name rs"
  using assms by (simp add: update_rollup_def)

lemma forward_update:
  assumes "\<And>r. ur_name (f r) = ur_name r" "\<And>r. ur_superseded_by (f r) = ur_superseded_by r"
  shows "forward (update_rollup n f rs) = forward rs"
proof -
  have names: "ur_name ` set (update_rollup n f xs) = ur_name ` set xs" for xs
    using update_rollup_keeps [of f n xs, OF assms(1)] by (metis set_map)
  have "update_rollup n f (a # xs) = (if ur_name a = n then f a else a) # update_rollup n f xs" for a xs
    by (simp add: update_rollup_def)
  then show ?thesis by (induction rs) (simp_all add: names assms(2) update_rollup_def [of n f "[]"] split: option.split)
qed

lemma find_update:
  "(\<And>r. ur_name (f r) = ur_name r) \<Longrightarrow> find_rollup (update_rollup n f rs) x
     = map_option (\<lambda>r. if ur_name r = n then f r else r) (find_rollup rs x)"
  by (induction rs) (auto simp: find_rollup_def update_rollup_def)

lemma live_from_update:
  assumes "\<And>r. ur_name (f r) = ur_name r" "\<And>r. ur_superseded_by (f r) = ur_superseded_by r"
  shows "live_from (update_rollup n f rs) seen x = live_from rs seen x"
proof (induction rs seen x rule: live_from.induct)
  case (1 rs seen x)
  have "Option.bind (find_rollup (update_rollup n f rs) x) ur_superseded_by = Option.bind (find_rollup rs x) ur_superseded_by"
    by (cases "find_rollup rs x") (simp_all add: find_update assms)
  then show ?case using 1 by (subst (1 2) live_from.simps) (auto split: option.split)
qed

lemma live_update:
  assumes "\<And>r. ur_name (f r) = ur_name r" "\<And>r. ur_superseded_by (f r) = ur_superseded_by r"
  shows "live_rollup (update_rollup n f rs) x = live_rollup rs x"
  by (simp add: live_rollup_def live_from_update [OF assms])

text \<open>The row a key is billed by.\<close>

definition billed_row :: "rollups \<Rightarrow> string \<Rightarrow> rollup option" where
  "billed_row rs key = Option.bind (rollup_by_key rs key) (\<lambda>r. find_rollup rs (live_rollup rs (ur_name r)))"

lemma key_mem: "rollup_by_key rs key = Some r \<Longrightarrow> r \<in> set rs \<and> ur_key r = key"
  unfolding rollup_by_key_def by (drule find_Some) simp

lemma key_update:
  "(\<And>r. ur_key (f r) = ur_key r) \<Longrightarrow> rollup_by_key (update_rollup n f rs) x
     = map_option (\<lambda>r. if ur_name r = n then f r else r) (rollup_by_key rs x)"
  by (induction rs) (auto simp: rollup_by_key_def update_rollup_def)

lemma billed_row_live:
  assumes "rollups_wf rs" and "rollup_by_key rs key = Some r"
  obtains l where "billed_row rs key = Some l" "l \<in> set rs" "ur_superseded_by l = None"
    "live_rollup rs (ur_name r) = ur_name l"
proof -
  from key_mem [OF assms(2)] have "r \<in> set rs" by simp
  from live_rollup_row [OF assms(1) this] obtain l where "l \<in> set rs" "live_rollup rs (ur_name r) = ur_name l"
    "ur_superseded_by l = None" "find_rollup rs (live_rollup rs (ur_name r)) = Some l" by blast
  with assms(2) show thesis by (intro that) (auto simp: billed_row_def)
qed


section \<open>A report\<close>

text \<open>
  The specification of a key's figure: its quantity and the cursor of the last batch counted. A batch
  counts once, when its sequence is past the cursor.
\<close>

definition count_batch :: "rat \<times> int \<Rightarrow> rat \<times> int \<Rightarrow> rat \<times> int" where
  "count_batch batch fig = (if snd batch \<le> snd fig then fig else (fst fig + fst batch, snd batch))"

definition figure :: "rollups \<Rightarrow> string \<Rightarrow> (rat \<times> int) option" where
  "figure rs key = map_option (\<lambda>l. (ur_quantity l, ur_sequence l)) (billed_row rs key)"

lemma truthy_superseded:
  assumes "rollups_wf rs" "r \<in> set rs" "ur_superseded_by r = Some n"
  shows "n \<noteq> []"
proof -
  from assms(2) obtain xs ys where "rs = xs @ r # ys" by (auto dest: split_list)
  with assms(1) forward_append [of xs "r # ys"] assms(3) show ?thesis by (simp add: rollups_wf_def)
qed

text \<open>A later report lands on the row that is billed.\<close>

lemma report_target:
  assumes wf: "rollups_wf rs" and key: "rollup_by_key rs key = Some r"
  shows "(if truthy (ur_superseded_by r) then find_rollup rs (live_rollup rs (ur_name r)) else Some r) = billed_row rs key"
proof (cases "ur_superseded_by r")
  case None
  from key_mem [OF key] find_rollup_mem [OF wf, of r] have f: "find_rollup rs (ur_name r) = Some r" by simp
  with None live_rollup_self [OF f] show ?thesis by (simp add: billed_row_def key)
next
  case (Some n)
  with truthy_superseded [OF wf _ Some] key_mem [OF key] show ?thesis by (simp add: billed_row_def key)
qed

lemma ingest_existing:
  assumes wf: "rollups_wf rs" and key: "mt_key m = Some key" "key \<noteq> []" "rollup_by_key rs key = Some r"
    and l: "billed_row rs key = Some l"
  shows "ingest_rollup env es rival name m refuse_lower rs =
    bindE (apply_report l (reporting_mode_for (se_catalog env) (mt_type m)) (mt_quantity m) (mt_sequence m) refuse_lower rs)
      (\<lambda>rs. Inr (Some key, rs))"
  using report_target [OF wf key(3)] key l by (simp add: ingest_rollup_def INGEST_RACE_RETRIES_def eval_nat_numeral Let_def)

lemma wf_update:
  assumes "rollups_wf rs" and "\<And>r. ur_name (f r) = ur_name r" "\<And>r. ur_key (f r) = ur_key r"
    "\<And>r. ur_superseded_by (f r) = ur_superseded_by r"
  shows "rollups_wf (update_rollup n f rs)"
proof -
  have "map ur_key (update_rollup n f rs) = map ur_key rs" using assms(3) by (simp add: update_rollup_def)
  with assms show ?thesis by (simp add: rollups_wf_def update_rollup_keeps forward_update)
qed

lemma billed_row_update:
  assumes wf: "rollups_wf rs" and f: "\<And>r. ur_name (f r) = ur_name r" "\<And>r. ur_key (f r) = ur_key r"
    "\<And>r. ur_superseded_by (f r) = ur_superseded_by r"
  shows "billed_row (update_rollup n f rs) key = map_option (\<lambda>r. if ur_name r = n then f r else r) (billed_row rs key)"
  by (cases "rollup_by_key rs key") (auto simp: billed_row_def key_update f find_update live_update)

text \<open>Incremental: the figure of the key moves by the specification, every other billed row is as it was.\<close>

lemma ingest_incremental:
  assumes wf: "rollups_wf rs" and key: "mt_key m = Some key" "key \<noteq> []" and present: "rollup_by_key rs key \<noteq> None"
    and mode: "reporting_mode_for (se_catalog env) (mt_type m) = ''Incremental''"
  shows "\<exists>rs'. ingest_rollup env es rival name m refuse_lower rs = Inr (Some key, rs') \<and> rollups_wf rs'
    \<and> figure rs' key = map_option (count_batch (mt_quantity m, mt_sequence m)) (figure rs key)
    \<and> (\<forall>k. map_option ur_name (billed_row rs k) \<noteq> map_option ur_name (billed_row rs key) \<longrightarrow> billed_row rs' k = billed_row rs k)
    \<and> map ur_key rs' = map ur_key rs
    \<and> (mt_sequence m \<le> snd (the (figure rs key)) \<longrightarrow> rs' = rs)"
proof -
  from present obtain r where r: "rollup_by_key rs key = Some r" by auto
  from billed_row_live [OF wf r] obtain l where l: "billed_row rs key = Some l" "l \<in> set rs" by blast
  let ?f = "\<lambda>u. u\<lparr>ur_quantity := ur_quantity l + mt_quantity m, ur_sequence := mt_sequence m\<rparr>"
  note run = ingest_existing [OF wf key r l(1), of env es rival name refuse_lower]
  show ?thesis
  proof (cases "mt_sequence m \<le> ur_sequence l")
    case True
    with run mode have "ingest_rollup env es rival name m refuse_lower rs = Inr (Some key, rs)"
      by (simp add: apply_report_def)
    moreover have "figure rs key = map_option (count_batch (mt_quantity m, mt_sequence m)) (figure rs key)"
      using True l(1) by (simp add: figure_def count_batch_def)
    ultimately show ?thesis using wf by blast
  next
    case False
    with run mode have "ingest_rollup env es rival name m refuse_lower rs = Inr (Some key, update_rollup (ur_name l) ?f rs)"
      by (simp add: apply_report_def)
    moreover have "rollups_wf (update_rollup (ur_name l) ?f rs)" by (rule wf_update [OF wf]) simp_all
    moreover have rows: "billed_row (update_rollup (ur_name l) ?f rs) k
        = map_option (\<lambda>u. if ur_name u = ur_name l then ?f u else u) (billed_row rs k)" for k
      by (rule billed_row_update [OF wf]) simp_all
    moreover have "figure (update_rollup (ur_name l) ?f rs) key
        = map_option (count_batch (mt_quantity m, mt_sequence m)) (figure rs key)"
      using False l(1) by (simp add: figure_def count_batch_def rows)
    moreover have "billed_row (update_rollup (ur_name l) ?f rs) k = billed_row rs k"
      if "map_option ur_name (billed_row rs k) \<noteq> map_option ur_name (billed_row rs key)" for k
      using that l(1) by (cases "billed_row rs k") (auto simp: rows)
    moreover have "map ur_key (update_rollup (ur_name l) ?f rs) = map ur_key rs" by (simp add: update_rollup_def)
    moreover have "\<not> mt_sequence m \<le> snd (the (figure rs key))" using False l(1) by (simp add: figure_def)
    ultimately show ?thesis by blast
  qed
qed


section \<open>A correction of the terms\<close>

abbreviation point_at :: "string \<Rightarrow> rollup \<Rightarrow> rollup" where
  "point_at n r \<equiv> r\<lparr>ur_superseded_by := Some n\<rparr>"

lemma forward_snoc:
  "forward rs \<Longrightarrow> ur_superseded_by v = None \<Longrightarrow> ur_name v \<noteq> [] \<Longrightarrow> forward (update_rollup n (point_at (ur_name v)) rs @ [v])"
proof (induction rs)
  case (Cons a rs)
  have names: "ur_name ` set (update_rollup n (point_at (ur_name v)) rs) = ur_name ` set rs"
    using update_rollup_keeps [of "point_at (ur_name v)" n rs] by (metis (no_types, lifting) set_map rollup.select_convs(1) rollup.surjective rollup.update_convs(14))
  have "update_rollup n (point_at (ur_name v)) (a # rs)
      = (if ur_name a = n then point_at (ur_name v) a else a) # update_rollup n (point_at (ur_name v)) rs"
    by (simp add: update_rollup_def)
  with Cons names show ?case by (auto split: option.splits)
qed (simp add: update_rollup_def)

text \<open>The table after a correction: the row \<open>l\<close> points at its new version \<open>v\<close>, which is the last row.\<close>

definition correction :: "rollups \<Rightarrow> rollup \<Rightarrow> rollup \<Rightarrow> bool" where
  "correction rs l v \<longleftrightarrow> rollups_wf rs \<and> l \<in> set rs \<and> ur_superseded_by l = None \<and> ur_name v \<notin> ur_name ` set rs
     \<and> ur_key v \<notin> ur_key ` set rs \<and> ur_name v \<noteq> [] \<and> ur_superseded_by v = None"

definition corrected :: "rollups \<Rightarrow> rollup \<Rightarrow> rollup \<Rightarrow> rollups" where
  "corrected rs l v = update_rollup (ur_name l) (point_at (ur_name v)) (rs @ [v])"

lemma correctionD:
  assumes "correction rs l v"
  shows "rollups_wf rs" "l \<in> set rs" "ur_superseded_by l = None" "ur_name v \<notin> ur_name ` set rs"
    "ur_key v \<notin> ur_key ` set rs" "ur_name v \<noteq> []" "ur_superseded_by v = None"
  using assms by (simp_all add: correction_def)

lemma correction_names:
  assumes "correction rs l v" "x \<in> set rs"
  shows "ur_name x \<noteq> ur_name v"
  using correctionD(4) [OF assms(1)] assms(2) by (metis imageI)

lemma after_rows:
  assumes "correction rs l v"
  shows "corrected rs l v = update_rollup (ur_name l) (point_at (ur_name v)) rs @ [v]"
  using correction_names [OF assms correctionD(2) [OF assms]] by (simp add: corrected_def update_rollup_def)

lemma wf_after:
  assumes c: "correction rs l v"
  shows "rollups_wf (corrected rs l v)"
proof -
  note wf = correctionD(1) [OF c] and l = correctionD(2,3) [OF c] and v = correctionD(4-7) [OF c]
  have "map ur_name (update_rollup (ur_name l) (point_at (ur_name v)) rs) = map ur_name rs"
    "map ur_key (update_rollup (ur_name l) (point_at (ur_name v)) rs) = map ur_key rs"
    by (simp_all add: update_rollup_def)
  then have "map ur_name (corrected rs l v) = map ur_name rs @ [ur_name v]" "map ur_key (corrected rs l v) = map ur_key rs @ [ur_key v]"
    by (simp_all add: after_rows [OF c])
  moreover have "forward (corrected rs l v)"
    using wf forward_snoc [OF _ v(4,3), of rs "ur_name l"] by (simp add: after_rows [OF c] rollups_wf_def)
  ultimately show ?thesis using wf v(1,2) by (simp add: rollups_wf_def)
qed

lemma find_after:
  assumes c: "correction rs l v"
  shows "find_rollup (corrected rs l v) x = (if x = ur_name v then Some v
     else map_option (\<lambda>r. if ur_name r = ur_name l then point_at (ur_name v) r else r) (find_rollup rs x))"
proof -
  note l = correctionD(2,3) [OF c] and v = correctionD(4-7) [OF c]
  have no: "find_rollup rs (ur_name v) = None" using correction_names [OF c] by (simp add: find_rollup_def find_None)
  have "find_rollup (rs @ [v]) x = (if x = ur_name v then Some v else find_rollup rs x)"
    using no by (cases "x = ur_name v"; cases "find_rollup rs x") (simp_all add: find_rollup_def find_append)
  moreover have "ur_name v \<noteq> ur_name l" using correction_names [OF c l(1)] by simp
  ultimately show ?thesis by (simp add: corrected_def find_update)
qed

lemma live_after:
  assumes c: "correction rs l v" and "rs' = rs" "x \<in> ur_name ` set rs" "set seen \<subseteq> ur_name ` set rs"
  shows "live_from (corrected rs l v) seen x = (if live_from rs' seen x = ur_name l then ur_name v else live_from rs' seen x)"
  using assms(2-)
proof (induction rs' seen x rule: live_from.induct)
  case (1 rs' seen x)
  note wf = correctionD(1) [OF c] and l = correctionD(2,3) [OF c] and v = correctionD(4-7) [OF c]
  have x: "x \<in> ur_name ` set rs" and seen: "set seen \<subseteq> ur_name ` set rs" and eq: "rs' = rs" using 1(2-4) by auto
  from x obtain r where r: "r \<in> set rs" "ur_name r = x" by auto
  from find_rollup_mem [OF wf r(1)] r(2) have f: "find_rollup rs x = Some r" by simp
  have nv: "x \<noteq> ur_name v" using correction_names [OF c r(1)] r(2) by simp
  show ?case
  proof (cases "x = ur_name l")
    case True
    with r l(1) wf have "r = l" by (metis (no_types) distinct_map inj_onD rollups_wf_def)
    have "live_from rs seen x = x" by (subst live_from.simps) (simp add: f \<open>r = l\<close> l(2))
    moreover have "live_from (corrected rs l v) (ur_name v # seen) (ur_name v) = ur_name v"
      by (subst live_from.simps) (simp add: find_after [OF c] v(4))
    moreover have "ur_name v \<notin> set seen" using seen v(1) by auto
    then have "live_from (corrected rs l v) seen x = live_from (corrected rs l v) (ur_name v # seen) (ur_name v)"
      using True v(3) nv f by (subst live_from.simps) (simp add: find_after [OF c] \<open>r = l\<close>)
    ultimately show ?thesis using True eq by simp
  next
    case False
    then have fa: "find_rollup (corrected rs l v) x = Some r" using f nv r(2) by (simp add: find_after [OF c])
    show ?thesis
    proof (cases "ur_superseded_by r")
      case None
      with f fa False eq show ?thesis by (subst (1 2 3) live_from.simps) simp
    next
      case (Some nxt)
      show ?thesis
      proof (cases "nxt = [] \<or> nxt \<in> set seen")
        case True
        with f fa Some False eq show ?thesis by (subst (1 2 3) live_from.simps) simp
      next
        case go: False
        obtain xs ys where split: "rs = xs @ r # ys" using r(1) by (auto dest: split_list)
        have nxt: "nxt \<in> ur_name ` set rs"
          using wf Some forward_append [of xs "r # ys"] by (auto simp: rollups_wf_def split)
        from 1(1) [of nxt] Some go nxt seen f eq
        have "live_from (corrected rs l v) (nxt # seen) nxt
            = (if live_from rs (nxt # seen) nxt = ur_name l then ur_name v else live_from rs (nxt # seen) nxt)" by simp
        moreover have "live_from rs seen x = live_from rs (nxt # seen) nxt"
          using f Some go by (subst live_from.simps) simp
        moreover have "live_from (corrected rs l v) seen x = live_from (corrected rs l v) (nxt # seen) nxt"
          using fa Some go by (subst live_from.simps) simp
        ultimately show ?thesis using eq by simp
      qed
    qed
  qed
qed

lemma billed_after:
  assumes c: "correction rs l v" and "rollup_by_key rs key \<noteq> None"
  shows "billed_row (corrected rs l v) key = (if billed_row rs key = Some l then Some v else billed_row rs key)"
proof -
  note wf = correctionD(1) [OF c] and l = correctionD(2,3) [OF c] and v = correctionD(4-7) [OF c]
  from assms(2) obtain r where r: "rollup_by_key rs key = Some r" by auto
  from key_mem [OF r] have rm: "r \<in> set rs" "ur_key r = key" by simp_all
  have "rollup_by_key (rs @ [v]) key = Some r"
    using r by (simp add: rollup_by_key_def find_append)
  then have ra: "rollup_by_key (corrected rs l v) key = Some (if ur_name r = ur_name l then point_at (ur_name v) r else r)"
    by (simp add: corrected_def key_update)
  obtain w where w: "billed_row rs key = Some w" "w \<in> set rs" "live_rollup rs (ur_name r) = ur_name w"
    by (rule billed_row_live [OF wf r])
  have live: "live_rollup (corrected rs l v) (ur_name r) = (if ur_name w = ur_name l then ur_name v else ur_name w)"
    using live_after [OF c refl, of "ur_name r" "[ur_name r]"] rm(1) w(3) by (simp add: live_rollup_def)
  have row: "billed_row (corrected rs l v) key = find_rollup (corrected rs l v) (live_rollup (corrected rs l v) (ur_name r))"
    using ra by (simp add: billed_row_def)
  have eq: "ur_name w = ur_name l \<longleftrightarrow> w = l"
    using wf w(2) l(1) unfolding rollups_wf_def by (metis distinct_map inj_onD)
  have wv: "ur_name w \<noteq> ur_name v" using w(2) v(1) by (metis imageI)
  show ?thesis
  proof (cases "w = l")
    case True
    with row live w(1) show ?thesis by (simp add: find_after [OF c])
  next
    case False
    with row live w(1) eq wv find_rollup_mem [OF wf w(2)] show ?thesis by (simp add: find_after [OF c])
  qed
qed

section \<open>Reports and corrections in any order\<close>

lemma override_terms_Inr:
  assumes wf: "rollups_wf rs" and run: "override_terms new rollup rate allowance rs = Inr (n, rs')"
    and new: "new \<noteq> []" and known: "rollup \<in> ur_name ` set rs"
  obtains l v where "correction rs l v" and "rs' = corrected rs l v" and "n = new" and "ur_name v = new"
    and "find_rollup rs (live_rollup rs rollup) = Some l"
    and "ur_quantity v = ur_quantity l" "ur_sequence v = ur_sequence l" "ur_resource v = ur_resource l"
    and "ur_locked_rate v = (case rate of None \<Rightarrow> ur_locked_rate l | Some r \<Rightarrow> r)"
    and "ur_locked_allowance v = (case allowance of None \<Rightarrow> ur_locked_allowance l | Some a \<Rightarrow> a)"
proof -
  from known obtain r where r: "r \<in> set rs" "ur_name r = rollup" by auto
  obtain l where l: "l \<in> set rs" "live_rollup rs rollup = ur_name l" "ur_superseded_by l = None"
    "find_rollup rs (live_rollup rs rollup) = Some l"
    using live_rollup_row [OF wf r(1)] r(2) by metis
  let ?v = "l\<lparr>ur_name := new,
             ur_locked_rate := (case rate of None \<Rightarrow> ur_locked_rate l | Some r \<Rightarrow> r),
             ur_locked_allowance := (case allowance of None \<Rightarrow> ur_locked_allowance l | Some a \<Rightarrow> a),
             ur_superseded_by := None,
             ur_key := ur_key l @ ''::v'' @ nat_str (version_of (ur_key l) + 1)\<rparr>"
  have f: "find_rollup rs (ur_name l) = Some l" using l(2,4) by simp
  note run = run [unfolded override_terms_def Let_def l(2) f option.case]
  have some: "\<not> (rate = None \<and> allowance = None)"
  proof
    assume "rate = None \<and> allowance = None"
    from run [unfolded if_P [OF this]] show False by simp
  qed
  from run [unfolded if_not_P [OF some] bindE_Inr] obtain rs1 where ins: "insert_rollup_row Pre_insert_check ?v rs = Inr rs1"
    and "Inr (new, update_rollup (ur_name l) (point_at new) rs1) = (Inr (n, rs') :: error + string \<times> rollups)" by blast
  from this(2) have out: "n = new" "rs' = update_rollup (ur_name l) (point_at new) rs1" by auto
  from ins have fresh: "ur_key ?v \<notin> ur_key ` set rs" "ur_name ?v \<notin> ur_name ` set rs" "rs1 = rs @ [?v]"
    by (auto simp: insert_rollup_row_def split: if_splits)
  have "correction rs l ?v" using wf l(1,3) fresh(1,2) new by (simp add: correction_def)
  moreover have "rs' = corrected rs l ?v" using out(2) fresh(3) by (simp add: corrected_def)
  ultimately show thesis using out(1) l(4) by (intro that [of l ?v]) simp_all
qed

text \<open>
  What happens to one usage key: a batch reported to it, or its terms corrected. Each is its own
  transaction, so a refused one leaves the table as it was.
\<close>

datatype usage_action = Report rat int | Correct string string "money option" "rat option"

fun usage_step :: "sub_env \<Rightarrow> estate \<Rightarrow> (nat \<Rightarrow> rollups \<Rightarrow> rollups \<times> rollups \<times> conflict) \<Rightarrow> meter \<Rightarrow> usage_action \<Rightarrow> rollups \<Rightarrow> rollups" where
  "usage_step env es rival m (Report qty seq) rs =
     (case ingest_rollup env es rival [] (m\<lparr>mt_quantity := qty, mt_sequence := seq\<rparr>) False rs of
        Inr (_, rs') \<Rightarrow> rs' | Inl _ \<Rightarrow> rs)"
| "usage_step env es rival m (Correct new rollup rate allowance) rs =
     (case override_terms new rollup rate allowance rs of Inr (_, rs') \<Rightarrow> rs' | Inl _ \<Rightarrow> rs)"

fun batches :: "usage_action list \<Rightarrow> (rat \<times> int) list" where
  "batches [] = []"
| "batches (Report qty seq # as) = (qty, seq) # batches as"
| "batches (Correct _ _ _ _ # as) = batches as"

fun names_given :: "usage_action \<Rightarrow> bool" where
  "names_given (Report _ _) = True"
| "names_given (Correct new rollup _ _) = (new \<noteq> [] \<and> rollup \<noteq> [])"

lemma override_unknown:
  assumes "rollup \<notin> ur_name ` set rs"
  shows "override_terms new rollup rate allowance rs = Inl DoesNotExist"
proof -
  have "find_rollup rs rollup = None" using assms by (auto simp: find_rollup_def find_None)
  then have "live_rollup rs rollup = rollup" unfolding live_rollup_def by (subst live_from.simps) simp
  with \<open>find_rollup rs rollup = None\<close> show ?thesis by (simp add: override_terms_def)
qed

lemma usage_step_figure:
  assumes wf: "rollups_wf rs" and key: "mt_key m = Some key" "key \<noteq> []" and present: "rollup_by_key rs key \<noteq> None"
    and mode: "reporting_mode_for (se_catalog env) (mt_type m) = ''Incremental''" and given: "names_given a"
  shows "rollups_wf (usage_step env es rival m a rs) \<and> rollup_by_key (usage_step env es rival m a rs) key \<noteq> None
    \<and> figure (usage_step env es rival m a rs) key = map_option (fold count_batch (batches [a])) (figure rs key)"
proof (cases a)
  case (Report qty seq)
  let ?m = "m\<lparr>mt_quantity := qty, mt_sequence := seq\<rparr>"
  from ingest_incremental [of rs ?m key env es rival "[]" False, OF wf _ key(2) present] key(1) mode
  obtain rs' where rs': "ingest_rollup env es rival [] ?m False rs = Inr (Some key, rs')" "rollups_wf rs'"
    "figure rs' key = map_option (count_batch (qty, seq)) (figure rs key)" "map ur_key rs' = map ur_key rs" by auto
  have "rollup_by_key rs' key \<noteq> None"
    using present rs'(4) unfolding rollup_by_key_def find_None by (metis (no_types, lifting) image_iff list.set_map)
  with rs' Report show ?thesis by simp
next
  case (Correct new rollup rate allowance)
  show ?thesis
  proof (cases "override_terms new rollup rate allowance rs")
    case (Inl e)
    with Correct wf present show ?thesis by (cases "figure rs key") simp_all
  next
    case (Inr res)
    obtain n rs' where res: "res = (n, rs')" by (cases res)
    have known: "rollup \<in> ur_name ` set rs" using override_unknown Inr by fastforce
    from given Correct have new: "new \<noteq> []" by simp
    from override_terms_Inr [OF wf Inr [unfolded res] new known] obtain l v where c: "correction rs l v"
      and rs': "rs' = corrected rs l v" and same: "ur_quantity v = ur_quantity l" "ur_sequence v = ur_sequence l" by metis
    have "figure rs' key = figure rs key"
      using billed_after [OF c present] same by (simp add: figure_def rs')
    moreover have "rollup_by_key rs' key \<noteq> None"
    proof -
      from present obtain r where "rollup_by_key rs key = Some r" by auto
      then have "rollup_by_key (rs @ [v]) key = Some r" by (simp add: rollup_by_key_def find_append)
      then show ?thesis by (simp add: rs' corrected_def key_update)
    qed
    moreover have "rollups_wf rs'" using wf_after [OF c] by (simp add: rs')
    moreover have "usage_step env es rival m a rs = rs'" using Correct Inr res by simp
    ultimately show ?thesis using Correct by (cases "figure rs key") simp_all
  qed
qed

lemma batches_Cons: "batches (a # as) = batches [a] @ batches as"
  by (cases a) auto

lemma fold_count_cursor:
  "snd fig \<le> snd (fold count_batch bs fig) \<and> (\<forall>b \<in> set bs. snd b \<le> snd (fold count_batch bs fig))"
proof (induction bs arbitrary: fig)
  case (Cons b bs)
  have "snd fig \<le> snd (count_batch b fig)" "snd b \<le> snd (count_batch b fig)" by (auto simp: count_batch_def)
  with Cons [of "count_batch b fig"] show ?case by (auto intro: order_trans)
qed simp



section \<open>Storage\<close>

definition storage_gib :: "rat list \<Rightarrow> rat" where
  "storage_gib used_bytes = sum_list used_bytes / BYTES_PER_GIB"

text \<open>The figure of a month's key: before the first reading it is nothing, billed up to the day before the start.\<close>

definition storage_base :: "date option \<Rightarrow> date \<Rightarrow> int" where
  "storage_base start_date month_start =
     (let started = (case start_date of None \<Rightarrow> month_start | Some d \<Rightarrow> d)
      in if started \<ge> month_start then day_of started - 1 else 0)"

definition month_figure :: "rollups \<Rightarrow> string \<Rightarrow> int \<Rightarrow> rat \<times> int" where
  "month_figure rs key base = (case figure rs key of None \<Rightarrow> (0, base) | Some f \<Rightarrow> f)"

lemma month_figure_Some: "figure rs key = Some f \<Longrightarrow> month_figure rs key base = f"
  by (simp add: month_figure_def)

definition bill_days :: "int \<Rightarrow> rat \<Rightarrow> int \<Rightarrow> rat \<times> int \<Rightarrow> rat \<times> int" where
  "bill_days month_days gib day fig = (if day \<le> snd fig then fig else (fst fig + gib * of_int (day - snd fig) / of_int month_days, day))"

lemma days_billed_figure:
  assumes "rollups_wf rs"
  shows "days_billed rs key start month_start = snd (month_figure rs key (storage_base start month_start))"
proof (cases "rollup_by_key rs key")
  case None
  then show ?thesis by (simp add: days_billed_def month_figure_def figure_def billed_row_def storage_base_def)
next
  case (Some r)
  obtain l where "billed_row rs key = Some l" by (rule billed_row_live [OF assms Some])
  with Some show ?thesis by (simp add: days_billed_def month_figure_def figure_def billed_row_def)
qed

lemma ingest_first:
  assumes "rollup_by_key rs key = None" "mt_key m = Some key" "key \<noteq> []" "resolve_terms env es m = Some t"
    and "name \<notin> ur_name ` set rs"
  shows "ingest_rollup env es alone name m refuse_lower rs
    = Inr (Some key, rs @ [new_rollup name m t (mt_quantity m) (mt_sequence m) key])"
proof -
  have "key \<notin> ur_key ` set rs" using assms(1) by (auto simp: rollup_by_key_def find_None)
  with assms show ?thesis
    by (simp add: ingest_rollup_def INGEST_RACE_RETRIES_def eval_nat_numeral alone_def insert_rollup_row_def new_rollup_def)
qed

lemma forward_append_live: "forward rs \<Longrightarrow> ur_superseded_by v = None \<Longrightarrow> forward (rs @ [v])"
  by (induction rs) (auto split: option.splits)

lemma figure_inserted:
  assumes wf: "rollups_wf rs" and new: "rollup_by_key rs key = None" "name \<notin> ur_name ` set rs"
    and v: "ur_name v = name" "ur_key v = key" "ur_superseded_by v = None"
  shows "rollups_wf (rs @ [v]) \<and> figure (rs @ [v]) key = Some (ur_quantity v, ur_sequence v)"
proof -
  have key: "key \<notin> ur_key ` set rs" using new(1) by (auto simp: rollup_by_key_def find_None)
  have wf': "rollups_wf (rs @ [v])"
    using wf new(2) key v by (simp add: rollups_wf_def forward_append_live)
  have by_key: "rollup_by_key (rs @ [v]) key = Some v" using new(1) v(2) by (simp add: rollup_by_key_def find_append)
  have f: "find_rollup (rs @ [v]) (ur_name v) = Some v" using find_rollup_mem [OF wf', of v] by simp
  from live_rollup_self [OF f v(3)] f by_key wf' show ?thesis by (simp add: figure_def billed_row_def)
qed

lemma apply_report_names:
  assumes "apply_report l mode qty seq lower rs = Inr rs'"
  shows "map ur_name rs' = map ur_name rs"
  using assms by (auto simp: apply_report_def update_rollup_def split: if_splits)

definition storage_step ::
  "sub_env \<Rightarrow> estate \<Rightarrow> string \<Rightarrow> string \<times> date \<times> rat list \<Rightarrow> rollups \<Rightarrow> rollups" where
  "storage_step env es subscription reading rs = (case reading of (name, today, used) \<Rightarrow>
     (case record_subscription_usage env es alone name subscription (Some used) today rs of
        Inr (_, rs') \<Rightarrow> rs' | Inl _ \<Rightarrow> rs))"

definition in_month :: "int \<Rightarrow> int \<Rightarrow> date \<Rightarrow> bool" where
  "in_month y mo today \<longleftrightarrow> year_of today = y \<and> month_of today = mo"

definition billable_storage :: "sub_env \<Rightarrow> estate \<Rightarrow> string \<Rightarrow> bool" where
  "billable_storage env es subject \<longleftrightarrow> reporting_mode_for (se_catalog env) ''Storage'' = ''Incremental''
     \<and> (\<forall>m. mt_type m = ''Storage'' \<longrightarrow> mt_resource m = subject \<longrightarrow> resolve_terms env es m \<noteq> None)"

lemma storage_step_figure:
  assumes wf: "rollups_wf rs" and s: "find_sub es n = Some s" and bill: "billable_storage env es (or_else (su_subject s) [])"
    and today: "in_month y mo today" and name: "name \<notin> ur_name ` set rs"
  defines "ms \<equiv> ymd2ord y mo 1"
  defines "key \<equiv> storage_key (or_else (su_subject s) []) ms" and "base \<equiv> storage_base (su_start_date s) ms"
  shows "rollups_wf (storage_step env es n (name, today, used) rs)
    \<and> month_figure (storage_step env es n (name, today, used) rs) key base
        = bill_days (days_in_month y mo) (storage_gib used) (day_of today) (month_figure rs key base)
    \<and> ur_name ` set (storage_step env es n (name, today, used) rs) \<subseteq> insert name (ur_name ` set rs)"
proof -
  have ms: "first_of_month today = ms" using today by (simp add: first_of_month_def ms_def in_month_def)
  have key_ne: "key \<noteq> []" by (simp add: key_def storage_key_def)
  let ?c = "snd (month_figure rs key base)"
  have billed: "days_billed rs key (su_start_date s) ms = ?c"
    by (simp add: days_billed_figure [OF wf] base_def)
  let ?m = "storage_meter env es s used key (day_of today - ?c) today"
  have m: "mt_key ?m = Some key" "mt_type ?m = ''Storage''" "mt_resource ?m = or_else (su_subject s) []"
    "mt_sequence ?m = day_of today"
    "mt_quantity ?m = storage_gib used * of_int (day_of today - ?c) / of_int (days_in_month y mo)"
    using today by (simp_all add: storage_meter_def storage_gib_def in_month_def)
  have mode: "reporting_mode_for (se_catalog env) (mt_type ?m) = ''Incremental''"
    using bill by (simp add: billable_storage_def m(2))
  have run: "record_subscription_usage env es alone name n (Some used) today rs
      = (if day_of today - ?c \<le> 0 then Inr (Some key, rs) else ingest_rollup env es alone name ?m False rs)"
    using s ms billed by (simp add: record_subscription_usage_def Let_def key_def)
  show ?thesis
  proof (cases "day_of today \<le> ?c")
    case True
    with run wf show ?thesis by (auto simp: storage_step_def bill_days_def)
  next
    case late: False
    show ?thesis
    proof (cases "rollup_by_key rs key")
      case None
      from bill m(2,3) obtain t where t: "resolve_terms env es ?m = Some t" by (auto simp: billable_storage_def)
      let ?v = "new_rollup name ?m t (mt_quantity ?m) (mt_sequence ?m) key"
      from ingest_first [OF None m(1) key_ne t name] run late
      have step: "storage_step env es n (name, today, used) rs = rs @ [?v]" by (simp add: storage_step_def)
      have v: "ur_name ?v = name" "ur_key ?v = key" "ur_superseded_by ?v = None" "ur_quantity ?v = mt_quantity ?m"
        "ur_sequence ?v = mt_sequence ?m" by (simp_all add: new_rollup_def)
      from figure_inserted [OF wf None name v(1-3)] v(4,5)
      have fig: "rollups_wf (rs @ [?v])" "figure (rs @ [?v]) key = Some (mt_quantity ?m, mt_sequence ?m)" by simp_all
      have "fst (month_figure rs key base) = 0" using None by (simp add: month_figure_def figure_def billed_row_def)
      with late have "bill_days (days_in_month y mo) (storage_gib used) (day_of today) (month_figure rs key base)
          = (mt_quantity ?m, day_of today)" unfolding bill_days_def m(5) by (simp only: if_False add_0)
      moreover have "month_figure (rs @ [?v]) key base = (mt_quantity ?m, day_of today)"
        using month_figure_Some [OF fig(2)] by (simp only: m(4))
      moreover have "ur_name ` set (rs @ [?v]) = insert name (ur_name ` set rs)" by (simp add: new_rollup_def)
      ultimately show ?thesis using fig(1) unfolding step by (simp only: subset_refl)
    next
      case (Some r)
      then have present: "rollup_by_key rs key \<noteq> None" by simp
      from ingest_incremental [OF wf m(1) key_ne present mode, of es alone name False]
      obtain rs' where rs': "ingest_rollup env es alone name ?m False rs = Inr (Some key, rs')" "rollups_wf rs'"
        "figure rs' key = map_option (count_batch (mt_quantity ?m, mt_sequence ?m)) (figure rs key)" by blast
      have names: "ur_name ` set rs' \<subseteq> ur_name ` set rs"
      proof -
        from billed_row_live [OF wf Some] obtain l where l: "billed_row rs key = Some l" by blast
        from rs'(1) have "apply_report l (reporting_mode_for (se_catalog env) (mt_type ?m)) (mt_quantity ?m) (mt_sequence ?m) False rs = Inr rs'"
          unfolding ingest_existing [OF wf m(1) key_ne Some l] bindE_Inr by blast
        from apply_report_names [OF this] show ?thesis by (metis order_refl set_map)
      qed
      have step: "storage_step env es n (name, today, used) rs = rs'" using run late rs'(1) by (simp add: storage_step_def)
      from billed_row_live [OF wf Some] obtain l where "billed_row rs key = Some l" by blast
      then have "figure rs key = Some (month_figure rs key base)" by (simp add: month_figure_def figure_def)
      then have "figure rs' key = Some (count_batch (mt_quantity ?m, mt_sequence ?m) (month_figure rs key base))"
        using rs'(3) by (simp only: option.map)
      then have "month_figure rs' key base = count_batch (mt_quantity ?m, mt_sequence ?m) (month_figure rs key base)"
        unfolding month_figure_def [of rs'] by (simp only: option.case)
      also have "\<dots> = bill_days (days_in_month y mo) (storage_gib used) (day_of today) (month_figure rs key base)"
        using late unfolding count_batch_def bill_days_def m(4,5) by (simp only: fst_conv snd_conv if_False)
      finally have "month_figure rs' key base
          = bill_days (days_in_month y mo) (storage_gib used) (day_of today) (month_figure rs key base)" .
      with step rs'(2) names show ?thesis by auto
    qed
  qed
qed


text \<open>The days of a month billed for a bucket of constant size, from the first reading to the last.\<close>

lemma bill_days_constant:
  assumes "fst fig = g * of_int (snd fig - base) / of_int D"
  shows "fst (bill_days D g day fig) = g * of_int (snd (bill_days D g day fig) - base) / of_int D
    \<and> snd (bill_days D g day fig) = max day (snd fig)"
  using assms by (auto simp: bill_days_def max_def add_divide_distrib [symmetric] algebra_simps)

definition storage_run ::
  "sub_env \<Rightarrow> estate \<Rightarrow> string \<Rightarrow> (string \<times> date \<times> rat list) list \<Rightarrow> rollups \<Rightarrow> rollups" where
  "storage_run env es n readings rs = fold (storage_step env es n) readings rs"

text \<open>
  Property C14: storage bills each day of a month once. Take any series of readings within a month of buckets
  that keep their size, with readings missed, repeated or arriving late, starting from a month not billed yet. The
  quantity the month is billed by is the size times the share of the month from the first billable day to the
  latest day read: a missed reading loses no day, a repeated one bills none twice.
\<close>

theorem storage_days_billed_once:
  fixes y mo :: int
  assumes wf: "rollups_wf rs" and s: "find_sub es n = Some s" and bill: "billable_storage env es (or_else (su_subject s) [])"
    and unbilled: "rollup_by_key rs (storage_key (or_else (su_subject s) []) (ymd2ord y mo 1)) = None"
    and readings: "\<forall>(name, today, used) \<in> set readings. in_month y mo today \<and> storage_gib used = g"
    and names: "distinct (map fst readings)" "fst ` set readings \<inter> ur_name ` set rs = {}"
  shows "month_figure (storage_run env es n readings rs) (storage_key (or_else (su_subject s) []) (ymd2ord y mo 1))
      (storage_base (su_start_date s) (ymd2ord y mo 1))
    = (let base = storage_base (su_start_date s) (ymd2ord y mo 1);
           latest = fold (\<lambda>(name, today, used). max (day_of today)) readings base
       in (g * of_int (latest - base) / of_int (days_in_month y mo), latest))"
proof -
  let ?base = "storage_base (su_start_date s) (ymd2ord y mo 1)"
  let ?key = "storage_key (or_else (su_subject s) []) (ymd2ord y mo 1)"
  let ?D = "days_in_month y mo"
  have gen: "month_figure (storage_run env es n readings rs) ?key ?base
      = (let latest = fold (\<lambda>(name, today, used). max (day_of today)) readings (snd (month_figure rs ?key ?base))
         in (g * of_int (latest - ?base) / of_int ?D, latest))"
    if "rollups_wf rs" "fst (month_figure rs ?key ?base) = g * of_int (snd (month_figure rs ?key ?base) - ?base) / of_int ?D"
      "\<forall>(name, today, used) \<in> set readings. in_month y mo today \<and> storage_gib used = g"
      "distinct (map fst readings)" "fst ` set readings \<inter> ur_name ` set rs = {}" for rs
    using that
  proof (induction readings arbitrary: rs)
    case Nil
    then show ?case by (simp add: storage_run_def Let_def prod_eq_iff)
  next
    case (Cons r readings)
    obtain name today used where r: "r = (name, today, used)" by (cases r)
    have today: "in_month y mo today" and gib: "storage_gib used = g" using Cons.prems(3) r by auto
    have name: "name \<notin> ur_name ` set rs" using Cons.prems(5) r by auto
    let ?rs = "storage_step env es n (name, today, used) rs"
    from storage_step_figure [OF Cons.prems(1) s bill today name, of used]
    have step: "rollups_wf ?rs" "month_figure ?rs ?key ?base = bill_days ?D g (day_of today) (month_figure rs ?key ?base)"
      "ur_name ` set ?rs \<subseteq> insert name (ur_name ` set rs)" by (simp_all add: gib)
    note const = bill_days_constant [OF Cons.prems(2), of "day_of today"]
    have "name \<notin> fst ` set readings" "fst ` set readings \<inter> ur_name ` set rs = {}" using Cons.prems(4,5) r by auto
    with step(3) have "fst ` set readings \<inter> ur_name ` set ?rs = {}" by blast
    from Cons.IH [OF step(1) _ _ _ this] const step(2) Cons.prems(3,4)
    have "month_figure (storage_run env es n readings ?rs) ?key ?base
      = (let latest = fold (\<lambda>(name, today, used). max (day_of today)) readings (max (day_of today) (snd (month_figure rs ?key ?base)))
         in (g * of_int (latest - ?base) / of_int ?D, latest))" by simp
    then show ?case by (simp add: r storage_run_def)
  qed
  have start: "month_figure rs ?key ?base = (0, ?base)"
    using unbilled by (simp add: month_figure_def figure_def billed_row_def)
  have "fst (month_figure rs ?key ?base) = g * of_int (snd (month_figure rs ?key ?base) - ?base) / of_int ?D"
    by (simp add: start)
  from gen [OF wf this readings names] show ?thesis by (simp only: start snd_conv Let_def)
qed

section \<open>Examples\<close>

text \<open>A storage family that reports increments and is priced live, and a bucket's subscription.\<close>

definition storage_catalog :: catalog where
  "storage_catalog = \<lparr>ct_rates = [], ct_overrides = [],
     ct_categories = [\<lparr>pc_name = ''Storage'', pc_billing_type = ''Metered'', pc_pricing_mode = Some ''Live'',
       pc_settlement_mode = None, pc_reporting_mode = Some ''Incremental'', pc_provision_target = None, pc_allowed = []\<rparr>],
     ct_plans = [\<lparr>pl_name = ''p'', pl_category = ''Storage'', pl_sub_category = None, pl_active = True,
       pl_includes = [\<lparr>pi_type = ''Storage'', pi_quantity = 1\<rparr>]\<rparr>],
     ct_profiles = []\<rparr>"

definition storage_env :: sub_env where
  "storage_env = \<lparr>se_ambient = \<lparr>am_now = 0, am_user = None\<rparr>, se_r6 = id, se_catalog = storage_catalog,
     se_levels = [], se_tiers = Map.empty, se_profiles = Map.empty, se_composed_label = (\<lambda>_. []),
     se_payment_gate = (\<lambda>_ _. None), se_staging_trial = (\<lambda>_. False), se_command_accepted = (\<lambda>_ _. True),
     se_control_server = (\<lambda>_ _. None), se_billing_deferred = (\<lambda>_. False)\<rparr>"

definition storage_estate :: estate where
  "storage_estate = \<lparr>es_subs = [(blank_sub ''a'' ''t'')\<lparr>su_subject := Some ''s'', su_start_date := Some 739771\<rparr>],
     es_changes = [], es_servers = [], es_projects = [], es_events = [], es_commands = []\<rparr>"

lemma storage_metered: "metered_plan_for storage_catalog ''Storage'' = Some (''p'', Some ''Live'')"
  by code_simp

lemma storage_incremental: "reporting_mode_for storage_catalog ''Storage'' = ''Incremental''"
  by code_simp

lemma storage_billable: "billable_storage storage_env es subject"
  by (simp add: billable_storage_def storage_env_def storage_incremental resolve_terms_def storage_metered)

text \<open>June 2026 for a bucket of one GiB that began on the 4th: read on the 5th, twice on the 10th, and on the 30th.\<close>

theorem storage_days_billed_once_witness:
  "month_figure (storage_run storage_env storage_estate ''a''
      [(''x'', 739772, [1073741824]), (''y'', 739777, [1073741824]), (''z'', 739777, [1073741824]),
       (''w'', 739797, [1073741824])] [])
     (storage_key ''s'' (ymd2ord 2026 6 1)) 3 = (9 / 10, 30)"
proof -
  let ?s = "(blank_sub ''a'' ''t'')\<lparr>su_subject := Some ''s'', su_start_date := Some 739771\<rparr>"
  let ?readings = "[(''x'', 739772, [1073741824]), (''y'', 739777, [1073741824]), (''z'', 739777, [1073741824]),
       (''w'', 739797, [1073741824])] :: (string \<times> date \<times> rat list) list"
  have days: "day_of 739772 = 5" "day_of 739777 = 10" "day_of 739797 = 30" "in_month 2026 6 739772"
    "in_month 2026 6 739777" "in_month 2026 6 739797" by code_simp+
  have base: "storage_base (Some 739771) (ymd2ord 2026 6 1) = 3" by code_simp
  have "days_in_month 2026 6 = 30" by code_simp
  have "storage_gib [1073741824] = 1" by (simp add: storage_gib_def BYTES_PER_GIB_def)
  have find: "find_sub storage_estate ''a'' = Some ?s" by (simp add: find_sub_def storage_estate_def blank_sub_def)
  have "month_figure (storage_run storage_env storage_estate ''a'' ?readings [])
      (storage_key (or_else (su_subject ?s) []) (ymd2ord 2026 6 1)) (storage_base (su_start_date ?s) (ymd2ord 2026 6 1))
    = (let base = storage_base (su_start_date ?s) (ymd2ord 2026 6 1);
           latest = fold (\<lambda>(name, today, used). max (day_of today)) ?readings base
       in (1 * of_int (latest - base) / of_int (days_in_month 2026 6), latest))"
    by (rule storage_days_billed_once [OF _ find storage_billable])
      (simp_all add: rollups_wf_def rollup_by_key_def days \<open>storage_gib [1073741824] = 1\<close>)
  then show ?thesis
    using base \<open>days_in_month 2026 6 = 30\<close> by (simp add: blank_sub_def days)
qed

definition example_rollup :: rollup where
  "example_rollup = \<lparr>ur_name = ''r'', ur_resource = ''s'', ur_team = Some ''t'', ur_cluster = None, ur_type = ''Storage'',
     ur_period_start = None, ur_quantity = 5, ur_unit = ''GB'', ur_currency = None, ur_locked_allowance = 0,
     ur_locked_rate = 2, ur_key = ''k'', ur_sequence = 1, ur_superseded_by = None\<rparr>"

definition example_meter :: meter where
  "example_meter = \<lparr>mt_key = Some ''k'', mt_resource = ''s'', mt_type = ''Storage'', mt_team = Some ''t'', mt_cluster = None,
     mt_currency = None, mt_period_start = None, mt_quantity = 0, mt_unit = ''GB'', mt_sequence = 0\<rparr>"



section \<open>The race of two first reports\<close>

text \<open>The tables a report meets while other transactions commit between its reads and its inserts.\<close>

fun tables_met :: "nat \<Rightarrow> (nat \<Rightarrow> rollups \<Rightarrow> rollups \<times> rollups \<times> conflict) \<Rightarrow> rollups \<Rightarrow> rollups set" where
  "tables_met 0 rival rs = {rs}"
| "tables_met (Suc n) rival rs =
     insert rs (insert (fst (rival n rs)) (tables_met n rival (fst (snd (rival n rs)))))"

text \<open>
  A report counted once: a new row that carries it, or the figure of the billed row moved by its
  quantity and its sequence, which was past the row's, and nothing else of the table.
\<close>

definition counted_on :: "meter \<Rightarrow> string \<Rightarrow> string \<Rightarrow> rollups \<Rightarrow> rollups \<Rightarrow> bool" where
  "counted_on m key name seen rs' \<longleftrightarrow>
     (case figure seen key of
        None \<Rightarrow> (\<exists>v. rs' = seen @ [v] \<and> ur_key v = key \<and> ur_name v = name)
                 \<and> figure rs' key = Some (mt_quantity m, mt_sequence m)
      | Some (q, s) \<Rightarrow> s < mt_sequence m \<and> figure rs' key = Some (q + mt_quantity m, mt_sequence m)
                 \<and> map ur_key rs' = map ur_key seen
                 \<and> (\<forall>k. map_option ur_name (billed_row seen k) \<noteq> map_option ur_name (billed_row seen key)
                      \<longrightarrow> billed_row rs' k = billed_row seen k))"

text \<open>A report passed over: the billed row's sequence was already as far, and nothing is written.\<close>

definition passed_over :: "meter \<Rightarrow> string \<Rightarrow> rollups \<Rightarrow> rollups \<Rightarrow> bool" where
  "passed_over m key seen rs' \<longleftrightarrow> rs' = seen \<and> (\<exists>q s. figure seen key = Some (q, s) \<and> mt_sequence m \<le> s)"

text \<open>Every attempt found no row, and its insert met one.\<close>

fun lost_races :: "nat \<Rightarrow> (nat \<Rightarrow> rollups \<Rightarrow> rollups \<times> rollups \<times> conflict) \<Rightarrow> string \<Rightarrow> string \<Rightarrow> rollups \<Rightarrow> bool" where
  "lost_races 0 rival key name rs = True"
| "lost_races (Suc n) rival key name rs =
     (rollup_by_key rs key = None
      \<and> (key \<in> ur_key ` set (fst (rival n rs)) \<or> name \<in> ur_name ` set (fst (rival n rs)))
      \<and> lost_races n rival key name (fst (snd (rival n rs))))"

text \<open>What a report may be answered, with \<open>n\<close> attempts left.\<close>

definition race_answer ::
  "nat \<Rightarrow> (nat \<Rightarrow> rollups \<Rightarrow> rollups \<times> rollups \<times> conflict) \<Rightarrow> sub_env \<Rightarrow> estate \<Rightarrow> meter \<Rightarrow> string \<Rightarrow> string \<Rightarrow> rollups
     \<Rightarrow> error + string option \<times> rollups \<Rightarrow> bool" where
  "race_answer n rival env es m key name rs out \<longleftrightarrow>
     (case out of
        Inr (Some k, rs') \<Rightarrow> k = key \<and> (\<exists>seen \<in> tables_met n rival rs. counted_on m key name seen rs' \<or> passed_over m key seen rs')
      | Inr (None, rs') \<Rightarrow> rs' \<in> tables_met n rival rs
          \<and> (resolve_terms env es m = None \<or> lost_races n rival key name rs)
      | Inl e \<Rightarrow> e = UniqueValidation \<and> (\<exists>seen \<in> tables_met n rival rs. figure seen key \<noteq> None))"

lemma figure_present:
  assumes "rollups_wf rs"
  shows "figure rs key = None \<longleftrightarrow> rollup_by_key rs key = None"
proof (cases "rollup_by_key rs key")
  case (Some r)
  from billed_row_live [OF assms this] obtain l where "billed_row rs key = Some l" by blast
  with Some show ?thesis by (simp add: figure_def)
qed (simp add: figure_def billed_row_def)

text \<open>A row under the key: the report lands on it, or its sequence was already counted.\<close>

lemma report_lands:
  assumes wf: "rollups_wf rs" and key: "mt_key m = Some key" "key \<noteq> []" and present: "rollup_by_key rs key = Some r"
    and mode: "reporting_mode_for (se_catalog env) (mt_type m) = ''Incremental''"
  shows "\<exists>rs'. ingest_attempts (Suc n) env es rival name m key ''Incremental'' False rs = Inr (Some key, rs')
    \<and> (counted_on m key name rs rs' \<or> passed_over m key rs rs')"
proof -
  have some: "rollup_by_key rs key \<noteq> None" using present by simp
  from ingest_incremental [OF wf key some mode, of es rival name False] obtain rs' where
    rs': "ingest_rollup env es rival name m False rs = Inr (Some key, rs')"
      "figure rs' key = map_option (count_batch (mt_quantity m, mt_sequence m)) (figure rs key)"
      "\<forall>k. map_option ur_name (billed_row rs k) \<noteq> map_option ur_name (billed_row rs key) \<longrightarrow> billed_row rs' k = billed_row rs k"
      "map ur_key rs' = map ur_key rs" "mt_sequence m \<le> snd (the (figure rs key)) \<longrightarrow> rs' = rs" by blast
  from some figure_present [OF wf] obtain q s where f: "figure rs key = Some (q, s)" by (cases "figure rs key") auto
  have "counted_on m key name rs rs' \<or> passed_over m key rs rs'"
  proof (cases "mt_sequence m \<le> s")
    case True
    with rs'(5) f show ?thesis by (simp add: passed_over_def)
  next
    case False
    with rs'(2-4) f show ?thesis by (simp add: counted_on_def count_batch_def)
  qed
  moreover have "ingest_attempts (Suc n) env es rival name m key ''Incremental'' False rs
      = ingest_attempts INGEST_RACE_RETRIES env es rival name m key ''Incremental'' False rs"
    using present by (simp add: INGEST_RACE_RETRIES_def eval_nat_numeral)
  moreover have "\<dots> = Inr (Some key, rs')" using rs'(1) key mode by (simp add: ingest_rollup_def)
  ultimately show ?thesis by auto
qed

lemma insert_rollup_row_cases:
  obtains (fits) "insert_rollup_row how v met = Inr (met @ [v])" "ur_key v \<notin> ur_key ` set met" "ur_name v \<notin> ur_name ` set met"
    | (retry) "insert_rollup_row how v met = Inl DuplicateEntry" "ur_key v \<in> ur_key ` set met \<or> ur_name v \<in> ur_name ` set met"
    | (raised) "insert_rollup_row how v met = Inl UniqueValidation" "ur_key v \<in> ur_key ` set met"
proof (cases "ur_key v \<in> ur_key ` set met")
  case True
  with retry raised show thesis by (cases how) (auto simp: insert_rollup_row_def conflict_error_def)
next
  case False
  with retry fits show thesis by (cases "ur_name v \<in> ur_name ` set met") (auto simp: insert_rollup_row_def)
qed

lemma ingest_attempts_answer:
  assumes "\<forall>t \<in> tables_met n rival rs. rollups_wf t" and key: "mt_key m = Some key" "key \<noteq> []"
    and mode: "reporting_mode_for (se_catalog env) (mt_type m) = ''Incremental''"
  shows "race_answer n rival env es m key name rs (ingest_attempts n env es rival name m key ''Incremental'' False rs)"
  using assms(1)
proof (induction n arbitrary: rs)
  case (Suc n)
  have wf: "rollups_wf rs" using Suc.prems(1) by simp
  consider (row) r where "rollup_by_key rs key = Some r"
    | (no_terms) "rollup_by_key rs key = None" "resolve_terms env es m = None"
    | (insert) t where "rollup_by_key rs key = None" "resolve_terms env es m = Some t"
    by (cases "rollup_by_key rs key"; cases "resolve_terms env es m") auto
  then show ?case
  proof cases
    case row
    from report_lands [OF wf key row mode, of n es rival name] obtain rs' where
      "ingest_attempts (Suc n) env es rival name m key ''Incremental'' False rs = Inr (Some key, rs')"
      "counted_on m key name rs rs' \<or> passed_over m key rs rs'" by blast
    then show ?thesis by (auto simp: race_answer_def simp del: ingest_attempts.simps)
  next
    case no_terms
    then show ?thesis by (simp add: race_answer_def)
  next
    case (insert t)
    obtain met after how where rival: "rival n rs = (met, after, how)" by (cases "rival n rs")
    let ?v = "new_rollup name m t (mt_quantity m) (mt_sequence m) key"
    have v: "ur_name ?v = name" "ur_key ?v = key" "ur_superseded_by ?v = None" "ur_quantity ?v = mt_quantity m"
      "ur_sequence ?v = mt_sequence m" by (simp_all add: new_rollup_def)
    have met: "rollups_wf met" using Suc.prems(1) rival by simp
    have run: "ingest_attempts (Suc n) env es rival name m key ''Incremental'' False rs =
        (case insert_rollup_row how ?v met of Inr rs \<Rightarrow> Inr (Some key, rs)
         | Inl DuplicateEntry \<Rightarrow> ingest_attempts n env es rival name m key ''Incremental'' False after | Inl e \<Rightarrow> Inl e)"
      using insert rival by simp
    show ?thesis
    proof (cases rule: insert_rollup_row_cases [of how ?v met])
      case fits
      then have none: "rollup_by_key met key = None" by (auto simp: rollup_by_key_def find_None v)
      then have "figure met key = None" using figure_present [OF met] by blast
      with figure_inserted [OF met none _ v(1-3)] fits(3) v
      have "counted_on m key name met (met @ [?v])" by (simp add: counted_on_def)
      then show ?thesis using rival fits(1) by (simp add: race_answer_def run del: ingest_attempts.simps)
    next
      case retry
      with run have step: "ingest_attempts (Suc n) env es rival name m key ''Incremental'' False rs
          = ingest_attempts n env es rival name m key ''Incremental'' False after" by simp
      have "race_answer n rival env es m key name after (ingest_attempts n env es rival name m key ''Incremental'' False after)"
        using Suc rival by simp
      then show ?thesis unfolding step race_answer_def
        using retry(2) insert rival v(1,2) by (auto split: sum.splits option.splits)
    next
      case raised
      then have "rollup_by_key met key \<noteq> None" by (auto simp: rollup_by_key_def find_None v)
      with figure_present [OF met] have "figure met key \<noteq> None" by simp
      with raised rival show ?thesis by (auto simp: race_answer_def run simp del: ingest_attempts.simps)
    qed
  qed
qed (simp add: race_answer_def)

text \<open>
  Property C13: a report that races another for the unique key is counted once, or not acknowledged, or
  was already overtaken. For a resource type whose reports are increments (\<open>Incremental\<close>), whatever the other
  transactions commit or roll back between its reads and its inserts: a report that is acknowledged has
  been counted exactly once on one of the tables it met, as a new row or on the winner's row, unless the
  row it met stood at its sequence or past it, and then nothing is written. A report that is not
  acknowledged has written nothing; either nothing bills it, or it lost all three races. The one error
  is the unique key's own, raised when the conflict surfaces as \<open>UniqueValidationError\<close>, which the
  code does not catch.
\<close>

theorem racing_report_taken_once:
  assumes "\<forall>t \<in> tables_met 3 rival rs. rollups_wf t" and "mt_key m = Some key" "key \<noteq> []"
    and "reporting_mode_for (se_catalog env) (mt_type m) = ''Incremental''"
  shows "case ingest_rollup env es rival name m False rs of
      Inr (Some k, rs') \<Rightarrow> k = key
        \<and> (\<exists>seen \<in> tables_met 3 rival rs. counted_on m key name seen rs' \<or> passed_over m key seen rs')
    | Inr (None, rs') \<Rightarrow> rs' \<in> tables_met 3 rival rs
        \<and> (resolve_terms env es m = None \<or> lost_races 3 rival key name rs)
    | Inl e \<Rightarrow> e = UniqueValidation \<and> (\<exists>seen \<in> tables_met 3 rival rs. figure seen key \<noteq> None)"
  using ingest_attempts_answer [OF assms(1-4)]
  by (simp add: ingest_rollup_def assms(2-4) INGEST_RACE_RETRIES_def race_answer_def)

text \<open>The winner inserts its row of 5 just before us: our 4 lands on it, unless the check before the insert sees it.\<close>

definition example_rival :: "conflict \<Rightarrow> nat \<Rightarrow> rollups \<Rightarrow> rollups \<times> rollups \<times> conflict" where
  "example_rival how n rs = ([example_rollup], [example_rollup], how)"

theorem racing_report_taken_once_witness:
  "\<exists>rs'. ingest_rollup storage_env storage_estate (example_rival At_database) ''n'' (example_meter\<lparr>mt_quantity := 4, mt_sequence := 2\<rparr>) False []
      = Inr (Some ''k'', rs')
    \<and> (\<exists>seen \<in> tables_met 3 (example_rival At_database) [].
         counted_on (example_meter\<lparr>mt_quantity := 4, mt_sequence := 2\<rparr>) ''k'' ''n'' seen rs'
         \<or> passed_over (example_meter\<lparr>mt_quantity := 4, mt_sequence := 2\<rparr>) ''k'' seen rs')"
proof -
  let ?m = "example_meter\<lparr>mt_quantity := 4, mt_sequence := 2\<rparr>" and ?rival = "example_rival At_database"
  have run: "ingest_rollup storage_env storage_estate ?rival ''n'' ?m False []
      = Inr (Some ''k'', [example_rollup\<lparr>ur_quantity := 9, ur_sequence := 2\<rparr>])" by code_simp
  have m: "mt_key ?m = Some ''k''" "reporting_mode_for (se_catalog storage_env) (mt_type ?m) = ''Incremental''"
    by (simp_all add: example_meter_def storage_env_def storage_incremental)
  have "\<forall>t \<in> tables_met 3 ?rival []. rollups_wf t"
    by (simp add: eval_nat_numeral example_rival_def rollups_wf_def example_rollup_def)
  from racing_report_taken_once [OF this m(1) _ m(2), of storage_estate "''n''"] run show ?thesis by simp
qed

text \<open>
  A report overtaken in the race is acknowledged and its quantity is not counted: the winner's row of
  sequence 1 stands, and our first report of sequence 1 or less is passed over. And the report that
  meets the row in the check before the insert raises.
\<close>

lemma overtaken_report_dropped:
  "ingest_rollup storage_env storage_estate (example_rival At_database) ''n'' (example_meter\<lparr>mt_quantity := 4, mt_sequence := 0\<rparr>) False []
    = Inr (Some ''k'', [example_rollup])"
  by code_simp

lemma racing_report_raises:
  "ingest_rollup storage_env storage_estate (example_rival Pre_insert_check) ''n'' (example_meter\<lparr>mt_quantity := 4, mt_sequence := 2\<rparr>) False []
    = Inl UniqueValidation"
  by code_simp

end
