(* ===== verification/Commitments.thy ===== *)
theory Commitments
  imports Metering Invoice_Lines Payment_Data
begin

text \<open>
  The commitment discount (\<open>catalog/commitments.py\<close>): a team promises a monthly spend on fixed
  bundles for a term and gets a discount while it keeps to it; a month below the floor breaches the
  commitment, and the discounts already given are charged back.

  A line of an invoice is either a fixed line of \<open>revenue/invoicing/lines.py\<close> or a metered line of
  \<open>revenue/metering.py\<close>, with the project it is tagged with.
\<close>

section \<open>Lines\<close>

datatype billed = Bundle line | Usage metered_line

record bill_line =
  bl_what :: billed
  bl_project :: "(string \<times> string) option"

fun billed_type :: "billed \<Rightarrow> string" where
  "billed_type (Bundle l) = ''bundle''"
| "billed_type (Usage u) = ml_type u"

fun billed_amount :: "billed \<Rightarrow> money" where
  "billed_amount (Bundle l) = ln_amount l"
| "billed_amount (Usage u) = ml_amount u"

fun billed_resource :: "billed \<Rightarrow> string option" where
  "billed_resource (Bundle l) = ln_resource l"
| "billed_resource (Usage u) = Some (ml_resource u)"

abbreviation bl_amount :: "bill_line \<Rightarrow> money" where
  "bl_amount b \<equiv> billed_amount (bl_what b)"

definition BUNDLE :: string where "BUNDLE = ''bundle''"

section \<open>The commitment\<close>

record commitment =
  cm_name :: string
  cm_team :: string
  cm_status :: string
  cm_floor :: money
  cm_discount_pct :: rat
  cm_term_months :: int
  cm_started_at :: "date option"

text \<open>\<open>frappe.utils.add_months\<close>: the same day of a later month, or that month's last day.\<close>

definition add_months :: "date \<Rightarrow> int \<Rightarrow> date" where
  "add_months d n =
     (let m = year_of d * 12 + (month_of d - 1) + n; y = m div 12; k = m mod 12 + 1
      in ymd2ord y k (min (day_of d) (days_in_month y k)))"

definition active_commitment :: "commitment list \<Rightarrow> string \<Rightarrow> date \<Rightarrow> commitment option" where
  "active_commitment cs team on_date =
     (case find (\<lambda>c. cm_team c = team \<and> cm_status c = ''Active'') (rev cs) of
        None \<Rightarrow> None
      | Some c \<Rightarrow> (case cm_started_at c of
          None \<Rightarrow> Some c
        | Some start \<Rightarrow> if start \<le> on_date \<and> on_date < add_months start (cm_term_months c) then Some c else None))"

definition fixed_bundle_spend :: "(rat \<Rightarrow> rat) \<Rightarrow> bill_line list \<Rightarrow> money" where
  "fixed_bundle_spend r2 ls = r2 (sum_where (\<lambda>l. billed_type (bl_what l) = BUNDLE) bl_amount ls)"

definition discount_enjoyed :: "(rat \<Rightarrow> rat) \<Rightarrow> invoice list \<Rightarrow> string \<Rightarrow> date option \<Rightarrow> money" where
  "discount_enjoyed r2 invoices team since =
     r2 (sum_where (\<lambda>iv. inv_team iv = team \<and> (case since of None \<Rightarrow> True | Some d \<Rightarrow> d \<le> inv_period_start iv)
           \<and> inv_status iv \<noteq> ''Cancelled'') inv_commitment_discount invoices)"

record verdict =
  vd_discount :: money
  vd_clawback :: money
  vd_breach :: "string option"

definition resolve_commitment ::
  "(rat \<Rightarrow> rat) \<Rightarrow> commitment list \<Rightarrow> invoice list \<Rightarrow> string \<Rightarrow> bill_line list \<Rightarrow> date \<Rightarrow> verdict" where
  "resolve_commitment r2 cs invoices team ls on_date =
     (case active_commitment cs team on_date of
        None \<Rightarrow> \<lparr>vd_discount = 0, vd_clawback = 0, vd_breach = None\<rparr>
      | Some c \<Rightarrow>
          let spend = fixed_bundle_spend r2 ls in
          if spend \<ge> cm_floor c
          then \<lparr>vd_discount = r2 (spend * cm_discount_pct c / 100), vd_clawback = 0, vd_breach = None\<rparr>
          else \<lparr>vd_discount = 0, vd_clawback = discount_enjoyed r2 invoices team (cm_started_at c),
                vd_breach = Some (cm_name c)\<rparr>)"

definition sdoc_of_commitment :: "commitment \<Rightarrow> sdoc" where
  "sdoc_of_commitment c = sdoc_of ''Commitment'' (cm_name c) (cm_team c) (cm_status c) None"

text \<open>
  \<open>mark_breached\<close> reads the commitment as its transaction sees it (\<open>seen\<close>) and saves it over the
  stored one; the framework refuses to save over a row another transaction has changed since.
\<close>

definition mark_breached ::
  "ambient \<Rightarrow> verdict \<Rightarrow> commitment list \<Rightarrow> commitment list \<Rightarrow> billing_event list
     \<Rightarrow> error + commitment list \<times> billing_event list" where
  "mark_breached env v seen cs evs =
     (if \<not> truthy (vd_breach v) then Inr (cs, evs)
      else case find (\<lambda>c. Some (cm_name c) = vd_breach v) seen of
        None \<Rightarrow> Inl DoesNotExist
      | Some c \<Rightarrow>
          bindE (transition env (sdoc_of_commitment c) ''Breached'' (Some ''commitment period breached'')
                   (Some ''scheduler'') None None None evs)
            (\<lambda>(doc, evs'). if c \<notin> set cs then Inl (ValidationError ''modified after you have opened it'')
               else Inr (map (\<lambda>x. if cm_name x = cm_name c then x\<lparr>cm_status := the (sd_fields doc ''status'')\<rparr> else x) cs,
                         evs')))"

end
