(* ===== verification/Generation.thy ===== *)
theory Generation
  imports Commitments
begin

text \<open>
  Drafting the invoice of one team for one month (\<open>revenue/invoicing/generate.py\<close>,
  \<open>doctype/billing_run_team/billing_run_team.py\<close>): rating the team's fixed and metered lines into
  an invoice, and the insert several workers may race for.

  A transaction reads its plain reads from the snapshot it began with (\<open>seen\<close>), while an insert, a
  locking read and a save meet the committed tables (\<open>now\<close>). The unique index on \<open>period_key\<close> is
  what an insert meets there. What a raise leaves is what its caller rolls back to, so an operation
  that raises returns no tables.
\<close>

section \<open>State\<close>

record outcome_row =
  bo_team :: string
  bo_period_end :: date
  bo_outcome :: string
  bo_reason :: "string option"
  bo_invoice :: "string option"
  bo_modified :: datetime

record billing_run =
  br_period_end :: date
  br_period_start :: date
  br_status :: string
  br_teams :: int
  br_drafted :: int
  br_pending_draft :: int
  br_collected :: int
  br_pending_collection :: int
  br_failures :: int
  br_by_status :: "(string \<times> int) list"
  br_started_at :: datetime
  br_completed_at :: "datetime option"

record books =
  bk_world :: world
  bk_estate :: estate
  bk_rollups :: rollups
  bk_commitments :: "commitment list"
  bk_outcomes :: "outcome_row list"
  bk_lines :: "(string \<times> bill_line list) list"
  bk_series :: "string \<Rightarrow> nat"
  bk_runs :: "billing_run list"

text \<open>
  \<open>ge_project_title\<close> is the title of a Project, \<open>ge_snapshot_region\<close> the region of a server's
  snapshot, \<open>ge_amount_text\<close> an amount as an f-string writes it.
\<close>

record gen_env =
  ge_pay :: pay_env
  ge_sub :: sub_env
  ge_snapshot_region :: "string \<Rightarrow> string option"
  ge_project_title :: "string \<Rightarrow> string"
  ge_amount_text :: "money \<Rightarrow> string"

abbreviation ge_r2 :: "gen_env \<Rightarrow> rat \<Rightarrow> rat" where "ge_r2 env \<equiv> pe_r2 (ge_pay env)"
abbreviation ge_ambient :: "gen_env \<Rightarrow> ambient" where "ge_ambient env \<equiv> pe_ambient (ge_pay env)"
abbreviation bk_invoices :: "books \<Rightarrow> invoice list" where "bk_invoices b \<equiv> pw_invoices (bk_world b)"

definition bk_event ::
  "gen_env \<Rightarrow> string \<Rightarrow> string \<Rightarrow> string \<Rightarrow> money option \<Rightarrow> string option \<Rightarrow> books \<Rightarrow> books" where
  "bk_event env team event_type reason amount outcome b = b\<lparr>bk_world := (bk_world b)\<lparr>pw_events :=
     record_team_event (ge_ambient env) team event_type ''Invoice'' (Some reason) amount outcome
       (pw_events (bk_world b))\<rparr>\<rparr>"

section \<open>What the run did for a team\<close>

definition INVOICED :: string where "INVOICED = ''Invoiced''"
definition NOTHING_TO_BILL :: string where "NOTHING_TO_BILL = ''Nothing to Bill''"
definition BELOW_MINIMUM :: string where "BELOW_MINIMUM = ''Below Minimum''"
definition FAILED :: string where "FAILED = ''Failed''"

definition outcome_of :: "string \<Rightarrow> date \<Rightarrow> outcome_row list \<Rightarrow> outcome_row option" where
  "outcome_of team period_end rows = find (\<lambda>r. bo_team r = team \<and> bo_period_end r = period_end) rows"

definition record_outcome ::
  "gen_env \<Rightarrow> books \<Rightarrow> string \<Rightarrow> date \<Rightarrow> string \<Rightarrow> string option \<Rightarrow> string option \<Rightarrow> books \<Rightarrow> books" where
  "record_outcome env seen team period_end outcome reason iv b =
     (let row = \<lparr>bo_team = team, bo_period_end = period_end, bo_outcome = outcome, bo_reason = reason, bo_invoice = iv,
       bo_modified = am_now (ge_ambient env)\<rparr>
      in if outcome_of team period_end (bk_outcomes seen) \<noteq> None
         then b\<lparr>bk_outcomes := map (\<lambda>r. if bo_team r = team \<and> bo_period_end r = period_end then row else r) (bk_outcomes b)\<rparr>
         else if outcome_of team period_end (bk_outcomes b) \<noteq> None then b
         else b\<lparr>bk_outcomes := bk_outcomes b @ [row]\<rparr>)"

definition has_same_outcome :: "books \<Rightarrow> string \<Rightarrow> date \<Rightarrow> string \<Rightarrow> string \<Rightarrow> bool" where
  "has_same_outcome seen team period_end outcome reason \<longleftrightarrow>
     (\<exists>r \<in> set (bk_outcomes seen). bo_team r = team \<and> bo_period_end r = period_end
        \<and> bo_outcome r = outcome \<and> bo_reason r = Some reason)"

section \<open>The lines of a team\<close>

definition is_live_for :: "string \<Rightarrow> date \<Rightarrow> date \<Rightarrow> invoice \<Rightarrow> bool" where
  "is_live_for team ps pe iv \<longleftrightarrow>
     inv_team iv = team \<and> inv_period_start iv = ps \<and> inv_period_end iv = pe \<and> inv_status iv \<noteq> ''Cancelled''"

definition live_invoice :: "books \<Rightarrow> string \<Rightarrow> date \<Rightarrow> date \<Rightarrow> string option" where
  "live_invoice b team ps pe = map_option inv_name (find (is_live_for team ps pe) (rev (bk_invoices b)))"

definition team_subs :: "books \<Rightarrow> string \<Rightarrow> subscription list" where
  "team_subs b team = filter (\<lambda>s. su_team s = team) (rev (es_subs (bk_estate b)))"

text \<open>A later row of the map replaces an earlier one, so the last subscription read wins.\<close>

definition resource_project_map :: "gen_env \<Rightarrow> books \<Rightarrow> string \<Rightarrow> (string \<times> string \<times> string) list" where
  "resource_project_map env b team =
     (let enabled = map pj_name (filter (\<lambda>p. pj_team p = team \<and> pj_enabled p) (es_projects (bk_estate b)))
      in rev (List.map_filter (\<lambda>s.
           case su_project s of None \<Rightarrow> None
           | Some p \<Rightarrow> if p = [] \<or> p \<notin> set enabled then None
               else let resource = or_opt (su_server s) (su_subject s)
                    in if truthy resource then Some (the resource, p, ge_project_title env p) else None)
           (team_subs b team)))"

definition tag_projects :: "gen_env \<Rightarrow> books \<Rightarrow> string \<Rightarrow> bill_line list \<Rightarrow> bill_line list" where
  "tag_projects env b team ls =
     map (\<lambda>l. case Option.bind (billed_resource (bl_what l)) (map_of (resource_project_map env b team)) of
                None \<Rightarrow> l | Some tag \<Rightarrow> l\<lparr>bl_project := Some tag\<rparr>) ls"

definition server_region :: "books \<Rightarrow> string \<Rightarrow> string option" where
  "server_region b name = Option.bind (find_server (bk_estate b) name) sv_region"

definition sub_row :: "subscription \<Rightarrow> subscription_row" where
  "sub_row s = \<lparr>sb_name = su_name s, sb_server = su_server s, sb_snapshot = su_snapshot s, sb_ip_server = su_ip_server s\<rparr>"

definition changes_by_subscription :: "books \<Rightarrow> string \<Rightarrow> change list" where
  "changes_by_subscription b name =
     map (\<lambda>c. \<lparr>ch_type = sc_type c, ch_plan = or_else (sc_new c) [], ch_rate = sc_rate c, ch_at = sc_at c\<rparr>)
       (sort_key sc_at (filter (\<lambda>c. sc_subscription c = name \<and> sc_type c \<in> set SEGMENT_CHANGE_TYPES)
          (es_changes (bk_estate b))))"

definition fixed_lines :: "gen_env \<Rightarrow> books \<Rightarrow> string \<Rightarrow> date \<Rightarrow> date \<Rightarrow> line list" where
  "fixed_lines env b team ps pe =
     team_line_items (ge_r2 env) (server_region b) (ge_snapshot_region env) (map sub_row (team_subs b team))
       (changes_by_subscription b) ps pe"

definition team_clusters :: "books \<Rightarrow> string \<Rightarrow> string list" where
  "team_clusters b team =
     (let subs = team_subs b team;
          servers = map (\<lambda>s. server_region b (the (su_server s))) (filter (\<lambda>s. truthy (su_server s)) subs);
          services = map su_cluster (filter (\<lambda>s. \<not> truthy (su_server s)) subs)
      in sort (remdups (map the (filter truthy (servers @ services)))))"

section \<open>Rating\<close>

record rated =
  rt_verdict :: verdict
  rt_currency :: "string option"
  rt_lines :: "bill_line list"
  rt_invoice :: invoice

definition rate :: "gen_env \<Rightarrow> books \<Rightarrow> string \<Rightarrow> bill_line list \<Rightarrow> date \<Rightarrow> date \<Rightarrow> error + rated" where
  "rate env b team ls ps pe =
     (let r2 = ge_r2 env; w = bk_world b;
          ls = tag_projects env b team ls;
          subtotal = r2 (sum_list (map bl_amount ls));
          v = resolve_commitment r2 (bk_commitments b) (bk_invoices b) team ls ps;
          taxable_base = r2 (subtotal - vd_discount v + vd_clawback v);
          currency = Option.bind (pw_profiles w team) bp_currency
      in bindE (resolve_tax r2 (tax_env_of (ge_pay env) w) team taxable_base)
        (\<lambda>tax. let total = r2 (taxable_base + tb_output_tax_amount tax)
          in Inr \<lparr>rt_verdict = v, rt_currency = currency, rt_lines = ls,
            rt_invoice = \<lparr>inv_name = [], inv_team = team, inv_status = ''Outstanding'', inv_type = ''Billable'',
              inv_currency = or_else currency [], inv_period_start = ps, inv_period_end = pe, inv_period_key = [],
              inv_subtotal = subtotal, inv_commitment_discount = vd_discount v,
              inv_commitment_clawback = vd_clawback v, inv_tax = tax, inv_total = total, inv_credit_applied = 0,
              inv_advance_applied = 0, inv_advance_tax_applied = 0,
              inv_expected_collection = r2 (total - tb_tds_amount tax), inv_amount_paid = 0,
              inv_tds_certificate_received = False, inv_due_date = None, inv_payment_date = None,
              inv_dunning_starts_on = None, inv_suspends_on = None, inv_predebit_notified_at = None,
              inv_predebit_charge_after = None, inv_paid_at = None, inv_hold_reason = None,
              inv_sync_status = None, inv_promotional_record = None, inv_accounting_invoice = None,
              inv_credit_note = None\<rparr>\<rparr>))"

definition rate_lines :: "gen_env \<Rightarrow> books \<Rightarrow> string \<Rightarrow> bill_line list \<Rightarrow> date \<Rightarrow> date \<Rightarrow> error + rated option" where
  "rate_lines env b team ls ps pe =
     (if ls = [] then Inr None else bindE (rate env b team ls ps pe) (\<lambda>r. Inr (Some r)))"

definition untagged :: "billed \<Rightarrow> bill_line" where
  "untagged x = \<lparr>bl_what = x, bl_project = None\<rparr>"

definition rate_team_period :: "gen_env \<Rightarrow> books \<Rightarrow> string \<Rightarrow> date \<Rightarrow> date \<Rightarrow> error + rated option" where
  "rate_team_period env b team ps pe =
     bindE (metered_lines (ge_r2 env) (ge_sub env) team (team_clusters b team) ps pe (bk_rollups b))
       (\<lambda>ms. rate_lines env b team
          (map (untagged \<circ> Bundle) (fixed_lines env b team ps pe) @ map (untagged \<circ> Usage) ms) ps pe)"

section \<open>The insert and its race\<close>

text \<open>\<open>make_autoname("INV-YYYY-MM-.#####")\<close>: the next number of the month's series.\<close>

definition zero_padded :: "nat \<Rightarrow> nat \<Rightarrow> string" where
  "zero_padded k n = replicate (k - length (nat_str n)) (CHR ''0'') @ nat_str n"

definition series_prefix :: "date \<Rightarrow> string" where
  "series_prefix pe = ''INV-'' @ take 7 (date_str pe) @ ''-''"

definition autoname :: "books \<Rightarrow> invoice \<Rightarrow> string" where
  "autoname b iv = series_prefix (inv_period_end iv) @ zero_padded 5 (bk_series b (series_prefix (inv_period_end iv)) + 1)"

definition breaks_unique :: "invoice \<Rightarrow> invoice list \<Rightarrow> bool" where
  "breaks_unique iv ivs \<longleftrightarrow> (\<exists>x \<in> set ivs. inv_period_key x = inv_period_key iv \<or> inv_name x = inv_name iv)"

definition insert_invoice :: "rated \<Rightarrow> books \<Rightarrow> error + string \<times> books" where
  "insert_invoice r b =
     (let payload = rt_invoice r; prefix = series_prefix (inv_period_end payload);
          iv = set_period_key (payload\<lparr>inv_name := autoname b payload\<rparr>)
      in if breaks_unique iv (bk_invoices b)
         then (case live_invoice b (inv_team payload) (inv_period_start payload) (inv_period_end payload) of
                 None \<Rightarrow> Inl DuplicateEntry | Some existing \<Rightarrow> Inr (existing, b))
         else Inr (inv_name iv, b\<lparr>bk_world := (bk_world b)\<lparr>pw_invoices := bk_invoices b @ [iv]\<rparr>,
                bk_lines := bk_lines b @ [(inv_name iv, rt_lines r)],
                bk_series := (bk_series b)(prefix := bk_series b prefix + 1)\<rparr>))"

section \<open>Drafting one team\<close>

definition is_below_minimum :: "gen_env \<Rightarrow> rated \<Rightarrow> bool" where
  "is_below_minimum env r \<longleftrightarrow>
     inv_total (rt_invoice r) < minimum_invoice_amount (pe_settings (ge_pay env)) (rt_currency r)"

definition forgive :: "gen_env \<Rightarrow> books \<Rightarrow> string \<Rightarrow> date \<Rightarrow> rated \<Rightarrow> books \<Rightarrow> books" where
  "forgive env seen team pe r b =
     (let total = inv_total (rt_invoice r);
          reason = py_str (rt_currency r) @ '' '' @ ge_amount_text env total
            @ '' is below the minimum invoice amount and was written off.''
      in if has_same_outcome seen team pe BELOW_MINIMUM reason then b
         else bk_event env team ''Invoice Skipped Below Minimum'' reason (Some total) None
                (record_outcome env seen team pe BELOW_MINIMUM (Some reason) None b))"

definition breach :: "gen_env \<Rightarrow> books \<Rightarrow> verdict \<Rightarrow> books \<Rightarrow> error + books" where
  "breach env seen v b =
     bindE (mark_breached (ge_ambient env) v (bk_commitments seen) (bk_commitments b) (pw_events (bk_world b)))
       (\<lambda>(cs, evs). Inr (b\<lparr>bk_commitments := cs, bk_world := (bk_world b)\<lparr>pw_events := evs\<rparr>\<rparr>))"

definition generate_once ::
  "gen_env \<Rightarrow> books \<Rightarrow> string \<Rightarrow> date \<Rightarrow> date \<Rightarrow> books \<Rightarrow> error + string option \<times> books" where
  "generate_once env seen team ps pe b =
     (case live_invoice seen team ps pe of
        Some existing \<Rightarrow> Inr (Some existing, record_outcome env seen team pe INVOICED None (Some existing) b)
      | None \<Rightarrow> bindE (rate_team_period env seen team ps pe) (\<lambda>rated. case rated of
          None \<Rightarrow> Inr (None, record_outcome env seen team pe NOTHING_TO_BILL (Some ''Nothing billable in this month.'') None b)
        | Some r \<Rightarrow>
            if is_below_minimum env r then Inr (None, forgive env seen team pe r b)
            else bindE (insert_invoice r b) (\<lambda>(name, b).
                 bindE (breach env seen (rt_verdict r) b) (\<lambda>b.
                 Inr (Some name, bk_event env team ''Invoice Generated'' name (Some (inv_total (rt_invoice r))) None
                        (record_outcome env seen team pe INVOICED None (Some name) b))))))"

text \<open>
  What one attempt meets: the snapshot it reads, the tables its writes meet, and the lock it may
  lose on the way. A deadlock is retried; a lock-wait timeout leaves \<open>generate_team_invoice\<close>. The flag
  of the result says whether the transaction was rolled back as a whole on the way.
\<close>

datatype raised = Lock_timeout | Raised error

record turn =
  tn_seen :: books
  tn_now :: books
  tn_lost :: "raised option"

definition INVOICE_DEADLOCK_RETRIES :: nat where "INVOICE_DEADLOCK_RETRIES = 5"

fun generate_attempts ::
  "nat \<Rightarrow> gen_env \<Rightarrow> string \<Rightarrow> date \<Rightarrow> date \<Rightarrow> (nat \<Rightarrow> turn) \<Rightarrow> bool \<Rightarrow> (raised + string option \<times> books) \<times> bool" where
  "generate_attempts 0 env team ps pe turns rolled = (Inr (None, tn_now (turns 0)), rolled)"
| "generate_attempts (Suc n) env team ps pe turns rolled =
     (let t = turns n in case tn_lost t of
        None \<Rightarrow> (case generate_once env (tn_seen t) team ps pe (tn_now t) of
            Inl e \<Rightarrow> (Inl (Raised e), rolled) | Inr r \<Rightarrow> (Inr r, rolled))
      | Some (Raised QueryDeadlock) \<Rightarrow>
          if n = 0 then (case live_invoice (tn_now t) team ps pe of
              Some existing \<Rightarrow> (Inr (Some existing, tn_now t), True)
            | None \<Rightarrow> (Inl (Raised QueryDeadlock), True))
          else generate_attempts n env team ps pe turns True
      | Some e \<Rightarrow> (Inl e, rolled))"

definition generate_team_invoice ::
  "gen_env \<Rightarrow> string \<Rightarrow> date \<Rightarrow> date \<Rightarrow> (nat \<Rightarrow> turn) \<Rightarrow> (raised + string option \<times> books) \<times> bool" where
  "generate_team_invoice env team ps pe turns =
     generate_attempts INVOICE_DEADLOCK_RETRIES env team ps pe turns False"

end
