(* ===== verification/Billing_Run.thy ===== *)
theory Billing_Run
  imports Generation Lifecycle
begin

text \<open>
  The monthly run (\<open>revenue/invoicing/run.py\<close>, \<open>doctype/billing_run/billing_run.py\<close>): the pages
  the teams are visited in, one team's draft with its retries and its contained failure, one invoice's
  settlement, the record of the run, and the ticks of the scheduler.

  A page job is a pair of names \<open>(after, until]\<close>; what a fan-out enqueues is the list of pairs it
  returns. Log lines and metrics are left out. \<open>re_error_text\<close> is the text of an exception.
\<close>

record run_env =
  re_gen :: gen_env
  re_error_text :: "raised \<Rightarrow> string"

abbreviation re_pay :: "run_env \<Rightarrow> pay_env" where "re_pay env \<equiv> ge_pay (re_gen env)"
abbreviation re_now :: "run_env \<Rightarrow> datetime" where "re_now env \<equiv> pe_now (re_pay env)"

section \<open>Pages\<close>

definition PAGE_SIZE :: nat where "PAGE_SIZE = 500"
definition COLLECT_PAGE_SIZE :: nat where "COLLECT_PAGE_SIZE = 100"

text \<open>Keyset paging over the sorted names: the next page is read after the last name of this one.\<close>

function pages :: "nat \<Rightarrow> 'a :: linorder list \<Rightarrow> 'a \<Rightarrow> 'a list list" where
  "pages k names after =
     (let page = take k (filter (\<lambda>n. after < n) names)
      in if page = [] then [] else page # pages k names (last page))"
  by pat_completeness auto
termination
proof (relation "measure (\<lambda>(k, names, after). length (filter (\<lambda>n. after < n) names))", goal_cases)
  case (2 k names after page)
  let ?l = "last page"
  have l: "?l \<in> set (filter (\<lambda>n. after < n) names)" using 2 last_in_set [of page] by (metis in_set_takeD)
  then have "filter (\<lambda>n. ?l < n) names = filter (\<lambda>n. ?l < n) (filter (\<lambda>n. after < n) names)"
    by (auto intro!: filter_cong)
  moreover have "length (filter (\<lambda>n. ?l < n) (filter (\<lambda>n. after < n) names)) < length (filter (\<lambda>n. after < n) names)"
    by (rule length_filter_less [OF l]) simp
  ultimately show ?case by simp
qed simp

declare pages.simps [simp del]

text \<open>The page jobs a fan-out hands out: each from the last name of the page before.\<close>

fun page_jobs :: "'a \<Rightarrow> 'a list list \<Rightarrow> ('a \<times> 'a) list" where
  "page_jobs after [] = []"
| "page_jobs after (page # ps) = (after, last page) # page_jobs (last page) ps"

definition in_slice :: "'a :: linorder list \<Rightarrow> 'a \<times> 'a \<Rightarrow> 'a list" where
  "in_slice names job = filter (\<lambda>n. fst job < n \<and> n \<le> snd job) names"

definition billed_teams :: "bool \<Rightarrow> books \<Rightarrow> string list" where
  "billed_teams enabled_only b =
     sort (remdups (map su_team (filter (\<lambda>s. enabled_only \<longrightarrow> su_enabled s) (es_subs (bk_estate b)))))"

definition team_pages :: "nat \<Rightarrow> bool \<Rightarrow> books \<Rightarrow> string list list" where
  "team_pages k enabled_only b = pages k (billed_teams enabled_only b) ''''"

definition teams_in_range :: "books \<Rightarrow> string \<times> string \<Rightarrow> string list" where
  "teams_in_range b job = in_slice (billed_teams False b) job"

definition waiting_drafts :: "date \<Rightarrow> books \<Rightarrow> string list" where
  "waiting_drafts cutoff b = sort (map inv_name (filter (\<lambda>iv. is_unissued iv \<and> inv_period_end iv \<le> cutoff) (bk_invoices b)))"

definition draft_pages :: "date \<Rightarrow> nat \<Rightarrow> books \<Rightarrow> string list list" where
  "draft_pages cutoff k b = pages k (waiting_drafts cutoff b) ''''"

definition drafts_in_range :: "date \<Rightarrow> books \<Rightarrow> string \<times> string \<Rightarrow> string list" where
  "drafts_in_range cutoff b job = in_slice (waiting_drafts cutoff b) job"

section \<open>A failure, contained\<close>

definition BILLING_RUN_FAILURE :: string where "BILLING_RUN_FAILURE = ''Billing Run Failure''"

text \<open>The row of the Error Log; the rollback to the savepoint is made by the caller below.\<close>

definition contain :: "string \<Rightarrow> bool \<Rightarrow> books \<Rightarrow> books" where
  "contain name is_repeat b =
     (if is_repeat then b else b\<lparr>bk_world := review name BILLING_RUN_FAILURE (bk_world b)\<rparr>)"

definition record_invoice_failure :: "run_env \<Rightarrow> books \<Rightarrow> string \<Rightarrow> date \<Rightarrow> raised \<Rightarrow> books \<Rightarrow> books" where
  "record_invoice_failure env seen team period_end e b =
     (let reason = re_error_text env e;
          is_repeat = has_same_outcome seen team period_end FAILED reason;
          b = record_outcome (re_gen env) seen team period_end FAILED (Some reason) None (contain team is_repeat b)
      in if is_repeat then b else bk_event (re_gen env) team ''Invoice Generation Failed'' reason None (Some ''Failed'') b)"

section \<open>One team\<close>

text \<open>
  What a draft meets: the turns of each of its retries (of the run, then of \<open>generate_team_invoice\<close>),
  and the tables the transaction after a full rollback finds. A draft raises out of
  \<open>draft_team_invoice\<close> when the savepoint it would roll back to is gone, which a rollback of the whole
  transaction by an earlier deadlock leaves behind.
\<close>

record meeting =
  mg_turns :: "nat \<Rightarrow> nat \<Rightarrow> turn"
  mg_after :: books

datatype draft_result = Drafted "string option" | Contained | Escaped raised

definition CONTENTION_RETRIES :: nat where "CONTENTION_RETRIES = 4"

fun is_contention :: "raised \<Rightarrow> bool" where
  "is_contention Lock_timeout = True"
| "is_contention (Raised e) = (e = QueryDeadlock)"

fun draft_attempts ::
  "nat \<Rightarrow> run_env \<Rightarrow> string \<Rightarrow> date \<Rightarrow> date \<Rightarrow> meeting \<Rightarrow> draft_result \<times> books" where
  "draft_attempts 0 env team ps pe m = (Drafted None, mg_after m)"
| "draft_attempts (Suc n) env team ps pe m =
     (case generate_team_invoice (re_gen env) team ps pe (mg_turns m n) of
        (Inr (name, b), _) \<Rightarrow> (Drafted name, b)
      | (Inl e, rolled) \<Rightarrow>
          if is_contention e
          then (if n = 0 then (Contained, record_invoice_failure env (mg_after m) team pe e (mg_after m))
                else draft_attempts n env team ps pe m)
          else if rolled then (Escaped e, mg_after m)
          else let t = mg_turns m n (INVOICE_DEADLOCK_RETRIES - 1)
               in (Contained, record_invoice_failure env (tn_seen t) team pe e (tn_now t)))"

definition draft_team_invoice :: "run_env \<Rightarrow> string \<Rightarrow> date \<Rightarrow> date \<Rightarrow> meeting \<Rightarrow> draft_result \<times> books" where
  "draft_team_invoice env team ps pe m = draft_attempts CONTENTION_RETRIES env team ps pe m"

text \<open>Nobody else at work.\<close>

definition undisturbed :: "string \<Rightarrow> books \<Rightarrow> meeting" where
  "undisturbed team b = \<lparr>mg_turns = (\<lambda>_ _. \<lparr>tn_seen = b, tn_now = b, tn_lost = None\<rparr>), mg_after = b\<rparr>"

record draft_counters =
  dc_drafted :: nat
  dc_skipped :: nat
  dc_failed :: nat

text \<open>Drafting one team after another, each committed; a raise ends the job and keeps what was committed.\<close>

fun draft_each ::
  "run_env \<Rightarrow> (string \<Rightarrow> books \<Rightarrow> meeting) \<Rightarrow> date \<Rightarrow> date \<Rightarrow> string list \<Rightarrow> draft_counters \<Rightarrow> books
     \<Rightarrow> raised option \<times> draft_counters \<times> books" where
  "draft_each env meets ps pe [] c b = (None, c, b)"
| "draft_each env meets ps pe (team # teams) c b =
     (case draft_team_invoice env team ps pe (meets team b) of
        (Escaped e, b') \<Rightarrow> (Some e, c, b')
      | (Contained, b') \<Rightarrow> draft_each env meets ps pe teams (c\<lparr>dc_failed := dc_failed c + 1\<rparr>) b'
      | (Drafted name, b') \<Rightarrow> draft_each env meets ps pe teams
          (if truthy name then c\<lparr>dc_drafted := dc_drafted c + 1\<rparr> else c\<lparr>dc_skipped := dc_skipped c + 1\<rparr>) b')"

definition no_drafts :: draft_counters where
  "no_drafts = \<lparr>dc_drafted = 0, dc_skipped = 0, dc_failed = 0\<rparr>"

definition draft_team_page ::
  "run_env \<Rightarrow> (string \<Rightarrow> books \<Rightarrow> meeting) \<Rightarrow> string \<times> string \<Rightarrow> date \<Rightarrow> date \<Rightarrow> books
     \<Rightarrow> raised option \<times> draft_counters \<times> books" where
  "draft_team_page env meets job ps pe b = draft_each env meets ps pe (teams_in_range b job) no_drafts b"

text \<open>\<open>generate_draft_invoices\<close>: the jobs of a fan-out, or the run of every page in this process.\<close>

definition draft_jobs :: "books \<Rightarrow> (string \<times> string) list" where
  "draft_jobs b = page_jobs '''' (team_pages PAGE_SIZE False b)"

definition generate_draft_invoices ::
  "run_env \<Rightarrow> (string \<Rightarrow> books \<Rightarrow> meeting) \<Rightarrow> date \<Rightarrow> date \<Rightarrow> books \<Rightarrow> raised option \<times> draft_counters \<times> books" where
  "generate_draft_invoices env meets ps pe b =
     draft_each env meets ps pe (concat (team_pages PAGE_SIZE False b)) no_drafts b"

section \<open>Trying the failed teams again\<close>

definition failed_rows :: "books \<Rightarrow> outcome_row list" where
  "failed_rows b = take PAGE_SIZE (sort_key bo_modified (filter (\<lambda>r. bo_outcome r = FAILED) (bk_outcomes b)))"

text \<open>Each row alone, as \<open>each_isolated\<close> runs it: what escapes is rolled back and logged.\<close>

fun retry_each :: "run_env \<Rightarrow> (string \<Rightarrow> books \<Rightarrow> meeting) \<Rightarrow> outcome_row list \<Rightarrow> books \<Rightarrow> books" where
  "retry_each env meets [] b = b"
| "retry_each env meets (r # rows) b =
     (let (res, b') = draft_team_invoice env (bo_team r) (first_of_month (bo_period_end r)) (bo_period_end r) (meets (bo_team r) b)
      in case res of
           Escaped e \<Rightarrow> retry_each env meets rows (b'\<lparr>bk_world := review (bo_team r) ''Invoice retry failed on Billing Run Team'' (bk_world b')\<rparr>)
         | _ \<Rightarrow> retry_each env meets rows b')"

definition retry_failed_invoices :: "run_env \<Rightarrow> (string \<Rightarrow> books \<Rightarrow> meeting) \<Rightarrow> books \<Rightarrow> books" where
  "retry_failed_invoices env meets b = retry_each env meets (failed_rows b) b"

section \<open>Settling one invoice\<close>

text \<open>
  \<open>settle_draft\<close> rolls nothing back: what an interrupted \<open>open_and_collect\<close> wrote is committed with the
  page's next commit. \<open>left_behind\<close> is the world at the raise, step by step as \<open>open_and_collect\<close> goes.
\<close>

definition issue_left_behind :: "pay_env \<Rightarrow> invoice \<Rightarrow> world \<Rightarrow> world" where
  "issue_left_behind env iv w =
     (let collectable = collectable_of iv in
      case (if collectable > 0 then draw_wallet env iv collectable (tb_output_tax_amount (inv_tax iv)) w else Inr (no_draw, w)) of
        Inl _ \<Rightarrow> w
      | Inr (d, w1) \<Rightarrow> (case apply_draw env iv d w1 of
          Inl _ \<Rightarrow> w1
        | Inr (iv1, w2) \<Rightarrow>
            (case dated env w2 (iv1\<lparr>inv_expected_collection := pe_r2 env (collectable - dr_wallet d - dr_gst d)\<rparr>) of
               Inl _ \<Rightarrow> w2
             | Inr iv2 \<Rightarrow> if inv_expected_collection iv2 \<le> 0 then w2
                 else (case collect_invoice env (inv_name iv2) False None (issue_invoice env iv2 w2) of
                         None \<Rightarrow> w2 | Some (_, w') \<Rightarrow> w'))))"

definition left_behind :: "pay_env \<Rightarrow> string \<Rightarrow> world \<Rightarrow> world" where
  "left_behind env invoice w =
     (case find_invoice w invoice of None \<Rightarrow> w | Some iv \<Rightarrow>
      if inv_type iv \<noteq> ''Billable'' then issue_left_behind env iv w
      else if is_internal_team (pw_profiles w) (inv_team iv) then w
      else case hold_reason env iv w of
        (Some _, w1) \<Rightarrow> w1
      | (None, w1) \<Rightarrow> (case retax env iv w1 of Inl _ \<Rightarrow> w1 | Inr iv' \<Rightarrow> issue_left_behind env iv' w1))"

text \<open>None when collection does not end; the outcome of the invoice is None when a failure was contained.\<close>

definition settle_draft :: "run_env \<Rightarrow> string \<Rightarrow> books \<Rightarrow> (error + open_result option \<times> books) option" where
  "settle_draft env invoice b =
     (case open_and_collect (re_pay env) invoice True (bk_world b) of
        None \<Rightarrow> None
      | Some (Inr r, w) \<Rightarrow> Some (Inr (Some r, b\<lparr>bk_world := w\<rparr>))
      | Some (Inl e, _) \<Rightarrow>
          let b = contain invoice False (b\<lparr>bk_world := left_behind (re_pay env) invoice (bk_world b)\<rparr>)
          in case find_invoice (bk_world b) invoice of
               None \<Rightarrow> Some (Inl DoesNotExist)
             | Some iv \<Rightarrow> Some (bindE (defer_dunning (dt_date (re_now env)) iv)
                 (\<lambda>(_, iv'). Inr (None, b\<lparr>bk_world := put_invoice iv' (bk_world b)\<rparr>))))"

record settle_counters =
  sn_settled :: nat
  sn_held :: nat
  sn_failed :: nat

fun count_settled :: "open_result option \<Rightarrow> settle_counters \<Rightarrow> settle_counters" where
  "count_settled None c = c\<lparr>sn_failed := sn_failed c + 1\<rparr>"
| "count_settled (Some Not_claimed) c = c"
| "count_settled (Some (Held _)) c = c\<lparr>sn_held := sn_held c + 1\<rparr>"
| "count_settled (Some _) c = c\<lparr>sn_settled := sn_settled c + 1\<rparr>"

fun settle_drafts :: "run_env \<Rightarrow> string list \<Rightarrow> settle_counters \<Rightarrow> books \<Rightarrow> (error option \<times> settle_counters \<times> books) option" where
  "settle_drafts env [] c b = Some (None, c, b)"
| "settle_drafts env (n # ns) c b =
     (case settle_draft env n b of
        None \<Rightarrow> None
      | Some (Inl e) \<Rightarrow> Some (Some e, c, b)
      | Some (Inr (r, b')) \<Rightarrow> settle_drafts env ns (count_settled r c) b')"

definition none_settled :: settle_counters where
  "none_settled = \<lparr>sn_settled = 0, sn_held = 0, sn_failed = 0\<rparr>"

definition settle_draft_page ::
  "run_env \<Rightarrow> date \<Rightarrow> string \<times> string \<Rightarrow> books \<Rightarrow> (error option \<times> settle_counters \<times> books) option" where
  "settle_draft_page env cutoff job b = settle_drafts env (drafts_in_range cutoff b job) none_settled b"

definition settle_held_drafts :: "run_env \<Rightarrow> string \<Rightarrow> books \<Rightarrow> (error option \<times> settle_counters \<times> books) option" where
  "settle_held_drafts env team b =
     settle_drafts env (map inv_name (held_drafts (re_pay env) (Some team) None None (bk_world b))) none_settled b"

definition release_held_drafts :: "run_env \<Rightarrow> string \<Rightarrow> books \<Rightarrow> string option" where
  "release_held_drafts env team b =
     (if held_drafts (re_pay env) (Some team) None (Some 1) (bk_world b) = [] then None
      else Some (''billing-release::'' @ team))"

section \<open>The record of a run\<close>

definition billing_period :: "date \<Rightarrow> date \<times> date" where
  "billing_period today = (let ps = first_of_month (first_of_month today - 1) in (ps, last_of_month ps))"

record run_status =
  rn_period_start :: date
  rn_period_end :: date
  rn_teams :: int
  rn_drafted :: int
  rn_pending_draft :: int
  rn_pending_collection :: int
  rn_collected :: int
  rn_by_status :: "(string \<times> int) list"
  rn_failures :: int

definition billing_run_status :: "date \<Rightarrow> books \<Rightarrow> run_status" where
  "billing_run_status today b =
     (let (ps, pe) = billing_period today;
          teams = int (length (billed_teams False b));
          invoices = filter (\<lambda>iv. inv_period_end iv = pe) (bk_invoices b);
          counts = map (\<lambda>s. (s, int (length (filter (\<lambda>iv. inv_status iv = s) invoices)))) (remdups (map inv_status invoices));
          drafted = sum_list (map snd (filter (\<lambda>c. fst c \<noteq> ''Cancelled'') counts));
          pending = int (length (filter is_unissued invoices));
          waived = (case map_of counts ''Waived'' of None \<Rightarrow> 0 | Some n \<Rightarrow> n)
      in \<lparr>rn_period_start = ps, rn_period_end = pe, rn_teams = teams, rn_drafted = drafted,
          rn_pending_draft = max (teams - drafted) 0, rn_pending_collection = pending,
          rn_collected = drafted - pending - waived, rn_by_status = counts,
          rn_failures = int (length (filter (\<lambda>r. bo_period_end r = pe \<and> bo_outcome r = FAILED) (bk_outcomes b)))\<rparr>)"

definition find_run :: "books \<Rightarrow> date \<Rightarrow> billing_run option" where
  "find_run b pe = find (\<lambda>r. br_period_end r = pe) (bk_runs b)"

definition new_run :: "run_env \<Rightarrow> run_status \<Rightarrow> billing_run" where
  "new_run env s = \<lparr>br_period_end = rn_period_end s, br_period_start = rn_period_start s, br_status = ''Drafting'',
     br_teams = 0, br_drafted = 0, br_pending_draft = 0, br_collected = 0, br_pending_collection = 0, br_failures = 0,
     br_by_status = [], br_started_at = re_now env, br_completed_at = None\<rparr>"

definition sdoc_of_run :: "billing_run \<Rightarrow> sdoc" where
  "sdoc_of_run r = \<lparr>sd_doctype = ''Billing Run'', sd_name = date_str (br_period_end r), sd_fields = [''status'' \<mapsto> br_status r]\<rparr>"

definition move_run ::
  "run_env \<Rightarrow> string option \<Rightarrow> billing_run \<Rightarrow> billing_event list \<Rightarrow> error + billing_run \<times> billing_event list" where
  "move_run env to_state r evs =
     (if truthy to_state \<and> to_state \<noteq> Some (br_status r)
      then bindE (transition (pe_ambient (re_pay env)) (sdoc_of_run r) (the to_state) (Some ''billing run'')
                    (am_user (pe_ambient (re_pay env))) None None None evs)
             (\<lambda>(doc, evs). Inr (r\<lparr>br_status := the (sd_fields doc ''status'')\<rparr>, evs))
      else Inr (r, evs))"

definition snapshot :: "run_env \<Rightarrow> run_status \<Rightarrow> string option \<Rightarrow> books \<Rightarrow> error + books" where
  "snapshot env s to_state b =
     (let pe = rn_period_end s;
          runs = (if find_run b pe = None then bk_runs b @ [new_run env s] else bk_runs b);
          doc = (case find_run b pe of None \<Rightarrow> new_run env s | Some r \<Rightarrow> r);
          doc = doc\<lparr>br_period_start := rn_period_start s, br_teams := rn_teams s, br_drafted := rn_drafted s,
            br_pending_draft := rn_pending_draft s, br_collected := rn_collected s,
            br_pending_collection := rn_pending_collection s, br_failures := rn_failures s, br_by_status := rn_by_status s\<rparr>
      in bindE (move_run env to_state doc (pw_events (bk_world b))) (\<lambda>(doc, evs).
           let doc = (if br_status doc = ''Complete'' \<and> br_completed_at doc = None
                      then doc\<lparr>br_completed_at := Some (re_now env)\<rparr> else doc)
           in Inr (b\<lparr>bk_runs := map (\<lambda>r. if br_period_end r = pe then doc else r) runs,
                     bk_world := (bk_world b)\<lparr>pw_events := evs\<rparr>\<rparr>)))"

section \<open>The ticks\<close>

text \<open>
  The drafting tick: internal teams are settled, the run is recorded, and the pages are handed out.
  The hourly sweep: failed drafts are tried again, the run is recorded before and after the waiting
  drafts are handed out. A raise rolls the whole tick back, but for the teams \<open>retry_failed_invoices\<close>
  committed one by one.
\<close>

definition draft_monthly_invoices :: "run_env \<Rightarrow> date \<Rightarrow> books \<Rightarrow> error + (string \<times> string) list \<times> books" where
  "draft_monthly_invoices env today b =
     bindE (settle_internal_teams (re_pay env) (bk_world b)) (\<lambda>(_, w).
     let b = b\<lparr>bk_world := w\<rparr> in
     bindE (snapshot env (billing_run_status today b) (Some ''Drafting'') b) (\<lambda>b. Inr (draft_jobs b, b)))"

definition settle_jobs :: "date \<Rightarrow> books \<Rightarrow> (string \<times> string) list" where
  "settle_jobs cutoff b = page_jobs '''' (draft_pages cutoff COLLECT_PAGE_SIZE b)"

definition collect_due_invoices ::
  "run_env \<Rightarrow> (string \<Rightarrow> books \<Rightarrow> meeting) \<Rightarrow> date \<Rightarrow> books \<Rightarrow> error + (string \<times> string) list \<times> books" where
  "collect_due_invoices env meets today b =
     (let (_, pe) = billing_period today;
          b = retry_failed_invoices env meets b;
          status = billing_run_status today b
      in bindE (snapshot env status (if rn_pending_collection status \<noteq> 0 then Some ''Collecting'' else None) b) (\<lambda>b.
         let jobs = settle_jobs pe b;
             finished = billing_run_status today b;
             is_done = (rn_pending_collection finished = 0 \<and> rn_failures finished = 0)
         in bindE (snapshot env finished (if is_done then Some ''Complete'' else None) b) (\<lambda>b. Inr (jobs, b))))"

end
