(* ===== verification/Generation_Properties.thy ===== *)
theory Generation_Properties
  imports Generation Payment_Example
begin

text \<open>
  What drafting promises: however the workers interleave, a team has at most one live invoice for a
  month and the loser of a race yields to the winner; a draft adds up to the cent and records the
  commitment it was discounted or charged back under.
\<close>

section \<open>The unique index\<close>

definition keyed :: "invoice list \<Rightarrow> bool" where
  "keyed ivs \<longleftrightarrow> distinct (map inv_period_key ivs) \<and> distinct (map inv_name ivs)
     \<and> (\<forall>iv \<in> set ivs. inv_period_key iv = inv_period_key (set_period_key iv))"

lemma period_key_fields [simp]:
  "inv_name (set_period_key iv) = inv_name iv" "inv_team (set_period_key iv) = inv_team iv"
  "inv_period_start (set_period_key iv) = inv_period_start iv"
  "inv_period_end (set_period_key iv) = inv_period_end iv" "inv_status (set_period_key iv) = inv_status iv"
  "set_period_key (set_period_key iv) = set_period_key iv"
  by (simp_all add: set_period_key_def)

lemma live_key:
  "is_live_for team ps pe iv \<Longrightarrow> inv_period_key (set_period_key iv) = period_key_for team ps pe"
  by (simp add: is_live_for_def set_period_key_def)

lemma filter_at_most_one:
  "distinct (map f xs) \<Longrightarrow> (\<And>x. x \<in> set xs \<Longrightarrow> P x \<Longrightarrow> f x = k) \<Longrightarrow> length (filter P xs) \<le> 1"
proof (induction xs)
  case (Cons x xs)
  show ?case
  proof (cases "P x")
    case True
    then have "f x = k" using Cons.prems(2) by simp
    then have "filter P xs = []" using Cons.prems by (fastforce simp: filter_empty_conv image_iff)
    then show ?thesis by simp
  next
    case False
    with Cons show ?thesis by simp
  qed
qed simp

lemma keyed_one_live: "keyed ivs \<Longrightarrow> length (filter (is_live_for team ps pe) ivs) \<le> 1"
  by (rule filter_at_most_one [where f = inv_period_key and k = "period_key_for team ps pe"])
    (auto simp: keyed_def live_key)

lemma live_invoice_Some:
  "live_invoice b team ps pe = Some n \<Longrightarrow> \<exists>iv \<in> set (bk_invoices b). is_live_for team ps pe iv \<and> inv_name iv = n"
  using find_Some [of "is_live_for team ps pe" "rev (bk_invoices b)"] by (auto simp: live_invoice_def)

lemma keyed_snoc:
  "keyed ivs \<Longrightarrow> \<not> breaks_unique iv ivs \<Longrightarrow> inv_period_key iv = inv_period_key (set_period_key iv) \<Longrightarrow> keyed (ivs @ [iv])"
  by (auto simp only: keyed_def breaks_unique_def map_append distinct_append list.map set_map set_append) auto

section \<open>The steps of a draft\<close>

lemma record_outcome_frame [simp]:
  "bk_world (record_outcome env seen team pe outcome reason iv b) = bk_world b"
  "bk_lines (record_outcome env seen team pe outcome reason iv b) = bk_lines b"
  "bk_commitments (record_outcome env seen team pe outcome reason iv b) = bk_commitments b"
  by (simp_all add: record_outcome_def Let_def)

lemma bk_event_frame [simp]:
  "bk_invoices (bk_event env team event_type reason amount outcome b) = bk_invoices b"
  "bk_lines (bk_event env team event_type reason amount outcome b) = bk_lines b"
  "bk_commitments (bk_event env team event_type reason amount outcome b) = bk_commitments b"
  "bk_outcomes (bk_event env team event_type reason amount outcome b) = bk_outcomes b"
  by (simp_all add: bk_event_def)

lemma forgive_frame [simp]:
  "bk_invoices (forgive env seen team pe r b) = bk_invoices b"
  "bk_lines (forgive env seen team pe r b) = bk_lines b"
  "bk_commitments (forgive env seen team pe r b) = bk_commitments b"
  by (simp_all add: forgive_def Let_def)

lemma breach_frame:
  "breach env seen v b = Inr b' \<Longrightarrow>
     bk_invoices b' = bk_invoices b \<and> bk_lines b' = bk_lines b \<and> bk_outcomes b' = bk_outcomes b"
  by (auto simp: breach_def bindE_Inr)

lemma rate_Inr:
  assumes "rate env b team ls ps pe = Inr r"
  shows "inv_team (rt_invoice r) = team \<and> inv_period_start (rt_invoice r) = ps \<and> inv_period_end (rt_invoice r) = pe
    \<and> inv_status (rt_invoice r) = ''Outstanding''
    \<and> rt_currency r = Option.bind (pw_profiles (bk_world b) team) bp_currency"
  using assms by (auto simp: rate_def Let_def bindE_Inr)

lemma rate_team_period_Some:
  assumes "rate_team_period env b team ps pe = Inr (Some r)"
  obtains ms where
    "metered_lines (ge_r2 env) (ge_sub env) team (team_clusters b team) ps pe (bk_rollups b) = Inr ms"
    "rate env b team (map (untagged \<circ> Bundle) (fixed_lines env b team ps pe) @ map (untagged \<circ> Usage) ms) ps pe = Inr r"
  using assms by (auto simp: rate_team_period_def rate_lines_def bindE_Inr split: if_splits)

text \<open>The three ways a draft ends without a raise.\<close>

lemma generate_once_cases:
  assumes "generate_once env seen team ps pe b = Inr (res, b')"
  obtains (existing) n where "live_invoice seen team ps pe = Some n" "res = Some n" "bk_invoices b' = bk_invoices b"
      "bk_lines b' = bk_lines b"
  | (nothing) "live_invoice seen team ps pe = None" "res = None" "bk_invoices b' = bk_invoices b" "bk_lines b' = bk_lines b"
  | (billed) r n b1 b2 where "live_invoice seen team ps pe = None" "rate_team_period env seen team ps pe = Inr (Some r)"
      "\<not> is_below_minimum env r" "insert_invoice r b = Inr (n, b1)" "breach env seen (rt_verdict r) b1 = Inr b2"
      "res = Some n" "b' = bk_event env team ''Invoice Generated'' n (Some (inv_total (rt_invoice r))) None
         (record_outcome env seen team pe INVOICED None (Some n) b2)"
proof (cases "live_invoice seen team ps pe")
  case (Some n)
  show thesis by (rule existing [OF Some]) (use assms Some in \<open>auto simp: generate_once_def\<close>)
next
  case None
  with assms obtain q where q: "rate_team_period env seen team ps pe = Inr q"
    by (auto simp: generate_once_def bindE_Inr)
  show thesis
  proof (cases q)
    case None': None
    show thesis by (rule nothing [OF None]) (use assms None q None' in \<open>auto simp: generate_once_def\<close>)
  next
    case (Some r)
    show thesis
    proof (cases "is_below_minimum env r")
      case True
      show thesis by (rule nothing [OF None]) (use assms None q Some True in \<open>auto simp: generate_once_def\<close>)
    next
      case False
      from assms None q Some False obtain n b1 b2 where
        "insert_invoice r b = Inr (n, b1)" "breach env seen (rt_verdict r) b1 = Inr b2" "res = Some n"
        "b' = bk_event env team ''Invoice Generated'' n (Some (inv_total (rt_invoice r))) None
           (record_outcome env seen team pe INVOICED None (Some n) b2)"
        by (auto simp: generate_once_def bindE_Inr)
      with billed [OF None _ False] q Some show thesis by simp
    qed
  qed
qed

text \<open>The insert adds the invoice under its own key, or yields.\<close>

lemma insert_invoice_cases:
  assumes "insert_invoice r b = Inr (n, b')"
  obtains (yields) "live_invoice b (inv_team (rt_invoice r)) (inv_period_start (rt_invoice r)) (inv_period_end (rt_invoice r)) = Some n"
      "b' = b"
  | (adds) iv where "iv = set_period_key ((rt_invoice r)\<lparr>inv_name := n\<rparr>)" "\<not> breaks_unique iv (bk_invoices b)"
      "bk_invoices b' = bk_invoices b @ [iv]" "bk_lines b' = bk_lines b @ [(n, rt_lines r)]"
      "bk_commitments b' = bk_commitments b"
proof -
  let ?iv = "set_period_key ((rt_invoice r)\<lparr>inv_name := autoname b (rt_invoice r)\<rparr>)"
  show thesis
  proof (cases "breaks_unique ?iv (bk_invoices b)")
    case True
    with assms show thesis by (intro yields) (auto simp: insert_invoice_def Let_def split: option.splits)
  next
    case False
    with assms have n: "n = autoname b (rt_invoice r)" by (auto simp: insert_invoice_def Let_def)
    show thesis by (rule adds [of ?iv]) (use assms False n in \<open>auto simp: insert_invoice_def Let_def\<close>)
  qed
qed

section \<open>A history of workers\<close>

text \<open>
  The committed tables after each step, newest first. A draft reads the tables of any moment before
  it; saving an existing invoice derives its key again, and the unique index refuses a taken key;
  the other tables change in any way.
\<close>

definition resave_invoice :: "invoice \<Rightarrow> invoice list \<Rightarrow> error + invoice list" where
  "resave_invoice iv ivs =
     (let iv = set_period_key iv in
      if inv_name iv \<notin> inv_name ` set ivs then Inl DoesNotExist
      else if \<exists>x \<in> set ivs. inv_name x \<noteq> inv_name iv \<and> inv_period_key x = inv_period_key iv then Inl UniqueValidation
      else Inr (map (\<lambda>x. if inv_name x = inv_name iv then iv else x) ivs))"

inductive billed_history :: "books list \<Rightarrow> bool" where
  begun: "keyed (bk_invoices b) \<Longrightarrow> billed_history [b]"
| drafted: "billed_history (b # h) \<Longrightarrow> seen \<in> set (b # h) \<Longrightarrow>
    generate_once env seen team ps pe b = Inr (res, b') \<Longrightarrow> billed_history (b' # b # h)"
| resaved: "billed_history (b # h) \<Longrightarrow> resave_invoice iv (bk_invoices b) = Inr (bk_invoices b') \<Longrightarrow>
    billed_history (b' # b # h)"
| elsewhere: "billed_history (b # h) \<Longrightarrow> bk_invoices b' = bk_invoices b \<Longrightarrow> billed_history (b' # b # h)"

inductive_cases billed_history_Cons: "billed_history (b # h)"

lemma keyed_resave:
  assumes "keyed ivs" "resave_invoice iv ivs = Inr ivs'"
  shows "keyed ivs'"
proof -
  let ?iv = "set_period_key iv"
  let ?f = "\<lambda>x. if inv_name x = inv_name ?iv then ?iv else x"
  from assms(2) have free: "\<forall>x \<in> set ivs. inv_name x \<noteq> inv_name ?iv \<longrightarrow> inv_period_key x \<noteq> inv_period_key ?iv"
    and ivs': "ivs' = map ?f ivs"
    by (auto simp: resave_invoice_def Let_def split: if_splits)
  have names: "map inv_name ivs' = map inv_name ivs" by (simp add: ivs')
  have keys: "distinct (map inv_period_key ivs')"
  proof -
    have "inj_on (inv_period_key \<circ> ?f) (set ivs)"
    proof (rule inj_onI)
      fix x y assume xy: "x \<in> set ivs" "y \<in> set ivs" "(inv_period_key \<circ> ?f) x = (inv_period_key \<circ> ?f) y"
      have inj: "inj_on inv_period_key (set ivs)" "inj_on inv_name (set ivs)"
        using assms(1) by (simp_all add: keyed_def distinct_map)
      from xy free have "inv_name x = inv_name ?iv \<longleftrightarrow> inv_name y = inv_name ?iv"
        by (auto split: if_splits)
      with xy inj show "x = y" by (auto simp: inj_on_def split: if_splits)
    qed
    then show ?thesis using assms(1) by (simp add: keyed_def ivs' distinct_map)
  qed
  have "inv_period_key (?f x) = inv_period_key (set_period_key (?f x))" if "x \<in> set ivs" for x
    using assms(1) that by (simp add: keyed_def)
  then have "\<forall>x \<in> set ivs'. inv_period_key x = inv_period_key (set_period_key x)" by (auto simp only: ivs' set_map)
  with keys names assms(1) show ?thesis by (simp only: keyed_def)
qed

lemma keyed_generate:
  assumes "keyed (bk_invoices b)" "generate_once env seen team ps pe b = Inr (res, b')"
  shows "keyed (bk_invoices b')"
  using assms(2)
proof (cases rule: generate_once_cases)
  case (billed r n b1 b2)
  have "bk_invoices b' = bk_invoices b1" using breach_frame [OF billed(5)] by (simp add: billed(7))
  moreover from billed(4) have "keyed (bk_invoices b1)"
  proof (cases rule: insert_invoice_cases)
    case (adds iv)
    show ?thesis unfolding adds(3) using adds(1) by (intro keyed_snoc [OF assms(1) adds(2)]) simp
  qed (use assms(1) in simp)
  ultimately show ?thesis by simp
qed (use assms(1) in simp_all)

lemma billed_history_keyed: "billed_history h \<Longrightarrow> h \<noteq> [] \<and> keyed (bk_invoices (hd h))"
  by (induction rule: billed_history.induct) (auto intro: keyed_generate keyed_resave)

lemma taken_slot:
  assumes "keyed (bk_invoices b)" "live_invoice b team ps pe = Some n" "inv_team iv = team" "inv_period_start iv = ps"
    "inv_period_end iv = pe" "inv_status iv = ''Outstanding''"
  shows "breaks_unique (set_period_key iv) (bk_invoices b)"
proof -
  from live_invoice_Some [OF assms(2)] obtain x where x: "x \<in> set (bk_invoices b)" "is_live_for team ps pe x" by auto
  then have "inv_period_key x = period_key_for team ps pe" using assms(1) live_key [OF x(2)] by (simp add: keyed_def)
  moreover have "inv_period_key (set_period_key iv) = period_key_for team ps pe"
    using assms(3-) by (simp add: set_period_key_def)
  ultimately show ?thesis using x(1) by (auto simp: breaks_unique_def)
qed

section \<open>Properties\<close>

text \<open>
  Property C5: a team has at most one live invoice for a month, whatever the workers do: any number of
  drafts, each reading tables as stale as it likes, with invoices saved, cancelled and reissued in
  between. A draft that meets the live invoice of another worker adds nothing and answers with that
  invoice, unless the stale read answered already.
\<close>

theorem team_billed_once:
  assumes "billed_history (b # h)"
  shows "length (filter (is_live_for team ps pe) (bk_invoices b)) \<le> 1
    \<and> (\<forall>env seen winner res b'. live_invoice b team ps pe = Some winner \<longrightarrow>
         generate_once env seen team ps pe b = Inr (res, b') \<longrightarrow>
         bk_invoices b' = bk_invoices b \<and> bk_lines b' = bk_lines b
         \<and> (res = None \<or> res = Some winner \<or> res = live_invoice seen team ps pe))"
proof (intro conjI allI impI)
  have keyed: "keyed (bk_invoices b)" using billed_history_keyed [OF assms] by simp
  then show "length (filter (is_live_for team ps pe) (bk_invoices b)) \<le> 1" by (rule keyed_one_live)
  fix env seen winner res b'
  assume live: "live_invoice b team ps pe = Some winner" and run: "generate_once env seen team ps pe b = Inr (res, b')"
  from run have "bk_invoices b' = bk_invoices b \<and> bk_lines b' = bk_lines b
      \<and> (res = None \<or> res = Some winner \<or> res = live_invoice seen team ps pe)"
  proof (cases rule: generate_once_cases)
    case (billed r n b1 b2)
    obtain ls where "rate env seen team ls ps pe = Inr r" by (rule rate_team_period_Some [OF billed(2)])
    note fields = rate_Inr [OF this]
    from billed(4) have "b1 = b \<and> n = winner"
    proof (cases rule: insert_invoice_cases)
      case yields
      with live fields show ?thesis by simp
    next
      case (adds iv)
      have "breaks_unique iv (bk_invoices b)"
        unfolding adds(1) by (rule taken_slot [OF keyed live]) (use fields in simp_all)
      with adds(2) show ?thesis by simp
    qed
    with breach_frame [OF billed(5)] show ?thesis by (simp add: billed)
  qed auto
  then show "bk_invoices b' = bk_invoices b" "bk_lines b' = bk_lines b"
    "res = None \<or> res = Some winner \<or> res = live_invoice seen team ps pe" by simp_all
qed

section \<open>Cents\<close>

lemma team_line_cents:
  assumes r2: "cents_rounding r2" and x: "x \<in> set (team_line_items r2 servers snapshots subs changes ps pe)"
  shows "is_cents (ln_amount x)"
proof -
  have seg: "is_cents (ln_amount y)" if "y \<in> set (segment_lines r2 s ds b)" for y s ds b
    using that r2 by (auto simp: segment_lines_def Let_def daily_line_def partial_day_lines_def resize_day_lines_def
        hourly_line_def split: if_splits prod.splits)
  have sub: "is_cents (ln_amount y)" if "y \<in> set (subscription_lines r2 sub cluster chs b)" for y sub cluster chs b
    using that seg by (auto simp: subscription_lines_def Let_def ordered_def)
  from x show ?thesis by (auto simp: team_line_items_def Let_def ordered_def intro: sub split: option.splits)
qed

lemma metered_line_cents:
  assumes "cents_rounding r2" "metered_lines r2 env team clusters ps pe rs = Inr ms" "u \<in> set ms"
  shows "is_cents (ml_amount u)"
proof -
  have billed: "u \<in> set (billed_lines xs) \<Longrightarrow> Billed u \<in> set xs" for xs
    by (induction xs rule: billed_lines.induct) auto
  have "Billed u = metered_line_of r2 env r \<Longrightarrow> is_cents (ml_amount u)" for r
    using assms(1) by (auto simp: metered_line_of_def Let_def split: if_splits option.splits)
  with assms(2,3) show ?thesis by (auto simp: metered_lines_def Let_def dest!: billed split: if_splits)
qed

lemma resolve_tax_cents:
  "cents_rounding r2 \<Longrightarrow> resolve_tax r2 te team subtotal = Inr t \<Longrightarrow>
     is_cents (tb_output_tax_amount t) \<and> is_cents (tb_tds_amount t)"
  by (auto simp: resolve_tax_def ZERO_BLOCK_def Let_def bindE_Inr split_beta split: if_splits)

lemma is_cents_sum: "\<forall>x \<in> set xs. is_cents (f x) \<Longrightarrow> is_cents (sum_list (map f xs))"
  by (induction xs) auto

lemma tag_projects_what: "map bl_what (tag_projects env b team ls) = map bl_what ls"
  by (simp add: tag_projects_def comp_def split: option.split)

lemma resolve_commitment_cents:
  "cents_rounding r2 \<Longrightarrow> v = resolve_commitment r2 cs ivs team ls d \<Longrightarrow>
     is_cents (vd_discount v) \<and> is_cents (vd_clawback v) \<and> (vd_discount v = 0 \<or> vd_clawback v = 0)"
  by (auto simp: resolve_commitment_def discount_enjoyed_def Let_def split: option.splits)

lemma rate_adds_up:
  assumes r2: "cents_rounding (ge_r2 env)" and rate: "rate env b team ls ps pe = Inr r"
    and ls: "\<forall>l \<in> set ls. is_cents (bl_amount l)"
  shows "map bl_what (rt_lines r) = map bl_what ls
    \<and> inv_subtotal (rt_invoice r) = sum_list (map bl_amount (rt_lines r))
    \<and> inv_total (rt_invoice r) = inv_subtotal (rt_invoice r) - inv_commitment_discount (rt_invoice r)
        + inv_commitment_clawback (rt_invoice r) + tb_output_tax_amount (inv_tax (rt_invoice r))
    \<and> inv_expected_collection (rt_invoice r) = inv_total (rt_invoice r) - tb_tds_amount (inv_tax (rt_invoice r))
    \<and> (inv_commitment_discount (rt_invoice r) = 0 \<or> inv_commitment_clawback (rt_invoice r) = 0)"
proof -
  let ?ls = "tag_projects env b team ls"
  have what: "map bl_what ?ls = map bl_what ls" by (rule tag_projects_what)
  have same: "map bl_amount ?ls = map bl_amount ls"
    using what map_map [of billed_amount bl_what ?ls] map_map [of billed_amount bl_what ls] by (simp only: comp_def)
  have sum: "is_cents (sum_list (map bl_amount ls))" using ls by (rule is_cents_sum)
  let ?v = "resolve_commitment (ge_r2 env) (bk_commitments b) (bk_invoices b) team ?ls ps"
  note v = resolve_commitment_cents [OF r2 refl, of "bk_commitments b" "bk_invoices b" team ?ls ps]
  let ?base = "sum_list (map bl_amount ls) - vd_discount ?v + vd_clawback ?v"
  have base: "is_cents ?base" using sum v by blast
  from rate obtain t where t: "resolve_tax (ge_r2 env) (tax_env_of (ge_pay env) (bk_world b)) team ?base = Inr t"
    and r: "rt_lines r = ?ls" "inv_subtotal (rt_invoice r) = sum_list (map bl_amount ls)"
      "inv_commitment_discount (rt_invoice r) = vd_discount ?v" "inv_commitment_clawback (rt_invoice r) = vd_clawback ?v"
      "inv_tax (rt_invoice r) = t" "inv_total (rt_invoice r) = ge_r2 env (?base + tb_output_tax_amount t)"
      "inv_expected_collection (rt_invoice r) = ge_r2 env (inv_total (rt_invoice r) - tb_tds_amount t)"
    by (auto simp: rate_def Let_def bindE_Inr same cents_rounding_id [OF r2 sum] cents_rounding_id [OF r2 base])
  note tax = resolve_tax_cents [OF r2 t]
  have total: "inv_total (rt_invoice r) = ?base + tb_output_tax_amount t"
    using base tax by (simp only: r) (rule cents_rounding_id [OF r2], blast)
  then have "inv_expected_collection (rt_invoice r) = inv_total (rt_invoice r) - tb_tds_amount t"
    using base tax by (simp only: r(7)) (rule cents_rounding_id [OF r2], auto)
  with total v show ?thesis by (simp add: r(1-5) what same)
qed

text \<open>
  Property C6: a draft adds up to the cent. Its lines are the team's fixed lines followed by its
  metered lines, the subtotal is their exact sum, the total is the subtotal less the commitment
  discount plus the clawback plus the tax, never both a discount and a clawback, what is to be
  collected is the total less the tax withheld, and the total is no less than the minimum of its currency.
\<close>

theorem draft_adds_up:
  assumes run: "generate_once env seen team ps pe b = Inr (Some n, b')"
    and new: "live_invoice seen team ps pe = None" "live_invoice b team ps pe = None"
    and r2: "cents_rounding (ge_r2 env)"
  shows "\<exists>iv ls ms. bk_invoices b' = bk_invoices b @ [iv] \<and> bk_lines b' = bk_lines b @ [(n, ls)]
    \<and> inv_name iv = n \<and> is_live_for team ps pe iv
    \<and> metered_lines (ge_r2 env) (ge_sub env) team (team_clusters seen team) ps pe (bk_rollups seen) = Inr ms
    \<and> map bl_what ls = map Bundle (fixed_lines env seen team ps pe) @ map Usage ms
    \<and> inv_subtotal iv = sum_list (map bl_amount ls)
    \<and> inv_total iv = inv_subtotal iv - inv_commitment_discount iv + inv_commitment_clawback iv
        + tb_output_tax_amount (inv_tax iv)
    \<and> (inv_commitment_discount iv = 0 \<or> inv_commitment_clawback iv = 0)
    \<and> inv_expected_collection iv = inv_total iv - tb_tds_amount (inv_tax iv)
    \<and> minimum_invoice_amount (pe_settings (ge_pay env)) (Option.bind (pw_profiles (bk_world seen) team) bp_currency)
        \<le> inv_total iv"
  using run
proof (cases rule: generate_once_cases)
  case (billed r m b1 b2)
  obtain ms where ms: "metered_lines (ge_r2 env) (ge_sub env) team (team_clusters seen team) ps pe (bk_rollups seen) = Inr ms"
    and rate: "rate env seen team (map (untagged \<circ> Bundle) (fixed_lines env seen team ps pe) @ map (untagged \<circ> Usage) ms) ps pe = Inr r"
    by (rule rate_team_period_Some [OF billed(2)])
  note fields = rate_Inr [OF rate]
  from rate have sums: "map bl_what (rt_lines r) = map bl_what
        (map (untagged \<circ> Bundle) (fixed_lines env seen team ps pe) @ map (untagged \<circ> Usage) ms)
    \<and> inv_subtotal (rt_invoice r) = sum_list (map bl_amount (rt_lines r))
    \<and> inv_total (rt_invoice r) = inv_subtotal (rt_invoice r) - inv_commitment_discount (rt_invoice r)
        + inv_commitment_clawback (rt_invoice r) + tb_output_tax_amount (inv_tax (rt_invoice r))
    \<and> inv_expected_collection (rt_invoice r) = inv_total (rt_invoice r) - tb_tds_amount (inv_tax (rt_invoice r))
    \<and> (inv_commitment_discount (rt_invoice r) = 0 \<or> inv_commitment_clawback (rt_invoice r) = 0)"
    by (rule rate_adds_up [OF r2]) (use team_line_cents [OF r2] metered_line_cents [OF r2 ms] in
        \<open>auto simp: untagged_def fixed_lines_def\<close>)
  from billed(4) show ?thesis
  proof (cases rule: insert_invoice_cases)
    case yields
    with new fields show ?thesis by simp
  next
    case (adds iv)
    have "n = m" using billed(6) by simp
    moreover have "bk_invoices b' = bk_invoices b @ [iv]" "bk_lines b' = bk_lines b @ [(m, rt_lines r)]"
      using breach_frame [OF billed(5)] adds by (simp_all add: billed(7))
    moreover have "inv_name iv = m" "is_live_for team ps pe iv" "inv_subtotal iv = inv_subtotal (rt_invoice r)"
      "inv_total iv = inv_total (rt_invoice r)" "inv_commitment_discount iv = inv_commitment_discount (rt_invoice r)"
      "inv_commitment_clawback iv = inv_commitment_clawback (rt_invoice r)" "inv_tax iv = inv_tax (rt_invoice r)"
      "inv_expected_collection iv = inv_expected_collection (rt_invoice r)"
      using fields by (simp_all add: adds(1) set_period_key_def is_live_for_def)
    moreover have "minimum_invoice_amount (pe_settings (ge_pay env)) (Option.bind (pw_profiles (bk_world seen) team) bp_currency)
        \<le> inv_total (rt_invoice r)"
      using billed(3) fields by (simp add: is_below_minimum_def)
    moreover have "map bl_what (rt_lines r) = map Bundle (fixed_lines env seen team ps pe) @ map Usage ms"
      using sums by (simp add: untagged_def comp_def)
    ultimately show ?thesis using sums ms by auto
  qed
qed (use new in simp_all)

text \<open>
  A breach is final: the draft that finds the month below the floor marks the commitment, and no later
  month is discounted or charged back under it.
\<close>

lemma mark_breached_marks:
  assumes "mark_breached am v seen cs evs = Inr (cs', evs')" "vd_breach v = Some c" "c \<noteq> []"
    and x: "x \<in> set cs'" "cm_name x = c"
  shows "cm_status x = ''Breached''"
proof -
  from assms(1-3) obtain k doc where k: "find (\<lambda>c'. Some (cm_name c') = vd_breach v) seen = Some k"
    and tr: "transition am (sdoc_of_commitment k) ''Breached'' (Some ''commitment period breached'')
      (Some ''scheduler'') None None None evs = Inr (doc, evs')"
    and cs': "cs' = map (\<lambda>x. if cm_name x = cm_name k then x\<lparr>cm_status := the (sd_fields doc ''status'')\<rparr> else x) cs"
    by (auto simp: mark_breached_def bindE_Inr split: option.splits if_splits)
  from find_Some [OF k] have name: "cm_name k = c" using assms(2) by auto
  have own: "machine_for (sd_doctype (sdoc_of_commitment k)) = Inr COMMITMENT"
    by (simp add: sdoc_of_commitment_def sdoc_of_def machine_for_own)
  from tr have "sd_fields doc ''status'' = Some ''Breached''"
    by (cases rule: transition_cases) (use own in \<open>auto simp: state_of_def COMMITMENT_def\<close>)
  note breached = this
  from x(1) obtain y where y: "x = (if cm_name y = cm_name k then y\<lparr>cm_status := the (sd_fields doc ''status'')\<rparr> else y)"
    unfolding cs' set_map by (elim imageE)
  show ?thesis
  proof (cases "cm_name y = cm_name k")
    case True
    then show ?thesis by (simp add: y breached)
  next
    case False
    with y have "x = y" by simp
    with False name x(2) show ?thesis by simp
  qed
qed

lemma discount_enjoyed_exact:
  assumes "cents_rounding r2" "\<forall>iv \<in> set ivs. is_cents (inv_commitment_discount iv)"
  shows "discount_enjoyed r2 ivs team since = sum_where (\<lambda>iv. inv_team iv = team
    \<and> (case since of None \<Rightarrow> True | Some d \<Rightarrow> d \<le> inv_period_start iv) \<and> inv_status iv \<noteq> ''Cancelled'') inv_commitment_discount ivs"
  unfolding discount_enjoyed_def sum_where_def
  by (rule cents_rounding_id [OF assms(1)], rule is_cents_sum) (use assms(2) in auto)

lemma rate_commitment:
  assumes "rate env b team ls ps pe = Inr r"
  shows "rt_verdict r = resolve_commitment (ge_r2 env) (bk_commitments b) (bk_invoices b) team (rt_lines r) ps
    \<and> inv_commitment_discount (rt_invoice r) = vd_discount (rt_verdict r)
    \<and> inv_commitment_clawback (rt_invoice r) = vd_clawback (rt_verdict r)"
  using assms by (auto simp: rate_def Let_def bindE_Inr)

lemma breach_verdict:
  assumes "resolve_commitment r2 cs ivs team ls d = v" "vd_breach v = Some c"
  obtains k where "active_commitment cs team d = Some k" "cm_name k = c" "fixed_bundle_spend r2 ls < cm_floor k"
    "vd_clawback v = discount_enjoyed r2 ivs team (cm_started_at k)" "vd_discount v = 0"
  using assms by (auto simp: resolve_commitment_def Let_def split: option.splits if_splits)

text \<open>
  Property C21: a month below the floor breaches the commitment once. The draft charges back exactly
  the discounts the team's standing invoices carry since the commitment began, gives none itself,
  and leaves the commitment Breached, so no later draft is discounted or charged back under it.
\<close>

theorem breach_charged_back_once:
  assumes rated: "rate_team_period env seen team ps pe = Inr (Some r)" "vd_breach (rt_verdict r) = Some c" "c \<noteq> []"
    and run: "generate_once env seen team ps pe b = Inr (Some n, b')" and new: "live_invoice seen team ps pe = None"
    and r2: "cents_rounding (ge_r2 env)" "\<forall>iv \<in> set (bk_invoices seen). is_cents (inv_commitment_discount iv)"
  shows "(\<exists>k. active_commitment (bk_commitments seen) team ps = Some k \<and> cm_name k = c
      \<and> fixed_bundle_spend (ge_r2 env) (rt_lines r) < cm_floor k
      \<and> inv_commitment_discount (rt_invoice r) = 0
      \<and> inv_commitment_clawback (rt_invoice r) = sum_where (\<lambda>iv. inv_team iv = team
          \<and> (case cm_started_at k of None \<Rightarrow> True | Some d \<Rightarrow> d \<le> inv_period_start iv)
          \<and> inv_status iv \<noteq> ''Cancelled'') inv_commitment_discount (bk_invoices seen))
    \<and> (\<forall>r2 ivs ls on_date. vd_breach (resolve_commitment r2 (bk_commitments b') ivs team ls on_date) \<noteq> Some c
        \<and> (\<forall>k. active_commitment (bk_commitments b') team on_date = Some k \<longrightarrow> cm_name k \<noteq> c))"
  using run
proof (cases rule: generate_once_cases)
  case (billed r' m b1 b2)
  have r': "r' = r" using billed(2) rated(1) by simp
  obtain ls where "rate env seen team ls ps pe = Inr r" by (rule rate_team_period_Some [OF rated(1)])
  note verdict = rate_commitment [OF this]
  from verdict have "resolve_commitment (ge_r2 env) (bk_commitments seen) (bk_invoices seen) team (rt_lines r) ps = rt_verdict r"
    by simp
  then obtain k where k: "active_commitment (bk_commitments seen) team ps = Some k" "cm_name k = c"
      "fixed_bundle_spend (ge_r2 env) (rt_lines r) < cm_floor k"
      "vd_clawback (rt_verdict r) = discount_enjoyed (ge_r2 env) (bk_invoices seen) team (cm_started_at k)"
      "vd_discount (rt_verdict r) = 0"
    by (rule breach_verdict [OF _ rated(2)])
  from billed(5) obtain evs where
    "mark_breached (ge_ambient env) (rt_verdict r) (bk_commitments seen) (bk_commitments b1) (pw_events (bk_world b1))
      = Inr (bk_commitments b2, evs)"
    by (auto simp: breach_def bindE_Inr r')
  from mark_breached_marks [OF this rated(2,3)]
  have over: "cm_status x = ''Breached''" if "x \<in> set (bk_commitments b')" "cm_name x = c" for x
    using that by (simp add: billed(7))
  have never: "cm_name k' \<noteq> c" if "active_commitment (bk_commitments b') team on_date = Some k'" for k' on_date
  proof -
    from that have "\<exists>x. find (\<lambda>c. cm_team c = team \<and> cm_status c = ''Active'') (rev (bk_commitments b')) = Some x \<and> x = k'"
      by (auto simp: active_commitment_def split: option.splits if_splits)
    then have "k' \<in> set (bk_commitments b') \<and> cm_status k' = ''Active''" by (auto dest: find_Some)
    with over [of k'] show ?thesis by auto
  qed
  have "vd_breach (resolve_commitment r2 (bk_commitments b') ivs team ls on_date) \<noteq> Some c" for r2 ivs ls on_date
  proof
    assume "vd_breach (resolve_commitment r2 (bk_commitments b') ivs team ls on_date) = Some c"
    from breach_verdict [OF refl this] never show False by metis
  qed
  with never k verdict show ?thesis
    by (intro conjI exI [of _ k] allI impI) (simp_all add: discount_enjoyed_exact [OF r2])
qed (use new in simp_all)

text \<open>
  A renewal entered before the running term ends hides it: the newest Active commitment is taken and
  only then is its term looked at, so until the renewal begins the team has no commitment at all, no
  discount and no breach.
\<close>

lemma renewal_hides_running_commitment:
  assumes "cm_team renewal = team" "cm_status renewal = ''Active''" "cm_started_at renewal = Some start" "d < start"
  shows "active_commitment (cs @ [renewal]) team d = None"
  using assms by (simp add: active_commitment_def)

section \<open>An example\<close>

text \<open>June 2026 for a team with one server at 1000 a month, committed to 500 a month for 10 percent off.\<close>

definition june_estate :: estate where
  "june_estate = \<lparr>es_subs = [(blank_sub ''a'' ''t1'')\<lparr>su_server := Some ''v1'', su_plan := Some ''p'', su_enabled := True,
       su_project := Some ''shop''\<rparr>],
     es_changes = [\<lparr>sc_subscription = ''a'', sc_type = ''Created'', sc_old = None, sc_new = Some ''p'', sc_rate = Some 1000,
       sc_currency = Some ''INR'', sc_at = at_midnight 739768, sc_by = ''x''\<rparr>],
     es_servers = [\<lparr>sv_name = ''v1'', sv_team = ''t1'', sv_region = Some ''r'', sv_status = ''Running'', sv_plan = Some ''p'',
       sv_vcpus = 1, sv_memory_mb = 1024, sv_disk_gb = 10\<rparr>],
     es_projects = [\<lparr>pj_name = ''shop'', pj_team = ''t1'', pj_enabled = True, pj_spending_limit = 0\<rparr>],
     es_events = [], es_commands = []\<rparr>"

definition bare_catalog :: catalog where
  "bare_catalog = \<lparr>ct_rates = [], ct_overrides = [], ct_categories = [], ct_plans = [], ct_profiles = []\<rparr>"

definition june_env :: gen_env where
  "june_env = \<lparr>ge_pay = pay_env_with (Inl DoesNotExist),
     ge_sub = \<lparr>se_ambient = \<lparr>am_now = 0, am_user = None\<rparr>, se_r6 = id, se_catalog = bare_catalog,
       se_levels = [], se_tiers = Map.empty, se_profiles = Map.empty, se_composed_label = (\<lambda>_. []),
       se_payment_gate = (\<lambda>_ _. None), se_staging_trial = (\<lambda>_. False), se_command_accepted = (\<lambda>_ _. True),
       se_control_server = (\<lambda>_ _. None), se_billing_deferred = (\<lambda>_. False)\<rparr>,
     ge_snapshot_region = Map.empty, ge_project_title = id, ge_amount_text = (\<lambda>_. ''few'')\<rparr>"

definition june_commitment :: commitment where
  "june_commitment = \<lparr>cm_name = ''c1'', cm_team = ''t1'', cm_status = ''Active'', cm_floor = 500, cm_discount_pct = 10,
     cm_term_months = 12, cm_started_at = Some 739768\<rparr>"

definition june_books :: books where
  "june_books = \<lparr>bk_world = due_world\<lparr>pw_invoices := []\<rparr>, bk_estate = june_estate, bk_rollups = [],
     bk_commitments = [june_commitment], bk_outcomes = [], bk_lines = [], bk_series = (\<lambda>_. 0), bk_runs = []\<rparr>"

definition drafted_books :: books where
  "drafted_books = (case generate_once june_env june_books ''t1'' 739768 739797 june_books of
     Inr (_, b) \<Rightarrow> b | Inl _ \<Rightarrow> june_books)"

definition june_line :: line where
  "june_line = \<lparr>ln_resource = Some ''v1'', ln_plan = ''p'', ln_cluster = ''r'', ln_unit = ''day'', ln_rate = 1000,
     ln_days = Some 30, ln_hours = None, ln_charge_date = None, ln_period_from = Some (at_midnight 739768),
     ln_period_to = Some (at_midnight 739798), ln_amount = 1000, ln_dates = [739768..739797]\<rparr>"

lemma june_fixed: "fixed_lines june_env june_books ''t1'' 739768 739797 = [june_line]"
  by code_simp

lemma june_metered: "metered_lines (ge_r2 june_env) (ge_sub june_env) ''t1'' (team_clusters june_books ''t1'') 739768 739797
    (bk_rollups june_books) = Inr []"
  by code_simp

lemma june_verdict: "resolve_commitment half_up [june_commitment] [] ''t1''
    [\<lparr>bl_what = Bundle june_line, bl_project = Some (''shop'', ''shop'')\<rparr>] 739768
    = \<lparr>vd_discount = 100, vd_clawback = 0, vd_breach = None\<rparr>"
  by code_simp

lemma june_tagged: "tag_projects june_env june_books ''t1'' [untagged (Bundle june_line)]
    = [\<lparr>bl_what = Bundle june_line, bl_project = Some (''shop'', ''shop'')\<rparr>]"
  by code_simp

definition june_tax :: tax_block where
  "june_tax = example_tax\<lparr>tb_output_tax_amount := 162\<rparr>"

lemma june_taxed: "resolve_tax half_up (tax_env_of (ge_pay june_env) (bk_world june_books)) ''t1'' 900 = Inr june_tax"
  by code_simp

definition june_draft :: invoice where
  "june_draft = june_invoice\<lparr>inv_name := [], inv_commitment_discount := 100, inv_tax := june_tax, inv_total := 1062,
     inv_expected_collection := 1062\<rparr>"

definition june_rated :: rated where
  "june_rated = \<lparr>rt_verdict = \<lparr>vd_discount = 100, vd_clawback = 0, vd_breach = None\<rparr>, rt_currency = Some ''INR'',
     rt_lines = [\<lparr>bl_what = Bundle june_line, bl_project = Some (''shop'', ''shop'')\<rparr>], rt_invoice = june_draft\<rparr>"

lemma june_books_simps:
  "pe_r2 (ge_pay june_env) = half_up" "bk_commitments june_books = [june_commitment]" "bk_invoices june_books = []"
  "pw_profiles (bk_world june_books) = example_profiles"
  by (simp_all add: june_env_def june_books_def pay_env_with_def due_world_def)

lemma june_rate: "rate june_env june_books ''t1'' [untagged (Bundle june_line)] 739768 739797 = Inr june_rated"
proof -
  have "ln_amount june_line = 1000" by (simp add: june_line_def)
  then show ?thesis
    by (simp add: rate_def Let_def june_tagged june_books_simps june_verdict june_taxed example_profiles_def)
      (simp add: june_rated_def june_draft_def june_tax_def example_tax_def june_invoice_def)
qed

lemma june_rated_period: "rate_team_period june_env june_books ''t1'' 739768 739797 = Inr (Some june_rated)"
  by (simp add: rate_team_period_def rate_lines_def june_fixed june_metered [simplified june_books_simps]
      june_books_simps june_rate)

lemma june_name: "autoname june_books (rt_invoice june_rated) = ''INV-2026-06-00001''"
  by code_simp

definition issued_in_june :: invoice where
  "issued_in_june = set_period_key (june_draft\<lparr>inv_name := ''INV-2026-06-00001''\<rparr>)"

lemma june_inserted: "\<exists>b1. insert_invoice june_rated june_books = Inr (''INV-2026-06-00001'', b1) \<and> bk_invoices b1 = [issued_in_june]
    \<and> bk_lines b1 = [(''INV-2026-06-00001'', rt_lines june_rated)]"
  by (simp add: insert_invoice_def Let_def june_name issued_in_june_def breaks_unique_def june_books_simps)
    (simp add: june_rated_def june_books_def)

lemma june_minimum: "\<not> is_below_minimum june_env june_rated"
  by code_simp

lemma june_unbilled: "live_invoice june_books ''t1'' 739768 739797 = None"
  by (simp add: live_invoice_def june_books_simps)

lemma no_breach [simp]: "breach env seen (rt_verdict june_rated) b = Inr b"
  by (simp add: breach_def mark_breached_def june_rated_def)

lemma june_drafted: "\<exists>b. generate_once june_env june_books ''t1'' 739768 739797 june_books = Inr (Some ''INV-2026-06-00001'', b)
    \<and> bk_invoices b = [issued_in_june] \<and> bk_lines b = [(''INV-2026-06-00001'', rt_lines june_rated)]"
  using june_inserted by (auto simp: generate_once_def june_unbilled june_rated_period june_minimum)

theorem draft_adds_up_witness:
  "\<exists>b. generate_once june_env june_books ''t1'' 739768 739797 june_books = Inr (Some ''INV-2026-06-00001'', b)
    \<and> (\<exists>iv. bk_invoices b = [iv] \<and> inv_subtotal iv = 1000
      \<and> inv_total iv = 1000 - inv_commitment_discount iv + inv_commitment_clawback iv + tb_output_tax_amount (inv_tax iv))"
proof -
  from june_drafted obtain b where b: "generate_once june_env june_books ''t1'' 739768 739797 june_books
      = Inr (Some ''INV-2026-06-00001'', b)" "bk_invoices b = [issued_in_june]" by auto
  have "cents_rounding (ge_r2 june_env)" by (simp add: june_books_simps half_up_rounding)
  from draft_adds_up [OF b(1) june_unbilled june_unbilled this] b(2)
  have "inv_total issued_in_june = inv_subtotal issued_in_june - inv_commitment_discount issued_in_june
      + inv_commitment_clawback issued_in_june + tb_output_tax_amount (inv_tax issued_in_june)"
    by (auto simp: june_books_simps)
  moreover have "inv_subtotal issued_in_june = 1000"
    by (simp add: issued_in_june_def set_period_key_def june_draft_def june_invoice_def)
  ultimately show ?thesis using b by simp
qed

lemma issued_in_june_live: "is_live_for ''t1'' 739768 739797 issued_in_june" "inv_name issued_in_june = ''INV-2026-06-00001''"
  by (simp_all add: is_live_for_def issued_in_june_def june_draft_def june_invoice_def)

text \<open>A second worker that read the tables before the first committed.\<close>

theorem team_billed_once_witness:
  "\<exists>b b'. generate_once june_env june_books ''t1'' 739768 739797 june_books = Inr (Some ''INV-2026-06-00001'', b)
    \<and> generate_once june_env june_books ''t1'' 739768 739797 b = Inr (Some ''INV-2026-06-00001'', b')
    \<and> bk_invoices b' = [issued_in_june]"
proof -
  from june_drafted obtain b where b: "generate_once june_env june_books ''t1'' 739768 739797 june_books
      = Inr (Some ''INV-2026-06-00001'', b)" "bk_invoices b = [issued_in_june]" by auto
  have h: "billed_history [b, june_books]"
    by (rule drafted [OF begun _ b(1)]) (simp_all add: keyed_def june_books_simps)
  have live: "live_invoice b ''t1'' 739768 739797 = Some ''INV-2026-06-00001''"
    by (simp add: live_invoice_def b(2) issued_in_june_live)
  have fields: "inv_team june_draft = ''t1''" "inv_period_start june_draft = 739768" "inv_period_end june_draft = 739797"
    "inv_status june_draft = ''Outstanding''" by (simp_all add: june_draft_def june_invoice_def)
  have "keyed (bk_invoices b)" using billed_history_keyed [OF h] by simp
  from taken_slot [OF this live] have "breaks_unique (set_period_key (june_draft\<lparr>inv_name := autoname b june_draft\<rparr>)) (bk_invoices b)"
    by (simp add: fields)
  then have "insert_invoice june_rated b = Inr (''INV-2026-06-00001'', b)"
    using live by (simp add: insert_invoice_def Let_def june_rated_def fields)
  then obtain b' where b': "generate_once june_env june_books ''t1'' 739768 739797 b = Inr (Some ''INV-2026-06-00001'', b')"
    by (simp add: generate_once_def june_unbilled june_rated_period june_minimum)
  with team_billed_once [OF h, of "''t1''" 739768 739797] live have "bk_invoices b' = bk_invoices b" by blast
  with b b' show ?thesis by auto
qed

text \<open>The same month under a floor of 5000, after a month that was discounted by 100.\<close>

definition may_invoice :: invoice where
  "may_invoice = june_invoice\<lparr>inv_period_start := 739737, inv_period_end := 739767, inv_commitment_discount := 100\<rparr>"

definition missed_books :: books where
  "missed_books = june_books\<lparr>bk_world := due_world\<lparr>pw_invoices := [may_invoice]\<rparr>,
     bk_commitments := [june_commitment\<lparr>cm_floor := 5000, cm_started_at := Some 739737\<rparr>]\<rparr>"

definition missed_verdict :: verdict where
  "missed_verdict = \<lparr>vd_discount = 0, vd_clawback = 100, vd_breach = Some ''c1''\<rparr>"

definition missed_rated :: rated where
  "missed_rated = \<lparr>rt_verdict = missed_verdict, rt_currency = Some ''INR'',
     rt_lines = [\<lparr>bl_what = Bundle june_line, bl_project = Some (''shop'', ''shop'')\<rparr>],
     rt_invoice = june_draft\<lparr>inv_commitment_discount := 0, inv_commitment_clawback := 100,
       inv_tax := june_tax\<lparr>tb_output_tax_amount := 198\<rparr>, inv_total := 1298, inv_expected_collection := 1298\<rparr>\<rparr>"

lemma missed_lines:
  "fixed_lines june_env missed_books ''t1'' 739768 739797 = [june_line]"
  "metered_lines half_up (ge_sub june_env) ''t1'' (team_clusters missed_books ''t1'') 739768 739797 (bk_rollups missed_books) = Inr []"
  "tag_projects june_env missed_books ''t1'' [untagged (Bundle june_line)]
    = [\<lparr>bl_what = Bundle june_line, bl_project = Some (''shop'', ''shop'')\<rparr>]"
  "resolve_tax half_up (tax_env_of (ge_pay june_env) (bk_world missed_books)) ''t1'' 1100
    = Inr (june_tax\<lparr>tb_output_tax_amount := 198\<rparr>)"
  by code_simp+

lemma missed_resolved: "resolve_commitment half_up (bk_commitments missed_books) (bk_invoices missed_books) ''t1''
    [\<lparr>bl_what = Bundle june_line, bl_project = Some (''shop'', ''shop'')\<rparr>] 739768 = missed_verdict"
  by code_simp

lemma missed_fields:
  "vd_discount missed_verdict = 0" "vd_clawback missed_verdict = 100"
  "Option.bind (pw_profiles (bk_world missed_books) ''t1'') bp_currency = Some ''INR''"
  by (simp_all add: missed_verdict_def missed_books_def due_world_def example_profiles_def)

lemma missed_rate: "rate_team_period june_env missed_books ''t1'' 739768 739797 = Inr (Some missed_rated)"
proof -
  have "ln_amount june_line = 1000" by (simp add: june_line_def)
  then have "rate june_env missed_books ''t1'' [untagged (Bundle june_line)] 739768 739797 = Inr missed_rated"
    by (simp add: rate_def Let_def missed_lines june_books_simps missed_resolved missed_fields)
      (simp add: missed_rated_def june_draft_def june_tax_def example_tax_def june_invoice_def)
  then show ?thesis by (simp add: rate_team_period_def rate_lines_def june_books_simps missed_lines)
qed

theorem breach_charged_back_once_witness:
  "\<exists>b. generate_once june_env missed_books ''t1'' 739768 739797 missed_books = Inr (Some ''INV-2026-06-00001'', b)
    \<and> inv_commitment_clawback (rt_invoice missed_rated) = 100
    \<and> vd_breach (resolve_commitment half_up (bk_commitments b) [may_invoice] ''t1'' [] 739798) \<noteq> Some ''c1''"
proof -
  have invs: "bk_invoices missed_books = [may_invoice]" by (simp add: missed_books_def)
  have unbilled: "live_invoice missed_books ''t1'' 739768 739797 = None"
    by (simp add: live_invoice_def invs is_live_for_def may_invoice_def june_invoice_def)
  have minimum: "\<not> is_below_minimum june_env missed_rated" by code_simp
  have "autoname missed_books (rt_invoice missed_rated) = ''INV-2026-06-00001''" by code_simp
  then obtain b1 where b1: "insert_invoice missed_rated missed_books = Inr (''INV-2026-06-00001'', b1)"
      "bk_commitments b1 = bk_commitments missed_books"
    by (simp add: insert_invoice_def Let_def breaks_unique_def invs)
      (simp add: may_invoice_def missed_rated_def june_draft_def june_invoice_def set_period_key_def period_key_for_def)
  then obtain b2 where b2: "breach june_env missed_books missed_verdict b1 = Inr b2"
    by (simp add: breach_def mark_breached_def missed_verdict_def missed_books_def june_commitment_def
        transition_def sdoc_of_commitment_def sdoc_of_def machine_for_own COMMITMENT_def allows_simps Let_def)
  have "rt_verdict missed_rated = missed_verdict" by (simp add: missed_rated_def)
  then obtain b where b: "generate_once june_env missed_books ''t1'' 739768 739797 missed_books
      = Inr (Some ''INV-2026-06-00001'', b)"
    by (simp add: generate_once_def unbilled missed_rate minimum b1(1) b2)
  have "vd_breach (rt_verdict missed_rated) = Some ''c1''" "''c1'' \<noteq> []" by (simp_all add: missed_rated_def missed_verdict_def)
  note once = breach_charged_back_once [OF missed_rate this b unbilled]
  have "cents_rounding (ge_r2 june_env)" by (simp add: june_books_simps half_up_rounding)
  from once [OF this] b show ?thesis
    by (auto simp: invs may_invoice_def missed_rated_def missed_verdict_def)
qed

end
