(* ===== verification/Billing_Run_Properties.thy ===== *)
theory Billing_Run_Properties
  imports Billing_Run Generation_Properties
begin

text \<open>
  What the run promises: the page jobs hand every team to exactly one worker, a page leaves an answer
  for every team it visits, and one team's failure does not stop the others, but for two orders of
  events the code does not survive: an hourly sweep ahead of the drafting tick, and a deadlock
  followed by an error.
\<close>

section \<open>Pages\<close>

lemma split_at_last:
  assumes "sorted_wrt (<) (ys @ zs)" "ys \<noteq> []"
  shows "filter (\<lambda>x. x \<le> last ys) (ys @ zs) = ys \<and> filter (\<lambda>x. last ys < x) (ys @ zs) = (zs :: 'a :: linorder list)"
proof -
  have parts: "sorted_wrt (<) ys" "\<And>x y. x \<in> set ys \<Longrightarrow> y \<in> set zs \<Longrightarrow> x < y"
    using assms(1) unfolding sorted_wrt_append by blast+
  have upper: "last ys < y" if "y \<in> set zs" for y by (rule parts(2) [OF last_in_set [OF assms(2)] that])
  have lower: "x \<le> last ys" if "x \<in> set ys" for x
  proof -
    have ys: "ys = butlast ys @ [last ys]" using assms(2) by simp
    with parts(1) have "sorted_wrt (<) (butlast ys @ [last ys])" by simp
    then have "y < last ys" if "y \<in> set (butlast ys)" for y using that unfolding sorted_wrt_append by simp
    moreover from ys that have "x \<in> set (butlast ys) \<or> x = last ys"
      by (metis in_set_conv_decomp_last rotate1.simps(2) set_ConsD set_rotate1)
    ultimately show ?thesis by (auto intro: less_imp_le)
  qed
  have "filter (\<lambda>x. x \<le> last ys) ys = ys" "filter (\<lambda>x. last ys < x) zs = zs"
    using lower upper by (simp_all add: filter_id_conv)
  moreover have "filter (\<lambda>x. x \<le> last ys) zs = []" "filter (\<lambda>x. last ys < x) ys = []"
    using lower upper by (auto simp: filter_empty_conv leD not_le)
  ultimately show ?thesis by simp
qed

lemma pages_slices:
  assumes "sorted_wrt (<) names" "0 < k"
  shows "map (in_slice names) (page_jobs after (pages k names after)) = pages k names after
    \<and> concat (pages k names after) = filter (\<lambda>n. after < n) names"
  using assms
proof (induction k names after rule: pages.induct)
  case (1 k names after)
  let ?rest = "filter (\<lambda>n. after < n) names"
  let ?page = "take k ?rest"
  show ?case
  proof (cases "?page = []")
    case True
    then have "?rest = []" using 1(3) by auto
    with True show ?thesis by (simp add: pages.simps [of k names after])
  next
    case False
    let ?l = "last ?page"
    have sorted: "sorted_wrt (<) ?rest" using 1(2) by (rule sorted_wrt_filter)
    have "sorted_wrt (<) (?page @ drop k ?rest)" using sorted by simp
    from split_at_last [OF this False]
    have page: "filter (\<lambda>n. n \<le> ?l) ?rest = ?page" and others: "filter (\<lambda>n. ?l < n) ?rest = drop k ?rest" by simp_all
    have l: "after < ?l" using last_in_set [OF False] in_set_takeD [of ?l k ?rest] by auto
    have slice: "in_slice names (after, ?l) = ?page"
      using page by (simp add: in_slice_def filter_filter conj_commute)
    have "filter (\<lambda>n. ?l < n) names = filter (\<lambda>n. ?l < n) ?rest" using l by (auto simp: filter_filter intro!: filter_cong)
    with others have split: "?rest = ?page @ filter (\<lambda>n. ?l < n) names" by simp
    have unfold: "pages k names after = ?page # pages k names ?l" using False by (subst pages.simps) (simp add: Let_def)
    from 1(1) [OF refl False 1(2,3)] show ?thesis by (simp only: unfold page_jobs.simps list.map slice concat.simps) (use split in simp)
  qed
qed

section \<open>Answers\<close>

text \<open>A team and a month are answered when the run has recorded what it did.\<close>

definition answered :: "date \<Rightarrow> books \<Rightarrow> string \<Rightarrow> bool" where
  "answered pe b team \<longleftrightarrow> (\<exists>r \<in> set (bk_outcomes b). bo_team r = team \<and> bo_period_end r = pe
     \<and> bo_outcome r \<in> {INVOICED, NOTHING_TO_BILL, BELOW_MINIMUM, FAILED})"

definition valid_outcomes :: "books \<Rightarrow> bool" where
  "valid_outcomes b \<longleftrightarrow> (\<forall>r \<in> set (bk_outcomes b). bo_outcome r \<in> {INVOICED, NOTHING_TO_BILL, BELOW_MINIMUM, FAILED})"

definition slots :: "books \<Rightarrow> (string \<times> date) set" where
  "slots b = (\<lambda>r. (bo_team r, bo_period_end r)) ` set (bk_outcomes b)"

lemma answered_slots: "valid_outcomes b \<Longrightarrow> answered pe b team \<longleftrightarrow> (team, pe) \<in> slots b"
  by (auto simp: answered_def valid_outcomes_def slots_def)

lemma outcome_of_slots: "outcome_of team pe rows \<noteq> None \<longleftrightarrow> (team, pe) \<in> (\<lambda>r. (bo_team r, bo_period_end r)) ` set rows"
  by (force simp: outcome_of_def find_None)

text \<open>A recorded outcome answers, and forgets nobody.\<close>

lemma record_outcome_slots:
  assumes "slots seen \<subseteq> slots b"
  shows "slots (record_outcome env seen team pe outcome reason iv b) = insert (team, pe) (slots b)"
proof -
  let ?row = "\<lparr>bo_team = team, bo_period_end = pe, bo_outcome = outcome, bo_reason = reason, bo_invoice = iv,
      bo_modified = am_now (ge_ambient env)\<rparr>"
  let ?f = "\<lambda>r. if bo_team r = team \<and> bo_period_end r = pe then ?row else r"
  have keep: "(\<lambda>r. (bo_team r, bo_period_end r)) ` set (map ?f (bk_outcomes b)) = slots b"
  proof -
    have "(bo_team (?f r), bo_period_end (?f r)) = (bo_team r, bo_period_end r)" for r by simp
    then show ?thesis by (simp only: set_map image_image slots_def)
  qed
  show ?thesis
  proof (cases "outcome_of team pe (bk_outcomes seen) \<noteq> None")
    case True
    then have "(team, pe) \<in> slots b" using assms unfolding outcome_of_slots slots_def by (rule set_rev_mp)
    with True keep show ?thesis by (auto simp: record_outcome_def Let_def slots_def insert_absorb)
  next
    case False
    then show ?thesis
      using outcome_of_slots [of team pe "bk_outcomes b"]
      by (auto simp: record_outcome_def Let_def slots_def insert_absorb)
  qed
qed

lemma record_outcome_valid:
  assumes "valid_outcomes b" "outcome \<in> {INVOICED, NOTHING_TO_BILL, BELOW_MINIMUM, FAILED}"
  shows "valid_outcomes (record_outcome env seen team pe outcome reason iv b)"
  using assms by (auto simp: record_outcome_def Let_def valid_outcomes_def)

lemma bk_event_slots [simp]:
  "slots (bk_event env team event_type reason amount outcome b) = slots b"
  "valid_outcomes (bk_event env team event_type reason amount outcome b) = valid_outcomes b"
  by (simp_all add: slots_def valid_outcomes_def)

lemma contain_slots [simp]:
  "slots (contain name rep b) = slots b" "valid_outcomes (contain name rep b) = valid_outcomes b"
  by (simp_all add: contain_def slots_def valid_outcomes_def)

definition grows :: "string \<Rightarrow> date \<Rightarrow> books \<Rightarrow> books \<Rightarrow> bool" where
  "grows team pe b b' \<longleftrightarrow> slots b' = insert (team, pe) (slots b) \<and> valid_outcomes b'"

lemma has_same_outcome_slots: "has_same_outcome seen team pe outcome reason \<Longrightarrow> (team, pe) \<in> slots seen"
  by (force simp: has_same_outcome_def slots_def)

lemma generate_once_grows:
  assumes run: "generate_once env seen team ps pe b = Inr (res, b')" and sub: "slots seen \<subseteq> slots b" and ok: "valid_outcomes b"
  shows "grows team pe b b'"
proof (cases "live_invoice seen team ps pe")
  case (Some n)
  with run ok show ?thesis
    by (auto simp: generate_once_def grows_def record_outcome_slots [OF sub] intro: record_outcome_valid)
next
  case None
  with run obtain q where q: "rate_team_period env seen team ps pe = Inr q"
    by (auto simp: generate_once_def bindE_Inr)
  show ?thesis
  proof (cases q)
    case None': None
    with run None q ok show ?thesis
      by (auto simp: generate_once_def grows_def record_outcome_slots [OF sub] intro: record_outcome_valid)
  next
    case (Some r)
    show ?thesis
    proof (cases "is_below_minimum env r")
      case True
      with run None q Some have b': "b' = forgive env seen team pe r b" by (auto simp: generate_once_def)
      show ?thesis
        using sub ok unfolding b' forgive_def Let_def grows_def
        by (auto simp: record_outcome_slots [OF sub] insert_absorb intro: record_outcome_valid dest: has_same_outcome_slots)
    next
      case False
      with run None q Some obtain n b1 b2 where steps: "insert_invoice r b = Inr (n, b1)" "breach env seen (rt_verdict r) b1 = Inr b2"
        and b': "b' = bk_event env team ''Invoice Generated'' n (Some (inv_total (rt_invoice r))) None
           (record_outcome env seen team pe INVOICED None (Some n) b2)"
        by (auto simp: generate_once_def bindE_Inr)
      have "bk_outcomes b1 = bk_outcomes b" using steps(1) by (auto simp: insert_invoice_def Let_def split: if_splits option.splits)
      then have same: "bk_outcomes b2 = bk_outcomes b" using breach_frame [OF steps(2)] by simp
      then have "slots seen \<subseteq> slots b2" "valid_outcomes b2" "slots b2 = slots b" using sub ok by (simp_all add: slots_def valid_outcomes_def)
      then show ?thesis unfolding b' grows_def by (auto simp: record_outcome_slots intro: record_outcome_valid)
    qed
  qed
qed

text \<open>
  No draft is a deadlock's victim. A draft may time out waiting for a lock, and what it reads may be
  stale, but for rows it has not recorded.
\<close>

definition calm :: "(string \<Rightarrow> books \<Rightarrow> meeting) \<Rightarrow> bool" where
  "calm meets \<longleftrightarrow> (\<forall>team b. mg_after (meets team b) = b \<and> (\<forall>n k. tn_lost (mg_turns (meets team b) n k) \<in> {None, Some Lock_timeout}
     \<and> tn_now (mg_turns (meets team b) n k) = b \<and> slots (tn_seen (mg_turns (meets team b) n k)) \<subseteq> slots b))"

lemma record_invoice_failure_grows:
  assumes "slots seen \<subseteq> slots b" "valid_outcomes b"
  shows "grows team pe b (record_invoice_failure env seen team pe e b)"
proof -
  have sub: "slots seen \<subseteq> slots (contain team rep b)" and ok: "valid_outcomes (contain team rep b)" for rep
    using assms by simp_all
  show ?thesis
    by (auto simp: grows_def record_invoice_failure_def Let_def record_outcome_slots [OF sub] intro!: record_outcome_valid [OF ok])
qed

lemma draft_attempts_answers:
  assumes "calm meets" "valid_outcomes b" "0 < n"
  shows "\<exists>res b'. draft_attempts n env team ps pe (meets team b) = (res, b') \<and> (\<forall>e. res \<noteq> Escaped e) \<and> grows team pe b b'"
  using assms(3)
proof (induction n)
  case (Suc n)
  let ?m = "meets team b" let ?t = "mg_turns ?m n 4"
  have t: "tn_lost ?t \<in> {None, Some Lock_timeout}" "tn_now ?t = b" "slots (tn_seen ?t) \<subseteq> slots b" "mg_after ?m = b"
    using assms(1) by (simp_all add: calm_def)
  note failure = record_invoice_failure_grows [OF _ assms(2)]
  have retried: ?case if gen: "generate_team_invoice (re_gen env) team ps pe (mg_turns ?m n) = (Inl e, False)" "is_contention e" for e
  proof (cases "n = 0")
    case True
    have "grows team pe b (record_invoice_failure env b team pe e b)" by (rule failure) simp
    with True show ?thesis using gen t(4) by simp
  next
    case False
    with Suc.IH show ?thesis using gen by simp
  qed
  show ?case
  proof (cases "tn_lost ?t")
    case (Some l)
    then have "generate_team_invoice (re_gen env) team ps pe (mg_turns ?m n) = (Inl Lock_timeout, False)"
      using t(1) by (simp add: generate_team_invoice_def INVOICE_DEADLOCK_RETRIES_def eval_nat_numeral Let_def)
    then show ?thesis by (rule retried) simp
  next
    case None
    then have gen: "generate_team_invoice (re_gen env) team ps pe (mg_turns ?m n)
        = (case generate_once (re_gen env) (tn_seen ?t) team ps pe b of Inl e \<Rightarrow> (Inl (Raised e), False) | Inr r \<Rightarrow> (Inr r, False))"
      using t by (simp add: generate_team_invoice_def INVOICE_DEADLOCK_RETRIES_def eval_nat_numeral Let_def)
    show ?thesis
    proof (cases "generate_once (re_gen env) (tn_seen ?t) team ps pe b")
      case (Inr r)
      obtain name b' where r: "r = (name, b')" by (cases r)
      from generate_once_grows [OF Inr [unfolded r] t(3) assms(2)] have "grows team pe b b'" .
      then show ?thesis by (simp add: gen Inr r)
    next
      case (Inl e)
      show ?thesis
      proof (cases "is_contention (Raised e)")
        case True
        show ?thesis by (rule retried [OF _ True]) (simp add: gen Inl)
      next
        case False
        have "grows team pe b (record_invoice_failure env (tn_seen ?t) team pe (Raised e) b)" by (rule failure) (rule t(3))
        with False show ?thesis using gen Inl t(2) by (simp add: Let_def INVOICE_DEADLOCK_RETRIES_def)
      qed
    qed
  qed
qed simp

lemma draft_each_answers:
  assumes "calm meets" "valid_outcomes b"
  shows "\<exists>c' b'. draft_each env meets ps pe teams c b = (None, c', b') \<and> valid_outcomes b'
    \<and> slots b' = slots b \<union> (\<lambda>t. (t, pe)) ` set teams
    \<and> dc_drafted c' + dc_skipped c' + dc_failed c' = dc_drafted c + dc_skipped c + dc_failed c + length teams"
  using assms(2)
proof (induction teams arbitrary: c b)
  case (Cons team teams)
  from draft_attempts_answers [OF assms(1) Cons.prems, of CONTENTION_RETRIES env team ps pe]
  obtain res b1 where d: "draft_team_invoice env team ps pe (meets team b) = (res, b1)" "\<forall>e. res \<noteq> Escaped e"
    "slots b1 = insert (team, pe) (slots b)" "valid_outcomes b1"
    by (auto simp: draft_team_invoice_def grows_def CONTENTION_RETRIES_def)
  show ?case
  proof (cases res)
    case (Drafted name)
    with d Cons.IH [OF d(4), of "if truthy name then c\<lparr>dc_drafted := dc_drafted c + 1\<rparr> else c\<lparr>dc_skipped := dc_skipped c + 1\<rparr>"]
    show ?thesis by (auto split: if_splits)
  next
    case Contained
    with d Cons.IH [OF d(4), of "c\<lparr>dc_failed := dc_failed c + 1\<rparr>"] show ?thesis by auto
  next
    case (Escaped e)
    with d show ?thesis by simp
  qed
qed simp

section \<open>Properties\<close>

lemma billed_teams_sorted:
  "sorted_wrt (<) (billed_teams f b)"
  "set (billed_teams f b) = su_team ` {s \<in> set (es_subs (bk_estate b)). f \<longrightarrow> su_enabled s}"
  by (auto simp: billed_teams_def strict_sorted_iff)

text \<open>
  Property C19: the page jobs of a drafting tick hand every team that holds a subscription to exactly one
  worker, in pages of at most \<open>PAGE_SIZE\<close> teams: the slices \<open>(after, until]\<close> the workers read again
  from the table are the pages the tick walked.
\<close>

theorem run_visits_every_team_once:
  "map (teams_in_range b) (draft_jobs b) = team_pages PAGE_SIZE False b
   \<and> distinct (concat (map (teams_in_range b) (draft_jobs b)))
   \<and> set (concat (map (teams_in_range b) (draft_jobs b))) = su_team ` set (es_subs (bk_estate b)) - {''''}"
proof -
  note sorted = billed_teams_sorted(1) [of False b]
  have "map (in_slice (billed_teams False b)) (page_jobs '''' (pages PAGE_SIZE (billed_teams False b) ''''))
      = pages PAGE_SIZE (billed_teams False b) ''''
    \<and> concat (pages PAGE_SIZE (billed_teams False b) '''') = filter (\<lambda>n. '''' < n) (billed_teams False b)"
    by (rule pages_slices [OF sorted]) (simp add: PAGE_SIZE_def)
  then have jobs: "map (teams_in_range b) (draft_jobs b) = team_pages PAGE_SIZE False b"
    and all: "concat (team_pages PAGE_SIZE False b) = filter (\<lambda>n. '''' < n) (billed_teams False b)"
    by (simp_all add: teams_in_range_def [abs_def] draft_jobs_def team_pages_def)
  have named: "('''' < t) = (t \<noteq> '''')" for t :: string by (cases t) simp_all
  have "distinct (billed_teams False b)" using sorted by (simp add: strict_sorted_iff)
  then show ?thesis
    using billed_teams_sorted(2) [of False b] by (auto simp: jobs all named)
qed

text \<open>
  Property C20: a page of drafts leaves no team unanswered, as long as no draft is a deadlock's victim
  (\<open>calm\<close>; the section below shows a deadlock that stops a page). The page then runs to its end whatever
  data fails for single teams and however often a draft times out waiting for a lock: every team of its
  slice has an outcome recorded for the month (invoiced, nothing to bill, below the minimum, or failed
  and so on the list of the next retry), the counters add up to the slice, and no earlier answer is lost.
\<close>

theorem every_team_answered:
  assumes "calm meets" "valid_outcomes b"
  shows "\<exists>c b'. draft_team_page env meets job ps pe b = (None, c, b')
    \<and> (\<forall>team \<in> set (teams_in_range b job). answered pe b' team)
    \<and> dc_drafted c + dc_skipped c + dc_failed c = length (teams_in_range b job)
    \<and> (\<forall>team month. answered month b team \<longrightarrow> answered month b' team)"
proof -
  from draft_each_answers [OF assms, of env ps pe "teams_in_range b job" no_drafts] obtain c b' where
    run: "draft_each env meets ps pe (teams_in_range b job) no_drafts b = (None, c, b')" "valid_outcomes b'"
      "slots b' = slots b \<union> (\<lambda>t. (t, pe)) ` set (teams_in_range b job)"
      "dc_drafted c + dc_skipped c + dc_failed c = length (teams_in_range b job)"
    by (auto simp: no_drafts_def)
  then show ?thesis using assms(2) by (auto simp: draft_team_page_def answered_slots)
qed

lemma find_replaced:
  "br_period_end doc = pe \<Longrightarrow> find (\<lambda>r. br_period_end r = pe) (map (\<lambda>r. if br_period_end r = pe then doc else r) runs)
     = (if find (\<lambda>r. br_period_end r = pe) runs = None then None else Some doc)"
  by (induction runs) auto

lemma stored_run:
  "br_period_end doc = pe \<Longrightarrow> find (\<lambda>r. br_period_end r = pe) runs \<noteq> None \<Longrightarrow>
     find_run (b\<lparr>bk_runs := map (\<lambda>r. if br_period_end r = pe then doc else r) runs, bk_world := w\<rparr>) pe = Some doc"
  by (simp add: find_run_def find_replaced)

text \<open>A move of the run's row, allowed or refused.\<close>

lemma move_run_moves:
  assumes "to_state = None \<or> (\<exists>t. to_state = Some t \<and> t \<noteq> [] \<and> (t = br_status r \<or> allows BILLING_RUN (Some (br_status r)) t))"
  shows "\<exists>evs'. move_run env to_state r evs = Inr (r\<lparr>br_status := (case to_state of None \<Rightarrow> br_status r | Some t \<Rightarrow> t)\<rparr>, evs')"
  using assms by (auto simp: move_run_def truthy_def transition_def sdoc_of_run_def machine_for_own BILLING_RUN_def Let_def
      split: if_splits)

lemma move_run_refused:
  "t \<noteq> [] \<Longrightarrow> t \<noteq> br_status r \<Longrightarrow> \<not> allows BILLING_RUN (Some (br_status r)) t \<Longrightarrow>
     move_run env (Some t) r evs = Inl InvalidTransition"
  by (simp add: move_run_def truthy_def transition_def sdoc_of_run_def machine_for_own BILLING_RUN_def Let_def)

definition status_now :: "books \<Rightarrow> date \<Rightarrow> string" where
  "status_now b pe = (case find_run b pe of None \<Rightarrow> ''Drafting'' | Some r \<Rightarrow> br_status r)"

lemma snapshot_moves:
  assumes "to_state = None \<or> (\<exists>t. to_state = Some t \<and> t \<noteq> []
      \<and> (t = status_now b (rn_period_end s) \<or> allows BILLING_RUN (Some (status_now b (rn_period_end s))) t))"
  shows "\<exists>b'. snapshot env s to_state b = Inr b' \<and> find_run b' (rn_period_end s) \<noteq> None
    \<and> status_now b' (rn_period_end s) = (case to_state of None \<Rightarrow> status_now b (rn_period_end s) | Some t \<Rightarrow> t)
    \<and> bk_invoices b' = bk_invoices b \<and> bk_outcomes b' = bk_outcomes b \<and> bk_estate b' = bk_estate b"
proof -
  let ?pe = "rn_period_end s"
  let ?runs = "if find_run b ?pe = None then bk_runs b @ [new_run env s] else bk_runs b"
  let ?found = "case find_run b ?pe of None \<Rightarrow> new_run env s | Some r \<Rightarrow> r"
  let ?doc = "?found\<lparr>br_period_start := rn_period_start s, br_teams := rn_teams s, br_drafted := rn_drafted s,
      br_pending_draft := rn_pending_draft s, br_collected := rn_collected s,
      br_pending_collection := rn_pending_collection s, br_failures := rn_failures s, br_by_status := rn_by_status s\<rparr>"
  have status: "br_status ?doc = status_now b ?pe"
    by (simp add: status_now_def new_run_def split: option.split)
  have own: "br_period_end ?doc = ?pe"
    by (auto simp: new_run_def find_run_def split: option.split dest: find_Some)
  have there: "find (\<lambda>r. br_period_end r = ?pe) ?runs \<noteq> None"
    by (auto simp: find_run_def find_append new_run_def)
  from assms have "to_state = None \<or> (\<exists>t. to_state = Some t \<and> t \<noteq> [] \<and> (t = br_status ?doc \<or> allows BILLING_RUN (Some (br_status ?doc)) t))"
    by (simp only: status)
  from move_run_moves [OF this, of env "pw_events (bk_world b)"] obtain evs where
    mv: "move_run env to_state ?doc (pw_events (bk_world b))
      = Inr (?doc\<lparr>br_status := (case to_state of None \<Rightarrow> br_status ?doc | Some t \<Rightarrow> t)\<rparr>, evs)" by blast
  let ?moved = "?doc\<lparr>br_status := (case to_state of None \<Rightarrow> br_status ?doc | Some t \<Rightarrow> t)\<rparr>"
  let ?final = "if br_status ?moved = ''Complete'' \<and> br_completed_at ?moved = None
      then ?moved\<lparr>br_completed_at := Some (re_now env)\<rparr> else ?moved"
  let ?b' = "b\<lparr>bk_runs := map (\<lambda>r. if br_period_end r = ?pe then ?final else r) ?runs,
      bk_world := (bk_world b)\<lparr>pw_events := evs\<rparr>\<rparr>"
  have run: "snapshot env s to_state b = Inr ?b'" by (simp only: snapshot_def Let_def mv bindE.simps prod.case)
  have "br_period_end ?final = ?pe" using own by simp
  from stored_run [OF this there] have "find_run ?b' ?pe = Some ?final" .
  moreover have "br_status ?final = (case to_state of None \<Rightarrow> status_now b ?pe | Some t \<Rightarrow> t)"
    by (simp only: status) (simp split: option.split)
  ultimately show ?thesis unfolding run by (intro exI [of _ ?b']) (simp add: status_now_def)
qed

lemma snapshot_refused:
  assumes "find_run b (rn_period_end s) = Some r" "t \<noteq> []" "t \<noteq> br_status r" "\<not> allows BILLING_RUN (Some (br_status r)) t"
  shows "snapshot env s (Some t) b = Inl InvalidTransition"
  using assms by (simp add: snapshot_def Let_def move_run_refused)

lemma status_period: "billing_period today = (ps, pe) \<Longrightarrow> rn_period_end (billing_run_status today b) = pe"
  by (simp add: billing_run_status_def Let_def)

lemma status_nothing:
  assumes "billing_period today = (ps, pe)" "\<forall>iv \<in> set (bk_invoices b). inv_period_end iv \<noteq> pe"
    "\<forall>r \<in> set (bk_outcomes b). bo_outcome r \<noteq> FAILED"
  shows "rn_pending_collection (billing_run_status today b) = 0 \<and> rn_failures (billing_run_status today b) = 0"
proof -
  have "filter (\<lambda>iv. inv_period_end iv = pe \<and> is_unissued iv) (bk_invoices b) = []"
    "filter (\<lambda>r. bo_period_end r = pe \<and> bo_outcome r = FAILED) (bk_outcomes b) = []"
    using assms(2,3) by (auto simp: filter_empty_conv)
  then show ?thesis by (simp add: billing_run_status_def Let_def assms(1))
qed

lemma complete_never_drafts: "\<not> allows BILLING_RUN (Some ''Complete'') ''Drafting''"
  by (simp add: allows_simps BILLING_RUN_def)

text \<open>
  Property C22: an hourly sweep ahead of the drafting tick stops the month. While nothing of the closed month is
  drafted and no draft has failed, the sweep finds nothing to collect and records the run as Complete; from then on
  the drafting tick raises on the move back to Drafting and hands out no page, however often it is fired
  while the row stands.
\<close>

theorem early_sweep_stops_drafting:
  assumes period: "billing_period today = (ps, pe)" and fresh: "find_run b pe = None"
    and idle: "\<forall>iv \<in> set (bk_invoices b). inv_period_end iv \<noteq> pe" "\<forall>r \<in> set (bk_outcomes b). bo_outcome r \<noteq> FAILED"
  shows "\<exists>jobs b'. collect_due_invoices env meets today b = Inr (jobs, b') \<and> status_now b' pe = ''Complete''
    \<and> (\<forall>later env2. bk_runs later = bk_runs b' \<longrightarrow>
        draft_monthly_invoices env2 today later =
          bindE (settle_internal_teams (re_pay env2) (bk_world later)) (\<lambda>_. Inl InvalidTransition))"
proof -
  let ?s = "billing_run_status today"
  have pe: "rn_period_end (?s x) = pe" for x by (rule status_period [OF period])
  have "failed_rows b = []" using idle(2) by (simp add: failed_rows_def filter_False)
  then have retry: "retry_failed_invoices env meets b = b" by (simp add: retry_failed_invoices_def)
  have zero: "rn_pending_collection (?s b) = 0" using status_nothing [OF period idle] by simp
  from snapshot_moves [of None b "?s b" env] obtain b1 where b1: "snapshot env (?s b) None b = Inr b1"
    "find_run b1 pe \<noteq> None" "status_now b1 pe = ''Drafting''" "bk_invoices b1 = bk_invoices b" "bk_outcomes b1 = bk_outcomes b"
    using fresh by (auto simp: pe status_now_def)
  have finished: "rn_pending_collection (?s b1) = 0 \<and> rn_failures (?s b1) = 0"
    by (rule status_nothing [OF period]) (use idle b1(4,5) in simp_all)
  have "allows BILLING_RUN (Some ''Drafting'') ''Complete''" by (simp add: allows_simps BILLING_RUN_def)
  with snapshot_moves [of "Some ''Complete''" b1 "?s b1" env] obtain b2 where
    b2: "snapshot env (?s b1) (Some ''Complete'') b1 = Inr b2" "find_run b2 pe \<noteq> None" "status_now b2 pe = ''Complete''"
    by (auto simp: pe b1(3))
  have sweep: "collect_due_invoices env meets today b = Inr (settle_jobs pe b1, b2)"
    using b1(1) b2(1) by (simp add: collect_due_invoices_def Let_def period retry zero finished)
  have "draft_monthly_invoices env2 today later
      = bindE (settle_internal_teams (re_pay env2) (bk_world later)) (\<lambda>_. Inl InvalidTransition)"
    if runs: "bk_runs later = bk_runs b2" for later env2
  proof -
    obtain r where r: "find_run b2 pe = Some r" "br_status r = ''Complete''" using b2(2,3) by (auto simp: status_now_def)
    have "snapshot env2 (?s (later\<lparr>bk_world := w\<rparr>)) (Some ''Drafting'') (later\<lparr>bk_world := w\<rparr>) = Inl InvalidTransition" for w
      by (rule snapshot_refused [where r = r])
        (use r runs complete_never_drafts in \<open>simp_all add: pe find_run_def\<close>)
    then show ?thesis
      by (cases "settle_internal_teams (re_pay env2) (bk_world later)") (simp_all add: draft_monthly_invoices_def Let_def split_beta)
  qed
  with sweep b2(3) show ?thesis by blast
qed

lemma deadlock_then_error_escapes:
  assumes "tn_lost (mg_turns m 3 4) = Some (Raised QueryDeadlock)" "tn_lost (mg_turns m 3 3) = None"
    "generate_once (re_gen env) (tn_seen (mg_turns m 3 3)) team ps pe (tn_now (mg_turns m 3 3)) = Inl e" "e \<noteq> QueryDeadlock"
  shows "draft_team_invoice env team ps pe m = (Escaped (Raised e), mg_after m)"
  using assms by (simp add: draft_team_invoice_def CONTENTION_RETRIES_def eval_nat_numeral generate_team_invoice_def
      INVOICE_DEADLOCK_RETRIES_def Let_def)

text \<open>
  One team can stop a whole page. A deadlock on a team's draft makes \<open>generate_team_invoice\<close>
  roll the whole transaction back, which takes the savepoint of \<open>draft_team_invoice\<close> with it; if its
  next try then fails on the team's own data, the failure cannot be undone to the savepoint, so it is
  raised instead of contained: nothing is recorded for the team and no later team of the page is drafted.
\<close>

lemma deadlock_then_error_stops_page:
  assumes lost: "tn_lost (mg_turns (meets team b) 3 4) = Some (Raised QueryDeadlock)"
    and retried: "tn_lost (mg_turns (meets team b) 3 3) = None" "mg_after (meets team b) = b"
    and bad: "generate_once (re_gen env) (tn_seen (mg_turns (meets team b) 3 3)) team ps pe
      (tn_now (mg_turns (meets team b) 3 3)) = Inl e" "e \<noteq> QueryDeadlock"
  shows "draft_each env meets ps pe (team # teams) c b = (Some (Raised e), c, b)"
  using deadlock_then_error_escapes [OF lost retried(1) bad] retried(2) by simp

section \<open>Examples\<close>

definition june_run :: run_env where
  "june_run = \<lparr>re_gen = june_env, re_error_text = (\<lambda>_. ''failed'')\<rparr>"

lemma july_period: "billing_period 739798 = (739768, 739797)"
  by code_simp

lemma june_books_empty: "bk_outcomes june_books = []" "bk_runs june_books = []" "bk_invoices june_books = []"
  by (simp_all add: june_books_def)

lemma undisturbed_calm: "calm undisturbed"
  by (simp add: calm_def undisturbed_def)

theorem every_team_answered_witness:
  "\<exists>c b'. draft_team_page june_run undisturbed ('''', ''t1'') 739768 739797 june_books = (None, c, b')
    \<and> answered 739797 b' ''t1'' \<and> dc_drafted c + dc_skipped c + dc_failed c = 1"
proof -
  have slice: "teams_in_range june_books ('''', ''t1'') = [''t1'']" by code_simp
  have "valid_outcomes june_books" by (simp add: valid_outcomes_def june_books_empty)
  from every_team_answered [OF undisturbed_calm this, of june_run "('''', ''t1'')" 739768 739797] show ?thesis
    unfolding slice by auto
qed

theorem early_sweep_stops_drafting_witness:
  "\<exists>jobs b'. collect_due_invoices june_run undisturbed 739798 june_books = Inr (jobs, b')
    \<and> draft_monthly_invoices june_run 739798 (b'\<lparr>bk_world := bk_world june_books\<rparr>) = Inl InvalidTransition"
proof -
  have "find_run june_books 739797 = None" by (simp add: find_run_def june_books_empty)
  from early_sweep_stops_drafting [OF july_period this, of june_run undisturbed] obtain jobs b' where
    b': "collect_due_invoices june_run undisturbed 739798 june_books = Inr (jobs, b')"
    "\<forall>later env2. bk_runs later = bk_runs b' \<longrightarrow> draft_monthly_invoices env2 739798 later
        = bindE (settle_internal_teams (re_pay env2) (bk_world later)) (\<lambda>_. Inl InvalidTransition)"
    by (auto simp: june_books_empty)
  have "settle_internal_teams (re_pay june_run) (bk_world june_books) = Inr ([], bk_world june_books)"
    by (simp add: settle_internal_teams_def june_books_empty)
  with b' show ?thesis by (intro exI [of _ jobs] exI [of _ b']) simp
qed

end
