(* ===== verification/Catalog_Properties.thy ===== *)
theory Catalog_Properties
  imports Catalog Entitlements
begin

text \<open>
  What the catalog and the trust tiers promise: one metered plan per resource type, a published rate
  is the rate that resolves and moves no other price, a team's tier is the highest its history earns,
  and a tier set by hand stays.
\<close>

section \<open>Prices\<close>

text \<open>
  Property C31: a resource type is priced by one metered plan. Saving a plan keeps the catalog well formed, and in
  a well-formed catalog every active metered single-resource plan is the one its resource type is billed by.
\<close>

theorem one_metered_plan_per_type:
  assumes "catalog_wf ct" "plan_save ct p = Inr ct'"
  shows "catalog_wf ct' \<and> (\<forall>q \<in> set (ct_plans ct'). \<forall>rt. covers ct' rt q \<longrightarrow>
    metered_plan_for ct' rt = Some (pl_name q, metered_mode ct' (pl_category q)))"
  using plan_save_wf [OF assms] metered_plan_for_covers by blast

lemma or_none_not_blank: "or_none x = x \<Longrightarrow> truthy x \<longleftrightarrow> x \<noteq> None"
  by (auto simp: or_none_def truthy_def split: option.splits if_splits)

lemma find_cong_set: "(\<And>x. x \<in> set xs \<Longrightarrow> P x = Q x) \<Longrightarrow> find P xs = find Q xs"
  by (induction xs) auto

text \<open>The rate listed under one key: the \<open>Catalog Rate\<close> row of that plan or type, region and currency.\<close>

definition listed_rate :: "rate_row list \<Rightarrow> string \<times> string \<times> string option \<times> string \<Rightarrow> money option" where
  "listed_rate rates k = map_option cr_rate (find (\<lambda>r. rate_key r = k) rates)"

lemma listed_rate_wf:
  assumes "rates_wf rates" "or_none c \<noteq> c"
  shows "listed_rate rates (dt, pf, c, cur) = None"
proof -
  have "rate_key r \<noteq> (dt, pf, c, cur)" if "r \<in> set rates" for r
    using assms that by (auto simp: rates_wf_def rate_key_def)
  then show ?thesis by (auto simp: listed_rate_def find_None)
qed

text \<open>The region's own rate, or the one listed for everywhere.\<close>

lemma resolves_listed:
  assumes wf: "rates_wf rates"
  shows "resolve_rate (get_catalog_rates r6 [] rates dt pf) cur c =
    (case listed_rate rates (dt, pf, c, cur) of Some p \<Rightarrow> Some p | None \<Rightarrow> listed_rate rates (dt, pf, None, cur))"
proof -
  have norm: "or_none (cr_cluster r) = cr_cluster r" if "r \<in> set rates" for r using wf that by (simp add: rates_wf_def)
  have glob: "find (\<lambda>r. (\<lambda>(d, p, c, u). d = dt \<and> p = pf \<and> u = cur \<and> \<not> truthy c) (rate_key r)) rates
      = find (\<lambda>r. rate_key r = (dt, pf, None, cur)) rates"
    by (rule find_cong_set) (use or_none_not_blank norm in \<open>auto simp: rate_key_def\<close>)
  show ?thesis
  proof (cases "truthy c")
    case True
    then show ?thesis unfolding resolve_catalog glob listed_rate_def
      by (cases "find (\<lambda>r. rate_key r = (dt, pf, c, cur)) rates") simp_all
  next
    case False
    have "listed_rate rates (dt, pf, c, cur) = None" if "c \<noteq> None"
    proof -
      have "or_none c \<noteq> c" using or_none_not_blank [of c] that False by auto
      then show ?thesis by (rule listed_rate_wf [OF wf])
    qed
    with False show ?thesis unfolding resolve_catalog glob
      by (cases c) (simp_all add: listed_rate_def split: option.split)
  qed
qed

lemma published_rate_listed:
  assumes "rates_wf rates" "set_catalog_rate dt pf cur rate cl rates = Inr (res, rates')"
  shows "listed_rate rates' k = (if k = (dt, pf, or_none cl, cur) then Some rate else listed_rate rates k)"
proof (cases "k = (dt, pf, or_none cl, cur)")
  case True
  moreover have "map_option cr_rate (find (\<lambda>r. rate_key r = (dt, pf, or_none cl, cur)) rates') = Some rate"
    by (rule set_catalog_rate_find [OF assms, THEN conjunct2, THEN conjunct2])
  ultimately show ?thesis by (simp only: listed_rate_def if_P)
next
  case False
  have "find (\<lambda>r. (\<lambda>x. x = k) (rate_key r)) rates' = find (\<lambda>r. (\<lambda>x. x = k) (rate_key r)) rates"
    by (rule set_catalog_rate_find [OF assms, THEN conjunct2, THEN conjunct1, rule_format]) (rule False [symmetric])
  with False show ?thesis by (simp add: listed_rate_def)
qed

text \<open>
  Property C32: a published rate is the rate that resolves, and no other price moves. In a catalog
  without rate overrides (an override reprices the listed rates afterwards), a price is the rate listed
  for its plan or resource type, currency and region, or else the one listed for everywhere: no other
  region's rate is ever taken. After a rate is set for a region, or for everywhere, it is the price
  there; set for everywhere, it is also the price of the regions with no rate of their own. Every other
  price, of whatever plan or type, currency and region, is what it was before.
\<close>

theorem published_rate_resolves:
  assumes wf: "rates_wf rates" and set: "set_catalog_rate dt pf cur rate cl rates = Inr (res, rates')"
  shows "rates_wf rates'
    \<and> (\<forall>dt' pf' cur' c. resolve_rate (get_catalog_rates r6 [] rates' dt' pf') cur' c =
          (case listed_rate rates' (dt', pf', c, cur') of Some p \<Rightarrow> Some p | None \<Rightarrow> listed_rate rates' (dt', pf', None, cur')))
    \<and> (\<forall>dt' pf' cur' c. resolve_rate (get_catalog_rates r6 [] rates' dt' pf') cur' c =
          (if (dt', pf', cur') = (dt, pf, cur) \<and> (c = or_none cl \<or> or_none cl = None \<and> listed_rate rates (dt, pf, c, cur) = None)
           then Some rate else resolve_rate (get_catalog_rates r6 [] rates dt' pf') cur' c))"
proof -
  have wf': "rates_wf rates'" using set_catalog_rate_find [OF wf set] by blast
  note listed = published_rate_listed [OF wf set]
  have "resolve_rate (get_catalog_rates r6 [] rates' dt' pf') cur' c =
      (if (dt', pf', cur') = (dt, pf, cur) \<and> (c = or_none cl \<or> or_none cl = None \<and> listed_rate rates (dt, pf, c, cur) = None)
       then Some rate else resolve_rate (get_catalog_rates r6 [] rates dt' pf') cur' c)" for dt' pf' cur' c
    unfolding resolves_listed [OF wf'] resolves_listed [OF wf] listed by (auto split: option.splits)
  with wf' resolves_listed [OF wf'] show ?thesis by blast
qed

section \<open>Tiers\<close>

text \<open>
  The monthly promotion gives an unpinned team the highest rung of the ladder its paid
  history qualifies for, or the entry rung when it qualifies for none; its cap is that rung's in its
  currency, and no other team's profile moves.
\<close>

theorem tier_follows_history:
  assumes "distinct (map tl_name table)" "[] \<notin> tl_name ` set table"
    and "\<not> tp_manual_override (tier_profile_for (ts_profiles st) team)"
    and "recompute_trust_tier now basis table team n paid st = Some (Inr st')"
  shows "\<exists>t \<in> set table. cap_tier (get_team_caps table (ts_profiles st') team) = Some (tl_tier t)
    \<and> cap_max_spend (get_team_caps table (ts_profiles st') team) = cap_for t (team_currency (ts_profiles st) team)
    \<and> (if \<exists>l \<in> set table. qualifies n paid (team_currency (ts_profiles st) team) l
       then qualifies n paid (team_currency (ts_profiles st) team) t
         \<and> (\<forall>l \<in> set table. qualifies n paid (team_currency (ts_profiles st) team) l \<longrightarrow> tl_sequence l \<le> tl_sequence t)
       else entry_tier (get_ladder table) = Some t)
    \<and> (\<forall>other. other \<noteq> team \<longrightarrow> ts_profiles st' other = ts_profiles st other)"
proof -
  from recompute_follows_history [OF assms] obtain t where
    t: "evaluate_tier n paid (team_currency (ts_profiles st) team) (get_ladder table) = Some t"
    and caps: "cap_max_spend (get_team_caps table (ts_profiles st') team) = cap_for t (team_currency (ts_profiles st) team)"
      "cap_tier (get_team_caps table (ts_profiles st') team) = Some (tl_tier t)"
      "\<forall>other. other \<noteq> team \<longrightarrow> ts_profiles st' other = ts_profiles st other" by blast
  have "set (get_ladder table) = set table" by (simp add: get_ladder_def)
  with evaluate_tier_highest [OF t] caps show ?thesis by (intro bexI [of _ t]) simp_all
qed

text \<open>
  A tier or cap set by hand stays. Once an operator has changed it, the profile is pinned
  and the change is logged, and no sequence of later promotions, whatever the team's history, changes anything.
\<close>

theorem hand_set_tier_stays:
  assumes "save_tier now table False team p st = Inr st'" "ts_profiles st team = Some b" "tier_fields p \<noteq> tier_fields b"
  shows "tp_trust_tier_level (tier_profile_for (ts_profiles st') team) = tp_trust_tier_level p
    \<and> tp_override_max_spend (tier_profile_for (ts_profiles st') team) = tp_override_max_spend p
    \<and> length (ts_log st') = length (ts_log st) + 1
    \<and> (\<forall>basis runs. recompute_all basis table team runs st' = Some (Inr st'))"
  using save_by_hand_pins [OF assms] recompute_all_pinned by blast

section \<open>Examples\<close>

definition storage_plan :: plan where
  "storage_plan = \<lparr>pl_name = ''p'', pl_category = ''Storage'', pl_sub_category = None, pl_active = True,
     pl_includes = [\<lparr>pi_type = ''Storage'', pi_quantity = 1\<rparr>]\<rparr>"

definition storage_family :: catalog where
  "storage_family = \<lparr>ct_rates = [], ct_overrides = [],
     ct_categories = [\<lparr>pc_name = ''Storage'', pc_billing_type = ''Metered'', pc_pricing_mode = Some ''Live'',
       pc_settlement_mode = None, pc_reporting_mode = None, pc_provision_target = None, pc_allowed = []\<rparr>],
     ct_plans = [], ct_profiles = []\<rparr>"

lemma storage_plan_saved: "plan_save storage_family storage_plan = Inr (storage_family\<lparr>ct_plans := [storage_plan]\<rparr>)"
  by code_simp

theorem one_metered_plan_per_type_witness:
  "\<exists>ct. plan_save storage_family storage_plan = Inr ct \<and> metered_plan_for ct ''Storage'' = Some (''p'', Some ''Live'')"
proof -
  let ?ct = "storage_family\<lparr>ct_plans := [storage_plan]\<rparr>"
  have "catalog_wf storage_family" by (simp add: catalog_wf_def storage_family_def)
  note wf = one_metered_plan_per_type [OF this storage_plan_saved]
  have "covers ?ct ''Storage'' storage_plan" by code_simp
  moreover have "storage_plan \<in> set (ct_plans ?ct)" by simp
  ultimately have "metered_plan_for ?ct ''Storage'' = Some (pl_name storage_plan, metered_mode ?ct (pl_category storage_plan))"
    using wf by blast
  moreover have "metered_mode ?ct (pl_category storage_plan) = Some ''Live''" "pl_name storage_plan = ''p''" by code_simp+
  ultimately show ?thesis using storage_plan_saved by auto
qed

definition listed_rates :: "rate_row list" where
  "listed_rates = [\<lparr>cr_name = ''p-INR'', cr_doctype = ''Plan'', cr_for = ''p'', cr_cluster = None, cr_currency = ''INR'', cr_rate = 10\<rparr>]"

theorem published_rate_resolves_witness:
  "\<exists>res rates'. set_catalog_rate ''Plan'' ''p'' ''INR'' 12 (Some ''mumbai'') listed_rates = Inr (res, rates')
    \<and> resolve_rate (get_catalog_rates id [] rates' ''Plan'' ''p'') ''INR'' (Some ''mumbai'') = Some 12
    \<and> resolve_rate (get_catalog_rates id [] rates' ''Plan'' ''p'') ''INR'' None = Some 10"
proof -
  let ?new = "\<lparr>cr_name = ''p-mumbai-INR'', cr_doctype = ''Plan'', cr_for = ''p'', cr_cluster = Some ''mumbai'', cr_currency = ''INR'', cr_rate = 12\<rparr>"
  have set: "set_catalog_rate ''Plan'' ''p'' ''INR'' 12 (Some ''mumbai'') listed_rates
      = Inr ((''p-mumbai-INR'', True), listed_rates @ [?new])" by code_simp
  have "rates_wf listed_rates" by (simp add: rates_wf_def listed_rates_def rate_autoname_def or_none_def)
  note published = published_rate_resolves [OF this set, of id]
  have region: "or_none (Some ''mumbai'') = Some ''mumbai''" by code_simp
  have "resolve_rate (get_catalog_rates id [] listed_rates ''Plan'' ''p'') ''INR'' None = Some 10" by code_simp
  moreover note rule = published [THEN conjunct2, THEN conjunct2, rule_format, of "''Plan''" "''p''" "''INR''", unfolded region]
  ultimately have "resolve_rate (get_catalog_rates id [] (listed_rates @ [?new]) ''Plan'' ''p'') ''INR'' None = Some 10"
    "resolve_rate (get_catalog_rates id [] (listed_rates @ [?new]) ''Plan'' ''p'') ''INR'' (Some ''mumbai'') = Some 12"
    using rule [of None] rule [of "Some ''mumbai''"] by simp_all
  with set show ?thesis by blast
qed

definition two_rungs :: "tier_level list" where
  "two_rungs = [
     \<lparr>tl_name = ''entry'', tl_tier = ''Entry'', tl_sequence = 1, tl_is_default = True, tl_max_resource_count = 2,
      tl_min_paid_invoices = 0, tl_thresholds = [''INR'' \<mapsto> \<lparr>th_max_spend = 1000, th_min_cumulative_paid = 0\<rparr>]\<rparr>,
     \<lparr>tl_name = ''proven'', tl_tier = ''Proven'', tl_sequence = 2, tl_is_default = False, tl_max_resource_count = 9,
      tl_min_paid_invoices = 3, tl_thresholds = [''INR'' \<mapsto> \<lparr>th_max_spend = 50000, th_min_cumulative_paid = 5000\<rparr>]\<rparr>]"

definition new_team :: tier_store where
  "new_team = \<lparr>ts_profiles = [''t'' \<mapsto> blank_profile], ts_log = []\<rparr>"

theorem tier_follows_history_witness:
  "\<exists>st. recompute_trust_tier 7 (\<lambda>_ _ _. ''history'') two_rungs ''t'' 3 6000 new_team = Some (Inr st)
    \<and> cap_max_spend (get_team_caps two_rungs (ts_profiles st) ''t'') = 50000"
proof -
  have "\<exists>st. recompute_trust_tier 7 (\<lambda>_ _ _. ''history'') two_rungs ''t'' 3 6000 new_team = Some (Inr st)"
    by (simp add: recompute_trust_tier_def new_team_def two_rungs_def blank_profile_def tier_profile_for_def evaluate_tier_def
        qualifies_def threshold_for_def team_currency_def get_ladder_def first_max_def save_tier_def pin_tier_set_by_hand_def Let_def)
  then obtain st where st: "recompute_trust_tier 7 (\<lambda>_ _ _. ''history'') two_rungs ''t'' 3 6000 new_team = Some (Inr st)" ..
  have cur: "team_currency (ts_profiles new_team) ''t'' = ''INR''" by code_simp
  have free: "distinct (map tl_name two_rungs)" "[] \<notin> tl_name ` set two_rungs"
    "\<not> tp_manual_override (tier_profile_for (ts_profiles new_team) ''t'')"
    by (simp_all add: two_rungs_def new_team_def tier_profile_for_def blank_profile_def)
  have q: "qualifies 3 6000 ''INR'' l" if "l \<in> set two_rungs" for l
    using that by (auto simp: two_rungs_def qualifies_def threshold_for_def)
  from tier_follows_history [OF free st] obtain t where t: "t \<in> set two_rungs"
      "cap_max_spend (get_team_caps two_rungs (ts_profiles st) ''t'') = cap_for t ''INR''"
      "\<forall>l \<in> set two_rungs. tl_sequence l \<le> tl_sequence t"
    unfolding cur using q by (metis (no_types, lifting))
  then have "cap_for t ''INR'' = 50000" by (auto simp: two_rungs_def cap_for_def threshold_for_def)
  with t(2) st show ?thesis by auto
qed

definition raised_by_hand :: tier_profile where
  "raised_by_hand = blank_profile\<lparr>tp_trust_tier_level := Some ''proven'', tp_override_max_spend := 99, tp_promotion_basis := Some ''partner''\<rparr>"

theorem hand_set_tier_stays_witness:
  "\<exists>st. save_tier 7 two_rungs False ''t'' raised_by_hand new_team = Inr st
    \<and> tp_override_max_spend (tier_profile_for (ts_profiles st) ''t'') = 99
    \<and> recompute_all (\<lambda>_ _ _. ''history'') two_rungs ''t'' [(8, 3, 6000), (9, 4, 9000)] st = Some (Inr st)"
proof -
  have "\<exists>st. save_tier 7 two_rungs False ''t'' raised_by_hand new_team = Inr st"
    by (simp add: save_tier_def pin_tier_set_by_hand_def raised_by_hand_def new_team_def blank_profile_def tier_fields_def
        or_else_def strip_def is_space_def Let_def)
  then obtain st where st: "save_tier 7 two_rungs False ''t'' raised_by_hand new_team = Inr st" ..
  have "ts_profiles new_team ''t'' = Some blank_profile" "tier_fields raised_by_hand \<noteq> tier_fields blank_profile"
    by (simp_all add: new_team_def tier_fields_def raised_by_hand_def blank_profile_def)
  from hand_set_tier_stays [OF st this] st show ?thesis
    by (intro exI [of _ st]) (simp add: raised_by_hand_def del: recompute_all.simps)
qed

end
