(* ===== verification/Rerating.thy ===== *)
theory Rerating
  imports Generation Lifecycle
begin

text \<open>
  Re-issuing a period's invoices after a price was found to be wrong (\<open>revenue/rerating.py\<close>,
  \<open>doctype/rerating_run\<close>, and \<open>reissue_invoice\<close> of \<open>revenue/invoicing/lifecycle.py\<close>).

  A re-issue cancels the invoice and drafts its period again in one transaction, whose reads see its
  own cancel. \<open>apply\<close> rolls nothing back: what an interrupted re-issue has written is committed with it,
  so a re-issue returns the books beside its exception.

  The draft is \<open>generate_team_invoice\<close> with its retries, and the argument \<open>lost\<close> says for each
  attempt which lock it loses, if any. A deadlock rolls the transaction back as a whole, so the
  attempts after it read the committed tables, in which the invoice is not cancelled. Others may
  take locks but write nothing here.
\<close>

section \<open>What a correction touches\<close>

definition CORRECTABLE :: "string list" where
  "CORRECTABLE = [''Outstanding'', ''Overdue'']"

definition lines_of :: "books \<Rightarrow> string \<Rightarrow> bill_line list" where
  "lines_of b invoice = (case map_of (bk_lines b) invoice of None \<Rightarrow> [] | Some ls \<Rightarrow> ls)"

definition affected_invoices :: "string \<Rightarrow> date \<Rightarrow> date \<Rightarrow> books \<Rightarrow> invoice list" where
  "affected_invoices resource_type ps pe b =
     sort_key inv_name (filter (\<lambda>iv. (\<exists>l \<in> set (lines_of b (inv_name iv)). billed_type (bl_what l) = resource_type)
        \<and> inv_status iv \<in> set CORRECTABLE \<and> ps \<le> inv_period_start iv \<and> inv_period_end iv \<le> pe) (bk_invoices b))"

text \<open>\<open>_rated_today\<close> reads the clusters of the subscriptions only, not those of their servers.\<close>

definition subscription_clusters :: "books \<Rightarrow> string \<Rightarrow> string list" where
  "subscription_clusters b team = map the (filter truthy (remdups (map su_cluster (team_subs b team))))"

definition rated_today :: "gen_env \<Rightarrow> books \<Rightarrow> invoice \<Rightarrow> error + money" where
  "rated_today env b iv =
     bindE (metered_lines (ge_r2 env) (ge_sub env) (inv_team iv) (subscription_clusters b (inv_team iv))
              (inv_period_start iv) (inv_period_end iv) (bk_rollups b))
       (\<lambda>ms. Inr (ge_r2 env (sum_list (map ln_amount (fixed_lines env b (inv_team iv) (inv_period_start iv) (inv_period_end iv)))
                             + sum_list (map ml_amount ms))))"

record preview_row =
  pv_invoice :: string
  pv_team :: string
  pv_old_total :: money
  pv_new_total :: money
  pv_delta :: money

fun preview_rows :: "gen_env \<Rightarrow> books \<Rightarrow> invoice list \<Rightarrow> error + preview_row list" where
  "preview_rows env b [] = Inr []"
| "preview_rows env b (iv # ivs) =
     bindE (rated_today env b iv) (\<lambda>new_total. bindE (preview_rows env b ivs) (\<lambda>rows.
       Inr (\<lparr>pv_invoice = inv_name iv, pv_team = inv_team iv, pv_old_total = inv_total iv, pv_new_total = new_total,
              pv_delta = ge_r2 env (new_total - inv_total iv)\<rparr> # rows)))"

record preview =
  pr_rows :: "preview_row list"
  pr_changed :: nat
  pr_net_delta :: money

definition preview :: "gen_env \<Rightarrow> string \<Rightarrow> date \<Rightarrow> date \<Rightarrow> books \<Rightarrow> error + preview" where
  "preview env resource_type ps pe b =
     bindE (preview_rows env b (affected_invoices resource_type ps pe b)) (\<lambda>rows.
       Inr \<lparr>pr_rows = rows, pr_changed = length (filter (\<lambda>r. pv_delta r \<noteq> 0) rows),
            pr_net_delta = ge_r2 env (sum_list (map pv_delta rows))\<rparr>)"

section \<open>Cancel and draft again\<close>

text \<open>The books at a raise: inside the cancel (the invoice is saved before its credit is given back), and inside the draft.\<close>

definition cancel_left :: "gen_env \<Rightarrow> string \<Rightarrow> string option \<Rightarrow> books \<Rightarrow> books" where
  "cancel_left env invoice reason b =
     (let w = bk_world b in
      case find_invoice w invoice of None \<Rightarrow> b | Some iv \<Rightarrow>
        if inv_status iv \<in> {''Paid'', ''Cancelled''} \<or> has_live_payment invoice w then b
        else case invoice_transition (ge_ambient env) iv ''Cancelled'' reason (am_user (ge_ambient env)) None (pw_events w) of
          Inl _ \<Rightarrow> b
        | Inr (iv', evs) \<Rightarrow> b\<lparr>bk_world := save_invoice iv' (w\<lparr>pw_events := evs\<rparr>)\<rparr>)"

definition draft_left :: "gen_env \<Rightarrow> string \<Rightarrow> date \<Rightarrow> date \<Rightarrow> books \<Rightarrow> books" where
  "draft_left env team ps pe b =
     (case rate_team_period env b team ps pe of
        Inr (Some r) \<Rightarrow> (case insert_invoice r b of Inr (_, b') \<Rightarrow> b' | Inl _ \<Rightarrow> b)
      | _ \<Rightarrow> b)"

text \<open>The lock an attempt loses, and what it meets: its own cancel before the first rollback, the committed tables after.\<close>

datatype lock_loss = Deadlock_victim | Timed_out

definition raised_by :: "lock_loss \<Rightarrow> raised" where
  "raised_by l = (case l of Deadlock_victim \<Rightarrow> Raised QueryDeadlock | Timed_out \<Rightarrow> Lock_timeout)"

definition FIRST_ATTEMPT :: nat where "FIRST_ATTEMPT = INVOICE_DEADLOCK_RETRIES - 1"

definition reissue_turns :: "(nat \<Rightarrow> lock_loss option) \<Rightarrow> books \<Rightarrow> books \<Rightarrow> nat \<Rightarrow> turn" where
  "reissue_turns lost old own n =
     (let b = (if n = FIRST_ATTEMPT then own else old)
      in \<lparr>tn_seen = b, tn_now = b, tn_lost = map_option raised_by (lost n)\<rparr>)"

definition reissue_left :: "gen_env \<Rightarrow> string \<Rightarrow> date \<Rightarrow> date \<Rightarrow> raised \<Rightarrow> books \<Rightarrow> books" where
  "reissue_left env team ps pe e b =
     (if e = Lock_timeout \<or> e = Raised QueryDeadlock then b else draft_left env team ps pe b)"

text \<open>The flag says that the transaction was rolled back as a whole on the way.\<close>

definition reissue_invoice ::
  "gen_env \<Rightarrow> (nat \<Rightarrow> lock_loss option) \<Rightarrow> string \<Rightarrow> string option \<Rightarrow> books \<Rightarrow> (raised + string option) \<times> books \<times> bool" where
  "reissue_invoice env lost invoice reason b =
     (case find_invoice (bk_world b) invoice of None \<Rightarrow> (Inl (Raised DoesNotExist), b, False) | Some iv \<Rightarrow>
      (case cancel_invoice (ge_pay env) invoice reason (bk_world b) of
         Inl e \<Rightarrow> (Inl (Raised e), cancel_left env invoice reason b, False)
       | Inr w \<Rightarrow>
           let own = b\<lparr>bk_world := w\<rparr>; team = inv_team iv; ps = inv_period_start iv; pe = inv_period_end iv
           in (case generate_team_invoice env team ps pe (reissue_turns lost b own) of
                 (Inl e, rolled) \<Rightarrow> (Inl e, reissue_left env team ps pe e (if rolled then b else own), rolled)
               | (Inr (name, b'), rolled) \<Rightarrow> (Inr name, b', rolled))))"

section \<open>The run\<close>

record rerating_run =
  rg_resource_type :: string
  rg_period_start :: date
  rg_period_end :: date
  rg_reason :: string
  rg_status :: string
  rg_affected :: nat
  rg_net_delta :: money
  rg_reissued :: "(string \<times> string option) list"
  rg_failed :: "(string \<times> raised) list"
  rg_completed_at :: "datetime option"

fun reissue_each ::
  "gen_env \<Rightarrow> (string \<Rightarrow> nat \<Rightarrow> lock_loss option) \<Rightarrow> string \<Rightarrow> preview_row list \<Rightarrow> books
     \<Rightarrow> (string \<times> string option) list \<times> (string \<times> raised) list \<times> books" where
  "reissue_each env lost reason [] b = ([], [], b)"
| "reissue_each env lost reason (row # rows) b =
     (case reissue_invoice env (lost (pv_invoice row)) (pv_invoice row) (Some (''Re-rated: '' @ reason)) b of
        (Inr name, b1, _) \<Rightarrow>
          (let (reissued, failed, b2) = reissue_each env lost reason rows b1 in ((pv_invoice row, name) # reissued, failed, b2))
      | (Inl e, b1, _) \<Rightarrow>
          (let (reissued, failed, b2) = reissue_each env lost reason rows
                  (b1\<lparr>bk_world := review (pv_invoice row) ''Re-rating failed'' (bk_world b1)\<rparr>)
           in (reissued, (pv_invoice row, e) # failed, b2)))"

text \<open>
  The run's own record is inserted before the loop and first committed after its first row, so a
  rollback of that row's draft takes the record with it and the \<open>reload\<close> at the end finds nothing.
\<close>

definition record_rolled_back ::
  "gen_env \<Rightarrow> (string \<Rightarrow> nat \<Rightarrow> lock_loss option) \<Rightarrow> string \<Rightarrow> preview_row list \<Rightarrow> books \<Rightarrow> bool" where
  "record_rolled_back env lost reason rows b =
     (case rows of [] \<Rightarrow> False
      | row # _ \<Rightarrow> snd (snd (reissue_invoice env (lost (pv_invoice row)) (pv_invoice row) (Some (''Re-rated: '' @ reason)) b)))"

definition finish_run :: "gen_env \<Rightarrow> string \<Rightarrow> rerating_run \<Rightarrow> books \<Rightarrow> error + rerating_run \<times> books" where
  "finish_run env to_state run b =
     bindE (transition (ge_ambient env) \<lparr>sd_doctype = ''Rerating Run'', sd_name = pe_hash (ge_pay env) (pw_serial (bk_world b)),
              sd_fields = [''status'' \<mapsto> rg_status run]\<rparr> to_state (Some (rg_reason run)) (am_user (ge_ambient env)) None None None
              (pw_events (bk_world b)))
       (\<lambda>(doc, evs). Inr (run\<lparr>rg_status := the (sd_fields doc ''status''), rg_completed_at := Some (am_now (ge_ambient env))\<rparr>,
          b\<lparr>bk_world := (bk_world b)\<lparr>pw_events := evs\<rparr>\<rparr>))"

definition apply_rerating ::
  "gen_env \<Rightarrow> (string \<Rightarrow> nat \<Rightarrow> lock_loss option) \<Rightarrow> string \<Rightarrow> date \<Rightarrow> date \<Rightarrow> string \<Rightarrow> books
     \<Rightarrow> (error + rerating_run) \<times> books" where
  "apply_rerating env lost resource_type ps pe reason b =
     (case preview env resource_type ps pe b of Inl e \<Rightarrow> (Inl e, b) | Inr plan \<Rightarrow>
       let (reissued, failed, b') = reissue_each env lost reason (pr_rows plan) b;
           run = \<lparr>rg_resource_type = resource_type, rg_period_start = ps, rg_period_end = pe, rg_reason = reason,
             rg_status = ''Running'', rg_affected = length (pr_rows plan), rg_net_delta = pr_net_delta plan,
             rg_reissued = reissued, rg_failed = failed, rg_completed_at = None\<rparr>
       in if record_rolled_back env lost reason (pr_rows plan) b then (Inl DoesNotExist, b')
          else (case finish_run env (if failed \<noteq> [] \<and> reissued = [] then ''Failed'' else ''Complete'') run b' of
              Inl e \<Rightarrow> (Inl e, b')
            | Inr (run, b'') \<Rightarrow> (Inr run, b'')))"

end
