(* ===== verification/Rerating_Properties.thy ===== *)
theory Rerating_Properties
  imports Rerating Generation_Properties
begin

text \<open>
  What re-issuing promises and where it does not: an invoice that is re-issued is cancelled and
  replaced by exactly one live invoice rated from today's data, unless the draft is picked as a
  deadlock's victim, which answers with the old invoice as it was; and a re-issue whose draft fails
  leaves the period with no invoice and no trace the retry of the run would find.
\<close>

section \<open>The cancel\<close>

lemma give_back_invoices: "give_back_wallet env iv w = Inr w' \<Longrightarrow> pw_invoices w' = pw_invoices w"
  by (auto simp: give_back_wallet_def Let_def bindE_Inr split: if_splits)

definition cancelled :: "invoice \<Rightarrow> invoice" where
  "cancelled iv = set_period_key (iv\<lparr>inv_status := ''Cancelled''\<rparr>)"

lemma cancel_invoice_Inr:
  assumes "cancel_invoice env invoice reason w = Inr w'" "find_invoice w invoice = Some iv"
    "inv_status iv \<in> set CORRECTABLE"
  shows "pw_invoices w' = map (\<lambda>x. if inv_name x = invoice then cancelled iv else x) (pw_invoices w)"
proof -
  have status: "inv_status iv \<noteq> ''Paid''" "inv_status iv \<noteq> ''Cancelled''" using assms(3) by (auto simp: CORRECTABLE_def)
  have name: "inv_name iv = invoice" using assms(2) by (auto simp: find_invoice_def dest: find_Some)
  from assms(1,2) status obtain iv' evs w1 where
    tr: "invoice_transition (pe_ambient env) iv ''Cancelled'' reason (am_user (pe_ambient env)) None (pw_events w) = Inr (iv', evs)"
    and returned: "give_back_wallet env iv' (save_invoice iv' (w\<lparr>pw_events := evs\<rparr>)) = Inr w1"
    and w': "pw_invoices w' = pw_invoices w1"
    by (auto simp: cancel_invoice_def bindE_Inr review_def split: if_splits)
  from invoice_transition_cases [OF tr] have "iv' = iv\<lparr>inv_status := ''Cancelled''\<rparr>" by simp
  then show ?thesis
    using give_back_invoices [OF returned] w' name by (simp add: save_invoice_def put_invoice_def cancelled_def)
qed

text \<open>Cancelling the live invoice of a period empties its slot.\<close>

lemma cancel_empties_slot:
  assumes keyed: "keyed ivs" and iv: "iv \<in> set ivs" "is_live_for team ps pe iv"
  shows "\<not> (\<exists>x \<in> set (map (\<lambda>x. if inv_name x = inv_name iv then cancelled iv else x) ivs). is_live_for team ps pe x)"
proof
  assume "\<exists>x \<in> set (map (\<lambda>x. if inv_name x = inv_name iv then cancelled iv else x) ivs). is_live_for team ps pe x"
  then obtain y where y: "y \<in> set ivs" "is_live_for team ps pe (if inv_name y = inv_name iv then cancelled iv else y)" by auto
  have "\<not> is_live_for team ps pe (cancelled iv)" by (simp add: is_live_for_def cancelled_def)
  with y have "is_live_for team ps pe y" "inv_name y \<noteq> inv_name iv" by (auto split: if_splits)
  then have "inv_period_key y = inv_period_key iv"
    using keyed y(1) iv live_key [of team ps pe y] live_key [OF iv(2)] by (simp add: keyed_def)
  then have "y = iv" using keyed y(1) iv(1) by (auto simp: keyed_def distinct_map inj_on_def)
  with \<open>inv_name y \<noteq> inv_name iv\<close> show False by simp
qed

lemma live_invoice_None: "live_invoice b team ps pe = None \<longleftrightarrow> \<not> (\<exists>x \<in> set (bk_invoices b). is_live_for team ps pe x)"
  by (auto simp: live_invoice_def find_None)

lemma cancelled_slot:
  assumes keyed: "keyed (bk_invoices b)" and iv: "find_invoice (bk_world b) invoice = Some iv" "inv_status iv \<in> set CORRECTABLE"
    and cancel: "cancel_invoice env invoice reason (bk_world b) = Inr w"
  shows "live_invoice (b\<lparr>bk_world := w\<rparr>) (inv_team iv) (inv_period_start iv) (inv_period_end iv) = None
    \<and> find_invoice w invoice = Some (cancelled iv)"
proof -
  have found: "iv \<in> set (bk_invoices b)" "inv_name iv = invoice"
    using find_Some [OF iv(1) [unfolded find_invoice_def]] by simp_all
  have invs: "pw_invoices w = map (\<lambda>x. if inv_name x = inv_name iv then cancelled iv else x) (bk_invoices b)"
    using cancel_invoice_Inr [OF cancel iv] found by simp
  have "is_live_for (inv_team iv) (inv_period_start iv) (inv_period_end iv) iv"
    using iv(2) by (auto simp: is_live_for_def CORRECTABLE_def)
  from cancel_empties_slot [OF keyed found(1) this]
  have "live_invoice (b\<lparr>bk_world := w\<rparr>) (inv_team iv) (inv_period_start iv) (inv_period_end iv) = None"
    by (simp add: live_invoice_None invs)
  moreover have "find (\<lambda>x. inv_name x = invoice) (map (\<lambda>x. if inv_name x = inv_name iv then cancelled iv else x) xs)
      = (if invoice \<in> inv_name ` set xs then Some (cancelled iv) else None)" for xs
    using found(2) by (induction xs) (auto simp: cancelled_def)
  ultimately show ?thesis using found by (auto simp: find_invoice_def invs)
qed

section \<open>The draft of a re-issue\<close>

lemma first_attempt: "INVOICE_DEADLOCK_RETRIES = Suc FIRST_ATTEMPT" "0 < FIRST_ATTEMPT"
  by (simp_all add: FIRST_ATTEMPT_def INVOICE_DEADLOCK_RETRIES_def)

text \<open>One attempt: it drafts, it times out, or it is a deadlock's victim and another follows.\<close>

lemma attempt_drafts:
  "tn_lost (turns n) = None \<Longrightarrow> generate_attempts (Suc n) env team ps pe turns rolled =
    (case generate_once env (tn_seen (turns n)) team ps pe (tn_now (turns n)) of
       Inl e \<Rightarrow> (Inl (Raised e), rolled) | Inr r \<Rightarrow> (Inr r, rolled))"
  by (simp add: Let_def)

lemma attempt_times_out:
  "tn_lost (turns n) = Some Lock_timeout \<Longrightarrow>
    generate_attempts (Suc n) env team ps pe turns rolled = (Inl Lock_timeout, rolled)"
  by (simp add: Let_def)

lemma attempt_deadlocks:
  "tn_lost (turns n) = Some (Raised QueryDeadlock) \<Longrightarrow> generate_attempts (Suc n) env team ps pe turns rolled =
    (if n = 0 then (case live_invoice (tn_now (turns n)) team ps pe of
         Some existing \<Rightarrow> (Inr (Some existing, tn_now (turns n)), True) | None \<Rightarrow> (Inl (Raised QueryDeadlock), True))
     else generate_attempts n env team ps pe turns True)"
  by (simp add: Let_def)

lemma reissue_turns_simps:
  "tn_lost (reissue_turns lost old own n) = map_option raised_by (lost n)"
  "tn_seen (reissue_turns lost old own n) = (if n = FIRST_ATTEMPT then own else old)"
  "tn_now (reissue_turns lost old own n) = (if n = FIRST_ATTEMPT then own else old)"
  by (simp_all add: reissue_turns_def Let_def)

text \<open>Without a deadlock the first attempt is the only one, on the tables of its own cancel.\<close>

lemma reissue_first:
  assumes "lost FIRST_ATTEMPT = None"
  shows "generate_team_invoice env team ps pe (reissue_turns lost b own)
    = (case generate_once env own team ps pe own of Inl e \<Rightarrow> (Inl (Raised e), False) | Inr r \<Rightarrow> (Inr r, False))"
  unfolding generate_team_invoice_def first_attempt(1)
  by (subst attempt_drafts) (simp_all add: reissue_turns_simps assms)

lemma reissue_deadlocked:
  assumes "lost FIRST_ATTEMPT = Some Deadlock_victim"
  shows "generate_team_invoice env team ps pe (reissue_turns lost b own)
    = generate_attempts FIRST_ATTEMPT env team ps pe (reissue_turns lost b own) True"
  unfolding generate_team_invoice_def first_attempt(1)
  using first_attempt(2) by (subst attempt_deadlocks) (simp_all add: reissue_turns_simps assms raised_by_def)

lemma reissue_timed_out:
  assumes "lost FIRST_ATTEMPT = Some Timed_out"
  shows "generate_team_invoice env team ps pe (reissue_turns lost b own) = (Inl Lock_timeout, False)"
  unfolding generate_team_invoice_def first_attempt(1)
  by (subst attempt_times_out) (simp_all add: reissue_turns_simps assms raised_by_def)

text \<open>After a rollback every attempt finds the live invoice that is still there.\<close>

lemma attempts_find_live:
  assumes live: "live_invoice b team ps pe = Some n"
  shows "0 < k \<Longrightarrow> k \<le> FIRST_ATTEMPT \<Longrightarrow>
    generate_attempts k env team ps pe (reissue_turns lost b own) True = (res, rolled) \<Longrightarrow>
    rolled \<and> (\<forall>r b'. res = Inr (r, b') \<longrightarrow> r = Some n \<and> bk_world b' = bk_world b)"
proof (induction k)
  case (Suc k)
  let ?turns = "reissue_turns lost b own"
  have k: "k \<noteq> FIRST_ATTEMPT" using Suc.prems(2) by simp
  have once: "\<exists>b'. generate_once env b team ps pe b = Inr (Some n, b') \<and> bk_world b' = bk_world b"
    using live by (simp add: generate_once_def record_outcome_def Let_def)
  consider (drafts) "lost k = None" | (timeout) "lost k = Some Timed_out" | (deadlock) "lost k = Some Deadlock_victim"
    by (metis lock_loss.exhaust option.exhaust)
  then show ?case
  proof cases
    case drafts
    then have "generate_attempts (Suc k) env team ps pe ?turns True
        = (case generate_once env b team ps pe b of Inl e \<Rightarrow> (Inl (Raised e), True) | Inr r \<Rightarrow> (Inr r, True))"
      by (subst attempt_drafts) (simp_all add: reissue_turns_simps k)
    with once Suc.prems(3) show ?thesis by auto
  next
    case timeout
    then have "generate_attempts (Suc k) env team ps pe ?turns True = (Inl Lock_timeout, True)"
      by (subst attempt_times_out) (simp_all add: reissue_turns_simps raised_by_def)
    with Suc.prems(3) show ?thesis by auto
  next
    case deadlock
    have now: "tn_now (?turns k) = b" using k by (simp add: reissue_turns_simps)
    from deadlock have "tn_lost (?turns k) = Some (Raised QueryDeadlock)" by (simp add: reissue_turns_simps raised_by_def)
    note run = Suc.prems(3) [unfolded attempt_deadlocks [where turns = ?turns and n = k, OF this] now live option.case]
    show ?thesis
    proof (cases "k = 0")
      case True
      with run show ?thesis by auto
    next
      case False
      then have "0 < k" "k \<le> FIRST_ATTEMPT" using Suc.prems(2) by simp_all
      then show ?thesis by (rule Suc.IH) (rule run [unfolded if_not_P [OF False]])
    qed
  qed
qed simp

lemma live_invoice_keyed:
  assumes keyed: "keyed (bk_invoices b)" and iv: "iv \<in> set (bk_invoices b)" "is_live_for team ps pe iv"
  shows "live_invoice b team ps pe = Some (inv_name iv)"
proof -
  have only: "x = iv" if x: "x \<in> set (bk_invoices b)" "is_live_for team ps pe x" for x
  proof -
    have "inv_period_key x = inv_period_key iv"
      using keyed x iv live_key [of team ps pe x] live_key [OF iv(2)] by (simp add: keyed_def)
    with keyed x(1) iv(1) show ?thesis by (auto simp: keyed_def distinct_map inj_on_def)
  qed
  have "find (is_live_for team ps pe) (rev (bk_invoices b)) = Some iv"
  proof (rule find_only)
    show "iv \<in> set (rev (bk_invoices b))" "is_live_for team ps pe iv" using iv by simp_all
    show "y = iv" if "y \<in> set (rev (bk_invoices b))" "is_live_for team ps pe y" for y
      by (rule only) (use that in simp_all)
  qed
  then show ?thesis by (simp add: live_invoice_def)
qed

section \<open>Properties\<close>

text \<open>
  Property C33: a failed re-issue loses the invoice. When the period cannot be rated (a metered usage with no
  price, say) and no lock is lost, the cancel is committed all the same: the invoice is Cancelled, the team has no
  invoice for the month, and its outcome row still says what it said, so the hourly retry of failed drafts does not
  pick the month up.
\<close>

theorem failed_reissue_loses_invoice:
  assumes keyed: "keyed (bk_invoices b)" and iv: "find_invoice (bk_world b) invoice = Some iv" "inv_status iv \<in> set CORRECTABLE"
    and cancel: "cancel_invoice (ge_pay env) invoice (Some (''Re-rated: '' @ reason)) (bk_world b) = Inr w"
    and bad: "rate_team_period env (b\<lparr>bk_world := w\<rparr>) (inv_team iv) (inv_period_start iv) (inv_period_end iv) = Inl e"
    and row: "pv_invoice row = invoice" and calm: "lost invoice FIRST_ATTEMPT = None"
  shows "\<exists>b'. reissue_each env lost reason [row] b = ([], [(invoice, Raised e)], b')
    \<and> find_invoice (bk_world b') invoice = Some (cancelled iv)
    \<and> live_invoice b' (inv_team iv) (inv_period_start iv) (inv_period_end iv) = None
    \<and> bk_outcomes b' = bk_outcomes b"
proof -
  let ?b = "b\<lparr>bk_world := w\<rparr>" and ?why = "Some (''Re-rated: '' @ reason)"
  note slot = cancelled_slot [OF keyed iv cancel]
  have "generate_once env ?b (inv_team iv) (inv_period_start iv) (inv_period_end iv) ?b = Inl e"
    using slot bad by (simp add: generate_once_def)
  moreover have "reissue_left env (inv_team iv) (inv_period_start iv) (inv_period_end iv) (Raised e) ?b = ?b"
    by (simp add: reissue_left_def draft_left_def bad)
  ultimately have re: "reissue_invoice env (lost invoice) invoice ?why b = (Inl (Raised e), ?b, False)"
    unfolding reissue_invoice_def iv option.case cancel sum.case Let_def by (simp add: reissue_first calm)
  have "reissue_each env lost reason [row] b
      = ([], [(invoice, Raised e)], ?b\<lparr>bk_world := review invoice ''Re-rating failed'' w\<rparr>)"
    unfolding reissue_each.simps row re prod.case sum.case Let_def by simp
  with slot show ?thesis by (simp add: review_def find_invoice_def live_invoice_def)
qed

text \<open>What a draft on the cancelled slot adds: the one live invoice of the month, under a new name.\<close>

lemma redrafted:
  assumes slot: "live_invoice own team ps pe = None" "invoice \<in> inv_name ` set (bk_invoices own)"
    and run: "generate_once env own team ps pe own = Inr (Some n, b')"
  shows "\<exists>new. bk_invoices b' = bk_invoices own @ [new] \<and> inv_name new = n \<and> is_live_for team ps pe new \<and> n \<noteq> invoice"
  using run
proof (cases rule: generate_once_cases)
  case (billed r n' b1 b2)
  have n': "n' = n" using billed(6) by simp
  obtain ls where "rate env own team ls ps pe = Inr r"
    by (rule rate_team_period_Some [OF billed(2)])
  note fields = rate_Inr [OF this]
  from billed(4) show ?thesis
  proof (cases rule: insert_invoice_cases)
    case yields
    with slot fields show ?thesis by simp
  next
    case (adds new)
    have new: "inv_name new = n" "is_live_for team ps pe new" using fields by (simp_all add: adds(1) n' is_live_for_def)
    have "n \<noteq> invoice" using adds(2) new(1) slot(2) by (auto simp: breaks_unique_def)
    moreover have "bk_invoices b' = bk_invoices own @ [new]"
      using breach_frame [OF billed(5)] adds(3) by (simp add: billed(7))
    ultimately show ?thesis using new by blast
  qed
qed (use slot in simp_all)

text \<open>
  Property C34: a re-issue replaces the invoice, or leaves it. When it answers with an invoice and its draft was not
  a deadlock's victim, the old invoice is Cancelled and the new one, under another name, is the only live invoice of
  the team's month. When the draft was, the rollback has undone the cancel, and the answer is the old invoice
  itself, as it was: nothing was re-issued, though the caller is told it was.
\<close>

theorem reissue_replaces:
  assumes keyed: "keyed (bk_invoices b)" and iv: "find_invoice (bk_world b) invoice = Some iv" "inv_status iv \<in> set CORRECTABLE"
    and run: "reissue_invoice env lost invoice reason b = (Inr (Some n), b', rolled)"
  shows "if lost FIRST_ATTEMPT = Some Deadlock_victim
    then rolled \<and> n = invoice \<and> bk_invoices b' = bk_invoices b
      \<and> live_invoice b' (inv_team iv) (inv_period_start iv) (inv_period_end iv) = Some invoice
    else \<not> rolled \<and> n \<noteq> invoice \<and> find_invoice (bk_world b') invoice = Some (cancelled iv)
      \<and> live_invoice b' (inv_team iv) (inv_period_start iv) (inv_period_end iv) = Some n
      \<and> length (filter (is_live_for (inv_team iv) (inv_period_start iv) (inv_period_end iv)) (bk_invoices b')) = 1"
proof -
  let ?live = "is_live_for (inv_team iv) (inv_period_start iv) (inv_period_end iv)"
  from run iv(1) obtain w where cancel: "cancel_invoice (ge_pay env) invoice reason (bk_world b) = Inr w"
    by (auto simp: reissue_invoice_def split: sum.splits)
  let ?b = "b\<lparr>bk_world := w\<rparr>"
  note slot = cancelled_slot [OF keyed iv cancel]
  let ?gen = "generate_team_invoice env (inv_team iv) (inv_period_start iv) (inv_period_end iv) (reissue_turns lost b ?b)"
  have gen: "?gen = (Inr (Some n, b'), rolled)"
    using run unfolding reissue_invoice_def iv(1) option.case cancel sum.case Let_def by (auto split: sum.splits prod.splits)
  consider (deadlock) "lost FIRST_ATTEMPT = Some Deadlock_victim" | (timeout) "lost FIRST_ATTEMPT = Some Timed_out"
    | (calm) "lost FIRST_ATTEMPT = None" by (metis lock_loss.exhaust option.exhaust)
  then show ?thesis
  proof cases
    case deadlock
    have mem: "iv \<in> set (bk_invoices b)" "inv_name iv = invoice"
      using find_Some [OF iv(1) [unfolded find_invoice_def]] by simp_all
    have "?live iv" using iv(2) by (auto simp: is_live_for_def CORRECTABLE_def)
    from live_invoice_keyed [OF keyed mem(1) this] mem(2)
    have live: "live_invoice b (inv_team iv) (inv_period_start iv) (inv_period_end iv) = Some invoice" by simp
    have "generate_attempts FIRST_ATTEMPT env (inv_team iv) (inv_period_start iv) (inv_period_end iv) (reissue_turns lost b ?b) True
        = (Inr (Some n, b'), rolled)"
      using gen by (simp only: reissue_deadlocked [where lost = lost, OF deadlock])
    from attempts_find_live [OF live first_attempt(2) order_refl this]
    have "rolled" "n = invoice" "bk_world b' = bk_world b" by simp_all
    with deadlock live show ?thesis by (simp add: live_invoice_def)
  next
    case timeout
    with gen show ?thesis by (simp add: reissue_timed_out)
  next
    case calm
    with gen have once: "generate_once env ?b (inv_team iv) (inv_period_start iv) (inv_period_end iv) ?b = Inr (Some n, b')"
      and r: "\<not> rolled" by (auto simp: reissue_first split: sum.splits)
    have "invoice \<in> inv_name ` set (bk_invoices ?b)"
      using find_Some [of _ "pw_invoices w"] slot by (force simp: find_invoice_def)
    from redrafted [OF conjunct1 [OF slot] this once] obtain new where new: "bk_invoices b' = pw_invoices w @ [new]" "inv_name new = n" "?live new" "n \<noteq> invoice" by auto
    have "filter ?live (pw_invoices w) = []" using slot by (simp add: live_invoice_None filter_empty_conv)
    then show ?thesis using slot new calm r by (simp add: find_invoice_def live_invoice_def find_append)
  qed
qed

section \<open>Examples\<close>

text \<open>
  The June invoice, issued at twice the price, and a meter whose resource type no plan prices.
\<close>

definition overcharged :: invoice where
  "overcharged = issued_in_june\<lparr>inv_subtotal := 2000, inv_total := 2124, inv_expected_collection := 2124\<rparr>"

definition issued_books :: books where
  "issued_books = june_books\<lparr>bk_world := due_world\<lparr>pw_invoices := [overcharged]\<rparr>, bk_series := (\<lambda>_. 1)\<rparr>"

definition unpriced_meter :: rollup where
  "unpriced_meter = \<lparr>ur_name = ''u1'', ur_resource = ''bucket'', ur_team = Some ''t1'', ur_cluster = Some ''r'', ur_type = ''Storage'',
     ur_period_start = Some (at_midnight 739768), ur_quantity = 5, ur_unit = ''GB'', ur_currency = Some ''INR'',
     ur_locked_allowance = 0, ur_locked_rate = 0, ur_key = ''k1'', ur_sequence = 1, ur_superseded_by = None\<rparr>"

definition unpriced_books :: books where
  "unpriced_books = issued_books\<lparr>bk_rollups := [unpriced_meter]\<rparr>"

lemma overcharged_simps:
  "inv_name overcharged = ''INV-2026-06-00001''" "inv_status overcharged = ''Outstanding''" "inv_team overcharged = ''t1''"
  "inv_period_start overcharged = 739768" "inv_period_end overcharged = 739797" "inv_advance_applied overcharged = 0"
  "inv_credit_applied overcharged = 0" "inv_total overcharged = 2124" "inv_commitment_discount overcharged = 100"
  "inv_team (cancelled overcharged) = ''t1''"
  by (simp_all add: overcharged_def issued_in_june_def june_draft_def june_invoice_def set_period_key_def cancelled_def)

lemma issued_books_simps:
  "bk_invoices issued_books = [overcharged]" "bk_invoices unpriced_books = [overcharged]"
  "find_invoice (bk_world issued_books) ''INV-2026-06-00001'' = Some overcharged"
  "bk_world unpriced_books = bk_world issued_books" "bk_outcomes unpriced_books = []"
  by (simp_all add: issued_books_def unpriced_books_def find_invoice_def overcharged_simps june_books_def)

lemma issued_keyed: "keyed [overcharged]"
  by (simp add: keyed_def overcharged_def issued_in_june_def set_period_key_def)

lemma overcharged_cancelled:
  "\<exists>w. cancel_invoice (ge_pay june_env) ''INV-2026-06-00001'' why (bk_world issued_books) = Inr w \<and> pw_profiles w = example_profiles"
proof -
  have allowed: "allows INVOICE (Some (inv_status overcharged)) ''Cancelled''" unfolding overcharged_simps by code_simp
  have status: "inv_status overcharged \<noteq> ''Cancelled''" by (simp add: overcharged_simps)
  obtain evs where t: "invoice_transition (ge_ambient june_env) overcharged ''Cancelled'' why (am_user (ge_ambient june_env)) None
      (pw_events (bk_world issued_books)) = Inr (overcharged\<lparr>inv_status := ''Cancelled''\<rparr>, evs)"
    using invoice_transition_ok [OF status allowed] by blast
  have "\<not> has_live_payment ''INV-2026-06-00001'' (bk_world issued_books)"
    by (simp add: has_live_payment_def attempts_for_def issued_books_def)
  with t show ?thesis
    by (simp add: cancel_invoice_def issued_books_simps overcharged_simps give_back_wallet_def june_books_simps)
      (simp add: issued_books_def save_invoice_def review_def)
qed

definition overcharged_row :: preview_row where
  "overcharged_row = \<lparr>pv_invoice = ''INV-2026-06-00001'', pv_team = ''t1'', pv_old_total = 2124, pv_new_total = 1062,
     pv_delta = - 1062\<rparr>"

theorem failed_reissue_loses_invoice_witness:
  "\<exists>b'. reissue_each june_env (\<lambda>_ _. None) ''new price'' [overcharged_row] unpriced_books
      = ([], [(''INV-2026-06-00001'', Raised (ValidationError ''unpriced metered usage''))], b')
    \<and> live_invoice b' ''t1'' 739768 739797 = None \<and> bk_outcomes b' = []"
proof -
  obtain w where w: "cancel_invoice (ge_pay june_env) ''INV-2026-06-00001'' (Some (''Re-rated: '' @ ''new price''))
      (bk_world unpriced_books) = Inr w"
    using overcharged_cancelled [of "Some (''Re-rated: '' @ ''new price'')"] unfolding issued_books_simps by blast
  have "metered_lines half_up (ge_sub june_env) ''t1'' (team_clusters unpriced_books ''t1'') 739768 739797
      (bk_rollups unpriced_books) = Inl (ValidationError ''unpriced metered usage'')" by code_simp
  moreover have "team_clusters (unpriced_books\<lparr>bk_world := w\<rparr>) ''t1'' = team_clusters unpriced_books ''t1''"
    by (simp add: team_clusters_def team_subs_def server_region_def)
  ultimately have bad: "rate_team_period june_env (unpriced_books\<lparr>bk_world := w\<rparr>) ''t1'' 739768 739797
      = Inl (ValidationError ''unpriced metered usage'')"
    by (simp add: rate_team_period_def june_books_simps)
  have "keyed (bk_invoices unpriced_books)" "find_invoice (bk_world unpriced_books) ''INV-2026-06-00001'' = Some overcharged"
    "inv_status overcharged \<in> set CORRECTABLE" "pv_invoice overcharged_row = ''INV-2026-06-00001''"
    by (simp_all add: issued_books_simps issued_keyed overcharged_simps CORRECTABLE_def overcharged_row_def)
  moreover have "rate_team_period june_env (unpriced_books\<lparr>bk_world := w\<rparr>) (inv_team overcharged)
      (inv_period_start overcharged) (inv_period_end overcharged) = Inl (ValidationError ''unpriced metered usage'')"
    unfolding overcharged_simps by (rule bad)
  ultimately show ?thesis
    using failed_reissue_loses_invoice [of unpriced_books "''INV-2026-06-00001''" overcharged june_env "''new price''" w
        "ValidationError ''unpriced metered usage''" overcharged_row "\<lambda>_ _. None", OF _ _ _ w]
    unfolding overcharged_simps issued_books_simps by (elim meta_impE) (assumption | rule refl | elim exE conjE, intro exI conjI)+
qed

lemma estate_reads:
  assumes "bk_estate b = bk_estate b'"
  shows "fixed_lines env b = fixed_lines env b'" "team_clusters b = team_clusters b'" "tag_projects env b = tag_projects env b'"
proof -
  have subs: "team_subs b = team_subs b'" "server_region b = server_region b'" "changes_by_subscription b = changes_by_subscription b'"
    by (simp_all add: fun_eq_iff team_subs_def server_region_def changes_by_subscription_def assms)
  show "fixed_lines env b = fixed_lines env b'" "team_clusters b = team_clusters b'"
    by (intro ext, simp add: fixed_lines_def team_clusters_def subs)+
  have "resource_project_map env b = resource_project_map env b'"
    by (intro ext) (simp add: resource_project_map_def assms subs)
  then show "tag_projects env b = tag_projects env b'" by (intro ext) (simp add: tag_projects_def)
qed

lemma rated_again:
  assumes "pw_profiles w = example_profiles" "pw_invoices w = [cancelled overcharged]"
  shows "rate_team_period june_env (issued_books\<lparr>bk_world := w\<rparr>) ''t1'' 739768 739797 = Inr (Some june_rated)"
proof -
  let ?b = "issued_books\<lparr>bk_world := w\<rparr>"
  have "bk_estate ?b = bk_estate june_books" by (simp add: issued_books_def)
  note reads = estate_reads [OF this]
  have taxed: "resolve_tax half_up (tax_env_of (ge_pay june_env) w) ''t1'' 900 = Inr june_tax"
    using june_taxed by (simp add: tax_env_of_def assms(1) june_books_simps)
  have rows: "bk_rollups ?b = bk_rollups june_books" "bk_commitments ?b = [june_commitment]"
    by (simp_all add: issued_books_def june_books_simps)
  have verdict: "resolve_commitment half_up [june_commitment] [cancelled overcharged] ''t1''
      [\<lparr>bl_what = Bundle june_line, bl_project = Some (''shop'', ''shop'')\<rparr>] 739768 = \<lparr>vd_discount = 100, vd_clawback = 0, vd_breach = None\<rparr>"
    by code_simp
  have "ln_amount june_line = 1000" by (simp add: june_line_def)
  then have "rate june_env ?b ''t1'' [untagged (Bundle june_line)] 739768 739797 = Inr june_rated"
    by (simp add: rate_def Let_def june_tagged june_books_simps assms taxed example_profiles_def rows reads verdict)
      (simp add: june_rated_def june_draft_def june_tax_def example_tax_def june_invoice_def)
  then show ?thesis
    by (simp only: rate_team_period_def rate_lines_def reads rows june_fixed june_metered)
      (simp add: reads)
qed

theorem reissue_replaces_witness:
  "\<exists>b'. reissue_invoice june_env (\<lambda>_. None) ''INV-2026-06-00001'' (Some ''new price'') issued_books
      = (Inr (Some ''INV-2026-06-00002''), b', False)
    \<and> live_invoice b' ''t1'' 739768 739797 = Some ''INV-2026-06-00002''"
proof -
  obtain w where w: "cancel_invoice (ge_pay june_env) ''INV-2026-06-00001'' (Some ''new price'') (bk_world issued_books) = Inr w"
      "pw_profiles w = example_profiles"
    using overcharged_cancelled [of "Some ''new price''"] by blast
  let ?b = "issued_books\<lparr>bk_world := w\<rparr>"
  have pre: "keyed (bk_invoices issued_books)" "find_invoice (bk_world issued_books) ''INV-2026-06-00001'' = Some overcharged"
    "inv_status overcharged \<in> set CORRECTABLE"
    by (simp_all add: issued_books_simps issued_keyed overcharged_simps CORRECTABLE_def)
  have invs: "pw_invoices w = [cancelled overcharged]"
    using cancel_invoice_Inr [OF w(1) pre(2,3)] by (simp add: issued_books_simps overcharged_simps)
  have unbilled: "live_invoice ?b ''t1'' 739768 739797 = None"
    using cancelled_slot [OF pre w(1)] by (simp add: overcharged_simps)
  have "autoname ?b (rt_invoice june_rated) = autoname (june_books\<lparr>bk_series := (\<lambda>_. 1)\<rparr>) (rt_invoice june_rated)"
    by (simp add: autoname_def issued_books_def)
  also have "\<dots> = ''INV-2026-06-00002''" by code_simp
  finally have name: "autoname ?b (rt_invoice june_rated) = ''INV-2026-06-00002''" .
  have "inv_period_key (cancelled overcharged) \<noteq> inv_period_key (set_period_key (june_draft\<lparr>inv_name := ''INV-2026-06-00002''\<rparr>))"
    "rt_invoice june_rated = june_draft" by code_simp+
  then have "\<exists>b1. insert_invoice june_rated ?b = Inr (''INV-2026-06-00002'', b1)"
    by (simp add: insert_invoice_def Let_def name [simplified \<open>rt_invoice june_rated = june_draft\<close>] breaks_unique_def invs
        cancelled_def overcharged_simps)
  then obtain b' where run: "generate_once june_env ?b ''t1'' 739768 739797 ?b = Inr (Some ''INV-2026-06-00002'', b')"
    by (auto simp: generate_once_def unbilled rated_again [OF w(2) invs] june_minimum)
  then have "reissue_invoice june_env (\<lambda>_. None) ''INV-2026-06-00001'' (Some ''new price'') issued_books
      = (Inr (Some ''INV-2026-06-00002''), b', False)"
    unfolding reissue_invoice_def pre(2) w(1) option.case sum.case Let_def overcharged_simps by (simp add: reissue_first)
  with reissue_replaces [OF pre this] show ?thesis by (simp add: overcharged_simps)
qed

text \<open>The deadlock: the first attempt is its victim, the second answers with the invoice that was to be replaced.\<close>

definition deadlocked_once :: "nat \<Rightarrow> lock_loss option" where
  "deadlocked_once n = (if n = FIRST_ATTEMPT then Some Deadlock_victim else None)"

lemma deadlocked_reissue_keeps_invoice:
  "\<exists>b'. reissue_invoice june_env deadlocked_once ''INV-2026-06-00001'' (Some ''new price'') issued_books
      = (Inr (Some ''INV-2026-06-00001''), b', True) \<and> bk_invoices b' = [overcharged]"
proof -
  obtain w where w: "cancel_invoice (ge_pay june_env) ''INV-2026-06-00001'' (Some ''new price'') (bk_world issued_books) = Inr w"
    using overcharged_cancelled [of "Some ''new price''"] by blast
  have "is_live_for ''t1'' 739768 739797 overcharged" by (simp add: is_live_for_def overcharged_simps)
  then have live: "live_invoice issued_books ''t1'' 739768 739797 = Some ''INV-2026-06-00001''"
    by (simp add: live_invoice_def issued_books_simps overcharged_simps)
  have "\<exists>b'. generate_team_invoice june_env ''t1'' 739768 739797 (reissue_turns deadlocked_once issued_books own)
      = (Inr (Some ''INV-2026-06-00001'', b'), True) \<and> bk_world b' = bk_world issued_books" for own
    using live by (simp add: generate_team_invoice_def INVOICE_DEADLOCK_RETRIES_def eval_nat_numeral reissue_turns_def
        deadlocked_once_def FIRST_ATTEMPT_def raised_by_def Let_def generate_once_def record_outcome_def)
  then obtain b' where "generate_team_invoice june_env ''t1'' 739768 739797
      (reissue_turns deadlocked_once issued_books (issued_books\<lparr>bk_world := w\<rparr>)) = (Inr (Some ''INV-2026-06-00001'', b'), True)"
      "bk_world b' = bk_world issued_books" by blast
  then show ?thesis
    unfolding reissue_invoice_def issued_books_simps(3) w option.case sum.case Let_def overcharged_simps
    by (simp add: issued_books_simps)
qed

end
