(* ===== verification/Money_Audit.thy ===== *)
theory Money_Audit
  imports Generation
begin

text \<open>
  The nightly audit of the money (\<open>platform/invariants.py\<close>): every check derives a number a second time
  and reports where the two disagree. Of a violation the text is left out. A query's rows come in the
  order of their table; \<open>au_wallets\<close> are the names of the Credit Wallet rows in that order, and
  \<open>au_created\<close> is when an invoice was created.
\<close>

section \<open>Violations\<close>

definition TOLERANCE :: money where "TOLERANCE = 1 / 100"
definition STUCK_ATTEMPT_MINUTES :: int where "STUCK_ATTEMPT_MINUTES = 30"
definition TOOK_MONEY :: "string list" where "TOOK_MONEY = [''Captured'', ''Refunded'']"
definition IN_FLIGHT :: "string list" where "IN_FLIGHT = [''Initiated'', ''Authorised'']"

record violation =
  vi_check :: string
  vi_team :: "string option"
  vi_currency :: "string option"
  vi_doctype :: "string option"
  vi_subject :: "string option"
  vi_expected :: "money option"
  vi_actual :: "money option"

definition drift :: "(rat \<Rightarrow> rat) \<Rightarrow> violation \<Rightarrow> money" where
  "drift r2 v = (case (vi_expected v, vi_actual v) of (Some e, Some a) \<Rightarrow> r2 (a - e) | _ \<Rightarrow> 0)"

definition differs :: "money \<Rightarrow> money \<Rightarrow> bool" where
  "differs a b \<longleftrightarrow> \<bar>a - b\<bar> > TOLERANCE"

record audit_env =
  au_r2 :: "rat \<Rightarrow> rat"
  au_settings :: billing_settings
  au_now :: datetime
  au_wallets :: "string list"
  au_created :: "string \<Rightarrow> datetime"

definition attempt_cutoff :: "audit_env \<Rightarrow> datetime" where
  "attempt_cutoff env = au_now env - payment_log_retention_days (au_settings env) * day_us"

section \<open>The credit ledger\<close>

text \<open>C2. \<open>ledger\<close> is the grouped query: each account with an entry and the signed sum of its entries.\<close>

definition ledger_sums :: "ledger \<Rightarrow> ((string \<times> string) \<times> money) list" where
  "ledger_sums l = map (\<lambda>(t, c). ((t, c), ledger_balance t c l)) (remdups (map (\<lambda>e. (le_team e, le_currency e)) (entries l)))"

definition check_wallet_matches_ledger :: "string list \<Rightarrow> ledger \<Rightarrow> violation list" where
  "check_wallet_matches_ledger names l =
     (let rows = List.map_filter (\<lambda>n. map_option (Pair n) (wallets l n)) names;
          seen = map (\<lambda>(n, w). (w_team w, w_currency w)) rows;
          totals = ledger_sums l;
          expected = (\<lambda>key. case map_of totals key of None \<Rightarrow> 0 | Some x \<Rightarrow> x)
      in map (\<lambda>(n, w). \<lparr>vi_check = ''C2'', vi_team = Some (w_team w), vi_currency = Some (w_currency w),
             vi_doctype = Some ''Credit Wallet'', vi_subject = Some n, vi_expected = Some (expected (w_team w, w_currency w)),
             vi_actual = Some (w_balance w)\<rparr>)
           (filter (\<lambda>(n, w). differs (w_balance w) (expected (w_team w, w_currency w))) rows)
         @ map (\<lambda>((t, c), balance). \<lparr>vi_check = ''C2'', vi_team = Some t, vi_currency = Some c,
             vi_doctype = Some ''Credit Ledger Entry'', vi_subject = None, vi_expected = Some balance, vi_actual = Some 0\<rparr>)
           (filter (\<lambda>(key, balance). key \<notin> set seen \<and> \<bar>balance\<bar> > TOLERANCE) totals))"

text \<open>C4: the entries by account, each account in the order they were written.\<close>

fun chain_breaks ::
  "(string \<times> string \<Rightarrow> money) \<Rightarrow> (string \<times> string) list \<Rightarrow> ledger_entry list \<Rightarrow> violation list" where
  "chain_breaks running broken [] = []"
| "chain_breaks running broken (e # es) =
     (let key = (le_team e, le_currency e) in
      if key \<in> set broken then chain_breaks running broken es
      else let total = running key + le_amount e * (if le_type e = ''Credit'' then 1 else - 1);
               running = running(key := total)
           in if differs (le_running e) total
              then \<lparr>vi_check = ''C4'', vi_team = Some (le_team e), vi_currency = Some (le_currency e),
                     vi_doctype = Some ''Credit Ledger Entry'', vi_subject = Some (nat_str (le_name e)),
                     vi_expected = Some total, vi_actual = Some (le_running e)\<rparr> # chain_breaks running (key # broken) es
              else chain_breaks running broken es)"

definition check_running_balance_chain :: "ledger \<Rightarrow> violation list" where
  "check_running_balance_chain l =
     chain_breaks (\<lambda>_. 0) [] (sort_key (\<lambda>e. le_team e) (sort_key (\<lambda>e. le_currency e) (entries l)))"

section \<open>Invoices\<close>

definition invoice_violation :: "string \<Rightarrow> invoice \<Rightarrow> money \<Rightarrow> money \<Rightarrow> violation" where
  "invoice_violation check iv expected actual =
     \<lparr>vi_check = check, vi_team = Some (inv_team iv), vi_currency = Some (inv_currency iv), vi_doctype = Some ''Invoice'',
      vi_subject = Some (inv_name iv), vi_expected = Some expected, vi_actual = Some actual\<rparr>"

text \<open>I1. \<open>Sum(item.amount)\<close> over all lines whose parent is the invoice.\<close>

definition line_total :: "books \<Rightarrow> string \<Rightarrow> money" where
  "line_total b name = sum_list (map (\<lambda>(_, ls). sum_list (map bl_amount ls)) (filter (\<lambda>(n, _). n = name) (bk_lines b)))"

definition check_invoice_line_sum :: "books \<Rightarrow> violation list" where
  "check_invoice_line_sum b =
     map (\<lambda>iv. invoice_violation ''I1'' iv (line_total b (inv_name iv)) (inv_subtotal iv))
       (filter (\<lambda>iv. inv_status iv \<noteq> ''Cancelled'' \<and> differs (inv_subtotal iv) (line_total b (inv_name iv))) (bk_invoices b))"

text \<open>I5.\<close>

definition owed_by :: "invoice \<Rightarrow> money" where
  "owed_by iv = inv_total iv - tb_tds_amount (inv_tax iv)"

definition settled_for :: "invoice \<Rightarrow> money" where
  "settled_for iv = inv_amount_paid iv + inv_credit_applied iv + inv_advance_tax_applied iv"

definition check_paid_invoice_is_covered :: "invoice list \<Rightarrow> violation list" where
  "check_paid_invoice_is_covered ivs =
     map (\<lambda>iv. invoice_violation ''I5'' iv (owed_by iv) (settled_for iv))
       (filter (\<lambda>iv. inv_status iv = ''Paid'' \<and> inv_type iv \<noteq> ''Cost Report'' \<and> settled_for iv + TOLERANCE < owed_by iv) ivs)"

text \<open>I6: the periods with more than one live invoice.\<close>

definition live_periods :: "invoice list \<Rightarrow> (string \<times> date \<times> date) list" where
  "live_periods ivs = remdups (map (\<lambda>iv. (inv_team iv, inv_period_start iv, inv_period_end iv))
     (filter (\<lambda>iv. inv_status iv \<noteq> ''Cancelled'') ivs))"

definition bills_of :: "invoice list \<Rightarrow> string \<Rightarrow> date \<Rightarrow> date \<Rightarrow> nat" where
  "bills_of ivs team ps pe = length (filter (is_live_for team ps pe) ivs)"

definition check_one_live_invoice_per_period :: "invoice list \<Rightarrow> violation list" where
  "check_one_live_invoice_per_period ivs =
     map (\<lambda>(team, ps, pe). \<lparr>vi_check = ''I6'', vi_team = Some team, vi_currency = None, vi_doctype = Some ''Invoice'',
            vi_subject = None, vi_expected = Some 1, vi_actual = Some (of_nat (bills_of ivs team ps pe))\<rparr>)
       (filter (\<lambda>(team, ps, pe). bills_of ivs team ps pe > 1) (live_periods ivs))"

section \<open>Payments\<close>

text \<open>P2.\<close>

definition captured_for :: "attempt list \<Rightarrow> string \<Rightarrow> money" where
  "captured_for as name = sum_where (\<lambda>a. at_status a \<in> set TOOK_MONEY \<and> at_invoice a = name) at_amount as"

definition check_captured_matches_amount_paid :: "audit_env \<Rightarrow> world \<Rightarrow> violation list" where
  "check_captured_matches_amount_paid env w =
     map (\<lambda>iv. invoice_violation ''P2'' iv (captured_for (pw_attempts w) (inv_name iv)) (inv_amount_paid iv))
       (filter (\<lambda>iv. inv_status iv = ''Paid'' \<and> au_created env (inv_name iv) \<ge> attempt_cutoff env
          \<and> inv_amount_paid iv > captured_for (pw_attempts w) (inv_name iv) + TOLERANCE) (pw_invoices w))"

text \<open>P4: in flight, stale, and not held by the gateway. Newest first.\<close>

definition gateway_hold_active :: "datetime \<Rightarrow> attempt \<Rightarrow> bool" where
  "gateway_hold_active now a = (case at_hold_until a of None \<Rightarrow> False | Some t \<Rightarrow> t > now)"

definition unheld_attempts_in_flight :: "datetime \<Rightarrow> datetime \<Rightarrow> attempt list \<Rightarrow> attempt list" where
  "unheld_attempts_in_flight now initiated_before as =
     rev (sort_key at_creation (filter (\<lambda>a. at_status a \<in> set IN_FLIGHT \<and> at_initiated_at a < initiated_before
       \<and> \<not> gateway_hold_active now a) as))"

definition check_no_stuck_attempts :: "audit_env \<Rightarrow> world \<Rightarrow> violation list" where
  "check_no_stuck_attempts env w =
     map (\<lambda>a. \<lparr>vi_check = ''P4'', vi_team = Some (at_team a), vi_currency = Some (at_currency a),
            vi_doctype = Some ''Payment Attempt'', vi_subject = Some (at_name a), vi_expected = None,
            vi_actual = Some (at_amount a)\<rparr>)
       (unheld_attempts_in_flight (au_now env) (au_now env - STUCK_ATTEMPT_MINUTES * 60000000) (pw_attempts w))"

section \<open>The registry\<close>

type_synonym check = "books \<Rightarrow> error + violation list"

definition CHECKS :: "audit_env \<Rightarrow> (string \<times> check) list" where
  "CHECKS env = [
     (''C2'', \<lambda>b. Inr (check_wallet_matches_ledger (au_wallets env) (pw_ledger (bk_world b)))),
     (''C4'', \<lambda>b. Inr (check_running_balance_chain (pw_ledger (bk_world b)))),
     (''I1'', \<lambda>b. Inr (check_invoice_line_sum b)),
     (''I5'', \<lambda>b. Inr (check_paid_invoice_is_covered (bk_invoices b))),
     (''I6'', \<lambda>b. Inr (check_one_live_invoice_per_period (bk_invoices b))),
     (''P2'', \<lambda>b. Inr (check_captured_matches_amount_paid env (bk_world b))),
     (''P4'', \<lambda>b. Inr (check_no_stuck_attempts env (bk_world b)))]"

text \<open>A check that raises is logged and passed over; the worst drift comes first.\<close>

definition found_by :: "books \<Rightarrow> check \<Rightarrow> violation list" where
  "found_by b fn = (case fn b of Inr vs \<Rightarrow> vs | Inl _ \<Rightarrow> [])"

definition audit :: "audit_env \<Rightarrow> string option \<Rightarrow> (string \<times> check) list \<Rightarrow> books \<Rightarrow> error + violation list" where
  "audit env only checks b =
     (if truthy only then (case map_of checks (the only) of
          None \<Rightarrow> Inl KeyError | Some fn \<Rightarrow> Inr (sort_key (\<lambda>v. - \<bar>drift (au_r2 env) v\<bar>) (found_by b fn)))
      else Inr (sort_key (\<lambda>v. - \<bar>drift (au_r2 env) v\<bar>) (concat (map (\<lambda>(_, fn). found_by b fn) checks))))"

fun count_checks :: "violation list \<Rightarrow> (string \<times> nat) list \<Rightarrow> (string \<times> nat) list" where
  "count_checks [] counts = counts"
| "count_checks (v # vs) counts = count_checks vs
     (AList.update (vi_check v) ((case map_of counts (vi_check v) of None \<Rightarrow> 0 | Some n \<Rightarrow> n) + 1) counts)"

text \<open>\<open>readiness\<close> are the checks of \<open>platform/readiness.py\<close>.\<close>

definition run_invariant_audit :: "audit_env \<Rightarrow> (string \<times> check) list \<Rightarrow> books \<Rightarrow> error + nat \<times> (string \<times> nat) list" where
  "run_invariant_audit env readiness b =
     bindE (audit env None (CHECKS env) b) (\<lambda>money. bindE (audit env None readiness b) (\<lambda>ready.
       let vs = money @ ready in if vs = [] then Inr (0, []) else Inr (length vs, count_checks vs [])))"

end
