(* ===== verification/Money_Audit_Properties.thy ===== *)
theory Money_Audit_Properties
  imports Money_Audit Credit_Expiry Generation_Properties Settlement_Properties
begin

text \<open>
  What the nightly audit is worth: exactly what the two checks of the ledger see, that no ledger the
  program can reach is reported, which tampering they show and which they miss, and that drafting and
  settling leave the checks of the invoices silent.
\<close>

section \<open>What the checks of the ledger see\<close>

text \<open>The chain of one account, up to the tolerance; \<open>before\<close> is the sum of the entries before.\<close>

fun chained_upto :: "money \<Rightarrow> ledger_entry list \<Rightarrow> bool" where
  "chained_upto before [] = True"
| "chained_upto before (e # es) \<longleftrightarrow> \<not> differs (le_running e) (before + signed_amount (le_booking e))
     \<and> chained_upto (before + signed_amount (le_booking e)) es"

lemma TOLERANCE_pos [simp]: "0 < TOLERANCE" "0 \<le> TOLERANCE" by (simp_all add: TOLERANCE_def)

lemma differs_self [simp]: "\<not> differs x x" by (simp add: differs_def TOLERANCE_def)

lemma chained_is_upto: "chained before es \<Longrightarrow> chained_upto before es"
  by (induction es arbitrary: before) auto

text \<open>The first entry of an account that breaks its chain, with the sum it should have had.\<close>

fun first_break :: "money \<Rightarrow> ledger_entry list \<Rightarrow> (ledger_entry \<times> money) option" where
  "first_break before [] = None"
| "first_break before (e # es) =
     (if differs (le_running e) (before + signed_amount (le_booking e)) then Some (e, before + signed_amount (le_booking e))
      else first_break (before + signed_amount (le_booking e)) es)"

lemma first_break_None: "first_break before es = None \<longleftrightarrow> chained_upto before es"
  by (induction es arbitrary: before) auto

definition breaks_at :: "money \<Rightarrow> ledger_entry list \<Rightarrow> ledger_entry \<Rightarrow> money \<Rightarrow> bool" where
  "breaks_at before es e x \<longleftrightarrow> (\<exists>xs ys. es = xs @ e # ys \<and> chained_upto before xs
     \<and> x = before + sum_list (map (\<lambda>e. signed_amount (le_booking e)) (xs @ [e])) \<and> differs (le_running e) x)"

lemma breaks_at_Cons:
  "breaks_at before (a # es) e x \<longleftrightarrow>
     (if differs (le_running a) (before + signed_amount (le_booking a)) then e = a \<and> x = before + signed_amount (le_booking a)
      else breaks_at (before + signed_amount (le_booking a)) es e x)" (is "_ \<longleftrightarrow> ?rhs")
proof
  assume "breaks_at before (a # es) e x"
  then obtain xs ys where xs: "a # es = xs @ e # ys" "chained_upto before xs"
    "x = before + sum_list (map (\<lambda>e. signed_amount (le_booking e)) (xs @ [e]))" "differs (le_running e) x"
    unfolding breaks_at_def by blast
  show ?rhs
  proof (cases xs)
    case Nil
    with xs show ?thesis by simp
  next
    case (Cons b zs)
    with xs have "es = zs @ e # ys" "\<not> differs (le_running a) (before + signed_amount (le_booking a))"
      "chained_upto (before + signed_amount (le_booking a)) zs"
      "x = before + signed_amount (le_booking a) + sum_list (map (\<lambda>e. signed_amount (le_booking e)) (zs @ [e]))"
      by (simp_all add: add.assoc)
    with xs(4) show ?thesis unfolding breaks_at_def by auto
  qed
next
  assume rhs: ?rhs
  show "breaks_at before (a # es) e x"
  proof (cases "differs (le_running a) (before + signed_amount (le_booking a))")
    case True
    with rhs show ?thesis unfolding breaks_at_def by (intro exI [of _ "[]"] exI [of _ es]) simp
  next
    case False
    with rhs obtain xs ys where xs: "es = xs @ e # ys" "chained_upto (before + signed_amount (le_booking a)) xs"
      "x = before + signed_amount (le_booking a) + sum_list (map (\<lambda>e. signed_amount (le_booking e)) (xs @ [e]))" "differs (le_running e) x"
      unfolding breaks_at_def by auto
    have "a # es = (a # xs) @ e # ys" "chained_upto before (a # xs)"
      "x = before + sum_list (map (\<lambda>e. signed_amount (le_booking e)) ((a # xs) @ [e]))" using False xs by (simp_all add: add.assoc)
    with xs(4) show ?thesis unfolding breaks_at_def by blast
  qed
qed

lemma first_break_Some: "first_break before es = Some (e, x) \<longleftrightarrow> breaks_at before es e x"
proof (induction es arbitrary: before)
  case Nil
  show ?case by (simp add: breaks_at_def)
next
  case (Cons a es)
  then show ?case unfolding breaks_at_Cons by auto
qed

text \<open>What the check reports of a broken chain.\<close>

definition chain_break :: "ledger_entry \<Rightarrow> money \<Rightarrow> violation" where
  "chain_break e x = \<lparr>vi_check = ''C4'', vi_team = Some (le_team e), vi_currency = Some (le_currency e),
     vi_doctype = Some ''Credit Ledger Entry'', vi_subject = Some (nat_str (le_name e)),
     vi_expected = Some x, vi_actual = Some (le_running e)\<rparr>"

definition account_of :: "violation \<Rightarrow> (string option \<times> string option)" where
  "account_of v = (vi_team v, vi_currency v)"

text \<open>One report for each account whose chain breaks, of its first break.\<close>

definition broken_accounts ::
  "(string \<times> string \<Rightarrow> money) \<Rightarrow> (string \<times> string) list \<Rightarrow> ledger_entry list \<Rightarrow> violation set" where
  "broken_accounts running broken es = {chain_break e x | t c e x.
     (t, c) \<notin> set broken \<and> first_break (running (t, c)) (filter (in_wallet t c) es) = Some (e, x)}"

lemma broken_here:
  fixes running :: "string \<times> string \<Rightarrow> money" and e :: ledger_entry
  defines "key \<equiv> (le_team e, le_currency e)"
  defines "x \<equiv> running key + signed_amount (le_booking e)"
  assumes new: "key \<notin> set broken" and breaks: "differs (le_running e) x"
  shows "broken_accounts running broken (e # es)
    = insert (chain_break e x) (broken_accounts (running(key := x)) (key # broken) es)"
proof -
  have own: "in_wallet t c e \<longleftrightarrow> (t, c) = key" for t c by (auto simp: in_wallet_def key_def)
  have here: "first_break (running (t, c)) (filter (in_wallet t c) (e # es)) = Some (e, x)" if "(t, c) = key" for t c
    using that breaks by (simp add: own x_def)
  have elsewhere: "first_break (running (t, c)) (filter (in_wallet t c) (e # es))
      = first_break ((running(key := x)) (t, c)) (filter (in_wallet t c) es)" if "(t, c) \<noteq> key" for t c
    using that by (simp add: own)
  show ?thesis
  proof (intro set_eqI iffI)
    fix v assume "v \<in> broken_accounts running broken (e # es)"
    then obtain t c e' y where v: "v = chain_break e' y" "(t, c) \<notin> set broken"
      "first_break (running (t, c)) (filter (in_wallet t c) (e # es)) = Some (e', y)" unfolding broken_accounts_def by blast
    show "v \<in> insert (chain_break e x) (broken_accounts (running(key := x)) (key # broken) es)"
    proof (cases "(t, c) = key")
      case True
      with v(1,3) here show ?thesis by simp
    next
      case False
      with v(2) have "(t, c) \<notin> set (key # broken)" by simp
      with v(1) v(3) [unfolded elsewhere [OF False]] show ?thesis unfolding broken_accounts_def by blast
    qed
  next
    fix v assume "v \<in> insert (chain_break e x) (broken_accounts (running(key := x)) (key # broken) es)"
    then consider "v = chain_break e x" | t c e' y where "v = chain_break e' y" "(t, c) \<notin> set (key # broken)"
      "first_break ((running(key := x)) (t, c)) (filter (in_wallet t c) es) = Some (e', y)" unfolding broken_accounts_def by blast
    then show "v \<in> broken_accounts running broken (e # es)"
    proof cases
      case 1
      have "(le_team e, le_currency e) = key" by (simp add: key_def)
      from 1 here [OF this] new this show ?thesis unfolding broken_accounts_def by (metis (mono_tags, lifting) mem_Collect_eq)
    next
      case (2 t c e' y)
      then have "(t, c) \<noteq> key" "(t, c) \<notin> set broken" by auto
      with 2(1) 2(3) [folded elsewhere [OF this(1)]] show ?thesis unfolding broken_accounts_def by blast
    qed
  qed
qed

lemma chain_breaks_exact:
  "set (chain_breaks running broken es) = broken_accounts running broken es
   \<and> distinct (map account_of (chain_breaks running broken es))
   \<and> (\<forall>(t, c) \<in> set broken. (Some t, Some c) \<notin> account_of ` set (chain_breaks running broken es))"
proof (induction running broken es rule: chain_breaks.induct)
  case (1 running broken)
  then show ?case by (simp add: broken_accounts_def)
next
  case (2 running broken e es)
  let ?key = "(le_team e, le_currency e)" and ?signed = "signed_amount (le_booking e)"
  let ?running = "running(?key := running ?key + ?signed)"
  have signed: "le_amount e * (if le_type e = ''Credit'' then 1 else - 1) = ?signed" by (simp add: signed_amount_def)
  have own: "in_wallet t c e \<longleftrightarrow> (t, c) = ?key" for t c by (auto simp: in_wallet_def)
  show ?case
  proof (cases "?key \<in> set broken")
    case True
    have "filter (in_wallet t c) (e # es) = filter (in_wallet t c) es" if "(t, c) \<notin> set broken" for t c
      using that True by (auto simp: own)
    then have accounts: "broken_accounts running broken (e # es) = broken_accounts running broken es"
      unfolding broken_accounts_def by (metis (no_types, lifting))
    have run: "chain_breaks running broken (e # es) = chain_breaks running broken es" using True by simp
    show ?thesis unfolding accounts run by (rule 2(1) [OF refl True])
  next
    case False
    show ?thesis
    proof (cases "differs (le_running e) (running ?key + ?signed)")
      case True
      let ?v = "chain_break e (running ?key + ?signed)"
      have run: "chain_breaks running broken (e # es) = ?v # chain_breaks ?running (?key # broken) es"
        using True False by (simp add: signed Let_def chain_break_def del: mult_minus_right)
      note IH = 2(2) [OF refl False refl refl, unfolded signed, OF True]
      note accounts = broken_here [where running = running, OF False True]
      define rest where "rest = chain_breaks ?running (?key # broken) es"
      have rest: "set rest = broken_accounts ?running (?key # broken) es" "distinct (map account_of rest)"
        "\<And>t c. (t, c) \<in> set (?key # broken) \<Longrightarrow> (Some t, Some c) \<notin> account_of ` set rest"
        using IH unfolding rest_def by (blast, blast, blast)
      have v: "account_of ?v = (Some (le_team e), Some (le_currency e))" by (simp add: account_of_def chain_break_def)
      have "(Some t, Some c) \<notin> account_of ` set (?v # rest)" if tc: "(t, c) \<in> set broken" for t c
        using rest(3) [of t c] v tc False by auto
      then have old: "\<forall>(t, c) \<in> set broken. (Some t, Some c) \<notin> account_of ` set (?v # rest)" by blast
      have new: "distinct (map account_of (?v # rest))" using rest(2) rest(3) [of "le_team e" "le_currency e"] v by simp
      have all: "chain_breaks running broken (e # es) = ?v # rest" unfolding rest_def by (rule run)
      have "set (?v # rest) = broken_accounts running broken (e # es)" unfolding accounts rest(1) [symmetric] by simp
      with new old show ?thesis unfolding all by blast
    next
      case fine: False
      have run: "chain_breaks running broken (e # es) = chain_breaks ?running broken es"
        using False fine by (simp add: signed Let_def del: mult_minus_right)
      have "first_break (running (t, c)) (filter (in_wallet t c) (e # es))
          = first_break (?running (t, c)) (filter (in_wallet t c) es)" for t c
        using fine by (auto simp: own)
      then have accounts: "broken_accounts running broken (e # es) = broken_accounts ?running broken es" by (simp only: broken_accounts_def)
      show ?thesis unfolding run accounts by (rule 2(3) [OF refl False refl refl, unfolded signed, OF fine])
    qed
  qed
qed

lemma filter_account_sorted:
  "filter (in_wallet t c) (sort_key (\<lambda>e. le_team e) (sort_key (\<lambda>e. le_currency e) es)) = filter (in_wallet t c) es"
proof -
  have split: "filter (in_wallet t c) xs = filter (\<lambda>e. le_currency e = c) (filter (\<lambda>e. le_team e = t) xs)" for xs
    by (simp add: in_wallet_def conj_commute cong: filter_cong)
  have swap: "filter (\<lambda>e. le_currency e = c) (filter (\<lambda>e. le_team e = t) xs)
      = filter (\<lambda>e. le_team e = t) (filter (\<lambda>e. le_currency e = c) xs)" for xs :: "ledger_entry list"
    by (simp add: conj_commute)
  show ?thesis by (simp only: split sort_key_stable) (simp only: swap sort_key_stable)
qed

lemma chain_check_set:
  "set (check_running_balance_chain l) = {chain_break e x | t c e x. first_break 0 (filter (in_wallet t c) (entries l)) = Some (e, x)}"
  "distinct (map account_of (check_running_balance_chain l))"
  unfolding check_running_balance_chain_def
  using chain_breaks_exact [of "\<lambda>_. 0" "[]" "sort_key (\<lambda>e. le_team e) (sort_key (\<lambda>e. le_currency e) (entries l))"]
  by (simp_all add: broken_accounts_def filter_account_sorted)

lemma chain_check_exact:
  "check_running_balance_chain l = [] \<longleftrightarrow> (\<forall>t c. chained_upto 0 (filter (in_wallet t c) (entries l)))"
proof -
  have "check_running_balance_chain l = [] \<longleftrightarrow> (\<forall>t c. first_break 0 (filter (in_wallet t c) (entries l)) = None)"
    unfolding set_empty [symmetric] chain_check_set(1) by (auto simp: not_Some_eq [symmetric] simp del: not_Some_eq)
  then show ?thesis by (simp only: first_break_None)
qed

text \<open>The rows of the wallets are all of them, each under its name.\<close>

definition all_wallets :: "string list \<Rightarrow> ledger \<Rightarrow> bool" where
  "all_wallets names l \<longleftrightarrow> (\<forall>n. n \<in> set names \<longleftrightarrow> wallets l n \<noteq> None)"

definition has_wallet :: "string \<Rightarrow> string \<Rightarrow> ledger \<Rightarrow> bool" where
  "has_wallet t c l \<longleftrightarrow> (\<exists>n w. wallets l n = Some w \<and> w_team w = t \<and> w_currency w = c)"

lemma expected_sum:
  "(case map_of (ledger_sums l) (t, c) of None \<Rightarrow> 0 | Some x \<Rightarrow> x) = ledger_balance t c l"
proof (cases "(t, c) \<in> set (map (\<lambda>e. (le_team e, le_currency e)) (entries l))")
  case True
  have "map_of (map (\<lambda>(t, c). ((t, c), f t c)) ks) (t, c) = (if (t, c) \<in> set ks then Some (f t c) else None)" for f :: "string \<Rightarrow> string \<Rightarrow> money" and ks
    by (induction ks) auto
  with True show ?thesis by (simp add: ledger_sums_def)
next
  case False
  then have "filter (in_wallet t c) (entries l) = []" by (force simp: filter_empty_conv in_wallet_def)
  moreover have "map_of (ledger_sums l) (t, c) = None"
    using False by (auto simp: ledger_sums_def map_of_eq_None_iff image_iff split: prod.splits)
  ultimately show ?thesis by (simp add: ledger_balance_def sum_where_def)
qed


text \<open>What the check of the balances reports: a wallet off its entries, and a sum that no wallet holds.\<close>

definition wallet_drift :: "string \<Rightarrow> wallet \<Rightarrow> ledger \<Rightarrow> violation" where
  "wallet_drift n w l = \<lparr>vi_check = ''C2'', vi_team = Some (w_team w), vi_currency = Some (w_currency w),
     vi_doctype = Some ''Credit Wallet'', vi_subject = Some n,
     vi_expected = Some (ledger_balance (w_team w) (w_currency w) l), vi_actual = Some (w_balance w)\<rparr>"

definition orphan_sum :: "string \<Rightarrow> string \<Rightarrow> ledger \<Rightarrow> violation" where
  "orphan_sum t c l = \<lparr>vi_check = ''C2'', vi_team = Some t, vi_currency = Some c,
     vi_doctype = Some ''Credit Ledger Entry'', vi_subject = None,
     vi_expected = Some (ledger_balance t c l), vi_actual = Some 0\<rparr>"

definition wallet_rows :: "string list \<Rightarrow> ledger \<Rightarrow> (string \<times> wallet) list" where
  "wallet_rows names l = List.map_filter (\<lambda>n. map_option (Pair n) (wallets l n)) names"

lemma wallet_rows_Cons: "wallet_rows (n # names) l = (case wallets l n of None \<Rightarrow> [] | Some w \<Rightarrow> [(n, w)]) @ wallet_rows names l"
  by (simp add: wallet_rows_def split: option.split)

lemma wallet_rows_set: "all_wallets names l \<Longrightarrow> (n, w) \<in> set (wallet_rows names l) \<longleftrightarrow> wallets l n = Some w"
proof -
  assume "all_wallets names l"
  moreover have "(n, w) \<in> set (wallet_rows ns l) \<longleftrightarrow> n \<in> set ns \<and> wallets l n = Some w" for ns
    by (induction ns) (auto simp: wallet_rows_Cons wallet_rows_def split: option.splits)
  ultimately show ?thesis by (auto simp: all_wallets_def)
qed

lemma wallet_rows_distinct: "distinct names \<Longrightarrow> distinct (map fst (wallet_rows names l))"
proof -
  have "fst ` set (wallet_rows ns l) \<subseteq> set ns" for ns
    by (induction ns) (auto simp: wallet_rows_Cons wallet_rows_def split: option.splits)
  then show "distinct names \<Longrightarrow> distinct (map fst (wallet_rows names l))"
    by (induction names) (auto simp: wallet_rows_Cons split: option.splits, simp add: wallet_rows_def)
qed

text \<open>The two halves of the report.\<close>

lemma wallet_check_split:
  assumes "all_wallets names l"
  shows "check_wallet_matches_ledger names l =
      map (\<lambda>(n, w). wallet_drift n w l)
        (filter (\<lambda>(n, w). differs (w_balance w) (ledger_balance (w_team w) (w_currency w) l)) (wallet_rows names l))
    @ map (\<lambda>(t, c). orphan_sum t c l)
        (filter (\<lambda>(t, c). \<not> has_wallet t c l \<and> differs (ledger_balance t c l) 0)
          (remdups (map (\<lambda>e. (le_team e, le_currency e)) (entries l))))"
proof -
  let ?keys = "remdups (map (\<lambda>e. (le_team e, le_currency e)) (entries l))"
  have seen: "(t, c) \<in> set (map (\<lambda>(n, w). (w_team w, w_currency w)) (wallet_rows names l)) \<longleftrightarrow> has_wallet t c l" for t c
  proof -
    have "(t, c) \<in> set (map (\<lambda>(n, w). (w_team w, w_currency w)) (wallet_rows names l))
        \<longleftrightarrow> (\<exists>n w. (n, w) \<in> set (wallet_rows names l) \<and> w_team w = t \<and> w_currency w = c)" by (auto simp: image_iff Bex_def)
    then show ?thesis by (simp only: wallet_rows_set [OF assms] has_wallet_def)
  qed
  have sums: "filter (\<lambda>(key, balance). key \<notin> set (map (\<lambda>(n, w). (w_team w, w_currency w)) (wallet_rows names l)) \<and> \<bar>balance\<bar> > TOLERANCE) (ledger_sums l)
      = map (\<lambda>(t, c). ((t, c), ledger_balance t c l))
          (filter (\<lambda>(t, c). \<not> has_wallet t c l \<and> differs (ledger_balance t c l) 0) ?keys)"
    unfolding ledger_sums_def filter_map
    by (intro arg_cong [of _ _ "map _"] filter_cong refl) (use seen in \<open>auto simp: comp_def differs_def simp del: set_map\<close>)
  show ?thesis
    unfolding check_wallet_matches_ledger_def Let_def wallet_rows_def [symmetric] sums
    by (simp add: expected_sum wallet_drift_def orphan_sum_def split_beta comp_def)
qed

lemma wallet_check_set:
  assumes "all_wallets names l"
  shows "set (check_wallet_matches_ledger names l)
    = {wallet_drift n w l | n w. wallets l n = Some w \<and> differs (w_balance w) (ledger_balance (w_team w) (w_currency w) l)}
      \<union> {orphan_sum t c l | t c. \<not> has_wallet t c l \<and> differs (ledger_balance t c l) 0}"
proof -
  have booked: "(t, c) \<in> (\<lambda>e. (le_team e, le_currency e)) ` set (entries l)" if "differs (ledger_balance t c l) 0" for t c
  proof (rule ccontr)
    assume "\<not> ?thesis"
    then have "filter (in_wallet t c) (entries l) = []" by (force simp: filter_empty_conv in_wallet_def)
    then have "ledger_balance t c l = 0" by (simp add: ledger_balance_def sum_where_def)
    with that show False by simp
  qed
  have "set (map (\<lambda>(n, w). wallet_drift n w l)
      (filter (\<lambda>(n, w). differs (w_balance w) (ledger_balance (w_team w) (w_currency w) l)) (wallet_rows names l)))
    = {wallet_drift n w l | n w. wallets l n = Some w \<and> differs (w_balance w) (ledger_balance (w_team w) (w_currency w) l)}"
    using wallet_rows_set [OF assms] by (auto simp: image_iff Bex_def)
  moreover have "set (map (\<lambda>(t, c). orphan_sum t c l)
      (filter (\<lambda>(t, c). \<not> has_wallet t c l \<and> differs (ledger_balance t c l) 0)
        (remdups (map (\<lambda>e. (le_team e, le_currency e)) (entries l)))))
    = {orphan_sum t c l | t c. \<not> has_wallet t c l \<and> differs (ledger_balance t c l) 0}"
  proof (intro set_eqI iffI)
    fix v assume "v \<in> {orphan_sum t c l | t c. \<not> has_wallet t c l \<and> differs (ledger_balance t c l) 0}"
    then obtain t c where v: "v = orphan_sum t c l" "\<not> has_wallet t c l" "differs (ledger_balance t c l) 0" by blast
    from v(1,2,3) booked [OF v(3)] show "v \<in> set (map (\<lambda>(t, c). orphan_sum t c l)
      (filter (\<lambda>(t, c). \<not> has_wallet t c l \<and> differs (ledger_balance t c l) 0)
        (remdups (map (\<lambda>e. (le_team e, le_currency e)) (entries l)))))" by force
  qed auto
  ultimately show ?thesis unfolding wallet_check_split [OF assms] set_append by simp
qed

lemma wallet_check_distinct:
  assumes "all_wallets names l" "distinct names"
  shows "distinct (check_wallet_matches_ledger names l)"
proof -
  have "inj_on (\<lambda>(n, w). wallet_drift n w l) (set (wallet_rows names l))"
    using wallet_rows_set [OF assms(1)] by (auto simp: inj_on_def wallet_drift_def)
  moreover have "distinct (wallet_rows names l)"
    using wallet_rows_distinct [OF assms(2), of l] by (simp add: distinct_map)
  ultimately have "distinct (map (\<lambda>(n, w). wallet_drift n w l)
      (filter (\<lambda>(n, w). differs (w_balance w) (ledger_balance (w_team w) (w_currency w) l)) (wallet_rows names l)))"
    by (auto simp: distinct_map intro: inj_on_subset)
  moreover have "distinct (map (\<lambda>(t, c). orphan_sum t c l)
      (filter (\<lambda>(t, c). \<not> has_wallet t c l \<and> differs (ledger_balance t c l) 0)
        (remdups (map (\<lambda>e. (le_team e, le_currency e)) (entries l)))))"
    by (simp add: distinct_map) (auto simp: inj_on_def orphan_sum_def)
  moreover have "wallet_drift n w l \<noteq> orphan_sum t c l" for n w t c by (simp add: wallet_drift_def orphan_sum_def)
  ultimately show ?thesis unfolding wallet_check_split [OF assms(1)] by auto
qed

lemma wallet_check_Nil:
  assumes "all_wallets names l"
  shows "check_wallet_matches_ledger names l = [] \<longleftrightarrow>
     (\<forall>n w. wallets l n = Some w \<longrightarrow> \<not> differs (w_balance w) (ledger_balance (w_team w) (w_currency w) l))
     \<and> (\<forall>t c. \<not> has_wallet t c l \<longrightarrow> \<not> differs (ledger_balance t c l) 0)"
  unfolding set_empty [symmetric] wallet_check_set [OF assms] by blast

section \<open>Properties of the ledger's checks\<close>

text \<open>
  Property C35: the two checks of the ledger report exactly the drift there is, up to a cent. C2
  reports each wallet whose balance is not the sum of its account's entries, by its name, with that sum
  as expected and the balance as actual, and each account without a wallet whose entries have a sum,
  with that sum; nothing else, and nothing twice. C4 reports, once for each account whose chain
  breaks, the first entry whose running balance is not the sum of the account's entries up to it, with
  that sum as expected and the running balance as actual; nothing else.
\<close>

theorem ledger_audit_exact:
  assumes "all_wallets names l" "distinct names"
  shows "set (check_wallet_matches_ledger names l)
      = {wallet_drift n w l | n w. wallets l n = Some w \<and> differs (w_balance w) (ledger_balance (w_team w) (w_currency w) l)}
        \<union> {orphan_sum t c l | t c. \<not> has_wallet t c l \<and> differs (ledger_balance t c l) 0}
    \<and> distinct (check_wallet_matches_ledger names l)
    \<and> set (check_running_balance_chain l)
      = {chain_break e x | t c xs e ys x. filter (in_wallet t c) (entries l) = xs @ e # ys \<and> chained_upto 0 xs
           \<and> x = sum_list (map (\<lambda>e. signed_amount (le_booking e)) (xs @ [e])) \<and> differs (le_running e) x}
    \<and> distinct (map account_of (check_running_balance_chain l))"
proof -
  have "set (check_running_balance_chain l)
      = {chain_break e x | t c xs e ys x. filter (in_wallet t c) (entries l) = xs @ e # ys \<and> chained_upto 0 xs
           \<and> x = sum_list (map (\<lambda>e. signed_amount (le_booking e)) (xs @ [e])) \<and> differs (le_running e) x}"
    unfolding chain_check_set(1) first_break_Some breaks_at_def add_0 by blast
  with wallet_check_set [OF assms(1)] wallet_check_distinct [OF assms] chain_check_set(2) show ?thesis by blast
qed

lemma sound_ledger_clean:
  assumes ok: "ledger_ok l" and all: "all_wallets names l"
  shows "check_wallet_matches_ledger names l = []" "check_running_balance_chain l = []"
proof -
  have "ledger_balance t c l = 0" if none: "\<not> has_wallet t c l" for t c
  proof -
    have "\<not> in_wallet t c e" if e: "e \<in> set (entries l)" for e
    proof
      assume own: "in_wallet t c e"
      from ok e obtain w where w: "wallets l (wallet_name (le_team e) (le_currency e)) = Some w" "valid_currency (le_currency e)"
        unfolding ledger_ok_def entry_ok_def by blast
      with ledger_ok_wallet [OF ok w(1)] have "le_team e = w_team w \<and> le_currency e = w_currency w"
        unfolding wallet_ok_def by (intro wallet_name_inj) auto
      with own w(1) none show False by (auto simp: has_wallet_def in_wallet_def)
    qed
    then have "filter (in_wallet t c) (entries l) = []" by (simp add: filter_empty_conv)
    then show ?thesis by (simp add: ledger_balance_def sum_where_def)
  qed
  moreover have "w_balance w = ledger_balance (w_team w) (w_currency w) l" if "wallets l n = Some w" for n w
    using ledger_ok_wallet [OF ok that] by (simp add: wallet_ok_def)
  ultimately show "check_wallet_matches_ledger names l = []" by (simp add: wallet_check_Nil [OF all])
  show "check_running_balance_chain l = []"
    using ok by (simp add: chain_check_exact chained_is_upto ledger_ok_def)
qed

text \<open>
  Property C36: the audit never cries wolf over the ledger: whatever bookings, locks and expiry sweeps have run, in
  any order and with any deadlocks, neither the check of the balances nor the check of the chain reports
  anything.
\<close>

theorem reachable_ledger_audits_clean:
  assumes "ledger_step\<^sup>*\<^sup>* empty_ledger l" "all_wallets names l"
  shows "check_wallet_matches_ledger names l = [] \<and> check_running_balance_chain l = []"
proof -
  from assms(1) have "ledger_ok l"
    by (induction rule: rtranclp_induct) (auto intro: empty_ledger_ok ledger_step_ok)
  from sound_ledger_clean [OF this assms(2)] show ?thesis by blast
qed

section \<open>Tampering\<close>

lemma chained_append:
  "chained r (xs @ ys) \<longleftrightarrow> chained r xs \<and> chained (r + sum_list (map (\<lambda>e. signed_amount (le_booking e)) xs)) ys"
proof (induction xs arbitrary: r)
  case (Cons x xs)
  then show ?case by (cases "le_running x = r + signed_amount (le_booking x)") (simp_all add: add.assoc)
qed simp

lemma chained_upto_append:
  "chained_upto r (xs @ ys) \<longleftrightarrow> chained_upto r xs \<and> chained_upto (r + sum_list (map (\<lambda>e. signed_amount (le_booking e)) xs)) ys"
  by (induction xs arbitrary: r) (auto simp: add.assoc)

text \<open>
  Property C37: an entry that vanishes from under a later entry of its account is seen: the check of the chain
  reports the account, whatever is done to the wallet's balance.
\<close>

theorem deleted_entry_reported:
  assumes ok: "ledger_ok l" and es: "entries l = xs @ a # ys" and big: "le_amount a > TOLERANCE"
    and later: "b \<in> set ys" "in_wallet (le_team a) (le_currency a) b"
  shows "check_running_balance_chain (l\<lparr>entries := xs @ ys, wallets := ws\<rparr>) \<noteq> []"
proof -
  let ?own = "in_wallet (le_team a) (le_currency a)" and ?s = "\<lambda>e. signed_amount (le_booking e)"
  let ?us = "filter ?own xs"
  obtain v vs where v: "filter ?own ys = v # vs" using later by (cases "filter ?own ys") (auto simp: filter_empty_conv)
  have "filter ?own (entries l) = ?us @ a # v # vs" using v by (simp add: es in_wallet_def)
  then have "chained 0 (?us @ a # v # vs)" using ok by (simp add: ledger_ok_def) metis
  then have run: "le_running v = sum_list (map ?s ?us) + ?s a + ?s v" by (simp add: chained_append)
  have "\<bar>?s a\<bar> > TOLERANCE" using big by (simp add: signed_amount_def)
  then have "\<not> chained_upto 0 (?us @ v # vs)" by (simp add: chained_upto_append run differs_def)
  then have "\<not> chained_upto 0 (filter ?own (xs @ ys))" by (simp add: v)
  then show ?thesis by (auto simp: chain_check_exact)
qed

text \<open>
  What the audit misses: a credit and the debit of the same amount that follows it in its account (or
  the other way round) can both be deleted, and neither check reports anything.
\<close>

theorem deleted_pair_escapes:
  assumes ok: "ledger_ok l" and all: "all_wallets names l" and es: "entries l = xs @ a # ys @ b # zs"
    and pair: "in_wallet (le_team a) (le_currency a) b" "signed_amount (le_booking a) + signed_amount (le_booking b) = 0"
    and adjacent: "\<And>y. y \<in> set ys \<Longrightarrow> \<not> in_wallet (le_team a) (le_currency a) y"
  shows "check_running_balance_chain (l\<lparr>entries := xs @ ys @ zs\<rparr>) = []
    \<and> check_wallet_matches_ledger names (l\<lparr>entries := xs @ ys @ zs\<rparr>) = []"
proof -
  let ?l = "l\<lparr>entries := xs @ ys @ zs\<rparr>" and ?s = "\<lambda>e. signed_amount (le_booking e)"
  have same: "ledger_balance t c ?l = ledger_balance t c l" for t c
  proof -
    have "in_wallet t c b \<longleftrightarrow> in_wallet t c a" using pair(1) by (auto simp: in_wallet_def)
    moreover have "signed_amount (le_booking b) = - signed_amount (le_booking a)" using pair(2) by linarith
    ultimately show ?thesis by (simp add: ledger_balance_def es)
  qed
  have "chained 0 (filter (in_wallet t c) (xs @ ys @ zs))" for t c
  proof -
    have whole: "chained 0 (filter (in_wallet t c) (entries l))" using ok by (simp add: ledger_ok_def)
    show ?thesis
    proof (cases "t = le_team a \<and> c = le_currency a")
      case True
      let ?us = "filter (in_wallet t c) xs" and ?vs = "filter (in_wallet t c) zs"
      have none: "filter (in_wallet t c) ys = []" using True adjacent by (auto simp: filter_empty_conv)
      have "in_wallet t c a" "in_wallet t c b" using True pair(1) by (simp_all add: in_wallet_def)
      then have "filter (in_wallet t c) (entries l) = ?us @ a # b # ?vs" by (simp add: es none)
      with whole have chain: "chained 0 (?us @ a # b # ?vs)" by simp
      then have parts: "chained 0 ?us" "chained (le_running b) ?vs" "le_running a = sum_list (map ?s ?us) + ?s a"
          "le_running b = le_running a + ?s b"
        unfolding chained_append chained.simps add_0 by blast+
      from parts(3,4) pair(2) have "le_running b = 0 + sum_list (map ?s ?us)" by linarith
      with parts(1,2) have "chained 0 (?us @ ?vs)" by (simp only: chained_append)
      then show ?thesis by (simp add: none)
    next
      case False
      then have "\<not> in_wallet t c a" "\<not> in_wallet t c b" using pair(1) by (auto simp: in_wallet_def)
      then have "filter (in_wallet t c) (entries l) = filter (in_wallet t c) (xs @ ys @ zs)" by (simp add: es)
      with whole show ?thesis by simp
    qed
  qed
  then have "check_running_balance_chain ?l = []" by (simp add: chain_check_exact chained_is_upto)
  moreover have "check_wallet_matches_ledger names ?l = []"
    using sound_ledger_clean(1) [OF ok all] all
    by (simp add: wallet_check_Nil all_wallets_def has_wallet_def same)
  ultimately show ?thesis by blast
qed


section \<open>The invoices\<close>

lemma period_check_exact:
  "check_one_live_invoice_per_period ivs = [] \<longleftrightarrow> (\<forall>team ps pe. length (filter (is_live_for team ps pe) ivs) \<le> 1)"
proof -
  have "(team, ps, pe) \<in> set (live_periods ivs)" if "bills_of ivs team ps pe > 1" for team ps pe
  proof -
    from that have "filter (is_live_for team ps pe) ivs \<noteq> []" by (auto simp: bills_of_def)
    then show ?thesis by (force simp: live_periods_def filter_empty_conv is_live_for_def)
  qed
  moreover have "check_one_live_invoice_per_period ivs = [] \<longleftrightarrow> (\<forall>(team, ps, pe) \<in> set (live_periods ivs). \<not> bills_of ivs team ps pe > 1)"
    by (auto simp add: check_one_live_invoice_per_period_def filter_empty_conv)
  ultimately have "check_one_live_invoice_per_period ivs = [] \<longleftrightarrow> (\<forall>team ps pe. \<not> bills_of ivs team ps pe > 1)" by blast
  then show ?thesis by (simp add: bills_of_def not_less)
qed

lemma line_sum_exact:
  "check_invoice_line_sum b = [] \<longleftrightarrow>
     (\<forall>iv \<in> set (bk_invoices b). inv_status iv \<noteq> ''Cancelled'' \<longrightarrow> \<not> differs (inv_subtotal iv) (line_total b (inv_name iv)))"
  by (auto simp add: check_invoice_line_sum_def filter_empty_conv)

lemma line_total_append:
  "bk_lines b' = bk_lines b @ rows \<Longrightarrow> line_total b' n
     = line_total b n + sum_list (map (\<lambda>(_, ls). sum_list (map bl_amount ls)) (filter (\<lambda>(m, _). m = n) rows))"
  by (simp add: line_total_def)

lemma line_total_none: "n \<notin> fst ` set (bk_lines b) \<Longrightarrow> line_total b n = 0"
proof -
  assume "n \<notin> fst ` set (bk_lines b)"
  then have "filter (\<lambda>(m, _). m = n) (bk_lines b) = []" by (force simp: filter_empty_conv)
  then show ?thesis by (simp add: line_total_def)
qed

lemma rated_subtotal:
  assumes r2: "cents_rounding (ge_r2 env)" and rate: "rate_team_period env b team ps pe = Inr (Some r)"
  shows "inv_subtotal (rt_invoice r) = sum_list (map bl_amount (rt_lines r))"
proof -
  obtain ms where ms: "metered_lines (ge_r2 env) (ge_sub env) team (team_clusters b team) ps pe (bk_rollups b) = Inr ms"
    and rate: "rate env b team (map (untagged \<circ> Bundle) (fixed_lines env b team ps pe) @ map (untagged \<circ> Usage) ms) ps pe = Inr r"
    by (rule rate_team_period_Some [OF rate])
  have "\<forall>l \<in> set (map (untagged \<circ> Bundle) (fixed_lines env b team ps pe) @ map (untagged \<circ> Usage) ms). is_cents (bl_amount l)"
    using team_line_cents [OF r2] metered_line_cents [OF r2 ms] by (auto simp: untagged_def fixed_lines_def)
  from rate_adds_up [OF r2 rate this] show ?thesis by blast
qed

text \<open>
  Property C38: drafting leaves the audit of the invoices silent. After any history of drafts by any number of
  workers, with invoices saved and cancelled in between, no period shows two live invoices; and a
  draft adds an invoice whose subtotal is the sum of its own lines and disturbs the lines of no other.
\<close>

theorem drafting_audits_clean:
  assumes h: "billed_history (b # h)" and r2: "cents_rounding (ge_r2 env)"
    and owned: "fst ` set (bk_lines b) \<subseteq> inv_name ` set (bk_invoices b)" and clean: "check_invoice_line_sum b = []"
    and run: "generate_once env seen team ps pe b = Inr (res, b')"
  shows "check_one_live_invoice_per_period (bk_invoices b) = [] \<and> check_one_live_invoice_per_period (bk_invoices b') = []
    \<and> check_invoice_line_sum b' = [] \<and> fst ` set (bk_lines b') \<subseteq> inv_name ` set (bk_invoices b')"
proof -
  have keyed: "keyed (bk_invoices b)" using billed_history_keyed [OF h] by simp
  have "check_one_live_invoice_per_period (bk_invoices b) = []" "check_one_live_invoice_per_period (bk_invoices b') = []"
    using keyed_one_live [OF keyed] keyed_one_live [OF keyed_generate [OF keyed run]] by (auto simp: period_check_exact)
  moreover from run have "check_invoice_line_sum b' = [] \<and> fst ` set (bk_lines b') \<subseteq> inv_name ` set (bk_invoices b')"
  proof (cases rule: generate_once_cases)
    case (billed r n b1 b2)
    have same: "bk_invoices b' = bk_invoices b1" "bk_lines b' = bk_lines b1"
      using breach_frame [OF billed(5)] by (simp_all add: billed(7))
    from billed(4) show ?thesis
    proof (cases rule: insert_invoice_cases)
      case yields
      then show ?thesis using clean owned same by (simp add: line_sum_exact line_total_def)
    next
      case (adds iv)
      have new: "inv_name iv = n" "inv_subtotal iv = sum_list (map bl_amount (rt_lines r))"
        using rated_subtotal [OF r2 billed(2)] by (simp_all add: adds(1) set_period_key_def)
      have fresh: "n \<notin> inv_name ` set (bk_invoices b)" using adds(2) new(1) by (auto simp: breaks_unique_def)
      have total: "line_total b' m = line_total b m + (if m = n then sum_list (map bl_amount (rt_lines r)) else 0)" for m
        using line_total_append [of b' b "[(n, rt_lines r)]" m] same adds(4) by simp
      have "line_total b n = 0" using fresh owned by (intro line_total_none) blast
      then have "\<not> differs (inv_subtotal iv) (line_total b' (inv_name iv))" by (simp add: total new)
      moreover have "\<not> differs (inv_subtotal x) (line_total b' (inv_name x))"
        if "x \<in> set (bk_invoices b)" "inv_status x \<noteq> ''Cancelled''" for x
        using that clean fresh by (auto simp: total line_sum_exact)
      ultimately have "check_invoice_line_sum b' = []" by (auto simp: line_sum_exact same adds(3))
      then show ?thesis using owned by (auto simp: same adds(3,4) new)
    qed
  qed (use clean owned in \<open>auto simp: line_sum_exact line_total_def\<close>)
  ultimately show ?thesis by blast
qed

text \<open>
  Property C39: no capture leaves a Paid invoice uncovered: of an invoice whose credit, prepaid GST and expected
  collection cover what is owed, every outcome of a capture passes the audit: the late ones, the short
  ones, those above what was due, and the exact ones.
\<close>

theorem settling_audits_clean:
  assumes iv: "find_invoice w (at_invoice a) = Some iv" "is_cents (inv_expected_collection iv)"
    and covers: "owed_by iv \<le> inv_credit_applied iv + inv_advance_tax_applied iv + inv_expected_collection iv"
    and r2: "cents_rounding (pe_r2 env)" "is_cents amount" and clean: "check_paid_invoice_is_covered (pw_invoices w) = []"
    and run: "mark_invoice_paid env a amount currency pid key w = Inr (settled, w')"
  shows "check_paid_invoice_is_covered (pw_invoices w') = []"
  using run
proof (cases rule: mark_paid_cases)
  case (late iv' v r)
  from late(4) have "pw_invoices v = pw_invoices w"
    using issue_refund_moves by blast
  with late(5) clean show ?thesis by simp
next
  case (wallet iv' why)
  with clean to_wallet_frame [OF wallet(5)] show ?thesis by simp
next
  case (settle iv' surplus w1)
  with iv have [simp]: "iv' = iv" by simp
  have invs: "pw_invoices w1 = pw_invoices w" using settle(6) to_wallet_frame by (auto split: if_splits)
  let ?paid = "amount - max surplus 0"
  obtain evs where "pw_invoices w' = map (\<lambda>x. if inv_name x = inv_name iv
      then iv\<lparr>inv_amount_paid := ?paid, inv_paid_at := Some (pe_now env), inv_status := ''Paid''\<rparr> else x) (pw_invoices w)"
    using settle(7) invs
    by (auto simp: pay_off_def bindE_Inr Let_def put_invoice_def notify_def dest!: invoice_transition_cases)
  moreover have "inv_expected_collection iv \<le> ?paid + TOLERANCE"
  proof -
    have "is_cents (amount - inv_expected_collection iv)" by (rule is_cents_diff [OF r2(2) iv(2)])
    then have "surplus = amount - inv_expected_collection iv" using settle(5) r2(1) by (simp add: cents_rounding_id)
    then show ?thesis
      using settle(4) by (auto simp: unsettled_reason_def TOLERANCE_def max_def split: if_splits)
  qed
  ultimately show ?thesis
    using clean covers by (auto simp: check_paid_invoice_is_covered_def filter_empty_conv owed_by_def settled_for_def)
qed


section \<open>Examples\<close>

text \<open>The example ledger with 50 rupees put on its wallet by hand.\<close>

definition inflated_ledger :: ledger where
  "inflated_ledger = example_ledger\<lparr>wallets := [wallet_name ''t1'' ''INR'' \<mapsto>
     \<lparr>w_team = ''t1'', w_currency = ''INR'', w_balance = 600, w_last_entry = Some 2\<rparr>]\<rparr>"

lemma example_names: "all_wallets [''t1-INR''] example_ledger" "all_wallets [''t1-INR''] inflated_ledger"
  by (simp_all add: all_wallets_def example_ledger_def inflated_ledger_def wallet_name_def)

theorem ledger_audit_exact_witness:
  "\<lparr>vi_check = ''C2'', vi_team = Some ''t1'', vi_currency = Some ''INR'', vi_doctype = Some ''Credit Wallet'',
     vi_subject = Some ''t1-INR'', vi_expected = Some 550, vi_actual = Some 600\<rparr>
   \<in> set (check_wallet_matches_ledger [''t1-INR''] inflated_ledger)"
proof -
  let ?w = "\<lparr>w_team = ''t1'', w_currency = ''INR'', w_balance = 600, w_last_entry = Some 2\<rparr>"
  have w: "wallets inflated_ledger ''t1-INR'' = Some ?w" by (simp add: inflated_ledger_def wallet_name_def)
  have sum: "ledger_balance ''t1'' ''INR'' inflated_ledger = 550" by code_simp
  have "differs (w_balance ?w) (ledger_balance (w_team ?w) (w_currency ?w) inflated_ledger)"
    by (simp add: sum differs_def TOLERANCE_def)
  with w have "wallet_drift ''t1-INR'' ?w inflated_ledger \<in> set (check_wallet_matches_ledger [''t1-INR''] inflated_ledger)"
    using ledger_audit_exact [OF example_names(2)] by (simp only: distinct_singleton simp_thms) blast
  then show ?thesis by (simp add: wallet_drift_def sum)
qed

theorem deleted_entry_reported_witness:
  "check_running_balance_chain (example_ledger\<lparr>entries := [example_top_up, example_draw], wallets := wallets example_ledger\<rparr>) \<noteq> []"
proof -
  have "entries example_ledger = [] @ example_grant # [example_top_up, example_draw]" by (simp add: example_ledger_def)
  from deleted_entry_reported [OF example_ledger_ok this, of example_draw "wallets example_ledger"] show ?thesis
    by (simp add: TOLERANCE_def in_wallet_def) (simp add: example_ledger_simps)
qed

text \<open>A grant of 100, spent on an invoice, and a top-up of 500.\<close>

definition spent_grant :: ledger_entry where
  "spent_grant = \<lparr>le_name = 1, le_booking = plain_booking ''t1'' ''Debit'' 100 ''INR'' (Some ''Invoice'') (Some ''INV-1'') None,
     le_running = 0, le_created_at = 1\<rparr>"

definition later_top_up :: ledger_entry where
  "later_top_up = example_top_up\<lparr>le_name := 2, le_running := 500\<rparr>"

definition spent_ledger :: ledger where
  "spent_ledger = \<lparr>wallets = [wallet_name ''t1'' ''INR'' \<mapsto>
       \<lparr>w_team = ''t1'', w_currency = ''INR'', w_balance = 500, w_last_entry = Some 2\<rparr>],
     entries = [example_grant, spent_grant, later_top_up]\<rparr>"

lemmas spent_simps = spent_ledger_def spent_grant_def later_top_up_def example_ledger_simps

lemma spent_ledger_ok: "ledger_ok spent_ledger"
proof -
  have "\<forall>e \<in> set (entries spent_ledger). entry_ok spent_ledger e"
    by (simp add: entry_ok_def spent_simps valid_currency_def)
  moreover have "wallet_ok spent_ledger n w" if "wallets spent_ledger n = Some w" for n w
    using that by (auto simp: spent_simps wallet_ok_def valid_currency_def ledger_balance_def
        in_wallet_def signed_amount_def entry_named_def split: if_splits)
  moreover have "chained 0 (filter (in_wallet t c) (entries spent_ledger))" for t c
    by (simp add: spent_simps signed_amount_def in_wallet_def)
  ultimately show ?thesis
    by (simp add: ledger_ok_def unique_ids_def) (simp add: spent_simps upt_rec)
qed

theorem deleted_pair_escapes_witness:
  "check_running_balance_chain (spent_ledger\<lparr>entries := [later_top_up]\<rparr>) = []
    \<and> check_wallet_matches_ledger [''t1-INR''] (spent_ledger\<lparr>entries := [later_top_up]\<rparr>) = []"
proof -
  have "all_wallets [''t1-INR''] spent_ledger" by (simp add: all_wallets_def spent_ledger_def wallet_name_def)
  moreover have "entries spent_ledger = [] @ example_grant # [] @ spent_grant # [later_top_up]" by (simp add: spent_ledger_def)
  ultimately show ?thesis
    using deleted_pair_escapes [OF spent_ledger_ok, of "[''t1-INR'']" "[]" example_grant "[]" spent_grant "[later_top_up]"]
    by (simp add: in_wallet_def) (simp add: spent_simps signed_amount_def)
qed

text \<open>A first grant of 100 rupees.\<close>

definition first_grant :: booking where
  "first_grant = plain_booking ''t1'' ''Credit'' 100 ''INR'' None None None"

theorem reachable_ledger_audits_clean_witness:
  "\<exists>l. ledger_step empty_ledger l \<and> length (entries l) = 1
    \<and> check_wallet_matches_ledger [''t1-INR''] l = [] \<and> check_running_balance_chain l = []"
proof -
  have resolved: "resolved (\<lambda>_. ''INR'') first_grant = first_grant"
    by (rule resolved_id) (simp add: first_grant_def plain_booking_def)
  let ?l = "ensure_wallet ''t1'' ''INR'' empty_ledger"
  have fields: "bk_team first_grant = ''t1''" "bk_currency first_grant = ''INR''" "bk_payment_id first_grant = None"
    "signed_amount first_grant = 100" "\<not> breaks_unique_key ?l first_grant" "bk_amount first_grant > 0"
    by (simp_all add: first_grant_def plain_booking_def signed_amount_def breaks_unique_key_def empty_ledger_def)
  have funds: "0 \<le> 0 + signed_amount first_grant" by (simp add: fields)
  obtain e l where post: "post_entry 0 first_grant 0 ?l = Inr ((e, 0 + signed_amount first_grant), l)" and es: "entries l = entries ?l @ [e]"
    by (rule post_entry_runs [OF funds fields(5), of 0])
  have "lock_and_read_balance ''t1'' ''INR'' ?l = Inr 0" by code_simp
  then have run: "book_entry (\<lambda>_. ''INR'') 0 [] False first_grant empty_ledger = Inr ((e, 0 + signed_amount first_grant), l)"
    using post by (simp add: book_entry_plain [OF fields(6)] resolved book_entry_once_def fields payment_entry_def)
  have l: "length (entries l) = 1" "all_wallets [''t1-INR''] l"
    using post_entry_Inr(6) [OF post] es
    by (simp_all add: fields all_wallets_def ensure_wallet_def empty_ledger_def wallet_name_def)
  have "booking_ok (resolved (\<lambda>_. ''INR'') first_grant)"
    unfolding resolved by (simp add: booking_ok_def first_grant_def plain_booking_def valid_currency_def)
  from ledger_step.booked [OF run _ this] have step: "ledger_step empty_ledger l" by simp
  from reachable_ledger_audits_clean [OF r_into_rtranclp [of ledger_step, OF step] l(2)] step l(1) show ?thesis by blast
qed

theorem drafting_audits_clean_witness:
  "\<exists>b. generate_once june_env june_books ''t1'' 739768 739797 june_books = Inr (Some ''INV-2026-06-00001'', b)
    \<and> check_invoice_line_sum b = [] \<and> check_one_live_invoice_per_period (bk_invoices b) = []"
proof -
  from june_drafted obtain b where b: "generate_once june_env june_books ''t1'' 739768 739797 june_books
      = Inr (Some ''INV-2026-06-00001'', b)" by blast
  have h: "billed_history [june_books]" by (rule begun) (simp add: keyed_def june_books_simps)
  have r2: "cents_rounding (ge_r2 june_env)" by (simp add: june_books_simps half_up_rounding)
  have rows: "fst ` set (bk_lines june_books) \<subseteq> inv_name ` set (bk_invoices june_books)" "check_invoice_line_sum june_books = []"
    by (simp_all add: june_books_simps line_sum_exact) (simp add: june_books_def)
  from drafting_audits_clean [OF h r2 rows b] b show ?thesis by blast
qed

theorem settling_audits_clean_witness:
  "\<exists>w'. mark_invoice_paid (pay_env_with (Inr approved)) (new_attempt (pay_env_with (Inr approved)) due_invoice ''Stripe'' None due_world)
       1180 ''INR'' (Some ''pay_1'') (Some ''Stripe'') due_world = Inr (True, w')
     \<and> check_paid_invoice_is_covered (pw_invoices w') = []"
proof -
  let ?env = "pay_env_with (Inr approved)" and ?a = "new_attempt (pay_env_with (Inr approved)) due_invoice ''Stripe'' None due_world"
  have inv: "at_invoice ?a = ''INV-1''" by (simp add: new_attempt_def)
  from example_settled [OF inv due_world_reads(1), of "Inr approved"]
  obtain w' where run: "mark_invoice_paid ?env ?a 1180 ''INR'' (Some ''pay_1'') (Some ''Stripe'') due_world = Inr (True, w')" ..
  have covers: "owed_by due_invoice \<le> inv_credit_applied due_invoice + inv_advance_tax_applied due_invoice + inv_expected_collection due_invoice"
    by code_simp
  have r2: "cents_rounding (pe_r2 ?env)" by (simp add: pay_env_with_def half_up_rounding)
  have clean: "check_paid_invoice_is_covered (pw_invoices due_world) = []" by (simp add: check_paid_invoice_is_covered_def)
  from settling_audits_clean [OF _ _ covers r2 _ clean run] run show ?thesis by (simp add: inv)
qed

end
