(* ===== verification/Dunning_Run.thy ===== *)
theory Dunning_Run
  imports Dunning_Ladder Collection Lifecycle Generation
begin

text \<open>
  Running the dunning ladder (\<open>revenue/dunning.py\<close>, the part that writes): the ladder of a stored invoice
  with its charges, one invoice through the stages it has reached, the hourly single retry and the daily
  run. An item of a job returns the books it leaves when it raises: what it had committed. A run of the
  rotation that never ends is None, as in \<open>Collection\<close>.
\<close>

section \<open>The ladder of a stored invoice\<close>

text \<open>\<open>payment_attempt.get_charge_outcomes\<close>, one row; None is an invoice without an attempt.\<close>

definition least :: "datetime list \<Rightarrow> datetime option" where
  "least ts = (if ts = [] then None else Some (Min (set ts)))"

definition get_charge_outcomes :: "world \<Rightarrow> string \<Rightarrow> charge_outcome option" where
  "get_charge_outcomes w invoice =
     (let as = attempts_for invoice w in
      if as = [] then None
      else Some \<lparr>oc_first_failed_at = least (map (\<lambda>a. case at_completed_at a of Some t \<Rightarrow> t | None \<Rightarrow> at_creation a)
                   (filter (\<lambda>a. at_status a = ''Failed'') as)),
                 oc_in_flight_since = least (map at_creation (filter is_in_flight as))\<rparr>)"

definition is_chargeable_before_any_charge :: "pay_env \<Rightarrow> world \<Rightarrow> invoice \<Rightarrow> window \<Rightarrow> bool" where
  "is_chargeable_before_any_charge env w iv dates \<longleftrightarrow>
     get_charge_outcomes w (inv_name iv) = None \<and> inv_status iv = ''Outstanding''
     \<and> get_interval_retry_dates dates (dunning_retry_interval_days (pe_settings env)) = []
     \<and> inv_team iv \<in> set (get_teams_with_retry_rail [inv_team iv] w)"

definition get_ladder_dates :: "pay_env \<Rightarrow> world \<Rightarrow> invoice \<Rightarrow> error + ladder_dates" where
  "get_ladder_dates env w iv = bindE (get_window_dates iv) (\<lambda>dates.
     Inr (get_charge_facts dates (get_charge_outcomes w (inv_name iv)) (is_chargeable_before_any_charge env w iv dates)))"

fun get_ladder_dates_by_invoice :: "pay_env \<Rightarrow> world \<Rightarrow> invoice list \<Rightarrow> error + (string \<times> ladder_dates) list" where
  "get_ladder_dates_by_invoice env w [] = Inr []"
| "get_ladder_dates_by_invoice env w (iv # ivs) = bindE (get_ladder_dates env w iv) (\<lambda>dates.
     bindE (get_ladder_dates_by_invoice env w ivs) (\<lambda>rest. Inr ((inv_name iv, dates) # rest)))"

definition schedule_of :: "pay_env \<Rightarrow> ladder_dates \<Rightarrow> stage_row list" where
  "schedule_of env dates = dunning_schedule dates (policy_of (pe_settings env))"

section \<open>The retry\<close>

definition has_retry_rail :: "invoice \<Rightarrow> world \<Rightarrow> bool" where
  "has_retry_rail iv w \<longleftrightarrow> inv_status iv = ''Outstanding'' \<and> is_debit_allowed (inv_team iv) w
     \<and> next_method_for (inv_name iv) (inv_team iv) (Some (attempts_of (inv_name iv) w)) [] w \<noteq> None"

definition is_retry_due :: "string \<Rightarrow> stage_row list \<Rightarrow> datetime \<Rightarrow> world \<Rightarrow> bool" where
  "is_retry_due invoice schedule now w =
     (let reached = map sg_at (filter (\<lambda>s. sg_stage s = Retry \<and> sg_at s \<le> now) schedule) in
      reached \<noteq> [] \<and> \<not> list_ex (\<lambda>a. at_creation a \<ge> last reached) (attempts_for invoice w))"

definition notify_retry_failed :: "string \<Rightarrow> world \<Rightarrow> world" where
  "notify_retry_failed invoice w =
     (let as = sort_key at_creation (attempts_for invoice w) in
      if as = [] \<or> at_status (last as) \<noteq> ''Failed'' then w
      else notify (at_team (last as)) ''Payment Retry'' invoice w)"

definition retry_payment :: "pay_env \<Rightarrow> string \<Rightarrow> world \<Rightarrow> ((error + collect_outcome) \<times> world) option" where
  "retry_payment env invoice w = (case collect_invoice env invoice True None w of
     None \<Rightarrow> None
   | Some (Inl e, w') \<Rightarrow> Some (Inl e, w')
   | Some (Inr r, w') \<Rightarrow> Some (Inr r, notify_retry_failed invoice w'))"

text \<open>
  What the run of the rotation has committed when it returns: the rest is undone when the item raises later.
\<close>

partial_function (option) collect_saved ::
  "pay_env \<Rightarrow> invoice \<Rightarrow> string list option \<Rightarrow> datetime option \<Rightarrow> string list \<Rightarrow> world \<Rightarrow> world \<Rightarrow> world option" where
  "collect_saved env iv earlier now skipped base w =
     (case charge_next_method env iv earlier skipped now w of
        (res, w') \<Rightarrow> (case res of
          Inl e \<Rightarrow> Some (committed base w w')
        | Inr step \<Rightarrow> (case step of
            Stop outcome \<Rightarrow> Some (committed base w w')
          | Rotate skipped' \<Rightarrow> collect_saved env iv earlier now skipped' (committed base w w') w')))"

definition retry_saved :: "pay_env \<Rightarrow> invoice \<Rightarrow> world \<Rightarrow> world option" where
  "retry_saved env iv w =
     (if is_internal_team (pw_profiles w) (inv_team iv) then Some w
      else collect_saved env iv (Some (attempts_of (inv_name iv) w)) None [] w w)"

text \<open>None in the middle is a retry that was not due.\<close>

definition retry_if_due ::
  "pay_env \<Rightarrow> invoice \<Rightarrow> stage_row list \<Rightarrow> datetime \<Rightarrow> world \<Rightarrow> ((error + collect_outcome option) \<times> world) option" where
  "retry_if_due env iv schedule now w =
     (if \<not> has_retry_rail iv w \<or> \<not> is_retry_due (inv_name iv) schedule now w then Some (Inr None, w)
      else map_option (\<lambda>(r, w'). (case r of Inl e \<Rightarrow> Inl e | Inr x \<Rightarrow> Inr (Some x), w')) (retry_payment env (inv_name iv) w))"

section \<open>One invoice\<close>

datatype dun_result =
    Skipped string
  | Nothing_reached int
  | Paid_at_retry int
  | Dunned int "string list" "string option"

text \<open>The team's earliest subscription.\<close>

definition anchor_subscription :: "string \<Rightarrow> estate \<Rightarrow> subscription option" where
  "anchor_subscription team es = find (\<lambda>s. su_team s = team) (es_subs es)"

text \<open>Overdue: the invoice, then the team's standing. \<open>acts\<close> are the actions of the result.\<close>

definition declare_overdue :: "gen_env \<Rightarrow> invoice \<Rightarrow> books \<Rightarrow> error + string list \<times> books" where
  "declare_overdue env iv b =
     bindE (if inv_status iv = ''Outstanding''
            then bindE (invoice_transition (ge_ambient env) iv ''Overdue'' (Some ''dunning: past due window elapsed'')
                   (Some ''scheduler'') None (pw_events (bk_world b)))
              (\<lambda>(iv', evs). Inr ([''overdue''], b\<lparr>bk_world := notify (inv_team iv) ''Invoice Overdue'' (inv_name iv)
                 (save_invoice iv' ((bk_world b)\<lparr>pw_events := evs\<rparr>))\<rparr>))
            else Inr ([], b))
       (\<lambda>(acts, b). if anchor_subscription (inv_team iv) (bk_estate b) = None then Inr (acts, b)
          else bindE (mark_past_due (ge_sub env) (inv_team iv) (bk_estate b)) (\<lambda>(_, es). Inr (acts, b\<lparr>bk_estate := es\<rparr>)))"

definition suspend_team :: "gen_env \<Rightarrow> invoice \<Rightarrow> books \<Rightarrow> error + string list \<times> books" where
  "suspend_team env iv b =
     bindE (suspend_for_nonpayment (ge_sub env) (inv_team iv) (bk_estate b)) (\<lambda>(names, es).
       Inr (if names = [] then ([], b\<lparr>bk_estate := es\<rparr>)
            else ([''suspend''], b\<lparr>bk_estate := es, bk_world := notify (inv_team iv) ''server_suspended'' (inv_name iv)
                    (review (inv_name iv) ''Suspended for non-payment'' (bk_world b))\<rparr>)))"

definition escalate :: "gen_env \<Rightarrow> invoice \<Rightarrow> stage set \<Rightarrow> books \<Rightarrow> error + (string list \<times> string option) \<times> books" where
  "escalate env iv reached b =
     (let sub = anchor_subscription (inv_team iv) (bk_estate b) in
      bindE (if Overdue \<in> reached then declare_overdue env iv b else Inr ([], b)) (\<lambda>(overdue, b).
      bindE (if Suspend \<in> reached \<and> sub \<noteq> None then suspend_team env iv b else Inr ([], b)) (\<lambda>(suspend, b').
        let standing = (if suspend \<noteq> [] then Some ''Suspended''
                        else Option.bind sub (\<lambda>s. if Overdue \<in> reached
                          then map_option su_standing (find_sub (bk_estate b) (su_name s)) else Some (su_standing s)))
        in Inr ((overdue @ suspend @ (if Terminate \<in> reached \<and> sub \<noteq> None then [''termination_due''] else []), standing), b'))))"

definition process_invoice_dunning ::
  "gen_env \<Rightarrow> string \<Rightarrow> datetime option \<Rightarrow> books \<Rightarrow> ((error + dun_result) \<times> books) option" where
  "process_invoice_dunning env invoice now b =
     (let pay = ge_pay env; now = clock pay now in
      case find_invoice (bk_world b) invoice of None \<Rightarrow> Some (Inl DoesNotExist, b) | Some iv \<Rightarrow>
      if inv_type iv \<noteq> ''Billable'' then Some (Inr (Skipped ''Cost Report''), b)
      else if inv_status iv \<notin> set UNSETTLED \<or> inv_expected_collection iv \<le> 0 then Some (Inr (Skipped ''nothing_due''), b)
      else if \<not> is_issued iv then Some (Inr (Skipped ''no_due_date''), b)
      else case get_ladder_dates pay (bk_world b) iv of Inl e \<Rightarrow> Some (Inl e, b) | Inr dates \<Rightarrow>
        let days = dt_date now - wd_anchor dates; schedule = schedule_of pay dates in
        if stages_reached schedule now = {} then Some (Inr (Nothing_reached days), b)
        else case retry_if_due pay iv schedule now (bk_world b) of
          None \<Rightarrow> None
        | Some (Inl e, w) \<Rightarrow> Some (Inl e, b\<lparr>bk_world := w\<rparr>)
        | Some (Inr None, w) \<Rightarrow>
            (case escalate env iv (stages_reached schedule now) b of
               Inl e \<Rightarrow> Some (Inl e, b)
             | Inr ((acts, stand), b') \<Rightarrow> Some (Inr (Dunned days acts stand), b'))
        | Some (Inr (Some r), w) \<Rightarrow>
            (case retry_saved pay iv (bk_world b) of None \<Rightarrow> None | Some saved \<Rightarrow> let left = b\<lparr>bk_world := saved\<rparr> in
             case find_invoice w invoice of None \<Rightarrow> Some (Inl DoesNotExist, left) | Some iv' \<Rightarrow>
             if inv_status iv' = ''Paid'' then Some (Inr (Paid_at_retry days), b\<lparr>bk_world := w\<rparr>)
             else case get_ladder_dates pay w iv' of Inl e \<Rightarrow> Some (Inl e, left) | Inr dates' \<Rightarrow>
               (case escalate env iv' (stages_reached (schedule_of pay dates') now) (b\<lparr>bk_world := w\<rparr>) of
                  Inl e \<Rightarrow> Some (Inl e, left)
                | Inr ((acts, stand), b') \<Rightarrow> Some (Inr (Dunned days (''retry'' # acts) stand), b'))))"

section \<open>The jobs\<close>

fun dun_each ::
  "string \<Rightarrow> (string \<Rightarrow> books \<Rightarrow> ((error + dun_result) \<times> books) option) \<Rightarrow> string list \<Rightarrow> books
     \<Rightarrow> ((string \<times> dun_result) list \<times> books) option" where
  "dun_each job work [] b = Some ([], b)"
| "dun_each job work (name # names) b = (case work name b of
     None \<Rightarrow> None
   | Some (Inl e, b') \<Rightarrow> dun_each job work names (b'\<lparr>bk_world := review name (job @ '' failed'') (bk_world b')\<rparr>)
   | Some (Inr x, b') \<Rightarrow> map_option (\<lambda>(xs, b''). ((name, x) # xs, b'')) (dun_each job work names b'))"

definition is_dunned :: "world \<Rightarrow> invoice \<Rightarrow> bool" where
  "is_dunned w iv \<longleftrightarrow> is_owed iv \<and> inv_type iv = ''Billable'' \<and> inv_expected_collection iv > 0
     \<and> \<not> is_internal_team (pw_profiles w) (inv_team iv)"

definition run_single_retry ::
  "gen_env \<Rightarrow> (string \<times> ladder_dates) list \<Rightarrow> datetime \<Rightarrow> invoice \<Rightarrow> books \<Rightarrow> ((error + dun_result) \<times> books) option" where
  "run_single_retry env ladders now iv b = (case map_of ladders (inv_name iv) of
     None \<Rightarrow> Some (Inl KeyError, b)
   | Some dates \<Rightarrow>
       if get_interval_retry_dates dates (dunning_retry_interval_days (pe_settings (ge_pay env))) \<noteq> []
       then Some (Inr (Skipped ''interval_retries''), b)
       else if \<not> is_retry_due (inv_name iv) (schedule_of (ge_pay env) dates) now (bk_world b) \<or> \<not> has_retry_rail iv (bk_world b)
       then Some (Inr (Skipped ''not_due''), b)
       else process_invoice_dunning env (inv_name iv) (Some now) b)"

definition run_single_retries :: "gen_env \<Rightarrow> datetime \<Rightarrow> books \<Rightarrow> ((error + (string \<times> dun_result) list) \<times> books) option" where
  "run_single_retries env now b =
     (let w = bk_world b;
          invoices = filter (\<lambda>iv. is_dunned w iv \<and> inv_status iv = ''Outstanding''
            \<and> (case inv_payment_date iv of None \<Rightarrow> False | Some d \<Rightarrow> d \<le> dt_date now)) (pw_invoices w);
          cutoff = now - SINGLE_RETRY_HOURS * hour_us;
          failed = filter (\<lambda>iv. case Option.bind (get_charge_outcomes w (inv_name iv)) oc_first_failed_at of
            None \<Rightarrow> False | Some t \<Rightarrow> t \<le> cutoff) invoices
      in case get_ladder_dates_by_invoice (ge_pay env) w failed of
           Inl e \<Rightarrow> Some (Inl e, b)
         | Inr ladders \<Rightarrow> map_option (\<lambda>(xs, b'). (Inr xs, b'))
             (dun_each ''Single retry'' (\<lambda>name b. case find (\<lambda>iv. inv_name iv = name) failed of
                None \<Rightarrow> Some (Inl KeyError, b) | Some iv \<Rightarrow> run_single_retry env ladders now iv b) (map inv_name failed) b))"

definition run_dunning :: "gen_env \<Rightarrow> datetime option \<Rightarrow> books \<Rightarrow> ((error + (string \<times> dun_result) list) \<times> books) option" where
  "run_dunning env now b = (case settle_internal_teams (ge_pay env) (bk_world b) of
     Inl e \<Rightarrow> Some (Inl e, b)
   | Inr (_, w) \<Rightarrow> map_option (\<lambda>(xs, b'). (Inr xs, b'))
       (dun_each ''Dunning'' (\<lambda>name. process_invoice_dunning env name now)
          (map inv_name (filter (is_dunned w) (pw_invoices w))) (b\<lparr>bk_world := w\<rparr>)))"

end
