(* ===== verification/Dunning_Properties.thy ===== *)
theory Dunning_Properties
  imports Dunning_Run Collection_Properties Lifecycle_Safety Standing_Properties
begin

text \<open>
  What a run of the dunning ladder does and when: nothing before its stage is reached, nothing to another
  team, no second charge at the same moment; and how one subscription in a disabled project stops the
  ladder of a whole team.
\<close>

section \<open>Stages\<close>

lemma set_schedule:
  "set (dunning_schedule dates policy) =
     set (map (\<lambda>(n, t). stage_row_at (wd_anchor dates) Retry (Some n) t)
       (zip [1..<Suc (length (kept_retries dates policy))] (kept_retries dates policy)))
     \<union> {stage_row_at (wd_anchor dates) Overdue None (overdue_time dates policy),
        stage_row_at (wd_anchor dates) Suspend None (at_midnight (wd_suspends_on dates)),
        stage_row_at (wd_anchor dates) Terminate None (at_midnight (wd_suspends_on dates) + dp_terminate_after policy * day_us)}"
  by (simp add: dunning_schedule_def kept_retries_def Let_def)

lemma reached_iff:
  "Overdue \<in> stages_reached (dunning_schedule dates policy) t \<longleftrightarrow> overdue_time dates policy \<le> t"
  "Suspend \<in> stages_reached (dunning_schedule dates policy) t \<longleftrightarrow> at_midnight (wd_suspends_on dates) \<le> t"
  by (auto simp: stages_reached_def set_schedule image_iff)

lemma suspend_after_overdue:
  "Suspend \<in> stages_reached (dunning_schedule dates policy) t \<Longrightarrow> Overdue \<in> stages_reached (dunning_schedule dates policy) t"
  using overdue_time_le [of dates "get_retry_times dates (dp_retry_interval policy)"]
  by (simp add: reached_iff at_midnight_def)

lemma ladder_dates_Inr:
  "get_ladder_dates env w iv = Inr dates \<Longrightarrow> wd_suspends_on dates = the (inv_suspends_on iv)"
  by (auto simp: get_ladder_dates_def get_window_dates_def get_charge_facts_def bindE_Inr Let_def window.defs split: option.splits)

section \<open>A team falls behind\<close>

definition behind :: "subscription \<Rightarrow> subscription" where
  "behind s = s\<lparr>su_standing := ''Past Due''\<rparr>"

lemma behind_simps [simp]: "su_name (behind s) = su_name s" "su_team (behind s) = su_team s" "su_standing (behind s) = ''Past Due''"
  by (simp_all add: behind_def)

lemma set_standings_effect:
  assumes "estate_wf es" "distinct (map su_name subs)" "set subs \<subseteq> set (es_subs es)"
    and "\<forall>s \<in> set subs. su_standing s = ''Current''" and "set_standings env ''Past Due'' (map su_name subs) es = Inr es'"
  shows "es_subs es' = swap_all behind subs (es_subs es) \<and> es_servers es' = es_servers es \<and> es_projects es' = es_projects es
    \<and> es_commands es' = es_commands es"
  using assms
proof (induction subs arbitrary: es)
  case Nil
  then show ?case by (simp add: swap_all_def)
next
  case (Cons s subs)
  from Cons.prems(5) obtain es1 where one: "set_standing env (su_name s) ''Past Due'' (Some ''dunning'') None es = Inr es1"
    and rest: "set_standings env ''Past Due'' (map su_name subs) es1 = Inr es'" by (auto simp: bindE_Inr)
  have s: "s \<in> set (es_subs es)" and st: "su_standing s \<noteq> ''Past Due''" using Cons.prems(3,4) by auto
  note eff = set_standing_Inr [OF one find_sub_wf [OF Cons.prems(1) s] st]
  have subs1: "es_subs es1 = swap_sub (behind s) (es_subs es)" using eff(3) by (simp add: put_sub_swap behind_def)
  note step = swap_step [OF Cons.prems(1) s behind_simps(1) subs1] and apart = names_apart [OF Cons.prems(2) behind_simps(1)]
  have sub: "set subs \<subseteq> set (es_subs es1)" using Cons.prems(3) step(2) apart(2) by auto
  have "swap_all behind subs (es_subs es1) = swap_all behind (s # subs) (es_subs es)" using apart by (intro step(3)) auto
  with Cons.IH [OF step(1) _ sub _ rest] Cons.prems(2,4) eff(4-6) show ?case by simp
qed

lemma mark_past_due_effect:
  assumes wf: "estate_wf es" and run: "mark_past_due env team es = Inr (names, es')"
  shows "es_subs es' = swap_all behind (filter (\<lambda>s. su_team s = team \<and> su_standing s = ''Current'') (rev (es_subs es))) (es_subs es)
    \<and> es_commands es' = es_commands es"
proof -
  let ?subs = "filter (\<lambda>s. su_team s = team \<and> su_standing s = ''Current'') (rev (es_subs es))"
  from run obtain v where "bindE (set_standings env ''Past Due'' (map su_name ?subs) es) (\<lambda>es. Inr (v, es)) = Inr (names, es')"
    unfolding mark_past_due_def Let_def by blast
  then have "set_standings env ''Past Due'' (map su_name ?subs) es = Inr es'" by (auto simp only: bindE_Inr sum.inject prod.inject)
  moreover have "distinct (map su_name ?subs)" by (rule distinct_rev_filter [OF wf])
  moreover have "set ?subs \<subseteq> set (es_subs es)" "\<forall>s \<in> set ?subs. su_standing s = ''Current''" by simp_all
  ultimately have "es_subs es' = swap_all behind ?subs (es_subs es) \<and> es_servers es' = es_servers es
      \<and> es_projects es' = es_projects es \<and> es_commands es' = es_commands es"
    by (intro set_standings_effect [OF wf])
  then show ?thesis by blast
qed

lemma other_teams_kept:
  "(\<And>s. s \<in> set ch \<Longrightarrow> su_team s = team \<and> su_team (f s) = team) \<Longrightarrow>
   filter (\<lambda>s. su_team s \<noteq> team) (swap_all f ch xs) = filter (\<lambda>s. su_team s \<noteq> team) xs"
  by (induction xs) (auto simp: swap_all_def)

text \<open>What Overdue does to the estate, and then what the suspension does.\<close>

lemma past_due_team:
  assumes wf: "estate_wf es" and run: "mark_past_due env team es = Inr (names, es')"
  shows "estate_wf es'" "\<forall>s \<in> set (es_subs es'). su_team s = team \<longrightarrow> su_standing s \<noteq> ''Current''"
    "\<forall>s \<in> set (es_subs es'). su_standing s = ''Suspended'' \<longrightarrow> s \<in> set (es_subs es)"
    "filter (\<lambda>s. su_team s \<noteq> team) (es_subs es') = filter (\<lambda>s. su_team s \<noteq> team) (es_subs es)"
    "es_commands es' = es_commands es"
proof -
  let ?ch = "filter (\<lambda>s. su_team s = team \<and> su_standing s = ''Current'') (rev (es_subs es))"
  note eff = mark_past_due_effect [OF wf run]
  have "map su_name (es_subs es') = map su_name (es_subs es)" using eff by (simp add: swap_all_def)
  with wf show "estate_wf es'" by (simp add: estate_wf_def)
  show "\<forall>s \<in> set (es_subs es'). su_team s = team \<longrightarrow> su_standing s \<noteq> ''Current''"
    "\<forall>s \<in> set (es_subs es'). su_standing s = ''Suspended'' \<longrightarrow> s \<in> set (es_subs es)"
  proof -
    have row: "\<exists>y \<in> set (es_subs es). x = (if y \<in> set ?ch then behind y else y)" if "x \<in> set (es_subs es')" for x
      using that eff by (auto simp only: swap_all_def set_map)
    show "\<forall>s \<in> set (es_subs es'). su_team s = team \<longrightarrow> su_standing s \<noteq> ''Current''"
      by (auto dest!: row split: if_splits)
    show "\<forall>s \<in> set (es_subs es'). su_standing s = ''Suspended'' \<longrightarrow> s \<in> set (es_subs es)"
      by (auto dest!: row split: if_splits)
  qed
  show "filter (\<lambda>s. su_team s \<noteq> team) (es_subs es') = filter (\<lambda>s. su_team s \<noteq> team) (es_subs es)"
    using eff other_teams_kept [of ?ch team behind] by simp
  show "es_commands es' = es_commands es" using eff by simp
qed

lemma suspended_team:
  assumes wf: "estate_wf es" and run: "suspend_for_nonpayment env team es = Inr (names, es')"
  shows "\<forall>s \<in> set (es_subs es'). su_team s = team \<longrightarrow> su_standing s = ''Current'' \<longrightarrow> s \<in> set (es_subs es)"
    "filter (\<lambda>s. su_team s \<noteq> team) (es_subs es') = filter (\<lambda>s. su_team s \<noteq> team) (es_subs es)"
proof -
  obtain moved where m: "\<forall>s \<in> set moved. s \<in> set (es_subs es) \<and> su_team s = team \<and> su_standing s \<noteq> ''Suspended''"
    and subs: "es_subs es' = swap_all (suspended env es) moved (es_subs es)"
    by (rule suspend_for_nonpayment_effect [OF wf run]) blast
  show "\<forall>s \<in> set (es_subs es'). su_team s = team \<longrightarrow> su_standing s = ''Current'' \<longrightarrow> s \<in> set (es_subs es)"
    by (auto simp: subs swap_all_def suspended_def)
  show "filter (\<lambda>s. su_team s \<noteq> team) (es_subs es') = filter (\<lambda>s. su_team s \<noteq> team) (es_subs es)"
    unfolding subs by (rule other_teams_kept) (use m in \<open>simp add: suspended_def\<close>)
qed


section \<open>Escalating one invoice\<close>

definition escalated :: "stage set \<Rightarrow> invoice \<Rightarrow> books \<Rightarrow> books \<Rightarrow> bool" where
  "escalated reached iv b b' \<longleftrightarrow>
     filter (\<lambda>s. su_team s \<noteq> inv_team iv) (es_subs (bk_estate b')) = filter (\<lambda>s. su_team s \<noteq> inv_team iv) (es_subs (bk_estate b))
     \<and> pw_attempts (bk_world b') = pw_attempts (bk_world b) \<and> pw_ledger (bk_world b') = pw_ledger (bk_world b)
     \<and> pw_refunds (bk_world b') = pw_refunds (bk_world b)
     \<and> (if Overdue \<in> reached
        then (\<exists>iv'. find_invoice (bk_world b') (inv_name iv) = Some iv' \<and> inv_status iv' = ''Overdue''
               \<and> inv_suspends_on iv' = inv_suspends_on iv)
          \<and> (\<forall>s \<in> set (es_subs (bk_estate b')). su_team s = inv_team iv \<longrightarrow> su_standing s \<noteq> ''Current'')
        else b' = b)
     \<and> (Suspend \<notin> reached \<longrightarrow> es_commands (bk_estate b') = es_commands (bk_estate b)
          \<and> (\<forall>s \<in> set (es_subs (bk_estate b')). su_standing s = ''Suspended'' \<longrightarrow> s \<in> set (es_subs (bk_estate b))))"

lemma no_anchor: "anchor_subscription team es = None \<longleftrightarrow> (\<forall>s \<in> set (es_subs es). su_team s \<noteq> team)"
  by (simp add: anchor_subscription_def find_None)

lemma declare_overdue_world:
  assumes iv: "find_invoice (bk_world b) (inv_name iv) = Some iv" "inv_status iv \<in> set UNSETTLED"
    and run: "declare_overdue env iv b = Inr (acts, b')"
  shows "pw_attempts (bk_world b') = pw_attempts (bk_world b)" "pw_ledger (bk_world b') = pw_ledger (bk_world b)"
    "pw_refunds (bk_world b') = pw_refunds (bk_world b)"
    "\<exists>iv'. find_invoice (bk_world b') (inv_name iv) = Some iv' \<and> inv_status iv' = ''Overdue'' \<and> inv_suspends_on iv' = inv_suspends_on iv"
    "bk_estate b' = bk_estate b \<and> anchor_subscription (inv_team iv) (bk_estate b) = None
      \<or> (\<exists>names. mark_past_due (ge_sub env) (inv_team iv) (bk_estate b) = Inr (names, bk_estate b'))"
proof -
  from run obtain b1 where first: "(if inv_status iv = ''Outstanding''
            then bindE (invoice_transition (ge_ambient env) iv ''Overdue'' (Some ''dunning: past due window elapsed'')
                   (Some ''scheduler'') None (pw_events (bk_world b)))
              (\<lambda>(iv', evs). Inr ([''overdue''], b\<lparr>bk_world := notify (inv_team iv) ''Invoice Overdue'' (inv_name iv)
                 (save_invoice iv' ((bk_world b)\<lparr>pw_events := evs\<rparr>))\<rparr>))
            else Inr ([], b)) = Inr (acts, b1)"
    and second: "(if anchor_subscription (inv_team iv) (bk_estate b1) = None then Inr (acts, b1)
          else bindE (mark_past_due (ge_sub env) (inv_team iv) (bk_estate b1)) (\<lambda>(_, es). Inr (acts, b1\<lparr>bk_estate := es\<rparr>))) = Inr (acts, b')"
    by (auto simp: declare_overdue_def bindE_Inr split: if_splits)
  have world: "bk_world b' = bk_world b1"
    and team: "bk_estate b' = bk_estate b1 \<and> anchor_subscription (inv_team iv) (bk_estate b1) = None
      \<or> (\<exists>names. mark_past_due (ge_sub env) (inv_team iv) (bk_estate b1) = Inr (names, bk_estate b'))"
    using second by (auto simp: bindE_Inr split: if_splits)
  have one: "bk_estate b1 = bk_estate b \<and> pw_attempts (bk_world b1) = pw_attempts (bk_world b) \<and> pw_ledger (bk_world b1) = pw_ledger (bk_world b)
      \<and> pw_refunds (bk_world b1) = pw_refunds (bk_world b)
      \<and> (\<exists>iv'. find_invoice (bk_world b1) (inv_name iv) = Some iv' \<and> inv_status iv' = ''Overdue'' \<and> inv_suspends_on iv' = inv_suspends_on iv)"
  proof (cases "inv_status iv = ''Outstanding''")
    case True
    with first obtain iv' evs where t: "invoice_transition (ge_ambient env) iv ''Overdue'' (Some ''dunning: past due window elapsed'')
          (Some ''scheduler'') None (pw_events (bk_world b)) = Inr (iv', evs)"
      and b1: "b1 = b\<lparr>bk_world := notify (inv_team iv) ''Invoice Overdue'' (inv_name iv) (save_invoice iv' ((bk_world b)\<lparr>pw_events := evs\<rparr>))\<rparr>"
      by (auto simp: bindE_Inr)
    have iv': "iv' = iv\<lparr>inv_status := ''Overdue''\<rparr>" using invoice_transition_cases [OF t] by simp
    let ?x = "set_period_key iv'"
    have x: "inv_name ?x = inv_name iv" "inv_status ?x = ''Overdue''" "inv_suspends_on ?x = inv_suspends_on iv"
      by (simp_all add: set_period_key_def iv')
    have "find_invoice (bk_world b1) (inv_name iv) = Some ?x"
      using find_invoice_put [of ?x "(bk_world b)\<lparr>pw_events := evs\<rparr>" "inv_name iv"] iv(1) x(1)
      by (simp add: b1 save_invoice_def find_invoice_def)
    with x show ?thesis by (simp add: b1 save_invoice_def)
  next
    case False
    with first iv show ?thesis by (auto simp: UNSETTLED_def)
  qed
  then show "pw_attempts (bk_world b') = pw_attempts (bk_world b)" "pw_ledger (bk_world b') = pw_ledger (bk_world b)"
    "pw_refunds (bk_world b') = pw_refunds (bk_world b)"
    "\<exists>iv'. find_invoice (bk_world b') (inv_name iv) = Some iv' \<and> inv_status iv' = ''Overdue'' \<and> inv_suspends_on iv' = inv_suspends_on iv"
    by (simp_all add: world)
  from one team show "bk_estate b' = bk_estate b \<and> anchor_subscription (inv_team iv) (bk_estate b) = None
      \<or> (\<exists>names. mark_past_due (ge_sub env) (inv_team iv) (bk_estate b) = Inr (names, bk_estate b'))" by auto
qed

lemma suspend_team_Inr:
  assumes "suspend_team env iv b = Inr (acts, b')"
  shows "\<exists>names. suspend_for_nonpayment (ge_sub env) (inv_team iv) (bk_estate b) = Inr (names, bk_estate b')"
    "pw_attempts (bk_world b') = pw_attempts (bk_world b)" "pw_ledger (bk_world b') = pw_ledger (bk_world b)"
    "pw_refunds (bk_world b') = pw_refunds (bk_world b)" "pw_invoices (bk_world b') = pw_invoices (bk_world b)"
  using assms by (auto simp: suspend_team_def bindE_Inr review_def split: if_splits)

lemma escalate_effect:
  assumes wf: "estate_wf (bk_estate b)" and iv: "find_invoice (bk_world b) (inv_name iv) = Some iv" "inv_status iv \<in> set UNSETTLED"
    and order: "Suspend \<in> reached \<Longrightarrow> Overdue \<in> reached" and run: "escalate env iv reached b = Inr (r, b')"
  shows "escalated reached iv b b'"
proof (cases "Overdue \<in> reached")
  case False
  with order have "Suspend \<notin> reached" by blast
  with False run have "b' = b" by (auto simp: escalate_def Let_def bindE_Inr)
  with False show ?thesis by (simp add: escalated_def)
next
  case True
  with run obtain acts b1 where first: "declare_overdue env iv b = Inr (acts, b1)"
    and second: "b' = b1 \<and> \<not> (Suspend \<in> reached \<and> anchor_subscription (inv_team iv) (bk_estate b) \<noteq> None)
      \<or> (\<exists>s. suspend_team env iv b1 = Inr (s, b') \<and> Suspend \<in> reached)"
    by (auto simp: escalate_def Let_def bindE_Inr split: if_splits)
  note W = declare_overdue_world [OF iv first]
  have E: "estate_wf (bk_estate b1)" "\<forall>s \<in> set (es_subs (bk_estate b1)). su_team s = inv_team iv \<longrightarrow> su_standing s \<noteq> ''Current''"
    "\<forall>s \<in> set (es_subs (bk_estate b1)). su_standing s = ''Suspended'' \<longrightarrow> s \<in> set (es_subs (bk_estate b))"
    "filter (\<lambda>s. su_team s \<noteq> inv_team iv) (es_subs (bk_estate b1)) = filter (\<lambda>s. su_team s \<noteq> inv_team iv) (es_subs (bk_estate b))"
    "es_commands (bk_estate b1) = es_commands (bk_estate b)"
    using W(5) past_due_team [OF wf] wf by (auto simp: no_anchor)
  from second show ?thesis
  proof
    assume "b' = b1 \<and> \<not> (Suspend \<in> reached \<and> anchor_subscription (inv_team iv) (bk_estate b) \<noteq> None)"
    with True W(1-4) E show ?thesis by (simp add: escalated_def)
  next
    assume "\<exists>s. suspend_team env iv b1 = Inr (s, b') \<and> Suspend \<in> reached"
    then obtain s where s: "suspend_team env iv b1 = Inr (s, b')" "Suspend \<in> reached" by blast
    note S = suspend_team_Inr [OF s(1)]
    from S(1) obtain names where run2: "suspend_for_nonpayment (ge_sub env) (inv_team iv) (bk_estate b1) = Inr (names, bk_estate b')" ..
    note T = suspended_team [OF E(1) run2]
    have "find_invoice (bk_world b') n = find_invoice (bk_world b1) n" for n by (simp add: find_invoice_def S(5))
    moreover have "\<forall>s \<in> set (es_subs (bk_estate b')). su_team s = inv_team iv \<longrightarrow> su_standing s \<noteq> ''Current''"
      using T(1) E(2) by blast
    ultimately show ?thesis using True s(2) W(1-4) S(2-4) T(2) E(4) by (simp add: escalated_def)
  qed
qed

section \<open>One run on one invoice\<close>

lemma retry_payment_frame:
  assumes run: "retry_if_due env iv schedule now w = Some (res, w')" and rows: "one_row_each w"
  shows "one_row_each w' \<and> same_bills w w' \<and> (res = Inr None \<longrightarrow> w' = w)"
proof (cases "\<not> has_retry_rail iv w \<or> \<not> is_retry_due (inv_name iv) schedule now w")
  case True
  with run rows show ?thesis by (simp add: retry_if_due_def)
next
  case False
  with run obtain x v where y: "retry_payment env (inv_name iv) w = Some (x, v)"
    "(case x of Inl e \<Rightarrow> Inl e | Inr x \<Rightarrow> Inr (Some x)) = res" "v = w'" by (auto simp: retry_if_due_def)
  from y(2) have "res \<noteq> Inr None" by (cases x) auto
  with y have due: "retry_payment env (inv_name iv) w = Some (x, w')" "res \<noteq> Inr None" by simp_all
  from due(1) obtain y v where c: "collect_invoice env (inv_name iv) True None w = Some (y, v)"
    and w': "w' = v \<or> w' = notify_retry_failed (inv_name iv) v"
    by (auto simp: retry_payment_def split: option.split_asm sum.split_asm)
  have "pw_invoices w' = pw_invoices v" "pw_ledger w' = pw_ledger v" "pw_refunds w' = pw_refunds v"
    using w' by (auto simp: notify_retry_failed_def Let_def)
  with collect_invoice_bills [OF c rows] due(2) show ?thesis by (simp add: one_row_each_def same_bills_def)
qed


text \<open>The books an item of the run leaves, against those it found.\<close>

definition on_ladder :: "string \<Rightarrow> string \<Rightarrow> datetime \<Rightarrow> estate \<Rightarrow> books \<Rightarrow> bool" where
  "on_ladder team invoice t es b' \<longleftrightarrow>
     filter (\<lambda>s. su_team s \<noteq> team) (es_subs (bk_estate b')) = filter (\<lambda>s. su_team s \<noteq> team) (es_subs es)
     \<and> (bk_estate b' = es \<or> (\<exists>iv'. find_invoice (bk_world b') invoice = Some iv' \<and> inv_status iv' = ''Overdue''))
     \<and> (es_commands (bk_estate b') = es_commands es \<and> (\<forall>s \<in> set (es_subs (bk_estate b')). su_standing s = ''Suspended'' \<longrightarrow> s \<in> set (es_subs es))
        \<or> (\<exists>iv'. find_invoice (bk_world b') invoice = Some iv' \<and> at_midnight (the (inv_suspends_on iv')) \<le> t))"

definition caught_up :: "string \<Rightarrow> string \<Rightarrow> datetime \<Rightarrow> books \<Rightarrow> bool" where
  "caught_up team invoice t b' \<longleftrightarrow> (\<exists>iv'. find_invoice (bk_world b') invoice = Some iv'
     \<and> (at_midnight (the (inv_suspends_on iv')) \<le> t \<longrightarrow> inv_status iv' = ''Overdue''
          \<and> (\<forall>s \<in> set (es_subs (bk_estate b')). su_team s = team \<longrightarrow> su_standing s \<noteq> ''Current'')))"

lemma on_ladder_same [simp]: "bk_estate b' = es \<Longrightarrow> on_ladder team invoice t es b'"
  by (simp add: on_ladder_def)

lemma escalate_ladder:
  assumes wf: "estate_wf (bk_estate b)" and iv: "find_invoice (bk_world b) (inv_name iv) = Some iv" "inv_status iv \<in> set UNSETTLED"
    and dates: "get_ladder_dates pay w iv = Inr dates"
    and run: "escalate env iv (stages_reached (schedule_of pay dates) t) b = Inr (r, b')"
  shows "on_ladder (inv_team iv) (inv_name iv) t (bk_estate b) b' \<and> caught_up (inv_team iv) (inv_name iv) t b'"
proof -
  let ?reached = "stages_reached (schedule_of pay dates) t"
  have suspend: "Suspend \<in> ?reached \<longleftrightarrow> at_midnight (the (inv_suspends_on iv)) \<le> t"
    by (simp add: schedule_of_def reached_iff ladder_dates_Inr [OF dates])
  have order: "Suspend \<in> ?reached \<Longrightarrow> Overdue \<in> ?reached" by (simp add: schedule_of_def suspend_after_overdue)
  have eff: "escalated ?reached iv b b'" by (rule escalate_effect [OF wf iv order run])
  show ?thesis
  proof (cases "Overdue \<in> ?reached")
    case False
    then have "b' = b" "Suspend \<notin> ?reached" using eff order by (auto simp: escalated_def)
    with iv(1) suspend show ?thesis by (simp add: caught_up_def)
  next
    case True
    then obtain iv' where iv': "find_invoice (bk_world b') (inv_name iv) = Some iv'" "inv_status iv' = ''Overdue''"
        "inv_suspends_on iv' = inv_suspends_on iv"
      and calm: "\<forall>s \<in> set (es_subs (bk_estate b')). su_team s = inv_team iv \<longrightarrow> su_standing s \<noteq> ''Current''"
      using eff by (auto simp: escalated_def)
    have "Suspend \<notin> ?reached \<Longrightarrow> es_commands (bk_estate b') = es_commands (bk_estate b)
        \<and> (\<forall>s \<in> set (es_subs (bk_estate b')). su_standing s = ''Suspended'' \<longrightarrow> s \<in> set (es_subs (bk_estate b)))"
      "filter (\<lambda>s. su_team s \<noteq> inv_team iv) (es_subs (bk_estate b')) = filter (\<lambda>s. su_team s \<noteq> inv_team iv) (es_subs (bk_estate b))"
      using eff by (simp_all add: escalated_def)
    with iv' calm suspend show ?thesis by (auto simp: on_ladder_def caught_up_def)
  qed
qed

lemma retried_invoice:
  assumes "same_bills w w'" "find_invoice w n = Some iv" "find_invoice w' n = Some iv'"
  shows "inv_name iv' = n \<and> inv_team iv' = inv_team iv \<and> inv_status iv' = inv_status iv"
proof -
  have "bill iv' = bill iv" using same_bills_find [OF assms(1), of n] assms(2,3) by simp
  from bill_eq [OF this] find_invoice_name [OF assms(2)] show ?thesis by simp
qed

lemma item_ladder:
  assumes run: "process_invoice_dunning env invoice now b = Some (res, b')" and wf: "estate_wf (bk_estate b)"
    and rows: "one_row_each (bk_world b)" and iv: "find_invoice (bk_world b) invoice = Some iv"
  shows "on_ladder (inv_team iv) invoice (clock (ge_pay env) now) (bk_estate b) b'
    \<and> (\<forall>days acts stand. res = Inr (Dunned days acts stand) \<longrightarrow> caught_up (inv_team iv) invoice (clock (ge_pay env) now) b')"
proof (cases "inv_type iv \<noteq> ''Billable'' \<or> inv_status iv \<notin> set UNSETTLED \<or> inv_expected_collection iv \<le> 0 \<or> \<not> is_issued iv")
  case True
  with run iv show ?thesis by (auto simp: process_invoice_dunning_def Let_def split: if_splits)
next
  case False
  note name = find_invoice_name [OF iv]
  define t where "t = clock (ge_pay env) now"
  have due: "inv_status iv \<in> set UNSETTLED" using False by blast
  show ?thesis
  proof (cases "get_ladder_dates (ge_pay env) (bk_world b) iv")
    case (Inl e)
    with run iv False show ?thesis by (auto simp: process_invoice_dunning_def Let_def)
  next
    case (Inr dates)
    let ?sched = "schedule_of (ge_pay env) dates"
    show ?thesis
    proof (cases "stages_reached ?sched t = {}")
      case True
      with run iv False Inr show ?thesis by (auto simp: process_invoice_dunning_def Let_def t_def)
    next
      case reached: False
      obtain r w where retry: "retry_if_due (ge_pay env) iv ?sched t (bk_world b) = Some (r, w)"
        using run iv False Inr reached
        by (cases "retry_if_due (ge_pay env) iv ?sched t (bk_world b)") (auto simp: process_invoice_dunning_def Let_def t_def)
      note whole = run iv False Inr reached retry
      show ?thesis
      proof (cases r)
        case Left: (Inl e)
        with whole show ?thesis by (auto simp: process_invoice_dunning_def Let_def t_def)
      next
        case Right: (Inr res')
        note frame = retry_payment_frame [OF retry [unfolded Right] rows]
        show ?thesis
        proof (cases res')
          case None
          with whole Right show ?thesis
            using escalate_ladder [of b iv "ge_pay env" "bk_world b" dates env t] wf due name
            by (auto simp: process_invoice_dunning_def Let_def t_def split: sum.splits)
        next
          case (Some charged)
          note whole' = whole [unfolded Right Some t_def]
          show ?thesis
          proof (cases "find_invoice w invoice")
            case None
            with whole' show ?thesis by (auto simp: process_invoice_dunning_def Let_def split: option.splits)
          next
            case (Some iv')
            note same = retried_invoice [OF conjunct1 [OF conjunct2 [OF frame]] iv Some]
            show ?thesis
              using whole' Some same due wf escalate_ladder [of "b\<lparr>bk_world := w\<rparr>" iv' "ge_pay env" w _ env t]
              by (auto simp: process_invoice_dunning_def Let_def t_def split: option.splits sum.splits if_splits)
          qed
        qed
      qed
    qed
  qed
qed


text \<open>
  Property C23: a run of the dunning on one invoice follows its ladder, whatever it answers and whether or not a retry
  was charged. It leaves every other team's subscriptions alone; it changes the team's standing only
  when it leaves the invoice Overdue; it suspends a subscription or stops a machine only when the suspension date the
  invoice carries at the end has come; and a run that dunned past that date leaves the invoice Overdue and the
  team without a Current subscription.
\<close>

lemma dunning_follows_ladder:
  assumes run: "process_invoice_dunning env invoice now b = Some (res, b')" and wf: "estate_wf (bk_estate b)"
    and rows: "one_row_each (bk_world b)" and iv: "find_invoice (bk_world b) invoice = Some iv"
  shows "filter (\<lambda>s. su_team s \<noteq> inv_team iv) (es_subs (bk_estate b')) = filter (\<lambda>s. su_team s \<noteq> inv_team iv) (es_subs (bk_estate b))
     \<and> (bk_estate b' = bk_estate b \<or> (\<exists>iv'. find_invoice (bk_world b') invoice = Some iv' \<and> inv_status iv' = ''Overdue''))
     \<and> (es_commands (bk_estate b') = es_commands (bk_estate b)
          \<and> (\<forall>s \<in> set (es_subs (bk_estate b')). su_standing s = ''Suspended'' \<longrightarrow> s \<in> set (es_subs (bk_estate b)))
        \<or> (\<exists>iv'. find_invoice (bk_world b') invoice = Some iv' \<and> at_midnight (the (inv_suspends_on iv')) \<le> clock (ge_pay env) now))
     \<and> ((\<exists>days acts stand. res = Inr (Dunned days acts stand)) \<longrightarrow> (\<exists>iv'. find_invoice (bk_world b') invoice = Some iv'
          \<and> (at_midnight (the (inv_suspends_on iv')) \<le> clock (ge_pay env) now \<longrightarrow> inv_status iv' = ''Overdue''
             \<and> (\<forall>s \<in> set (es_subs (bk_estate b')). su_team s = inv_team iv \<longrightarrow> su_standing s \<noteq> ''Current''))))"
  using item_ladder [OF assms] unfolding on_ladder_def caught_up_def by blast


section \<open>A subscription the run cannot save\<close>

lemma set_standings_stuck:
  "stuck es s \<Longrightarrow> s \<in> set subs \<Longrightarrow> distinct (map su_name subs) \<Longrightarrow> set subs \<subseteq> set (es_subs es) \<Longrightarrow>
   \<forall>x \<in> set subs. su_standing x = ''Current'' \<Longrightarrow> \<exists>err. set_standings env ''Past Due'' (map su_name subs) es = Inl err"
proof (induction subs arbitrary: es)
  case (Cons x subs)
  have x: "x \<in> set (es_subs es)" and st: "su_standing x \<noteq> ''Past Due''" using Cons.prems(4,5) by auto
  have wf: "estate_wf es" using Cons.prems(1) by (simp add: stuck_def)
  note find = find_sub_wf [OF wf x]
  show ?case
  proof (cases "set_standing env (su_name x) ''Past Due'' (Some ''dunning'') None es")
    case (Inl e)
    then show ?thesis by simp
  next
    case (Inr es1)
    note eff = set_standing_Inr [OF Inr find st]
    have subs1: "es_subs es1 = swap_sub (behind x) (es_subs es)" using eff(3) by (simp add: put_sub_swap behind_def)
    have "x \<noteq> s" using eff(2) stuck_invalid [OF Cons.prems(1), of env "Some s"] by auto
    with Cons.prems(2) have s: "s \<in> set subs" by simp
    have stuck1: "stuck es1 s"
      by (rule stuck_step [OF Cons.prems(1) x \<open>x \<noteq> s\<close> subs1]) (use eff(4-6) in \<open>simp_all add: behind_def\<close>)
    note step = swap_step [OF wf x behind_simps(1) subs1] and apart = names_apart [OF Cons.prems(3) behind_simps(1)]
    have "set subs \<subseteq> set (es_subs es1)" using Cons.prems(4) step(2) apart(2) by auto
    with Cons.IH [OF stuck1 s] Cons.prems(3,5) Inr show ?thesis by simp
  qed
qed simp

lemma mark_past_due_stuck:
  assumes stuck: "stuck es s" and s: "su_standing s = ''Current''" "su_team s = team"
  shows "\<exists>err. mark_past_due env team es = Inl err"
proof -
  let ?subs = "filter (\<lambda>s. su_team s = team \<and> su_standing s = ''Current'') (rev (es_subs es))"
  have wf: "estate_wf es" and "s \<in> set (es_subs es)" using stuck by (simp_all add: stuck_def)
  with s have "\<exists>err. set_standings env ''Past Due'' (map su_name ?subs) es = Inl err"
    by (intro set_standings_stuck [OF stuck _ distinct_rev_filter [OF wf]]) auto
  then show ?thesis by (auto simp: mark_past_due_def Let_def)
qed

lemma declare_overdue_stuck:
  assumes "stuck (bk_estate b) s" "su_standing s = ''Current''" "su_team s = inv_team iv"
  shows "\<exists>err. declare_overdue env iv b = Inl err"
proof (cases "declare_overdue env iv b")
  case (Inr r)
  have "anchor_subscription (inv_team iv) (bk_estate b) \<noteq> None" using assms by (auto simp: no_anchor stuck_def)
  with Inr mark_past_due_stuck [OF assms, of "ge_sub env"] show ?thesis
    by (auto simp: declare_overdue_def bindE_Inr split: if_splits)
qed simp

lemma escalate_stuck:
  assumes "stuck (bk_estate b) s" "su_standing s = ''Current''" "su_team s = inv_team iv"
  shows "Overdue \<in> reached \<Longrightarrow> \<exists>err. escalate env iv reached b = Inl err"
    and "Suspend \<notin> reached \<or> Overdue \<in> reached \<Longrightarrow> escalate env iv reached b = Inr (r, b') \<Longrightarrow> b' = b"
  using declare_overdue_stuck [OF assms, of env] by (auto simp: escalate_def Let_def bindE_Inr split: if_splits)

text \<open>What a retry had committed when the item raised keeps the bills too.\<close>

context collection_invariant
begin

lemma saved_keeps: "collect_saved env iv earlier now skipped base w = Some y \<Longrightarrow> P w \<longrightarrow> P base \<longrightarrow> P y"
proof -
  have "collect_saved e iv earlier now skipped base w = Some y \<Longrightarrow> e = env \<longrightarrow> P w \<longrightarrow> P base \<longrightarrow> P y" for e
  proof (induction rule: collect_saved.raw_induct [rotated, consumes 1, case_names step])
    case (step loop e iv earlier now skipped base w y)
    obtain r v where one: "charge_next_method e iv earlier skipped now w = (r, v)" by fastforce
    note run = step(2) [unfolded one prod.case]
    show ?case
    proof (intro impI)
      assume e: "e = env" and ok: "P w" "P base"
      note v = next_keeps [OF one [unfolded e] ok(1)]
      have base: "P (committed base w v)" using v ok(2) by (simp add: committed_def)
      show "P y"
      proof (cases r)
        case (Inl err)
        with run base show ?thesis by simp
      next
        case (Inr s)
        show ?thesis
        proof (cases s)
          case (Stop out) with run Inr base show ?thesis by simp
        next
          case (Rotate sk)
          with run Inr have "loop e iv earlier now sk (committed base w v) v = Some y" by simp
          from step(1) [OF this] e v base show ?thesis by blast
        qed
      qed
    qed
  qed
  then show "collect_saved env iv earlier now skipped base w = Some y \<Longrightarrow> P w \<longrightarrow> P base \<longrightarrow> P y" by blast
qed

end

lemma retry_saved_bills: "retry_saved env iv w = Some v \<Longrightarrow> one_row_each w \<Longrightarrow> same_bills w v"
  using bills.saved_keeps [of env iv _ _ _ w w v w] by (auto simp: retry_saved_def bills_kept_def split: if_splits)

text \<open>The status of the invoice and the standing of the teams are those the item found.\<close>

definition held_back :: "string \<Rightarrow> books \<Rightarrow> books \<Rightarrow> bool" where
  "held_back invoice b b' \<longleftrightarrow> bk_estate b' = bk_estate b
     \<and> map_option inv_status (find_invoice (bk_world b') invoice) = map_option inv_status (find_invoice (bk_world b) invoice)"

lemma held_back_bills: "bk_estate b' = bk_estate b \<Longrightarrow> same_bills (bk_world b) (bk_world b') \<Longrightarrow> held_back invoice b b'"
proof -
  assume "bk_estate b' = bk_estate b" and same: "same_bills (bk_world b) (bk_world b')"
  have "inv_status iv = inv_status (bill iv)" for iv by (simp add: bill_def)
  then have "map_option inv_status x = map_option inv_status (map_option bill x)" for x by (cases x) simp_all
  with same_bills_find [OF same, of invoice] have "map_option inv_status (find_invoice (bk_world b') invoice)
      = map_option inv_status (find_invoice (bk_world b) invoice)" by metis
  with \<open>bk_estate b' = bk_estate b\<close> show ?thesis by (simp add: held_back_def)
qed

lemma escalate_held_back:
  assumes "stuck (bk_estate b) s" "su_standing s = ''Current''" "su_team s = inv_team iv"
    and run: "escalate env iv (stages_reached (schedule_of pay dates) t) b = Inr (r, b')"
  shows "b' = b"
  using escalate_stuck(2) [OF assms(1-3) _ run] suspend_after_overdue by (auto simp: schedule_of_def)

lemma process_invoice_dunning_cases:
  assumes "process_invoice_dunning env invoice now b = Some (res, b')" "find_invoice (bk_world b) invoice = Some iv"
  obtains "b' = b"
  | dates r w where "retry_if_due (ge_pay env) iv (schedule_of (ge_pay env) dates) (clock (ge_pay env) now) (bk_world b) = Some (r, w)"
      "b' = b\<lparr>bk_world := w\<rparr>"
  | w where "retry_saved (ge_pay env) iv (bk_world b) = Some w" "b' = b\<lparr>bk_world := w\<rparr>"
  | dates r where "escalate env iv (stages_reached (schedule_of (ge_pay env) dates) (clock (ge_pay env) now)) b = Inr (r, b')"
  | dates r w iv' dates' x where
      "retry_if_due (ge_pay env) iv (schedule_of (ge_pay env) dates) (clock (ge_pay env) now) (bk_world b) = Some (r, w)"
      "find_invoice w invoice = Some iv'"
      "escalate env iv' (stages_reached (schedule_of (ge_pay env) dates') (clock (ge_pay env) now)) (b\<lparr>bk_world := w\<rparr>) = Inr (x, b')"
proof (cases "b' = b")
  case True
  then show thesis by (rule that(1))
next
  case left: False
  let ?t = "clock (ge_pay env) now" and ?w = "bk_world b"
  note run = assms(1) [unfolded process_invoice_dunning_def Let_def assms(2) option.case]
  have due: "\<not> inv_type iv \<noteq> ''Billable''" "\<not> (inv_status iv \<notin> set UNSETTLED \<or> inv_expected_collection iv \<le> 0)"
    "\<not> \<not> is_issued iv" using run left by (auto split: if_split_asm)
  note run = run [unfolded if_not_P [OF due(1)] if_not_P [OF due(2)] if_not_P [OF due(3)]]
  obtain dates where dates: "get_ladder_dates (ge_pay env) ?w iv = Inr dates"
    using run left by (cases "get_ladder_dates (ge_pay env) ?w iv") auto
  let ?sched = "schedule_of (ge_pay env) dates"
  have reached: "stages_reached ?sched ?t \<noteq> {}" using run left dates by auto
  obtain r w where retry: "retry_if_due (ge_pay env) iv ?sched ?t ?w = Some (r, w)"
    using run dates reached by (cases "retry_if_due (ge_pay env) iv ?sched ?t ?w") auto
  note run = run [unfolded dates sum.case if_not_P [OF reached] retry option.case prod.case]
  show thesis
  proof (cases r)
    case (Inl e)
    with run have "b' = b\<lparr>bk_world := w\<rparr>" by simp
    with retry show thesis by (rule that(2))
  next
    case (Inr res')
    show thesis
    proof (cases res')
      case None
      note run = run [unfolded Inr None sum.case option.case]
      obtain x where "escalate env iv (stages_reached ?sched ?t) b = Inr (x, b')"
        using run left by (auto split: sum.split_asm)
      then show thesis by (rule that(4))
    next
      case (Some charged)
      note run = run [unfolded Inr Some sum.case option.case]
      obtain v where v: "retry_saved (ge_pay env) iv ?w = Some v"
        using run by (cases "retry_saved (ge_pay env) iv ?w") simp_all
      note run = run [unfolded v option.case]
      have "b' = b\<lparr>bk_world := v\<rparr> \<or> b' = b\<lparr>bk_world := w\<rparr> \<or> (\<exists>iv' dates' x. find_invoice w invoice = Some iv'
          \<and> escalate env iv' (stages_reached (schedule_of (ge_pay env) dates') ?t) (b\<lparr>bk_world := w\<rparr>) = Inr (x, b'))"
        using run by (auto split: if_split_asm sum.split_asm option.split_asm)
      then show thesis using that(2) [OF retry] that(3) [OF v] that(5) [OF retry] by blast
    qed
  qed
qed

lemma dunning_held_back:
  assumes run: "process_invoice_dunning env invoice now b = Some (res, b')" and rows: "one_row_each (bk_world b)"
    and iv: "find_invoice (bk_world b) invoice = Some iv"
    and s: "stuck (bk_estate b) s" "su_standing s = ''Current''" "su_team s = inv_team iv"
  shows "held_back invoice b b'"
  using run iv
proof (cases rule: process_invoice_dunning_cases)
  case 1
  then show ?thesis by (simp add: held_back_bills)
next
  case (2 dates r w)
  with retry_payment_frame [OF 2(1) rows] show ?thesis by (simp add: held_back_bills)
next
  case (3 w)
  with retry_saved_bills [OF 3(1) rows] show ?thesis by (simp add: held_back_bills)
next
  case (4 dates r)
  from escalate_held_back [OF s 4] show ?thesis by (simp add: held_back_bills)
next
  case (5 dates r w iv' dates' x)
  note same = conjunct1 [OF conjunct2 [OF retry_payment_frame [OF 5(1) rows]]]
  have "su_team s = inv_team iv'" using retried_invoice [OF same iv 5(2)] s(3) by simp
  from escalate_held_back [OF _ s(2) this 5(3)] s(1) have "b' = b\<lparr>bk_world := w\<rparr>" by simp
  with same show ?thesis by (simp add: held_back_bills)
qed

text \<open>
  Property C40: moving a team to Past Due is one loop that nothing contains, so a single Current subscription in a
  disabled project holds the dunning of the team's unpaid invoice back for good. Whatever a run on the invoice
  answers, and whether or not it charged a retry first, it leaves every standing as it was and the invoice in the status
  it had: the invoice is never Overdue nor the team ever suspended. A run that reaches Overdue and has no
  retry to charge (no rail the team can be debited on, or an attempt since the last retry time) raises, and
  leaves the books as it found them.
\<close>

lemma disabled_project_stops_dunning:
  assumes iv: "find_invoice (bk_world b) invoice = Some iv" and rows: "one_row_each (bk_world b)"
    and s: "stuck (bk_estate b) s" "su_standing s = ''Current''" "su_team s = inv_team iv"
  shows "(\<forall>res b'. process_invoice_dunning env invoice now b = Some (res, b') \<longrightarrow>
        bk_estate b' = bk_estate b
        \<and> map_option inv_status (find_invoice (bk_world b') invoice) = Some (inv_status iv))
     \<and> (inv_type iv = ''Billable'' \<and> inv_status iv \<in> set UNSETTLED \<and> 0 < inv_expected_collection iv \<and> is_issued iv
        \<and> get_ladder_dates (ge_pay env) (bk_world b) iv = Inr dates
        \<and> overdue_time dates (policy_of (pe_settings (ge_pay env))) \<le> clock (ge_pay env) now
        \<and> \<not> (has_retry_rail iv (bk_world b)
             \<and> is_retry_due invoice (schedule_of (ge_pay env) dates) (clock (ge_pay env) now) (bk_world b)) \<longrightarrow>
        (\<exists>err. process_invoice_dunning env invoice now b = Some (Inl err, b)))"
proof (intro conjI impI allI; (elim conjE)?)
  fix res b'
  assume "process_invoice_dunning env invoice now b = Some (res, b')"
  note held = dunning_held_back [OF this rows iv s]
  then show "bk_estate b' = bk_estate b" by (simp add: held_back_def)
  from held iv show "map_option inv_status (find_invoice (bk_world b') invoice) = Some (inv_status iv)" by (simp add: held_back_def)
next
  assume due: "inv_type iv = ''Billable''" "inv_status iv \<in> set UNSETTLED" "0 < inv_expected_collection iv" "is_issued iv"
    and dates: "get_ladder_dates (ge_pay env) (bk_world b) iv = Inr dates"
    and late: "overdue_time dates (policy_of (pe_settings (ge_pay env))) \<le> clock (ge_pay env) now"
    and no_retry: "\<not> (has_retry_rail iv (bk_world b)
         \<and> is_retry_due invoice (schedule_of (ge_pay env) dates) (clock (ge_pay env) now) (bk_world b))"
  let ?reached = "stages_reached (schedule_of (ge_pay env) dates) (clock (ge_pay env) now)"
  have overdue: "Overdue \<in> ?reached" using late by (simp add: schedule_of_def reached_iff)
  then have "?reached \<noteq> {}" by blast
  moreover from escalate_stuck(1) [OF s overdue] obtain err where "escalate env iv ?reached b = Inl err" ..
  ultimately show "\<exists>err. process_invoice_dunning env invoice now b = Some (Inl err, b)"
    using iv due dates no_retry find_invoice_name [OF iv] by (auto simp: process_invoice_dunning_def Let_def retry_if_due_def)
qed


section \<open>An unpaid month\<close>

definition dunning_env :: gen_env where
  "dunning_env = \<lparr>ge_pay = pay_env_with (Inr declined), ge_sub = example_sub_env, ge_snapshot_region = Map.empty,
     ge_project_title = id, ge_amount_text = (\<lambda>_. ''few'')\<rparr>"

definition unpaid_invoice :: invoice where
  "unpaid_invoice = due_invoice\<lparr>inv_team := ''t''\<rparr>"

definition unpaid_world :: world where
  "unpaid_world = due_world\<lparr>pw_methods := [], pw_invoices := [unpaid_invoice]\<rparr>"

definition unpaid_books :: "estate \<Rightarrow> books" where
  "unpaid_books es = \<lparr>bk_world = unpaid_world, bk_estate = es, bk_rollups = [], bk_commitments = [],
     bk_outcomes = [], bk_lines = [], bk_series = (\<lambda>_. 0), bk_runs = []\<rparr>"

lemma unpaid_simps: "find_invoice unpaid_world ''INV-1'' = Some unpaid_invoice" "bk_estate (unpaid_books es) = es"
  "bk_world (unpaid_books es) = unpaid_world" "one_row_each unpaid_world" "inv_team unpaid_invoice = ''t''"
  "inv_name unpaid_invoice = ''INV-1''" "inv_suspends_on unpaid_invoice = Some 739812" "inv_type unpaid_invoice = ''Billable''"
  "inv_status unpaid_invoice = ''Outstanding''" "inv_expected_collection unpaid_invoice = 1180" "is_issued unpaid_invoice"
  by (simp_all add: unpaid_books_def unpaid_world_def unpaid_invoice_def find_invoice_def one_row_each_def is_issued_def)

definition unpaid_dates :: ladder_dates where
  "unpaid_dates = \<lparr>wd_anchor = 739802, wd_retry_until = 739805, wd_suspends_on = 739812, wd_is_deferred = False,
     ld_first_failed_at = None, ld_in_flight_since = None, ld_is_awaiting_charge = False\<rparr>"

lemma unpaid_ladder: "get_ladder_dates (ge_pay dunning_env) unpaid_world unpaid_invoice = Inr unpaid_dates"
  by code_simp

lemma unpaid_rail: "\<not> has_retry_rail unpaid_invoice unpaid_world"
  by code_simp

lemma unpaid_reached: "stages_reached (schedule_of (ge_pay dunning_env) unpaid_dates) (at_midnight 739812) = {Retry, Overdue, Suspend}"
  by code_simp

definition unpaid_escalated :: "(string list \<times> string option) \<times> books" where
  "unpaid_escalated = (case escalate dunning_env unpaid_invoice {Retry, Overdue, Suspend} (unpaid_books example_estate) of
     Inr r \<Rightarrow> r | Inl _ \<Rightarrow> (([], None), unpaid_books example_estate))"

lemma unpaid_escalates: "escalate dunning_env unpaid_invoice {Retry, Overdue, Suspend} (unpaid_books example_estate) = Inr unpaid_escalated"
proof -
  have "case escalate dunning_env unpaid_invoice {Retry, Overdue, Suspend} (unpaid_books example_estate) of Inr _ \<Rightarrow> True | Inl _ \<Rightarrow> False"
    by code_simp
  then show ?thesis by (auto simp: unpaid_escalated_def split: sum.splits)
qed

lemma unpaid_run: "process_invoice_dunning dunning_env ''INV-1'' (Some (at_midnight 739812)) (unpaid_books example_estate)
    = Some (Inr (Dunned 10 (fst (fst unpaid_escalated)) (snd (fst unpaid_escalated))), snd unpaid_escalated)"
proof -
  have "wd_anchor unpaid_dates = 739802" by (simp add: unpaid_dates_def)
  with unpaid_ladder unpaid_rail unpaid_escalates show ?thesis
    by (simp add: process_invoice_dunning_def unpaid_simps Let_def unpaid_reached retry_if_due_def clock_def UNSETTLED_def case_prod_beta)
qed

lemma unpaid_end: "map_option inv_suspends_on (find_invoice (bk_world (snd unpaid_escalated)) ''INV-1'') = Some (Some 739812)"
  "fst (fst unpaid_escalated) = [''overdue'', ''suspend'']"
  by code_simp+

theorem dunning_follows_ladder_witness:
  "map_option inv_status (find_invoice (bk_world (snd unpaid_escalated)) ''INV-1'') = Some ''Overdue''
    \<and> ''Current'' \<notin> su_standing ` set (filter (\<lambda>s. su_team s = ''t'') (es_subs (bk_estate (snd unpaid_escalated))))"
proof -
  have "estate_wf (bk_estate (unpaid_books example_estate))" by (simp add: unpaid_simps example_estate_ok)
  from dunning_follows_ladder [OF unpaid_run this, unfolded unpaid_simps, OF _ refl]
  show ?thesis using unpaid_end(1) by (auto simp: unpaid_simps clock_def)
qed


definition disabled_estate :: estate where
  "disabled_estate = shared_estate\<lparr>es_subs := [(sub_on ''a'' ''v1'')\<lparr>su_project := Some ''q''\<rparr>, sub_on ''b'' ''v2'']\<rparr>"

theorem disabled_project_stops_dunning_witness:
  "\<exists>err. process_invoice_dunning dunning_env ''INV-1'' (Some (at_midnight 739812)) (unpaid_books disabled_estate)
     = Some (Inl err, unpaid_books disabled_estate)"
proof -
  let ?s = "(sub_on ''a'' ''v1'')\<lparr>su_project := Some ''q''\<rparr>"
  have stuck: "stuck (bk_estate (unpaid_books disabled_estate)) ?s" "su_standing ?s = ''Current''" "su_team ?s = inv_team unpaid_invoice"
    by (simp_all add: unpaid_simps stuck_def standing_examples disabled_estate_def in_disabled_project_def find_project_def
        duplicate_subscription_def duplicate_service_subject_def truthy_def)
  have late: "overdue_time unpaid_dates (policy_of (pe_settings (ge_pay dunning_env))) \<le> clock (ge_pay dunning_env) (Some (at_midnight 739812))"
    by code_simp
  have "find_invoice (bk_world (unpaid_books disabled_estate)) ''INV-1'' = Some unpaid_invoice"
    "one_row_each (bk_world (unpaid_books disabled_estate))" by (simp_all add: unpaid_simps)
  from disabled_project_stops_dunning [OF this stuck, of dunning_env "Some (at_midnight 739812)" unpaid_dates] late
  show ?thesis by (simp add: unpaid_simps unpaid_ladder unpaid_rail UNSETTLED_def)
qed

end
