(* ===== verification/Dunning_Retries.thy ===== *)
theory Dunning_Retries
  imports Dunning_Properties
begin

text \<open>
  The dunning run again and again on one invoice: a charge it made leaves a row that holds back the
  next one until another retry time of the ladder has passed.
\<close>

section \<open>One round per retry time\<close>

lemma moves_creation:
  assumes "moves env w w'"
  shows "\<forall>a \<in> set (pw_attempts w'). at_creation a = pe_now env
    \<or> (\<exists>b \<in> set (pw_attempts w). at_name b = at_name a \<and> at_creation b = at_creation a)"
  using assms
proof (induction rule: rtranclp_induct)
  case (step v v')
  from step.hyps(2) show ?case
  proof cases
    case (frame)
    with step.IH show ?thesis by simp
  next
    case (advance a a')
    have a: "a \<in> set (pw_attempts v)" using find_attempt_in [OF advance(2)] by simp
    have same: "at_name a' = at_name a" "at_creation a' = at_creation a" using advance(3) by (simp_all add: same_charge_def)
    have "x = a' \<or> x \<in> set (pw_attempts v)" if "x \<in> set (pw_attempts v')" for x
      using that advance(1) by (auto simp: put_attempt_def split: if_splits)
    with step.IH a same show ?thesis by metis
  next
    case (claim a name)
    have "x \<in> set (pw_attempts v) \<or> at_creation x = pe_now env" if "x \<in> set (pw_attempts v')" for x
      using that claim(4) by (auto simp: insert_attempt_def Let_def split: if_splits)
    with step.IH show ?thesis by blast
  next
    case (drop a)
    with step.IH show ?thesis by auto
  qed
qed auto

lemma retry_leaves_trace:
  assumes ok: "collection_ok env w" and run: "retry_if_due env iv schedule now w = Some (Inr res, w')"
    and grew: "pw_attempts w' \<noteq> pw_attempts w"
  shows "\<exists>a \<in> set (attempts_for (inv_name iv) w'). at_creation a = pe_now env"
proof -
  obtain r v new where c: "collect_invoice env (inv_name iv) True None w = Some (r, v)" "collects env w v"
    "pw_attempts v = pw_attempts w @ new"
    and new: "new = [] \<or> (\<exists>j names. inv_name j = inv_name iv \<and> rotation j names new)"
    using collect_invoice_ends [OF ok, of "inv_name iv" True None] by blast
  have v: "pw_attempts w' = pw_attempts v"
  proof (cases "\<not> has_retry_rail iv w \<or> \<not> is_retry_due (inv_name iv) schedule now w")
    case True
    with run grew show ?thesis by (simp add: retry_if_due_def)
  next
    case False
    with run have "(case r of Inl e \<Rightarrow> (Inl e, v) | Inr x \<Rightarrow> (Inr (Some x), notify_retry_failed (inv_name iv) v)) = (Inr res, w')"
      by (auto simp: retry_if_due_def retry_payment_def c(1) split: sum.splits)
    then show ?thesis by (auto simp: notify_retry_failed_def Let_def split: sum.splits if_splits)
  qed
  with grew c(3) obtain a where a: "a \<in> set new" by (metis append_Nil2 last_in_set)
  with new have inv: "at_invoice a = inv_name iv" by (auto simp: rotation_def)
  have "log_ok env v" using moves_ok [of env w v] c(2) ok by (simp add: collects_def collection_ok_def)
  then have "distinct (map at_name (pw_attempts v))" by (rule log_okD)
  with c(3) a have "at_name b \<noteq> at_name a" if "b \<in> set (pw_attempts w)" for b using that by (force simp: image_iff)
  moreover have "a \<in> set (pw_attempts v)" using a c(3) by simp
  ultimately have "at_creation a = pe_now env" using moves_creation c(2) by (fastforce simp: collects_def)
  with inv a v c(3) show ?thesis by (auto simp: attempts_for_def)
qed

lemma declare_attempts:
  "declare_overdue env iv b = Inr (acts, b') \<Longrightarrow> pw_attempts (bk_world b') = pw_attempts (bk_world b)"
  by (auto simp: declare_overdue_def bindE_Inr save_invoice_def split: if_splits)

lemma escalate_attempts:
  assumes run: "escalate env iv reached b = Inr (r, b')"
  shows "pw_attempts (bk_world b') = pw_attempts (bk_world b)"
proof -
  from run obtain acts b1 s where first: "(if Overdue \<in> reached then declare_overdue env iv b else Inr ([], b)) = Inr (acts, b1)"
    and second: "b' = b1 \<or> suspend_team env iv b1 = Inr (s, b')"
    by (auto simp: escalate_def Let_def bindE_Inr split: if_splits)
  from first have "pw_attempts (bk_world b1) = pw_attempts (bk_world b)" using declare_attempts by (auto split: if_splits)
  with second suspend_team_Inr(2) show ?thesis by metis
qed

lemma item_retry:
  assumes run: "process_invoice_dunning env n now b = Some (res, b')" and grew: "pw_attempts (bk_world b') \<noteq> pw_attempts (bk_world b)"
  obtains iv dates r w' where "find_invoice (bk_world b) n = Some iv" "get_ladder_dates (ge_pay env) (bk_world b) iv = Inr dates"
    "retry_if_due (ge_pay env) iv (schedule_of (ge_pay env) dates) (clock (ge_pay env) now) (bk_world b) = Some (r, w')"
    "r \<noteq> Inr None" "\<And>x. res = Inr x \<Longrightarrow> pw_attempts (bk_world b') = pw_attempts w' \<and> (\<exists>o'. r = Inr o')"
proof -
  have idle: "res' = Inr None \<Longrightarrow> v = w" if "retry_if_due e iv sc t w = Some (res', v)" for e iv sc t w res' v
    using that by (auto simp: retry_if_due_def retry_payment_def split: if_splits option.splits sum.splits) (metis sum.exhaust)
  obtain iv where iv: "find_invoice (bk_world b) n = Some iv"
    using run grew by (cases "find_invoice (bk_world b) n") (auto simp: process_invoice_dunning_def Let_def)
  obtain dates where dates: "get_ladder_dates (ge_pay env) (bk_world b) iv = Inr dates"
    using run grew iv by (cases "get_ladder_dates (ge_pay env) (bk_world b) iv") (auto simp: process_invoice_dunning_def Let_def split: if_splits)
  note run = run [unfolded process_invoice_dunning_def Let_def iv option.simps dates sum.simps]
  obtain r w' where retry: "retry_if_due (ge_pay env) iv (schedule_of (ge_pay env) dates) (clock (ge_pay env) now) (bk_world b) = Some (r, w')"
    using run grew by (auto split: if_splits option.splits)
  show thesis
  proof (rule that [OF iv dates retry])
    show "r \<noteq> Inr None"
    proof
      assume r: "r = Inr None"
      with idle [OF retry] have "w' = bk_world b" by simp
      with run grew retry r escalate_attempts show False by (auto split: if_splits sum.splits)
    qed
    fix x assume "res = Inr x"
    with run grew retry escalate_attempts [of env _ _ "b\<lparr>bk_world := w'\<rparr>"] escalate_attempts
    show "pw_attempts (bk_world b') = pw_attempts w' \<and> (\<exists>o'. r = Inr o')"
      by (auto split: if_splits sum.splits option.splits)
  qed
qed


text \<open>
  Property C24: the dunning charges an invoice at most one round per retry time. Once a run has charged it, whatever
  becomes of those charges, no later run on it charges again before another retry time of its ladder
  has passed since.
\<close>

theorem one_round_per_retry_time:
  assumes ok: "collection_ok (ge_pay env) (bk_world b)"
    and first: "process_invoice_dunning env invoice now b = Some (Inr r, b1)" "pw_attempts (bk_world b1) \<noteq> pw_attempts (bk_world b)"
    and kept: "\<forall>a \<in> set (pw_attempts (bk_world b1)). \<exists>a' \<in> set (pw_attempts (bk_world b2)). same_charge a a'"
    and later: "process_invoice_dunning env' invoice now' b2 = Some (res, b3)"
  shows "pw_attempts (bk_world b3) = pw_attempts (bk_world b2)
    \<or> (\<exists>iv dates s. find_invoice (bk_world b2) invoice = Some iv \<and> get_ladder_dates (ge_pay env') (bk_world b2) iv = Inr dates
        \<and> s \<in> set (schedule_of (ge_pay env') dates) \<and> sg_stage s = Retry
        \<and> pe_now (ge_pay env) < sg_at s \<and> sg_at s \<le> clock (ge_pay env') now')"
proof -
  have "?thesis" if grew: "pw_attempts (bk_world b3) \<noteq> pw_attempts (bk_world b2)"
  proof -
    obtain iv1 dates1 o1 w1 where one: "find_invoice (bk_world b) invoice = Some iv1"
      "retry_if_due (ge_pay env) iv1 (schedule_of (ge_pay env) dates1) (clock (ge_pay env) now) (bk_world b) = Some (Inr o1, w1)"
      "pw_attempts (bk_world b1) = pw_attempts w1"
      by (rule item_retry [OF first]) blast
    from retry_leaves_trace [OF ok one(2)] first(2) one(3) find_invoice_name [OF one(1)]
    obtain a where a: "a \<in> set (pw_attempts (bk_world b1))" "at_invoice a = invoice" "at_creation a = pe_now (ge_pay env)"
      by (auto simp: attempts_for_def)
    with kept obtain a' where a': "a' \<in> set (attempts_for invoice (bk_world b2))" "at_creation a' = pe_now (ge_pay env)"
      by (fastforce simp: attempts_for_def same_charge_def)
    obtain iv dates o2 w2 where two: "find_invoice (bk_world b2) invoice = Some iv"
      "get_ladder_dates (ge_pay env') (bk_world b2) iv = Inr dates"
      "retry_if_due (ge_pay env') iv (schedule_of (ge_pay env') dates) (clock (ge_pay env') now') (bk_world b2) = Some (o2, w2)"
      "o2 \<noteq> Inr None"
      by (rule item_retry [OF later grew]) blast
    then have due: "is_retry_due invoice (schedule_of (ge_pay env') dates) (clock (ge_pay env') now') (bk_world b2)"
      using find_invoice_name [OF two(1)] by (auto simp: retry_if_due_def split: if_splits)
    let ?reached = "filter (\<lambda>s. sg_stage s = Retry \<and> sg_at s \<le> clock (ge_pay env') now') (schedule_of (ge_pay env') dates)"
    from due have some: "?reached \<noteq> []" and "\<not> list_ex (\<lambda>a. at_creation a \<ge> last (map sg_at ?reached)) (attempts_for invoice (bk_world b2))"
      by (auto simp: is_retry_due_def Let_def)
    with a' have "pe_now (ge_pay env) < sg_at (last ?reached)" by (fastforce simp: list_ex_iff last_map)
    moreover have "last ?reached \<in> set ?reached" by (rule last_in_set [OF some])
    ultimately show ?thesis using two(1,2) unfolding set_filter by blast
  qed
  then show ?thesis by blast
qed

section \<open>An invoice charged and run again\<close>

definition charged_books :: books where
  "charged_books = (unpaid_books example_estate)\<lparr>bk_world := due_world\<rparr>"


definition paying_env :: gen_env where
  "paying_env = dunning_env\<lparr>ge_pay := pay_env_with (Inr approved)\<rparr>"

definition charged_world :: world where
  "charged_world = snd (charge_next_method (ge_pay paying_env) due_invoice (Some []) [] None due_world)"

definition charged :: collect_outcome where
  "charged = Charge_result \<lparr>py_charged = True, py_reason = None, py_attempt = Some [], py_status = Some ''Captured'',
     py_failure_code = None, py_hold_until = None\<rparr>"

lemma charged_step: "charge_next_method (ge_pay paying_env) due_invoice (Some []) [] None due_world = (Inr (Stop charged), charged_world)"
proof -
  have "fst (charge_next_method (ge_pay paying_env) due_invoice (Some []) [] None due_world) = Inr (Stop charged)" by code_simp
  then show ?thesis by (simp add: charged_world_def prod_eq_iff)
qed

lemma charged_reads: "find_invoice charged_world ''INV-1'' = Some due_invoice" "pw_attempts charged_world \<noteq> []"
  "map at_status (attempts_for ''INV-1'' charged_world) = [''Captured'']"
  "is_internal_team (pw_profiles due_world) ''t1'' = False"
  by code_simp+

definition charged_dates :: ladder_dates where
  "charged_dates = unpaid_dates\<lparr>ld_in_flight_since := Some (at_midnight 739810), ld_is_awaiting_charge := True\<rparr>"

lemma charging_ladder: "get_ladder_dates (ge_pay paying_env) due_world due_invoice = Inr unpaid_dates"
  "has_retry_rail due_invoice due_world"
  "is_retry_due ''INV-1'' (schedule_of (ge_pay paying_env) unpaid_dates) (at_midnight 739810) due_world"
  "Retry \<in> stages_reached (schedule_of (ge_pay paying_env) unpaid_dates) (at_midnight 739810)"
  "get_ladder_dates (ge_pay paying_env) charged_world due_invoice = Inr charged_dates"
  "attempts_of ''INV-1'' due_world = []"
  by code_simp+

definition charged_result :: "((string list \<times> string option) \<times> books)" where
  "charged_result = (case escalate paying_env due_invoice (stages_reached (schedule_of (ge_pay paying_env) charged_dates) (at_midnight 739810))
     (charged_books\<lparr>bk_world := charged_world\<rparr>) of Inr r \<Rightarrow> r | Inl _ \<Rightarrow> (([], None), charged_books))"

lemma charged_escalates: "escalate paying_env due_invoice (stages_reached (schedule_of (ge_pay paying_env) charged_dates) (at_midnight 739810))
    (charged_books\<lparr>bk_world := charged_world\<rparr>) = Inr charged_result"
proof -
  have "case escalate paying_env due_invoice (stages_reached (schedule_of (ge_pay paying_env) charged_dates) (at_midnight 739810))
      (charged_books\<lparr>bk_world := charged_world\<rparr>) of Inr _ \<Rightarrow> True | Inl _ \<Rightarrow> False" by code_simp
  then show ?thesis by (auto simp: charged_result_def split: sum.splits)
qed

lemma charged_retry: "retry_if_due (ge_pay paying_env) due_invoice (schedule_of (ge_pay paying_env) unpaid_dates) (at_midnight 739810) due_world
    = Some (Inr (Some charged), charged_world)"
proof -
  have "collect_loop (ge_pay paying_env) due_invoice (Some []) None [] due_world due_world = Some (Inr charged, charged_world)"
    by (simp add: collect_loop.simps charged_step)
  then have "collect_invoice (ge_pay paying_env) ''INV-1'' True None due_world = Some (Inr charged, charged_world)"
    using charged_reads(4) charging_ladder(6) by (simp add: collect_invoice_def)
  moreover have "notify_retry_failed ''INV-1'' charged_world = charged_world"
  proof -
    have "at_status (last (sort_key at_creation (attempts_for ''INV-1'' charged_world))) = ''Captured''"
      using charged_reads(3) by (auto simp: map_eq_Cons_conv)
    then show ?thesis by (simp add: notify_retry_failed_def Let_def)
  qed
  ultimately show ?thesis using charging_ladder(2,3) by (simp add: retry_if_due_def retry_payment_def)
qed

lemma charged_run: "\<exists>r. process_invoice_dunning paying_env ''INV-1'' None charged_books = Some (Inr r, snd charged_result)"
proof -
  have saved: "\<exists>v. retry_saved (ge_pay paying_env) due_invoice due_world = Some v"
    using charged_reads(4) charging_ladder(6) by (simp add: retry_saved_def collect_saved.simps charged_step)
  have now: "clock (ge_pay paying_env) None = at_midnight 739810" by code_simp
  have w: "bk_world charged_books = due_world" by (simp add: charged_books_def)
  have "stages_reached (schedule_of (ge_pay paying_env) unpaid_dates) (at_midnight 739810) \<noteq> {}" using charging_ladder(4) by blast
  with saved charged_escalates charged_retry charging_ladder(1,5) charged_reads(1) show ?thesis
    by (auto simp: process_invoice_dunning_def now w Let_def UNSETTLED_def is_issued_def case_prod_beta)
qed

text \<open>A second run at the same moment finds the charge of the first and makes no other.\<close>

theorem one_round_per_retry_time_witness:
  "\<exists>r b. process_invoice_dunning paying_env ''INV-1'' None charged_books = Some (Inr r, b)
    \<and> (case process_invoice_dunning paying_env ''INV-1'' None b of
        None \<Rightarrow> True | Some (_, b') \<Rightarrow> pw_attempts (bk_world b') = pw_attempts (bk_world b)) \<and> pw_attempts (bk_world b) \<noteq> []"
proof -
  obtain r where first: "process_invoice_dunning paying_env ''INV-1'' None charged_books = Some (Inr r, snd charged_result)"
    using charged_run by blast
  have "escalate paying_env due_invoice (stages_reached (schedule_of (ge_pay paying_env) charged_dates) (at_midnight 739810))
      (charged_books\<lparr>bk_world := charged_world\<rparr>) = Inr (fst charged_result, snd charged_result)" by (simp add: charged_escalates)
  from escalate_attempts [OF this] have some: "pw_attempts (bk_world (snd charged_result)) \<noteq> []" using charged_reads(2) by simp
  have none: "pw_attempts (bk_world charged_books) = []" by (simp add: charged_books_def)
  have ok: "collection_ok (ge_pay paying_env) (bk_world charged_books)"
    using due_world_collection by (simp add: charged_books_def paying_env_def)
  have now: "clock (ge_pay paying_env) None = pe_now (ge_pay paying_env)" by (simp add: clock_def)
  have kept: "\<forall>a \<in> X. \<exists>a' \<in> X. same_charge a a'" for X by (auto simp: same_charge_def)
  have "pw_attempts (bk_world b') = pw_attempts (bk_world (snd charged_result))"
    if "process_invoice_dunning paying_env ''INV-1'' None (snd charged_result) = Some (x, b')" for x b'
    using one_round_per_retry_time [OF ok first _ kept that] some none by (auto simp: now)
  with first some show ?thesis by (fastforce split: option.split)
qed

end
