(* ===== verification/Funding.thy ===== *)
theory Funding
  imports Lifecycle Billing_Run
begin

text \<open>
  What a team can pay with (\<open>payments/settlement.py\<close>) and the gate that added spend passes
  (\<open>require_payment_method_or_credit\<close> in \<open>resource_actions.py\<close>): the wallet bounds a team that has no
  other way to pay. An operation that takes the wallet's lock returns the world with the wallet's row.
\<close>

section \<open>Sources\<close>

text \<open>
  The subscriptions' environment, the \<open>method_type\<close> of a Payment Method, \<open>require_payment_method\<close> of the
  Central Settings, the share of the balance a forecast warns at, and the teams a notice does not reach.
\<close>

record fund_env =
  fu_pay :: pay_env
  fu_sub :: sub_env
  fu_method_type :: "string \<Rightarrow> string"
  fu_require_method :: bool
  fu_notify_ratio :: rat
  fu_unreachable :: "string \<Rightarrow> bool"

record sources =
  so_has_autopay :: bool
  so_has_credits :: bool
  so_has_any :: bool
  so_credits_only :: bool

record forecast =
  fc_balance :: money
  fc_projected :: money
  fc_utilisation :: rat
  fc_notify :: bool
  fc_shortfall :: money

definition AUTOPAY_METHODS :: "string list" where
  "AUTOPAY_METHODS = [''Card'', ''UPI Autopay'']"

definition wallet_of :: "fund_env \<Rightarrow> string \<Rightarrow> world \<Rightarrow> money" where
  "wallet_of env team w = fst (get_balance (pe_team_currency (fu_pay env)) team None (pw_ledger w))"

definition settlement_sources :: "fund_env \<Rightarrow> string \<Rightarrow> world \<Rightarrow> sources" where
  "settlement_sources env team w =
     (let has_autopay = list_ex (\<lambda>m. pm_team m = team \<and> fu_method_type env (pm_name m) \<in> set AUTOPAY_METHODS
            \<and> pm_status m = ''Active'') (pw_methods w);
          has_credits = wallet_of env team w > 0
      in \<lparr>so_has_autopay = has_autopay, so_has_credits = has_credits, so_has_any = has_autopay \<or> has_credits,
          so_credits_only = has_credits \<and> \<not> has_autopay\<rparr>)"

definition ensure_settlement_source :: "fund_env \<Rightarrow> string \<Rightarrow> world \<Rightarrow> error option" where
  "ensure_settlement_source env team w =
     (if \<not> so_has_any (settlement_sources env team w) then Some (ValidationError ''A team needs a settlement source'') else None)"

definition tier_cap :: "fund_env \<Rightarrow> string \<Rightarrow> money" where
  "tier_cap env team = cap_max_spend (get_team_caps (se_levels (fu_sub env)) (se_tiers (fu_sub env)) team)"

definition effective_spend_cap :: "fund_env \<Rightarrow> string \<Rightarrow> world \<Rightarrow> money" where
  "effective_spend_cap env team w =
     (if so_credits_only (settlement_sources env team w) then min (tier_cap env team) (wallet_of env team w) else tier_cap env team)"

definition can_accept_spend :: "fund_env \<Rightarrow> string \<Rightarrow> money \<Rightarrow> world \<Rightarrow> bool" where
  "can_accept_spend env team projected w \<longleftrightarrow> projected \<le> effective_spend_cap env team w"

section \<open>Headroom on credit\<close>

definition details_overdue :: "fund_env \<Rightarrow> string \<Rightarrow> world \<Rightarrow> bool" where
  "details_overdue env team w \<longleftrightarrow>
     (let cutoff = dt_date (pe_now (fu_pay env)) - billing_details_grace_days (pe_settings (fu_pay env))
      in held_drafts (fu_pay env) (Some team) (Some cutoff) (Some 1) w \<noteq> [] \<and> get_missing_fields (pw_profiles w) team \<noteq> [])"

definition credit_funded_headroom :: "fund_env \<Rightarrow> string \<Rightarrow> bool \<Rightarrow> estate \<Rightarrow> world \<Rightarrow> error + money \<times> world" where
  "credit_funded_headroom env team for_update es w =
     (if details_overdue env team w then Inr (0, w)
      else bindE (if for_update
                  then bindE (lock_team_wallet (pe_team_currency (fu_pay env)) team None (pw_ledger w))
                         (\<lambda>(balance, l). Inr (balance, locked_team_run_rate es team None, w\<lparr>pw_ledger := l\<rparr>))
                  else Inr (wallet_of env team w, team_run_rate es team None, w))
             (\<lambda>(balance, running, w). Inr (max 0 (min (tier_cap env team) balance - running), w)))"

definition wallet_funds :: "fund_env \<Rightarrow> string \<Rightarrow> money option \<Rightarrow> estate \<Rightarrow> world \<Rightarrow> error + bool \<times> world" where
  "wallet_funds env team new_rate es w = (case new_rate of
     None \<Rightarrow> Inr (False, w)
   | Some r \<Rightarrow> bindE (credit_funded_headroom env team True es w) (\<lambda>(room, w). Inr (r \<le> room, w)))"

section \<open>The gate\<close>

definition has_overdue_invoice :: "string \<Rightarrow> world \<Rightarrow> bool" where
  "has_overdue_invoice team w \<longleftrightarrow>
     list_ex (\<lambda>iv. inv_team iv = team \<and> inv_type iv = ''Billable'' \<and> inv_status iv = ''Overdue'') (pw_invoices w)"

definition is_behind_on_payment :: "string \<Rightarrow> estate \<Rightarrow> world \<Rightarrow> bool" where
  "is_behind_on_payment team es w \<longleftrightarrow> has_overdue_invoice team w
     \<or> list_ex (\<lambda>s. su_team s = team \<and> su_standing s \<in> {''Past Due'', ''Suspended''}) (es_subs es)"

definition has_paid_by_hand :: "string \<Rightarrow> world \<Rightarrow> bool" where
  "has_paid_by_hand team w \<longleftrightarrow> collection_mode team w = Some ''Manual Checkout''
     \<and> list_ex (\<lambda>iv. inv_team iv = team \<and> inv_type iv = ''Billable'' \<and> inv_status iv = ''Paid'' \<and> inv_amount_paid iv > 0) (pw_invoices w)"

definition has_active_payment_method :: "string \<Rightarrow> world \<Rightarrow> bool" where
  "has_active_payment_method team w \<longleftrightarrow> list_ex (\<lambda>m. pm_team m = team \<and> pm_status m = ''Active'') (pw_methods w)"

definition require_payment_method_or_credit :: "fund_env \<Rightarrow> string \<Rightarrow> money \<Rightarrow> estate \<Rightarrow> world \<Rightarrow> error + world" where
  "require_payment_method_or_credit env team added es w =
     (if is_behind_on_payment team es w then Inl (ValidationError ''PAYMENT_OVERDUE'')
      else bindE (wallet_funds env team (Some added) es w) (\<lambda>(funded, w).
        if funded then Inr w
        else if \<not> fu_require_method env then bindE (require_billing_profile (pw_profiles w) team) (\<lambda>_. Inr w)
        else if is_complete (pw_profiles w) team \<and> (has_active_payment_method team w \<or> has_paid_by_hand team w) then Inr w
        else Inl (ValidationError ''PAYMENT_METHOD_REQUIRED'')))"

text \<open>The subscriptions with this gate, over the tables it reads.\<close>

definition gated :: "fund_env \<Rightarrow> estate \<Rightarrow> world \<Rightarrow> sub_env" where
  "gated env es w = (fu_sub env)\<lparr>se_payment_gate := (\<lambda>team added. case require_payment_method_or_credit env team added es w of
     Inl e \<Rightarrow> Some e | Inr _ \<Rightarrow> None)\<rparr>"

section \<open>Forecast and reminders\<close>

definition credit_forecast :: "fund_env \<Rightarrow> string \<Rightarrow> money \<Rightarrow> bool \<Rightarrow> world \<Rightarrow> forecast \<times> world" where
  "credit_forecast env team projected notify_team w =
     (let balance = wallet_of env team w;
          utilisation = (if balance > 0 then projected / balance else if projected > 0 then 1 else 0);
          should_notify = utilisation \<ge> fu_notify_ratio env
      in (\<lparr>fc_balance = balance, fc_projected = projected, fc_utilisation = utilisation, fc_notify = should_notify,
           fc_shortfall = max 0 (projected - balance)\<rparr>,
          if notify_team \<and> should_notify then notify team ''Credit Low'' '''' w else w))"

definition BILLING_DETAILS_ASK :: string where
  "BILLING_DETAILS_ASK = ''Billing Details Required''"

definition run_billing_details_reminder :: "books \<Rightarrow> string list list" where
  "run_billing_details_reminder b = team_pages PAGE_SIZE True b"

definition teams_missing_details :: "string list \<Rightarrow> world \<Rightarrow> (string \<times> string list) list" where
  "teams_missing_details teams w =
     filter (\<lambda>(team, labels). labels \<noteq> []) (map (\<lambda>team. (team, map field_label (get_missing_fields_of (pw_profiles w team)))) teams)"

definition ask_for_details :: "fund_env \<Rightarrow> string \<Rightarrow> world \<Rightarrow> nat \<times> world" where
  "ask_for_details env team w =
     (if fu_unreachable env team then (0, review team ''Billing details reminder failed'' w)
      else (1, notify team BILLING_DETAILS_ASK '''' w))"

fun ask_each :: "fund_env \<Rightarrow> string list \<Rightarrow> world \<Rightarrow> nat \<times> world" where
  "ask_each env [] w = (0, w)"
| "ask_each env (team # teams) w =
     (let (k, w) = ask_for_details env team w; (n, w) = ask_each env teams w in (k + n, w))"

text \<open>\<open>asked\<close>: the teams whose log of notices shows the ask within the last week.\<close>

definition remind_team_page :: "fund_env \<Rightarrow> string list \<Rightarrow> string list \<Rightarrow> world \<Rightarrow> nat \<times> world" where
  "remind_team_page env asked teams w =
     ask_each env (filter (\<lambda>team. team \<notin> set asked) (map fst (teams_missing_details teams w))) w"

end
