(* ===== verification/Funding_Properties.thy ===== *)
theory Funding_Properties
  imports Funding Headroom_Properties Payment_Example
begin

text \<open>
  The gate on added spend: what it lets through for a team that nothing but its wallet backs, and what
  a service then adds to the team's run rate.
\<close>

section \<open>The wallet under its lock\<close>

lemma lock_balance:
  "lock_team_wallet tc team None l = Inr (b, l') \<Longrightarrow> b = fst (get_balance tc team None l)"
  by (auto simp: lock_team_wallet_def get_balance_def Let_def lock_and_read_balance_def ensure_wallet_def bindE_Inr
      split: option.splits if_splits)

lemma locked_headroom:
  assumes "credit_funded_headroom env team True es w = Inr (room, w')"
  shows "room \<le> max 0 (min (tier_cap env team) (wallet_of env team w) - team_run_rate es team None)
    \<and> pw_profiles w' = pw_profiles w \<and> pw_methods w' = pw_methods w \<and> pw_invoices w' = pw_invoices w"
  using assms lock_balance
  by (auto simp: credit_funded_headroom_def bindE_Inr wallet_of_def team_run_rate_sum locked_team_run_rate_sum split: if_splits)

text \<open>
  A team held to its wallet: the Central Settings require a payment method (\<open>require_payment_method\<close>),
  and the team has no card and no invoice paid by hand, or its billing profile is incomplete. With the
  setting off, a complete profile is enough and the wallet bounds nothing.
\<close>

definition unsecured :: "fund_env \<Rightarrow> string \<Rightarrow> world \<Rightarrow> bool" where
  "unsecured env team w \<longleftrightarrow> fu_require_method env
     \<and> \<not> (is_complete (pw_profiles w) team \<and> (has_active_payment_method team w \<or> has_paid_by_hand team w))"

lemma gate_passed:
  assumes pass: "require_payment_method_or_credit env team added es w = Inr w'"
  shows "\<not> is_behind_on_payment team es w"
    "unsecured env team w \<Longrightarrow> 0 < added \<Longrightarrow> team_run_rate es team None + added \<le> min (tier_cap env team) (wallet_of env team w)"
proof -
  from pass show "\<not> is_behind_on_payment team es w" by (auto simp: require_payment_method_or_credit_def)
  from pass obtain room w1 where room: "credit_funded_headroom env team True es w = Inr (room, w1)"
    and rest: "(if added \<le> room then Inr w1
        else if \<not> fu_require_method env then bindE (require_billing_profile (pw_profiles w1) team) (\<lambda>_. Inr w1)
        else if is_complete (pw_profiles w1) team \<and> (has_active_payment_method team w1 \<or> has_paid_by_hand team w1) then Inr w1
        else Inl (ValidationError ''PAYMENT_METHOD_REQUIRED'')) = Inr w'"
    by (auto simp: require_payment_method_or_credit_def wallet_funds_def bindE_Inr split: if_splits)
  note head = locked_headroom [OF room]
  assume un: "unsecured env team w" and pos: "0 < added"
  have "\<not> (is_complete (pw_profiles w1) team \<and> (has_active_payment_method team w1 \<or> has_paid_by_hand team w1))"
    using un head by (simp add: unsecured_def has_active_payment_method_def has_paid_by_hand_def collection_mode_def)
  with rest un have "added \<le> room" by (auto simp: unsecured_def split: if_splits)
  with head pos show "team_run_rate es team None + added \<le> min (tier_cap env team) (wallet_of env team w)" by linarith
qed


section \<open>What a service adds\<close>

lemma service_snapshot:
  "su_server s = None \<Longrightarrow> su_mode s = ''Preset'' \<Longrightarrow> su_plan s = Some p \<Longrightarrow> p \<noteq> [] \<Longrightarrow> truthy (team_money env (su_team s)) \<Longrightarrow>
   resolve_rate_snapshot env es s = (rate_in env p (team_money env (su_team s)) (su_cluster s), team_money env (su_team s))"
  by (simp add: resolve_rate_snapshot_def or_opt_def server_of_def Let_def)

definition known_changes :: "estate \<Rightarrow> bool" where
  "known_changes es \<longleftrightarrow> (\<forall>c \<in> set (es_changes es). sc_subscription c \<in> su_name ` set (es_subs es))"

lemma run_rate_after_open:
  assumes ins: "insert_sub env None s es = Inr es'" and known: "known_changes es" and on: "su_enabled s" "su_team s = team"
    and rate: "fst (resolve_rate_snapshot env es s) = Some r"
  shows "team_run_rate es' team None = team_run_rate es team None + r"
proof -
  have snap: "resolve_rate_snapshot env (es\<lparr>es_subs := x\<rparr>) s = resolve_rate_snapshot env es s" for x
    by (rule resolve_rate_snapshot_servers) simp
  from ins rate obtain c where new: "su_name s \<notin> su_name ` set (es_subs es)" and subs: "es_subs es' = es_subs es @ [s]"
    and changes: "es_changes es' = es_changes es @ [c]" and c: "sc_subscription c = su_name s" "sc_type c = ''Created''" "sc_rate c = Some r"
    by (auto simp: insert_sub_def append_change_Inr bindE_Inr Let_def snap split: if_splits option.splits prod.splits)
  have other: "current_segment_rate es' (su_name x) = current_segment_rate es (su_name x)" if "x \<in> set (es_subs es)" for x
  proof -
    from that new c have "sc_subscription c \<noteq> su_name x" by (metis imageI)
    then have "latest_segment es' (su_name x) = latest_segment es (su_name x)"
      by (intro latest_segment_append_other [OF changes]) simp
    then show ?thesis by (simp add: current_segment_rate_def)
  qed
  have "\<forall>d \<in> set (es_changes es). sc_subscription d \<noteq> su_name s" using new known unfolding known_changes_def by metis
  then have "latest_segment es' (su_name s) = Some c"
    using c by (intro latest_segment_append_own [OF changes]) (auto simp: SEGMENT_CHANGE_TYPES_def)
  then have own: "current_segment_rate es' (su_name s) = r" by (simp add: current_segment_rate_def c rate_of_change_def)
  have "sum_where (counted team None) (\<lambda>x. current_segment_rate es' (su_name x)) (es_subs es)
      = sum_where (counted team None) (\<lambda>x. current_segment_rate es (su_name x)) (es_subs es)"
    using other by (intro sum_where_cong) simp
  then show ?thesis using on own by (simp add: team_run_rate_sum subs counted_def)
qed

lemma head_segment:
  assumes "estate_wf es" "x \<in> set (es_subs es)"
  shows "(case active_segments (\<lambda>s. su_name s = su_name x) es of [] \<Rightarrow> 0 | g # _ \<Rightarrow> as_rate g) = current_segment_rate es (su_name x)"
proof -
  have one: "distinct (map su_name ys) \<Longrightarrow> x \<in> set ys \<Longrightarrow> filter (\<lambda>s. su_name s = su_name x) ys = [x]" for ys
    by (induction ys) (auto simp: filter_empty_conv image_iff)
  have "distinct (map su_name (rev (es_subs es)))" using assms(1) by (simp add: estate_wf_def rev_map [symmetric])
  with one assms(2) have "filter (\<lambda>s. su_name s = su_name x) (rev (es_subs es)) = [x]" by simp
  then show ?thesis by (auto simp: active_segments_def map_filter_simps segment_of_sub_def current_segment_rate_def split: option.split)
qed

lemma gated_simps [simp]: "se_profiles (gated env es w) = se_profiles (fu_sub env)" "se_staging_trial (gated env es w) = se_staging_trial (fu_sub env)"
  "team_money (gated env es w) = team_money (fu_sub env)" "se_ambient (gated env es w) = se_ambient (fu_sub env)"
  "rate_in (gated env es w) = rate_in (fu_sub env)"
  by (simp_all add: gated_def team_money_def rate_in_def fun_eq_iff)

lemma gate_for_more:
  assumes pass: "require_a_way_to_pay_for_more (gated env es w) es team sub (Some r) = None"
    and held: "\<not> is_internal_team (se_profiles (fu_sub env)) team" "\<not> se_staging_trial (fu_sub env) team"
    and before: "(case sub of None \<Rightarrow> 0 | Some n \<Rightarrow> (case active_segments (\<lambda>s. su_name s = n) es of [] \<Rightarrow> 0 | g # _ \<Rightarrow> as_rate g)) = old"
  shows "r \<le> old \<or> \<not> is_behind_on_payment team es w
    \<and> (unsecured env team w \<longrightarrow> team_run_rate es team None + (r - old) \<le> min (tier_cap env team) (wallet_of env team w))"
proof (cases "r \<le> old")
  case False
  have "(case case sub of None \<Rightarrow> [] | Some n \<Rightarrow> active_segments (\<lambda>s. su_name s = n) es of [] \<Rightarrow> 0 | g # _ \<Rightarrow> as_rate g) = old"
    using before by (cases sub) auto
  with pass False held have "se_payment_gate (gated env es w) team (r - old) = None"
    by (simp add: require_a_way_to_pay_for_more_def require_a_way_to_pay_def Let_def)
  then obtain w' where "require_payment_method_or_credit env team (r - old) es w = Inr w'"
    by (auto simp: gated_def split: sum.splits)
  from gate_passed [OF this] False show ?thesis by simp
qed simp


text \<open>The service's subscriptions of a team in a cluster, which the digest in the subject stands for.\<close>

definition subjects_ok :: "(string \<Rightarrow> string) \<Rightarrow> string \<Rightarrow> string option \<Rightarrow> estate \<Rightarrow> bool" where
  "subjects_ok digest team cluster es \<longleftrightarrow> (\<forall>s \<in> set (es_subs es). \<forall>category.
     su_subject s = Some (service_subject_id digest team category cluster) \<longrightarrow> su_team s = team \<and> su_cluster s = cluster \<and> su_server s = None)"

lemma service_upgrade_rate:
  assumes run: "change_plan env (su_name x) plan by_whom es = Inr es'" and wf: "estate_wf es" and x: "x \<in> set (es_subs es)"
    and on: "su_enabled x" "su_server x = None" "su_plan x \<noteq> Some plan" and past: "not_dated_ahead env es (su_name x)"
    and plan: "plan \<noteq> []" and money: "truthy (team_money env (su_team x))"
    and rate: "rate_in env plan (team_money env (su_team x)) (su_cluster x) = Some r"
  shows "team_run_rate es' (su_team x) None = team_run_rate es (su_team x) None + (r - current_segment_rate es (su_name x))"
proof -
  let ?s = "x\<lparr>su_mode := ''Preset'', su_plan := Some plan, su_sub_category := None, su_includes := []\<rparr>"
  have save: "save_sub env None by_whom ?s es = Inr es'"
    using run find_sub_wf [OF wf x] on(3) unfolding change_plan_def by (simp split: if_splits)
  have "resolve_rate_snapshot env es ?s = (rate_in env plan (team_money env (su_team x)) (su_cluster x), team_money env (su_team x))"
    using service_snapshot [of ?s plan env es] on(2) plan money by simp
  with rate have "rate_of_change (relock_of env None by_whom x ?s es) = r" by (simp add: relock_of_def rate_of_change_def)
  moreover have "billing_segment_changed x ?s" using on(3) by (simp add: billing_segment_changed_def)
  ultimately have "team_run_rate es' (su_team x) None = team_run_rate es (su_team x) (Some (su_name x)) + r"
    using rate_after_relock [OF save wf x] on(1) past by simp
  with run_rate_split [OF wf x refl on(1)] show ?thesis by simp
qed

text \<open>
  Property C25: what a service adds to a team that nothing but its wallet backs is covered by the wallet.
  Internal teams and staging trials are exempt: the code holds them to nothing here. For any other team with
  a currency, no change of whose subscriptions is dated ahead: when a service is opened or moved to another
  plan, the run rate does not grow while an invoice of the team is overdue or a subscription is behind; and
  where the Central Settings require a payment method and the team has none (no card and no invoice paid by
  hand, or an incomplete profile), a run rate that grew is within both the credit balance and the trust-tier cap.
\<close>

theorem service_within_wallet:
  assumes run: "provision_service_subscription (gated env es w) digest name team plan cluster start_date by_whom unlisted es = Inr (out, es')"
    and wf: "estate_wf es" "known_changes es" "\<forall>n. not_dated_ahead (fu_sub env) es n" "subjects_ok digest team cluster es"
    and plan: "plan \<noteq> []" and money: "truthy (team_money (fu_sub env) team)"
    and held: "\<not> is_internal_team (se_profiles (fu_sub env)) team" "\<not> se_staging_trial (fu_sub env) team"
  shows "team_run_rate es' team None \<le> team_run_rate es team None
    \<or> \<not> is_behind_on_payment team es w
      \<and> (unsecured env team w \<longrightarrow> team_run_rate es' team None \<le> min (tier_cap env team) (wallet_of env team w))"
proof -
  let ?env = "gated env es w"
  from run obtain category where run: "(let subject = service_subject_id digest team category cluster;
           existing = find (\<lambda>s. su_subject s = Some subject \<and> su_enabled s) (rev (es_subs es))
       in if map_option su_plan existing = Some (Some plan) then Inr (Reused (su_name (the existing)), es)
          else bindE (require_sellable_service_plan ?env team plan cluster unlisted) (\<lambda>rate.
            case require_a_way_to_pay_for_more ?env es team (map_option su_name existing) (Some rate) of
              Some e \<Rightarrow> Inl e
            | None \<Rightarrow> (case existing of
                Some x \<Rightarrow> bindE (change_plan ?env (su_name x) plan by_whom es) (\<lambda>es. Inr (Upgraded (su_name x), es))
              | None \<Rightarrow> bindE (insert_sub ?env None ((blank_sub name team)\<lparr>su_subject := Some subject, su_cluster := cluster,
                    su_plan := Some plan, su_enabled := True,
                    su_start_date := Some (case start_date of Some d \<Rightarrow> d | None \<Rightarrow> dt_date (se_now ?env))\<rparr>) es)
                  (\<lambda>es. Inr (Opened name, es))))) = Inr (out, es')"
    by (auto simp: provision_service_subscription_def bindE_Inr)
  define existing where "existing = find (\<lambda>s. su_subject s = Some (service_subject_id digest team category cluster) \<and> su_enabled s) (rev (es_subs es))"
  show ?thesis
  proof (cases "map_option su_plan existing = Some (Some plan)")
    case True
    with run show ?thesis by (simp add: Let_def existing_def)
  next
    case False
    with run obtain r where sell: "require_sellable_service_plan ?env team plan cluster unlisted = Inr r"
      and gate: "require_a_way_to_pay_for_more ?env es team (map_option su_name existing) (Some r) = None"
      and rest: "(case existing of Some x \<Rightarrow> change_plan ?env (su_name x) plan by_whom es = Inr es'
        | None \<Rightarrow> \<exists>sd. insert_sub ?env None ((blank_sub name team)\<lparr>su_subject := Some (service_subject_id digest team category cluster),
            su_cluster := cluster, su_plan := Some plan, su_enabled := True, su_start_date := sd\<rparr>) es = Inr es')"
      unfolding Let_def existing_def [symmetric] by (cases existing) (auto simp: bindE_Inr split: option.splits)
    have rate: "rate_in (fu_sub env) plan (team_money (fu_sub env) team) cluster = Some r"
      using sell by (auto simp: require_sellable_service_plan_def split: if_splits option.splits)
    have "\<exists>old. team_run_rate es' team None = team_run_rate es team None + (r - old)
      \<and> (case map_option su_name existing of None \<Rightarrow> 0
          | Some n \<Rightarrow> (case active_segments (\<lambda>s. su_name s = n) es of [] \<Rightarrow> 0 | g # _ \<Rightarrow> as_rate g)) = old"
    proof (cases existing)
      case None
      with rest obtain sd where ins: "insert_sub ?env None ((blank_sub name team)\<lparr>su_subject := Some (service_subject_id digest team category cluster),
            su_cluster := cluster, su_plan := Some plan, su_enabled := True, su_start_date := sd\<rparr>) es = Inr es'" by auto
      have "team_run_rate es' team None = team_run_rate es team None + r"
        by (rule run_rate_after_open [OF ins wf(2)])
          (use plan money rate in \<open>simp_all add: service_snapshot blank_sub_def\<close>)
      with None show ?thesis by simp
    next
      case (Some x)
      then have "x \<in> set (rev (es_subs es)) \<and> su_enabled x \<and> su_subject x = Some (service_subject_id digest team category cluster)"
        unfolding existing_def find_Some_iff by (metis nth_mem)
      then have x: "x \<in> set (es_subs es)" "su_enabled x" "su_subject x = Some (service_subject_id digest team category cluster)"
        by simp_all
      then have own: "su_team x = team" "su_cluster x = cluster" "su_server x = None"
        using wf(4) by (auto simp: subjects_ok_def)
      have "team_run_rate es' (su_team x) None = team_run_rate es (su_team x) None + (r - current_segment_rate es (su_name x))"
      proof (rule service_upgrade_rate [OF _ wf(1) x(1,2) own(3)])
        show "change_plan ?env (su_name x) plan by_whom es = Inr es'" using rest Some by simp
        show "su_plan x \<noteq> Some plan" using False Some by simp
        show "not_dated_ahead ?env es (su_name x)" using wf(3) by (simp add: not_dated_ahead_def)
      qed (use plan money rate own in simp_all)
      with Some own head_segment [OF wf(1) x(1)] show ?thesis by simp
    qed
    then obtain old where grown: "team_run_rate es' team None = team_run_rate es team None + (r - old)"
      and old: "(case map_option su_name existing of None \<Rightarrow> 0
          | Some n \<Rightarrow> (case active_segments (\<lambda>s. su_name s = n) es of [] \<Rightarrow> 0 | g # _ \<Rightarrow> as_rate g)) = old" by blast
    from gate_for_more [OF gate held old] grown show ?thesis by auto
  qed
qed


section \<open>A service on credit\<close>

definition service_catalog :: catalog where
  "service_catalog = \<lparr>ct_rates = [card_row ''Plan'' ''mail'' 500], ct_overrides = [],
     ct_categories = [\<lparr>pc_name = ''Mail'', pc_billing_type = ''Fixed'', pc_pricing_mode = None, pc_settlement_mode = None,
       pc_reporting_mode = None, pc_provision_target = None, pc_allowed = []\<rparr>],
     ct_plans = [\<lparr>pl_name = ''mail'', pl_category = ''Mail'', pl_sub_category = None, pl_active = True, pl_includes = []\<rparr>],
     ct_profiles = []\<rparr>"

definition credit_env :: fund_env where
  "credit_env = \<lparr>fu_pay = pay_env_with (Inr declined), fu_sub = capped_env\<lparr>se_catalog := service_catalog,
       se_profiles := example_profiles, se_tiers := [''t1'' \<mapsto> blank_profile\<lparr>tp_manual_override := True, tp_override_max_spend := 1000\<rparr>]\<rparr>,
     fu_method_type = (\<lambda>_. ''Card''), fu_require_method = True, fu_notify_ratio = 8 / 10, fu_unreachable = (\<lambda>_. False)\<rparr>"

definition credit_world :: world where
  "credit_world = due_world\<lparr>pw_ledger := example_ledger, pw_methods := [], pw_invoices := []\<rparr>"

definition open_mail :: "string \<Rightarrow> string \<Rightarrow> estate \<Rightarrow> error + service_outcome \<times> estate" where
  "open_mail name cluster es = provision_service_subscription (gated credit_env es credit_world) id name ''t1'' ''mail'' (Some cluster) None None False es"

definition mail_estate :: estate where
  "mail_estate = (case open_mail ''m1'' ''r'' empty_estate of Inr (_, es) \<Rightarrow> es | Inl _ \<Rightarrow> empty_estate)"

lemma mail_opens: "open_mail ''m1'' ''r'' empty_estate = Inr (Opened ''m1'', mail_estate)"
  by code_simp

text \<open>The second service would need 1000 a month and the wallet holds 550.\<close>

lemma second_mail_refused: "open_mail ''m2'' ''s'' mail_estate = Inl (ValidationError ''PAYMENT_METHOD_REQUIRED'')"
  by code_simp


theorem service_within_wallet_witness:
  "wallet_of credit_env ''t1'' credit_world = 550 \<and> team_run_rate mail_estate ''t1'' None = 500
    \<and> team_run_rate mail_estate ''t1'' None \<le> wallet_of credit_env ''t1'' credit_world"
proof -
  have pre: "estate_wf empty_estate" "known_changes empty_estate" "\<forall>n. not_dated_ahead (fu_sub credit_env) empty_estate n"
    "subjects_ok id ''t1'' (Some ''r'') empty_estate"
    by (simp_all add: empty_estate_def estate_wf_def known_changes_def not_dated_ahead_def subjects_ok_def)
  have team: "truthy (team_money (fu_sub credit_env) ''t1'')" "\<not> is_internal_team (se_profiles (fu_sub credit_env)) ''t1''"
    "\<not> se_staging_trial (fu_sub credit_env) ''t1''"
    by code_simp+
  have "unsecured credit_env ''t1'' credit_world" by code_simp
  moreover have "wallet_of credit_env ''t1'' credit_world = 550" "team_run_rate mail_estate ''t1'' None = 500"
    "team_run_rate empty_estate ''t1'' None = 0" by code_simp+
  ultimately show ?thesis
    using service_within_wallet [OF mail_opens [unfolded open_mail_def] pre _ team] by auto
qed

end
