(* ===== verification/Spec2Isabelle.thy ===== *)
theory Spec2Isabelle
  imports Credit_Expiry Declines Dunning_Ladder Invoice_Lines Charge_Properties Settlement_Properties Collection_Properties Webhooks Lifecycle_Properties Corrections_Properties Payment_Properties Standing_Properties Headroom_Properties Metering_Properties Billing_Run_Properties Catalog_Properties Rerating_Properties Money_Audit_Properties Dunning_Retries Funding_Properties
begin

text \<open>
  The billing of Central (\<open>src/central/billing\<close>): what a team runs, what it is billed, and how money is
  credited, charged, settled and given back. This is the root of the development; each theory opens with
  a note of its own.

  \<^bold>\<open>The program.\<close> A team has a Billing Profile and one wallet per currency, the sum of an append-only credit
  ledger. Its subscriptions lock a price from the catalog under a cap its trust tier gives, and append the
  changes that are billed later; meters report usage in batches. A monthly run rates a team's subscriptions,
  usage and commitment and drafts one invoice. Opening it draws on the wallet first; the rest is charged
  through the team's payment methods, each attempt on record before a gateway is called. A gateway answers
  at once, later by a signed event, or only when asked. A captured attempt settles its invoice, or its money
  goes to the wallet or back to its source. An unpaid invoice climbs the dunning ladder until the servers
  stop. Paid invoices are corrected by refunds, wrong prices by re-issuing, and a nightly audit derives
  the figures again. Every change of a status goes through one table of machines and appends an event.

  \<^bold>\<open>The theories, in the order they build on each other.\<close>
  \<^item> \<open>Prelude\<close>, \<open>Calendar\<close>: money in whole cents, rounding, dates and times, the error type.
  \<^item> \<open>States\<close> (\<open>states.py\<close>): the ten status machines, \<open>transition\<close> and the event stream; locales for
    closed and absorbing states, interpreted on the machines that have them.
  \<^item> \<open>Settings\<close>, \<open>Profiles\<close>, \<open>Invoices\<close>, \<open>Tax\<close>: the documents the rest reads, their validation, the
    dates of an invoice and its tax block.
  \<^item> \<open>Credits\<close> (\<open>revenue/credits.py\<close>) with \<open>Ledger_Invariant\<close>, \<open>Bookings\<close>, \<open>Top_Ups\<close>, \<open>Credit_Expiry\<close>: the
    ledger and its invariant, the retry of a booking, top-ups and their GST, the expiry sweep.
    \<open>Wallet_Store\<close> is the interface other components use of it, discharged by interpretation.
  \<^item> \<open>Declines\<close>, \<open>Dunning_Ladder\<close>, \<open>Invoice_Lines\<close>: what a decline means, the dates of the dunning ladder, and
    the line engine of an invoice (\<open>revenue/invoicing/lines.py\<close>).
  \<^item> \<open>Payment_Data\<close>, \<open>Rails\<close>, \<open>Charges\<close>, \<open>Settlement\<close>, \<open>Collection\<close>, \<open>Webhooks\<close>: the payment documents and the world
    they live in, which gateway may debit, one charge, the settlement of a capture, the rotation through a
    team's methods and its jobs, and the gateways' events. \<open>Attempt_Log\<close>, \<open>Charge_Safety\<close>, \<open>Settlement_Safety\<close>,
    \<open>Collection_Safety\<close> and \<open>Collection_Frames\<close> hold their lemmas, \<open>Payment_Example\<close> a concrete world.
  \<^item> \<open>Lifecycle\<close> (\<open>revenue/invoicing/lifecycle.py\<close>) with \<open>Lifecycle_Safety\<close>: opening, later credit,
    cancelling and waiving.
  \<^item> \<open>Corrections\<close> (\<open>payments/corrections.py\<close>, \<open>payments/disputes.py\<close>) with \<open>Corrections_Safety\<close>: refunds of a paid
    invoice, their chain of jobs, disputes. \<open>Reconciliation\<close> (\<open>payments/reconciliation.py\<close>): asking the gateways.
    \<open>Payment_Steps\<close> shows that every one of these operations is a run of the abstract attempt log.
  \<^item> \<open>Catalog\<close> (\<open>catalog/pricing.py\<close>, the Plan and Catalog Rate documents), \<open>Entitlements\<close>
    (\<open>catalog/entitlements.py\<close>), \<open>Subscriptions\<close> (\<open>catalog/subscriptions.py\<close>) with \<open>Subscription_Facts\<close>: prices
    and how one resolves, the ladder of trust, and the subscription with its standing, resizing and
    headroom.
  \<^item> \<open>Metering\<close> (\<open>revenue/metering.py\<close>, \<open>revenue/storage_usage.py\<close>) and \<open>Commitments\<close> (\<open>catalog/commitments.py\<close>):
    the ingest of usage and its lines, the discount and the clawback of a promised spend.
  \<^item> \<open>Generation\<close>, \<open>Billing_Run\<close> (\<open>revenue/invoicing/generate.py\<close>, \<open>run.py\<close>), \<open>Rerating\<close> (\<open>revenue/rerating.py\<close>):
    one draft, the monthly run over all teams, and re-issuing after a wrong price.
  \<^item> \<open>Funding\<close> (\<open>payments/settlement.py\<close> and the payment gate of \<open>resource_actions.py\<close>): what a team can pay with and
    what its credit lets it add.
  \<^item> \<open>Dunning_Run\<close> (\<open>revenue/dunning.py\<close>) and \<open>Money_Audit\<close> (\<open>platform/invariants.py\<close>): climbing the ladder, and
    the daily audit.
  \<^item> The \<open>_Properties\<close> theories hold the properties that span these, with a witness each.

  \<^bold>\<open>What the lemmas show.\<close> The ledger: every reachable ledger is sound, so the audit finds no drift, and
  what it would find if an entry vanished. Charging: at most one live charge per invoice whatever
  interleaves, and every captured cent accounted for. Billing: every instant a subscription ran is billed
  once, every team has one invoice a month that adds up, no reported batch counts twice. Standing: no
  suspension before its date, and a payment gives back what the suspension took. Where the code does not
  keep what it promises, a theorem states what it does.

  \<^bold>\<open>Conventions.\<close> A document is a record with the fields the code reads; a table is a list in creation
  order; the database is the record \<open>world\<close> for payments, \<open>estate\<close> for subscriptions, and \<open>books\<close> for
  both with usage and outcomes. An operation returns its value or its exception and the state. The
  state beside an exception is what is committed then: nothing of the operation's own unless it commits on
  the way. Row locks make an operation one step. Money is rational; \<open>frappe.utils.flt(x, 2)\<close> is an argument
  with the laws \<open>cents_rounding\<close>. Gateways, random names and hashes are arguments; nothing is assumed of a
  gateway's answers, and of names and hashes that different inputs give different ones (\<open>good_names\<close>).

  \<^bold>\<open>Loops and fuel.\<close> The retries are those of the code: six attempts at a booking (\<open>DEADLOCK_RETRIES\<close>), five at
  an invoice (\<open>INVOICE_DEADLOCK_RETRIES\<close>), four at a team of a run (\<open>CONTENTION_RETRIES\<close>), three at a usage batch
  (\<open>INGEST_RACE_RETRIES\<close>); what is met at each attempt is an argument. The \<open>while True\<close> of \<open>collect_invoice\<close> is a
  partial function whose None is a run that never ends; \<open>collection_ends\<close> shows it always ends, and
  \<open>correction_chain_ends\<close> that the chain of refund jobs does. The paging of a run terminates by a measure. The other
  loops run over finite lists.

  \<^bold>\<open>Not modelled.\<close> Gateway adapters and their parsing, signatures and network calls; the web API,
  dashboards, pages and reports, which read what is modelled; notices, alerts, metrics and readiness checks;
  the sync to the accounting system; projections; mandates, payment methods and signups; the set-up of a
  catalog; the demo and the tests; the servers, sites and teams outside \<open>billing\<close>.
  The half of \<open>open_drafts\<close> that works in one process, \<open>run_monthly_billing\<close>, \<open>generate_draft_invoice\<close> and
  \<open>rate_subscription_period\<close> are called from nowhere in the program.
  Deadlocks and lost races are modelled where the code retries them (\<open>Bookings\<close>, \<open>Generation\<close>,
  \<open>Billing_Run\<close>, \<open>Metering\<close>, and \<open>Rerating\<close>, whose draft retries inside its own transaction), with the rollback
  of the whole transaction a deadlock brings; elsewhere an operation that takes its row locks is one step.
\<close>

end
